(* ===== verification/Prelude.thy ===== *)
theory Prelude
  imports Complex_Main "HOL-Library.Multiset" "HOL-Library.AList" "HOL-Library.Char_ord" "HOL-Library.List_Lexorder"
begin

text \<open>
  Shared vocabulary of the development: the types every component uses, the
  fragment of Python's standard library the sources call (string normalisation,
  substring search, splitting at the first colon, stable sorting, truthiness of
  optional values), and generic lemmas on them.

  Strings are \<^typ>\<open>string\<close>; \<open>strip\<close> and \<open>lower\<close> act on the ASCII repertoire.
  USD amounts, ratios and clock readings are \<^typ>\<open>rat\<close>: the sources use
  floating point, the model is exact.
\<close>

type_synonym usd = rat
type_synonym time = rat
type_synonym deployment = "string \<times> string"

text \<open>
  JSON values: tool schemas and arguments, stored documents, summary payloads. Text written by
  \<open>json.dumps\<close> is represented by the value it denotes; \<open>JNum\<close> is a number with a fraction.
\<close>

datatype json =
    JNull
  | JBool bool
  | JInt int
  | JNum rat
  | JStr string
  | JList "json list"
  | JObj "(string \<times> json) list"

named_theorems py_simps \<open>unfolding rules for the Python helpers\<close>
named_theorems inv_rules \<open>preservation lemmas of component invariants\<close>

section \<open>Strings\<close>

definition is_space :: "char \<Rightarrow> bool" where
  "is_space c = (let n = (of_char c :: nat) in 9 \<le> n \<and> n \<le> 13 \<or> 28 \<le> n \<and> n \<le> 32)"

definition lower_char :: "char \<Rightarrow> char" where
  "lower_char c = (let n = (of_char c :: nat) in if 65 \<le> n \<and> n \<le> 90 then char_of (n + 32) else c)"

definition upper_char :: "char \<Rightarrow> char" where
  "upper_char c = (let n = (of_char c :: nat) in if 97 \<le> n \<and> n \<le> 122 then char_of (n - 32) else c)"

definition py_upper :: "string \<Rightarrow> string" where
  "py_upper s = map upper_char s"

definition py_lower :: "string \<Rightarrow> string" where
  "py_lower s = map lower_char s"

definition py_strip :: "string \<Rightarrow> string" where
  "py_strip s = rev (dropWhile is_space (rev (dropWhile is_space s)))"

text \<open>\<open>m in text\<close> for strings.\<close>

fun py_in :: "string \<Rightarrow> string \<Rightarrow> bool" where
  "py_in m [] = (m = [])"
| "py_in m (c # cs) = (take (length m) (c # cs) = m \<or> py_in m cs)"

text \<open>\<open>text.startswith(p)\<close>.\<close>

definition py_startswith :: "string \<Rightarrow> string \<Rightarrow> bool" where
  "py_startswith p s = (take (length p) s = p)"

text \<open>\<open>s.split(c, 1)\<close> for a string that contains \<open>c\<close>.\<close>

definition py_split1 :: "char \<Rightarrow> string \<Rightarrow> string \<times> string" where
  "py_split1 c s = (takeWhile (\<lambda>x. x \<noteq> c) s, tl (dropWhile (\<lambda>x. x \<noteq> c) s))"

text \<open>\<open>sep.join(parts)\<close>.\<close>

fun py_join :: "string \<Rightarrow> string list \<Rightarrow> string" where
  "py_join sep [] = []"
| "py_join sep [x] = x"
| "py_join sep (x # y # ys) = x @ sep @ py_join sep (y # ys)"

section \<open>Truthiness\<close>

text \<open>\<open>x or d\<close> for an optional string and an optional number, and \<open>bool(x)\<close>.\<close>

definition truthy_str :: "string option \<Rightarrow> bool" where
  "truthy_str x = (case x of None \<Rightarrow> False | Some s \<Rightarrow> s \<noteq> [])"

definition str_or :: "string option \<Rightarrow> string \<Rightarrow> string" where
  "str_or x d = (case x of None \<Rightarrow> d | Some s \<Rightarrow> if s = [] then d else s)"

definition num_or :: "'a::zero option \<Rightarrow> 'a \<Rightarrow> 'a" where
  "num_or x d = (case x of None \<Rightarrow> d | Some n \<Rightarrow> if n = 0 then d else n)"

definition get_or :: "'a option \<Rightarrow> 'a \<Rightarrow> 'a" where
  "get_or x d = (case x of None \<Rightarrow> d | Some y \<Rightarrow> y)"

section \<open>Lists\<close>

text \<open>\<open>if x not in xs: xs.append(x)\<close>.\<close>

definition append_new :: "'a list \<Rightarrow> 'a \<Rightarrow> 'a list" where
  "append_new xs x = (if x \<in> set xs then xs else xs @ [x])"

text \<open>\<open>for y in ys: if y not in xs: xs.append(y)\<close>.\<close>

definition extend_new :: "'a list \<Rightarrow> 'a list \<Rightarrow> 'a list" where
  "extend_new xs ys = fold (\<lambda>y acc. append_new acc y) ys xs"

text \<open>\<open>sorted(xs, key=f)\<close> and \<open>sorted(xs, key=f, reverse=True)\<close>: both are stable.\<close>

definition py_sorted :: "('a \<Rightarrow> 'k::linorder) \<Rightarrow> 'a list \<Rightarrow> 'a list" where
  "py_sorted f xs = sort_key f xs"

definition py_sorted_desc :: "('a \<Rightarrow> 'k::linorder) \<Rightarrow> 'a list \<Rightarrow> 'a list" where
  "py_sorted_desc f xs = rev (sort_key f (rev xs))"

section \<open>Lemmas\<close>

text \<open>\<open>str(n)\<close> of an integer, and \<open>f"{x:.2f}"\<close> with Python's rounding of halves to even.\<close>

fun py_str_nat :: "nat \<Rightarrow> string" where
  "py_str_nat n = (if n < 10 then [char_of (48 + n)] else py_str_nat (n div 10) @ [char_of (48 + n mod 10)])"

definition py_str_int :: "int \<Rightarrow> string" where
  "py_str_int n = (if n < 0 then CHR ''-'' # py_str_nat (nat (- n)) else py_str_nat (nat n))"

definition round_half_even :: "rat \<Rightarrow> int" where
  "round_half_even x = (let f = \<lfloor>x\<rfloor>; d = x - of_int f
     in if d < 1/2 then f else if 1/2 < d then f + 1 else if even f then f else f + 1)"

definition py_fixed2 :: "rat \<Rightarrow> string" where
  "py_fixed2 x = (let n = nat (round_half_even (\<bar>x\<bar> * 100))
     in (if x < 0 then ''-'' else []) @ py_str_nat (n div 100) @ ''.'' @ [char_of (48 + n div 10 mod 10), char_of (48 + n mod 10)])"

declare py_str_nat.simps [simp del]

lemmas [py_simps] = is_space_def lower_char_def py_lower_def py_strip_def py_split1_def
  truthy_str_def str_or_def num_or_def get_or_def append_new_def py_startswith_def

text \<open>Code equations that read the bits of a character.\<close>

lemma lower_char_code [code]:
  "lower_char (Char b0 b1 b2 b3 b4 b5 b6 b7) =
     Char b0 b1 b2 b3 b4
       (b5 \<or> \<not> b7 \<and> b6 \<and> (b0 \<or> b1 \<or> b2 \<or> b3 \<or> b4) \<and> \<not> (b4 \<and> b3 \<and> (b2 \<or> b1 \<and> b0))) b6 b7"
  by (cases b0; cases b1; cases b2; cases b3; cases b4; cases b5; cases b6; cases b7; simp add: lower_char_def char_of_def bit_0)

lemma upper_char_code [code]:
  "upper_char (Char b0 b1 b2 b3 b4 b5 b6 b7) =
     Char b0 b1 b2 b3 b4
       (b5 \<and> \<not> (\<not> b7 \<and> b6 \<and> (b0 \<or> b1 \<or> b2 \<or> b3 \<or> b4) \<and> \<not> (b4 \<and> b3 \<and> (b2 \<or> b1 \<and> b0)))) b6 b7"
  by (cases b0; cases b1; cases b2; cases b3; cases b4; cases b5; cases b6; cases b7; simp add: upper_char_def char_of_def bit_0)

lemma is_space_code [code]:
  "is_space (Char b0 b1 b2 b3 b4 b5 b6 b7) \<longleftrightarrow> \<not> b7 \<and> \<not> b6 \<and>
     (\<not> b5 \<and> \<not> b4 \<and> b3 \<and> (\<not> b2 \<and> (b0 \<or> b1) \<or> b2 \<and> \<not> b1)
      \<or> \<not> b5 \<and> b4 \<and> b3 \<and> b2
      \<or> b5 \<and> \<not> b4 \<and> \<not> b3 \<and> \<not> b2 \<and> \<not> b1 \<and> \<not> b0)"
  by (cases b0; cases b1; cases b2; cases b3; cases b4; cases b5; cases b6; cases b7; simp add: is_space_def)

lemma is_space_lower_char [simp]: "is_space (lower_char c) = is_space c"
proof -
  have "(of_char c :: nat) < 256" by simp
  then show ?thesis by (auto simp: is_space_def lower_char_def Let_def)
qed

lemma lower_char_idem [simp]: "lower_char (lower_char c) = lower_char c"
proof -
  have "(of_char c :: nat) < 256" by simp
  then show ?thesis by (auto simp: lower_char_def Let_def)
qed

lemma py_lower_idem [simp]: "py_lower (py_lower s) = py_lower s"
  by (simp add: py_lower_def)

lemma py_lower_Nil [simp]: "py_lower [] = []"
  by (simp add: py_lower_def)

lemma py_strip_Nil [simp]: "py_strip [] = []"
  by (simp add: py_strip_def)

lemma py_strip_lower: "py_strip (py_lower s) = py_lower (py_strip s)"
  by (simp add: py_strip_def py_lower_def dropWhile_map o_def rev_map)

lemma dropWhile_idem_hd: "dropWhile P (dropWhile P xs) = dropWhile P xs"
  by (induction xs) auto

lemma dropWhile_id: "xs = [] \<or> \<not> P (hd xs) \<Longrightarrow> dropWhile P xs = xs"
  by (cases xs) auto

lemma dropWhile_rev_dropWhile:
  "dropWhile P (rev (dropWhile P (rev (dropWhile P xs)))) = rev (dropWhile P (rev (dropWhile P xs)))"
proof (rule dropWhile_id)
  let ?ys = "dropWhile P xs"
  obtain us where us: "?ys = rev (dropWhile P (rev ?ys)) @ us"
    using takeWhile_dropWhile_id [of P "rev ?ys"]
    by (metis rev_append rev_rev_ident)
  show "rev (dropWhile P (rev ?ys)) = [] \<or> \<not> P (hd (rev (dropWhile P (rev ?ys))))"
  proof (cases "rev (dropWhile P (rev ?ys))")
    case (Cons z zs)
    with us have "?ys \<noteq> []" and "hd ?ys = z" by auto
    with hd_dropWhile [of P xs] Cons show ?thesis by simp
  qed simp
qed

lemma py_strip_idem [simp]: "py_strip (py_strip s) = py_strip s"
proof -
  have "py_strip (py_strip s) =
      rev (dropWhile is_space (rev (dropWhile is_space (rev (dropWhile is_space (rev (dropWhile is_space s)))))))"
    by (simp add: py_strip_def)
  also have "\<dots> = rev (dropWhile is_space (dropWhile is_space (rev (dropWhile is_space s))))"
    by (simp only: dropWhile_rev_dropWhile rev_rev_ident)
  finally show ?thesis by (simp add: py_strip_def dropWhile_idem_hd)
qed

lemma py_in_iff: "py_in m t \<longleftrightarrow> (\<exists>u v. t = u @ m @ v)"
proof (induction t)
  case Nil
  then show ?case by auto
next
  case (Cons c cs)
  have "take (length m) (c # cs) = m \<longleftrightarrow> (\<exists>v. c # cs = m @ v)"
    by (metis append_eq_conv_conj append_take_drop_id)
  moreover have "(\<exists>u v. c # cs = u @ m @ v) \<longleftrightarrow> (\<exists>v. c # cs = m @ v) \<or> (\<exists>u v. cs = u @ m @ v)"
    by (auto simp: Cons_eq_append_conv)
  ultimately show ?case using Cons.IH by simp
qed

lemma py_split1_join:
  assumes "c \<in> set s"
  shows "fst (py_split1 c s) @ c # snd (py_split1 c s) = s"
  using assms by (induction s) (auto simp: py_split1_def)

lemma py_split1_append:
  assumes "c \<notin> set p"
  shows "py_split1 c (p @ c # m) = (p, m)"
  using assms by (induction p) (auto simp: py_split1_def)

lemma set_append_new [simp]: "set (append_new xs x) = insert x (set xs)"
  by (auto simp: append_new_def)

lemma distinct_append_new [simp]: "distinct (append_new xs x) = distinct xs"
  by (auto simp: append_new_def)

lemma append_new_not_Nil [simp]: "append_new xs x \<noteq> []"
  by (auto simp: append_new_def)

lemma extend_new_simps [simp]:
  "extend_new xs [] = xs"
  "extend_new xs (y # ys) = extend_new (append_new xs y) ys"
  by (simp_all add: extend_new_def)

lemma set_extend_new [simp]: "set (extend_new xs ys) = set xs \<union> set ys"
  by (induction ys arbitrary: xs) auto

lemma distinct_extend_new [simp]: "distinct (extend_new xs ys) = distinct xs"
  by (induction ys arbitrary: xs) auto

lemma extend_new_prefix: "\<exists>zs. extend_new xs ys = xs @ zs"
proof (induction ys arbitrary: xs)
  case (Cons y ys)
  obtain zs where "extend_new (append_new xs y) ys = append_new xs y @ zs"
    using Cons.IH by blast
  then show ?case by (auto simp: append_new_def)
qed simp

lemma hd_extend_new: "xs \<noteq> [] \<Longrightarrow> hd (extend_new xs ys) = hd xs"
  using extend_new_prefix [of xs ys] by auto

lemma hd_append_new: "xs \<noteq> [] \<Longrightarrow> hd (append_new xs y) = hd xs"
  by (simp add: append_new_def)

lemma extend_new_not_Nil [simp]: "extend_new xs ys = [] \<longleftrightarrow> xs = [] \<and> ys = []"
  by (induction ys arbitrary: xs) auto

lemma set_py_sorted [simp]: "set (py_sorted f xs) = set xs"
  by (simp add: py_sorted_def)

lemma mset_py_sorted [simp]: "mset (py_sorted f xs) = mset xs"
  by (simp add: py_sorted_def)

lemma length_py_sorted [simp]: "length (py_sorted f xs) = length xs"
  by (simp add: py_sorted_def)

lemma sorted_py_sorted [simp]: "sorted (map f (py_sorted f xs))"
  by (simp add: py_sorted_def)

lemma distinct_py_sorted [simp]: "distinct (py_sorted f xs) = distinct xs"
  by (simp add: py_sorted_def)

lemma py_sorted_ascending: "sorted_wrt (<) (map f xs) \<Longrightarrow> py_sorted f xs = xs"
  unfolding py_sorted_def by (rule sort_key_id_if_sorted) (simp add: strict_sorted_imp_sorted)

lemma set_py_sorted_desc [simp]: "set (py_sorted_desc f xs) = set xs"
  by (simp add: py_sorted_desc_def)

lemma length_py_sorted_desc [simp]: "length (py_sorted_desc f xs) = length xs"
  by (simp add: py_sorted_desc_def)

lemma distinct_py_sorted_desc [simp]: "distinct (py_sorted_desc f xs) = distinct xs"
  by (simp add: py_sorted_desc_def)

lemma sorted_py_sorted_desc: "sorted_wrt (\<lambda>x y. f y \<le> f x) (py_sorted_desc f xs)"
proof -
  have "sorted_wrt (\<lambda>x y. f x \<le> f y) (sort_key f (rev xs))"
    using sorted_sort_key [of f "rev xs"] by (simp add: sorted_wrt_map)
  then show ?thesis by (simp add: py_sorted_desc_def sorted_wrt_rev)
qed

lemma py_sorted_desc_stable:
  "filter (\<lambda>y. f y = k) (py_sorted_desc f xs) = filter (\<lambda>y. f y = k) xs"
  by (simp add: py_sorted_desc_def rev_filter [symmetric] sort_key_stable)

lemma hd_py_sorted_le:
  assumes "xs \<noteq> []" and "x \<in> set xs"
  shows "f (hd (py_sorted f xs)) \<le> f x"
proof -
  have ne: "py_sorted f xs \<noteq> []" using assms(1) by (metis length_0_conv length_py_sorted)
  then obtain y ys where "py_sorted f xs = y # ys" by (cases "py_sorted f xs") auto
  moreover have "x \<in> set (py_sorted f xs)" using assms(2) by simp
  ultimately show ?thesis using sorted_py_sorted [of f xs] by auto
qed

lemma hd_py_sorted_desc_ge:
  assumes "xs \<noteq> []" and "x \<in> set xs"
  shows "f x \<le> f (hd (py_sorted_desc f xs))"
proof -
  have ne: "py_sorted_desc f xs \<noteq> []" using assms(1) by (metis length_0_conv length_py_sorted_desc)
  then obtain y ys where "py_sorted_desc f xs = y # ys" by (cases "py_sorted_desc f xs") auto
  moreover have "x \<in> set (py_sorted_desc f xs)" using assms(2) by simp
  ultimately show ?thesis using sorted_py_sorted_desc [of f xs] by auto
qed

text \<open>How replacing one element changes the number of elements with a property.\<close>

lemma length_filter_update:
  assumes "i < length xs"
  shows "length (filter P (xs[i := v])) + (if P (xs ! i) then 1 else 0) = length (filter P xs) + (if P v then 1 else 0)"
  using assms
proof (induction xs arbitrary: i)
  case (Cons x xs)
  show ?case
  proof (cases i)
    case (Suc j)
    with Cons.IH [of j] Cons.prems show ?thesis by (simp split: if_splits)
  qed simp
qed simp

lemma find_append: "find P (xs @ ys) = (case find P xs of None \<Rightarrow> find P ys | Some z \<Rightarrow> Some z)"
  by (induction xs) auto

lemma find_SomeD: "find P xs = Some x \<Longrightarrow> x \<in> set xs \<and> P x"
  by (induction xs) (auto split: if_splits)

end
