(* ===== verification/Breakers.thy ===== *)
theory Breakers
  imports Prelude
begin

text \<open>
  The three failure gates of the system: the call-wrapping circuit breaker
  (\<open>infrastructure/patterns/circuit_breaker.py\<close>), the Redis dependency breaker
  (\<open>gateway/cooldown.py\<close>) and the per-thread compaction breaker
  (\<open>application/compaction/breaker.py\<close>), with the contract they share: a run of
  consecutive failures shorter than the threshold never blocks, the failure that
  reaches the threshold blocks for the recovery time. Clock readings of
  \<open>time.monotonic()\<close> are arguments.
\<close>

section \<open>Circuit breaker\<close>

datatype circuit_state = CLOSED | OPEN | HALF_OPEN

record cb_config =
  cbc_name :: string
  cbc_failure_threshold :: int
  cbc_recovery_timeout :: time
  cbc_half_open_max_calls :: int
  cbc_successes_to_close :: int

definition cb_default_config :: cb_config where
  "cb_default_config = \<lparr>cbc_name = ''default'', cbc_failure_threshold = 5, cbc_recovery_timeout = 30,
     cbc_half_open_max_calls = 3, cbc_successes_to_close = 2\<rparr>"

record circuit_breaker =
  cb_state :: circuit_state
  cb_failure_count :: int
  cb_success_count :: int
  cb_half_open_calls :: int
  cb_last_failure_time :: time

definition cb_init :: circuit_breaker where
  "cb_init = \<lparr>cb_state = CLOSED, cb_failure_count = 0, cb_success_count = 0,
     cb_half_open_calls = 0, cb_last_failure_time = 0\<rparr>"

text \<open>\<open>CircuitBreakerOpenError\<close> with the time until which the breaker reports itself open.\<close>

datatype cb_error = CircuitBreakerOpen time

definition cb_enter :: "cb_config \<Rightarrow> time \<Rightarrow> circuit_breaker \<Rightarrow> (cb_error + unit) \<times> circuit_breaker" where
  "cb_enter cfg now b =
     (let guard = (\<lambda>b. if cb_state b = HALF_OPEN \<and> cbc_half_open_max_calls cfg \<le> cb_half_open_calls b
                       then (Inl (CircuitBreakerOpen (now + 5)), b) else (Inr (), b))
      in if cb_state b = OPEN
         then if cbc_recovery_timeout cfg \<le> now - cb_last_failure_time b
              then guard (b\<lparr>cb_state := HALF_OPEN, cb_half_open_calls := 0, cb_success_count := 0\<rparr>)
              else (Inl (CircuitBreakerOpen (cb_last_failure_time b + cbc_recovery_timeout cfg)), b)
         else guard b)"

definition cb_record_success :: "cb_config \<Rightarrow> circuit_breaker \<Rightarrow> circuit_breaker" where
  "cb_record_success cfg b =
     (case cb_state b of
        HALF_OPEN \<Rightarrow>
          (let b1 = b\<lparr>cb_success_count := cb_success_count b + 1\<rparr>
           in if cbc_successes_to_close cfg \<le> cb_success_count b1
              then b1\<lparr>cb_state := CLOSED, cb_failure_count := 0, cb_success_count := 0, cb_half_open_calls := 0\<rparr>
              else b1)
      | CLOSED \<Rightarrow> b\<lparr>cb_failure_count := 0\<rparr>
      | OPEN \<Rightarrow> b)"

definition cb_record_failure :: "cb_config \<Rightarrow> time \<Rightarrow> circuit_breaker \<Rightarrow> circuit_breaker" where
  "cb_record_failure cfg now b =
     (let b1 = b\<lparr>cb_last_failure_time := now\<rparr>
      in case cb_state b1 of
           HALF_OPEN \<Rightarrow> b1\<lparr>cb_state := OPEN, cb_half_open_calls := 0, cb_success_count := 0\<rparr>
         | CLOSED \<Rightarrow>
             (let b2 = b1\<lparr>cb_failure_count := cb_failure_count b1 + 1\<rparr>
              in if cbc_failure_threshold cfg \<le> cb_failure_count b2 then b2\<lparr>cb_state := OPEN\<rparr> else b2)
         | OPEN \<Rightarrow> b1)"

datatype ('e, 'a) cb_outcome = Rejected cb_error | Raised 'e | Returned 'a

text \<open>\<open>call\<close>: the guarded function runs between the two critical sections.\<close>

definition cb_call ::
  "cb_config \<Rightarrow> time \<Rightarrow> time \<Rightarrow> ('w \<Rightarrow> ('e + 'a) \<times> 'w) \<Rightarrow> circuit_breaker \<Rightarrow> 'w
     \<Rightarrow> ('e, 'a) cb_outcome \<times> circuit_breaker \<times> 'w" where
  "cb_call cfg now later fn b w =
     (case cb_enter cfg now b of
        (Inl e, b1) \<Rightarrow> (Rejected e, b1, w)
      | (Inr _, b1) \<Rightarrow>
          (case fn w of
             (Inr x, w1) \<Rightarrow> (Returned x, cb_record_success cfg b1, w1)
           | (Inl e, w1) \<Rightarrow> (Raised e, cb_record_failure cfg later b1, w1)))"

text \<open>
  Concurrent calls interleave at their critical sections: a history is a sequence of
  entries and completions in any order.
\<close>

datatype cb_event = CbEnter time | CbSuccess | CbFailure time

definition cb_step :: "cb_config \<Rightarrow> circuit_breaker \<Rightarrow> cb_event \<Rightarrow> circuit_breaker" where
  "cb_step cfg b e = (case e of CbEnter t \<Rightarrow> snd (cb_enter cfg t b)
                             | CbSuccess \<Rightarrow> cb_record_success cfg b
                             | CbFailure t \<Rightarrow> cb_record_failure cfg t b)"

definition cb_run :: "cb_config \<Rightarrow> cb_event list \<Rightarrow> circuit_breaker" where
  "cb_run cfg es = foldl (cb_step cfg) cb_init es"

section \<open>Redis dependency breaker\<close>

record db_config =
  dbc_failure_threshold :: int
  dbc_recovery_timeout :: time

record dependency_breaker =
  db_consecutive_failures :: int
  db_open_since :: time
  db_probe_ok :: "bool option"

definition db_init :: dependency_breaker where
  "db_init = \<lparr>db_consecutive_failures = 0, db_open_since = 0, db_probe_ok = None\<rparr>"

definition db_is_open :: "db_config \<Rightarrow> time \<Rightarrow> dependency_breaker \<Rightarrow> bool" where
  "db_is_open cfg now b =
     (if db_consecutive_failures b < dbc_failure_threshold cfg then False
      else if now - db_open_since b < dbc_recovery_timeout cfg then True
      else \<not> get_or (db_probe_ok b) False)"

definition db_fast_fail :: "db_config \<Rightarrow> time \<Rightarrow> dependency_breaker \<Rightarrow> bool" where
  "db_fast_fail cfg now b = db_is_open cfg now b"

definition db_record_failure :: "db_config \<Rightarrow> time \<Rightarrow> dependency_breaker \<Rightarrow> dependency_breaker" where
  "db_record_failure cfg now b =
     (let was_open = db_is_open cfg now b;
          b1 = b\<lparr>db_consecutive_failures := db_consecutive_failures b + 1, db_probe_ok := None\<rparr>
      in if dbc_failure_threshold cfg \<le> db_consecutive_failures b1 \<and> \<not> was_open
         then b1\<lparr>db_open_since := now\<rparr> else b1)"

definition db_record_success :: "dependency_breaker \<Rightarrow> dependency_breaker" where
  "db_record_success b = b\<lparr>db_consecutive_failures := 0, db_probe_ok := None, db_open_since := 0\<rparr>"

text \<open>\<open>ping_ok\<close>: whether the awaited ping returned rather than raised.\<close>

definition db_probe :: "time \<Rightarrow> bool \<Rightarrow> dependency_breaker \<Rightarrow> bool \<times> dependency_breaker" where
  "db_probe now ping_ok b =
     (if ping_ok then (True, db_record_success b)
      else (False, b\<lparr>db_probe_ok := Some False, db_open_since := now\<rparr>))"

section \<open>Compaction breaker\<close>

record kb_config =
  kbc_max_failures :: int
  kbc_recovery_timeout :: time

definition kb_default_config :: kb_config where
  "kb_default_config = \<lparr>kbc_max_failures = 3, kbc_recovery_timeout = 300\<rparr>"

type_synonym compaction_breaker = "string \<Rightarrow> (int \<times> time option) option"

definition kb_record_failure ::
  "kb_config \<Rightarrow> time \<Rightarrow> string \<Rightarrow> compaction_breaker \<Rightarrow> int \<times> compaction_breaker" where
  "kb_record_failure cfg now key st =
     (let failures = fst (get_or (st key) (0, None)) + 1
      in (failures, st(key := Some (failures, if kbc_max_failures cfg \<le> failures then Some now else None))))"

definition kb_record_success :: "string \<Rightarrow> compaction_breaker \<Rightarrow> compaction_breaker" where
  "kb_record_success key st = st(key := None)"

definition kb_is_tripped ::
  "kb_config \<Rightarrow> time \<Rightarrow> string \<Rightarrow> compaction_breaker \<Rightarrow> bool \<times> compaction_breaker" where
  "kb_is_tripped cfg now key st =
     (case st key of
        None \<Rightarrow> (False, st)
      | Some (failures, None) \<Rightarrow> (False, st)
      | Some (failures, Some tripped_at) \<Rightarrow>
          if kbc_recovery_timeout cfg \<le> now - tripped_at then (False, st(key := None)) else (True, st))"

section \<open>The shared contract\<close>

locale failure_gate =
  fixes gate_inv :: "'b \<Rightarrow> bool"
    and fails :: "'b \<Rightarrow> int"
    and gate_fail :: "time \<Rightarrow> 'b \<Rightarrow> 'b"
    and blocked :: "time \<Rightarrow> 'b \<Rightarrow> bool"
    and threshold :: int
    and timeout :: time
  assumes inv_fail: "gate_inv b \<Longrightarrow> gate_inv (gate_fail t b)"
    and below_not_blocked: "gate_inv b \<Longrightarrow> fails b < threshold \<Longrightarrow> \<not> blocked t b"
    and fail_counts: "gate_inv b \<Longrightarrow> fails b < threshold \<Longrightarrow> fails (gate_fail t b) = fails b + 1"
    and fail_trips: "gate_inv b \<Longrightarrow> fails b < threshold \<Longrightarrow> threshold \<le> fails (gate_fail t b)
      \<Longrightarrow> t' - t < timeout \<Longrightarrow> blocked t' (gate_fail t b)"
begin

lemma inv_run: "gate_inv b \<Longrightarrow> gate_inv (fold gate_fail ts b)"
  by (induction ts arbitrary: b) (auto intro: inv_fail)

lemma fails_run:
  "gate_inv b \<Longrightarrow> fails b + int (length ts) \<le> threshold \<Longrightarrow>
   fails (fold gate_fail ts b) = fails b + int (length ts)"
proof (induction ts rule: rev_induct)
  case (snoc t ts)
  then have "fails (fold gate_fail ts b) = fails b + int (length ts)" by simp
  with snoc.prems fail_counts [of "fold gate_fail ts b" t] inv_run [of b ts] show ?case by simp
qed simp

lemma short_run_passes:
  "gate_inv b \<Longrightarrow> fails b + int (length ts) < threshold \<Longrightarrow> \<not> blocked t (fold gate_fail ts b)"
  using fails_run [of b ts] below_not_blocked [of "fold gate_fail ts b"] inv_run [of b ts] by simp

lemma full_run_blocks:
  assumes "gate_inv b" and "fails b + int (length ts) + 1 = threshold" and "t' - t < timeout"
  shows "blocked t' (fold gate_fail (ts @ [t]) b)"
proof -
  let ?b = "fold gate_fail ts b"
  have inv: "gate_inv ?b" using assms(1) by (rule inv_run)
  have run: "fails ?b = fails b + int (length ts)"
    using fails_run [OF assms(1), of ts] assms(2) by simp
  then have "threshold \<le> fails (gate_fail t ?b)"
    using fail_counts [OF inv, of t] assms(2) by simp
  then show ?thesis using fail_trips [OF inv, of t t'] run assms by simp
qed

end

text \<open>The failure level of each breaker, as the contract reads it.\<close>

definition cb_fails :: "cb_config \<Rightarrow> circuit_breaker \<Rightarrow> int" where
  "cb_fails cfg b = (if cb_state b = CLOSED then cb_failure_count b
                     else max (cbc_failure_threshold cfg) (cb_failure_count b))"

definition cb_blocked :: "cb_config \<Rightarrow> time \<Rightarrow> circuit_breaker \<Rightarrow> bool" where
  "cb_blocked cfg now b = (case fst (cb_enter cfg now b) of Inl _ \<Rightarrow> True | Inr _ \<Rightarrow> False)"

definition kb_fails :: "string \<Rightarrow> compaction_breaker \<Rightarrow> int" where
  "kb_fails key st = fst (get_or (st key) (0, None))"

definition kb_wf :: "kb_config \<Rightarrow> compaction_breaker \<Rightarrow> bool" where
  "kb_wf cfg st \<longleftrightarrow> (\<forall>key n t. st key = Some (n, Some t) \<longrightarrow> kbc_max_failures cfg \<le> n)"

interpretation cb: failure_gate "\<lambda>_. True" "cb_fails cfg" "cb_record_failure cfg" "cb_blocked cfg"
    "cbc_failure_threshold cfg" "cbc_recovery_timeout cfg"
  for cfg
proof
  fix b t t'
  assume low: "cb_fails cfg b < cbc_failure_threshold cfg"
  then have closed: "cb_state b = CLOSED" and cnt: "cb_failure_count b < cbc_failure_threshold cfg"
    by (auto simp: cb_fails_def split: if_splits)
  from closed show "\<not> cb_blocked cfg t b"
    by (simp add: cb_blocked_def cb_enter_def Let_def)
  from closed cnt show counts: "cb_fails cfg (cb_record_failure cfg t b) = cb_fails cfg b + 1"
    by (simp add: cb_fails_def cb_record_failure_def Let_def)
  assume "cbc_failure_threshold cfg \<le> cb_fails cfg (cb_record_failure cfg t b)" "t' - t < cbc_recovery_timeout cfg"
  with closed counts have "cbc_failure_threshold cfg \<le> cb_failure_count b + 1" "\<not> cbc_recovery_timeout cfg \<le> t' - t"
    by (simp_all add: cb_fails_def)
  with closed show "cb_blocked cfg t' (cb_record_failure cfg t b)"
    by (simp add: cb_blocked_def cb_enter_def cb_record_failure_def Let_def)
qed simp_all

interpretation db: failure_gate "\<lambda>_. True" db_consecutive_failures "db_record_failure cfg" "db_is_open cfg"
    "dbc_failure_threshold cfg" "dbc_recovery_timeout cfg"
  for cfg
  by unfold_locales (auto simp: db_is_open_def db_record_failure_def Let_def)

lemma kb_wf_record_failure [inv_rules]:
  "kb_wf cfg st \<Longrightarrow> kb_wf cfg (snd (kb_record_failure cfg t key st))"
  by (auto simp: kb_wf_def kb_record_failure_def Let_def)

lemma kb_wf_record_success [inv_rules]: "kb_wf cfg st \<Longrightarrow> kb_wf cfg (kb_record_success key st)"
  by (auto simp: kb_wf_def kb_record_success_def)

lemma kb_wf_is_tripped [inv_rules]: "kb_wf cfg st \<Longrightarrow> kb_wf cfg (snd (kb_is_tripped cfg t key st))"
  by (auto simp: kb_wf_def kb_is_tripped_def split: option.split)

lemma kb_wf_empty [simp]: "kb_wf cfg Map.empty"
  by (simp add: kb_wf_def)

lemma kb_tripped_level:
  assumes "kb_wf cfg st" and "fst (kb_is_tripped cfg t key st)"
  shows "kbc_max_failures cfg \<le> kb_fails key st"
proof -
  from assms(2) obtain n u where "st key = Some (n, Some u)"
    by (auto simp: kb_is_tripped_def split: option.splits prod.splits)
  with assms(1) show ?thesis by (auto simp: kb_wf_def kb_fails_def get_or_def)
qed

interpretation kb: failure_gate "kb_wf cfg" "kb_fails key" "\<lambda>t st. snd (kb_record_failure cfg t key st)"
    "\<lambda>t st. fst (kb_is_tripped cfg t key st)" "kbc_max_failures cfg" "kbc_recovery_timeout cfg"
  for cfg key
proof
  fix st t t'
  assume wf: "kb_wf cfg st"
  then show "kb_wf cfg (snd (kb_record_failure cfg t key st))" by (rule inv_rules)
  show counts: "kb_fails key (snd (kb_record_failure cfg t key st)) = kb_fails key st + 1"
    by (simp add: kb_fails_def kb_record_failure_def Let_def get_or_def)
  { assume "kb_fails key st < kbc_max_failures cfg"
    with kb_tripped_level [OF wf, of t key] show "\<not> fst (kb_is_tripped cfg t key st)" by auto }
  assume "kbc_max_failures cfg \<le> kb_fails key (snd (kb_record_failure cfg t key st))"
    "t' - t < kbc_recovery_timeout cfg"
  then show "fst (kb_is_tripped cfg t' key (snd (kb_record_failure cfg t key st)))"
    by (simp add: kb_is_tripped_def kb_fails_def kb_record_failure_def Let_def get_or_def)
qed

section \<open>Circuit breaker invariant\<close>

text \<open>
  A closed breaker has counted fewer failures than the threshold, a half-open one fewer
  successes than needed to close, and the count of half-open calls is never anything but 0.
\<close>

definition cb_inv :: "cb_config \<Rightarrow> circuit_breaker \<Rightarrow> bool" where
  "cb_inv cfg b \<longleftrightarrow> cb_half_open_calls b = 0 \<and> 0 \<le> cb_failure_count b \<and> 0 \<le> cb_success_count b \<and>
     (cb_state b = CLOSED \<longrightarrow> cb_failure_count b < cbc_failure_threshold cfg) \<and>
     (cb_state b = HALF_OPEN \<longrightarrow> cb_success_count b < cbc_successes_to_close cfg)"

definition cb_config_ok :: "cb_config \<Rightarrow> bool" where
  "cb_config_ok cfg = (0 < cbc_failure_threshold cfg \<and> 0 < cbc_successes_to_close cfg \<and> 0 < cbc_half_open_max_calls cfg)"

lemma cb_inv_init [inv_rules]: "cb_config_ok cfg \<Longrightarrow> cb_inv cfg cb_init"
  by (simp add: cb_inv_def cb_init_def cb_config_ok_def)

lemma cb_inv_enter [inv_rules]: "cb_config_ok cfg \<Longrightarrow> cb_inv cfg b \<Longrightarrow> cb_inv cfg (snd (cb_enter cfg t b))"
  by (auto simp: cb_inv_def cb_enter_def cb_config_ok_def Let_def)

lemma cb_inv_success [inv_rules]: "cb_config_ok cfg \<Longrightarrow> cb_inv cfg b \<Longrightarrow> cb_inv cfg (cb_record_success cfg b)"
  by (auto simp: cb_inv_def cb_record_success_def cb_config_ok_def Let_def split: circuit_state.split)

lemma cb_inv_failure [inv_rules]: "cb_config_ok cfg \<Longrightarrow> cb_inv cfg b \<Longrightarrow> cb_inv cfg (cb_record_failure cfg t b)"
  by (auto simp: cb_inv_def cb_record_failure_def cb_config_ok_def Let_def split: circuit_state.split)

lemma cb_inv_step [inv_rules]: "cb_config_ok cfg \<Longrightarrow> cb_inv cfg b \<Longrightarrow> cb_inv cfg (cb_step cfg b e)"
  by (cases e) (auto simp: cb_step_def intro: inv_rules)

lemma cb_inv_run: "cb_config_ok cfg \<Longrightarrow> cb_inv cfg (cb_run cfg es)"
proof (induction es rule: rev_induct)
  case Nil
  then show ?case by (simp add: cb_run_def inv_rules)
next
  case (snoc e es)
  then show ?case by (simp add: cb_run_def inv_rules)
qed

section \<open>Properties\<close>

text \<open>all three breakers trip exactly at their threshold. From a state with no counted
  failure, fewer failures than the threshold leave the breaker letting work through, and the
  failure that reaches the threshold blocks it until the recovery time has passed.\<close>

theorem breakers_trip_at_threshold:
  assumes "int (length ts) < cbc_failure_threshold cfg" and "int (length us) + 1 = cbc_failure_threshold cfg"
    and "now - t < cbc_recovery_timeout cfg"
    and "dbc_failure_threshold dcfg = cbc_failure_threshold cfg" and "dbc_recovery_timeout dcfg = cbc_recovery_timeout cfg"
    and "kbc_max_failures kcfg = cbc_failure_threshold cfg" and "kbc_recovery_timeout kcfg = cbc_recovery_timeout cfg"
  shows "\<not> cb_blocked cfg now (fold (cb_record_failure cfg) ts cb_init)
    \<and> cb_blocked cfg now (fold (cb_record_failure cfg) (us @ [t]) cb_init)
    \<and> \<not> db_is_open dcfg now (fold (db_record_failure dcfg) ts db_init)
    \<and> db_is_open dcfg now (fold (db_record_failure dcfg) (us @ [t]) db_init)
    \<and> \<not> fst (kb_is_tripped kcfg now key (fold (\<lambda>t st. snd (kb_record_failure kcfg t key st)) ts Map.empty))
    \<and> fst (kb_is_tripped kcfg now key (fold (\<lambda>t st. snd (kb_record_failure kcfg t key st)) (us @ [t]) Map.empty))"
proof -
  have z: "cb_fails cfg cb_init = 0" "db_consecutive_failures db_init = 0" "kb_fails key Map.empty = 0"
    by (simp_all add: cb_fails_def cb_init_def db_init_def kb_fails_def get_or_def)
  show ?thesis
    using assms z cb.short_run_passes [of cfg cb_init ts now] cb.full_run_blocks [of cfg cb_init us now t]
      db.short_run_passes [of db_init ts dcfg now] db.full_run_blocks [of db_init us dcfg now t]
      kb.short_run_passes [of kcfg Map.empty key ts now] kb.full_run_blocks [of kcfg Map.empty key us now t]
    by simp
qed

theorem breakers_trip_at_threshold_witness:
  "cb_blocked cb_default_config 10 (fold (cb_record_failure cb_default_config) [1,2,3,4,5] cb_init)
   \<and> \<not> cb_blocked cb_default_config 10 (fold (cb_record_failure cb_default_config) [1,2] cb_init)"
  using breakers_trip_at_threshold [of "[1,2]" cb_default_config "[1,2,3,4]" 10 5
      "\<lparr>dbc_failure_threshold = 5, dbc_recovery_timeout = 30\<rparr>" "\<lparr>kbc_max_failures = 5, kbc_recovery_timeout = 30\<rparr>" "''k''"]
  by (simp add: cb_default_config_def)

text \<open>in every state the breaker can reach, whatever the interleaving of entries and
  completions, the number of admitted half-open calls is recorded as 0. The limit on probe
  calls is therefore never applied: a half-open breaker admits every caller.\<close>

theorem half_open_limit_never_applied:
  assumes "cb_config_ok cfg"
  shows "cb_half_open_calls (cb_run cfg es) = 0 \<and>
    (cb_state (cb_run cfg es) = HALF_OPEN \<longrightarrow> fst (cb_enter cfg t (cb_run cfg es)) = Inr ())"
  using cb_inv_run [OF assms, of es] assms
  by (auto simp: cb_inv_def cb_enter_def cb_config_ok_def Let_def)

theorem half_open_limit_never_applied_witness:
  "cb_state (cb_run cb_default_config (map CbFailure [1,2,3,4,5] @ replicate 9 (CbEnter 40))) = HALF_OPEN
   \<and> fst (cb_enter cb_default_config 40 (cb_run cb_default_config (map CbFailure [1,2,3,4,5] @ replicate 9 (CbEnter 40)))) = Inr ()"
proof -
  let ?b = "cb_run cb_default_config (map CbFailure [1,2,3,4,5] @ replicate 9 (CbEnter 40))"
  have ok: "cb_config_ok cb_default_config" by (simp add: cb_config_ok_def cb_default_config_def)
  have "cb_state ?b = HALF_OPEN" by code_simp
  with half_open_limit_never_applied [OF ok, of "map CbFailure [1,2,3,4,5] @ replicate 9 (CbEnter 40)" 40]
  show ?thesis by simp
qed

text \<open>recovery. An open breaker rejects without running the call until the recovery time
  has passed; the first entry after it moves to half-open, from where one failure reopens it
  and the configured number of consecutive successes closes it with a clean failure count.\<close>

theorem circuit_recovery:
  assumes "cb_state b = OPEN" and "cb_config_ok cfg" and "0 \<le> cbc_recovery_timeout cfg"
  shows "(if now - cb_last_failure_time b < cbc_recovery_timeout cfg
          then cb_call cfg now later fn b w =
                 (Rejected (CircuitBreakerOpen (cb_last_failure_time b + cbc_recovery_timeout cfg)), b, w)
          else fst (cb_enter cfg now b) = Inr () \<and> cb_state (snd (cb_enter cfg now b)) = HALF_OPEN
            \<and> cb_state (cb_record_failure cfg later (snd (cb_enter cfg now b))) = OPEN
            \<and> cb_state ((cb_record_success cfg ^^ nat (cbc_successes_to_close cfg)) (snd (cb_enter cfg now b))) = CLOSED
            \<and> cb_failure_count ((cb_record_success cfg ^^ nat (cbc_successes_to_close cfg)) (snd (cb_enter cfg now b))) = 0)"
proof (cases "now - cb_last_failure_time b < cbc_recovery_timeout cfg")
  case True
  with assms(1) show ?thesis by (simp add: cb_call_def cb_enter_def Let_def)
next
  case False
  let ?h = "b\<lparr>cb_state := HALF_OPEN, cb_half_open_calls := 0, cb_success_count := 0\<rparr>"
  let ?s = "cb_record_success cfg"
  have enter: "cb_enter cfg now b = (Inr (), ?h)"
    using False assms by (simp add: cb_enter_def Let_def cb_config_ok_def)
  have up: "int k < cbc_successes_to_close cfg \<Longrightarrow> (?s ^^ k) ?h = ?h\<lparr>cb_success_count := int k\<rparr>" for k
  proof (induction k)
    case 0 then show ?case by simp
  next
    case (Suc k) then show ?case by (simp add: cb_record_success_def Let_def)
  qed
  obtain k where k: "nat (cbc_successes_to_close cfg) = Suc k" "int k + 1 = cbc_successes_to_close cfg"
    using assms(2) by (metis Suc_pred' cb_config_ok_def int_nat_eq less_le of_nat_Suc zero_less_nat_eq add.commute)
  then have "(?s ^^ nat (cbc_successes_to_close cfg)) ?h = ?s (?h\<lparr>cb_success_count := int k\<rparr>)"
    using up [of k] by simp
  with k False show ?thesis
    by (simp add: enter cb_record_success_def cb_record_failure_def Let_def)
qed

theorem circuit_recovery_witness:
  "let b = cb_init\<lparr>cb_state := OPEN, cb_last_failure_time := 5\<rparr>
   in fst (cb_enter cb_default_config 50 b) = Inr ()
      \<and> cb_state ((cb_record_success cb_default_config ^^ 2) (snd (cb_enter cb_default_config 50 b))) = CLOSED"
  using circuit_recovery [of "cb_init\<lparr>cb_state := OPEN, cb_last_failure_time := 5\<rparr>" cb_default_config 50 60
      "\<lambda>w::unit. (Inr (), w) :: (unit + unit) \<times> unit" "()"]
  by (simp add: cb_config_ok_def cb_default_config_def cb_init_def)

text \<open>Histories of a dependency breaker without a success.\<close>

datatype db_event = DbFailure time | DbProbeFailed time

definition db_step :: "db_config \<Rightarrow> db_event \<Rightarrow> dependency_breaker \<Rightarrow> dependency_breaker" where
  "db_step cfg e b = (case e of DbFailure t \<Rightarrow> db_record_failure cfg t b | DbProbeFailed t \<Rightarrow> snd (db_probe t False b))"

definition db_tripped :: "db_config \<Rightarrow> dependency_breaker \<Rightarrow> bool" where
  "db_tripped cfg b = (dbc_failure_threshold cfg \<le> db_consecutive_failures b \<and> db_probe_ok b \<noteq> Some True)"

lemma db_tripped_step: "db_tripped cfg b \<Longrightarrow> db_tripped cfg (db_step cfg e b)"
  by (cases e) (auto simp: db_tripped_def db_step_def db_record_failure_def db_probe_def Let_def)

lemma db_tripped_fold: "db_tripped cfg b \<Longrightarrow> db_tripped cfg (fold (db_step cfg) es b)"
  by (induction es arbitrary: b) (auto intro: db_tripped_step)

text \<open>the Redis dependency breaker never closes by the passage of time: once it is open
  it stays open at every later instant, through failures and failed probes, until a success
  is recorded or a probe succeeds, which closes it at once.\<close>

theorem dependency_breaker_latches:
  assumes "0 < dbc_failure_threshold cfg" and "dbc_failure_threshold cfg \<le> db_consecutive_failures b"
    and "db_probe_ok b \<noteq> Some True"
  shows "db_fast_fail cfg t (fold (db_step cfg) es b)
    \<and> \<not> db_fast_fail cfg t (snd (db_probe t' True (fold (db_step cfg) es b)))"
proof -
  have "db_tripped cfg (fold (db_step cfg) es b)"
    using assms by (intro db_tripped_fold) (simp add: db_tripped_def)
  with assms(1) show ?thesis
    by (auto simp: db_tripped_def db_fast_fail_def db_is_open_def db_probe_def db_record_success_def get_or_def
      split: option.split)
qed

theorem dependency_breaker_latches_witness:
  "db_fast_fail \<lparr>dbc_failure_threshold = 5, dbc_recovery_timeout = 60\<rparr> 100000
     (fold (db_step \<lparr>dbc_failure_threshold = 5, dbc_recovery_timeout = 60\<rparr>) [DbProbeFailed 70]
       \<lparr>db_consecutive_failures = 5, db_open_since = 5, db_probe_ok = None\<rparr>)"
  using dependency_breaker_latches [of "\<lparr>dbc_failure_threshold = 5, dbc_recovery_timeout = 60\<rparr>"
      "\<lparr>db_consecutive_failures = 5, db_open_since = 5, db_probe_ok = None\<rparr>" 100000 "[DbProbeFailed 70]" 0]
  by simp

end
