(* ===== verification/Redis_Iface.thy ===== *)
theory Redis_Iface
  imports Prelude "HOL-Library.Product_Lexorder"
begin

text \<open>
  Redis as the sources use it. Redis is a service outside the repository, so its commands
  are a parameter: a record of functions on an arbitrary state of the outside world. A
  command either returns a value or raises (\<open>None\<close>), and in both cases may have changed the
  world. What the sources rely on is stated as named hypotheses over a view of the keyspace:
  when a command returns, its reply and its effect are those of the command reference; no
  law says anything about a command that raised. Expiry is a change of the world between
  commands.
\<close>

type_synonym ('a, 'w) rcmd = "'w \<Rightarrow> 'a option \<times> 'w"

definition rret :: "'a \<Rightarrow> ('a, 'w) rcmd" where
  "rret x w = (Some x, w)"

definition rbind :: "('a, 'w) rcmd \<Rightarrow> ('a \<Rightarrow> ('b, 'w) rcmd) \<Rightarrow> ('b, 'w) rcmd" where
  "rbind m f w = (case m w of (None, w') \<Rightarrow> (None, w') | (Some x, w') \<Rightarrow> f x w')"

datatype rval = RDoc json | RInt int | RHash "string \<Rightarrow> rat option" | RZset "(string \<times> rat) list"

type_synonym keyspace = "string \<Rightarrow> rval option"

record 'w redis =
  r_get :: "string \<Rightarrow> (json option, 'w) rcmd"
  r_setex :: "string \<Rightarrow> int \<Rightarrow> json \<Rightarrow> (unit, 'w) rcmd"
  r_expire :: "string \<Rightarrow> int \<Rightarrow> (unit, 'w) rcmd"
  r_delete :: "string list \<Rightarrow> (int, 'w) rcmd"
  r_keys :: "string \<Rightarrow> (string list, 'w) rcmd"
  r_getint :: "string \<Rightarrow> (int option, 'w) rcmd"
  r_incr :: "string \<Rightarrow> (int, 'w) rcmd"
  r_decr :: "string \<Rightarrow> (int, 'w) rcmd"
  r_hget :: "string \<Rightarrow> string \<Rightarrow> (rat option, 'w) rcmd"
  r_hset :: "string \<Rightarrow> string \<Rightarrow> rat \<Rightarrow> (unit, 'w) rcmd"
  r_hincrbyfloat :: "string \<Rightarrow> string \<Rightarrow> rat \<Rightarrow> (rat, 'w) rcmd"
  r_hgetall :: "string \<Rightarrow> ((string \<times> rat) list, 'w) rcmd"
  r_pttl :: "string \<Rightarrow> (int, 'w) rcmd"
  r_ping :: "(unit, 'w) rcmd"
  r_zadd :: "string \<Rightarrow> string \<Rightarrow> rat \<Rightarrow> (unit, 'w) rcmd"
  r_zrange :: "string \<Rightarrow> (string list, 'w) rcmd"
  r_zrevrange :: "string \<Rightarrow> (string list, 'w) rcmd"
  r_zkeep_top :: "string \<Rightarrow> nat \<Rightarrow> (unit, 'w) rcmd"

text \<open>A number in the reply of a script is truncated towards zero.\<close>

definition lua_int :: "rat \<Rightarrow> int" where
  "lua_int x = (if 0 \<le> x then \<lfloor>x\<rfloor> else \<lceil>x\<rceil>)"

definition hash_at :: "keyspace \<Rightarrow> string \<Rightarrow> string \<Rightarrow> rat option" where
  "hash_at ks k = (case ks k of Some (RHash h) \<Rightarrow> h | _ \<Rightarrow> Map.empty)"

definition int_at :: "keyspace \<Rightarrow> string \<Rightarrow> int option" where
  "int_at ks k = (case ks k of Some (RInt n) \<Rightarrow> Some n | _ \<Rightarrow> None)"

definition doc_at :: "keyspace \<Rightarrow> string \<Rightarrow> json option" where
  "doc_at ks k = (case ks k of Some (RDoc s) \<Rightarrow> Some s | _ \<Rightarrow> None)"

text \<open>
  A sorted set holds distinct members in ascending order of score. \<open>ZADD\<close> moves a member that is
  already there; \<open>r_zkeep_top k n\<close> is \<open>ZREMRANGEBYRANK k 0 (-n - 1)\<close>, which leaves the \<open>n\<close> members
  of highest score.
\<close>

definition zset_at :: "keyspace \<Rightarrow> string \<Rightarrow> (string \<times> rat) list" where
  "zset_at ks k = (case ks k of Some (RZset z) \<Rightarrow> z | _ \<Rightarrow> [])"

definition zset_add :: "string \<Rightarrow> rat \<Rightarrow> (string \<times> rat) list \<Rightarrow> (string \<times> rat) list" where
  "zset_add m x z = insort_key (\<lambda>(m, x). (x, m)) (m, x) (filter (\<lambda>e. fst e \<noteq> m) z)"

definition zset_top :: "nat \<Rightarrow> (string \<times> rat) list \<Rightarrow> (string \<times> rat) list" where
  "zset_top n z = drop (length z - n) z"

text \<open>HGET, HSET and HINCRBYFLOAT.\<close>

definition redis_hash_laws :: "'w redis \<Rightarrow> ('w \<Rightarrow> keyspace) \<Rightarrow> bool" where
  "redis_hash_laws R view \<longleftrightarrow>
     (\<forall>k f w v w'. r_hget R k f w = (Some v, w') \<longrightarrow> view w' = view w \<and> v = hash_at (view w) k f) \<and>
     (\<forall>k f x w u w'. r_hset R k f x w = (Some u, w') \<longrightarrow>
        view w' = (view w)(k \<mapsto> RHash ((hash_at (view w) k)(f \<mapsto> x)))) \<and>
     (\<forall>k f x w y w'. r_hincrbyfloat R k f x w = (Some y, w') \<longrightarrow>
        y = get_or (hash_at (view w) k f) 0 + x \<and>
        view w' = (view w)(k \<mapsto> RHash ((hash_at (view w) k)(f \<mapsto> y))))"

text \<open>INCR, DECR and GET on a counter, EXPIRE and DEL.\<close>

definition redis_counter_laws :: "'w redis \<Rightarrow> ('w \<Rightarrow> keyspace) \<Rightarrow> bool" where
  "redis_counter_laws R view \<longleftrightarrow>
     (\<forall>k w v w'. r_getint R k w = (Some v, w') \<longrightarrow> view w' = view w \<and> v = int_at (view w) k) \<and>
     (\<forall>k w n w'. r_incr R k w = (Some n, w') \<longrightarrow>
        n = get_or (int_at (view w) k) 0 + 1 \<and> view w' = (view w)(k \<mapsto> RInt n)) \<and>
     (\<forall>k w n w'. r_decr R k w = (Some n, w') \<longrightarrow>
        n = get_or (int_at (view w) k) 0 - 1 \<and> view w' = (view w)(k \<mapsto> RInt n)) \<and>
     (\<forall>k t w u w'. r_expire R k t w = (Some u, w') \<longrightarrow> view w' = view w) \<and>
     (\<forall>ks w n w'. r_delete R ks w = (Some n, w') \<longrightarrow> view w' = (view w) |` (- set ks))"

text \<open>GET, SETEX, and the keys that start with a prefix.\<close>

definition redis_string_laws :: "'w redis \<Rightarrow> ('w \<Rightarrow> keyspace) \<Rightarrow> bool" where
  "redis_string_laws R view \<longleftrightarrow>
     (\<forall>k w v w'. r_get R k w = (Some v, w') \<longrightarrow> view w' = view w \<and> v = doc_at (view w) k) \<and>
     (\<forall>k t s w u w'. r_setex R k t s w = (Some u, w') \<longrightarrow> view w' = (view w)(k \<mapsto> RDoc s)) \<and>
     (\<forall>k t w u w'. r_expire R k t w = (Some u, w') \<longrightarrow> view w' = view w) \<and>
     (\<forall>p w ks w'. r_keys R p w = (Some ks, w') \<longrightarrow>
        view w' = view w \<and> set ks = {k \<in> dom (view w). take (length p) k = p}) \<and>
     (\<forall>ks w n w'. r_delete R ks w = (Some n, w') \<longrightarrow> view w' = (view w) |` (- set ks))"

text \<open>ZADD, ZRANGE and ZREVRANGE over a whole set, and ZREMRANGEBYRANK.\<close>

definition redis_zset_laws :: "'w redis \<Rightarrow> ('w \<Rightarrow> keyspace) \<Rightarrow> bool" where
  "redis_zset_laws R view \<longleftrightarrow>
     (\<forall>k m x w u w'. r_zadd R k m x w = (Some u, w') \<longrightarrow> view w' = (view w)(k \<mapsto> RZset (zset_add m x (zset_at (view w) k)))) \<and>
     (\<forall>k w ms w'. r_zrange R k w = (Some ms, w') \<longrightarrow> view w' = view w \<and> ms = map fst (zset_at (view w) k)) \<and>
     (\<forall>k w ms w'. r_zrevrange R k w = (Some ms, w') \<longrightarrow> view w' = view w \<and> ms = rev (map fst (zset_at (view w) k))) \<and>
     (\<forall>k n w u w'. r_zkeep_top R k n w = (Some u, w') \<longrightarrow> view w' = (view w)(k \<mapsto> RZset (zset_top n (zset_at (view w) k))))"

section \<open>An in-memory keyspace\<close>

text \<open>
  A store that satisfies the laws, kept as an association list in a component of the world;
  concrete instances of the theorems run on it.
\<close>

type_synonym store = "(string \<times> rval) list"

definition mem_redis :: "('w \<Rightarrow> store) \<Rightarrow> (store \<Rightarrow> 'w \<Rightarrow> 'w) \<Rightarrow> 'w redis" where
  "mem_redis get put =
     \<lparr>r_get = (\<lambda>k w. (Some (doc_at (map_of (get w)) k), w)),
      r_setex = (\<lambda>k t s w. (Some (), put (AList.update k (RDoc s) (get w)) w)),
      r_expire = (\<lambda>k t w. (Some (), w)),
      r_delete = (\<lambda>ks w. (Some (int (length (filter (\<lambda>k. map_of (get w) k \<noteq> None) ks))),
                          put (filter (\<lambda>(k, v). k \<notin> set ks) (get w)) w)),
      r_keys = (\<lambda>p w. (Some (filter (\<lambda>k. take (length p) k = p) (map fst (get w))), w)),
      r_getint = (\<lambda>k w. (Some (int_at (map_of (get w)) k), w)),
      r_incr = (\<lambda>k w. let n = get_or (int_at (map_of (get w)) k) 0 + 1
                      in (Some n, put (AList.update k (RInt n) (get w)) w)),
      r_decr = (\<lambda>k w. let n = get_or (int_at (map_of (get w)) k) 0 - 1
                      in (Some n, put (AList.update k (RInt n) (get w)) w)),
      r_hget = (\<lambda>k f w. (Some (hash_at (map_of (get w)) k f), w)),
      r_hset = (\<lambda>k f x w. (Some (), put (AList.update k (RHash ((hash_at (map_of (get w)) k)(f \<mapsto> x))) (get w)) w)),
      r_hincrbyfloat = (\<lambda>k f x w. let y = get_or (hash_at (map_of (get w)) k f) 0 + x
                      in (Some y, put (AList.update k (RHash ((hash_at (map_of (get w)) k)(f \<mapsto> y))) (get w)) w)),
      r_hgetall = (\<lambda>k w. (Some (List.map_filter (\<lambda>f. map_option (Pair f) (hash_at (map_of (get w)) k f)) [''tokens'', ''ts'']), w)),
      r_pttl = (\<lambda>k w. (Some (if map_of (get w) k = None then -2 else -1), w)),
      r_ping = (\<lambda>w. (Some (), w)),
      r_zadd = (\<lambda>k m x w. (Some (), put (AList.update k (RZset (zset_add m x (zset_at (map_of (get w)) k))) (get w)) w)),
      r_zrange = (\<lambda>k w. (Some (map fst (zset_at (map_of (get w)) k)), w)),
      r_zrevrange = (\<lambda>k w. (Some (rev (map fst (zset_at (map_of (get w)) k))), w)),
      r_zkeep_top = (\<lambda>k n w. (Some (), put (AList.update k (RZset (zset_top n (zset_at (map_of (get w)) k))) (get w)) w))\<rparr>"

abbreviation sole_redis :: "store redis" where
  "sole_redis \<equiv> mem_redis (\<lambda>s. s) (\<lambda>s _. s)"

section \<open>Lemmas\<close>

named_theorems redis_simps \<open>replies and effects of returned commands\<close>

lemma rbind_Some_iff [redis_simps]:
  "rbind m f w = (Some y, w') \<longleftrightarrow> (\<exists>x w1. m w = (Some x, w1) \<and> f x w1 = (Some y, w'))"
  by (auto simp: rbind_def split: prod.split option.split)

lemma rret_iff [redis_simps]: "rret x w = (r, w') \<longleftrightarrow> r = Some x \<and> w' = w"
  by (auto simp: rret_def)

lemma hash_at_upd [simp]:
  "hash_at (ks(k \<mapsto> RHash h)) k' = (if k' = k then h else hash_at ks k')"
  by (auto simp: hash_at_def)

lemma int_at_upd [simp]:
  "int_at (ks(k \<mapsto> RInt n)) k' = (if k' = k then Some n else int_at ks k')"
  by (auto simp: int_at_def)

lemma doc_at_upd [simp]:
  "doc_at (ks(k \<mapsto> RDoc s)) k' = (if k' = k then Some s else doc_at ks k')"
  by (auto simp: doc_at_def)

lemma zset_at_upd [simp]:
  "zset_at (ks(k \<mapsto> RZset z)) k' = (if k' = k then z else zset_at ks k')"
  by (auto simp: zset_at_def)

text \<open>Writing one kind of value leaves the other kinds at other keys alone.\<close>

lemma at_upd_other [simp]:
  "k' \<noteq> k \<Longrightarrow> doc_at (ks(k \<mapsto> v)) k' = doc_at ks k'"
  "k' \<noteq> k \<Longrightarrow> zset_at (ks(k \<mapsto> v)) k' = zset_at ks k'"
  by (auto simp: doc_at_def zset_at_def)

lemma at_restrict [simp]:
  "zset_at (ks |` S) k = (if k \<in> S then zset_at ks k else [])"
  "hash_at (ks |` S) k = (if k \<in> S then hash_at ks k else Map.empty)"
  "int_at (ks |` S) k = (if k \<in> S then int_at ks k else None)"
  "doc_at (ks |` S) k = (if k \<in> S then doc_at ks k else None)"
  by (auto simp: hash_at_def int_at_def doc_at_def zset_at_def)

lemma hash_lawsD:
  assumes "redis_hash_laws R view"
  shows "r_hget R k f w = (Some v, w') \<Longrightarrow> view w' = view w \<and> v = hash_at (view w) k f"
    and "r_hset R k f x w = (Some u, w') \<Longrightarrow> view w' = (view w)(k \<mapsto> RHash ((hash_at (view w) k)(f \<mapsto> x)))"
    and "r_hincrbyfloat R k f x w = (Some y, w') \<Longrightarrow> y = get_or (hash_at (view w) k f) 0 + x \<and>
        view w' = (view w)(k \<mapsto> RHash ((hash_at (view w) k)(f \<mapsto> y)))"
  using assms unfolding redis_hash_laws_def by blast+

lemma counter_lawsD:
  assumes "redis_counter_laws R view"
  shows "r_getint R k w = (Some v, w') \<Longrightarrow> view w' = view w \<and> v = int_at (view w) k"
    and "r_incr R k w = (Some n, w') \<Longrightarrow> n = get_or (int_at (view w) k) 0 + 1 \<and> view w' = (view w)(k \<mapsto> RInt n)"
    and "r_decr R k w = (Some n, w') \<Longrightarrow> n = get_or (int_at (view w) k) 0 - 1 \<and> view w' = (view w)(k \<mapsto> RInt n)"
    and "r_expire R k t w = (Some u, w') \<Longrightarrow> view w' = view w"
    and "r_delete R ks w = (Some n, w') \<Longrightarrow> view w' = (view w) |` (- set ks)"
  using assms unfolding redis_counter_laws_def by metis+

lemma string_lawsD:
  assumes "redis_string_laws R view"
  shows "r_get R k w = (Some x, w') \<Longrightarrow> view w' = view w \<and> x = doc_at (view w) k"
    and "r_setex R k t s w = (Some u, w') \<Longrightarrow> view w' = (view w)(k \<mapsto> RDoc s)"
    and "r_expire R k t w = (Some u, w') \<Longrightarrow> view w' = view w"
    and "r_keys R p w = (Some ks, w') \<Longrightarrow> view w' = view w \<and> set ks = {k \<in> dom (view w). take (length p) k = p}"
    and "r_delete R ks w = (Some n, w') \<Longrightarrow> view w' = (view w) |` (- set ks)"
  using assms unfolding redis_string_laws_def by metis+

lemma zset_lawsD:
  assumes "redis_zset_laws R view"
  shows "r_zadd R k m x w = (Some u, w') \<Longrightarrow> view w' = (view w)(k \<mapsto> RZset (zset_add m x (zset_at (view w) k)))"
    and "r_zrange R k w = (Some ms, w') \<Longrightarrow> view w' = view w \<and> ms = map fst (zset_at (view w) k)"
    and "r_zrevrange R k w = (Some ms, w') \<Longrightarrow> view w' = view w \<and> ms = rev (map fst (zset_at (view w) k))"
    and "r_zkeep_top R k n w = (Some u, w') \<Longrightarrow> view w' = (view w)(k \<mapsto> RZset (zset_top n (zset_at (view w) k)))"
  using assms unfolding redis_zset_laws_def by metis+

lemma map_of_filter_keys: "map_of (filter (\<lambda>(k, v). k \<notin> S) xs) = map_of xs |` (- S)"
  by (induction xs) (auto simp: restrict_map_def fun_eq_iff)

lemma mem_redis_hash_laws:
  assumes "\<And>s w. get (put s w) = s"
  shows "redis_hash_laws (mem_redis get put) (\<lambda>w. map_of (get w))"
  by (auto simp: redis_hash_laws_def mem_redis_def Let_def assms update_conv)

lemma mem_redis_counter_laws:
  assumes "\<And>s w. get (put s w) = s"
  shows "redis_counter_laws (mem_redis get put) (\<lambda>w. map_of (get w))"
  by (auto simp: redis_counter_laws_def mem_redis_def Let_def assms update_conv map_of_filter_keys)

lemma mem_redis_string_laws:
  assumes "\<And>s w. get (put s w) = s"
  shows "redis_string_laws (mem_redis get put) (\<lambda>w. map_of (get w))"
  by (auto simp: redis_string_laws_def mem_redis_def Let_def assms update_conv map_of_filter_keys dom_map_of_conv_image_fst)

lemma mem_redis_zset_laws:
  assumes "\<And>s w. get (put s w) = s"
  shows "redis_zset_laws (mem_redis get put) (\<lambda>w. map_of (get w))"
  by (auto simp: redis_zset_laws_def mem_redis_def Let_def assms update_conv)

end
