(* ===== verification/Rate_Limiter.thy ===== *)
theory Rate_Limiter
  imports Redis_Iface
begin

text \<open>
  The token-bucket rate limiter (\<open>infrastructure/patterns/rate_limiter.py\<close>): the Lua bucket
  shared through Redis, the per-process bucket it degrades to, and the limiter that chooses
  between them. Both buckets interpret the locale \<open>token_bucket\<close>, which bounds what a
  bucket grants over time.
\<close>

section \<open>Definitions\<close>

record rate_limit_config =
  rl_max_requests :: rat
  rl_window_seconds :: rat
  rl_burst_multiplier :: rat
  rl_key_prefix :: string

definition rl_default_config :: rate_limit_config where
  "rl_default_config = \<lparr>rl_max_requests = 100, rl_window_seconds = 60, rl_burst_multiplier = 3/2, rl_key_prefix = ''neryva:rl:''\<rparr>"

record bucket =
  bk_tokens :: rat
  bk_last_refill :: time

record rate_limiter =
  rl_config :: rate_limit_config
  rl_redis :: bool
  rl_buckets :: "string \<Rightarrow> bucket option"
  rl_degraded :: bool

datatype rate_limit_error = RateLimitExceeded string rat time

text \<open>The arithmetic of the Lua script: refill, then take.\<close>

definition lua_refill :: "rat \<Rightarrow> rat \<Rightarrow> rat option \<Rightarrow> rat option \<Rightarrow> rat \<Rightarrow> rat" where
  "lua_refill mx window tokens ts now =
     (case (tokens, ts) of
        (Some k, Some t) \<Rightarrow> if window \<le> now - t then mx else min mx (k + (now - t) * (mx / window))
      | _ \<Rightarrow> mx)"

definition token_bucket_script ::
  "'w redis \<Rightarrow> string \<Rightarrow> rat \<Rightarrow> rat \<Rightarrow> rat \<Rightarrow> rat \<Rightarrow> (int \<times> int, 'w) rcmd" where
  "token_bucket_script R key mx window cost now =
     rbind (r_hget R key ''tokens'') (\<lambda>k.
     rbind (r_hget R key ''ts'') (\<lambda>t.
       let tokens = lua_refill mx window k t now;
           left = (if cost \<le> tokens then tokens - cost else tokens)
       in rbind (r_hset R key ''tokens'' left) (\<lambda>_.
          rbind (r_hset R key ''ts'' now) (\<lambda>_.
          rbind (r_expire R key \<lfloor>window * 1000\<rfloor>) (\<lambda>_.
            rret (if cost \<le> tokens then 1 else 0, lua_int left))))))"

definition rl_key :: "rate_limiter \<Rightarrow> string \<Rightarrow> string" where
  "rl_key rl key = rl_key_prefix (rl_config rl) @ key"

definition try_redis_reconnect :: "'w redis \<Rightarrow> rate_limiter \<Rightarrow> 'w \<Rightarrow> rate_limiter \<times> 'w" where
  "try_redis_reconnect R rl w =
     (if \<not> rl_redis rl \<or> \<not> rl_degraded rl then (rl, w)
      else case r_ping R w of
             (Some _, w1) \<Rightarrow> (rl\<lparr>rl_degraded := False\<rparr>, w1)
           | (None, w1) \<Rightarrow> (rl, w1))"

text \<open>\<open>wall\<close> is \<open>time.time()\<close> in seconds.\<close>

definition redis_acquire :: "'w redis \<Rightarrow> rate_limiter \<Rightarrow> string \<Rightarrow> rat \<Rightarrow> time \<Rightarrow> (bool, 'w) rcmd" where
  "redis_acquire R rl key tokens wall =
     (let now_ms = wall * 1000
      in rbind (token_bucket_script R (rl_key rl key) (rl_max_requests (rl_config rl))
                  (rl_window_seconds (rl_config rl)) tokens now_ms)
           (\<lambda>(allowed, _). rret (allowed = 1)))"

definition bucket_take :: "rate_limit_config \<Rightarrow> bucket \<Rightarrow> rat \<Rightarrow> time \<Rightarrow> bool \<times> bucket" where
  "bucket_take cfg b tokens now =
     (let elapsed = now - bk_last_refill b;
          refill = elapsed * (rl_max_requests cfg / rl_window_seconds cfg);
          filled = min (bk_tokens b + refill) (rl_max_requests cfg * rl_burst_multiplier cfg)
      in if tokens \<le> filled then (True, \<lparr>bk_tokens = filled - tokens, bk_last_refill = now\<rparr>)
         else (False, \<lparr>bk_tokens = filled, bk_last_refill = now\<rparr>))"

definition memory_acquire :: "rate_limiter \<Rightarrow> string \<Rightarrow> rat \<Rightarrow> time \<Rightarrow> bool \<times> rate_limiter" where
  "memory_acquire rl key tokens now =
     (let b = get_or (rl_buckets rl key) \<lparr>bk_tokens = rl_max_requests (rl_config rl), bk_last_refill = now\<rparr>;
          (granted, b') = bucket_take (rl_config rl) b tokens now
      in (granted, rl\<lparr>rl_buckets := (rl_buckets rl)(key \<mapsto> b')\<rparr>))"

definition rl_acquire ::
  "'w redis \<Rightarrow> rate_limiter \<Rightarrow> string \<Rightarrow> rat \<Rightarrow> time \<Rightarrow> time \<Rightarrow> 'w \<Rightarrow> bool \<times> rate_limiter \<times> 'w" where
  "rl_acquire R rl key tokens wall tick w =
     (if rl_redis rl
      then let (rl1, w1) = try_redis_reconnect R rl w
           in case redis_acquire R rl1 key tokens wall w1 of
                (Some allowed, w2) \<Rightarrow> (allowed, rl1, w2)
              | (None, w2) \<Rightarrow>
                  (let (allowed, rl2) = memory_acquire (rl1\<lparr>rl_degraded := True\<rparr>) key tokens tick
                   in (allowed, rl2, w2))
      else let (allowed, rl1) = memory_acquire rl key tokens tick in (allowed, rl1, w))"

definition acquire_or_raise ::
  "'w redis \<Rightarrow> rate_limiter \<Rightarrow> string \<Rightarrow> rat \<Rightarrow> time \<Rightarrow> time \<Rightarrow> 'w
     \<Rightarrow> (rate_limit_error + unit) \<times> rate_limiter \<times> 'w" where
  "acquire_or_raise R rl key tokens wall tick w =
     (case rl_acquire R rl key tokens wall tick w of
        (allowed, rl1, w1) \<Rightarrow>
          (if allowed then Inr ()
           else Inl (RateLimitExceeded key (rl_max_requests (rl_config rl)) (tick + rl_window_seconds (rl_config rl))),
           rl1, w1))"

fun acquire_multi_or_raise ::
  "'w redis \<Rightarrow> rate_limiter \<Rightarrow> string list \<Rightarrow> rat \<Rightarrow> time \<Rightarrow> time \<Rightarrow> 'w
     \<Rightarrow> (rate_limit_error + unit) \<times> rate_limiter \<times> 'w" where
  "acquire_multi_or_raise R rl [] tokens wall tick w = (Inr (), rl, w)"
| "acquire_multi_or_raise R rl (key # keys) tokens wall tick w =
     (case acquire_or_raise R rl key tokens wall tick w of
        (Inl e, rl1, w1) \<Rightarrow> (Inl e, rl1, w1)
      | (Inr _, rl1, w1) \<Rightarrow> acquire_multi_or_raise R rl1 keys tokens wall tick w1)"

definition memory_remaining :: "rate_limiter \<Rightarrow> string \<Rightarrow> rat" where
  "memory_remaining rl key =
     (case rl_buckets rl key of None \<Rightarrow> rl_max_requests (rl_config rl) | Some b \<Rightarrow> bk_tokens b)"

definition get_remaining :: "'w redis \<Rightarrow> rate_limiter \<Rightarrow> string \<Rightarrow> time \<Rightarrow> 'w \<Rightarrow> rat \<times> 'w" where
  "get_remaining R rl key wall w =
     (if rl_redis rl
      then case r_hgetall R (rl_key rl key) w of
             (None, w1) \<Rightarrow> (memory_remaining rl key, w1)
           | (Some h, w1) \<Rightarrow>
               (if h = [] then rl_max_requests (rl_config rl)
                else let tokens = get_or (map_of h ''tokens'') 0; ts = get_or (map_of h ''ts'') 0; now_ms = wall * 1000
                     in if rl_window_seconds (rl_config rl) * 1000 \<le> now_ms - ts then rl_max_requests (rl_config rl)
                        else max 0 (min (rl_max_requests (rl_config rl)) tokens), w1)
      else (memory_remaining rl key, w))"

definition rl_reset :: "'w redis \<Rightarrow> rate_limiter \<Rightarrow> string \<Rightarrow> 'w \<Rightarrow> rate_limiter \<times> 'w" where
  "rl_reset R rl key w =
     (rl\<lparr>rl_buckets := (rl_buckets rl)(key := None)\<rparr>,
      if rl_redis rl then snd (r_delete R [rl_key rl key] w) else w)"

section \<open>What a token bucket grants\<close>

text \<open>A sequence of requests (cost, time) against a bucket; the given cost granted and the bucket left.\<close>

fun bucket_run :: "('s \<Rightarrow> rat \<Rightarrow> time \<Rightarrow> bool \<times> 's) \<Rightarrow> 's \<Rightarrow> (rat \<times> time) list \<Rightarrow> rat \<times> 's" where
  "bucket_run draw s [] = (0, s)"
| "bucket_run draw s ((cost, now) # reqs) =
     (let (granted, s1) = draw s cost now; (given, s2) = bucket_run draw s1 reqs
      in ((if granted then cost else 0) + given, s2))"

definition in_order :: "time \<Rightarrow> (rat \<times> time) list \<Rightarrow> bool" where
  "in_order t0 reqs \<longleftrightarrow> sorted (t0 # map snd reqs) \<and> (\<forall>(cost, _) \<in> set reqs. 0 \<le> cost)"

lemma in_order_Cons [simp]:
  "in_order t0 ((cost, now) # reqs) \<longleftrightarrow> t0 \<le> now \<and> 0 \<le> cost \<and> in_order now reqs"
  by (auto simp: in_order_def)

locale token_bucket =
  fixes draw :: "'s \<Rightarrow> rat \<Rightarrow> time \<Rightarrow> bool \<times> 's"
    and level :: "'s \<Rightarrow> rat"
    and stamp :: "'s \<Rightarrow> time"
    and rate :: rat
    and good :: "'s \<Rightarrow> bool"
  assumes good_level: "good s \<Longrightarrow> 0 \<le> level s"
    and good_take: "good s \<Longrightarrow> 0 \<le> cost \<Longrightarrow> stamp s \<le> now \<Longrightarrow> good (snd (draw s cost now))"
    and stamp_take: "stamp (snd (draw s cost now)) = now"
    and spend: "good s \<Longrightarrow> 0 \<le> cost \<Longrightarrow> stamp s \<le> now \<Longrightarrow>
      level (snd (draw s cost now)) + (if fst (draw s cost now) then cost else 0) \<le> level s + rate * (now - stamp s)"
begin

lemma granted_bound:
  assumes "good s" and "in_order (stamp s) reqs" and "bucket_run draw s reqs = (given, s')"
  shows "good s' \<and> stamp s \<le> stamp s' \<and> given + level s' \<le> level s + rate * (stamp s' - stamp s)"
  using assms
proof (induction reqs arbitrary: s given)
  case (Cons req reqs)
  obtain cost now where req: "req = (cost, now)" by (cases req)
  obtain g s1 where t: "draw s cost now = (g, s1)" by (cases "draw s cost now")
  obtain rest where r: "bucket_run draw s1 reqs = (rest, s')" "given = (if g then cost else 0) + rest"
    using Cons.prems(3) t req by (cases "bucket_run draw s1 reqs") auto
  have ord: "stamp s \<le> now" "0 \<le> cost" "in_order now reqs" using Cons.prems(2) req by auto
  note step = spend [OF Cons.prems(1) ord(2,1)] good_take [OF Cons.prems(1) ord(2,1)] stamp_take [of s cost now]
  have "good s' \<and> stamp s1 \<le> stamp s' \<and> rest + level s' \<le> level s1 + rate * (stamp s' - stamp s1)"
    using Cons.IH [OF _ _ r(1)] step t ord(3) by simp
  with step t r(2) ord(1) show ?case by (auto simp: algebra_simps)
qed simp

lemma total_bound:
  assumes "good s" and "in_order (stamp s) reqs" and "reqs \<noteq> []"
  shows "fst (bucket_run draw s reqs) \<le> level s + rate * (snd (last reqs) - stamp s)"
proof -
  have "stamp (snd (bucket_run draw s reqs)) = snd (last reqs)"
    using \<open>reqs \<noteq> []\<close>
  proof (induction reqs arbitrary: s)
    case (Cons req reqs)
    then show ?case
      by (cases "reqs = []"; cases req) (simp_all add: case_prod_beta stamp_take)
  qed simp
  with granted_bound [OF assms(1,2), of "fst (bucket_run draw s reqs)" "snd (bucket_run draw s reqs)"]
    good_level show ?thesis by fastforce
qed

end

definition positive_config :: "rate_limit_config \<Rightarrow> bool" where
  "positive_config cfg \<longleftrightarrow> 0 < rl_max_requests cfg \<and> 0 < rl_window_seconds cfg \<and> 0 < rl_burst_multiplier cfg"

text \<open>The per-process bucket.\<close>

interpretation mem_bucket: token_bucket "bucket_take cfg" bk_tokens bk_last_refill
  "rl_max_requests cfg / rl_window_seconds cfg" "\<lambda>b. positive_config cfg \<and> 0 \<le> bk_tokens b" for cfg
  by unfold_locales (auto simp: bucket_take_def Let_def positive_config_def min_def mult.commute)

text \<open>
  The bucket the script keeps in Redis: its tokens and its time stamp, in the unit of the
  script's clock.
\<close>

definition lua_take :: "rat \<Rightarrow> rat \<Rightarrow> rat \<times> rat \<Rightarrow> rat \<Rightarrow> rat \<Rightarrow> bool \<times> (rat \<times> rat)" where
  "lua_take mx window b cost now =
     (let tokens = lua_refill mx window (Some (fst b)) (Some (snd b)) now
      in if cost \<le> tokens then (True, tokens - cost, now) else (False, tokens, now))"

lemma lua_refill_le:
  assumes "0 < mx" "0 < window" "0 \<le> k"
  shows "lua_refill mx window (Some k) (Some t) now \<le> k + mx / window * (now - t)"
proof (cases "window \<le> now - t")
  case True
  then have "mx / window * window \<le> mx / window * (now - t)"
    using assms by (intro mult_left_mono) auto
  with True assms show ?thesis by (simp add: lua_refill_def)
qed (simp add: lua_refill_def mult.commute min_def)

lemma lua_refill_nonneg:
  assumes "0 < mx" "0 < window" "0 \<le> k" "t \<le> now"
  shows "0 \<le> lua_refill mx window (Some k) (Some t) now"
  using assms by (simp add: lua_refill_def)

interpretation lua_bucket: token_bucket "lua_take mx window" fst snd "mx / window"
  "\<lambda>b. 0 < mx \<and> 0 < window \<and> 0 \<le> fst b" for mx window
proof unfold_locales
  show "fst (snd (lua_take mx window s cost now)) + (if fst (lua_take mx window s cost now) then cost else 0)
      \<le> fst s + mx / window * (now - snd s)"
    if "0 < mx \<and> 0 < window \<and> 0 \<le> fst s" "0 \<le> cost" "snd s \<le> now" for mx window s cost now
    using lua_refill_le [of mx window "fst s" "snd s" now] that by (auto simp: lua_take_def Let_def)
qed (auto simp: lua_take_def Let_def lua_refill_nonneg)

section \<open>The limiter's buckets\<close>

text \<open>A sequence of calls (key, cost, time) on the per-process path, and what it grants to one key.\<close>

fun memory_granted :: "rate_limiter \<Rightarrow> string \<Rightarrow> (string \<times> rat \<times> time) list \<Rightarrow> rat" where
  "memory_granted rl key [] = 0"
| "memory_granted rl key ((k, cost, now) # calls) =
     (let (granted, rl1) = memory_acquire rl k cost now
      in (if granted \<and> k = key then cost else 0) + memory_granted rl1 key calls)"

definition calls_of :: "string \<Rightarrow> (string \<times> rat \<times> time) list \<Rightarrow> (rat \<times> time) list" where
  "calls_of key calls = map snd (filter (\<lambda>c. fst c = key) calls)"

lemma memory_granted_bucket:
  assumes "rl_buckets rl key = Some b"
  shows "memory_granted rl key calls = fst (bucket_run (bucket_take (rl_config rl)) b (calls_of key calls))"
  using assms
proof (induction calls arbitrary: rl b)
  case (Cons c calls)
  obtain k cost now where c: "c = (k, cost, now)" by (cases c)
  show ?case
  proof (cases "k = key")
    case True
    let ?b = "snd (bucket_take (rl_config rl) b cost now)"
    have "rl_buckets (snd (memory_acquire rl k cost now)) key = Some ?b"
      "rl_config (snd (memory_acquire rl k cost now)) = rl_config rl"
      "fst (memory_acquire rl k cost now) = fst (bucket_take (rl_config rl) b cost now)"
      using True Cons.prems by (auto simp: memory_acquire_def get_or_def case_prod_beta Let_def)
    with Cons.IH [OF this(1)] True c show ?thesis by (simp add: calls_of_def case_prod_beta Let_def)
  next
    case False
    have "rl_buckets (snd (memory_acquire rl k cost now)) key = Some b"
      "rl_config (snd (memory_acquire rl k cost now)) = rl_config rl"
      using False Cons.prems by (auto simp: memory_acquire_def case_prod_beta Let_def)
    with Cons.IH [OF this(1)] False c show ?thesis by (simp add: calls_of_def case_prod_beta Let_def)
  qed
qed (simp add: calls_of_def)

lemma memory_granted_fresh:
  assumes "rl_buckets rl key = None" and "calls_of key calls = (cost, now) # later"
  shows "memory_granted rl key calls = fst (bucket_run (bucket_take (rl_config rl))
    \<lparr>bk_tokens = rl_max_requests (rl_config rl), bk_last_refill = now\<rparr> (calls_of key calls))"
  using assms
proof (induction calls arbitrary: rl)
  case (Cons c calls)
  obtain k cost' now' where c: "c = (k, cost', now')" by (cases c)
  show ?case
  proof (cases "k = key")
    case True
    let ?full = "\<lparr>bk_tokens = rl_max_requests (rl_config rl), bk_last_refill = now\<rparr>"
    have "memory_granted rl key (c # calls) = memory_granted (rl\<lparr>rl_buckets := (rl_buckets rl)(key \<mapsto> ?full)\<rparr>) key (c # calls)"
      using True c Cons.prems by (simp add: memory_acquire_def get_or_def calls_of_def)
    then show ?thesis
      using memory_granted_bucket [of "rl\<lparr>rl_buckets := (rl_buckets rl)(key \<mapsto> ?full)\<rparr>" key ?full "c # calls"] by simp
  next
    case False
    have "rl_buckets (snd (memory_acquire rl k cost' now')) key = None"
      "rl_config (snd (memory_acquire rl k cost' now')) = rl_config rl"
      using False Cons.prems by (auto simp: memory_acquire_def case_prod_beta Let_def)
    with Cons.IH [OF this(1)] False c Cons.prems(2) show ?thesis by (simp add: calls_of_def case_prod_beta Let_def)
  qed
qed (simp add: calls_of_def)

text \<open>The calls of one process on the Redis path; \<open>None\<close> when Redis raised.\<close>

fun redis_granted :: "'w redis \<Rightarrow> rate_limiter \<Rightarrow> string \<Rightarrow> (rat \<times> time) list \<Rightarrow> (rat, 'w) rcmd" where
  "redis_granted R rl key [] = rret 0"
| "redis_granted R rl key ((cost, wall) # calls) =
     rbind (redis_acquire R rl key cost wall) (\<lambda>granted.
     rbind (redis_granted R rl key calls) (\<lambda>rest. rret ((if granted then cost else 0) + rest)))"

definition stored_bucket :: "keyspace \<Rightarrow> string \<Rightarrow> (rat \<times> rat) option" where
  "stored_bucket ks k = (case (hash_at ks k ''tokens'', hash_at ks k ''ts'') of
     (Some a, Some b) \<Rightarrow> Some (a, b) | _ \<Rightarrow> None)"

lemma script_refines:
  assumes laws: "redis_hash_laws R view" "redis_counter_laws R view"
    and run: "token_bucket_script R key mx window cost now w = (Some (allowed, left), w')"
  shows "lua_take mx window (get_or (stored_bucket (view w) key) (mx, now)) cost now =
    (allowed = 1, the (stored_bucket (view w') key)) \<and> stored_bucket (view w') key \<noteq> None"
proof -
  obtain k w1 t w2 where s: "r_hget R key ''tokens'' w = (Some k, w1)" "r_hget R key ''ts'' w1 = (Some t, w2)"
    using run by (auto simp: token_bucket_script_def redis_simps)
  define tk where "tk = lua_refill mx window k t now"
  define lf where "lf = (if cost \<le> tk then tk - cost else tk)"
  obtain u w3 v w4 x w5 where h: "r_hset R key ''tokens'' lf w2 = (Some u, w3)" "r_hset R key ''ts'' now w3 = (Some v, w4)"
      "r_expire R key \<lfloor>window * 1000\<rfloor> w4 = (Some x, w5)" "w' = w5" "allowed = (if cost \<le> tk then 1 else 0)"
    using run s unfolding lf_def tk_def by (auto simp: token_bucket_script_def redis_simps Let_def)
  have get: "view w2 = view w" "k = hash_at (view w) key ''tokens''" "t = hash_at (view w) key ''ts''"
    using hash_lawsD(1) [OF laws(1) s(1)] hash_lawsD(1) [OF laws(1) s(2)] by simp_all
  have "stored_bucket (view w') key = Some (lf, now)"
    using hash_lawsD(2) [OF laws(1) h(1)] hash_lawsD(2) [OF laws(1) h(2)] counter_lawsD(4) [OF laws(2) h(3)] h(4)
    by (simp add: stored_bucket_def)
  moreover have "tk = lua_refill mx window (Some (fst (get_or (stored_bucket (view w) key) (mx, now))))
      (Some (snd (get_or (stored_bucket (view w) key) (mx, now)))) now"
    using get by (auto simp: tk_def stored_bucket_def lua_refill_def get_or_def split: option.splits)
  ultimately show ?thesis using h(5) by (auto simp: lua_take_def lf_def)
qed

lemma redis_granted_refines:
  assumes laws: "redis_hash_laws R view" "redis_counter_laws R view"
    and run: "redis_granted R rl key calls w = (Some given, w')"
    and stored: "stored_bucket (view w) (rl_key rl key) = Some b"
  shows "given = fst (bucket_run (lua_take (rl_max_requests (rl_config rl)) (rl_window_seconds (rl_config rl))) b
    (map (\<lambda>(cost, wall). (cost, wall * 1000)) calls))"
  using run stored
proof (induction calls arbitrary: w b given)
  case (Cons c calls)
  let ?take = "lua_take (rl_max_requests (rl_config rl)) (rl_window_seconds (rl_config rl))"
  obtain cost wall where c: "c = (cost, wall)" by (cases c)
  obtain allowed left w1 rest where s:
      "token_bucket_script R (rl_key rl key) (rl_max_requests (rl_config rl)) (rl_window_seconds (rl_config rl)) cost (wall * 1000) w
         = (Some (allowed, left), w1)"
      "redis_granted R rl key calls w1 = (Some rest, w')" "given = (if allowed = 1 then cost else 0) + rest"
    using Cons.prems(1) c by (auto simp: redis_simps redis_acquire_def Let_def)
  obtain b1 where b1: "stored_bucket (view w1) (rl_key rl key) = Some b1" "?take b cost (wall * 1000) = (allowed = 1, b1)"
    using script_refines [OF laws s(1)] Cons.prems(2) by (auto simp: get_or_def)
  from Cons.IH [OF s(2) b1(1)] b1(2) s(3) c show ?case by (simp add: case_prod_beta Let_def)
qed (simp add: redis_simps)

lemma redis_granted_fresh:
  assumes laws: "redis_hash_laws R view" "redis_counter_laws R view"
    and run: "redis_granted R rl key ((cost, wall) # calls) w = (Some given, w')"
    and stored: "stored_bucket (view w) (rl_key rl key) = None"
  shows "given = fst (bucket_run (lua_take (rl_max_requests (rl_config rl)) (rl_window_seconds (rl_config rl)))
    (rl_max_requests (rl_config rl), wall * 1000) (map (\<lambda>(cost, wall). (cost, wall * 1000)) ((cost, wall) # calls)))"
proof -
  let ?take = "lua_take (rl_max_requests (rl_config rl)) (rl_window_seconds (rl_config rl))"
  obtain allowed left w1 rest where s:
      "token_bucket_script R (rl_key rl key) (rl_max_requests (rl_config rl)) (rl_window_seconds (rl_config rl)) cost (wall * 1000) w
         = (Some (allowed, left), w1)"
      "redis_granted R rl key calls w1 = (Some rest, w')" "given = (if allowed = 1 then cost else 0) + rest"
    using run by (auto simp: redis_simps redis_acquire_def Let_def)
  obtain b1 where b1: "stored_bucket (view w1) (rl_key rl key) = Some b1"
      "?take (rl_max_requests (rl_config rl), wall * 1000) cost (wall * 1000) = (allowed = 1, b1)"
    using script_refines [OF laws s(1)] stored by (auto simp: get_or_def)
  from redis_granted_refines [OF laws s(2) b1(1)] b1(2) s(3) show ?thesis by (simp add: case_prod_beta Let_def)
qed

section \<open>Correctness\<close>

definition sample_limiter :: rate_limiter where
  "sample_limiter = \<lparr>rl_config = rl_default_config, rl_redis = True, rl_buckets = Map.empty, rl_degraded = False\<rparr>"

text \<open>On the per-process path a key that has no bucket yet is granted, over any sequence of
  calls interleaved with calls for other keys, at most the configured maximum plus the configured
  rate times the elapsed time.\<close>

theorem memory_rate_bound:
  assumes "positive_config (rl_config rl)" and "rl_buckets rl key = None"
    and "calls_of key calls = (cost, t0) # later" and "in_order t0 (calls_of key calls)"
  shows "memory_granted rl key calls \<le> rl_max_requests (rl_config rl)
           + rl_max_requests (rl_config rl) / rl_window_seconds (rl_config rl) * (snd (last (calls_of key calls)) - t0)"
  using mem_bucket.total_bound [of "rl_config rl" "\<lparr>bk_tokens = rl_max_requests (rl_config rl), bk_last_refill = t0\<rparr>" "calls_of key calls"]
    memory_granted_fresh [OF assms(2,3)] assms by (simp add: positive_config_def)

theorem memory_rate_bound_witness:
  "memory_granted sample_limiter ''k'' [(''k'', 80, 0), (''j'', 80, 1), (''k'', 80, 30)] \<le> 100 + 100 / 60 * 30"
  using memory_rate_bound [of sample_limiter "''k''" "[(''k'', 80, 0), (''j'', 80, 1), (''k'', 80, 30)]" 80 0 "[(80, 30)]"]
  by (simp add: calls_of_def sample_limiter_def rl_default_config_def positive_config_def in_order_def)

text \<open>On the Redis path the bound that holds is a thousand times the configured rate: the
  script compares a clock in milliseconds with a window in seconds.\<close>

theorem redis_rate_bound:
  assumes "redis_hash_laws R view" "redis_counter_laws R view"
    and "0 < rl_max_requests (rl_config rl)" "0 < rl_window_seconds (rl_config rl)"
    and "stored_bucket (view w) (rl_key rl key) = None" and "in_order t0 ((cost, t0) # calls)"
    and "redis_granted R rl key ((cost, t0) # calls) w = (Some given, w')"
  shows "given \<le> rl_max_requests (rl_config rl)
           + 1000 * (rl_max_requests (rl_config rl) / rl_window_seconds (rl_config rl)) * (snd (last ((cost, t0) # calls)) - t0)"
proof -
  let ?ms = "map (\<lambda>(cost, wall). (cost, wall * 1000)) :: (rat \<times> time) list \<Rightarrow> (rat \<times> time) list"
  have ord: "in_order (t * 1000) (?ms cs)" if "in_order t cs" for t cs
    using that by (induction cs arbitrary: t) (auto simp: in_order_def)
  have last: "snd (last (?ms ((cost, t0) # calls))) = snd (last ((cost, t0) # calls)) * 1000"
    by (subst last_map) (auto simp: case_prod_beta)
  have "given \<le> rl_max_requests (rl_config rl)
      + rl_max_requests (rl_config rl) / rl_window_seconds (rl_config rl) * (snd (last (?ms ((cost, t0) # calls))) - t0 * 1000)"
    unfolding redis_granted_fresh [OF assms(1,2,7,5)]
    using lua_bucket.total_bound [of "rl_max_requests (rl_config rl)" "rl_window_seconds (rl_config rl)"
        "(rl_max_requests (rl_config rl), t0 * 1000)" "?ms ((cost, t0) # calls)"] assms(3,4) ord [OF assms(6)]
    by simp
  moreover have "r * (x * 1000 - t * 1000) = 1000 * r * (x - t)" for r x t :: rat by (simp add: algebra_simps)
  ultimately show ?thesis unfolding last by metis
qed

theorem redis_rate_bound_witness:
  "rat_of_int 200 \<le> 100 + 1000 * (100 / 60) * (6/100 - 0)"
proof -
  have "fst (redis_granted sole_redis sample_limiter ''k'' [(100, 0), (100, 6/100)] []) = Some 200" by code_simp
  then obtain w' where "redis_granted sole_redis sample_limiter ''k'' [(100, 0), (100, 6/100)] [] = (Some 200, w')"
    by (metis prod.collapse)
  from redis_rate_bound [OF mem_redis_hash_laws mem_redis_counter_laws _ _ _ _ this] show ?thesis
    by (simp add: sample_limiter_def rl_default_config_def stored_bucket_def hash_at_def in_order_def)
qed

text \<open>Once \<open>window_seconds\<close> milliseconds have passed since the last call, the Redis bucket grants a
  full maximum again, whatever it had left.\<close>

theorem redis_bucket_refills_in_milliseconds:
  assumes "redis_hash_laws R view" "redis_counter_laws R view"
    and "stored_bucket (view w) (rl_key rl key) = Some (tokens, last_ms)"
    and "rl_window_seconds (rl_config rl) \<le> wall * 1000 - last_ms" and "cost \<le> rl_max_requests (rl_config rl)"
    and "redis_acquire R rl key cost wall w = (Some allowed, w')"
  shows "allowed"
proof -
  obtain a left where s: "token_bucket_script R (rl_key rl key) (rl_max_requests (rl_config rl))
      (rl_window_seconds (rl_config rl)) cost (wall * 1000) w = (Some (a, left), w')" "allowed = (a = 1)"
    using assms(6) by (auto simp: redis_acquire_def redis_simps Let_def)
  from script_refines [OF assms(1,2) s(1)] assms(3,4,5) s(2) show ?thesis
    by (simp add: get_or_def lua_take_def lua_refill_def split: if_splits)
qed

theorem redis_bucket_refills_in_milliseconds_witness:
  "fst (redis_acquire sole_redis sample_limiter ''k'' 100 (6/100) [(''neryva:rl:k'', RHash [''tokens'' \<mapsto> 0, ''ts'' \<mapsto> 0])]) = Some True"
proof -
  let ?w = "[(''neryva:rl:k'', RHash [''tokens'' \<mapsto> (0::rat), ''ts'' \<mapsto> 0])]"
  have "fst (redis_acquire sole_redis sample_limiter ''k'' 100 (6/100) ?w) \<noteq> None" by code_simp
  then obtain a w' where r: "redis_acquire sole_redis sample_limiter ''k'' 100 (6/100) ?w = (Some a, w')"
    by (metis not_None_eq prod.collapse)
  have a
    by (rule redis_bucket_refills_in_milliseconds [OF mem_redis_hash_laws mem_redis_counter_laws _ _ _ r, of 0 0])
      (simp_all add: sample_limiter_def rl_default_config_def stored_bucket_def hash_at_def rl_key_def)
  with r show ?thesis by simp
qed

text \<open>A call never fails for want of Redis: when Redis is not configured, or its call raises, the
  decision is the per-process bucket's and the limiter reports itself degraded; when Redis answers,
  the decision is the script's and no per-process bucket changes.\<close>

theorem acquire_degrades_visibly:
  "case rl_acquire R rl key tokens wall tick w of (allowed, rl', w') \<Rightarrow>
     if \<not> rl_redis rl then (allowed, rl') = memory_acquire rl key tokens tick
     else case redis_acquire R rl key tokens wall (snd (try_redis_reconnect R rl w)) of
            (Some a, _) \<Rightarrow> allowed = a \<and> rl_buckets rl' = rl_buckets rl
          | (None, _) \<Rightarrow> allowed = fst (memory_acquire rl key tokens tick) \<and> rl_degraded rl'"
proof -
  have same: "redis_acquire R (fst (try_redis_reconnect R rl w)) key tokens wall = redis_acquire R rl key tokens wall"
    "rl_buckets (fst (try_redis_reconnect R rl w)) = rl_buckets rl"
    "rl_config (fst (try_redis_reconnect R rl w)) = rl_config rl"
    by (auto simp: try_redis_reconnect_def redis_acquire_def rl_key_def split: prod.splits option.splits)
  have mem: "fst (memory_acquire (r\<lparr>rl_degraded := True\<rparr>) key tokens tick) = fst (memory_acquire rl key tokens tick)"
    "rl_degraded (snd (memory_acquire (r\<lparr>rl_degraded := True\<rparr>) key tokens tick))"
    if "rl_buckets r = rl_buckets rl" "rl_config r = rl_config rl" for r
    using that by (auto simp: memory_acquire_def case_prod_beta Let_def)
  show ?thesis
    using same mem [OF same(2,3)] by (auto simp: rl_acquire_def case_prod_beta Let_def split: option.splits prod.splits)
qed

end
