(* ===== verification/Catalog.thy ===== *)
theory Catalog
  imports Prelude
begin

text \<open>
  The model catalog (\<open>gateway/catalog.py\<close>): context windows and price cards keyed
  by the normalised \<open>provider:model\<close> string. The dictionary is an association list
  in insertion order, so that \<open>AList.update\<close> is Python's item assignment.
\<close>

record model_spec =
  ms_provider :: string
  ms_model :: string
  ms_context_window :: int
  ms_input_price :: usd
  ms_output_price :: usd

type_synonym catalog = "(string \<times> model_spec) list"

definition default_context_window :: int where
  "default_context_window = 128000"

definition model_key :: "string \<Rightarrow> string \<Rightarrow> string" where
  "model_key p m = py_lower (py_strip p) @ '':'' @ py_lower (py_strip m)"

definition spec_key :: "model_spec \<Rightarrow> string" where
  "spec_key s = model_key (ms_provider s) (ms_model s)"

definition mk_spec :: "string \<Rightarrow> string \<Rightarrow> int \<Rightarrow> usd \<Rightarrow> usd \<Rightarrow> model_spec" where
  "mk_spec p m w i u =
     \<lparr>ms_provider = p, ms_model = m, ms_context_window = w, ms_input_price = i, ms_output_price = u\<rparr>"

definition seed_specs :: "model_spec list" where
  "seed_specs =
  [mk_spec ''openai'' ''gpt-4o'' 128000 (5/2) (10),
   mk_spec ''openai'' ''gpt-4o-mini'' 128000 (3/20) (3/5),
   mk_spec ''openai'' ''gpt-4.1'' 1000000 (2) (8),
   mk_spec ''openai'' ''gpt-4-turbo'' 128000 (10) (30),
   mk_spec ''openai'' ''gpt-4'' 8192 (30) (60),
   mk_spec ''openai'' ''o1'' 200000 (15) (60),
   mk_spec ''openai'' ''o1-mini'' 128000 (11/10) (22/5),
   mk_spec ''openai'' ''o3'' 200000 (2) (8),
   mk_spec ''openai'' ''o3-mini'' 200000 (11/10) (22/5),
   mk_spec ''openai'' ''o4-mini'' 200000 (11/10) (22/5),
   mk_spec ''anthropic'' ''claude-3-5-sonnet'' 200000 (3) (15),
   mk_spec ''anthropic'' ''claude-3-5-haiku'' 200000 (4/5) (4),
   mk_spec ''anthropic'' ''claude-3-7-sonnet'' 200000 (3) (15),
   mk_spec ''anthropic'' ''claude-3-haiku'' 200000 (1/4) (5/4),
   mk_spec ''anthropic'' ''claude-sonnet-4'' 200000 (3) (15),
   mk_spec ''anthropic'' ''claude-sonnet-4.5'' 200000 (3) (15),
   mk_spec ''anthropic'' ''claude-sonnet-4.6'' 200000 (3) (15),
   mk_spec ''anthropic'' ''claude-opus-4'' 200000 (15) (75),
   mk_spec ''anthropic'' ''claude-opus-4.5'' 200000 (5) (25),
   mk_spec ''anthropic'' ''claude-haiku-4.5'' 200000 (1) (5),
   mk_spec ''google'' ''gemini-1.5-pro'' 1000000 (5/4) (5),
   mk_spec ''google'' ''gemini-1.5-flash'' 1000000 (3/40) (3/10),
   mk_spec ''google'' ''gemini-2.0-flash'' 1000000 (1/10) (2/5),
   mk_spec ''google'' ''gemini-2.5-pro'' 1000000 (5/4) (10)]"

definition catalog_register :: "model_spec \<Rightarrow> catalog \<Rightarrow> catalog" where
  "catalog_register s cat = AList.update (spec_key s) s cat"

definition catalog_init :: "model_spec list \<Rightarrow> catalog" where
  "catalog_init specs = fold catalog_register specs []"

definition default_catalog :: catalog where
  "default_catalog = catalog_init seed_specs"

definition catalog_get :: "catalog \<Rightarrow> string \<Rightarrow> string \<Rightarrow> model_spec option" where
  "catalog_get cat p m = map_of cat (model_key p m)"

definition catalog_context_window :: "catalog \<Rightarrow> string \<Rightarrow> string \<Rightarrow> int" where
  "catalog_context_window cat p m =
     (case catalog_get cat p m of Some s \<Rightarrow> ms_context_window s | None \<Rightarrow> default_context_window)"

definition estimate_cost :: "catalog \<Rightarrow> string \<Rightarrow> string \<Rightarrow> int \<Rightarrow> int \<Rightarrow> usd option" where
  "estimate_cost cat p m input_tokens output_tokens =
     (case catalog_get cat p m of
        None \<Rightarrow> None
      | Some s \<Rightarrow> Some (of_int input_tokens / 1000 * ms_input_price s
                       + of_int output_tokens / 1000 * ms_output_price s))"

definition list_all_specs :: "catalog \<Rightarrow> model_spec list" where
  "list_all_specs cat = py_sorted spec_key (map snd cat)"

definition catalog_upsert ::
  "catalog \<Rightarrow> string \<Rightarrow> string \<Rightarrow> int option \<Rightarrow> usd option \<Rightarrow> usd option \<Rightarrow> model_spec \<times> catalog" where
  "catalog_upsert cat p m w i u =
     (let existing = catalog_get cat p m;
          s = \<lparr>ms_provider = p, ms_model = m,
               ms_context_window =
                 (case w of Some x \<Rightarrow> x | None \<Rightarrow>
                   (case existing of Some e \<Rightarrow> ms_context_window e | None \<Rightarrow> default_context_window)),
               ms_input_price =
                 (case i of Some x \<Rightarrow> x | None \<Rightarrow>
                   (case existing of Some e \<Rightarrow> ms_input_price e | None \<Rightarrow> 0)),
               ms_output_price =
                 (case u of Some x \<Rightarrow> x | None \<Rightarrow>
                   (case existing of Some e \<Rightarrow> ms_output_price e | None \<Rightarrow> 0))\<rparr>
      in (s, catalog_register s cat))"

text \<open>Every entry is stored under its own key, and no key twice.\<close>

definition catalog_inv :: "catalog \<Rightarrow> bool" where
  "catalog_inv cat \<longleftrightarrow> distinct (map fst cat) \<and> list_all (\<lambda>(k, s). k = spec_key s) cat"

section \<open>The store interface\<close>

text \<open>
  What the router, the budget math and the context layer rely on: a registry read
  through a normalised key, where registering a spec changes exactly one key.
\<close>

locale model_facts =
  fixes facts_get :: "'c \<Rightarrow> string \<Rightarrow> string \<Rightarrow> model_spec option"
    and facts_register :: "model_spec \<Rightarrow> 'c \<Rightarrow> 'c"
  assumes get_register:
      "facts_get (facts_register s c) p m =
         (if model_key p m = spec_key s then Some s else facts_get c p m)"
    and get_normalised:
      "model_key p m = model_key p' m' \<Longrightarrow> facts_get c p m = facts_get c p' m'"
begin

lemma get_register_same: "facts_get (facts_register s c) (ms_provider s) (ms_model s) = Some s"
  by (simp add: get_register spec_key_def)

lemma register_overrides:
  "spec_key s = spec_key t \<Longrightarrow>
   facts_get (facts_register s (facts_register t c)) p m = facts_get (facts_register s c) p m"
  by (simp add: get_register)

lemma register_commute:
  "spec_key s \<noteq> spec_key t \<Longrightarrow>
   facts_get (facts_register s (facts_register t c)) p m = facts_get (facts_register t (facts_register s c)) p m"
  by (simp add: get_register)

end

section \<open>Lemmas\<close>

lemma model_key_normalised:
  "model_key (py_lower p) (py_lower m) = model_key p m"
  "model_key (py_strip p) (py_strip m) = model_key p m"
  by (simp_all add: model_key_def py_strip_lower)

lemma catalog_get_register:
  "catalog_get (catalog_register s cat) p m =
     (if model_key p m = spec_key s then Some s else catalog_get cat p m)"
  by (simp add: catalog_get_def catalog_register_def update_conv)

interpretation facts: model_facts catalog_get catalog_register
  by unfold_locales (simp_all add: catalog_get_register, simp add: catalog_get_def)

lemma catalog_inv_Nil [simp]: "catalog_inv []"
  by (simp add: catalog_inv_def)

lemma catalog_inv_register [inv_rules]:
  assumes "catalog_inv cat"
  shows "catalog_inv (catalog_register s cat)"
proof -
  have "distinct (map fst (catalog_register s cat))"
    using assms by (simp add: catalog_inv_def catalog_register_def distinct_update)
  moreover have "list_all (\<lambda>(k, s). k = spec_key s) (AList.update (spec_key s) s cat)"
    using assms unfolding catalog_inv_def by (induction cat) auto
  ultimately show ?thesis by (simp add: catalog_inv_def catalog_register_def)
qed

lemma catalog_inv_fold_register: "catalog_inv cat \<Longrightarrow> catalog_inv (fold catalog_register specs cat)"
  by (induction specs arbitrary: cat) (auto intro: inv_rules)

lemma catalog_inv_init: "catalog_inv (catalog_init specs)"
  by (simp add: catalog_init_def catalog_inv_fold_register)

lemma catalog_inv_default: "catalog_inv default_catalog"
  by (simp add: default_catalog_def catalog_inv_init)

lemma catalog_inv_upsert [inv_rules]:
  "catalog_inv cat \<Longrightarrow> catalog_inv (snd (catalog_upsert cat p m w i u))"
  by (simp add: catalog_upsert_def Let_def catalog_inv_register)

lemma fst_upsert_key: "spec_key (fst (catalog_upsert cat p m w i u)) = model_key p m"
  by (simp add: catalog_upsert_def Let_def spec_key_def)

lemma upsert_get:
  "catalog_get (snd (catalog_upsert cat p m w i u)) q n =
     (if model_key q n = model_key p m then Some (fst (catalog_upsert cat p m w i u)) else catalog_get cat q n)"
  by (simp add: catalog_upsert_def Let_def catalog_get_register spec_key_def)

lemma set_list_all_specs: "set (list_all_specs cat) = snd ` set cat"
  by (simp add: list_all_specs_def)

lemma sorted_list_all_specs: "sorted (map spec_key (list_all_specs cat))"
  by (simp add: list_all_specs_def)

lemma distinct_list_all_specs:
  assumes "catalog_inv cat"
  shows "distinct (map spec_key (list_all_specs cat))"
proof -
  have "map spec_key (map snd cat) = map fst cat"
    using assms by (induction cat) (auto simp: catalog_inv_def)
  then have "distinct (map spec_key (map snd cat))"
    using assms by (simp only: catalog_inv_def)
  moreover have "mset (map spec_key (list_all_specs cat)) = mset (map spec_key (map snd cat))"
    by (simp only: list_all_specs_def mset_map mset_py_sorted)
  ultimately show ?thesis by (metis mset_eq_imp_distinct_iff)
qed

lemma list_all_specs_get:
  assumes "catalog_inv cat"
  shows "s \<in> set (list_all_specs cat) \<longleftrightarrow> catalog_get cat (ms_provider s) (ms_model s) = Some s"
proof -
  have "(k, s) \<in> set cat \<Longrightarrow> k = spec_key s" for k
    using assms by (auto simp: catalog_inv_def list_all_iff)
  then have "s \<in> snd ` set cat \<longleftrightarrow> (spec_key s, s) \<in> set cat" by force
  also have "\<dots> \<longleftrightarrow> map_of cat (spec_key s) = Some s"
    using assms by (simp add: catalog_inv_def)
  finally show ?thesis by (simp add: set_list_all_specs catalog_get_def spec_key_def)
qed

lemma estimate_cost_None_iff: "estimate_cost cat p m a b = None \<longleftrightarrow> catalog_get cat p m = None"
  by (simp add: estimate_cost_def split: option.split)

section \<open>Properties\<close>

text \<open>A four-model catalog for concrete instances.\<close>

definition sample_catalog :: catalog where
  "sample_catalog = catalog_init
     [mk_spec ''openai'' ''gpt-4o'' 128000 (5/2) 10, mk_spec ''openai'' ''gpt-4o-mini'' 128000 (3/20) (3/5),
      mk_spec ''openai'' ''gpt-4.1'' 1000000 2 8, mk_spec ''google'' ''gemini-2.5-pro'' 1000000 (5/4) 10]"

text \<open>after an upsert the catalog is still well formed, the model is found under any
  spelling of its name that differs in case or surrounding blanks only, with every field that
  was given replaced and every field that was not given kept from the previous entry, and all
  other models are as before.\<close>

theorem upsert_merges:
  assumes "catalog_inv cat" and "catalog_get cat p m = Some e"
    and "model_key q n = model_key p m" and "model_key q' n' \<noteq> model_key p m"
  shows "catalog_inv (snd (catalog_upsert cat p m w i u))
    \<and> catalog_get (snd (catalog_upsert cat p m w i u)) q n =
        Some (mk_spec p m (get_or w (ms_context_window e)) (get_or i (ms_input_price e)) (get_or u (ms_output_price e)))
    \<and> catalog_get (snd (catalog_upsert cat p m w i u)) q' n' = catalog_get cat q' n'"
proof -
  have "fst (catalog_upsert cat p m w i u) =
      mk_spec p m (get_or w (ms_context_window e)) (get_or i (ms_input_price e)) (get_or u (ms_output_price e))"
    using assms(2) by (simp add: catalog_upsert_def Let_def mk_spec_def get_or_def split: option.split)
  then show ?thesis using assms by (simp add: upsert_get inv_rules)
qed

theorem upsert_merges_witness:
  "catalog_get (snd (catalog_upsert sample_catalog ''openai'' ''gpt-4o'' None (Some 1) None)) '' OpenAI'' ''GPT-4o'' =
     Some (mk_spec ''openai'' ''gpt-4o'' 128000 1 10)"
proof -
  have e: "catalog_get sample_catalog ''openai'' ''gpt-4o'' = Some (mk_spec ''openai'' ''gpt-4o'' 128000 (5/2) 10)"
    by code_simp
  have k: "model_key '' OpenAI'' ''GPT-4o'' = model_key ''openai'' ''gpt-4o''" by code_simp
  have k': "model_key ''google'' ''gemini-2.5-pro'' \<noteq> model_key ''openai'' ''gpt-4o''" by code_simp
  have i: "catalog_inv sample_catalog" by (simp add: sample_catalog_def catalog_inv_init)
  show ?thesis
    using upsert_merges [OF i e k k', of None "Some 1" None] by (simp add: mk_spec_def get_or_def)
qed

text \<open>listing a well-formed catalog yields exactly its entries, each once, in strictly
  increasing key order; a spec is listed iff it is what a lookup of its own name returns.\<close>

theorem list_all_specs_correct:
  assumes "catalog_inv cat"
  shows "sorted (map spec_key (list_all_specs cat)) \<and> distinct (map spec_key (list_all_specs cat))
    \<and> (s \<in> set (list_all_specs cat) \<longleftrightarrow> catalog_get cat (ms_provider s) (ms_model s) = Some s)"
  using assms by (simp add: sorted_list_all_specs distinct_list_all_specs list_all_specs_get)

theorem list_all_specs_correct_witness:
  "catalog_inv default_catalog \<and> sorted (map spec_key (list_all_specs default_catalog))
   \<and> distinct (map spec_key (list_all_specs default_catalog))"
  using list_all_specs_correct [OF catalog_inv_default] catalog_inv_default by simp

end
