(* ===== verification/Gw_Types.thy ===== *)
theory Gw_Types
  imports Prelude
begin

text \<open>
  The gateway's contract types (\<open>gateway/types.py\<close>).
\<close>

datatype gateway_error =
    GatewayAdmissionError time
  | GatewayQuotaExceeded string usd usd
  | GatewayConfigurationError string
  | GatewayChainExhausted string string string string nat

record chat_message =
  cm_role :: string
  cm_content :: string
  cm_metadata :: json

record gateway_request =
  rq_tenant_id :: string
  rq_messages :: "chat_message list"
  rq_request_id :: string
  rq_provider :: string
  rq_model :: "string option"
  rq_strategy :: string
  rq_temperature :: rat
  rq_max_tokens :: "int option"
  rq_tools :: "json list"
  rq_structured_output :: "json option"
  rq_surface_id :: "string option"
  rq_end_user_id :: "string option"
  rq_conversation_id :: "string option"
  rq_session_id :: "string option"
  rq_tiered :: bool
  rq_simple_query :: bool
  rq_estimated_input_tokens :: "int option"
  rq_pinned :: "string option"

text \<open>The request a caller builds with the dataclass defaults.\<close>

definition default_request :: "string \<Rightarrow> chat_message list \<Rightarrow> gateway_request" where
  "default_request tenant msgs =
     \<lparr>rq_tenant_id = tenant, rq_messages = msgs, rq_request_id = [], rq_provider = ''openai'',
      rq_model = None, rq_strategy = ''cost'', rq_temperature = 7/10, rq_max_tokens = None, rq_tools = [], rq_structured_output = None,
      rq_surface_id = None, rq_end_user_id = None, rq_conversation_id = None,
      rq_session_id = None, rq_tiered = False, rq_simple_query = False,
      rq_estimated_input_tokens = None, rq_pinned = None\<rparr>"

record route_decision =
  rd_provider :: string
  rd_model :: string
  rd_strategy :: string
  rd_candidates_considered :: nat
  rd_reason :: string

record usage =
  us_input_tokens :: int
  us_output_tokens :: int
  us_reasoning_tokens :: int
  us_cached_tokens :: int

definition no_usage :: usage where
  "no_usage = \<lparr>us_input_tokens = 0, us_output_tokens = 0, us_reasoning_tokens = 0, us_cached_tokens = 0\<rparr>"

record tool_call =
  tc_id :: string
  tc_name :: string
  tc_arguments :: "(string \<times> json) list"

record gateway_result =
  gr_content :: string
  gr_model :: string
  gr_provider :: string
  gr_usage :: usage
  gr_finish_reason :: "string option"
  gr_tool_calls :: "tool_call list option"
  gr_routed_via :: string
  gr_attempts :: nat
  gr_cached :: bool

text \<open>The error text of a stream event: the message of an exception, or the text of a gateway error.\<close>

datatype stream_fault = FaultText string | FaultError gateway_error

datatype stream_event =
    EvDelta string
  | EvToolUseStart "nat option" string string
  | EvToolUseDelta "nat option" string "string option"
  | EvToolUseEnd "nat option" "string option" "string option" "((string \<times> json) list) option"
  | EvUsage usage string string
  | EvDone "string option" usage string string
  | EvError stream_fault string

text \<open>
  The tenant-level gateway configuration: the dictionary keys the gateway reads,
  \<open>None\<close> for an absent key.
\<close>

record gateway_cfg =
  gc_cheap_model :: "string option"
  gc_fallback_models :: "string list"
  gc_caching :: "bool option"
  gc_prompt_version :: "string option"
  gc_cross_family_fallback :: "bool option"
  gc_quota_platform_usd :: "usd option"
  gc_quota_tenant_usd :: "usd option"
  gc_quota_surface_usd :: "usd option"
  gc_quota_end_user_usd :: "usd option"

definition empty_cfg :: gateway_cfg where
  "empty_cfg = \<lparr>gc_cheap_model = None, gc_fallback_models = [], gc_caching = None,
     gc_prompt_version = None, gc_cross_family_fallback = None, gc_quota_platform_usd = None,
     gc_quota_tenant_usd = None, gc_quota_surface_usd = None, gc_quota_end_user_usd = None\<rparr>"

text \<open>\<open>cfg = dict(DEFAULT_GATEWAY_CFG); cfg.update(gateway_cfg)\<close>.\<close>

definition with_defaults :: "gateway_cfg \<Rightarrow> gateway_cfg" where
  "with_defaults cfg = cfg
     \<lparr>gc_cheap_model := Some (get_or (gc_cheap_model cfg) ''gpt-4o-mini''),
      gc_caching := Some (get_or (gc_caching cfg) True),
      gc_prompt_version := Some (get_or (gc_prompt_version cfg) ''v1''),
      gc_cross_family_fallback := Some (get_or (gc_cross_family_fallback cfg) True)\<rparr>"

end
