(* ===== verification/Router.thy ===== *)
theory Router
  imports Catalog Gw_Types
begin

text \<open>
  Routing (\<open>gateway/router.py\<close>): the candidate list of a request under its strategy,
  and the choice of the first available candidate. Scores are exact rationals with a
  top element for \<open>float('inf')\<close>.
\<close>

section \<open>Scores\<close>

datatype score = Fin rat | Inf

instantiation score :: linorder
begin

fun less_eq_score :: "score \<Rightarrow> score \<Rightarrow> bool" where
  "less_eq_score _ Inf = True"
| "less_eq_score Inf (Fin _) = False"
| "less_eq_score (Fin a) (Fin b) = (a \<le> b)"

definition less_score :: "score \<Rightarrow> score \<Rightarrow> bool" where
  "less_score a b = (a \<le> b \<and> \<not> b \<le> (a::score))"

instance
proof
  fix x y z :: score
  show "(x < y) = (x \<le> y \<and> \<not> y \<le> x)" by (simp add: less_score_def)
  show "x \<le> x" by (cases x) auto
  show "x \<le> y \<Longrightarrow> y \<le> z \<Longrightarrow> x \<le> z" by (cases x; cases y; cases z) auto
  show "x \<le> y \<Longrightarrow> y \<le> x \<Longrightarrow> x = y" by (cases x; cases y) auto
  show "x \<le> y \<or> y \<le> x" by (cases x; cases y) auto
qed

end

section \<open>Latency tracker\<close>

record latency_tracker =
  lt_alpha :: rat
  lt_latencies :: "(string \<times> rat) list"

definition latency_init :: latency_tracker where
  "latency_init = \<lparr>lt_alpha = 3/10, lt_latencies = []\<rparr>"

definition latency_key :: "string \<Rightarrow> string \<Rightarrow> string" where
  "latency_key p m = p @ '':'' @ m"

definition latency_update :: "latency_tracker \<Rightarrow> string \<Rightarrow> string \<Rightarrow> rat \<Rightarrow> latency_tracker" where
  "latency_update lt p m ms =
     (let key = latency_key p m
      in lt\<lparr>lt_latencies := AList.update key
            (case map_of (lt_latencies lt) key of
               None \<Rightarrow> ms
             | Some prev \<Rightarrow> lt_alpha lt * ms + (1 - lt_alpha lt) * prev) (lt_latencies lt)\<rparr>)"

definition latency_get :: "latency_tracker \<Rightarrow> string \<Rightarrow> string \<Rightarrow> rat" where
  "latency_get lt p m = get_or (map_of (lt_latencies lt) (latency_key p m)) 0"

section \<open>Routing\<close>

definition default_fallback :: "string \<Rightarrow> string option" where
  "default_fallback = map_of
     [(''openai'', ''gpt-4o-mini''), (''anthropic'', ''claude-3-5-haiku''),
      (''google'', ''gemini-2.0-flash''), (''azure'', ''gpt-4o-mini''), (''custom'', ''gpt-4o-mini'')]"

definition is_valid_strategy :: "string \<Rightarrow> bool" where
  "is_valid_strategy s = (s \<in> set [''cost'', ''latency'', ''quality'', ''pinned''])"

definition deployment_key :: "string \<Rightarrow> string \<Rightarrow> string" where
  "deployment_key p m = py_lower (py_strip p) @ '':'' @ py_lower (py_strip m)"

definition tenant_fallback_candidates :: "gateway_cfg \<Rightarrow> string list" where
  "tenant_fallback_candidates cfg = filter (\<lambda>c. c \<noteq> []) (map py_strip (gc_fallback_models cfg))"

definition default_model_table :: "string \<Rightarrow> string option" where
  "default_model_table = map_of
     [(''openai'', ''gpt-4o-mini''), (''anthropic'', ''claude-3-5-sonnet''),
      (''google'', ''gemini-2.0-flash''), (''azure'', ''gpt-4o-mini''), (''custom'', ''gpt-4o-mini'')]"

definition default_model_for :: "catalog \<Rightarrow> string \<Rightarrow> string" where
  "default_model_for cat p =
     (case default_model_table p of
        Some m \<Rightarrow> if catalog_get cat p m \<noteq> None then m
                  else (case find (\<lambda>s. ms_provider s = p) (list_all_specs cat) of
                          Some s \<Rightarrow> ms_model s | None \<Rightarrow> m)
      | None \<Rightarrow> (case find (\<lambda>s. ms_provider s = p) (list_all_specs cat) of
                   Some s \<Rightarrow> ms_model s | None \<Rightarrow> ''gpt-4o-mini''))"

definition split_deployment :: "string \<Rightarrow> deployment" where
  "split_deployment entry =
     (if CHR '':'' \<in> set entry
      then let (p, m) = py_split1 CHR '':'' entry in (py_lower (py_strip p), py_strip m)
      else (py_lower (py_strip entry), py_strip entry))"

record router =
  rt_catalog :: catalog
  rt_latency :: latency_tracker
  rt_cheap_model_fallback :: string

definition default_router :: "catalog \<Rightarrow> router" where
  "default_router cat = \<lparr>rt_catalog = cat, rt_latency = latency_init, rt_cheap_model_fallback = ''gpt-4o-mini''\<rparr>"

definition effective_strategy :: "gateway_request \<Rightarrow> string" where
  "effective_strategy rq = (if is_valid_strategy (rq_strategy rq) then rq_strategy rq else ''cost'')"

definition deployment_score :: "router \<Rightarrow> gateway_request \<Rightarrow> string \<Rightarrow> deployment \<Rightarrow> score" where
  "deployment_score r rq strategy c =
     (if strategy = ''cost'' then
        (case estimate_cost (rt_catalog r) (fst c) (snd c) (num_or (rq_estimated_input_tokens rq) 1000) 256 of
           Some x \<Rightarrow> Fin x | None \<Rightarrow> Inf)
      else if strategy = ''latency'' then
        (let l = latency_get (rt_latency r) (fst c) (snd c) in if 0 < l then Fin l else Inf)
      else Fin 0)"

definition cheap_deployment :: "router \<Rightarrow> gateway_request \<Rightarrow> gateway_cfg \<Rightarrow> deployment" where
  "cheap_deployment r rq cfg =
     (let cheap = str_or (gc_cheap_model cfg) (rt_cheap_model_fallback r)
      in if CHR '':'' \<in> set cheap then split_deployment cheap else (rq_provider rq, cheap))"

definition preferred_deployment :: "router \<Rightarrow> gateway_request \<Rightarrow> deployment" where
  "preferred_deployment r rq =
     (rq_provider rq, str_or (rq_model rq) (default_model_for (rt_catalog r) (rq_provider rq)))"

text \<open>The list before the strategy's sort.\<close>

definition unranked_candidates :: "router \<Rightarrow> gateway_request \<Rightarrow> gateway_cfg \<Rightarrow> deployment list" where
  "unranked_candidates r rq cfg =
     (let c1 = [preferred_deployment r rq];
          c2 = (if rq_tiered rq \<and> rq_simple_query rq then c1 @ [cheap_deployment r rq cfg] else c1);
          c3 = extend_new c2 (map split_deployment (tenant_fallback_candidates cfg))
      in case default_fallback (rq_provider rq) of
           Some m \<Rightarrow> append_new c3 (rq_provider rq, m)
         | None \<Rightarrow> c3)"

definition candidates :: "router \<Rightarrow> gateway_request \<Rightarrow> gateway_cfg \<Rightarrow> deployment list" where
  "candidates r rq cfg =
     (let strategy = effective_strategy rq
      in if truthy_str (rq_pinned rq) then [split_deployment (the (rq_pinned rq))]
         else let cs = unranked_candidates r rq cfg
              in if strategy \<in> set [''cost'', ''latency''] \<and> 1 < length cs
                 then py_sorted (deployment_score r rq strategy) cs
                 else cs)"

definition decide :: "router \<Rightarrow> gateway_request \<Rightarrow> (deployment \<Rightarrow> bool) \<Rightarrow> gateway_cfg \<Rightarrow> route_decision" where
  "decide r rq availability cfg =
     (let cs = candidates r rq cfg
      in case find availability cs of
           Some (p, m) \<Rightarrow> \<lparr>rd_provider = p, rd_model = m, rd_strategy = effective_strategy rq,
                           rd_candidates_considered = length cs, rd_reason = ''available''\<rparr>
         | None \<Rightarrow> \<lparr>rd_provider = fst (hd cs), rd_model = snd (hd cs), rd_strategy = effective_strategy rq,
                    rd_candidates_considered = length cs, rd_reason = ''all_deployments_cooldown''\<rparr>)"

section \<open>Lemmas\<close>

lemma effective_strategy_valid: "is_valid_strategy (effective_strategy rq)"
  by (simp add: effective_strategy_def is_valid_strategy_def)

lemma preferred_in_unranked: "preferred_deployment r rq \<in> set (unranked_candidates r rq cfg)"
  by (auto simp: unranked_candidates_def Let_def split: option.split)

lemma unranked_not_Nil [simp]: "unranked_candidates r rq cfg \<noteq> []"
  using preferred_in_unranked [of r rq cfg] by auto

lemma hd_unranked: "hd (unranked_candidates r rq cfg) = preferred_deployment r rq"
  by (simp add: unranked_candidates_def Let_def hd_extend_new hd_append_new split: option.split)

lemma candidates_not_Nil [simp]: "candidates r rq cfg \<noteq> []"
proof -
  have "py_sorted f (unranked_candidates r rq cfg) \<noteq> []" for f :: "deployment \<Rightarrow> score"
    by (metis length_0_conv length_py_sorted unranked_not_Nil)
  then show ?thesis by (simp add: candidates_def Let_def)
qed

lemma set_candidates_unpinned:
  "\<not> truthy_str (rq_pinned rq) \<Longrightarrow> set (candidates r rq cfg) = set (unranked_candidates r rq cfg)"
  by (simp add: candidates_def Let_def)

lemma candidates_pinned:
  "truthy_str (rq_pinned rq) \<Longrightarrow> candidates r rq cfg = [split_deployment (the (rq_pinned rq))]"
  by (simp add: candidates_def Let_def)

lemma candidates_ranked:
  assumes "\<not> truthy_str (rq_pinned rq)" and "effective_strategy rq \<in> {''cost'', ''latency''}"
  shows "candidates r rq cfg = py_sorted (deployment_score r rq (effective_strategy rq)) (unranked_candidates r rq cfg)"
proof (cases "1 < length (unranked_candidates r rq cfg)")
  case False
  moreover have "unranked_candidates r rq cfg \<noteq> []" by simp
  ultimately obtain c where "unranked_candidates r rq cfg = [c]"
    by (metis One_nat_def Suc_lessI length_0_conv length_Suc_conv length_greater_0_conv)
  with assms show ?thesis by (simp add: candidates_def Let_def py_sorted_def)
qed (use assms in \<open>auto simp: candidates_def Let_def\<close>)

lemma decide_in_candidates:
  "(rd_provider (decide r rq av cfg), rd_model (decide r rq av cfg)) \<in> set (candidates r rq cfg)"
proof (cases "find av (candidates r rq cfg)")
  case None
  then show ?thesis by (simp add: decide_def Let_def)
next
  case (Some c)
  then have "c \<in> set (candidates r rq cfg)" by (auto simp: find_Some_iff)
  with Some show ?thesis by (cases c) (simp add: decide_def Let_def)
qed

lemma split_deployment_roundtrip:
  assumes "CHR '':'' \<notin> set p" and "py_lower (py_strip p) = p" and "py_strip m = m"
  shows "split_deployment (p @ '':'' @ m) = (p, m)"
  using assms by (simp add: split_deployment_def py_split1_append)

lemma latency_get_update:
  "latency_get (latency_update lt p m ms) q n =
     (if latency_key q n = latency_key p m
      then (case map_of (lt_latencies lt) (latency_key p m) of
              None \<Rightarrow> ms | Some prev \<Rightarrow> lt_alpha lt * ms + (1 - lt_alpha lt) * prev)
      else latency_get lt q n)"
  by (simp add: latency_get_def latency_update_def Let_def update_conv get_or_def)

section \<open>Properties\<close>

text \<open>the routing decision is always one of the candidates. When some candidate is
  available it is the first available one in the ranked order; when none is, the decision is
  the head of the ranking, marked as such.\<close>

theorem decide_first_available:
  "let cs = candidates r rq cfg; d = decide r rq av cfg; c = (rd_provider d, rd_model d)
   in c \<in> set cs \<and> rd_candidates_considered d = length cs \<and>
      (if list_ex av cs
       then rd_reason d = ''available'' \<and> av c \<and> (\<exists>xs ys. cs = xs @ c # ys \<and> list_ex av xs = False)
       else rd_reason d = ''all_deployments_cooldown'' \<and> c = hd cs)"
proof (cases "find av (candidates r rq cfg)")
  case None
  then have "list_ex av (candidates r rq cfg) = False" by (auto simp: find_None_iff list_ex_iff)
  with None show ?thesis by (simp add: decide_def Let_def)
next
  case (Some c)
  then obtain i where i: "i < length (candidates r rq cfg)" "av (candidates r rq cfg ! i)"
      "c = candidates r rq cfg ! i" "\<forall>j<i. \<not> av (candidates r rq cfg ! j)"
    by (auto simp: find_Some_iff)
  have split: "candidates r rq cfg = take i (candidates r rq cfg) @ c # drop (Suc i) (candidates r rq cfg)"
    using i(1,3) by (simp add: id_take_nth_drop)
  have "list_ex av (take i (candidates r rq cfg)) = False"
    using i(1,4) by (fastforce simp: list_ex_iff in_set_conv_nth)
  moreover have "list_ex av (candidates r rq cfg)"
    using i by (auto simp: list_ex_iff)
  moreover obtain p m where c: "c = (p, m)" by (cases c)
  moreover have "decide r rq av cfg = \<lparr>rd_provider = p, rd_model = m, rd_strategy = effective_strategy rq,
      rd_candidates_considered = length (candidates r rq cfg), rd_reason = ''available''\<rparr>"
    using Some c by (simp add: decide_def Let_def)
  moreover have "av (p, m)" "(p, m) \<in> set (candidates r rq cfg)" using i c by auto
  ultimately show ?thesis using split by (simp add: Let_def) blast
qed

text \<open>under the cost and latency strategies the candidates are a rearrangement of the
  preferred deployment, the tier's cheap model and the configured fallbacks, sorted by score,
  and deployments with equal scores keep their configured order.\<close>

theorem candidates_ranked_stable:
  assumes "\<not> truthy_str (rq_pinned rq)" and "effective_strategy rq \<in> {''cost'', ''latency''}"
  shows "mset (candidates r rq cfg) = mset (unranked_candidates r rq cfg)
    \<and> sorted (map (deployment_score r rq (effective_strategy rq)) (candidates r rq cfg))
    \<and> filter (\<lambda>c. deployment_score r rq (effective_strategy rq) c = k) (candidates r rq cfg)
        = filter (\<lambda>c. deployment_score r rq (effective_strategy rq) c = k) (unranked_candidates r rq cfg)"
  using assms by (simp add: candidates_ranked) (simp add: py_sorted_def sort_key_stable)

definition sample_request :: gateway_request where
  "sample_request = (default_request ''t1'' []) \<lparr>rq_model := Some ''gpt-4o''\<rparr>"

theorem candidates_ranked_stable_witness:
  "candidates (default_router sample_catalog) sample_request empty_cfg
     = [(''openai'', ''gpt-4o-mini''), (''openai'', ''gpt-4o'')]
   \<and> mset (candidates (default_router sample_catalog) sample_request empty_cfg)
     = mset (unranked_candidates (default_router sample_catalog) sample_request empty_cfg)"
proof -
  have "\<not> truthy_str (rq_pinned sample_request)" "effective_strategy sample_request \<in> {''cost'', ''latency''}"
    by (simp_all add: sample_request_def default_request_def truthy_str_def effective_strategy_def is_valid_strategy_def)
  from candidates_ranked_stable [OF this, of "default_router sample_catalog" empty_cfg]
  show ?thesis by (intro conjI) (code_simp, simp)
qed

text \<open>a pinned request has one candidate, the pinned deployment, whatever the
  tenant's configuration, the strategy, the tiering flags and the deployment's health; any
  other request has its preferred deployment among the candidates, first under the
  quality and pinned strategies.\<close>

theorem pinned_is_exclusive:
  "if truthy_str (rq_pinned rq)
   then candidates r rq cfg = [split_deployment (the (rq_pinned rq))] \<and>
        (rd_provider (decide r rq av cfg), rd_model (decide r rq av cfg)) = split_deployment (the (rq_pinned rq))
   else preferred_deployment r rq \<in> set (candidates r rq cfg) \<and>
        (if effective_strategy rq \<in> {''quality'', ''pinned''}
         then hd (candidates r rq cfg) = preferred_deployment r rq else True)"
proof (cases "truthy_str (rq_pinned rq)")
  case True
  then show ?thesis
    using decide_in_candidates [of r rq av cfg] by (simp add: candidates_pinned)
next
  case False
  then have "effective_strategy rq \<in> {''quality'', ''pinned''} \<Longrightarrow> candidates r rq cfg = unranked_candidates r rq cfg"
    by (auto simp: candidates_def Let_def)
  with False show ?thesis
    using preferred_in_unranked [of r rq cfg] hd_unranked [of r rq cfg]
    by (simp add: set_candidates_unpinned)
qed

end
