(* ===== verification/Fallback.thy ===== *)
theory Fallback
  imports Router
begin

text \<open>
  Fallback chains (\<open>gateway/fallback.py\<close>): the classification of a provider failure by
  its message, and the deployments to try for each failure class. An exception is
  represented by its message, the only part of it the classifier reads.
\<close>

datatype failure_class = General | ContentPolicy | ContextWindow

definition class_name :: "failure_class \<Rightarrow> string" where
  "class_name c = (case c of General \<Rightarrow> ''general'' | ContentPolicy \<Rightarrow> ''content_policy''
                           | ContextWindow \<Rightarrow> ''context_window'')"

definition content_policy_markers :: "string list" where
  "content_policy_markers =
    [''content policy'', ''content_policy'', ''safety system'', ''refused'', ''refusal'',
     ''output blocked'', ''output_blocked'', ''inappropriate content'', ''filtered'',
     ''blocked by policy'', ''violates our policy'', ''responses_to_same'', ''moderation'',
     ''policy violation'']"

definition context_window_markers :: "string list" where
  "context_window_markers =
    [''maximum context length'', ''context length exceeded'', ''context window'',
     ''prompt is too long'', ''input is too long'', ''context_length_exceeded'',
     ''maximum tokens'', ''token limit exceeded'', ''too many tokens'']"

definition family_cross_fallback :: "string \<Rightarrow> string list" where
  "family_cross_fallback p = get_or (map_of
     [(''openai'', [''anthropic'', ''google'']), (''anthropic'', [''openai'', ''google'']),
      (''google'', [''openai'', ''anthropic'']), (''azure'', [''openai'']), (''custom'', [''openai''])] p) []"

definition classify_failure :: "string \<Rightarrow> failure_class" where
  "classify_failure exc =
     (let text = py_lower exc
      in if list_ex (\<lambda>m. py_in m text) context_window_markers then ContextWindow
         else if list_ex (\<lambda>m. py_in m text) content_policy_markers then ContentPolicy
         else General)"

definition is_overflow_failure :: "string \<Rightarrow> bool" where
  "is_overflow_failure exc = (classify_failure exc = ContextWindow)"

record fallback_chain =
  fc_request :: gateway_request
  fc_candidates :: "deployment list"
  fc_cfg :: gateway_cfg
  fc_family_cross :: bool

definition build_fallback_chain ::
  "gateway_request \<Rightarrow> deployment list \<Rightarrow> gateway_cfg \<Rightarrow> bool option \<Rightarrow> fallback_chain" where
  "build_fallback_chain rq cands cfg cross =
     \<lparr>fc_request = rq, fc_candidates = cands, fc_cfg = cfg,
      fc_family_cross = (case cross of Some b \<Rightarrow> b | None \<Rightarrow> get_or (gc_cross_family_fallback cfg) True)\<rparr>"

text \<open>One iteration of the loop over the other provider families.\<close>

definition cross_family_step :: "fallback_chain \<Rightarrow> string \<Rightarrow> deployment list \<Rightarrow> deployment list" where
  "cross_family_step fc provider result =
     (let r1 = extend_new result (filter (\<lambda>c. fst c = provider) (fc_candidates fc))
      in if r1 = [] \<or> \<not> list_ex (\<lambda>c. fst c = provider) r1
         then extend_new r1
                (map split_deployment
                  (filter (\<lambda>e. CHR '':'' \<in> set e \<and> py_lower (py_strip (fst (py_split1 CHR '':'' e))) = provider)
                    (tenant_fallback_candidates (fc_cfg fc))))
         else r1)"

definition cross_family :: "fallback_chain \<Rightarrow> deployment list" where
  "cross_family fc = fold (cross_family_step fc) (family_cross_fallback (rq_provider (fc_request fc))) []"

fun large_window_loop :: "deployment list \<Rightarrow> model_spec list \<Rightarrow> deployment list \<Rightarrow> deployment list" where
  "large_window_loop cands [] result = result"
| "large_window_loop cands (s # specs) result =
     (let c = (ms_provider s, ms_model s)
      in if c \<in> set cands \<or> c \<in> set result then large_window_loop cands specs result
         else if 2 \<le> length (result @ [c]) then result @ [c]
         else large_window_loop cands specs (result @ [c]))"

definition large_window :: "catalog \<Rightarrow> fallback_chain \<Rightarrow> deployment list" where
  "large_window cat fc =
     large_window_loop (fc_candidates fc) (py_sorted_desc ms_context_window (list_all_specs cat)) []"

definition targets :: "catalog \<Rightarrow> fallback_chain \<Rightarrow> failure_class \<Rightarrow> deployment list" where
  "targets cat fc c =
     extend_new [] (fc_candidates fc)
     @ (if c = ContentPolicy \<and> fc_family_cross fc then cross_family fc else [])
     @ (if c = ContextWindow then large_window cat fc else [])"

section \<open>Lemmas\<close>

lemma classify_failure_cases:
  "classify_failure exc = ContextWindow \<longleftrightarrow> (\<exists>m\<in>set context_window_markers. py_in m (py_lower exc))"
  "classify_failure exc = ContentPolicy \<longleftrightarrow>
     (\<exists>m\<in>set content_policy_markers. py_in m (py_lower exc)) \<and>
     \<not> (\<exists>m\<in>set context_window_markers. py_in m (py_lower exc))"
  by (auto simp: classify_failure_def Let_def list_ex_iff)

lemma fst_split_deployment:
  "CHR '':'' \<in> set e \<Longrightarrow> fst (split_deployment e) = py_lower (py_strip (fst (py_split1 CHR '':'' e)))"
  by (simp add: split_deployment_def split: prod.split)

lemma cross_family_step_provider:
  assumes "c \<in> set (cross_family_step fc p result)"
  shows "c \<in> set result \<or> fst c = p \<and> (c \<in> set (fc_candidates fc) \<or>
           c \<in> split_deployment ` set (tenant_fallback_candidates (fc_cfg fc)))"
  using assms by (auto simp: cross_family_step_def Let_def fst_split_deployment split: if_splits)

lemma cross_family_fold_provider:
  assumes "c \<in> set (fold (cross_family_step fc) ps result)"
  shows "c \<in> set result \<or> fst c \<in> set ps \<and> (c \<in> set (fc_candidates fc) \<or>
           c \<in> split_deployment ` set (tenant_fallback_candidates (fc_cfg fc)))"
  using assms
  by (induction ps arbitrary: result) (auto dest!: cross_family_step_provider)

lemma cross_family_other_family:
  assumes "c \<in> set (cross_family fc)"
  shows "fst c \<in> set (family_cross_fallback (rq_provider (fc_request fc)))"
  using cross_family_fold_provider [OF assms [unfolded cross_family_def]] by simp

lemma family_cross_fallback_irrefl: "p \<notin> set (family_cross_fallback p)"
  by (simp add: family_cross_fallback_def get_or_def)

lemma distinct_cross_family: "distinct (cross_family fc)"
proof -
  have "distinct result \<Longrightarrow> distinct (fold (cross_family_step fc) ps result)" for ps result
    by (induction ps arbitrary: result) (auto simp: cross_family_step_def Let_def)
  then show ?thesis by (simp add: cross_family_def)
qed

lemma large_window_loop_set:
  "set (large_window_loop cands specs result) \<subseteq> set result \<union> (\<lambda>s. (ms_provider s, ms_model s)) ` set specs"
  by (induction cands specs result rule: large_window_loop.induct) (auto simp: Let_def)

lemma large_window_loop_fresh:
  "set result \<inter> set cands = {} \<Longrightarrow> set (large_window_loop cands specs result) \<inter> set cands = {}"
  by (induction cands specs result rule: large_window_loop.induct) (auto simp: Let_def)

lemma large_window_loop_distinct:
  "distinct result \<Longrightarrow> distinct (large_window_loop cands specs result)"
  by (induction cands specs result rule: large_window_loop.induct) (auto simp: Let_def)

lemma large_window_loop_length:
  "length result \<le> 1 \<Longrightarrow> length (large_window_loop cands specs result) \<le> 2"
  by (induction cands specs result rule: large_window_loop.induct) (auto simp: Let_def le_Suc_eq)

lemma large_window_loop_subset:
  "set result \<subseteq> set (large_window_loop cands specs result)"
  by (induction cands specs result rule: large_window_loop.induct) (auto simp: Let_def)

lemma large_window_loop_complete:
  assumes "length result \<le> 1" and "s \<in> set specs"
    and "(ms_provider s, ms_model s) \<notin> set cands"
    and "(ms_provider s, ms_model s) \<notin> set (large_window_loop cands specs result)"
  shows "length (large_window_loop cands specs result) = 2"
  using assms
proof (induction cands specs result rule: large_window_loop.induct)
  case (2 cands t specs result)
  show ?case
  proof (cases "(ms_provider t, ms_model t) \<in> set cands \<or> (ms_provider t, ms_model t) \<in> set result")
    case True
    then have skip: "large_window_loop cands (t # specs) result = large_window_loop cands specs result"
      by (simp add: Let_def)
    have "(ms_provider s, ms_model s) \<noteq> (ms_provider t, ms_model t)"
      using True 2(5,6) large_window_loop_subset [of result cands "t # specs"] by auto
    then have "s \<in> set specs" using 2(4) by auto
    with 2(1) [OF refl True 2(3)] 2(5,6) skip show ?thesis by simp
  next
    case False
    show ?thesis
    proof (cases "result = []")
      case True
      with False have step: "large_window_loop cands (t # specs) result =
          large_window_loop cands specs [(ms_provider t, ms_model t)]"
        by (simp add: Let_def)
      have "(ms_provider s, ms_model s) \<noteq> (ms_provider t, ms_model t)"
        using 2(6) step large_window_loop_subset [of "[(ms_provider t, ms_model t)]" cands specs] by auto
      then have "s \<in> set specs" using 2(4) by auto
      with 2(2) [OF refl False] True 2(5,6) step show ?thesis by simp
    next
      case ne: False
      with 2(3) have "length result = 1" by (cases result) auto
      with False show ?thesis by (simp add: Let_def)
    qed
  qed
qed simp

lemma targets_class_subset: "set (fc_candidates fc) \<subseteq> set (targets cat fc c)"
  by (auto simp: targets_def)

lemma set_large_window:
  "set (large_window cat fc) \<subseteq> (\<lambda>s. (ms_provider s, ms_model s)) ` set (list_all_specs cat)"
  using large_window_loop_set [of "fc_candidates fc" "py_sorted_desc ms_context_window (list_all_specs cat)" "[]"]
  by (simp add: large_window_def)

text \<open>The loop takes the leading specs of the sorted list, so what it skips is no larger.\<close>

lemma large_window_loop_prefix:
  assumes "sorted_wrt (\<lambda>x y. ms_context_window y \<le> ms_context_window x) specs"
    and "length result \<le> 1"
    and "s \<in> set specs" and "(ms_provider s, ms_model s) \<notin> set cands"
    and "(ms_provider s, ms_model s) \<notin> set (large_window_loop cands specs result)"
    and "c \<in> set (large_window_loop cands specs result)" and "c \<notin> set result"
  shows "\<exists>t\<in>set specs. c = (ms_provider t, ms_model t) \<and> ms_context_window s \<le> ms_context_window t"
  using assms
proof (induction cands specs result rule: large_window_loop.induct)
  case (2 cands t specs result)
  let ?c = "(ms_provider t, ms_model t)"
  show ?case
  proof (cases "?c \<in> set cands \<or> ?c \<in> set result")
    case True
    then have skip: "large_window_loop cands (t # specs) result = large_window_loop cands specs result"
      by (simp add: Let_def)
    have "s \<in> set specs"
      using True 2(5,6,7) large_window_loop_subset [of result cands "t # specs"] by auto
    with 2(1) [OF refl True] 2(3-) skip show ?thesis by auto
  next
    case False
    show ?thesis
    proof (cases "c = ?c")
      case True
      have "ms_context_window s \<le> ms_context_window t" using 2(3,5) by auto
      with True show ?thesis by auto
    next
      case ne: False
      have short: "result = []"
      proof (rule ccontr)
        assume "result \<noteq> []"
        with 2(4) have "length result = 1" by (cases result) auto
        with False have "large_window_loop cands (t # specs) result = result @ [?c]" by (simp add: Let_def)
        with 2(8,9) ne show False by auto
      qed
      with False have step: "large_window_loop cands (t # specs) result = large_window_loop cands specs [?c]"
        by (simp add: Let_def)
      have "s \<in> set specs"
        using 2(5,7) step large_window_loop_subset [of "[?c]" cands specs] by auto
      then show ?thesis using 2(2) [OF refl False] 2(3-) ne short step by auto
    qed
  qed
qed simp

section \<open>Properties\<close>

text \<open>the context-window tail of a chain holds at most two deployments, no duplicates,
  none of the router's candidates, all from the catalog; and they are the largest ones: a
  catalog model that is neither a candidate nor chosen has a window no larger than any
  chosen one.\<close>

theorem large_window_largest:
  assumes "s \<in> set (list_all_specs cat)"
    and "(ms_provider s, ms_model s) \<notin> set (fc_candidates fc)"
    and "(ms_provider s, ms_model s) \<notin> set (large_window cat fc)"
  shows "length (large_window cat fc) = 2 \<and> distinct (large_window cat fc)
    \<and> set (large_window cat fc) \<inter> set (fc_candidates fc) = {}
    \<and> (\<forall>c\<in>set (large_window cat fc). \<exists>t\<in>set (list_all_specs cat).
          c = (ms_provider t, ms_model t) \<and> ms_context_window s \<le> ms_context_window t)"
proof (intro conjI ballI)
  let ?specs = "py_sorted_desc ms_context_window (list_all_specs cat)"
  show "length (large_window cat fc) = 2"
    using large_window_loop_complete [of "[]" s ?specs "fc_candidates fc"] assms
    by (simp add: large_window_def)
  show "distinct (large_window cat fc)"
    by (simp add: large_window_def large_window_loop_distinct)
  show "set (large_window cat fc) \<inter> set (fc_candidates fc) = {}"
    by (simp add: large_window_def large_window_loop_fresh)
  fix c assume "c \<in> set (large_window cat fc)"
  then show "\<exists>t\<in>set (list_all_specs cat). c = (ms_provider t, ms_model t) \<and> ms_context_window s \<le> ms_context_window t"
    using large_window_loop_prefix [of ?specs "[]" s "fc_candidates fc" c] assms sorted_py_sorted_desc
    by (auto simp: large_window_def)
qed

text \<open>a content-policy fallback never leaves the deployments the tenant configured
  (the router's candidates and the tenant's fallback entries), and what the class adds
  belongs to another provider family than the request's.\<close>

theorem content_policy_targets_confined:
  "set (targets cat fc ContentPolicy) \<subseteq>
     set (fc_candidates fc) \<union> split_deployment ` set (tenant_fallback_candidates (fc_cfg fc))
   \<and> rq_provider (fc_request fc) \<notin> fst ` set (cross_family fc)"
  using cross_family_fold_provider [of _ fc "family_cross_fallback (rq_provider (fc_request fc))" "[]"]
    cross_family_other_family [of _ fc] family_cross_fallback_irrefl [of "rq_provider (fc_request fc)"]
  by (force simp: targets_def cross_family_def)

text \<open>A request for gpt-4o under the quality strategy and its chain.\<close>

definition sample_chain :: "gateway_cfg \<Rightarrow> fallback_chain" where
  "sample_chain cfg =
     (let rq = sample_request\<lparr>rq_strategy := ''quality''\<rparr>
      in build_fallback_chain rq (candidates (default_router sample_catalog) rq cfg) cfg None)"

theorem large_window_largest_witness:
  "large_window sample_catalog ((sample_chain empty_cfg)\<lparr>fc_candidates := [(''openai'', ''gpt-4o-mini'')]\<rparr>)
     = [(''google'', ''gemini-2.5-pro''), (''openai'', ''gpt-4.1'')]
   \<and> (\<exists>t\<in>set (list_all_specs sample_catalog). (''openai'', ''gpt-4.1'') = (ms_provider t, ms_model t)
        \<and> 128000 \<le> ms_context_window t)"
proof -
  let ?fc = "(sample_chain empty_cfg)\<lparr>fc_candidates := [(''openai'', ''gpt-4o-mini'')]\<rparr>"
  let ?s = "mk_spec ''openai'' ''gpt-4o'' 128000 (5/2) 10"
  have lw: "large_window sample_catalog ?fc = [(''google'', ''gemini-2.5-pro''), (''openai'', ''gpt-4.1'')]"
    by code_simp
  have s: "?s \<in> set (list_all_specs sample_catalog)" by code_simp
  have "length (large_window sample_catalog ?fc) = 2 \<and> distinct (large_window sample_catalog ?fc)
    \<and> set (large_window sample_catalog ?fc) \<inter> set (fc_candidates ?fc) = {}
    \<and> (\<forall>c\<in>set (large_window sample_catalog ?fc). \<exists>t\<in>set (list_all_specs sample_catalog).
          c = (ms_provider t, ms_model t) \<and> ms_context_window ?s \<le> ms_context_window t)"
    by (rule large_window_largest [OF s]) (simp_all add: lw mk_spec_def)
  then show ?thesis using lw by (simp add: mk_spec_def)
qed

text \<open>on a context-window overflow the chain still offers the remaining candidates first,
  whatever their windows: a request that overflowed gpt-4o is retried on gpt-4o-mini, whose
  window is the same 128000 tokens, before any larger model.\<close>

theorem overflow_retries_same_window:
  "filter (\<lambda>t. t \<noteq> (''openai'', ''gpt-4o'')) (targets sample_catalog (sample_chain empty_cfg) ContextWindow)
     = [(''openai'', ''gpt-4o-mini''), (''google'', ''gemini-2.5-pro''), (''openai'', ''gpt-4.1'')]
   \<and> catalog_context_window sample_catalog ''openai'' ''gpt-4o-mini''
       = catalog_context_window sample_catalog ''openai'' ''gpt-4o''"
  by code_simp

text \<open>the target list of the content-policy class is not free of duplicates: a candidate
  of another family is listed once as a candidate and once more by the class.\<close>

theorem content_policy_targets_duplicate:
  "targets sample_catalog (sample_chain (empty_cfg\<lparr>gc_fallback_models := [''anthropic:claude-3-5-haiku'']\<rparr>)) ContentPolicy
     = [(''openai'', ''gpt-4o''), (''anthropic'', ''claude-3-5-haiku''), (''openai'', ''gpt-4o-mini''),
        (''anthropic'', ''claude-3-5-haiku'')]"
  by code_simp

end
