(* ===== verification/Cooldown.thy ===== *)
theory Cooldown
  imports Redis_Iface
begin

text \<open>
  Per-deployment failure cooldowns shared through Redis (\<open>RedisCooldownCache\<close> of
  \<open>gateway/cooldown.py\<close>). Every operation fails open: without Redis a deployment is available.
\<close>

section \<open>Definitions\<close>

record cooldown_config =
  cd_prefix :: string
  cd_allowed_fails :: int
  cd_cooldown_time_seconds :: rat

definition cd_default_config :: cooldown_config where
  "cd_default_config = \<lparr>cd_prefix = ''neryva:gateway:cooldown:'', cd_allowed_fails = 5, cd_cooldown_time_seconds = 60\<rparr>"

record cooldown_cache =
  cd_config :: cooldown_config
  cd_redis_available :: bool
  cd_degraded_logged :: bool

definition cooldown_key :: "cooldown_cache \<Rightarrow> string \<Rightarrow> string \<Rightarrow> string" where
  "cooldown_key cc provider model =
     cd_prefix (cd_config cc) @ py_lower (py_strip provider) @ '':'' @ py_lower (py_strip model)"

definition cooldown_initialize :: "'w redis \<Rightarrow> cooldown_cache \<Rightarrow> 'w \<Rightarrow> cooldown_cache \<times> 'w" where
  "cooldown_initialize R cc w =
     (case r_ping R w of
        (Some _, w1) \<Rightarrow> (cc\<lparr>cd_redis_available := True\<rparr>, w1)
      | (None, w1) \<Rightarrow> (cc\<lparr>cd_redis_available := False\<rparr>, w1))"

definition cooldown_close :: "cooldown_cache \<Rightarrow> cooldown_cache" where
  "cooldown_close cc = cc\<lparr>cd_redis_available := False\<rparr>"

definition cd_log_degraded_once :: "cooldown_cache \<Rightarrow> cooldown_cache" where
  "cd_log_degraded_once cc = cc\<lparr>cd_degraded_logged := True\<rparr>"

definition cooldown_fail_script :: "'w redis \<Rightarrow> string \<Rightarrow> int \<Rightarrow> (int, 'w) rcmd" where
  "cooldown_fail_script R key cooldown_ms =
     rbind (r_incr R key) (\<lambda>n.
       if n = 1 then rbind (r_expire R key cooldown_ms) (\<lambda>_. rret n) else rret n)"

definition record_failure :: "'w redis \<Rightarrow> cooldown_cache \<Rightarrow> string \<Rightarrow> string \<Rightarrow> 'w \<Rightarrow> int \<times> cooldown_cache \<times> 'w" where
  "record_failure R cc provider model w =
     (if \<not> cd_redis_available cc then (cd_allowed_fails (cd_config cc) + 1, cc, w)
      else case cooldown_fail_script R (cooldown_key cc provider model) (lua_int (cd_cooldown_time_seconds (cd_config cc) * 1000)) w of
             (Some n, w1) \<Rightarrow> (n, cc, w1)
           | (None, w1) \<Rightarrow> (cd_allowed_fails (cd_config cc) + 1, cd_log_degraded_once cc, w1))"

definition record_success :: "'w redis \<Rightarrow> cooldown_cache \<Rightarrow> string \<Rightarrow> string \<Rightarrow> 'w \<Rightarrow> cooldown_cache \<times> 'w" where
  "record_success R cc provider model w =
     (if \<not> cd_redis_available cc then (cc, w)
      else case r_delete R [cooldown_key cc provider model] w of
             (Some _, w1) \<Rightarrow> (cc, w1)
           | (None, w1) \<Rightarrow> (cd_log_degraded_once cc, w1))"

definition is_available :: "'w redis \<Rightarrow> cooldown_cache \<Rightarrow> string \<Rightarrow> string \<Rightarrow> 'w \<Rightarrow> bool \<times> cooldown_cache \<times> 'w" where
  "is_available R cc provider model w =
     (if \<not> cd_redis_available cc then (True, cc, w)
      else case r_getint R (cooldown_key cc provider model) w of
             (Some None, w1) \<Rightarrow> (True, cc, w1)
           | (Some (Some n), w1) \<Rightarrow> (n < cd_allowed_fails (cd_config cc), cc, w1)
           | (None, w1) \<Rightarrow> (True, cd_log_degraded_once cc, w1))"

text \<open>\<open>MGET\<close> of the listed keys; a vanished key reads as missing.\<close>

fun mget_ints :: "'w redis \<Rightarrow> string list \<Rightarrow> (int option list, 'w) rcmd" where
  "mget_ints R [] = rret []"
| "mget_ints R (k # ks) = rbind (r_getint R k) (\<lambda>v. rbind (mget_ints R ks) (\<lambda>vs. rret (v # vs)))"

definition snapshot_entry :: "cooldown_cache \<Rightarrow> string \<Rightarrow> string" where
  "snapshot_entry cc key =
     (let (provider, model) = py_split1 CHR '':'' (drop (length (cd_prefix (cd_config cc))) key)
      in provider @ '':'' @ model)"

definition cooldown_snapshot :: "'w redis \<Rightarrow> cooldown_cache \<Rightarrow> 'w \<Rightarrow> (string \<times> int) list \<times> cooldown_cache \<times> 'w" where
  "cooldown_snapshot R cc w =
     (if \<not> cd_redis_available cc then ([], cc, w)
      else case rbind (r_keys R (cd_prefix (cd_config cc))) (\<lambda>keys.
                  if keys = [] then rret []
                  else rbind (mget_ints R keys) (\<lambda>values.
                    rret (fold (\<lambda>(key, value) acc. case value of None \<Rightarrow> acc | Some n \<Rightarrow> AList.update (snapshot_entry cc key) n acc)
                            (zip keys values) []))) w of
             (Some snap, w1) \<Rightarrow> (snap, cc, w1)
           | (None, w1) \<Rightarrow> ([], cd_log_degraded_once cc, w1))"

definition cooldown_reset ::
  "'w redis \<Rightarrow> cooldown_cache \<Rightarrow> string option \<Rightarrow> string option \<Rightarrow> 'w \<Rightarrow> int \<times> cooldown_cache \<times> 'w" where
  "cooldown_reset R cc provider model w =
     (if \<not> cd_redis_available cc then (0, cc, w)
      else case (if truthy_str provider \<and> truthy_str model
                 then rbind (r_delete R [cooldown_key cc (get_or provider []) (get_or model [])]) (\<lambda>_. rret 1)
                 else rbind (r_keys R (cd_prefix (cd_config cc) @
                        (if truthy_str provider then py_lower (py_strip (get_or provider [])) @ '':'' else []))) (\<lambda>keys.
                      if keys = [] then rret 0 else r_delete R keys)) w of
             (Some n, w1) \<Rightarrow> (n, cc, w1)
           | (None, w1) \<Rightarrow> (0, cd_log_degraded_once cc, w1))"

definition cooldown_ttl :: "'w redis \<Rightarrow> cooldown_cache \<Rightarrow> string \<Rightarrow> string \<Rightarrow> 'w \<Rightarrow> rat option \<times> cooldown_cache \<times> 'w" where
  "cooldown_ttl R cc provider model w =
     (if \<not> cd_redis_available cc then (None, cc, w)
      else case r_pttl R (cooldown_key cc provider model) w of
             (Some ttl_ms, w1) \<Rightarrow> (if ttl_ms < 0 then None else Some (of_int ttl_ms / 1000), cc, w1)
           | (None, w1) \<Rightarrow> (None, cd_log_degraded_once cc, w1))"

section \<open>Lemmas\<close>

definition counters_return :: "'w redis \<Rightarrow> bool" where
  "counters_return R \<longleftrightarrow> (\<forall>k w. fst (r_getint R k w) \<noteq> None) \<and> (\<forall>k w. fst (r_incr R k w) \<noteq> None)
     \<and> (\<forall>k t w. fst (r_expire R k t w) \<noteq> None) \<and> (\<forall>ks w. fst (r_delete R ks w) \<noteq> None)"

lemma counters_returnD:
  assumes "counters_return R"
  obtains v w' where "r_getint R k w = (Some v, w')"
    and "\<And>w t. \<exists>u w'. r_expire R k t w = (Some u, w')"
    and "\<And>w. \<exists>n w'. r_incr R k w = (Some n, w')"
    and "\<And>w ks. \<exists>n w'. r_delete R ks w = (Some n, w')"
  using assms unfolding counters_return_def by (metis not_None_eq prod.collapse)

definition fail_count :: "keyspace \<Rightarrow> string \<Rightarrow> int" where
  "fail_count ks k = get_or (int_at ks k) 0"

lemma fail_count_upd [simp]: "fail_count (ks(k \<mapsto> RInt n)) k' = (if k' = k then n else fail_count ks k')"
  by (simp add: fail_count_def get_or_def)

lemma fail_script_counts:
  assumes laws: "redis_counter_laws R view" and up: "counters_return R"
  shows "\<exists>w'. cooldown_fail_script R key ms w = (Some (fail_count (view w) key + 1), w') \<and>
    view w' = (view w)(key \<mapsto> RInt (fail_count (view w) key + 1))"
proof -
  obtain n w1 where i: "r_incr R key w = (Some n, w1)" using counters_returnD [OF up] by metis
  obtain u w2 where e: "r_expire R key ms w1 = (Some u, w2)" using counters_returnD [OF up] by metis
  from counter_lawsD(2) [OF laws i] counter_lawsD(4) [OF laws e] i e show ?thesis
    by (auto simp: cooldown_fail_script_def rbind_def rret_def fail_count_def)
qed

lemma record_failure_counts:
  assumes "redis_counter_laws R view" "counters_return R" "cd_redis_available cc"
  shows "\<exists>w'. record_failure R cc p m w = (fail_count (view w) (cooldown_key cc p m) + 1, cc, w') \<and>
    view w' = (view w)(cooldown_key cc p m \<mapsto> RInt (fail_count (view w) (cooldown_key cc p m) + 1))"
  using fail_script_counts [OF assms(1,2), of "cooldown_key cc p m" "lua_int (cd_cooldown_time_seconds (cd_config cc) * 1000)" w]
    assms(3) by (auto simp: record_failure_def)

lemma is_available_counts:
  assumes "redis_counter_laws R view" "counters_return R" "cd_redis_available cc"
  shows "fst (is_available R cc p m w) \<longleftrightarrow>
    int_at (view w) (cooldown_key cc p m) = None \<or> fail_count (view w) (cooldown_key cc p m) < cd_allowed_fails (cd_config cc)"
proof -
  obtain v w' where g: "r_getint R (cooldown_key cc p m) w = (Some v, w')" using counters_returnD [OF assms(2)] by metis
  from counter_lawsD(1) [OF assms(1) g] g assms(3) show ?thesis
    by (auto simp: is_available_def fail_count_def get_or_def split: option.splits)
qed

text \<open>\<open>n\<close> failures of one deployment in a row.\<close>

primrec record_failures :: "'w redis \<Rightarrow> cooldown_cache \<Rightarrow> string \<Rightarrow> string \<Rightarrow> nat \<Rightarrow> 'w \<Rightarrow> 'w" where
  "record_failures R cc p m 0 w = w"
| "record_failures R cc p m (Suc n) w = snd (snd (record_failure R cc p m (record_failures R cc p m n w)))"

lemma record_failures_counts:
  assumes "redis_counter_laws R view" "counters_return R" "cd_redis_available cc" "0 < n"
  shows "view (record_failures R cc p m n w) =
    (view w)(cooldown_key cc p m \<mapsto> RInt (fail_count (view w) (cooldown_key cc p m) + int n))"
  using \<open>0 < n\<close>
proof (induction n)
  case (Suc n)
  let ?v = "view (record_failures R cc p m n w)" and ?k = "cooldown_key cc p m"
  have "fail_count ?v ?k = fail_count (view w) ?k + int n \<and> (\<forall>x. ?v(?k := x) = (view w)(?k := x))"
  proof (cases "n = 0")
    case False
    then have "?v = (view w)(?k \<mapsto> RInt (fail_count (view w) ?k + int n))" by (intro Suc.IH) simp
    then show ?thesis by (simp only: fail_count_upd fun_upd_upd simp_thms if_True)
  qed simp
  moreover obtain w' where "view w' = ?v(?k \<mapsto> RInt (fail_count ?v ?k + 1))"
      "record_failure R cc p m (record_failures R cc p m n w) = (fail_count ?v ?k + 1, cc, w')"
    using record_failure_counts [OF assms(1,2,3)] by metis
  ultimately show ?case by (simp add: ac_simps)
qed simp

section \<open>Correctness\<close>

definition sample_cooldowns :: cooldown_cache where
  "sample_cooldowns = \<lparr>cd_config = cd_default_config, cd_redis_available = True, cd_degraded_logged = False\<rparr>"

lemma sole_counter_laws: "redis_counter_laws sole_redis map_of"
  by (rule mem_redis_counter_laws) simp

lemma sole_counters_return: "counters_return sole_redis"
  by (simp add: counters_return_def mem_redis_def Let_def)

text \<open>With Redis answering, a deployment with no failures on record becomes unavailable with its
  \<open>allowed_fails\<close>-th recorded failure and not before, however its name is spelled; a recorded success
  makes it available again; deployments with another key are unaffected throughout.\<close>

theorem cooldown_after_allowed_fails:
  assumes "redis_counter_laws R view" "counters_return R" "cd_redis_available cc"
    and "int_at (view w) (cooldown_key cc p m) = None" and "0 < cd_allowed_fails (cd_config cc)"
  shows "(fst (is_available R cc p m (record_failures R cc p m n w)) \<longleftrightarrow> int n < cd_allowed_fails (cd_config cc)) \<and>
         fst (is_available R cc p m (snd (record_success R cc p m (record_failures R cc p m n w)))) \<and>
         (if cooldown_key cc p' m' = cooldown_key cc p m then True
          else fst (is_available R cc p' m' (record_failures R cc p m n w)) = fst (is_available R cc p' m' w))"
proof -
  note avail = is_available_counts [OF assms(1,2,3)]
  have v: "view (record_failures R cc p m n w) = (if n = 0 then view w else (view w)(cooldown_key cc p m \<mapsto> RInt (int n)))"
    using record_failures_counts [OF assms(1,2,3), of n p m w] assms(4) by (auto simp: fail_count_def get_or_def)
  have "cooldown_key cc p m \<notin> dom (view (snd (record_success R cc p m x)))" for x
  proof -
    obtain k w' where d: "r_delete R [cooldown_key cc p m] x = (Some k, w')" using counters_returnD [OF assms(2)] by metis
    from counter_lawsD(5) [OF assms(1) d] d assms(3) show ?thesis by (auto simp: record_success_def)
  qed
  then have "int_at (view (snd (record_success R cc p m x))) (cooldown_key cc p m) = None" for x
    by (auto simp: int_at_def domIff split: option.split)
  then show ?thesis
    using v assms(4,5) by (auto simp: avail fail_count_def get_or_def int_at_def split: if_splits option.splits rval.splits)
qed

theorem cooldown_after_allowed_fails_witness:
  "\<not> fst (is_available sole_redis sample_cooldowns ''OpenAI '' ''gpt-4o''
       (record_failures sole_redis sample_cooldowns ''OpenAI '' ''gpt-4o'' 5 []))"
  using cooldown_after_allowed_fails [OF sole_counter_laws sole_counters_return, of sample_cooldowns "[]" "''OpenAI ''" "''gpt-4o''" 5]
  by (simp add: sample_cooldowns_def cd_default_config_def int_at_def)

text \<open>The cooldown cache fails open: without Redis, or when its read raises, every deployment is
  available; a failure that could not be recorded is reported above the threshold; a raised read
  leaves the degradation on record.\<close>

theorem cooldown_fails_open:
  "(if cd_redis_available cc then True
    else fst (is_available R cc p m w) \<and> fst (record_failure R cc p m w) = cd_allowed_fails (cd_config cc) + 1) \<and>
   (case r_getint R (cooldown_key cc p m) w of
      (None, _) \<Rightarrow> (case is_available R cc p m w of (ok, cc', _) \<Rightarrow> ok \<and> cd_degraded_logged cc' = (cd_redis_available cc \<or> cd_degraded_logged cc))
    | (Some _, _) \<Rightarrow> True)"
  by (auto simp: is_available_def record_failure_def cd_log_degraded_once_def split: option.splits prod.splits)

end
