(* ===== verification/Quota.thy ===== *)
theory Quota
  imports Redis_Iface Gw_Types
begin

text \<open>
  USD quota enforcement (\<open>gateway/quota.py\<close>): the two Lua scripts as command sequences, the
  reservation over the four budget levels with its rollback, reconciliation and release.
  The scripts' numeric replies are truncated to integers by Redis (\<open>lua_int\<close>).
\<close>

section \<open>Definitions\<close>

definition quota_levels :: "string list" where
  "quota_levels = [''platform'', ''tenant'', ''surface'', ''end_user'']"

record quota_limits =
  ql_platform_usd :: usd
  ql_tenant_usd :: usd
  ql_surface_usd :: usd
  ql_end_user_usd :: usd

definition level_limit :: "quota_limits \<Rightarrow> string \<Rightarrow> usd" where
  "level_limit ql level = get_or (map_of
     [(''platform'', ql_platform_usd ql), (''tenant'', ql_tenant_usd ql),
      (''surface'', ql_surface_usd ql), (''end_user'', ql_end_user_usd ql)] level) 0"

definition quota_limits_from_cfg :: "gateway_cfg \<Rightarrow> quota_limits" where
  "quota_limits_from_cfg cfg =
     \<lparr>ql_platform_usd = num_or (gc_quota_platform_usd cfg) 0, ql_tenant_usd = num_or (gc_quota_tenant_usd cfg) 0,
      ql_surface_usd = num_or (gc_quota_surface_usd cfg) 0, ql_end_user_usd = num_or (gc_quota_end_user_usd cfg) 0\<rparr>"

record quota_config =
  qc_prefix :: string
  qc_soft_ratio :: rat

definition quota_default_config :: quota_config where
  "quota_default_config = \<lparr>qc_prefix = ''neryva:gateway:quota:'', qc_soft_ratio = 4/5\<rparr>"

record quota_reservation =
  qr_request_id :: string
  qr_estimated_usd :: usd
  qr_levels :: "string list"
  qr_keys :: "string list"
  qr_window :: string

record quota_service =
  qs_config :: quota_config
  qs_redis_available :: bool
  qs_degraded_logged :: bool

text \<open>The interpolation of an optional id: Python prints a missing one as \<open>None\<close>.\<close>

definition fstr_opt :: "string option \<Rightarrow> string" where
  "fstr_opt x = get_or x ''None''"

definition level_key ::
  "quota_config \<Rightarrow> string \<Rightarrow> string \<Rightarrow> string option \<Rightarrow> string option \<Rightarrow> string \<Rightarrow> string option" where
  "level_key cfg level tenant surface end_user window =
     (if level = ''platform'' then Some (qc_prefix cfg @ ''platform:'' @ window)
      else if level = ''tenant'' then Some (qc_prefix cfg @ ''t:'' @ tenant @ '':'' @ window)
      else if level = ''surface''
        then Some (qc_prefix cfg @ ''t:'' @ tenant @ '':s:'' @ fstr_opt surface @ '':'' @ window)
      else if level = ''end_user''
        then Some (qc_prefix cfg @ ''t:'' @ tenant @ '':u:'' @ fstr_opt end_user @ '':'' @ window)
      else None)"

definition reserve_script :: "'w redis \<Rightarrow> string \<Rightarrow> usd \<Rightarrow> usd \<Rightarrow> (int \<times> int, 'w) rcmd" where
  "reserve_script R key limit est =
     rbind (r_hget R key ''reserved'') (\<lambda>r.
     rbind (r_hget R key ''spent'') (\<lambda>s.
       let reserved = get_or r 0; spent = get_or s 0
       in if 0 < limit \<and> limit < spent + reserved + est
          then rret (0, lua_int (spent + reserved))
          else rbind (r_hincrbyfloat R key ''reserved'' est) (\<lambda>_.
               rret (1, lua_int (spent + reserved + est)))))"

definition reconcile_script :: "'w redis \<Rightarrow> string \<Rightarrow> usd \<Rightarrow> usd \<Rightarrow> (int, 'w) rcmd" where
  "reconcile_script R key est actual =
     rbind (r_hget R key ''reserved'') (\<lambda>r.
     rbind (r_hset R key ''reserved'' (max 0 (get_or r 0 - est))) (\<lambda>_.
     rbind (r_hincrbyfloat R key ''spent'' actual) (\<lambda>_. rret 1)))"

fun reconcile_keys :: "'w redis \<Rightarrow> string list \<Rightarrow> usd \<Rightarrow> usd \<Rightarrow> (unit, 'w) rcmd" where
  "reconcile_keys R [] est actual = rret ()"
| "reconcile_keys R (k # ks) est actual =
     rbind (reconcile_script R k est actual) (\<lambda>_. reconcile_keys R ks est actual)"

definition quota_log_degraded :: "quota_service \<Rightarrow> quota_service" where
  "quota_log_degraded qs = qs\<lparr>qs_degraded_logged := True\<rparr>"

definition quota_rollback :: "'w redis \<Rightarrow> quota_service \<Rightarrow> string list \<Rightarrow> usd \<Rightarrow> 'w \<Rightarrow> 'w" where
  "quota_rollback R qs keys est w =
     (if \<not> qs_redis_available qs \<or> keys = [] then w else snd (reconcile_keys R keys est 0 w))"

text \<open>The loop over the levels: what it acquired, or the level that rejected, or an exception.\<close>

datatype reserve_outcome =
    Acquired "string list" "string list"
  | Over string usd usd "string list"
  | Broke "string list"

fun reserve_loop ::
  "'w redis \<Rightarrow> quota_config \<Rightarrow> quota_limits \<Rightarrow> string \<Rightarrow> string option \<Rightarrow> string option \<Rightarrow> usd \<Rightarrow> string
     \<Rightarrow> string list \<Rightarrow> string list \<Rightarrow> string list \<Rightarrow> string list \<Rightarrow> 'w
     \<Rightarrow> reserve_outcome \<times> string list \<times> 'w" where
  "reserve_loop R cfg ql tenant surface user est window [] ls ks alerts w = (Acquired ls ks, alerts, w)"
| "reserve_loop R cfg ql tenant surface user est window (level # levels) ls ks alerts w =
     (let limit = level_limit ql level
      in if limit \<le> 0 then reserve_loop R cfg ql tenant surface user est window levels ls ks alerts w
         else case level_key cfg level tenant surface user window of
           None \<Rightarrow> (Broke ks, alerts, w)
         | Some key \<Rightarrow>
             (case reserve_script R key limit est w of
                (None, w1) \<Rightarrow> (Broke ks, alerts, w1)
              | (Some (ok, projected), w1) \<Rightarrow>
                  if ok = 0 then (Over level limit (of_int projected) ks, alerts, w1)
                  else reserve_loop R cfg ql tenant surface user est window levels (ls @ [level]) (ks @ [key])
                         (if qc_soft_ratio cfg * limit \<le> of_int projected then alerts @ [level] else alerts) w1))"

text \<open>
  \<open>reserve\<close>. \<open>window\<close> is the formatted calendar window, \<open>fresh\<close> the generated request id;
  the result carries the levels for which the soft alert was logged.
\<close>

definition quota_reserve ::
  "'w redis \<Rightarrow> quota_service \<Rightarrow> quota_limits \<Rightarrow> string \<Rightarrow> string option \<Rightarrow> string option \<Rightarrow> usd \<Rightarrow> string
     \<Rightarrow> string \<Rightarrow> string \<Rightarrow> 'w \<Rightarrow> (gateway_error + quota_reservation option) \<times> string list \<times> quota_service \<times> 'w" where
  "quota_reserve R qs ql tenant surface user est request_id window fresh w =
     (if est \<le> 0 then (Inr None, [], qs, w)
      else if \<not> qs_redis_available qs then (Inr None, [], quota_log_degraded qs, w)
      else case reserve_loop R (qs_config qs) ql tenant surface user est window quota_levels [] [] [] w of
             (Acquired ls ks, alerts, w1) \<Rightarrow>
               (Inr (Some \<lparr>qr_request_id = (if request_id = [] then ''quota-'' @ fresh else request_id),
                          qr_estimated_usd = est, qr_levels = ls, qr_keys = ks, qr_window = window\<rparr>),
                alerts, qs, w1)
           | (Over level limit projected ks, alerts, w1) \<Rightarrow>
               (Inl (GatewayQuotaExceeded level limit projected), alerts, qs, quota_rollback R qs ks est w1)
           | (Broke ks, alerts, w1) \<Rightarrow>
               (Inr None, alerts, quota_log_degraded qs, quota_rollback R qs ks est w1))"

definition quota_reconcile ::
  "'w redis \<Rightarrow> quota_service \<Rightarrow> quota_reservation option \<Rightarrow> usd \<Rightarrow> 'w \<Rightarrow> quota_service \<times> 'w" where
  "quota_reconcile R qs res actual w =
     (case res of
        None \<Rightarrow> (qs, w)
      | Some r \<Rightarrow>
          if qr_keys r = [] then (qs, w)
          else if \<not> qs_redis_available qs then (quota_log_degraded qs, w)
          else (case reconcile_keys R (qr_keys r) (qr_estimated_usd r) actual w of
                  (None, w1) \<Rightarrow> (quota_log_degraded qs, w1)
                | (Some _, w1) \<Rightarrow> (qs, w1)))"

definition quota_release ::
  "'w redis \<Rightarrow> quota_service \<Rightarrow> quota_reservation option \<Rightarrow> 'w \<Rightarrow> quota_service \<times> 'w" where
  "quota_release R qs res w =
     (case res of
        None \<Rightarrow> (qs, w)
      | Some r \<Rightarrow> if qr_keys r = [] then (qs, w) else quota_reconcile R qs res 0 w)"

section \<open>Abstract specification\<close>

text \<open>A budget level is a pair of amounts, reserved and spent.\<close>

type_synonym budget = "usd \<times> usd"

definition budget_reserve :: "usd \<Rightarrow> usd \<Rightarrow> budget \<Rightarrow> budget option" where
  "budget_reserve limit est b =
     (if 0 < limit \<and> limit < snd b + fst b + est then None else Some (fst b + est, snd b))"

definition budget_settle :: "usd \<Rightarrow> usd \<Rightarrow> budget \<Rightarrow> budget" where
  "budget_settle est actual b = (max 0 (fst b - est), snd b + actual)"

definition total_held :: "budget \<Rightarrow> usd" where
  "total_held b = snd b + fst b"

definition budget_at :: "keyspace \<Rightarrow> string \<Rightarrow> budget" where
  "budget_at ks k = (get_or (hash_at ks k ''reserved'') 0, get_or (hash_at ks k ''spent'') 0)"

definition redis_returns :: "'w redis \<Rightarrow> bool" where
  "redis_returns R \<longleftrightarrow> (\<forall>k f w. fst (r_hget R k f w) \<noteq> None) \<and> (\<forall>k f x w. fst (r_hset R k f x w) \<noteq> None)
     \<and> (\<forall>k f x w. fst (r_hincrbyfloat R k f x w) \<noteq> None)"

section \<open>Refinement of the scripts\<close>

lemma budget_at_reserved:
  "budget_at (ks(k \<mapsto> RHash ((hash_at ks k)(''reserved'' \<mapsto> x)))) = (budget_at ks)(k := (x, snd (budget_at ks k)))"
  by (rule ext) (simp add: budget_at_def get_or_def)

lemma budget_at_spent:
  "budget_at (ks(k \<mapsto> RHash ((hash_at ks k)(''spent'' \<mapsto> x)))) = (budget_at ks)(k := (fst (budget_at ks k), x))"
  by (rule ext) (simp add: budget_at_def get_or_def)

lemma reserve_script_refines:
  assumes laws: "redis_hash_laws R view" and run: "reserve_script R key limit est w = (Some (ok, projected), w')"
  shows "case budget_reserve limit est (budget_at (view w) key) of
           None \<Rightarrow> ok = 0 \<and> budget_at (view w') = budget_at (view w)
         | Some b \<Rightarrow> ok = 1 \<and> budget_at (view w') = (budget_at (view w))(key := b)"
  using run
  by (auto simp: reserve_script_def redis_simps Let_def budget_reserve_def budget_at_reserved budget_at_def
    dest!: hash_lawsD [OF laws] split: if_splits)

lemma reserve_script_projected:
  assumes laws: "redis_hash_laws R view" and run: "reserve_script R key limit est w = (Some (ok, projected), w')"
  shows "projected = lua_int (snd (budget_at (view w) key) + fst (budget_at (view w) key) + (if ok = 0 then 0 else est))"
  using run
  by (auto simp: reserve_script_def redis_simps Let_def budget_at_def dest!: hash_lawsD [OF laws] split: if_splits)

lemma reconcile_script_refines:
  assumes laws: "redis_hash_laws R view" and run: "reconcile_script R key est actual w = (Some u, w')"
  shows "budget_at (view w') = (budget_at (view w))(key := budget_settle est actual (budget_at (view w) key))"
proof -
  obtain r w1 v w2 y w3 where s: "r_hget R key ''reserved'' w = (Some r, w1)"
      "r_hset R key ''reserved'' (max 0 (get_or r 0 - est)) w1 = (Some v, w2)"
      "r_hincrbyfloat R key ''spent'' actual w2 = (Some y, w3)" "w' = w3"
    using run by (auto simp: reconcile_script_def redis_simps)
  have 2: "budget_at (view w2) = (budget_at (view w))(key := (max 0 (fst (budget_at (view w) key) - est), snd (budget_at (view w) key)))"
    using hash_lawsD(1) [OF laws s(1)] hash_lawsD(2) [OF laws s(2)]
    by (simp add: budget_at_reserved) (simp add: budget_at_def)
  have 3: "budget_at (view w3) = (budget_at (view w2))(key := (fst (budget_at (view w2) key), snd (budget_at (view w2) key) + actual))"
    using hash_lawsD(3) [OF laws s(3)] by (simp add: budget_at_spent) (simp add: budget_at_def)
  show ?thesis by (simp add: 2 3 s(4) budget_settle_def)
qed

lemma reconcile_keys_refines:
  assumes laws: "redis_hash_laws R view" and run: "reconcile_keys R ks est actual w = (Some u, w')" and "distinct ks"
  shows "budget_at (view w') =
    (\<lambda>k. if k \<in> set ks then budget_settle est actual (budget_at (view w) k) else budget_at (view w) k)"
  using run \<open>distinct ks\<close>
proof (induction ks arbitrary: w)
  case (Cons k ks)
  then obtain v w1 where s: "reconcile_script R k est actual w = (Some v, w1)"
      "reconcile_keys R ks est actual w1 = (Some u, w')"
    by (auto simp: redis_simps)
  from Cons.IH [OF s(2)] Cons.prems(2) reconcile_script_refines [OF laws s(1)]
  show ?case by (auto simp: fun_eq_iff)
qed (simp add: redis_simps)

lemma scripts_return:
  assumes "redis_returns R"
  shows "fst (reserve_script R key limit est w) \<noteq> None" and "fst (reconcile_script R key est actual w) \<noteq> None"
    and "fst (reconcile_keys R ks est actual w) \<noteq> None"
proof -
  have h: "\<exists>v w'. r_hget R k f w = (Some v, w')" "\<exists>v w'. r_hset R k f x w = (Some v, w')"
      "\<exists>v w'. r_hincrbyfloat R k f x w = (Some v, w')" for k f x w
    using assms unfolding redis_returns_def by (metis not_None_eq prod.collapse)+
  have bind: "fst (rbind m f w) \<noteq> None" if "\<exists>v w'. m w = (Some v, w')" "\<And>v w'. fst (f v w') \<noteq> None"
    for m :: "('x, 'w) rcmd" and f :: "'x \<Rightarrow> ('y, 'w) rcmd" and w
    using that by (force simp: rbind_def)
  have branch: "fst ((if c then m else m') w) \<noteq> None" if "fst (m w) \<noteq> None" "fst (m' w) \<noteq> None"
    for c and m m' :: "('x, 'w) rcmd" and w
    using that by simp
  have rec: "fst (reconcile_script R k est actual w) \<noteq> None" for k w
    unfolding reconcile_script_def by (intro bind h) (simp add: rret_def)
  then show "fst (reconcile_script R key est actual w) \<noteq> None" .
  show "fst (reserve_script R key limit est w) \<noteq> None"
    unfolding reserve_script_def Let_def
    by (intro bind h branch) (simp_all only: rret_def fst_conv option.distinct not_False_eq_True)
  have rec': "\<exists>v w'. reconcile_script R k est actual w = (Some v, w')" for k w
    using rec [of k w] by (metis not_None_eq prod.collapse)
  show "fst (reconcile_keys R ks est actual w) \<noteq> None"
  proof (induction ks arbitrary: w)
    case (Cons k ks)
    show ?case by (simp only: reconcile_keys.simps) (intro bind rec' Cons.IH)
  qed (simp add: rret_def)
qed

section \<open>The four levels\<close>

definition bounded_levels :: "quota_limits \<Rightarrow> string list" where
  "bounded_levels ql = filter (\<lambda>l. 0 < level_limit ql l) quota_levels"

definition lkey :: "quota_config \<Rightarrow> string \<Rightarrow> string option \<Rightarrow> string option \<Rightarrow> string \<Rightarrow> string \<Rightarrow> string" where
  "lkey cfg tenant surface user window l = get_or (level_key cfg l tenant surface user window) []"

definition raise_reserved :: "usd \<Rightarrow> string list \<Rightarrow> (string \<Rightarrow> budget) \<Rightarrow> string \<Rightarrow> budget" where
  "raise_reserved est ks B k = (if k \<in> set ks then (fst (B k) + est, snd (B k)) else B k)"

lemma level_key_some:
  "l \<in> set quota_levels \<Longrightarrow> level_key cfg l tenant surface user window = Some (lkey cfg tenant surface user window l)"
  by (auto simp: quota_levels_def level_key_def lkey_def get_or_def)

lemma level_keys_distinct: "distinct (map (lkey cfg tenant surface user window) quota_levels)"
proof -
  have "t @ x \<noteq> t @ y" if "length x \<noteq> length y" for t x y :: string
    using that by auto
  then show ?thesis
    by (auto simp: quota_levels_def lkey_def level_key_def get_or_def dest: arg_cong [where f = length])
qed

lemma reserve_loop_spec:
  assumes laws: "redis_hash_laws R view"
    and run: "reserve_loop R cfg ql tenant surface user est window levels ls ks alerts w = (out, alerts', w')"
    and known: "set levels \<subseteq> set quota_levels"
    and fresh: "distinct (ks @ map (lkey cfg tenant surface user window) levels)"
    and B: "budget_at (view w) = raise_reserved est ks B"
  shows "case out of
      Acquired ls' ks' \<Rightarrow> ls' = ls @ filter (\<lambda>l. 0 < level_limit ql l) levels \<and>
        ks' = ks @ map (lkey cfg tenant surface user window) (filter (\<lambda>l. 0 < level_limit ql l) levels) \<and>
        budget_at (view w') = raise_reserved est ks' B \<and>
        (\<forall>l \<in> set levels. 0 < level_limit ql l \<longrightarrow>
           total_held (B (lkey cfg tenant surface user window l)) + est \<le> level_limit ql l)
    | Over level limit projected ks' \<Rightarrow> level \<in> set levels \<and> limit = level_limit ql level \<and>
        distinct ks' \<and> budget_at (view w') = raise_reserved est ks' B \<and>
        projected = of_int (lua_int (total_held (B (lkey cfg tenant surface user window level)))) \<and>
        limit < total_held (B (lkey cfg tenant surface user window level)) + est
    | Broke ks' \<Rightarrow> True"
  using run known fresh B
proof (induction levels arbitrary: ls ks alerts w)
  case (Cons level levels)
  let ?K = "lkey cfg tenant surface user window" and ?limit = "level_limit ql level"
  have key: "level_key cfg level tenant surface user window = Some (?K level)"
    using Cons.prems(2) by (intro level_key_some) simp
  show ?case
  proof (cases "?limit \<le> 0")
    case True
    then have "distinct (ks @ map ?K levels)" and "set levels \<subseteq> set quota_levels" using Cons.prems by auto
    moreover have "reserve_loop R cfg ql tenant surface user est window levels ls ks alerts w = (out, alerts', w')"
      using Cons.prems(1) True by simp
    ultimately show ?thesis using Cons.IH Cons.prems(4) True by (fastforce split: reserve_outcome.splits)
  next
    case False
    have Bl: "budget_at (view w) (?K level) = B (?K level)"
      using Cons.prems(3,4) by (simp add: raise_reserved_def)
    obtain res w1 where sc: "reserve_script R (?K level) ?limit est w = (res, w1)" by (cases "reserve_script R (?K level) ?limit est w")
    show ?thesis
    proof (cases res)
      case None
      with Cons.prems(1) False key sc show ?thesis by (auto simp: Let_def)
    next
      case (Some r)
      obtain ok projected where r: "r = (ok, projected)" by (cases r)
      note ref = reserve_script_refines [OF laws sc [unfolded Some r]]
        and proj = reserve_script_projected [OF laws sc [unfolded Some r]]
      show ?thesis
      proof (cases "ok = 0")
        case True
        then have "?limit < snd (B (?K level)) + fst (B (?K level)) + est" "budget_at (view w1) = budget_at (view w)"
          using ref by (auto simp: budget_reserve_def Bl split: if_splits)
        with True Cons.prems False key sc Some r proj Bl show ?thesis
          by (auto simp: Let_def total_held_def)
      next
        case ok: False
        then have le: "snd (B (?K level)) + fst (B (?K level)) + est \<le> ?limit"
          and upd: "budget_at (view w1) = (budget_at (view w))(?K level := (fst (B (?K level)) + est, snd (B (?K level))))"
          using ref False by (auto simp: budget_reserve_def Bl split: if_splits)
        have B1: "budget_at (view w1) = raise_reserved est (ks @ [?K level]) B"
          using upd Cons.prems(3,4) by (auto simp: raise_reserved_def fun_eq_iff)
        have run1: "reserve_loop R cfg ql tenant surface user est window levels (ls @ [level]) (ks @ [?K level])
            (if qc_soft_ratio cfg * ?limit \<le> of_int projected then alerts @ [level] else alerts) w1 = (out, alerts', w')"
          using Cons.prems(1) False ok key sc Some r by (simp add: Let_def)
        show ?thesis using Cons.IH [OF run1 _ _ B1] Cons.prems(2,3) False le
          by (auto simp: total_held_def split: reserve_outcome.splits)
      qed
    qed
  qed
qed (auto simp: raise_reserved_def)

lemma raise_reserved_none: "B = raise_reserved est [] B"
  by (simp add: raise_reserved_def fun_eq_iff)

lemma quota_loop_spec:
  assumes "redis_hash_laws R view"
    and "reserve_loop R cfg ql tenant surface user est window quota_levels [] [] [] w = (out, alerts', w')"
  shows "case out of
      Acquired ls ks \<Rightarrow> ls = bounded_levels ql \<and> ks = map (lkey cfg tenant surface user window) (bounded_levels ql) \<and>
        budget_at (view w') = raise_reserved est ks (budget_at (view w)) \<and>
        (\<forall>l \<in> set (bounded_levels ql).
           total_held (budget_at (view w) (lkey cfg tenant surface user window l)) + est \<le> level_limit ql l)
    | Over level limit projected ks \<Rightarrow> level \<in> set quota_levels \<and> limit = level_limit ql level \<and>
        distinct ks \<and> budget_at (view w') = raise_reserved est ks (budget_at (view w)) \<and>
        projected = of_int (lua_int (total_held (budget_at (view w) (lkey cfg tenant surface user window level)))) \<and>
        limit < total_held (budget_at (view w) (lkey cfg tenant surface user window level)) + est
    | Broke ks \<Rightarrow> True"
  using reserve_loop_spec [OF assms, of "budget_at (view w)", OF subset_refl] level_keys_distinct raise_reserved_none
  by (auto simp: bounded_levels_def split: reserve_outcome.splits)

lemma bounded_keys_distinct: "distinct (map (lkey cfg tenant surface user window) (bounded_levels ql))"
  using level_keys_distinct unfolding bounded_levels_def by (metis distinct_map_filter)

lemma settle_undoes_raise:
  assumes "0 \<le> fst (B k)" and "k \<in> set ks"
  shows "budget_settle est actual (raise_reserved est ks B k) = (fst (B k), snd (B k) + actual)"
  using assms by (simp add: budget_settle_def raise_reserved_def)

lemma reconcile_after_raise:
  assumes laws: "redis_hash_laws R view" and up: "redis_returns R"
    and nonneg: "\<And>k. 0 \<le> fst (B k)" and ks: "distinct ks" and B: "budget_at (view w) = raise_reserved est ks B"
  shows "budget_at (view (snd (reconcile_keys R ks est actual w))) =
    (\<lambda>k. if k \<in> set ks then (fst (B k), snd (B k) + actual) else B k)"
proof -
  obtain w' where "reconcile_keys R ks est actual w = (Some (), w')"
    using scripts_return(3) [OF up, of ks est actual w] by (cases "reconcile_keys R ks est actual w") auto
  with reconcile_keys_refines [OF laws this ks] B settle_undoes_raise [OF nonneg] show ?thesis
    by (auto simp: fun_eq_iff raise_reserved_def)
qed

lemma reject_spec:
  assumes "redis_hash_laws R view" and "redis_returns R" and "\<And>k. 0 \<le> fst (budget_at (view w) k)"
    and "quota_reserve R qs ql tenant surface user est rid window fresh w = (Inl e, alerts, qs', w')"
  shows "budget_at (view w') = budget_at (view w) \<and>
         (\<exists>l held. l \<in> set quota_levels \<and> held = total_held (budget_at (view w) (lkey (qs_config qs) tenant surface user window l))
           \<and> level_limit ql l < held + est \<and> e = GatewayQuotaExceeded l (level_limit ql l) (of_int (lua_int held)))"
proof -
  obtain l limit proj ks w1 where loop: "reserve_loop R (qs_config qs) ql tenant surface user est window quota_levels [] [] [] w =
      (Over l limit proj ks, alerts, w1)" "w' = quota_rollback R qs ks est w1" "e = GatewayQuotaExceeded l limit proj"
      "qs_redis_available qs"
    using assms(4) by (auto simp: quota_reserve_def split: if_splits prod.splits reserve_outcome.splits)
  note spec = quota_loop_spec [OF assms(1) loop(1), simplified]
  from spec have "budget_at (view (snd (reconcile_keys R ks est 0 w1))) =
      (\<lambda>k. if k \<in> set ks then (fst (budget_at (view w) k), snd (budget_at (view w) k) + 0) else budget_at (view w) k)"
    by (intro reconcile_after_raise [OF assms(1,2,3)]) auto
  then have "budget_at (view w') = budget_at (view w)"
    using spec loop by (auto simp: quota_rollback_def raise_reserved_def fun_eq_iff)
  then show ?thesis using spec loop(3) by auto
qed

section \<open>Correctness\<close>

definition sample_service :: quota_service where
  "sample_service = \<lparr>qs_config = quota_default_config, qs_redis_available = True, qs_degraded_logged = False\<rparr>"

definition sample_limits :: quota_limits where
  "sample_limits = \<lparr>ql_platform_usd = 0, ql_tenant_usd = 5, ql_surface_usd = 1, ql_end_user_usd = 0\<rparr>"

definition sample_reserve :: "usd \<Rightarrow> store \<Rightarrow> (gateway_error + quota_reservation option) \<times> string list \<times> quota_service \<times> store" where
  "sample_reserve est = quota_reserve sole_redis sample_service sample_limits ''acme'' (Some ''web'') None est [] ''2026-01'' ''ab12''"

lemma sole_hash_laws: "redis_hash_laws sole_redis map_of"
  by (rule mem_redis_hash_laws) simp

lemma sole_returns: "redis_returns sole_redis"
  by (simp add: redis_returns_def mem_redis_def Let_def)

lemma outcome_split: "fst x = a \<and> fst (snd x) = b \<and> fst (snd (snd x)) = c \<Longrightarrow> x = (a, b, c, snd (snd (snd x)))"
  by (cases x) auto

definition sample_reservation :: quota_reservation where
  "sample_reservation = \<lparr>qr_request_id = ''quota-ab12'', qr_estimated_usd = 1/2, qr_levels = [''tenant'', ''surface''],
     qr_keys = [''neryva:gateway:quota:t:acme:2026-01'', ''neryva:gateway:quota:t:acme:s:web:2026-01''],
     qr_window = ''2026-01''\<rparr>"

lemma sample_reserve_ok:
  "sample_reserve (1/2) [] = (Inr (Some sample_reservation), [], sample_service, snd (snd (snd (sample_reserve (1/2) []))))"
  by (rule outcome_split) code_simp

lemma sample_reserve_rejected:
  "sample_reserve 2 [] = (Inl (GatewayQuotaExceeded ''surface'' 1 0), [], sample_service, snd (snd (snd (sample_reserve 2 []))))"
  by (rule outcome_split) code_simp

text \<open>C14: A granted reservation covers exactly the levels that have a limit. On each of them
  spent plus reserved plus the estimate was within the limit, and the estimate is now added to the
  reserved amount; no other budget key changes.\<close>

theorem quota_reserve_admits:
  assumes "redis_hash_laws R view"
    and "quota_reserve R qs ql tenant surface user est rid window fresh w = (Inr (Some r), alerts, qs', w')"
  shows "qr_levels r = bounded_levels ql \<and>
         qr_keys r = map (lkey (qs_config qs) tenant surface user window) (bounded_levels ql) \<and>
         budget_at (view w') = raise_reserved est (qr_keys r) (budget_at (view w)) \<and>
         list_all (\<lambda>l. total_held (budget_at (view w') (lkey (qs_config qs) tenant surface user window l)) \<le> level_limit ql l)
           (bounded_levels ql)"
proof -
  obtain ls ks w1 where loop: "reserve_loop R (qs_config qs) ql tenant surface user est window quota_levels [] [] [] w =
      (Acquired ls ks, alerts, w1)" "w1 = w'" "qr_levels r = ls" "qr_keys r = ks"
    using assms(2) by (auto simp: quota_reserve_def split: if_splits prod.splits reserve_outcome.splits)
  note spec = quota_loop_spec [OF assms(1) loop(1), simplified]
  have K: "qr_keys r = map (lkey (qs_config qs) tenant surface user window) (bounded_levels ql)"
    and B: "budget_at (view w') = raise_reserved est (qr_keys r) (budget_at (view w))"
    using spec loop by auto
  have "list_all (\<lambda>l. total_held (budget_at (view w') (lkey (qs_config qs) tenant surface user window l)) \<le> level_limit ql l)
      (bounded_levels ql)"
    unfolding B K using spec by (fastforce simp: list_all_iff raise_reserved_def total_held_def)
  then show ?thesis using spec loop by auto
qed

theorem quota_reserve_admits_witness:
  "budget_at (map_of (snd (snd (snd (sample_reserve (1/2) []))))) ''neryva:gateway:quota:t:acme:2026-01'' = (1/2, 0)"
  using quota_reserve_admits [OF sole_hash_laws sample_reserve_ok [unfolded sample_reserve_def],
      THEN conjunct2, THEN conjunct2, THEN conjunct1]
  by (simp add: sample_reserve_def sample_reservation_def raise_reserved_def budget_at_def hash_at_def get_or_def)

text \<open>When some level has no room left, the reservation is refused naming that level and its
  limit, and, Redis answering, every budget is what it was before: the levels acquired earlier in
  the same call are rolled back.\<close>

theorem quota_reject_rolls_back:
  assumes "redis_hash_laws R view" and "redis_returns R" and "\<And>k. 0 \<le> fst (budget_at (view w) k)"
    and "quota_reserve R qs ql tenant surface user est rid window fresh w = (Inl e, alerts, qs', w')"
  shows "budget_at (view w') = budget_at (view w) \<and>
         (\<exists>l held. l \<in> set quota_levels \<and> held = total_held (budget_at (view w) (lkey (qs_config qs) tenant surface user window l))
           \<and> level_limit ql l < held + est \<and> e = GatewayQuotaExceeded l (level_limit ql l) (of_int (lua_int held)))"
  using reject_spec [OF assms] .

theorem quota_reject_rolls_back_witness:
  "budget_at (map_of (snd (snd (snd (sample_reserve 2 []))))) = budget_at Map.empty"
  using quota_reject_rolls_back [OF sole_hash_laws sole_returns _ sample_reserve_rejected [unfolded sample_reserve_def]]
  by (simp add: sample_reserve_def budget_at_def hash_at_def get_or_def)

text \<open>Reconciling a reservation with the actual cost moves it: the reserved amounts return to
  what they were and every reserved level's spent amount grows by the actual cost. Releasing it
  restores every budget.\<close>

theorem quota_reconcile_settles:
  assumes "redis_hash_laws R view" and "redis_returns R" and "\<And>k. 0 \<le> fst (budget_at (view w) k)"
    and "quota_reserve R qs ql tenant surface user est rid window fresh w = (Inr (Some r), alerts, qs', w1)"
  shows "budget_at (view (snd (quota_reconcile R qs' (Some r) actual w1))) =
           (\<lambda>k. if k \<in> set (qr_keys r) then (fst (budget_at (view w) k), snd (budget_at (view w) k) + actual)
                else budget_at (view w) k) \<and>
         budget_at (view (snd (quota_release R qs' (Some r) w1))) = budget_at (view w)"
proof -
  obtain ls ks where loop: "reserve_loop R (qs_config qs) ql tenant surface user est window quota_levels [] [] [] w =
      (Acquired ls ks, alerts, w1)" "qr_keys r = ks" "qr_estimated_usd r = est" "qs_redis_available qs'"
    using assms(4) by (auto simp: quota_reserve_def split: if_splits prod.splits reserve_outcome.splits)
  note spec = quota_loop_spec [OF assms(1) loop(1), simplified]
  have rec: "budget_at (view (snd (reconcile_keys R ks est a w1))) =
      (\<lambda>k. if k \<in> set ks then (fst (budget_at (view w) k), snd (budget_at (view w) k) + a) else budget_at (view w) k)" for a
    using spec bounded_keys_distinct by (intro reconcile_after_raise [OF assms(1,2,3)]) auto
  have snd_rec: "snd (quota_reconcile R qs' (Some r) a w1) = (if ks = [] then w1 else snd (reconcile_keys R ks est a w1))" for a
    using loop by (auto simp: quota_reconcile_def split: prod.split option.split)
  have settled: "budget_at (view (snd (quota_reconcile R qs' (Some r) actual w1))) =
      (\<lambda>k. if k \<in> set (qr_keys r) then (fst (budget_at (view w) k), snd (budget_at (view w) k) + actual)
           else budget_at (view w) k)"
    using spec rec loop(2) by (auto simp: snd_rec raise_reserved_def fun_eq_iff)
  have "budget_at (view (snd (quota_release R qs' (Some r) w1))) = budget_at (view w)"
    using spec rec [of 0] loop(2) snd_rec [of 0] by (auto simp: quota_release_def raise_reserved_def fun_eq_iff)
  with settled show ?thesis by blast
qed

theorem quota_reconcile_settles_witness:
  "budget_at (map_of (snd (quota_reconcile sole_redis sample_service (Some sample_reservation) (1/8)
      (snd (snd (snd (sample_reserve (1/2) []))))))) ''neryva:gateway:quota:t:acme:2026-01'' = (0, 1/8)"
  using quota_reconcile_settles [OF sole_hash_laws sole_returns _ sample_reserve_ok [unfolded sample_reserve_def], of "1/8"]
  by (simp add: sample_reserve_def sample_reservation_def budget_at_def hash_at_def get_or_def fun_eq_iff)

section \<open>Interleaved requests on one level\<close>

text \<open>
  Requests of any number of processes run the two scripts on the same key; Redis executes each
  script atomically. A state is the world, the outstanding estimates, and the sum by which
  settled requests exceeded their estimates.
\<close>

inductive level_run :: "'w redis \<Rightarrow> string \<Rightarrow> usd \<Rightarrow> 'w \<Rightarrow> 'w \<Rightarrow> usd multiset \<Rightarrow> usd \<Rightarrow> bool"
  for R :: "'w redis" and key limit w0 where
  start: "level_run R key limit w0 w0 {#} 0"
| reserve: "level_run R key limit w0 w out over \<Longrightarrow> 0 < est \<Longrightarrow>
    reserve_script R key limit est w = (Some (ok, projected), w') \<Longrightarrow>
    level_run R key limit w0 w' (if ok = 0 then out else add_mset est out) over"
| settle: "level_run R key limit w0 w out over \<Longrightarrow> est \<in># out \<Longrightarrow> 0 \<le> actual \<Longrightarrow>
    reconcile_script R key est actual w = (Some u, w') \<Longrightarrow>
    level_run R key limit w0 w' (out - {#est#}) (over + max 0 (actual - est))"

lemma level_run_positive: "level_run R key limit w0 w out over \<Longrightarrow> \<forall>e \<in># out. 0 < e"
  by (induction rule: level_run.induct) (auto dest: in_diffD split: if_splits)

lemma level_run_over: "level_run R key limit w0 w out over \<Longrightarrow> 0 \<le> over"
  by (induction rule: level_run.induct) auto

lemma sum_mset_nonneg: "(\<forall>e \<in># M. 0 < (e :: rat)) \<Longrightarrow> 0 \<le> sum_mset M"
  by (induction M) (auto intro: add_nonneg_nonneg)

text \<open>C5: Whatever the interleaving of reservations and settlements of concurrent requests, a level
  that starts empty has reserved exactly the outstanding estimates, and what it has spent and
  reserved exceeds the limit by no more than settled requests exceeded their own estimates.\<close>

theorem level_never_overspent:
  assumes "level_run R key limit w0 w out over" and "redis_hash_laws R view" and "0 < limit"
    and "budget_at (view w0) key = (0, 0)"
  shows "fst (budget_at (view w) key) = sum_mset out \<and> total_held (budget_at (view w) key) \<le> limit + over"
  using assms(1)
proof (induction rule: level_run.induct)
  case start
  then show ?case using assms by (simp add: total_held_def)
next
  case (reserve w out over est ok projected w')
  with reserve_script_refines [OF assms(2) reserve.hyps(3)] level_run_over [OF reserve.hyps(1)] assms(3) show ?case
    by (auto simp: budget_reserve_def total_held_def split: if_splits)
next
  case (settle w out over est actual u w')
  have "0 \<le> sum_mset (out - {#est#})"
    using level_run_positive [OF settle.hyps(1)] by (intro sum_mset_nonneg) (auto dest: in_diffD)
  moreover have "sum_mset out = est + sum_mset (out - {#est#})"
    using settle.hyps(2) by (metis add_mset_add_single insert_DiffM sum_mset.add_mset)
  ultimately show ?case
    using reconcile_script_refines [OF assms(2) settle.hyps(4)] settle.IH
    by (auto simp: budget_settle_def total_held_def max_def)
qed

theorem level_never_overspent_witness:
  "total_held (budget_at (map_of (snd (reserve_script sole_redis ''k'' 1 (1/2) []))) ''k'') \<le> 1 + 0"
proof -
  have "fst (reserve_script sole_redis ''k'' 1 (1/2) []) = Some (1, 0)" by code_simp
  then have "level_run sole_redis ''k'' 1 [] (snd (reserve_script sole_redis ''k'' 1 (1/2) [])) (if (1::int) = 0 then {#} else {#1/2#}) 0"
    by (intro level_run.reserve [OF level_run.start, where projected = 0 and ok = 1] prod_eqI) simp_all
  from level_never_overspent [OF this sole_hash_laws] show ?thesis
    by (simp add: budget_at_def hash_at_def get_or_def)
qed

text \<open>
  The replies are integers: with a limit of one dollar a reservation that fills nine tenths of it
  is reported as zero, below the soft-alert ratio.
\<close>

lemma soft_alert_misses_fractions:
  "fst (snd (sample_reserve (9/10) [])) = [] \<and> qc_soft_ratio (qs_config sample_service) * level_limit sample_limits ''surface'' \<le> 9/10"
  by code_simp

end
