(* ===== verification/Cache.thy ===== *)
theory Cache
  imports Redis_Iface Gw_Types
begin

text \<open>
  The gateway's response caches (\<open>gateway/cache.py\<close>): the exact-match cache, the semantic cache
  and the facade that invalidates both. The hash function, the text encoder and the durable
  invalidation log are parameters. A stored document is a JSON value.
\<close>

section \<open>Definitions\<close>

record cached_entry =
  ce_provider :: string
  ce_model :: string
  ce_content :: string
  ce_usage :: usage
  ce_finish_reason :: "string option"
  ce_tool_calls :: "tool_call list option"

definition json_opt :: "('a \<Rightarrow> json) \<Rightarrow> 'a option \<Rightarrow> json" where
  "json_opt f x = (case x of None \<Rightarrow> JNull | Some a \<Rightarrow> f a)"

definition usage_to_json :: "usage \<Rightarrow> json" where
  "usage_to_json u = JObj [(''input_tokens'', JInt (us_input_tokens u)), (''output_tokens'', JInt (us_output_tokens u)),
     (''reasoning_tokens'', JInt (us_reasoning_tokens u)), (''cached_tokens'', JInt (us_cached_tokens u))]"

definition tool_call_to_json :: "tool_call \<Rightarrow> json" where
  "tool_call_to_json tc = JObj [(''id'', JStr (tc_id tc)), (''name'', JStr (tc_name tc)), (''arguments'', JObj (tc_arguments tc))]"

definition to_json :: "cached_entry \<Rightarrow> json" where
  "to_json e = JObj [(''provider'', JStr (ce_provider e)), (''model'', JStr (ce_model e)), (''content'', JStr (ce_content e)),
     (''usage'', usage_to_json (ce_usage e)), (''finish_reason'', json_opt JStr (ce_finish_reason e)),
     (''tool_calls'', json_opt (\<lambda>cs. JList (map tool_call_to_json cs)) (ce_tool_calls e))]"

text \<open>Reading a document back; \<open>None\<close> where \<open>cls(**data)\<close> or a later use of the fields would raise.\<close>

definition str_of_json :: "json \<Rightarrow> string option" where
  "str_of_json j = (case j of JStr s \<Rightarrow> Some s | _ \<Rightarrow> None)"

definition int_of_json :: "json \<Rightarrow> int option" where
  "int_of_json j = (case j of JInt n \<Rightarrow> Some n | _ \<Rightarrow> None)"

definition opt_of_json :: "(json \<Rightarrow> 'a option) \<Rightarrow> json \<Rightarrow> 'a option option" where
  "opt_of_json f j = (case j of JNull \<Rightarrow> Some None | _ \<Rightarrow> map_option Some (f j))"

definition obj_field :: "json \<Rightarrow> string \<Rightarrow> json option" where
  "obj_field j k = (case j of JObj fs \<Rightarrow> map_of fs k | _ \<Rightarrow> None)"

definition usage_of_json :: "json \<Rightarrow> usage option" where
  "usage_of_json j =
     (case (Option.bind (obj_field j ''input_tokens'') int_of_json, Option.bind (obj_field j ''output_tokens'') int_of_json,
            Option.bind (obj_field j ''reasoning_tokens'') int_of_json, Option.bind (obj_field j ''cached_tokens'') int_of_json) of
        (Some a, Some b, Some c, Some d) \<Rightarrow>
          Some \<lparr>us_input_tokens = a, us_output_tokens = b, us_reasoning_tokens = c, us_cached_tokens = d\<rparr>
      | _ \<Rightarrow> None)"

definition tool_call_of_json :: "json \<Rightarrow> tool_call option" where
  "tool_call_of_json j =
     (case (Option.bind (obj_field j ''id'') str_of_json, Option.bind (obj_field j ''name'') str_of_json, obj_field j ''arguments'') of
        (Some i, Some n, Some (JObj args)) \<Rightarrow> Some \<lparr>tc_id = i, tc_name = n, tc_arguments = args\<rparr>
      | _ \<Rightarrow> None)"

definition list_of_json :: "(json \<Rightarrow> 'a option) \<Rightarrow> json \<Rightarrow> 'a list option" where
  "list_of_json f j = (case j of JList xs \<Rightarrow> (if list_all (\<lambda>x. f x \<noteq> None) xs then Some (map (the \<circ> f) xs) else None) | _ \<Rightarrow> None)"

definition from_json :: "json \<Rightarrow> cached_entry option" where
  "from_json j =
     (case (Option.bind (obj_field j ''provider'') str_of_json, Option.bind (obj_field j ''model'') str_of_json,
            Option.bind (obj_field j ''content'') str_of_json, Option.bind (obj_field j ''usage'') usage_of_json,
            Option.bind (obj_field j ''finish_reason'') (opt_of_json str_of_json),
            Option.bind (obj_field j ''tool_calls'') (opt_of_json (list_of_json tool_call_of_json))) of
        (Some p, Some m, Some c, Some u, Some f, Some t) \<Rightarrow>
          Some \<lparr>ce_provider = p, ce_model = m, ce_content = c, ce_usage = u, ce_finish_reason = f, ce_tool_calls = t\<rparr>
      | _ \<Rightarrow> None)"

record exact_cache =
  xc_prefix :: string
  xc_ttl_seconds :: int
  xc_redis_available :: bool
  xc_degraded_logged :: bool

definition default_exact_cache :: exact_cache where
  "default_exact_cache = \<lparr>xc_prefix = ''neryva:gateway:exact:'', xc_ttl_seconds = 300,
     xc_redis_available = False, xc_degraded_logged = False\<rparr>"

definition exact_key :: "(string \<Rightarrow> string) \<Rightarrow> exact_cache \<Rightarrow> string \<Rightarrow> string \<Rightarrow> string \<Rightarrow> string" where
  "exact_key sha256 xc tenant_id prompt_version canonical_request =
     (let digest = take 32 (sha256 (tenant_id @ '':'' @ prompt_version @ '':'' @ canonical_request))
      in xc_prefix xc @ tenant_id @ '':'' @ digest)"

definition xc_log_degraded_once :: "exact_cache \<Rightarrow> exact_cache" where
  "xc_log_degraded_once xc = xc\<lparr>xc_degraded_logged := True\<rparr>"

definition exact_initialize :: "'w redis \<Rightarrow> exact_cache \<Rightarrow> 'w \<Rightarrow> exact_cache \<times> 'w" where
  "exact_initialize R xc w = (case r_ping R w of (r, w1) \<Rightarrow> (xc\<lparr>xc_redis_available := (r \<noteq> None)\<rparr>, w1))"

definition exact_get ::
  "(string \<Rightarrow> string) \<Rightarrow> 'w redis \<Rightarrow> exact_cache \<Rightarrow> string \<Rightarrow> string \<Rightarrow> string \<Rightarrow> 'w \<Rightarrow> cached_entry option \<times> exact_cache \<times> 'w" where
  "exact_get sha256 R xc tenant version req w =
     (if \<not> xc_redis_available xc then (None, xc, w)
      else let key = exact_key sha256 xc tenant version req
           in case r_get R key w of
                (None, w1) \<Rightarrow> (None, xc_log_degraded_once xc, w1)
              | (Some None, w1) \<Rightarrow> (None, xc, w1)
              | (Some (Some raw), w1) \<Rightarrow>
                  (case r_expire R key (xc_ttl_seconds xc) w1 of
                     (None, w2) \<Rightarrow> (None, xc_log_degraded_once xc, w2)
                   | (Some _, w2) \<Rightarrow>
                       (case from_json raw of None \<Rightarrow> (None, xc_log_degraded_once xc, w2) | Some e \<Rightarrow> (Some e, xc, w2))))"

definition exact_set ::
  "(string \<Rightarrow> string) \<Rightarrow> 'w redis \<Rightarrow> exact_cache \<Rightarrow> string \<Rightarrow> string \<Rightarrow> string \<Rightarrow> cached_entry \<Rightarrow> 'w \<Rightarrow> exact_cache \<times> 'w" where
  "exact_set sha256 R xc tenant version req e w =
     (if \<not> xc_redis_available xc then (xc, w)
      else case r_setex R (exact_key sha256 xc tenant version req) (xc_ttl_seconds xc) (to_json e) w of
             (None, w1) \<Rightarrow> (xc_log_degraded_once xc, w1)
           | (Some _, w1) \<Rightarrow> (xc, w1))"

definition exact_purge_tenant :: "'w redis \<Rightarrow> exact_cache \<Rightarrow> string \<Rightarrow> 'w \<Rightarrow> nat \<times> exact_cache \<times> 'w" where
  "exact_purge_tenant R xc tenant w =
     (if \<not> xc_redis_available xc then (0, xc, w)
      else case rbind (r_keys R (xc_prefix xc @ tenant @ '':'')) (\<lambda>keys.
                  if keys = [] then rret 0 else rbind (r_delete R keys) (\<lambda>_. rret (length keys))) w of
             (None, w1) \<Rightarrow> (0, xc_log_degraded_once xc, w1)
           | (Some n, w1) \<Rightarrow> (n, xc, w1))"

subsection \<open>Semantic cache\<close>

record semantic_cache =
  sc_prefix :: string
  sc_similarity_threshold :: rat
  sc_per_tenant_capacity :: nat
  sc_ttl_seconds :: int
  sc_redis_available :: bool
  sc_degraded_logged :: bool

definition default_semantic_cache :: semantic_cache where
  "default_semantic_cache = \<lparr>sc_prefix = ''neryva:gateway:semantic:'', sc_similarity_threshold = 92/100,
     sc_per_tenant_capacity = 500, sc_ttl_seconds = 300, sc_redis_available = False, sc_degraded_logged = False\<rparr>"

definition index_key :: "semantic_cache \<Rightarrow> string \<Rightarrow> string" where
  "index_key sc tenant_id = sc_prefix sc @ tenant_id @ '':index''"

definition entry_key :: "semantic_cache \<Rightarrow> string \<Rightarrow> string \<Rightarrow> string" where
  "entry_key sc tenant_id entry_id = sc_prefix sc @ tenant_id @ '':entry:'' @ entry_id"

definition sc_log_degraded_once :: "semantic_cache \<Rightarrow> semantic_cache" where
  "sc_log_degraded_once sc = sc\<lparr>sc_degraded_logged := True\<rparr>"

definition semantic_initialize :: "'w redis \<Rightarrow> semantic_cache \<Rightarrow> 'w \<Rightarrow> semantic_cache \<times> 'w" where
  "semantic_initialize R sc w = (case r_ping R w of (r, w1) \<Rightarrow> (sc\<lparr>sc_redis_available := (r \<noteq> None)\<rparr>, w1))"

definition cosine :: "rat list \<Rightarrow> rat list \<Rightarrow> rat" where
  "cosine a b = (if a = [] \<or> b = [] \<or> length a \<noteq> length b then 0 else (\<Sum>(x, y)\<leftarrow>zip a b. x * y))"

definition vector_of_json :: "json \<Rightarrow> rat list" where
  "vector_of_json j = (case obj_field j ''vector'' of
     Some (JList xs) \<Rightarrow> List.map_filter (\<lambda>x. case x of JNum r \<Rightarrow> Some r | JInt n \<Rightarrow> Some (of_int n) | _ \<Rightarrow> None) xs
   | _ \<Rightarrow> [])"

definition better_match :: "semantic_cache \<Rightarrow> rat \<Rightarrow> string \<Rightarrow> (rat \<times> string) option \<Rightarrow> (rat \<times> string) option" where
  "better_match sc score entry_id best =
     (if sc_similarity_threshold sc \<le> score \<and> (case best of None \<Rightarrow> True | Some (s, _) \<Rightarrow> s < score)
      then Some (score, entry_id) else best)"

fun scan_candidates ::
  "'w redis \<Rightarrow> semantic_cache \<Rightarrow> string \<Rightarrow> rat list \<Rightarrow> string list \<Rightarrow> (rat \<times> string) option \<Rightarrow> ((rat \<times> string) option, 'w) rcmd" where
  "scan_candidates R sc tenant query [] best = rret best"
| "scan_candidates R sc tenant query (entry_id # rest) best =
     rbind (r_get R (entry_key sc tenant entry_id)) (\<lambda>raw.
       case raw of
         None \<Rightarrow> scan_candidates R sc tenant query rest best
       | Some data \<Rightarrow> scan_candidates R sc tenant query rest
                        (better_match sc (cosine query (vector_of_json data)) entry_id best))"

text \<open>The document of the best match is read again; a missing entry field raises.\<close>

definition read_match :: "'w redis \<Rightarrow> semantic_cache \<Rightarrow> string \<Rightarrow> string \<Rightarrow> (cached_entry option, 'w) rcmd" where
  "read_match R sc tenant entry_id =
     rbind (r_get R (entry_key sc tenant entry_id)) (\<lambda>raw.
     rbind (r_expire R (entry_key sc tenant entry_id) (sc_ttl_seconds sc)) (\<lambda>_.
     rbind (r_expire R (index_key sc tenant) (sc_ttl_seconds sc)) (\<lambda>_.
       case Option.bind (Option.bind raw (\<lambda>d. obj_field d ''entry'')) from_json of
         None \<Rightarrow> (\<lambda>w. (None, w))
       | Some e \<Rightarrow> rret (Some e))))"

definition find_similar ::
  "(string \<Rightarrow> rat list) \<Rightarrow> 'w redis \<Rightarrow> semantic_cache \<Rightarrow> string \<Rightarrow> string \<Rightarrow> 'w \<Rightarrow> cached_entry option \<times> semantic_cache \<times> 'w" where
  "find_similar encode R sc tenant query_text w =
     (if \<not> sc_redis_available sc then (None, sc, w)
      else case rbind (r_zrevrange R (index_key sc tenant)) (\<lambda>candidates.
                rbind (scan_candidates R sc tenant (encode query_text) candidates None) (\<lambda>best.
                  case best of None \<Rightarrow> rret None | Some (_, entry_id) \<Rightarrow> read_match R sc tenant entry_id)) w of
             (None, w1) \<Rightarrow> (None, sc_log_degraded_once sc, w1)
           | (Some r, w1) \<Rightarrow> (r, sc, w1))"

definition semantic_store ::
  "(string \<Rightarrow> rat list) \<Rightarrow> (string \<Rightarrow> string) \<Rightarrow> 'w redis \<Rightarrow> semantic_cache \<Rightarrow> string \<Rightarrow> string \<Rightarrow> cached_entry \<Rightarrow> time \<Rightarrow> 'w
     \<Rightarrow> semantic_cache \<times> 'w" where
  "semantic_store encode sha256 R sc tenant query_text e now w =
     (if \<not> sc_redis_available sc then (sc, w)
      else let entry_id = take 16 (sha256 query_text);
               payload = JObj [(''vector'', JList (map JNum (encode query_text))), (''entry'', to_json e)]
           in case rbind (r_setex R (entry_key sc tenant entry_id) (sc_ttl_seconds sc) payload) (\<lambda>_.
                   rbind (r_zadd R (index_key sc tenant) entry_id now) (\<lambda>_.
                     r_zkeep_top R (index_key sc tenant) (sc_per_tenant_capacity sc))) w of
                (None, w1) \<Rightarrow> (sc_log_degraded_once sc, w1)
              | (Some _, w1) \<Rightarrow> (sc, w1))"

definition semantic_purge_tenant :: "'w redis \<Rightarrow> semantic_cache \<Rightarrow> string \<Rightarrow> 'w \<Rightarrow> nat \<times> semantic_cache \<times> 'w" where
  "semantic_purge_tenant R sc tenant w =
     (if \<not> sc_redis_available sc then (0, sc, w)
      else case rbind (r_zrange R (index_key sc tenant)) (\<lambda>entries.
                rbind (if entries = [] then rret 0 else r_delete R (map (entry_key sc tenant) entries)) (\<lambda>_.
                rbind (r_delete R [index_key sc tenant]) (\<lambda>_. rret (length entries)))) w of
             (None, w1) \<Rightarrow> (0, sc_log_degraded_once sc, w1)
           | (Some n, w1) \<Rightarrow> (n, sc, w1))"

subsection \<open>The facade\<close>

text \<open>
  The durable log is the repository's \<open>add\<close>, which appends one row or raises; a failure is
  logged and ignored, so that the log written is the old one.
\<close>

type_synonym invalidation = "string \<times> string \<times> string option \<times> string"

record gateway_cache =
  ga_exact :: exact_cache
  ga_semantic :: semantic_cache
  ga_has_db :: bool

definition log_invalidation :: "(invalidation \<Rightarrow> 'w \<Rightarrow> unit option \<times> 'w) \<Rightarrow> gateway_cache \<Rightarrow> invalidation \<Rightarrow> 'w \<Rightarrow> 'w" where
  "log_invalidation add ga row w = (if ga_has_db ga then snd (add row w) else w)"

definition purge_both :: "'w redis \<Rightarrow> gateway_cache \<Rightarrow> string \<Rightarrow> 'w \<Rightarrow> nat \<times> gateway_cache \<times> 'w" where
  "purge_both R ga tenant w =
     (let (n, xc, w1) = exact_purge_tenant R (ga_exact ga) tenant w;
          (m, sc, w2) = semantic_purge_tenant R (ga_semantic ga) tenant w1
      in (n + m, ga\<lparr>ga_exact := xc, ga_semantic := sc\<rparr>, w2))"

definition invalidate_tenant ::
  "(invalidation \<Rightarrow> 'w \<Rightarrow> unit option \<times> 'w) \<Rightarrow> 'w redis \<Rightarrow> gateway_cache \<Rightarrow> string \<Rightarrow> string \<Rightarrow> 'w \<Rightarrow> nat \<times> gateway_cache \<times> 'w" where
  "invalidate_tenant add R ga tenant reason w =
     (let (removed, ga1, w1) = purge_both R ga tenant w
      in (removed, ga1, log_invalidation add ga1 (tenant, ''tenant'', None, reason) w1))"

definition invalidate_resource ::
  "(invalidation \<Rightarrow> 'w \<Rightarrow> unit option \<times> 'w) \<Rightarrow> 'w redis \<Rightarrow> gateway_cache \<Rightarrow> string \<Rightarrow> string \<Rightarrow> string \<Rightarrow> 'w \<Rightarrow> nat \<times> gateway_cache \<times> 'w" where
  "invalidate_resource add R ga tenant resource_id reason w =
     (let (removed, ga1, w1) = purge_both R ga tenant w
      in (removed, ga1, log_invalidation add ga1 (tenant, ''resource'', Some resource_id, reason) w1))"

section \<open>Lemmas\<close>

lemma json_fields [simp]:
  "obj_field (JObj fs) k = map_of fs k" "str_of_json (JStr s) = Some s" "int_of_json (JInt n) = Some n"
  by (simp_all add: obj_field_def str_of_json_def int_of_json_def)

lemma opt_of_json_opt:
  assumes "\<And>a. g (f a) = Some a" and "\<And>a. f a \<noteq> JNull"
  shows "opt_of_json g (json_opt f x) = Some x"
proof (cases x)
  case (Some a)
  then show ?thesis using assms(1) [of a] assms(2) [of a] by (cases "f a") (simp_all add: opt_of_json_def json_opt_def)
qed (simp add: opt_of_json_def json_opt_def)

lemma usage_roundtrip [simp]: "usage_of_json (usage_to_json u) = Some u"
  by (simp add: usage_of_json_def usage_to_json_def)

lemma tool_call_roundtrip [simp]: "tool_call_of_json (tool_call_to_json tc) = Some tc"
  by (simp add: tool_call_of_json_def tool_call_to_json_def)

lemma tool_calls_roundtrip: "list_of_json tool_call_of_json (JList (map tool_call_to_json cs)) = Some cs"
  by (simp add: list_of_json_def list_all_iff comp_def)

lemma entry_roundtrip [simp]: "from_json (to_json e) = Some e"
proof -
  have "opt_of_json str_of_json (json_opt JStr x) = Some x" for x
    by (rule opt_of_json_opt) simp_all
  moreover have "opt_of_json (list_of_json tool_call_of_json) (json_opt (\<lambda>cs. JList (map tool_call_to_json cs)) x) = Some x" for x
    by (rule opt_of_json_opt) (simp_all add: tool_calls_roundtrip)
  ultimately show ?thesis by (simp add: from_json_def to_json_def)
qed

text \<open>What is assumed of the hash: a hexadecimal digest of 64 characters.\<close>

definition hex_digest :: "(string \<Rightarrow> string) \<Rightarrow> bool" where
  "hex_digest sha256 \<longleftrightarrow> (\<forall>s. length (sha256 s) = 64 \<and> CHR '':'' \<notin> set (sha256 s))"

lemma exact_key_tenant:
  assumes "hex_digest sha256" and "exact_key sha256 xc t v r = exact_key sha256 xc t' v' r'"
  shows "t = t'"
proof -
  have "length (take 32 (sha256 s)) = 32" for s using assms(1) by (simp add: hex_digest_def)
  with assms(2) show ?thesis by (auto simp: exact_key_def append_eq_append_conv)
qed

definition purge_prefix :: "exact_cache \<Rightarrow> string \<Rightarrow> string" where
  "purge_prefix xc t = xc_prefix xc @ t @ '':''"

lemma purge_covers: "take (length (purge_prefix xc t)) (exact_key sha256 xc t v r) = purge_prefix xc t"
  by (simp add: purge_prefix_def exact_key_def)

lemma purge_spares:
  assumes "hex_digest sha256" and "t' \<noteq> t" and "take (Suc (length t)) t' \<noteq> t @ '':''"
  shows "take (length (purge_prefix xc t)) (exact_key sha256 xc t' v r) \<noteq> purge_prefix xc t"
proof
  define d where "d = take 32 (sha256 (t' @ '':'' @ v @ '':'' @ r))"
  have d: "CHR '':'' \<notin> set d" using assms(1) unfolding d_def hex_digest_def by (meson in_set_takeD)
  assume "take (length (purge_prefix xc t)) (exact_key sha256 xc t' v r) = purge_prefix xc t"
  then have *: "take (Suc (length t)) (t' @ '':'' @ d) = t @ '':''"
    by (simp add: purge_prefix_def exact_key_def d_def)
  consider "length t < length t'" | "length t = length t'" | "length t' < length t" by linarith
  then show False
  proof cases
    case 1 then show ?thesis using * assms(3) by simp
  next
    case 2 then show ?thesis using * assms(2) by simp
  next
    case 3
    obtain rest where "t' @ '':'' @ d = (t @ '':'') @ rest" using * by (metis append_take_drop_id)
    with 3 have "CHR '':'' \<in> set d"
      by (auto simp: append_eq_append_conv2 Cons_eq_append_conv)
    then show ?thesis using d by simp
  qed
qed

lemma exact_get_hit:
  assumes laws: "redis_string_laws R view" and get: "exact_get sha256 R xc t v r w = (Some e, xc', w')"
  shows "\<exists>raw. doc_at (view w) (exact_key sha256 xc t v r) = Some raw \<and> from_json raw = Some e"
proof -
  obtain raw w1 where g: "r_get R (exact_key sha256 xc t v r) w = (Some (Some raw), w1)" "from_json raw = Some e"
    using get by (auto simp: exact_get_def Let_def split: if_splits prod.splits option.splits)
  from string_lawsD(1) [OF laws g(1)] g(2) show ?thesis by metis
qed

text \<open>The scan computes the best indexed document by similarity.\<close>

definition match_score :: "keyspace \<Rightarrow> semantic_cache \<Rightarrow> string \<Rightarrow> rat list \<Rightarrow> string \<Rightarrow> rat option" where
  "match_score ks sc t q i = map_option (\<lambda>d. cosine q (vector_of_json d)) (doc_at ks (entry_key sc t i))"

definition best_match :: "keyspace \<Rightarrow> semantic_cache \<Rightarrow> string \<Rightarrow> rat list \<Rightarrow> string list \<Rightarrow> (rat \<times> string) option \<Rightarrow> (rat \<times> string) option" where
  "best_match ks sc t q ids best =
     fold (\<lambda>i b. case match_score ks sc t q i of None \<Rightarrow> b | Some s \<Rightarrow> better_match sc s i b) ids best"

lemma scan_refines:
  assumes sl: "redis_string_laws R view" and run: "scan_candidates R sc t q ids best w = (Some best', w')"
  shows "view w' = view w \<and> best' = best_match (view w) sc t q ids best"
  using run
proof (induction ids arbitrary: best w)
  case (Cons i ids)
  obtain raw w1 where g: "r_get R (entry_key sc t i) w = (Some raw, w1)" and
    rest: "(case raw of None \<Rightarrow> scan_candidates R sc t q ids best
            | Some d \<Rightarrow> scan_candidates R sc t q ids (better_match sc (cosine q (vector_of_json d)) i best)) w1 = (Some best', w')"
    using Cons.prems by (auto simp: redis_simps)
  have v: "view w1 = view w" "doc_at (view w) (entry_key sc t i) = raw" using string_lawsD(1) [OF sl g] by simp_all
  from rest show ?case
    by (cases raw) (auto dest: Cons.IH simp: v best_match_def match_score_def)
qed (simp add: redis_simps best_match_def)

definition beats :: "(rat \<times> string) option \<Rightarrow> rat \<Rightarrow> bool" where
  "beats best s \<longleftrightarrow> (case best of None \<Rightarrow> False | Some (s', _) \<Rightarrow> s \<le> s')"

lemma better_match_beats:
  "beats b s \<Longrightarrow> beats (better_match sc x i b) s"
  "sc_similarity_threshold sc \<le> x \<Longrightarrow> beats (better_match sc x i b) x"
  by (auto simp: better_match_def beats_def split: option.splits prod.splits)

lemma best_match_beats_start: "beats b s \<Longrightarrow> beats (best_match ks sc t q ids b) s"
  by (induction ids arbitrary: b) (auto simp: best_match_def better_match_beats split: option.split)

lemma best_match_max:
  assumes "i \<in> set ids" "match_score ks sc t q i = Some s" "sc_similarity_threshold sc \<le> s"
  shows "beats (best_match ks sc t q ids b) s"
  using assms(1)
proof (induction ids arbitrary: b)
  case (Cons j ids)
  show ?case
  proof (cases "j = i")
    case True
    then show ?thesis
      using best_match_beats_start [OF better_match_beats(2) [OF assms(3)]] assms(2) by (simp add: best_match_def)
  next
    case False
    with Cons show ?thesis by (simp add: best_match_def)
  qed
qed simp

lemma best_match_member:
  assumes "best_match ks sc t q ids b = Some (s, i)" and "b = None \<or> (\<exists>s' j. b = Some (s', j) \<and> sc_similarity_threshold sc \<le> s'
      \<and> match_score ks sc t q j = Some s' \<and> j \<in> set all)" and "set ids \<subseteq> set all"
  shows "i \<in> set all \<and> match_score ks sc t q i = Some s \<and> sc_similarity_threshold sc \<le> s"
  using assms
proof (induction ids arbitrary: b)
  case (Cons j ids)
  let ?b = "case match_score ks sc t q j of None \<Rightarrow> b | Some s \<Rightarrow> better_match sc s j b"
  show ?case
  proof (rule Cons.IH)
    show "best_match ks sc t q ids ?b = Some (s, i)" using Cons.prems(1) by (simp add: best_match_def)
    show "?b = None \<or> (\<exists>s' j. ?b = Some (s', j) \<and> sc_similarity_threshold sc \<le> s'
      \<and> match_score ks sc t q j = Some s' \<and> j \<in> set all)"
      using Cons.prems(2,3) by (auto simp: better_match_def split: option.splits)
  qed (use Cons.prems(3) in auto)
qed (auto simp: best_match_def)

section \<open>Correctness\<close>

text \<open>A digest of fixed length for the concrete instances below.\<close>

definition sample_hash :: "string \<Rightarrow> string" where
  "sample_hash s = take 64 (filter (\<lambda>c. c \<noteq> CHR '':'') s @ replicate 64 CHR ''0'')"

lemma sample_hash_hex: "hex_digest sample_hash"
  by (auto simp: hex_digest_def sample_hash_def dest: in_set_takeD)

definition live_exact :: exact_cache where
  "live_exact = default_exact_cache\<lparr>xc_redis_available := True\<rparr>"

definition sample_entry :: cached_entry where
  "sample_entry = \<lparr>ce_provider = ''openai'', ce_model = ''gpt-4o'', ce_content = ''hi'', ce_usage = no_usage,
     ce_finish_reason = Some ''stop'', ce_tool_calls = None\<rparr>"

lemma sole_string_laws: "redis_string_laws sole_redis map_of"
  by (rule mem_redis_string_laws) simp

lemma sole_zset_laws: "redis_zset_laws sole_redis map_of"
  by (rule mem_redis_zset_laws) simp

text \<open>Redis answers a lookup: the read and the renewal of the key's time to live both succeed.\<close>

definition get_answered :: "'w redis \<Rightarrow> exact_cache \<Rightarrow> string \<Rightarrow> 'w \<Rightarrow> bool" where
  "get_answered R xc key w = (case r_get R key w of (None, _) \<Rightarrow> False | (Some _, w1) \<Rightarrow> fst (r_expire R key (xc_ttl_seconds xc) w1) \<noteq> None)"

lemma exact_get_live:
  assumes "redis_string_laws R view" "xc_redis_available xc" "get_answered R xc (exact_key sha256 xc t v r) w"
    and "doc_at (view w) (exact_key sha256 xc t v r) = Some (to_json e)"
  shows "\<exists>w'. exact_get sha256 R xc t v r w = (Some e, xc, w') \<and> view w' = view w"
proof -
  let ?k = "exact_key sha256 xc t v r"
  obtain g w1 where g: "r_get R ?k w = (Some g, w1)" using assms(3) by (auto simp: get_answered_def split: prod.splits option.splits)
  then obtain u w2 where x: "r_expire R ?k (xc_ttl_seconds xc) w1 = (Some u, w2)"
    using assms(3) by (cases "r_expire R ?k (xc_ttl_seconds xc) w1") (auto simp: get_answered_def)
  have "view w1 = view w" "g = Some (to_json e)" using string_lawsD(1) [OF assms(1) g] assms(4) by simp_all
  moreover have "view w2 = view w1" using string_lawsD(3) [OF assms(1) x] .
  ultimately show ?thesis using assms(2) g x by (simp add: exact_get_def Let_def)
qed

text \<open>C33: Once Redis has accepted an entry that the exact cache stores for a tenant, prompt version and request, every lookup of them that
  Redis answers while the key is kept returns exactly that entry, and storing it changes nothing that any other tenant can read.\<close>

theorem exact_cache_roundtrip_isolated:
  assumes "redis_string_laws R view" and "hex_digest sha256" and "xc_redis_available xc"
    and "fst (r_setex R (exact_key sha256 xc t v r) (xc_ttl_seconds xc) (to_json e) w) \<noteq> None"
    and "exact_set sha256 R xc t v r e w = (xc1, w1)"
  shows "(doc_at (view w2) (exact_key sha256 xc t v r) = doc_at (view w1) (exact_key sha256 xc t v r)
            \<and> get_answered R xc1 (exact_key sha256 xc t v r) w2
          \<longrightarrow> (\<exists>w3. exact_get sha256 R xc1 t v r w2 = (Some e, xc1, w3) \<and> view w3 = view w2)) \<and>
         (t' = t \<or> doc_at (view w1) (exact_key sha256 xc t' v' r') = doc_at (view w) (exact_key sha256 xc t' v' r'))"
proof -
  obtain u where s: "r_setex R (exact_key sha256 xc t v r) (xc_ttl_seconds xc) (to_json e) w = (Some u, w1)" "xc1 = xc"
    using assms(3-5) by (auto simp: exact_set_def split: option.splits prod.splits)
  note w1 = string_lawsD(2) [OF assms(1) s(1)]
  have "doc_at (view w1) (exact_key sha256 xc t v r) = Some (to_json e)" by (simp add: w1)
  moreover have "t' \<noteq> t \<Longrightarrow> exact_key sha256 xc t' v' r' \<noteq> exact_key sha256 xc t v r"
    using exact_key_tenant [OF assms(2)] by metis
  ultimately show ?thesis using w1 s(2) exact_get_live [OF assms(1,3)] by auto
qed

theorem exact_cache_roundtrip_isolated_witness:
  "let w1 = snd (exact_set sample_hash sole_redis live_exact ''acme'' ''v1'' ''q'' sample_entry []) in
   (\<exists>w3. exact_get sample_hash sole_redis live_exact ''acme'' ''v1'' ''q'' w1 = (Some sample_entry, live_exact, w3)) \<and>
   doc_at (map_of w1) (exact_key sample_hash live_exact ''zeta'' ''v1'' ''q'') =
   doc_at Map.empty (exact_key sample_hash live_exact ''zeta'' ''v1'' ''q'')"
proof -
  let ?k = "exact_key sample_hash live_exact ''acme'' ''v1'' ''q''"
  let ?s = "exact_set sample_hash sole_redis live_exact ''acme'' ''v1'' ''q'' sample_entry []"
  have e: "fst ?s = live_exact" by code_simp
  then have s: "?s = (live_exact, snd ?s)" by (metis prod.collapse)
  have av: "xc_redis_available live_exact" by (simp add: live_exact_def default_exact_cache_def)
  have set_ok: "fst (r_setex sole_redis ?k (xc_ttl_seconds live_exact) (to_json sample_entry) []) \<noteq> None" by code_simp
  have get_ok: "get_answered sole_redis live_exact ?k (snd ?s)" by code_simp
  from exact_cache_roundtrip_isolated [OF sole_string_laws sample_hash_hex av set_ok s, of "snd ?s" "''zeta''" "''v1''" "''q''"] get_ok
  show ?thesis by (simp add: Let_def) blast
qed

definition live_semantic :: semantic_cache where
  "live_semantic = default_semantic_cache\<lparr>sc_redis_available := True\<rparr>"

definition live_cache :: gateway_cache where
  "live_cache = \<lparr>ga_exact = live_exact, ga_semantic = live_semantic, ga_has_db = False\<rparr>"

definition undegraded :: "gateway_cache \<Rightarrow> bool" where
  "undegraded ga \<longleftrightarrow> \<not> xc_degraded_logged (ga_exact ga) \<and> \<not> sc_degraded_logged (ga_semantic ga)"

definition live :: "gateway_cache \<Rightarrow> bool" where
  "live ga \<longleftrightarrow> xc_redis_available (ga_exact ga) \<and> sc_redis_available (ga_semantic ga)"

definition separate_prefixes :: "gateway_cache \<Rightarrow> bool" where
  "separate_prefixes ga \<longleftrightarrow> (\<forall>a b. xc_prefix (ga_exact ga) @ a \<noteq> sc_prefix (ga_semantic ga) @ b)"

lemma exact_purge_spec:
  assumes "redis_string_laws R view" "xc_redis_available xc"
    and "exact_purge_tenant R xc t w = (n, xc', w')" "\<not> xc_degraded_logged xc'"
  shows "xc' = xc \<and> view w' = view w |` {k. take (length (purge_prefix xc t)) k \<noteq> purge_prefix xc t}"
proof -
  obtain keys w1 where k: "r_keys R (purge_prefix xc t) w = (Some keys, w1)" "xc' = xc"
      "if keys = [] then w' = w1 else (\<exists>m. r_delete R keys w1 = (Some m, w'))"
    using assms(2,3,4) by (auto simp: exact_purge_tenant_def purge_prefix_def xc_log_degraded_once_def rbind_def rret_def
        split: if_splits prod.splits option.splits)
  note v = string_lawsD(4) [OF assms(1) k(1)]
  have "view w' = view w |` (- set keys)"
    using v k(3) string_lawsD(5) [OF assms(1)] by (cases "keys = []") (auto simp: restrict_map_def)
  moreover have "view w |` (- set keys) = view w |` {k. take (length (purge_prefix xc t)) k \<noteq> purge_prefix xc t}"
    using v by (auto simp: restrict_map_def fun_eq_iff domIff)
  ultimately show ?thesis using k(2) by simp
qed

lemma semantic_purge_spec:
  assumes sl: "redis_string_laws R view" and zl: "redis_zset_laws R view" and "sc_redis_available sc"
    and "semantic_purge_tenant R sc t w = (n, sc', w')" "\<not> sc_degraded_logged sc'"
  shows "\<exists>S. sc' = sc \<and> view w' = view w |` (- S) \<and> index_key sc t \<in> S \<and>
    S = insert (index_key sc t) (entry_key sc t ` fst ` set (zset_at (view w) (index_key sc t)))"
proof -
  obtain es w1 m w2 m' where k: "r_zrange R (index_key sc t) w = (Some es, w1)" "sc' = sc"
      "(if es = [] then rret 0 else r_delete R (map (entry_key sc t) es)) w1 = (Some m, w2)"
      "r_delete R [index_key sc t] w2 = (Some m', w')"
    using assms(3,4,5) by (auto simp: semantic_purge_tenant_def sc_log_degraded_once_def rbind_def rret_def
        split: if_splits prod.splits option.splits)
  note z = zset_lawsD(2) [OF zl k(1)]
  have "view w2 = view w1 |` (- set (map (entry_key sc t) es))"
    using k(3) string_lawsD(5) [OF sl] by (cases "es = []") (auto simp: redis_simps restrict_map_def)
  with z string_lawsD(5) [OF sl k(4)] k(2) show ?thesis
    by (auto simp: Int_commute Compl_insert restrict_map_def fun_eq_iff image_iff)
qed

text \<open>After an invalidation of a tenant in which Redis answered, the exact cache has no document for any
  request of the tenant and the semantic cache finds nothing for any query of the tenant, while the
  documents of a tenant whose id does not extend the invalidated id with a colon survive in the exact cache.\<close>

theorem invalidation_leaves_nothing:
  assumes "redis_string_laws R view" "redis_zset_laws R view" "hex_digest sha256" and "live ga"
    and "\<And>row w. view (snd (add row w)) = view w"
    and "invalidate_tenant add R ga t reason w = (n, ga', w')" "undegraded ga'"
    and "separate_prefixes ga"
  shows "doc_at (view w') (exact_key sha256 (ga_exact ga) t v' r') = None \<and>
         fst (find_similar encode R (ga_semantic ga') t q w') = None \<and>
         (if t' = t \<or> take (Suc (length t)) t' = t @ '':'' then True
          else doc_at (view w') (exact_key sha256 (ga_exact ga) t' v r) = doc_at (view w) (exact_key sha256 (ga_exact ga) t' v r))"
proof -
  obtain m xc w1 k sc w2 where p: "exact_purge_tenant R (ga_exact ga) t w = (m, xc, w1)"
      "semantic_purge_tenant R (ga_semantic ga) t w1 = (k, sc, w2)" "ga_exact ga' = xc" "ga_semantic ga' = sc" "view w' = view w2"
    using assms(6) by (auto simp: invalidate_tenant_def purge_both_def log_invalidation_def assms(5) Let_def split: prod.splits)
  have x: "view w1 = view w |` {k. take (length (purge_prefix (ga_exact ga) t)) k \<noteq> purge_prefix (ga_exact ga) t}"
    using exact_purge_spec [OF assms(1) _ p(1)] assms(4,7) p(3) by (simp add: live_def undegraded_def)
  obtain S where S: "sc = ga_semantic ga" "view w2 = view w1 |` (- S)" "index_key (ga_semantic ga) t \<in> S"
      "S \<subseteq> insert (index_key (ga_semantic ga) t) (range (entry_key (ga_semantic ga) t))"
    using semantic_purge_spec [OF assms(1,2) _ p(2)] assms(4,7) p(4) by (fastforce simp: live_def undegraded_def)
  have "doc_at (view w') (exact_key sha256 (ga_exact ga) t v' r') = None"
    using x S(2) p(5) purge_covers by (auto simp: doc_at_def restrict_map_def)
  moreover have "fst (find_similar encode R (ga_semantic ga') t q w') = None"
  proof -
    have z: "zset_at (view w') (index_key sc t) = []" using S p(5) by simp
    have none: "r = None" if "rbind (r_zrevrange R (index_key sc t)) (\<lambda>cs. rbind (scan_candidates R sc t qv cs None) (\<lambda>best.
        case best of None \<Rightarrow> rret None | Some (_, i) \<Rightarrow> read_match R sc t i)) w' = (Some r, w3)" for qv r w3
      using that zset_lawsD(3) [OF assms(2)] z by (fastforce simp: redis_simps)
    show ?thesis unfolding p(4) find_similar_def
      by (auto split: prod.split option.split dest!: none)
  qed
  moreover have "doc_at (view w') (exact_key sha256 (ga_exact ga) t' v r) = doc_at (view w) (exact_key sha256 (ga_exact ga) t' v r)"
    if "t' \<noteq> t" "take (Suc (length t)) t' \<noteq> t @ '':''"
  proof -
    have "exact_key sha256 (ga_exact ga) t' v r \<notin> insert (index_key (ga_semantic ga) t) (range (entry_key (ga_semantic ga) t))"
      using assms(8) by (simp add: separate_prefixes_def exact_key_def index_key_def entry_key_def image_iff)
    then have "exact_key sha256 (ga_exact ga) t' v r \<notin> S" using S(4) by blast
    then show ?thesis using x S(2) p(5) purge_spares [OF assms(3) that] by simp
  qed
  ultimately show ?thesis by auto
qed

definition filled_store :: store where
  "filled_store = snd (exact_set sample_hash sole_redis live_exact ''zeta'' ''v1'' ''q'' sample_entry
     (snd (exact_set sample_hash sole_redis live_exact ''acme'' ''v1'' ''q'' sample_entry [])))"

theorem invalidation_leaves_nothing_witness:
  "doc_at (map_of (snd (snd (invalidate_tenant (\<lambda>row w. (Some (), w)) sole_redis live_cache ''acme'' ''edit'' filled_store))))
     (exact_key sample_hash live_exact ''zeta'' ''v1'' ''q'') \<noteq> None"
proof -
  let ?r = "invalidate_tenant (\<lambda>row w. (Some (), w)) sole_redis live_cache ''acme'' ''edit'' filled_store"
  have "fst (snd ?r) = live_cache" by code_simp
  then have r: "?r = (fst ?r, live_cache, snd (snd ?r))" by (metis prod.collapse)
  have "separate_prefixes live_cache" "live live_cache" "undegraded live_cache"
    by (simp_all add: separate_prefixes_def live_cache_def live_exact_def live_semantic_def default_exact_cache_def
        default_semantic_cache_def live_def undegraded_def)
  with invalidation_leaves_nothing [OF sole_string_laws sole_zset_laws sample_hash_hex _ _ r, where t' = "''zeta''" and v = "''v1''" and r = "''q''"]
  have "doc_at (map_of (snd (snd ?r))) (exact_key sample_hash (ga_exact live_cache) ''zeta'' ''v1'' ''q'') =
      doc_at (map_of filled_store) (exact_key sample_hash (ga_exact live_cache) ''zeta'' ''v1'' ''q'')" by simp
  moreover have "doc_at (map_of filled_store) (exact_key sample_hash (ga_exact live_cache) ''zeta'' ''v1'' ''q'') \<noteq> None" by code_simp
  ultimately show ?thesis by (simp add: live_cache_def)
qed

text \<open>A semantic hit is the entry of a document indexed for the tenant itself whose similarity to the
  query reaches the threshold and is not exceeded by any other document of the tenant's index.\<close>

theorem semantic_hit_is_best:
  assumes "redis_string_laws R view" "redis_zset_laws R view"
    and "find_similar encode R sc t query w = (Some e, sc', w')"
  shows "\<exists>i s d. i \<in> fst ` set (zset_at (view w) (index_key sc t)) \<and> doc_at (view w) (entry_key sc t i) = Some d \<and>
           Option.bind (obj_field d ''entry'') from_json = Some e \<and> match_score (view w) sc t (encode query) i = Some s \<and>
           sc_similarity_threshold sc \<le> s \<and>
           list_all (\<lambda>(j, _). case match_score (view w) sc t (encode query) j of None \<Rightarrow> True | Some x \<Rightarrow> x \<le> s)
             (zset_at (view w) (index_key sc t))"
proof -
  obtain ids w1 best w2 where r: "r_zrevrange R (index_key sc t) w = (Some ids, w1)"
      "scan_candidates R sc t (encode query) ids None w1 = (Some best, w2)"
      "(case best of None \<Rightarrow> rret None | Some (_, i) \<Rightarrow> read_match R sc t i) w2 = (Some (Some e), w')"
    using assms(3) by (auto simp: find_similar_def redis_simps split: if_splits prod.splits option.splits)
  note z = zset_lawsD(3) [OF assms(2) r(1)] and sc = scan_refines [OF assms(1) r(2)]
  obtain s i where b: "best = Some (s, i)" "read_match R sc t i w2 = (Some (Some e), w')"
    using r(3) by (auto simp: redis_simps split: option.splits)
  obtain raw w3 where g: "r_get R (entry_key sc t i) w2 = (Some raw, w3)"
      "Option.bind (Option.bind raw (\<lambda>d. obj_field d ''entry'')) from_json = Some e"
    using b(2) by (auto simp: read_match_def redis_simps split: option.splits)
  have v: "view w2 = view w" "best_match (view w) sc t (encode query) ids None = Some (s, i)" using z sc b(1) by simp_all
  have mem: "i \<in> set ids \<and> match_score (view w) sc t (encode query) i = Some s \<and> sc_similarity_threshold sc \<le> s"
    by (rule best_match_member [OF v(2)]) auto
  have top: "x \<le> s" if "j \<in> set ids" "match_score (view w) sc t (encode query) j = Some x" for j x
  proof (cases "sc_similarity_threshold sc \<le> x")
    case True
    from best_match_max [OF that True, of None] v(2) show ?thesis by (simp add: beats_def)
  qed (use mem in simp)
  obtain d where "doc_at (view w) (entry_key sc t i) = Some d" "Option.bind (obj_field d ''entry'') from_json = Some e"
    using string_lawsD(1) [OF assms(1) g(1)] g(2) v(1) by (auto simp: bind_eq_Some_conv)
  moreover have "set ids = fst ` set (zset_at (view w) (index_key sc t))" using z by simp
  moreover from this top have "list_all (\<lambda>(j, _). case match_score (view w) sc t (encode query) j of None \<Rightarrow> True | Some x \<Rightarrow> x \<le> s)
      (zset_at (view w) (index_key sc t))"
    by (auto simp: list_all_iff split: option.split) (metis fst_conv image_eqI)
  ultimately show ?thesis using mem by blast
qed

definition sample_encode :: "string \<Rightarrow> rat list" where
  "sample_encode s = (if s = ''hello'' then [1, 0] else [0, 1])"

definition semantic_sample :: store where
  "semantic_sample = snd (semantic_store sample_encode sample_hash sole_redis live_semantic ''acme'' ''hello'' sample_entry 1 [])"

theorem semantic_hit_is_best_witness:
  "\<exists>i. i \<in> fst ` set (zset_at (map_of semantic_sample) (index_key live_semantic ''acme'')) \<and>
       match_score (map_of semantic_sample) live_semantic ''acme'' (sample_encode ''hello'') i \<noteq> None"
proof -
  let ?r = "find_similar sample_encode sole_redis live_semantic ''acme'' ''hello'' semantic_sample"
  have "fst ?r = Some sample_entry" by code_simp
  then have "?r = (Some sample_entry, fst (snd ?r), snd (snd ?r))" by (metis prod.collapse)
  from semantic_hit_is_best [OF sole_string_laws sole_zset_laws this] show ?thesis by auto
qed

text \<open>A store that Redis executed leaves at most \<open>per_tenant_capacity\<close> entries in the tenant's index.\<close>

theorem semantic_index_bounded:
  assumes "redis_string_laws R view" "redis_zset_laws R view" and "sc_redis_available sc" "\<not> sc_degraded_logged sc"
    and "semantic_store encode sha256 R sc t query e now w = (sc', w')" "\<not> sc_degraded_logged sc'"
  shows "length (zset_at (view w') (index_key sc t)) \<le> sc_per_tenant_capacity sc"
proof -
  obtain w2 u where "r_zkeep_top R (index_key sc t) (sc_per_tenant_capacity sc) w2 = (Some u, w')"
    using assms(3,5,6) by (auto simp: semantic_store_def sc_log_degraded_once_def Let_def rbind_def split: prod.splits option.splits)
  from zset_lawsD(4) [OF assms(2) this] show ?thesis by (simp add: zset_top_def)
qed

theorem semantic_index_bounded_witness:
  "length (zset_at (map_of semantic_sample) (index_key live_semantic ''acme'')) \<le> 500"
proof -
  let ?r = "semantic_store sample_encode sample_hash sole_redis live_semantic ''acme'' ''hello'' sample_entry 1 []"
  have "fst ?r = live_semantic" by code_simp
  then have "?r = (live_semantic, semantic_sample)" by (metis prod.collapse semantic_sample_def)
  from semantic_index_bounded [OF sole_string_laws sole_zset_laws _ _ this] show ?thesis
    by (simp add: live_semantic_def default_semantic_cache_def)
qed

end
