(* ===== verification/Ledger.thy ===== *)
theory Ledger
  imports Gw_Types
begin

text \<open>
  The cost ledger's write path (\<open>CostLedger.record\<close> of \<open>gateway/ledger.py\<close>): enqueue the spend
  event, else write it to the database, else raise. The queue and the repository are
  parameters; a call either returns or raises (\<open>None\<close>).
\<close>

record usage_record =
  ur_tenant_id :: string
  ur_provider :: string
  ur_model :: string
  ur_usage :: usage
  ur_usd :: usd
  ur_surface_id :: "string option"
  ur_end_user_id :: "string option"
  ur_conversation_id :: "string option"
  ur_session_id :: "string option"
  ur_request_id :: string

record 'w ledger_io =
  li_enqueue :: "(usage_record \<Rightarrow> 'w \<Rightarrow> bool option \<times> 'w) option"
  li_add :: "(usage_record \<Rightarrow> 'w \<Rightarrow> unit option \<times> 'w) option"

datatype ledger_error = SpendWriteFailed | NoWritePath

definition try_enqueue :: "'w ledger_io \<Rightarrow> usage_record \<Rightarrow> 'w \<Rightarrow> bool \<times> 'w" where
  "try_enqueue L r w =
     (case li_enqueue L of
        None \<Rightarrow> (False, w)
      | Some enqueue \<Rightarrow> (case enqueue r w of (Some ok, w1) \<Rightarrow> (ok, w1) | (None, w1) \<Rightarrow> (False, w1)))"

definition ledger_record :: "'w ledger_io \<Rightarrow> usage_record \<Rightarrow> 'w \<Rightarrow> (ledger_error + unit) \<times> 'w" where
  "ledger_record L r w =
     (let (ok, w1) = try_enqueue L r w
      in if ok then (Inr (), w1)
         else case li_add L of
                None \<Rightarrow> (Inl NoWritePath, w1)
              | Some add \<Rightarrow> (case add r w1 of (Some _, w2) \<Rightarrow> (Inr (), w2) | (None, w2) \<Rightarrow> (Inl SpendWriteFailed, w2)))"

text \<open>A spend event is never dropped silently: \<open>record\<close> returns exactly when the queue accepted the
  event or the repository stored it; otherwise it raises, saying whether there was a write path at all.\<close>

theorem spend_never_dropped:
  "case ledger_record L r w of
     (Inr _, w') \<Rightarrow> (\<exists>enqueue. li_enqueue L = Some enqueue \<and> enqueue r w = (Some True, w')) \<or>
                  (\<exists>add w1. li_add L = Some add \<and> add r w1 = (Some (), w') \<and> try_enqueue L r w = (False, w1))
   | (Inl NoWritePath, _) \<Rightarrow> li_add L = None \<and> \<not> fst (try_enqueue L r w)
   | (Inl SpendWriteFailed, _) \<Rightarrow> (\<exists>add. li_add L = Some add \<and> fst (add r (snd (try_enqueue L r w))) = None)"
  by (auto simp: ledger_record_def try_enqueue_def Let_def split: prod.splits option.splits sum.splits ledger_error.splits if_splits)

end
