(* ===== verification/Gateway.thy ===== *)
theory Gateway
  imports Fallback Cooldown Quota Cache Ledger
begin

text \<open>
  The gateway service (\<open>gateway/service.py\<close>): the non-streaming path from routing to the ledger.
  Provider calls, the key resolver, the hash and the JSON text functions are parameters; the
  gateway's parts are the models of the imported theories. \<open>tenant\<close> is the tenant's id,
  \<open>window\<close> the formatted budget window and \<open>fresh\<close> a fresh id.
\<close>

section \<open>Definitions\<close>

record llm_response =
  lr_content :: string
  lr_model :: string
  lr_usage :: usage
  lr_finish_reason :: "string option"
  lr_tool_calls :: "tool_call list option"

record adapter =
  ad_provider :: string
  ad_model :: string
  ad_api_key :: string
  ad_temperature :: rat
  ad_max_tokens :: "int option"
  ad_tools :: "json list"
  ad_structured_output :: "json option"

text \<open>
  The environment. \<open>chat\<close> yields the exception's message or the response, with the measured
  milliseconds; the key resolver yields the key or the message of its configuration error.
\<close>

record 'w gw_env =
  env_redis :: "'w redis"
  env_chat :: "adapter \<Rightarrow> chat_message list \<Rightarrow> 'w \<Rightarrow> (string + llm_response) \<times> rat \<times> 'w"
  env_resolve_key :: "'w \<Rightarrow> (string + string) \<times> 'w"
  env_ledger :: "'w ledger_io"
  env_sha256 :: "string \<Rightarrow> string"
  env_dumps :: "json \<Rightarrow> string"

record gateway =
  gw_router :: router
  gw_chain_catalog :: catalog
  gw_cooldowns :: cooldown_cache
  gw_quota :: quota_service
  gw_cache :: gateway_cache
  gw_adapters :: "(string \<times> adapter) list"

record provider_error =
  pe_class :: failure_class
  pe_provider :: string
  pe_model :: string
  pe_cause :: string

definition gw_catalog :: "gateway \<Rightarrow> catalog" where
  "gw_catalog gw = rt_catalog (gw_router gw)"

definition message_json :: "chat_message \<Rightarrow> json" where
  "message_json m = JObj [(''role'', JStr (cm_role m)), (''content'', JStr (cm_content m)), (''metadata'', cm_metadata m)]"

definition request_key :: "(json \<Rightarrow> string) \<Rightarrow> gateway_request \<Rightarrow> string" where
  "request_key dumps rq = dumps (JObj
     [(''messages'', JList (map message_json (rq_messages rq))), (''tools'', JList (rq_tools rq)),
      (''structured_output'', get_or (rq_structured_output rq) JNull)])"

definition llm_provider_types :: "string list" where
  "llm_provider_types = [''openai'', ''anthropic'', ''google'', ''azure'', ''custom'']"

definition default_adapter_factory :: "string \<Rightarrow> string \<Rightarrow> gateway_request \<Rightarrow> string \<Rightarrow> string + adapter" where
  "default_adapter_factory provider model rq api_key =
     (if provider \<in> set llm_provider_types
      then Inr \<lparr>ad_provider = provider, ad_model = model, ad_api_key = api_key, ad_temperature = rq_temperature rq,
                ad_max_tokens = rq_max_tokens rq, ad_tools = rq_tools rq, ad_structured_output = rq_structured_output rq\<rparr>
      else Inl (CHR 0x27 # provider @ CHR 0x27 # '' is not a valid LLMProviderType''))"

definition adapter_key :: "string \<Rightarrow> string \<Rightarrow> string \<Rightarrow> string" where
  "adapter_key tenant provider model = tenant @ '':'' @ provider @ '':'' @ model"

definition get_adapter :: "gateway \<Rightarrow> string \<Rightarrow> string \<Rightarrow> string \<Rightarrow> gateway_request \<Rightarrow> string \<Rightarrow> (string + adapter) \<times> gateway" where
  "get_adapter gw tenant provider model rq api_key =
     (let key = adapter_key tenant provider model;
          store = (\<lambda>ad. (Inr ad, gw\<lparr>gw_adapters := AList.update key ad (gw_adapters gw)\<rparr>))
      in case map_of (gw_adapters gw) key of
           None \<Rightarrow> (case default_adapter_factory provider model rq api_key of Inl e \<Rightarrow> (Inl e, gw) | Inr ad \<Rightarrow> store ad)
         | Some ad \<Rightarrow> store (ad\<lparr>ad_tools := rq_tools rq, ad_structured_output := rq_structured_output rq\<rparr>))"

fun availability_snapshot ::
  "'w redis \<Rightarrow> cooldown_cache \<Rightarrow> deployment list \<Rightarrow> (deployment \<times> bool) list \<Rightarrow> 'w \<Rightarrow> (deployment \<times> bool) list \<times> cooldown_cache \<times> 'w" where
  "availability_snapshot R cc [] snap w = (snap, cc, w)"
| "availability_snapshot R cc (d # ds) snap w =
     (case is_available R cc (fst d) (snd d) w of
        (ok, cc1, w1) \<Rightarrow> availability_snapshot R cc1 ds (AList.update d ok snap) w1)"

definition gw_decide :: "'w gw_env \<Rightarrow> gateway \<Rightarrow> gateway_request \<Rightarrow> gateway_cfg \<Rightarrow> 'w \<Rightarrow> route_decision \<times> gateway \<times> 'w" where
  "gw_decide E gw rq cfg w =
     (case availability_snapshot (env_redis E) (gw_cooldowns gw) (candidates (gw_router gw) rq cfg) [] w of
        (snap, cc, w1) \<Rightarrow> (decide (gw_router gw) rq (\<lambda>d. get_or (map_of snap d) True) cfg, gw\<lparr>gw_cooldowns := cc\<rparr>, w1))"

definition estimate_max_spend :: "gateway \<Rightarrow> deployment list \<Rightarrow> gateway_request \<Rightarrow> usd" where
  "estimate_max_spend gw cands rq =
     (let tokens = num_or (rq_estimated_input_tokens rq) 0
      in if tokens = 0 then 0
         else case List.map_filter (\<lambda>(p, m). estimate_cost (gw_catalog gw) p m tokens 1024) cands of
                [] \<Rightarrow> 0
              | c # cs \<Rightarrow> fold max cs c)"

definition result_usd :: "gateway \<Rightarrow> gateway_result \<Rightarrow> usd" where
  "result_usd gw r = num_or (estimate_cost (gw_catalog gw) (gr_provider r) (gr_model r)
     (us_input_tokens (gr_usage r)) (us_output_tokens (gr_usage r))) 0"

definition attempt ::
  "'w gw_env \<Rightarrow> gateway_request \<Rightarrow> string \<Rightarrow> string \<Rightarrow> deployment \<Rightarrow> gateway \<Rightarrow> 'w
     \<Rightarrow> (provider_error + gateway_result) \<times> gateway \<times> 'w" where
  "attempt E rq tenant api_key d gw w =
     (let (provider, model) = d;
          failed = (\<lambda>msg. Inl \<lparr>pe_class = classify_failure msg, pe_provider = provider, pe_model = model, pe_cause = msg\<rparr>)
      in case get_adapter gw tenant provider model rq api_key of
           (Inl msg, gw1) \<Rightarrow> (failed msg, gw1, w)
         | (Inr ad, gw1) \<Rightarrow>
             (case env_chat E ad (rq_messages rq) w of
                (Inl msg, _, w1) \<Rightarrow> (failed msg, gw1, w1)
              | (Inr resp, latency_ms, w1) \<Rightarrow>
                  (Inr \<lparr>gr_content = lr_content resp, gr_model = str_or (Some (lr_model resp)) model, gr_provider = provider,
                        gr_usage = lr_usage resp, gr_finish_reason = lr_finish_reason resp, gr_tool_calls = lr_tool_calls resp,
                        gr_routed_via = provider @ '':'' @ model, gr_attempts = 1, gr_cached = False\<rparr>,
                   gw1\<lparr>gw_router := (gw_router gw1)\<lparr>rt_latency := latency_update (rt_latency (gw_router gw1)) provider model latency_ms\<rparr>\<rparr>,
                   w1)))"

definition cacheable :: "gateway_cfg \<Rightarrow> gateway_request \<Rightarrow> bool" where
  "cacheable cfg rq \<longleftrightarrow> get_or (gc_caching cfg) True \<and> rq_tools rq = [] \<and> (rq_structured_output rq = None \<or> rq_structured_output rq = Some (JObj []))"

definition prompt_version :: "gateway_cfg \<Rightarrow> string" where
  "prompt_version cfg = get_or (gc_prompt_version cfg) ''v1''"

definition spend_of :: "gateway \<Rightarrow> gateway_request \<Rightarrow> gateway_result \<Rightarrow> usage_record" where
  "spend_of gw rq r = \<lparr>ur_tenant_id = rq_tenant_id rq, ur_provider = gr_provider r, ur_model = gr_model r, ur_usage = gr_usage r,
     ur_usd = result_usd gw r, ur_surface_id = rq_surface_id rq, ur_end_user_id = rq_end_user_id rq,
     ur_conversation_id = rq_conversation_id rq, ur_session_id = rq_session_id rq, ur_request_id = rq_request_id rq\<rparr>"

definition entry_of :: "gateway_result \<Rightarrow> cached_entry" where
  "entry_of r = \<lparr>ce_provider = gr_provider r, ce_model = gr_model r, ce_content = gr_content r, ce_usage = gr_usage r,
     ce_finish_reason = gr_finish_reason r, ce_tool_calls = gr_tool_calls r\<rparr>"

definition after_success :: "'w gw_env \<Rightarrow> gateway_request \<Rightarrow> gateway_cfg \<Rightarrow> gateway_result \<Rightarrow> gateway \<Rightarrow> 'w \<Rightarrow> gateway \<times> 'w" where
  "after_success E rq cfg r gw w =
     (let w1 = snd (ledger_record (env_ledger E) (spend_of gw rq r) w)
      in if cacheable cfg rq
         then case exact_set (env_sha256 E) (env_redis E) (ga_exact (gw_cache gw)) (rq_tenant_id rq) (prompt_version cfg)
                     (request_key (env_dumps E) rq) (entry_of r) w1 of
                (xc, w2) \<Rightarrow> (gw\<lparr>gw_cache := (gw_cache gw)\<lparr>ga_exact := xc\<rparr>\<rparr>, w2)
         else (gw, w1))"

definition from_cache :: "cached_entry \<Rightarrow> gateway_result" where
  "from_cache e = \<lparr>gr_content = ce_content e, gr_model = ce_model e, gr_provider = ce_provider e, gr_usage = ce_usage e,
     gr_finish_reason = ce_finish_reason e, gr_tool_calls = ce_tool_calls e,
     gr_routed_via = ''cache:'' @ ce_provider e @ '':'' @ ce_model e, gr_attempts = 0, gr_cached = True\<rparr>"

text \<open>The accounting after an answered and after a failed attempt.\<close>

definition settle_success ::
  "'w gw_env \<Rightarrow> gateway_request \<Rightarrow> gateway_cfg \<Rightarrow> quota_reservation option \<Rightarrow> deployment \<Rightarrow> gateway_result \<Rightarrow> gateway \<Rightarrow> 'w \<Rightarrow> gateway \<times> 'w" where
  "settle_success E rq cfg res d r gw w =
     (let (cc, w1) = record_success (env_redis E) (gw_cooldowns gw) (fst d) (snd d) w;
          (qs, w2) = quota_reconcile (env_redis E) (gw_quota gw) res (result_usd gw r) w1
      in after_success E rq cfg r (gw\<lparr>gw_cooldowns := cc, gw_quota := qs\<rparr>) w2)"

definition note_failure :: "'w gw_env \<Rightarrow> deployment \<Rightarrow> gateway \<Rightarrow> 'w \<Rightarrow> gateway \<times> 'w" where
  "note_failure E d gw w =
     (case record_failure (env_redis E) (gw_cooldowns gw) (fst d) (snd d) w of (_, cc, w1) \<Rightarrow> (gw\<lparr>gw_cooldowns := cc\<rparr>, w1))"

datatype chain_end =
    Answered gateway_result
  | Exhausted "provider_error option" "deployment list"

definition all_targets :: "catalog \<Rightarrow> fallback_chain \<Rightarrow> deployment list" where
  "all_targets cat chain = concat (map (targets cat chain) [General, ContentPolicy, ContextWindow])"

lemma targets_in_all: "set (targets cat chain c) \<subseteq> set (all_targets cat chain)"
  by (cases c) (auto simp: all_targets_def)

text \<open>Both loops over targets end: what is neither tried nor reachable shrinks with every attempt.\<close>

lemma retry_decreases:
  assumes "d \<notin> set seen"
  shows "card ((set (all_targets cat chain) \<union> set (filter (\<lambda>t. t \<notin> set (seen @ [d])) (targets cat chain c))) - set (seen @ [d]))
    < card ((set (all_targets cat chain) \<union> set (d # ds)) - set seen)"
  using targets_in_all [of cat chain c] assms by (intro psubset_card_mono) auto

lemma skip_keeps: "d \<in> set seen \<Longrightarrow> card ((A \<union> set (d # ds)) - set seen) = card ((A \<union> set ds) - set seen)"
  by (auto intro!: arg_cong [where f = card])

function chain_loop ::
  "'w gw_env \<Rightarrow> gateway_request \<Rightarrow> string \<Rightarrow> gateway_cfg \<Rightarrow> string \<Rightarrow> quota_reservation option \<Rightarrow> catalog \<Rightarrow> fallback_chain
     \<Rightarrow> deployment list \<Rightarrow> deployment list \<Rightarrow> provider_error option \<Rightarrow> gateway \<Rightarrow> 'w \<Rightarrow> chain_end \<times> gateway \<times> 'w" where
  "chain_loop E rq tenant cfg key res cat chain seen [] err gw w = (Exhausted err seen, gw, w)"
| "chain_loop E rq tenant cfg key res cat chain seen (d # ds) err gw w =
     (if d \<in> set seen then chain_loop E rq tenant cfg key res cat chain seen ds err gw w
      else case attempt E rq tenant key d gw w of
             (Inr r, gw1, w1) \<Rightarrow> (case settle_success E rq cfg res d r gw1 w1 of (gw2, w2) \<Rightarrow> (Answered r, gw2, w2))
           | (Inl e, gw1, w1) \<Rightarrow>
               (case note_failure E d gw1 w1 of
                  (gw2, w2) \<Rightarrow> chain_loop E rq tenant cfg key res cat chain (seen @ [d])
                                 (filter (\<lambda>t. t \<notin> set (seen @ [d])) (targets cat chain (pe_class e))) (Some e) gw2 w2))"
  by pat_completeness auto

termination
proof (relation "measures [\<lambda>(E, rq, tenant, cfg, key, res, cat, chain, seen, ds, err, gw, w).
      card ((set (all_targets cat chain) \<union> set ds) - set seen), \<lambda>(E, rq, tenant, cfg, key, res, cat, chain, seen, ds, err, gw, w). length ds]")
qed (simp_all add: skip_keeps retry_decreases del: set_append filter_append set_simps set_filter)

definition execute_chain ::
  "'w gw_env \<Rightarrow> gateway_request \<Rightarrow> string \<Rightarrow> gateway_cfg \<Rightarrow> string \<Rightarrow> quota_reservation option \<Rightarrow> gateway \<Rightarrow> 'w
     \<Rightarrow> (gateway_error + gateway_result) \<times> gateway \<times> 'w" where
  "execute_chain E rq tenant cfg key res gw w =
     (case gw_decide E gw rq cfg w of
        (decision, gw1, w1) \<Rightarrow>
          (let chain = build_fallback_chain rq (candidates (gw_router gw1) rq cfg) cfg (Some (get_or (gc_cross_family_fallback cfg) True))
           in case chain_loop E rq tenant cfg key res (gw_chain_catalog gw1) chain [] [(rd_provider decision, rd_model decision)] None gw1 w1 of
                (Answered r, gw2, w2) \<Rightarrow> (Inr r, gw2, w2)
              | (Exhausted err seen, gw2, w2) \<Rightarrow>
                  (case quota_release (env_redis E) (gw_quota gw2) res w2 of
                     (qs, w3) \<Rightarrow>
                       (Inl (case err of
                               None \<Rightarrow> GatewayConfigurationError ''no deployments to try''
                             | Some e \<Rightarrow> GatewayChainExhausted (pe_provider e) (pe_model e) (pe_cause e) (class_name (pe_class e)) (length seen)),
                        gw2\<lparr>gw_quota := qs\<rparr>, w3))))"

definition cache_lookup ::
  "'w gw_env \<Rightarrow> gateway_request \<Rightarrow> string \<Rightarrow> gateway_cfg \<Rightarrow> gateway \<Rightarrow> 'w \<Rightarrow> cached_entry option \<times> gateway \<times> 'w" where
  "cache_lookup E rq tenant cfg gw w =
     (if cacheable cfg rq
      then case exact_get (env_sha256 E) (env_redis E) (ga_exact (gw_cache gw)) tenant (prompt_version cfg) (request_key (env_dumps E) rq) w of
             (hit, xc, w1) \<Rightarrow> (hit, gw\<lparr>gw_cache := (gw_cache gw)\<lparr>ga_exact := xc\<rparr>\<rparr>, w1)
      else (None, gw, w))"

definition generate ::
  "'w gw_env \<Rightarrow> gateway_request \<Rightarrow> string \<Rightarrow> gateway_cfg \<Rightarrow> string \<Rightarrow> string \<Rightarrow> gateway \<Rightarrow> 'w
     \<Rightarrow> (gateway_error + gateway_result) \<times> gateway \<times> 'w" where
  "generate E rq tenant gateway_cfg window fresh gw w =
     (let cfg = with_defaults gateway_cfg
      in case quota_reserve (env_redis E) (gw_quota gw) (quota_limits_from_cfg cfg) tenant (rq_surface_id rq) (rq_end_user_id rq)
                (estimate_max_spend gw (candidates (gw_router gw) rq cfg) rq) (rq_request_id rq) window fresh w of
           (Inl e, _, qs, w1) \<Rightarrow> (Inl e, gw\<lparr>gw_quota := qs\<rparr>, w1)
         | (Inr res, _, qs, w1) \<Rightarrow>
             (case cache_lookup E rq tenant cfg (gw\<lparr>gw_quota := qs\<rparr>) w1 of
                (Some entry, gw1, w2) \<Rightarrow>
                  (case quota_release (env_redis E) (gw_quota gw1) res w2 of
                     (qs1, w3) \<Rightarrow> (Inr (from_cache entry), gw1\<lparr>gw_quota := qs1\<rparr>, w3))
              | (None, gw1, w2) \<Rightarrow>
                  (case env_resolve_key E w2 of
                     (Inl e, w3) \<Rightarrow> (Inl (GatewayConfigurationError e), gw1, w3)
                   | (Inr key, w3) \<Rightarrow> execute_chain E rq tenant cfg key res gw1 w3)))"

section \<open>The fallback loop\<close>

lemma attempt_error_class:
  "attempt E rq tenant key d gw w = (Inl e, gw1, w1) \<Longrightarrow>
     pe_class e = classify_failure (pe_cause e) \<and> (pe_provider e, pe_model e) = d"
  by (auto simp: attempt_def Let_def split: prod.splits sum.splits)

lemma attempt_result:
  "attempt E rq tenant key d gw w = (Inr r, gw1, w1) \<Longrightarrow>
     gr_provider r = fst d \<and> gr_attempts r = 1 \<and> \<not> gr_cached r \<and> gr_routed_via r = fst d @ '':'' @ snd d"
  by (auto simp: attempt_def Let_def split: prod.splits sum.splits)

text \<open>
  The loop's invariant: nothing is tried twice, everything tried or to be tried lies in \<open>U\<close>, and the
  last error is that of the last deployment tried, all of whose fallback targets are tried or pending.
\<close>

definition loop_inv ::
  "catalog \<Rightarrow> fallback_chain \<Rightarrow> deployment set \<Rightarrow> deployment list \<Rightarrow> deployment list \<Rightarrow> provider_error option \<Rightarrow> bool" where
  "loop_inv cat chain U seen ds err \<longleftrightarrow>
     distinct seen \<and> set seen \<union> set ds \<union> set (all_targets cat chain) \<subseteq> U \<and> (err = None \<longleftrightarrow> seen = []) \<and>
     (\<forall>e. err = Some e \<longrightarrow> (pe_provider e, pe_model e) = last seen \<and> pe_class e = classify_failure (pe_cause e) \<and>
        set (targets cat chain (pe_class e)) \<subseteq> set ds \<union> set seen)"

definition answered_from :: "deployment set \<Rightarrow> gateway_result \<Rightarrow> bool" where
  "answered_from U r \<longleftrightarrow> (\<exists>d \<in> U. gr_provider r = fst d \<and> gr_routed_via r = fst d @ '':'' @ snd d) \<and> gr_attempts r = 1 \<and> \<not> gr_cached r"

lemma loop_inv_skip: "loop_inv cat chain U seen (d # ds) err \<Longrightarrow> d \<in> set seen \<Longrightarrow> loop_inv cat chain U seen ds err"
  unfolding loop_inv_def by (intro conjI allI impI) auto

lemma loop_inv_fail:
  assumes "loop_inv cat chain U seen (d # ds) err" "d \<notin> set seen" and "attempt E rq tenant key d gw w = (Inl e, gw1, w1)"
  shows "loop_inv cat chain U (seen @ [d]) (filter (\<lambda>t. t \<notin> set (seen @ [d])) (targets cat chain (pe_class e))) (Some e)"
  using assms(1,2) attempt_error_class [OF assms(3)] targets_in_all [of cat chain "pe_class e"]
  unfolding loop_inv_def by (intro conjI allI impI) auto

lemma chain_loop_spec:
  assumes "chain_loop E rq tenant cfg key res cat chain seen ds err gw w = (out, gw', w')"
    and "loop_inv cat chain U seen ds err"
  shows "case out of
           Answered r \<Rightarrow> answered_from U r
         | Exhausted err' seen' \<Rightarrow> loop_inv cat chain U seen' [] err' \<and> (ds = [] \<or> hd ds \<in> set seen') \<and> set seen \<subseteq> set seen'"
  using assms
proof (induction E rq tenant cfg key res cat chain seen ds err gw w rule: chain_loop.induct)
  case (2 E rq tenant cfg key res cat chain seen d ds err gw w)
  show ?case
  proof (cases "d \<in> set seen")
    case True
    with 2(3) have "chain_loop E rq tenant cfg key res cat chain seen ds err gw w = (out, gw', w')" by simp
    from 2(1) [OF True this loop_inv_skip [OF 2(4) True]] True show ?thesis by (auto split: chain_end.splits)
  next
    case False
    obtain a gw1 w1 where at: "attempt E rq tenant key d gw w = (a, gw1, w1)" by (cases "attempt E rq tenant key d gw w")
    show ?thesis
    proof (cases a)
      case (Inr r)
      then have "answered_from U r"
        using attempt_result [of E rq tenant key d gw w r gw1 w1] at 2(4) by (auto simp: answered_from_def loop_inv_def)
      with 2(3) at False Inr show ?thesis by (auto split: prod.splits)
    next
      case (Inl e)
      obtain gw2 w2 where nf: "note_failure E d gw1 w1 = (gw2, w2)" by (cases "note_failure E d gw1 w1")
      have "chain_loop E rq tenant cfg key res cat chain (seen @ [d])
          (filter (\<lambda>t. t \<notin> set (seen @ [d])) (targets cat chain (pe_class e))) (Some e) gw2 w2 = (out, gw', w')"
        using 2(3) False at Inl nf by simp
      from 2(2) [OF False at [symmetric] Inl refl nf [symmetric] this loop_inv_fail [OF 2(4) False at [unfolded Inl]]]
      show ?thesis by (auto split: chain_end.splits)
    qed
  qed
qed (auto split: chain_end.splits)

section \<open>Frames\<close>

text \<open>
  The environment on which the accounting theorem rests: Redis obeys its laws and answers, and
  provider calls, the key resolver and the ledger do not write the gateway's keys.
\<close>

definition strings_return :: "'w redis \<Rightarrow> bool" where
  "strings_return R \<longleftrightarrow> (\<forall>k w. fst (r_get R k w) \<noteq> None) \<and> (\<forall>k t j w. fst (r_setex R k t j w) \<noteq> None)"

definition ledger_frame :: "'w ledger_io \<Rightarrow> ('w \<Rightarrow> keyspace) \<Rightarrow> bool" where
  "ledger_frame L view \<longleftrightarrow> (\<forall>f r w. li_enqueue L = Some f \<longrightarrow> view (snd (f r w)) = view w) \<and>
     (\<forall>f r w. li_add L = Some f \<longrightarrow> view (snd (f r w)) = view w)"

definition env_ok :: "'w gw_env \<Rightarrow> ('w \<Rightarrow> keyspace) \<Rightarrow> bool" where
  "env_ok E view \<longleftrightarrow> redis_hash_laws (env_redis E) view \<and> redis_counter_laws (env_redis E) view \<and> redis_string_laws (env_redis E) view \<and>
     redis_returns (env_redis E) \<and> counters_return (env_redis E) \<and> strings_return (env_redis E) \<and>
     (\<forall>ad ms w. view (snd (snd (env_chat E ad ms w))) = view w) \<and> (\<forall>w. view (snd (env_resolve_key E w)) = view w) \<and>
     ledger_frame (env_ledger E) view"

lemma env_okD:
  assumes "env_ok E view"
  shows "redis_hash_laws (env_redis E) view" "redis_counter_laws (env_redis E) view" "redis_string_laws (env_redis E) view"
    "redis_returns (env_redis E)" "counters_return (env_redis E)" "strings_return (env_redis E)" "ledger_frame (env_ledger E) view"
    "view (snd (snd (env_chat E ad ms w))) = view w" "view (snd (env_resolve_key E w)) = view w"
  using assms unfolding env_ok_def by blast+

definition prefixes_apart :: "gateway \<Rightarrow> bool" where
  "prefixes_apart gw \<longleftrightarrow> (\<forall>a b. qc_prefix (qs_config (gw_quota gw)) @ a \<noteq> cd_prefix (cd_config (gw_cooldowns gw)) @ b \<and>
     qc_prefix (qs_config (gw_quota gw)) @ a \<noteq> xc_prefix (ga_exact (gw_cache gw)) @ b)"

text \<open>The budgets as the quota keys show them, and what of the gateway the steps below leave alone.\<close>

definition budgets :: "('w \<Rightarrow> keyspace) \<Rightarrow> string \<Rightarrow> 'w \<Rightarrow> string \<Rightarrow> budget" where
  "budgets view prefix w x = budget_at (view w) (prefix @ x)"

definition shape :: "gateway \<Rightarrow> quota_config \<times> bool \<times> catalog \<times> cooldown_config \<times> string" where
  "shape gw = (qs_config (gw_quota gw), qs_redis_available (gw_quota gw), gw_catalog gw, cd_config (gw_cooldowns gw),
     xc_prefix (ga_exact (gw_cache gw)))"

definition quota_keeps :: "('w \<Rightarrow> keyspace) \<Rightarrow> gateway \<Rightarrow> 'w \<Rightarrow> gateway \<times> 'w \<Rightarrow> bool" where
  "quota_keeps view gw w r \<longleftrightarrow> shape (fst r) = shape gw \<and>
     budgets view (qc_prefix (qs_config (gw_quota gw))) (snd r) = budgets view (qc_prefix (qs_config (gw_quota gw))) w"

lemma budgets_upd_other:
  assumes "view w' = (view w)(k \<mapsto> v)" and "\<And>a. prefix @ a \<noteq> k"
  shows "budgets view prefix w' = budgets view prefix w"
  using assms by (auto simp: budgets_def budget_at_def hash_at_def fun_eq_iff)

lemma budgets_del_other:
  assumes "view w' = (view w) |` (- set ks)" and "\<And>a. prefix @ a \<notin> set ks"
  shows "budgets view prefix w' = budgets view prefix w"
  using assms by (auto simp: budgets_def budget_at_def hash_at_def fun_eq_iff)

lemma budgets_same: "view w' = view w \<Longrightarrow> budgets view prefix w' = budgets view prefix w"
  by (rule ext) (simp add: budgets_def)

lemma keeps_result:
  assumes "quota_keeps view gw w (gw1, w1)"
  shows "prefixes_apart gw1 = prefixes_apart gw" "qs_redis_available (gw_quota gw1) = qs_redis_available (gw_quota gw)"
    "qs_config (gw_quota gw1) = qs_config (gw_quota gw)" "result_usd gw1 = result_usd gw" "shape gw1 = shape gw"
    "budgets view (qc_prefix (qs_config (gw_quota gw))) w1 = budgets view (qc_prefix (qs_config (gw_quota gw))) w"
  using assms by (auto simp: quota_keeps_def shape_def prefixes_apart_def result_usd_def fun_eq_iff)

lemma attempt_keeps:
  assumes "env_ok E view"
  shows "quota_keeps view gw w (snd (attempt E rq tenant key d gw w))"
  using assms
  by (auto simp: attempt_def get_adapter_def quota_keeps_def shape_def gw_catalog_def env_ok_def Let_def
      split: prod.splits option.splits sum.splits intro!: budgets_same) (metis snd_conv)+

lemma note_failure_keeps:
  assumes "env_ok E view" and "prefixes_apart gw"
  shows "quota_keeps view gw w (note_failure E d gw w)"
proof (cases "cd_redis_available (gw_cooldowns gw)")
  case True
  obtain w' where r: "record_failure (env_redis E) (gw_cooldowns gw) (fst d) (snd d) w =
      (fail_count (view w) (cooldown_key (gw_cooldowns gw) (fst d) (snd d)) + 1, gw_cooldowns gw, w')"
    "view w' = (view w)(cooldown_key (gw_cooldowns gw) (fst d) (snd d) \<mapsto> RInt (fail_count (view w) (cooldown_key (gw_cooldowns gw) (fst d) (snd d)) + 1))"
    using record_failure_counts [of "env_redis E" view "gw_cooldowns gw" "fst d" "snd d" w] True assms(1) by (auto simp: env_ok_def)
  have "budgets view (qc_prefix (qs_config (gw_quota gw))) w' = budgets view (qc_prefix (qs_config (gw_quota gw))) w"
    using assms(2) by (intro budgets_upd_other [OF r(2)]) (simp add: prefixes_apart_def cooldown_key_def)
  with r(1) show ?thesis by (simp add: note_failure_def quota_keeps_def shape_def gw_catalog_def)
qed (simp add: note_failure_def record_failure_def quota_keeps_def shape_def gw_catalog_def)

lemma record_success_keeps:
  assumes "env_ok E view" and "prefixes_apart gw"
    and "record_success (env_redis E) (gw_cooldowns gw) p m w = (cc, w')"
  shows "cd_config cc = cd_config (gw_cooldowns gw)"
    and "budgets view (qc_prefix (qs_config (gw_quota gw))) w' = budgets view (qc_prefix (qs_config (gw_quota gw))) w"
proof -
  obtain n w1 where d: "r_delete (env_redis E) [cooldown_key (gw_cooldowns gw) p m] w = (Some n, w1)"
    using counters_returnD [OF env_okD(5) [OF assms(1)]] by metis
  have v: "view w1 = view w |` (- set [cooldown_key (gw_cooldowns gw) p m])"
    by (rule counter_lawsD(5) [OF env_okD(2) [OF assms(1)] d])
  have "budgets view (qc_prefix (qs_config (gw_quota gw))) w1 = budgets view (qc_prefix (qs_config (gw_quota gw))) w"
    using assms(2) by (intro budgets_del_other [OF v]) (simp add: prefixes_apart_def cooldown_key_def)
  with assms(3) d show "cd_config cc = cd_config (gw_cooldowns gw)"
    and "budgets view (qc_prefix (qs_config (gw_quota gw))) w' = budgets view (qc_prefix (qs_config (gw_quota gw))) w"
    by (auto simp: record_success_def split: if_splits)
qed

lemma is_available_keeps:
  assumes "env_ok E view" and "is_available (env_redis E) cc p m w = (ok, cc', w')"
  shows "view w' = view w \<and> cd_config cc' = cd_config cc"
proof -
  obtain v w1 where g: "r_getint (env_redis E) (cooldown_key cc p m) w = (Some v, w1)"
    using counters_returnD [OF env_okD(5) [OF assms(1)]] by metis
  from counter_lawsD(1) [OF env_okD(2) [OF assms(1)] g] g assms(2) show ?thesis
    by (auto simp: is_available_def split: if_splits option.splits)
qed

lemma snapshot_keeps:
  assumes "env_ok E view" and "availability_snapshot (env_redis E) cc ds snap w = (snap', cc', w')"
  shows "view w' = view w \<and> cd_config cc' = cd_config cc"
  using assms(2)
proof (induction ds arbitrary: cc snap w)
  case (Cons d ds)
  obtain ok cc1 w1 where a: "is_available (env_redis E) cc (fst d) (snd d) w = (ok, cc1, w1)"
    by (cases "is_available (env_redis E) cc (fst d) (snd d) w")
  with Cons.prems have "availability_snapshot (env_redis E) cc1 ds (AList.update d ok snap) w1 = (snap', cc', w')" by simp
  from Cons.IH [OF this] is_available_keeps [OF assms(1) a] show ?case by simp
qed simp

lemma decide_keeps:
  assumes "env_ok E view"
  shows "quota_keeps view gw w (snd (gw_decide E gw rq cfg w))"
proof -
  obtain snap cc w1 where s: "availability_snapshot (env_redis E) (gw_cooldowns gw) (candidates (gw_router gw) rq cfg) [] w = (snap, cc, w1)"
    by (cases "availability_snapshot (env_redis E) (gw_cooldowns gw) (candidates (gw_router gw) rq cfg) [] w")
  note k = snapshot_keeps [OF assms s]
  have "budgets view p w1 = budgets view p w" for p by (rule budgets_same) (use k in simp)
  with k s show ?thesis by (simp add: gw_decide_def quota_keeps_def shape_def gw_catalog_def)
qed

lemma lookup_keeps:
  assumes "env_ok E view"
  shows "quota_keeps view gw w (snd (cache_lookup E rq tenant cfg gw w))"
proof -
  have "view w1 = view w \<and> xc_prefix xc' = xc_prefix xc"
    if run: "exact_get sha (env_redis E) xc tenant v r w = (hit, xc', w1)" for sha xc v r hit xc' w1
  proof (cases "xc_redis_available xc")
    case True
    let ?k = "exact_key sha xc tenant v r"
    obtain g w2 where g: "r_get (env_redis E) ?k w = (Some g, w2)"
      using env_okD(6) [OF assms] unfolding strings_return_def by (metis not_None_eq prod.collapse)
    obtain u w3 where e: "r_expire (env_redis E) ?k (xc_ttl_seconds xc) w2 = (Some u, w3)"
      using env_okD(5) [OF assms] unfolding counters_return_def by (metis not_None_eq prod.collapse)
    have "view w2 = view w" "view w3 = view w"
      using string_lawsD(1) [OF env_okD(3) [OF assms] g] string_lawsD(3) [OF env_okD(3) [OF assms] e] by simp_all
    with run True g e show ?thesis
      by (auto simp: exact_get_def xc_log_degraded_once_def Let_def split: option.splits)
  qed (use run in \<open>simp add: exact_get_def\<close>)
  then show ?thesis
    by (auto simp: cache_lookup_def quota_keeps_def shape_def gw_catalog_def intro!: budgets_same split: prod.splits)
qed

lemma after_success_keeps:
  assumes "env_ok E view" and "prefixes_apart gw"
  shows "quota_keeps view gw w (after_success E rq cfg r gw w)"
proof -
  let ?q = "qc_prefix (qs_config (gw_quota gw))"
  have led: "view (snd (ledger_record (env_ledger E) s w)) = view w" for s w
    using env_okD(7) [OF assms(1)] unfolding ledger_frame_def
    by (auto simp: ledger_record_def try_enqueue_def Let_def split: prod.splits option.splits) (metis snd_conv)+
  have "budgets view ?q w2 = budgets view ?q w1 \<and> xc_prefix xc' = xc_prefix (ga_exact (gw_cache gw))"
    if "exact_set sha (env_redis E) (ga_exact (gw_cache gw)) t v k e w1 = (xc', w2)" for sha t v k e w1 xc' w2
  proof -
    obtain u w3 where s: "r_setex (env_redis E) (exact_key sha (ga_exact (gw_cache gw)) t v k)
        (xc_ttl_seconds (ga_exact (gw_cache gw))) (to_json e) w1 = (Some u, w3)"
      using env_okD(6) [OF assms(1)] unfolding strings_return_def by (metis not_None_eq prod.collapse)
    have v: "view w3 = (view w1)(exact_key sha (ga_exact (gw_cache gw)) t v k \<mapsto> RDoc (to_json e))"
      by (rule string_lawsD(2) [OF env_okD(3) [OF assms(1)] s])
    have "budgets view ?q w3 = budgets view ?q w1"
      using assms(2) by (intro budgets_upd_other [OF v]) (simp add: prefixes_apart_def exact_key_def Let_def)
    with that s show ?thesis by (auto simp: exact_set_def split: if_splits)
  qed
  moreover have "budgets view ?q (snd (ledger_record (env_ledger E) s w)) = budgets view ?q w" for s w
    by (rule budgets_same) (rule led)
  ultimately show ?thesis
    by (auto simp: after_success_def quota_keeps_def shape_def gw_catalog_def Let_def split: prod.splits)
qed

section \<open>Accounting\<close>

definition charged :: "string list \<Rightarrow> usd \<Rightarrow> (string \<Rightarrow> budget) \<Rightarrow> string \<Rightarrow> budget" where
  "charged ks usd B k = (if k \<in> set ks then (fst (B k), snd (B k) + usd) else B k)"

definition reservation_ok :: "quota_reservation option \<Rightarrow> usd \<Rightarrow> string list \<Rightarrow> bool" where
  "reservation_ok res est ks \<longleftrightarrow> distinct ks \<and>
     (case res of None \<Rightarrow> ks = [] | Some r \<Rightarrow> qr_keys r = ks \<and> qr_estimated_usd r = est)"

text \<open>What \<open>reserve\<close> leaves behind when Redis answers.\<close>

lemma reserve_loop_never_breaks:
  assumes "redis_returns R" and "set levels \<subseteq> set quota_levels"
  shows "\<not> (\<exists>ks' alerts' w'. reserve_loop R cfg ql tenant surface user est window levels ls ks alerts w = (Broke ks', alerts', w'))"
  using assms(2)
proof (induction levels arbitrary: ls ks alerts w)
  case (Cons l levels)
  obtain k where "level_key cfg l tenant surface user window = Some k" using Cons.prems level_key_some by (metis list.set_intros(1) subsetD)
  moreover obtain ok projected w1 where "reserve_script R k (level_limit ql l) est w = (Some (ok, projected), w1)"
    using scripts_return(1) [OF assms(1)] by (metis not_None_eq prod.collapse)
  moreover have "set levels \<subseteq> set quota_levels" using Cons.prems by simp
  ultimately show ?case using Cons.IH by (auto simp: Let_def)
qed simp

lemma reserve_ok:
  assumes ok: "env_ok E view" and run: "quota_reserve (env_redis E) qs ql tenant surface user est rid window fresh w = (Inr res, alerts, qs', w')"
  shows "\<exists>ks. reservation_ok res est ks \<and> budget_at (view w') = raise_reserved est ks (budget_at (view w)) \<and>
    qs_config qs' = qs_config qs \<and> qs_redis_available qs' = qs_redis_available qs \<and> (res \<noteq> None \<longrightarrow> qs_redis_available qs) \<and>
    ks = (if 0 < est \<and> qs_redis_available qs then map (lkey (qs_config qs) tenant surface user window) (bounded_levels ql) else [])"
proof (cases "0 < est \<and> qs_redis_available qs")
  case True
  obtain out as w1 where l: "reserve_loop (env_redis E) (qs_config qs) ql tenant surface user est window quota_levels [] [] [] w = (out, as, w1)"
    by (cases "reserve_loop (env_redis E) (qs_config qs) ql tenant surface user est window quota_levels [] [] [] w")
  from quota_loop_spec [OF env_okD(1) [OF ok] l] reserve_loop_never_breaks [OF env_okD(4) [OF ok], of quota_levels] l run True
  show ?thesis
    by (cases out) (auto simp: quota_reserve_def reservation_ok_def bounded_keys_distinct)
next
  case False
  with run show ?thesis
    using raise_reserved_none [of "budget_at (view w)" est]
    by (auto simp: quota_reserve_def reservation_ok_def quota_log_degraded_def split: if_splits)
qed

lemma reconcile_settles:
  assumes ok: "env_ok E view" and res: "reservation_ok res est ks" and up: "res \<noteq> None \<longrightarrow> qs_redis_available qs"
    and nonneg: "\<And>k. 0 \<le> fst (B k)"
    and held: "budgets view p w = (\<lambda>x. raise_reserved est ks B (p @ x))"
    and run: "quota_reconcile (env_redis E) qs res usd w = (qs', w')"
  shows "budgets view p w' = (\<lambda>x. charged ks usd B (p @ x)) \<and> qs' = qs"
proof (cases "ks = []")
  case True
  with res run held show ?thesis
    by (auto simp: reservation_ok_def quota_reconcile_def raise_reserved_def charged_def split: option.splits)
next
  case False
  then obtain r where r: "res = Some r" "qr_keys r = ks" "qr_estimated_usd r = est" "distinct ks"
    using res by (auto simp: reservation_ok_def split: option.splits)
  obtain u w1 where k: "reconcile_keys (env_redis E) ks est usd w = (Some u, w1)"
    using scripts_return(3) [OF env_okD(4) [OF ok]] by (metis not_None_eq prod.collapse)
  have w': "w' = w1" "qs' = qs" using run k r False up by (auto simp: quota_reconcile_def)
  have "budget_at (view w) (p @ x) = raise_reserved est ks B (p @ x)" for x
    using held by (simp add: budgets_def fun_eq_iff)
  then show ?thesis
    using reconcile_keys_refines [OF env_okD(1) [OF ok] k r(4)] settle_undoes_raise [OF nonneg] w'
    by (auto simp: budgets_def fun_eq_iff charged_def raise_reserved_def)
qed

lemma release_settles:
  assumes ok: "env_ok E view" and res: "reservation_ok res est ks" and up: "res \<noteq> None \<longrightarrow> qs_redis_available qs"
    and nonneg: "\<And>k. 0 \<le> fst (B k)"
    and held: "budgets view p w = (\<lambda>x. raise_reserved est ks B (p @ x))"
  shows "budgets view p (snd (quota_release (env_redis E) qs res w)) = (\<lambda>x. B (p @ x))"
proof (cases "ks = []")
  case True
  with res held show ?thesis
    by (auto simp: reservation_ok_def quota_release_def raise_reserved_def split: option.splits)
next
  case False
  then obtain r where "res = Some r" "qr_keys r = ks" using res by (auto simp: reservation_ok_def split: option.splits)
  with reconcile_settles [OF ok res up nonneg held, of 0] False show ?thesis
    by (cases "quota_reconcile (env_redis E) qs res 0 w") (auto simp: quota_release_def charged_def)
qed

lemma settle_success_charges:
  assumes ok: "env_ok E view" and apart: "prefixes_apart gw" and res: "reservation_ok res est ks"
    and up: "res \<noteq> None \<longrightarrow> qs_redis_available (gw_quota gw)" and nonneg: "\<And>k. 0 \<le> fst (B k)"
    and p: "p = qc_prefix (qs_config (gw_quota gw))" and held: "budgets view p w = (\<lambda>x. raise_reserved est ks B (p @ x))"
    and run: "settle_success E rq cfg res d r gw w = (gw', w')"
  shows "budgets view p w' = (\<lambda>x. charged ks (result_usd gw r) B (p @ x))"
proof -
  obtain cc w1 where s: "record_success (env_redis E) (gw_cooldowns gw) (fst d) (snd d) w = (cc, w1)"
    by (cases "record_success (env_redis E) (gw_cooldowns gw) (fst d) (snd d) w")
  note k1 = record_success_keeps [OF ok apart s]
  obtain qs w2 where q: "quota_reconcile (env_redis E) (gw_quota gw) res (result_usd gw r) w1 = (qs, w2)"
    by (cases "quota_reconcile (env_redis E) (gw_quota gw) res (result_usd gw r) w1")
  have k2: "budgets view p w2 = (\<lambda>x. charged ks (result_usd gw r) B (p @ x))" "qs = gw_quota gw"
    using reconcile_settles [OF ok res up nonneg _ q] k1(2) held p by simp_all
  let ?gw = "gw\<lparr>gw_cooldowns := cc, gw_quota := qs\<rparr>"
  have "prefixes_apart ?gw" using apart k1(1) k2(2) by (simp add: prefixes_apart_def)
  from after_success_keeps [OF ok this, of w2 rq cfg r] run s q k2 p show ?thesis
    by (simp add: settle_success_def quota_keeps_def)
qed

lemma chain_loop_charges:
  assumes "chain_loop E rq tenant cfg key res cat chain seen ds err gw w = (out, gw', w')"
    and ok: "env_ok E view" and "prefixes_apart gw" and res: "reservation_ok res est ks"
    and "res \<noteq> None \<longrightarrow> qs_redis_available (gw_quota gw)" and nonneg: "\<And>k. 0 \<le> fst (B k)"
    and "p = qc_prefix (qs_config (gw_quota gw))" and "budgets view p w = (\<lambda>x. raise_reserved est ks B (p @ x))"
  shows "case out of
           Answered r \<Rightarrow> budgets view p w' = (\<lambda>x. charged ks (result_usd gw r) B (p @ x))
         | Exhausted _ _ \<Rightarrow> budgets view p w' = (\<lambda>x. raise_reserved est ks B (p @ x)) \<and> shape gw' = shape gw"
  using assms
proof (induction E rq tenant cfg key res cat chain seen ds err gw w rule: chain_loop.induct)
  case (2 E rq tenant cfg key res cat chain seen d ds err gw w)
  show ?case
  proof (cases "d \<in> set seen")
    case True
    with 2(3) have "chain_loop E rq tenant cfg key res cat chain seen ds err gw w = (out, gw', w')" by simp
    from 2(1) [OF True this 2(4-)] show ?thesis .
  next
    case False
    obtain a gw1 w1 where at: "attempt E rq tenant key d gw w = (a, gw1, w1)" by (cases "attempt E rq tenant key d gw w")
    have k1: "quota_keeps view gw w (gw1, w1)" using attempt_keeps [OF 2(4), of gw w rq tenant key d] at by simp
    have 1: "prefixes_apart gw1" "res \<noteq> None \<longrightarrow> qs_redis_available (gw_quota gw1)" "p = qc_prefix (qs_config (gw_quota gw1))"
        "budgets view p w1 = (\<lambda>x. raise_reserved est ks B (p @ x))" "result_usd gw1 = result_usd gw"
      using keeps_result [OF k1] 2(5,7,9,10) by simp_all
    show ?thesis
    proof (cases a)
      case (Inr r)
      obtain gw2 w2 where ss: "settle_success E rq cfg res d r gw1 w1 = (gw2, w2)" by (cases "settle_success E rq cfg res d r gw1 w1")
      from settle_success_charges [OF 2(4) 1(1) 2(6) 1(2) 2(8) 1(3,4) ss] 2(3) at False Inr ss 1(5) show ?thesis by auto
    next
      case (Inl e)
      obtain gw2 w2 where nf: "note_failure E d gw1 w1 = (gw2, w2)" by (cases "note_failure E d gw1 w1")
      have k2: "quota_keeps view gw1 w1 (gw2, w2)" using note_failure_keeps [OF 2(4) 1(1), of w1 d] nf by simp
      have run: "chain_loop E rq tenant cfg key res cat chain (seen @ [d])
          (filter (\<lambda>t. t \<notin> set (seen @ [d])) (targets cat chain (pe_class e))) (Some e) gw2 w2 = (out, gw', w')"
        using 2(3) False at Inl nf by simp
      have "prefixes_apart gw2" "res \<noteq> None \<longrightarrow> qs_redis_available (gw_quota gw2)" "p = qc_prefix (qs_config (gw_quota gw2))"
        "budgets view p w2 = (\<lambda>x. raise_reserved est ks B (p @ x))" "result_usd gw2 = result_usd gw" "shape gw2 = shape gw"
        using keeps_result [OF k1] keeps_result [OF k2] 1 by simp_all
      with 2(2) [OF False at [symmetric] Inl refl nf [symmetric] run 2(4) _ 2(6) _ 2(8)] show ?thesis by (auto split: chain_end.splits)
    qed
  qed
qed (auto split: chain_end.splits)

lemma execute_chain_charges:
  assumes run: "execute_chain E rq tenant cfg key res gw w = (out, gw', w')"
    and ok: "env_ok E view" and apart: "prefixes_apart gw" and res: "reservation_ok res est ks"
    and up: "res \<noteq> None \<longrightarrow> qs_redis_available (gw_quota gw)" and nonneg: "\<And>k. 0 \<le> fst (B k)"
    and p: "p = qc_prefix (qs_config (gw_quota gw))" and held: "budgets view p w = (\<lambda>x. raise_reserved est ks B (p @ x))"
  shows "case out of
           Inr r \<Rightarrow> budgets view p w' = (\<lambda>x. charged ks (result_usd gw r) B (p @ x)) \<and> \<not> gr_cached r
         | Inl e \<Rightarrow> budgets view p w' = (\<lambda>x. B (p @ x)) \<and> (\<forall>m. e \<noteq> GatewayConfigurationError m)"
proof -
  obtain dec gw1 w1 where d: "gw_decide E gw rq cfg w = (dec, gw1, w1)" by (cases "gw_decide E gw rq cfg w")
  let ?chain = "build_fallback_chain rq (candidates (gw_router gw1) rq cfg) cfg (Some (get_or (gc_cross_family_fallback cfg) True))"
  let ?d = "(rd_provider dec, rd_model dec)"
  obtain lo gw2 w2 where l: "chain_loop E rq tenant cfg key res (gw_chain_catalog gw1) ?chain [] [?d] None gw1 w1 = (lo, gw2, w2)"
    by (cases "chain_loop E rq tenant cfg key res (gw_chain_catalog gw1) ?chain [] [?d] None gw1 w1")
  have "quota_keeps view gw w (gw1, w1)" using decide_keeps [OF ok, of gw w rq cfg] d by simp
  note k = keeps_result [OF this]
  have pre: "prefixes_apart gw1" "res \<noteq> None \<longrightarrow> qs_redis_available (gw_quota gw1)" "p = qc_prefix (qs_config (gw_quota gw1))"
    "budgets view p w1 = (\<lambda>x. raise_reserved est ks B (p @ x))" using k apart up p held by simp_all
  note ch = chain_loop_charges [OF l ok pre(1) res pre(2) nonneg pre(3,4)]
  have inv: "loop_inv (gw_chain_catalog gw1) ?chain ({?d} \<union> set (all_targets (gw_chain_catalog gw1) ?chain)) [] [?d] None"
    by (auto simp: loop_inv_def)
  note sp = chain_loop_spec [OF l inv]
  show ?thesis
  proof (cases lo)
    case (Answered r)
    with ch sp run d l k(4) show ?thesis by (auto simp: execute_chain_def answered_from_def)
  next
    case (Exhausted err seen)
    have up2: "res \<noteq> None \<longrightarrow> qs_redis_available (gw_quota gw2)" using ch Exhausted pre(2) by (simp add: shape_def)
    have "budgets view p w2 = (\<lambda>x. raise_reserved est ks B (p @ x))" using ch Exhausted by simp
    note rel = release_settles [OF ok res up2 nonneg this]
    obtain e where "err = Some e" using sp Exhausted by (auto simp: loop_inv_def)
    with rel run d l Exhausted show ?thesis by (auto simp: execute_chain_def split: prod.splits)
  qed
qed

definition gw_estimate :: "gateway \<Rightarrow> gateway_request \<Rightarrow> gateway_cfg \<Rightarrow> usd" where
  "gw_estimate gw rq cfg = estimate_max_spend gw (candidates (gw_router gw) rq (with_defaults cfg)) rq"

definition reserved_keys :: "gateway \<Rightarrow> gateway_request \<Rightarrow> string \<Rightarrow> gateway_cfg \<Rightarrow> string \<Rightarrow> string list" where
  "reserved_keys gw rq tenant cfg window =
     (if 0 < gw_estimate gw rq cfg \<and> qs_redis_available (gw_quota gw)
      then map (lkey (qs_config (gw_quota gw)) tenant (rq_surface_id rq) (rq_end_user_id rq) window)
             (bounded_levels (quota_limits_from_cfg (with_defaults cfg)))
      else [])"

lemma generate_accounts:
  assumes ok: "env_ok E view" and apart: "prefixes_apart gw" and nonneg: "\<And>k. 0 \<le> fst (budget_at (view w) k)"
    and run: "generate E rq tenant cfg window fresh gw w = (out, gw', w')"
    and p: "p = qc_prefix (qs_config (gw_quota gw))" and ks: "ks = reserved_keys gw rq tenant cfg window"
    and B: "B = budget_at (view w)"
  shows "case out of
           Inr r \<Rightarrow> budgets view p w' = (\<lambda>x. charged ks (if gr_cached r then 0 else result_usd gw r) B (p @ x))
         | Inl (GatewayConfigurationError _) \<Rightarrow> budgets view p w' = (\<lambda>x. raise_reserved (gw_estimate gw rq cfg) ks B (p @ x))
         | Inl _ \<Rightarrow> budgets view p w' = (\<lambda>x. B (p @ x))"
proof -
  let ?cfg = "with_defaults cfg" and ?est = "gw_estimate gw rq cfg"
  obtain rr as qs w1 where r: "quota_reserve (env_redis E) (gw_quota gw) (quota_limits_from_cfg ?cfg) tenant (rq_surface_id rq)
      (rq_end_user_id rq) ?est (rq_request_id rq) window fresh w = (rr, as, qs, w1)" by (metis prod.collapse)
  show ?thesis
  proof (cases rr)
    case (Inl e)
    note rej = reject_spec [OF env_okD(1) [OF ok] env_okD(4) [OF ok] nonneg r [unfolded Inl]]
    then have "budgets view p w1 = (\<lambda>x. B (p @ x))" by (simp add: budgets_def B fun_eq_iff)
    moreover have "\<exists>l li pr. e = GatewayQuotaExceeded l li pr" using rej by blast
    ultimately show ?thesis using run r Inl by (auto simp: generate_def gw_estimate_def Let_def)
  next
    case (Inr res)
    have res: "reservation_ok res ?est ks" "budget_at (view w1) = raise_reserved ?est ks B"
      "qs_config qs = qs_config (gw_quota gw)" "qs_redis_available qs = qs_redis_available (gw_quota gw)"
      "res \<noteq> None \<longrightarrow> qs_redis_available qs"
      using reserve_ok [OF ok r [unfolded Inr]] by (auto simp: B ks reserved_keys_def)
    let ?gw = "gw\<lparr>gw_quota := qs\<rparr>"
    obtain hit gw1 w2 where c: "cache_lookup E rq tenant ?cfg ?gw w1 = (hit, gw1, w2)" by (cases "cache_lookup E rq tenant ?cfg ?gw w1")
    have "quota_keeps view ?gw w1 (gw1, w2)" using lookup_keeps [OF ok, of ?gw w1 rq tenant ?cfg] c by simp
    note k = keeps_result [OF this]
    have same: "result_usd gw1 = result_usd gw" using k(4) by (simp add: result_usd_def gw_catalog_def fun_eq_iff)
    have apart1: "prefixes_apart gw1" using k(1) apart res(3) by (simp add: prefixes_apart_def)
    have up1: "res \<noteq> None \<longrightarrow> qs_redis_available (gw_quota gw1)" using k(2) res(5) by simp
    have held: "budgets view p w2 = (\<lambda>x. raise_reserved ?est ks B (p @ x))"
      using k(6) res(2,3) p by (simp add: budgets_def fun_eq_iff)
    show ?thesis
    proof (cases hit)
      case (Some entry)
      obtain qs1 w3 where q: "quota_release (env_redis E) (gw_quota gw1) res w2 = (qs1, w3)" by (cases "quota_release (env_redis E) (gw_quota gw1) res w2")
      have "budgets view p w3 = (\<lambda>x. B (p @ x))"
        using release_settles [OF ok res(1) up1 _ held] q nonneg B by simp
      moreover have "(\<lambda>x. charged ks 0 B (p @ x)) = (\<lambda>x. B (p @ x))" by (auto simp: charged_def fun_eq_iff)
      ultimately show ?thesis using run r Inr c Some q
        by (auto simp: generate_def gw_estimate_def Let_def from_cache_def)
    next
      case None
      obtain kr w3 where kr: "env_resolve_key E w2 = (kr, w3)" by (cases "env_resolve_key E w2")
      have "budgets view p w3 = budgets view p w2" by (rule budgets_same) (use env_okD(9) [OF ok, of w2] kr in simp)
      with held have held3: "budgets view p w3 = (\<lambda>x. raise_reserved ?est ks B (p @ x))" by simp
      show ?thesis
      proof (cases kr)
        case (Inl m)
        with run r Inr c None kr held3 show ?thesis by (auto simp: generate_def gw_estimate_def Let_def)
      next
        case (Inr key)
        have x: "execute_chain E rq tenant ?cfg key res gw1 w3 = (out, gw', w')"
          using run r \<open>rr = Inr res\<close> c None kr Inr by (simp add: generate_def gw_estimate_def Let_def)
        have p1: "p = qc_prefix (qs_config (gw_quota gw1))" using k(3) res(3) p by simp
        from execute_chain_charges [OF x ok apart1 res(1) up1 _ p1 held3] nonneg B same show ?thesis
          by (auto split: sum.splits gateway_error.splits)
      qed
    qed
  qed
qed

section \<open>Correctness\<close>

definition sample_response :: llm_response where
  "sample_response = \<lparr>lr_content = ''hello'', lr_model = [], lr_usage = no_usage\<lparr>us_input_tokens := 1000, us_output_tokens := 1000\<rparr>,
     lr_finish_reason = Some ''stop'', lr_tool_calls = None\<rparr>"

definition sample_env :: "(string + llm_response) \<Rightarrow> (string + string) \<Rightarrow> store gw_env" where
  "sample_env answer key = \<lparr>env_redis = sole_redis, env_chat = (\<lambda>_ _ w. (answer, 10, w)), env_resolve_key = (\<lambda>w. (key, w)),
     env_ledger = \<lparr>li_enqueue = None, li_add = Some (\<lambda>_ w. (Some (), w))\<rparr>, env_sha256 = sample_hash, env_dumps = (\<lambda>_. ''req'')\<rparr>"

definition sample_gateway :: gateway where
  "sample_gateway = \<lparr>gw_router = default_router sample_catalog, gw_chain_catalog = sample_catalog,
     gw_cooldowns = sample_cooldowns, gw_quota = sample_service, gw_cache = live_cache, gw_adapters = []\<rparr>"

definition costed_request :: gateway_request where
  "costed_request = sample_request\<lparr>rq_estimated_input_tokens := Some 1000\<rparr>"

definition capped_cfg :: gateway_cfg where
  "capped_cfg = empty_cfg\<lparr>gc_quota_tenant_usd := Some 50\<rparr>"

lemma sample_env_ok: "env_ok (sample_env answer key) map_of"
proof -
  have "strings_return sole_redis" by (simp add: strings_return_def mem_redis_def)
  then show ?thesis
    using sole_hash_laws sole_counter_laws sole_string_laws sole_returns sole_counters_return
    by (simp add: env_ok_def sample_env_def ledger_frame_def)
qed

lemma sample_apart: "prefixes_apart sample_gateway"
  by (simp add: prefixes_apart_def sample_gateway_def sample_service_def quota_default_config_def sample_cooldowns_def
      cd_default_config_def live_cache_def live_exact_def default_exact_cache_def)

text \<open>C3: End to end, with Redis answering and no provider call writing the gateway's keys, the budgets after a call of \<open>generate\<close> are
  determined by its outcome: when it answers, every budget level it reserved has its reserved amount back and is charged the cost of the
  answer (nothing for a cached one); when it fails with a quota or a chain error every budget is as before; and when it fails with a
  configuration error (no key) the reservation is not given back: each level it reserved keeps the estimate in its reserved amount.\<close>

theorem generate_settles_budgets:
  assumes "env_ok E view" and "prefixes_apart gw" and "\<And>k. 0 \<le> fst (budget_at (view w) k)"
  shows "case generate E rq tenant cfg window fresh gw w of
           (Inr r, _, w') \<Rightarrow> budgets view (qc_prefix (qs_config (gw_quota gw))) w' =
             (\<lambda>x. charged (reserved_keys gw rq tenant cfg window) (if gr_cached r then 0 else result_usd gw r)
                    (budget_at (view w)) (qc_prefix (qs_config (gw_quota gw)) @ x))
         | (Inl (GatewayConfigurationError _), _, w') \<Rightarrow> budgets view (qc_prefix (qs_config (gw_quota gw))) w' =
             (\<lambda>x. raise_reserved (gw_estimate gw rq cfg) (reserved_keys gw rq tenant cfg window) (budget_at (view w))
                    (qc_prefix (qs_config (gw_quota gw)) @ x))
         | (Inl _, _, w') \<Rightarrow> budgets view (qc_prefix (qs_config (gw_quota gw))) w' = budgets view (qc_prefix (qs_config (gw_quota gw))) w"
proof -
  obtain out gw' w' where g: "generate E rq tenant cfg window fresh gw w = (out, gw', w')"
    by (cases "generate E rq tenant cfg window fresh gw w")
  from generate_accounts [OF assms g refl refl refl] g show ?thesis
    by (auto simp: budgets_def fun_eq_iff split: sum.splits gateway_error.splits)
qed

theorem generate_settles_budgets_witness:
  "case generate (sample_env (Inr sample_response) (Inr ''sk'')) costed_request ''acme'' capped_cfg ''2026-01'' ''ab12'' sample_gateway [] of
     (Inr r, _, w') \<Rightarrow> budgets map_of ''neryva:gateway:quota:'' w' ''t:acme:2026-01'' = (0, result_usd sample_gateway r)
   | _ \<Rightarrow> False"
proof -
  let ?g = "generate (sample_env (Inr sample_response) (Inr ''sk'')) costed_request ''acme'' capped_cfg ''2026-01'' ''ab12'' sample_gateway []"
  have r: "case fst ?g of Inr r \<Rightarrow> \<not> gr_cached r | _ \<Rightarrow> False" by code_simp
  have k: "''neryva:gateway:quota:t:acme:2026-01'' \<in> set (reserved_keys sample_gateway costed_request ''acme'' capped_cfg ''2026-01'')"
    by code_simp
  have p: "qc_prefix (qs_config (gw_quota sample_gateway)) = ''neryva:gateway:quota:''"
    by (simp add: sample_gateway_def sample_service_def quota_default_config_def)
  from generate_settles_budgets [OF sample_env_ok [of "Inr sample_response" "Inr ''sk''"] sample_apart, where w = "[]" and rq = costed_request and tenant = "''acme''" and cfg = capped_cfg
      and window = "''2026-01''" and fresh = "''ab12''"] r k
  show ?thesis
    by (auto simp: p fun_eq_iff charged_def budget_at_def hash_at_def get_or_def split: prod.splits sum.splits)
qed

text \<open>When the key resolver fails, \<open>generate\<close> raises without releasing: every budget it reserved keeps the
  estimate in its reserved amount.\<close>

theorem key_failure_leaks_reservation:
  assumes "env_ok E view" and "prefixes_apart gw" and "\<And>k. 0 \<le> fst (budget_at (view w) k)"
    and "generate E rq tenant cfg window fresh gw w = (Inl (GatewayConfigurationError m), gw', w')"
  shows "budgets view (qc_prefix (qs_config (gw_quota gw))) w' =
    (\<lambda>x. raise_reserved (gw_estimate gw rq cfg) (reserved_keys gw rq tenant cfg window) (budget_at (view w))
           (qc_prefix (qs_config (gw_quota gw)) @ x))"
  using generate_accounts [OF assms refl refl refl] by simp

theorem key_failure_leaks_reservation_witness:
  "budgets map_of ''neryva:gateway:quota:'' (snd (snd (generate (sample_env (Inr sample_response) (Inl ''no key''))
     costed_request ''acme'' capped_cfg ''2026-01'' ''ab12'' sample_gateway []))) ''t:acme:2026-01''
   = (gw_estimate sample_gateway costed_request capped_cfg, 0)"
proof -
  let ?g = "generate (sample_env (Inr sample_response) (Inl ''no key'')) costed_request ''acme'' capped_cfg ''2026-01'' ''ab12'' sample_gateway []"
  have "fst ?g = Inl (GatewayConfigurationError ''no key'')" by code_simp
  then have g: "?g = (Inl (GatewayConfigurationError ''no key''), fst (snd ?g), snd (snd ?g))" by (metis prod.collapse)
  have k: "''neryva:gateway:quota:t:acme:2026-01'' \<in> set (reserved_keys sample_gateway costed_request ''acme'' capped_cfg ''2026-01'')"
    by code_simp
  have p: "qc_prefix (qs_config (gw_quota sample_gateway)) = ''neryva:gateway:quota:''"
    by (simp add: sample_gateway_def sample_service_def quota_default_config_def)
  from key_failure_leaks_reservation [OF sample_env_ok sample_apart _ g] k show ?thesis
    by (simp add: p fun_eq_iff raise_reserved_def budget_at_def hash_at_def get_or_def)
qed

definition chain_of :: "gateway \<Rightarrow> gateway_request \<Rightarrow> gateway_cfg \<Rightarrow> fallback_chain" where
  "chain_of gw rq cfg = build_fallback_chain rq (candidates (gw_router gw) rq cfg) cfg (Some (get_or (gc_cross_family_fallback cfg) True))"

lemma decide_router: "gw_decide E gw rq cfg w = (dec, gw1, w1) \<Longrightarrow> gw_router gw1 = gw_router gw \<and> gw_chain_catalog gw1 = gw_chain_catalog gw \<and>
    (rd_provider dec, rd_model dec) \<in> set (candidates (gw_router gw) rq cfg)"
  using decide_in_candidates by (auto simp: gw_decide_def split: prod.splits)

text \<open>
  A run of attempts that all fail: each is made in the state the one before left, and its failure is noted before the next.
\<close>

inductive failed_run ::
  "'w gw_env \<Rightarrow> gateway_request \<Rightarrow> string \<Rightarrow> string \<Rightarrow> gateway \<times> 'w \<Rightarrow> (deployment \<times> provider_error) list \<Rightarrow> gateway \<times> 'w \<Rightarrow> bool"
  for E rq tenant key where
  none: "failed_run E rq tenant key s [] s"
| more: "attempt E rq tenant key d gw w = (Inl e, gw1, w1) \<Longrightarrow> failed_run E rq tenant key (note_failure E d gw1 w1) run s
         \<Longrightarrow> failed_run E rq tenant key (gw, w) ((d, e) # run) s"

lemma chain_loop_runs:
  assumes "chain_loop E rq tenant cfg key res cat chain seen ds err gw w = (Exhausted err' seen', gw', w')"
  shows "\<exists>run. failed_run E rq tenant key (gw, w) run (gw', w') \<and> seen' = seen @ map fst run
           \<and> err' = (if run = [] then err else Some (snd (last run)))"
  using assms
proof (induction E rq tenant cfg key res cat chain seen ds err gw w rule: chain_loop.induct)
  case (1 E rq tenant cfg key res cat chain seen err gw w)
  then show ?case by (intro exI [of _ "[]"]) (auto intro: failed_run.none)
next
  case (2 E rq tenant cfg key res cat chain seen d ds err gw w)
  show ?case
  proof (cases "d \<in> set seen")
    case True
    with 2(3) have "chain_loop E rq tenant cfg key res cat chain seen ds err gw w = (Exhausted err' seen', gw', w')" by simp
    from 2(1) [OF True this] show ?thesis .
  next
    case False
    obtain a gw1 w1 where at: "attempt E rq tenant key d gw w = (a, gw1, w1)" by (cases "attempt E rq tenant key d gw w")
    obtain e where e: "a = Inl e" using 2(3) False at by (cases a) (auto split: prod.splits)
    obtain gw2 w2 where nf: "note_failure E d gw1 w1 = (gw2, w2)" by (cases "note_failure E d gw1 w1")
    have "chain_loop E rq tenant cfg key res cat chain (seen @ [d])
        (filter (\<lambda>t. t \<notin> set (seen @ [d])) (targets cat chain (pe_class e))) (Some e) gw2 w2 = (Exhausted err' seen', gw', w')"
      using 2(3) False at e nf by simp
    from 2(2) [OF False at [symmetric] e refl nf [symmetric] this]
    obtain run where "failed_run E rq tenant key (gw2, w2) run (gw', w')" "seen' = (seen @ [d]) @ map fst run"
      "err' = (if run = [] then Some e else Some (snd (last run)))" by blast
    then show ?thesis using failed_run.more [of E rq tenant key d gw w e gw1 w1 run "(gw', w')"] at e nf by (intro exI [of _ "(d, e) # run"]) auto
  qed
qed

lemma chain_loop_extends:
  "chain_loop E rq tenant cfg key res cat chain seen ds err gw w = (Exhausted err' seen', gw', w') \<Longrightarrow> \<exists>more. seen' = seen @ more"
  by (drule chain_loop_runs) blast

lemma first_attempt:
  assumes "chain_loop E rq tenant cfg key res cat chain [] [d] err gw w = (Exhausted err' seen', gw', w')"
  shows "hd seen' = d"
proof -
  obtain a gw1 w1 where at: "attempt E rq tenant key d gw w = (a, gw1, w1)" by (cases "attempt E rq tenant key d gw w")
  obtain e where e: "a = Inl e" using assms at by (cases a) (auto split: prod.splits)
  have "chain_loop E rq tenant cfg key res cat chain [d] (filter (\<lambda>t. t \<noteq> d) (targets cat chain (pe_class e))) (Some e)
      (fst (note_failure E d gw1 w1)) (snd (note_failure E d gw1 w1)) = (Exhausted err' seen', gw', w')"
    using assms by (simp add: at e case_prod_beta del: chain_loop.simps(1))
  from chain_loop_extends [OF this] show ?thesis by auto
qed

text \<open>C9: A chain-exhausted error is the end of a run of failed attempts, each really made in the state its predecessor left, from the
  routed deployment on: the error counts them, names the last deployment and the message and class of its failure; no deployment was
  attempted twice, every fallback target of that last class was attempted, and the state returned is the one the last attempt left,
  with the reservation released.\<close>

theorem exhausted_chain_tried_all:
  assumes "execute_chain E rq tenant cfg key res gw w = (Inl (GatewayChainExhausted p m reason cls n), gw', w')"
  shows "\<exists>run gw2 w2. failed_run E rq tenant key (snd (gw_decide E gw rq cfg w)) run (gw2, w2)
           \<and> (gw', w') = (case quota_release (env_redis E) (gw_quota gw2) res w2 of (qs, w3) \<Rightarrow> (gw2\<lparr>gw_quota := qs\<rparr>, w3))
           \<and> distinct (map fst run) \<and> length run = n \<and> n \<noteq> 0
           \<and> fst (hd run) = (rd_provider (fst (gw_decide E gw rq cfg w)), rd_model (fst (gw_decide E gw rq cfg w)))
           \<and> fst (last run) = (p, m) \<and> pe_cause (snd (last run)) = reason \<and> cls = class_name (classify_failure reason)
           \<and> set (targets (gw_chain_catalog gw) (chain_of gw rq cfg) (classify_failure reason)) \<subseteq> set (map fst run)
           \<and> set (map fst run) \<subseteq> set (all_targets (gw_chain_catalog gw) (chain_of gw rq cfg))"
proof -
  obtain dec gw1 w1 where d: "gw_decide E gw rq cfg w = (dec, gw1, w1)" by (cases "gw_decide E gw rq cfg w")
  let ?cat = "gw_chain_catalog gw" and ?d = "(rd_provider dec, rd_model dec)"
  have same: "gw_router gw1 = gw_router gw" "gw_chain_catalog gw1 = gw_chain_catalog gw" using decide_router [OF d] by simp_all
  obtain err seen gw2 w2 where l: "chain_loop E rq tenant cfg key res ?cat (chain_of gw rq cfg) [] [?d] None gw1 w1 = (Exhausted err seen, gw2, w2)"
      and out: "(case err of None \<Rightarrow> GatewayConfigurationError ''no deployments to try''
        | Some e \<Rightarrow> GatewayChainExhausted (pe_provider e) (pe_model e) (pe_cause e) (class_name (pe_class e)) (length seen))
        = GatewayChainExhausted p m reason cls n"
      and rel: "(gw', w') = (case quota_release (env_redis E) (gw_quota gw2) res w2 of (qs, w3) \<Rightarrow> (gw2\<lparr>gw_quota := qs\<rparr>, w3))"
    using assms d by (auto simp: execute_chain_def chain_of_def same Let_def simp del: chain_loop.simps split: prod.splits chain_end.splits)
  have "?d \<in> set (targets ?cat (chain_of gw rq cfg) General)"
    using decide_router [OF d] by (simp add: targets_def chain_of_def build_fallback_chain_def)
  then have "loop_inv ?cat (chain_of gw rq cfg) (set (all_targets ?cat (chain_of gw rq cfg))) [] [?d] None"
    using targets_in_all by (auto simp: loop_inv_def)
  from chain_loop_spec [OF l this] have inv: "loop_inv ?cat (chain_of gw rq cfg) (set (all_targets ?cat (chain_of gw rq cfg))) seen [] err" by simp
  obtain run where r: "failed_run E rq tenant key (gw1, w1) run (gw2, w2)" "seen = map fst run" "err = (if run = [] then None else Some (snd (last run)))"
    using chain_loop_runs [OF l] by auto
  have ne: "run \<noteq> []" and e: "err = Some (snd (last run))" using out r(3) by (auto split: option.splits)
  have hd: "fst (hd run) = ?d" using first_attempt [OF l] r(2) ne by (simp add: hd_map)
  show ?thesis
    using r(1,2) ne inv out e hd rel
    by (intro exI [of _ run] exI [of _ gw2] exI [of _ w2]) (auto simp: d loop_inv_def last_map)
qed

definition failing_chain :: "(gateway_error + gateway_result) \<times> gateway \<times> store" where
  "failing_chain = execute_chain (sample_env (Inl ''boom'') (Inr ''sk'')) costed_request ''acme'' (with_defaults capped_cfg) ''sk'' None sample_gateway []"

theorem exhausted_chain_tried_all_witness:
  "\<exists>run s. failed_run (sample_env (Inl ''boom'') (Inr ''sk'')) costed_request ''acme'' ''sk''
       (snd (gw_decide (sample_env (Inl ''boom'') (Inr ''sk'')) sample_gateway costed_request (with_defaults capped_cfg) [])) run s
     \<and> length run = 2 \<and> fst (last run) = (''openai'', ''gpt-4o'')
     \<and> set (targets sample_catalog (chain_of sample_gateway costed_request (with_defaults capped_cfg)) (classify_failure ''boom'')) \<subseteq> set (map fst run)"
proof -
  have "fst failing_chain = Inl (GatewayChainExhausted ''openai'' ''gpt-4o'' ''boom'' ''general'' 2)" by code_simp
  then have "failing_chain = (Inl (GatewayChainExhausted ''openai'' ''gpt-4o'' ''boom'' ''general'' 2), fst (snd failing_chain), snd (snd failing_chain))"
    by (metis prod.collapse)
  from exhausted_chain_tried_all [OF this [unfolded failing_chain_def]] show ?thesis
    by (fastforce simp: sample_gateway_def)
qed

text \<open>A request served from the exact cache is answered without resolving a key and without calling a
  provider, and costs no attempt.\<close>

theorem cache_hit_calls_no_provider:
  assumes "generate E rq tenant cfg window fresh gw w = (Inr r, gw', w')" and "gr_cached r"
  shows "generate (E\<lparr>env_chat := chat, env_resolve_key := resolve\<rparr>) rq tenant cfg window fresh gw w = (Inr r, gw', w') \<and>
         gr_attempts r = 0 \<and> cacheable (with_defaults cfg) rq"
proof -
  have uncached: "\<not> gr_cached r" if x: "execute_chain E rq tenant c key res g u = (Inr r, g', u')" for c key res g u g' u'
  proof -
    obtain dec gw1 w1 where d: "gw_decide E g rq c u = (dec, gw1, w1)" by (cases "gw_decide E g rq c u")
    let ?d = "(rd_provider dec, rd_model dec)" and ?ch = "chain_of gw1 rq c"
    obtain gw2 w2 where l: "chain_loop E rq tenant c key res (gw_chain_catalog gw1) ?ch [] [?d] None gw1 w1 = (Answered r, gw2, w2)"
      using x d by (auto simp: execute_chain_def chain_of_def Let_def simp del: chain_loop.simps split: prod.splits chain_end.splits)
    have "loop_inv (gw_chain_catalog gw1) ?ch ({?d} \<union> set (all_targets (gw_chain_catalog gw1) ?ch)) [] [?d] None"
      by (auto simp: loop_inv_def)
    from chain_loop_spec [OF l this] show ?thesis by (simp add: answered_from_def)
  qed
  have lookup: "cache_lookup (E\<lparr>env_chat := chat, env_resolve_key := resolve\<rparr>) rq tenant c g u = cache_lookup E rq tenant c g u" for c g u
    by (simp add: cache_lookup_def)
  have hit: "cacheable c rq" if "cache_lookup E rq tenant c g u = (Some e, g', u')" for c g u e g' u'
    using that by (simp add: cache_lookup_def split: if_splits)
  show ?thesis
    using assms
    by (auto simp: generate_def Let_def lookup from_cache_def split: prod.splits sum.splits option.splits dest: uncached hit)
qed

definition primed_store :: store where
  "primed_store = snd (exact_set sample_hash sole_redis live_exact ''t1'' ''v1'' ''req'' sample_entry [])"

theorem cache_hit_calls_no_provider_witness:
  "\<exists>r. fst (generate (sample_env (Inl ''down'') (Inl ''no key'')) costed_request ''t1'' capped_cfg ''2026-01'' ''ab12'' sample_gateway primed_store) = Inr r \<and> gr_cached r"
proof -
  let ?E = "sample_env (Inr sample_response) (Inr ''sk'')"
  let ?g = "generate ?E costed_request ''t1'' capped_cfg ''2026-01'' ''ab12'' sample_gateway primed_store"
  have "case fst ?g of Inr r \<Rightarrow> gr_cached r | Inl _ \<Rightarrow> False" by code_simp
  then obtain r where r: "?g = (Inr r, fst (snd ?g), snd (snd ?g))" "gr_cached r"
    by (cases "fst ?g") (simp_all, metis prod.collapse)
  have "?E\<lparr>env_chat := (\<lambda>_ _ w. (Inl ''down'', 10, w)), env_resolve_key := (\<lambda>w. (Inl ''no key'', w))\<rparr> = sample_env (Inl ''down'') (Inl ''no key'')"
    by (simp add: sample_env_def)
  with cache_hit_calls_no_provider [OF r, where chat = "\<lambda>_ _ w. (Inl ''down'', 10, w)" and resolve = "\<lambda>w. (Inl ''no key'', w)"] r(2)
  show ?thesis by simp
qed

text \<open>The exact cache does not distinguish the provider, the model, the pin or the sampling parameters of a
  request: a request that differs in them only finds the same entry.\<close>

theorem cache_ignores_model:
  "cache_lookup E (rq\<lparr>rq_provider := p, rq_model := m, rq_pinned := d, rq_temperature := t, rq_max_tokens := k\<rparr>) tenant cfg gw w
     = cache_lookup E rq tenant cfg gw w"
proof -
  let ?rq = "rq\<lparr>rq_provider := p, rq_model := m, rq_pinned := d, rq_temperature := t, rq_max_tokens := k\<rparr>"
  have "cacheable cfg ?rq = cacheable cfg rq" "request_key (env_dumps E) ?rq = request_key (env_dumps E) rq"
    by (simp_all add: cacheable_def request_key_def)
  then show ?thesis unfolding cache_lookup_def by metis
qed

text \<open>Once a gateway holds an adapter for a tenant's deployment, later requests run on it with the key,
  temperature and token limit of the request that created it; only tools and output schema are refreshed.\<close>

theorem adapter_keeps_first_key:
  assumes "get_adapter gw tenant p m rq key = (Inr ad, gw1)"
  shows "\<exists>ad' gw2. get_adapter gw1 tenant p m rq' key' = (Inr ad', gw2) \<and> ad_api_key ad' = ad_api_key ad \<and>
           ad_temperature ad' = ad_temperature ad \<and> ad_max_tokens ad' = ad_max_tokens ad \<and>
           ad_tools ad' = rq_tools rq' \<and> ad_structured_output ad' = rq_structured_output rq'"
proof -
  have "map_of (gw_adapters gw1) (adapter_key tenant p m) = Some ad"
    using assms by (auto simp: get_adapter_def Let_def update_conv split: option.splits sum.splits)
  then show ?thesis by (simp add: get_adapter_def Let_def)
qed

theorem adapter_keeps_first_key_witness:
  "\<exists>ad' gw2. get_adapter (snd (get_adapter sample_gateway ''acme'' ''openai'' ''gpt-4o'' costed_request ''old''))
       ''acme'' ''openai'' ''gpt-4o'' costed_request ''rotated'' = (Inr ad', gw2) \<and> ad_api_key ad' = ''old''"
proof -
  let ?g = "get_adapter sample_gateway ''acme'' ''openai'' ''gpt-4o'' costed_request ''old''"
  obtain ad where a: "?g = (Inr ad, snd ?g)" "ad_api_key ad = ''old''"
    by (simp add: get_adapter_def default_adapter_factory_def llm_provider_types_def sample_gateway_def Let_def)
  from adapter_keeps_first_key [OF a(1), of costed_request "''rotated''"] a(2) show ?thesis by auto
qed

end
