(* ===== verification/Gateway_Stream.thy ===== *)
theory Gateway_Stream
  imports Gateway
begin

text \<open>
  The streaming path of the gateway (\<open>Gateway._stream_impl\<close> of \<open>gateway/service.py\<close>), run to its end by
  a consumer that reads every event. A provider stream is the list of events it yields and the
  message it raises after them, if any; \<open>loads\<close> is \<open>json.loads\<close> on tool arguments.
\<close>

section \<open>Definitions\<close>

datatype llm_event =
    LDelta string
  | LToolStart "nat option" string string
  | LToolDelta "nat option" string string string
  | LToolEnd "nat option" string string
  | LUsage "usage option"
  | LDone "string option" "usage option"
  | LError string
  | LOther

type_synonym 'w provider_stream = "adapter \<Rightarrow> chat_message list \<Rightarrow> 'w \<Rightarrow> (llm_event list \<times> string option) \<times> rat \<times> 'w"

record tool_entry =
  te_id :: string
  te_name :: string
  te_args :: string

definition empty_entry :: tool_entry where
  "empty_entry = \<lparr>te_id = [], te_name = [], te_args = []\<rparr>"

record stream_acc =
  sa_usage :: usage
  sa_finish_reason :: "string option"
  sa_parts :: "string list"
  sa_tools :: "(nat \<times> tool_entry) list"
  sa_emitted :: bool

definition fresh_acc :: "bool \<Rightarrow> stream_acc" where
  "fresh_acc emitted = \<lparr>sa_usage = no_usage, sa_finish_reason = None, sa_parts = [], sa_tools = [], sa_emitted = emitted\<rparr>"

definition decode_args :: "(string \<Rightarrow> json option) \<Rightarrow> string \<Rightarrow> (string \<times> json) list option" where
  "decode_args loads raw = (if raw = [] then Some [] else case loads raw of Some (JObj fs) \<Rightarrow> Some fs | _ \<Rightarrow> None)"

text \<open>The entry of a tool call with the identity an event carries written over it.\<close>

definition identify :: "string \<Rightarrow> string \<Rightarrow> tool_entry \<Rightarrow> tool_entry" where
  "identify i n e = e\<lparr>te_id := (if i = [] then te_id e else i), te_name := (if n = [] then te_name e else n)\<rparr>"

definition opt_truthy :: "string \<Rightarrow> string option" where
  "opt_truthy s = (if s = [] then None else Some s)"

definition handle_event ::
  "(string \<Rightarrow> json option) \<Rightarrow> deployment \<Rightarrow> llm_event \<Rightarrow> stream_acc \<Rightarrow> (provider_error + stream_event option) \<times> stream_acc" where
  "handle_event loads d ev acc =
     (case ev of
        LDelta c \<Rightarrow> (if c = [] then (Inr None, acc)
                     else (Inr (Some (EvDelta c)), acc\<lparr>sa_emitted := True, sa_parts := sa_parts acc @ [c]\<rparr>))
      | LToolStart ix i n \<Rightarrow>
          (let entry = identify i n (get_or (map_of (sa_tools acc) (get_or ix 0)) empty_entry)
           in (Inr (Some (EvToolUseStart ix (te_id entry) (te_name entry))),
               acc\<lparr>sa_emitted := True, sa_tools := AList.update (get_or ix 0) entry (sa_tools acc)\<rparr>))
      | LToolDelta ix i n args \<Rightarrow>
          (let entry0 = identify i n (get_or (map_of (sa_tools acc) (get_or ix 0)) empty_entry);
               entry = entry0\<lparr>te_args := te_args entry0 @ args\<rparr>
           in (Inr (Some (EvToolUseDelta ix (te_id entry) (Some args))),
               acc\<lparr>sa_tools := AList.update (get_or ix 0) entry (sa_tools acc)\<rparr>))
      | LToolEnd ix i n \<Rightarrow>
          (case map_of (sa_tools acc) (get_or ix 0) of
             None \<Rightarrow> (Inr (Some (EvToolUseEnd ix (opt_truthy i) (opt_truthy n) (decode_args loads []))), acc)
           | Some e \<Rightarrow>
               (let entry = identify i n e
                in (Inr (Some (EvToolUseEnd ix (Some (te_id entry)) (Some (te_name entry)) (decode_args loads (te_args entry)))),
                    acc\<lparr>sa_tools := AList.update (get_or ix 0) entry (sa_tools acc)\<rparr>)))
      | LUsage u \<Rightarrow> (Inr None, (case u of None \<Rightarrow> acc | Some x \<Rightarrow> acc\<lparr>sa_usage := x\<rparr>))
      | LDone f u \<Rightarrow> (Inr None, (case u of None \<Rightarrow> acc | Some x \<Rightarrow> acc\<lparr>sa_usage := x\<rparr>)\<lparr>sa_finish_reason := f\<rparr>)
      | LError e \<Rightarrow>
          (let msg = (if e = [] then ''stream error'' else e)
           in (Inl \<lparr>pe_class = classify_failure msg, pe_provider = fst d, pe_model = snd d, pe_cause = msg\<rparr>, acc))
      | LOther \<Rightarrow> (Inr None, acc))"

text \<open>One attempt: the events passed on, then success or the failure that ended it.\<close>

fun consume ::
  "(string \<Rightarrow> json option) \<Rightarrow> deployment \<Rightarrow> llm_event list \<Rightarrow> string option \<Rightarrow> stream_acc
     \<Rightarrow> stream_event list \<times> provider_error option \<times> stream_acc" where
  "consume loads d [] raised acc =
     ([], map_option (\<lambda>msg. \<lparr>pe_class = classify_failure msg, pe_provider = fst d, pe_model = snd d, pe_cause = msg\<rparr>) raised, acc)"
| "consume loads d (ev # evs) raised acc =
     (case handle_event loads d ev acc of
        (Inl e, acc1) \<Rightarrow> ([], Some e, acc1)
      | (Inr out, acc1) \<Rightarrow>
          (case consume loads d evs raised acc1 of
             (outs, err, acc2) \<Rightarrow> ((case out of None \<Rightarrow> outs | Some o1 \<Rightarrow> o1 # outs), err, acc2)))"

text \<open>A stream that ends before its first event raises at the first read, with an empty message.\<close>

definition read_stream ::
  "(string \<Rightarrow> json option) \<Rightarrow> deployment \<Rightarrow> llm_event list \<times> string option \<Rightarrow> bool
     \<Rightarrow> stream_event list \<times> provider_error option \<times> stream_acc" where
  "read_stream loads d s emitted =
     consume loads d (fst s) (if fst s = [] \<and> snd s = None then Some [] else snd s) (fresh_acc emitted)"

fun finalize_entries :: "(string \<Rightarrow> json option) \<Rightarrow> (nat \<times> tool_entry) list \<Rightarrow> tool_call list option" where
  "finalize_entries loads [] = Some []"
| "finalize_entries loads ((_, e) # rest) =
     (if te_id e = [] \<or> te_name e = [] then None
      else case decode_args loads (te_args e) of
             None \<Rightarrow> None
           | Some args \<Rightarrow>
               map_option (\<lambda>cs. \<lparr>tc_id = te_id e, tc_name = te_name e, tc_arguments = args\<rparr> # cs) (finalize_entries loads rest))"

definition finalize_tool_calls :: "(string \<Rightarrow> json option) \<Rightarrow> (nat \<times> tool_entry) list \<Rightarrow> tool_call list option" where
  "finalize_tool_calls loads tools =
     (case finalize_entries loads (py_sorted fst tools) of Some [] \<Rightarrow> None | r \<Rightarrow> r)"

definition stream_result :: "(string \<Rightarrow> json option) \<Rightarrow> deployment \<Rightarrow> stream_acc \<Rightarrow> nat \<Rightarrow> gateway_result" where
  "stream_result loads d acc attempts =
     \<lparr>gr_content = concat (sa_parts acc), gr_model = snd d, gr_provider = fst d, gr_usage = sa_usage acc,
      gr_finish_reason = sa_finish_reason acc, gr_tool_calls = finalize_tool_calls loads (sa_tools acc),
      gr_routed_via = fst d @ '':'' @ snd d, gr_attempts = attempts, gr_cached = False\<rparr>"

text \<open>The text of the failure that ended an attempt: an error event is raised again as a \<open>ProviderCallError\<close>, whose text names the deployment and the
  class; any other exception is reported with its own message.\<close>

definition call_error_text :: "provider_error \<Rightarrow> string" where
  "call_error_text e = pe_provider e @ '':'' @ pe_model e @ '' '' @ class_name (pe_class e) @ '': '' @ pe_cause e"

definition fault_text :: "llm_event list \<Rightarrow> provider_error \<Rightarrow> string" where
  "fault_text evs e = (if list_ex (\<lambda>ev. case ev of LError _ \<Rightarrow> True | _ \<Rightarrow> False) evs then call_error_text e else pe_cause e)"

datatype stream_end =
    Completed gateway_result
  | Interrupted string provider_error
  | NoAdapter string
  | StreamExhausted "provider_error option" "deployment list"

function stream_loop ::
  "'w gw_env \<Rightarrow> 'w provider_stream \<Rightarrow> (string \<Rightarrow> json option) \<Rightarrow> gateway_request \<Rightarrow> string \<Rightarrow> string \<Rightarrow> catalog \<Rightarrow> fallback_chain
     \<Rightarrow> deployment list \<Rightarrow> deployment list \<Rightarrow> provider_error option \<Rightarrow> gateway \<Rightarrow> 'w
     \<Rightarrow> stream_event list \<times> stream_end \<times> gateway \<times> 'w" where
  "stream_loop E strm loads rq tenant key cat chain seen [] err gw w = ([], StreamExhausted err seen, gw, w)"
| "stream_loop E strm loads rq tenant key cat chain seen (d # ds) err gw w =
     (if d \<in> set seen then stream_loop E strm loads rq tenant key cat chain seen ds err gw w
      else case get_adapter gw tenant (fst d) (snd d) rq key of
             (Inl msg, gw1) \<Rightarrow> ([], NoAdapter msg, gw1, w)
           | (Inr ad, gw1) \<Rightarrow>
               (case strm ad (rq_messages rq) w of
                  (s, latency_ms, w1) \<Rightarrow>
                    (case read_stream loads d s False of
                       (outs, None, acc) \<Rightarrow>
                         (case record_success (env_redis E) (gw_cooldowns gw1) (fst d) (snd d) w1 of
                            (cc, w2) \<Rightarrow>
                              (outs, Completed (stream_result loads d acc (length (seen @ [d]))),
                               gw1\<lparr>gw_cooldowns := cc,
                                   gw_router := (gw_router gw1)\<lparr>rt_latency := latency_update (rt_latency (gw_router gw1)) (fst d) (snd d) latency_ms\<rparr>\<rparr>, w2))
                     | (outs, Some e, acc) \<Rightarrow>
                         (case note_failure E d gw1 w1 of
                            (gw2, w2) \<Rightarrow>
                              if sa_emitted acc then (outs, Interrupted (fault_text (fst s) e) e, gw2, w2)
                              else (case stream_loop E strm loads rq tenant key cat chain (seen @ [d])
                                           (filter (\<lambda>t. t \<notin> set (seen @ [d])) (targets cat chain (pe_class e))) (Some e) gw2 w2 of
                                      (outs', fin, r) \<Rightarrow> (outs @ outs', fin, r))))))"
  by pat_completeness auto

termination
proof (relation "measures [\<lambda>(E, strm, loads, rq, tenant, key, cat, chain, seen, ds, err, gw, w).
      card ((set (all_targets cat chain) \<union> set ds) - set seen), \<lambda>(E, strm, loads, rq, tenant, key, cat, chain, seen, ds, err, gw, w). length ds]")
qed (simp_all add: skip_keeps retry_decreases del: set_append filter_append set_simps set_filter)

text \<open>\<open>_release\<close> does nothing once the reservation is finalized; a reserved but failed stream releases it.\<close>

definition stream_release :: "'w gw_env \<Rightarrow> quota_reservation option \<Rightarrow> gateway \<Rightarrow> 'w \<Rightarrow> gateway \<times> 'w" where
  "stream_release E res gw w = (case quota_release (env_redis E) (gw_quota gw) res w of (qs, w1) \<Rightarrow> (gw\<lparr>gw_quota := qs\<rparr>, w1))"

definition finish_stream ::
  "'w gw_env \<Rightarrow> gateway_request \<Rightarrow> gateway_cfg \<Rightarrow> quota_reservation option \<Rightarrow> stream_end \<Rightarrow> gateway \<Rightarrow> 'w \<Rightarrow> stream_event list \<times> gateway \<times> 'w" where
  "finish_stream E rq cfg res fin gw w =
     (case fin of
        Completed r \<Rightarrow>
          (case quota_reconcile (env_redis E) (gw_quota gw) res (result_usd gw r) w of
             (qs, w1) \<Rightarrow>
               (case after_success E rq cfg r (gw\<lparr>gw_quota := qs\<rparr>) w1 of
                  (gw2, w2) \<Rightarrow> ([EvUsage (gr_usage r) (gr_provider r) (gr_model r),
                                EvDone (gr_finish_reason r) (gr_usage r) (gr_provider r) (gr_model r)], gw2, w2)))
      | Interrupted t e \<Rightarrow> ([EvError (FaultText t) (class_name (pe_class e))], stream_release E res gw w)
      | NoAdapter msg \<Rightarrow> ([EvError (FaultText msg) ''general''], stream_release E res gw w)
      | StreamExhausted err seen \<Rightarrow>
          (let cls = (case err of None \<Rightarrow> ''general'' | Some e \<Rightarrow> class_name (pe_class e))
           in ([EvError (FaultError (case err of
                   None \<Rightarrow> GatewayChainExhausted ''unknown'' ''unknown'' ''no deployments'' cls (length seen)
                 | Some e \<Rightarrow> GatewayChainExhausted (pe_provider e) (pe_model e) (pe_cause e) cls (length seen))) cls],
               stream_release E res gw w)))"

definition stream_impl ::
  "'w gw_env \<Rightarrow> 'w provider_stream \<Rightarrow> (string \<Rightarrow> json option) \<Rightarrow> gateway_request \<Rightarrow> string \<Rightarrow> gateway_cfg \<Rightarrow> string \<Rightarrow> string \<Rightarrow> gateway \<Rightarrow> 'w
     \<Rightarrow> stream_event list \<times> gateway \<times> 'w" where
  "stream_impl E strm loads rq tenant gateway_cfg window fresh gw w =
     (let cfg = with_defaults gateway_cfg; cands = candidates (gw_router gw) rq cfg
      in case quota_reserve (env_redis E) (gw_quota gw) (quota_limits_from_cfg cfg) tenant (rq_surface_id rq) (rq_end_user_id rq)
                (estimate_max_spend gw cands rq) (rq_request_id rq) window fresh w of
           (Inl e, _, qs, w1) \<Rightarrow> ([EvError (FaultError e) ''quota_exceeded''], gw\<lparr>gw_quota := qs\<rparr>, w1)
         | (Inr res, _, qs, w1) \<Rightarrow>
             (case env_resolve_key E w1 of
                (Inl m, w2) \<Rightarrow>
                  ([EvError (FaultError (GatewayConfigurationError m)) ''configuration''], stream_release E res (gw\<lparr>gw_quota := qs\<rparr>) w2)
              | (Inr key, w2) \<Rightarrow>
                  (case gw_decide E (gw\<lparr>gw_quota := qs\<rparr>) rq cfg w2 of
                     (decision, gw1, w3) \<Rightarrow>
                       (let chain = build_fallback_chain rq cands cfg (Some (get_or (gc_cross_family_fallback cfg) True))
                        in case stream_loop E strm loads rq tenant key (gw_chain_catalog gw1) chain []
                                  [(rd_provider decision, rd_model decision)] None gw1 w3 of
                             (outs, fin, gw2, w4) \<Rightarrow>
                               (case finish_stream E rq cfg res fin gw2 w4 of (ends, r) \<Rightarrow> (outs @ ends, r))))))"

section \<open>The shape of a stream\<close>

fun is_terminal :: "stream_event \<Rightarrow> bool" where
  "is_terminal (EvUsage _ _ _) = True"
| "is_terminal (EvDone _ _ _ _) = True"
| "is_terminal (EvError _ _) = True"
| "is_terminal _ = False"

fun delta_text :: "stream_event \<Rightarrow> string" where
  "delta_text (EvDelta c) = c"
| "delta_text _ = []"

definition starts_output :: "stream_event \<Rightarrow> bool" where
  "starts_output ev = (case ev of EvDelta _ \<Rightarrow> True | EvToolUseStart _ _ _ \<Rightarrow> True | _ \<Rightarrow> False)"

lemma handle_event_spec:
  assumes "handle_event loads d ev acc = (Inr out, acc')"
  shows "(case out of None \<Rightarrow> concat (sa_parts acc') = concat (sa_parts acc) \<and> sa_emitted acc' = sa_emitted acc
          | Some o1 \<Rightarrow> \<not> is_terminal o1 \<and> concat (sa_parts acc') = concat (sa_parts acc) @ delta_text o1 \<and>
                      sa_emitted acc' = (sa_emitted acc \<or> starts_output o1))"
  using assms
  by (cases ev) (auto simp: handle_event_def starts_output_def Let_def split: if_splits option.splits)

lemma handle_event_error:
  "handle_event loads d ev acc = (Inl e, acc') \<Longrightarrow> acc' = acc \<and> pe_class e = classify_failure (pe_cause e) \<and> (pe_provider e, pe_model e) = d"
  by (cases ev) (auto simp: handle_event_def Let_def split: if_splits option.splits)

lemma consume_spec:
  assumes "consume loads d evs raised acc = (outs, err, acc')"
  shows "list_all (\<lambda>ev. \<not> is_terminal ev) outs \<and> concat (sa_parts acc') = concat (sa_parts acc) @ concat (map delta_text outs) \<and>
    sa_emitted acc' = (sa_emitted acc \<or> list_ex starts_output outs) \<and>
    (\<forall>e. err = Some e \<longrightarrow> pe_class e = classify_failure (pe_cause e) \<and> (pe_provider e, pe_model e) = d)"
  using assms
proof (induction evs arbitrary: acc outs)
  case (Cons ev evs)
  obtain h acc1 where h: "handle_event loads d ev acc = (h, acc1)" by (cases "handle_event loads d ev acc")
  show ?case
  proof (cases h)
    case (Inl e)
    with Cons.prems h handle_event_error [of loads d ev acc e acc1] show ?thesis by auto
  next
    case (Inr out)
    obtain outs1 where c: "consume loads d evs raised acc1 = (outs1, err, acc')" "outs = (case out of None \<Rightarrow> outs1 | Some o1 \<Rightarrow> o1 # outs1)"
      using Cons.prems h Inr by (cases "consume loads d evs raised acc1") auto
    from Cons.IH [OF c(1)] c(2) handle_event_spec [of loads d ev acc out acc1] h Inr show ?thesis
      by (cases out) auto
  qed
qed auto

lemma read_stream_spec:
  assumes "read_stream loads d s False = (outs, err, acc)"
  shows "list_all (\<lambda>ev. \<not> is_terminal ev) outs \<and> concat (sa_parts acc) = concat (map delta_text outs) \<and>
    sa_emitted acc = list_ex starts_output outs"
  using consume_spec [OF assms [unfolded read_stream_def]] by (simp add: fresh_acc_def)

lemma no_output_no_text: "\<not> list_ex starts_output outs \<Longrightarrow> concat (map delta_text outs) = []"
  by (induction outs) (auto simp: starts_output_def split: stream_event.splits)

lemma stream_loop_shape:
  assumes "stream_loop E strm loads rq tenant key cat chain seen ds err gw w = (outs, fin, r)"
  shows "list_all (\<lambda>ev. \<not> is_terminal ev) outs \<and>
    (case fin of Completed res \<Rightarrow> gr_content res = concat (map delta_text outs) \<and> \<not> gr_cached res
     | Interrupted _ _ \<Rightarrow> list_ex starts_output outs
     | NoAdapter _ \<Rightarrow> \<not> list_ex starts_output outs
     | StreamExhausted _ _ \<Rightarrow> \<not> list_ex starts_output outs)"
  using assms
proof (induction E strm loads rq tenant key cat chain seen ds err gw w arbitrary: outs rule: stream_loop.induct)
  case (2 E strm loads rq tenant key cat chain seen d ds err gw w)
  show ?case
  proof (cases "d \<in> set seen")
    case True
    with 2(1) [OF True] 2(3) show ?thesis by simp
  next
    case False
    obtain a gw1 where ga: "get_adapter gw tenant (fst d) (snd d) rq key = (a, gw1)" by (cases "get_adapter gw tenant (fst d) (snd d) rq key")
    show ?thesis
    proof (cases a)
      case (Inl msg)
      with 2(3) False ga show ?thesis by auto
    next
      case (Inr ad)
      obtain s ms w1 where st: "strm ad (rq_messages rq) w = (s, ms, w1)" by (cases "strm ad (rq_messages rq) w")
      obtain o1 er acc where rs: "read_stream loads d s False = (o1, er, acc)" by (cases "read_stream loads d s False")
      note sp = read_stream_spec [OF rs]
      show ?thesis
      proof (cases er)
        case None
        with 2(3) False ga Inr st rs sp show ?thesis by (auto simp: stream_result_def split: prod.splits)
      next
        case (Some e)
        obtain gw2 w2 where nf: "note_failure E d gw1 w1 = (gw2, w2)" by (cases "note_failure E d gw1 w1")
        show ?thesis
        proof (cases "sa_emitted acc")
          case True
          with 2(3) False ga Inr st rs Some nf sp show ?thesis by auto
        next
          case em: False
          obtain o2 where l: "stream_loop E strm loads rq tenant key cat chain (seen @ [d])
              (filter (\<lambda>t. t \<notin> set (seen @ [d])) (targets cat chain (pe_class e))) (Some e) gw2 w2 = (o2, fin, r)" "outs = o1 @ o2"
            using 2(3) False ga Inr st rs Some nf em
            by (cases "stream_loop E strm loads rq tenant key cat chain (seen @ [d])
              (filter (\<lambda>t. t \<notin> set (seen @ [d])) (targets cat chain (pe_class e))) (Some e) gw2 w2") auto
          have ih: "list_all (\<lambda>ev. \<not> is_terminal ev) o2 \<and>
            (case fin of Completed res \<Rightarrow> gr_content res = concat (map delta_text o2) \<and> \<not> gr_cached res
             | Interrupted _ _ \<Rightarrow> list_ex starts_output o2 | NoAdapter _ \<Rightarrow> \<not> list_ex starts_output o2
             | StreamExhausted _ _ \<Rightarrow> \<not> list_ex starts_output o2)"
            using 2(2) [OF False ga [symmetric] Inr st [symmetric] refl rs [symmetric] refl Some nf [symmetric] em l(1)] by simp
          with sp em l(2) no_output_no_text [of o1] show ?thesis by (auto split: stream_end.splits)
        qed
      qed
    qed
  qed
qed auto

section \<open>Accounting\<close>

definition stream_frame :: "'w provider_stream \<Rightarrow> ('w \<Rightarrow> keyspace) \<Rightarrow> bool" where
  "stream_frame strm view \<longleftrightarrow> (\<forall>ad ms w. view (snd (snd (strm ad ms w))) = view w)"

lemma get_adapter_shape: "shape (snd (get_adapter gw tenant p m rq key)) = shape gw"
  by (auto simp: get_adapter_def shape_def gw_catalog_def Let_def split: option.splits sum.splits)

lemma stream_loop_keeps:
  assumes "stream_loop E strm loads rq tenant key cat chain seen ds err gw w = (outs, fin, r)"
    and ok: "env_ok E view" and fr: "stream_frame strm view" and "prefixes_apart gw"
  shows "quota_keeps view gw w r"
  using assms
proof (induction E strm loads rq tenant key cat chain seen ds err gw w arbitrary: outs rule: stream_loop.induct)
  case (2 E strm loads rq tenant key cat chain seen d ds err gw w)
  show ?case
  proof (cases "d \<in> set seen")
    case True
    with 2(1) [OF True _ 2(4-6)] 2(3) show ?thesis by simp
  next
    case False
    obtain a gw1 where ga: "get_adapter gw tenant (fst d) (snd d) rq key = (a, gw1)" by (cases "get_adapter gw tenant (fst d) (snd d) rq key")
    have sh: "shape gw1 = shape gw" using get_adapter_shape [of gw tenant "fst d" "snd d" rq key] ga by simp
    show ?thesis
    proof (cases a)
      case (Inl msg)
      with 2(3) False ga sh show ?thesis by (auto simp: quota_keeps_def)
    next
      case (Inr ad)
      obtain s ms w1 where st: "strm ad (rq_messages rq) w = (s, ms, w1)" by (cases "strm ad (rq_messages rq) w")
      have v1: "view w1 = view w" using 2(5) st unfolding stream_frame_def by (metis snd_conv)
      have k1: "quota_keeps view gw w (gw1, w1)" using sh budgets_same [of view w1 w, OF v1] by (simp add: quota_keeps_def)
      note kr = keeps_result [OF k1]
      have ap: "prefixes_apart gw1" using kr(1) 2(6) by simp
      obtain o1 er acc where rs: "read_stream loads d s False = (o1, er, acc)" by (cases "read_stream loads d s False")
      show ?thesis
      proof (cases er)
        case None
        obtain cc w2 where su: "record_success (env_redis E) (gw_cooldowns gw1) (fst d) (snd d) w1 = (cc, w2)"
          by (cases "record_success (env_redis E) (gw_cooldowns gw1) (fst d) (snd d) w1")
        from record_success_keeps [OF 2(4) ap su] kr 2(3) False ga Inr st rs None su sh show ?thesis
          by (auto simp: quota_keeps_def shape_def gw_catalog_def)
      next
        case (Some e)
        obtain gw2 w2 where nf: "note_failure E d gw1 w1 = (gw2, w2)" by (cases "note_failure E d gw1 w1")
        have k2: "quota_keeps view gw w (gw2, w2)"
          using note_failure_keeps [OF 2(4) ap, of w1 d] nf k1 kr by (auto simp: quota_keeps_def)
        show ?thesis
        proof (cases "sa_emitted acc")
          case True
          with 2(3) False ga Inr st rs Some nf k2 show ?thesis by auto
        next
          case em: False
          obtain o2 where l: "stream_loop E strm loads rq tenant key cat chain (seen @ [d])
              (filter (\<lambda>t. t \<notin> set (seen @ [d])) (targets cat chain (pe_class e))) (Some e) gw2 w2 = (o2, fin, r)"
            using 2(3) False ga Inr st rs Some nf em
            by (cases "stream_loop E strm loads rq tenant key cat chain (seen @ [d])
              (filter (\<lambda>t. t \<notin> set (seen @ [d])) (targets cat chain (pe_class e))) (Some e) gw2 w2") auto
          have ap2: "prefixes_apart gw2" using keeps_result(1) [OF k2] 2(6) by simp
          have "quota_keeps view gw2 w2 r"
            by (rule 2(2) [OF False ga [symmetric] Inr st [symmetric] refl rs [symmetric] refl Some nf [symmetric] em l 2(4,5) ap2])
          then show ?thesis using k2 keeps_result [OF k2] by (simp add: quota_keeps_def)
        qed
      qed
    qed
  qed
qed (auto simp: quota_keeps_def)

lemma finish_stream_settles:
  assumes ok: "env_ok E view" and apart: "prefixes_apart gw" and res: "reservation_ok res est ks"
    and up: "res \<noteq> None \<longrightarrow> qs_redis_available (gw_quota gw)" and nonneg: "\<And>k. 0 \<le> fst (B k)"
    and p: "p = qc_prefix (qs_config (gw_quota gw))" and held: "budgets view p w = (\<lambda>x. raise_reserved est ks B (p @ x))"
    and run: "finish_stream E rq cfg res fin gw w = (ends, gw', w')"
  shows "budgets view p w' = (\<lambda>x. case fin of Completed r \<Rightarrow> charged ks (result_usd gw r) B (p @ x) | _ \<Rightarrow> B (p @ x))"
proof (cases "\<exists>r. fin = Completed r")
  case True
  then obtain r where r: "fin = Completed r" by blast
  obtain qs w1 where q: "quota_reconcile (env_redis E) (gw_quota gw) res (result_usd gw r) w = (qs, w1)"
    by (cases "quota_reconcile (env_redis E) (gw_quota gw) res (result_usd gw r) w")
  note s = reconcile_settles [OF ok res up nonneg held q]
  have "prefixes_apart (gw\<lparr>gw_quota := qs\<rparr>)" using apart s by (simp add: prefixes_apart_def)
  from after_success_keeps [OF ok this, of w1 rq cfg r] run r q s p show ?thesis
    by (auto simp: finish_stream_def quota_keeps_def split: prod.splits)
next
  case False
  with release_settles [OF ok res up nonneg held] run show ?thesis
    by (auto simp: finish_stream_def stream_release_def Let_def split: stream_end.splits prod.splits)
qed

section \<open>Correctness\<close>

definition is_ending :: "stream_event list \<Rightarrow> bool" where
  "is_ending ends \<longleftrightarrow> (\<exists>u p m f. ends = [EvUsage u p m, EvDone f u p m]) \<or> (\<exists>x c. ends = [EvError x c])"

definition well_ended :: "stream_event list \<Rightarrow> bool" where
  "well_ended events \<longleftrightarrow> (\<exists>outs ends. events = outs @ ends \<and> list_all (\<lambda>ev. \<not> is_terminal ev) outs \<and> is_ending ends)"

text \<open>Whatever the providers do, a stream is a sequence of output events followed by exactly one ending: a
  usage and a done event, or a single error event.\<close>

theorem stream_ends_once:
  "well_ended (fst (stream_impl E strm loads rq tenant cfg window fresh gw w))"
proof -
  have fin: "is_ending ends" if "finish_stream E rq c res fin g u = (ends, r)" for c res fin g u ends r
    using that by (cases fin) (auto simp: finish_stream_def is_ending_def Let_def split: prod.splits)
  have "well_ended (outs @ ends)"
    if "stream_loop E strm loads rq tenant key cat chain [] ds None g u = (outs, f, g', u')" "finish_stream E rq c res f g' u' = (ends, r)"
    for key cat chain ds g u outs f g' u' c res ends r
    using stream_loop_shape [OF that(1)] fin [OF that(2)] by (auto simp: well_ended_def)
  moreover have "well_ended [EvError x c]" for x c
    unfolding well_ended_def is_ending_def by (rule exI [of _ "[]"], rule exI [of _ "[EvError x c]"]) simp
  ultimately show ?thesis
    unfolding stream_impl_def Let_def by (auto split: prod.split sum.split simp del: stream_loop.simps)
qed

text \<open>The text of a completed stream is the concatenation of the text events the consumer saw, over all
  attempts: a deployment that already produced text or opened a tool call is never failed over
  (the stream is then interrupted), and a stream that fails over has shown neither.\<close>

theorem stream_text_matches_result:
  "case stream_loop E strm loads rq tenant key cat chain seen ds err gw w of
     (outs, Completed r, _) \<Rightarrow> gr_content r = concat (map delta_text outs)
   | (outs, Interrupted _ _, _) \<Rightarrow> list_ex starts_output outs
   | (outs, NoAdapter _, _) \<Rightarrow> \<not> list_ex starts_output outs
   | (outs, StreamExhausted _ _, _) \<Rightarrow> \<not> list_ex starts_output outs"
  using stream_loop_shape [of E strm loads rq tenant key cat chain seen ds err gw w]
  by (auto split: prod.splits stream_end.splits)

text \<open>C10: With Redis answering, a stream that ends with a done event has charged every reserved budget level the
  cost of its usage, and a stream that ends with an error has restored every budget, whatever failed.\<close>

theorem stream_settles_budgets:
  assumes "env_ok E view" and "stream_frame strm view" and "prefixes_apart gw" and "\<And>k. 0 \<le> fst (budget_at (view w) k)"
  shows "case stream_impl E strm loads rq tenant cfg window fresh gw w of (events, _, w') \<Rightarrow>
     (case last events of
        EvDone _ u p m \<Rightarrow> budgets view (qc_prefix (qs_config (gw_quota gw))) w' =
          (\<lambda>x. charged (reserved_keys gw rq tenant cfg window)
                 (num_or (estimate_cost (gw_catalog gw) p m (us_input_tokens u) (us_output_tokens u)) 0)
                 (budget_at (view w)) (qc_prefix (qs_config (gw_quota gw)) @ x))
      | _ \<Rightarrow> budgets view (qc_prefix (qs_config (gw_quota gw))) w' = budgets view (qc_prefix (qs_config (gw_quota gw))) w)"
proof -
  let ?cfg = "with_defaults cfg" and ?est = "gw_estimate gw rq cfg" and ?p = "qc_prefix (qs_config (gw_quota gw))"
    and ?ks = "reserved_keys gw rq tenant cfg window" and ?B = "budget_at (view w)"
  have B: "budgets view ?p w = (\<lambda>x. ?B (?p @ x))" by (simp add: budgets_def fun_eq_iff)
  obtain rr as qs w1 where r: "quota_reserve (env_redis E) (gw_quota gw) (quota_limits_from_cfg ?cfg) tenant (rq_surface_id rq)
      (rq_end_user_id rq) ?est (rq_request_id rq) window fresh w = (rr, as, qs, w1)" by (metis prod.collapse)
  show ?thesis
  proof (cases rr)
    case (Inl e)
    from reject_spec [OF env_okD(1) [OF assms(1)] env_okD(4) [OF assms(1)] assms(4) r [unfolded Inl]]
    have "budgets view ?p w1 = budgets view ?p w" by (simp add: budgets_def fun_eq_iff)
    then show ?thesis using r Inl by (simp add: stream_impl_def gw_estimate_def Let_def)
  next
    case (Inr res)
    let ?gw = "gw\<lparr>gw_quota := qs\<rparr>"
    have res: "reservation_ok res ?est ?ks" "budget_at (view w1) = raise_reserved ?est ?ks ?B" "qs_config qs = qs_config (gw_quota gw)"
      "res \<noteq> None \<longrightarrow> qs_redis_available qs"
      using reserve_ok [OF assms(1) r [unfolded Inr]] by (auto simp: reserved_keys_def)
    obtain kr w2 where kr: "env_resolve_key E w1 = (kr, w2)" by (cases "env_resolve_key E w1")
    have "view w2 = view w1" using env_okD(9) [OF assms(1), of w1] kr by simp
    then have held: "budgets view ?p w2 = (\<lambda>x. raise_reserved ?est ?ks ?B (?p @ x))" using res(2) by (intro ext) (simp add: budgets_def)
    show ?thesis
    proof (cases kr)
      case (Inl m)
      have "budgets view ?p (snd (quota_release (env_redis E) qs res w2)) = (\<lambda>x. ?B (?p @ x))"
        using release_settles [OF assms(1) res(1) _ _ held, of qs] res(4) assms(4) by simp
      with r Inr kr Inl B show ?thesis by (auto simp: stream_impl_def gw_estimate_def stream_release_def Let_def split: prod.split)
    next
      case (Inr key)
      obtain dec gw1 w3 where d: "gw_decide E ?gw rq ?cfg w2 = (dec, gw1, w3)" by (cases "gw_decide E ?gw rq ?cfg w2")
      let ?chain = "build_fallback_chain rq (candidates (gw_router gw) rq ?cfg) ?cfg (Some (get_or (gc_cross_family_fallback ?cfg) True))"
      obtain outs fin gw2 w4 where l: "stream_loop E strm loads rq tenant key (gw_chain_catalog gw1) ?chain []
          [(rd_provider dec, rd_model dec)] None gw1 w3 = (outs, fin, gw2, w4)"
        by (metis prod.collapse)
      have k1: "quota_keeps view ?gw w2 (gw1, w3)" using decide_keeps [OF assms(1), of ?gw w2 rq ?cfg] d by simp
      have ap1: "prefixes_apart gw1" using keeps_result(1) [OF k1] assms(3) res(3) by (simp add: prefixes_apart_def)
      have k2: "quota_keeps view gw1 w3 (gw2, w4)" by (rule stream_loop_keeps [OF l assms(1,2) ap1])
      note kk = keeps_result [OF k1] keeps_result [OF k2]
      have p: "?p = qc_prefix (qs_config (gw_quota gw2))" and up: "res \<noteq> None \<longrightarrow> qs_redis_available (gw_quota gw2)"
        and held4: "budgets view ?p w4 = (\<lambda>x. raise_reserved ?est ?ks ?B (?p @ x))" and ap2: "prefixes_apart gw2"
        and cat: "gw_catalog gw2 = gw_catalog gw"
        using kk res held ap1 k1 k2 by (simp_all add: quota_keeps_def shape_def gw_catalog_def)
      obtain ends gw3 w5 where f: "finish_stream E rq ?cfg res fin gw2 w4 = (ends, gw3, w5)" by (cases "finish_stream E rq ?cfg res fin gw2 w4")
      have ev: "stream_impl E strm loads rq tenant cfg window fresh gw w = (outs @ ends, gw3, w5)"
        using r \<open>rr = Inr res\<close> kr Inr d l f by (simp add: stream_impl_def gw_estimate_def Let_def del: stream_loop.simps)
      note st = finish_stream_settles [OF assms(1) ap2 res(1) up assms(4) p held4 f]
      show ?thesis
        using st f ev B
        by (cases fin) (auto simp: finish_stream_def result_usd_def cat Let_def split: prod.splits)
    qed
  qed
qed

definition sample_stream :: "store provider_stream" where
  "sample_stream ad ms w = (if ad_model ad = ''gpt-4o-mini'' then ([LToolDelta (Some 0) ''c1'' ''search'' ''{''], Some ''boom'')
     else ([LDelta ''hi'', LDone (Some ''stop'') (Some (no_usage\<lparr>us_input_tokens := 1000\<rparr>))], None), 10, w)"

definition sample_run :: "stream_event list \<times> gateway \<times> store" where
  "sample_run = stream_impl (sample_env (Inr sample_response) (Inr ''sk'')) sample_stream (\<lambda>_. None) costed_request ''acme'' capped_cfg
     ''2026-01'' ''ab12'' sample_gateway []"

lemma sample_run_events:
  "fst sample_run = [EvToolUseDelta (Some 0) ''c1'' (Some ''{''), EvDelta ''hi'',
     EvUsage (no_usage\<lparr>us_input_tokens := 1000\<rparr>) ''openai'' ''gpt-4o'',
     EvDone (Some ''stop'') (no_usage\<lparr>us_input_tokens := 1000\<rparr>) ''openai'' ''gpt-4o'']"
  by code_simp

theorem stream_settles_budgets_witness:
  "budgets map_of ''neryva:gateway:quota:'' (snd (snd sample_run)) ''t:acme:2026-01'' = (0, 5/2)"
proof -
  have fr: "stream_frame sample_stream map_of" by (simp add: stream_frame_def sample_stream_def)
  have k: "''neryva:gateway:quota:t:acme:2026-01'' \<in> set (reserved_keys sample_gateway costed_request ''acme'' capped_cfg ''2026-01'')"
    by code_simp
  have c: "num_or (estimate_cost (gw_catalog sample_gateway) ''openai'' ''gpt-4o'' 1000 0) 0 = 5/2" by code_simp
  have p: "qc_prefix (qs_config (gw_quota sample_gateway)) = ''neryva:gateway:quota:''"
    by (simp add: sample_gateway_def sample_service_def quota_default_config_def)
  have z: "0 \<le> fst (budget_at (map_of []) k)" for k by (simp add: budget_at_def hash_at_def get_or_def)
  have "budgets map_of ''neryva:gateway:quota:'' (snd (snd sample_run)) =
      (\<lambda>x. charged (reserved_keys sample_gateway costed_request ''acme'' capped_cfg ''2026-01'') (5/2) (budget_at (map_of [])) (''neryva:gateway:quota:'' @ x))"
    using stream_settles_budgets [OF sample_env_ok [of "Inr sample_response" "Inr ''sk''"] fr sample_apart z, where rq = costed_request and tenant = "''acme''"
      and cfg = capped_cfg and window = "''2026-01''" and fresh = "''ab12''" and loads = "\<lambda>_. None"] c
    by (simp add: p sample_run_def [symmetric] case_prod_beta sample_run_events no_usage_def)
  with k show ?thesis by (simp add: charged_def budget_at_def hash_at_def get_or_def)
qed

text \<open>
  A tool argument fragment is passed to the consumer without marking the stream as started: in this run
  the first deployment's fragment is followed by the answer of the second.
\<close>

lemma tool_fragment_then_failover:
  "EvToolUseDelta (Some 0) ''c1'' (Some ''{'') \<in> set (fst sample_run) \<and>
   EvDone (Some ''stop'') (no_usage\<lparr>us_input_tokens := 1000\<rparr>) ''openai'' ''gpt-4o'' \<in> set (fst sample_run)"
  by (simp add: sample_run_events)

end
