(* ===== verification/Admission.thy ===== *)
theory Admission
  imports Prelude
begin

text \<open>
  Admission control (\<open>gateway/admission.py\<close>) as a state machine. A task is one call of \<open>admit\<close>
  followed by the release of its handle; a step is the code a task runs between two points where
  it awaits, so steps of different tasks interleave freely. The Redis counter of a tenant is shared
  with other processes and expires, so an environment step may set it to anything. The model is one
  process with its own semaphores: each worker process has a gate like it.
\<close>

section \<open>Definitions\<close>

record admission_config =
  ac_prefix :: string
  ac_max_concurrent_per_tenant :: nat
  ac_max_concurrent_platform :: nat
  ac_wait_seconds :: rat
  ac_lease_seconds :: int

definition ac_default_config :: admission_config where
  "ac_default_config = \<lparr>ac_prefix = ''neryva:admission:'', ac_max_concurrent_per_tenant = 5, ac_max_concurrent_platform = 50,
     ac_wait_seconds = 5, ac_lease_seconds = 300\<rparr>"

text \<open>Where a task stands; \<open>Refused\<close> carries the retry time, \<open>Leaked\<close> a task that an exception ended while it held permits.\<close>

datatype phase =
    Waiting string
  | HasTenant string
  | HasBoth string
  | Overcounted string
  | Admitted string
  | Refused rat
  | Released
  | Leaked string

record gate =
  gt_config :: admission_config
  gt_redis_available :: bool
  gt_platform :: nat
  gt_tenants :: "string \<Rightarrow> nat option"
  gt_counts :: "string \<Rightarrow> int"
  gt_tasks :: "phase list"

definition gate_init :: "admission_config \<Rightarrow> bool \<Rightarrow> gate" where
  "gate_init cfg redis = \<lparr>gt_config = cfg, gt_redis_available = redis, gt_platform = ac_max_concurrent_platform cfg,
     gt_tenants = Map.empty, gt_counts = (\<lambda>_. 0), gt_tasks = []\<rparr>"

definition tenant_semaphore :: "gate \<Rightarrow> string \<Rightarrow> nat" where
  "tenant_semaphore g t = get_or (gt_tenants g t) (ac_max_concurrent_per_tenant (gt_config g))"

definition set_tenant :: "string \<Rightarrow> nat \<Rightarrow> gate \<Rightarrow> gate" where
  "set_tenant t n g = g\<lparr>gt_tenants := (gt_tenants g)(t \<mapsto> n)\<rparr>"

definition goto :: "nat \<Rightarrow> phase \<Rightarrow> gate \<Rightarrow> gate" where
  "goto i p g = g\<lparr>gt_tasks := (gt_tasks g)[i := p]\<rparr>"

definition task_phase :: "gate \<Rightarrow> nat \<Rightarrow> phase option" where
  "task_phase g i = (if i < length (gt_tasks g) then Some (gt_tasks g ! i) else None)"

text \<open>\<open>admit\<close>, first wait.\<close>

definition take_tenant :: "nat \<Rightarrow> gate \<Rightarrow> gate option" where
  "take_tenant i g = (case task_phase g i of
     Some (Waiting t) \<Rightarrow> (if 0 < tenant_semaphore g t then Some (goto i (HasTenant t) (set_tenant t (tenant_semaphore g t - 1) g)) else None)
   | _ \<Rightarrow> None)"

definition tenant_timeout :: "nat \<Rightarrow> gate \<Rightarrow> gate option" where
  "tenant_timeout i g = (case task_phase g i of
     Some (Waiting t) \<Rightarrow> (if tenant_semaphore g t = 0 then Some (goto i (Refused (ac_wait_seconds (gt_config g))) (set_tenant t 0 g)) else None)
   | _ \<Rightarrow> None)"

text \<open>Second wait; its timeout gives the tenant permit back.\<close>

definition take_platform :: "nat \<Rightarrow> gate \<Rightarrow> gate option" where
  "take_platform i g = (case task_phase g i of
     Some (HasTenant t) \<Rightarrow> (if 0 < gt_platform g then Some (goto i (HasBoth t) (g\<lparr>gt_platform := gt_platform g - 1\<rparr>)) else None)
   | _ \<Rightarrow> None)"

definition platform_timeout :: "nat \<Rightarrow> gate \<Rightarrow> gate option" where
  "platform_timeout i g = (case task_phase g i of
     Some (HasTenant t) \<Rightarrow>
       (if gt_platform g = 0
        then Some (goto i (Refused (ac_wait_seconds (gt_config g))) (set_tenant t (tenant_semaphore g t + 1) g)) else None)
   | _ \<Rightarrow> None)"

text \<open>\<open>_acquire_redis_slot\<close>: the increment admits, or leaves the task to take it back.\<close>

definition acquire_redis_slot :: "nat \<Rightarrow> gate \<Rightarrow> gate option" where
  "acquire_redis_slot i g = (case task_phase g i of
     Some (HasBoth t) \<Rightarrow>
       Some (if \<not> gt_redis_available g then goto i (Admitted t) g
             else let n = gt_counts g t + 1; g1 = g\<lparr>gt_counts := (gt_counts g)(t := n)\<rparr>
                  in if int (ac_max_concurrent_per_tenant (gt_config g)) < n then goto i (Overcounted t) g1 else goto i (Admitted t) g1)
   | _ \<Rightarrow> None)"

definition give_back_permits :: "string \<Rightarrow> gate \<Rightarrow> gate" where
  "give_back_permits t g = set_tenant t (tenant_semaphore g t + 1) (g\<lparr>gt_platform := gt_platform g + 1\<rparr>)"

definition undo_redis_slot :: "nat \<Rightarrow> gate \<Rightarrow> gate option" where
  "undo_redis_slot i g = (case task_phase g i of
     Some (Overcounted t) \<Rightarrow>
       Some (goto i (Refused 1) (give_back_permits t (g\<lparr>gt_counts := (gt_counts g)(t := gt_counts g t - 1)\<rparr>)))
   | _ \<Rightarrow> None)"

text \<open>An exception of Redis leaves \<open>admit\<close> or \<open>release\<close> with the permits still taken.\<close>

definition redis_raises :: "nat \<Rightarrow> gate \<Rightarrow> gate option" where
  "redis_raises i g =
     (if \<not> gt_redis_available g then None
      else case task_phase g i of
             Some (HasBoth t) \<Rightarrow> Some (goto i (Leaked t) g)
           | Some (Overcounted t) \<Rightarrow> Some (goto i (Leaked t) g)
           | Some (Admitted t) \<Rightarrow> Some (goto i (Leaked t) g)
           | _ \<Rightarrow> None)"

definition handle_release :: "nat \<Rightarrow> gate \<Rightarrow> gate option" where
  "handle_release i g = (case task_phase g i of
     Some (Admitted t) \<Rightarrow>
       Some (goto i Released (give_back_permits t
         (if gt_redis_available g then g\<lparr>gt_counts := (gt_counts g)(t := gt_counts g t - 1)\<rparr> else g)))
   | Some Released \<Rightarrow> Some g
   | _ \<Rightarrow> None)"

definition arrive :: "string \<Rightarrow> gate \<Rightarrow> gate" where
  "arrive t g = g\<lparr>gt_tasks := gt_tasks g @ [Waiting t]\<rparr>"

inductive gate_step :: "gate \<Rightarrow> gate \<Rightarrow> bool" where
  "gate_step g (arrive t g)"
| "take_tenant i g = Some g' \<Longrightarrow> gate_step g g'"
| "tenant_timeout i g = Some g' \<Longrightarrow> gate_step g g'"
| "take_platform i g = Some g' \<Longrightarrow> gate_step g g'"
| "platform_timeout i g = Some g' \<Longrightarrow> gate_step g g'"
| "acquire_redis_slot i g = Some g' \<Longrightarrow> gate_step g g'"
| "undo_redis_slot i g = Some g' \<Longrightarrow> gate_step g g'"
| "redis_raises i g = Some g' \<Longrightarrow> gate_step g g'"
| "handle_release i g = Some g' \<Longrightarrow> gate_step g g'"
| "gate_step g (g\<lparr>gt_counts := c\<rparr>)"

inductive gate_reaches :: "gate \<Rightarrow> gate \<Rightarrow> bool" where
  start: "gate_reaches g g"
| step: "gate_reaches g g1 \<Longrightarrow> gate_step g1 g2 \<Longrightarrow> gate_reaches g g2"

section \<open>Counting\<close>

definition tally :: "(phase \<Rightarrow> bool) \<Rightarrow> gate \<Rightarrow> nat" where
  "tally P g = length (filter P (gt_tasks g))"

fun holds_tenant :: "string \<Rightarrow> phase \<Rightarrow> bool" where
  "holds_tenant t (HasTenant s) = (s = t)"
| "holds_tenant t (HasBoth s) = (s = t)"
| "holds_tenant t (Overcounted s) = (s = t)"
| "holds_tenant t (Admitted s) = (s = t)"
| "holds_tenant t (Leaked s) = (s = t)"
| "holds_tenant t _ = False"

fun holds_platform :: "phase \<Rightarrow> bool" where
  "holds_platform (HasBoth s) = True"
| "holds_platform (Overcounted s) = True"
| "holds_platform (Admitted s) = True"
| "holds_platform (Leaked s) = True"
| "holds_platform _ = False"

lemma tally_goto:
  assumes "task_phase g i = Some p"
  shows "tally P (goto i q g) + (if P p then 1 else 0) = tally P g + (if P q then 1 else 0)"
  using assms length_filter_update [of i "gt_tasks g" P q] by (auto simp: tally_def goto_def task_phase_def split: if_splits)

lemma tally_fields [simp]:
  "tally P (set_tenant t n g) = tally P g" "tally P (g\<lparr>gt_platform := k\<rparr>) = tally P g"
  "tally P (g\<lparr>gt_counts := c\<rparr>) = tally P g" "tally P (give_back_permits t g) = tally P g"
  "tally P (arrive t g) = tally P g + (if P (Waiting t) then 1 else 0)"
  by (simp_all add: tally_def set_tenant_def give_back_permits_def arrive_def)

lemma gate_fields [simp]:
  "gt_platform (goto i p g) = gt_platform g" "gt_platform (set_tenant t n g) = gt_platform g"
  "gt_platform (arrive t g) = gt_platform g" "gt_platform (give_back_permits t g) = gt_platform g + 1"
  "gt_config (goto i p g) = gt_config g" "gt_config (set_tenant t n g) = gt_config g" "gt_config (arrive t g) = gt_config g"
  "gt_config (give_back_permits t g) = gt_config g"
  "task_phase (set_tenant t n g) i = task_phase g i" "task_phase (g\<lparr>gt_platform := k\<rparr>) i = task_phase g i"
  "task_phase (g\<lparr>gt_counts := c\<rparr>) i = task_phase g i" "task_phase (give_back_permits t g) i = task_phase g i"
  by (simp_all add: goto_def set_tenant_def give_back_permits_def arrive_def task_phase_def)

lemma semaphore_fields [simp]:
  "tenant_semaphore (goto i p g) t = tenant_semaphore g t" "tenant_semaphore (arrive s g) t = tenant_semaphore g t"
  "tenant_semaphore (set_tenant s n g) t = (if t = s then n else tenant_semaphore g t)"
  "tenant_semaphore (g\<lparr>gt_platform := k\<rparr>) t = tenant_semaphore g t" "tenant_semaphore (g\<lparr>gt_counts := c\<rparr>) t = tenant_semaphore g t"
  "tenant_semaphore (give_back_permits s g) t = (if t = s then tenant_semaphore g t + 1 else tenant_semaphore g t)"
  by (simp_all add: tenant_semaphore_def goto_def set_tenant_def give_back_permits_def arrive_def get_or_def)

text \<open>Every permit is either free or held by a task.\<close>

definition gate_inv :: "gate \<Rightarrow> bool" where
  "gate_inv g \<longleftrightarrow> gt_platform g + tally holds_platform g = ac_max_concurrent_platform (gt_config g) \<and>
     (\<forall>t. tenant_semaphore g t + tally (holds_tenant t) g = ac_max_concurrent_per_tenant (gt_config g))"

text \<open>A task moves from phase \<open>p\<close> to \<open>q\<close> while the permits change by what \<open>q\<close> holds less than \<open>p\<close>.\<close>

lemma inv_goto:
  assumes "gate_inv g" and "task_phase g i \<noteq> None" and "gt_config g' = gt_config g" and "\<And>P. tally P g' = tally P g"
    and "task_phase g' i = task_phase g i"
    and "gt_platform g' + (if holds_platform q then 1 else 0) = gt_platform g + (if holds_platform (the (task_phase g i)) then 1 else 0)"
    and "\<And>t. tenant_semaphore g' t + (if holds_tenant t q then 1 else 0) =
            tenant_semaphore g t + (if holds_tenant t (the (task_phase g i)) then 1 else 0)"
  shows "gate_inv (goto i q g')"
proof -
  obtain p where p: "task_phase g' i = Some p" "task_phase g i = Some p" using assms(2,5) by auto
  have "gt_platform g' + tally holds_platform (goto i q g') = ac_max_concurrent_platform (gt_config g)"
    using assms(1,4,6) tally_goto [OF p(1), of holds_platform q] p by (simp add: gate_inv_def split: if_splits)
  moreover have "tenant_semaphore g' t + tally (holds_tenant t) (goto i q g') = ac_max_concurrent_per_tenant (gt_config g)" for t
  proof -
    have "tenant_semaphore g t + tally (holds_tenant t) g = ac_max_concurrent_per_tenant (gt_config g)"
      using assms(1) by (simp add: gate_inv_def)
    with assms(4) [of "holds_tenant t"] assms(7) [of t] tally_goto [OF p(1), of "holds_tenant t" q] p show ?thesis
      by (simp split: if_splits)
  qed
  ultimately show ?thesis using assms(3) by (simp add: gate_inv_def)
qed

lemma ops_keep_inv:
  assumes "gate_inv g"
  shows "take_tenant i g = Some g' \<Longrightarrow> gate_inv g' \<and> gt_config g' = gt_config g"
    and "tenant_timeout i g = Some g' \<Longrightarrow> gate_inv g' \<and> gt_config g' = gt_config g"
    and "take_platform i g = Some g' \<Longrightarrow> gate_inv g' \<and> gt_config g' = gt_config g"
    and "platform_timeout i g = Some g' \<Longrightarrow> gate_inv g' \<and> gt_config g' = gt_config g"
    and "acquire_redis_slot i g = Some g' \<Longrightarrow> gate_inv g' \<and> gt_config g' = gt_config g"
    and "undo_redis_slot i g = Some g' \<Longrightarrow> gate_inv g' \<and> gt_config g' = gt_config g"
    and "redis_raises i g = Some g' \<Longrightarrow> gate_inv g' \<and> gt_config g' = gt_config g"
    and "handle_release i g = Some g' \<Longrightarrow> gate_inv g' \<and> gt_config g' = gt_config g"
  using assms
  by (auto simp: take_tenant_def tenant_timeout_def take_platform_def platform_timeout_def acquire_redis_slot_def
      undo_redis_slot_def redis_raises_def handle_release_def Let_def
      split: option.splits phase.splits if_splits intro!: inv_goto [OF assms])

lemma gate_step_inv:
  assumes "gate_step g g'" and "gate_inv g"
  shows "gate_inv g' \<and> gt_config g' = gt_config g"
  using assms(1)
proof cases
  case (1 t)
  with assms(2) show ?thesis by (simp add: gate_inv_def)
next
  case (10 c)
  with assms(2) show ?thesis by (simp add: gate_inv_def)
qed (use ops_keep_inv [OF assms(2)] in blast)+

lemma gate_init_inv: "gate_inv (gate_init cfg redis)"
  by (simp add: gate_inv_def gate_init_def tally_def tenant_semaphore_def get_or_def)

lemma gate_reaches_inv:
  assumes "gate_reaches (gate_init cfg redis) g"
  shows "gate_inv g \<and> gt_config g = cfg"
  using assms
proof (induction "gate_init cfg redis" g rule: gate_reaches.induct)
  case start
  show ?case using gate_init_inv by (simp add: gate_init_def)
next
  case (step g1 g2)
  then show ?case using gate_step_inv by metis
qed

lemma tally_mono: "(\<And>p. P p \<Longrightarrow> Q p) \<Longrightarrow> tally P g \<le> tally Q g"
proof -
  assume "\<And>p. P p \<Longrightarrow> Q p"
  then have "length (filter P ps) \<le> length (filter Q ps)" for ps by (induction ps) (auto simp: le_SucI)
  then show ?thesis by (simp add: tally_def)
qed

section \<open>Correctness\<close>

fun is_admitted :: "phase \<Rightarrow> bool" where
  "is_admitted (Admitted t) = True"
| "is_admitted _ = False"

fun is_leaked :: "phase \<Rightarrow> bool" where
  "is_leaked (Leaked t) = True"
| "is_leaked _ = False"

fun is_over :: "phase \<Rightarrow> bool" where
  "is_over (Refused r) = True"
| "is_over Released = True"
| "is_over (Leaked t) = True"
| "is_over _ = False"

definition sample_gate :: gate where
  "sample_gate = the (take_platform 0 (the (take_tenant 0 (arrive ''acme'' (gate_init ac_default_config True)))))"

lemma sample_gate_reached: "gate_reaches (gate_init ac_default_config True) (the (redis_raises 0 sample_gate))"
proof -
  let ?a = "arrive ''acme'' (gate_init ac_default_config True)"
  have "take_tenant 0 ?a = Some (the (take_tenant 0 ?a))" "take_platform 0 (the (take_tenant 0 ?a)) = Some sample_gate"
      "redis_raises 0 sample_gate = Some (the (redis_raises 0 sample_gate))"
    by (simp_all add: sample_gate_def take_tenant_def take_platform_def redis_raises_def arrive_def gate_init_def task_phase_def
        tenant_semaphore_def ac_default_config_def goto_def set_tenant_def get_or_def)
  then show ?thesis by (meson gate_reaches.intros gate_step.intros)
qed

text \<open>C35: In every reachable state of one process, whatever the interleaving of its tasks and whatever other processes
  do to the shared counter, this process has admitted at most the configured number of tasks of a tenant and at most the
  configured number of all tenants. The semaphores are local to the process, so the bounds are per process.\<close>

theorem admission_bounded:
  assumes "gate_reaches (gate_init cfg redis) g"
  shows "tally (\<lambda>p. p = Admitted t) g \<le> ac_max_concurrent_per_tenant cfg \<and> tally is_admitted g \<le> ac_max_concurrent_platform cfg"
proof -
  note inv = gate_reaches_inv [OF assms]
  have "tally (\<lambda>p. p = Admitted t) g \<le> tally (holds_tenant t) g" by (rule tally_mono) auto
  moreover have "tally is_admitted g \<le> tally holds_platform g"
    by (rule tally_mono) (metis holds_platform.simps(3) is_admitted.elims(2))
  ultimately show ?thesis using inv unfolding gate_inv_def by (metis le_add2 order_trans)
qed

text \<open>A gate with one place per tenant that is taken: the bound is reached, and the second task waits.\<close>

definition narrow_config :: admission_config where
  "narrow_config = ac_default_config\<lparr>ac_max_concurrent_per_tenant := 1\<rparr>"

definition busy_gate :: gate where
  "busy_gate = arrive ''acme'' (the (acquire_redis_slot 0 (the (take_platform 0 (the (take_tenant 0 (arrive ''acme'' (gate_init narrow_config True))))))))"

lemma busy_gate_tasks: "gt_tasks busy_gate = [Admitted ''acme'', Waiting ''acme'']"
  by code_simp

lemma busy_gate_reached: "gate_reaches (gate_init narrow_config True) busy_gate"
proof -
  let ?a = "arrive ''acme'' (gate_init narrow_config True)"
  let ?b = "the (take_tenant 0 ?a)" let ?c = "the (take_platform 0 ?b)" let ?d = "the (acquire_redis_slot 0 ?c)"
  have "take_tenant 0 ?a = Some ?b" "take_platform 0 ?b = Some ?c" "acquire_redis_slot 0 ?c = Some ?d"
    by (simp_all add: take_tenant_def take_platform_def acquire_redis_slot_def arrive_def gate_init_def task_phase_def narrow_config_def
        tenant_semaphore_def ac_default_config_def goto_def set_tenant_def get_or_def Let_def)
  then show ?thesis unfolding busy_gate_def by (meson gate_reaches.intros gate_step.intros)
qed

theorem admission_bounded_witness:
  "tally (\<lambda>p. p = Admitted ''acme'') busy_gate = 1 \<and> take_tenant 1 busy_gate = None
   \<and> tally (\<lambda>p. p = Admitted ''acme'') busy_gate \<le> 1 \<and> tally is_admitted busy_gate \<le> 50"
proof -
  have "take_tenant 1 busy_gate = None" by code_simp
  then show ?thesis using admission_bounded [OF busy_gate_reached, of "''acme''"]
    by (simp add: narrow_config_def ac_default_config_def tally_def busy_gate_tasks)
qed

text \<open>When every task is over, the permits of the platform and of each tenant are all free again except
  one for each task that an exception of Redis ended: those are lost for good.\<close>

theorem permits_return_unless_leaked:
  assumes "gate_reaches (gate_init cfg redis) g" and "list_all is_over (gt_tasks g)"
  shows "gt_platform g + tally is_leaked g = ac_max_concurrent_platform cfg \<and>
         tenant_semaphore g t + tally (\<lambda>p. p = Leaked t) g = ac_max_concurrent_per_tenant cfg"
proof -
  have eq: "tally P g = tally Q g" if "\<And>p. is_over p \<Longrightarrow> P p = Q p" for P Q
    using assms(2) that unfolding tally_def by (metis (mono_tags, lifting) filter_cong list_all_iff)
  have "tally holds_platform g = tally is_leaked g" by (rule eq) (metis is_leaked.simps holds_platform.simps is_over.elims(2))
  moreover have "tally (holds_tenant t) g = tally (\<lambda>p. p = Leaked t) g" by (rule eq) (auto elim: is_over.elims)
  ultimately show ?thesis using gate_reaches_inv [OF assms(1)] unfolding gate_inv_def by metis
qed

theorem permits_return_unless_leaked_witness:
  "gt_platform (the (redis_raises 0 sample_gate)) + 1 = 50"
proof -
  have "gt_tasks (the (redis_raises 0 sample_gate)) = [Leaked ''acme'']" by code_simp
  with permits_return_unless_leaked [OF sample_gate_reached, of "''acme''"] show ?thesis
    by (simp add: ac_default_config_def tally_def)
qed

end
