(* ===== verification/Thread_Store.thy ===== *)
theory Thread_Store
  imports Prelude
begin

text \<open>
  The durable thread log (\<open>infrastructure/db/threads.py\<close>) over its four tables (\<open>infrastructure/db/models.py\<close>),
  each a list of rows in the order they were inserted. An operation is one transaction: it returns its
  result and the database it commits, and an exception (\<^const>\<open>Inl\<close>) leaves the database as it was. Fresh
  identifiers (\<open>uuid4()\<close>) and the time are arguments; the surrogate keys of parts and events, which no code
  reads, are left out, as is the choice of a read replica.
\<close>

section \<open>Tables\<close>

type_synonym jobj = "(string \<times> json) list"

record summary_layer =
  ly_position :: int
  ly_content :: string
  ly_payload :: jobj

text \<open>The JSON document in \<open>summary_block\<close>; a legacy block has no \<open>layers\<close>.\<close>

record summary_block =
  sb_content :: string
  sb_payload :: jobj
  sb_head_until_seq :: int
  sb_degraded :: bool
  sb_layers :: "summary_layer list"

record thread_row =
  th_id :: string
  th_tenant :: string
  th_conversation :: string
  th_surface :: "string option"
  th_end_user :: "string option"
  th_status :: string
  th_summary_block :: "summary_block option"
  th_summary_position :: "int option"
  th_summary_version :: int
  th_forked_from :: "string option"
  th_archived :: bool
  th_created_at :: time

record message_row =
  ms_id :: string
  ms_conversation :: string
  ms_tenant :: string
  ms_thread :: string
  ms_seq :: int
  ms_request_id :: "string option"
  ms_parent :: "string option"
  ms_surface :: "string option"
  ms_end_user :: "string option"
  ms_role :: string
  ms_content :: string
  ms_redacted :: string
  ms_metadata :: jobj
  ms_created_at :: time

record part_row =
  pt_message :: string
  pt_thread :: string
  pt_tenant :: string
  pt_type :: string
  pt_index :: int
  pt_content :: jobj
  pt_redacted :: jobj

record event_row =
  ev_thread :: string
  ev_tenant :: string
  ev_seq :: int
  ev_type :: string
  ev_request_id :: "string option"
  ev_payload :: jobj

text \<open>\<open>db_conversations\<close> are the identifiers in the conversations table, which the messages reference.\<close>

record thread_db =
  db_conversations :: "string list"
  db_threads :: "thread_row list"
  db_messages :: "message_row list"
  db_parts :: "part_row list"
  db_events :: "event_row list"

datatype store_error =
    ThreadNotFoundError string
  | MessageNotFoundError string
  | ForkPointOutOfRange int
  | MultipleResultsFound
  | IntegrityError
  | InvalidTargetError string

section \<open>Queries\<close>

definition max_or_zero :: "int list \<Rightarrow> int" where
  "max_or_zero xs = (case xs of [] \<Rightarrow> 0 | x # ys \<Rightarrow> fold max ys x)"

definition json_truthy :: "json \<Rightarrow> bool" where
  "json_truthy j = (case j of JNull \<Rightarrow> False | JBool b \<Rightarrow> b | JInt n \<Rightarrow> n \<noteq> 0 | JNum x \<Rightarrow> x \<noteq> 0
     | JStr s \<Rightarrow> s \<noteq> [] | JList l \<Rightarrow> l \<noteq> [] | JObj l \<Rightarrow> l \<noteq> [])"

definition obj_get :: "jobj \<Rightarrow> string \<Rightarrow> json" where
  "obj_get o1 k = get_or (map_of o1 k) JNull"

definition opt_json :: "string option \<Rightarrow> json" where
  "opt_json s = (case s of None \<Rightarrow> JNull | Some x \<Rightarrow> JStr x)"

definition get_thread :: "thread_db \<Rightarrow> string \<Rightarrow> string \<Rightarrow> thread_row option" where
  "get_thread db tenant tid = find (\<lambda>t. th_tenant t = tenant \<and> th_id t = tid) (db_threads db)"

definition get_message :: "thread_db \<Rightarrow> string \<Rightarrow> string \<Rightarrow> message_row option" where
  "get_message db tenant mid = find (\<lambda>m. ms_tenant m = tenant \<and> ms_id m = mid) (db_messages db)"

text \<open>The next two look at the thread alone. \<open>max_event_seq\<close> yields the next free number, not the greatest used.\<close>

definition max_message_seq :: "thread_db \<Rightarrow> string \<Rightarrow> int" where
  "max_message_seq db tid = max_or_zero (map ms_seq (filter (\<lambda>m. ms_thread m = tid) (db_messages db)))"

definition last_event_seq :: "thread_db \<Rightarrow> string \<Rightarrow> int" where
  "last_event_seq db tid = max_or_zero (map ev_seq (filter (\<lambda>e. ev_thread e = tid) (db_events db)))"

definition max_event_seq :: "thread_db \<Rightarrow> string \<Rightarrow> int" where
  "max_event_seq db tid = last_event_seq db tid + 1"

definition thread_messages :: "thread_db \<Rightarrow> string \<Rightarrow> string \<Rightarrow> message_row list" where
  "thread_messages db tenant tid = filter (\<lambda>m. ms_thread m = tid \<and> ms_tenant m = tenant) (db_messages db)"

definition list_messages :: "thread_db \<Rightarrow> string \<Rightarrow> string \<Rightarrow> int option \<Rightarrow> nat \<Rightarrow> message_row list \<times> bool" where
  "list_messages db tenant tid after_seq limit =
     (let rows = take (limit + 1) (py_sorted ms_seq
                   (filter (\<lambda>m. case after_seq of None \<Rightarrow> True | Some n \<Rightarrow> n < ms_seq m) (thread_messages db tenant tid)))
      in (take limit rows, limit < length rows))"

definition read_tail :: "thread_db \<Rightarrow> string \<Rightarrow> string \<Rightarrow> int option \<Rightarrow> nat \<Rightarrow> message_row list" where
  "read_tail db tenant tid from_seq limit =
     rev (take limit (py_sorted_desc ms_seq
       (filter (\<lambda>m. case from_seq of None \<Rightarrow> True | Some n \<Rightarrow> ms_seq m \<le> n) (thread_messages db tenant tid))))"

definition list_parts :: "thread_db \<Rightarrow> string \<Rightarrow> string \<Rightarrow> part_row list" where
  "list_parts db tenant mid = py_sorted pt_index (filter (\<lambda>p. pt_tenant p = tenant \<and> pt_message p = mid) (db_parts db))"

definition list_events :: "thread_db \<Rightarrow> string \<Rightarrow> string \<Rightarrow> int option \<Rightarrow> nat \<Rightarrow> event_row list" where
  "list_events db tenant tid after_seq limit =
     take limit (py_sorted ev_seq (filter (\<lambda>e. ev_thread e = tid \<and> ev_tenant e = tenant \<and>
       (case after_seq of None \<Rightarrow> True | Some n \<Rightarrow> n < ev_seq e)) (db_events db)))"

definition list_threads :: "thread_db \<Rightarrow> string \<Rightarrow> string option \<Rightarrow> nat \<Rightarrow> string option \<Rightarrow> thread_row list" where
  "list_threads db tenant end_user limit before =
     (let cursor = (if truthy_str before then find (\<lambda>t. th_id t = the before) (db_threads db) else None)
      in take limit (py_sorted_desc th_created_at (filter (\<lambda>t. th_tenant t = tenant \<and>
           (truthy_str end_user \<longrightarrow> th_end_user t = end_user) \<and>
           (case cursor of None \<Rightarrow> True | Some b \<Rightarrow> th_created_at t < th_created_at b)) (db_threads db))))"

text \<open>Threads with a summary whose newest message is \<open>delta\<close> beyond it, the most outgrown first, with that message's number.\<close>

definition list_threads_stale_for_compaction :: "thread_db \<Rightarrow> int \<Rightarrow> nat \<Rightarrow> (thread_row \<times> int) list" where
  "list_threads_stale_for_compaction db delta limit =
     take limit (py_sorted_desc (\<lambda>(t, latest). latest - get_or (th_summary_position t) 0)
       (filter (\<lambda>(t, latest). th_summary_position t \<noteq> None \<and> th_status t = ''active'' \<and> \<not> th_archived t \<and>
            delta \<le> latest - get_or (th_summary_position t) 0)
         (map (\<lambda>t. (t, max_message_seq db (th_id t)))
           (filter (\<lambda>t. \<exists>m \<in> set (db_messages db). ms_thread m = th_id t) (db_threads db)))))"

definition list_threads_archivable :: "thread_db \<Rightarrow> string \<Rightarrow> time \<Rightarrow> nat \<Rightarrow> thread_row list" where
  "list_threads_archivable db tenant cutoff limit =
     take limit (py_sorted th_created_at
       (filter (\<lambda>t. th_tenant t = tenant \<and> \<not> th_archived t \<and> th_created_at t < cutoff) (db_threads db)))"

text \<open>The seqs of the messages that carry a tool result which is not cleared.\<close>

definition tool_results :: "thread_db \<Rightarrow> string \<Rightarrow> string \<Rightarrow> (part_row \<times> message_row) list" where
  "tool_results db tenant tid =
     [(p, m). p \<leftarrow> filter (\<lambda>p. pt_tenant p = tenant \<and> pt_thread p = tid \<and> pt_type p = ''tool_result'') (db_parts db),
              m \<leftarrow> filter (\<lambda>m. ms_id m = pt_message p) (db_messages db)]"

definition is_cleared :: "part_row \<Rightarrow> bool" where
  "is_cleared p = json_truthy (obj_get (pt_content p) ''cleared'')"

definition list_tool_result_seqs :: "thread_db \<Rightarrow> string \<Rightarrow> string \<Rightarrow> int list" where
  "list_tool_result_seqs db tenant tid = remdups (map (\<lambda>(p, m). ms_seq m) (filter (\<lambda>(p, m). \<not> is_cleared p) (tool_results db tenant tid)))"

record thread_dump =
  dp_thread :: thread_row
  dp_messages :: "message_row list"
  dp_parts :: "part_row list"
  dp_events :: "event_row list"

definition dump_thread :: "thread_db \<Rightarrow> string \<Rightarrow> string \<Rightarrow> thread_dump option" where
  "dump_thread db tenant tid =
     map_option (\<lambda>t. \<lparr>dp_thread = t, dp_messages = py_sorted ms_seq (thread_messages db tenant tid),
         dp_parts = py_sorted pt_index (filter (\<lambda>p. pt_thread p = tid \<and> pt_tenant p = tenant) (db_parts db)),
         dp_events = py_sorted ev_seq (filter (\<lambda>e. ev_thread e = tid \<and> ev_tenant e = tenant) (db_events db))\<rparr>)
       (get_thread db tenant tid)"

section \<open>Writes\<close>

definition add_event :: "string \<Rightarrow> string \<Rightarrow> int \<Rightarrow> string \<Rightarrow> string option \<Rightarrow> jobj \<Rightarrow> thread_db \<Rightarrow> thread_db" where
  "add_event tenant tid seq ty req payload db =
     db\<lparr>db_events := db_events db @ [\<lparr>ev_thread = tid, ev_tenant = tenant, ev_seq = seq, ev_type = ty, ev_request_id = req, ev_payload = payload\<rparr>]\<rparr>"

definition update_thread :: "string \<Rightarrow> string \<Rightarrow> (thread_row \<Rightarrow> thread_row) \<Rightarrow> thread_db \<Rightarrow> thread_db" where
  "update_thread tenant tid f db = db\<lparr>db_threads := map (\<lambda>t. if th_tenant t = tenant \<and> th_id t = tid then f t else t) (db_threads db)\<rparr>"

definition fresh_thread :: "string \<Rightarrow> string \<Rightarrow> string \<Rightarrow> string option \<Rightarrow> string option \<Rightarrow> time \<Rightarrow> thread_row" where
  "fresh_thread tid tenant conv surface end_user now =
     \<lparr>th_id = tid, th_tenant = tenant, th_conversation = conv, th_surface = surface, th_end_user = end_user, th_status = ''active'',
      th_summary_block = None, th_summary_position = None, th_summary_version = 0, th_forked_from = None, th_archived = False,
      th_created_at = now\<rparr>"

definition create_thread ::
  "string \<Rightarrow> string \<Rightarrow> string option \<Rightarrow> string option \<Rightarrow> string option \<Rightarrow> string \<Rightarrow> time \<Rightarrow> thread_db \<Rightarrow> thread_db" where
  "create_thread tenant conv surface end_user req tid now db =
     add_event tenant tid 1 ''thread.created'' req [(''conversation_id'', JStr conv)]
       (db\<lparr>db_threads := db_threads db @ [fresh_thread tid tenant conv surface end_user now]\<rparr>)"

definition get_or_create_for_conversation ::
  "string \<Rightarrow> string \<Rightarrow> string option \<Rightarrow> string option \<Rightarrow> string \<Rightarrow> time \<Rightarrow> thread_db \<Rightarrow> (store_error + thread_row option) \<times> thread_db" where
  "get_or_create_for_conversation tenant conv surface end_user tid now db =
     (case filter (\<lambda>t. th_tenant t = tenant \<and> th_conversation t = conv) (db_threads db) of
        [] \<Rightarrow> (let db1 = create_thread tenant conv surface end_user None tid now db in (Inr (get_thread db1 tenant tid), db1))
      | [t] \<Rightarrow> (Inr (Some t), db)
      | _ \<Rightarrow> (Inl MultipleResultsFound, db))"

text \<open>Deleting a thread cascades to its parts and events; messages reference it by value only.\<close>

definition delete_by_end_user :: "string \<Rightarrow> string \<Rightarrow> thread_db \<Rightarrow> nat \<times> thread_db" where
  "delete_by_end_user tenant end_user db =
     (let gone = filter (\<lambda>t. th_tenant t = tenant \<and> th_end_user t = Some end_user) (db_threads db); ids = map th_id gone
      in (length gone, db\<lparr>db_threads := filter (\<lambda>t. t \<notin> set gone) (db_threads db),
            db_parts := filter (\<lambda>p. pt_thread p \<notin> set ids) (db_parts db),
            db_events := filter (\<lambda>e. ev_thread e \<notin> set ids) (db_events db)\<rparr>))"

text \<open>\<open>ConversationRepository.delete_messages_by_end_user\<close>; the parts of a message go with it.\<close>

definition delete_messages_by_end_user :: "string \<Rightarrow> string \<Rightarrow> thread_db \<Rightarrow> nat \<times> thread_db" where
  "delete_messages_by_end_user tenant end_user db =
     (let gone = filter (\<lambda>m. ms_tenant m = tenant \<and> ms_end_user m = Some end_user) (db_messages db)
      in (length gone, db\<lparr>db_messages := filter (\<lambda>m. \<not> (ms_tenant m = tenant \<and> ms_end_user m = Some end_user)) (db_messages db),
            db_parts := filter (\<lambda>p. pt_message p \<notin> set (map ms_id gone)) (db_parts db)\<rparr>))"

record extra_part =
  xp_type :: string
  xp_content :: "jobj option"
  xp_redacted :: "jobj option"

text \<open>The keyword arguments of \<open>append_message\<close>.\<close>

record append_args =
  ap_role :: string
  ap_content :: string
  ap_redacted :: "string option"
  ap_conversation :: string
  ap_request_id :: "string option"
  ap_parent :: "string option"
  ap_surface :: "string option"
  ap_end_user :: "string option"
  ap_metadata :: jobj
  ap_extra_parts :: "extra_part list"

definition redaction_of :: "append_args \<Rightarrow> string" where
  "redaction_of a = str_or (ap_redacted a) (ap_content a)"

definition parts_of :: "append_args \<Rightarrow> (string \<times> jobj \<times> jobj) list" where
  "parts_of a = (''text'', [(''text'', JStr (ap_content a))], [(''text'', JStr (redaction_of a))]) #
     map (\<lambda>x. (xp_type x, get_or (xp_content x) [], get_or (xp_redacted x) (get_or (xp_content x) []))) (ap_extra_parts a)"

definition new_message :: "string \<Rightarrow> string \<Rightarrow> append_args \<Rightarrow> int \<Rightarrow> string \<Rightarrow> time \<Rightarrow> message_row" where
  "new_message tenant tid a seq mid now =
     \<lparr>ms_id = mid, ms_conversation = ap_conversation a, ms_tenant = tenant, ms_thread = tid, ms_seq = seq, ms_request_id = ap_request_id a,
      ms_parent = ap_parent a, ms_surface = ap_surface a, ms_end_user = ap_end_user a, ms_role = ap_role a, ms_content = ap_content a,
      ms_redacted = redaction_of a, ms_metadata = ap_metadata a, ms_created_at = now\<rparr>"

definition new_parts :: "string \<Rightarrow> string \<Rightarrow> string \<Rightarrow> (string \<times> jobj \<times> jobj) list \<Rightarrow> part_row list" where
  "new_parts tenant tid mid ps = map (\<lambda>(i, (ty, c, r)). \<lparr>pt_message = mid, pt_thread = tid, pt_tenant = tenant, pt_type = ty,
     pt_index = int i, pt_content = c, pt_redacted = r\<rparr>) (zip [0..<length ps] ps)"

text \<open>The schema's constraints on a new message: its conversation exists and its request id is unused, by any tenant.\<close>

definition message_allowed :: "thread_db \<Rightarrow> append_args \<Rightarrow> bool" where
  "message_allowed db a \<longleftrightarrow> ap_conversation a \<in> set (db_conversations db) \<and>
     (ap_request_id a = None \<or> ap_request_id a \<notin> set (map ms_request_id (db_messages db)))"

definition insert_message :: "string \<Rightarrow> string \<Rightarrow> append_args \<Rightarrow> string \<Rightarrow> time \<Rightarrow> thread_db \<Rightarrow> message_row \<times> thread_db" where
  "insert_message tenant tid a mid now db =
     (let m = new_message tenant tid a (max_message_seq db tid + 1) mid now
      in (m, add_event tenant tid (max_event_seq db tid) ''message.appended'' (ap_request_id a)
               [(''message_id'', JStr mid), (''role'', JStr (ap_role a)), (''parent_message_id'', opt_json (ap_parent a))]
               (db\<lparr>db_messages := db_messages db @ [m], db_parts := db_parts db @ new_parts tenant tid mid (parts_of a)\<rparr>)))"

definition append_message ::
  "string \<Rightarrow> string \<Rightarrow> append_args \<Rightarrow> string \<Rightarrow> time \<Rightarrow> thread_db \<Rightarrow> (store_error + message_row \<times> bool) \<times> thread_db" where
  "append_message tenant tid a mid now db =
     (case (if truthy_str (ap_request_id a)
            then filter (\<lambda>m. ms_tenant m = tenant \<and> ms_request_id m = ap_request_id a) (db_messages db) else []) of
        [] \<Rightarrow>
          (if get_thread db tenant tid = None then (Inl (ThreadNotFoundError tid), db)
           else if \<not> message_allowed db a then (Inl IntegrityError, db)
           else case insert_message tenant tid a mid now db of (m, db1) \<Rightarrow> (Inr (m, False), db1))
      | [m] \<Rightarrow> (Inr (m, True), db)
      | _ \<Rightarrow> (Inl MultipleResultsFound, db))"

definition append_event ::
  "string \<Rightarrow> string \<Rightarrow> string \<Rightarrow> jobj \<Rightarrow> string option \<Rightarrow> thread_db \<Rightarrow> (store_error + int) \<times> thread_db" where
  "append_event tenant tid ty payload req db =
     (if get_thread db tenant tid = None then (Inl (ThreadNotFoundError tid), db)
      else let seq = last_event_seq db tid + 1 in (Inr seq, add_event tenant tid seq ty req payload db))"

definition compaction_part :: "string \<Rightarrow> string \<Rightarrow> summary_block \<Rightarrow> string \<Rightarrow> bool \<Rightarrow> thread_db \<Rightarrow> part_row" where
  "compaction_part tenant tid block boundary degraded db =
     \<lparr>pt_message = boundary, pt_thread = tid, pt_tenant = tenant, pt_type = ''compaction'',
      pt_index = max_or_zero (map pt_index (filter (\<lambda>p. pt_message p = boundary) (db_parts db))) + 1,
      pt_content = [(''summary'', JObj (sb_payload block)), (''degraded'', JBool degraded)],
      pt_redacted = [(''summary'', JStr (sb_content block)), (''degraded'', JBool degraded)]\<rparr>"

text \<open>The result of \<open>set_summary\<close>: version, position and the number of the event.\<close>

definition set_summary ::
  "string \<Rightarrow> string \<Rightarrow> summary_block \<Rightarrow> int \<Rightarrow> string \<Rightarrow> string option \<Rightarrow> bool \<Rightarrow> thread_db \<Rightarrow> (store_error + int \<times> int \<times> int) \<times> thread_db" where
  "set_summary tenant tid block position boundary req degraded db =
     (case get_thread db tenant tid of
        None \<Rightarrow> (Inl (ThreadNotFoundError tid), db)
      | Some row \<Rightarrow>
          if boundary \<notin> set (map ms_id (db_messages db)) then (Inl IntegrityError, db)
          else let version = th_summary_version row + 1; seq = max_event_seq db tid + 1;
                   db1 = update_thread tenant tid (\<lambda>t. t\<lparr>th_summary_block := Some block, th_summary_position := Some position,
                           th_summary_version := version\<rparr>) db;
                   db2 = add_event tenant tid seq ''compaction'' req [(''summary_version'', JInt version), (''position'', JInt position),
                           (''boundary_message_id'', JStr boundary), (''degraded'', JBool degraded)] db1
               in (Inr (version, position, seq), db2\<lparr>db_parts := db_parts db2 @ [compaction_part tenant tid block boundary degraded db]\<rparr>))"

definition set_archived :: "string \<Rightarrow> string \<Rightarrow> bool \<Rightarrow> string option \<Rightarrow> thread_db \<Rightarrow> (store_error + int) \<times> thread_db" where
  "set_archived tenant tid archived req db =
     (if get_thread db tenant tid = None then (Inl (ThreadNotFoundError tid), db)
      else let seq = max_event_seq db tid + 1
           in (Inr seq, add_event tenant tid seq (if archived then ''thread.archive'' else ''thread.restore'') req [(''archived'', JBool archived)]
                 (update_thread tenant tid (\<lambda>t. t\<lparr>th_archived := archived\<rparr>) db)))"

definition clear_part :: "string \<Rightarrow> part_row \<Rightarrow> part_row" where
  "clear_part placeholder p = (let use = obj_get (pt_content p) ''tool_use_id''
     in p\<lparr>pt_content := [(''tool_use_id'', use), (''cleared'', JBool True)],
          pt_redacted := [(''tool_use_id'', use), (''cleared'', JBool True), (''placeholder'', JStr placeholder)]\<rparr>)"

definition clearable :: "thread_db \<Rightarrow> string \<Rightarrow> string \<Rightarrow> int \<Rightarrow> part_row list" where
  "clearable db tenant tid keep =
     map fst (filter (\<lambda>(p, m). ms_seq m \<le> max_message_seq db tid - keep \<and> \<not> is_cleared p) (tool_results db tenant tid))"

text \<open>The counts of cleared parts and affected messages.\<close>

definition clear_tool_results ::
  "string \<Rightarrow> string \<Rightarrow> int \<Rightarrow> string \<Rightarrow> string option \<Rightarrow> thread_db \<Rightarrow> (store_error + nat \<times> nat) \<times> thread_db" where
  "clear_tool_results tenant tid keep placeholder req db =
     (if get_thread db tenant tid = None then (Inl (ThreadNotFoundError tid), db)
      else let eligible = clearable db tenant tid keep
           in if eligible = [] then (Inr (0, 0), db)
              else let cleared = length eligible; affected = length (remdups (map pt_message eligible))
                   in (Inr (cleared, affected),
                       add_event tenant tid (max_event_seq db tid + 1) ''tool_result.clear'' req
                         [(''cleared'', JInt (int cleared)), (''messages_affected'', JInt (int affected)), (''keep_recent_turns'', JInt keep)]
                         (db\<lparr>db_parts := map (\<lambda>p. if p \<in> set eligible then clear_part placeholder p else p) (db_parts db)\<rparr>)))"

section \<open>Fork\<close>

text \<open>\<open>metadata.update\<close> of the two fork keys.\<close>

definition fork_metadata :: "string \<Rightarrow> int \<Rightarrow> jobj \<Rightarrow> jobj" where
  "fork_metadata src at_seq md = AList.update ''forked_at_seq'' (JInt at_seq) (AList.update ''forked_from'' (JStr src) md)"

definition copy_parts :: "string \<Rightarrow> string \<Rightarrow> string \<Rightarrow> string \<Rightarrow> part_row list \<Rightarrow> part_row list" where
  "copy_parts tenant new_tid old_mid new_mid ps =
     map (\<lambda>p. p\<lparr>pt_message := new_mid, pt_thread := new_tid\<rparr>) (filter (\<lambda>p. pt_tenant p = tenant \<and> pt_message p = old_mid) ps)"

text \<open>The copies, with the map from old to new identifiers; \<open>ids\<close> yields the new ones.\<close>

fun copy_messages ::
  "string \<Rightarrow> string \<Rightarrow> string \<Rightarrow> int \<Rightarrow> string \<Rightarrow> (nat \<Rightarrow> string) \<Rightarrow> (string \<times> string) list \<Rightarrow> nat \<Rightarrow> message_row list \<Rightarrow> message_row list" where
  "copy_messages tenant src new_tid at_seq conv ids id_map n [] = []"
| "copy_messages tenant src new_tid at_seq conv ids id_map n (m # ms) =
     (let id_map1 = AList.update (ms_id m) (ids n) id_map
      in m\<lparr>ms_id := ids n, ms_conversation := conv, ms_tenant := tenant, ms_thread := new_tid, ms_request_id := None,
           ms_parent := (if truthy_str (ms_parent m) then map_of id_map1 (the (ms_parent m)) else None),
           ms_metadata := fork_metadata src at_seq (ms_metadata m)\<rparr>
         # copy_messages tenant src new_tid at_seq conv ids id_map1 (n + 1) ms)"

definition fork_thread ::
  "string \<Rightarrow> string \<Rightarrow> int \<Rightarrow> string \<Rightarrow> string option \<Rightarrow> string \<Rightarrow> (nat \<Rightarrow> string) \<Rightarrow> time \<Rightarrow> thread_db
     \<Rightarrow> (store_error + thread_row option) \<times> thread_db" where
  "fork_thread tenant src at_seq conv req new_tid ids now db =
     (case get_thread db tenant src of
        None \<Rightarrow> (Inl (ThreadNotFoundError src), db)
      | Some row \<Rightarrow>
          let source = py_sorted ms_seq (filter (\<lambda>m. ms_seq m \<le> at_seq) (thread_messages db tenant src))
          in if (0 < at_seq \<and> source = []) \<or> max_message_seq db src < at_seq then (Inl (ForkPointOutOfRange at_seq), db)
             else if source \<noteq> [] \<and> conv \<notin> set (db_conversations db) then (Inl IntegrityError, db)
             else let db1 = db\<lparr>db_threads := db_threads db @ [fresh_thread new_tid tenant conv (th_surface row) (th_end_user row) now]\<rparr>;
                      db2 = add_event tenant new_tid 1 ''thread.created'' req [(''conversation_id'', JStr conv), (''forked_from'', JStr src)] db1;
                      db3 = add_event tenant new_tid 2 ''thread.forked'' req [(''source_thread_id'', JStr src), (''at_seq'', JInt at_seq)] db2;
                      db4 = db3\<lparr>db_messages := db_messages db3 @ copy_messages tenant src new_tid at_seq conv ids [] 0 source,
                                db_parts := db_parts db3 @ concat (map (\<lambda>(i, m). copy_parts tenant new_tid (ms_id m) (ids i) (db_parts db))
                                              (zip [0..<length source] source))\<rparr>;
                      db5 = add_event tenant src (last_event_seq db src + 1) ''thread.forked'' req
                              [(''new_thread_id'', JStr new_tid), (''at_seq'', JInt at_seq)] db4
                  in (Inr (get_thread db5 tenant new_tid), db5))"

section \<open>Invariant\<close>

definition log_seqs :: "thread_db \<Rightarrow> string \<Rightarrow> int list" where
  "log_seqs db tid = map ms_seq (filter (\<lambda>m. ms_thread m = tid) (db_messages db))"

definition event_seqs :: "thread_db \<Rightarrow> string \<Rightarrow> int list" where
  "event_seqs db tid = map ev_seq (filter (\<lambda>e. ev_thread e = tid) (db_events db))"

definition owners_agree :: "thread_db \<Rightarrow> bool" where
  "owners_agree db \<longleftrightarrow> (\<forall>m \<in> set (db_messages db). \<forall>t \<in> set (db_threads db). ms_thread m = th_id t \<longrightarrow> ms_tenant m = th_tenant t)"

definition db_inv :: "thread_db \<Rightarrow> bool" where
  "db_inv db \<longleftrightarrow> (\<forall>tid. sorted_wrt (<) (log_seqs db tid)) \<and> (\<forall>tid. sorted_wrt (<) (event_seqs db tid)) \<and>
     distinct (map th_id (db_threads db)) \<and> owners_agree db"

definition fresh_tid :: "thread_db \<Rightarrow> string \<Rightarrow> bool" where
  "fresh_tid db tid \<longleftrightarrow> tid \<notin> set (map th_id (db_threads db)) \<and> tid \<notin> set (map ms_thread (db_messages db)) \<and>
     tid \<notin> set (map ev_thread (db_events db))"

text \<open>The transactions, in any order.\<close>

inductive store_step :: "thread_db \<Rightarrow> thread_db \<Rightarrow> bool" where
  create: "fresh_tid db tid \<Longrightarrow> store_step db (create_thread tenant conv surface eu req tid now db)"
| get_or_create: "fresh_tid db tid \<Longrightarrow> store_step db (snd (get_or_create_for_conversation tenant conv surface eu tid now db))"
| erase_threads: "store_step db (snd (delete_by_end_user tenant eu db))"
| erase_messages: "store_step db (snd (delete_messages_by_end_user tenant eu db))"
| append: "store_step db (snd (append_message tenant tid a mid now db))"
| event: "store_step db (snd (append_event tenant tid ty payload req db))"
| summary: "store_step db (snd (set_summary tenant tid block position boundary req degraded db))"
| archive: "store_step db (snd (set_archived tenant tid archived req db))"
| clear: "store_step db (snd (clear_tool_results tenant tid keep placeholder req db))"
| conversation: "store_step db (db\<lparr>db_conversations := db_conversations db @ [conv]\<rparr>)"
| fork: "fresh_tid db new_tid \<Longrightarrow> store_step db (snd (fork_thread tenant src at_seq conv req new_tid ids now db))"

inductive store_reaches :: "thread_db \<Rightarrow> thread_db \<Rightarrow> bool" where
  start: "store_reaches db db"
| step: "store_reaches db db1 \<Longrightarrow> store_step db1 db2 \<Longrightarrow> store_reaches db db2"

section \<open>Lemmas\<close>

lemma max_or_zero_ge: "x \<in> set xs \<Longrightarrow> x \<le> max_or_zero xs"
  by (cases xs) (auto simp: max_or_zero_def Max.set_eq_fold [symmetric] simp del: Max_insert fold_simps intro: Max_ge)

lemma ascending_snoc: "sorted_wrt (<) (xs @ [x]) \<longleftrightarrow> sorted_wrt (<) xs \<and> (\<forall>y \<in> set xs. y < x)"
  by (auto simp: sorted_wrt_append)

lemma ascending_filter: "sorted_wrt (<) (map f xs) \<Longrightarrow> sorted_wrt (<) (map f (filter P xs))"
  by (induction xs) auto

lemma ascending_filter2: "sorted_wrt (<) (map f (filter Q xs)) \<Longrightarrow> sorted_wrt (<) (map f (filter Q (filter P xs)))"
  by (induction xs) auto

lemma get_threadD: "get_thread db tenant tid = Some t \<Longrightarrow> t \<in> set (db_threads db) \<and> th_tenant t = tenant \<and> th_id t = tid"
  unfolding get_thread_def by (drule find_SomeD) simp

lemma next_seq_above: "n \<in> set (log_seqs db tid) \<Longrightarrow> n < max_message_seq db tid + 1"
  unfolding log_seqs_def max_message_seq_def by (drule max_or_zero_ge) simp

lemma next_event_above: "n \<in> set (event_seqs db tid) \<Longrightarrow> n < last_event_seq db tid + 1"
  unfolding event_seqs_def last_event_seq_def by (drule max_or_zero_ge) simp

lemma add_event_fields [simp]:
  "db_threads (add_event tn tid seq ty req pl db) = db_threads db" "db_messages (add_event tn tid seq ty req pl db) = db_messages db"
  "db_parts (add_event tn tid seq ty req pl db) = db_parts db" "db_conversations (add_event tn tid seq ty req pl db) = db_conversations db"
  "event_seqs (add_event tn tid seq ty req pl db) t = event_seqs db t @ (if t = tid then [seq] else [])"
  by (simp_all add: add_event_def event_seqs_def)

lemma update_thread_fields [simp]:
  "db_messages (update_thread tn tid f db) = db_messages db" "db_events (update_thread tn tid f db) = db_events db"
  "db_parts (update_thread tn tid f db) = db_parts db" "db_conversations (update_thread tn tid f db) = db_conversations db"
  by (simp_all add: update_thread_def)

lemma fresh_thread_fields [simp]:
  "th_id (fresh_thread tid tn conv sf eu now) = tid" "th_tenant (fresh_thread tid tn conv sf eu now) = tn"
  by (simp_all add: fresh_thread_def)

lemma seqs_cong [simp]:
  "log_seqs (db\<lparr>db_threads := x\<rparr>) t = log_seqs db t" "log_seqs (db\<lparr>db_parts := y\<rparr>) t = log_seqs db t"
  "log_seqs (add_event tn tid seq ty req pl db) t = log_seqs db t" "log_seqs (update_thread tn tid f db) t = log_seqs db t"
  "event_seqs (db\<lparr>db_threads := x\<rparr>) t = event_seqs db t" "event_seqs (db\<lparr>db_parts := y\<rparr>) t = event_seqs db t"
  "event_seqs (db\<lparr>db_messages := ms\<rparr>) t = event_seqs db t" "event_seqs (update_thread tn tid f db) t = event_seqs db t"
  by (simp_all add: log_seqs_def event_seqs_def)

lemma log_seqs_append [simp]:
  "log_seqs (db\<lparr>db_messages := db_messages db @ ms\<rparr>) t = log_seqs db t @ map ms_seq (filter (\<lambda>m. ms_thread m = t) ms)"
  by (simp add: log_seqs_def)

text \<open>An event with a number beyond those used, and an update that keeps the keys of a thread, preserve the invariant.\<close>

lemma inv_add_event:
  assumes "db_inv db" and "last_event_seq db tid < seq"
  shows "db_inv (add_event tn tid seq ty req pl db)"
proof -
  have "n < seq" if "n \<in> set (event_seqs db tid)" for n using next_event_above [OF that] assms(2) by linarith
  then show ?thesis using assms(1) by (auto simp: db_inv_def owners_agree_def sorted_wrt_append)
qed

lemma inv_update_thread:
  assumes "db_inv db" and "\<And>t. th_id (f t) = th_id t" and "\<And>t. th_tenant (f t) = th_tenant t"
  shows "db_inv (update_thread tn tid f db)"
proof -
  let ?g = "\<lambda>t. if th_tenant t = tn \<and> th_id t = tid then f t else t"
  have ids: "map th_id (db_threads (update_thread tn tid f db)) = map th_id (db_threads db)"
    using assms(2) by (simp add: update_thread_def)
  have "owners_agree (update_thread tn tid f db)"
    using assms by (auto simp: owners_agree_def db_inv_def update_thread_def)
  then show ?thesis using assms(1) unfolding db_inv_def ids by simp
qed

lemma inv_parts: "db_inv (db\<lparr>db_parts := ps\<rparr>) = db_inv db"
  by (simp add: db_inv_def owners_agree_def)

lemma last_event_parts [simp]:
  "last_event_seq (db\<lparr>db_parts := ps\<rparr>) t = last_event_seq db t" "last_event_seq (db\<lparr>db_messages := ms\<rparr>) t = last_event_seq db t"
  "last_event_seq (db\<lparr>db_threads := ts\<rparr>) t = last_event_seq db t" "last_event_seq (update_thread tn tid f db) t = last_event_seq db t"
  by (simp_all add: last_event_seq_def)

lemma inv_create:
  assumes "db_inv db" and "fresh_tid db tid"
  shows "db_inv (create_thread tn conv sf eu req tid now db)"
proof -
  let ?db = "db\<lparr>db_threads := db_threads db @ [fresh_thread tid tn conv sf eu now]\<rparr>"
  have "owners_agree ?db" using assms by (auto simp: db_inv_def owners_agree_def fresh_tid_def)
  then have "db_inv ?db" using assms by (auto simp: db_inv_def fresh_tid_def)
  moreover have "event_seqs db tid = []" using assms(2) by (auto simp: fresh_tid_def event_seqs_def filter_empty_conv)
  then have "last_event_seq ?db tid < 1" by (simp add: last_event_seq_def event_seqs_def max_or_zero_def)
  ultimately show ?thesis unfolding create_thread_def by (rule inv_add_event)
qed

lemma inv_insert:
  assumes "db_inv db" and t: "get_thread db tn tid \<noteq> None"
  shows "db_inv (snd (insert_message tn tid a mid now db))"
proof -
  let ?m = "new_message tn tid a (max_message_seq db tid + 1) mid now"
  let ?db = "db\<lparr>db_messages := db_messages db @ [?m]\<rparr>"
  obtain row where row: "row \<in> set (db_threads db)" "th_tenant row = tn" "th_id row = tid" using t get_threadD by blast
  have "distinct (map th_id (db_threads db))" using assms(1) by (simp add: db_inv_def)
  then have "th_tenant r = tn" if "r \<in> set (db_threads db)" "th_id r = tid" for r
    using that row by (metis distinct_map inj_on_eq_iff)
  then have "owners_agree ?db" using assms(1) by (auto simp: db_inv_def owners_agree_def new_message_def)
  moreover have "sorted_wrt (<) (log_seqs ?db x)" for x
    using assms(1) next_seq_above [of _ db tid] by (auto simp: db_inv_def sorted_wrt_append new_message_def)
  ultimately have "db_inv ?db" using assms(1) by (simp add: db_inv_def)
  then show ?thesis
    by (simp add: insert_message_def Let_def, intro inv_add_event) (simp_all add: inv_parts max_event_seq_def)
qed

lemma inv_append: "db_inv db \<Longrightarrow> db_inv (snd (append_message tn tid a mid now db))"
  using inv_insert [of db tn tid a mid now] by (auto simp: append_message_def split: list.splits if_splits prod.splits)

lemma inv_event: "db_inv db \<Longrightarrow> db_inv (snd (append_event tn tid ty pl req db))"
  by (auto simp: append_event_def Let_def intro: inv_add_event)

lemma inv_summary: "db_inv db \<Longrightarrow> db_inv (snd (set_summary tn tid block pos bnd req dg db))"
  by (auto simp: set_summary_def Let_def inv_parts max_event_seq_def split: option.split intro!: inv_add_event inv_update_thread)

lemma inv_archived: "db_inv db \<Longrightarrow> db_inv (snd (set_archived tn tid ar req db))"
  by (auto simp: set_archived_def Let_def max_event_seq_def intro!: inv_add_event inv_update_thread)

lemma inv_clear: "db_inv db \<Longrightarrow> db_inv (snd (clear_tool_results tn tid keep ph req db))"
  by (auto simp: clear_tool_results_def Let_def max_event_seq_def inv_parts intro!: inv_add_event)

lemma inv_erase_threads: "db_inv db \<Longrightarrow> db_inv (snd (delete_by_end_user tn eu db))"
proof -
  assume inv: "db_inv db"
  let ?db = "snd (delete_by_end_user tn eu db)"
  obtain P where P: "db_events ?db = filter P (db_events db)" by (simp add: delete_by_end_user_def Let_def)
  have "sorted_wrt (<) (map ev_seq (filter (\<lambda>e. ev_thread e = t) (db_events db)))" for t using inv by (simp add: db_inv_def event_seqs_def)
  then have "sorted_wrt (<) (event_seqs ?db t)" for t
    unfolding event_seqs_def P by (rule ascending_filter2)
  moreover have "log_seqs ?db t = log_seqs db t" for t by (simp add: delete_by_end_user_def Let_def log_seqs_def)
  moreover have "\<exists>P. db_threads ?db = filter P (db_threads db)" by (auto simp: delete_by_end_user_def Let_def)
  then have "distinct (map th_id (db_threads ?db))" "set (db_threads ?db) \<subseteq> set (db_threads db)"
    using inv by (auto simp: db_inv_def distinct_map_filter)
  moreover have "db_messages ?db = db_messages db" by (simp add: delete_by_end_user_def Let_def)
  ultimately show ?thesis using inv by (auto simp: db_inv_def owners_agree_def)
qed

lemma inv_erase_messages: "db_inv db \<Longrightarrow> db_inv (snd (delete_messages_by_end_user tn eu db))"
proof -
  assume inv: "db_inv db"
  let ?db = "snd (delete_messages_by_end_user tn eu db)"
  obtain P where P: "db_messages ?db = filter P (db_messages db)" by (simp add: delete_messages_by_end_user_def Let_def)
  have "sorted_wrt (<) (map ms_seq (filter (\<lambda>m. ms_thread m = t) (db_messages db)))" for t using inv by (simp add: db_inv_def log_seqs_def)
  then have "sorted_wrt (<) (log_seqs ?db t)" for t
    unfolding log_seqs_def P by (rule ascending_filter2)
  moreover have "event_seqs ?db t = event_seqs db t" for t by (simp add: delete_messages_by_end_user_def Let_def event_seqs_def)
  moreover have "db_threads ?db = db_threads db" "set (db_messages ?db) \<subseteq> set (db_messages db)"
    by (auto simp: delete_messages_by_end_user_def Let_def)
  ultimately show ?thesis using inv by (auto simp: db_inv_def owners_agree_def)
qed

text \<open>Copies keep number, role and texts.\<close>

lemma copy_messages_map:
  "length (copy_messages tn src new at_seq conv ids im n ms) = length ms \<and>
   map ms_seq (copy_messages tn src new at_seq conv ids im n ms) = map ms_seq ms \<and>
   map (\<lambda>m. (ms_role m, ms_content m, ms_redacted m)) (copy_messages tn src new at_seq conv ids im n ms) =
     map (\<lambda>m. (ms_role m, ms_content m, ms_redacted m)) ms \<and>
   list_all (\<lambda>m. ms_thread m = new \<and> ms_tenant m = tn) (copy_messages tn src new at_seq conv ids im n ms)"
  by (induction ms arbitrary: im n) (auto simp: Let_def)

lemma copy_messages_texts:
  "map (\<lambda>m. (ms_seq m, ms_role m, ms_content m, ms_redacted m)) (copy_messages tn src new at_seq conv ids im n ms) =
     map (\<lambda>m. (ms_seq m, ms_role m, ms_content m, ms_redacted m)) ms"
  by (induction ms arbitrary: im n) (auto simp: Let_def)

lemma copy_parents:
  "ms_parent ` set (copy_messages tn src new at_seq conv ids im n ms) \<subseteq>
     insert None (Some ` (snd ` set im \<union> ms_id ` set (copy_messages tn src new at_seq conv ids im n ms)))"
proof (induction ms arbitrary: im n)
  case (Cons m ms)
  let ?im = "AList.update (ms_id m) (ids n) im"
  have im: "snd ` set ?im \<subseteq> insert (ids n) (snd ` set im)" by (induction im) auto
  have "map_of ?im k = Some v \<Longrightarrow> v \<in> insert (ids n) (snd ` set im)" for k v using subsetD [OF im, of v] by (force dest: map_of_SomeD)
  then have "map_of ?im (the (ms_parent m)) \<in> insert None (Some ` insert (ids n) (snd ` set im))"
    by (cases "map_of ?im (the (ms_parent m))") auto
  moreover have "ms_parent ` set (copy_messages tn src new at_seq conv ids ?im (n + 1) ms) \<subseteq>
      insert None (Some ` (insert (ids n) (snd ` set im) \<union> ms_id ` set (copy_messages tn src new at_seq conv ids ?im (n + 1) ms)))"
    by (rule subset_trans [OF Cons.IH [of ?im "n + 1"]]) (use im in \<open>auto simp: image_iff\<close>)
  ultimately show ?case by (auto simp: Let_def image_Un)
qed simp

text \<open>The messages a fork copies.\<close>

definition fork_source :: "thread_db \<Rightarrow> string \<Rightarrow> string \<Rightarrow> int \<Rightarrow> message_row list" where
  "fork_source db tn src at_seq = filter (\<lambda>m. ms_seq m \<le> at_seq) (thread_messages db tn src)"

lemma thread_messages_ascending: "db_inv db \<Longrightarrow> sorted_wrt (<) (map ms_seq (thread_messages db tn tid))"
proof -
  assume "db_inv db"
  then have "sorted_wrt (<) (map ms_seq (filter (\<lambda>m. ms_thread m = tid) (db_messages db)))" by (simp add: db_inv_def log_seqs_def)
  then have "sorted_wrt (<) (map ms_seq (filter (\<lambda>m. ms_tenant m = tn) (filter (\<lambda>m. ms_thread m = tid) (db_messages db))))"
    by (rule ascending_filter)
  then show ?thesis by (simp add: thread_messages_def conj_commute)
qed

text \<open>What a fork commits.\<close>

definition forked ::
  "string \<Rightarrow> string \<Rightarrow> int \<Rightarrow> string \<Rightarrow> string option \<Rightarrow> string \<Rightarrow> (nat \<Rightarrow> string) \<Rightarrow> thread_row \<Rightarrow> part_row list \<Rightarrow> thread_db \<Rightarrow> thread_db" where
  "forked tn src at_seq conv req new ids row parts db =
     add_event tn src (last_event_seq db src + 1) ''thread.forked'' req [(''new_thread_id'', JStr new), (''at_seq'', JInt at_seq)]
       ((add_event tn new 2 ''thread.forked'' req [(''source_thread_id'', JStr src), (''at_seq'', JInt at_seq)]
         (add_event tn new 1 ''thread.created'' req [(''conversation_id'', JStr conv), (''forked_from'', JStr src)]
           (db\<lparr>db_threads := db_threads db @ [row]\<rparr>)))
         \<lparr>db_messages := db_messages db @ copy_messages tn src new at_seq conv ids [] 0 (fork_source db tn src at_seq), db_parts := parts\<rparr>)"

lemma fork_cases:
  assumes "db_inv db" and "fork_thread tn src at_seq conv req new ids now db = (r, db')"
  obtains (error) e where "r = Inl e" and "db' = db"
  | (forks) row old parts where "r = Inr (get_thread db' tn new)" and "get_thread db tn src = Some old" and "at_seq \<le> max_message_seq db src"
      and "th_id row = new" and "th_tenant row = tn" and "th_end_user row = th_end_user old"
      and "db' = forked tn src at_seq conv req new ids row parts db"
proof -
  have sorted: "py_sorted ms_seq (filter (\<lambda>m. ms_seq m \<le> at_seq) (thread_messages db tn src)) = fork_source db tn src at_seq"
    unfolding fork_source_def by (intro py_sorted_ascending ascending_filter thread_messages_ascending assms(1))
  have eu: "th_end_user (fresh_thread i t c sf eu n) = eu" for i t c sf eu n by (simp add: fresh_thread_def)
  show thesis
  proof (cases "get_thread db tn src")
    case None
    then show thesis using assms(2) error by (auto simp: fork_thread_def)
  next
    case (Some old)
    let ?s = "fork_source db tn src at_seq" and ?row = "fresh_thread new tn conv (th_surface old) (th_end_user old) now"
    let ?db = "forked tn src at_seq conv req new ids ?row (db_parts db @ concat (map (\<lambda>(i, m). copy_parts tn new (ms_id m) (ids i) (db_parts db))
      (zip [0..<length ?s] ?s))) db"
    consider "(0 < at_seq \<and> ?s = []) \<or> max_message_seq db src < at_seq \<or> ?s \<noteq> [] \<and> conv \<notin> set (db_conversations db)"
      | "\<not> (0 < at_seq \<and> ?s = [])" "\<not> max_message_seq db src < at_seq" "\<not> (?s \<noteq> [] \<and> conv \<notin> set (db_conversations db))" by blast
    then show thesis
    proof cases
      case 1
      then have "\<exists>e. fork_thread tn src at_seq conv req new ids now db = (Inl e, db)" by (auto simp: fork_thread_def Some sorted Let_def)
      then show thesis using assms(2) error by auto
    next
      case 2
      then have "fork_thread tn src at_seq conv req new ids now db = (Inr (get_thread ?db tn new), ?db)"
        unfolding fork_thread_def Some option.case sorted Let_def forked_def by (simp del: add_event_fields(5))
      then have "r = Inr (get_thread db' tn new)" "db' = ?db" using assms(2) by auto
      then show thesis using 2 Some eu by (intro forks [of old ?row]) auto
    qed
  qed
qed

lemma fresh_tid_seqs: "fresh_tid db tid \<Longrightarrow> log_seqs db tid = [] \<and> event_seqs db tid = []"
  by (auto simp: fresh_tid_def log_seqs_def event_seqs_def filter_empty_conv)

lemma last_event_seqs: "last_event_seq db tid = max_or_zero (event_seqs db tid)"
  by (simp add: last_event_seq_def event_seqs_def)

lemma copies_in_thread:
  "filter (\<lambda>m. ms_thread m = t) (copy_messages tn src new at_seq conv ids im n ms) =
     (if t = new then copy_messages tn src new at_seq conv ids im n ms else [])"
  using copy_messages_map [of tn src new at_seq conv ids im n ms]
  by (auto simp: list_all_iff filter_empty_conv intro!: filter_True)

lemma inv_copy:
  assumes "db_inv db" and "db_messages db = ms" and "log_seqs db new = []"
    and "sorted_wrt (<) (map ms_seq source)" and "\<And>t. t \<in> set (db_threads db) \<Longrightarrow> th_id t = new \<Longrightarrow> th_tenant t = tn"
  shows "db_inv (db\<lparr>db_messages := ms @ copy_messages tn src new at_seq conv ids [] 0 source, db_parts := parts\<rparr>)"
proof -
  let ?c = "copy_messages tn src new at_seq conv ids [] 0 source"
  note c = copy_messages_map [of tn src new at_seq conv ids "[]" 0 source]
  have log: "log_seqs (db\<lparr>db_messages := ms @ ?c\<rparr>) t = log_seqs db t @ (if t = new then map ms_seq source else [])" for t
    using c unfolding assms(2) [symmetric] log_seqs_append copies_in_thread by simp
  have "sorted_wrt (<) (log_seqs (db\<lparr>db_messages := ms @ ?c\<rparr>) t)" for t
    using assms(1,3,4) unfolding log by (simp add: db_inv_def)
  moreover have "owners_agree (db\<lparr>db_messages := ms @ ?c\<rparr>)"
    using assms(1,2,5) c by (auto simp: db_inv_def owners_agree_def list_all_iff)
  ultimately have "db_inv (db\<lparr>db_messages := ms @ ?c\<rparr>)" using assms(1) by (simp add: db_inv_def)
  then show ?thesis by (simp add: inv_parts)
qed

lemma inv_forked:
  assumes "db_inv db" and "fresh_tid db new" and "th_id row = new" "th_tenant row = tn" and "src \<noteq> new"
  shows "db_inv (forked tn src at_seq conv req new ids row parts db)"
proof -
  let ?t = "db\<lparr>db_threads := db_threads db @ [row]\<rparr>"
  note fr = fresh_tid_seqs [OF assms(2)]
  have "ms_thread m \<noteq> new" if "m \<in> set (db_messages db)" for m using that assms(2) by (auto simp: fresh_tid_def)
  then have "owners_agree ?t" using assms(1,3) by (auto simp: db_inv_def owners_agree_def)
  then have "db_inv ?t" using assms by (auto simp: db_inv_def fresh_tid_def)
  then have "db_inv (add_event tn new 2 ''thread.forked'' req [(''source_thread_id'', JStr src), (''at_seq'', JInt at_seq)]
      (add_event tn new 1 ''thread.created'' req [(''conversation_id'', JStr conv), (''forked_from'', JStr src)] ?t))" (is "db_inv ?e")
    using fr by (intro inv_add_event) (simp_all add: last_event_seqs max_or_zero_def)
  moreover have "sorted_wrt (<) (map ms_seq (fork_source db tn src at_seq))"
    unfolding fork_source_def by (intro ascending_filter thread_messages_ascending assms(1))
  moreover have "th_tenant t = tn" if "t \<in> set (db_threads ?e)" "th_id t = new" for t using that assms(2,4) by (auto simp: fresh_tid_def)
  ultimately have "db_inv (?e\<lparr>db_messages := db_messages db @ copy_messages tn src new at_seq conv ids [] 0 (fork_source db tn src at_seq), db_parts := parts\<rparr>)"
    using fr by (intro inv_copy) simp_all
  then show ?thesis unfolding forked_def by (rule inv_add_event) (use assms(5) in \<open>simp add: last_event_seqs\<close>)
qed

lemma inv_fork:
  assumes "db_inv db" and "fresh_tid db new"
  shows "db_inv (snd (fork_thread tn src at_seq conv req new ids now db))"
proof -
  obtain r db' where f: "fork_thread tn src at_seq conv req new ids now db = (r, db')" by fastforce
  from assms(1) f show ?thesis
  proof (cases rule: fork_cases)
    case (forks row old parts)
    then have "src \<in> set (map th_id (db_threads db))" using get_threadD [of db tn src old] by force
    then have "src \<noteq> new" using assms(2) by (auto simp: fresh_tid_def)
    with forks inv_forked [OF assms, of row tn src] f show ?thesis by simp
  qed (use f assms(1) in simp)
qed

lemma inv_conversation: "db_inv db \<Longrightarrow> db_inv (db\<lparr>db_conversations := cs\<rparr>)"
  by (simp add: db_inv_def owners_agree_def log_seqs_def event_seqs_def)

lemmas inv_ops [inv_rules] = inv_conversation inv_create inv_append inv_event inv_summary inv_archived inv_clear inv_erase_threads inv_erase_messages inv_fork

lemma store_step_inv: "store_step db db' \<Longrightarrow> db_inv db \<Longrightarrow> db_inv db'"
proof (induction rule: store_step.induct)
  case (get_or_create db tid tenant conv surface eu now)
  then show ?case by (auto simp: get_or_create_for_conversation_def Let_def inv_rules split: list.split)
qed (simp_all add: inv_rules)

lemma store_reaches_inv: "store_reaches db db' \<Longrightarrow> db_inv db \<Longrightarrow> db_inv db'"
  by (induction rule: store_reaches.induct) (auto dest: store_step_inv)

lemma clear_part_fields [simp]:
  "pt_message (clear_part ph p) = pt_message p" "pt_thread (clear_part ph p) = pt_thread p" "pt_tenant (clear_part ph p) = pt_tenant p"
  "pt_type (clear_part ph p) = pt_type p" "is_cleared (clear_part ph p)"
  by (simp_all add: clear_part_def is_cleared_def obj_get_def get_or_def json_truthy_def Let_def)

lemma set_tool_results:
  "(p, m) \<in> set (tool_results db tn tid) \<longleftrightarrow>
     p \<in> set (db_parts db) \<and> m \<in> set (db_messages db) \<and> pt_tenant p = tn \<and> pt_thread p = tid \<and> pt_type p = ''tool_result'' \<and> ms_id m = pt_message p"
  by (auto simp: tool_results_def)

lemma set_clearable:
  "p \<in> set (clearable db tn tid keep) \<longleftrightarrow>
     (\<exists>m. (p, m) \<in> set (tool_results db tn tid) \<and> ms_seq m \<le> max_message_seq db tid - keep) \<and> \<not> is_cleared p"
  by (force simp: clearable_def)

lemma cleared_once:
  assumes "db_parts db' = map (\<lambda>p. if p \<in> set (clearable db tn tid keep) then clear_part ph p else p) (db_parts db)"
    and "db_messages db' = db_messages db"
  shows "clearable db' tn tid keep = []"
proof -
  have "max_message_seq db' tid = max_message_seq db tid" using assms(2) by (simp add: max_message_seq_def)
  then have same: "(p, m) \<in> set (tool_results db tn tid) \<Longrightarrow> ms_seq m \<le> max_message_seq db' tid - keep \<Longrightarrow> \<not> is_cleared p \<Longrightarrow>
      p \<in> set (clearable db tn tid keep)" for p m by (auto simp: set_clearable)
  have "p \<notin> set (clearable db' tn tid keep)" for p
  proof
    assume "p \<in> set (clearable db' tn tid keep)"
    then obtain m where m: "(p, m) \<in> set (tool_results db' tn tid)" "ms_seq m \<le> max_message_seq db' tid - keep" "\<not> is_cleared p"
      by (auto simp: set_clearable)
    then obtain q where q: "q \<in> set (db_parts db)" "p = (if q \<in> set (clearable db tn tid keep) then clear_part ph q else q)"
      by (auto simp: set_tool_results assms(1))
    then have "p = q" "q \<notin> set (clearable db tn tid keep)" using m(3) by (auto split: if_splits)
    moreover from this have "(p, m) \<in> set (tool_results db tn tid)" using m(1) q(1) by (simp add: set_tool_results assms(2))
    ultimately show False using same m by blast
  qed
  then show ?thesis by (metis list.set_intros(1) neq_Nil_conv)
qed

section \<open>Correctness\<close>

definition empty_db :: thread_db where
  "empty_db = \<lparr>db_conversations = [], db_threads = [], db_messages = [], db_parts = [], db_events = []\<rparr>"

lemma empty_db_inv: "db_inv empty_db"
  by (simp add: db_inv_def owners_agree_def log_seqs_def event_seqs_def empty_db_def)

lemma thread_messages_other:
  "thread_messages (db\<lparr>db_messages := db_messages db @ ms\<rparr>) tn tid = thread_messages db tn tid @ filter (\<lambda>m. ms_thread m = tid \<and> ms_tenant m = tn) ms"
  by (simp add: thread_messages_def)

lemma thread_messages_fields [simp]:
  "thread_messages (add_event x y z ty req pl db) tn tid = thread_messages db tn tid"
  "thread_messages (db\<lparr>db_parts := ps\<rparr>) tn tid = thread_messages db tn tid"
  "thread_messages (db\<lparr>db_threads := ts\<rparr>) tn tid = thread_messages db tn tid"
  by (simp_all add: thread_messages_def)

lemma list_messages_page:
  assumes "db_inv db"
  shows "list_messages db tn tid after n =
    (let rest = filter (\<lambda>m. case after of None \<Rightarrow> True | Some k \<Rightarrow> k < ms_seq m) (thread_messages db tn tid) in (take n rest, n < length rest))"
proof -
  have "py_sorted ms_seq (filter P (thread_messages db tn tid)) = filter P (thread_messages db tn tid)" for P
    by (intro py_sorted_ascending ascending_filter thread_messages_ascending assms)
  then show ?thesis by (simp add: list_messages_def Let_def)
qed

text \<open>C8: However the transactions interleave, the messages of a thread stand in the table in strictly ascending order of
  their numbers, and so do its events: a page of the log is a prefix of it, a number is never given twice, and threads
  have distinct identifiers.\<close>

theorem thread_log_ordered:
  assumes "store_reaches empty_db db"
  shows "sorted_wrt (<) (map ms_seq (thread_messages db tn tid)) \<and> sorted_wrt (<) (event_seqs db tid) \<and>
         distinct (map th_id (db_threads db)) \<and> list_messages db tn tid None n = (take n (thread_messages db tn tid), n < length (thread_messages db tn tid))"
proof -
  have inv: "db_inv db" by (rule store_reaches_inv [OF assms empty_db_inv])
  then show ?thesis using thread_messages_ascending [OF inv] list_messages_page [OF inv, of tn tid None] by (simp add: db_inv_def Let_def)
qed

definition sample_args :: append_args where
  "sample_args = \<lparr>ap_role = ''user'', ap_content = ''hello'', ap_redacted = Some ''hello'', ap_conversation = ''c1'', ap_request_id = Some ''r1'',
     ap_parent = None, ap_surface = None, ap_end_user = Some ''u1'', ap_metadata = [], ap_extra_parts = []\<rparr>"

definition sample_db :: thread_db where
  "sample_db = create_thread ''acme'' ''c1'' None (Some ''u1'') None ''t1'' 0 (empty_db\<lparr>db_conversations := db_conversations empty_db @ [''c1'']\<rparr>)"

definition sample_db1 :: thread_db where
  "sample_db1 = snd (append_message ''acme'' ''t1'' sample_args ''m1'' 1 sample_db)"

lemma sample_db_reached: "store_reaches empty_db sample_db"
proof -
  have "fresh_tid (empty_db\<lparr>db_conversations := db_conversations empty_db @ [''c1'']\<rparr>) ''t1''" by (simp add: fresh_tid_def empty_db_def)
  from store_step.create [OF this] show ?thesis unfolding sample_db_def
    by (rule store_reaches.step [OF store_reaches.step [OF store_reaches.start store_step.conversation]])
qed

lemma sample_db1_reached: "store_reaches empty_db sample_db1"
  unfolding sample_db1_def by (rule store_reaches.step [OF sample_db_reached store_step.append])

theorem thread_log_ordered_witness:
  "sorted_wrt (<) (map ms_seq (thread_messages sample_db1 ''acme'' ''t1'')) \<and> map ms_content (thread_messages sample_db1 ''acme'' ''t1'') = [''hello'']"
proof -
  have "map ms_content (thread_messages sample_db1 ''acme'' ''t1'') = [''hello'']" by code_simp
  with thread_log_ordered [OF sample_db1_reached, of "''acme''" "''t1''"] show ?thesis by blast
qed

text \<open>C32: Appending to an existing thread adds one message at the end of its log, numbered above all others, and changes no
  other log; repeating the append with the same request id returns that message and writes nothing.\<close>

theorem append_once:
  assumes "db_inv db" and "get_thread db tn tid \<noteq> None" and "message_allowed db a" and "truthy_str (ap_request_id a)"
    and "append_message tn tid a mid now db = (r, db')"
  shows "\<exists>m. r = Inr (m, False) \<and> ms_content m = ap_content a \<and> set (map ms_seq (thread_messages db tn tid)) \<subseteq> {..<ms_seq m} \<and>
    thread_messages db' tn2 tid2 = thread_messages db tn2 tid2 @ (if (tn2, tid2) = (tn, tid) then [m] else []) \<and>
    append_message tn tid3 a mid3 now3 db' = (Inr (m, True), db')"
proof -
  have unused: "ap_request_id a \<notin> set (map ms_request_id (db_messages db))" using assms(3,4) by (auto simp: message_allowed_def truthy_str_def)
  then have no_dup: "filter (\<lambda>m. ms_tenant m = tn \<and> ms_request_id m = ap_request_id a) (db_messages db) = []" by (force simp: filter_empty_conv)
  let ?m = "new_message tn tid a (max_message_seq db tid + 1) mid now"
  have r: "(r, db') = (Inr (?m, False), snd (insert_message tn tid a mid now db))"
    using assms(2-5) no_dup by (auto simp: append_message_def insert_message_def Let_def)
  have msgs: "db_messages db' = db_messages db @ [?m]" using r by (simp add: insert_message_def Let_def)
  then have "filter (\<lambda>m. ms_tenant m = tn \<and> ms_request_id m = ap_request_id a) (db_messages db') = [?m]"
    using no_dup by (simp add: new_message_def)
  then have "append_message tn tid3 a mid3 now3 db' = (Inr (?m, True), db')" using assms(4) by (simp add: append_message_def)
  moreover have "ms_seq x < max_message_seq db tid + 1" if "x \<in> set (thread_messages db tn tid)" for x
    using that by (intro next_seq_above) (auto simp: thread_messages_def log_seqs_def)
  moreover have "thread_messages db' tn2 tid2 = thread_messages db tn2 tid2 @ (if (tn2, tid2) = (tn, tid) then [?m] else [])"
    using msgs by (auto simp: thread_messages_def new_message_def)
  ultimately show ?thesis using r by (auto simp: new_message_def)
qed

theorem append_once_witness:
  "append_message ''acme'' ''t1'' sample_args ''m2'' 2 sample_db1 = (Inr (hd (thread_messages sample_db1 ''acme'' ''t1''), True), sample_db1)"
proof -
  have "get_thread sample_db ''acme'' ''t1'' \<noteq> None" "message_allowed sample_db sample_args" "truthy_str (ap_request_id sample_args)"
      "thread_messages sample_db ''acme'' ''t1'' = []"
    by code_simp+
  from append_once [OF store_reaches_inv [OF sample_db_reached empty_db_inv] this(1-3), of "''m1''" 1 _ sample_db1 "''acme''" "''t1''" "''t1''" "''m2''" 2]
    this(4) show ?thesis by (fastforce simp: sample_db1_def prod_eq_iff)
qed

text \<open>A request id is unique over all tenants while the retry check looks at one: an append with an id another tenant
  has used is refused, whatever its content.\<close>

theorem foreign_request_id_refused:
  assumes "ap_request_id a \<in> set (map ms_request_id (db_messages db))" and "truthy_str (ap_request_id a)"
    and "filter (\<lambda>m. ms_tenant m = tn \<and> ms_request_id m = ap_request_id a) (db_messages db) = []" and "get_thread db tn tid \<noteq> None"
  shows "append_message tn tid a mid now db = (Inl IntegrityError, db)"
  using assms by (auto simp: append_message_def message_allowed_def truthy_str_def)

theorem foreign_request_id_refused_witness:
  "append_message ''globex'' ''t2'' sample_args ''m2'' 2 (create_thread ''globex'' ''c1'' None None None ''t2'' 2 sample_db1) =
     (Inl IntegrityError, create_thread ''globex'' ''c1'' None None None ''t2'' 2 sample_db1)"
  by (rule foreign_request_id_refused) code_simp+

text \<open>A fork has the source's messages up to the fork point, in order and with the same numbers, roles and texts; a parent
  link in it points to a copy in it. No other log changes, the source's included.\<close>

theorem fork_copies_prefix:
  assumes "db_inv db" and "fresh_tid db new" and "fork_thread tn src at_seq conv req new ids now db = (Inr r, db')"
  shows "map (\<lambda>m. (ms_seq m, ms_role m, ms_content m, ms_redacted m)) (thread_messages db' tn new) =
      map (\<lambda>m. (ms_seq m, ms_role m, ms_content m, ms_redacted m)) (filter (\<lambda>m. ms_seq m \<le> at_seq) (thread_messages db tn src)) \<and>
    ms_parent ` set (thread_messages db' tn new) \<subseteq> insert None (Some ` ms_id ` set (thread_messages db' tn new)) \<and>
    filter (\<lambda>m. ms_thread m \<noteq> new) (db_messages db') = db_messages db \<and> filter (\<lambda>t. th_id t \<noteq> new) (db_threads db') = db_threads db"
  using assms(1,3)
proof (cases rule: fork_cases)
  case (forks row old parts)
  let ?c = "copy_messages tn src new at_seq conv ids [] 0 (fork_source db tn src at_seq)"
  note cm = copy_messages_map [of tn src new at_seq conv ids "[]" 0 "fork_source db tn src at_seq"]
  have db': "db_messages db' = db_messages db @ ?c" "db_threads db' = db_threads db @ [row]" using forks(7) by (simp_all add: forked_def)
  have fresh: "\<forall>m \<in> set (db_messages db). ms_thread m \<noteq> new" "\<forall>t \<in> set (db_threads db). th_id t \<noteq> new" using assms(2) by (auto simp: fresh_tid_def)
  have log: "thread_messages db' tn new = ?c"
    using cm fresh(1) by (simp add: thread_messages_def db' filter_empty_conv list_all_iff)
  have "filter (\<lambda>m. ms_thread m \<noteq> new) (db_messages db') = db_messages db"
    using cm fresh(1) by (simp add: db' list_all_iff filter_empty_conv)
  moreover have "filter (\<lambda>t. th_id t \<noteq> new) (db_threads db') = db_threads db" using fresh(2) forks(4) by (simp add: db')
  moreover have "map (\<lambda>m. (ms_seq m, ms_role m, ms_content m, ms_redacted m)) ?c =
      map (\<lambda>m. (ms_seq m, ms_role m, ms_content m, ms_redacted m)) (fork_source db tn src at_seq)"
    by (rule copy_messages_texts)
  ultimately show ?thesis using copy_parents [of tn src new at_seq conv ids "[]" 0] unfolding log fork_source_def by simp
qed simp

theorem fork_copies_prefix_witness:
  "map ms_content (thread_messages (snd (fork_thread ''acme'' ''t1'' 1 ''c1'' None ''t2'' (\<lambda>n. ''n1'') 3 sample_db1)) ''acme'' ''t2'') = [''hello''] \<and>
   map ms_seq (thread_messages (snd (fork_thread ''acme'' ''t1'' 1 ''c1'' None ''t2'' (\<lambda>n. ''n1'') 3 sample_db1)) ''acme'' ''t2'') =
     map ms_seq (filter (\<lambda>m. ms_seq m \<le> 1) (thread_messages sample_db1 ''acme'' ''t1''))"
proof -
  let ?f = "fork_thread ''acme'' ''t1'' 1 ''c1'' None ''t2'' (\<lambda>n. ''n1'') 3 sample_db1"
  have "fresh_tid sample_db1 ''t2''" "\<not> isl (fst ?f)" by code_simp+
  then obtain r where f: "?f = (Inr r, snd ?f)" by (metis prod.collapse sum.collapse(2))
  have "map ms_seq (thread_messages (snd ?f) ''acme'' ''t2'') = map ms_seq (filter (\<lambda>m. ms_seq m \<le> 1) (thread_messages sample_db1 ''acme'' ''t1''))"
    using arg_cong [OF conjunct1 [OF fork_copies_prefix [OF store_reaches_inv [OF sample_db1_reached empty_db_inv] \<open>fresh_tid sample_db1 ''t2''\<close> f]], of "map fst"]
    by (simp add: comp_def)
  moreover have "map ms_content (thread_messages (snd ?f) ''acme'' ''t2'') = [''hello'']" by code_simp
  ultimately show ?thesis by blast
qed

text \<open>Clearing tool results changes no message and leaves every part of a message newer than the guard as it was; doing it
  again clears nothing and writes nothing.\<close>

theorem clearing_is_idempotent:
  assumes "clear_tool_results tn tid keep ph req db = (Inr counts, db')"
  shows "clear_tool_results tn tid keep ph2 req2 db' = (Inr (0, 0), db') \<and> db_messages db' = db_messages db \<and> db_threads db' = db_threads db \<and>
    map (\<lambda>p. (pt_message p, pt_index p, pt_type p)) (db_parts db') = map (\<lambda>p. (pt_message p, pt_index p, pt_type p)) (db_parts db) \<and>
    {p \<in> set (db_parts db). pt_message p \<notin> ms_id ` {m \<in> set (db_messages db). ms_seq m \<le> max_message_seq db tid - keep}} \<subseteq> set (db_parts db')"
proof -
  let ?c = "clearable db tn tid keep"
  have t: "get_thread db tn tid \<noteq> None" using assms by (auto simp: clear_tool_results_def split: if_splits)
  have parts: "db_parts db' = map (\<lambda>p. if p \<in> set ?c then clear_part ph p else p) (db_parts db)" and same: "db_messages db' = db_messages db" "db_threads db' = db_threads db"
    using assms t by (auto simp: clear_tool_results_def Let_def split: if_splits)
  have "get_thread db' tn tid \<noteq> None" using t same(2) by (simp add: get_thread_def)
  then have "clear_tool_results tn tid keep ph2 req2 db' = (Inr (0, 0), db')" using cleared_once [OF parts same(1)] by (simp add: clear_tool_results_def)
  moreover have "map (\<lambda>p. (pt_message p, pt_index p, pt_type p)) (db_parts db') = map (\<lambda>p. (pt_message p, pt_index p, pt_type p)) (db_parts db)"
    by (simp add: parts clear_part_def Let_def)
  moreover have "p \<in> set (db_parts db')" if p: "p \<in> set (db_parts db)"
      "pt_message p \<notin> ms_id ` {m \<in> set (db_messages db). ms_seq m \<le> max_message_seq db tid - keep}" for p
  proof -
    have "p \<notin> set ?c" using p(2) by (auto simp: set_clearable set_tool_results image_iff)
    then show ?thesis unfolding parts set_map by (intro image_eqI [of _ _ p]) (simp_all add: p(1))
  qed
  ultimately show ?thesis using same by blast
qed

definition tool_db :: thread_db where
  "tool_db = snd (append_message ''acme'' ''t1'' (sample_args\<lparr>ap_extra_parts := [\<lparr>xp_type = ''tool_result'',
     xp_content = Some [(''tool_use_id'', JStr ''u''), (''result'', JStr ''big'')], xp_redacted = None\<rparr>]\<rparr>) ''m1'' 1 sample_db)"

theorem clearing_is_idempotent_witness:
  "clear_tool_results ''acme'' ''t1'' 0 ''gone'' None (snd (clear_tool_results ''acme'' ''t1'' 0 ''gone'' None tool_db)) =
     (Inr (0, 0), snd (clear_tool_results ''acme'' ''t1'' 0 ''gone'' None tool_db)) \<and>
   fst (clear_tool_results ''acme'' ''t1'' 0 ''gone'' None tool_db) = Inr (1, 1)"
proof -
  have "fst (clear_tool_results ''acme'' ''t1'' 0 ''gone'' None tool_db) = Inr (1, 1)" by code_simp
  then have "clear_tool_results ''acme'' ''t1'' 0 ''gone'' None tool_db = (Inr (1, 1), snd (clear_tool_results ''acme'' ''t1'' 0 ''gone'' None tool_db))"
    by (simp add: prod_eq_iff)
  note eq = this
  show ?thesis using conjunct1 [OF clearing_is_idempotent [OF eq, of "''gone''" None]] arg_cong [OF eq, of fst] by (simp only: fst_conv)
qed

text \<open>Of the operations that number an event, three leave a gap: \<open>_max_event_seq\<close> already is the next number.\<close>

lemma archive_skips_event_number: "event_seqs (snd (set_archived ''acme'' ''t1'' True None sample_db)) ''t1'' = [1, 3]"
  by code_simp

text \<open>An empty redaction is falsy, so the raw text is stored as the redacted one.\<close>

lemma empty_redaction_stores_raw: "ap_redacted a = Some [] \<Longrightarrow> ms_redacted (new_message tn tid a seq mid now) = ap_content a"
  by (simp add: new_message_def redaction_of_def str_or_def)

end
