(* ===== verification/Thread_Mutation.thy ===== *)
theory Thread_Mutation
  imports Thread_Store "HOL-Library.Sublist"
begin

text \<open>
  Regenerate, edit and fork (\<open>session/service.py\<close>) and the erasure of an end user's data
  (\<open>application/tenant_lifecycle/service.py\<close>) as sequences of transactions on the thread store: a failure
  leaves what the earlier ones committed. Audit rows, memories and session tokens are not represented.
\<close>

section \<open>Definitions\<close>

definition pending_generation :: string where
  "pending_generation = ''pending_generation''"

definition mutation_args :: "string \<Rightarrow> string \<Rightarrow> string \<Rightarrow> string \<Rightarrow> string option \<Rightarrow> jobj \<Rightarrow> append_args" where
  "mutation_args role content redacted conv parent md =
     \<lparr>ap_role = role, ap_content = content, ap_redacted = Some redacted, ap_conversation = conv, ap_request_id = None, ap_parent = parent,
      ap_surface = None, ap_end_user = None, ap_metadata = md, ap_extra_parts = []\<rparr>"

text \<open>The result: the identifiers of the original and of the new message.\<close>

definition regenerate :: "string \<Rightarrow> string \<Rightarrow> string \<Rightarrow> string \<Rightarrow> time \<Rightarrow> thread_db \<Rightarrow> (store_error + string \<times> string) \<times> thread_db" where
  "regenerate tenant tid mid new_mid now db =
     (case get_thread db tenant tid of
        None \<Rightarrow> (Inl (ThreadNotFoundError tid), db)
      | Some t \<Rightarrow>
          (case get_message db tenant mid of
             None \<Rightarrow> (Inl (MessageNotFoundError mid), db)
           | Some original \<Rightarrow>
               if ms_role original \<noteq> ''assistant'' then (Inl (InvalidTargetError mid), db)
               else (case append_message tenant tid (mutation_args ''assistant'' [] [] (th_conversation t) (Some (ms_id original))
                            [(''status'', JStr pending_generation), (''regenerated_from'', JStr (ms_id original))]) new_mid now db of
                       (Inl e, db1) \<Rightarrow> (Inl e, db1)
                     | (Inr (m, _), db1) \<Rightarrow>
                         (case append_event tenant tid ''message.regenerated''
                                 [(''original_message_id'', JStr (ms_id original)), (''new_message_id'', JStr (ms_id m))] None db1 of
                            (Inl e, db2) \<Rightarrow> (Inl e, db2)
                          | (Inr _, db2) \<Rightarrow> (Inr (ms_id original, ms_id m), db2)))))"

text \<open>The conversation of the fork is committed before the fork itself.\<close>

definition fork ::
  "string \<Rightarrow> string \<Rightarrow> int \<Rightarrow> string \<Rightarrow> string \<Rightarrow> (nat \<Rightarrow> string) \<Rightarrow> time \<Rightarrow> thread_db \<Rightarrow> (store_error + thread_row option) \<times> thread_db" where
  "fork tenant tid at_seq new_conv new_tid ids now db =
     (if get_thread db tenant tid = None then (Inl (ThreadNotFoundError tid), db)
      else case fork_thread tenant tid at_seq new_conv None new_tid ids now (db\<lparr>db_conversations := db_conversations db @ [new_conv]\<rparr>) of
             (Inl (ForkPointOutOfRange n), db1) \<Rightarrow> (Inl (InvalidTargetError tid), db1)
           | r \<Rightarrow> r)"

text \<open>The identifiers of the original, the edited message and its pending successor.\<close>

definition edit ::
  "string \<Rightarrow> string \<Rightarrow> string \<Rightarrow> string \<Rightarrow> string option \<Rightarrow> string \<Rightarrow> string \<Rightarrow> time \<Rightarrow> thread_db
     \<Rightarrow> (store_error + string \<times> string \<times> string) \<times> thread_db" where
  "edit tenant tid mid content redacted user_mid assistant_mid now db =
     (case get_message db tenant mid of
        None \<Rightarrow> (Inl (MessageNotFoundError mid), db)
      | Some original \<Rightarrow>
          if ms_thread original \<noteq> tid then (Inl (ThreadNotFoundError tid), db)
          else case get_thread db tenant tid of
                 None \<Rightarrow> (Inl (ThreadNotFoundError tid), db)
               | Some t \<Rightarrow>
                   if ms_role original \<noteq> ''user'' \<or> py_strip content = [] then (Inl (InvalidTargetError mid), db)
                   else (case append_message tenant tid (mutation_args ''user'' content (str_or redacted content) (th_conversation t) (ms_parent original)
                                [(''status'', JStr ''applied''), (''edited_from'', JStr (ms_id original))]) user_mid now db of
                           (Inl e, db1) \<Rightarrow> (Inl e, db1)
                         | (Inr (u, _), db1) \<Rightarrow>
                             (case append_message tenant tid (mutation_args ''assistant'' [] [] (th_conversation t) (Some (ms_id u))
                                     [(''status'', JStr pending_generation), (''generated_from'', JStr (ms_id u))]) assistant_mid now db1 of
                                (Inl e, db2) \<Rightarrow> (Inl e, db2)
                              | (Inr (s, _), db2) \<Rightarrow>
                                  (case append_event tenant tid ''message.edited'' [(''original_message_id'', JStr (ms_id original)),
                                          (''new_user_message_id'', JStr (ms_id u)), (''new_assistant_message_id'', JStr (ms_id s))] None db2 of
                                     (Inl e, db3) \<Rightarrow> (Inl e, db3)
                                   | (Inr _, db3) \<Rightarrow> (Inr (ms_id original, ms_id u, ms_id s), db3)))))"

text \<open>\<open>erase_end_user_data\<close> on the thread store; \<open>end_users\<close> are the tenant's known end users.\<close>

definition erase_end_user_data :: "string list \<Rightarrow> string \<Rightarrow> string \<Rightarrow> thread_db \<Rightarrow> (string + nat \<times> nat) \<times> thread_db" where
  "erase_end_user_data end_users tenant end_user db =
     (if end_user \<notin> set end_users then (Inl end_user, db)
      else case delete_by_end_user tenant end_user db of
             (threads, db1) \<Rightarrow> (case delete_messages_by_end_user tenant end_user db1 of (messages, db2) \<Rightarrow> (Inr (threads, messages), db2)))"

section \<open>Lemmas\<close>

lemma append_plain_cases:
  assumes "append_message tn tid a mid now db = (r, db')" and "ap_request_id a = None"
  obtains (error) e where "r = Inl e" "db' = db"
  | (appends) m where "r = Inr (m, False)" "m = new_message tn tid a (max_message_seq db tid + 1) mid now"
      "db_messages db' = db_messages db @ [m]" "db_threads db' = db_threads db"
  using assms that by (auto simp: append_message_def insert_message_def Let_def truthy_str_def split: if_splits)

lemma append_event_messages: "append_event tn tid ty pl req db = (r, db') \<Longrightarrow> db_messages db' = db_messages db \<and> db_threads db' = db_threads db"
  by (auto simp: append_event_def Let_def split: if_splits)

lemma mutation_args_fields [simp]:
  "ap_request_id (mutation_args role content redacted conv parent md) = None" "ap_end_user (mutation_args role content redacted conv parent md) = None"
  "ap_content (mutation_args role content redacted conv parent md) = content" "ap_role (mutation_args role content redacted conv parent md) = role"
  "ap_parent (mutation_args role content redacted conv parent md) = parent"
  by (simp_all add: mutation_args_def)

lemma new_message_fields [simp]:
  "ms_id (new_message tn tid a seq mid now) = mid" "ms_thread (new_message tn tid a seq mid now) = tid" "ms_tenant (new_message tn tid a seq mid now) = tn"
  "ms_parent (new_message tn tid a seq mid now) = ap_parent a" "ms_content (new_message tn tid a seq mid now) = ap_content a"
  "ms_role (new_message tn tid a seq mid now) = ap_role a" "ms_end_user (new_message tn tid a seq mid now) = ap_end_user a"
  "ms_seq (new_message tn tid a seq mid now) = seq"
  by (simp_all add: new_message_def)

lemma append_prefix: "prefix (db_messages db) (db_messages (snd (append_message tn tid a mid now db)))"
  by (auto simp: append_message_def insert_message_def Let_def split: list.splits)

lemma append_event_prefix: "db_messages (snd (append_event tn tid ty pl req db)) = db_messages db"
  by (simp add: append_event_def Let_def)

lemma fork_prefix: "prefix (db_messages db) (db_messages (snd (fork_thread tn src at_seq conv req new ids now db)))"
  by (auto simp: fork_thread_def Let_def split: option.splits)

lemma append_prefix_of: "append_message tn tid a mid now db = (r, db') \<Longrightarrow> prefix (db_messages db) (db_messages db')"
  using append_prefix [of db tn tid a mid now] by simp

lemma edit_done:
  assumes "edit tn tid mid content redacted um am now db = (Inr r, db')"
  obtains original u s where "get_message db tn mid = Some original" "ms_thread original = tid" "ms_role original = ''user''" "py_strip content \<noteq> []"
    "db_messages db' = db_messages db @ [u, s]" "r = (ms_id original, ms_id u, ms_id s)"
    "ms_content u = content" "ms_role u = ''user''" "ms_parent u = ms_parent original" "ms_end_user u = None" "ms_tenant u = tn" "ms_thread u = tid"
    "ms_role s = ''assistant''" "ms_parent s = Some (ms_id u)" "ms_thread s = tid" "ms_tenant s = tn"
    "ms_seq u = max_message_seq db tid + 1" "ms_seq u < ms_seq s"
proof -
  obtain original t where o: "get_message db tn mid = Some original" "ms_thread original = tid" "get_thread db tn tid = Some t"
      "ms_role original = ''user''" "py_strip content \<noteq> []"
    using assms by (auto simp: edit_def split: option.splits if_splits)
  let ?ua = "mutation_args ''user'' content (str_or redacted content) (th_conversation t) (ms_parent original)
      [(''status'', JStr ''applied''), (''edited_from'', JStr (ms_id original))]"
  obtain ru db1 where u: "append_message tn tid ?ua um now db = (ru, db1)" by fastforce
  obtain u where u': "ru = Inr (u, False)" "u = new_message tn tid ?ua (max_message_seq db tid + 1) um now" "db_messages db1 = db_messages db @ [u]"
    using append_plain_cases [OF u] assms u o by (fastforce simp: edit_def)
  let ?sa = "mutation_args ''assistant'' [] [] (th_conversation t) (Some (ms_id u)) [(''status'', JStr pending_generation), (''generated_from'', JStr (ms_id u))]"
  obtain rs db2 where s: "append_message tn tid ?sa am now db1 = (rs, db2)" by fastforce
  obtain s where s': "rs = Inr (s, False)" "s = new_message tn tid ?sa (max_message_seq db1 tid + 1) am now" "db_messages db2 = db_messages db1 @ [s]"
    using append_plain_cases [OF s] assms u u'(1) s o by (fastforce simp: edit_def)
  have "db_messages db' = db_messages db2 \<and> r = (ms_id original, ms_id u, ms_id s)"
    using assms o u u'(1) s s'(1) by (auto simp: edit_def split: prod.splits sum.splits dest: append_event_messages)
  moreover have "ms_seq u \<in> set (log_seqs db1 tid)" using u'(2,3) by (simp add: log_seqs_def)
  then have "ms_seq u < ms_seq s" using next_seq_above s'(2) by simp
  ultimately show thesis using that [of original u s] o u' s' by simp
qed

section \<open>Correctness\<close>

text \<open>Regenerate, edit and fork never change or remove a message: the table before is a prefix of the table after,
  whether they succeed or fail part way.\<close>

theorem mutations_append_only:
  "prefix (db_messages db) (db_messages (snd (regenerate tn tid mid m1 now db))) \<and>
   prefix (db_messages db) (db_messages (snd (edit tn tid mid content redacted m1 m2 now db))) \<and>
   prefix (db_messages db) (db_messages (snd (fork tn tid at_seq conv new ids now db)))"
proof (intro conjI)
  show "prefix (db_messages db) (db_messages (snd (regenerate tn tid mid m1 now db)))"
    by (auto simp: regenerate_def split: option.splits prod.splits sum.splits dest!: append_prefix_of append_event_messages)
  show "prefix (db_messages db) (db_messages (snd (edit tn tid mid content redacted m1 m2 now db)))"
    by (auto simp: edit_def split: option.splits prod.splits sum.splits dest!: append_prefix_of append_event_messages
        intro: prefix_order.trans)
  have "prefix (db_messages db) (db_messages (snd (fork_thread tn tid at_seq conv None new ids now (db\<lparr>db_conversations := cs\<rparr>))))" for cs
    using fork_prefix [of "db\<lparr>db_conversations := cs\<rparr>"] by simp
  then show "prefix (db_messages db) (db_messages (snd (fork tn tid at_seq conv new ids now db)))"
    by (auto simp: fork_def split: prod.splits sum.splits store_error.splits) (metis snd_conv)+
qed

text \<open>A successful edit appends the edited user message, with the parent of the original, and an assistant message that
  waits for generation and has the edited one as its parent; both are numbered above every message of the thread.\<close>

theorem edit_appends_pair:
  assumes "edit tn tid mid content redacted m1 m2 now db = (Inr r, db')"
  shows "\<exists>original u s. get_message db tn mid = Some original \<and> thread_messages db' tn tid = thread_messages db tn tid @ [u, s] \<and>
    ms_content u = content \<and> ms_parent u = ms_parent original \<and> ms_parent s = Some (ms_id u) \<and> ms_role s = ''assistant'' \<and>
    set (map ms_seq (thread_messages db tn tid)) \<subseteq> {..<ms_seq u} \<and> ms_seq u < ms_seq s"
  using assms
proof (rule edit_done)
  fix original u s
  assume e: "get_message db tn mid = Some original" "db_messages db' = db_messages db @ [u, s]" "ms_content u = content"
    "ms_parent u = ms_parent original" "ms_tenant u = tn" "ms_thread u = tid" "ms_role s = ''assistant''" "ms_parent s = Some (ms_id u)"
    "ms_thread s = tid" "ms_tenant s = tn" "ms_seq u = max_message_seq db tid + 1" "ms_seq u < ms_seq s"
  have "ms_seq x < max_message_seq db tid + 1" if "x \<in> set (thread_messages db tn tid)" for x
    using that by (intro next_seq_above) (auto simp: thread_messages_def log_seqs_def)
  then show ?thesis using e by (intro exI [of _ original] exI [of _ u] exI [of _ s]) (auto simp: thread_messages_def)
qed

text \<open>The new messages carry no end user, so the text a user typed into an edit is still in the database after that
  user's data has been erased.\<close>

theorem edited_text_survives_erasure:
  assumes "edit tn tid mid content redacted m1 m2 now db = (Inr r, db')"
    and "erase_end_user_data end_users tn end_user db' = (Inr counts, db'')"
  shows "\<exists>m \<in> set (db_messages db''). ms_content m = content \<and> ms_thread m = tid \<and> ms_tenant m = tn"
  using assms(1)
proof (rule edit_done)
  fix original u s
  assume u: "db_messages db' = db_messages db @ [u, s]" "ms_content u = content" "ms_end_user u = None" "ms_tenant u = tn" "ms_thread u = tid"
  have "db_messages db'' = filter (\<lambda>m. \<not> (ms_tenant m = tn \<and> ms_end_user m = Some end_user)) (db_messages db')"
    using assms(2) by (auto simp: erase_end_user_data_def delete_by_end_user_def delete_messages_by_end_user_def Let_def split: if_splits)
  with u show ?thesis by auto
qed

definition edited :: "(store_error + string \<times> string \<times> string) \<times> thread_db" where
  "edited = edit ''acme'' ''t1'' ''m1'' ''my card is 4111'' None ''m2'' ''m3'' 2 sample_db1"

lemma edited_ok: "edit ''acme'' ''t1'' ''m1'' ''my card is 4111'' None ''m2'' ''m3'' 2 sample_db1 = (Inr (''m1'', ''m2'', ''m3''), snd edited)"
proof -
  have "fst edited = Inr (''m1'', ''m2'', ''m3'')" by code_simp
  then show ?thesis by (simp add: edited_def prod_eq_iff)
qed

theorem edit_appends_pair_witness:
  "\<exists>u s. map ms_content [u, s] = [''my card is 4111'', []] \<and> thread_messages (snd edited) ''acme'' ''t1'' = thread_messages sample_db1 ''acme'' ''t1'' @ [u, s]"
proof -
  obtain u s where us: "thread_messages (snd edited) ''acme'' ''t1'' = thread_messages sample_db1 ''acme'' ''t1'' @ [u, s]"
    using edit_appends_pair [OF edited_ok] by blast
  have "map ms_content (thread_messages (snd edited) ''acme'' ''t1'') = [''hello'', ''my card is 4111'', []]"
      "map ms_content (thread_messages sample_db1 ''acme'' ''t1'') = [''hello'']" by code_simp+
  then show ?thesis using us by (intro exI [of _ u] exI [of _ s]) simp
qed

theorem edited_text_survives_erasure_witness:
  "\<exists>m \<in> set (db_messages (snd (erase_end_user_data [''u1''] ''acme'' ''u1'' (snd edited)))). ms_content m = ''my card is 4111''"
proof -
  have "fst (erase_end_user_data [''u1''] ''acme'' ''u1'' (snd edited)) = Inr (1, 1)" by code_simp
  then have "erase_end_user_data [''u1''] ''acme'' ''u1'' (snd edited) = (Inr (1, 1), snd (erase_end_user_data [''u1''] ''acme'' ''u1'' (snd edited)))"
    by (simp add: prod_eq_iff)
  from edited_text_survives_erasure [OF edited_ok this] show ?thesis by blast
qed

text \<open>Regenerate does not ask whether the message belongs to the thread; edit does.\<close>

definition two_threads :: thread_db where
  "two_threads = snd (append_message ''acme'' ''t1'' (sample_args\<lparr>ap_role := ''assistant''\<rparr>) ''m1'' 1
     (create_thread ''acme'' ''c2'' None None None ''t2'' 0 sample_db))\<lparr>db_conversations := [''c1'', ''c2'']\<rparr>"

lemma regenerate_across_threads:
  "map (\<lambda>m. (ms_thread m, ms_parent m)) (thread_messages (snd (regenerate ''acme'' ''t2'' ''m1'' ''m2'' 2 two_threads)) ''acme'' ''t2'') = [(''t2'', Some ''m1'')] \<and>
   map ms_id (thread_messages two_threads ''acme'' ''t1'') = [''m1'']"
  by code_simp

end
