(* ===== verification/Context.thy ===== *)
theory Context
  imports Catalog "HOL-Library.Product_Lexorder" "HOL-Library.Sublist"
begin

text \<open>
  Token estimation and prompt assembly (\<open>context/estimator.py\<close>, \<open>context/assembler.py\<close>): the blocks of
  a prompt in their order, each within what is left of the model's budget. A message is counted by
  the length of its text.
\<close>

section \<open>Token estimation\<close>

definition default_chars_per_token :: rat where
  "default_chars_per_token = 4"

type_synonym estimator = "(string \<times> rat) list"

definition estimator_key :: "string \<Rightarrow> string" where
  "estimator_key k = py_lower (py_strip k)"

definition estimator_init :: "(string \<times> rat) list \<Rightarrow> estimator" where
  "estimator_init overrides = fold (\<lambda>(k, v) e. AList.update (estimator_key k) v e) overrides []"

definition register_override :: "string \<Rightarrow> rat \<Rightarrow> estimator \<Rightarrow> estimator" where
  "register_override key per e = AList.update (estimator_key key) per e"

definition chars_per_token :: "estimator \<Rightarrow> string option \<Rightarrow> string option \<Rightarrow> rat" where
  "chars_per_token e provider model =
     (case (if truthy_str provider \<and> truthy_str model then map_of e (model_key (the provider) (the model)) else None) of
        Some v \<Rightarrow> v
      | None \<Rightarrow>
          (case (if truthy_str provider then map_of e (estimator_key (the provider)) else None) of
             Some v \<Rightarrow> v
           | None \<Rightarrow> get_or (map_of e ''default'') default_chars_per_token))"

definition estimate :: "estimator \<Rightarrow> string option \<Rightarrow> string option \<Rightarrow> string \<Rightarrow> int" where
  "estimate e provider model text =
     (if text = [] then 0
      else let per = chars_per_token e provider model
           in if per \<le> 0 then 0 else \<lceil>of_nat (length text) / per\<rceil>)"

text \<open>\<open>estimate_messages\<close>; the content of a message is a string, absent, or a structured value that is
  counted by its serialised text (\<open>dumps\<close>).\<close>

datatype message_content = TextContent string | NoContent | StructuredContent json

definition content_text :: "(json \<Rightarrow> string) \<Rightarrow> message_content \<Rightarrow> string" where
  "content_text dumps c = (case c of TextContent s \<Rightarrow> s | NoContent \<Rightarrow> [] | StructuredContent j \<Rightarrow> dumps j)"

definition estimate_messages ::
  "(json \<Rightarrow> string) \<Rightarrow> estimator \<Rightarrow> string option \<Rightarrow> string option \<Rightarrow> message_content list \<Rightarrow> int" where
  "estimate_messages dumps e provider model msgs = (\<Sum>c\<leftarrow>msgs. estimate e provider model (content_text dumps c))"

section \<open>Assembly\<close>

definition summary_block_header :: string where
  "summary_block_header = ''Summary of the conversation so far (compaction checkpoint; immutable).''"

definition memory_block_header :: string where
  "memory_block_header = ''End-user memory (opt-in facts about the customer):''"

definition tool_result_placeholder :: string where
  "tool_result_placeholder = ''[tool result cleared; re-fetch on demand]''"

datatype context_error =
    ReserveExceedsWindow int int
  | SystemPromptExceeds int int
  | CurrentMessageExceeds int int
  | RedactionViolation string

record context_turn =
  ct_role :: string
  ct_content :: string
  ct_seq :: "int option"
  ct_message_id :: "string option"
  ct_has_tool_payload :: bool
  ct_raw_content :: "string option"

text \<open>A provider message; \<open>pm_cached\<close> tells whether it carries the cache marker.\<close>

record prompt_message =
  pm_role :: string
  pm_content :: string
  pm_cached :: bool

record retrieved_doc =
  rd_content :: string
  rd_score :: rat

record assembled =
  as_messages :: "prompt_message list"
  as_token_counts :: "(string \<times> int) list"
  as_omitted_turns :: "string list"
  as_omitted_docs :: "nat list"
  as_omitted_blocks :: "string list"
  as_total_tokens :: int
  as_context_window :: int
  as_budget_tokens :: int

record loader =
  ld_estimator :: estimator
  ld_catalog :: catalog
  ld_output_reserve :: int
  ld_cache_markers :: bool

text \<open>The request: everything \<open>assemble\<close> takes.\<close>

record assemble_request =
  ar_provider :: string
  ar_model :: string
  ar_system_prompt :: string
  ar_current_message :: string
  ar_history :: "context_turn list"
  ar_summary :: "string option"
  ar_summary_position :: "int option"
  ar_summary_layers :: "string list"
  ar_memory_facts :: "string list"
  ar_docs :: "retrieved_doc list"
  ar_clear_tool_payloads :: bool
  ar_window_override :: "int option"
  ar_cache_markers :: "bool option"

definition newline :: string where
  "newline = [CHR 10]"

definition tokens_of :: "loader \<Rightarrow> assemble_request \<Rightarrow> string \<Rightarrow> int" where
  "tokens_of ld ar text = estimate (ld_estimator ld) (Some (ar_provider ar)) (Some (ar_model ar)) text"

definition context_budget :: "loader \<Rightarrow> assemble_request \<Rightarrow> int \<times> int" where
  "context_budget ld ar =
     (let window = num_or (ar_window_override ar) (catalog_context_window (ld_catalog ld) (ar_provider ar) (ar_model ar))
      in (window, window - ld_output_reserve ld))"

definition normalize_layers :: "assemble_request \<Rightarrow> string list" where
  "normalize_layers ar =
     (if ar_summary_layers ar \<noteq> [] then ar_summary_layers ar
      else if truthy_str (ar_summary ar) then [the (ar_summary ar)] else [])"

definition layer_texts :: "string list \<Rightarrow> string list" where
  "layer_texts layers = (case layers of [] \<Rightarrow> [] | l # ls \<Rightarrow> (summary_block_header @ newline @ l) # ls)"

definition memory_text :: "string list \<Rightarrow> string" where
  "memory_text facts = memory_block_header @ newline @ py_join newline (map (\<lambda>f. ''- '' @ f) facts)"

definition turn_seq :: "context_turn \<Rightarrow> int" where
  "turn_seq t = get_or (ct_seq t) 0"

definition recent_turns_first :: "context_turn list \<Rightarrow> context_turn list" where
  "recent_turns_first turns =
     map fst (py_sorted_desc (\<lambda>(t, i). (turn_seq t, i))
       (filter (\<lambda>(t, i). ct_role t = ''user'' \<or> ct_role t = ''assistant'') (zip turns [0..<length turns])))"

definition turn_label :: "context_turn \<Rightarrow> string" where
  "turn_label t = (if truthy_str (ct_message_id t) then the (ct_message_id t)
     else case ct_seq t of Some n \<Rightarrow> ''seq:'' @ py_str_int n | None \<Rightarrow> ''?'')"

definition turn_content :: "context_turn \<Rightarrow> bool \<Rightarrow> context_error + string" where
  "turn_content t clear =
     (if clear \<and> ct_has_tool_payload t then Inr tool_result_placeholder
      else if ct_content t \<noteq> [] then Inr (ct_content t)
      else if truthy_str (ct_raw_content t)
        then Inl (RedactionViolation (if truthy_str (ct_message_id t) then the (ct_message_id t)
                    else case ct_seq t of Some n \<Rightarrow> if n = 0 then ''?'' else py_str_int n | None \<Rightarrow> ''?''))
      else Inr [])"

definition summarised :: "assemble_request \<Rightarrow> context_turn \<Rightarrow> bool" where
  "summarised ar t = (case (ar_summary_position ar, ct_seq t) of (Some p, Some n) \<Rightarrow> n \<le> p | _ \<Rightarrow> False)"

text \<open>The newest-first walk: the rendered messages (newest first), their tokens and what was omitted.\<close>

fun tail_loop ::
  "loader \<Rightarrow> assemble_request \<Rightarrow> context_turn list \<Rightarrow> int \<Rightarrow> context_error + (prompt_message list \<times> int list \<times> string list \<times> int)" where
  "tail_loop ld ar [] remaining = Inr ([], [], [], remaining)"
| "tail_loop ld ar (t # ts) remaining =
     (if summarised ar t then tail_loop ld ar ts remaining
      else case turn_content t (ar_clear_tool_payloads ar) of
             Inl e \<Rightarrow> Inl e
           | Inr content \<Rightarrow>
               if content = [] then tail_loop ld ar ts remaining
               else let tokens = tokens_of ld ar content
                    in if remaining < tokens
                       then (case tail_loop ld ar ts remaining of
                               Inl e \<Rightarrow> Inl e
                             | Inr (ms, ks, om, r) \<Rightarrow> Inr (ms, ks, turn_label t # om, r))
                       else (case tail_loop ld ar ts (remaining - tokens) of
                               Inl e \<Rightarrow> Inl e
                             | Inr (ms, ks, om, r) \<Rightarrow>
                                 Inr (\<lparr>pm_role = ct_role t, pm_content = content, pm_cached = False\<rparr> # ms, tokens # ks, om, r)))"

definition doc_block :: "nat \<Rightarrow> retrieved_doc \<Rightarrow> string" where
  "doc_block idx d = ''[Source '' @ py_str_nat (idx + 1) @ ''] (Score: '' @ py_fixed2 (rd_score d) @ '')'' @ newline @ rd_content d"

fun knowledge_loop ::
  "loader \<Rightarrow> assemble_request \<Rightarrow> nat \<Rightarrow> retrieved_doc list \<Rightarrow> int \<Rightarrow> prompt_message list \<times> int list \<times> nat list \<times> int" where
  "knowledge_loop ld ar idx [] remaining = ([], [], [], remaining)"
| "knowledge_loop ld ar idx (d # ds) remaining =
     (let block = doc_block idx d; tokens = tokens_of ld ar block
      in if remaining < tokens then ([], [], [idx..<idx + length (d # ds)], remaining)
         else case knowledge_loop ld ar (idx + 1) ds (remaining - tokens) of
                (ms, ks, om, r) \<Rightarrow> (\<lparr>pm_role = ''system'', pm_content = block, pm_cached = False\<rparr> # ms, tokens # ks, om, r))"

definition sorted_docs :: "retrieved_doc list \<Rightarrow> retrieved_doc list" where
  "sorted_docs docs = py_sorted_desc rd_score docs"

text \<open>An optional block: rendered whole if its tokens are left, else reported as omitted.\<close>

definition optional_block ::
  "string \<Rightarrow> prompt_message list \<Rightarrow> int \<Rightarrow> int \<Rightarrow> prompt_message list \<times> (string \<times> int) list \<times> string list \<times> int" where
  "optional_block name ms tokens remaining =
     (if ms = [] then ([], [], [], remaining)
      else if tokens \<le> remaining then (ms, [(name, tokens)], [], remaining - tokens)
      else ([], [], [name], remaining))"

definition block_count :: "string \<Rightarrow> int list \<Rightarrow> (string \<times> int) list" where
  "block_count name ks = (if ks = [] then [] else [(name, sum_list ks)])"

definition summary_block ::
  "loader \<Rightarrow> assemble_request \<Rightarrow> bool \<Rightarrow> int \<Rightarrow> prompt_message list \<times> (string \<times> int) list \<times> string list \<times> int" where
  "summary_block ld ar cached remaining =
     (let layers = layer_texts (normalize_layers ar)
      in optional_block ''summary'' (map (\<lambda>x. \<lparr>pm_role = ''system'', pm_content = x, pm_cached = cached\<rparr>) layers)
           (\<Sum>x\<leftarrow>layers. tokens_of ld ar x) remaining)"

definition memory_block ::
  "loader \<Rightarrow> assemble_request \<Rightarrow> int \<Rightarrow> prompt_message list \<times> (string \<times> int) list \<times> string list \<times> int" where
  "memory_block ld ar remaining =
     (let text = memory_text (ar_memory_facts ar)
      in optional_block ''memory''
           (if ar_memory_facts ar = [] then [] else [\<lparr>pm_role = ''system'', pm_content = text, pm_cached = False\<rparr>])
           (tokens_of ld ar text) remaining)"

text \<open>From the recent tail on, after the messages, counts and omissions of the blocks before it.\<close>

definition assemble_rest ::
  "loader \<Rightarrow> assemble_request \<Rightarrow> prompt_message list \<Rightarrow> (string \<times> int) list \<Rightarrow> string list \<Rightarrow> int \<Rightarrow> context_error + assembled" where
  "assemble_rest ld ar msgs counts omitted remaining =
     (case tail_loop ld ar (recent_turns_first (ar_history ar)) remaining of
        Inl e \<Rightarrow> Inl e
      | Inr (tm, tk, om, r3) \<Rightarrow>
          (case knowledge_loop ld ar 0 (sorted_docs (ar_docs ar)) r3 of
             (km, kk, ko, r4) \<Rightarrow>
               (let current = tokens_of ld ar (ar_current_message ar);
                    all_counts = counts @ block_count ''tail'' tk @ block_count ''knowledge'' kk @ [(''current'', current)]
                in if r4 < current then Inl (CurrentMessageExceeds current r4)
                   else Inr \<lparr>as_messages = msgs @ rev tm @ km @ [\<lparr>pm_role = ''user'', pm_content = ar_current_message ar, pm_cached = False\<rparr>],
                             as_token_counts = all_counts, as_omitted_turns = om, as_omitted_docs = ko, as_omitted_blocks = omitted,
                             as_total_tokens = sum_list (map snd all_counts), as_context_window = fst (context_budget ld ar),
                             as_budget_tokens = snd (context_budget ld ar)\<rparr>)))"

definition assemble :: "loader \<Rightarrow> assemble_request \<Rightarrow> context_error + assembled" where
  "assemble ld ar =
     (case context_budget ld ar of
        (window, budget) \<Rightarrow>
          (let cached = get_or (ar_cache_markers ar) (ld_cache_markers ld);
               sys_tokens = tokens_of ld ar (ar_system_prompt ar)
           in if budget \<le> 0 then Inl (ReserveExceedsWindow window (ld_output_reserve ld))
              else if budget < sys_tokens then Inl (SystemPromptExceeds sys_tokens budget)
              else case summary_block ld ar cached (budget - sys_tokens) of
                     (sm, sc, so, r1) \<Rightarrow>
                       (case memory_block ld ar r1 of
                          (mm, mc, mo, r2) \<Rightarrow>
                            assemble_rest ld ar (\<lparr>pm_role = ''system'', pm_content = ar_system_prompt ar, pm_cached = cached\<rparr> # sm @ mm)
                              ((''system'', sys_tokens) # sc @ mc) (so @ mo) r2)))"

section \<open>Lemmas\<close>

lemma estimate_nonneg: "0 \<le> estimate e p m text"
proof (cases "text = [] \<or> chars_per_token e p m \<le> 0")
  case False
  then have "0 \<le> of_nat (length text) / chars_per_token e p m" by simp
  then have "0 \<le> \<lceil>of_nat (length text) / chars_per_token e p m\<rceil>" by linarith
  with False show ?thesis by (simp add: estimate_def Let_def)
qed (auto simp: estimate_def Let_def)

lemma tokens_nonneg: "0 \<le> tokens_of ld ar text"
  by (simp add: tokens_of_def estimate_nonneg)

definition msg_tokens :: "loader \<Rightarrow> assemble_request \<Rightarrow> prompt_message list \<Rightarrow> int" where
  "msg_tokens ld ar ms = (\<Sum>m\<leftarrow>ms. tokens_of ld ar (pm_content m))"

lemma msg_tokens_simps [simp]:
  "msg_tokens ld ar [] = 0" "msg_tokens ld ar (m # ms) = tokens_of ld ar (pm_content m) + msg_tokens ld ar ms"
  "msg_tokens ld ar (ms @ ns) = msg_tokens ld ar ms + msg_tokens ld ar ns" "msg_tokens ld ar (rev ms) = msg_tokens ld ar ms"
  by (simp_all add: msg_tokens_def rev_map [symmetric])

definition render_turn :: "assemble_request \<Rightarrow> context_turn \<Rightarrow> prompt_message" where
  "render_turn ar t = \<lparr>pm_role = ct_role t,
     pm_content = (if ar_clear_tool_payloads ar \<and> ct_has_tool_payload t then tool_result_placeholder else ct_content t),
     pm_cached = False\<rparr>"

definition unredacted :: "assemble_request \<Rightarrow> context_turn \<Rightarrow> bool" where
  "unredacted ar t \<longleftrightarrow> ct_content t = [] \<and> truthy_str (ct_raw_content t) \<and> \<not> (ar_clear_tool_payloads ar \<and> ct_has_tool_payload t)"

lemma turn_content_Inl: "turn_content t (ar_clear_tool_payloads ar) = Inl e \<Longrightarrow> unredacted ar t"
  by (auto simp: turn_content_def unredacted_def split: if_splits)

lemma turn_content_Inr: "turn_content t (ar_clear_tool_payloads ar) = Inr c \<Longrightarrow> \<not> unredacted ar t \<and> c = pm_content (render_turn ar t)"
  by (auto simp: turn_content_def unredacted_def render_turn_def tool_result_placeholder_def split: if_splits)

text \<open>What the newest-first walk yields.\<close>

definition tail_ok :: "loader \<Rightarrow> assemble_request \<Rightarrow> context_turn list \<Rightarrow> int \<Rightarrow> prompt_message list \<times> int list \<times> string list \<times> int \<Rightarrow> bool" where
  "tail_ok ld ar ts remaining r = (case r of (ms, ks, om, left) \<Rightarrow>
     (\<exists>us. subseq us ts \<and> ms = map (render_turn ar) us \<and> (\<forall>t \<in> set us. \<not> summarised ar t)) \<and>
     (ks = [] \<longleftrightarrow> ms = []) \<and> sum_list ks = msg_tokens ld ar ms \<and> left = remaining - msg_tokens ld ar ms \<and>
     (0 \<le> remaining \<longrightarrow> 0 \<le> left) \<and> (\<forall>t \<in> set ts. summarised ar t \<or> \<not> unredacted ar t))"

lemma tail_loop_ok: "tail_loop ld ar ts remaining = Inr r \<Longrightarrow> tail_ok ld ar ts remaining r"
proof (induction ts arbitrary: remaining r)
  case Nil
  then show ?case by (auto simp: tail_ok_def)
next
  case (Cons t ts)
  show ?case
  proof (cases "summarised ar t")
    case True
    with Cons.prems Cons.IH [of remaining r] show ?thesis by (auto simp: tail_ok_def intro: subseq_Cons')
  next
    case False
    obtain c where c: "turn_content t (ar_clear_tool_payloads ar) = Inr c" using Cons.prems False by (auto split: sum.splits)
    note tc = turn_content_Inr [OF c]
    let ?k = "tokens_of ld ar c"
    consider "c = []" | "c \<noteq> []" "remaining < ?k" | "c \<noteq> []" "?k \<le> remaining" by linarith
    then show ?thesis
    proof cases
      case 1
      with Cons.prems Cons.IH [of remaining r] False c tc show ?thesis by (auto simp: tail_ok_def)
    next
      case 2
      then obtain ms ks om l where "tail_loop ld ar ts remaining = Inr (ms, ks, om, l)" "r = (ms, ks, turn_label t # om, l)"
        using Cons.prems False c by (auto simp: Let_def split: sum.splits)
      with Cons.IH [of remaining "(ms, ks, om, l)"] tc False show ?thesis by (auto simp: tail_ok_def)
    next
      case 3
      then obtain ms ks om l where l: "tail_loop ld ar ts (remaining - ?k) = Inr (ms, ks, om, l)"
          "r = (\<lparr>pm_role = ct_role t, pm_content = c, pm_cached = False\<rparr> # ms, ?k # ks, om, l)"
        using Cons.prems False c by (auto simp: Let_def split: sum.splits)
      have eq: "\<lparr>pm_role = ct_role t, pm_content = c, pm_cached = False\<rparr> = render_turn ar t" using tc by (simp add: render_turn_def)
      note ih = Cons.IH [OF l(1), unfolded tail_ok_def prod.case]
      then obtain us where us: "subseq us ts" "ms = map (render_turn ar) us" "\<forall>t \<in> set us. \<not> summarised ar t" by blast
      have "\<exists>vs. subseq vs (t # ts) \<and> render_turn ar t # ms = map (render_turn ar) vs \<and> (\<forall>x \<in> set vs. \<not> summarised ar x)"
        using us False by (intro exI [of _ "t # us"]) auto
      moreover have "pm_content (render_turn ar t) = c" using tc by simp
      ultimately show ?thesis using ih l(2) 3(2) tc False unfolding eq by (simp add: tail_ok_def)
    qed
  qed
qed

lemma subseq_rev: "subseq xs ys \<Longrightarrow> subseq (rev xs) (rev ys)"
  by (induction rule: list_emb.induct) (auto intro: list_emb_append_mono subseq_order.order_trans)

lemma knowledge_loop_ok:
  assumes "knowledge_loop ld ar idx ds remaining = (ms, ks, om, left)"
  shows "(ks = [] \<longleftrightarrow> ms = []) \<and> sum_list ks = msg_tokens ld ar ms \<and> left = remaining - msg_tokens ld ar ms \<and>
      (0 \<le> remaining \<longrightarrow> 0 \<le> left)"
  using assms
proof (induction ds arbitrary: idx remaining ms ks om left)
  case (Cons d ds)
  obtain ms' ks' om' l where l: "knowledge_loop ld ar (idx + 1) ds (remaining - tokens_of ld ar (doc_block idx d)) = (ms', ks', om', l)"
    by (metis prod.collapse)
  from Cons.IH [OF l] Cons.prems l show ?case by (auto simp: Let_def split: if_splits)
qed auto

lemma knowledge_loop_prefix:
  assumes "knowledge_loop ld ar idx ds remaining = (ms, ks, om, left)"
  shows "\<exists>n \<le> length ds. map pm_content ms = map (\<lambda>(i, d). doc_block i d) (zip [idx..<idx + n] (take n ds)) \<and>
      om = [idx + n..<idx + length ds]"
  using assms
proof (induction ds arbitrary: idx remaining ms ks om left)
  case (Cons d ds)
  show ?case
  proof (cases "remaining < tokens_of ld ar (doc_block idx d)")
    case True
    with Cons.prems have "ms = [] \<and> om = [idx..<idx + length (d # ds)]" by (auto simp: Let_def)
    then show ?thesis by (intro exI [of _ 0]) simp
  next
    case False
    obtain ms' ks' om' l where l: "knowledge_loop ld ar (idx + 1) ds (remaining - tokens_of ld ar (doc_block idx d)) = (ms', ks', om', l)"
      by (metis prod.collapse)
    obtain n where n: "n \<le> length ds" "map pm_content ms' = map (\<lambda>(i, d). doc_block i d) (zip [idx + 1..<idx + 1 + n] (take n ds))"
      "om' = [idx + 1 + n..<idx + 1 + length ds]" using Cons.IH [OF l] by blast
    have "[idx..<idx + Suc n] = idx # [idx + 1..<idx + 1 + n]" using upt_conv_Cons [of idx "idx + Suc n"] by simp
    then have "map pm_content ms = map (\<lambda>(i, d). doc_block i d) (zip [idx..<idx + Suc n] (take (Suc n) (d # ds)))"
      using Cons.prems False l n(2) by (auto simp: Let_def simp del: upt_Suc)
    moreover have "om = [idx + Suc n..<idx + length (d # ds)]" using Cons.prems False l n(3) by (auto simp: Let_def)
    ultimately show ?thesis using n(1) by (intro exI [of _ "Suc n"]) simp
  qed
qed auto

lemma optional_block_ok:
  assumes "optional_block name ms tokens remaining = (out, counts, omitted, left)"
    and "ms = [] \<or> tokens = msg_tokens ld ar ms"
  shows "(out = [] \<or> out = ms) \<and> sum_list (map snd counts) = msg_tokens ld ar out \<and> left = remaining - msg_tokens ld ar out \<and>
    (0 \<le> remaining \<longrightarrow> 0 \<le> left) \<and> (omitted = [] \<longleftrightarrow> out = ms)"
  using assms by (auto simp: optional_block_def split: if_splits)

lemma summary_block_ok:
  assumes "summary_block ld ar cached remaining = (out, counts, omitted, left)"
  shows "(out = [] \<or> map pm_content out = layer_texts (normalize_layers ar)) \<and> sum_list (map snd counts) = msg_tokens ld ar out \<and>
    left = remaining - msg_tokens ld ar out \<and> (0 \<le> remaining \<longrightarrow> 0 \<le> left)"
proof -
  let ?ms = "map (\<lambda>x. \<lparr>pm_role = ''system'', pm_content = x, pm_cached = cached\<rparr>) (layer_texts (normalize_layers ar))"
  have "?ms = [] \<or> (\<Sum>x\<leftarrow>layer_texts (normalize_layers ar). tokens_of ld ar x) = msg_tokens ld ar ?ms"
    by (simp add: msg_tokens_def comp_def)
  from optional_block_ok [OF assms [unfolded summary_block_def Let_def] this] show ?thesis by (auto simp: comp_def)
qed

lemma memory_block_ok:
  assumes "memory_block ld ar remaining = (out, counts, omitted, left)"
  shows "(out = [] \<or> map pm_content out = [memory_text (ar_memory_facts ar)]) \<and> sum_list (map snd counts) = msg_tokens ld ar out \<and>
    left = remaining - msg_tokens ld ar out \<and> (0 \<le> remaining \<longrightarrow> 0 \<le> left)"
proof -
  let ?ms = "if ar_memory_facts ar = [] then [] else [\<lparr>pm_role = ''system'', pm_content = memory_text (ar_memory_facts ar), pm_cached = False\<rparr>]"
  have "?ms = [] \<or> tokens_of ld ar (memory_text (ar_memory_facts ar)) = msg_tokens ld ar ?ms" by simp
  from optional_block_ok [OF assms [unfolded memory_block_def Let_def] this] show ?thesis by (auto split: if_splits)
qed

text \<open>The part after the memory block.\<close>

lemma assemble_rest_ok:
  assumes run: "assemble_rest ld ar msgs counts omitted remaining = Inr ctx"
    and counts: "sum_list (map snd counts) = msg_tokens ld ar msgs" and rem: "0 \<le> remaining"
  shows "(\<exists>turns km n. as_messages ctx = msgs @ map (render_turn ar) turns @ km @ [\<lparr>pm_role = ''user'', pm_content = ar_current_message ar, pm_cached = False\<rparr>] \<and>
      subseq turns (rev (recent_turns_first (ar_history ar))) \<and> (\<forall>t \<in> set turns. \<not> summarised ar t) \<and>
      map pm_content km = map (\<lambda>(i, d). doc_block i d) (zip [0..<n] (take n (sorted_docs (ar_docs ar)))) \<and>
      as_omitted_docs ctx = [n..<length (ar_docs ar)]) \<and>
    as_total_tokens ctx = msg_tokens ld ar (as_messages ctx) \<and>
    msg_tokens ld ar (as_messages ctx) \<le> msg_tokens ld ar msgs + remaining \<and>
    (as_context_window ctx, as_budget_tokens ctx) = context_budget ld ar \<and>
    (\<forall>t \<in> set (recent_turns_first (ar_history ar)). summarised ar t \<or> \<not> unredacted ar t)"
proof -
  obtain tm tk om r3 where t: "tail_loop ld ar (recent_turns_first (ar_history ar)) remaining = Inr (tm, tk, om, r3)"
    using run by (auto simp: assemble_rest_def split: sum.splits)
  obtain km kk ko r4 where k: "knowledge_loop ld ar 0 (sorted_docs (ar_docs ar)) r3 = (km, kk, ko, r4)" by (metis prod.collapse)
  note to = tail_loop_ok [OF t, unfolded tail_ok_def prod.case] and kl = knowledge_loop_ok [OF k] and kp = knowledge_loop_prefix [OF k]
  obtain us where us: "subseq us (recent_turns_first (ar_history ar))" "tm = map (render_turn ar) us" "\<forall>t \<in> set us. \<not> summarised ar t"
    using to by blast
  obtain n where n: "map pm_content km = map (\<lambda>(i, d). doc_block i d) (zip [0..<n] (take n (sorted_docs (ar_docs ar))))"
      "ko = [n..<length (ar_docs ar)]" using kp by (auto simp: sorted_docs_def)
  have ctx: "as_messages ctx = msgs @ rev tm @ km @ [\<lparr>pm_role = ''user'', pm_content = ar_current_message ar, pm_cached = False\<rparr>]"
      "as_total_tokens ctx = sum_list (map snd counts) + sum_list tk + sum_list kk + tokens_of ld ar (ar_current_message ar)"
      "as_omitted_docs ctx = ko" "(as_context_window ctx, as_budget_tokens ctx) = context_budget ld ar"
      "tokens_of ld ar (ar_current_message ar) \<le> r4"
    using run t k by (auto simp: assemble_rest_def block_count_def Let_def split: if_splits)
  have "subseq (rev us) (rev (recent_turns_first (ar_history ar)))" by (rule subseq_rev [OF us(1)])
  moreover have "rev tm = map (render_turn ar) (rev us)" using us(2) by (simp add: rev_map)
  moreover have "\<forall>t \<in> set (rev us). \<not> summarised ar t" using us(3) by simp
  ultimately have "\<exists>turns km n. as_messages ctx = msgs @ map (render_turn ar) turns @ km @ [\<lparr>pm_role = ''user'', pm_content = ar_current_message ar, pm_cached = False\<rparr>] \<and>
      subseq turns (rev (recent_turns_first (ar_history ar))) \<and> (\<forall>t \<in> set turns. \<not> summarised ar t) \<and>
      map pm_content km = map (\<lambda>(i, d). doc_block i d) (zip [0..<n] (take n (sorted_docs (ar_docs ar)))) \<and>
      as_omitted_docs ctx = [n..<length (ar_docs ar)]"
    using n ctx(1,3) by metis
  moreover have "as_total_tokens ctx = msg_tokens ld ar (as_messages ctx)" using ctx(1,2) counts to kl by simp
  moreover have "msg_tokens ld ar (as_messages ctx) \<le> msg_tokens ld ar msgs + remaining" using ctx(1,5) to kl rem by simp
  ultimately show ?thesis using to ctx(4) by blast
qed

text \<open>The blocks of an assembled prompt.\<close>

definition assembled_from ::
  "loader \<Rightarrow> assemble_request \<Rightarrow> assembled \<Rightarrow> prompt_message list \<Rightarrow> prompt_message list \<Rightarrow> context_turn list \<Rightarrow> prompt_message list \<Rightarrow> bool" where
  "assembled_from ld ar ctx sm mm turns km \<longleftrightarrow>
     as_messages ctx = [\<lparr>pm_role = ''system'', pm_content = ar_system_prompt ar, pm_cached = get_or (ar_cache_markers ar) (ld_cache_markers ld)\<rparr>] @
       sm @ mm @ map (render_turn ar) turns @ km @ [\<lparr>pm_role = ''user'', pm_content = ar_current_message ar, pm_cached = False\<rparr>] \<and>
     (sm = [] \<or> map pm_content sm = layer_texts (normalize_layers ar)) \<and>
     (mm = [] \<or> map pm_content mm = [memory_text (ar_memory_facts ar)]) \<and>
     subseq turns (rev (recent_turns_first (ar_history ar))) \<and> list_all (\<lambda>t. \<not> summarised ar t) turns \<and>
     (\<exists>n. map pm_content km = map (\<lambda>(i, d). doc_block i d) (zip [0..<n] (take n (sorted_docs (ar_docs ar)))) \<and>
          as_omitted_docs ctx = [n..<length (ar_docs ar)])"

lemma assemble_spec:
  assumes "assemble ld ar = Inr ctx"
  shows "(\<exists>sm mm turns km. assembled_from ld ar ctx sm mm turns km) \<and> as_total_tokens ctx = msg_tokens ld ar (as_messages ctx) \<and>
    as_total_tokens ctx \<le> as_budget_tokens ctx \<and> (as_context_window ctx, as_budget_tokens ctx) = context_budget ld ar \<and>
    (\<forall>t \<in> set (recent_turns_first (ar_history ar)). summarised ar t \<or> \<not> unredacted ar t)"
proof -
  define cached where "cached = get_or (ar_cache_markers ar) (ld_cache_markers ld)"
  let ?sys = "tokens_of ld ar (ar_system_prompt ar)" and ?first = "\<lparr>pm_role = ''system'', pm_content = ar_system_prompt ar, pm_cached = cached\<rparr>"
  obtain window budget where cb: "context_budget ld ar = (window, budget)" by (cases "context_budget ld ar")
  obtain sm sc so r1 where s: "summary_block ld ar cached (budget - ?sys) = (sm, sc, so, r1)" by (metis prod.collapse)
  obtain mm mc mo r2 where m: "memory_block ld ar r1 = (mm, mc, mo, r2)" by (metis prod.collapse)
  have run: "assemble_rest ld ar (?first # sm @ mm) ((''system'', ?sys) # sc @ mc) (so @ mo) r2 = Inr ctx" and b: "?sys \<le> budget"
    using assms s m by (auto simp: assemble_def cb cached_def Let_def split: if_splits)
  note sb = summary_block_ok [OF s] and mb = memory_block_ok [OF m]
  have r2: "0 \<le> r2" "r2 = budget - ?sys - msg_tokens ld ar sm - msg_tokens ld ar mm" using sb mb b by auto
  note rest = assemble_rest_ok [OF run _ r2(1)]
  have c: "sum_list (map snd ((''system'', ?sys) # sc @ mc)) = msg_tokens ld ar (?first # sm @ mm)" using sb mb by simp
  obtain turns km n where tk: "as_messages ctx = (?first # sm @ mm) @ map (render_turn ar) turns @ km @ [\<lparr>pm_role = ''user'', pm_content = ar_current_message ar, pm_cached = False\<rparr>]"
      "subseq turns (rev (recent_turns_first (ar_history ar)))" "\<forall>t \<in> set turns. \<not> summarised ar t"
      "map pm_content km = map (\<lambda>(i, d). doc_block i d) (zip [0..<n] (take n (sorted_docs (ar_docs ar))))"
      "as_omitted_docs ctx = [n..<length (ar_docs ar)]"
    using rest [OF c] by blast
  have "assembled_from ld ar ctx sm mm turns km"
    unfolding assembled_from_def cached_def [symmetric] using tk sb mb by (auto simp: list_all_iff)
  moreover have "msg_tokens ld ar (as_messages ctx) \<le> budget" using rest [OF c] r2(2) by simp
  ultimately show ?thesis using rest [OF c] cb by auto
qed

lemma set_recent_turns:
  "t \<in> set ts \<Longrightarrow> ct_role t = ''user'' \<or> ct_role t = ''assistant'' \<Longrightarrow> t \<in> set (recent_turns_first ts)"
proof -
  assume t: "t \<in> set ts" "ct_role t = ''user'' \<or> ct_role t = ''assistant''"
  then obtain i where "i < length ts" "ts ! i = t" by (meson in_set_conv_nth)
  then have "(t, i) \<in> set (zip ts [0..<length ts])" by (force simp: set_zip)
  with t(2) show ?thesis by (force simp: recent_turns_first_def)
qed

lemma recent_turns_set: "set (recent_turns_first ts) \<subseteq> set ts"
  by (auto simp: recent_turns_first_def dest: set_zip_leftD)

lemma subseq_set_mono: "subseq xs ys \<Longrightarrow> set xs \<subseteq> set ys"
  by (induction rule: list_emb.induct) auto

lemma recent_turns_order: "sorted_wrt (\<lambda>s t. turn_seq s \<le> turn_seq t) (rev (recent_turns_first ts))"
proof -
  let ?f = "\<lambda>(t, i::nat). (turn_seq t, i)"
  have "sorted_wrt (\<lambda>x y. ?f y \<le> ?f x) (py_sorted_desc ?f xs)" for xs by (rule sorted_py_sorted_desc)
  then have "sorted_wrt (\<lambda>x y. turn_seq (fst y) \<le> turn_seq (fst x)) (py_sorted_desc ?f xs)" for xs
    by (rule sorted_wrt_mono_rel [rotated]) (auto simp: less_eq_prod_def)
  then show ?thesis by (simp add: recent_turns_first_def sorted_wrt_rev sorted_wrt_map)
qed

lemma sorted_wrt_subseq: "subseq xs ys \<Longrightarrow> sorted_wrt P ys \<Longrightarrow> sorted_wrt P xs"
  by (induction rule: list_emb.induct) (auto dest: list_emb_set)

section \<open>Correctness\<close>

definition sample_loader :: loader where
  "sample_loader = \<lparr>ld_estimator = [], ld_catalog = [], ld_output_reserve = 10, ld_cache_markers = True\<rparr>"

definition sample_turn :: "int \<Rightarrow> string \<Rightarrow> context_turn" where
  "sample_turn n text = \<lparr>ct_role = ''user'', ct_content = text, ct_seq = Some n, ct_message_id = None, ct_has_tool_payload = False, ct_raw_content = None\<rparr>"

definition sample_assembly :: assemble_request where
  "sample_assembly = \<lparr>ar_provider = ''openai'', ar_model = ''gpt-4o'', ar_system_prompt = ''be kind'', ar_current_message = ''now'',
     ar_history = [sample_turn 1 ''old'', sample_turn 2 (replicate 60 CHR ''x''), sample_turn 3 ''new''], ar_summary = None,
     ar_summary_position = None, ar_summary_layers = [], ar_memory_facts = [], ar_docs = [], ar_clear_tool_payloads = False,
     ar_window_override = Some 20, ar_cache_markers = None\<rparr>"

definition sample_ctx :: assembled where
  "sample_ctx = (case assemble sample_loader sample_assembly of Inr c \<Rightarrow> c)"

lemma sample_ctx_ok: "assemble sample_loader sample_assembly = Inr sample_ctx"
  by code_simp

text \<open>C34: An assembled prompt never exceeds the model's budget: its total is the sum of the estimates of all its
  messages and is at most the context window less the output reserve.\<close>

theorem assemble_within_budget:
  assumes "assemble ld ar = Inr ctx"
  shows "as_total_tokens ctx = (\<Sum>m\<leftarrow>as_messages ctx. tokens_of ld ar (pm_content m)) \<and>
         as_total_tokens ctx \<le> as_budget_tokens ctx \<and> as_budget_tokens ctx = as_context_window ctx - ld_output_reserve ld"
  using assemble_spec [OF assms] by (auto simp: msg_tokens_def context_budget_def Let_def)

theorem assemble_within_budget_witness:
  "as_total_tokens sample_ctx \<le> 10"
proof -
  have "as_budget_tokens sample_ctx = 10" by code_simp
  with assemble_within_budget [OF sample_ctx_ok] show ?thesis by simp
qed

text \<open>The blocks of an assembled prompt stand in their fixed order: system prompt, summary layers, memory, recent
  turns, knowledge, current message. The turns are in chronological order, none of them is covered by the summary, and
  the knowledge blocks are the best-scored documents, a prefix of the ranking whose complement is reported as omitted.\<close>

theorem assemble_block_order:
  assumes "assemble ld ar = Inr ctx"
  shows "\<exists>sm mm turns km n.
     map pm_content (as_messages ctx) = [ar_system_prompt ar] @ sm @ mm @ map (\<lambda>t. pm_content (render_turn ar t)) turns @ km @ [ar_current_message ar] \<and>
     sm \<in> {[], layer_texts (normalize_layers ar)} \<and> mm \<in> {[], [memory_text (ar_memory_facts ar)]} \<and>
     set turns \<subseteq> {t \<in> set (ar_history ar). \<not> summarised ar t} \<and> sorted_wrt (\<lambda>s t. turn_seq s \<le> turn_seq t) turns \<and>
     km = map (\<lambda>(i, d). doc_block i d) (zip [0..<n] (take n (sorted_docs (ar_docs ar)))) \<and>
     as_omitted_docs ctx = [n..<length (ar_docs ar)]"
proof -
  obtain sm mm turns km where af: "assembled_from ld ar ctx sm mm turns km" using assemble_spec [OF assms] by blast
  then obtain n where n: "map pm_content km = map (\<lambda>(i, d). doc_block i d) (zip [0..<n] (take n (sorted_docs (ar_docs ar))))"
      "as_omitted_docs ctx = [n..<length (ar_docs ar)]" by (auto simp: assembled_from_def)
  have sub: "subseq turns (rev (recent_turns_first (ar_history ar)))" using af by (simp add: assembled_from_def)
  have "set turns \<subseteq> {t \<in> set (ar_history ar). \<not> summarised ar t}"
    using subseq_set_mono [OF sub] recent_turns_set [of "ar_history ar"] af by (auto simp: assembled_from_def list_all_iff)
  moreover have "sorted_wrt (\<lambda>s t. turn_seq s \<le> turn_seq t) turns" by (rule sorted_wrt_subseq [OF sub recent_turns_order])
  moreover have "map pm_content (as_messages ctx) =
      [ar_system_prompt ar] @ map pm_content sm @ map pm_content mm @ map (\<lambda>t. pm_content (render_turn ar t)) turns @ map pm_content km @ [ar_current_message ar]"
      "map pm_content sm \<in> {[], layer_texts (normalize_layers ar)}" "map pm_content mm \<in> {[], [memory_text (ar_memory_facts ar)]}"
    using af by (auto simp: assembled_from_def)
  ultimately show ?thesis
    by (rule_tac exI [of _ "map pm_content sm"], rule_tac exI [of _ "map pm_content mm"], rule_tac exI [of _ turns],
        rule_tac exI [of _ "map pm_content km"], rule_tac exI [of _ n]) (simp add: n)
qed

theorem assemble_block_order_witness:
  "map pm_content (as_messages sample_ctx) = [''be kind'', ''old'', ''new'', ''now''] \<and> hd (map pm_content (as_messages sample_ctx)) = ''be kind''"
proof -
  have "ar_system_prompt sample_assembly = ''be kind''" by code_simp
  then have "hd (map pm_content (as_messages sample_ctx)) = ''be kind''"
    using assemble_block_order [OF sample_ctx_ok] by auto
  moreover have "map pm_content (as_messages sample_ctx) = [''be kind'', ''old'', ''new'', ''now'']" by code_simp
  ultimately show ?thesis by simp
qed

text \<open>Raw text never reaches the model: a conversation turn that has unredacted text only, is not covered by the
  summary and is not replaced by the tool placeholder makes the whole assembly fail.\<close>

theorem unredacted_turn_fails_closed:
  assumes "t \<in> set (ar_history ar)" and "ct_role t = ''user'' \<or> ct_role t = ''assistant''" and "ct_content t = []"
    and "truthy_str (ct_raw_content t)" and "\<not> summarised ar t" and "\<not> (ar_clear_tool_payloads ar \<and> ct_has_tool_payload t)"
  shows "\<exists>e. assemble ld ar = Inl e"
proof (cases "assemble ld ar")
  case (Inr ctx)
  have "unredacted ar t" using assms by (simp add: unredacted_def)
  with assemble_spec [OF Inr] set_recent_turns [OF assms(1,2)] assms(5) show ?thesis by blast
qed auto

definition raw_turn :: context_turn where
  "raw_turn = (sample_turn 4 [])\<lparr>ct_raw_content := Some ''4111 1111''\<rparr>"

theorem unredacted_turn_fails_closed_witness:
  "\<exists>e. assemble sample_loader (sample_assembly\<lparr>ar_history := [raw_turn]\<rparr>) = Inl e"
proof -
  have "truthy_str (ct_raw_content raw_turn)" by code_simp
  then show ?thesis
    by (intro unredacted_turn_fails_closed [of raw_turn]) (simp_all add: raw_turn_def sample_turn_def sample_assembly_def summarised_def)
qed

text \<open>An omitted turn does not end the walk: the rendered tail can skip a long turn between two short ones.\<close>

lemma omitted_turn_leaves_a_gap:
  "as_omitted_turns sample_ctx = [''seq:2''] \<and> map pm_content (as_messages sample_ctx) = [''be kind'', ''old'', ''new'', ''now'']"
  by code_simp

end
