(* ===== verification/Compaction.thy ===== *)
theory Compaction
  imports Context Breakers Thread_Store
begin

text \<open>
  Compaction of a thread (\<open>application/compaction/service.py\<close>) and its background refresh (\<open>refresh.py\<close>): trigger,
  snapshot, split, chunk-and-merge summarisation, the atomic checkpoint swap and the lossy fallback behind the
  breaker. The summariser's provider call (\<open>chat\<close>), the formatted prompt and \<open>json.loads\<close> are parameters; \<open>'w\<close> is the
  state of the provider. The optional quality check only logs; what it asks the provider is the effect \<open>gn_quality\<close>.
\<close>

section \<open>Configuration and trigger\<close>

record compaction_config =
  kc_preemptive_ratio :: rat
  kc_reactive_ratio :: rat
  kc_keep_tokens :: int
  kc_max_output_tokens :: int
  kc_max_snapshot_messages :: nat
  kc_truncation_keep_turns :: nat
  kc_max_merge_depth :: nat
  kc_max_summary_layers :: nat
  kc_quality_check :: bool

definition kc_default :: compaction_config where
  "kc_default = \<lparr>kc_preemptive_ratio = 7/10, kc_reactive_ratio = 95/100, kc_keep_tokens = 8000, kc_max_output_tokens = 4096,
     kc_max_snapshot_messages = 1000, kc_truncation_keep_turns = 10, kc_max_merge_depth = 4, kc_max_summary_layers = 5,
     kc_quality_check = False\<rparr>"

datatype compaction_action = Preemptive | Reactive

definition evaluate :: "compaction_config \<Rightarrow> int \<Rightarrow> int \<Rightarrow> compaction_action option" where
  "evaluate cfg estimated budget =
     (if budget \<le> 0 then None
      else let ratio = (of_int estimated / of_int budget :: rat)
           in if kc_reactive_ratio cfg \<le> ratio then Some Reactive
              else if kc_preemptive_ratio cfg \<le> ratio then Some Preemptive else None)"

section \<open>Summary schema\<close>

datatype compaction_error =
    CompactionAborted string
  | SummaryValidationError "string list"
  | CheckpointFailed store_error

definition summary_fields :: "string list" where
  "summary_fields = [''objective'', ''key_facts'', ''decisions'', ''pending_work'', ''next_moves'']"

definition is_str :: "json \<Rightarrow> bool" where
  "is_str j = (case j of JStr _ \<Rightarrow> True | _ \<Rightarrow> False)"

definition field_errors :: "jobj \<Rightarrow> string \<Rightarrow> string list" where
  "field_errors payload f =
     (case map_of payload f of
        None \<Rightarrow> [''missing field '' @ f]
      | Some v \<Rightarrow>
          if f = ''objective''
          then (case v of JStr s \<Rightarrow> if py_strip s = [] then [''objective must be a non-empty string''] else []
                | _ \<Rightarrow> [''objective must be a non-empty string''])
          else (case v of JList vs \<Rightarrow> if list_all is_str vs then [] else [f @ '' must be a list of strings'']
                | _ \<Rightarrow> [f @ '' must be a list of strings'']))"

definition validate :: "json \<Rightarrow> string list" where
  "validate payload = (case payload of JObj fs \<Rightarrow> concat (map (field_errors fs) summary_fields)
     | _ \<Rightarrow> [''summary payload must be a JSON object''])"

text \<open>\<open>field_name.replace("_", " ").title()\<close>: capitals at the start of each word.\<close>

fun title_words :: "bool \<Rightarrow> string \<Rightarrow> string" where
  "title_words start [] = []"
| "title_words start (c # cs) =
     (if c = CHR ''_'' then CHR '' '' # title_words True cs
      else (if start then upper_char c else lower_char c) # title_words False cs)"

definition str_of :: "json \<Rightarrow> string" where
  "str_of j = (case j of JStr s \<Rightarrow> s | _ \<Rightarrow> [])"

definition field_lines :: "jobj \<Rightarrow> string \<Rightarrow> string list" where
  "field_lines payload f =
     (case map_of payload f of
        Some (JList (v # vs)) \<Rightarrow> (title_words True f @ '':'') # map (\<lambda>x. ''- '' @ str_of x) (v # vs)
      | _ \<Rightarrow> [])"

definition render :: "jobj \<Rightarrow> string" where
  "render payload = py_join newline ((''Objective: '' @ str_of (get_or (map_of payload ''objective'') (JStr []))) #
     concat (map (field_lines payload) (tl summary_fields)))"

section \<open>Summary generator\<close>

text \<open>A turn is its role and its redacted text.\<close>

type_synonym head_turn = "string \<times> string"

record 'w generator =
  gn_chat :: "string \<Rightarrow> 'w \<Rightarrow> (string + string) \<times> 'w"
  gn_format :: "string \<Rightarrow> string"
  gn_loads :: "string \<Rightarrow> json option"
  gn_quality :: "head_turn list \<Rightarrow> string \<Rightarrow> 'w \<Rightarrow> 'w"
  gn_config :: compaction_config
  gn_estimator :: estimator
  gn_catalog :: catalog
  gn_provider :: string
  gn_model :: string

definition summarizer_window :: "'w generator \<Rightarrow> int" where
  "summarizer_window g = catalog_context_window (gn_catalog g) (gn_provider g) (gn_model g) - kc_max_output_tokens (gn_config g) - 4096"

definition turn_tokens :: "estimator \<Rightarrow> head_turn \<Rightarrow> int" where
  "turn_tokens e t = estimate e None None (snd t)"

fun chunk_loop ::
  "estimator \<Rightarrow> int \<Rightarrow> head_turn list \<Rightarrow> head_turn list \<Rightarrow> int \<Rightarrow> compaction_error + head_turn list list" where
  "chunk_loop e window [] current acc = Inr (if current = [] then [] else [current])"
| "chunk_loop e window (t # ts) current acc =
     (let tokens = turn_tokens e t
      in if window < tokens then Inl (CompactionAborted ''single turn exceeds summarizer context'')
         else if current \<noteq> [] \<and> window < acc + tokens
         then (case chunk_loop e window ts [t] tokens of Inl x \<Rightarrow> Inl x | Inr cs \<Rightarrow> Inr (current # cs))
         else chunk_loop e window ts (current @ [t]) (acc + tokens))"

definition chunk_turns :: "estimator \<Rightarrow> int \<Rightarrow> head_turn list \<Rightarrow> compaction_error + head_turn list list" where
  "chunk_turns e window ts = chunk_loop e window ts [] 0"

definition strip_char :: "char \<Rightarrow> string \<Rightarrow> string" where
  "strip_char c s = rev (dropWhile (\<lambda>x. x = c) (rev (dropWhile (\<lambda>x. x = c) s)))"

definition parse_json :: "(string \<Rightarrow> json option) \<Rightarrow> string \<Rightarrow> compaction_error + json" where
  "parse_json loads text =
     (let c0 = py_strip text;
          c1 = (if py_startswith ''```'' c0
                then let s = strip_char CHR ''`'' c0
                     in if py_startswith ''json'' (py_lower s) then py_strip (drop 4 s) else s
                else c0)
      in case loads c1 of Some j \<Rightarrow> Inr j | None \<Rightarrow> Inl (SummaryValidationError [''summarizer returned invalid JSON'']))"

definition as_object :: "json \<Rightarrow> jobj" where
  "as_object j = (case j of JObj fs \<Rightarrow> fs | _ \<Rightarrow> [])"

definition summarize_turns :: "'w generator \<Rightarrow> head_turn list \<Rightarrow> 'w \<Rightarrow> (compaction_error + jobj) \<times> 'w" where
  "summarize_turns g ts w =
     (case gn_chat g (gn_format g (py_join newline (map (\<lambda>(role, text). role @ '': '' @ text) (filter (\<lambda>t. snd t \<noteq> []) ts)))) w of
        (Inl e, w1) \<Rightarrow> (Inl (CompactionAborted (''summarizer call failed: '' @ e)), w1)
      | (Inr content, w1) \<Rightarrow>
          (case parse_json (gn_loads g) content of
             Inl e \<Rightarrow> (Inl e, w1)
           | Inr payload \<Rightarrow>
               if validate payload \<noteq> [] then (Inl (SummaryValidationError (validate payload)), w1)
               else (Inr (as_object payload), w1)))"

fun summarize_chunks :: "'w generator \<Rightarrow> head_turn list list \<Rightarrow> 'w \<Rightarrow> (compaction_error + string list) \<times> 'w" where
  "summarize_chunks g [] w = (Inr [], w)"
| "summarize_chunks g (c # cs) w =
     (case summarize_turns g c w of
        (Inl e, w1) \<Rightarrow> (Inl e, w1)
      | (Inr payload, w1) \<Rightarrow>
          (case summarize_chunks g cs w1 of
             (Inl e, w2) \<Rightarrow> (Inl e, w2)
           | (Inr texts, w2) \<Rightarrow> (Inr (render payload # texts), w2)))"

function merge :: "'w generator \<Rightarrow> head_turn list \<Rightarrow> nat \<Rightarrow> 'w \<Rightarrow> (compaction_error + jobj) \<times> 'w" where
  "merge g ts depth w =
     (case chunk_turns (gn_estimator g) (summarizer_window g) ts of
        Inl e \<Rightarrow> (Inl e, w)
      | Inr chunks \<Rightarrow>
          if length chunks = 1 then summarize_turns g (hd chunks) w
          else if kc_max_merge_depth (gn_config g) \<le> depth then (Inl (CompactionAborted ''chunk-and-merge did not converge''), w)
          else case summarize_chunks g chunks w of
                 (Inl e, w1) \<Rightarrow> (Inl e, w1)
               | (Inr texts, w1) \<Rightarrow> merge g (map (\<lambda>t. (''summary'', t)) texts) (depth + 1) w1)"
  by pat_completeness auto

termination
  by (relation "measure (\<lambda>(g, ts, depth, w). kc_max_merge_depth (gn_config g) - depth)") auto

definition summarize :: "'w generator \<Rightarrow> head_turn list \<Rightarrow> 'w \<Rightarrow> (compaction_error + jobj) \<times> 'w" where
  "summarize g head w =
     (let ts = filter (\<lambda>t. snd t \<noteq> []) head
      in if ts = [] then (Inl (CompactionAborted ''nothing to summarize (empty head)''), w) else merge g ts 0 w)"

section \<open>Snapshot and split\<close>

text \<open>The page walk of \<open>_snapshot\<close> over any paged log.\<close>

function walk :: "(int option \<Rightarrow> nat \<Rightarrow> 'm list \<times> bool) \<Rightarrow> ('m \<Rightarrow> int) \<Rightarrow> nat \<Rightarrow> int option \<Rightarrow> 'm list \<Rightarrow> 'm list" where
  "walk page seq cap after acc =
     (if cap \<le> length acc then acc
      else case page after 200 of
             (ms, has_more) \<Rightarrow>
               if ms = [] then acc
               else if \<not> has_more then acc @ ms
               else walk page seq cap (Some (seq (last ms))) (acc @ ms))"
  by pat_completeness auto

termination
  by (relation "measure (\<lambda>(page, seq, cap, after, acc). cap - length acc)") (auto simp: length_greater_0_conv [symmetric] simp del: length_greater_0_conv)

definition snapshot :: "compaction_config \<Rightarrow> thread_db \<Rightarrow> string \<Rightarrow> string \<Rightarrow> message_row list" where
  "snapshot cfg db tenant tid = walk (list_messages db tenant tid) ms_seq (kc_max_snapshot_messages cfg) None []"

definition row_tokens :: "estimator \<Rightarrow> message_row \<Rightarrow> int" where
  "row_tokens e m = estimate e None None (ms_redacted m)"

text \<open>\<open>_split\<close> walks from the newest message back; \<open>newest\<close> is what is left to look at, newest first.\<close>

fun tail_length :: "estimator \<Rightarrow> int \<Rightarrow> message_row list \<Rightarrow> int \<Rightarrow> nat" where
  "tail_length e keep [] acc = 0"
| "tail_length e keep (m # newest) acc =
     (if keep < acc + row_tokens e m then 0 else Suc (tail_length e keep newest (acc + row_tokens e m)))"

definition split_log :: "compaction_config \<Rightarrow> estimator \<Rightarrow> message_row list \<Rightarrow> message_row list \<times> message_row list" where
  "split_log cfg e ms = (let n = tail_length e (kc_keep_tokens cfg) (rev ms) 0 in (take (length ms - n) ms, drop (length ms - n) ms))"

section \<open>Checkpoint swap\<close>

record 'w compactor =
  cp_db :: thread_db
  cp_breaker :: compaction_breaker
  cp_world :: 'w

datatype compact_result =
    Noop
  | Compacted string int int bool "summary_layer list"

definition degraded_summary_content :: string where
  "degraded_summary_content = ''Summary unavailable (compaction degraded; older context truncated).''"

definition current_layers :: "thread_db \<Rightarrow> string \<Rightarrow> string \<Rightarrow> summary_layer list \<times> int" where
  "current_layers db tenant tid =
     (let row = get_thread db tenant tid; block = Option.bind row th_summary_block;
          stored = (case block of None \<Rightarrow> [] | Some b \<Rightarrow> sb_layers b);
          layers = (case block of
                      Some b \<Rightarrow> if stored = [] \<and> sb_content b \<noteq> []
                                then [\<lparr>ly_position = num_or (Option.bind row th_summary_position) 0, ly_content = sb_content b, ly_payload = sb_payload b\<rparr>]
                                else stored
                    | None \<Rightarrow> stored)
      in (layers, if layers = [] then 0 else ly_position (last layers)))"

definition breaker_key :: "string \<Rightarrow> string \<Rightarrow> string" where
  "breaker_key tenant tid = tenant @ '':'' @ tid"

definition truncate_fallback ::
  "compaction_config \<Rightarrow> string \<Rightarrow> string \<Rightarrow> message_row list \<Rightarrow> string option \<Rightarrow> 'w compactor \<Rightarrow> (compaction_error + compact_result) \<times> 'w compactor" where
  "truncate_fallback cfg tenant tid snap req st =
     (let keep = kc_truncation_keep_turns cfg
      in if length snap \<le> keep then (Inr Noop, st)
         else let boundary = snap ! (length snap - (keep + 1))
              in case set_summary tenant tid \<lparr>sb_content = degraded_summary_content, sb_payload = [], sb_head_until_seq = ms_seq boundary,
                        sb_degraded = True, sb_layers = []\<rparr> (ms_seq boundary) (ms_id boundary) req True (cp_db st) of
                   (Inl e, db1) \<Rightarrow> (Inl (CheckpointFailed e), st\<lparr>cp_db := db1\<rparr>)
                 | (Inr (version, position, _), db1) \<Rightarrow>
                     (Inr (Compacted degraded_summary_content version position True []), st\<lparr>cp_db := db1\<rparr>))"

definition head_turns :: "message_row list \<Rightarrow> head_turn list" where
  "head_turns ms = map (\<lambda>m. (ms_role m, ms_redacted m)) ms"

text \<open>The body of the \<open>try\<close>: summarise, validate again, swap.\<close>

definition swap_checkpoint ::
  "compaction_config \<Rightarrow> 'w generator \<Rightarrow> string \<Rightarrow> string \<Rightarrow> summary_layer list \<Rightarrow> message_row list \<Rightarrow> message_row list \<Rightarrow> string option
     \<Rightarrow> thread_db \<Rightarrow> 'w \<Rightarrow> (compaction_error + compact_result) \<times> thread_db \<times> 'w" where
  "swap_checkpoint cfg g tenant tid old_layers head head_slice req db w =
     (let consolidate = kc_max_summary_layers cfg \<le> length old_layers; source = head_turns (if consolidate then head else head_slice);
          boundary = last head_slice
      in case summarize g source w of
           (Inl e, w1) \<Rightarrow> (Inl e, db, w1)
         | (Inr payload, w1) \<Rightarrow>
             (let layer = \<lparr>ly_position = ms_seq boundary, ly_content = render payload, ly_payload = payload\<rparr>;
                  layers = (if consolidate then [layer] else old_layers @ [layer]);
                  w2 = (if kc_quality_check cfg then gn_quality g source (render payload) w1 else w1)
              in if validate (JObj payload) \<noteq> [] then (Inl (SummaryValidationError (validate (JObj payload))), db, w1)
                 else case set_summary tenant tid \<lparr>sb_content = py_join (newline @ newline) (map ly_content layers), sb_payload = payload,
                             sb_head_until_seq = ms_seq boundary, sb_degraded = False, sb_layers = layers\<rparr>
                             (ms_seq boundary) (ms_id boundary) req False db of
                        (Inl e, db1) \<Rightarrow> (Inl (CheckpointFailed e), db1, w2)
                      | (Inr (version, position, _), db1) \<Rightarrow> (Inr (Compacted (render payload) version position False layers), db1, w2)))"

text \<open>\<open>t0\<close> and \<open>t1\<close> are the clock readings of the breaker's check and of a recorded failure.\<close>

definition compact ::
  "compaction_config \<Rightarrow> kb_config \<Rightarrow> estimator \<Rightarrow> 'w generator \<Rightarrow> string \<Rightarrow> string \<Rightarrow> string option \<Rightarrow> time \<Rightarrow> time \<Rightarrow> 'w compactor
     \<Rightarrow> (compaction_error + compact_result) \<times> 'w compactor" where
  "compact cfg kb e g tenant tid req t0 t1 st =
     (let snap = snapshot cfg (cp_db st) tenant tid; head = fst (split_log cfg e snap)
      in if snap = [] \<or> head = [] then (Inr Noop, st)
         else case kb_is_tripped kb t0 (breaker_key tenant tid) (cp_breaker st) of
                (True, b1) \<Rightarrow> truncate_fallback cfg tenant tid snap req (st\<lparr>cp_breaker := b1\<rparr>)
              | (False, b1) \<Rightarrow>
                  (case current_layers (cp_db st) tenant tid of
                     (old_layers, prev_position) \<Rightarrow>
                       (let head_slice = filter (\<lambda>m. prev_position < ms_seq m) head
                        in if head_slice = [] then (Inr Noop, st\<lparr>cp_breaker := b1\<rparr>)
                           else case swap_checkpoint cfg g tenant tid old_layers head head_slice req (cp_db st) (cp_world st) of
                                  (Inl x, db1, w1) \<Rightarrow>
                                    (Inl x, st\<lparr>cp_db := db1, cp_breaker := snd (kb_record_failure kb t1 (breaker_key tenant tid) b1), cp_world := w1\<rparr>)
                                | (Inr r, db1, w1) \<Rightarrow>
                                    (Inr r, st\<lparr>cp_db := db1, cp_breaker := kb_record_success (breaker_key tenant tid) b1, cp_world := w1\<rparr>))))"

section \<open>Background refresh\<close>

record refresh_config =
  rc_min_growth_turns :: nat
  rc_max_threads_per_run :: nat

definition rc_default :: refresh_config where
  "rc_default = \<lparr>rc_min_growth_turns = 10, rc_max_threads_per_run = 50\<rparr>"

text \<open>The loop of \<open>_count_since\<close> has no bound of its own; \<^const>\<open>None\<close> stands for not returning, or for a page that is
  empty and yet has more (\<open>messages[-1]\<close> raises).\<close>

partial_function (option) count_since :: "(int option \<Rightarrow> nat \<Rightarrow> 'm list \<times> bool) \<Rightarrow> ('m \<Rightarrow> int) \<Rightarrow> int \<Rightarrow> nat \<Rightarrow> nat option" where
  "count_since page seq after n =
     (if \<not> snd (page (Some after) 200) then Some (n + length (fst (page (Some after) 200)))
      else if fst (page (Some after) 200) = [] then None
      else count_since page seq (seq (last (fst (page (Some after) 200)))) (n + length (fst (page (Some after) 200))))"

datatype refresh_result =
    ThreadMissing
  | InsufficientGrowth nat
  | Refreshed bool compact_result
  | RefreshFailed compaction_error
  | CountFailed

definition refresh_thread_summary ::
  "refresh_config \<Rightarrow> compaction_config \<Rightarrow> kb_config \<Rightarrow> estimator \<Rightarrow> 'w generator \<Rightarrow> string \<Rightarrow> string \<Rightarrow> string option \<Rightarrow> time \<Rightarrow> time \<Rightarrow> 'w compactor
     \<Rightarrow> refresh_result \<times> 'w compactor" where
  "refresh_thread_summary rc cfg kb e g tenant tid req t0 t1 st =
     (case get_thread (cp_db st) tenant tid of
        None \<Rightarrow> (ThreadMissing, st)
      | Some t \<Rightarrow>
          (case count_since (list_messages (cp_db st) tenant tid) ms_seq (num_or (th_summary_position t) 0) 0 of
             None \<Rightarrow> (CountFailed, st)
           | Some new_turns \<Rightarrow>
               if new_turns < rc_min_growth_turns rc then (InsufficientGrowth new_turns, st)
               else case compact cfg kb e g tenant tid req t0 t1 st of
                      (Inl x, st1) \<Rightarrow> (RefreshFailed x, st1)
                    | (Inr r, st1) \<Rightarrow> (Refreshed (r \<noteq> Noop) r, st1)))"

definition find_stale_threads :: "refresh_config \<Rightarrow> thread_db \<Rightarrow> (thread_row \<times> int) list" where
  "find_stale_threads rc db = list_threads_stale_for_compaction db (int (rc_min_growth_turns rc)) (rc_max_threads_per_run rc)"

declare walk.simps [simp del] merge.simps [simp del]

section \<open>Walking a paged log\<close>

text \<open>What the walks rely on: the log is in ascending order, and a page is the part after a number, cut to a size, with
  whether there is more.\<close>

locale paged_log =
  fixes ok :: "'s \<Rightarrow> bool" and page :: "'s \<Rightarrow> int option \<Rightarrow> nat \<Rightarrow> 'm list \<times> bool" and seq :: "'m \<Rightarrow> int" and log :: "'s \<Rightarrow> 'm list"
  assumes ascending: "ok s \<Longrightarrow> sorted_wrt (<) (map seq (log s))"
    and page_first: "ok s \<Longrightarrow> page s None n = (take n (log s), n < length (log s))"
    and page_after: "ok s \<Longrightarrow> page s (Some k) n = (take n (filter (\<lambda>m. k < seq m) (log s)), n < length (filter (\<lambda>m. k < seq m) (log s)))"
begin

lemma after_position:
  assumes "ok s" and "i < length (log s)"
  shows "filter (\<lambda>m. seq (log s ! i) < seq m) (log s) = drop (Suc i) (log s)"
proof -
  let ?P = "\<lambda>m. seq (log s ! i) < seq m"
  have mono: "j < k \<Longrightarrow> k < length (log s) \<Longrightarrow> seq (log s ! j) < seq (log s ! k)" for j k
    using ascending [OF assms(1)] by (auto simp: sorted_wrt_iff_nth_less)
  have "\<not> ?P m" if m: "m \<in> set (take (Suc i) (log s))" for m
  proof -
    obtain j where "j < length (take (Suc i) (log s))" "take (Suc i) (log s) ! j = m" using m by (meson in_set_conv_nth)
    then have "j < Suc i" "m = log s ! j" by auto
    then show ?thesis using mono [of j i] assms(2) by (cases "j = i") auto
  qed
  then have "filter ?P (take (Suc i) (log s)) = []" by (auto simp: filter_empty_conv)
  moreover have "filter ?P (drop (Suc i) (log s)) = drop (Suc i) (log s)"
    using mono [of i] assms(2) by (intro filter_True) (auto simp: in_set_conv_nth)
  ultimately show ?thesis by (metis append_Nil append_take_drop_id filter_append)
qed

text \<open>The page that follows the first \<open>i\<close> messages.\<close>

lemma page_at:
  assumes "ok s" and "i \<le> length (log s)"
  shows "page s (if i = 0 then None else Some (seq (log s ! (i - 1)))) n = (take n (drop i (log s)), n < length (log s) - i)"
  using assms page_first page_after after_position [of s "i - 1"] by (cases i) simp_all

lemma last_taken: "0 < n \<Longrightarrow> n < length (log s) - i \<Longrightarrow> last (take n (drop i (log s))) = log s ! (i + n - 1)"
  by (subst last_conv_nth) auto

lemma walk_from:
  assumes "ok s" and "i \<le> length (log s)"
  shows "\<exists>k. walk (page s) seq cap (if i = 0 then None else Some (seq (log s ! (i - 1)))) (take i (log s)) = take k (log s) \<and>
    i \<le> k \<and> (k = length (log s) \<or> cap \<le> k) \<and> k < max (i + 1) (cap + 200)"
  using assms(2)
proof (induction "length (log s) - i" arbitrary: i rule: less_induct)
  case less
  note pg = page_at [OF assms(1) less.prems, of 200]
  consider "cap \<le> i" | "i < cap" "length (log s) = i" | "i < cap" "i < length (log s)" "length (log s) - i \<le> 200"
    | "i < cap" "200 < length (log s) - i" using less.prems by linarith
  then show ?case
  proof cases
    case 1
    then have "walk (page s) seq cap (if i = 0 then None else Some (seq (log s ! (i - 1)))) (take i (log s)) = take i (log s)"
      using less.prems by (subst walk.simps) simp
    then show ?thesis using 1 by (intro exI [of _ i]) simp
  next
    case 2
    then have "walk (page s) seq cap (if i = 0 then None else Some (seq (log s ! (i - 1)))) (take i (log s)) = take i (log s)"
      using pg by (subst walk.simps) simp
    then show ?thesis using 2 by (intro exI [of _ i]) simp
  next
    case 3
    then have "walk (page s) seq cap (if i = 0 then None else Some (seq (log s ! (i - 1)))) (take i (log s)) = take i (log s) @ drop i (log s)"
      using pg by (subst walk.simps) simp
    then show ?thesis using 3 by (intro exI [of _ "length (log s)"]) auto
  next
    case 4
    have "walk (page s) seq cap (if i = 0 then None else Some (seq (log s ! (i - 1)))) (take i (log s)) =
        walk (page s) seq cap (Some (seq (log s ! (i + 200 - 1)))) (take (i + 200) (log s))"
      using pg 4 last_taken [of 200 s i] by (subst walk.simps) (auto simp: take_add)
    moreover have "length (log s) - (i + 200) < length (log s) - i" "i + 200 \<le> length (log s)" using 4(2) by linarith+
    from less.hyps [OF this] obtain k where "walk (page s) seq cap (Some (seq (log s ! (i + 200 - 1)))) (take (i + 200) (log s)) = take k (log s)"
        "i + 200 \<le> k" "k = length (log s) \<or> cap \<le> k" "k < max (i + 200 + 1) (cap + 200)"
      by auto
    moreover from this have "k < cap + 200" using 4(1) by simp
    ultimately show ?thesis by (intro exI [of _ k]) simp
  qed
qed

lemma count_from:
  assumes "ok s" and "i \<le> length (log s)" and "filter (\<lambda>m. k < seq m) (log s) = drop i (log s)"
  shows "count_since (page s) seq k n = Some (n + (length (log s) - i))"
  using assms(2,3)
proof (induction "length (log s) - i" arbitrary: i k n rule: less_induct)
  case less
  have pg: "page s (Some k) 200 = (take 200 (drop i (log s)), 200 < length (log s) - i)" using page_after [OF assms(1), of k 200] less.prems(2) by simp
  show ?case
  proof (cases "200 < length (log s) - i")
    case False
    then show ?thesis by (subst count_since.simps) (simp add: pg)
  next
    case True
    have "count_since (page s) seq k n = count_since (page s) seq (seq (log s ! (i + 199))) (n + 200)"
      using True last_taken [of 200 s i] by (subst count_since.simps) (auto simp: pg add.commute)
    also have "\<dots> = Some (n + 200 + (length (log s) - (i + 200)))"
      using True after_position [OF assms(1), of "i + 199"] by (intro less.hyps) (simp_all add: eval_nat_numeral)
    finally show ?thesis using True by simp
  qed
qed

lemma walk_all: "ok s \<Longrightarrow> \<exists>k. walk (page s) seq cap None [] = take k (log s) \<and> (k = length (log s) \<or> cap \<le> k) \<and> k < cap + 200"
  using walk_from [of s 0 cap] by (cases cap) (auto simp: max_def split: if_splits)

end

interpretation thread_pages: paged_log db_inv "\<lambda>db. list_messages db tn tid" ms_seq "\<lambda>db. thread_messages db tn tid"
  by unfold_locales (simp_all add: thread_messages_ascending list_messages_page Let_def)

section \<open>Lemmas\<close>

lemma tail_length_bounds:
  assumes "tail_length e keep ms acc = n"
  shows "n \<le> length ms \<and> (acc \<le> keep \<longrightarrow> acc + (\<Sum>m\<leftarrow>take n ms. row_tokens e m) \<le> keep) \<and>
    (n < length ms \<longrightarrow> keep < acc + (\<Sum>m\<leftarrow>take (Suc n) ms. row_tokens e m))"
  using assms
proof (induction ms arbitrary: acc n)
  case (Cons m ms)
  show ?case
  proof (cases "keep < acc + row_tokens e m")
    case False
    obtain k where k: "tail_length e keep ms (acc + row_tokens e m) = k" by simp
    with Cons.prems False have "n = Suc k" by simp
    with Cons.IH [OF k] False show ?thesis by (auto simp: algebra_simps)
  qed (use Cons.prems in auto)
qed simp

lemma split_log_append: "fst (split_log cfg e ms) @ snd (split_log cfg e ms) = ms"
  by (simp add: split_log_def Let_def)

lemma chunk_loop_ok:
  assumes "chunk_loop e window ts current acc = Inr chunks" and "acc = (\<Sum>t\<leftarrow>current. turn_tokens e t)" and "acc \<le> window \<or> current = []"
  shows "concat chunks = current @ ts \<and> list_all (\<lambda>c. c \<noteq> [] \<and> (\<Sum>t\<leftarrow>c. turn_tokens e t) \<le> window) chunks"
  using assms
proof (induction ts arbitrary: current acc chunks)
  case (Cons t ts)
  have fits: "turn_tokens e t \<le> window" using Cons.prems(1) by (auto simp: Let_def split: if_splits)
  show ?case
  proof (cases "current \<noteq> [] \<and> window < acc + turn_tokens e t")
    case True
    then obtain cs where cs: "chunk_loop e window ts [t] (turn_tokens e t) = Inr cs" "chunks = current # cs"
      using Cons.prems(1) fits by (auto simp: Let_def split: sum.splits)
    with Cons.IH [OF cs(1)] fits True Cons.prems(2,3) show ?thesis by auto
  next
    case False
    then have "chunk_loop e window ts (current @ [t]) (acc + turn_tokens e t) = Inr chunks"
      using Cons.prems(1) fits by (auto simp: Let_def)
    from Cons.IH [OF this] False fits Cons.prems(2,3) show ?thesis by auto
  qed
qed auto

lemma chunk_loop_error: "chunk_loop e window ts current acc = Inl x \<Longrightarrow> \<exists>t \<in> set ts. window < turn_tokens e t"
  by (induction ts arbitrary: current acc) (auto simp: Let_def split: if_splits sum.splits)

lemma chunk_loop_fits: "list_all (\<lambda>t. turn_tokens e t \<le> window) ts \<Longrightarrow> \<exists>cs. chunk_loop e window ts current acc = Inr cs"
proof (cases "chunk_loop e window ts current acc")
  case (Inl x)
  assume "list_all (\<lambda>t. turn_tokens e t \<le> window) ts"
  with chunk_loop_error [OF Inl] show ?thesis by (force simp: list_all_iff)
qed simp

lemma summarize_turns_valid: "summarize_turns g ts w = (Inr payload, w') \<Longrightarrow> validate (JObj payload) = []"
  by (auto simp: summarize_turns_def as_object_def validate_def split: sum.splits prod.splits if_splits json.splits)

lemma merge_valid: "merge g ts depth w = (Inr payload, w') \<Longrightarrow> validate (JObj payload) = []"
proof (induction g ts depth w rule: merge.induct)
  case (1 g ts depth w)
  then show ?case by (subst (asm) (2) merge.simps) (auto split: sum.splits prod.splits if_splits dest: summarize_turns_valid)
qed

lemma summarize_valid: "summarize g ts w = (Inr payload, w') \<Longrightarrow> validate (JObj payload) = []"
  by (auto simp: summarize_def Let_def split: if_splits dest: merge_valid)

lemma get_thread_update:
  assumes "\<And>t. th_id (f t) = th_id t" and "\<And>t. th_tenant (f t) = th_tenant t"
  shows "get_thread (update_thread tn tid f db) tn tid = map_option f (get_thread db tn tid)"
proof -
  have "find (\<lambda>t. th_tenant t = tn \<and> th_id t = tid) (map (\<lambda>t. if th_tenant t = tn \<and> th_id t = tid then f t else t) ts) =
      map_option f (find (\<lambda>t. th_tenant t = tn \<and> th_id t = tid) ts)" for ts
    using assms by (induction ts) auto
  then show ?thesis by (simp add: get_thread_def update_thread_def)
qed

lemma set_summary_error: "set_summary tn tid b pos bnd req dg db = (Inl e, db') \<Longrightarrow> db' = db"
  by (auto simp: set_summary_def Let_def split: option.splits if_splits)

lemma set_summary_done:
  assumes "set_summary tn tid b pos bnd req dg db = (Inr (v, p, n), db')"
  shows "p = pos \<and> db_messages db' = db_messages db \<and>
    (\<exists>t. get_thread db tn tid = Some t \<and> v = th_summary_version t + 1 \<and>
      get_thread db' tn tid = Some (t\<lparr>th_summary_block := Some b, th_summary_position := Some pos, th_summary_version := v\<rparr>))"
proof -
  obtain t where t: "get_thread db tn tid = Some t" using assms by (auto simp: set_summary_def split: option.splits)
  let ?f = "\<lambda>t. t\<lparr>th_summary_block := Some b, th_summary_position := Some pos, th_summary_version := v\<rparr>"
  have "p = pos \<and> v = th_summary_version t + 1 \<and> db_messages db' = db_messages db \<and> db_threads db' = db_threads (update_thread tn tid ?f db)"
    using assms t by (auto simp: set_summary_def Let_def split: if_splits)
  moreover have "get_thread (update_thread tn tid ?f db) tn tid = Some (?f t)" by (subst get_thread_update) (simp_all add: t)
  ultimately show ?thesis using t by (simp add: get_thread_def)
qed

lemma current_layers_stored:
  assumes "get_thread db tn tid = Some t" and "th_summary_block t = Some b" and "sb_layers b \<noteq> []"
  shows "current_layers db tn tid = (sb_layers b, ly_position (last (sb_layers b)))"
  using assms by (simp add: current_layers_def Let_def)

lemma swap_checkpoint_error: "swap_checkpoint cfg g tn tid ol head hs req db w = (Inl x, db', w') \<Longrightarrow> db' = db"
  by (auto simp: swap_checkpoint_def Let_def split: sum.splits prod.splits if_splits dest: set_summary_error)

lemma swap_checkpoint_done:
  assumes "swap_checkpoint cfg g tn tid ol head hs req db w = (Inr r, db', w')"
  shows "\<exists>layer version. ly_position layer = ms_seq (last hs) \<and> validate (JObj (ly_payload layer)) = [] \<and> ly_content layer = render (ly_payload layer) \<and>
    r = Compacted (ly_content layer) version (ms_seq (last hs)) False (if kc_max_summary_layers cfg \<le> length ol then [layer] else ol @ [layer]) \<and>
    current_layers db' tn tid = ((if kc_max_summary_layers cfg \<le> length ol then [layer] else ol @ [layer]), ms_seq (last hs)) \<and>
    db_messages db' = db_messages db"
proof -
  let ?src = "head_turns (if kc_max_summary_layers cfg \<le> length ol then head else hs)"
  obtain payload w1 where p: "summarize g ?src w = (Inr payload, w1)" "validate (JObj payload) = []"
    using assms by (cases "summarize g ?src w") (auto simp: swap_checkpoint_def Let_def split: sum.splits if_splits)
  define layer where "layer = \<lparr>ly_position = ms_seq (last hs), ly_content = render payload, ly_payload = payload\<rparr>"
  define layers where "layers = (if kc_max_summary_layers cfg \<le> length ol then [layer] else ol @ [layer])"
  define block where "block = \<lparr>sb_content = py_join (newline @ newline) (map ly_content layers), sb_payload = payload,
      sb_head_until_seq = ms_seq (last hs), sb_degraded = False, sb_layers = layers\<rparr>"
  obtain v pos n where s: "set_summary tn tid block (ms_seq (last hs)) (ms_id (last hs)) req False db = (Inr (v, pos, n), db')"
      and r: "r = Compacted (render payload) v pos False layers"
  proof -
    have "swap_checkpoint cfg g tn tid ol head hs req db w =
        (case set_summary tn tid block (ms_seq (last hs)) (ms_id (last hs)) req False db of
           (Inl e, db1) \<Rightarrow> (Inl (CheckpointFailed e), db1, if kc_quality_check cfg then gn_quality g ?src (render payload) w1 else w1)
         | (Inr (version, position, _), db1) \<Rightarrow>
             (Inr (Compacted (render payload) version position False layers), db1, if kc_quality_check cfg then gn_quality g ?src (render payload) w1 else w1))"
      using p by (auto simp: swap_checkpoint_def Let_def block_def layers_def layer_def split: prod.split sum.split)
    with assms that show thesis by (auto split: sum.splits prod.splits)
  qed
  obtain t where t: "get_thread db' tn tid = Some t" "th_summary_block t = Some block" using set_summary_done [OF s] by fastforce
  have "layers \<noteq> []" "last layers = layer" by (simp_all add: layers_def)
  then have "current_layers db' tn tid = (layers, ms_seq (last hs))"
    using current_layers_stored [OF t] by (simp add: block_def layer_def)
  then show ?thesis using set_summary_done [OF s] r p(2) unfolding layers_def
    by (intro exI [of _ layer] exI [of _ v]) (simp add: layer_def)
qed

lemma kb_tripped_fails: "kb_is_tripped kb t key b = (False, b1) \<Longrightarrow> kb_fails key b1 = kb_fails key b \<or> kb_fails key b1 = 0"
  by (auto simp: kb_is_tripped_def kb_fails_def get_or_def split: option.splits prod.splits if_splits)

lemma ascending_last:
  fixes f :: "'a \<Rightarrow> int"
  assumes "sorted_wrt (<) (map f xs)" and "y \<in> set xs"
  shows "f y \<le> f (last xs)"
  using assms by (induction xs) (auto split: if_splits intro: less_imp_le)

lemma last_filter_ascending:
  fixes f :: "'a \<Rightarrow> int"
  assumes "sorted_wrt (<) (map f xs)" and "filter (\<lambda>x. k < f x) xs \<noteq> []"
  shows "last (filter (\<lambda>x. k < f x) xs) = last xs"
proof -
  have ne: "xs \<noteq> []" using assms(2) by auto
  then obtain ys where xs: "xs = ys @ [last xs]" by (metis append_butlast_last_id)
  obtain x where "x \<in> set xs" "k < f x" using assms(2) by (auto simp: filter_empty_conv)
  moreover have "f y \<le> f (last xs)" if "y \<in> set xs" for y by (rule ascending_last [OF assms(1) that])
  ultimately have "k < f (last xs)" by (meson order_less_le_trans)
  then show ?thesis by (subst xs) simp
qed

lemma filter_above_last:
  fixes f :: "'a \<Rightarrow> int"
  assumes "sorted_wrt (<) (map f (xs @ ys))" and "xs \<noteq> []"
  shows "filter (\<lambda>x. f (last xs) < f x) (xs @ ys) = ys"
proof -
  have "sorted_wrt (<) (map f xs)" using assms(1) by (simp add: sorted_wrt_append)
  then have "filter (\<lambda>x. f (last xs) < f x) xs = []" using ascending_last by (force simp: filter_empty_conv)
  moreover have "f (last xs) < f y" if "y \<in> set ys" for y using assms that by (auto simp: sorted_wrt_append)
  then have "filter (\<lambda>x. f (last xs) < f x) ys = ys" by (intro filter_True) auto
  ultimately show ?thesis by simp
qed

lemma filter_above_drop:
  fixes f :: "'a \<Rightarrow> int"
  shows "sorted_wrt (<) (map f xs) \<Longrightarrow> \<exists>i \<le> length xs. filter (\<lambda>x. k < f x) xs = drop i xs"
proof (induction xs)
  case (Cons x xs)
  show ?case
  proof (cases "k < f x")
    case True
    then have "filter (\<lambda>x. k < f x) (x # xs) = x # xs" using Cons.prems by (intro filter_True) auto
    then show ?thesis by (intro exI [of _ 0]) simp
  next
    case False
    from Cons obtain i where "i \<le> length xs" "filter (\<lambda>x. k < f x) xs = drop i xs" by auto
    with False show ?thesis by (intro exI [of _ "Suc i"]) simp
  qed
qed simp

lemma compact_error_cases:
  assumes "compact cfg kb e g tn tid req t0 t1 st = (Inl x, st')"
  shows "cp_db st' = cp_db st \<and> (fst (kb_is_tripped kb t0 (breaker_key tn tid) (cp_breaker st)) \<or>
    kb_fails (breaker_key tn tid) (cp_breaker st') = kb_fails (breaker_key tn tid) (snd (kb_is_tripped kb t0 (breaker_key tn tid) (cp_breaker st))) + 1)"
  using assms
  by (auto simp: compact_def truncate_fallback_def kb_record_failure_def kb_fails_def get_or_def Let_def
      split: if_splits prod.splits sum.splits bool.splits option.splits dest: set_summary_error swap_checkpoint_error)

lemma compact_done_cases:
  assumes "compact cfg kb e g tn tid req t0 t1 st = (Inr (Compacted s v p False layers), st')"
  obtains old prev b1 w' head where "current_layers (cp_db st) tn tid = (old, prev)" "head = fst (split_log cfg e (snapshot cfg (cp_db st) tn tid))"
    "filter (\<lambda>m. prev < ms_seq m) head \<noteq> []" "cp_breaker st' = kb_record_success (breaker_key tn tid) b1"
    "swap_checkpoint cfg g tn tid old head (filter (\<lambda>m. prev < ms_seq m) head) req (cp_db st) (cp_world st) = (Inr (Compacted s v p False layers), cp_db st', w')"
  using assms
  by (auto simp: compact_def truncate_fallback_def Let_def split: if_splits prod.splits sum.splits bool.splits intro: that)

lemma snapshot_prefix:
  assumes "db_inv db"
  shows "\<exists>k. snapshot cfg db tn tid = take k (thread_messages db tn tid) \<and> k < kc_max_snapshot_messages cfg + 200 \<and>
    (k = length (thread_messages db tn tid) \<or> kc_max_snapshot_messages cfg \<le> k)"
  using thread_pages.walk_all [OF assms, of tn tid "kc_max_snapshot_messages cfg"] by (auto simp: snapshot_def)

section \<open>Correctness\<close>

text \<open>The split keeps the newest messages live: head and tail are the snapshot, the tail's tokens are within the limit and
  the newest message of the head would exceed it.\<close>

theorem split_keeps_recent:
  assumes "0 \<le> kc_keep_tokens cfg" and "split_log cfg e ms = (head, tail)"
  shows "head @ tail = ms \<and> (\<Sum>m\<leftarrow>tail. row_tokens e m) \<le> kc_keep_tokens cfg \<and>
    (head = [] \<or> kc_keep_tokens cfg < row_tokens e (last head) + (\<Sum>m\<leftarrow>tail. row_tokens e m))"
proof -
  define n where "n = tail_length e (kc_keep_tokens cfg) (rev ms) 0"
  note b = tail_length_bounds [OF n_def [symmetric]]
  have ht: "head = take (length ms - n) ms" "tail = drop (length ms - n) ms" using assms(2) by (auto simp: split_log_def n_def Let_def)
  have "(\<Sum>m\<leftarrow>rev tail. row_tokens e m) \<le> kc_keep_tokens cfg" using b assms(1) by (simp add: ht rev_drop)
  moreover have "kc_keep_tokens cfg < (\<Sum>m\<leftarrow>rev (last head # tail). row_tokens e m)" if "head \<noteq> []"
  proof -
    have n: "n < length ms" using that ht(1) by auto
    then have "last head # tail = drop (length ms - Suc n) ms"
      unfolding ht using Cons_nth_drop_Suc [of "length ms - Suc n" ms] by (subst last_conv_nth) (auto simp: Suc_diff_Suc)
    then have "rev (last head # tail) = take (Suc n) (rev ms)" using n by (simp only: rev_drop) simp
    then show ?thesis using b n by simp
  qed
  ultimately show ?thesis by (auto simp: ht rev_map [symmetric] add.commute)
qed

text \<open>Chunking partitions the turns in order into non-empty chunks that each fit the summariser's window, and gives up
  exactly when one turn alone does not fit.\<close>

theorem chunks_partition_and_fit:
  "case chunk_turns e window ts of
     Inr chunks \<Rightarrow> concat chunks = ts \<and> list_all (\<lambda>c. c \<noteq> [] \<and> (\<Sum>t\<leftarrow>c. turn_tokens e t) \<le> window) chunks
   | Inl _ \<Rightarrow> list_ex (\<lambda>t. window < turn_tokens e t) ts"
proof (cases "chunk_turns e window ts")
  case (Inl x)
  then show ?thesis using chunk_loop_error [of e window ts "[]" 0 x] by (simp add: chunk_turns_def list_ex_iff)
next
  case (Inr chunks)
  then show ?thesis using chunk_loop_ok [of e window ts "[]" 0 chunks] by (simp add: chunk_turns_def)
qed

text \<open>The snapshot compaction works on is a prefix of the thread, oldest first, of fewer than 200 messages more than the
  configured maximum: it is the whole thread only while that is shorter, and what lies beyond is never looked at.\<close>

theorem snapshot_is_bounded_prefix:
  assumes "db_inv db"
  shows "\<exists>k. snapshot cfg db tn tid = take k (thread_messages db tn tid) \<and> k < kc_max_snapshot_messages cfg + 200 \<and>
    (k = length (thread_messages db tn tid) \<or> kc_max_snapshot_messages cfg \<le> k)"
  by (rule snapshot_prefix [OF assms])

text \<open>A compaction that raises leaves the whole thread store as it was, the prior checkpoint included, and counts one more
  failure towards the breaker.\<close>

theorem failed_compaction_changes_nothing:
  assumes "compact cfg kb e g tn tid req t0 t1 st = (Inl x, st')" and "\<not> fst (kb_is_tripped kb t0 (breaker_key tn tid) (cp_breaker st))"
  shows "cp_db st' = cp_db st \<and>
    kb_fails (breaker_key tn tid) (cp_breaker st') = kb_fails (breaker_key tn tid) (snd (kb_is_tripped kb t0 (breaker_key tn tid) (cp_breaker st))) + 1"
  using compact_error_cases [OF assms(1)] assms(2) by blast

text \<open>C11: A compaction that commits extends the summary: the old layers stay as they were and one layer is added (or, at the
  layer limit, replaces them), the boundary moves forward, the messages beyond it are exactly the kept tail, no message
  changes and the breaker's count starts again.\<close>

theorem compaction_extends_summary:
  assumes "db_inv (cp_db st)" and "compact cfg kb e g tn tid req t0 t1 st = (Inr (Compacted s v p False layers), st')"
    and "current_layers (cp_db st) tn tid = (old, prev)" and "snap = snapshot cfg (cp_db st) tn tid"
  shows "\<exists>new. layers = (if kc_max_summary_layers cfg \<le> length old then [new] else old @ [new]) \<and> ly_content new = s \<and>
    current_layers (cp_db st') tn tid = (layers, p) \<and> prev < p \<and> filter (\<lambda>m. p < ms_seq m) snap = snd (split_log cfg e snap) \<and>
    db_messages (cp_db st') = db_messages (cp_db st) \<and> kb_fails (breaker_key tn tid) (cp_breaker st') = 0"
  using assms(2)
proof (rule compact_done_cases)
  fix old' prev' b1 w' head
  assume c: "current_layers (cp_db st) tn tid = (old', prev')" "head = fst (split_log cfg e (snapshot cfg (cp_db st) tn tid))"
    "filter (\<lambda>m. prev' < ms_seq m) head \<noteq> []" "cp_breaker st' = kb_record_success (breaker_key tn tid) b1"
    "swap_checkpoint cfg g tn tid old' head (filter (\<lambda>m. prev' < ms_seq m) head) req (cp_db st) (cp_world st) = (Inr (Compacted s v p False layers), cp_db st', w')"
  have eq: "old' = old" "prev' = prev" using c(1) assms(3) by auto
  let ?hs = "filter (\<lambda>m. prev < ms_seq m) head" and ?tail = "snd (split_log cfg e snap)"
  obtain k where "snap = take k (thread_messages (cp_db st) tn tid)" using snapshot_prefix [OF assms(1)] assms(4) by blast
  then have "sorted_wrt (<) (map ms_seq snap)" using thread_messages_ascending [OF assms(1)] by (metis sorted_wrt_take take_map)
  moreover have "head @ ?tail = snap" using split_log_append c(2) assms(4) by simp
  ultimately have asc: "sorted_wrt (<) (map ms_seq (head @ ?tail))" by simp
  have ne: "head \<noteq> []" "?hs \<noteq> []" using c(3) eq by auto
  have lst: "last ?hs = last head" using asc ne(2) by (intro last_filter_ascending) (simp_all add: sorted_wrt_append)
  note done1 = swap_checkpoint_done [OF c(5) [unfolded eq]]
  then have p: "p = ms_seq (last head)" using lst by auto
  have "prev < ms_seq (last ?hs)" using last_in_set [OF ne(2)] by simp
  then have "prev < p" using p lst by simp
  moreover have "filter (\<lambda>m. p < ms_seq m) snap = ?tail" using filter_above_last [OF asc ne(1)] \<open>head @ ?tail = snap\<close> p by simp
  moreover have "kb_fails (breaker_key tn tid) (cp_breaker st') = 0" by (simp add: c(4) kb_record_success_def kb_fails_def get_or_def)
  ultimately show ?thesis using done1 by auto
qed

text \<open>The unbounded page walk of the background refresh always returns, with the number of messages beyond the boundary.\<close>

theorem growth_count_returns:
  assumes "db_inv db"
  shows "count_since (list_messages db tn tid) ms_seq k 0 = Some (length (filter (\<lambda>m. k < ms_seq m) (thread_messages db tn tid)))"
proof -
  obtain i where i: "i \<le> length (thread_messages db tn tid)" "filter (\<lambda>m. k < ms_seq m) (thread_messages db tn tid) = drop i (thread_messages db tn tid)"
    using filter_above_drop [OF thread_messages_ascending [OF assms]] by blast
  from thread_pages.count_from [OF assms i, of 0] i(2) show ?thesis by simp
qed

section \<open>A sample thread\<close>

definition sample_payload :: jobj where
  "sample_payload = [(''objective'', JStr ''greet''), (''key_facts'', JList [JStr ''hello'']), (''decisions'', JList []),
     (''pending_work'', JList []), (''next_moves'', JList [])]"

definition sample_generator :: "bool \<Rightarrow> unit generator" where
  "sample_generator works = \<lparr>gn_chat = \<lambda>p w. (if works then Inr ''{}'' else Inl ''down'', w), gn_format = \<lambda>c. c, gn_loads = \<lambda>s. Some (JObj sample_payload),
     gn_quality = \<lambda>ts s w. w, gn_config = kc_default, gn_estimator = [], gn_catalog = [], gn_provider = ''openai'', gn_model = ''gpt-4o''\<rparr>"

definition sample_cfg :: compaction_config where
  "sample_cfg = kc_default\<lparr>kc_keep_tokens := 2\<rparr>"

definition sample_thread :: "unit compactor" where
  "sample_thread = \<lparr>cp_db = snd (append_message ''acme'' ''t1'' (sample_args\<lparr>ap_request_id := None\<rparr>) ''m2'' 2 sample_db1),
     cp_breaker = Map.empty, cp_world = ()\<rparr>"

lemma sample_thread_inv: "db_inv (cp_db sample_thread)"
  using store_reaches_inv [OF store_reaches.step [OF sample_db1_reached store_step.append] empty_db_inv] by (simp add: sample_thread_def)

definition run_sample :: "bool \<Rightarrow> (compaction_error + compact_result) \<times> unit compactor" where
  "run_sample works = compact sample_cfg kb_default_config [] (sample_generator works) ''acme'' ''t1'' None 5 6 sample_thread"

theorem split_keeps_recent_witness:
  "(\<Sum>m\<leftarrow>snd (split_log sample_cfg [] (thread_messages (cp_db sample_thread) ''acme'' ''t1'')). row_tokens [] m) \<le> 2 \<and>
   map ms_id (fst (split_log sample_cfg [] (thread_messages (cp_db sample_thread) ''acme'' ''t1''))) = [''m1'']"
proof -
  have "map ms_id (fst (split_log sample_cfg [] (thread_messages (cp_db sample_thread) ''acme'' ''t1''))) = [''m1'']" by code_simp
  moreover have "kc_keep_tokens sample_cfg = 2" by code_simp
  ultimately show ?thesis using split_keeps_recent [OF _ prod.collapse [symmetric], of sample_cfg "[]"] by auto
qed

theorem snapshot_is_bounded_prefix_witness:
  "\<exists>k. snapshot sample_cfg (cp_db sample_thread) ''acme'' ''t1'' = take k (thread_messages (cp_db sample_thread) ''acme'' ''t1'') \<and> k < 1200"
proof -
  have "kc_max_snapshot_messages sample_cfg = 1000" by code_simp
  with snapshot_is_bounded_prefix [OF sample_thread_inv, of sample_cfg "''acme''" "''t1''"] show ?thesis by auto
qed

theorem failed_compaction_changes_nothing_witness:
  "cp_db (snd (run_sample False)) = cp_db sample_thread \<and> kb_fails ''acme:t1'' (cp_breaker (snd (run_sample False))) = 1"
proof -
  have e: "fst (run_sample False) = Inl (CompactionAborted ''summarizer call failed: down'')" by code_simp
  have t: "kb_is_tripped kb_default_config 5 (breaker_key ''acme'' ''t1'') (cp_breaker sample_thread) = (False, Map.empty)"
    by (simp add: kb_is_tripped_def sample_thread_def)
  from e have "compact sample_cfg kb_default_config [] (sample_generator False) ''acme'' ''t1'' None 5 6 sample_thread =
      (Inl (CompactionAborted ''summarizer call failed: down''), snd (run_sample False))" by (simp add: run_sample_def prod_eq_iff)
  from failed_compaction_changes_nothing [OF this] t show ?thesis by (simp add: breaker_key_def kb_fails_def get_or_def)
qed

theorem compaction_extends_summary_witness:
  "\<exists>new. current_layers (cp_db (snd (run_sample True))) ''acme'' ''t1'' = ([new], 1) \<and> map ms_id (filter (\<lambda>m. 1 < ms_seq m)
     (snapshot sample_cfg (cp_db sample_thread) ''acme'' ''t1'')) = [''m2'']"
proof -
  obtain s v layers where r: "fst (run_sample True) = Inr (Compacted s v 1 False layers)"
  proof -
    have "(case fst (run_sample True) of Inr (Compacted s v p d layers) \<Rightarrow> p = 1 \<and> \<not> d | _ \<Rightarrow> False)" by code_simp
    then show thesis using that by (auto split: sum.splits compact_result.splits)
  qed
  then have run: "compact sample_cfg kb_default_config [] (sample_generator True) ''acme'' ''t1'' None 5 6 sample_thread =
      (Inr (Compacted s v 1 False layers), snd (run_sample True))" by (simp add: run_sample_def prod_eq_iff)
  have old: "current_layers (cp_db sample_thread) ''acme'' ''t1'' = ([], 0)" by code_simp
  have "kc_max_summary_layers sample_cfg = 5" by code_simp
  with compaction_extends_summary [OF sample_thread_inv run old refl]
  have "\<exists>new. current_layers (cp_db (snd (run_sample True))) ''acme'' ''t1'' = ([new], 1)" by auto
  moreover have "map ms_id (filter (\<lambda>m. 1 < ms_seq m) (snapshot sample_cfg (cp_db sample_thread) ''acme'' ''t1'')) = [''m2'']" by code_simp
  ultimately show ?thesis by simp
qed

theorem growth_count_returns_witness:
  "count_since (list_messages (cp_db sample_thread) ''acme'' ''t1'') ms_seq 1 0 = Some 1"
proof -
  have "length (filter (\<lambda>m. 1 < ms_seq m) (thread_messages (cp_db sample_thread) ''acme'' ''t1'')) = 1" by code_simp
  with growth_count_returns [OF sample_thread_inv, of "''acme''" "''t1''" 1] show ?thesis by simp
qed

end
