(* ===== verification/Session_Context.thy ===== *)
theory Session_Context
  imports Compaction
begin

text \<open>
  What a conversation turn reads from the thread before it assembles the prompt: the history turns and the summary
  checkpoint (\<open>_load_history_turns\<close> and \<open>_load_thread_summary\<close> of \<open>api/routes/conversations.py\<close>). The entry of
  the Redis tail cache is an argument.
\<close>

section \<open>Definitions\<close>

definition turn_of :: "int list \<Rightarrow> message_row \<Rightarrow> context_turn" where
  "turn_of tool_seqs m = \<lparr>ct_role = ms_role m, ct_content = ms_redacted m, ct_seq = Some (ms_seq m), ct_message_id = Some (ms_id m),
     ct_has_tool_payload = (ms_seq m \<in> set tool_seqs), ct_raw_content = None\<rparr>"

definition is_turn :: "message_row \<Rightarrow> bool" where
  "is_turn m \<longleftrightarrow> (ms_role m = ''user'' \<or> ms_role m = ''assistant'') \<and> ms_redacted m \<noteq> []"

definition load_history_turns :: "thread_db \<Rightarrow> string \<Rightarrow> string \<Rightarrow> bool \<Rightarrow> nat \<Rightarrow> context_turn list" where
  "load_history_turns db tenant tid exclude_latest limit =
     (let rows = read_tail db tenant tid None (limit + 1);
          rows1 = (if exclude_latest \<and> rows \<noteq> [] then butlast rows else rows)
      in map (turn_of (list_tool_result_seqs db tenant tid)) (filter is_turn rows1))"

text \<open>Content, position and layers. A cached block without content does not count.\<close>

record cached_summary =
  cs_content :: "string option"
  cs_position :: "int option"
  cs_layers :: "string list"

definition layers_or_none :: "string list \<Rightarrow> string list option" where
  "layers_or_none ls = (if ls = [] then None else Some ls)"

definition load_thread_summary ::
  "cached_summary option \<Rightarrow> thread_db \<Rightarrow> string \<Rightarrow> string \<Rightarrow> string option \<times> int option \<times> string list option" where
  "load_thread_summary cached db tenant tid =
     (case Option.bind cached (\<lambda>c. if truthy_str (cs_content c) then Some c else None) of
        Some c \<Rightarrow> (cs_content c, cs_position c, layers_or_none (cs_layers c))
      | None \<Rightarrow>
          (case get_thread db tenant tid of
             None \<Rightarrow> (None, None, None)
           | Some row \<Rightarrow>
               (case th_summary_block row of
                  Some b \<Rightarrow> (Some (sb_content b), th_summary_position row, layers_or_none (map ly_content (sb_layers b)))
                | None \<Rightarrow> (None, th_summary_position row, None))))"

text \<open>The request of a turn: history and summary as loaded, the rest as \<open>_assemble_context\<close> passes it.\<close>

definition turn_request :: "cached_summary option \<Rightarrow> thread_db \<Rightarrow> string \<Rightarrow> string \<Rightarrow> nat \<Rightarrow> assemble_request \<Rightarrow> assemble_request" where
  "turn_request cached db tenant tid limit base =
     (case load_thread_summary cached db tenant tid of
        (summary, position, layers) \<Rightarrow>
          base\<lparr>ar_history := load_history_turns db tenant tid True limit, ar_summary := summary, ar_summary_position := position,
               ar_summary_layers := get_or layers []\<rparr>)"

section \<open>Lemmas\<close>

lemma py_sorted_desc_ascending: "sorted_wrt (<) (map f xs) \<Longrightarrow> py_sorted_desc f xs = rev xs"
proof -
  assume a: "sorted_wrt (<) (map f xs)"
  then have "distinct (map f xs)" by (simp add: strict_sorted_iff)
  then have "inj_on f (set xs)" by (simp add: distinct_map)
  then have "sort_key f (rev xs) = sort_key f xs" by (intro sort_key_inj_key_eq) auto
  with py_sorted_ascending [OF a] show ?thesis by (simp add: py_sorted_desc_def py_sorted_def)
qed

lemma read_tail_is_suffix: "db_inv db \<Longrightarrow> read_tail db tn tid None n = drop (length (thread_messages db tn tid) - n) (thread_messages db tn tid)"
  by (simp add: read_tail_def py_sorted_desc_ascending thread_messages_ascending take_rev)

lemma load_after_swap:
  assumes "swap_checkpoint cfg g tn tid ol head hs req db w = (Inr r, db', w')"
  shows "fst (snd (load_thread_summary None db' tn tid)) = Some (ms_seq (last hs))"
proof -
  obtain b req' bnd v pos n where "set_summary tn tid b (ms_seq (last hs)) bnd req' False db = (Inr (v, pos, n), db')"
    using assms by (auto simp: swap_checkpoint_def Let_def split: sum.splits prod.splits if_splits)
  from set_summary_done [OF this] show ?thesis by (auto simp: load_thread_summary_def)
qed

lemma appended_message:
  assumes "append_message tn tid a mid now db = (Inr (m, False), db')"
  shows "m = new_message tn tid a (max_message_seq db tid + 1) mid now \<and> db' = snd (insert_message tn tid a mid now db)"
  using assms by (auto simp: append_message_def insert_message_def Let_def split: list.splits if_splits)

lemma appended_log:
  assumes "append_message tn tid a mid now db = (Inr (m, False), db')"
  shows "thread_messages db' tn tid = thread_messages db tn tid @ [m]"
  using appended_message [OF assms] by (auto simp: insert_message_def Let_def thread_messages_def new_message_def)

lemma appended_above:
  assumes "append_message tn tid a mid now db = (Inr (m, False), db')" and "x \<in> set (thread_messages db tn tid)"
  shows "ms_seq x < ms_seq m"
proof -
  have "ms_seq x < max_message_seq db tid + 1" using assms(2) by (intro next_seq_above) (auto simp: thread_messages_def log_seqs_def)
  then show ?thesis using appended_message [OF assms(1)] by (simp add: new_message_def)
qed

lemma summary_after_append:
  assumes "append_message tn tid a mid now db = (Inr (m, False), db')"
  shows "load_thread_summary None db' tn tid = load_thread_summary None db tn tid"
  using appended_message [OF assms] by (auto simp: insert_message_def Let_def load_thread_summary_def get_thread_def)

section \<open>Correctness\<close>

text \<open>C6: After a compaction has committed, a new turn appends its message and reads the thread back (the tail cache having no entry). What it hands
  the assembler beyond the summary are exactly the user and assistant turns of the kept tail, in order: no turn is both summarised and
  rendered, and none is lost, as long as the thread fits the limits of the history read and of the compaction's snapshot.\<close>

theorem compacted_thread_reads_back:
  assumes "db_inv (cp_db st)" and "compact cfg kb e g tn tid req t0 t1 st = (Inr (Compacted s v p False layers), st')"
    and "append_message tn tid a mid now (cp_db st') = (Inr (m, False), db2)"
    and "length (thread_messages (cp_db st) tn tid) \<le> limit" and "length (thread_messages (cp_db st) tn tid) \<le> kc_max_snapshot_messages cfg"
    and "tail = snd (split_log cfg e (thread_messages (cp_db st) tn tid))"
  shows "filter (\<lambda>t. \<not> summarised (turn_request None db2 tn tid limit base) t) (ar_history (turn_request None db2 tn tid limit base)) =
    map (turn_of (list_tool_result_seqs db2 tn tid)) (filter is_turn tail)"
  using assms(2)
proof (rule compact_done_cases)
  fix old prev b1 w' head
  let ?log = "thread_messages (cp_db st) tn tid" and ?db = "cp_db st'"
  assume c: "current_layers (cp_db st) tn tid = (old, prev)" "head = fst (split_log cfg e (snapshot cfg (cp_db st) tn tid))"
    "filter (\<lambda>m. prev < ms_seq m) head \<noteq> []"
    "swap_checkpoint cfg g tn tid old head (filter (\<lambda>m. prev < ms_seq m) head) req (cp_db st) (cp_world st) = (Inr (Compacted s v p False layers), ?db, w')"
  have snap: "snapshot cfg (cp_db st) tn tid = ?log" using snapshot_prefix [OF assms(1), of cfg tn tid] assms(5) by fastforce
  have ht: "head @ tail = ?log" using split_log_append c(2) snap assms(6) by simp
  have asc: "sorted_wrt (<) (map ms_seq (head @ tail))" using thread_messages_ascending [OF assms(1)] by (simp add: ht)
  have ne: "head \<noteq> []" using c(3) by auto
  have lst: "last (filter (\<lambda>m. prev < ms_seq m) head) = last head" using asc c(3) by (intro last_filter_ascending) (simp_all add: sorted_wrt_append)
  have "thread_messages ?db tn tid = ?log" using swap_checkpoint_done [OF c(4)] by (auto simp: thread_messages_def)
  then have log2: "thread_messages db2 tn tid = ?log @ [m]" using appended_log [OF assms(3)] by simp
  have "sorted_wrt (<) (map ms_seq (?log @ [m]))"
    using appended_above [OF assms(3)] asc \<open>thread_messages ?db tn tid = ?log\<close> by (auto simp: ht sorted_wrt_append)
  then have "read_tail db2 tn tid None (limit + 1) = ?log @ [m]" using assms(4) by (simp add: read_tail_def py_sorted_desc_ascending log2)
  then have h: "load_history_turns db2 tn tid True limit = map (turn_of (list_tool_result_seqs db2 tn tid)) (filter is_turn (head @ tail))"
    by (simp add: load_history_turns_def ht)
  have pos: "fst (snd (load_thread_summary None db2 tn tid)) = Some (ms_seq (last head))"
    using load_after_swap [OF c(4)] lst summary_after_append [OF assms(3)] by simp
  let ?ar = "turn_request None db2 tn tid limit base"
  have ar: "ar_history ?ar = load_history_turns db2 tn tid True limit" "ar_summary_position ?ar = Some (ms_seq (last head))"
    using pos by (auto simp: turn_request_def split: prod.split)
  have "summarised ?ar (turn_of ts x) \<longleftrightarrow> ms_seq x \<le> ms_seq (last head)" for ts x by (simp add: summarised_def turn_of_def ar(2))
  then have "filter (\<lambda>t. \<not> summarised ?ar t) (ar_history ?ar) =
      map (turn_of (list_tool_result_seqs db2 tn tid)) (filter is_turn (filter (\<lambda>x. ms_seq (last head) < ms_seq x) (head @ tail)))"
    unfolding ar(1) h by (simp add: filter_map comp_def not_le conj_commute)
  then show ?thesis unfolding filter_above_last [OF asc ne] .
qed

text \<open>A second turn after the compaction of the sample thread reads back its kept message.\<close>

definition next_turn :: "(store_error + message_row \<times> bool) \<times> thread_db" where
  "next_turn = append_message ''acme'' ''t1'' (sample_args\<lparr>ap_request_id := None\<rparr>) ''m3'' 7 (cp_db (snd (run_sample True)))"

theorem compacted_thread_reads_back_witness:
  "map ct_message_id (filter (\<lambda>t. \<not> summarised (turn_request None (snd next_turn) ''acme'' ''t1'' 200 sample_assembly) t)
     (ar_history (turn_request None (snd next_turn) ''acme'' ''t1'' 200 sample_assembly))) = [Some ''m2'']"
proof -
  obtain s v layers where r: "fst (run_sample True) = Inr (Compacted s v 1 False layers)"
  proof -
    have "(case fst (run_sample True) of Inr (Compacted s v p d layers) \<Rightarrow> p = 1 \<and> \<not> d | _ \<Rightarrow> False)" by code_simp
    then show thesis using that by (auto split: sum.splits compact_result.splits)
  qed
  then have run: "compact sample_cfg kb_default_config [] (sample_generator True) ''acme'' ''t1'' None 5 6 sample_thread =
      (Inr (Compacted s v 1 False layers), snd (run_sample True))" by (simp add: run_sample_def prod_eq_iff)
  have "case fst next_turn of Inr (m, b) \<Rightarrow> \<not> b | _ \<Rightarrow> False" by code_simp
  then obtain m where "fst next_turn = Inr (m, False)" by (auto split: sum.splits)
  then have app: "append_message ''acme'' ''t1'' (sample_args\<lparr>ap_request_id := None\<rparr>) ''m3'' 7 (cp_db (snd (run_sample True))) = (Inr (m, False), snd next_turn)"
    by (simp add: next_turn_def prod_eq_iff)
  have lims: "length (thread_messages (cp_db sample_thread) ''acme'' ''t1'') \<le> 200"
      "length (thread_messages (cp_db sample_thread) ''acme'' ''t1'') \<le> kc_max_snapshot_messages sample_cfg" by code_simp+
  have tail: "map ms_id (filter is_turn (snd (split_log sample_cfg [] (thread_messages (cp_db sample_thread) ''acme'' ''t1'')))) = [''m2'']" by code_simp
  have "map ct_message_id (map (turn_of ts) ms) = map Some (map ms_id ms)" for ts ms by (simp add: turn_of_def)
  then show ?thesis unfolding compacted_thread_reads_back [OF sample_thread_inv run app lims refl] by (simp only: tail list.map)
qed

end
