(* ===== verification/Coordinator.thy ===== *)
theory Coordinator
  imports Prelude
begin

text \<open>
  The session coordinator (\<open>session/coordinator.py\<close>): one generation at a time per thread, by a lock in each process
  and a leased lock in Redis. A task is one call of \<open>acquire\<close> and the lease it yields, running in a process; a step
  is what a task does between two awaits, or a passage of time, a crash of a process, a cancellation. The token of a
  task is its index. Redis drops an entry when its lease has run out.
\<close>

section \<open>Definitions\<close>

record coordinator_config =
  cc_prefix :: string
  cc_lease_seconds :: rat
  cc_wait_seconds :: rat

definition cc_default :: coordinator_config where
  "cc_default = \<lparr>cc_prefix = ''neryva:threadlock:'', cc_lease_seconds = 120, cc_wait_seconds = 15\<rparr>"

definition lock_key :: "coordinator_config \<Rightarrow> string \<Rightarrow> string \<Rightarrow> string" where
  "lock_key cfg tenant tid = cc_prefix cfg @ tenant @ '':'' @ tid"

text \<open>Process, key and deadline of a waiting task; a holder knows when the lease it last obtained runs out, unless it
  went on without Redis. \<open>Stuck\<close> is a task that was cancelled while it held the local lock and polled.\<close>

datatype slot =
    Queued nat string time
  | Polling nat string time
  | Holding nat string "time option"
  | Busy
  | Finished
  | Cancelled
  | Stuck nat string
  | Crashed

record coordination =
  co_config :: coordinator_config
  co_now :: time
  co_local :: "nat \<Rightarrow> string \<Rightarrow> bool"
  co_available :: "nat \<Rightarrow> bool"
  co_redis :: "string \<Rightarrow> (nat \<times> time) option"
  co_tasks :: "slot list"

definition co_init :: "coordinator_config \<Rightarrow> (nat \<Rightarrow> bool) \<Rightarrow> coordination" where
  "co_init cfg pinged = \<lparr>co_config = cfg, co_now = 0, co_local = (\<lambda>_ _. False), co_available = pinged, co_redis = Map.empty, co_tasks = []\<rparr>"

definition slot_of :: "coordination \<Rightarrow> nat \<Rightarrow> slot option" where
  "slot_of g i = (if i < length (co_tasks g) then Some (co_tasks g ! i) else None)"

definition move :: "nat \<Rightarrow> slot \<Rightarrow> coordination \<Rightarrow> coordination" where
  "move i s g = g\<lparr>co_tasks := (co_tasks g)[i := s]\<rparr>"

definition set_local :: "nat \<Rightarrow> string \<Rightarrow> bool \<Rightarrow> coordination \<Rightarrow> coordination" where
  "set_local p k b g = g\<lparr>co_local := (co_local g)(p := (co_local g p)(k := b))\<rparr>"

text \<open>What Redis still holds under a key.\<close>

definition live_entry :: "coordination \<Rightarrow> string \<Rightarrow> nat option" where
  "live_entry g k = (case co_redis g k of Some (i, e) \<Rightarrow> if co_now g < e then Some i else None | None \<Rightarrow> None)"

text \<open>\<open>acquire\<close> up to the local lock.\<close>

definition begin_acquire :: "nat \<Rightarrow> string \<Rightarrow> time option \<Rightarrow> coordination \<Rightarrow> coordination" where
  "begin_acquire p k timeout g =
     g\<lparr>co_tasks := co_tasks g @ [Queued p k (co_now g + get_or timeout (cc_wait_seconds (co_config g)))]\<rparr>"

text \<open>\<open>asyncio.Lock\<close> serves its waiters in the order in which they came.\<close>

fun waits :: "nat \<Rightarrow> string \<Rightarrow> slot \<Rightarrow> bool" where
  "waits q x (Queued p k d) = (p = q \<and> k = x)"
| "waits q x _ = False"

definition take_local :: "nat \<Rightarrow> coordination \<Rightarrow> coordination option" where
  "take_local i g = (case slot_of g i of
     Some (Queued p k d) \<Rightarrow>
       (if co_local g p k \<or> list_ex (waits p k) (take i (co_tasks g)) then None
        else Some (move i (Polling p k d) (set_local p k True g)))
   | _ \<Rightarrow> None)"

definition local_timeout :: "nat \<Rightarrow> coordination \<Rightarrow> coordination option" where
  "local_timeout i g = (case slot_of g i of
     Some (Queued p k d) \<Rightarrow> (if d \<le> co_now g then Some (move i Busy g) else None)
   | _ \<Rightarrow> None)"

text \<open>\<open>SET key token NX PX lease\<close>.\<close>

definition set_nx :: "nat \<Rightarrow> string \<Rightarrow> coordination \<Rightarrow> coordination option" where
  "set_nx i k g = (if live_entry g k = None
     then Some (g\<lparr>co_redis := (co_redis g)(k \<mapsto> (i, co_now g + cc_lease_seconds (co_config g)))\<rparr>) else None)"

text \<open>\<open>_acquire_redis_lock\<close>: an attempt that finds the key free, one that finds it taken, an exception, the deadline.
  A command whose reply was lost may have been carried out.\<close>

definition poll :: "nat \<Rightarrow> coordination \<Rightarrow> coordination option" where
  "poll i g = (case slot_of g i of
     Some (Polling p k d) \<Rightarrow>
       (if co_now g < d
        then (case set_nx i k g of
                Some g' \<Rightarrow> Some (move i (Holding p k (Some (co_now g + cc_lease_seconds (co_config g)))) g')
              | None \<Rightarrow> Some g)
        else None)
   | _ \<Rightarrow> None)"

definition poll_raises :: "nat \<Rightarrow> bool \<Rightarrow> coordination \<Rightarrow> coordination option" where
  "poll_raises i carried_out g = (case slot_of g i of
     Some (Polling p k d) \<Rightarrow>
       (if co_now g < d
        then let g' = (if carried_out then get_or (set_nx i k g) g else g)
             in Some (move i (Holding p k None) (g'\<lparr>co_available := (co_available g')(p := False)\<rparr>))
        else None)
   | _ \<Rightarrow> None)"

definition poll_deadline :: "nat \<Rightarrow> coordination \<Rightarrow> coordination option" where
  "poll_deadline i g = (case slot_of g i of
     Some (Polling p k d) \<Rightarrow> (if d \<le> co_now g then Some (move i Busy (set_local p k False g)) else None)
   | _ \<Rightarrow> None)"

text \<open>One round of \<open>_renew_loop\<close>; a lost lease ends the loop and changes nothing.\<close>

definition renew :: "nat \<Rightarrow> coordination \<Rightarrow> coordination option" where
  "renew i g = (case slot_of g i of
     Some (Holding p k l) \<Rightarrow>
       (if live_entry g k = Some i
        then let e = co_now g + cc_lease_seconds (co_config g)
             in Some (move i (Holding p k (Some e)) (g\<lparr>co_redis := (co_redis g)(k \<mapsto> (i, e))\<rparr>))
        else Some g)
   | _ \<Rightarrow> None)"

text \<open>\<open>_release_redis_lock\<close>, by compare-and-delete and only while Redis counts as available, then the lease's release.\<close>

definition release_redis_lock :: "nat \<Rightarrow> nat \<Rightarrow> string \<Rightarrow> coordination \<Rightarrow> coordination" where
  "release_redis_lock i p k g =
     (if co_available g p \<and> live_entry g k = Some i then g\<lparr>co_redis := (co_redis g)(k := None)\<rparr> else g)"

definition lease_release :: "nat \<Rightarrow> coordination \<Rightarrow> coordination option" where
  "lease_release i g = (case slot_of g i of
     Some (Holding p k l) \<Rightarrow> Some (move i Finished (set_local p k False (release_redis_lock i p k g)))
   | Some Finished \<Rightarrow> Some g
   | _ \<Rightarrow> None)"

text \<open>The release script raised: logged, the local lock is freed all the same.\<close>

definition lease_release_raises :: "nat \<Rightarrow> coordination \<Rightarrow> coordination option" where
  "lease_release_raises i g = (case slot_of g i of
     Some (Holding p k l) \<Rightarrow> (if co_available g p then Some (move i Finished (set_local p k False g)) else None)
   | _ \<Rightarrow> None)"

text \<open>Cancellation: \<open>wait_for\<close> gives up cleanly, and a turn that holds the lease releases it; neither the polling loop
  nor the release itself has a handler, so the local lock stays taken.\<close>

definition cancel :: "nat \<Rightarrow> coordination \<Rightarrow> coordination option" where
  "cancel i g = (case slot_of g i of
     Some (Queued p k d) \<Rightarrow> Some (move i Cancelled g)
   | Some (Polling p k d) \<Rightarrow> Some (move i (Stuck p k) g)
   | Some (Holding p k l) \<Rightarrow> lease_release i g
   | _ \<Rightarrow> None)"

definition lease_release_cancelled :: "nat \<Rightarrow> bool \<Rightarrow> coordination \<Rightarrow> coordination option" where
  "lease_release_cancelled i carried_out g = (case slot_of g i of
     Some (Holding p k l) \<Rightarrow>
       (if co_available g p then Some (move i (Stuck p k) (if carried_out then release_redis_lock i p k g else g)) else None)
   | _ \<Rightarrow> None)"

fun process_of :: "slot \<Rightarrow> nat option" where
  "process_of (Queued p k d) = Some p"
| "process_of (Polling p k d) = Some p"
| "process_of (Holding p k l) = Some p"
| "process_of (Stuck p k) = Some p"
| "process_of _ = None"

text \<open>A process dies and starts again; \<open>_do_initialize\<close> finds Redis or does not.\<close>

definition crash :: "nat \<Rightarrow> bool \<Rightarrow> coordination \<Rightarrow> coordination" where
  "crash p pinged g =
     g\<lparr>co_tasks := map (\<lambda>s. if process_of s = Some p then Crashed else s) (co_tasks g),
       co_local := (co_local g)(p := \<lambda>_. False), co_available := (co_available g)(p := pinged)\<rparr>"

inductive co_step :: "coordination \<Rightarrow> coordination \<Rightarrow> bool" where
  arrive: "co_step g (begin_acquire p k timeout g)"
| locally: "take_local i g = Some g' \<Longrightarrow> co_step g g'"
| locally_late: "local_timeout i g = Some g' \<Longrightarrow> co_step g g'"
| polls: "poll i g = Some g' \<Longrightarrow> co_step g g'"
| poll_fails: "poll_raises i b g = Some g' \<Longrightarrow> co_step g g'"
| poll_late: "poll_deadline i g = Some g' \<Longrightarrow> co_step g g'"
| renews: "renew i g = Some g' \<Longrightarrow> co_step g g'"
| releases: "lease_release i g = Some g' \<Longrightarrow> co_step g g'"
| release_fails: "lease_release_raises i g = Some g' \<Longrightarrow> co_step g g'"
| cancels: "cancel i g = Some g' \<Longrightarrow> co_step g g'"
| release_cancelled: "lease_release_cancelled i b g = Some g' \<Longrightarrow> co_step g g'"
| crashes: "co_step g (crash p b g)"
| tick: "0 \<le> d \<Longrightarrow> co_step g (g\<lparr>co_now := co_now g + d\<rparr>)"

inductive co_reaches :: "coordination \<Rightarrow> coordination \<Rightarrow> bool" where
  start: "co_reaches g g"
| further: "co_reaches g g1 \<Longrightarrow> co_step g1 g2 \<Longrightarrow> co_reaches g g2"

section \<open>Invariant\<close>

text \<open>The tasks that occupy the local lock of a process.\<close>

fun occupies :: "nat \<Rightarrow> string \<Rightarrow> slot \<Rightarrow> bool" where
  "occupies q x (Polling p k d) = (p = q \<and> k = x)"
| "occupies q x (Holding p k l) = (p = q \<and> k = x)"
| "occupies q x (Stuck p k) = (p = q \<and> k = x)"
| "occupies q x _ = False"

definition occupants :: "coordination \<Rightarrow> nat \<Rightarrow> string \<Rightarrow> nat" where
  "occupants g p k = length (filter (occupies p k) (co_tasks g))"

definition leases_recorded :: "coordination \<Rightarrow> bool" where
  "leases_recorded g \<longleftrightarrow> (\<forall>i p k e. slot_of g i = Some (Holding p k (Some e)) \<and> co_now g < e \<longrightarrow> co_redis g k = Some (i, e))"

definition co_inv :: "coordination \<Rightarrow> bool" where
  "co_inv g \<longleftrightarrow> (\<forall>p k. occupants g p k = (if co_local g p k then 1 else 0)) \<and> leases_recorded g"

lemma slot_fields [simp]:
  "slot_of (set_local p k b g) i = slot_of g i" "slot_of (g\<lparr>co_redis := r\<rparr>) i = slot_of g i" "slot_of (g\<lparr>co_available := a\<rparr>) i = slot_of g i"
  "slot_of (g\<lparr>co_now := t\<rparr>) i = slot_of g i"
  by (simp_all add: slot_of_def set_local_def)

lemma slot_move: "slot_of (move i s g) j = (if j = i \<and> slot_of g i \<noteq> None then Some s else slot_of g j)"
  by (auto simp: slot_of_def move_def)

lemma move_fields [simp]:
  "co_now (move i s g) = co_now g" "co_local (move i s g) = co_local g" "co_redis (move i s g) = co_redis g"
  "co_available (move i s g) = co_available g" "co_config (move i s g) = co_config g"
  "co_now (set_local p k b g) = co_now g" "co_redis (set_local p k b g) = co_redis g" "co_available (set_local p k b g) = co_available g"
  "co_config (set_local p k b g) = co_config g" "co_tasks (set_local p k b g) = co_tasks g"
  "co_local (set_local p k b g) q x = (if q = p \<and> x = k then b else co_local g q x)"
  by (simp_all add: move_def set_local_def)

lemma occupants_fields [simp]:
  "occupants (set_local p k b g) q x = occupants g q x" "occupants (g\<lparr>co_redis := r\<rparr>) q x = occupants g q x"
  "occupants (g\<lparr>co_available := a\<rparr>) q x = occupants g q x" "occupants (g\<lparr>co_now := t\<rparr>) q x = occupants g q x"
  by (simp_all add: occupants_def)

lemma occupants_move:
  assumes "slot_of g i = Some s"
  shows "occupants (move i s' g) q x + (if occupies q x s then 1 else 0) = occupants g q x + (if occupies q x s' then 1 else 0)"
  using assms length_filter_update [of i "co_tasks g" "occupies q x" s'] by (auto simp: slot_of_def occupants_def move_def split: if_splits)

lemmas co_op_defs = take_local_def local_timeout_def poll_def poll_raises_def poll_deadline_def renew_def lease_release_def
  lease_release_raises_def cancel_def lease_release_cancelled_def

lemma leases_fields [simp]:
  "leases_recorded (set_local p k b g) = leases_recorded g" "leases_recorded (g\<lparr>co_available := a\<rparr>) = leases_recorded g"
  by (simp_all add: leases_recorded_def)

text \<open>A step that moves a task between slots that hold no lease keeps the leases recorded, and so does giving a lease up.\<close>

fun holds_lease :: "slot \<Rightarrow> bool" where
  "holds_lease (Holding p k (Some e)) = True"
| "holds_lease _ = False"

lemma leases_move: "leases_recorded g \<Longrightarrow> \<not> holds_lease s \<Longrightarrow> leases_recorded (move i s g)"
  unfolding leases_recorded_def by (auto simp: slot_move split: if_splits)

lemma live_entry_holder:
  assumes "leases_recorded g" "slot_of g i = Some (Holding p k (Some e))" "co_now g < e"
  shows "live_entry g k = Some i"
  using assms unfolding leases_recorded_def by (auto simp: live_entry_def)

lemma leases_write:
  assumes "leases_recorded g" "live_entry g k = None \<or> live_entry g k = Some i"
  shows "leases_recorded (move i (Holding p k (Some e)) (g\<lparr>co_redis := (co_redis g)(k \<mapsto> (i, e))\<rparr>))"
  unfolding leases_recorded_def
proof (intro allI impI, elim conjE)
  fix j q x e'
  assume j: "slot_of (move i (Holding p k (Some e)) (g\<lparr>co_redis := (co_redis g)(k \<mapsto> (i, e))\<rparr>)) j = Some (Holding q x (Some e'))"
    and now: "co_now (move i (Holding p k (Some e)) (g\<lparr>co_redis := (co_redis g)(k \<mapsto> (i, e))\<rparr>)) < e'"
  show "co_redis (move i (Holding p k (Some e)) (g\<lparr>co_redis := (co_redis g)(k \<mapsto> (i, e))\<rparr>)) x = Some (j, e')"
  proof (cases "j = i \<and> slot_of g i \<noteq> None")
    case True then show ?thesis using j by (auto simp: slot_move)
  next
    case False
    then have old: "slot_of g j = Some (Holding q x (Some e'))" using j by (auto simp: slot_move split: if_splits)
    then have "live_entry g x = Some j" using live_entry_holder assms(1) now by simp
    moreover have "j \<noteq> i" using False old by auto
    ultimately have "x \<noteq> k" using assms(2) by auto
    then show ?thesis using assms(1) old now by (auto simp: leases_recorded_def)
  qed
qed

lemma leases_set_nx:
  assumes "leases_recorded g" "set_nx i k g = Some g'"
  shows "leases_recorded g'"
  using assms live_entry_holder by (fastforce simp: leases_recorded_def set_nx_def split: if_splits)

lemma leases_unset:
  assumes "leases_recorded g" "\<not> holds_lease s" "slot_of g i \<noteq> None"
  shows "leases_recorded (move i s (release_redis_lock i p k g))"
proof (cases "live_entry g k = Some i")
  case False
  then show ?thesis using assms leases_move by (simp add: release_redis_lock_def)
next
  case True
  show ?thesis
    unfolding leases_recorded_def
    using assms True live_entry_holder [OF assms(1)]
    by (fastforce simp: slot_move release_redis_lock_def leases_recorded_def split: if_splits)
qed

definition locks_matched :: "coordination \<Rightarrow> bool" where
  "locks_matched g \<longleftrightarrow> (\<forall>p k. occupants g p k = (if co_local g p k then 1 else 0))"

lemma locks_fields [simp]:
  "locks_matched (g\<lparr>co_redis := r\<rparr>) = locks_matched g" "locks_matched (g\<lparr>co_available := a\<rparr>) = locks_matched g"
  "locks_matched (g\<lparr>co_now := t\<rparr>) = locks_matched g"
  by (simp_all add: locks_matched_def)

lemma locks_release_redis [simp]: "locks_matched (release_redis_lock i p k g) = locks_matched g"
  by (simp add: release_redis_lock_def)

lemma slot_release_redis [simp]: "slot_of (release_redis_lock i p k g) j = slot_of g j"
  by (simp add: release_redis_lock_def)

lemma set_nx_fields:
  assumes "set_nx i k g = Some g'"
  shows "slot_of g' j = slot_of g j" "locks_matched g' = locks_matched g" "co_available g' = co_available g" "co_now g' = co_now g"
  using assms by (auto simp: set_nx_def split: if_splits)

text \<open>The three ways in which a task moves: it keeps its place, it takes the local lock, it gives it up.\<close>

lemma locks_keep:
  assumes "locks_matched g" "slot_of g i = Some s" "\<And>q x. occupies q x s' = occupies q x s"
  shows "locks_matched (move i s' g)"
  unfolding locks_matched_def
proof (intro allI)
  fix q x
  show "occupants (move i s' g) q x = (if co_local (move i s' g) q x then 1 else 0)"
    using assms(1) occupants_move [OF assms(2), of s' q x] assms(3) by (auto simp: locks_matched_def)
qed

lemma locks_take:
  assumes "locks_matched g" "slot_of g i = Some (Queued p k d)" "\<not> co_local g p k"
  shows "locks_matched (move i (Polling p k d) (set_local p k True g))"
  unfolding locks_matched_def
proof (intro allI)
  fix q x
  show "occupants (move i (Polling p k d) (set_local p k True g)) q x
      = (if co_local (move i (Polling p k d) (set_local p k True g)) q x then 1 else 0)"
    using assms occupants_move [of "set_local p k True g" i "Queued p k d" "Polling p k d" q x] by (auto simp: locks_matched_def)
qed

lemma locks_give:
  assumes "locks_matched g" "slot_of g i = Some s" "\<And>q x. occupies q x s = (p = q \<and> k = x)" "\<And>q x. \<not> occupies q x s'"
  shows "locks_matched (move i s' (set_local p k False g))"
  unfolding locks_matched_def
proof (intro allI)
  fix q x
  have "0 < occupants g p k" using assms(2,3) unfolding occupants_def slot_of_def
    by (auto simp: filter_empty_conv split: if_splits intro!: bexI [of _ "co_tasks g ! i"])
  then show "occupants (move i s' (set_local p k False g)) q x = (if co_local (move i s' (set_local p k False g)) q x then 1 else 0)"
    using assms occupants_move [of "set_local p k False g" i s s' q x] by (auto simp: locks_matched_def split: if_splits)
qed

lemma co_inv_alt: "co_inv g \<longleftrightarrow> locks_matched g \<and> leases_recorded g"
  by (simp add: co_inv_def locks_matched_def)

lemma inv_begin: "co_inv g \<Longrightarrow> co_inv (begin_acquire p k timeout g)"
  unfolding co_inv_alt locks_matched_def leases_recorded_def
  by (auto simp: begin_acquire_def occupants_def slot_of_def nth_append split: if_splits)

lemma inv_tick: "co_inv g \<Longrightarrow> 0 \<le> d \<Longrightarrow> co_inv (g\<lparr>co_now := co_now g + d\<rparr>)"
  unfolding co_inv_alt leases_recorded_def by auto

lemma occupies_process: "occupies q x s \<Longrightarrow> process_of s = Some q"
  by (cases s) auto

lemma occupants_crash: "occupants (crash p b g) q x = (if q = p then 0 else occupants g q x)"
proof -
  have "filter (occupies q x) (map (\<lambda>s. if process_of s = Some p then Crashed else s) ts)
      = (if q = p then [] else filter (occupies q x) ts)" for ts
    by (induction ts) (auto dest: occupies_process)
  then show ?thesis by (simp add: occupants_def crash_def)
qed

lemma slot_crash: "slot_of (crash p b g) i = map_option (\<lambda>s. if process_of s = Some p then Crashed else s) (slot_of g i)"
  by (auto simp: slot_of_def crash_def)

lemma inv_crash: "co_inv g \<Longrightarrow> co_inv (crash p b g)"
  unfolding co_inv_alt locks_matched_def leases_recorded_def
  by (auto simp: occupants_crash slot_crash) (auto simp: crash_def split: if_splits)

lemma inv_take_local: "co_inv g \<Longrightarrow> take_local i g = Some g' \<Longrightarrow> co_inv g'"
  by (auto simp: co_inv_alt take_local_def split: option.splits slot.splits if_splits intro!: locks_take leases_move)

lemma inv_local_timeout: "co_inv g \<Longrightarrow> local_timeout i g = Some g' \<Longrightarrow> co_inv g'"
  by (auto simp: co_inv_alt local_timeout_def split: option.splits slot.splits if_splits intro!: locks_keep leases_move)

lemma leases_nx_move:
  assumes "leases_recorded g" "set_nx i k g = Some g'"
  shows "leases_recorded (move i (Holding p k (Some (co_now g + cc_lease_seconds (co_config g)))) g')"
  using assms leases_write [of g k i] by (auto simp: set_nx_def split: if_splits)

lemma inv_poll: "co_inv g \<Longrightarrow> poll i g = Some g' \<Longrightarrow> co_inv g'"
  by (auto simp: co_inv_alt poll_def set_nx_fields split: option.splits slot.splits if_splits intro!: locks_keep leases_nx_move)

lemma inv_poll_raises: "co_inv g \<Longrightarrow> poll_raises i b g = Some g' \<Longrightarrow> co_inv g'"
  by (cases "set_nx i k g")
    (auto simp: co_inv_alt poll_raises_def set_nx_fields Let_def get_or_def
      split: option.splits slot.splits if_splits intro!: locks_keep leases_move dest: leases_set_nx)

lemma inv_poll_deadline: "co_inv g \<Longrightarrow> poll_deadline i g = Some g' \<Longrightarrow> co_inv g'"
  by (auto simp: co_inv_alt poll_deadline_def split: option.splits slot.splits if_splits intro!: locks_give leases_move)

lemma inv_renew: "co_inv g \<Longrightarrow> renew i g = Some g' \<Longrightarrow> co_inv g'"
  by (auto simp: co_inv_alt renew_def Let_def split: option.splits slot.splits if_splits intro!: locks_keep leases_write)

lemma leases_give: "leases_recorded (move i s (set_local p k b g)) = leases_recorded (move i s g)"
  by (auto simp: leases_recorded_def slot_move)

lemma inv_lease_release: "co_inv g \<Longrightarrow> lease_release i g = Some g' \<Longrightarrow> co_inv g'"
  by (auto simp: co_inv_alt lease_release_def leases_give split: option.splits slot.splits if_splits intro!: locks_give leases_unset)

lemma inv_lease_release_raises: "co_inv g \<Longrightarrow> lease_release_raises i g = Some g' \<Longrightarrow> co_inv g'"
  by (auto simp: co_inv_alt lease_release_raises_def split: option.splits slot.splits if_splits intro!: locks_give leases_move)

lemma inv_cancel: "co_inv g \<Longrightarrow> cancel i g = Some g' \<Longrightarrow> co_inv g'"
  by (auto simp: cancel_def split: option.splits slot.splits intro: inv_lease_release)
    (auto simp: co_inv_alt intro!: locks_keep leases_move)

lemma inv_release_cancelled: "co_inv g \<Longrightarrow> lease_release_cancelled i b g = Some g' \<Longrightarrow> co_inv g'"
  by (auto simp: co_inv_alt lease_release_cancelled_def split: option.splits slot.splits if_splits intro!: locks_keep intro: leases_move leases_unset)

lemma inv_co_step: "co_step g g' \<Longrightarrow> co_inv g \<Longrightarrow> co_inv g'"
  by (induction rule: co_step.induct)
    (blast intro: inv_begin inv_tick inv_crash inv_take_local inv_local_timeout inv_poll inv_poll_raises inv_poll_deadline inv_renew
      inv_lease_release inv_lease_release_raises inv_cancel inv_release_cancelled)+

lemma inv_co_init: "co_inv (co_init cfg pinged)"
  by (simp add: co_inv_def co_init_def occupants_def leases_recorded_def slot_of_def)

lemma co_reaches_inv: "co_reaches g g' \<Longrightarrow> co_inv g \<Longrightarrow> co_inv g'"
  by (induction rule: co_reaches.induct) (auto intro: inv_co_step)

section \<open>Exclusion and recovery\<close>

lemma sole_occupant:
  assumes "locks_matched g" "slot_of g i = Some s" "slot_of g j = Some t" "occupies p k s" "occupies p k t"
  shows "i = j"
proof (rule ccontr)
  assume "i \<noteq> j"
  moreover have "i < length (co_tasks g)" "j < length (co_tasks g)" "co_tasks g ! i = s" "co_tasks g ! j = t"
    using assms by (auto simp: slot_of_def split: if_splits)
  ultimately have "{i, j} \<subseteq> {n. n < length (co_tasks g) \<and> occupies p k (co_tasks g ! n)}" using assms by auto
  then have "card {i, j} \<le> occupants g p k"
    unfolding occupants_def length_filter_conv_card by (intro card_mono) auto
  moreover have "occupants g p k \<le> 1" using assms(1) by (simp add: locks_matched_def)
  ultimately show False using \<open>i \<noteq> j\<close> by simp
qed

lemma crashed_stays:
  assumes "co_step g g'" "slot_of g j = Some Crashed"
  shows "slot_of g' j = Some Crashed \<and> (\<forall>k e. co_redis g' k = Some (j, e) \<longrightarrow> co_redis g k = Some (j, e)) \<and> co_now g \<le> co_now g'"
  using assms
proof (induction rule: co_step.induct)
  case (arrive g p k timeout)
  then show ?case by (auto simp: begin_acquire_def slot_of_def nth_append split: if_splits)
next
  case (crashes g p b)
  then show ?case by (auto simp: slot_crash) (auto simp: crash_def)
next
  case (cancels i g g')
  then show ?case
    by (auto simp: cancel_def lease_release_def release_redis_lock_def slot_move split: option.splits slot.splits if_splits)
qed (auto simp: co_op_defs release_redis_lock_def set_nx_def get_or_def Let_def slot_move split: option.splits slot.splits if_splits)

lemma crashed_reaches:
  assumes "co_reaches g g'" "slot_of g j = Some Crashed"
  shows "slot_of g' j = Some Crashed \<and> (\<forall>k e. co_redis g' k = Some (j, e) \<longrightarrow> co_redis g k = Some (j, e)) \<and> co_now g \<le> co_now g'"
  using assms
proof (induction rule: co_reaches.induct)
  case (further g g1 g2)
  then show ?case using crashed_stays [of g1 g2 j] by fastforce
qed simp

text \<open>C4: In every state the coordinator reaches, two turns that hold the slot of one thread in one process are the same
  turn; across processes they are the same turn as long as neither lease has run out.
\<close>

theorem coordinator_exclusive:
  assumes "co_reaches (co_init cfg pinged) g"
    and "slot_of g i = Some (Holding p k l)" "slot_of g j = Some (Holding q k m)"
    and "p = q \<or> (\<exists>e e'. l = Some e \<and> m = Some e' \<and> co_now g < e \<and> co_now g < e')"
  shows "i = j"
proof -
  have inv: "locks_matched g" "leases_recorded g" using co_reaches_inv [OF assms(1) inv_co_init] by (simp_all add: co_inv_alt)
  from assms(4) show ?thesis
  proof
    assume "p = q"
    then show ?thesis using sole_occupant [OF inv(1) assms(2,3), of p k] by simp
  next
    assume "\<exists>e e'. l = Some e \<and> m = Some e' \<and> co_now g < e \<and> co_now g < e'"
    then have "live_entry g k = Some i" "live_entry g k = Some j" using live_entry_holder [OF inv(2)] assms(2,3) by auto
    then show ?thesis by simp
  qed
qed

text \<open>C25: When the process of a lease's owner has died, no step of any process prolongs the lease: once it has run out, a turn
  of another task that is still polling before its own deadline gets the slot at its next attempt, unless by then another turn has the
  live lease. (With the default settings a turn waits for less than the time of a lease, so it must have begun to poll late enough.)
\<close>

theorem crashed_lease_passes_on:
  assumes "co_reaches g g'" "slot_of g j = Some Crashed" "co_redis g k = Some (j, e)"
    and "e \<le> co_now g'" "slot_of g' i = Some (Polling p k d)" "co_now g' < d"
  shows "(\<exists>g''. poll i g' = Some g'' \<and> slot_of g'' i = Some (Holding p k (Some (co_now g' + cc_lease_seconds (co_config g')))))
    \<or> (\<exists>j'. j' \<noteq> j \<and> live_entry g' k = Some j')"
proof (cases "live_entry g' k")
  case None
  then have "\<exists>g''. poll i g' = Some g'' \<and> slot_of g'' i = Some (Holding p k (Some (co_now g' + cc_lease_seconds (co_config g'))))"
    using assms(5,6) by (auto simp: poll_def set_nx_def slot_move)
  then show ?thesis by blast
next
  case (Some j')
  then obtain e' where "co_redis g' k = Some (j', e')" "co_now g' < e'"
    by (auto simp: live_entry_def split: option.splits if_splits)
  then have "j' \<noteq> j" using crashed_reaches [OF assms(1,2)] assms(3,4) by force
  then show ?thesis using Some by blast
qed

lemma stuck_step:
  assumes "co_step g g'" "slot_of g j = Some (Stuck p k)"
  shows "slot_of g' j = Some (Stuck p k) \<or> slot_of g' j = Some Crashed"
  using assms
proof (induction rule: co_step.induct)
  case (arrive g p k timeout)
  then show ?case by (auto simp: begin_acquire_def slot_of_def nth_append split: if_splits)
next
  case (crashes g p b)
  then show ?case by (auto simp: slot_crash)
next
  case (cancels i g g')
  then show ?case
    by (auto simp: cancel_def lease_release_def release_redis_lock_def slot_move split: option.splits slot.splits if_splits)
qed (auto simp: co_op_defs release_redis_lock_def set_nx_def get_or_def Let_def slot_move split: option.splits slot.splits if_splits)

lemma stuck_reaches:
  assumes "co_reaches g g'" "slot_of g j = Some (Stuck p k)"
  shows "slot_of g' j = Some (Stuck p k) \<or> slot_of g' j = Some Crashed"
  using assms
proof (induction rule: co_reaches.induct)
  case (further g g1 g2)
  then show ?case using stuck_step [of g1 g2 j p k] crashed_stays [of g1 g2 j] by auto
qed simp

lemma co_reaches_trans: "co_reaches g1 g2 \<Longrightarrow> co_reaches g0 g1 \<Longrightarrow> co_reaches g0 g2"
  by (induction rule: co_reaches.induct) (auto intro: co_reaches.further)

lemma occupied_locked:
  assumes "locks_matched g" "slot_of g j = Some s" "occupies p k s"
  shows "co_local g p k"
proof -
  have "s \<in> set (co_tasks g)" using assms(2) by (auto simp: slot_of_def split: if_splits)
  then have "occupants g p k \<noteq> 0" using assms(3) by (auto simp: occupants_def filter_empty_conv)
  then show ?thesis using assms(1) by (metis locks_matched_def)
qed

text \<open>
  A turn cancelled while it polls Redis keeps the local lock of its process: as long as the process lives, no other turn
  of that process gets the slot of that thread, whatever happens to Redis.
\<close>

theorem cancelled_poll_blocks_thread:
  assumes "co_reaches (co_init cfg pinged) g" "slot_of g j = Some (Polling p k d)" "cancel j g = Some g1"
    and "co_reaches g1 g2" "slot_of g2 j \<noteq> Some Crashed"
  shows "co_local g2 p k \<and> (\<forall>i l. slot_of g2 i \<noteq> Some (Holding p k l)) \<and> (\<forall>i d. slot_of g2 i = Some (Queued p k d) \<longrightarrow> take_local i g2 = None)"
proof -
  have "slot_of g1 j = Some (Stuck p k)" using assms(2,3) by (auto simp: cancel_def slot_move)
  then have j: "slot_of g2 j = Some (Stuck p k)" using stuck_reaches [OF assms(4)] assms(5) by blast
  have "co_reaches g g1" using assms(3) co_step.cancels co_reaches.start co_reaches.further by blast
  then have "co_reaches (co_init cfg pinged) g2" using assms(1,4) co_reaches_trans by blast
  then have inv: "locks_matched g2" using co_reaches_inv inv_co_init by (auto simp: co_inv_alt)
  have l: "co_local g2 p k" using occupied_locked [OF inv j] by simp
  moreover have "slot_of g2 i \<noteq> Some (Holding p k l)" for i l using sole_occupant [OF inv j, of i "Holding p k l" p k] j by auto
  ultimately show ?thesis by (simp add: take_local_def)
qed

text \<open>
  A lease given up by a process that has once seen Redis fail stays in Redis until it expires: with a lease of two
  minutes and a wait of fifteen seconds the next turn of any process on that thread, right after it, is refused.
\<close>

definition degraded_turn :: "coordination \<Rightarrow> coordination option" where
  "degraded_turn g = Option.bind (take_local 0 (begin_acquire 0 ''k'' None g)) (\<lambda>g. Option.bind (poll 0 g) (lease_release 0))"

definition next_turn :: "coordination \<Rightarrow> coordination option" where
  "next_turn g = Option.bind (take_local 1 (begin_acquire 1 ''k'' None g)) (\<lambda>g. Option.bind (poll 1 g) (\<lambda>g. poll_deadline 1 (g\<lparr>co_now := co_now g + 15\<rparr>)))"

theorem degraded_release_keeps_lease:
  "map_option co_tasks (Option.bind (degraded_turn (co_init cc_default (\<lambda>p. p \<noteq> 0))) next_turn) = Some [Finished, Busy]
   \<and> map_option co_tasks (Option.bind (degraded_turn (co_init cc_default (\<lambda>p. True))) next_turn) = None"
  by code_simp

subsection \<open>Witnesses\<close>

text \<open>A turn of process 0 holds the slot; the process dies; a turn of process 1 polls, and the lease runs out.\<close>

definition demo_polling :: coordination where
  "demo_polling = the (take_local 0 (begin_acquire 0 ''k'' None (co_init cc_default (\<lambda>_. True))))"

definition demo_holding :: coordination where
  "demo_holding = the (poll 0 demo_polling)"

definition demo_waiting :: coordination where
  "demo_waiting = the (take_local 1 (begin_acquire 1 ''k'' (Some 200) (crash 0 True demo_holding)))"

definition demo_later :: coordination where
  "demo_later = demo_waiting\<lparr>co_now := co_now demo_waiting + 130\<rparr>"

definition demo_stuck :: coordination where
  "demo_stuck = the (cancel 0 demo_polling)"

lemma some_the: "\<not> Option.is_none x \<Longrightarrow> x = Some (the x)"
  by (cases x) auto

lemma demo_polling_reached: "co_reaches (co_init cc_default (\<lambda>_. True)) demo_polling"
proof -
  have "\<not> Option.is_none (take_local 0 (begin_acquire 0 ''k'' None (co_init cc_default (\<lambda>_. True))))" by code_simp
  then show ?thesis unfolding demo_polling_def
    by (meson co_reaches.start co_reaches.further co_step.arrive co_step.locally some_the)
qed

lemma demo_holding_reached: "co_reaches (co_init cc_default (\<lambda>_. True)) demo_holding"
proof -
  have "\<not> Option.is_none (poll 0 demo_polling)" by code_simp
  then show ?thesis unfolding demo_holding_def
    using demo_polling_reached by (meson co_reaches.further co_step.polls some_the)
qed

lemma demo_later_reached: "co_reaches (crash 0 True demo_holding) demo_later"
proof -
  have "\<not> Option.is_none (take_local 1 (begin_acquire 1 ''k'' (Some 200) (crash 0 True demo_holding)))" by code_simp
  then have "co_reaches (crash 0 True demo_holding) demo_waiting" unfolding demo_waiting_def
    by (meson co_reaches.start co_reaches.further co_step.arrive co_step.locally some_the)
  then show ?thesis unfolding demo_later_def by (rule co_reaches.further) (simp add: co_step.tick)
qed

theorem coordinator_exclusive_witness: "slot_of demo_holding 0 = Some (Holding 0 ''k'' (Some 120)) \<and> (0::nat) = 0"
proof -
  have h: "slot_of demo_holding 0 = Some (Holding 0 ''k'' (Some 120))" by code_simp
  from coordinator_exclusive [OF demo_holding_reached h h] h show ?thesis by simp
qed

theorem crashed_lease_passes_on_witness: "\<exists>g''. poll 1 demo_later = Some g'' \<and> slot_of g'' 1 = Some (Holding 1 ''k'' (Some 250))"
proof -
  have "slot_of (crash 0 True demo_holding) 0 = Some Crashed" "co_redis (crash 0 True demo_holding) ''k'' = Some (0, 120)"
    "120 \<le> co_now demo_later" "slot_of demo_later 1 = Some (Polling 1 ''k'' 200)" "co_now demo_later < 200" by code_simp+
  note r = crashed_lease_passes_on [OF demo_later_reached this]
  have "live_entry demo_later ''k'' = None" "co_now demo_later + cc_lease_seconds (co_config demo_later) = 250" by code_simp+
  then show ?thesis using r by auto
qed

theorem cancelled_poll_blocks_thread_witness: "co_local demo_stuck 0 ''k''"
proof -
  have c: "cancel 0 demo_polling = Some demo_stuck" unfolding demo_stuck_def by (rule some_the) code_simp
  have "slot_of demo_polling 0 = Some (Polling 0 ''k'' 15)" "slot_of demo_stuck 0 \<noteq> Some Crashed" by code_simp+
  from cancelled_poll_blocks_thread [OF demo_polling_reached this(1) c co_reaches.start this(2)] show ?thesis by simp
qed

end
