(* ===== verification/Session_Tokens.thy ===== *)
theory Session_Tokens
  imports Prelude
begin

text \<open>
  End-user identities and session tokens (\<open>session/tokens.py\<close>, and \<open>EndUserRepository\<close> and \<open>SessionTokenRepository\<close> of
  \<open>infrastructure/db/repositories.py\<close>). Fernet is a parameter: a bearer string is what its encryption returns, and what is
  used of it is that a ciphertext made with the service's key decrypts to the payload it was made from. The JSON and ISO
  texts inside the payload are represented by the values they denote.
\<close>

section \<open>Tables\<close>

record end_user =
  eu_id :: string
  eu_tenant_id :: string
  eu_external_id :: "string option"
  eu_anonymous_identity :: "string option"
  eu_display_name :: "string option"
  eu_status :: string

record session_token =
  st_id :: string
  st_tenant_id :: string
  st_end_user_id :: string
  st_surface_id :: "string option"
  st_device_id :: "string option"
  st_scopes :: "string list"
  st_expires_at :: time
  st_revoked_at :: "time option"

record token_db =
  td_end_users :: "end_user list"
  td_tokens :: "session_token list"

datatype token_error = UnknownEndUserError | InvalidSessionToken | ExpiredSessionToken | RevokedSessionToken | IntegrityError

section \<open>Repositories\<close>

definition eu_get_by_id :: "token_db \<Rightarrow> string \<Rightarrow> string \<Rightarrow> end_user option" where
  "eu_get_by_id db tenant uid = find (\<lambda>u. eu_tenant_id u = tenant \<and> eu_id u = uid) (td_end_users db)"

definition eu_find_anonymous :: "token_db \<Rightarrow> string \<Rightarrow> string \<Rightarrow> end_user option" where
  "eu_find_anonymous db tenant ident = find (\<lambda>u. eu_tenant_id u = tenant \<and> eu_anonymous_identity u = Some ident) (td_end_users db)"

text \<open>The two unique constraints; an absent value never conflicts. The primary key is a fresh identifier.\<close>

definition eu_conflicts :: "end_user \<Rightarrow> end_user \<Rightarrow> bool" where
  "eu_conflicts u v \<longleftrightarrow> eu_id u = eu_id v \<or>
     eu_tenant_id u = eu_tenant_id v \<and>
       (eu_external_id u \<noteq> None \<and> eu_external_id u = eu_external_id v \<or>
        eu_anonymous_identity u \<noteq> None \<and> eu_anonymous_identity u = eu_anonymous_identity v)"

definition eu_insert :: "end_user \<Rightarrow> token_db \<Rightarrow> token_db option" where
  "eu_insert u db = (if list_ex (eu_conflicts u) (td_end_users db) then None else Some (db\<lparr>td_end_users := td_end_users db @ [u]\<rparr>))"

text \<open>\<open>rival\<close> is what another transaction commits between the query and the insertion.\<close>

definition get_or_create_anonymous ::
  "string \<Rightarrow> string \<Rightarrow> string \<Rightarrow> string option \<Rightarrow> end_user list \<Rightarrow> token_db \<Rightarrow> (token_error + end_user) \<times> token_db" where
  "get_or_create_anonymous uid tenant ident name rival db = (case eu_find_anonymous db tenant ident of
     Some u \<Rightarrow> (Inr u, db)
   | None \<Rightarrow>
       (let db1 = db\<lparr>td_end_users := td_end_users db @ rival\<rparr>;
            u = \<lparr>eu_id = uid, eu_tenant_id = tenant, eu_external_id = None, eu_anonymous_identity = Some ident,
                 eu_display_name = name, eu_status = ''active''\<rparr>
        in case eu_insert u db1 of
             Some db2 \<Rightarrow> (Inr u, db2)
           | None \<Rightarrow> (case eu_find_anonymous db1 tenant ident of
                        Some v \<Rightarrow> (Inr v, db1)
                      | None \<Rightarrow> (Inl IntegrityError, db1))))"

definition create_authenticated :: "string \<Rightarrow> string \<Rightarrow> string \<Rightarrow> string option \<Rightarrow> token_db \<Rightarrow> (token_error + end_user) \<times> token_db" where
  "create_authenticated uid tenant ext name db =
     (let u = \<lparr>eu_id = uid, eu_tenant_id = tenant, eu_external_id = Some ext, eu_anonymous_identity = None,
               eu_display_name = name, eu_status = ''active''\<rparr>
      in case eu_insert u db of Some db' \<Rightarrow> (Inr u, db') | None \<Rightarrow> (Inl IntegrityError, db))"

definition eu_set_status :: "string \<Rightarrow> string \<Rightarrow> string \<Rightarrow> token_db \<Rightarrow> bool \<times> token_db" where
  "eu_set_status tenant uid status db =
     (let hit = (\<lambda>u. eu_tenant_id u = tenant \<and> eu_id u = uid)
      in (list_ex hit (td_end_users db),
          db\<lparr>td_end_users := map (\<lambda>u. if hit u then u\<lparr>eu_status := status\<rparr> else u) (td_end_users db)\<rparr>))"

definition st_create :: "session_token \<Rightarrow> token_db \<Rightarrow> token_db option" where
  "st_create r db = (if list_ex (\<lambda>r'. st_id r' = st_id r) (td_tokens db) then None else Some (db\<lparr>td_tokens := td_tokens db @ [r]\<rparr>))"

definition st_get :: "token_db \<Rightarrow> string \<Rightarrow> session_token option" where
  "st_get db jti = find (\<lambda>r. st_id r = jti) (td_tokens db)"

definition st_mark :: "(session_token \<Rightarrow> bool) \<Rightarrow> time \<Rightarrow> token_db \<Rightarrow> nat \<times> token_db" where
  "st_mark P now db =
     (let hit = (\<lambda>r. P r \<and> st_revoked_at r = None)
      in (length (filter hit (td_tokens db)),
          db\<lparr>td_tokens := map (\<lambda>r. if hit r then r\<lparr>st_revoked_at := Some now\<rparr> else r) (td_tokens db)\<rparr>))"

definition st_revoke :: "string \<Rightarrow> time \<Rightarrow> token_db \<Rightarrow> bool \<times> token_db" where
  "st_revoke jti now db = (let (n, db') = st_mark (\<lambda>r. st_id r = jti) now db in (0 < n, db'))"

definition revoke_all_for_end_user :: "string \<Rightarrow> string \<Rightarrow> time \<Rightarrow> token_db \<Rightarrow> nat \<times> token_db" where
  "revoke_all_for_end_user tenant uid = st_mark (\<lambda>r. st_tenant_id r = tenant \<and> st_end_user_id r = uid)"

definition prune_expired :: "string \<Rightarrow> time \<Rightarrow> token_db \<Rightarrow> nat \<times> token_db" where
  "prune_expired tenant before db =
     (let gone = (\<lambda>r. st_tenant_id r = tenant \<and> st_expires_at r < before \<and> st_revoked_at r \<noteq> None)
      in (length (filter gone (td_tokens db)), db\<lparr>td_tokens := filter (\<lambda>r. \<not> gone r) (td_tokens db)\<rparr>))"

section \<open>Service\<close>

record claims =
  cl_jti :: string
  cl_tenant_id :: string
  cl_end_user_id :: string
  cl_surface_id :: "string option"
  cl_device_id :: "string option"
  cl_scopes :: "string list"
  cl_iat :: time
  cl_exp :: time

record session_principal =
  sp_token_id :: string
  sp_tenant_id :: string
  sp_end_user_id :: string
  sp_surface_id :: "string option"
  sp_device_id :: "string option"
  sp_scopes :: "string list"
  sp_expires_at :: time

text \<open>\<open>fe_encrypt\<close> takes the nonce and the clock of the call as its first argument.\<close>

record 'b fernet =
  fe_encrypt :: "nat \<Rightarrow> claims \<Rightarrow> 'b"
  fe_decrypt :: "'b \<Rightarrow> claims option"

definition fernet_ok :: "'b fernet \<Rightarrow> bool" where
  "fernet_ok F \<longleftrightarrow> (\<forall>n c. fe_decrypt F (fe_encrypt F n c) = Some c)"

record mint_request =
  mr_device_id :: "string option"
  mr_end_user_id :: "string option"
  mr_surface_id :: "string option"
  mr_scopes :: "string list option"
  mr_ttl_seconds :: "time option"

text \<open>The user a token is minted for: the one named, or the anonymous one of the device.\<close>

definition mint_user :: "string \<Rightarrow> string \<Rightarrow> mint_request \<Rightarrow> end_user list \<Rightarrow> token_db \<Rightarrow> (token_error + end_user) \<times> token_db" where
  "mint_user uid tenant q rival db =
     (if truthy_str (mr_end_user_id q)
      then (case eu_get_by_id db tenant (the (mr_end_user_id q)) of None \<Rightarrow> (Inl UnknownEndUserError, db) | Some u \<Rightarrow> (Inr u, db))
      else if truthy_str (mr_device_id q)
      then get_or_create_anonymous uid tenant (''anon:'' @ the (mr_device_id q)) None rival db
      else (Inl UnknownEndUserError, db))"

definition mint ::
  "'b fernet \<Rightarrow> time \<Rightarrow> nat \<Rightarrow> string \<Rightarrow> string \<Rightarrow> time \<Rightarrow> string \<Rightarrow> mint_request \<Rightarrow> end_user list \<Rightarrow> token_db
   \<Rightarrow> (token_error + 'b \<times> time \<times> string) \<times> token_db" where
  "mint F default_ttl nonce uid jti now tenant q rival db = (case mint_user uid tenant q rival db of
     (Inl e, db1) \<Rightarrow> (Inl e, db1)
   | (Inr u, db1) \<Rightarrow>
       (let till = now + num_or (mr_ttl_seconds q) default_ttl;
            scopes = get_or (mr_scopes q) [];
            token = fe_encrypt F nonce
              \<lparr>cl_jti = jti, cl_tenant_id = tenant, cl_end_user_id = eu_id u, cl_surface_id = mr_surface_id q,
               cl_device_id = mr_device_id q, cl_scopes = scopes, cl_iat = now, cl_exp = till\<rparr>
        in case st_create \<lparr>st_id = jti, st_tenant_id = tenant, st_end_user_id = eu_id u, st_surface_id = mr_surface_id q,
                  st_device_id = mr_device_id q, st_scopes = scopes, st_expires_at = till, st_revoked_at = None\<rparr> db1 of
             None \<Rightarrow> (Inl IntegrityError, db1)
           | Some db2 \<Rightarrow> (Inr (token, till, eu_id u), db2)))"

definition resolve :: "'b fernet \<Rightarrow> token_db \<Rightarrow> time \<Rightarrow> 'b \<Rightarrow> token_error + session_principal" where
  "resolve F db now token = (case fe_decrypt F token of
     None \<Rightarrow> Inl InvalidSessionToken
   | Some c \<Rightarrow>
       if cl_exp c \<le> now then Inl ExpiredSessionToken
       else (case st_get db (cl_jti c) of
               None \<Rightarrow> Inl InvalidSessionToken
             | Some row \<Rightarrow>
                 if st_revoked_at row \<noteq> None then Inl RevokedSessionToken
                 else if st_tenant_id row \<noteq> cl_tenant_id c then Inl InvalidSessionToken
                 else Inr \<lparr>sp_token_id = cl_jti c, sp_tenant_id = cl_tenant_id c, sp_end_user_id = cl_end_user_id c,
                           sp_surface_id = cl_surface_id c, sp_device_id = cl_device_id c, sp_scopes = cl_scopes c,
                           sp_expires_at = cl_exp c\<rparr>))"

definition revoke :: "'b fernet \<Rightarrow> time \<Rightarrow> time \<Rightarrow> 'b \<Rightarrow> token_db \<Rightarrow> bool \<times> token_db" where
  "revoke F now later token db = (case resolve F db now token of
     Inl e \<Rightarrow> (False, db)
   | Inr p \<Rightarrow> st_revoke (sp_token_id p) later db)"

text \<open>
  What the tables go through between two requests: minting, revocation, erasure, pruning, changes of identities. A new
  token identifier was never used before (\<open>uuid4\<close>): the identifiers used so far are kept beside the tables.
\<close>

inductive token_step :: "'b fernet \<Rightarrow> token_db \<times> string set \<Rightarrow> token_db \<times> string set \<Rightarrow> bool" for F where
  minted: "jti \<notin> used \<Longrightarrow> mint F ttl nonce uid jti now tenant q rival db = (r, db') \<Longrightarrow> token_step F (db, used) (db', insert jti used)"
| revoked: "revoke F now later token db = (b, db') \<Longrightarrow> token_step F (db, used) (db', used)"
| erased: "revoke_all_for_end_user tenant uid now db = (n, db') \<Longrightarrow> token_step F (db, used) (db', used)"
| pruned: "prune_expired tenant before db = (n, db') \<Longrightarrow> token_step F (db, used) (db', used)"
| registered: "create_authenticated uid tenant ext name db = (r, db') \<Longrightarrow> token_step F (db, used) (db', used)"
| restated: "eu_set_status tenant uid status db = (b, db') \<Longrightarrow> token_step F (db, used) (db', used)"

inductive token_reaches :: "'b fernet \<Rightarrow> token_db \<times> string set \<Rightarrow> token_db \<times> string set \<Rightarrow> bool" for F where
  start: "token_reaches F s s"
| further: "token_reaches F s s1 \<Longrightarrow> token_step F s1 s2 \<Longrightarrow> token_reaches F s s2"

definition token_init :: "token_db \<times> string set" where
  "token_init = (\<lparr>td_end_users = [], td_tokens = []\<rparr>, {})"

section \<open>Lemmas\<close>

lemma mint_user_tokens: "td_tokens (snd (mint_user uid tenant q rival db)) = td_tokens db"
  by (auto simp: mint_user_def get_or_create_anonymous_def eu_insert_def Let_def split: option.splits)

lemma mint_tokens:
  assumes "mint F ttl nonce uid jti now tenant q rival db = (r, db')"
  shows "td_tokens db' = td_tokens db \<or>
    (\<exists>row. td_tokens db' = td_tokens db @ [row] \<and> st_id row = jti \<and> \<not> list_ex (\<lambda>r. st_id r = jti) (td_tokens db))"
proof -
  obtain mu db1 where m: "mint_user uid tenant q rival db = (mu, db1)" by force
  then have t: "td_tokens db1 = td_tokens db" using mint_user_tokens [of uid tenant q rival db] by simp
  show ?thesis using assms m t
    by (auto simp: mint_def st_create_def Let_def split: sum.splits if_splits)
qed

text \<open>A token that does not resolve: no row for it, or a revoked one.\<close>

definition dead :: "string \<Rightarrow> token_db \<Rightarrow> bool" where
  "dead jti db \<longleftrightarrow> list_all (\<lambda>r. st_id r = jti \<longrightarrow> st_revoked_at r \<noteq> None) (td_tokens db)"

lemma dead_not_resolved:
  assumes "dead (cl_jti c) db" "fe_decrypt F token = Some c"
  shows "\<exists>e. resolve F db now token = Inl e"
proof (cases "st_get db (cl_jti c)")
  case (Some row)
  then have "st_revoked_at row \<noteq> None" using assms(1) by (auto simp: st_get_def dead_def list_all_iff find_Some_iff)
  then show ?thesis using assms(2) Some by (auto simp: resolve_def)
qed (auto simp: resolve_def assms(2))

lemma dead_mark: "dead jti db \<Longrightarrow> dead jti (snd (st_mark P now db))"
  by (auto simp: dead_def st_mark_def Let_def list_all_iff)

lemma mark_dead:
  assumes "\<And>r. st_id r = jti \<Longrightarrow> P r"
  shows "dead jti (snd (st_mark P now db))"
  using assms by (auto simp: dead_def st_mark_def Let_def list_all_iff)

lemma revoke_marks:
  assumes "revoke F now later token db = (b, db')"
  shows "db' = db \<or> db' = snd (st_mark (\<lambda>r. st_id r = sp_token_id (projr (resolve F db now token))) later db)"
  using assms by (auto simp: revoke_def st_revoke_def split: sum.splits prod.splits)

lemma erase_marks:
  "revoke_all_for_end_user tenant uid now db = (n, db') \<Longrightarrow> db' = snd (st_mark (\<lambda>r. st_tenant_id r = tenant \<and> st_end_user_id r = uid) now db)"
  by (simp add: revoke_all_for_end_user_def)

lemma dead_step:
  assumes "token_step F s s'" "dead jti (fst s)" "jti \<in> snd s"
  shows "dead jti (fst s') \<and> jti \<in> snd s'"
  using assms
proof (induction rule: token_step.induct)
  case (minted j used ttl nonce uid now tenant q rival db r db')
  then show ?case using mint_tokens [OF minted(2)] by (auto simp: dead_def)
next
  case (revoked now later token db b db' used)
  then show ?case using revoke_marks [OF revoked(1)] dead_mark by fastforce
next
  case (erased tenant uid now db n db' used)
  then show ?case using erase_marks [OF erased(1)] dead_mark by simp
next
  case (registered uid tenant ext name db r db' used)
  then show ?case by (auto simp: create_authenticated_def eu_insert_def dead_def Let_def split: if_splits)
qed (auto simp: prune_expired_def eu_set_status_def dead_def list_all_iff Let_def)

lemma dead_reaches: "token_reaches F s s' \<Longrightarrow> dead jti (fst s) \<Longrightarrow> jti \<in> snd s \<Longrightarrow> dead jti (fst s') \<and> jti \<in> snd s'"
  by (induction rule: token_reaches.induct) (auto dest: dead_step)

text \<open>Every row's identifier has been used.\<close>

definition tokens_used :: "token_db \<times> string set \<Rightarrow> bool" where
  "tokens_used s \<longleftrightarrow> (\<forall>r\<in>set (td_tokens (fst s)). st_id r \<in> snd s)"

lemma used_mark: "r \<in> set (td_tokens (snd (st_mark P now db))) \<Longrightarrow> \<exists>r'\<in>set (td_tokens db). st_id r = st_id r' \<and> st_tenant_id r = st_tenant_id r' \<and> st_end_user_id r = st_end_user_id r'"
  by (auto simp: st_mark_def Let_def split: if_splits)

lemma used_step: "token_step F s s' \<Longrightarrow> tokens_used s \<Longrightarrow> tokens_used s'"
proof (induction rule: token_step.induct)
  case (minted j used ttl nonce uid now tenant q rival db r db')
  then show ?case using mint_tokens [OF minted(2)] by (auto simp: tokens_used_def)
next
  case (revoked now later token db b db' used)
  then show ?case using revoke_marks [OF revoked(1)] used_mark unfolding tokens_used_def by fastforce
next
  case (erased tenant uid now db n db' used)
  then show ?case using erase_marks [OF erased(1)] used_mark unfolding tokens_used_def by fastforce
next
  case (registered uid tenant ext name db r db' used)
  then show ?case by (auto simp: tokens_used_def create_authenticated_def eu_insert_def Let_def split: if_splits)
qed (auto simp: tokens_used_def prune_expired_def eu_set_status_def Let_def)

lemma used_reaches: "token_reaches F s s' \<Longrightarrow> tokens_used s \<Longrightarrow> tokens_used s'"
  by (induction rule: token_reaches.induct) (auto dest: used_step)

text \<open>The rows of a token identifier belong to one user of one tenant, and stay with them.\<close>

definition bound_to :: "string \<Rightarrow> string \<Rightarrow> string \<Rightarrow> token_db \<Rightarrow> bool" where
  "bound_to jti tenant uid db \<longleftrightarrow> (\<forall>r\<in>set (td_tokens db). st_id r = jti \<longrightarrow> st_tenant_id r = tenant \<and> st_end_user_id r = uid)"

lemma bound_mark: "bound_to jti tenant uid db \<Longrightarrow> bound_to jti tenant uid (snd (st_mark P now db))"
  unfolding bound_to_def using used_mark by metis

lemma bound_step:
  assumes "token_step F s s'" "bound_to jti tenant uid (fst s)" "jti \<in> snd s"
  shows "bound_to jti tenant uid (fst s') \<and> jti \<in> snd s'"
  using assms
proof (induction rule: token_step.induct)
  case (minted j used ttl nonce uid now tenant q rival db r db')
  then show ?case using mint_tokens [OF minted(2)] by (auto simp: bound_to_def)
next
  case (revoked now later token db b db' used)
  then show ?case using revoke_marks [OF revoked(1)] bound_mark by fastforce
next
  case (erased tenant uid now db n db' used)
  then show ?case using erase_marks [OF erased(1)] bound_mark by simp
next
  case (registered uid tenant ext name db r db' used)
  then show ?case by (auto simp: create_authenticated_def eu_insert_def bound_to_def Let_def split: if_splits)
qed (auto simp: prune_expired_def eu_set_status_def bound_to_def Let_def)

lemma bound_reaches: "token_reaches F s s' \<Longrightarrow> bound_to jti tenant uid (fst s) \<Longrightarrow> jti \<in> snd s \<Longrightarrow> bound_to jti tenant uid (fst s') \<and> jti \<in> snd s'"
  by (induction rule: token_reaches.induct) (auto dest: bound_step)

lemma minted_row:
  assumes "fernet_ok F" "mint F ttl nonce uid jti now tenant q rival db = (Inr (token, till, user), db')"
  shows "fe_decrypt F token = Some \<lparr>cl_jti = jti, cl_tenant_id = tenant, cl_end_user_id = user, cl_surface_id = mr_surface_id q,
           cl_device_id = mr_device_id q, cl_scopes = get_or (mr_scopes q) [], cl_iat = now, cl_exp = till\<rparr>"
    and "\<exists>row. st_get db' jti = Some row \<and> st_tenant_id row = tenant \<and> st_end_user_id row = user \<and> st_revoked_at row = None"
    and "bound_to jti tenant user db'"
    and "till = now + num_or (mr_ttl_seconds q) ttl"
proof -
  obtain mu db1 where m: "mint_user uid tenant q rival db = (mu, db1)" by force
  have fresh: "find (\<lambda>r. st_id r = jti) (td_tokens db1) = None" "\<And>row. row \<in> set (td_tokens db1) \<Longrightarrow> st_id row \<noteq> jti"
    using assms(2) m by (auto simp: mint_def st_create_def Let_def find_None_iff list_ex_iff split: sum.splits if_splits)
  show "fe_decrypt F token = Some \<lparr>cl_jti = jti, cl_tenant_id = tenant, cl_end_user_id = user, cl_surface_id = mr_surface_id q,
           cl_device_id = mr_device_id q, cl_scopes = get_or (mr_scopes q) [], cl_iat = now, cl_exp = till\<rparr>"
    and "till = now + num_or (mr_ttl_seconds q) ttl"
    using assms m by (auto simp: mint_def fernet_ok_def st_create_def Let_def split: sum.splits if_splits)
  show "\<exists>row. st_get db' jti = Some row \<and> st_tenant_id row = tenant \<and> st_end_user_id row = user \<and> st_revoked_at row = None"
    using assms(2) m fresh(1) by (auto simp: mint_def st_create_def Let_def st_get_def find_append split: sum.splits if_splits)
  have "\<exists>row. td_tokens db' = td_tokens db1 @ [row] \<and> st_tenant_id row = tenant \<and> st_end_user_id row = user"
    using assms(2) m by (auto simp: mint_def st_create_def Let_def split: sum.splits if_splits)
  then show "bound_to jti tenant user db'" using fresh(2) unfolding bound_to_def by fastforce
qed

section \<open>Properties\<close>

text \<open>A token that was just minted resolves, until it expires, to the tenant, user, surface, device and scopes it was minted
  for, and from its expiry on it is refused as expired.
\<close>

theorem mint_resolve_round_trip:
  assumes "fernet_ok F" "mint F ttl nonce uid jti now tenant q rival db = (Inr (token, till, user), db')"
  shows "resolve F db' t token =
    (if till \<le> t then Inl ExpiredSessionToken
     else Inr \<lparr>sp_token_id = jti, sp_tenant_id = tenant, sp_end_user_id = user, sp_surface_id = mr_surface_id q,
               sp_device_id = mr_device_id q, sp_scopes = get_or (mr_scopes q) [], sp_expires_at = till\<rparr>)"
  using minted_row [OF assms] by (auto simp: resolve_def)

text \<open>C23: Once \<open>revoke\<close> has returned true for a token, no sequence of minting, revocation, erasure, pruning and changes of users
  makes the token resolve again.
\<close>

theorem revoked_token_never_resolves:
  assumes "token_reaches F token_init (db, used)" "revoke F now later token db = (True, db')"
    and "token_reaches F (db', used) (db'', used'')"
  shows "\<exists>e. resolve F db'' t token = Inl e"
proof -
  obtain p where p: "resolve F db now token = Inr p" "st_revoke (sp_token_id p) later db = (True, db')"
    using assms(2) by (auto simp: revoke_def split: sum.splits)
  then obtain c row where c: "fe_decrypt F token = Some c" "st_get db (cl_jti c) = Some row" "sp_token_id p = cl_jti c"
    by (auto simp: resolve_def split: option.splits if_splits)
  have "tokens_used (db, used)" using used_reaches [OF assms(1)] by (simp add: token_init_def tokens_used_def)
  then have "cl_jti c \<in> used" using c(2) using find_SomeD by (fastforce simp: tokens_used_def st_get_def)
  moreover have "dead (cl_jti c) db'" using p(2) c(3) mark_dead [of "cl_jti c" "\<lambda>r. st_id r = cl_jti c" later db]
    by (simp add: st_revoke_def split: prod.splits)
  ultimately have "dead (cl_jti c) db''" using dead_reaches [OF assms(3)] by simp
  then show ?thesis by (rule dead_not_resolved) (rule c(1))
qed

text \<open>
  After all tokens of an end user have been revoked for an erasure, no token minted for that user before resolves, then or
  later.
\<close>

theorem erased_user_tokens_never_resolve:
  assumes "fernet_ok F" "jti \<notin> used" "mint F ttl nonce uid jti now tenant q rival db = (Inr (token, till, user), db1)"
    and "token_reaches F (db1, insert jti used) (db2, used2)"
    and "revoke_all_for_end_user tenant user then_at db2 = (n, db3)"
    and "token_reaches F (db3, used2) (db4, used4)"
  shows "\<exists>e. resolve F db4 t token = Inl e"
proof -
  note row = minted_row [OF assms(1,3)]
  have b: "bound_to jti tenant user db2" "jti \<in> used2" using bound_reaches [OF assms(4)] row(3) by auto
  have "dead jti db3"
    using b(1) erase_marks [OF assms(5)] by (auto simp: dead_def bound_to_def st_mark_def Let_def list_all_iff)
  then have "dead jti db4" using dead_reaches [OF assms(6)] b(2) by simp
  then show ?thesis using dead_not_resolved row(1) by force
qed

text \<open>
  The anonymous identity of a device is stable: whatever a concurrent transaction inserted, the user that is returned is
  the tenant's row for that identity afterwards, so the next bootstrap of the device returns it again.
\<close>

theorem anonymous_identity_stable:
  assumes "get_or_create_anonymous uid tenant ident name rival db = (Inr u, db')"
  shows "eu_tenant_id u = tenant \<and> eu_anonymous_identity u = Some ident
    \<and> get_or_create_anonymous uid' tenant ident name' rival' db' = (Inr u, db')"
proof -
  have "eu_find_anonymous db' tenant ident = Some u"
  proof (cases "eu_find_anonymous db tenant ident")
    case None
    show ?thesis
    proof (cases "list_ex (eu_conflicts \<lparr>eu_id = uid, eu_tenant_id = tenant, eu_external_id = None, eu_anonymous_identity = Some ident,
                 eu_display_name = name, eu_status = ''active''\<rparr>) (td_end_users db @ rival)")
      case True
      then show ?thesis using assms None by (auto simp: get_or_create_anonymous_def eu_insert_def Let_def split: option.splits if_splits)
    next
      case False
      then have "find (\<lambda>u. eu_tenant_id u = tenant \<and> eu_anonymous_identity u = Some ident) (td_end_users db @ rival) = None"
        by (auto simp: list_ex_iff find_None_iff eu_conflicts_def)
      moreover have "td_end_users db' = (td_end_users db @ rival) @ [u]"
        "u = \<lparr>eu_id = uid, eu_tenant_id = tenant, eu_external_id = None, eu_anonymous_identity = Some ident,
                 eu_display_name = name, eu_status = ''active''\<rparr>"
        using assms None False by (auto simp: get_or_create_anonymous_def eu_insert_def Let_def split: option.splits if_splits)
      ultimately show ?thesis unfolding eu_find_anonymous_def by (simp only: find_append) simp
    qed
  qed (use assms in \<open>auto simp: get_or_create_anonymous_def\<close>)
  moreover from this have "eu_tenant_id u = tenant \<and> eu_anonymous_identity u = Some ident"
    unfolding eu_find_anonymous_def by (auto dest: find_SomeD)
  ultimately show ?thesis by (simp add: get_or_create_anonymous_def)
qed

subsection \<open>Witnesses\<close>

definition plain_fernet :: "(nat \<times> claims) fernet" where
  "plain_fernet = \<lparr>fe_encrypt = (\<lambda>n c. (n, c)), fe_decrypt = (\<lambda>(n, c). Some c)\<rparr>"

lemma plain_fernet_ok: "fernet_ok plain_fernet"
  by (simp add: fernet_ok_def plain_fernet_def)

definition demo_request :: mint_request where
  "demo_request = \<lparr>mr_device_id = Some ''phone'', mr_end_user_id = None, mr_surface_id = None, mr_scopes = Some [''chat''], mr_ttl_seconds = None\<rparr>"

definition demo_minted :: "(token_error + (nat \<times> claims) \<times> time \<times> string) \<times> token_db" where
  "demo_minted = mint plain_fernet 3600 0 ''u1'' ''j1'' 100 ''acme'' demo_request [] (fst token_init)"

definition demo_token :: "nat \<times> claims" where
  "demo_token = fst (projr (fst demo_minted))"

lemma demo_mint: "mint plain_fernet 3600 0 ''u1'' ''j1'' 100 ''acme'' demo_request [] (fst token_init) = (Inr (demo_token, 3700, ''u1''), snd demo_minted)"
  unfolding demo_token_def by code_simp

lemma demo_reached: "token_reaches plain_fernet token_init (snd demo_minted, {''j1''})"
  using token_reaches.further [OF token_reaches.start token_step.minted [OF _ demo_mint [unfolded token_init_def fst_conv]]]
  by (simp add: token_init_def)

theorem mint_resolve_round_trip_witness:
  "resolve plain_fernet (snd demo_minted) 3699 demo_token =
     Inr \<lparr>sp_token_id = ''j1'', sp_tenant_id = ''acme'', sp_end_user_id = ''u1'', sp_surface_id = None, sp_device_id = Some ''phone'',
          sp_scopes = [''chat''], sp_expires_at = 3700\<rparr>"
  using mint_resolve_round_trip [OF plain_fernet_ok demo_mint, of 3699] by (simp add: demo_request_def get_or_def)

theorem revoked_token_never_resolves_witness:
  "\<exists>e. resolve plain_fernet (snd (revoke plain_fernet 200 201 demo_token (snd demo_minted))) 300 demo_token = Inl e"
proof -
  have "revoke plain_fernet 200 201 demo_token (snd demo_minted) = (True, snd (revoke plain_fernet 200 201 demo_token (snd demo_minted)))"
    by code_simp
  from revoked_token_never_resolves [OF demo_reached this token_reaches.start, of 300] show ?thesis .
qed

theorem erased_user_tokens_never_resolve_witness:
  "\<exists>e. resolve plain_fernet (snd (revoke_all_for_end_user ''acme'' ''u1'' 200 (snd demo_minted))) 300 demo_token = Inl e"
proof -
  have "''j1'' \<notin> {}" by simp
  from erased_user_tokens_never_resolve [OF plain_fernet_ok this demo_mint token_reaches.start prod.collapse [symmetric] token_reaches.start, of 200 300]
  show ?thesis .
qed

theorem anonymous_identity_stable_witness:
  "get_or_create_anonymous ''u2'' ''acme'' ''anon:phone'' None []
     (snd (get_or_create_anonymous ''u1'' ''acme'' ''anon:phone'' None [] (fst token_init)))
   = (Inr \<lparr>eu_id = ''u1'', eu_tenant_id = ''acme'', eu_external_id = None, eu_anonymous_identity = Some ''anon:phone'',
           eu_display_name = None, eu_status = ''active''\<rparr>,
      snd (get_or_create_anonymous ''u1'' ''acme'' ''anon:phone'' None [] (fst token_init)))"
proof -
  have "get_or_create_anonymous ''u1'' ''acme'' ''anon:phone'' None [] (fst token_init)
    = (Inr \<lparr>eu_id = ''u1'', eu_tenant_id = ''acme'', eu_external_id = None, eu_anonymous_identity = Some ''anon:phone'',
            eu_display_name = None, eu_status = ''active''\<rparr>, snd (get_or_create_anonymous ''u1'' ''acme'' ''anon:phone'' None [] (fst token_init)))"
    by code_simp
  from anonymous_identity_stable [OF this, of "''u2''" None "[]"] show ?thesis by blast
qed

end
