(* ===== verification/Py_Json.thy ===== *)
theory Py_Json
  imports Prelude
begin

text \<open>
  Reading JSON documents the way the Python code does: \<open>dict.get\<close>, truth values, and the slices that take the end of a
  list.
\<close>

definition jget :: "json \<Rightarrow> string \<Rightarrow> json option" where
  "jget j k = (case j of JObj kvs \<Rightarrow> map_of kvs k | _ \<Rightarrow> None)"

definition jget_or :: "json \<Rightarrow> string \<Rightarrow> json \<Rightarrow> json" where
  "jget_or j k d = get_or (jget j k) d"

fun jtruthy :: "json \<Rightarrow> bool" where
  "jtruthy JNull = False"
| "jtruthy (JBool b) = b"
| "jtruthy (JInt n) = (n \<noteq> 0)"
| "jtruthy (JNum x) = (x \<noteq> 0)"
| "jtruthy (JStr s) = (s \<noteq> [])"
| "jtruthy (JList xs) = (xs \<noteq> [])"
| "jtruthy (JObj kvs) = (kvs \<noteq> [])"

text \<open>\<open>xs[-n:]\<close>; for \<open>n = 0\<close> that is the whole list.\<close>

definition py_last :: "nat \<Rightarrow> 'a list \<Rightarrow> 'a list" where
  "py_last n xs = (if n = 0 then xs else drop (length xs - n) xs)"

lemma jget_simps [simp]: "jget (JObj kvs) k = map_of kvs k" "jget JNull k = None"
  by (simp_all add: jget_def)

lemma length_py_last [simp]: "length (py_last n xs) = (if n = 0 then length xs else min n (length xs))"
  by (auto simp: py_last_def)

lemma py_last_suffix: "\<exists>ys. xs = ys @ py_last n xs"
  by (metis append_Nil append_take_drop_id py_last_def)

end
