(* ===== verification/Session_Limits.thy ===== *)
theory Session_Limits
  imports Py_Json Rate_Limiter
begin

text \<open>
  Limits per end user (\<open>session/limits.py\<close>): request rate, concurrent sessions, spend. And the hot tier of the thread tail
  (\<open>session/hot_tier.py\<close>). Both keep one flag, \<open>_redis_available\<close>: an exception of any Redis command clears it, and
  nothing sets it again. Redis is the parameter of \<open>Redis_Iface\<close>; the float counters of the spend cap are commands of
  their own.
\<close>

section \<open>End-user limits\<close>

record limits_config =
  lc_max_requests :: rat
  lc_window_seconds :: rat
  lc_max_concurrent_sessions :: int
  lc_session_lease_seconds :: int
  lc_spend_cap_tokens :: int
  lc_prefix :: string

definition lc_default :: limits_config where
  "lc_default = \<lparr>lc_max_requests = 300, lc_window_seconds = 60, lc_max_concurrent_sessions = 5, lc_session_lease_seconds = 3600,
     lc_spend_cap_tokens = 0, lc_prefix = ''neryva:eu:''\<rparr>"

record end_user_limits =
  el_config :: limits_config
  el_available :: bool
  el_limiter :: rate_limiter

definition el_init :: "limits_config \<Rightarrow> bool \<Rightarrow> bool \<Rightarrow> end_user_limits" where
  "el_init cfg pinged limiter_pinged =
     \<lparr>el_config = cfg, el_available = pinged,
      el_limiter = \<lparr>rl_config = rl_default_config\<lparr>rl_max_requests := lc_max_requests cfg, rl_window_seconds := lc_window_seconds cfg,
                                                rl_key_prefix := ''neryva:rl:eu:''\<rparr>,
                   rl_redis = True, rl_buckets = Map.empty, rl_degraded = \<not> limiter_pinged\<rparr>\<rparr>"

definition el_degraded :: "end_user_limits \<Rightarrow> bool" where
  "el_degraded el \<longleftrightarrow> \<not> el_available el \<or> rl_degraded (el_limiter el)"

definition sessions_key :: "end_user_limits \<Rightarrow> string \<Rightarrow> string \<Rightarrow> string" where
  "sessions_key el tenant uid = lc_prefix (el_config el) @ ''sessions:'' @ tenant @ '':'' @ uid"

definition spend_key :: "end_user_limits \<Rightarrow> string \<Rightarrow> string \<Rightarrow> string" where
  "spend_key el tenant uid = lc_prefix (el_config el) @ ''spend:'' @ tenant @ '':'' @ uid"

definition check_rate :: "'w redis \<Rightarrow> string \<Rightarrow> string \<Rightarrow> rat \<Rightarrow> time \<Rightarrow> time \<Rightarrow> end_user_limits \<times> 'w \<Rightarrow> bool \<times> end_user_limits \<times> 'w" where
  "check_rate R tenant uid tokens wall tick s =
     (let (ok, rl, w) = rl_acquire R (el_limiter (fst s)) (tenant @ '':'' @ uid) tokens wall tick (snd s)
      in (ok, (fst s)\<lparr>el_limiter := rl\<rparr>, w))"

text \<open>Every operation on Redis: skipped when the flag is down, and a failure takes it down.\<close>

definition guarded :: "'a \<Rightarrow> ('a, 'w) rcmd \<Rightarrow> end_user_limits \<times> 'w \<Rightarrow> 'a \<times> end_user_limits \<times> 'w" where
  "guarded d m s =
     (if \<not> el_available (fst s) then (d, s)
      else case m (snd s) of
             (Some x, w) \<Rightarrow> (x, fst s, w)
           | (None, w) \<Rightarrow> (d, (fst s)\<lparr>el_available := False\<rparr>, w))"

definition enter_session :: "'w redis \<Rightarrow> string \<Rightarrow> string \<Rightarrow> end_user_limits \<times> 'w \<Rightarrow> bool \<times> end_user_limits \<times> 'w" where
  "enter_session R tenant uid s =
     (let cfg = el_config (fst s); key = sessions_key (fst s) tenant uid
      in guarded True
           (rbind (r_incr R key) (\<lambda>n.
            rbind (if n = 1 then r_expire R key (lc_session_lease_seconds cfg) else rret ()) (\<lambda>_.
              if 0 < lc_max_concurrent_sessions cfg \<and> lc_max_concurrent_sessions cfg < n
              then rbind (r_decr R key) (\<lambda>_. rret False)
              else rret True))) s)"

definition leave_session :: "'w redis \<Rightarrow> string \<Rightarrow> string \<Rightarrow> end_user_limits \<times> 'w \<Rightarrow> unit \<times> end_user_limits \<times> 'w" where
  "leave_session R tenant uid s =
     (let key = sessions_key (fst s) tenant uid
      in guarded () (rbind (r_decr R key) (\<lambda>n. if n \<le> 0 then rbind (r_delete R [key]) (\<lambda>_. rret ()) else rret ())) s)"

text \<open>INCRBYFLOAT, EXPIRE and GET on a float.\<close>

record 'w spend_store =
  ss_incrbyfloat :: "string \<Rightarrow> rat \<Rightarrow> (rat, 'w) rcmd"
  ss_expire :: "string \<Rightarrow> int \<Rightarrow> (unit, 'w) rcmd"
  ss_get :: "string \<Rightarrow> (rat option, 'w) rcmd"

definition spend_laws :: "'w spend_store \<Rightarrow> ('w \<Rightarrow> string \<Rightarrow> rat option) \<Rightarrow> bool" where
  "spend_laws S view \<longleftrightarrow>
     (\<forall>k x w y w'. ss_incrbyfloat S k x w = (Some y, w') \<longrightarrow> y = get_or (view w k) 0 + x \<and> view w' = (view w)(k \<mapsto> y)) \<and>
     (\<forall>k t w u w'. ss_expire S k t w = (Some u, w') \<longrightarrow> view w' = view w) \<and>
     (\<forall>k w v w'. ss_get S k w = (Some v, w') \<longrightarrow> v = view w k \<and> view w' = view w)"

definition record_spend :: "'w spend_store \<Rightarrow> string \<Rightarrow> string \<Rightarrow> rat \<Rightarrow> end_user_limits \<times> 'w \<Rightarrow> unit \<times> end_user_limits \<times> 'w" where
  "record_spend S tenant uid tokens s =
     (let key = spend_key (fst s) tenant uid
      in guarded () (rbind (ss_incrbyfloat S key tokens) (\<lambda>_. ss_expire S key (lc_session_lease_seconds (el_config (fst s))))) s)"

definition check_spend_cap :: "'w spend_store \<Rightarrow> string \<Rightarrow> string \<Rightarrow> end_user_limits \<times> 'w \<Rightarrow> bool \<times> end_user_limits \<times> 'w" where
  "check_spend_cap S tenant uid s =
     (let cap = lc_spend_cap_tokens (el_config (fst s))
      in if cap \<le> 0 then (True, s)
         else guarded True (rbind (ss_get S (spend_key (fst s) tenant uid)) (\<lambda>v. rret (get_or v 0 < of_int cap))) s)"

text \<open>The sessions of one user over time: a session is open from an accepted \<open>enter_session\<close> to its \<open>leave_session\<close>.\<close>

datatype session_event = Enter | Leave

fun run_sessions :: "'w redis \<Rightarrow> string \<Rightarrow> string \<Rightarrow> session_event list \<Rightarrow> nat \<Rightarrow> end_user_limits \<times> 'w \<Rightarrow> nat \<times> end_user_limits \<times> 'w" where
  "run_sessions R tenant uid [] n s = (n, s)"
| "run_sessions R tenant uid (Enter # es) n s =
     (case enter_session R tenant uid s of (ok, s') \<Rightarrow> run_sessions R tenant uid es (if ok then Suc n else n) s')"
| "run_sessions R tenant uid (Leave # es) n s =
     (if n = 0 then run_sessions R tenant uid es 0 s
      else case leave_session R tenant uid s of (_, s') \<Rightarrow> run_sessions R tenant uid es (n - 1) s')"

section \<open>Hot tier\<close>

record tail_cache =
  tc_prefix :: string
  tc_ttl_seconds :: int
  tc_tail_size :: nat
  tc_available :: bool

definition tc_default :: tail_cache where
  "tc_default = \<lparr>tc_prefix = ''neryva:thread:tail:'', tc_ttl_seconds = 86400, tc_tail_size = 10, tc_available = True\<rparr>"

definition tail_key :: "tail_cache \<Rightarrow> string \<Rightarrow> string \<Rightarrow> string" where
  "tail_key tc tenant tid = tc_prefix tc @ tenant @ '':'' @ tid"

definition tail_guarded :: "'a \<Rightarrow> ('a, 'w) rcmd \<Rightarrow> tail_cache \<times> 'w \<Rightarrow> 'a \<times> tail_cache \<times> 'w" where
  "tail_guarded d m s =
     (if \<not> tc_available (fst s) then (d, s)
      else case m (snd s) of
             (Some x, w) \<Rightarrow> (x, fst s, w)
           | (None, w) \<Rightarrow> (d, (fst s)\<lparr>tc_available := False\<rparr>, w))"

definition cache_tail :: "'w redis \<Rightarrow> string \<Rightarrow> string \<Rightarrow> json list \<Rightarrow> json option \<Rightarrow> tail_cache \<times> 'w \<Rightarrow> bool \<times> tail_cache \<times> 'w" where
  "cache_tail R tenant tid tail summary s =
     (let tc = fst s; key = tail_key tc tenant tid; window = py_last (tc_tail_size tc) tail
      in tail_guarded False
           (rbind (case summary of None \<Rightarrow> r_get R key | Some _ \<Rightarrow> rret None) (\<lambda>raw.
            let kept = (case summary of
                          Some j \<Rightarrow> j
                        | None \<Rightarrow> (case raw of Some doc \<Rightarrow> jget_or doc ''summary'' JNull | None \<Rightarrow> JNull))
            in rbind (r_setex R key (tc_ttl_seconds tc) (JObj [(''tail'', JList window), (''summary'', kept)])) (\<lambda>_. rret True))) s)"

definition get_tail :: "'w redis \<Rightarrow> string \<Rightarrow> string \<Rightarrow> tail_cache \<times> 'w \<Rightarrow> json option \<times> tail_cache \<times> 'w" where
  "get_tail R tenant tid s =
     (let tc = fst s; key = tail_key tc tenant tid
      in tail_guarded None
           (rbind (r_get R key) (\<lambda>raw. case raw of
              None \<Rightarrow> rret None
            | Some doc \<Rightarrow> rbind (r_expire R key (tc_ttl_seconds tc)) (\<lambda>_. rret (Some doc)))) s)"

definition invalidate_tail :: "'w redis \<Rightarrow> string \<Rightarrow> string \<Rightarrow> tail_cache \<times> 'w \<Rightarrow> bool \<times> tail_cache \<times> 'w" where
  "invalidate_tail R tenant tid s =
     tail_guarded False (rbind (r_delete R [tail_key (fst s) tenant tid]) (\<lambda>_. rret True)) s"

section \<open>Lemmas\<close>

lemma guarded_live:
  assumes "guarded d m (el, w) = (x, el', w')" "el_available el'"
  shows "el' = el \<and> m w = (Some x, w')"
  using assms by (auto simp: guarded_def split: if_splits prod.splits option.splits)

lemma guarded_down: "guarded d m (el, w) = (x, el', w') \<Longrightarrow> \<not> el_available el \<Longrightarrow> \<not> el_available el'"
  by (auto simp: guarded_def split: if_splits)

definition session_count :: "('w \<Rightarrow> keyspace) \<Rightarrow> 'w \<Rightarrow> string \<Rightarrow> int" where
  "session_count view w k = get_or (int_at (view w) k) 0"

lemma count_laws:
  assumes "redis_counter_laws R view"
  shows "r_incr R k w = (Some n, w') \<Longrightarrow> n = session_count view w k + 1 \<and> session_count view w' k = n"
    and "r_decr R k w = (Some n, w') \<Longrightarrow> n = session_count view w k - 1 \<and> session_count view w' k = n"
    and "r_expire R k' t w = (Some u, w') \<Longrightarrow> session_count view w' k = session_count view w k"
    and "r_delete R [k] w = (Some m, w') \<Longrightarrow> session_count view w' k = 0"
  using counter_lawsD [OF assms] by (fastforce simp: session_count_def get_or_def int_at_def)+

lemma enter_counts:
  assumes "redis_counter_laws R view" "enter_session R tenant uid (el, w) = (ok, el', w')" "el_available el'"
  shows "el' = el"
    and "session_count view w' (sessions_key el tenant uid) = session_count view w (sessions_key el tenant uid) + (if ok then 1 else 0)"
    and "ok \<longleftrightarrow> \<not> (0 < lc_max_concurrent_sessions (el_config el) \<and>
                 lc_max_concurrent_sessions (el_config el) \<le> session_count view w (sessions_key el tenant uid))"
proof -
  let ?key = "sessions_key el tenant uid" and ?cfg = "el_config el"
  have el: "el' = el" and m: "rbind (r_incr R ?key) (\<lambda>n.
            rbind (if n = 1 then r_expire R ?key (lc_session_lease_seconds ?cfg) else rret ()) (\<lambda>_.
              if 0 < lc_max_concurrent_sessions ?cfg \<and> lc_max_concurrent_sessions ?cfg < n
              then rbind (r_decr R ?key) (\<lambda>_. rret False)
              else rret True)) w = (Some ok, w')"
    using guarded_live [of True _ el w ok el' w'] assms(2,3) by (auto simp: enter_session_def Let_def)
  show "el' = el" by (rule el)
  from m obtain n w1 w2 where n: "r_incr R ?key w = (Some n, w1)"
      "(if n = 1 then r_expire R ?key (lc_session_lease_seconds ?cfg) else rret ()) w1 = (Some (), w2)"
      "(if 0 < lc_max_concurrent_sessions ?cfg \<and> lc_max_concurrent_sessions ?cfg < n
        then rbind (r_decr R ?key) (\<lambda>_. rret False) else rret True) w2 = (Some ok, w')"
    by (auto simp: rbind_Some_iff)
  have v: "n = session_count view w ?key + 1" "session_count view w2 ?key = n"
    using count_laws(1) [OF assms(1) n(1)] count_laws(3) [OF assms(1)] n(2) by (auto simp: rret_iff split: if_splits)
  show "ok \<longleftrightarrow> \<not> (0 < lc_max_concurrent_sessions ?cfg \<and> lc_max_concurrent_sessions ?cfg \<le> session_count view w ?key)"
    using n(3) v(1) by (auto simp: rbind_Some_iff rret_iff split: if_splits)
  show "session_count view w' ?key = session_count view w ?key + (if ok then 1 else 0)"
    using n(3) v count_laws(2) [OF assms(1)] by (fastforce simp: rbind_Some_iff rret_iff split: if_splits)
qed

lemma leave_counts:
  assumes "redis_counter_laws R view" "leave_session R tenant uid (el, w) = (u, el', w')" "el_available el'"
  shows "el' = el"
    and "session_count view w' (sessions_key el tenant uid) = max 0 (session_count view w (sessions_key el tenant uid) - 1)"
proof -
  let ?key = "sessions_key el tenant uid"
  have el: "el' = el" and m: "rbind (r_decr R ?key) (\<lambda>n. if n \<le> 0 then rbind (r_delete R [?key]) (\<lambda>_. rret ()) else rret ()) w = (Some u, w')"
    using guarded_live [of "()" _ el w u el' w'] assms(2,3) by (auto simp: leave_session_def Let_def)
  show "el' = el" by (rule el)
  from m obtain n w1 where n: "r_decr R ?key w = (Some n, w1)"
      "(if n \<le> 0 then rbind (r_delete R [?key]) (\<lambda>_. rret ()) else rret ()) w1 = (Some u, w')"
    by (auto simp: rbind_Some_iff)
  show "session_count view w' ?key = max 0 (session_count view w ?key - 1)"
    using count_laws(2) [OF assms(1) n(1)] count_laws(4) [OF assms(1)] n(2)
    by (fastforce simp: rbind_Some_iff rret_iff split: if_splits)
qed

lemma enter_config: "el_config (fst (snd (enter_session R tenant uid s))) = el_config (fst s)"
  by (auto simp: enter_session_def guarded_def Let_def split: prod.split option.split)

text \<open>The flag never comes up again.\<close>

lemma enter_down: "\<not> el_available (fst s) \<Longrightarrow> enter_session R tenant uid s = (True, s)"
  by (simp add: enter_session_def guarded_def Let_def)

lemma leave_down: "\<not> el_available (fst s) \<Longrightarrow> leave_session R tenant uid s = ((), s)"
  by (simp add: leave_session_def guarded_def Let_def)

lemma run_down: "\<not> el_available (fst s) \<Longrightarrow> snd (run_sessions R tenant uid es n s) = s"
  by (induction es n s rule: run_sessions.induct) (auto simp: enter_down leave_down)

lemma run_counts:
  assumes "redis_counter_laws R view" "run_sessions R tenant uid es n (el, w) = (m, el', w')" "el_available el'"
    and "session_count view w (sessions_key el tenant uid) = int n" "0 < lc_max_concurrent_sessions (el_config el)"
    and "int n \<le> lc_max_concurrent_sessions (el_config el)"
  shows "int m \<le> lc_max_concurrent_sessions (el_config el) \<and> session_count view w' (sessions_key el tenant uid) = int m \<and> el' = el"
  using assms(2-)
proof (induction es arbitrary: n w)
  case (Cons e es)
  have av: "el_available x" if "run_sessions R tenant uid es k (x, v) = (m, el', w')" for x k v
    using run_down [of "(x, v)" R tenant uid es k] that Cons.prems(2) by auto
  show ?case
  proof (cases e)
    case Enter
    obtain ok x v where e: "enter_session R tenant uid (el, w) = (ok, x, v)" by (metis prod_cases3)
    then have r: "run_sessions R tenant uid es (if ok then Suc n else n) (x, v) = (m, el', w')" using Cons.prems(1) Enter by simp
    note c = enter_counts [OF assms(1) e av [OF r]]
    show ?thesis using Cons.IH [of "if ok then Suc n else n" v] r c Cons.prems by auto
  next
    case Leave
    show ?thesis
    proof (cases "n = 0")
      case True
      then show ?thesis using Cons Leave by auto
    next
      case False
      obtain u x v where e: "leave_session R tenant uid (el, w) = (u, x, v)" by (metis prod_cases3)
      then have r: "run_sessions R tenant uid es (n - 1) (x, v) = (m, el', w')" using Cons.prems(1) Leave False by simp
      note c = leave_counts [OF assms(1) e av [OF r]]
      show ?thesis using Cons.IH [of "n - 1" v] r c Cons.prems False by (auto simp: of_nat_diff)
    qed
  qed
qed auto

section \<open>Properties\<close>

text \<open>
  As long as Redis answers and keeps the counter, the sessions a user has open never exceed the cap, whatever the order in
  which they enter and leave, and the counter is their number.
\<close>

theorem open_sessions_within_cap:
  assumes "redis_counter_laws R view" "0 < lc_max_concurrent_sessions (el_config el)"
    and "session_count view w (sessions_key el tenant uid) = 0"
    and "run_sessions R tenant uid es 0 (el, w) = (m, el', w')" "el_available el'"
  shows "int m \<le> lc_max_concurrent_sessions (el_config el) \<and> session_count view w' (sessions_key el tenant uid) = int m"
  using run_counts [OF assms(1,4,5)] assms(2,3) by simp

lemma spend_lawsD:
  assumes "spend_laws S view"
  shows "ss_incrbyfloat S k x w = (Some y, w') \<Longrightarrow> view w' = (view w)(k \<mapsto> get_or (view w k) 0 + x)"
    and "ss_expire S k t w = (Some u, w') \<Longrightarrow> view w' = view w"
    and "ss_get S k w = (Some v, w') \<Longrightarrow> v = view w k"
  using assms unfolding spend_laws_def by metis+

lemma record_spend_live:
  assumes "spend_laws S view" "record_spend S tenant uid x (el, w) = (u, el', w')"
  shows "el_config el' = el_config el" "spend_key el' tenant uid = spend_key el tenant uid"
    and "el_available el' \<Longrightarrow> view w' (spend_key el tenant uid) = Some (get_or (view w (spend_key el tenant uid)) 0 + x)"
proof -
  show cfg: "el_config el' = el_config el"
    using assms(2) by (auto simp: record_spend_def guarded_def Let_def split: if_splits prod.splits option.splits)
  then show "spend_key el' tenant uid = spend_key el tenant uid" by (simp add: spend_key_def)
  assume "el_available el'"
  then have "rbind (ss_incrbyfloat S (spend_key el tenant uid) x) (\<lambda>_. ss_expire S (spend_key el tenant uid) (lc_session_lease_seconds (el_config el))) w = (Some u, w')"
    using assms(2) guarded_live unfolding record_spend_def Let_def by (metis fst_conv)
  then obtain y w1 where "ss_incrbyfloat S (spend_key el tenant uid) x w = (Some y, w1)"
      "ss_expire S (spend_key el tenant uid) (lc_session_lease_seconds (el_config el)) w1 = (Some u, w')"
    by (auto simp: rbind_Some_iff)
  then show "view w' (spend_key el tenant uid) = Some (get_or (view w (spend_key el tenant uid)) 0 + x)"
    using spend_lawsD(1,2) [OF assms(1)] by auto
qed

lemma check_spend_cases:
  assumes "check_spend_cap S tenant uid (el, w) = (ok, el', w')"
  shows "lc_spend_cap_tokens (el_config el) \<le> 0 \<and> ok \<and> el' = el
    \<or> \<not> el_available el' \<and> ok
    \<or> el' = el \<and> el_available el \<and> 0 < lc_spend_cap_tokens (el_config el)
      \<and> (\<exists>v. ss_get S (spend_key el tenant uid) w = (Some v, w') \<and> ok = (get_or v 0 < of_int (lc_spend_cap_tokens (el_config el))))"
  using assms
  by (auto simp: check_spend_cap_def guarded_def Let_def rbind_def rret_def split: if_splits prod.splits option.splits)

text \<open>
  Right after a spend was recorded, the cap refuses exactly when one is configured, Redis answered throughout, and the
  user's recorded total has reached it; in every other case the check passes.
\<close>

theorem spend_cap_decides:
  assumes "spend_laws S view" "record_spend S tenant uid x (el, w) = (u, el1, w1)" "check_spend_cap S tenant uid (el1, w1) = (ok, el2, w2)"
  shows "ok \<longleftrightarrow> lc_spend_cap_tokens (el_config el) \<le> 0 \<or> \<not> el_available el2
      \<or> get_or (view w (spend_key el tenant uid)) 0 + x < of_int (lc_spend_cap_tokens (el_config el))"
proof -
  note r = record_spend_live [OF assms(1,2)]
  from check_spend_cases [OF assms(3)] show ?thesis
  proof (elim disjE conjE exE)
    fix v assume h: "el2 = el1" "el_available el1" "0 < lc_spend_cap_tokens (el_config el1)"
      "ss_get S (spend_key el1 tenant uid) w1 = (Some v, w2)" "ok = (get_or v 0 < of_int (lc_spend_cap_tokens (el_config el1)))"
    then have "v = Some (get_or (view w (spend_key el tenant uid)) 0 + x)" using spend_lawsD(3) [OF assms(1)] r by metis
    then show ?thesis using h r(1) by (auto simp: get_or_def)
  qed (use r(1) in auto)
qed

section \<open>The tail\<close>

lemma tail_guarded_live:
  assumes "tail_guarded d m (tc, w) = (x, tc', w')" "tc_available tc'"
  shows "tc' = tc \<and> m w = (Some x, w')"
  using assms by (auto simp: tail_guarded_def split: if_splits prod.splits option.splits)

lemma cache_tail_writes:
  assumes "redis_string_laws R view" "cache_tail R tenant tid tail summary (tc, w) = (ok, tc', w')" "ok"
  shows "tc' = tc \<and> tc_available tc \<and> view w' = (view w)(tail_key tc tenant tid \<mapsto> RDoc (JObj [(''tail'', JList (py_last (tc_tail_size tc) tail)),
     (''summary'', get_or summary (case doc_at (view w) (tail_key tc tenant tid) of Some d \<Rightarrow> jget_or d ''summary'' JNull | None \<Rightarrow> JNull))]))"
proof -
  have live: "tc_available tc" "tc' = tc" using assms(2,3)
    by (auto simp: cache_tail_def tail_guarded_def Let_def split: if_splits prod.splits option.splits)
  show ?thesis
  proof (cases summary)
    case None
    then show ?thesis using assms live string_lawsD(1,2) [OF assms(1)]
      by (fastforce simp: cache_tail_def tail_guarded_def Let_def get_or_def rbind_def rret_def split: if_splits prod.splits option.splits)
  next
    case (Some j)
    then show ?thesis using assms live string_lawsD(1,2) [OF assms(1)]
      by (fastforce simp: cache_tail_def tail_guarded_def Let_def get_or_def rbind_def rret_def split: if_splits prod.splits option.splits)
  qed
qed

lemma get_tail_reads:
  assumes "redis_string_laws R view" "get_tail R tenant tid (tc, w) = (r, tc', w')" "tc_available tc'"
  shows "tc' = tc \<and> r = doc_at (view w) (tail_key tc tenant tid) \<and> view w' = view w"
proof -
  have "tc' = tc" and m: "rbind (r_get R (tail_key tc tenant tid)) (\<lambda>raw. case raw of
              None \<Rightarrow> rret None
            | Some doc \<Rightarrow> rbind (r_expire R (tail_key tc tenant tid) (tc_ttl_seconds tc)) (\<lambda>_. rret (Some doc))) w = (Some r, w')"
    using tail_guarded_live [of None _ tc w r tc' w'] assms(2,3) by (auto simp: get_tail_def Let_def)
  then show ?thesis using string_lawsD(1,3) [OF assms(1)]
    by (fastforce simp: rbind_Some_iff rret_iff split: option.splits)
qed

text \<open>
  What a cached tail reads back: the newest \<open>tail_size\<close> messages, and the summary that was passed with them or, when none
  was passed, the one cached before.
\<close>

theorem cached_tail_round_trip:
  assumes "redis_string_laws R view" "cache_tail R tenant tid tail summary (tc, w) = (True, tc1, w1)"
    and "get_tail R tenant tid (tc1, w1) = (r, tc2, w2)" "tc_available tc2"
  shows "r = Some (JObj [(''tail'', JList (py_last (tc_tail_size tc) tail)),
      (''summary'', get_or summary (case doc_at (view w) (tail_key tc tenant tid) of Some d \<Rightarrow> jget_or d ''summary'' JNull | None \<Rightarrow> JNull))])"
  using cache_tail_writes [OF assms(1,2)] get_tail_reads [OF assms(1,3,4)] by simp

text \<open>
  Once one command has failed, every later check passes and nothing is recorded, for as long as the process runs and
  whether or not Redis has come back.
\<close>

theorem limits_stay_open_after_failure:
  assumes "\<not> el_available (fst s)"
  shows "enter_session R tenant uid s = (True, s) \<and> leave_session R tenant uid s = ((), s)
    \<and> record_spend S tenant uid x s = ((), s) \<and> check_spend_cap S tenant uid s = (True, s)
    \<and> run_sessions R tenant uid (replicate n Enter) m s = (m + n, s)"
proof -
  have "run_sessions R tenant uid (replicate n Enter) m s = (m + n, s)"
    by (induction n arbitrary: m) (simp_all add: enter_down [OF assms])
  then show ?thesis using assms
    by (simp add: enter_down leave_down record_spend_def check_spend_cap_def guarded_def Let_def)
qed

subsection \<open>Witnesses\<close>

definition sole_spend :: "(string \<times> rat) list spend_store" where
  "sole_spend = \<lparr>ss_incrbyfloat = (\<lambda>k x w. let y = get_or (map_of w k) 0 + x in (Some y, AList.update k y w)),
     ss_expire = (\<lambda>k t w. (Some (), w)), ss_get = (\<lambda>k w. (Some (map_of w k), w))\<rparr>"

lemma sole_spend_laws: "spend_laws sole_spend map_of"
  by (auto simp: spend_laws_def sole_spend_def Let_def update_conv)

theorem open_sessions_within_cap_witness:
  "fst (run_sessions sole_redis ''t'' ''u'' (replicate 7 Enter @ [Leave, Enter, Enter]) 0 (el_init lc_default True True, [])) \<le> 5"
proof -
  let ?r = "run_sessions sole_redis ''t'' ''u'' (replicate 7 Enter @ [Leave, Enter, Enter]) 0 (el_init lc_default True True, [])"
  have "session_count map_of [] (sessions_key (el_init lc_default True True) ''t'' ''u'') = 0" by (simp add: session_count_def int_at_def get_or_def)
  moreover have "?r = (fst ?r, fst (snd ?r), snd (snd ?r))" by simp
  moreover have "el_available (fst (snd ?r))" by code_simp
  ultimately have "int (fst ?r) \<le> lc_max_concurrent_sessions (el_config (el_init lc_default True True))"
    using open_sessions_within_cap [OF mem_redis_counter_laws [of "\<lambda>s. s" "\<lambda>s _. s"], of "el_init lc_default True True" "[]" "''t''" "''u''"
        "replicate 7 Enter @ [Leave, Enter, Enter]" "fst ?r" "fst (snd ?r)" "snd (snd ?r)"]
    by (simp add: el_init_def lc_default_def)
  then show ?thesis by (simp add: el_init_def lc_default_def)
qed

theorem spend_cap_decides_witness:
  "\<not> fst (check_spend_cap sole_spend ''t'' ''u'' (snd (record_spend sole_spend ''t'' ''u'' 100 (el_init (lc_default\<lparr>lc_spend_cap_tokens := 100\<rparr>) True True, []))))"
proof -
  let ?el = "el_init (lc_default\<lparr>lc_spend_cap_tokens := 100\<rparr>) True True"
  let ?r = "record_spend sole_spend ''t'' ''u'' 100 (?el, [])"
  let ?c = "check_spend_cap sole_spend ''t'' ''u'' (snd ?r)"
  have av: "el_available (fst (snd ?c))" by code_simp
  obtain u el1 w1 where r: "?r = (u, el1, w1)" by (metis prod_cases3)
  obtain ok el2 w2 where c: "check_spend_cap sole_spend ''t'' ''u'' (el1, w1) = (ok, el2, w2)" by (metis prod_cases3)
  have "lc_spend_cap_tokens (el_config ?el) = 100" by (simp add: el_init_def)
  then show ?thesis using spend_cap_decides [OF sole_spend_laws r c] av r c by (simp add: get_or_def)
qed

theorem cached_tail_round_trip_witness:
  "fst (get_tail sole_redis ''t'' ''c'' (snd (cache_tail sole_redis ''t'' ''c'' [JInt 1, JInt 2] None (tc_default, []))))
   = Some (JObj [(''tail'', JList [JInt 1, JInt 2]), (''summary'', JNull)])"
proof -
  let ?c = "cache_tail sole_redis ''t'' ''c'' [JInt 1, JInt 2] None (tc_default, [])"
  let ?g = "get_tail sole_redis ''t'' ''c'' (snd ?c)"
  have "fst ?c" "tc_available (fst (snd ?g))" by code_simp+
  then show ?thesis
    using cached_tail_round_trip [OF mem_redis_string_laws [of "\<lambda>s. s" "\<lambda>s _. s"], of "''t''" "''c''" "[JInt 1, JInt 2]" None tc_default "[]"
        "fst (snd ?c)" "snd (snd ?c)" "fst ?g" "fst (snd ?g)" "snd (snd ?g)"]
    by (simp add: prod_eq_iff doc_at_def get_or_def py_last_def tc_default_def)
qed

theorem limits_stay_open_after_failure_witness:
  "run_sessions sole_redis ''t'' ''u'' (replicate 9 Enter) 0 (el_init lc_default False True, []) = (9, el_init lc_default False True, [])"
  using limits_stay_open_after_failure [where s = "(el_init lc_default False True, [])" and R = sole_redis and tenant = "''t''" and uid = "''u''" and n = 9 and m = 0]
  by (simp add: el_init_def)

end
