(* ===== verification/Stream_Buffer.thy ===== *)
theory Stream_Buffer
  imports Py_Json Redis_Iface
begin

text \<open>
  The chunk buffer of a streamed turn (\<open>infrastructure/stream/buffer.py\<close>) and its overflow table
  (\<open>infrastructure/stream/overflow.py\<close>). The Redis list commands are a parameter with their laws; the table is a list of
  rows, and \<open>up\<close> says whether a transaction on it succeeds. The identifier of a row, a hash of stream and sequence number,
  is represented by the two.
\<close>

section \<open>Definitions\<close>

record chunk =
  ck_id :: nat
  ck_type :: string
  ck_data :: json

type_synonym scope = "string \<times> string \<times> string"

record overflow_row =
  ov_scope :: scope
  ov_seq :: nat
  ov_event_type :: string
  ov_payload :: json

record 'w list_store =
  ls_rpush :: "string \<Rightarrow> chunk \<Rightarrow> (unit, 'w) rcmd"
  ls_expire :: "string \<Rightarrow> time \<Rightarrow> (unit, 'w) rcmd"
  ls_llen :: "string \<Rightarrow> (nat, 'w) rcmd"
  ls_head :: "string \<Rightarrow> nat \<Rightarrow> (chunk list, 'w) rcmd"
  ls_trim :: "string \<Rightarrow> nat \<Rightarrow> (unit, 'w) rcmd"
  ls_all :: "string \<Rightarrow> (chunk list, 'w) rcmd"
  ls_delete :: "string \<Rightarrow> (unit, 'w) rcmd"

text \<open>\<open>ls_head k n\<close> is \<open>LRANGE k 0 (n - 1)\<close>, \<open>ls_trim k n\<close> is \<open>LTRIM k n -1\<close>.\<close>

definition list_laws :: "'w list_store \<Rightarrow> ('w \<Rightarrow> string \<Rightarrow> chunk list) \<Rightarrow> bool" where
  "list_laws L view \<longleftrightarrow>
     (\<forall>k r w u w'. ls_rpush L k r w = (Some u, w') \<longrightarrow> view w' = (view w)(k := view w k @ [r])) \<and>
     (\<forall>k t w u w'. ls_expire L k t w = (Some u, w') \<longrightarrow> view w' = view w) \<and>
     (\<forall>k w n w'. ls_llen L k w = (Some n, w') \<longrightarrow> n = length (view w k) \<and> view w' = view w) \<and>
     (\<forall>k n w cs w'. ls_head L k n w = (Some cs, w') \<longrightarrow> cs = take n (view w k) \<and> view w' = view w) \<and>
     (\<forall>k n w u w'. ls_trim L k n w = (Some u, w') \<longrightarrow> view w' = (view w)(k := drop n (view w k))) \<and>
     (\<forall>k w cs w'. ls_all L k w = (Some cs, w') \<longrightarrow> cs = view w k \<and> view w' = view w) \<and>
     (\<forall>k w u w'. ls_delete L k w = (Some u, w') \<longrightarrow> view w' = (view w)(k := []))"

record stream_buffer =
  sb_prefix :: string
  sb_ttl_seconds :: time
  sb_overflow :: bool
  sb_overflow_max_chunks :: nat
  sb_available :: bool
  sb_memory :: "string \<Rightarrow> (chunk list \<times> time) option"
  sb_seq :: nat
  sb_rows :: "overflow_row list"

definition sb_key :: "stream_buffer \<Rightarrow> scope \<Rightarrow> string" where
  "sb_key sb sc = (case sc of (tenant, tid, sid) \<Rightarrow> sb_prefix sb @ tenant @ '':'' @ tid @ '':'' @ sid)"

subsection \<open>Overflow table\<close>

definition row_of :: "scope \<Rightarrow> chunk \<Rightarrow> overflow_row" where
  "row_of sc c = \<lparr>ov_scope = sc, ov_seq = ck_id c, ov_event_type = ck_type c, ov_payload = ck_data c\<rparr>"

definition chunk_of :: "overflow_row \<Rightarrow> chunk" where
  "chunk_of r = \<lparr>ck_id = ov_seq r, ck_type = ov_event_type r, ck_data = ov_payload r\<rparr>"

definition merge_row :: "overflow_row \<Rightarrow> overflow_row list \<Rightarrow> overflow_row list" where
  "merge_row r rows =
     (if list_ex (\<lambda>x. ov_scope x = ov_scope r \<and> ov_seq x = ov_seq r) rows
      then map (\<lambda>x. if ov_scope x = ov_scope r \<and> ov_seq x = ov_seq r then r else x) rows
      else rows @ [r])"

definition write_chunks :: "scope \<Rightarrow> chunk list \<Rightarrow> overflow_row list \<Rightarrow> overflow_row list" where
  "write_chunks sc cs rows = fold (\<lambda>c. merge_row (row_of sc c)) cs rows"

definition read_chunks :: "scope \<Rightarrow> nat \<Rightarrow> overflow_row list \<Rightarrow> chunk list" where
  "read_chunks sc after rows = map chunk_of (py_sorted ov_seq (filter (\<lambda>r. ov_scope r = sc \<and> after < ov_seq r) rows))"

definition clear_chunks :: "scope \<Rightarrow> overflow_row list \<Rightarrow> overflow_row list" where
  "clear_chunks sc rows = filter (\<lambda>r. ov_scope r \<noteq> sc) rows"

subsection \<open>Process memory\<close>

definition mem_get :: "string \<Rightarrow> time \<Rightarrow> stream_buffer \<Rightarrow> (chunk list \<times> time) option \<times> stream_buffer" where
  "mem_get key now sb = (case sb_memory sb key of
     None \<Rightarrow> (None, sb)
   | Some (es, ttl) \<Rightarrow> if ttl < now then (None, sb\<lparr>sb_memory := (sb_memory sb)(key := None)\<rparr>) else (Some (es, ttl), sb))"

definition mem_append :: "string \<Rightarrow> chunk \<Rightarrow> time \<Rightarrow> stream_buffer \<Rightarrow> stream_buffer" where
  "mem_append key r now sb =
     (let (entry, sb1) = mem_get key now sb;
          es = (case entry of None \<Rightarrow> [] | Some (es, _) \<Rightarrow> es)
      in sb1\<lparr>sb_memory := (sb_memory sb1)(key \<mapsto> (es @ [r], now + sb_ttl_seconds sb1))\<rparr>)"

definition mem_read :: "string \<Rightarrow> nat \<Rightarrow> time \<Rightarrow> stream_buffer \<Rightarrow> chunk list \<times> stream_buffer" where
  "mem_read key after now sb = (case mem_get key now sb of
     (None, sb1) \<Rightarrow> ([], sb1)
   | (Some (es, _), sb1) \<Rightarrow> (filter (\<lambda>r. after < ck_id r) es, sb1))"

subsection \<open>Operations\<close>

definition spill_overflow :: "bool \<Rightarrow> scope \<Rightarrow> chunk list \<Rightarrow> stream_buffer \<Rightarrow> stream_buffer" where
  "spill_overflow up sc spills sb =
     (if spills = [] \<or> \<not> sb_overflow sb \<or> \<not> up then sb else sb\<lparr>sb_rows := write_chunks sc spills (sb_rows sb)\<rparr>)"

definition mark_redis_down :: "stream_buffer \<Rightarrow> stream_buffer" where
  "mark_redis_down sb = sb\<lparr>sb_available := False\<rparr>"

text \<open>The commands of \<open>append\<close>; what they return is what has to be spilled.\<close>

definition redis_append :: "'w list_store \<Rightarrow> string \<Rightarrow> time \<Rightarrow> nat \<Rightarrow> chunk \<Rightarrow> (chunk list, 'w) rcmd" where
  "redis_append L key ttl cap r =
     rbind (ls_rpush L key r) (\<lambda>_.
     rbind (ls_expire L key ttl) (\<lambda>_.
       if cap = 0 then rret []
       else rbind (ls_llen L key) (\<lambda>size.
         if cap < size
         then rbind (ls_head L key (size - cap)) (\<lambda>cs. rbind (ls_trim L key (size - cap)) (\<lambda>_. rret cs))
         else rret [])))"

definition memory_cap :: "string \<Rightarrow> time \<Rightarrow> stream_buffer \<Rightarrow> chunk list \<times> stream_buffer" where
  "memory_cap key now sb = (case mem_get key now sb of
     (Some (es, ttl), sb1) \<Rightarrow>
       if 0 < sb_overflow_max_chunks sb \<and> sb_overflow_max_chunks sb < length es
       then let n = length es - sb_overflow_max_chunks sb
            in (take n es, sb1\<lparr>sb_memory := (sb_memory sb1)(key \<mapsto> (drop n es, ttl))\<rparr>)
       else ([], sb1)
   | (None, sb1) \<Rightarrow> ([], sb1))"

definition sb_append ::
  "'w list_store \<Rightarrow> bool \<Rightarrow> time \<Rightarrow> scope \<Rightarrow> string \<Rightarrow> json \<Rightarrow> stream_buffer \<times> 'w \<Rightarrow> nat \<times> stream_buffer \<times> 'w" where
  "sb_append L up now sc event_type payload s =
     (let sb = (fst s)\<lparr>sb_seq := sb_seq (fst s) + 1\<rparr>;
          seq = sb_seq sb; r = \<lparr>ck_id = seq, ck_type = event_type, ck_data = payload\<rparr>; key = sb_key sb sc
      in if \<not> sb_available sb
         then let (spills, sb2) = memory_cap key now (mem_append key r now sb)
              in (seq, spill_overflow up sc spills sb2, snd s)
         else case redis_append L key (sb_ttl_seconds sb) (sb_overflow_max_chunks sb) r (snd s) of
                (Some spills, w) \<Rightarrow> (seq, spill_overflow up sc spills sb, w)
              | (None, w) \<Rightarrow> (seq, mem_append key r now (mark_redis_down sb), w))"

definition redis_replay :: "'w list_store \<Rightarrow> string \<Rightarrow> time \<Rightarrow> (chunk list, 'w) rcmd" where
  "redis_replay L key ttl =
     rbind (ls_all L key) (\<lambda>raw. if raw \<noteq> [] then rbind (ls_expire L key ttl) (\<lambda>_. rret raw) else rret raw)"

text \<open>\<open>seen\<close>: a dictionary from the overflow chunks, to which the hot ones are added where their id is new.\<close>

definition merge_seen :: "chunk list \<Rightarrow> chunk list \<Rightarrow> chunk list" where
  "merge_seen overflow hot =
     (let seen = fold (\<lambda>r. AList.update (ck_id r) r) overflow [];
          seen2 = fold (\<lambda>r d. if map_of d (ck_id r) = None then d @ [(ck_id r, r)] else d) hot seen
      in py_sorted ck_id (map snd seen2))"

definition sb_replay ::
  "'w list_store \<Rightarrow> bool \<Rightarrow> time \<Rightarrow> scope \<Rightarrow> nat \<Rightarrow> stream_buffer \<times> 'w \<Rightarrow> chunk list \<times> stream_buffer \<times> 'w" where
  "sb_replay L up now sc after s =
     (let sb = fst s; key = sb_key sb sc;
          (hot, sb1, w1) =
            (if \<not> sb_available sb then (let (es, sb1) = mem_read key after now sb in (es, sb1, snd s))
             else case redis_replay L key (sb_ttl_seconds sb) (snd s) of
                    (Some es, w1) \<Rightarrow> (es, sb, w1)
                  | (None, w1) \<Rightarrow> (let (es, sb1) = mem_read key after now (mark_redis_down sb) in (es, sb1, w1)));
          overflow = (if sb_overflow sb1 \<and> up then read_chunks sc after (sb_rows sb1) else [])
      in (merge_seen overflow hot, sb1, w1))"

definition get_terminal ::
  "'w list_store \<Rightarrow> bool \<Rightarrow> time \<Rightarrow> scope \<Rightarrow> stream_buffer \<times> 'w \<Rightarrow> chunk option \<times> stream_buffer \<times> 'w" where
  "get_terminal L up now sc s =
     (let (chunks, s') = sb_replay L up now sc 0 s
      in (find (\<lambda>r. ck_type r \<in> {''result'', ''error''}) (rev chunks), s'))"

definition sb_clear :: "'w list_store \<Rightarrow> bool \<Rightarrow> scope \<Rightarrow> stream_buffer \<times> 'w \<Rightarrow> bool \<times> stream_buffer \<times> 'w" where
  "sb_clear L up sc s =
     (let sb = fst s; key = sb_key sb sc;
          forget = (\<lambda>sb. sb\<lparr>sb_memory := (sb_memory sb)(key := None)\<rparr>);
          (ok, sb1, w1) =
            (if \<not> sb_available sb then (True, forget sb, snd s)
             else case ls_delete L key (snd s) of
                    (Some _, w1) \<Rightarrow> (True, forget sb, w1)
                  | (None, w1) \<Rightarrow> (False, forget (mark_redis_down sb), w1))
      in if \<not> sb_overflow sb1 then (ok, sb1, w1)
         else if up then (ok, sb1\<lparr>sb_rows := clear_chunks sc (sb_rows sb1)\<rparr>, w1)
         else (False, sb1, w1))"

text \<open>The events of one stream, in the order in which they are emitted, each at its time.\<close>

fun append_all :: "'w list_store \<Rightarrow> scope \<Rightarrow> (time \<times> string \<times> json) list \<Rightarrow> stream_buffer \<times> 'w \<Rightarrow> nat list \<times> stream_buffer \<times> 'w" where
  "append_all L sc [] s = ([], s)"
| "append_all L sc ((now, ty, p) # es) s =
     (case sb_append L True now sc ty p s of
        (i, s1) \<Rightarrow> (case append_all L sc es s1 of (is, s2) \<Rightarrow> (i # is, s2)))"

section \<open>Lemmas\<close>

lemma list_lawsD:
  assumes "list_laws L view"
  shows "ls_rpush L k r w = (Some u, w') \<Longrightarrow> view w' = (view w)(k := view w k @ [r])"
    and "ls_expire L k t w = (Some u, w') \<Longrightarrow> view w' = view w"
    and "ls_llen L k w = (Some n, w') \<Longrightarrow> n = length (view w k) \<and> view w' = view w"
    and "ls_head L k m w = (Some cs, w') \<Longrightarrow> cs = take m (view w k) \<and> view w' = view w"
    and "ls_trim L k m w = (Some u, w') \<Longrightarrow> view w' = (view w)(k := drop m (view w k))"
    and "ls_all L k w = (Some cs, w') \<Longrightarrow> cs = view w k \<and> view w' = view w"
    and "ls_delete L k w = (Some u, w') \<Longrightarrow> view w' = (view w)(k := [])"
  using assms unfolding list_laws_def by metis+

text \<open>Both tiers move the oldest chunks out and keep the rest: nothing is lost on the way.\<close>

lemma redis_append_keeps:
  assumes "list_laws L view" "redis_append L key ttl cap r w = (Some spills, w')"
  shows "spills @ view w' key = view w key @ [r]"
proof -
  note laws = list_lawsD [OF assms(1)]
  obtain w1 w2 where 1: "ls_rpush L key r w = (Some (), w1)" "ls_expire L key ttl w1 = (Some (), w2)"
    and rest: "(if cap = 0 then rret []
       else rbind (ls_llen L key) (\<lambda>size.
         if cap < size
         then rbind (ls_head L key (size - cap)) (\<lambda>cs. rbind (ls_trim L key (size - cap)) (\<lambda>_. rret cs))
         else rret [])) w2 = (Some spills, w')"
    using assms(2) by (auto simp: redis_append_def rbind_Some_iff)
  have v: "view w2 key = view w key @ [r]" using laws(1,2) 1 by auto
  show ?thesis
  proof (cases "cap = 0")
    case False
    with rest obtain n w3 where 3: "ls_llen L key w2 = (Some n, w3)"
      and rest': "(if cap < n then rbind (ls_head L key (n - cap)) (\<lambda>cs. rbind (ls_trim L key (n - cap)) (\<lambda>_. rret cs)) else rret []) w3 = (Some spills, w')"
      by (auto simp: rbind_Some_iff)
    have v3: "view w3 = view w2" using laws(3) [OF 3] by simp
    show ?thesis
    proof (cases "cap < n")
      case True
      with rest' obtain cs w4 where 4: "ls_head L key (n - cap) w3 = (Some cs, w4)" "ls_trim L key (n - cap) w4 = (Some (), w')" "spills = cs"
        by (auto simp: rbind_Some_iff rret_iff)
      then have "spills = take (n - cap) (view w2 key)" "view w' key = drop (n - cap) (view w2 key)"
        using laws(4) [OF 4(1)] laws(5) [OF 4(2)] v3 by simp_all
      then have "spills @ view w' key = view w2 key" by (simp only: append_take_drop_id)
      then show ?thesis using v by (simp only:)
    qed (use rest' v v3 in \<open>simp add: rret_iff\<close>)
  qed (use rest v in \<open>simp add: rret_iff\<close>)
qed

definition mem_chunks :: "stream_buffer \<Rightarrow> string \<Rightarrow> time \<Rightarrow> chunk list" where
  "mem_chunks sb key now = (case sb_memory sb key of Some (es, ttl) \<Rightarrow> if ttl < now then [] else es | None \<Rightarrow> [])"

lemma memory_append_keeps:
  assumes "memory_cap key now (mem_append key r now sb) = (spills, sb')" "0 \<le> sb_ttl_seconds sb"
    and "t \<le> now + sb_ttl_seconds sb"
  shows "spills @ mem_chunks sb' key t = mem_chunks sb key now @ [r]"
    and "sb_rows sb' = sb_rows sb \<and> sb_overflow sb' = sb_overflow sb \<and> sb_available sb' = sb_available sb
       \<and> sb_seq sb' = sb_seq sb \<and> sb_ttl_seconds sb' = sb_ttl_seconds sb \<and> sb_prefix sb' = sb_prefix sb"
  using assms
  by (auto simp: memory_cap_def mem_append_def mem_get_def mem_chunks_def Let_def split: option.splits if_splits prod.splits)

lemma chunk_row [simp]: "chunk_of (row_of sc c) = c" "ov_scope (row_of sc c) = sc" "ov_seq (row_of sc c) = ck_id c"
  by (simp_all add: chunk_of_def row_of_def)

lemma write_chunks_new:
  assumes "distinct (map ck_id cs)" "\<And>c r. c \<in> set cs \<Longrightarrow> r \<in> set rows \<Longrightarrow> ov_scope r = sc \<Longrightarrow> ov_seq r \<noteq> ck_id c"
  shows "write_chunks sc cs rows = rows @ map (row_of sc) cs"
  using assms
proof (induction cs arbitrary: rows)
  case (Cons c cs)
  have "merge_row (row_of sc c) rows = rows @ [row_of sc c]"
    using Cons.prems(2) [of c] by (auto simp: merge_row_def row_of_def list_ex_iff)
  moreover have "write_chunks sc cs (rows @ [row_of sc c]) = (rows @ [row_of sc c]) @ map (row_of sc) cs"
  proof (rule Cons.IH)
    fix c' r
    assume "c' \<in> set cs" "r \<in> set (rows @ [row_of sc c])" "ov_scope r = sc"
    then show "ov_seq r \<noteq> ck_id c'" using Cons.prems(2) [of c' r] Cons.prems(1) by (cases "r = row_of sc c") auto
  qed (use Cons.prems(1) in simp)
  ultimately show ?case by (simp add: write_chunks_def)
qed (simp add: write_chunks_def)

lemma ck_id_chunk_of [simp]: "ck_id (chunk_of r) = ov_seq r"
  by (simp add: chunk_of_def)

lemma sorted_wrt_less_distinct: "sorted_wrt (<) (xs :: nat list) \<Longrightarrow> distinct xs"
  by (simp add: strict_sorted_iff)

lemma fold_update_new:
  assumes "distinct (map ck_id cs)" "\<And>c. c \<in> set cs \<Longrightarrow> ck_id c \<notin> fst ` set d"
  shows "fold (\<lambda>r. AList.update (ck_id r) r) cs d = d @ map (\<lambda>c. (ck_id c, c)) cs"
  using assms
proof (induction cs arbitrary: d)
  case (Cons c cs)
  have "AList.update (ck_id c) c d = d @ [(ck_id c, c)]"
    using Cons.prems(2) [of c] by (induction d) auto
  moreover have "fold (\<lambda>r. AList.update (ck_id r) r) cs (d @ [(ck_id c, c)]) = (d @ [(ck_id c, c)]) @ map (\<lambda>c. (ck_id c, c)) cs"
    using Cons.prems by (intro Cons.IH) (auto simp: image_iff)
  ultimately show ?case by simp
qed simp

lemma fold_setdefault_new:
  assumes "distinct (map ck_id cs)" "\<And>c. c \<in> set cs \<Longrightarrow> ck_id c \<notin> fst ` set d"
  shows "fold (\<lambda>r d. if map_of d (ck_id r) = None then d @ [(ck_id r, r)] else d) cs d = d @ map (\<lambda>c. (ck_id c, c)) cs"
  using assms
proof (induction cs arbitrary: d)
  case (Cons c cs)
  then have "map_of d (ck_id c) = None" by (simp add: map_of_eq_None_iff)
  moreover have "fold (\<lambda>r d. if map_of d (ck_id r) = None then d @ [(ck_id r, r)] else d) cs (d @ [(ck_id c, c)])
      = (d @ [(ck_id c, c)]) @ map (\<lambda>c. (ck_id c, c)) cs"
    using Cons.prems by (intro Cons.IH) (auto simp: image_iff)
  ultimately show ?case by simp
qed simp

lemma merge_seen_ascending:
  assumes "sorted_wrt (<) (map ck_id (ov @ hot))"
  shows "merge_seen ov hot = ov @ hot"
proof -
  have d: "distinct (map ck_id (ov @ hot))" using assms by (rule sorted_wrt_less_distinct)
  then have "fold (\<lambda>r. AList.update (ck_id r) r) ov [] = map (\<lambda>c. (ck_id c, c)) ov" using fold_update_new [of ov "[]"] by simp
  moreover have "fold (\<lambda>r d. if map_of d (ck_id r) = None then d @ [(ck_id r, r)] else d) hot (map (\<lambda>c. (ck_id c, c)) ov)
      = map (\<lambda>c. (ck_id c, c)) (ov @ hot)"
    using d fold_setdefault_new [of hot "map (\<lambda>c. (ck_id c, c)) ov"] by (auto simp: image_iff)
  ultimately show ?thesis using assms by (simp add: merge_seen_def o_def py_sorted_ascending)
qed

section \<open>What a stream holds\<close>

text \<open>The chunks of a stream: those in the table, then those in the tier in use.\<close>

definition hot_chunks :: "('w \<Rightarrow> string \<Rightarrow> chunk list) \<Rightarrow> time \<Rightarrow> scope \<Rightarrow> stream_buffer \<times> 'w \<Rightarrow> chunk list" where
  "hot_chunks view now sc s =
     (if sb_available (fst s) then view (snd s) (sb_key (fst s) sc) else mem_chunks (fst s) (sb_key (fst s) sc) now)"

definition cold_chunks :: "scope \<Rightarrow> stream_buffer \<Rightarrow> chunk list" where
  "cold_chunks sc sb = map chunk_of (filter (\<lambda>r. ov_scope r = sc) (sb_rows sb))"

definition stream_holds :: "('w \<Rightarrow> string \<Rightarrow> chunk list) \<Rightarrow> time \<Rightarrow> scope \<Rightarrow> stream_buffer \<times> 'w \<Rightarrow> chunk list \<Rightarrow> bool" where
  "stream_holds view now sc s recs \<longleftrightarrow>
     cold_chunks sc (fst s) @ hot_chunks view now sc s = recs \<and> sorted_wrt (<) (map ck_id recs)
     \<and> (\<forall>r\<in>set recs. 0 < ck_id r \<and> ck_id r \<le> sb_seq (fst s))"

lemma cold_spill:
  assumes "sb_overflow sb" "sorted_wrt (<) (map ck_id (cold_chunks sc sb @ spills))"
  shows "cold_chunks sc (spill_overflow True sc spills sb) = cold_chunks sc sb @ spills"
proof -
  have d: "distinct (map ck_id (cold_chunks sc sb @ spills))" using assms(2) by (rule sorted_wrt_less_distinct)
  have "write_chunks sc spills (sb_rows sb) = sb_rows sb @ map (row_of sc) spills"
    using d by (intro write_chunks_new) (auto simp: cold_chunks_def image_iff)
  then show ?thesis using assms(1) by (auto simp: spill_overflow_def cold_chunks_def filter_map o_def)
qed

lemma spill_fields [simp]:
  "sb_available (spill_overflow up sc cs sb) = sb_available sb" "sb_memory (spill_overflow up sc cs sb) = sb_memory sb"
  "sb_seq (spill_overflow up sc cs sb) = sb_seq sb" "sb_overflow (spill_overflow up sc cs sb) = sb_overflow sb"
  "sb_prefix (spill_overflow up sc cs sb) = sb_prefix sb" "sb_ttl_seconds (spill_overflow up sc cs sb) = sb_ttl_seconds sb"
  "sb_key (spill_overflow up sc cs sb) sc' = sb_key sb sc'" "mem_chunks (spill_overflow up sc cs sb) k t = mem_chunks sb k t"
  by (simp_all add: spill_overflow_def sb_key_def mem_chunks_def)

lemma mem_append_available [simp]: "sb_available (mem_append key r now sb) = sb_available sb"
  by (auto simp: mem_append_def mem_get_def Let_def split: option.split prod.split)

lemma seq_fields [simp]:
  "sb_key (sb\<lparr>sb_seq := n\<rparr>) sc = sb_key sb sc" "cold_chunks sc (sb\<lparr>sb_seq := n\<rparr>) = cold_chunks sc sb"
  "mem_chunks (sb\<lparr>sb_seq := n\<rparr>) k t = mem_chunks sb k t"
  by (simp_all add: sb_key_def cold_chunks_def mem_chunks_def)

text \<open>An append in the tier that is in use and stays in use: some chunks are spilled, the rest stays hot.\<close>

lemma append_splits:
  assumes "list_laws L view" "0 \<le> sb_ttl_seconds sb" "sb_append L up now sc ty p (sb, w) = (i, sb', w')"
    and "sb_available sb' = sb_available sb" "t \<le> now + sb_ttl_seconds sb"
  shows "i = sb_seq sb + 1 \<and> (\<exists>spills sb2. sb' = spill_overflow up sc spills sb2
      \<and> spills @ hot_chunks view t sc (sb', w') = hot_chunks view now sc (sb, w) @ [\<lparr>ck_id = i, ck_type = ty, ck_data = p\<rparr>]
      \<and> cold_chunks sc sb2 = cold_chunks sc sb \<and> sb_overflow sb2 = sb_overflow sb \<and> sb_seq sb2 = i
      \<and> sb_ttl_seconds sb2 = sb_ttl_seconds sb \<and> sb_prefix sb2 = sb_prefix sb)"
proof -
  let ?sb = "sb\<lparr>sb_seq := sb_seq sb + 1\<rparr>" and ?r = "\<lparr>ck_id = sb_seq sb + 1, ck_type = ty, ck_data = p\<rparr>"
  let ?key = "sb_key sb sc"
  show ?thesis
  proof (cases "sb_available sb")
    case True
    obtain res w1 where m: "redis_append L ?key (sb_ttl_seconds sb) (sb_overflow_max_chunks sb) ?r w = (res, w1)" by fastforce
    then have e: "sb_append L up now sc ty p (sb, w) = (case res of
        Some spills \<Rightarrow> (sb_seq sb + 1, spill_overflow up sc spills ?sb, w1)
      | None \<Rightarrow> (sb_seq sb + 1, mem_append ?key ?r now (mark_redis_down ?sb), w1))"
      using True by (simp add: sb_append_def Let_def split: option.split)
    have "res \<noteq> None" using e assms(3,4) True by (cases res) (auto simp: mark_redis_down_def)
    then obtain spills where s: "res = Some spills" "sb' = spill_overflow up sc spills ?sb" "i = sb_seq sb + 1" "w' = w1"
      using e assms(3) by auto
    show ?thesis
      using s redis_append_keeps [OF assms(1)] m True
      by (intro conjI exI [of _ spills] exI [of _ ?sb]) (auto simp: hot_chunks_def)
  next
    case False
    obtain spills sb2 where m: "memory_cap ?key now (mem_append ?key ?r now ?sb) = (spills, sb2)" by fastforce
    then have s: "sb' = spill_overflow up sc spills sb2" "i = sb_seq sb + 1"
      using assms(3) False by (auto simp: sb_append_def Let_def)
    have keep: "spills @ mem_chunks sb2 ?key t = mem_chunks sb ?key now @ [?r]"
      and f: "sb_rows sb2 = sb_rows sb" "sb_overflow sb2 = sb_overflow sb" "sb_available sb2 = sb_available sb"
        "sb_seq sb2 = sb_seq sb + 1" "sb_ttl_seconds sb2 = sb_ttl_seconds sb" "sb_prefix sb2 = sb_prefix sb"
      using memory_append_keeps [OF m, of t] assms(2,5) by auto
    have "sb_key sb2 sc = ?key" using f by (simp add: sb_key_def)
    then show ?thesis
      using s keep f False by (intro conjI exI [of _ spills] exI [of _ sb2]) (auto simp: hot_chunks_def cold_chunks_def)
  qed
qed

lemma append_holds:
  assumes "list_laws L view" "sb_overflow sb" "0 \<le> sb_ttl_seconds sb" "stream_holds view now sc (sb, w) recs"
    and "sb_append L True now sc ty p (sb, w) = (i, sb', w')" "sb_available sb' = sb_available sb" "t \<le> now + sb_ttl_seconds sb"
  shows "stream_holds view t sc (sb', w') (recs @ [\<lparr>ck_id = i, ck_type = ty, ck_data = p\<rparr>])"
    and "i = sb_seq sb + 1 \<and> sb_seq sb' = i \<and> sb_overflow sb' \<and> sb_ttl_seconds sb' = sb_ttl_seconds sb \<and> sb_prefix sb' = sb_prefix sb"
proof -
  let ?r = "\<lparr>ck_id = i, ck_type = ty, ck_data = p\<rparr>"
  obtain spills sb2 where s: "sb' = spill_overflow True sc spills sb2" "i = sb_seq sb + 1"
    "spills @ hot_chunks view t sc (sb', w') = hot_chunks view now sc (sb, w) @ [?r]"
    "cold_chunks sc sb2 = cold_chunks sc sb" "sb_overflow sb2" "sb_seq sb2 = i" "sb_ttl_seconds sb2 = sb_ttl_seconds sb" "sb_prefix sb2 = sb_prefix sb"
    using append_splits [OF assms(1,3,5,6,7)] assms(2) by auto
  have old: "cold_chunks sc sb @ hot_chunks view now sc (sb, w) = recs" "sorted_wrt (<) (map ck_id recs)"
    "\<And>r. r \<in> set recs \<Longrightarrow> 0 < ck_id r \<and> ck_id r \<le> sb_seq sb"
    using assms(4) by (auto simp: stream_holds_def)
  have asc: "sorted_wrt (<) (map ck_id (recs @ [?r]))" using old(2,3) s(2) by (fastforce simp: sorted_wrt_append)
  have all: "(cold_chunks sc sb @ spills) @ hot_chunks view t sc (sb', w') = recs @ [?r]" using s(3) old(1) by (metis append.assoc)
  then have "sorted_wrt (<) (map ck_id (cold_chunks sc sb2 @ spills))"
    using asc s(4) by (metis map_append sorted_wrt_append)
  then have "cold_chunks sc sb' = cold_chunks sc sb @ spills" using cold_spill [OF s(5)] s(1,4) by simp
  then have "cold_chunks sc sb' @ hot_chunks view t sc (sb', w') = recs @ [?r]" using all by simp
  moreover have "sb_seq sb' = i" using s(1,6) by simp
  ultimately show "stream_holds view t sc (sb', w') (recs @ [?r])"
    using asc old(3) s(2) by (fastforce simp: stream_holds_def)
  show "i = sb_seq sb + 1 \<and> sb_seq sb' = i \<and> sb_overflow sb' \<and> sb_ttl_seconds sb' = sb_ttl_seconds sb \<and> sb_prefix sb' = sb_prefix sb"
    using s by simp
qed

section \<open>Replay\<close>

lemma read_chunks_cold:
  assumes "sorted_wrt (<) (map ck_id (cold_chunks sc sb))"
  shows "read_chunks sc after (sb_rows sb) = filter (\<lambda>c. after < ck_id c) (cold_chunks sc sb)"
proof -
  have "filter (\<lambda>r. ov_scope r = sc \<and> after < ov_seq r) (sb_rows sb) = filter (\<lambda>r. after < ov_seq r) (filter (\<lambda>r. ov_scope r = sc) (sb_rows sb))"
    by (simp add: conj_commute)
  moreover have "sorted_wrt (<) (map ov_seq (filter (\<lambda>r. after < ov_seq r) (filter (\<lambda>r. ov_scope r = sc) (sb_rows sb))))"
  proof -
    have "sorted_wrt (<) (map ov_seq (filter (\<lambda>r. ov_scope r = sc) (sb_rows sb)))"
      using assms by (simp add: cold_chunks_def o_def)
    then show ?thesis unfolding sorted_wrt_map by (rule sorted_wrt_filter)
  qed
  ultimately show ?thesis by (simp add: read_chunks_def py_sorted_ascending cold_chunks_def filter_map o_def)
qed

lemma mem_read_chunks: "mem_read key after now sb = (filter (\<lambda>r. after < ck_id r) (mem_chunks sb key now), snd (mem_get key now sb))"
  by (auto simp: mem_read_def mem_get_def mem_chunks_def split: option.split)

lemma mem_get_fields:
  "sb_rows (snd (mem_get key now sb)) = sb_rows sb" "sb_overflow (snd (mem_get key now sb)) = sb_overflow sb"
  "sb_available (snd (mem_get key now sb)) = sb_available sb"
  by (auto simp: mem_get_def split: option.split)

lemma replay_holds:
  assumes "list_laws L view" "sb_overflow sb" "stream_holds view now sc (sb, w) recs"
    and "sb_replay L True now sc after (sb, w) = (out, sb', w')" "sb_available sb' = sb_available sb"
  shows "out = (if sb_available sb
      then filter (\<lambda>r. after < ck_id r) (cold_chunks sc sb) @ hot_chunks view now sc (sb, w)
      else filter (\<lambda>r. after < ck_id r) recs)"
proof -
  have old: "cold_chunks sc sb @ hot_chunks view now sc (sb, w) = recs" "sorted_wrt (<) (map ck_id recs)"
    using assms(3) by (auto simp: stream_holds_def)
  have asc: "sorted_wrt (<) (map ck_id (cold_chunks sc sb))" "sorted_wrt (<) (map ck_id (hot_chunks view now sc (sb, w)))"
    "\<And>c h. c \<in> set (cold_chunks sc sb) \<Longrightarrow> h \<in> set (hot_chunks view now sc (sb, w)) \<Longrightarrow> ck_id c < ck_id h"
    using old(2) unfolding old(1) [symmetric] by (auto simp: sorted_wrt_append)
  have merged: "merge_seen (filter (\<lambda>r. after < ck_id r) (cold_chunks sc sb)) (filter P (hot_chunks view now sc (sb, w)))
      = filter (\<lambda>r. after < ck_id r) (cold_chunks sc sb) @ filter P (hot_chunks view now sc (sb, w))" for P
    using asc by (intro merge_seen_ascending) (auto simp: sorted_wrt_append sorted_wrt_map sorted_wrt_filter)
  show ?thesis
  proof (cases "sb_available sb")
    case True
    obtain res w1 where m: "redis_replay L (sb_key sb sc) (sb_ttl_seconds sb) w = (res, w1)" by fastforce
    then have "res \<noteq> None"
      using assms(4,5) True by (cases res) (auto simp: sb_replay_def Let_def mem_read_chunks mem_get_fields mark_redis_down_def)
    then obtain es where es: "redis_replay L (sb_key sb sc) (sb_ttl_seconds sb) w = (Some es, w1)" using m by auto
    then have "es = view w (sb_key sb sc)" using list_lawsD(6) [OF assms(1)] by (auto simp: redis_replay_def rbind_Some_iff rret_iff split: if_splits)
    then have "out = merge_seen (filter (\<lambda>r. after < ck_id r) (cold_chunks sc sb)) (hot_chunks view now sc (sb, w))"
      using assms(2,4) True es read_chunks_cold [OF asc(1)] by (auto simp: sb_replay_def Let_def hot_chunks_def)
    then show ?thesis using merged [of "\<lambda>_. True"] True by simp
  next
    case False
    then have "out = merge_seen (filter (\<lambda>r. after < ck_id r) (cold_chunks sc sb)) (filter (\<lambda>r. after < ck_id r) (hot_chunks view now sc (sb, w)))"
      using assms(2,4) read_chunks_cold [OF asc(1)] by (auto simp: sb_replay_def Let_def hot_chunks_def mem_read_chunks mem_get_fields)
    then show ?thesis using merged [of "\<lambda>r. after < ck_id r"] old(1) False by auto
  qed
qed

lemma append_available: "sb_append L up now sc ty p s = (i, s') \<Longrightarrow> sb_available (fst s') \<Longrightarrow> sb_available (fst s)"
proof -
  have "\<not> sb_available (fst (snd (sb_append L up now sc ty p s)))" if "\<not> sb_available (fst s)"
    using that by (auto simp: sb_append_def Let_def memory_cap_def mem_get_def split: prod.splits option.splits)
  then show "sb_append L up now sc ty p s = (i, s') \<Longrightarrow> sb_available (fst s') \<Longrightarrow> sb_available (fst s)" by fastforce
qed

lemma append_all_available: "append_all L sc es s = (is, s') \<Longrightarrow> sb_available (fst s') \<Longrightarrow> sb_available (fst s)"
  by (induction L sc es s arbitrary: "is" s' rule: append_all.induct) (fastforce split: prod.splits dest: append_available)+

definition chunks_for :: "nat list \<Rightarrow> (time \<times> string \<times> json) list \<Rightarrow> chunk list" where
  "chunks_for is es = map2 (\<lambda>i (t, ty, p). \<lparr>ck_id = i, ck_type = ty, ck_data = p\<rparr>) is es"

lemma append_all_holds:
  assumes "list_laws L view" "sb_overflow sb" "0 \<le> sb_ttl_seconds sb"
    and "\<And>t. t0 \<le> t \<Longrightarrow> t \<le> t0 + sb_ttl_seconds sb \<Longrightarrow> stream_holds view t sc (sb, w) recs"
    and "\<And>e. e \<in> set es \<Longrightarrow> t0 \<le> fst e \<and> fst e \<le> t0 + sb_ttl_seconds sb"
    and "append_all L sc es (sb, w) = (is, sb', w')" "sb_available sb' = sb_available sb"
    and "t0 \<le> t" "t \<le> t0 + sb_ttl_seconds sb"
  shows "stream_holds view t sc (sb', w') (recs @ chunks_for is es) \<and> sb_overflow sb' \<and> length is = length es"
  using assms(2-9)
proof (induction es arbitrary: sb w recs "is")
  case Nil
  then show ?case by (auto simp: chunks_for_def)
next
  case (Cons e es)
  obtain now ty p where e: "e = (now, ty, p)" by (cases e)
  obtain i sb1 w1 where a: "sb_append L True now sc ty p (sb, w) = (i, sb1, w1)" by (metis prod_cases3)
  obtain js where r: "append_all L sc es (sb1, w1) = (js, sb', w')" and ids: "is = i # js"
    using Cons.prems(5) e a by (auto split: prod.splits)
  have av: "sb_available sb1 = sb_available sb"
    using append_all_available [OF r] append_available [OF a] Cons.prems(6) by auto
  have now: "t0 \<le> now" "now \<le> t0 + sb_ttl_seconds sb" using Cons.prems(4) e by force+
  note h = append_holds [OF assms(1) Cons.prems(1,2) Cons.prems(3) [OF now] a av]
  have f: "sb_overflow sb1" "sb_ttl_seconds sb1 = sb_ttl_seconds sb" using h(2) [of now] Cons.prems(2) by auto
  have "stream_holds view t sc (sb', w') ((recs @ [\<lparr>ck_id = i, ck_type = ty, ck_data = p\<rparr>]) @ chunks_for js es) \<and> sb_overflow sb' \<and> length js = length es"
  proof (rule Cons.IH)
    show "stream_holds view t sc (sb1, w1) (recs @ [\<lparr>ck_id = i, ck_type = ty, ck_data = p\<rparr>])"
      if "t0 \<le> t" "t \<le> t0 + sb_ttl_seconds sb1" for t
      using h(1) [of t] that f(2) now by simp
  qed (use f Cons.prems av r in auto)
  then show ?case using ids e by (simp add: chunks_for_def)
qed

section \<open>Properties\<close>

definition fresh_stream :: "('w \<Rightarrow> string \<Rightarrow> chunk list) \<Rightarrow> scope \<Rightarrow> stream_buffer \<times> 'w \<Rightarrow> bool" where
  "fresh_stream view sc s \<longleftrightarrow> cold_chunks sc (fst s) = [] \<and> view (snd s) (sb_key (fst s) sc) = [] \<and> sb_memory (fst s) (sb_key (fst s) sc) = None"

lemma fresh_holds: "fresh_stream view sc s \<Longrightarrow> stream_holds view t sc s []"
  by (auto simp: fresh_stream_def stream_holds_def hot_chunks_def mem_chunks_def)

text \<open>C24: A stream that stays in one tier, Redis or process memory, with an overflow table behind it, replays from the start
  every event that was appended, in order and under the ids that were returned, whatever the cap on the hot tier.
\<close>

theorem stream_replays_everything:
  assumes "list_laws L view" "sb_overflow sb" "0 \<le> sb_ttl_seconds sb" "fresh_stream view sc (sb, w)"
    and "\<forall>e\<in>set es. t0 \<le> fst e \<and> fst e \<le> t0 + sb_ttl_seconds sb" "t0 \<le> now" "now \<le> t0 + sb_ttl_seconds sb"
    and "append_all L sc es (sb, w) = (ids, sb1, w1)" "sb_available sb1 = sb_available sb"
    and "sb_replay L True now sc 0 (sb1, w1) = (out, sb2, w2)" "sb_available sb2 = sb_available sb1"
  shows "out = chunks_for ids es \<and> length ids = length es \<and> sorted_wrt (<) (map ck_id out)"
proof -
  have h: "stream_holds view now sc (sb1, w1) (chunks_for ids es)" "sb_overflow sb1" "length ids = length es"
    using append_all_holds [OF assms(1,2,3) fresh_holds [OF assms(4)] _ assms(8,9,6,7)] assms(5) by auto
  then have c: "sorted_wrt (<) (map ck_id (chunks_for ids es))" "cold_chunks sc sb1 @ hot_chunks view now sc (sb1, w1) = chunks_for ids es"
      "\<forall>r\<in>set (chunks_for ids es). 0 < ck_id r"
    by (auto simp: stream_holds_def)
  moreover from c(2,3) have "\<forall>r\<in>set (cold_chunks sc sb1). 0 < ck_id r" by (metis Un_iff set_append)
  ultimately have "filter (\<lambda>r. 0 < ck_id r) (chunks_for ids es) = chunks_for ids es"
      "filter (\<lambda>r. 0 < ck_id r) (cold_chunks sc sb1) = cold_chunks sc sb1" "sorted_wrt (<) (map ck_id (chunks_for ids es))"
      "cold_chunks sc sb1 @ hot_chunks view now sc (sb1, w1) = chunks_for ids es"
    by (simp_all add: filter_id_conv)
  then show ?thesis using replay_holds [OF assms(1) h(2,1) assms(10,11)] h(3) by auto
qed

text \<open>
  A client that reconnects to a stream kept in process memory gets exactly the events after the last one it has seen.
\<close>

theorem memory_stream_resumes:
  assumes "list_laws L view" "sb_overflow sb" "0 \<le> sb_ttl_seconds sb" "fresh_stream view sc (sb, w)" "\<not> sb_available sb"
    and "\<forall>e\<in>set es. t0 \<le> fst e \<and> fst e \<le> t0 + sb_ttl_seconds sb" "t0 \<le> now" "now \<le> t0 + sb_ttl_seconds sb"
    and "append_all L sc es (sb, w) = (ids, sb1, w1)"
    and "sb_replay L True now sc after (sb1, w1) = (out, sb2, w2)"
  shows "out = filter (\<lambda>c. after < ck_id c) (chunks_for ids es)"
proof -
  have down: "\<not> sb_available sb1" using append_all_available [OF assms(9)] assms(5) by auto
  then have av: "sb_available sb1 = sb_available sb" "sb_available sb2 = sb_available sb1"
    using assms(5,10) by (auto simp: sb_replay_def Let_def mem_read_chunks mem_get_fields)
  have h: "stream_holds view now sc (sb1, w1) (chunks_for ids es)" "sb_overflow sb1"
    using append_all_holds [OF assms(1,2,3) fresh_holds [OF assms(4)] _ assms(9) av(1) assms(7,8)] assms(6) by auto
  show ?thesis using replay_holds [OF assms(1) h(2,1) assms(10) av(2)] down by simp
qed

subsection \<open>Witnesses\<close>

definition lists_view :: "(string \<times> chunk list) list \<Rightarrow> string \<Rightarrow> chunk list" where
  "lists_view w k = get_or (map_of w k) []"

definition sole_lists :: "(string \<times> chunk list) list list_store" where
  "sole_lists =
      \<lparr>ls_rpush = (\<lambda>k r w. (Some (), AList.update k (lists_view w k @ [r]) w)), ls_expire = (\<lambda>k t w. (Some (), w)),
       ls_llen = (\<lambda>k w. (Some (length (lists_view w k)), w)), ls_head = (\<lambda>k n w. (Some (take n (lists_view w k)), w)),
       ls_trim = (\<lambda>k n w. (Some (), AList.update k (drop n (lists_view w k)) w)), ls_all = (\<lambda>k w. (Some (lists_view w k), w)),
       ls_delete = (\<lambda>k w. (Some (), AList.update k [] w))\<rparr>"

lemma sole_lists_laws: "list_laws sole_lists lists_view"
  unfolding list_laws_def sole_lists_def
  by (auto simp: lists_view_def fun_eq_iff get_or_def update_conv)

definition demo_buffer :: "bool \<Rightarrow> stream_buffer" where
  "demo_buffer available = \<lparr>sb_prefix = ''b:'', sb_ttl_seconds = 3600, sb_overflow = True, sb_overflow_max_chunks = 2,
     sb_available = available, sb_memory = Map.empty, sb_seq = 0, sb_rows = []\<rparr>"

definition demo_events :: "(time \<times> string \<times> json) list" where
  "demo_events = [(0, ''token'', JStr ''a''), (1, ''token'', JStr ''b''), (2, ''token'', JStr ''c''), (3, ''result'', JStr ''abc'')]"

definition demo_scope :: scope where
  "demo_scope = (''t'', ''c'', ''s'')"

lemma demo_fresh: "fresh_stream lists_view demo_scope (demo_buffer b, [])"
  by (simp add: fresh_stream_def cold_chunks_def demo_buffer_def lists_view_def get_or_def)

theorem stream_replays_everything_witness:
  "map ck_id (fst (sb_replay sole_lists True 4 demo_scope 0 (snd (append_all sole_lists demo_scope demo_events (demo_buffer True, []))))) = [1, 2, 3, 4]"
proof -
  obtain ids sb1 w1 where a: "append_all sole_lists demo_scope demo_events (demo_buffer True, []) = (ids, sb1, w1)" by (metis prod_cases3)
  obtain out sb2 w2 where r: "sb_replay sole_lists True 4 demo_scope 0 (sb1, w1) = (out, sb2, w2)" by (metis prod_cases3)
  have "fst (append_all sole_lists demo_scope demo_events (demo_buffer True, [])) = [1, 2, 3, 4]"
    "sb_available (fst (snd (append_all sole_lists demo_scope demo_events (demo_buffer True, []))))"
    "sb_available (fst (snd (sb_replay sole_lists True 4 demo_scope 0 (snd (append_all sole_lists demo_scope demo_events (demo_buffer True, []))))))"
    by code_simp+
  then have "ids = [1, 2, 3, 4]" "sb_available sb1 = sb_available (demo_buffer True)" "sb_available sb2 = sb_available sb1"
    using a r by (simp_all add: demo_buffer_def)
  then show ?thesis
    using stream_replays_everything [OF sole_lists_laws _ _ demo_fresh, of True demo_events 0 4 ids sb1 w1 out sb2 w2] a r
    by (simp add: demo_events_def demo_buffer_def chunks_for_def)
qed

theorem memory_stream_resumes_witness:
  "map ck_id (fst (sb_replay sole_lists True 4 demo_scope 2 (snd (append_all sole_lists demo_scope demo_events (demo_buffer False, []))))) = [3, 4]"
proof -
  obtain ids sb1 w1 where a: "append_all sole_lists demo_scope demo_events (demo_buffer False, []) = (ids, sb1, w1)" by (metis prod_cases3)
  obtain out sb2 w2 where r: "sb_replay sole_lists True 4 demo_scope 2 (sb1, w1) = (out, sb2, w2)" by (metis prod_cases3)
  have "fst (append_all sole_lists demo_scope demo_events (demo_buffer False, [])) = [1, 2, 3, 4]" by code_simp
  then have "ids = [1, 2, 3, 4]" using a by simp
  then show ?thesis
    using memory_stream_resumes [OF sole_lists_laws _ _ demo_fresh, of False demo_events 0 4 ids sb1 w1 2 out sb2 w2] a r
    by (simp add: demo_events_def demo_buffer_def chunks_for_def)
qed

text \<open>
  With Redis the position of the client is not applied to the hot tier: a client that has seen the first three of four
  events is sent the third one again.
\<close>

theorem redis_replay_repeats_seen_events:
  "map ck_id (fst (sb_replay sole_lists True 4 demo_scope 3 (snd (append_all sole_lists demo_scope demo_events (demo_buffer True, []))))) = [3, 4]"
  by code_simp

text \<open>
  When the table cannot be written, the chunks beyond the cap are in neither tier any more: they were trimmed from Redis
  before the write.
\<close>

theorem failed_spill_loses_chunks:
  "map ck_id (fst (sb_replay sole_lists True 4 demo_scope 0
     (snd (sb_append sole_lists False 3 demo_scope ''token'' JNull
       (snd (append_all sole_lists demo_scope (take 2 demo_events) (demo_buffer True, []))))))) = [2, 3]"
  by code_simp

end
