(* ===== verification/Moderation.thy ===== *)
theory Moderation
  imports Prelude "HOL-Library.Sublist"
begin

text \<open>
  Rolling moderation of a streamed answer (\<open>application/validation/streaming.py\<close>). The validator is a parameter: what it
  answers to the text of its n-th call, \<open>None\<close> when it raises.
\<close>

section \<open>Definitions\<close>

record verdict =
  vd_allowed :: bool
  vd_redacted_text :: "string option"
  vd_violations :: "string list"

type_synonym validator = "nat \<Rightarrow> string \<Rightarrow> verdict option"

record window_release =
  wr_text :: string
  wr_released_raw :: bool
  wr_redacted :: bool
  wr_truncated :: bool
  wr_violations :: "string list"

definition raw_release :: "string \<Rightarrow> window_release" where
  "raw_release s = \<lparr>wr_text = s, wr_released_raw = True, wr_redacted = False, wr_truncated = False, wr_violations = []\<rparr>"

record moderation_window =
  mw_validator :: "validator option"
  mw_window_size :: nat
  mw_fallback_text :: string
  mw_pending :: string
  mw_truncated :: bool
  mw_calls :: nat

datatype window_error = ValueError

definition mw_create :: "validator option \<Rightarrow> int \<Rightarrow> string \<Rightarrow> window_error + moderation_window" where
  "mw_create v sz fallback =
     (if sz \<le> 0 then Inl ValueError
      else Inr \<lparr>mw_validator = v, mw_window_size = nat sz, mw_fallback_text = fallback, mw_pending = [], mw_truncated = False, mw_calls = 0\<rparr>)"

definition window_verdict :: "string \<Rightarrow> string \<Rightarrow> verdict option \<Rightarrow> window_release" where
  "window_verdict fallback pending res = (case res of
     None \<Rightarrow> raw_release pending
   | Some v \<Rightarrow>
       if vd_allowed v
       then (case vd_redacted_text v of
               Some r \<Rightarrow> \<lparr>wr_text = r, wr_released_raw = False, wr_redacted = True, wr_truncated = False, wr_violations = []\<rparr>
             | None \<Rightarrow> raw_release pending)
       else \<lparr>wr_text = fallback, wr_released_raw = False, wr_redacted = False, wr_truncated = True, wr_violations = vd_violations v\<rparr>)"

definition validate_window :: "validator \<Rightarrow> moderation_window \<Rightarrow> window_release \<times> moderation_window" where
  "validate_window v mw =
     (let r = window_verdict (mw_fallback_text mw) (mw_pending mw) (v (mw_calls mw) (mw_pending mw))
      in (r, mw\<lparr>mw_pending := [], mw_calls := mw_calls mw + 1, mw_truncated := mw_truncated mw \<or> wr_truncated r\<rparr>))"

definition push :: "string \<Rightarrow> moderation_window \<Rightarrow> window_release option \<times> moderation_window" where
  "push piece mw =
     (if mw_truncated mw then (None, mw)
      else case mw_validator mw of
             None \<Rightarrow> (Some (raw_release piece), mw)
           | Some v \<Rightarrow>
               (let mw1 = mw\<lparr>mw_pending := mw_pending mw @ piece\<rparr>
                in if length (mw_pending mw1) < mw_window_size mw1 then (None, mw1)
                   else let (r, mw2) = validate_window v mw1 in (Some r, mw2)))"

definition finish :: "moderation_window \<Rightarrow> window_release option \<times> moderation_window" where
  "finish mw =
     (if mw_truncated mw \<or> mw_pending mw = [] then (None, mw)
      else case mw_validator mw of
             None \<Rightarrow> (Some (raw_release (mw_pending mw)), mw\<lparr>mw_pending := []\<rparr>)
           | Some v \<Rightarrow> let (r, mw1) = validate_window v mw in (Some r, mw1))"

text \<open>A whole stream: what the client is sent.\<close>

definition emit :: "window_release option \<times> moderation_window \<Rightarrow> window_release list \<times> moderation_window" where
  "emit x = (case x of (None, mw) \<Rightarrow> ([], mw) | (Some r, mw) \<Rightarrow> ([r], mw))"

fun moderate :: "string list \<Rightarrow> moderation_window \<Rightarrow> window_release list \<times> moderation_window" where
  "moderate [] mw = emit (finish mw)"
| "moderate (c # cs) mw = (let (rs, mw1) = emit (push c mw); (rs', mw2) = moderate cs mw1 in (rs @ rs', mw2))"

section \<open>Lemmas\<close>

text \<open>What a client may be sent for a sequence of windows, told from the validator's answers alone, the windows numbered from the calls
  made so far: a window it lets through or raises on goes out as it is, a redacted one as its redaction, and in place of a refused
  one goes the fallback text, after which there is nothing more.\<close>

inductive answered :: "validator \<Rightarrow> string \<Rightarrow> nat \<Rightarrow> string list \<Rightarrow> window_release list \<Rightarrow> bool" for v fallback where
  no_window: "answered v fallback n [] []"
| unvalidated: "v n w = None \<Longrightarrow> answered v fallback (Suc n) ws rs \<Longrightarrow>
    answered v fallback n (w # ws) (\<lparr>wr_text = w, wr_released_raw = True, wr_redacted = False, wr_truncated = False, wr_violations = []\<rparr> # rs)"
| passed: "v n w = Some a \<Longrightarrow> vd_allowed a \<Longrightarrow> vd_redacted_text a = None \<Longrightarrow> answered v fallback (Suc n) ws rs \<Longrightarrow>
    answered v fallback n (w # ws) (\<lparr>wr_text = w, wr_released_raw = True, wr_redacted = False, wr_truncated = False, wr_violations = []\<rparr> # rs)"
| redacted: "v n w = Some a \<Longrightarrow> vd_allowed a \<Longrightarrow> vd_redacted_text a = Some t \<Longrightarrow> answered v fallback (Suc n) ws rs \<Longrightarrow>
    answered v fallback n (w # ws) (\<lparr>wr_text = t, wr_released_raw = False, wr_redacted = True, wr_truncated = False, wr_violations = []\<rparr> # rs)"
| refused: "v n w = Some a \<Longrightarrow> \<not> vd_allowed a \<Longrightarrow>
    answered v fallback n [w] [\<lparr>wr_text = fallback, wr_released_raw = False, wr_redacted = False, wr_truncated = True, wr_violations = vd_violations a\<rparr>]"

inductive_cases answered_ConsE: "answered v fallback n (w # ws) rs"

text \<open>A window the validator refused.\<close>

definition objects :: "validator \<Rightarrow> nat \<Rightarrow> string \<Rightarrow> bool" where
  "objects v n w = (case v n w of None \<Rightarrow> False | Some a \<Rightarrow> \<not> vd_allowed a)"

definition none_refused :: "validator \<Rightarrow> nat \<Rightarrow> string list \<Rightarrow> bool" where
  "none_refused v n ws = (\<forall>i<length ws. \<not> objects v (n + i) (ws ! i))"

lemma none_refused_Nil [simp]: "none_refused v n []"
  by (simp add: none_refused_def)

lemma none_refused_Cons [simp]: "none_refused v n (w # ws) \<longleftrightarrow> \<not> objects v n w \<and> none_refused v (Suc n) ws"
  by (auto simp: none_refused_def nth_Cons less_Suc_eq_0_disj split: nat.split)

lemma answered_verdict:
  "\<not> objects v n w \<Longrightarrow> answered v f (Suc n) ws rs \<Longrightarrow> answered v f n (w # ws) (window_verdict f w (v n w) # rs)"
  by (auto simp: window_verdict_def raw_release_def objects_def split: option.splits intro: answered.intros)

lemma answered_one: "answered v f n [w] [window_verdict f w (v n w)]"
proof (cases "objects v n w")
  case True
  then show ?thesis by (auto simp: window_verdict_def objects_def split: option.splits intro: answered.intros)
qed (rule answered_verdict [OF _ no_window])

lemma verdict_truncated [simp]: "wr_truncated (window_verdict f w (v n w)) \<longleftrightarrow> objects v n w"
  by (auto simp: window_verdict_def raw_release_def objects_def split: option.splits)

definition windows_of :: "validator \<Rightarrow> moderation_window \<Rightarrow> string list \<Rightarrow> string \<Rightarrow> window_release list \<Rightarrow> bool" where
  "windows_of v mw ws text rs \<longleftrightarrow>
     answered v (mw_fallback_text mw) (mw_calls mw) ws rs \<and> prefix (concat ws) text \<and> (none_refused v (mw_calls mw) ws \<longrightarrow> concat ws = text)"

lemma moderate_truncated: "mw_truncated mw \<Longrightarrow> moderate cs mw = ([], mw)"
  by (induction cs) (auto simp: finish_def push_def emit_def)

lemma moderate_windows:
  assumes "mw_validator mw = Some v" "\<not> mw_truncated mw"
  shows "\<exists>ws. windows_of v mw ws (mw_pending mw @ concat cs) (fst (moderate cs mw))
    \<and> (\<forall>w\<in>set (butlast ws). mw_window_size mw \<le> length w)"
  using assms
proof (induction cs arbitrary: mw)
  case Nil
  show ?case
  proof (cases "mw_pending mw = []")
    case True
    then show ?thesis using Nil by (intro exI [of _ "[]"]) (auto simp: windows_of_def finish_def emit_def intro: answered.intros)
  next
    case False
    then have "fst (moderate [] mw) = [window_verdict (mw_fallback_text mw) (mw_pending mw) (v (mw_calls mw) (mw_pending mw))]"
      using Nil by (simp add: finish_def emit_def validate_window_def Let_def)
    then show ?thesis using answered_one
      by (intro exI [of _ "[mw_pending mw]"]) (auto simp: windows_of_def)
  qed
next
  case (Cons c cs)
  let ?mw = "mw\<lparr>mw_pending := mw_pending mw @ c\<rparr>"
  show ?case
  proof (cases "length (mw_pending ?mw) < mw_window_size mw")
    case True
    then have "moderate (c # cs) mw = moderate cs ?mw" using Cons.prems by (simp add: push_def emit_def)
    then show ?thesis using Cons.IH [of ?mw] Cons.prems by (simp add: windows_of_def)
  next
    case full: False
    let ?w = "mw_pending mw @ c"
    let ?r = "window_verdict (mw_fallback_text mw) ?w (v (mw_calls mw) ?w)"
    let ?mw2 = "mw\<lparr>mw_pending := [], mw_calls := mw_calls mw + 1, mw_truncated := wr_truncated ?r\<rparr>"
    have m: "fst (moderate (c # cs) mw) = ?r # fst (moderate cs ?mw2)"
      using full Cons.prems by (simp add: push_def emit_def validate_window_def Let_def split: prod.split)
    show ?thesis
    proof (cases "wr_truncated ?r")
      case True
      then have "fst (moderate (c # cs) mw) = [?r]" using m moderate_truncated [of ?mw2 cs] by simp
      then show ?thesis using True answered_one by (intro exI [of _ "[?w]"]) (simp add: windows_of_def)
    next
      case False
      then obtain ws where ws: "windows_of v ?mw2 ws (concat cs) (fst (moderate cs ?mw2))" "\<forall>w\<in>set (butlast ws). mw_window_size mw \<le> length w"
        using Cons.IH [of ?mw2] Cons.prems by auto
      then show ?thesis using m False full answered_verdict
        by (intro exI [of _ "?w # ws"]) (auto simp: windows_of_def)
    qed
  qed
qed

section \<open>Properties\<close>

text \<open>C30: With a validator, the client of a stream is sent, for consecutive pieces of the answer, what the validator's answers to them
  allow: a piece it lets through as it is, a piece it redacts as its redaction, in place of a piece it refuses the fallback text and
  nothing after it; a piece on which the validator raised goes out unvalidated. Every piece but the last is at least the window
  size long, and together they are the whole answer unless one was refused.\<close>

theorem moderated_stream_windows:
  assumes "0 < sz" "mw_create (Some v) sz fallback = Inr mw"
  shows "\<exists>ws. answered v fallback 0 ws (fst (moderate cs mw))
    \<and> prefix (concat ws) (concat cs) \<and> (none_refused v 0 ws \<longrightarrow> concat ws = concat cs)
    \<and> (\<forall>w\<in>set (butlast ws). nat sz \<le> length w)"
proof -
  have "mw_validator mw = Some v" "\<not> mw_truncated mw" "mw_pending mw = []" "mw_calls mw = 0" "mw_fallback_text mw = fallback"
    "mw_window_size mw = nat sz"
    using assms by (auto simp: mw_create_def split: if_splits)
  then show ?thesis using moderate_windows [of mw v cs] by (simp add: windows_of_def)
qed

lemma answered_unchanged:
  assumes "answered v f n ws rs" "\<And>i w. case v i w of None \<Rightarrow> True | Some d \<Rightarrow> vd_allowed d \<and> vd_redacted_text d = None"
  shows "concat (map wr_text rs) = concat ws \<and> none_refused v n ws"
  using assms(1)
proof (induction rule: answered.induct)
  case (redacted n w a t ws rs)
  then show ?case using assms(2) [of n w] by simp
next
  case (refused n w a)
  then show ?case using assms(2) [of n w] by simp
qed (simp_all add: objects_def)

text \<open>
  A stream to which the validator never objects, and in which it changes nothing, arrives unchanged, however it is cut into
  pieces and windows; the same holds when the validator raises on some or on all windows.
\<close>

theorem clean_stream_unchanged:
  assumes "mw_create (Some v) sz fallback = Inr mw"
    and "\<And>i w. case v i w of None \<Rightarrow> True | Some d \<Rightarrow> vd_allowed d \<and> vd_redacted_text d = None"
  shows "concat (map wr_text (fst (moderate cs mw))) = concat cs"
proof -
  have "mw_validator mw = Some v" "\<not> mw_truncated mw" "mw_pending mw = []"
    using assms(1) by (auto simp: mw_create_def split: if_splits)
  then show ?thesis using moderate_windows [of mw v cs] answered_unchanged [OF _ assms(2)] by (auto simp: windows_of_def)
qed

subsection \<open>Witnesses\<close>

definition demo_validator :: validator where
  "demo_validator n w = Some \<lparr>vd_allowed = (CHR ''!'' \<notin> set w), vd_redacted_text = (if CHR ''@'' \<in> set w then Some ''[redacted]'' else None), vd_violations = [''shouting'']\<rparr>"

definition demo_window :: "validator \<Rightarrow> moderation_window" where
  "demo_window v = projr (mw_create (Some v) 4 ''[content withheld]'')"

theorem moderated_stream_windows_witness:
  "\<exists>ws. map wr_text (fst (moderate [''ab'', ''cd'', ''e@fg'', ''!!!!'', ''more''] (demo_window demo_validator))) = [''abcd'', ''[redacted]'', ''[content withheld]'']
   \<and> answered demo_validator ''[content withheld]'' 0 ws (fst (moderate [''ab'', ''cd'', ''e@fg'', ''!!!!'', ''more''] (demo_window demo_validator)))
   \<and> prefix (concat ws) ''abcde@fg!!!!more''"
proof -
  have c: "mw_create (Some demo_validator) 4 ''[content withheld]'' = Inr (demo_window demo_validator)" by (simp add: demo_window_def mw_create_def)
  have "map wr_text (fst (moderate [''ab'', ''cd'', ''e@fg'', ''!!!!'', ''more''] (demo_window demo_validator))) = [''abcd'', ''[redacted]'', ''[content withheld]'']"
    by code_simp
  moreover have "concat [''ab'', ''cd'', ''e@fg'', ''!!!!'', ''more''] = ''abcde@fg!!!!more''" by simp
  ultimately show ?thesis using moderated_stream_windows [OF _ c, of "[''ab'', ''cd'', ''e@fg'', ''!!!!'', ''more'']"] by auto
qed

theorem clean_stream_unchanged_witness:
  "concat (map wr_text (fst (moderate [''ab'', ''cd'', ''e''] (demo_window (\<lambda>_ _. None))))) = ''abcde''"
proof -
  have "mw_create (Some (\<lambda>_ _. None)) 4 ''[content withheld]'' = Inr (demo_window (\<lambda>_ _. None))" by (simp add: demo_window_def mw_create_def)
  from clean_stream_unchanged [OF this, of "[''ab'', ''cd'', ''e'']"] show ?thesis by simp
qed

end
