(* ===== verification/Audit_Trail.thy ===== *)
theory Audit_Trail
  imports Py_Json "HOL-Library.Product_Lexorder"
begin

text \<open>
  The administrative audit trail (\<open>AuditRepository\<close> of \<open>infrastructure/db/repositories.py\<close>): rows chained by a hash.
  SHA-256, the canonical JSON text and the ISO text of an instant are parameters. Adding a row is two transactions, one
  that reads the predecessor's hash and one that inserts.
\<close>

section \<open>Definitions\<close>

record audit_event =
  ae_id :: string
  ae_tenant_id :: "string option"
  ae_actor_type :: string
  ae_actor_id :: "string option"
  ae_action :: string
  ae_resource_type :: string
  ae_resource_id :: "string option"
  ae_details :: json
  ae_prev_hash :: "string option"
  ae_event_hash :: "string option"
  ae_created_at :: time

record audit_codec =
  ac_sha256 :: "string \<Rightarrow> string"
  ac_canonical_json :: "json \<Rightarrow> string"
  ac_utc_iso :: "time \<Rightarrow> string"

definition audit_content :: "audit_codec \<Rightarrow> audit_event \<Rightarrow> string list" where
  "audit_content C r =
     [ae_id r, str_or (ae_tenant_id r) [], ae_actor_type r, str_or (ae_actor_id r) [], ae_action r, ae_resource_type r,
      str_or (ae_resource_id r) [], ac_canonical_json C (ae_details r), ac_utc_iso C (ae_created_at r)]"

definition hashed_text :: "audit_codec \<Rightarrow> string option \<Rightarrow> audit_event \<Rightarrow> string" where
  "hashed_text C prev r = py_join ''|'' (str_or prev [] # audit_content C r)"

definition compute_hash :: "audit_codec \<Rightarrow> string option \<Rightarrow> audit_event \<Rightarrow> string" where
  "compute_hash C prev r = ac_sha256 C (hashed_text C prev r)"

definition audit_order :: "audit_event \<Rightarrow> time \<times> string" where
  "audit_order r = (ae_created_at r, ae_id r)"

definition previous_hash :: "audit_event list \<Rightarrow> string \<Rightarrow> time \<Rightarrow> string option" where
  "previous_hash rows event_id created_at =
     (let before = py_sorted audit_order (filter (\<lambda>r. audit_order r < (created_at, event_id)) rows)
      in if before = [] then None else ae_event_hash (last before))"

record audit_request =
  ar_action :: string
  ar_resource_type :: string
  ar_resource_id :: "string option"
  ar_tenant_id :: "string option"
  ar_actor_type :: string
  ar_actor_id :: "string option"
  ar_details :: "json option"

text \<open>The row that \<open>add\<close> prepares from the rows it sees, and the insertion.\<close>

definition prepare_event :: "audit_codec \<Rightarrow> string \<Rightarrow> time \<Rightarrow> audit_request \<Rightarrow> audit_event list \<Rightarrow> audit_event" where
  "prepare_event C event_id created_at q rows =
     (let prev = previous_hash rows event_id created_at;
          r = \<lparr>ae_id = event_id, ae_tenant_id = ar_tenant_id q, ae_actor_type = ar_actor_type q, ae_actor_id = ar_actor_id q,
               ae_action = ar_action q, ae_resource_type = ar_resource_type q, ae_resource_id = ar_resource_id q,
               ae_details = get_or (ar_details q) (JObj []), ae_prev_hash = prev, ae_event_hash = None, ae_created_at = created_at\<rparr>
      in r\<lparr>ae_event_hash := Some (compute_hash C prev r)\<rparr>)"

definition audit_add :: "audit_codec \<Rightarrow> string \<Rightarrow> time \<Rightarrow> audit_request \<Rightarrow> audit_event list \<Rightarrow> audit_event list" where
  "audit_add C event_id created_at q rows = rows @ [prepare_event C event_id created_at q rows]"

definition list_audit_events :: "audit_event list \<Rightarrow> string option \<Rightarrow> nat \<Rightarrow> string option \<Rightarrow> audit_event list" where
  "list_audit_events rows tenant n action =
     take n (py_sorted_desc ae_created_at
       (filter (\<lambda>r. (truthy_str tenant \<longrightarrow> ae_tenant_id r = tenant) \<and> (truthy_str action \<longrightarrow> Some (ae_action r) = action)) rows))"

fun verify_rows :: "audit_codec \<Rightarrow> string option \<Rightarrow> audit_event list \<Rightarrow> bool \<times> string option" where
  "verify_rows C prev [] = (True, None)"
| "verify_rows C prev (r # rs) = (case ae_event_hash r of
     None \<Rightarrow> verify_rows C None rs
   | Some h \<Rightarrow> if h \<noteq> compute_hash C prev r then (False, Some (ae_id r)) else verify_rows C (Some h) rs)"

definition verify_chain :: "audit_codec \<Rightarrow> audit_event list \<Rightarrow> string option \<Rightarrow> bool \<times> string option" where
  "verify_chain C rows tenant =
     verify_rows C None (py_sorted audit_order (filter (\<lambda>r. truthy_str tenant \<longrightarrow> ae_tenant_id r = tenant) rows))"

text \<open>Events added one after the other.\<close>

fun add_all :: "audit_codec \<Rightarrow> (string \<times> time \<times> audit_request) list \<Rightarrow> audit_event list \<Rightarrow> audit_event list" where
  "add_all C [] rows = rows"
| "add_all C ((i, t, q) # es) rows = add_all C es (audit_add C i t q rows)"

section \<open>Lemmas\<close>

lemma sort_key_snoc_max:
  assumes "\<And>y. y \<in> set xs \<Longrightarrow> f y \<le> f x"
  shows "sort_key f (xs @ [x]) = sort_key f xs @ [x]"
proof -
  have step: "insort_key f y (zs @ [x]) = insort_key f y zs @ [x]" if "f y \<le> f x" for y zs
    using that by (induction zs) auto
  show ?thesis using assms unfolding sort_key_def by (induction xs) (auto simp: step)
qed

lemma sort_key_map_keys: "(\<And>x. f (g x) = f x) \<Longrightarrow> sort_key f (map g xs) = map g (sort_key f xs)"
proof -
  assume k: "\<And>x. f (g x) = f x"
  have "insort_key f (g y) (map g zs) = map g (insort_key f y zs)" for y zs
    by (induction zs) (auto simp: k)
  then show ?thesis by (induction xs) (auto simp: sort_key_def)
qed

fun last_hash :: "string option \<Rightarrow> audit_event list \<Rightarrow> string option" where
  "last_hash prev [] = prev"
| "last_hash prev (r # rs) = last_hash (ae_event_hash r) rs"

lemma last_hash_last: "rs \<noteq> [] \<Longrightarrow> last_hash prev rs = ae_event_hash (last rs)"
  by (induction prev rs rule: last_hash.induct) auto

lemma verify_append:
  "fst (verify_rows C prev rs) \<Longrightarrow> verify_rows C prev (rs @ ss) = verify_rows C (last_hash prev rs) ss"
  by (induction C prev rs rule: verify_rows.induct) (auto split: option.splits if_splits)

lemma verify_prefix: "fst (verify_rows C prev (rs @ ss)) \<Longrightarrow> fst (verify_rows C prev rs)"
  by (induction C prev rs rule: verify_rows.induct) (auto split: option.splits if_splits)

lemma verify_result: "fst (verify_rows C prev rs) \<longleftrightarrow> verify_rows C prev rs = (True, None)"
  by (induction C prev rs rule: verify_rows.induct) (auto split: option.splits if_splits)

lemma truthy_None [simp]: "\<not> truthy_str None"
  by (simp add: truthy_str_def)

lemma add_verifies:
  assumes "fst (verify_chain C rows None)" "\<And>r. r \<in> set rows \<Longrightarrow> audit_order r < (t, i)"
  shows "fst (verify_chain C (audit_add C i t q rows) None)"
proof -
  let ?r = "prepare_event C i t q rows" and ?s = "py_sorted audit_order rows"
  have o: "audit_order ?r = (t, i)" by (simp add: prepare_event_def audit_order_def Let_def)
  have f: "filter (\<lambda>r. audit_order r < (t, i)) rows = rows" using assms(2) by (auto intro: filter_True)
  then have prev: "previous_hash rows i t = last_hash None ?s"
    using last_hash_last [of ?s None] by (auto simp: previous_hash_def Let_def)
  have "ae_event_hash ?r = Some (compute_hash C (last_hash None ?s) ?r)"
    by (simp add: prepare_event_def Let_def prev compute_hash_def hashed_text_def audit_content_def)
  then have "fst (verify_rows C (last_hash None ?s) [?r])" by simp
  moreover have "py_sorted audit_order (rows @ [?r]) = ?s @ [?r]"
    using assms(2) o by (auto simp: py_sorted_def intro!: sort_key_snoc_max order.strict_implies_order)
  ultimately show ?thesis using assms(1) verify_append [of C None ?s "[?r]"]
    by (simp add: verify_chain_def audit_add_def)
qed

lemma py_join_Cons: "xs \<noteq> [] \<Longrightarrow> py_join sep (x # xs) = x @ sep @ py_join sep xs"
  by (cases xs) simp_all

lemma py_join_update_inj:
  assumes "py_join sep (xs[k := x]) = py_join sep (xs[k := y])" "k < length xs"
  shows "x = y"
  using assms
proof (induction xs arbitrary: k)
  case (Cons a xs)
  show ?case
  proof (cases k)
    case 0
    then show ?thesis using Cons.prems(1) by (cases "xs = []") (auto simp: py_join_Cons)
  next
    case (Suc j)
    then have "xs[j := x] \<noteq> []" "xs[j := y] \<noteq> []" using Cons.prems(2) by auto
    then show ?thesis using Cons.prems Cons.IH [of j] Suc by (simp add: py_join_Cons)
  qed
qed simp

text \<open>Inside a trail that verifies, a row that no longer matches its hash is where verification stops.\<close>

lemma verify_tampered:
  assumes "fst (verify_rows C prev rs)" "r \<in> set rs" "distinct (map ae_id rs)" "ae_event_hash r = Some h"
    and "ae_id r' = ae_id r" "ae_event_hash r' = Some h"
    and "\<And>p. p \<in> P \<Longrightarrow> compute_hash C p r' \<noteq> compute_hash C p r" "insert None (insert prev (ae_event_hash ` set rs)) \<subseteq> P"
  shows "verify_rows C prev (map (\<lambda>x. if ae_id x = ae_id r then r' else x) rs) = (False, Some (ae_id r))"
  using assms(1-3,8)
proof (induction rs arbitrary: prev)
  case (Cons x rs)
  show ?case
  proof (cases "x = r")
    case True
    then have "h = compute_hash C prev r" using Cons.prems(1) assms(4) by (auto split: if_splits)
    then have "h \<noteq> compute_hash C prev r'" using assms(7) [of prev] Cons.prems(4) by simp
    then show ?thesis using True assms(5,6) by simp
  next
    case False
    then have "ae_id x \<noteq> ae_id r" "r \<in> set rs" using Cons by auto
    moreover have "insert None (insert (ae_event_hash x) (ae_event_hash ` set rs)) \<subseteq> P" using Cons.prems(4) by auto
    ultimately show ?thesis using Cons.prems(1-3) Cons.IH [of "ae_event_hash x"] by (auto split: option.splits if_splits)
  qed
qed simp

lemma hash_changes:
  assumes "inj_on (ac_sha256 C) {hashed_text C q s | q s. q \<in> P \<and> s \<in> {r, r'}}" "p \<in> P" "k < 9" "audit_content C r' = (audit_content C r)[k := x]" "x \<noteq> audit_content C r ! k"
  shows "compute_hash C p r' \<noteq> compute_hash C p r"
proof
  assume "compute_hash C p r' = compute_hash C p r"
  then have "hashed_text C p r' = hashed_text C p r"
    using inj_onD [OF assms(1), of "hashed_text C p r'" "hashed_text C p r"] assms(2) by (auto simp: compute_hash_def)
  then have e: "py_join ''|'' (str_or p [] # (audit_content C r)[k := x]) = py_join ''|'' (str_or p [] # audit_content C r)"
    by (simp add: hashed_text_def assms(4))
  have len: "length (audit_content C r) = 9" by (simp add: audit_content_def)
  have "py_join ''|'' ((str_or p [] # audit_content C r)[Suc k := x])
      = py_join ''|'' ((str_or p [] # audit_content C r)[Suc k := audit_content C r ! k])"
    unfolding list_update.simps nat.case list_update_id by (rule e)
  then have "x = audit_content C r ! k" by (rule py_join_update_inj) (use assms(3) len in simp)
  then show False using assms(5) by simp
qed

section \<open>Properties\<close>

text \<open>C27: Events added one after the other, each later than all before it, form a trail that verifies, whatever legacy rows without
  a hash it started from.
\<close>

theorem sequential_trail_verifies:
  assumes "fst (verify_chain C rows None)"
    and "sorted_wrt (<) (map (\<lambda>(i, t, q). (t, i)) es)" "\<forall>r\<in>set rows. \<forall>(i, t, q)\<in>set es. audit_order r < (t, i)"
  shows "verify_chain C (add_all C es rows) None = (True, None)"
proof -
  have "fst (verify_chain C (add_all C es rows) None)"
    using assms
  proof (induction C es rows rule: add_all.induct)
    case (2 C i t q es rows)
    show ?case unfolding add_all.simps
    proof (rule "2.IH")
      show "fst (verify_chain C (audit_add C i t q rows) None)" using 2 by (intro add_verifies) auto
      show "\<forall>r\<in>set (audit_add C i t q rows). \<forall>(i, t, q)\<in>set es. audit_order r < (t, i)"
        using "2.prems"(2,3) by (auto simp: audit_add_def prepare_event_def audit_order_def Let_def)
    qed (use 2 in auto)
  qed simp
  then show ?thesis by (simp add: verify_chain_def verify_result)
qed

text \<open>C26: Changing exactly one hashed field of one row of a trail that verifies, its identifier, time and stored hash kept, is found and reported
  at that row, provided the hash has no collision among the finitely many texts in question: those of the original and of the forged row
  after a hash of the trail.
\<close>

theorem tampering_is_found:
  assumes "inj_on (ac_sha256 C) {hashed_text C q s | q s. q \<in> insert None (ae_event_hash ` set rows) \<and> s \<in> {r, r'}}"
    and "fst (verify_chain C rows None)" "distinct (map ae_id rows)" "r \<in> set rows" "ae_event_hash r = Some h"
    and "ae_id r' = ae_id r" "ae_created_at r' = ae_created_at r" "ae_event_hash r' = Some h"
    and "k < 9" "audit_content C r' = (audit_content C r)[k := x]" "x \<noteq> audit_content C r ! k"
  shows "verify_chain C (map (\<lambda>s. if ae_id s = ae_id r then r' else s) rows) None = (False, Some (ae_id r))"
proof -
  let ?g = "\<lambda>s. if ae_id s = ae_id r then r' else s"
  let ?h = "\<lambda>s. if s = r then r' else s"
  have gh: "map ?g xs = map ?h xs" if "set xs = set rows" for xs
    using assms(3,4) that by (auto simp: distinct_map inj_on_def)
  have "py_sorted audit_order (map ?h rows) = map ?h (py_sorted audit_order rows)"
    using assms(6,7) unfolding py_sorted_def by (intro sort_key_map_keys) (auto simp: audit_order_def)
  then have sorted: "py_sorted audit_order (map ?g rows) = map ?g (py_sorted audit_order rows)"
    using gh [of rows] gh [of "py_sorted audit_order rows"] by (simp only: set_py_sorted)
  have "distinct (map ae_id (py_sorted audit_order rows))"
    using assms(3) by (simp add: distinct_map)
  then have "verify_rows C None (map ?g (py_sorted audit_order rows)) = (False, Some (ae_id r))"
    using assms(2,4,5,6,8) hash_changes [OF assms(1) _ assms(9-11)]
    by (intro verify_tampered [where P = "insert None (ae_event_hash ` set rows)"]) (auto simp: verify_chain_def)
  then show ?thesis using sorted by (simp add: verify_chain_def)
qed

subsection \<open>Witnesses\<close>

definition demo_codec :: audit_codec where
  "demo_codec = \<lparr>ac_sha256 = (\<lambda>s. s), ac_canonical_json = (\<lambda>j. case j of JStr s \<Rightarrow> s | _ \<Rightarrow> []), ac_utc_iso = (\<lambda>t. [])\<rparr>"

definition demo_audit :: "string \<Rightarrow> string \<Rightarrow> audit_request" where
  "demo_audit tenant detail = \<lparr>ar_action = ''a'', ar_resource_type = ''tenant'', ar_resource_id = None, ar_tenant_id = Some tenant,
     ar_actor_type = ''system'', ar_actor_id = None, ar_details = Some (JStr detail)\<rparr>"

definition demo_adds :: "(string \<times> time \<times> audit_request) list" where
  "demo_adds = [(''c'', 1, demo_audit ''t1'' ''x''), (''b'', 2, demo_audit ''t2'' ''y''), (''a'', 3, demo_audit ''t1'' ''z'')]"

theorem sequential_trail_verifies_witness: "verify_chain demo_codec (add_all demo_codec demo_adds []) None = (True, None)"
proof -
  have "fst (verify_chain demo_codec [] None)" by (simp add: verify_chain_def py_sorted_def)
  moreover have "sorted_wrt (<) (map (\<lambda>(i, t, q). (t, i)) demo_adds)" by (simp add: demo_adds_def)
  ultimately show ?thesis using sequential_trail_verifies [of demo_codec "[]" demo_adds] by simp
qed

definition demo_row :: "nat \<Rightarrow> audit_event" where
  "demo_row n = add_all demo_codec demo_adds [] ! n"

theorem tampering_is_found_witness:
  "verify_chain demo_codec (map (\<lambda>s. if ae_id s = ae_id (demo_row 1) then (demo_row 1)\<lparr>ae_details := JStr ''forged''\<rparr> else s)
     (add_all demo_codec demo_adds [])) None = (False, Some ''b'')"
proof -
  have f: "fst (verify_chain demo_codec (add_all demo_codec demo_adds []) None)" "distinct (map ae_id (add_all demo_codec demo_adds []))"
    "demo_row 1 \<in> set (add_all demo_codec demo_adds [])" "ae_id (demo_row 1) = ''b''"
    "audit_content demo_codec ((demo_row 1)\<lparr>ae_details := JStr ''forged''\<rparr>) = (audit_content demo_codec (demo_row 1))[7 := ''forged'']"
    "''forged'' \<noteq> audit_content demo_codec (demo_row 1) ! 7"
    by code_simp+
  have "inj_on (ac_sha256 demo_codec) T" for T by (simp add: demo_codec_def inj_on_def)
  moreover have "ae_event_hash (demo_row 1) = Some (the (ae_event_hash (demo_row 1)))"
  proof -
    have "\<not> Option.is_none (ae_event_hash (demo_row 1))" by code_simp
    then show ?thesis by (cases "ae_event_hash (demo_row 1)") auto
  qed
  ultimately show ?thesis
    using tampering_is_found [of demo_codec "add_all demo_codec demo_adds []" "demo_row 1" "(demo_row 1)\<lparr>ae_details := JStr ''forged''\<rparr>" _ 7 "''forged''"] f
    by simp
qed

text \<open>
  Verification for one tenant walks the rows of that tenant alone, though each was chained to the row before it in the
  whole trail: an intact trail of two tenants is reported as broken.
\<close>

theorem tenant_verification_false_alarm:
  "verify_chain demo_codec (add_all demo_codec demo_adds []) None = (True, None)
   \<and> verify_chain demo_codec (add_all demo_codec demo_adds []) (Some ''t1'') = (False, Some ''a'')"
  by code_simp

text \<open>
  Two events of the same instant break the trail when the second has the smaller identifier, and so do two events that
  each read their predecessor before the other is inserted.
\<close>

theorem tied_and_concurrent_events_break_chain:
  "fst (verify_chain demo_codec (add_all demo_codec [(''b'', 1, demo_audit ''t'' ''x''), (''a'', 1, demo_audit ''t'' ''y'')] []) None) = False
   \<and> fst (verify_chain demo_codec [prepare_event demo_codec ''a'' 1 (demo_audit ''t'' ''x'') [], prepare_event demo_codec ''b'' 2 (demo_audit ''t'' ''y'') []] None) = False"
  by code_simp

text \<open>
  The fields are joined with a bar and not escaped: a forged row in which a bar has moved between two neighbouring fields has the same text, so
  verification accepts it.
\<close>

theorem moved_bar_is_not_found:
  "let rows = [prepare_event demo_codec ''a'' 1 (demo_audit ''t'' ''x''\<lparr>ar_action := ''read|all'', ar_resource_type := ''key''\<rparr>) []];
       forged = map (\<lambda>r. r\<lparr>ae_action := ''read'', ae_resource_type := ''all|key''\<rparr>) rows
   in forged \<noteq> rows \<and> verify_chain demo_codec rows None = (True, None) \<and> verify_chain demo_codec forged None = (True, None)"
  by code_simp

end
