(* ===== verification/Config_Versions.thy ===== *)
theory Config_Versions
  imports Py_Json
begin

text \<open>
  The promotion pipeline of tenant configurations: the gates (\<open>governance/promotion.py\<close>), the versions table
  (\<open>TenantConfigVersionRepository\<close> of \<open>infrastructure/db/repositories.py\<close>), the routes that publish, evaluate and roll back
  (\<open>api/routes/conversations.py\<close>) and the canary monitor (\<open>worker/canary_monitor.py\<close>). The hash that places a request key
  in a bucket is a parameter.
\<close>

section \<open>Gates\<close>

definition promotion_gate :: "string option \<Rightarrow> string option \<Rightarrow> bool \<times> string option" where
  "promotion_gate validation_status eval_status =
     (if validation_status \<in> {Some ''failed'', Some ''regressed''} then (False, Some (''failed validation: '' @ the validation_status))
      else if eval_status = Some ''failed'' then (False, Some ''eval suite not passed'')
      else (True, None))"

text \<open>What a caller passes as the percentage: nothing, an integer, or some other object.\<close>

datatype percent_arg = NoPercent | Percent int | OtherObject

definition validate_canary_percent :: "percent_arg \<Rightarrow> bool" where
  "validate_canary_percent p = (case p of NoPercent \<Rightarrow> True | Percent n \<Rightarrow> 0 \<le> n \<and> n \<le> 100 | OtherObject \<Rightarrow> False)"

text \<open>\<open>hash16 key\<close> is the number in the first two bytes of the digest.\<close>

definition canary_bucket :: "(string \<Rightarrow> nat) \<Rightarrow> string option \<Rightarrow> int option \<Rightarrow> bool" where
  "canary_bucket hash16 request_key canary_percent = (case canary_percent of
     None \<Rightarrow> True
   | Some p \<Rightarrow>
       if 100 \<le> p then True
       else if p \<le> 0 \<or> \<not> truthy_str request_key then False
       else int (hash16 (the request_key) mod 100) < p)"

section \<open>Versions\<close>

datatype version_status = Draft | Published | Superseded

record config_version =
  cv_id :: string
  cv_tenant_id :: string
  cv_version :: nat
  cv_config :: json
  cv_status :: version_status
  cv_validation_status :: "string option"
  cv_validated_at :: "time option"
  cv_approved_by :: "string option"
  cv_approved_at :: "time option"
  cv_published_at :: "time option"
  cv_promoted_by :: "string option"
  cv_canary_percent :: "int option"
  cv_eval_status :: "string option"
  cv_eval_details :: "json option"

definition of_version :: "string \<Rightarrow> nat \<Rightarrow> config_version \<Rightarrow> bool" where
  "of_version tenant v r \<longleftrightarrow> cv_tenant_id r = tenant \<and> cv_version r = v"

definition cv_get :: "config_version list \<Rightarrow> string \<Rightarrow> nat \<Rightarrow> config_version option" where
  "cv_get rows tenant v = find (of_version tenant v) rows"

definition list_versions :: "config_version list \<Rightarrow> string \<Rightarrow> config_version list" where
  "list_versions rows tenant = py_sorted_desc cv_version (filter (\<lambda>r. cv_tenant_id r = tenant) rows)"

text \<open>\<open>ORDER BY version DESC LIMIT 1\<close>.\<close>

definition newest :: "config_version list \<Rightarrow> config_version option" where
  "newest rows = (case py_sorted_desc cv_version rows of [] \<Rightarrow> None | r # _ \<Rightarrow> Some r)"

definition get_latest_published :: "config_version list \<Rightarrow> string \<Rightarrow> config_version option" where
  "get_latest_published rows tenant = newest (filter (\<lambda>r. cv_tenant_id r = tenant \<and> cv_status r = Published) rows)"

definition create_draft :: "string \<Rightarrow> string \<Rightarrow> json \<Rightarrow> string option \<Rightarrow> config_version list \<Rightarrow> config_version \<times> config_version list" where
  "create_draft new_id tenant config actor rows =
     (let next_version = fold max (map cv_version (filter (\<lambda>r. cv_tenant_id r = tenant) rows)) 0 + 1;
          r = \<lparr>cv_id = new_id, cv_tenant_id = tenant, cv_version = next_version, cv_config = config, cv_status = Draft,
               cv_validation_status = None, cv_validated_at = None, cv_approved_by = None, cv_approved_at = None,
               cv_published_at = None, cv_promoted_by = actor, cv_canary_percent = None, cv_eval_status = None, cv_eval_details = None\<rparr>
      in (r, rows @ [r]))"

text \<open>An update of one version; no row, no change.\<close>

definition cv_update :: "string \<Rightarrow> nat \<Rightarrow> (config_version \<Rightarrow> config_version) \<Rightarrow> config_version list \<Rightarrow> config_version list" where
  "cv_update tenant v f rows = map (\<lambda>r. if of_version tenant v r then f r else r) rows"

definition set_validation :: "string \<Rightarrow> nat \<Rightarrow> string \<Rightarrow> time \<Rightarrow> config_version list \<Rightarrow> config_version list" where
  "set_validation tenant v status now = cv_update tenant v (\<lambda>r. r\<lparr>cv_validation_status := Some status, cv_validated_at := Some now\<rparr>)"

definition approve :: "string \<Rightarrow> nat \<Rightarrow> string option \<Rightarrow> time \<Rightarrow> config_version list \<Rightarrow> config_version list" where
  "approve tenant v actor now = cv_update tenant v (\<lambda>r. r\<lparr>cv_approved_by := actor, cv_approved_at := Some now\<rparr>)"

definition set_eval_result :: "string \<Rightarrow> nat \<Rightarrow> string \<Rightarrow> json option \<Rightarrow> config_version list \<Rightarrow> config_version list" where
  "set_eval_result tenant v status details = cv_update tenant v (\<lambda>r. r\<lparr>cv_eval_status := Some status, cv_eval_details := details\<rparr>)"

definition supersede_all :: "string \<Rightarrow> config_version list \<Rightarrow> config_version list" where
  "supersede_all tenant rows =
     map (\<lambda>r. if cv_tenant_id r = tenant \<and> cv_status r = Published then r\<lparr>cv_status := Superseded\<rparr> else r) rows"

definition full_rollout :: "int option \<Rightarrow> bool" where
  "full_rollout p = (case p of None \<Rightarrow> True | Some n \<Rightarrow> 100 \<le> n)"

definition promote :: "string \<Rightarrow> nat \<Rightarrow> string option \<Rightarrow> int option \<Rightarrow> time \<Rightarrow> config_version list \<Rightarrow> config_version option \<times> config_version list" where
  "promote tenant v actor percent now rows = (case cv_get rows tenant v of
     None \<Rightarrow> (None, rows)
   | Some _ \<Rightarrow>
       (let rows1 = (if full_rollout percent then supersede_all tenant rows else rows);
            rows2 = cv_update tenant v (\<lambda>r. r\<lparr>cv_status := Published, cv_published_at := Some now, cv_promoted_by := actor,
                      cv_canary_percent := (if full_rollout percent then None else percent)\<rparr>) rows1
        in (cv_get rows2 tenant v, rows2)))"

definition get_previous_published :: "config_version list \<Rightarrow> string \<Rightarrow> nat \<Rightarrow> config_version option" where
  "get_previous_published rows tenant v =
     newest (filter (\<lambda>r. cv_tenant_id r = tenant \<and> cv_status r \<noteq> Draft \<and> cv_version r \<noteq> v) rows)"

definition get_effective :: "(string \<Rightarrow> nat) \<Rightarrow> config_version list \<Rightarrow> string \<Rightarrow> string option \<Rightarrow> config_version option" where
  "get_effective hash16 rows tenant request_key = (case get_latest_published rows tenant of
     None \<Rightarrow> None
   | Some r \<Rightarrow>
       if full_rollout (cv_canary_percent r) then Some r
       else if truthy_str request_key \<and> \<not> canary_bucket hash16 request_key (cv_canary_percent r)
       then (case get_previous_published rows tenant (cv_version r) of Some b \<Rightarrow> Some b | None \<Rightarrow> Some r)
       else Some r)"

definition auto_rollback ::
  "string \<Rightarrow> nat \<Rightarrow> string \<Rightarrow> string option \<Rightarrow> time \<Rightarrow> config_version list \<Rightarrow> config_version option \<times> config_version list" where
  "auto_rollback tenant v reason actor now rows = (case cv_get rows tenant v of
     None \<Rightarrow> (None, rows)
   | Some failing \<Rightarrow>
       if cv_status failing \<noteq> Published then (None, rows)
       else (case get_previous_published rows tenant v of
               None \<Rightarrow> (None, rows)
             | Some previous \<Rightarrow>
                 (let details = (case cv_eval_details failing of Some (JObj kvs) \<Rightarrow> kvs | _ \<Rightarrow> []);
                      rows1 = cv_update tenant v (\<lambda>r. r\<lparr>cv_validation_status := Some ''regressed'',
                        cv_eval_details := Some (JObj (AList.update ''auto_rolled_back_at'' (JNum now)
                          (AList.update ''regression'' (JStr reason) details)))\<rparr>) rows;
                      rows2 = supersede_all tenant rows1;
                      rows3 = cv_update tenant (cv_version previous) (\<lambda>r. r\<lparr>cv_status := Published, cv_published_at := Some now,
                        cv_canary_percent := None, cv_promoted_by := (if truthy_str actor then actor else cv_promoted_by r)\<rparr>) rows2
                  in (cv_get rows3 tenant (cv_version previous), rows3))))"

section \<open>Routes\<close>

datatype route_error = Unprocessable string | NotFound

definition publish_route ::
  "string \<Rightarrow> nat \<Rightarrow> string \<Rightarrow> percent_arg \<Rightarrow> time \<Rightarrow> config_version list \<Rightarrow> (route_error + config_version) \<times> config_version list" where
  "publish_route tenant v key_id arg now rows =
     (let draft = cv_get rows tenant v;
          gate = promotion_gate (Option.bind draft cv_validation_status) (Option.bind draft cv_eval_status)
      in if \<not> fst gate then (Inl (Unprocessable (the (snd gate))), rows)
         else if arg \<noteq> NoPercent \<and> \<not> validate_canary_percent arg then (Inl (Unprocessable ''canary_percent must be between 0 and 100''), rows)
         else (case promote tenant v (Some key_id) (case arg of Percent n \<Rightarrow> Some n | _ \<Rightarrow> None) now rows of
                 (None, rows1) \<Rightarrow> (Inl NotFound, rows1)
               | (Some r, rows1) \<Rightarrow> (Inr r, rows1)))"

text \<open>\<open>rollback_tenant_config_version\<close> calls the publishing function itself, so that its percentage is the declared default,
  the parameter object of the framework.\<close>

definition rollback_route ::
  "string \<Rightarrow> nat \<Rightarrow> string \<Rightarrow> time \<Rightarrow> config_version list \<Rightarrow> (route_error + config_version) \<times> config_version list" where
  "rollback_route tenant v key_id now rows = publish_route tenant v key_id OtherObject now rows"

definition evaluate_route ::
  "string \<Rightarrow> nat \<Rightarrow> bool \<Rightarrow> json \<Rightarrow> config_version list \<Rightarrow> (route_error + config_version) \<times> config_version list" where
  "evaluate_route tenant v passed details rows = (case cv_get rows tenant v of
     None \<Rightarrow> (Inl NotFound, rows)
   | Some draft \<Rightarrow>
       if cv_status draft \<noteq> Draft then (Inl NotFound, rows)
       else (let rows1 = set_eval_result tenant v (if passed then ''passed'' else ''failed'') (Some details) rows
             in (case cv_get rows1 tenant v of None \<Rightarrow> Inl NotFound | Some r \<Rightarrow> Inr r, rows1)))"

definition auto_rollback_route ::
  "string \<Rightarrow> nat \<Rightarrow> string \<Rightarrow> string \<Rightarrow> time \<Rightarrow> config_version list \<Rightarrow> (route_error + config_version) \<times> config_version list" where
  "auto_rollback_route tenant v reason key_id now rows = (case auto_rollback tenant v reason (Some key_id) now rows of
     (None, rows1) \<Rightarrow> (Inl NotFound, rows1)
   | (Some r, rows1) \<Rightarrow> (Inr r, rows1))"

text \<open>The draft route after its checks: a draft, validated and approved by its author.\<close>

definition draft_route :: "string \<Rightarrow> string \<Rightarrow> json \<Rightarrow> string \<Rightarrow> time \<Rightarrow> config_version list \<Rightarrow> nat \<times> config_version list" where
  "draft_route new_id tenant config key_id now rows =
     (let (r, rows1) = create_draft new_id tenant config (Some key_id) rows
      in (cv_version r, approve tenant (cv_version r) (Some key_id) now (set_validation tenant (cv_version r) ''validated'' now rows1)))"

section \<open>Canary monitor\<close>

record canary_metrics =
  cm_requests :: nat
  cm_errors :: nat
  cm_guardrail_blocks :: nat
  cm_total_latency :: rat

definition cm_zero :: canary_metrics where
  "cm_zero = \<lparr>cm_requests = 0, cm_errors = 0, cm_guardrail_blocks = 0, cm_total_latency = 0\<rparr>"

definition error_rate :: "canary_metrics \<Rightarrow> rat" where
  "error_rate m = (if 0 < cm_requests m then of_nat (cm_errors m) / of_nat (cm_requests m) else 0)"

definition block_rate :: "canary_metrics \<Rightarrow> rat" where
  "block_rate m = (if 0 < cm_requests m then of_nat (cm_guardrail_blocks m) / of_nat (cm_requests m) else 0)"

definition cm_record :: "bool \<Rightarrow> bool \<Rightarrow> rat \<Rightarrow> canary_metrics \<Rightarrow> canary_metrics" where
  "cm_record err blocked latency m =
     \<lparr>cm_requests = cm_requests m + 1, cm_errors = cm_errors m + (if err then 1 else 0),
      cm_guardrail_blocks = cm_guardrail_blocks m + (if blocked then 1 else 0), cm_total_latency = cm_total_latency m + latency\<rparr>"

record canary_rollout =
  cr_canary_version :: nat
  cr_baseline_version :: nat
  cr_canary_percent :: int
  cr_baseline_metrics :: canary_metrics
  cr_canary_metrics :: canary_metrics
  cr_error_rate_threshold :: rat
  cr_block_rate_threshold :: rat
  cr_min_samples :: nat
  cr_rolled_back :: bool
  cr_promoted_full :: bool

definition start_canary :: "nat \<Rightarrow> nat \<Rightarrow> int \<Rightarrow> canary_rollout" where
  "start_canary canary baseline percent =
     \<lparr>cr_canary_version = canary, cr_baseline_version = baseline, cr_canary_percent = percent, cr_baseline_metrics = cm_zero,
      cr_canary_metrics = cm_zero, cr_error_rate_threshold = 1/20, cr_block_rate_threshold = 1/10, cr_min_samples = 50,
      cr_rolled_back = False, cr_promoted_full = False\<rparr>"

definition record_request :: "bool \<Rightarrow> bool \<Rightarrow> bool \<Rightarrow> rat \<Rightarrow> canary_rollout \<Rightarrow> canary_rollout" where
  "record_request is_canary err blocked latency ro =
     (if is_canary then ro\<lparr>cr_canary_metrics := cm_record err blocked latency (cr_canary_metrics ro)\<rparr>
      else ro\<lparr>cr_baseline_metrics := cm_record err blocked latency (cr_baseline_metrics ro)\<rparr>)"

definition rollout_evaluate :: "canary_rollout \<Rightarrow> bool" where
  "rollout_evaluate ro =
     (if cr_rolled_back ro \<or> cr_promoted_full ro then False
      else if cm_requests (cr_canary_metrics ro) < cr_min_samples ro \<or> cm_requests (cr_baseline_metrics ro) < cr_min_samples ro then False
      else if cr_error_rate_threshold ro < error_rate (cr_canary_metrics ro) - error_rate (cr_baseline_metrics ro) then True
      else cr_block_rate_threshold ro < block_rate (cr_canary_metrics ro) - block_rate (cr_baseline_metrics ro))"

text \<open>The table of active rollouts, in insertion order.\<close>

type_synonym rollouts = "(string \<times> canary_rollout) list"

definition record_outcome :: "(string \<Rightarrow> nat) \<Rightarrow> string \<Rightarrow> string option \<Rightarrow> bool \<Rightarrow> bool \<Rightarrow> rat \<Rightarrow> rollouts \<Rightarrow> rollouts" where
  "record_outcome hash16 tenant request_key err blocked latency_ms ros = (case map_of ros tenant of
     None \<Rightarrow> ros
   | Some ro \<Rightarrow>
       AList.update tenant
         (record_request (canary_bucket hash16 request_key (Some (cr_canary_percent ro))) err blocked (latency_ms / 1000) ro) ros)"

definition end_canary :: "string \<Rightarrow> rollouts \<Rightarrow> rollouts" where
  "end_canary tenant ros = AList.delete tenant ros"

text \<open>\<open>up tenant\<close> says whether the database answers when the rollback of that tenant is attempted.\<close>

fun evaluate_rollouts :: "(string \<Rightarrow> bool) \<Rightarrow> time \<Rightarrow> rollouts \<Rightarrow> rollouts \<times> config_version list \<Rightarrow> rollouts \<times> config_version list" where
  "evaluate_rollouts up now [] s = s"
| "evaluate_rollouts up now ((tenant, ro) # todo) (ros, rows) =
     (if rollout_evaluate ro
      then evaluate_rollouts up now todo
             (end_canary tenant ros,
              if up tenant then snd (auto_rollback tenant (cr_canary_version ro) ''canary regression'' (Some ''canary-monitor'') now rows) else rows)
      else evaluate_rollouts up now todo (ros, rows))"

definition handle_canary_evaluate :: "(string \<Rightarrow> bool) \<Rightarrow> time \<Rightarrow> rollouts \<times> config_version list \<Rightarrow> rollouts \<times> config_version list" where
  "handle_canary_evaluate up now s = evaluate_rollouts up now (fst s) s"

text \<open>Publishing with a percentage below 100 also puts the rollout under the monitor.\<close>

definition publish_config ::
  "string \<Rightarrow> nat \<Rightarrow> string \<Rightarrow> percent_arg \<Rightarrow> time \<Rightarrow> rollouts \<times> config_version list \<Rightarrow> (route_error + config_version) \<times> rollouts \<times> config_version list" where
  "publish_config tenant v key_id arg now s = (case publish_route tenant v key_id arg now (snd s) of
     (Inl e, rows) \<Rightarrow> (Inl e, fst s, rows)
   | (Inr r, rows) \<Rightarrow>
       (Inr r,
        case arg of
          Percent n \<Rightarrow>
            if n < 100
            then AList.update tenant (start_canary (cv_version r)
                   (case get_previous_published rows tenant v of Some b \<Rightarrow> cv_version b | None \<Rightarrow> cv_version r) n) (fst s)
            else fst s
        | _ \<Rightarrow> fst s,
        rows))"

inductive cv_step :: "config_version list \<Rightarrow> config_version list \<Rightarrow> bool" where
  drafted: "cv_step rows (snd (create_draft new_id tenant config actor rows))"
| validated: "cv_step rows (set_validation tenant v status now rows)"
| approved: "cv_step rows (approve tenant v actor now rows)"
| evaluated: "cv_step rows (set_eval_result tenant v status details rows)"
| promoted: "cv_step rows (snd (promote tenant v actor percent now rows))"
| rolled_back: "cv_step rows (snd (auto_rollback tenant v reason actor now rows))"

inductive cv_reaches :: "config_version list \<Rightarrow> config_version list \<Rightarrow> bool" where
  start: "cv_reaches rows rows"
| further: "cv_reaches rows rows1 \<Longrightarrow> cv_step rows1 rows2 \<Longrightarrow> cv_reaches rows rows2"

section \<open>Lemmas\<close>

text \<open>What identifies a version and what it holds: no operation changes it.\<close>

definition essence :: "config_version \<Rightarrow> string \<times> string \<times> nat \<times> json" where
  "essence r = (cv_id r, cv_tenant_id r, cv_version r, cv_config r)"

lemma essence_update [simp]: "(\<And>r. essence (f r) = essence r) \<Longrightarrow> map essence (cv_update tenant v f rows) = map essence rows"
  by (auto simp: cv_update_def)

lemma essence_supersede [simp]: "map essence (supersede_all tenant rows) = map essence rows"
  by (auto simp: supersede_all_def essence_def)

lemma essence_promote: "map essence (snd (promote tenant v actor percent now rows)) = map essence rows"
  by (auto simp: promote_def Let_def essence_def cv_update_def supersede_all_def split: option.split)

lemma essence_rollback: "map essence (snd (auto_rollback tenant v reason actor now rows)) = map essence rows"
  by (auto simp: auto_rollback_def Let_def essence_def cv_update_def supersede_all_def split: option.split)

lemma step_essence:
  assumes "cv_step rows rows'"
  shows "map essence rows' = map essence rows \<or> (\<exists>new_id tenant config actor. rows' = snd (create_draft new_id tenant config actor rows))"
  using assms
proof cases
  case drafted
  then show ?thesis by blast
qed (simp_all add: essence_promote essence_rollback set_validation_def approve_def set_eval_result_def essence_def)

definition versions :: "config_version list \<Rightarrow> string \<Rightarrow> nat list" where
  "versions rows tenant = map cv_version (filter (\<lambda>r. cv_tenant_id r = tenant) rows)"

lemma versions_essence: "versions rows tenant = map (\<lambda>(i, t, v, c). v) (filter (\<lambda>(i, t, v, c). t = tenant) (map essence rows))"
  by (simp add: versions_def filter_map o_def essence_def)

definition numbered :: "config_version list \<Rightarrow> bool" where
  "numbered rows \<longleftrightarrow> (\<forall>tenant. versions rows tenant = [1..<Suc (length (versions rows tenant))])"

lemma numbered_essence: "map essence rows' = map essence rows \<Longrightarrow> numbered rows' = numbered rows"
  by (simp only: numbered_def versions_essence)

lemma fold_max_upt: "fold max [1..<Suc n] 0 = n"
  by (induction n) auto

lemma numbered_draft: "numbered rows \<Longrightarrow> numbered (snd (create_draft new_id tenant config actor rows))"
proof -
  assume n: "numbered rows"
  have "fold max (map cv_version (filter (\<lambda>r. cv_tenant_id r = tenant) rows)) 0 = length (versions rows tenant)"
    using n fold_max_upt unfolding numbered_def versions_def by metis
  then have v: "versions (snd (create_draft new_id tenant config actor rows)) t =
      versions rows t @ (if t = tenant then [Suc (length (versions rows tenant))] else [])" for t
    by (simp add: create_draft_def Let_def versions_def)
  show ?thesis unfolding numbered_def
  proof
    fix t
    have "versions rows t = [1..<Suc (length (versions rows t))]" using n by (simp add: numbered_def del: upt_Suc)
    then show "versions (snd (create_draft new_id tenant config actor rows)) t
        = [1..<Suc (length (versions (snd (create_draft new_id tenant config actor rows)) t))]"
      by (cases "t = tenant") (simp_all add: v)
  qed
qed

lemma numbered_step: "cv_step rows rows' \<Longrightarrow> numbered rows \<Longrightarrow> numbered rows'"
  using step_essence numbered_draft unfolding numbered_def versions_essence by metis

lemma numbered_reaches: "cv_reaches rows rows' \<Longrightarrow> numbered rows \<Longrightarrow> numbered rows'"
  by (induction rule: cv_reaches.induct) (auto dest: numbered_step)

lemma essence_reaches: "cv_reaches rows rows' \<Longrightarrow> \<exists>more. map essence rows' = map essence rows @ more"
proof (induction rule: cv_reaches.induct)
  case (further rows rows1 rows2)
  then show ?case using step_essence [OF further(2)] by (auto simp: create_draft_def Let_def)
qed simp

lemma numbered_unique:
  assumes "numbered rows" "r \<in> set rows" "r' \<in> set rows" "cv_tenant_id r' = cv_tenant_id r" "cv_version r' = cv_version r"
  shows "r' = r"
proof -
  have "distinct (versions rows (cv_tenant_id r))" using assms(1) by (metis numbered_def distinct_upt)
  then show ?thesis using assms(2-5) by (auto simp: versions_def distinct_map inj_on_def)
qed

lemma newest_max: "newest rows = Some r \<Longrightarrow> r \<in> set rows \<and> (\<forall>x\<in>set rows. cv_version x \<le> cv_version r)"
proof -
  assume n: "newest rows = Some r"
  then obtain rs where rs: "py_sorted_desc cv_version rows = r # rs" by (auto simp: newest_def split: list.splits)
  then have "set rows = set (r # rs)" using set_py_sorted_desc by metis
  moreover have "sorted_wrt (\<lambda>x y. cv_version y \<le> cv_version x) (r # rs)" using sorted_py_sorted_desc [of cv_version rows] rs by simp
  ultimately show ?thesis by auto
qed

lemma newest_None [simp]: "newest rows = None \<longleftrightarrow> rows = []"
  using length_py_sorted_desc [of cv_version rows] by (cases "py_sorted_desc cv_version rows") (auto simp: newest_def)

lemma newest_eq:
  assumes "r \<in> set rows" "\<And>x. x \<in> set rows \<Longrightarrow> x = r \<or> cv_version x < cv_version r"
  shows "newest rows = Some r"
proof -
  obtain x where "newest rows = Some x" using assms(1) newest_None [of rows] by (cases "newest rows") auto
  then show ?thesis using newest_max [of rows x] assms by fastforce
qed

lemma cv_get_Some: "cv_get rows tenant v = Some r \<Longrightarrow> r \<in> set rows \<and> cv_tenant_id r = tenant \<and> cv_version r = v"
  using find_SomeD by (fastforce simp: cv_get_def of_version_def)

lemma cv_get_numbered: "numbered rows \<Longrightarrow> r \<in> set rows \<Longrightarrow> cv_get rows (cv_tenant_id r) (cv_version r) = Some r"
proof -
  assume n: "numbered rows" and r: "r \<in> set rows"
  then have "cv_get rows (cv_tenant_id r) (cv_version r) \<noteq> None" by (auto simp: cv_get_def of_version_def find_None_iff)
  then obtain x where x: "cv_get rows (cv_tenant_id r) (cv_version r) = Some x" by blast
  have "x = r" using cv_get_Some [OF x] by (intro numbered_unique [OF n r]) simp_all
  then show ?thesis using x by simp
qed

lemma numbered_promote: "numbered rows \<Longrightarrow> numbered (snd (promote tenant v actor percent now rows))"
  by (rule numbered_step [OF cv_step.promoted])

lemma sole_published:
  assumes "\<And>r. r \<in> set rows \<Longrightarrow> cv_tenant_id r = tenant \<Longrightarrow> cv_status r = Published \<Longrightarrow> r = p"
    and "p \<in> set rows" "cv_tenant_id p = tenant" "cv_status p = Published" "full_rollout (cv_canary_percent p)"
  shows "get_effective hash16 rows tenant key = Some p"
proof -
  have "get_latest_published rows tenant = Some p"
    unfolding get_latest_published_def
  proof (rule newest_eq)
    show "p \<in> set (filter (\<lambda>r. cv_tenant_id r = tenant \<and> cv_status r = Published) rows)" using assms(2-4) by simp
    show "x = p \<or> cv_version x < cv_version p" if "x \<in> set (filter (\<lambda>r. cv_tenant_id r = tenant \<and> cv_status r = Published) rows)" for x
      using that assms(1) [of x] by simp
  qed
  then show ?thesis using assms(5) by (simp add: get_effective_def)
qed

definition superseded :: "string \<Rightarrow> config_version \<Rightarrow> config_version" where
  "superseded tenant r = (if cv_tenant_id r = tenant \<and> cv_status r = Published then r\<lparr>cv_status := Superseded\<rparr> else r)"

lemma superseded_fields [simp]:
  "essence (superseded tenant r) = essence r" "of_version t v (superseded tenant r) = of_version t v r"
  "cv_tenant_id (superseded tenant r) = cv_tenant_id r" "cv_version (superseded tenant r) = cv_version r" "cv_config (superseded tenant r) = cv_config r"
  by (simp_all add: superseded_def essence_def of_version_def)

lemma superseded_not_published: "cv_tenant_id r = tenant \<Longrightarrow> cv_status (superseded tenant r) \<noteq> Published"
  by (simp add: superseded_def)

text \<open>Superseding everything and publishing one version leaves that version alone in service.\<close>

lemma republished:
  assumes "numbered rows" "r0 \<in> set rows" "of_version tenant v r0"
    and "\<And>r. essence (f r) = essence r" "\<And>r. cv_status (f r) = Published" "\<And>r. full_rollout (cv_canary_percent (f r))"
    and "rows' = cv_update tenant v f (supersede_all tenant rows)"
  shows "get_effective hash16 rows' tenant key = Some (f (superseded tenant r0))" and "cv_get rows' tenant v = Some (f (superseded tenant r0))"
proof -
  have rows': "rows' = map (\<lambda>r. if of_version tenant v r then f (superseded tenant r) else superseded tenant r) rows"
    unfolding assms(7) cv_update_def supersede_all_def by (auto simp: superseded_def of_version_def)
  have ess: "cv_tenant_id (f r) = cv_tenant_id r" "cv_version (f r) = cv_version r" for r using assms(4) [of r] by (simp_all add: essence_def)
  have t: "cv_tenant_id r0 = tenant" "cv_version r0 = v" using assms(3) by (simp_all add: of_version_def)
  have p: "f (superseded tenant r0) \<in> set rows'" using assms(2,3) unfolding rows' by force
  have only: "x = f (superseded tenant r0)" if x: "x \<in> set rows'" "cv_tenant_id x = tenant" "cv_status x = Published" for x
  proof -
    obtain s where s: "s \<in> set rows" "x = (if of_version tenant v s then f (superseded tenant s) else superseded tenant s)"
      using x(1) unfolding rows' by force
    have "of_version tenant v s"
    proof (rule ccontr)
      assume "\<not> of_version tenant v s"
      then have "x = superseded tenant s" using s(2) by simp
      then show False using x(2,3) superseded_not_published [of s tenant] by simp
    qed
    moreover from this have "s = r0" using t by (intro numbered_unique [OF assms(1,2) s(1)]) (simp_all add: of_version_def)
    ultimately show ?thesis using s(2) by simp
  qed
  show "get_effective hash16 rows' tenant key = Some (f (superseded tenant r0))"
  proof (rule sole_published)
    show "x = f (superseded tenant r0)" if "x \<in> set rows'" "cv_tenant_id x = tenant" "cv_status x = Published" for x
      using that by (rule only)
  qed (use p t ess assms(5,6) in simp_all)
  have "map essence rows' = map essence rows" unfolding assms(7) using assms(4) by simp
  then have "numbered rows'" using assms(1) numbered_essence by blast
  from cv_get_numbered [OF this p] show "cv_get rows' tenant v = Some (f (superseded tenant r0))" using t ess by simp
qed

section \<open>Properties\<close>

text \<open>The versions of a tenant are numbered from one without gaps in the order of their creation, and no later operation
  changes the number, the tenant or the configuration of a version or removes it.
\<close>

theorem versions_append_only:
  assumes "cv_reaches [] rows" "cv_reaches rows rows'"
  shows "versions rows tenant = [1..<Suc (length (versions rows tenant))] \<and> (\<exists>more. map essence rows' = map essence rows @ more)"
proof -
  have "numbered []" by (simp add: numbered_def versions_def)
  then have "numbered rows" by (rule numbered_reaches [OF assms(1)])
  then have "versions rows tenant = [1..<Suc (length (versions rows tenant))]" unfolding numbered_def by blast
  then show ?thesis using essence_reaches [OF assms(2)] by blast
qed

text \<open>C28: After a full rollout every request of the tenant is served the promoted version, whatever was published before and
  whatever key it comes with.
\<close>

theorem full_rollout_serves_promoted:
  assumes "numbered rows" "cv_get rows tenant v = Some r0" "full_rollout percent"
  shows "get_effective hash16 (snd (promote tenant v actor percent now rows)) tenant key = fst (promote tenant v actor percent now rows)
    \<and> map_option cv_config (fst (promote tenant v actor percent now rows)) = Some (cv_config r0)"
proof -
  let ?f = "\<lambda>r. r\<lparr>cv_status := Published, cv_published_at := Some now, cv_promoted_by := actor, cv_canary_percent := None\<rparr>"
  have r0: "r0 \<in> set rows" "of_version tenant v r0" using cv_get_Some [OF assms(2)] by (simp_all add: of_version_def)
  have p: "promote tenant v actor percent now rows =
      (cv_get (cv_update tenant v ?f (supersede_all tenant rows)) tenant v, cv_update tenant v ?f (supersede_all tenant rows))"
    using assms(2,3) by (simp add: promote_def Let_def)
  have f: "\<And>r. essence (?f r) = essence r" "\<And>r. cv_status (?f r) = Published" "\<And>r. full_rollout (cv_canary_percent (?f r))"
    by (simp_all add: essence_def full_rollout_def)
  show ?thesis unfolding p fst_conv snd_conv republished [OF assms(1) r0 f HOL.refl] by simp
qed

text \<open>
  A rollback after a regression puts the previously live version back in service for every request, and the version that
  regressed is refused by the publishing route as long as its validation status stays as it is.
\<close>

theorem rollback_restores_and_blocks:
  assumes "numbered rows" "auto_rollback tenant v reason actor now rows = (Some previous, rows')"
  shows "get_effective hash16 rows' tenant key = Some previous \<and> cv_version previous \<noteq> v
    \<and> publish_route tenant v key_id arg later rows' = (Inl (Unprocessable ''failed validation: regressed''), rows')"
proof -
  obtain failing prev where f: "cv_get rows tenant v = Some failing" "cv_status failing = Published" "get_previous_published rows tenant v = Some prev"
    using assms(2) by (auto simp: auto_rollback_def split: option.splits if_splits)
  define details where "details = (case cv_eval_details failing of Some (JObj kvs) \<Rightarrow> kvs | _ \<Rightarrow> [])"
  define mark where "mark = (\<lambda>r :: config_version. r\<lparr>cv_validation_status := Some ''regressed'', cv_eval_details := Some (JObj (AList.update ''auto_rolled_back_at'' (JNum now)
      (AList.update ''regression'' (JStr reason) details)))\<rparr>)"
  define restored where "restored = (\<lambda>r :: config_version. r\<lparr>cv_status := Published, cv_published_at := Some now, cv_canary_percent := None,
      cv_promoted_by := (if truthy_str actor then actor else cv_promoted_by r)\<rparr>)"
  define rows1 where "rows1 = cv_update tenant v mark rows"
  have rows': "rows' = cv_update tenant (cv_version prev) restored (supersede_all tenant rows1)" and pr: "cv_get rows' tenant (cv_version prev) = Some previous"
    using assms(2) f by (auto simp: auto_rollback_def Let_def rows1_def mark_def restored_def details_def)
  have pv: "prev \<in> set rows" "cv_tenant_id prev = tenant" "cv_version prev \<noteq> v" using f(3) newest_max unfolding get_previous_published_def by fastforce+
  have marked: "essence (mark r) = essence r" for r by (simp add: mark_def essence_def)
  then have "map essence rows1 = map essence rows" by (simp add: rows1_def)
  then have n1: "numbered rows1" using assms(1) numbered_essence by blast
  have "prev \<in> set rows1" "of_version tenant (cv_version prev) prev"
    using pv by (force simp: rows1_def cv_update_def of_version_def)+
  note rep = republished [OF n1 this _ _ _ rows']
  have eff: "get_effective hash16 rows' tenant key = Some previous" and "previous = restored (superseded tenant prev)"
    using rep(1) [of hash16 key] rep(2) pr by (simp_all add: restored_def essence_def full_rollout_def)
  have ver: "cv_version previous \<noteq> v" using pv(3) cv_get_Some [OF pr] by simp
  have v_in: "failing \<in> set rows" "cv_tenant_id failing = tenant" "cv_version failing = v" using cv_get_Some [OF f(1)] by auto
  have "mark failing \<in> set rows1" using v_in unfolding rows1_def cv_update_def of_version_def by force
  then have "superseded tenant (mark failing) \<in> set (supersede_all tenant rows1)" by (force simp: supersede_all_def superseded_def)
  then have "superseded tenant (mark failing) \<in> set rows'"
    using v_in pv(3) unfolding rows' cv_update_def by (force simp: of_version_def mark_def)
  moreover have "numbered rows'" using numbered_step [OF cv_step.rolled_back [of rows tenant v reason actor now] assms(1)] assms(2) by simp
  ultimately have "cv_get rows' tenant v = Some (superseded tenant (mark failing))"
    using cv_get_numbered v_in by (fastforce simp: mark_def)
  moreover have "cv_validation_status (superseded tenant (mark failing)) = Some ''regressed''" by (simp add: superseded_def mark_def)
  ultimately show ?thesis using eff ver by (simp add: publish_route_def promotion_gate_def Let_def)
qed

lemma filter_map_same: "(\<And>x. x \<in> set xs \<Longrightarrow> P (g x) = P x \<and> (P x \<longrightarrow> g x = x)) \<Longrightarrow> filter P (map g xs) = filter P xs"
  by (induction xs) auto

lemma previous_update:
  assumes "\<And>r. essence (f r) = essence r"
  shows "get_previous_published (cv_update tenant v f rows) tenant v = get_previous_published rows tenant v"
proof -
  have "cv_tenant_id (f r) = cv_tenant_id r" "cv_version (f r) = cv_version r" for r using assms [of r] by (simp_all add: essence_def)
  then show ?thesis unfolding get_previous_published_def cv_update_def
    by (subst filter_map_same) (auto simp: of_version_def)
qed

text \<open>A canary of the newest version, published beside the version that was live.\<close>

lemma canary_in_service:
  assumes "numbered rows" "r0 \<in> set rows" "of_version tenant v r0" "0 \<le> p" "p < 100"
    and "\<And>r. r \<in> set rows \<Longrightarrow> cv_tenant_id r = tenant \<Longrightarrow> cv_status r \<noteq> Draft \<Longrightarrow> cv_version r < v"
    and "get_previous_published rows tenant v = Some b" "truthy_str key"
    and "\<And>r. essence (f r) = essence r" "\<And>r. cv_status (f r) = Published" "\<And>r. cv_canary_percent (f r) = Some p"
  shows "get_effective hash16 (cv_update tenant v f rows) tenant key = (if canary_bucket hash16 key (Some p) then Some (f r0) else Some b)"
proof -
  have t: "cv_tenant_id r0 = tenant" "cv_version r0 = v" using assms(3) by (simp_all add: of_version_def)
  have ess: "cv_tenant_id (f r) = cv_tenant_id r" "cv_version (f r) = cv_version r" for r using assms(9) [of r] by (simp_all add: essence_def)
  have latest: "get_latest_published (cv_update tenant v f rows) tenant = Some (f r0)"
    unfolding get_latest_published_def
  proof (rule newest_eq)
    show "f r0 \<in> set (filter (\<lambda>r. cv_tenant_id r = tenant \<and> cv_status r = Published) (cv_update tenant v f rows))"
      using assms(2,3,10) t ess by (force simp: cv_update_def)
    fix x assume x: "x \<in> set (filter (\<lambda>r. cv_tenant_id r = tenant \<and> cv_status r = Published) (cv_update tenant v f rows))"
    then obtain s where s: "s \<in> set rows" "x = (if of_version tenant v s then f s else s)" by (auto simp: cv_update_def)
    show "x = f r0 \<or> cv_version x < cv_version (f r0)"
    proof (cases "of_version tenant v s")
      case True
      then have "s = r0" using t by (intro numbered_unique [OF assms(1,2) s(1)]) (simp_all add: of_version_def)
      then show ?thesis using s(2) True by simp
    next
      case False
      then have "cv_version s < v" using assms(6) [OF s(1)] x s(2) by simp
      then show ?thesis using s(2) False t ess by simp
    qed
  qed
  have "get_previous_published (cv_update tenant v f rows) tenant v = Some b" using previous_update assms(7,9) by metis
  then show ?thesis using latest assms(5,8,11) t ess by (simp add: get_effective_def full_rollout_def)
qed

text \<open>While a canary of a new version runs, every request that carries a key is served the canary exactly when the monitor
  counts it for the canary, and otherwise the version that was live before, which is the monitor's baseline.
\<close>

theorem canary_served_as_counted:
  assumes "numbered rows" "\<forall>r\<in>set rows. cv_tenant_id r = tenant \<and> cv_status r \<noteq> Draft \<longrightarrow> cv_version r < v"
    and "get_previous_published rows tenant v = Some b" "0 \<le> p" "p < 100" "key \<noteq> []"
    and "publish_config tenant v key_id (Percent p) now (ros, rows) = (Inr r, ros', rows')"
  shows "\<exists>ro. map_of ros' tenant = Some ro \<and> cr_canary_version ro = v \<and> cr_baseline_version ro = cv_version b
    \<and> map_option cv_version (get_effective hash16 rows' tenant (Some key))
       = Some (if canary_bucket hash16 (Some key) (Some (cr_canary_percent ro)) then cr_canary_version ro else cr_baseline_version ro)"
proof -
  let ?f = "\<lambda>r. r\<lparr>cv_status := Published, cv_published_at := Some now, cv_promoted_by := Some key_id, cv_canary_percent := Some p\<rparr>"
  have pub: "publish_route tenant v key_id (Percent p) now rows = (Inr r, rows')"
    using assms(7) by (auto simp: publish_config_def split: prod.splits sum.splits)
  then have pm: "promote tenant v (Some key_id) (Some p) now rows = (Some r, rows')"
    by (auto simp: publish_route_def Let_def split: if_splits prod.splits option.splits)
  then obtain r0 where r0: "cv_get rows tenant v = Some r0" by (auto simp: promote_def split: option.splits)
  then have rows': "rows' = cv_update tenant v ?f rows" and r: "cv_get rows' tenant v = Some r"
    using pm assms(5) by (auto simp: promote_def Let_def full_rollout_def)
  have in0: "r0 \<in> set rows" "of_version tenant v r0" using cv_get_Some [OF r0] by (simp_all add: of_version_def)
  have f: "\<And>r. essence (?f r) = essence r" "\<And>r. cv_status (?f r) = Published" "\<And>r. cv_canary_percent (?f r) = Some p"
    by (simp_all add: essence_def)
  have "get_effective hash16 rows' tenant (Some key) = (if canary_bucket hash16 (Some key) (Some p) then Some (?f r0) else Some b)"
    unfolding rows' using assms(1-6) in0 by (intro canary_in_service [OF _ _ _ _ _ _ _ _ f]) (auto simp: truthy_str_def)
  moreover have "get_previous_published rows' tenant v = Some b" unfolding rows' using previous_update [OF f(1)] assms(3) by simp
  moreover have "cv_version r = v" "cv_version r0 = v" using cv_get_Some [OF r] in0(2) by (simp_all add: of_version_def)
  ultimately show ?thesis
    using assms(5,7) pub by (auto simp: publish_config_def start_canary_def update_conv)
qed

text \<open>
  The slice of keys a canary serves only grows with its percentage, is empty at zero and everything at one hundred.
\<close>

theorem canary_slice_grows:
  assumes "p \<le> q" "canary_bucket hash16 key (Some p)"
  shows "canary_bucket hash16 key (Some q) \<and> 0 < p \<and> canary_bucket hash16 key (Some 100)"
  using assms by (auto simp: canary_bucket_def split: if_splits)

text \<open>
  The monitor rolls a canary back only on evidence: both slices have the minimum of samples, and the canary's rate of errors
  or of blocked requests exceeds the baseline's by more than its threshold.
\<close>

theorem monitor_acts_on_evidence:
  "rollout_evaluate ro \<longleftrightarrow> \<not> cr_rolled_back ro \<and> \<not> cr_promoted_full ro
     \<and> cr_min_samples ro \<le> cm_requests (cr_canary_metrics ro) \<and> cr_min_samples ro \<le> cm_requests (cr_baseline_metrics ro)
     \<and> (error_rate (cr_baseline_metrics ro) + cr_error_rate_threshold ro < error_rate (cr_canary_metrics ro)
        \<or> block_rate (cr_baseline_metrics ro) + cr_block_rate_threshold ro < block_rate (cr_canary_metrics ro))"
  by (auto simp: rollout_evaluate_def algebra_simps)

text \<open>
  The route that rolls a tenant back to an earlier version never does: whatever the version and its state, it answers with
  an error and changes nothing.
\<close>

theorem rollback_route_always_refuses:
  "\<exists>e. rollback_route tenant v key_id now rows = (Inl e, rows)"
  by (auto simp: rollback_route_def publish_route_def validate_canary_percent_def Let_def)

section \<open>Examples\<close>

definition demo_table :: "nat \<Rightarrow> config_version list" where
  "demo_table n = fold (\<lambda>i rows. snd (draft_route (py_str_nat i) ''t'' (JInt (int i)) ''k'' 0 rows)) [0..<n] []"

definition demo_publish :: "nat \<Rightarrow> percent_arg \<Rightarrow> config_version list \<Rightarrow> config_version list" where
  "demo_publish v arg rows = snd (publish_route ''t'' v ''k'' arg 1 rows)"

text \<open>
  Two rollbacks in a row put a version back in service that the first one had marked as regressed.
\<close>

theorem second_rollback_restores_regressed:
  "map_option (\<lambda>r. (cv_version r, cv_validation_status r))
     (fst (auto_rollback ''t'' 2 ''r'' None 3
        (snd (auto_rollback ''t'' 3 ''r'' None 2
          (demo_publish 3 NoPercent (demo_publish 2 NoPercent (demo_publish 1 NoPercent (demo_table 3))))))))
   = Some (3, Some ''regressed'')"
  by code_simp

text \<open>
  A canary of a version older than the one in service is served to nobody, at any percentage below one hundred.
\<close>

theorem older_canary_never_served:
  "map_option cv_version (get_effective (\<lambda>_. 0) (demo_publish 1 (Percent 99) (demo_publish 2 NoPercent (demo_table 2))) ''t'' (Some ''user'')) = Some 2
   \<and> map_option cv_version (get_latest_published (demo_publish 1 (Percent 99) (demo_publish 2 NoPercent (demo_table 2))) ''t'') = Some 2"
  by code_simp

text \<open>
  When the database does not answer, a regressed canary stays in service and is no longer watched.
\<close>

theorem failed_rollback_ends_monitoring:
  assumes "rollout_evaluate ro"
  shows "handle_canary_evaluate (\<lambda>_. False) now ([(tenant, ro)], rows) = ([], rows)"
  using assms by (simp add: handle_canary_evaluate_def end_canary_def)

subsection \<open>Witnesses\<close>

lemma draft_route_reaches: "cv_reaches rows (snd (draft_route new_id tenant config key_id now rows))"
  unfolding draft_route_def Let_def case_prod_unfold snd_conv
  by (rule cv_reaches.further [OF cv_reaches.further [OF cv_reaches.further [OF cv_reaches.start cv_step.drafted] cv_step.validated] cv_step.approved])

lemma cv_reaches_trans: "cv_reaches rows1 rows2 \<Longrightarrow> cv_reaches rows rows1 \<Longrightarrow> cv_reaches rows rows2"
  by (induction rule: cv_reaches.induct) (auto intro: cv_reaches.further)

lemma demo_table_reached: "cv_reaches [] (demo_table n)"
proof (induction n)
  case (Suc n)
  have "demo_table (Suc n) = snd (draft_route (py_str_nat n) ''t'' (JInt (int n)) ''k'' 0 (demo_table n))" by (simp add: demo_table_def)
  then show ?case using cv_reaches_trans [OF draft_route_reaches Suc] by simp
qed (simp add: demo_table_def cv_reaches.start)

lemma publish_reaches: "cv_reaches rows (snd (publish_route tenant v key_id arg now rows))"
proof -
  have "snd (publish_route tenant v key_id arg now rows) = rows
      \<or> snd (publish_route tenant v key_id arg now rows) = snd (promote tenant v (Some key_id) (case arg of Percent n \<Rightarrow> Some n | _ \<Rightarrow> None) now rows)"
    by (auto simp: publish_route_def Let_def split: prod.split option.split)
  then show ?thesis using cv_reaches.start cv_step.promoted cv_reaches.further by metis
qed

lemma demo_publish_reached: "cv_reaches [] rows \<Longrightarrow> cv_reaches [] (demo_publish v arg rows)"
  unfolding demo_publish_def by (rule cv_reaches_trans [OF publish_reaches])

lemma reached_numbered: "cv_reaches [] rows \<Longrightarrow> numbered rows"
proof -
  assume r: "cv_reaches [] rows"
  have "numbered []" by (simp add: numbered_def versions_def)
  then show ?thesis by (rule numbered_reaches [OF r])
qed

definition demo_live :: "config_version list" where
  "demo_live = demo_publish 1 NoPercent (demo_table 2)"

lemma demo_live_reached: "cv_reaches [] demo_live"
  unfolding demo_live_def by (rule demo_publish_reached [OF demo_table_reached])

theorem versions_append_only_witness:
  "versions (demo_table 2) ''t'' = [1, 2] \<and> (\<exists>more. map essence demo_live = map essence (demo_table 2) @ more)"
proof -
  have "cv_reaches (demo_table 2) demo_live" unfolding demo_live_def demo_publish_def by (rule publish_reaches)
  moreover have "versions (demo_table 2) ''t'' = [1, 2]" by code_simp
  ultimately show ?thesis using versions_append_only [OF demo_table_reached, of 2 demo_live "''t''"] by simp
qed

theorem full_rollout_serves_promoted_witness:
  "map_option cv_config (get_effective (\<lambda>_. 0) (snd (promote ''t'' 2 None None 5 demo_live)) ''t'' (Some ''user'')) = Some (JInt 1)"
proof -
  obtain r0 where r0: "cv_get demo_live ''t'' 2 = Some r0"
  proof -
    have "\<not> Option.is_none (cv_get demo_live ''t'' 2)" by code_simp
    then show ?thesis using that by (cases "cv_get demo_live ''t'' 2") auto
  qed
  have "map_option cv_config (cv_get demo_live ''t'' 2) = Some (JInt 1)" by code_simp
  then show ?thesis
    using full_rollout_serves_promoted [OF reached_numbered [OF demo_live_reached] r0, of None "\<lambda>_. 0" None 5 "Some ''user''"] r0
    by (simp add: full_rollout_def)
qed

theorem rollback_restores_and_blocks_witness:
  "\<exists>rows'. snd (auto_rollback ''t'' 2 ''slow'' None 9 (demo_publish 2 NoPercent demo_live)) = rows'
    \<and> map_option cv_version (get_effective (\<lambda>_. 0) rows' ''t'' None) = Some 1
    \<and> fst (publish_route ''t'' 2 ''k'' NoPercent 10 rows') = Inl (Unprocessable ''failed validation: regressed'')"
proof -
  let ?ro = "auto_rollback ''t'' 2 ''slow'' None 9 (demo_publish 2 NoPercent demo_live)"
  have f: "map_option cv_version (fst ?ro) = Some 1" by code_simp
  then obtain p where p: "?ro = (Some p, snd ?ro)" by (cases "fst ?ro") (auto simp: prod_eq_iff)
  then have "cv_version p = 1" using f by (metis fst_conv option.inject option.simps(9))
  then show ?thesis
    using rollback_restores_and_blocks [OF reached_numbered [OF demo_publish_reached [OF demo_live_reached]] p, of "\<lambda>_. 0" None "''k''" NoPercent 10]
    by auto
qed

theorem canary_served_as_counted_witness:
  "\<exists>ro. map_of (fst (snd (publish_config ''t'' 2 ''k'' (Percent 30) 7 ([], demo_live)))) ''t'' = Some ro
     \<and> cr_canary_version ro = 2 \<and> cr_baseline_version ro = 1"
proof -
  let ?p = "publish_config ''t'' 2 ''k'' (Percent 30) 7 ([], demo_live)"
  have "map_option cv_version (case fst ?p of Inr r \<Rightarrow> Some r | Inl e \<Rightarrow> None) = Some 2" by code_simp
  then obtain r where p: "?p = (Inr r, fst (snd ?p), snd (snd ?p))" by (cases "fst ?p") (auto simp: prod_eq_iff)
  have b: "map_option cv_version (get_previous_published demo_live ''t'' 2) = Some 1"
    "list_all (\<lambda>r. cv_tenant_id r = ''t'' \<and> cv_status r \<noteq> Draft \<longrightarrow> cv_version r < 2) demo_live" by code_simp+
  then obtain b where b': "get_previous_published demo_live ''t'' 2 = Some b" "cv_version b = 1" by auto
  show ?thesis
    using canary_served_as_counted [OF reached_numbered [OF demo_live_reached] _ b'(1) _ _ _ p, of "''u''" "\<lambda>_. 0"] b(2) b'(2)
    by (auto simp: list_all_iff)
qed

theorem canary_slice_grows_witness: "canary_bucket (\<lambda>_. 42) (Some ''u'') (Some 60)"
  using canary_slice_grows [of 43 60 "\<lambda>_. 42" "Some ''u''"] by (simp add: canary_bucket_def truthy_str_def)

end
