(* ===== verification/Py_Regex.thy ===== *)
theory Py_Regex
  imports Prelude
begin

text \<open>
  The fragment of Python's \<open>re\<close> that the guardrail patterns use: literals under \<open>(?i)\<close>, \<open>.\<close>, \<open>\s+\<close>, \<open>\s*\<close>,
  \<open>\S+\<close>, sequences, alternatives and optional parts. A match is computed by backtracking: \<open>rx_match\<close> lists what is left
  of the text after each way of matching at its beginning, in the order in which \<open>re\<close> tries them.
\<close>

datatype regex =
    RLit string
  | RDot
  | RSpaces
  | RSpaces0
  | RNonSpaces
  | RSeq "regex list"
  | RAlt "regex list"
  | ROpt regex

text \<open>What is left after consuming one or more characters of a class, the longest run first.\<close>

fun runs :: "(char \<Rightarrow> bool) \<Rightarrow> string \<Rightarrow> string list" where
  "runs p [] = []"
| "runs p (c # cs) = (if p c then runs p cs @ [cs] else [])"

fun rx_match :: "regex \<Rightarrow> string \<Rightarrow> string list"
and rx_seq :: "regex list \<Rightarrow> string \<Rightarrow> string list"
and rx_alt :: "regex list \<Rightarrow> string \<Rightarrow> string list" where
  "rx_match (RLit m) s = (if py_lower (take (length m) s) = py_lower m then [drop (length m) s] else [])"
| "rx_match RDot s = (case s of [] \<Rightarrow> [] | c # cs \<Rightarrow> if c = CHR 10 then [] else [cs])"
| "rx_match RSpaces s = runs is_space s"
| "rx_match RSpaces0 s = runs is_space s @ [s]"
| "rx_match RNonSpaces s = runs (\<lambda>c. \<not> is_space c) s"
| "rx_match (RSeq rs) s = rx_seq rs s"
| "rx_match (RAlt rs) s = rx_alt rs s"
| "rx_match (ROpt r) s = rx_match r s @ [s]"
| "rx_seq [] s = [s]"
| "rx_seq (r # rs) s = concat (map (rx_seq rs) (rx_match r s))"
| "rx_alt [] s = []"
| "rx_alt (r # rs) s = rx_match r s @ rx_alt rs s"

text \<open>\<open>pattern.search(text)\<close>: the span of the first match at the leftmost position.\<close>

fun rx_search_from :: "nat \<Rightarrow> regex \<Rightarrow> string \<Rightarrow> (nat \<times> nat) option" where
  "rx_search_from i r [] = (case rx_match r [] of [] \<Rightarrow> None | _ # _ \<Rightarrow> Some (i, i))"
| "rx_search_from i r (c # cs) =
     (case rx_match r (c # cs) of
        rest # _ \<Rightarrow> Some (i, i + (length (c # cs) - length rest))
      | [] \<Rightarrow> rx_search_from (Suc i) r cs)"

definition rx_search :: "regex \<Rightarrow> string \<Rightarrow> (nat \<times> nat) option" where
  "rx_search r s = rx_search_from 0 r s"

section \<open>Lemmas\<close>

lemma runs_suffix: "t \<in> set (runs p s) \<Longrightarrow> \<exists>u. s = u @ t \<and> u \<noteq> [] \<and> (\<forall>c \<in> set u. p c)"
proof (induction p s rule: runs.induct)
  case (2 p c cs)
  show ?case
  proof (cases "t = cs")
    case True
    with 2 show ?thesis by (intro exI [of _ "[c]"]) (auto split: if_splits)
  next
    case False
    with 2 obtain u where "cs = u @ t" "\<forall>c \<in> set u. p c" "p c" by (auto split: if_splits)
    then show ?thesis by (intro exI [of _ "c # u"]) auto
  qed
qed simp

lemma runs_memI: "u \<noteq> [] \<Longrightarrow> \<forall>c \<in> set u. p c \<Longrightarrow> t \<in> set (runs p (u @ t))"
proof (induction u)
  case (Cons c u)
  then show ?case by (cases u) auto
qed simp

lemma py_lower_simps [simp]: "py_lower [] = []" "length (py_lower s) = length s" "py_lower (s @ t) = py_lower s @ py_lower t"
  by (simp_all add: py_lower_def)

lemma rx_match_suffix:
  "t \<in> set (rx_match r s) \<Longrightarrow> \<exists>u. s = u @ t"
  "t \<in> set (rx_seq rs s) \<Longrightarrow> \<exists>u. s = u @ t"
  "t \<in> set (rx_alt rs s) \<Longrightarrow> \<exists>u. s = u @ t"
proof (induction r s and rs s and rs s arbitrary: t and t and t rule: rx_match_rx_seq_rx_alt.induct)
  case (1 m s)
  then show ?case by (metis append_take_drop_id emptyE empty_set list.set_intros(1) rx_match.simps(1) set_ConsD)
next
  case (10 r rs s)
  then obtain v where v: "v \<in> set (rx_match r s)" "t \<in> set (rx_seq rs v)" by auto
  from 10(1) [OF v(1)] 10(2) [OF v(1) v(2)] show ?case by (metis append.assoc)
qed (auto split: list.splits if_splits dest: runs_suffix)

lemma rx_litI: "py_lower x = py_lower m \<Longrightarrow> t \<in> set (rx_match (RLit m) (x @ t))"
proof -
  assume a: "py_lower x = py_lower m"
  then have "length x = length m" by (metis py_lower_simps(2))
  with a show ?thesis by simp
qed

lemma rx_spacesI: "u \<noteq> [] \<Longrightarrow> \<forall>c \<in> set u. is_space c \<Longrightarrow> t \<in> set (rx_match RSpaces (u @ t))"
  by (simp add: runs_memI)

lemma rx_seqI: "v \<in> set (rx_match r s) \<Longrightarrow> t \<in> set (rx_seq rs v) \<Longrightarrow> t \<in> set (rx_seq (r # rs) s)"
  by auto

lemma rx_altI: "t \<in> set (rx_match r s) \<Longrightarrow> r \<in> set rs \<Longrightarrow> t \<in> set (rx_match (RAlt rs) s)"
proof -
  assume t: "t \<in> set (rx_match r s)"
  have "r \<in> set rs \<Longrightarrow> t \<in> set (rx_alt rs s)" by (induction rs) (use t in auto)
  then show "r \<in> set rs \<Longrightarrow> t \<in> set (rx_match (RAlt rs) s)" by simp
qed

lemma rx_search_from_found:
  assumes "rx_match r s \<noteq> []"
  shows "rx_search_from i r (a @ s) \<noteq> None"
proof (induction a arbitrary: i)
  case Nil
  from assms show ?case by (cases s) (auto split: list.splits)
next
  case (Cons c a)
  then show ?case by (auto split: list.splits)
qed

lemma rx_search_found: "t \<in> set (rx_match r s) \<Longrightarrow> rx_search r (a @ s) \<noteq> None"
  unfolding rx_search_def by (intro rx_search_from_found) auto

lemma rx_search_from_bounds:
  "rx_search_from i r s = Some (a, b) \<Longrightarrow> i \<le> a \<and> a \<le> b \<and> b \<le> i + length s"
proof (induction i r s rule: rx_search_from.induct)
  case (2 i r c cs)
  show ?case
  proof (cases "rx_match r (c # cs)")
    case Nil
    with 2 show ?thesis by auto
  qed (use 2 in auto)
qed (auto split: list.splits)

lemma rx_search_bounds: "rx_search r s = Some (a, b) \<Longrightarrow> a \<le> b \<and> b \<le> length s"
  using rx_search_from_bounds unfolding rx_search_def by fastforce

lemma rx_search_from_match:
  "rx_search_from i r s = Some (a, b) \<Longrightarrow> drop (b - i) s \<in> set (rx_match r (drop (a - i) s))"
proof (induction i r s rule: rx_search_from.induct)
  case (1 i r)
  then show ?case using rx_match_suffix(1) [of _ r "[]"] by (cases "rx_match r []") auto
next
  case (2 i r c cs)
  show ?case
  proof (cases "rx_match r (c # cs)")
    case Nil
    with 2 have h: "rx_search_from (Suc i) r cs = Some (a, b)" by simp
    then have "Suc i \<le> a" "a \<le> b" using rx_search_from_bounds by blast+
    then have "a - i = Suc (a - Suc i)" "b - i = Suc (b - Suc i)" by auto
    with 2(1) [OF Nil h] show ?thesis by simp
  next
    case (Cons rest more_rests)
    then obtain u where u: "c # cs = u @ rest" using rx_match_suffix(1) [of rest r "c # cs"] by auto
    then have "length (c # cs) - length rest = length u" by simp
    with 2(2) Cons have "a = i" "b = i + length u" by auto
    then show ?thesis using Cons by (simp add: u)
  qed
qed

text \<open>A reported span really is a match of the pattern, and lies within the text.\<close>

lemma rx_search_sound:
  assumes "rx_search r s = Some (a, b)"
  shows "drop b s \<in> set (rx_match r (drop a s)) \<and> a \<le> b \<and> b \<le> length s"
  using rx_search_from_match [of 0 r s a b] rx_search_bounds [OF assms] assms by (simp add: rx_search_def)

end
