(* ===== verification/Retry.thy ===== *)
theory Retry
  imports Prelude
begin

text \<open>
  Retries with exponential backoff (\<open>infrastructure/patterns/retry.py\<close>). The awaited function is a state transformer
  that raises or returns; \<open>random.uniform(-a, a)\<close> is \<open>a\<close> times a number of the argument \<open>noise\<close>, one per delay.
\<close>

record backoff =
  bo_min_delay :: rat
  bo_max_delay :: rat
  bo_jitter :: rat
  bo_multiplier :: rat

definition bo_default :: backoff where
  "bo_default = \<lparr>bo_min_delay = 1, bo_max_delay = 60, bo_jitter = 1/10, bo_multiplier = 2\<rparr>"

definition bo_delay :: "backoff \<Rightarrow> rat \<Rightarrow> nat \<Rightarrow> rat" where
  "bo_delay b u attempt =
     (let d = min (bo_min_delay b * bo_multiplier b ^ attempt) (bo_max_delay b)
      in d + u * (d * bo_jitter b))"

text \<open>The three classes of exceptions that \<open>retry_async\<close> distinguishes, in the order of its handlers.\<close>

datatype exc_class = NonRetryable | RetryableExc | OtherExc

record 'e retry_config =
  rt_max_attempts :: nat
  rt_backoff :: backoff
  rt_class :: "'e \<Rightarrow> exc_class"

datatype 'e retry_error = RetryExhausted nat "'e option" | Reraised 'e

fun retry_loop ::
  "'e retry_config \<Rightarrow> (nat \<Rightarrow> rat) \<Rightarrow> ('w \<Rightarrow> ('e + 'a) \<times> 'w) \<Rightarrow> nat \<Rightarrow> nat \<Rightarrow> 'e option \<Rightarrow> 'w
     \<Rightarrow> ('e retry_error + 'a) \<times> rat list \<times> 'w" where
  "retry_loop cfg noise fn 0 attempt lst w = (Inl (RetryExhausted (rt_max_attempts cfg) lst), [], w)"
| "retry_loop cfg noise fn (Suc n) attempt lst w =
     (case fn w of
        (Inr x, w1) \<Rightarrow> (Inr x, [], w1)
      | (Inl e, w1) \<Rightarrow>
          (case rt_class cfg e of
             RetryableExc \<Rightarrow>
               if n = 0 then (Inl (RetryExhausted (rt_max_attempts cfg) (Some e)), [], w1)
               else (let (res, ds, w2) = retry_loop cfg noise fn n (attempt + 1) (Some e) w1
                     in (res, bo_delay (rt_backoff cfg) (noise attempt) attempt # ds, w2))
           | _ \<Rightarrow> (Inl (Reraised e), [], w1)))"

definition retry_async ::
  "'e retry_config \<Rightarrow> (nat \<Rightarrow> rat) \<Rightarrow> ('w \<Rightarrow> ('e + 'a) \<times> 'w) \<Rightarrow> 'w \<Rightarrow> ('e retry_error + 'a) \<times> rat list \<times> 'w" where
  "retry_async cfg noise fn w = retry_loop cfg noise fn (rt_max_attempts cfg) 0 None w"

section \<open>Lemmas\<close>

text \<open>The world before the \<open>i\<close>-th attempt, counted from zero.\<close>

definition world_at :: "('w \<Rightarrow> ('e + 'a) \<times> 'w) \<Rightarrow> 'w \<Rightarrow> nat \<Rightarrow> 'w" where
  "world_at fn w i = ((\<lambda>v. snd (fn v)) ^^ i) w"

definition outcome_at :: "('w \<Rightarrow> ('e + 'a) \<times> 'w) \<Rightarrow> 'w \<Rightarrow> nat \<Rightarrow> 'e + 'a" where
  "outcome_at fn w i = fst (fn (world_at fn w i))"

text \<open>An attempt after which the loop goes on.\<close>

definition retries :: "'e retry_config \<Rightarrow> 'e + 'a \<Rightarrow> bool" where
  "retries cfg r = (case r of Inl e \<Rightarrow> rt_class cfg e = RetryableExc | Inr _ \<Rightarrow> False)"

text \<open>What the loop returns when an attempt with this outcome is its last.\<close>

definition verdict_of :: "'e retry_config \<Rightarrow> 'e + 'a \<Rightarrow> 'e retry_error + 'a" where
  "verdict_of cfg r = (case r of Inr x \<Rightarrow> Inr x
     | Inl e \<Rightarrow> Inl (if rt_class cfg e = RetryableExc then RetryExhausted (rt_max_attempts cfg) (Some e) else Reraised e))"

lemma world_at_Suc: "fn w = (r, w1) \<Longrightarrow> world_at fn w (Suc i) = world_at fn w1 i"
  by (simp add: world_at_def funpow_Suc_right del: funpow.simps)

lemma outcome_at_simps [simp]:
  "outcome_at fn w 0 = fst (fn w)" "fn w = (r, w1) \<Longrightarrow> outcome_at fn w (Suc i) = outcome_at fn w1 i"
  by (simp_all add: outcome_at_def world_at_Suc) (simp add: world_at_def)

lemma retry_loop_spec:
  assumes "retry_loop cfg noise fn (Suc n) a lst w = (res, ds, w')"
  shows "length ds \<le> n \<and> (\<forall>i < length ds. retries cfg (outcome_at fn w i) \<and> ds ! i = bo_delay (rt_backoff cfg) (noise (a + i)) (a + i))
     \<and> (length ds < n \<longrightarrow> \<not> retries cfg (outcome_at fn w (length ds)))
     \<and> res = verdict_of cfg (outcome_at fn w (length ds)) \<and> w' = world_at fn w (Suc (length ds))"
  using assms
proof (induction n arbitrary: a lst w res ds w')
  case 0
  then show ?case
    by (auto simp: verdict_of_def retries_def world_at_def split: prod.splits sum.splits exc_class.splits)
next
  case (Suc n)
  obtain r w1 where f: "fn w = (r, w1)" by fastforce
  show ?case
  proof (cases "retries cfg r")
    case False
    with Suc.prems f have "ds = []" "w' = w1" "res = verdict_of cfg r"
      by (auto simp: retries_def verdict_of_def split: sum.splits exc_class.splits)
    with f False show ?thesis by (simp add: world_at_def)
  next
    case True
    then obtain e where r: "r = Inl e" "rt_class cfg e = RetryableExc" by (auto simp: retries_def split: sum.splits)
    obtain res1 ds1 w2 where l: "retry_loop cfg noise fn (Suc n) (a + 1) (Some e) w1 = (res1, ds1, w2)"
      by (metis prod_cases3)
    with Suc.prems f r have ds: "ds = bo_delay (rt_backoff cfg) (noise a) a # ds1" "res = res1" "w' = w2" by auto
    from Suc.IH [OF l] f True show ?thesis
      by (auto simp: ds world_at_Suc nth_Cons split: nat.splits)
  qed
qed

lemma bo_delay_bounds:
  assumes "\<bar>u\<bar> \<le> 1" "0 \<le> bo_jitter b" "0 \<le> bo_min_delay b" "0 \<le> bo_multiplier b" "0 \<le> bo_max_delay b"
  shows "bo_delay b u k \<le> bo_max_delay b * (1 + bo_jitter b)" and "bo_jitter b \<le> 1 \<Longrightarrow> 0 \<le> bo_delay b u k"
proof -
  define d where "d = min (bo_min_delay b * bo_multiplier b ^ k) (bo_max_delay b)"
  have d: "0 \<le> d" "d \<le> bo_max_delay b" using assms by (auto simp: d_def)
  have e: "bo_delay b u k = d + u * (d * bo_jitter b)" by (simp add: bo_delay_def d_def Let_def)
  have j: "0 \<le> d * bo_jitter b" using d assms by simp
  have a: "\<bar>u * (d * bo_jitter b)\<bar> \<le> d * bo_jitter b" using mult_right_mono [OF assms(1) j] d assms(2) by (simp add: abs_mult)
  have "d * (1 + bo_jitter b) \<le> bo_max_delay b * (1 + bo_jitter b)" using d assms by (intro mult_right_mono) auto
  with a show "bo_delay b u k \<le> bo_max_delay b * (1 + bo_jitter b)" unfolding e by (simp add: algebra_simps)
  show "0 \<le> bo_delay b u k" if "bo_jitter b \<le> 1"
  proof -
    have "d * bo_jitter b \<le> d" using d that by (simp add: mult_left_le)
    with a show ?thesis unfolding e by linarith
  qed
qed

section \<open>Properties\<close>

text \<open>A retried call with a positive number of attempts runs the function as long as it raises a retryable exception and
  attempts are left, at most \<open>max_attempts\<close> times in all: it sleeps once between two attempts, every earlier outcome was
  retryable, the outcome of the last attempt is what the caller gets (its value, the exhaustion error, or the exception
  itself), and the world is the one after that attempt. Every sleep is between zero and the maximal delay plus jitter.\<close>

theorem retry_runs_until_settled:
  assumes "retry_async cfg noise fn w = (res, ds, w')" and "0 < rt_max_attempts cfg"
    and "rt_backoff cfg = bo_default" and "\<And>i. \<bar>noise i\<bar> \<le> 1"
  shows "length ds < rt_max_attempts cfg
     \<and> (\<forall>i < length ds. retries cfg (outcome_at fn w i) \<and> 0 \<le> ds ! i \<and> ds ! i \<le> 66)
     \<and> (Suc (length ds) < rt_max_attempts cfg \<longrightarrow> \<not> retries cfg (outcome_at fn w (length ds)))
     \<and> res = verdict_of cfg (outcome_at fn w (length ds)) \<and> w' = world_at fn w (Suc (length ds))"
proof -
  obtain n where n: "rt_max_attempts cfg = Suc n" using assms(2) by (cases "rt_max_attempts cfg") auto
  from assms(1) n have "retry_loop cfg noise fn (Suc n) 0 None w = (res, ds, w')" by (simp add: retry_async_def)
  note s = retry_loop_spec [OF this]
  have b: "0 \<le> bo_delay bo_default (noise k) k \<and> bo_delay bo_default (noise k) k \<le> 66" for k
    using bo_delay_bounds [of "noise k" bo_default k] assms(4) by (auto simp: bo_default_def)
  from s n assms(3) b show ?thesis by auto
qed

definition demo_retry :: "string retry_config" where
  "demo_retry = \<lparr>rt_max_attempts = 3, rt_backoff = bo_default,
     rt_class = (\<lambda>e. if e = ''ConnectionError'' then RetryableExc else OtherExc)\<rparr>"

definition demo_flaky :: "nat \<Rightarrow> (string + nat) \<times> nat" where
  "demo_flaky k = (if k < 2 then (Inl ''ConnectionError'', k + 1) else (Inr k, k + 1))"

theorem retry_runs_until_settled_witness:
  "fst (retry_async demo_retry (\<lambda>_. 0) demo_flaky 0) = Inr 2 \<and> fst (snd (retry_async demo_retry (\<lambda>_. 0) demo_flaky 0)) = [1, 2]
     \<and> (Inr 2 :: string retry_error + nat) = verdict_of demo_retry (outcome_at demo_flaky 0 2)"
proof -
  have e: "retry_async demo_retry (\<lambda>_. 0) demo_flaky 0 = (Inr 2, [1, 2], 3)" by code_simp
  have "0 < rt_max_attempts demo_retry" "rt_backoff demo_retry = bo_default" by (simp_all add: demo_retry_def)
  from retry_runs_until_settled [OF e this] have "(Inr 2 :: string retry_error + nat) = verdict_of demo_retry (outcome_at demo_flaky 0 2)"
    by (simp add: numeral_2_eq_2)
  with e show ?thesis by simp
qed

end
