(* ===== verification/Governance.thy ===== *)
theory Governance
  imports Py_Json Quota
begin

text \<open>
  Governance of a tenant: the configuration read from stored data (\<open>modules/tenant_config/service.py\<close>,
  \<open>domain/tenant\<close>), the per-surface artefact compiled from it (\<open>governance/compiled.py\<close>), the budget hierarchy handed to
  the gateway (\<open>governance/budgets.py\<close>), surfaces and the tool registry (\<open>SurfaceRepository\<close>, \<open>ToolRegistryRepository\<close>),
  the tool gate (\<open>governance/toolgate.py\<close>), names in shared stores (\<open>governance/isolation.py\<close>) and regions
  (\<open>governance/residency.py\<close>). The JSON schema validator and the hash of the source are parameters.
\<close>

section \<open>Tenant configuration\<close>

text \<open>\<open>{**a, **b}\<close>.\<close>

definition dict_merge :: "(string \<times> 'v) list \<Rightarrow> (string \<times> 'v) list \<Rightarrow> (string \<times> 'v) list" where
  "dict_merge a b = fold (\<lambda>(k, v). AList.update k v) b a"

record tenant_payload =
  tp_id :: string
  tp_name :: string
  tp_slug :: string
  tp_allowed_topics :: "string list option"
  tp_blocked_topics :: "string list option"
  tp_escalation_threshold :: "rat option"
  tp_knowledge_allowlist :: "string list option"
  tp_default_provider :: "string option"
  tp_default_model :: "string option"
  tp_features :: "(string \<times> bool) list option"
  tp_guardrail_config :: "(string \<times> bool) list option"
  tp_guardrail_thresholds :: "(string \<times> rat) list option"
  tp_budgets :: "(string \<times> rat) list option"
  tp_tool_clearing :: "(string \<times> rat) list option"
  tp_memory :: "(string \<times> rat) list option"
  tp_stream_moderation_window_chars :: "int option"

record tenant_config =
  tn_id :: string
  tn_name :: string
  tn_slug :: string
  tn_allowed_topics :: "string list"
  tn_blocked_topics :: "string list"
  tn_escalation_threshold :: rat
  tn_knowledge_allowlist :: "string list"
  tn_default_provider :: string
  tn_default_model :: string
  tn_features :: "(string \<times> bool) list"
  tn_guardrail_config :: "(string \<times> bool) list"
  tn_guardrail_thresholds :: "(string \<times> rat) list"
  tn_budgets :: "(string \<times> rat) list"
  tn_tool_clearing :: "(string \<times> rat) list"
  tn_memory :: "(string \<times> rat) list"
  tn_stream_moderation_window_chars :: "int option"

definition default_guardrails :: "(string \<times> bool) list" where
  "default_guardrails = [(''regex_fastpath'', True), (''classifier'', True), (''nemo_rails'', False), (''jailbreak_detection'', True),
     (''output_validation'', True), (''pii_detection'', True), (''spotlighting'', True)]"

definition default_budgets :: "(string \<times> rat) list" where
  "default_budgets = [(''max_redact_iterations'', 2), (''max_graph_steps'', 50), (''max_duration_s'', 60)]"

definition tenant_config_from_data :: "tenant_payload \<Rightarrow> tenant_config" where
  "tenant_config_from_data d =
     \<lparr>tn_id = tp_id d, tn_name = tp_name d, tn_slug = tp_slug d, tn_allowed_topics = get_or (tp_allowed_topics d) [],
      tn_blocked_topics = get_or (tp_blocked_topics d) [], tn_escalation_threshold = get_or (tp_escalation_threshold d) (7/10),
      tn_knowledge_allowlist = get_or (tp_knowledge_allowlist d) [], tn_default_provider = get_or (tp_default_provider d) ''openai'',
      tn_default_model = get_or (tp_default_model d) ''gpt-4'', tn_features = get_or (tp_features d) [],
      tn_guardrail_config = dict_merge default_guardrails (get_or (tp_guardrail_config d) []),
      tn_guardrail_thresholds = dict_merge [(''classifier'', 1/2), (''jailbreak'', 7/10), (''pii'', 1/2)] (get_or (tp_guardrail_thresholds d) []),
      tn_budgets = dict_merge default_budgets (get_or (tp_budgets d) []),
      tn_tool_clearing = dict_merge [(''keep_recent_turns'', 2)] (get_or (tp_tool_clearing d) []),
      tn_memory = dict_merge [(''max_facts'', 20), (''expiry_days'', 30)] (get_or (tp_memory d) []),
      tn_stream_moderation_window_chars = tp_stream_moderation_window_chars d\<rparr>"

definition is_topic_allowed :: "tenant_config \<Rightarrow> string \<Rightarrow> bool" where
  "is_topic_allowed c topic =
     (if topic \<in> set (tn_blocked_topics c) then False
      else if tn_allowed_topics c \<noteq> [] \<and> topic \<notin> set (tn_allowed_topics c) then False else True)"

definition should_escalate :: "tenant_config \<Rightarrow> rat \<Rightarrow> bool" where
  "should_escalate c confidence \<longleftrightarrow> confidence < tn_escalation_threshold c"

definition is_guardrail_enabled :: "tenant_config \<Rightarrow> string \<Rightarrow> bool" where
  "is_guardrail_enabled c name = get_or (map_of (tn_guardrail_config c) name) True"

section \<open>Surfaces and tools\<close>

record surface =
  sf_id :: string
  sf_tenant_id :: string
  sf_name :: string
  sf_surface_type :: string
  sf_persona :: "string option"
  sf_knowledge_allowlist :: "string list"
  sf_tool_allowlist :: "string list"
  sf_model_pin :: "string option"
  sf_budgets :: "(string \<times> rat) list"
  sf_brand_voice_override :: "json option"
  sf_active :: bool
  sf_created_at :: time

definition sf_get :: "surface list \<Rightarrow> string \<Rightarrow> string \<Rightarrow> surface option" where
  "sf_get rows tenant sid = find (\<lambda>s. sf_tenant_id s = tenant \<and> sf_id s = sid) rows"

definition sf_get_default :: "surface list \<Rightarrow> string \<Rightarrow> surface option" where
  "sf_get_default rows tenant = (case py_sorted sf_created_at (filter (\<lambda>s. sf_tenant_id s = tenant \<and> sf_active s) rows) of
     [] \<Rightarrow> None | s # _ \<Rightarrow> Some s)"

definition resolve_surface :: "surface list \<Rightarrow> string \<Rightarrow> string option \<Rightarrow> surface option" where
  "resolve_surface rows tenant sid =
     (case (if truthy_str sid then sf_get rows tenant (the sid) else sf_get_default rows tenant) of
        None \<Rightarrow> None
      | Some s \<Rightarrow> if sf_active s then Some s else None)"

record registered_tool =
  rt_tenant_id :: string
  rt_name :: string
  rt_description :: "string option"
  rt_schema :: json
  rt_enabled :: bool
  rt_auth_config :: "(string \<times> json) list option"
  rt_created_at :: time

definition of_tool :: "string \<Rightarrow> string \<Rightarrow> registered_tool \<Rightarrow> bool" where
  "of_tool tenant name t \<longleftrightarrow> rt_tenant_id t = tenant \<and> rt_name t = name"

text \<open>The unique constraint on tenant and name refuses a second registration.\<close>

definition tool_register ::
  "string \<Rightarrow> string \<Rightarrow> string option \<Rightarrow> json option \<Rightarrow> bool \<Rightarrow> (string \<times> json) list option \<Rightarrow> time \<Rightarrow> registered_tool list \<Rightarrow> registered_tool list option" where
  "tool_register tenant name description schema enabled auth now rows =
     (if list_ex (of_tool tenant name) rows then None
      else Some (rows @ [\<lparr>rt_tenant_id = tenant, rt_name = name, rt_description = description,
                   rt_schema = (case schema of Some s \<Rightarrow> if jtruthy s then s else JObj [(''type'', JStr ''object'')] | None \<Rightarrow> JObj [(''type'', JStr ''object'')]),
                   rt_enabled = enabled, rt_auth_config = auth, rt_created_at = now\<rparr>]))"

definition tool_set_enabled :: "string \<Rightarrow> string \<Rightarrow> bool \<Rightarrow> registered_tool list \<Rightarrow> registered_tool list" where
  "tool_set_enabled tenant name enabled rows = map (\<lambda>t. if of_tool tenant name t then t\<lparr>rt_enabled := enabled\<rparr> else t) rows"

definition tool_update_config ::
  "string \<Rightarrow> string \<Rightarrow> string option \<Rightarrow> (string \<times> json) list option \<Rightarrow> registered_tool list \<Rightarrow> registered_tool list" where
  "tool_update_config tenant name description auth rows =
     map (\<lambda>t. if of_tool tenant name t
              then t\<lparr>rt_description := (case description of None \<Rightarrow> rt_description t | d \<Rightarrow> d),
                     rt_auth_config := (if get_or auth [] = [] then rt_auth_config t
                                        else Some (dict_merge (get_or (rt_auth_config t) []) (the auth)))\<rparr>
              else t) rows"

definition tool_delete :: "string \<Rightarrow> string \<Rightarrow> registered_tool list \<Rightarrow> bool \<times> registered_tool list" where
  "tool_delete tenant name rows = (list_ex (of_tool tenant name) rows, filter (\<lambda>t. \<not> of_tool tenant name t) rows)"

definition enabled_map :: "registered_tool list \<Rightarrow> string \<Rightarrow> (string \<times> bool) list" where
  "enabled_map rows tenant =
     dict_merge [] (map (\<lambda>t. (rt_name t, rt_enabled t)) (py_sorted rt_created_at (filter (\<lambda>t. rt_tenant_id t = tenant) rows)))"

section \<open>Compilation\<close>

record compiled_surface =
  cs_tenant_id :: string
  cs_surface_id :: "string option"
  cs_version :: nat
  cs_source_hash :: string
  cs_ingress_rails :: "(string \<times> bool) list"
  cs_egress_rails :: "(string \<times> bool) list"
  cs_tool_allowlist :: "string list"
  cs_budgets :: "(string \<times> rat) list"
  cs_knowledge_allowlist :: "string list"
  cs_brand_voice :: "json option"
  cs_deny_by_default :: bool

datatype compile_error = ConfigValidationError | AttributeError

definition ingress_rail_order :: "string list" where
  "ingress_rail_order = [''regex_fastpath'', ''classifier'', ''nemo_rails'', ''spotlighting'', ''pii_detection'']"

definition egress_rail_order :: "string list" where
  "egress_rail_order = [''output_validation'', ''pii_detection'', ''jailbreak_detection'']"

text \<open>\<open>(cfg.get("guardrail_config") or {}).get(rail, True)\<close>: under that name a dictionary of flags has a flag or nothing.\<close>

definition rail_enabled :: "(string \<times> bool) list \<Rightarrow> string \<Rightarrow> compile_error + bool" where
  "rail_enabled cfg rail = (if map_of cfg ''guardrail_config'' = Some True then Inl AttributeError else Inr True)"

fun rails :: "(string \<times> bool) list \<Rightarrow> string list \<Rightarrow> compile_error + (string \<times> bool) list" where
  "rails cfg [] = Inr []"
| "rails cfg (r # rs) = (case rail_enabled cfg r of
     Inl e \<Rightarrow> Inl e
   | Inr b \<Rightarrow> (case rails cfg rs of Inl e \<Rightarrow> Inl e | Inr bs \<Rightarrow> Inr ((r, b) # bs)))"

definition compose_budgets :: "usd \<Rightarrow> usd \<Rightarrow> (string \<times> rat) list \<Rightarrow> surface option \<Rightarrow> (string \<times> rat) list" where
  "compose_budgets platform_usd tenant_usd tenant_budgets sf =
     (let kept = filter (\<lambda>(k, v). k \<notin> {''quota_platform_usd'', ''quota_tenant_usd''}) tenant_budgets;
          of_surface = (\<lambda>k. case sf of None \<Rightarrow> 0 | Some s \<Rightarrow> get_or (map_of (sf_budgets s) k) 0)
      in dict_merge kept
           [(''quota_platform_usd'', platform_usd),
            (''quota_tenant_usd'', get_or (map_of tenant_budgets ''monthly_usd'') tenant_usd),
            (''quota_surface_usd'', of_surface ''monthly_usd''),
            (''quota_end_user_usd'', of_surface ''end_user_monthly_usd'')])"

definition compile_surface_config ::
  "(tenant_payload \<Rightarrow> bool) \<Rightarrow> (tenant_payload \<Rightarrow> string) \<Rightarrow> usd \<Rightarrow> usd \<Rightarrow> tenant_payload \<Rightarrow> surface option \<Rightarrow> nat \<Rightarrow> compile_error + compiled_surface" where
  "compile_surface_config schema_ok source_hash platform_usd tenant_usd payload sf version =
     (if \<not> schema_ok payload then Inl ConfigValidationError
      else let c = tenant_config_from_data payload
           in case rails (tn_guardrail_config c) ingress_rail_order of
                Inl e \<Rightarrow> Inl e
              | Inr ingress \<Rightarrow>
                  (case rails (tn_guardrail_config c) egress_rail_order of
                     Inl e \<Rightarrow> Inl e
                   | Inr egress \<Rightarrow>
                       Inr \<lparr>cs_tenant_id = tp_id payload, cs_surface_id = map_option sf_id sf, cs_version = version,
                            cs_source_hash = source_hash payload, cs_ingress_rails = ingress, cs_egress_rails = egress,
                            cs_tool_allowlist = (case sf of None \<Rightarrow> [] | Some s \<Rightarrow> py_sorted (\<lambda>x. x) (sf_tool_allowlist s)),
                            cs_budgets = compose_budgets platform_usd tenant_usd (tn_budgets c) sf,
                            cs_knowledge_allowlist = (case sf of None \<Rightarrow> [] | Some s \<Rightarrow> py_sorted (\<lambda>x. x) (sf_knowledge_allowlist s)),
                            cs_brand_voice = Option.bind sf sf_brand_voice_override,
                            cs_deny_by_default = (case sf of None \<Rightarrow> True | Some s \<Rightarrow> \<not> sf_active s)\<rparr>))"

definition allows_tool :: "compiled_surface \<Rightarrow> string \<Rightarrow> bool" where
  "allows_tool cs name \<longleftrightarrow> cs_tool_allowlist cs \<noteq> [] \<and> name \<in> set (cs_tool_allowlist cs)"

section \<open>Budgets\<close>

definition build_gateway_budget_cfg :: "(string \<times> rat) list \<Rightarrow> gateway_cfg" where
  "build_gateway_budget_cfg b = empty_cfg
     \<lparr>gc_quota_platform_usd := Some (get_or (map_of b ''quota_platform_usd'') 0),
      gc_quota_tenant_usd := Some (get_or (map_of b ''quota_tenant_usd'') 0),
      gc_quota_surface_usd := Some (get_or (map_of b ''quota_surface_usd'') 0),
      gc_quota_end_user_usd := Some (get_or (map_of b ''quota_end_user_usd'') 0)\<rparr>"

definition surface_over_budget_while_tenant_fine :: "usd \<Rightarrow> usd \<Rightarrow> usd \<Rightarrow> usd \<Rightarrow> usd \<Rightarrow> bool" where
  "surface_over_budget_while_tenant_fine tenant_usd surface_usd tenant_spent surface_spent estimated =
     (if surface_usd \<le> 0 then False
      else surface_usd < surface_spent + estimated \<and> \<not> (0 < tenant_usd \<and> tenant_usd < tenant_spent + estimated))"

definition budget_rejection_message :: "string \<Rightarrow> rat option \<Rightarrow> rat option \<Rightarrow> string" where
  "budget_rejection_message level limit_usd projected_usd =
     get_or (map_of [(''platform'', ''The platform budget''), (''tenant'', ''The tenant budget''), (''surface'', ''This surface's budget''),
                     (''end_user'', ''This user's budget'')] level) (if level = [] then ''budget'' else level)
     @ '' has reached ''
     @ (case limit_usd of Some x \<Rightarrow> ''$'' @ py_fixed2 x | None \<Rightarrow> ''its monthly limit'')
     @ (case projected_usd of Some x \<Rightarrow> '' (projected $'' @ py_fixed2 x @ '')'' | None \<Rightarrow> [])
     @ '' this month. This request was rejected. Contact your administrator to raise the budget.''"

section \<open>Tool gate\<close>

record tool_authorization =
  ta_tool_name :: string
  ta_allowed :: bool
  ta_reason :: "string option"
  ta_surface_id :: "string option"

record tool_gate =
  tg_tenant_id :: string
  tg_registered :: "(string \<times> bool) list"
  tg_allowlist :: "string list"
  tg_surface_id :: "string option"

definition tool_deny :: "tool_gate \<Rightarrow> string \<Rightarrow> string \<Rightarrow> tool_authorization" where
  "tool_deny g name reason = \<lparr>ta_tool_name = name, ta_allowed = False, ta_reason = Some reason, ta_surface_id = tg_surface_id g\<rparr>"

text \<open>A call is given by its name, which may be missing.\<close>

definition authorize :: "tool_gate \<Rightarrow> string option \<Rightarrow> tool_authorization" where
  "authorize g call_name =
     (let name = str_or call_name [] in
      if name = [] then tool_deny g name ''missing tool name''
      else if \<not> get_or (map_of (tg_registered g) name) False then tool_deny g name ''tool not enabled for tenant''
      else if name \<notin> set (tg_allowlist g) then tool_deny g name ''tool not in surface allowlist''
      else \<lparr>ta_tool_name = name, ta_allowed = True, ta_reason = None, ta_surface_id = tg_surface_id g\<rparr>)"

text \<open>\<open>authorize_async\<close> with the audit trail of denials; a failing audit does not change the decision.\<close>

definition authorize_audited :: "tool_gate \<Rightarrow> string option \<Rightarrow> bool \<Rightarrow> tool_authorization list \<Rightarrow> tool_authorization \<times> tool_authorization list" where
  "authorize_audited g call_name audit_ok trail =
     (let d = authorize g call_name in (d, if \<not> ta_allowed d \<and> audit_ok then trail @ [d] else trail))"

definition build_authorizer :: "tenant_config \<Rightarrow> registered_tool list \<Rightarrow> surface option \<Rightarrow> tool_gate" where
  "build_authorizer c tools sf =
     \<lparr>tg_tenant_id = tn_id c, tg_registered = enabled_map tools (tn_id c),
      tg_allowlist = (case sf of None \<Rightarrow> [] | Some s \<Rightarrow> sf_tool_allowlist s), tg_surface_id = map_option sf_id sf\<rparr>"

section \<open>Names in shared stores\<close>

record tenant_context =
  tx_tenant_id :: string
  tx_surface_id :: "string option"
  tx_end_user_id :: "string option"

definition resolve_tenant_context :: "string \<Rightarrow> surface option \<Rightarrow> string option \<Rightarrow> tenant_context" where
  "resolve_tenant_context tenant sf uid = \<lparr>tx_tenant_id = tenant, tx_surface_id = map_option sf_id sf, tx_end_user_id = uid\<rparr>"

definition redis_prefix :: "tenant_context \<Rightarrow> string" where
  "redis_prefix c =
     (if truthy_str (tx_end_user_id c) then ''tenant:'' @ tx_tenant_id c @ '':end_user:'' @ the (tx_end_user_id c) @ '':''
      else ''tenant:'' @ tx_tenant_id c @ '':'')"

definition vector_namespace :: "tenant_context \<Rightarrow> string option \<Rightarrow> string" where
  "vector_namespace c kb =
     (if truthy_str kb then ''tenant_'' @ tx_tenant_id c @ ''_kb_'' @ the kb else ''tenant_'' @ tx_tenant_id c)"

definition storage_prefix :: "tenant_context \<Rightarrow> string" where
  "storage_prefix c = ''tenant/'' @ tx_tenant_id c @ ''/''"

definition redis_key :: "tenant_context \<Rightarrow> string list \<Rightarrow> string" where
  "redis_key c parts = redis_prefix c @ py_join '':'' parts"

definition storage_key :: "tenant_context \<Rightarrow> string list \<Rightarrow> string" where
  "storage_key c parts = storage_prefix c @ py_join ''/'' parts"

definition trace_tags :: "tenant_context \<Rightarrow> (string \<times> string) list" where
  "trace_tags c =
     [(''tenant_id'', tx_tenant_id c)]
     @ (if truthy_str (tx_surface_id c) then [(''surface_id'', the (tx_surface_id c))] else [])
     @ (if truthy_str (tx_end_user_id c) then [(''end_user_id'', the (tx_end_user_id c))] else [])"

section \<open>Regions\<close>

definition supported_regions :: "string list" where
  "supported_regions = [''eu-west-1'', ''us-east-1'', ''us-west-2'', ''ap-southeast-1'']"

datatype region_error = UnsupportedRegion string

definition resolve_region :: "string option \<Rightarrow> region_error + string" where
  "resolve_region region = (case region of
     None \<Rightarrow> Inr ''eu-west-1''
   | Some s \<Rightarrow> (let r = py_lower (py_strip s) in if r \<notin> set supported_regions then Inl (UnsupportedRegion r) else Inr r))"

definition archive_prefix :: "string \<Rightarrow> string option \<Rightarrow> region_error + string" where
  "archive_prefix tenant region = (case resolve_region region of
     Inl e \<Rightarrow> Inl e
   | Inr r \<Rightarrow> Inr (''tenant/'' @ tenant @ ''/archive/'' @ r @ ''/''))"

definition deployment_shape :: "tenant_config \<Rightarrow> string" where
  "deployment_shape c = (if get_or (map_of (tn_features c) ''dedicated_deployment'') False then ''dedicated'' else ''shared'')"

section \<open>Lemmas\<close>

lemma map_of_dict_merge: "map_of (dict_merge a b) = map_of a ++ map_of (rev b)"
proof (induction b arbitrary: a)
  case (Cons x b)
  obtain k v where x: "x = (k, v)" by force
  have "map_of (dict_merge a (x # b)) = map_of (AList.update k v a) ++ map_of (rev b)"
    using Cons.IH by (simp add: dict_merge_def x)
  then show ?case by (simp add: x update_conv map_add_def fun_eq_iff split: option.split)
qed (simp add: dict_merge_def)

lemma map_of_rev_distinct: "distinct (map fst xs) \<Longrightarrow> map_of (rev xs) = map_of xs"
  by (simp add: map_of_inject_set rev_map [symmetric])

lemma rails_enabled:
  "map_of cfg ''guardrail_config'' \<noteq> Some True \<Longrightarrow> rails cfg order = Inr (map (\<lambda>r. (r, True)) order)"
  by (induction order) (auto simp: rail_enabled_def)

lemma rails_value: "rails cfg order = Inr bs \<Longrightarrow> bs = map (\<lambda>r. (r, True)) order"
  by (induction order arbitrary: bs) (auto simp: rail_enabled_def split: sum.splits if_splits)

definition tools_unique :: "registered_tool list \<Rightarrow> bool" where
  "tools_unique rows \<longleftrightarrow> distinct (map (\<lambda>t. (rt_tenant_id t, rt_name t)) rows)"

lemma tools_unique_ops:
  "tools_unique rows \<Longrightarrow> tool_register tenant name d sc en au now rows = Some rows' \<Longrightarrow> tools_unique rows'"
  "tools_unique rows \<Longrightarrow> tools_unique (tool_set_enabled tenant name en rows)"
  "tools_unique rows \<Longrightarrow> tools_unique (tool_update_config tenant name d au rows)"
  "tools_unique rows \<Longrightarrow> tools_unique (snd (tool_delete tenant name rows))"
proof -
  show "tools_unique rows \<Longrightarrow> tool_register tenant name d sc en au now rows = Some rows' \<Longrightarrow> tools_unique rows'"
    by (auto simp: tools_unique_def tool_register_def of_tool_def list_ex_iff split: if_splits)
  have same: "map (\<lambda>t. (rt_tenant_id t, rt_name t)) (map f rows) = map (\<lambda>t. (rt_tenant_id t, rt_name t)) rows"
    if "\<And>t. rt_tenant_id (f t) = rt_tenant_id t \<and> rt_name (f t) = rt_name t" for f
    using that by (induction rows) auto
  show "tools_unique rows \<Longrightarrow> tools_unique (tool_set_enabled tenant name en rows)"
    "tools_unique rows \<Longrightarrow> tools_unique (tool_update_config tenant name d au rows)"
    unfolding tools_unique_def tool_set_enabled_def tool_update_config_def by (subst same; simp)+
  show "tools_unique rows \<Longrightarrow> tools_unique (snd (tool_delete tenant name rows))"
    unfolding tools_unique_def tool_delete_def by (auto simp: distinct_map intro: inj_on_subset)
qed

lemma enabled_map_lookup:
  assumes "tools_unique rows"
  shows "map_of (enabled_map rows tenant) name = map_option rt_enabled (find (of_tool tenant name) rows)"
proof -
  let ?ts = "py_sorted rt_created_at (filter (\<lambda>t. rt_tenant_id t = tenant) rows)"
  let ?kvs = "map (\<lambda>t. (rt_name t, rt_enabled t)) ?ts"
  have "distinct (map (\<lambda>t. (rt_tenant_id t, rt_name t)) (filter (\<lambda>t. rt_tenant_id t = tenant) rows))"
    using assms unfolding tools_unique_def by (rule distinct_map_filter)
  then have "inj_on rt_name (set ?ts)" "distinct ?ts" by (auto simp: distinct_map inj_on_def)
  then have d: "distinct (map fst ?kvs)" by (simp add: distinct_map comp_def inj_on_def)
  then have m: "map_of (enabled_map rows tenant) = map_of ?kvs"
    by (simp add: enabled_map_def map_of_dict_merge map_of_rev_distinct)
  show ?thesis
  proof (cases "find (of_tool tenant name) rows")
    case None
    then have "name \<notin> rt_name ` {t \<in> set rows. rt_tenant_id t = tenant}" by (auto simp: find_None_iff of_tool_def)
    then have "map_of ?kvs name = None" by (simp add: map_of_eq_None_iff image_image)
    then show ?thesis using m None by simp
  next
    case (Some t)
    then have t: "t \<in> set rows" "rt_tenant_id t = tenant" "rt_name t = name" using find_SomeD by (fastforce simp: of_tool_def)+
    then have "(name, rt_enabled t) \<in> set ?kvs" by (auto simp: image_iff)
    then have "map_of ?kvs name = Some (rt_enabled t)" using d by simp
    then show ?thesis using m Some by simp
  qed
qed

section \<open>Properties\<close>

text \<open>C31: The tool gate built for a request allows a call exactly when it names a tool that the tenant has registered and enabled and
  that the request's surface lists; then the compiled artefact of that surface allows the tool too. Without a surface, or
  with an empty list, nothing is allowed.
\<close>

theorem tool_gate_decides:
  assumes "tools_unique tools" "compile_surface_config schema_ok source_hash pu tu payload sf version = Inr cs"
  shows "ta_allowed (authorize (build_authorizer c tools sf) call) \<longleftrightarrow>
      (\<exists>name s t. call = Some name \<and> name \<noteq> [] \<and> sf = Some s \<and> name \<in> set (sf_tool_allowlist s)
         \<and> t \<in> set tools \<and> rt_tenant_id t = tn_id c \<and> rt_name t = name \<and> rt_enabled t \<and> allows_tool cs name)"
proof -
  have en: "get_or (map_of (enabled_map tools (tn_id c)) name) False \<longleftrightarrow> (\<exists>t\<in>set tools. rt_tenant_id t = tn_id c \<and> rt_name t = name \<and> rt_enabled t)" for name
  proof (cases "find (of_tool (tn_id c) name) tools")
    case None
    then have "map_of (enabled_map tools (tn_id c)) name = None" using enabled_map_lookup [OF assms(1)] by simp
    moreover have "\<not> (\<exists>t\<in>set tools. rt_tenant_id t = tn_id c \<and> rt_name t = name)" using None by (auto simp: find_None_iff of_tool_def)
    ultimately show ?thesis by (auto simp: get_or_def)
  next
    case (Some t)
    then have t: "t \<in> set tools" "rt_tenant_id t = tn_id c" "rt_name t = name" using find_SomeD by (fastforce simp: of_tool_def)+
    have "x = t" if "x \<in> set tools" "rt_tenant_id x = tn_id c" "rt_name x = name" for x
      using that t assms(1) by (auto simp: tools_unique_def distinct_map inj_on_def)
    then have "(\<exists>x\<in>set tools. rt_tenant_id x = tn_id c \<and> rt_name x = name \<and> rt_enabled x) \<longleftrightarrow> rt_enabled t" using t by metis
    moreover have "map_of (enabled_map tools (tn_id c)) name = Some (rt_enabled t)" using enabled_map_lookup [OF assms(1)] Some by simp
    ultimately show ?thesis by (simp add: get_or_def)
  qed
  have al: "allows_tool cs name" if "sf = Some s" "name \<in> set (sf_tool_allowlist s)" for s name
  proof -
    have "cs_tool_allowlist cs = py_sorted (\<lambda>x. x) (sf_tool_allowlist s)"
      using assms(2) that(1) by (auto simp: compile_surface_config_def Let_def split: if_splits sum.splits)
    then show ?thesis using that(2) by (metis allows_tool_def empty_iff empty_set set_py_sorted)
  qed
  show ?thesis
  proof (cases call)
    case (Some name)
    have "ta_allowed (authorize (build_authorizer c tools sf) call) \<longleftrightarrow>
        name \<noteq> [] \<and> get_or (map_of (enabled_map tools (tn_id c)) name) False \<and> (\<exists>s. sf = Some s \<and> name \<in> set (sf_tool_allowlist s))"
      by (cases sf) (simp_all add: Some authorize_def build_authorizer_def tool_deny_def Let_def str_or_def truthy_str_def)
    then show ?thesis using en [of name] al Some by blast
  qed (simp add: authorize_def tool_deny_def Let_def str_or_def truthy_str_def)
qed

text \<open>
  The four limits the gateway enforces for a request: the platform's limit is the platform setting whatever the tenant or the
  surface configures, the tenant's is its own monthly budget or the setting, and the lower levels come from the surface.
\<close>

theorem compiled_limits_reach_gateway:
  assumes "compile_surface_config schema_ok source_hash pu tu payload sf version = Inr cs"
  shows "quota_limits_from_cfg (with_defaults (build_gateway_budget_cfg (cs_budgets cs))) =
    \<lparr>ql_platform_usd = pu, ql_tenant_usd = get_or (map_of (tn_budgets (tenant_config_from_data payload)) ''monthly_usd'') tu,
     ql_surface_usd = (case sf of None \<Rightarrow> 0 | Some s \<Rightarrow> get_or (map_of (sf_budgets s) ''monthly_usd'') 0),
     ql_end_user_usd = (case sf of None \<Rightarrow> 0 | Some s \<Rightarrow> get_or (map_of (sf_budgets s) ''end_user_monthly_usd'') 0)\<rparr>"
proof -
  have "cs_budgets cs = compose_budgets pu tu (tn_budgets (tenant_config_from_data payload)) sf"
    using assms by (auto simp: compile_surface_config_def Let_def split: if_splits sum.splits)
  then show ?thesis
    by (simp add: quota_limits_from_cfg_def with_defaults_def build_gateway_budget_cfg_def compose_budgets_def map_of_dict_merge
        Let_def get_or_def num_or_def)
qed

lemma split_at_char:
  assumes "a @ c # x = b @ c # y" "c \<notin> set a" "c \<notin> set b"
  shows "a = b"
proof -
  have "takeWhile (\<lambda>d. d \<noteq> c) (a @ c # x) = a" "takeWhile (\<lambda>d. d \<noteq> c) (b @ c # y) = b"
    using assms(2,3) by (auto simp: takeWhile_append2 takeWhile_append)
  then show ?thesis using assms(1) by simp
qed

text \<open>Two requests of different tenants never share a key in Redis or in the object store, whatever their users and whatever
  the rest of the keys, as long as tenant identifiers are free of the separators.
\<close>

theorem tenants_share_no_key:
  assumes "tx_tenant_id c \<noteq> tx_tenant_id d" "CHR '':'' \<notin> set (tx_tenant_id c)" "CHR '':'' \<notin> set (tx_tenant_id d)"
    and "CHR ''/'' \<notin> set (tx_tenant_id c)" "CHR ''/'' \<notin> set (tx_tenant_id d)"
  shows "redis_key c ps \<noteq> redis_key d qs \<and> storage_key c ps \<noteq> storage_key d qs"
proof -
  have "\<exists>x. redis_key e rs = ''tenant:'' @ tx_tenant_id e @ CHR '':'' # x" for e rs
    by (auto simp: redis_key_def redis_prefix_def)
  moreover have "\<exists>x. storage_key e rs = ''tenant/'' @ tx_tenant_id e @ CHR ''/'' # x" for e rs
    by (auto simp: storage_key_def storage_prefix_def)
  ultimately show ?thesis using split_at_char assms by (metis same_append_eq)
qed

text \<open>
  Every rail of a compiled configuration is enabled, also those the tenant has switched off.
\<close>

theorem compiled_rails_ignore_configuration:
  assumes "compile_surface_config schema_ok source_hash pu tu payload sf version = Inr cs"
  shows "cs_ingress_rails cs = map (\<lambda>r. (r, True)) ingress_rail_order \<and> cs_egress_rails cs = map (\<lambda>r. (r, True)) egress_rail_order"
  using assms by (auto simp: compile_surface_config_def Let_def split: if_splits sum.splits dest: rails_value)

text \<open>
  An active surface without any list compiles to an artefact that does not deny by default.
\<close>

theorem empty_surface_not_denied:
  assumes "compile_surface_config schema_ok source_hash pu tu payload (Some s) version = Inr cs" "sf_active s"
  shows "\<not> cs_deny_by_default cs"
  using assms by (auto simp: compile_surface_config_def Let_def split: if_splits sum.splits)

text \<open>
  A region resolves to one of the supported ones, in which it is a fixed point, or to an error that names it; archives of a
  tenant lie under its own directory and region.
\<close>

theorem region_resolution:
  "case resolve_region region of
     Inr r \<Rightarrow> r \<in> set supported_regions \<and> resolve_region (Some r) = Inr r \<and> archive_prefix tenant region = Inr (''tenant/'' @ tenant @ ''/archive/'' @ r @ ''/'')
   | Inl (UnsupportedRegion r) \<Rightarrow> r \<notin> set supported_regions \<and> archive_prefix tenant region = Inl (UnsupportedRegion r)"
proof -
  have fix_point: "resolve_region (Some r) = Inr r" if "r \<in> set supported_regions" for r
  proof -
    have "py_lower (py_strip r) = r" using that unfolding supported_regions_def by (auto; code_simp)
    then show ?thesis using that by (simp add: resolve_region_def Let_def)
  qed
  have "''eu-west-1'' \<in> set supported_regions" by (simp add: supported_regions_def)
  then show ?thesis
    using fix_point by (auto simp: resolve_region_def archive_prefix_def Let_def split: option.split)
qed

subsection \<open>Witnesses\<close>

definition demo_payload :: tenant_payload where
  "demo_payload = \<lparr>tp_id = ''t1'', tp_name = ''Acme'', tp_slug = ''acme'', tp_allowed_topics = None, tp_blocked_topics = None,
     tp_escalation_threshold = None, tp_knowledge_allowlist = None, tp_default_provider = None, tp_default_model = None, tp_features = None,
     tp_guardrail_config = Some [(''classifier'', False)], tp_guardrail_thresholds = None,
     tp_budgets = Some [(''monthly_usd'', 50), (''quota_platform_usd'', 1000000)], tp_tool_clearing = None, tp_memory = None,
     tp_stream_moderation_window_chars = None\<rparr>"

definition demo_surface :: surface where
  "demo_surface = \<lparr>sf_id = ''s1'', sf_tenant_id = ''t1'', sf_name = ''web'', sf_surface_type = ''widget'', sf_persona = None,
     sf_knowledge_allowlist = [], sf_tool_allowlist = [''search''], sf_model_pin = None, sf_budgets = [(''monthly_usd'', 20)],
     sf_brand_voice_override = None, sf_active = True, sf_created_at = 0\<rparr>"

definition demo_compiled :: compiled_surface where
  "demo_compiled = projr (compile_surface_config (\<lambda>_. True) tp_slug 100 30 demo_payload (Some demo_surface) 1)"

lemma demo_compiled_ok: "compile_surface_config (\<lambda>_. True) tp_slug 100 30 demo_payload (Some demo_surface) 1 = Inr demo_compiled"
  unfolding demo_compiled_def by code_simp

definition demo_tools :: "registered_tool list" where
  "demo_tools = [\<lparr>rt_tenant_id = ''t1'', rt_name = ''search'', rt_description = None, rt_schema = JObj [], rt_enabled = True, rt_auth_config = None, rt_created_at = 0\<rparr>]"

theorem tool_gate_decides_witness:
  "ta_allowed (authorize (build_authorizer (tenant_config_from_data demo_payload) demo_tools (Some demo_surface)) (Some ''search''))"
proof -
  have "tools_unique demo_tools" by (simp add: tools_unique_def demo_tools_def)
  note d = tool_gate_decides [OF this demo_compiled_ok, of "tenant_config_from_data demo_payload" "Some ''search''"]
  have "allows_tool demo_compiled ''search''" by code_simp
  then show ?thesis unfolding d by (simp add: demo_tools_def demo_surface_def tenant_config_from_data_def demo_payload_def)
qed

theorem compiled_limits_reach_gateway_witness:
  "quota_limits_from_cfg (with_defaults (build_gateway_budget_cfg (cs_budgets demo_compiled))) =
     \<lparr>ql_platform_usd = 100, ql_tenant_usd = 50, ql_surface_usd = 20, ql_end_user_usd = 0\<rparr>"
proof -
  have "map_of (tn_budgets (tenant_config_from_data demo_payload)) ''monthly_usd'' = Some 50" by code_simp
  then show ?thesis
    using compiled_limits_reach_gateway [OF demo_compiled_ok] by (simp add: get_or_def demo_surface_def)
qed

theorem tenants_share_no_key_witness:
  "redis_key (resolve_tenant_context ''t1'' None (Some ''u'')) [''a''] \<noteq> redis_key (resolve_tenant_context ''t2'' None (Some ''u'')) [''a'']"
  using tenants_share_no_key [of "resolve_tenant_context ''t1'' None (Some ''u'')" "resolve_tenant_context ''t2'' None (Some ''u'')" "[''a'']" "[''a'']"]
  by (simp add: resolve_tenant_context_def)

end
