(* ===== verification/Policy.thy ===== *)
theory Policy
  imports Py_Json
begin

text \<open>
  Tenant policies: rules and their evaluation (\<open>domain/policy\<close>), the stored sets with drafts and published revisions
  (\<open>PolicyRepository\<close>), how a stored set becomes the one that is evaluated (\<open>policy_set_from_db\<close>,
  \<open>load_or_create_policy_set\<close>) and the shapes of the console (\<open>api/routes/policies.py\<close>). Rows are kept in storage order,
  which also breaks ties of an \<open>ORDER BY\<close>; \<open>uuid4\<close> is an argument. Each repository call is one transaction.
\<close>

section \<open>Rules\<close>

datatype policy_action = PA_ALLOW | PA_BLOCK | PA_ESCALATE | PA_REDACT

datatype policy_type = PT_TOPIC_FILTER | PT_PII_REDACTION | PT_TOOL_AUTHORIZATION | PT_OUTPUT_VALIDATION | PT_ESCALATION

definition action_values :: "(string \<times> policy_action) list" where
  "action_values = [(''allow'', PA_ALLOW), (''block'', PA_BLOCK), (''escalate'', PA_ESCALATE), (''redact'', PA_REDACT)]"

definition type_values :: "(string \<times> policy_type) list" where
  "type_values = [(''topic_filter'', PT_TOPIC_FILTER), (''pii_redaction'', PT_PII_REDACTION),
     (''tool_authorization'', PT_TOOL_AUTHORIZATION), (''output_validation'', PT_OUTPUT_VALIDATION), (''escalation'', PT_ESCALATION)]"

text \<open>\<open>==\<close> on JSON values: numbers (and truth values) by value, dictionaries without order.\<close>

definition py_number :: "json \<Rightarrow> rat option" where
  "py_number j = (case j of JBool b \<Rightarrow> Some (if b then 1 else 0) | JInt n \<Rightarrow> Some (of_int n) | JNum x \<Rightarrow> Some x | _ \<Rightarrow> None)"

fun py_eq :: "json \<Rightarrow> json \<Rightarrow> bool"
and py_eq_list :: "json list \<Rightarrow> json list \<Rightarrow> bool"
and py_eq_items :: "(string \<times> json) list \<Rightarrow> (string \<times> json) list \<Rightarrow> bool" where
  "py_eq (JList xs) b = (case b of JList ys \<Rightarrow> py_eq_list xs ys | _ \<Rightarrow> False)"
| "py_eq (JObj kvs) b = (case b of JObj kws \<Rightarrow> length kvs = length kws \<and> py_eq_items kvs kws | _ \<Rightarrow> False)"
| "py_eq JNull b = (b = JNull)"
| "py_eq (JStr s) b = (b = JStr s)"
| "py_eq a b = (py_number b = py_number a)"
| "py_eq_list [] ys = (ys = [])"
| "py_eq_list (x # xs) ys = (case ys of [] \<Rightarrow> False | y # ys' \<Rightarrow> py_eq x y \<and> py_eq_list xs ys')"
| "py_eq_items [] kws = True"
| "py_eq_items ((k, v) # kvs) kws = ((case map_of kws k of None \<Rightarrow> False | Some w \<Rightarrow> py_eq v w) \<and> py_eq_items kvs kws)"

type_synonym policy_context = "(string \<times> json) list"

record policy_rule =
  pl_name :: string
  pl_type :: policy_type
  pl_action :: policy_action
  pl_conditions :: "(string \<times> json) list"
  pl_priority :: int

definition rule_matches :: "policy_context \<Rightarrow> policy_rule \<Rightarrow> bool" where
  "rule_matches ctx r = list_all (\<lambda>(k, expected). py_eq (get_or (map_of ctx k) JNull) expected) (pl_conditions r)"

record policy_set =
  pt_tenant_id :: string
  pt_name :: string
  pt_rules :: "policy_rule list"
  pt_version :: int

datatype rule_detail = RuleDetail policy_rule | DenyByDefault string

definition evaluate_with_results :: "policy_set \<Rightarrow> policy_context \<Rightarrow> policy_action \<times> rule_detail list" where
  "evaluate_with_results ps ctx =
     (case py_sorted_desc pl_priority (filter (rule_matches ctx) (pt_rules ps)) of
        [] \<Rightarrow> (PA_BLOCK, [DenyByDefault (if pt_rules ps = [] then ''no_policy_configured'' else ''no_rule_matched'')])
      | r # rs \<Rightarrow> (pl_action r, map RuleDetail (r # rs)))"

definition policy_evaluate :: "policy_set \<Rightarrow> policy_context \<Rightarrow> policy_action" where
  "policy_evaluate ps ctx = fst (evaluate_with_results ps ctx)"

section \<open>Stored sets\<close>

record set_row =
  pw_id :: string
  pw_tenant_id :: string
  pw_name :: string
  pw_version :: int
  pw_status :: string

record rule_row =
  pr_set_id :: string
  pr_name :: string
  pr_policy_type :: string
  pr_action :: string
  pr_conditions :: "(string \<times> json) list"
  pr_priority :: int
  pr_enabled :: bool

record policy_db =
  pd_sets :: "set_row list"
  pd_rules :: "rule_row list"

definition set_rules :: "policy_db \<Rightarrow> string \<Rightarrow> rule_row list" where
  "set_rules db sid = py_sorted_desc pr_priority (filter (\<lambda>r. pr_set_id r = sid) (pd_rules db))"

definition add_rules :: "string \<Rightarrow> rule_row list \<Rightarrow> policy_db \<Rightarrow> policy_db" where
  "add_rules sid rules db = db\<lparr>pd_rules := pd_rules db @ map (\<lambda>r. r\<lparr>pr_set_id := sid\<rparr>) rules\<rparr>"

text \<open>Every new set gets the column's default version 1.\<close>

definition create_set :: "string \<Rightarrow> string \<Rightarrow> string \<Rightarrow> rule_row list \<Rightarrow> string \<Rightarrow> policy_db \<Rightarrow> set_row \<times> policy_db" where
  "create_set uid tenant name rules status db =
     (let row = \<lparr>pw_id = uid, pw_tenant_id = tenant, pw_name = name, pw_version = 1, pw_status = status\<rparr>
      in (row, add_rules uid rules (db\<lparr>pd_sets := pd_sets db @ [row]\<rparr>)))"

definition with_rules :: "policy_db \<Rightarrow> set_row \<Rightarrow> set_row \<times> rule_row list" where
  "with_rules db row = (row, set_rules db (pw_id row))"

definition get_by_tenant :: "string \<Rightarrow> policy_db \<Rightarrow> (set_row \<times> rule_row list) option" where
  "get_by_tenant tenant db =
     (case py_sorted_desc pw_version (filter (\<lambda>r. pw_tenant_id r = tenant \<and> pw_status r = ''published'') (pd_sets db)) of
        [] \<Rightarrow> None
      | row # _ \<Rightarrow> Some (with_rules db row))"

definition list_sets :: "string \<Rightarrow> policy_db \<Rightarrow> (set_row \<times> rule_row list) list" where
  "list_sets tenant db = map (with_rules db) (py_sorted_desc pw_version (filter (\<lambda>r. pw_tenant_id r = tenant) (pd_sets db)))"

definition find_set :: "string \<Rightarrow> string \<Rightarrow> policy_db \<Rightarrow> set_row option" where
  "find_set sid tenant db = find (\<lambda>r. pw_id r = sid \<and> pw_tenant_id r = tenant) (pd_sets db)"

definition get_set :: "string \<Rightarrow> string \<Rightarrow> policy_db \<Rightarrow> (set_row \<times> rule_row list) option" where
  "get_set sid tenant db = map_option (with_rules db) (find_set sid tenant db)"

definition update_set_row :: "string \<Rightarrow> (set_row \<Rightarrow> set_row) \<Rightarrow> policy_db \<Rightarrow> policy_db" where
  "update_set_row sid f db = db\<lparr>pd_sets := map (\<lambda>r. if pw_id r = sid then f r else r) (pd_sets db)\<rparr>"

definition max_version :: "string \<Rightarrow> policy_db \<Rightarrow> int" where
  "max_version tenant db =
     (let vs = map pw_version (filter (\<lambda>r. pw_tenant_id r = tenant) (pd_sets db)) in if vs = [] then 0 else Max (set vs))"

definition replace_rules :: "string \<Rightarrow> rule_row list \<Rightarrow> policy_db \<Rightarrow> policy_db" where
  "replace_rules sid rules db = add_rules sid rules (db\<lparr>pd_rules := filter (\<lambda>r. pr_set_id r \<noteq> sid) (pd_rules db)\<rparr>)"

definition update_set_rules ::
  "string \<Rightarrow> string \<Rightarrow> string \<Rightarrow> string option \<Rightarrow> rule_row list option \<Rightarrow> policy_db \<Rightarrow> (set_row \<times> rule_row list) option \<times> policy_db" where
  "update_set_rules uid sid tenant name rules db =
     (case find_set sid tenant db of
        None \<Rightarrow> (None, db)
      | Some row \<Rightarrow>
          (let (target, db1) =
                 (if pw_status row = ''draft'' then (pw_id row, db)
                  else (uid, db\<lparr>pd_sets := pd_sets db @
                          [\<lparr>pw_id = uid, pw_tenant_id = tenant, pw_name = str_or name (pw_name row),
                            pw_version = max_version tenant db + 1, pw_status = ''draft''\<rparr>]\<rparr>));
               db2 = (case name of None \<Rightarrow> db1 | Some n \<Rightarrow> update_set_row target (\<lambda>r. r\<lparr>pw_name := n\<rparr>) db1);
               db3 = (case rules of None \<Rightarrow> db2 | Some rs \<Rightarrow> replace_rules target rs db2)
           in (get_set target tenant db3, db3)))"

definition publish_set :: "string \<Rightarrow> string \<Rightarrow> policy_db \<Rightarrow> set_row option \<times> policy_db" where
  "publish_set sid tenant db =
     (case find_set sid tenant db of
        None \<Rightarrow> (None, db)
      | Some row \<Rightarrow>
          (let db1 = (if pw_status row \<noteq> ''published'' then update_set_row (pw_id row) (\<lambda>r. r\<lparr>pw_status := ''published''\<rparr>) db else db)
           in (find_set sid tenant db1, db1)))"

text \<open>Rows with values outside the enums are skipped; the column \<open>enabled\<close> is not read.\<close>

definition rule_from_db :: "rule_row \<Rightarrow> policy_rule option" where
  "rule_from_db r =
     (case (map_of type_values (pr_policy_type r), map_of action_values (pr_action r)) of
        (Some t, Some a) \<Rightarrow> Some \<lparr>pl_name = pr_name r, pl_type = t, pl_action = a, pl_conditions = pr_conditions r, pl_priority = pr_priority r\<rparr>
      | _ \<Rightarrow> None)"

definition policy_set_from_db :: "set_row \<times> rule_row list \<Rightarrow> policy_set" where
  "policy_set_from_db row =
     \<lparr>pt_tenant_id = pw_tenant_id (fst row), pt_name = pw_name (fst row), pt_rules = List.map_filter rule_from_db (snd row),
      pt_version = pw_version (fst row)\<rparr>"

definition load_or_create_policy_set :: "string \<Rightarrow> string \<Rightarrow> policy_db \<Rightarrow> policy_set \<times> policy_db" where
  "load_or_create_policy_set uid tenant db =
     (case get_by_tenant tenant db of
        Some row \<Rightarrow> (policy_set_from_db row, db)
      | None \<Rightarrow> (\<lparr>pt_tenant_id = tenant, pt_name = ''default'', pt_rules = [], pt_version = 1\<rparr>,
                 snd (create_set uid tenant ''default'' [] ''published'' db)))"

section \<open>Console\<close>

record rule_input =
  ri_name :: string
  ri_kind :: string
  ri_action :: string
  ri_pattern :: "string option"
  ri_description :: string
  ri_enabled :: bool
  ri_severity :: string

definition kind_to_policy_type :: "(string \<times> string) list" where
  "kind_to_policy_type = [(''input'', ''pii_redaction''), (''output'', ''output_validation''), (''tool'', ''tool_authorization''),
     (''topic'', ''topic_filter''), (''safety'', ''escalation'')]"

definition action_to_db :: "(string \<times> string) list" where
  "action_to_db = [(''block'', ''BLOCK''), (''redact'', ''REDACT''), (''escalate'', ''ESCALATE''), (''flag'', ''ALLOW'')]"

definition swap_items :: "('a \<times> 'b) list \<Rightarrow> ('b \<times> 'a) list" where
  "swap_items kvs = map (\<lambda>(k, v). (v, k)) kvs"

definition rule_to_db :: "rule_input \<Rightarrow> rule_row" where
  "rule_to_db r =
     \<lparr>pr_set_id = [], pr_name = ri_name r, pr_policy_type = get_or (map_of kind_to_policy_type (ri_kind r)) (ri_kind r),
      pr_action = get_or (map_of action_to_db (ri_action r)) (py_upper (ri_action r)),
      pr_conditions = (case ri_pattern r of None \<Rightarrow> [] | Some p \<Rightarrow> [(''pattern'', JStr p)])
        @ (if ri_description r = [] then [] else [(''description'', JStr (ri_description r))])
        @ (if ri_severity r = [] then [] else [(''severity'', JStr (ri_severity r))])
        @ (if ri_action r = ''flag'' then [(''flag'', JBool True)] else []),
      pr_priority = 0, pr_enabled = ri_enabled r\<rparr>"

definition json_str :: "json option \<Rightarrow> string option" where
  "json_str j = (case j of Some (JStr s) \<Rightarrow> Some s | _ \<Rightarrow> None)"

definition rule_to_api :: "rule_row \<Rightarrow> rule_input" where
  "rule_to_api r =
     \<lparr>ri_name = pr_name r, ri_kind = get_or (map_of (swap_items kind_to_policy_type) (pr_policy_type r)) (pr_policy_type r),
      ri_action = get_or (map_of (swap_items action_to_db) (pr_action r)) (py_lower (pr_action r)),
      ri_pattern = json_str (map_of (pr_conditions r) ''pattern''),
      ri_description = get_or (json_str (map_of (pr_conditions r) ''description'')) [],
      ri_enabled = pr_enabled r, ri_severity = get_or (json_str (map_of (pr_conditions r) ''severity'')) ''medium''\<rparr>"

section \<open>Histories\<close>

inductive policy_step :: "policy_db \<Rightarrow> policy_db \<Rightarrow> bool" where
  create: "uid \<notin> pw_id ` set (pd_sets db) \<Longrightarrow> policy_step db (snd (create_set uid tenant name rules status db))"
| update: "uid \<notin> pw_id ` set (pd_sets db) \<Longrightarrow> policy_step db (snd (update_set_rules uid sid tenant nm rules db))"
| publish: "policy_step db (snd (publish_set sid tenant db))"
| load: "uid \<notin> pw_id ` set (pd_sets db) \<Longrightarrow> policy_step db (snd (load_or_create_policy_set uid tenant db))"

inductive policy_reaches :: "policy_db \<Rightarrow> policy_db \<Rightarrow> bool" where
  start: "policy_reaches db db"
| step: "policy_reaches db db1 \<Longrightarrow> policy_step db1 db2 \<Longrightarrow> policy_reaches db db2"

section \<open>Lemmas\<close>

lemma find_filter: "find P xs = (case filter P xs of [] \<Rightarrow> None | x # _ \<Rightarrow> Some x)"
  by (induction xs) auto

lemma hd_py_sorted_desc_first:
  assumes "py_sorted_desc f xs = y # ys"
  shows "find (\<lambda>x. list_all (\<lambda>z. f z \<le> f x) xs) xs = Some y"
proof -
  have m: "f z \<le> f y" if "z \<in> set xs" for z
    using hd_py_sorted_desc_ge [of xs z f] that assms by fastforce
  have "y \<in> set xs" using assms set_py_sorted_desc [of f xs] by (metis list.set_intros(1))
  then have k: "list_all (\<lambda>z. f z \<le> f x) xs \<longleftrightarrow> f x = f y" if "x \<in> set xs" for x
    using m that by (auto simp: list_all_iff intro: antisym)
  have "filter (\<lambda>x. f x = f y) xs = y # filter (\<lambda>x. f x = f y) ys"
    using py_sorted_desc_stable [of f "f y" xs] assms by simp
  moreover have "filter (\<lambda>x. list_all (\<lambda>z. f z \<le> f x) xs) xs = filter (\<lambda>x. f x = f y) xs" by (rule filter_cong) (simp_all add: k)
  ultimately show ?thesis by (simp add: find_filter)
qed

lemma py_sorted_desc_Nil [simp]: "py_sorted_desc f xs = [] \<longleftrightarrow> xs = []" "py_sorted_desc f [] = []"
  by (metis length_0_conv length_py_sorted_desc) (simp add: py_sorted_desc_def)

text \<open>The result of \<open>upper()\<close> has no lower-case letters, so it is not the value of an action.\<close>

lemma upper_char_not_lower: "upper_char c \<notin> set ''aber''"
proof (cases c)
  case (Char b0 b1 b2 b3 b4 b5 b6 b7)
  then show ?thesis by (simp only: upper_char_code) auto
qed

lemma console_action_unknown: "map_of action_values (pr_action (rule_to_db r)) = None"
proof (cases "map_of action_to_db (ri_action r)")
  case None
  have "py_upper (ri_action r) \<notin> {''allow'', ''block'', ''escalate'', ''redact''}"
  proof
    assume a: "py_upper (ri_action r) \<in> {''allow'', ''block'', ''escalate'', ''redact''}"
    then have h: "hd (py_upper (ri_action r)) \<in> set ''aber''" by auto
    from a have "ri_action r \<noteq> []" by (auto simp: py_upper_def)
    then have "hd (py_upper (ri_action r)) = upper_char (hd (ri_action r))" by (simp add: py_upper_def hd_map)
    with h upper_char_not_lower show False by metis
  qed
  with None show ?thesis by (simp add: rule_to_db_def action_values_def get_or_def)
next
  case (Some a)
  then have "a \<in> {''BLOCK'', ''REDACT'', ''ESCALATE'', ''ALLOW''}" by (auto simp: action_to_db_def split: if_splits)
  with Some show ?thesis by (auto simp: rule_to_db_def action_values_def get_or_def)
qed

lemma console_rule_skipped: "rule_from_db ((rule_to_db r)\<lparr>pr_set_id := sid\<rparr>) = None"
  using console_action_unknown [of r] by (simp add: rule_from_db_def split: option.splits)

subsection \<open>The store\<close>

lemma find_set_SomeD: "find_set sid tenant db = Some row \<Longrightarrow> row \<in> set (pd_sets db) \<and> pw_id row = sid \<and> pw_tenant_id row = tenant"
  by (auto simp: find_set_def dest: find_SomeD)

lemma pd_sets_simps [simp]:
  "pd_sets (add_rules sid rs db) = pd_sets db" "pd_sets (replace_rules sid rs db) = pd_sets db"
  "pd_rules (update_set_row sid f db) = pd_rules db"
  by (simp_all add: add_rules_def replace_rules_def update_set_row_def)

lemma set_rules_other [simp]:
  "k \<noteq> sid \<Longrightarrow> set_rules (add_rules sid rs db) k = set_rules db k"
  "k \<noteq> sid \<Longrightarrow> set_rules (replace_rules sid rs db) k = set_rules db k"
  "set_rules (update_set_row sid f db) k = set_rules db k" "set_rules (pd_sets_update g db) k = set_rules db k"
  by (simp_all add: set_rules_def add_rules_def replace_rules_def update_set_row_def filter_map o_def) (metis (mono_tags, lifting) filter_cong)

lemma set_rules_replaced:
  "set_rules (replace_rules sid rs db) sid = py_sorted_desc pr_priority (map (\<lambda>r. r\<lparr>pr_set_id := sid\<rparr>) rs)"
  by (simp add: set_rules_def replace_rules_def add_rules_def filter_map o_def)

definition ids_distinct :: "policy_db \<Rightarrow> bool" where
  "ids_distinct db \<longleftrightarrow> distinct (map pw_id (pd_sets db))"

lemma ids_update_row [simp]: "(\<And>r. pw_id (f r) = pw_id r) \<Longrightarrow> map pw_id (pd_sets (update_set_row sid f db)) = map pw_id (pd_sets db)"
  by (simp add: update_set_row_def)

definition keeps :: "set_row \<Rightarrow> policy_db \<Rightarrow> policy_db \<Rightarrow> bool" where
  "keeps row db db' \<longleftrightarrow> row \<in> set (pd_sets db') \<and> set_rules db' (pw_id row) = set_rules db (pw_id row)"

lemma keeps_update_row: "keeps row db db1 \<Longrightarrow> pw_id row \<noteq> sid \<Longrightarrow> keeps row db (update_set_row sid f db1)"
  by (force simp: keeps_def update_set_row_def set_rules_def)

lemma same_id_same_row: "ids_distinct db \<Longrightarrow> r \<in> set (pd_sets db) \<Longrightarrow> q \<in> set (pd_sets db) \<Longrightarrow> pw_id r = pw_id q \<Longrightarrow> r = q"
  by (auto simp: ids_distinct_def distinct_map inj_on_def)

lemma create_set_keeps:
  assumes "uid \<notin> pw_id ` set (pd_sets db)" "ids_distinct db"
  shows "ids_distinct (snd (create_set uid tenant name rules status db))"
    "row \<in> set (pd_sets db) \<Longrightarrow> keeps row db (snd (create_set uid tenant name rules status db))"
proof -
  show "ids_distinct (snd (create_set uid tenant name rules status db))" using assms by (simp add: create_set_def Let_def ids_distinct_def)
  assume r: "row \<in> set (pd_sets db)"
  then have "pw_id row \<noteq> uid" using assms(1) by auto
  with r show "keeps row db (snd (create_set uid tenant name rules status db))" by (simp add: create_set_def Let_def keeps_def)
qed

lemma publish_set_keeps:
  assumes "ids_distinct db"
  shows "ids_distinct (snd (publish_set sid tenant db))"
    "row \<in> set (pd_sets db) \<Longrightarrow> pw_status row = ''published'' \<Longrightarrow> keeps row db (snd (publish_set sid tenant db))"
proof -
  show "ids_distinct (snd (publish_set sid tenant db))"
    using assms by (auto simp: publish_set_def Let_def ids_distinct_def split: option.splits)
  assume r: "row \<in> set (pd_sets db)" "pw_status row = ''published''"
  have k: "keeps row db db" using r by (simp add: keeps_def)
  show "keeps row db (snd (publish_set sid tenant db))"
  proof (cases "find_set sid tenant db")
    case (Some q)
    note q = find_set_SomeD [OF Some]
    show ?thesis
    proof (cases "pw_status q = ''published''")
      case False
      with q r same_id_same_row [OF assms r(1), of q] have "pw_id row \<noteq> pw_id q" by auto
      with False Some k show ?thesis by (simp add: publish_set_def Let_def keeps_update_row)
    qed (use Some k in \<open>simp add: publish_set_def Let_def\<close>)
  qed (use k in \<open>simp add: publish_set_def\<close>)
qed

lemma update_set_rules_keeps:
  assumes "uid \<notin> pw_id ` set (pd_sets db)" "ids_distinct db"
  shows "ids_distinct (snd (update_set_rules uid sid tenant nm rules db))"
    "row \<in> set (pd_sets db) \<Longrightarrow> pw_status row = ''published'' \<Longrightarrow> keeps row db (snd (update_set_rules uid sid tenant nm rules db))"
proof -
  show "ids_distinct (snd (update_set_rules uid sid tenant nm rules db))"
    using assms by (auto simp: update_set_rules_def Let_def ids_distinct_def split: option.splits prod.splits if_splits)
  assume r: "row \<in> set (pd_sets db)" "pw_status row = ''published''"
  have touch: "keeps row db (case rules of None \<Rightarrow> db2 | Some rs \<Rightarrow> replace_rules t rs db2)"
    if "keeps row db db2" "pw_id row \<noteq> t" for t db2
    using that by (auto simp: keeps_def split: option.splits)
  have named: "keeps row db (case nm of None \<Rightarrow> db1 | Some n \<Rightarrow> update_set_row t (\<lambda>r. r\<lparr>pw_name := n\<rparr>) db1)"
    if "keeps row db db1" "pw_id row \<noteq> t" for t db1
    using that by (auto split: option.splits intro: keeps_update_row)
  show "keeps row db (snd (update_set_rules uid sid tenant nm rules db))"
  proof (cases "find_set sid tenant db")
    case None
    with r show ?thesis by (simp add: update_set_rules_def keeps_def)
  next
    case (Some q)
    note q = find_set_SomeD [OF Some]
    show ?thesis
    proof (cases "pw_status q = ''draft''")
      case True
      with q r same_id_same_row [OF assms(2) r(1), of q] have "pw_id row \<noteq> pw_id q" by auto
      moreover have "keeps row db db" using r by (simp add: keeps_def)
      ultimately show ?thesis using Some True by (simp add: update_set_rules_def Let_def touch named)
    next
      case False
      have "pw_id row \<noteq> uid" using assms(1) r by auto
      moreover have "keeps row db (pd_sets_update (\<lambda>_. pd_sets db @ [d]) db)" for d using r by (simp add: keeps_def)
      ultimately show ?thesis using Some False by (simp add: update_set_rules_def Let_def touch named)
    qed
  qed
qed

lemma policy_step_keeps:
  assumes "policy_step db db'" "ids_distinct db"
  shows "ids_distinct db'" "row \<in> set (pd_sets db) \<Longrightarrow> pw_status row = ''published'' \<Longrightarrow> keeps row db db'"
proof -
  have "ids_distinct db' \<and> (row \<in> set (pd_sets db) \<longrightarrow> pw_status row = ''published'' \<longrightarrow> keeps row db db')"
    using assms
  proof (cases rule: policy_step.cases)
    case (load uid tenant)
    show ?thesis
    proof (cases "get_by_tenant tenant db")
      case None
      with load create_set_keeps assms(2) show ?thesis by (simp add: load_or_create_policy_set_def)
    qed (use load assms(2) in \<open>auto simp: load_or_create_policy_set_def keeps_def\<close>)
  qed (use assms(2) in \<open>auto intro: create_set_keeps update_set_rules_keeps publish_set_keeps\<close>)
  then show "ids_distinct db'" "row \<in> set (pd_sets db) \<Longrightarrow> pw_status row = ''published'' \<Longrightarrow> keeps row db db'" by auto
qed

text \<open>A draft made from a revision that is not a draft: the old rows stay, the new one is last.\<close>

lemma update_set_rules_new:
  assumes "find_set sid tenant db = Some row" "pw_status row \<noteq> ''draft''" "uid \<notin> pw_id ` set (pd_sets db)"
    and "update_set_rules uid sid tenant nm (Some rules) db = (res, db1)"
  obtains name where
    "pd_sets db1 = pd_sets db @ [\<lparr>pw_id = uid, pw_tenant_id = tenant, pw_name = name, pw_version = max_version tenant db + 1, pw_status = ''draft''\<rparr>]"
    "set_rules db1 uid = py_sorted_desc pr_priority (map (\<lambda>r. r\<lparr>pr_set_id := uid\<rparr>) rules)"
proof -
  let ?d = "\<lparr>pw_id = uid, pw_tenant_id = tenant, pw_name = str_or nm (pw_name row), pw_version = max_version tenant db + 1, pw_status = ''draft''\<rparr>"
  let ?db1 = "pd_sets_update (\<lambda>_. pd_sets db @ [?d]) db"
  have u: "map (\<lambda>r. if pw_id r = uid then f r else r) (pd_sets db) = pd_sets db" for f
    using assms(3) by (intro map_idI) auto
  from assms have d: "db1 = replace_rules uid rules (case nm of None \<Rightarrow> ?db1 | Some n \<Rightarrow> update_set_row uid (\<lambda>r. r\<lparr>pw_name := n\<rparr>) ?db1)"
    by (simp add: update_set_rules_def Let_def)
  show ?thesis
    by (rule that [of "case nm of None \<Rightarrow> str_or nm (pw_name row) | Some n \<Rightarrow> n"])
      (auto simp: d set_rules_replaced update_set_row_def u split: option.splits)
qed

lemma max_version_ge: "r \<in> set (pd_sets db) \<Longrightarrow> pw_tenant_id r = tenant \<Longrightarrow> pw_version r \<le> max_version tenant db"
  unfolding max_version_def Let_def by (auto simp: filter_empty_conv intro!: Max_ge)

lemma last_newest:
  assumes "\<And>r. r \<in> set xs \<Longrightarrow> f r < f y"
  shows "\<exists>ys. py_sorted_desc f (xs @ [y]) = y # ys"
proof -
  obtain z zs where z: "py_sorted_desc f (xs @ [y]) = z # zs" by (cases "py_sorted_desc f (xs @ [y])") auto
  have "f y \<le> f z" using hd_py_sorted_desc_ge [of "xs @ [y]" y f] z by simp
  moreover have "z \<in> set (xs @ [y])" using z set_py_sorted_desc [of f "xs @ [y]"] by (metis list.set_intros(1))
  ultimately have "z = y" using assms by force
  with z show ?thesis by blast
qed

section \<open>Properties\<close>

text \<open>C29: Evaluation of a policy set denies by default and otherwise takes the action of the matching rule with the highest
  priority, the first of them in the order of the set.\<close>

theorem policy_decision:
  "policy_evaluate ps ctx =
     (let ms = filter (rule_matches ctx) (pt_rules ps)
      in case find (\<lambda>r. list_all (\<lambda>q. pl_priority q \<le> pl_priority r) ms) ms of None \<Rightarrow> PA_BLOCK | Some r \<Rightarrow> pl_action r)"
proof (cases "py_sorted_desc pl_priority (filter (rule_matches ctx) (pt_rules ps))")
  case Nil
  then have "filter (rule_matches ctx) (pt_rules ps) = []" using py_sorted_desc_Nil(1) by blast
  then show ?thesis by (simp add: policy_evaluate_def evaluate_with_results_def)
next
  case (Cons r rs)
  with hd_py_sorted_desc_first [OF Cons] show ?thesis by (simp add: policy_evaluate_def evaluate_with_results_def Let_def)
qed

text \<open>No rule written in the console is ever evaluated: the console stores actions in upper case, the loader knows only
  the lower-case values and skips the rows. Whatever rules an administrator publishes, the set that is evaluated has
  no rules and blocks every request.\<close>

theorem console_rules_never_evaluated:
  "let ps = policy_set_from_db (row, map (\<lambda>r. (rule_to_db r)\<lparr>pr_set_id := sid\<rparr>) rules)
   in pt_rules ps = [] \<and> evaluate_with_results ps ctx = (PA_BLOCK, [DenyByDefault ''no_policy_configured''])"
proof -
  have "List.map_filter rule_from_db (map (\<lambda>r. (rule_to_db r)\<lparr>pr_set_id := sid\<rparr>) rules) = []"
    by (induction rules) (simp_all add: List.map_filter_simps console_rule_skipped)
  then show ?thesis by (simp add: policy_set_from_db_def evaluate_with_results_def py_sorted_desc_def Let_def)
qed

text \<open>A published revision is immutable: through any history of creations, edits, publications and loads, its row and its
  rules stay as they were.\<close>

theorem published_sets_immutable:
  assumes "policy_reaches db db'" and "ids_distinct db" and "row \<in> set (pd_sets db)" and "pw_status row = ''published''"
  shows "row \<in> set (pd_sets db') \<and> set_rules db' (pw_id row) = set_rules db (pw_id row)"
proof -
  from assms have "ids_distinct db' \<and> keeps row db db'"
  proof (induction rule: policy_reaches.induct)
    case (start db)
    then show ?case by (simp add: keeps_def)
  next
    case (step db db1 db2)
    then have d: "ids_distinct db1" "row \<in> set (pd_sets db1)" "set_rules db1 (pw_id row) = set_rules db (pw_id row)"
      by (auto simp: keeps_def)
    with policy_step_keeps [OF step.hyps(2) d(1)] step.prems show ?case by (auto simp: keeps_def)
  qed
  then show ?thesis by (simp add: keeps_def)
qed

definition demo_rule_row :: "string \<Rightarrow> rule_row" where
  "demo_rule_row sid = \<lparr>pr_set_id = sid, pr_name = ''r'', pr_policy_type = ''topic_filter'', pr_action = ''allow'', pr_conditions = [],
     pr_priority = 1, pr_enabled = True\<rparr>"

definition demo_set_row :: set_row where
  "demo_set_row = \<lparr>pw_id = ''p1'', pw_tenant_id = ''t1'', pw_name = ''default'', pw_version = 1, pw_status = ''published''\<rparr>"

definition demo_policy_db :: policy_db where
  "demo_policy_db = \<lparr>pd_sets = [demo_set_row], pd_rules = [demo_rule_row ''p1'']\<rparr>"

theorem published_sets_immutable_witness:
  "demo_set_row \<in> set (pd_sets (snd (update_set_rules ''p2'' ''p1'' ''t1'' None (Some []) demo_policy_db)))"
proof -
  have "''p2'' \<notin> pw_id ` set (pd_sets demo_policy_db)" by (simp add: demo_policy_db_def demo_set_row_def)
  then have "policy_reaches demo_policy_db (snd (update_set_rules ''p2'' ''p1'' ''t1'' None (Some []) demo_policy_db))"
    by (intro policy_reaches.step [OF policy_reaches.start] policy_step.update)
  from published_sets_immutable [OF this, of demo_set_row] show ?thesis
    by (simp add: ids_distinct_def demo_policy_db_def demo_set_row_def)
qed

text \<open>Editing a revision that is not a draft and publishing the result makes the new rules govern: the set the runtime
  loads for the tenant is the new revision, with a version above all others and exactly the given rules, highest
  priority first.\<close>

theorem edited_revision_governs:
  assumes "find_set sid tenant db = Some row" and "pw_status row \<noteq> ''draft''" and "uid \<notin> pw_id ` set (pd_sets db)"
    and "update_set_rules uid sid tenant nm (Some rules) db = (res, db1)"
  shows "\<exists>new. get_by_tenant tenant (snd (publish_set uid tenant db1))
       = Some (new, py_sorted_desc pr_priority (map (\<lambda>r. r\<lparr>pr_set_id := uid\<rparr>) rules))
     \<and> pw_id new = uid \<and> pw_version new = max_version tenant db + 1"
proof -
  obtain name where n: "pd_sets db1 = pd_sets db @ [\<lparr>pw_id = uid, pw_tenant_id = tenant, pw_name = name,
        pw_version = max_version tenant db + 1, pw_status = ''draft''\<rparr>]"
      "set_rules db1 uid = py_sorted_desc pr_priority (map (\<lambda>r. r\<lparr>pr_set_id := uid\<rparr>) rules)"
    using assms by (rule update_set_rules_new)
  let ?new = "\<lparr>pw_id = uid, pw_tenant_id = tenant, pw_name = name, pw_version = max_version tenant db + 1, pw_status = ''published''\<rparr>"
  let ?db2 = "snd (publish_set uid tenant db1)"
  have old: "find (\<lambda>r. pw_id r = uid \<and> pw_tenant_id r = tenant) (pd_sets db) = None"
    using assms(3) by (auto simp: find_None_iff)
  have u: "map (\<lambda>r. if pw_id r = uid then f r else r) (pd_sets db) = pd_sets db" for f
    using assms(3) by (intro map_idI) auto
  have f: "find_set uid tenant db1 = Some (?new\<lparr>pw_status := ''draft''\<rparr>)" using n old by (simp add: find_set_def find_append)
  then have s2: "pd_sets ?db2 = pd_sets db @ [?new]" "set_rules ?db2 uid = set_rules db1 uid"
    by (simp_all add: publish_set_def Let_def) (simp add: update_set_row_def n u)
  have "\<exists>ys. py_sorted_desc pw_version (filter (\<lambda>r. pw_tenant_id r = tenant \<and> pw_status r = ''published'') (pd_sets db) @ [?new]) = ?new # ys"
    by (rule last_newest) (use max_version_ge in fastforce)
  then have "get_by_tenant tenant ?db2 = Some (?new, set_rules ?db2 uid)"
    by (auto simp: get_by_tenant_def s2(1) with_rules_def)
  then show ?thesis using n(2) s2(2) by simp
qed

theorem edited_revision_governs_witness:
  "\<exists>new. get_by_tenant ''t1'' (snd (publish_set ''p2'' ''t1'' (snd (update_set_rules ''p2'' ''p1'' ''t1'' None (Some [demo_rule_row []]) demo_policy_db))))
     = Some (new, [demo_rule_row ''p2'']) \<and> pw_version new = 2"
proof -
  obtain res db1 where u: "update_set_rules ''p2'' ''p1'' ''t1'' None (Some [demo_rule_row []]) demo_policy_db = (res, db1)" by fastforce
  have f: "find_set ''p1'' ''t1'' demo_policy_db = Some demo_set_row" by (simp add: find_set_def demo_policy_db_def demo_set_row_def)
  have "pw_status demo_set_row \<noteq> ''draft''" "''p2'' \<notin> pw_id ` set (pd_sets demo_policy_db)" "max_version ''t1'' demo_policy_db = 1"
    by (simp_all add: demo_policy_db_def demo_set_row_def max_version_def)
  with edited_revision_governs [OF f _ _ u] u show ?thesis by (auto simp: demo_rule_row_def py_sorted_desc_def)
qed

text \<open>Two sets of one tenant can be published at the same version: a set created in the console and published has version 1
  like the empty set that the first request created, and the runtime goes on with the empty one.\<close>

theorem published_set_shadowed:
  "let db0 = snd (load_or_create_policy_set ''p1'' ''t1'' \<lparr>pd_sets = [], pd_rules = []\<rparr>);
       db1 = snd (create_set ''p2'' ''t1'' ''support'' [demo_rule_row []] ''draft'' db0);
       (row, db2) = publish_set ''p2'' ''t1'' db1
   in map_option pw_status row = Some ''published'' \<and> map_option (\<lambda>(r, rs). (pw_id r, rs)) (get_by_tenant ''t1'' db2) = Some (''p1'', [])"
  by code_simp

text \<open>The console reads back the rule it stored, for the kinds and actions it offers and a severity that is not
  empty.\<close>

theorem console_rule_round_trip:
  assumes "ri_kind r \<in> fst ` set kind_to_policy_type" and "ri_action r \<in> fst ` set action_to_db" and "ri_severity r \<noteq> []"
  shows "rule_to_api (rule_to_db r) = r"
proof -
  have k: "get_or (map_of (swap_items kind_to_policy_type) (get_or (map_of kind_to_policy_type k) k)) d = k"
    if "k \<in> fst ` set kind_to_policy_type" for k d
    using that by (auto simp: kind_to_policy_type_def swap_items_def get_or_def)
  have a: "get_or (map_of (swap_items action_to_db) (get_or (map_of action_to_db x) u)) d = x"
    if "x \<in> fst ` set action_to_db" for x u d
    using that by (auto simp: action_to_db_def swap_items_def get_or_def)
  show ?thesis
    using k [OF assms(1)] a [OF assms(2)] assms(3)
    by (cases r) (auto simp: rule_to_api_def rule_to_db_def json_str_def get_or_def split: option.splits)
qed

theorem console_rule_round_trip_witness:
  "let r = \<lparr>ri_name = ''no ads'', ri_kind = ''topic'', ri_action = ''flag'', ri_pattern = Some ''ad'', ri_description = [],
            ri_enabled = True, ri_severity = ''high''\<rparr>
   in rule_to_api (rule_to_db r) = r"
  unfolding Let_def by (rule console_rule_round_trip) (simp_all add: kind_to_policy_type_def action_to_db_def)

end
