(* ===== verification/Grounding.thy ===== *)
theory Grounding
  imports Prelude
begin

text \<open>
  The faithfulness check of a response against retrieved text (\<open>modules/grounding/service.py\<close>): the share of the
  response's significant words that the best source contains. Sets of words are lists without repetition.
\<close>

definition stopwords :: "string list" where
  "stopwords = [''a'', ''an'', ''the'', ''and'', ''or'', ''but'', ''if'', ''then'', ''else'', ''when'', ''while'', ''of'', ''to'', ''in'', ''on'', ''at'', ''by'',
     ''for'', ''with'', ''from'', ''as'', ''is'', ''are'', ''was'', ''were'', ''be'', ''been'', ''being'', ''do'', ''does'', ''did'', ''have'', ''has'', ''had'',
     ''having'', ''it'', ''its'', ''this'', ''that'', ''these'', ''those'', ''i'', ''you'', ''he'', ''she'', ''we'', ''they'', ''me'', ''him'', ''her'', ''us'',
     ''them'', ''my'', ''your'', ''our'', ''their'', ''what'', ''which'', ''who'', ''whom'', ''how'', ''why'', ''not'', ''no'', ''yes'', ''so'', ''just'', ''very'',
     ''can'', ''could'', ''would'', ''should'', ''may'', ''might'', ''will'', ''shall'', ''about'', ''into'', ''over'', ''under'', ''again'', ''further'',
     ''once'', ''here'', ''there'', ''all'', ''any'', ''both'', ''each'', ''few'', ''more'', ''most'', ''other'', ''some'', ''such'', ''only'', ''own'', ''same'',
     ''than'', ''too'', ''s'', ''t'', ''don'', ''now'']"

definition word_char :: "char \<Rightarrow> bool" where
  "word_char c \<longleftrightarrow> c \<in> set ''abcdefghijklmnopqrstuvwxyz0123456789'' \<or> c = CHR 39"

text \<open>The maximal runs of word characters, as the pattern finds them in lower-case text.\<close>

fun word_runs :: "string \<Rightarrow> string \<Rightarrow> string list" where
  "word_runs acc [] = (if acc = [] then [] else [rev acc])"
| "word_runs acc (c # cs) =
     (if word_char c then word_runs (c # acc) cs
      else (if acc = [] then word_runs [] cs else rev acc # word_runs [] cs))"

definition tokens :: "string \<Rightarrow> string list" where
  "tokens s = remdups (filter (\<lambda>w. w \<notin> set stopwords \<and> 1 < length w) (word_runs [] (py_lower s)))"

record faithfulness =
  fa_score :: rat
  fa_grounded :: bool
  fa_source_count :: nat
  fa_matches :: "string list"
  fa_checked :: bool

definition not_checked :: "nat \<Rightarrow> faithfulness" where
  "not_checked n = \<lparr>fa_score = 0, fa_grounded = False, fa_source_count = n, fa_matches = [], fa_checked = False\<rparr>"

text \<open>One source: a strictly better overlap replaces the best so far.\<close>

definition better_source :: "string list \<Rightarrow> string \<Rightarrow> rat \<times> string list \<Rightarrow> rat \<times> string list" where
  "better_source rs content best =
     (let overlap = filter (\<lambda>w. w \<in> set (tokens content)) rs; score = of_nat (length overlap) / of_nat (length rs)
      in if tokens content \<noteq> [] \<and> fst best < score then (score, overlap) else best)"

definition round4 :: "rat \<Rightarrow> rat" where
  "round4 x = of_int (round_half_even (x * 10000)) / 10000"

definition faithfulness_check :: "rat \<Rightarrow> nat \<Rightarrow> string \<Rightarrow> string list \<Rightarrow> faithfulness" where
  "faithfulness_check threshold max_matches response sources =
     (let contents = filter (\<lambda>c. c \<noteq> []) sources; rs = tokens response
      in if response = [] \<or> contents = [] \<or> rs = [] then not_checked (length contents)
         else case fold (better_source rs) contents (0, []) of
                (best, overlap) \<Rightarrow>
                  \<lparr>fa_score = round4 best, fa_grounded = (threshold \<le> best), fa_source_count = length contents,
                   fa_matches = take max_matches (sort overlap), fa_checked = True\<rparr>)"

section \<open>Lemmas\<close>

text \<open>The share of the response's words that one source contains.\<close>

definition coverage :: "string \<Rightarrow> string \<Rightarrow> rat" where
  "coverage response content =
     of_nat (length (filter (\<lambda>w. w \<in> set (tokens content)) (tokens response))) / of_nat (length (tokens response))"

lemma coverage_bounds: "0 \<le> coverage response content \<and> coverage response content \<le> 1"
proof -
  have "length (filter (\<lambda>w. w \<in> set (tokens content)) (tokens response)) \<le> length (tokens response)" by simp
  then show ?thesis unfolding coverage_def by (cases "length (tokens response) = 0") (auto simp: divide_le_eq)
qed

lemma fold_better_source:
  assumes "0 \<le> fst b"
  shows "fst (fold (better_source (tokens response)) cs b) = fold max (map (coverage response) cs) (fst b)"
  using assms
proof (induction cs arbitrary: b)
  case (Cons c cs)
  have "fst (better_source (tokens response) c b) = max (coverage response c) (fst b)"
  proof (cases "tokens c = []")
    case True
    then have "coverage response c = 0" by (simp add: coverage_def)
    with True Cons.prems show ?thesis by (simp add: better_source_def max_def)
  qed (auto simp: better_source_def coverage_def Let_def max_def)
  with Cons show ?case by (simp add: le_max_iff_disj)
qed simp

lemma fold_max_ge: "(t :: rat) \<le> fold max xs b \<longleftrightarrow> t \<le> b \<or> (\<exists>x \<in> set xs. t \<le> x)"
  by (induction xs arbitrary: b) (auto simp: le_max_iff_disj)

section \<open>Properties\<close>

text \<open>A checked response counts as grounded exactly when one of the sources contains at least the threshold share of the
  response's significant words; with the default threshold that is twelve percent.\<close>

theorem grounded_iff_covered:
  assumes "response \<noteq> []" and "tokens response \<noteq> []" and "filter (\<lambda>c. c \<noteq> []) sources \<noteq> []" and "0 < threshold"
  shows "fa_checked (faithfulness_check threshold n response sources)
     \<and> (fa_grounded (faithfulness_check threshold n response sources) \<longleftrightarrow> (\<exists>c \<in> set sources. c \<noteq> [] \<and> threshold \<le> coverage response c))"
proof -
  obtain best overlap where b: "fold (better_source (tokens response)) (filter (\<lambda>c. c \<noteq> []) sources) (0, []) = (best, overlap)"
    by fastforce
  then have "best = fold max (map (coverage response) (filter (\<lambda>c. c \<noteq> []) sources)) 0"
    using fold_better_source [of "(0, [])" response "filter (\<lambda>c. c \<noteq> []) sources"] by simp
  then have "threshold \<le> best \<longleftrightarrow> (\<exists>c \<in> set sources. c \<noteq> [] \<and> threshold \<le> coverage response c)"
    using assms(4) by (auto simp: fold_max_ge)
  with assms b show ?thesis by (simp add: faithfulness_check_def Let_def)
qed

theorem grounded_iff_covered_witness:
  "fa_grounded (faithfulness_check (12/100) 8 ''Refunds take 14 days'' [''Our refunds arrive within 14 days.''])"
proof -
  have h: "tokens ''Refunds take 14 days'' \<noteq> []" "12/100 \<le> coverage ''Refunds take 14 days'' ''Our refunds arrive within 14 days.''"
    by code_simp+
  then show ?thesis
    using grounded_iff_covered [of "''Refunds take 14 days''" "[''Our refunds arrive within 14 days.'']" "12/100" 8] by simp
qed

end
