(* ===== verification/Tools.thy ===== *)
theory Tools
  imports Py_Json
begin

text \<open>
  The tool registry of the agent loop (\<open>application/tools/registry.py\<close>). Executors act on a state \<open>'w\<close> of the outside
  world; the JSON-schema validator is a parameter that lists its error messages.
\<close>

type_synonym args = "(string \<times> json) list"

text \<open>What an executor gives: a dictionary with content and, maybe, an error flag, or another value as text.\<close>

datatype tool_outcome = OutcomeDict string "bool option" | OutcomeValue string

record 'w tool_spec =
  ts_name :: string
  ts_description :: string
  ts_parameters :: json
  ts_executor :: "args \<Rightarrow> 'w \<Rightarrow> (string + tool_outcome) \<times> 'w"

type_synonym 'w registry_tools = "(string \<times> 'w tool_spec) list"

datatype registry_error = ToolAlreadyRegistered string

definition tool_register_spec :: "'w tool_spec \<Rightarrow> 'w registry_tools \<Rightarrow> registry_error + 'w registry_tools" where
  "tool_register_spec spec reg =
     (if map_of reg (ts_name spec) \<noteq> None then Inl (ToolAlreadyRegistered (ts_name spec)) else Inr (reg @ [(ts_name spec, spec)]))"

fun register_source :: "'w tool_spec list \<Rightarrow> 'w registry_tools \<Rightarrow> nat \<times> 'w registry_tools" where
  "register_source [] reg = (0, reg)"
| "register_source (spec # specs) reg =
     (if map_of reg (ts_name spec) \<noteq> None then register_source specs reg
      else let (n, reg') = register_source specs (reg @ [(ts_name spec, spec)]) in (Suc n, reg'))"

fun create_tool_registry :: "'w tool_spec list \<Rightarrow> 'w registry_tools \<Rightarrow> registry_error + 'w registry_tools" where
  "create_tool_registry [] reg = Inr reg"
| "create_tool_registry (spec # specs) reg =
     (case tool_register_spec spec reg of Inl e \<Rightarrow> Inl e | Inr reg' \<Rightarrow> create_tool_registry specs reg')"

definition list_tools :: "'w registry_tools \<Rightarrow> 'w tool_spec list" where
  "list_tools reg = py_sorted ts_name (map snd reg)"

definition schema_of :: "'w tool_spec \<Rightarrow> json" where
  "schema_of spec = JObj [(''type'', JStr ''function''),
     (''function'', JObj [(''name'', JStr (ts_name spec)), (''description'', JStr (ts_description spec)), (''parameters'', ts_parameters spec)])]"

definition schemas :: "'w registry_tools \<Rightarrow> json list" where
  "schemas reg = map schema_of (list_tools reg)"

definition validate_arguments :: "(json \<Rightarrow> args \<Rightarrow> string list) \<Rightarrow> 'w tool_spec \<Rightarrow> args \<Rightarrow> string list" where
  "validate_arguments validator spec a =
     (if ts_parameters spec \<in> {JNull, JObj [(''type'', JStr ''object'')]} \<or> \<not> jtruthy (jget_or (ts_parameters spec) ''properties'' JNull)
      then [] else validator (ts_parameters spec) a)"

record tool_result =
  tr_tool_use_id :: string
  tr_name :: string
  tr_content :: string
  tr_is_error :: bool
  tr_blocked :: bool

definition result_of :: "string \<Rightarrow> bool \<Rightarrow> tool_result" where
  "result_of content err = \<lparr>tr_tool_use_id = [], tr_name = [], tr_content = content, tr_is_error = err, tr_blocked = False\<rparr>"

definition execute :: "(json \<Rightarrow> args \<Rightarrow> string list) \<Rightarrow> 'w registry_tools \<Rightarrow> string \<Rightarrow> args \<Rightarrow> 'w \<Rightarrow> tool_result \<times> 'w" where
  "execute validator reg name a w =
     (case map_of reg name of
        None \<Rightarrow> (result_of (''unknown tool: '' @ name) True, w)
      | Some spec \<Rightarrow>
          (let errors = validate_arguments validator spec a
           in if errors \<noteq> []
              then (result_of (''tool '' @ name @ '': invalid arguments: '' @ py_join ''; '' (take 5 errors)) True, w)
              else case ts_executor spec a w of
                     (Inl e, w1) \<Rightarrow> (result_of (''tool error: '' @ e) True, w1)
                   | (Inr (OutcomeDict c err), w1) \<Rightarrow> (result_of c (get_or err False), w1)
                   | (Inr (OutcomeValue s), w1) \<Rightarrow> (result_of s False, w1)))"

section \<open>Lemmas\<close>

lemma register_source_keeps: "map_of reg n = Some t \<Longrightarrow> map_of (snd (register_source specs reg)) n = Some t"
proof (induction specs reg rule: register_source.induct)
  case (2 spec specs reg)
  then show ?case by (auto simp: Let_def map_of_append split: prod.splits option.splits)
qed simp

lemma register_source_finds:
  "map_of (snd (register_source specs reg)) n = (case map_of reg n of Some t \<Rightarrow> Some t | None \<Rightarrow> find (\<lambda>s. ts_name s = n) specs)"
proof (induction specs reg rule: register_source.induct)
  case (2 spec specs reg)
  then show ?case by (auto simp: Let_def map_add_def split: prod.splits option.splits if_splits)
qed (auto split: option.splits)

section \<open>Properties\<close>

text \<open>Registering a source never replaces a tool: a name that was taken keeps its tool, and a new name gets the first
  spec of the source that carries it.\<close>

theorem first_registrant_wins:
  "map_of (snd (register_source specs reg)) n = (case map_of reg n of Some t \<Rightarrow> Some t | None \<Rightarrow> find (\<lambda>s. ts_name s = n) specs)"
  by (rule register_source_finds)

text \<open>Arguments that the schema rejects, and unknown tools, never reach an executor: the world is unchanged and the result
  is an error.\<close>

theorem rejected_calls_have_no_effect:
  assumes "map_of reg name = None \<or> (\<exists>spec. map_of reg name = Some spec \<and> validate_arguments validator spec a \<noteq> [])"
  shows "snd (execute validator reg name a w) = w \<and> tr_is_error (fst (execute validator reg name a w))"
  using assms by (auto simp: execute_def result_of_def)

theorem rejected_calls_have_no_effect_witness:
  "snd (execute (\<lambda>_ _. []) ([] :: nat registry_tools) ''search'' [] 7) = 7"
  using rejected_calls_have_no_effect [of "[] :: nat registry_tools" "''search''" "\<lambda>_ _. []" "[]" 7] by simp

end
