(* ===== verification/Bounded_Runs.thy ===== *)
theory Bounded_Runs
  imports Prelude
begin

text \<open>
  Running a graph of nodes under a step limit: \<open>run_steps\<close> is the loop of a graph runner (a step from a node yields the
  next node and state, or raises), and the locale \<open>bounded_graph\<close> the contract under which a run ends within a known
  number of steps and ends well. The agent loop of a turn interprets it.
\<close>

datatype 'e run_error = Raised_in_node 'e | GraphRecursionError

fun run_steps ::
  "('n \<Rightarrow> 's \<Rightarrow> 'w \<Rightarrow> ('e + 'n \<times> 's) \<times> 'w) \<Rightarrow> 'n \<Rightarrow> nat \<Rightarrow> 'n \<Rightarrow> 's \<Rightarrow> 'w \<Rightarrow> ('e run_error + 's) \<times> 'w" where
  "run_steps step fin 0 nd st w = (if nd = fin then Inr st else Inl GraphRecursionError, w)"
| "run_steps step fin (Suc n) nd st w =
     (if nd = fin then (Inr st, w)
      else case step nd st w of
             (Inl e, w1) \<Rightarrow> (Inl (Raised_in_node e), w1)
           | (Inr (nd1, st1), w1) \<Rightarrow> run_steps step fin n nd1 st1 w1)"

lemma run_steps_fin [simp]: "run_steps step fin n fin st w = (Inr st, w)"
  by (cases n) simp_all

text \<open>
  A node invariant that every step keeps, a bound on the steps that can still follow, and what a step into the final node
  guarantees.
\<close>

locale bounded_graph =
  fixes step :: "'n \<Rightarrow> 's \<Rightarrow> 'w \<Rightarrow> ('e + 'n \<times> 's) \<times> 'w" and fin :: 'n
    and inv :: "'n \<Rightarrow> 's \<Rightarrow> bool" and steps :: "'n \<Rightarrow> 's \<Rightarrow> nat" and good :: "'s \<Rightarrow> bool"
  assumes idle: "steps nd st = 0 \<Longrightarrow> nd = fin"
    and shrink: "step nd st w = (Inr (nd1, st1), w1) \<Longrightarrow> inv nd st \<Longrightarrow> nd \<noteq> fin \<Longrightarrow> inv nd1 st1 \<and> steps nd1 st1 < steps nd st"
    and leave: "step nd st w = (Inr (fin, st1), w1) \<Longrightarrow> inv nd st \<Longrightarrow> nd \<noteq> fin \<Longrightarrow> good st1"
begin

lemma run_ends:
  assumes "steps nd st \<le> n" "inv nd st"
  shows "fst (run_steps step fin n nd st w) \<noteq> Inl GraphRecursionError"
  using assms
proof (induction n arbitrary: nd st w)
  case 0
  then show ?case using idle by simp
next
  case (Suc n)
  obtain r w1 where g: "step nd st w = (r, w1)" by fastforce
  show ?case
  proof (cases "nd = fin")
    case False
    show ?thesis
    proof (cases r)
      case (Inr p)
      then obtain nd1 st1 where p: "r = Inr (nd1, st1)" by (cases p) auto
      with shrink [OF g [unfolded p] Suc.prems(2) False] Suc.prems(1) have "inv nd1 st1" "steps nd1 st1 \<le> n" by auto
      with Suc.IH False g p show ?thesis by simp
    qed (use False g in simp)
  qed simp
qed

lemma run_good:
  assumes "run_steps step fin n nd st w = (Inr st1, w1)" "inv nd st" "nd \<noteq> fin"
  shows "good st1"
  using assms
proof (induction n arbitrary: nd st w)
  case (Suc n)
  obtain r w2 where g: "step nd st w = (r, w2)" by fastforce
  with Suc.prems obtain nd1 st2 where p: "r = Inr (nd1, st2)" "run_steps step fin n nd1 st2 w2 = (Inr st1, w1)"
    by (cases r) auto
  show ?case
  proof (cases "nd1 = fin")
    case True
    with p have "st2 = st1" by simp
    with leave [OF g [unfolded p(1) True] Suc.prems(2,3)] show ?thesis by simp
  next
    case False
    with Suc.IH [OF p(2)] shrink [OF g [unfolded p(1)] Suc.prems(2,3)] show ?thesis by blast
  qed
qed simp

end

end
