(* ===== verification/Orchestration.thy ===== *)
theory Orchestration
  imports Context Governance Policy Grounding Tools Gw_Types Bounded_Runs
begin

text \<open>
  The agent loop of a turn (\<open>application/orchestration/service.py\<close>): the nodes of the graph and its conditional edges,
  generation with compaction on overflow and bounded tool steps, streamed generation, verification with bounded re-asks,
  the policy check, handoff, and the run of the graph under its step limit. The gateway, compaction, memory, retrieval,
  tool authorisation, the output validator and the escalation service are parameters over a state \<open>'w\<close>; the assembler is
  \<open>Context.assemble\<close>. Tool calls of one generation, which the code gathers, are run one after the other. Citations, usage
  records and the text of the audit packet's hash are not represented. The chunks sent to a streaming client are part of
  the state.
\<close>

section \<open>State\<close>

datatype turn_exc =
    GatewayFailure string
  | BudgetFailure string
  | StreamToolParse
  | OtherFailure string

definition exc_text :: "turn_exc \<Rightarrow> string" where
  "exc_text e = (case e of GatewayFailure s \<Rightarrow> s | BudgetFailure s \<Rightarrow> s
     | StreamToolParse \<Rightarrow> ''malformed tool arguments in stream'' | OtherFailure s \<Rightarrow> s)"

record raw_call =
  rc_id :: string
  rc_name :: string
  rc_arguments :: json

datatype tool_part = ToolUsePart string string json | ToolResultPart tool_result

record agent_state =
  ag_session_id :: string
  ag_conversation_id :: "string option"
  ag_redacted_message :: string
  ag_history :: "context_turn list"
  ag_docs :: "retrieved_doc list"
  ag_response :: "string option"
  ag_output_raw :: "string option"
  ag_output_allowed :: "bool option"
  ag_validation :: "(bool \<times> nat \<times> bool) option"
  ag_policy_action :: policy_action
  ag_policy_rules :: "rule_detail list"
  ag_confidence :: rat
  ag_handoff_required :: bool
  ag_handoff :: "bool option"
  ag_redact_attempts :: nat
  ag_budget_exceeded :: bool
  ag_summary :: "string option"
  ag_summary_position :: "int option"
  ag_summary_layers :: "string list"
  ag_error :: "string option"
  ag_tool_calls :: "raw_call list"
  ag_tool_parts :: "tool_part list"
  ag_tool_results :: "tool_result list"
  ag_tool_steps :: nat
  ag_tool_budget_exhausted :: bool
  ag_verify_retries :: nat
  ag_verify_note :: "string option"
  ag_verify_exhausted :: bool
  ag_sent :: "string list"

record reply =
  gn_content :: string
  gn_tool_calls :: "raw_call list"

datatype turn_event =
    TDelta string
  | TToolStart nat string string
  | TToolDelta nat string string string
  | TUsage usage
  | TDone
  | TError bool string

record checkpoint =
  ck_summary :: string
  ck_position :: int
  ck_layers :: "string list"

record compact_info =
  ci_tokens :: "(int \<times> int) option"
  ci_has_summary :: bool
  ci_overflow :: bool

record output_check =
  oc_allowed :: bool
  oc_redacted_text :: "string option"

record 'w services =
  os_tenant :: tenant_config
  os_policy :: policy_set
  os_loader :: loader
  os_model_override :: "string option"
  os_prompt_override :: "string option"
  os_surface_id :: "string option"
  os_end_user_id :: "string option"
  os_generate :: "gateway_request \<Rightarrow> 'w \<Rightarrow> (turn_exc + reply) \<times> 'w"
  os_stream :: "(gateway_request \<Rightarrow> 'w \<Rightarrow> turn_event list \<times> 'w) option"
  os_loads :: "string \<Rightarrow> json option"
  os_compact :: "(compact_info \<Rightarrow> 'w \<Rightarrow> (turn_exc + checkpoint option) \<times> 'w) option"
  os_preemptive_ratio :: rat
  os_memory :: "(string \<Rightarrow> 'w \<Rightarrow> (turn_exc + string list) \<times> 'w) option"
  os_retrieve :: "(string \<Rightarrow> string list \<Rightarrow> 'w \<Rightarrow> (turn_exc + retrieved_doc list) \<times> 'w) option"
  os_tools :: "'w registry_tools option"
  os_arg_validator :: "json \<Rightarrow> args \<Rightarrow> string list"
  os_tool_callback :: "(tool_part \<Rightarrow> 'w \<Rightarrow> 'w) option"
  os_authorizer :: "(raw_call \<Rightarrow> 'w \<Rightarrow> (turn_exc + bool) \<times> 'w) option"
  os_validator :: "(string \<Rightarrow> 'w \<Rightarrow> (turn_exc + output_check) \<times> 'w) option"
  os_escalate :: "(agent_state \<Rightarrow> string \<Rightarrow> 'w \<Rightarrow> (turn_exc + bool) \<times> 'w) option"
  os_float_text :: "rat \<Rightarrow> string"

text \<open>\<open>int(budgets.get(name, default))\<close>; the loops compare counters with it, so a negative budget acts like zero.\<close>

definition loop_budget :: "'w services \<Rightarrow> string \<Rightarrow> rat \<Rightarrow> nat" where
  "loop_budget sv name d = nat \<lfloor>get_or (map_of (tn_budgets (os_tenant sv)) name) d\<rfloor>"

abbreviation max_tool_steps :: "'w services \<Rightarrow> nat" where
  "max_tool_steps sv \<equiv> loop_budget sv ''max_tool_steps'' 4"

abbreviation max_verify_retries :: "'w services \<Rightarrow> nat" where
  "max_verify_retries sv \<equiv> loop_budget sv ''max_verify_retries'' 2"

abbreviation max_redact_iterations :: "'w services \<Rightarrow> nat" where
  "max_redact_iterations sv \<equiv> loop_budget sv ''max_redact_iterations'' 2"

section \<open>Prompt and context\<close>

definition nl :: string where
  "nl = [CHR 10]"

definition build_system_prompt :: "'w services \<Rightarrow> string" where
  "build_system_prompt sv =
     (if truthy_str (os_prompt_override sv) then the (os_prompt_override sv)
      else let t = os_tenant sv;
               joined = (\<lambda>xs d. str_or (Some (py_join '', '' xs)) d)
           in py_join nl
                [''You are a helpful assistant configured for a specific tenant.'', [], ''Tenant Configuration:'',
                 ''- Allowed topics: '' @ joined (tn_allowed_topics t) ''general'',
                 ''- Blocked topics: '' @ joined (tn_blocked_topics t) ''none'',
                 ''- Default provider: '' @ tn_default_provider t, ''- Default model: '' @ tn_default_model t, [], ''Guidelines:'',
                 ''1. Stay within the allowed topics'', ''2. If asked about blocked topics, politely decline'',
                 ''3. If you'' @ [CHR 39] @ ''re unsure about something, acknowledge uncertainty'', ''4. Do not make up information'',
                 ''5. Base your answer on the provided context when available'',
                 ''6. Be consistent with the prior conversation in this session'', []])"

definition model_of :: "'w services \<Rightarrow> string" where
  "model_of sv = str_or (os_model_override sv) (tn_default_model (os_tenant sv))"

definition memory_facts :: "'w services \<Rightarrow> agent_state \<Rightarrow> 'w \<Rightarrow> string list \<times> 'w" where
  "memory_facts sv st w =
     (case os_memory sv of
        None \<Rightarrow> ([], w)
      | Some retr \<Rightarrow>
          if \<not> get_or (map_of (tn_features (os_tenant sv)) ''memory'') False then ([], w)
          else case retr (ag_redacted_message st) w of (Inl _, w1) \<Rightarrow> ([], w1) | (Inr fs, w1) \<Rightarrow> (fs, w1))"

definition assemble_context :: "'w services \<Rightarrow> agent_state \<Rightarrow> string \<Rightarrow> 'w \<Rightarrow> (context_error + assembled) \<times> 'w" where
  "assemble_context sv st prompt w =
     (case memory_facts sv st w of
        (facts, w1) \<Rightarrow>
          (assemble (os_loader sv)
             \<lparr>ar_provider = tn_default_provider (os_tenant sv), ar_model = model_of sv, ar_system_prompt = prompt,
              ar_current_message = ag_redacted_message st, ar_history = ag_history st, ar_summary = ag_summary st,
              ar_summary_position = ag_summary_position st, ar_summary_layers = ag_summary_layers st, ar_memory_facts = facts,
              ar_docs = ag_docs st,
              ar_clear_tool_payloads = get_or (map_of (tn_features (os_tenant sv)) ''clear_tool_results'') False,
              ar_window_override = None, ar_cache_markers = None\<rparr>, w1))"

text \<open>\<open>ContextBudgetExceeded\<close> and \<open>RedactionViolation\<close> as exceptions of the generate node.\<close>

definition context_failure :: "context_error \<Rightarrow> turn_exc" where
  "context_failure e =
     (case e of
        ReserveExceedsWindow w r \<Rightarrow> BudgetFailure (''Context window '' @ py_str_int w @ '' does not exceed output reserve '' @ py_str_int r)
      | SystemPromptExceeds t b \<Rightarrow> BudgetFailure (''System prompt ('' @ py_str_int t @ '' tokens) exceeds context budget '' @ py_str_int b)
      | CurrentMessageExceeds t b \<Rightarrow> BudgetFailure (''Current message ('' @ py_str_int t @ '' tokens) exceeds remaining context budget ''
          @ py_str_int b @ ''; compaction required (Arch 8.2)'')
      | RedactionViolation m \<Rightarrow> OtherFailure (''Turn '' @ m @ '' carries raw content with no redacted content''))"

definition take_checkpoint :: "checkpoint \<Rightarrow> agent_state \<Rightarrow> agent_state" where
  "take_checkpoint ck st = st\<lparr>ag_summary := Some (ck_summary ck), ag_summary_position := Some (ck_position ck), ag_summary_layers := ck_layers ck\<rparr>"

definition compact_call ::
  "'w services \<Rightarrow> (int \<times> int) option \<Rightarrow> bool \<Rightarrow> agent_state \<Rightarrow> 'w \<Rightarrow> (turn_exc + checkpoint option) \<times> 'w" where
  "compact_call sv sizes overflow st w =
     (case os_compact sv of
        None \<Rightarrow> (Inr None, w)
      | Some f \<Rightarrow> f \<lparr>ci_tokens = sizes, ci_has_summary = (ag_summary st \<noteq> None), ci_overflow = overflow\<rparr> w)"

definition recover_overflow :: "'w services \<Rightarrow> assembled option \<Rightarrow> agent_state \<Rightarrow> 'w \<Rightarrow> (turn_exc + bool) \<times> agent_state \<times> 'w" where
  "recover_overflow sv asm st w =
     (case compact_call sv (map_option (\<lambda>a. (as_total_tokens a, as_budget_tokens a)) asm) True st w of
        (Inl e, w1) \<Rightarrow> (Inl e, st, w1)
      | (Inr None, w1) \<Rightarrow> (Inr False, st, w1)
      | (Inr (Some ck), w1) \<Rightarrow> (Inr True, take_checkpoint ck st, w1))"

definition overflow_markers :: "string list" where
  "overflow_markers = [''maximum context length'', ''context length exceeded'', ''context window'', ''prompt is too long'', ''input is too long'',
     ''context_length_exceeded'', ''maximum tokens'', ''token limit exceeded'']"

definition is_provider_overflow :: "turn_exc \<Rightarrow> bool" where
  "is_provider_overflow e = list_ex (\<lambda>m. py_in m (py_lower (exc_text e))) overflow_markers"

section \<open>Generation\<close>

definition render_tool_results :: "tool_result list \<Rightarrow> string" where
  "render_tool_results rs = py_join (nl @ nl)
     (map (\<lambda>r. ''[tool_result tool_use_id='' @ tr_tool_use_id r @ '' name='' @ tr_name r @ '' status='' @ (if tr_is_error r then ''error'' else ''ok'')
               @ '']'' @ nl @ tr_content r @ nl @ ''[/tool_result]'') rs)"

definition prompt_metadata :: "prompt_message \<Rightarrow> json" where
  "prompt_metadata m = (if pm_cached m then JObj [(''cache_control'', JObj [(''type'', JStr ''ephemeral'')])] else JObj [])"

definition user_message :: "string \<Rightarrow> chat_message" where
  "user_message s = \<lparr>cm_role = ''user'', cm_content = s, cm_metadata = JObj []\<rparr>"

definition turn_messages :: "assembled \<Rightarrow> agent_state \<Rightarrow> chat_message list" where
  "turn_messages asm st =
     map (\<lambda>m. \<lparr>cm_role = pm_role m, cm_content = pm_content m, cm_metadata = prompt_metadata m\<rparr>) (as_messages asm)
     @ (if ag_tool_results st = [] then [] else [user_message (render_tool_results (ag_tool_results st))])
     @ (if truthy_str (ag_verify_note st) then [user_message (the (ag_verify_note st))] else [])"

definition gateway_turn_request :: "'w services \<Rightarrow> assembled \<Rightarrow> agent_state \<Rightarrow> gateway_request" where
  "gateway_turn_request sv asm st =
     (default_request (tn_id (os_tenant sv)) (turn_messages asm st))
       \<lparr>rq_provider := tn_default_provider (os_tenant sv), rq_model := Some (model_of sv),
        rq_tools := (case os_tools sv of None \<Rightarrow> [] | Some reg \<Rightarrow> if ag_tool_budget_exhausted st then [] else schemas reg),
        rq_session_id := Some (ag_session_id st), rq_conversation_id := ag_conversation_id st,
        rq_surface_id := os_surface_id sv, rq_end_user_id := os_end_user_id sv\<rparr>"

type_synonym fragments = "(nat \<times> string \<times> string \<times> string) list"

definition add_fragment :: "nat \<Rightarrow> string \<Rightarrow> string \<Rightarrow> string \<Rightarrow> fragments \<Rightarrow> fragments" where
  "add_fragment i cid name a acc =
     (case get_or (map_of acc i) ([], [], []) of
        (cid0, name0, args0) \<Rightarrow>
          AList.update i (if cid = [] then cid0 else cid, if name = [] then name0 else name, args0 @ a) acc)"

text \<open>The events of a stream: text after the first tool fragment is dropped, an error event ends the stream.\<close>

fun consume_events :: "turn_event list \<Rightarrow> string list \<Rightarrow> fragments \<Rightarrow> turn_exc option \<times> string list \<times> fragments" where
  "consume_events [] parts acc = (None, parts, acc)"
| "consume_events (TDelta s # es) parts acc = consume_events es (if acc = [] then parts @ [s] else parts) acc"
| "consume_events (TToolStart i cid name # es) parts acc = consume_events es parts (add_fragment i cid name [] acc)"
| "consume_events (TToolDelta i cid name a # es) parts acc = consume_events es parts (add_fragment i cid name a acc)"
| "consume_events (TUsage u # es) parts acc = consume_events es parts acc"
| "consume_events (TDone # es) parts acc = consume_events es parts acc"
| "consume_events (TError ce msg # es) parts acc =
     (Some (GatewayFailure (if msg = [] then (if ce then ''chain exhausted'' else ''llm stream failed'') else msg)), parts, acc)"

fun finalize_calls :: "(string \<Rightarrow> json option) \<Rightarrow> fragments \<Rightarrow> raw_call list option" where
  "finalize_calls loads [] = Some []"
| "finalize_calls loads ((i, cid, name, a) # fs) =
     (if cid = [] \<or> name = [] then None
      else case (if a = [] then Some (JObj []) else loads a) of
             Some (JObj kvs) \<Rightarrow> map_option (\<lambda>cs. \<lparr>rc_id = cid, rc_name = name, rc_arguments = JObj kvs\<rparr> # cs) (finalize_calls loads fs)
           | _ \<Rightarrow> None)"

definition finalize_stream_tool_calls :: "(string \<Rightarrow> json option) \<Rightarrow> fragments \<Rightarrow> raw_call list option" where
  "finalize_stream_tool_calls loads acc = finalize_calls loads (py_sorted fst acc)"

definition generate_streaming ::
  "'w services \<Rightarrow> (gateway_request \<Rightarrow> 'w \<Rightarrow> turn_event list \<times> 'w) \<Rightarrow> gateway_request \<Rightarrow> 'w \<Rightarrow> (turn_exc + reply) \<times> string list \<times> 'w" where
  "generate_streaming sv stream req w =
     (case stream req w of
        (es, w1) \<Rightarrow>
          (case consume_events es [] [] of
             (Some e, parts, _) \<Rightarrow> (Inl e, parts, w1)
           | (None, parts, acc) \<Rightarrow>
               if acc = [] then (Inr \<lparr>gn_content = concat parts, gn_tool_calls = []\<rparr>, parts, w1)
               else (case finalize_stream_tool_calls (os_loads sv) acc of
                       None \<Rightarrow> (Inl StreamToolParse, parts, w1)
                     | Some cs \<Rightarrow> (Inr \<lparr>gn_content = concat parts, gn_tool_calls = cs\<rparr>, parts, w1))))"

text \<open>One call of the model: streamed with one plain retry on malformed tool fragments, or plain. The flag tells whether
  that retry was used.\<close>

definition call_model ::
  "'w services \<Rightarrow> bool \<Rightarrow> gateway_request \<Rightarrow> 'w \<Rightarrow> (turn_exc + reply) \<times> string list \<times> bool \<times> 'w" where
  "call_model sv fb req w =
     (case os_stream sv of
        None \<Rightarrow> (case os_generate sv req w of (r, w1) \<Rightarrow> (r, [], fb, w1))
      | Some stream \<Rightarrow>
          (case generate_streaming sv stream req w of
             (r, sent, w1) \<Rightarrow>
               if r = Inl StreamToolParse \<and> \<not> fb
               then (case os_generate sv req w1 of (r2, w2) \<Rightarrow> (r2, sent, True, w2))
               else (r, sent, fb, w1)))"

text \<open>One pass through the \<open>while True\<close> loop of the generate node.\<close>

datatype pass_result = Again bool bool bool | Failed turn_exc | Replied reply

definition over_threshold :: "'w services \<Rightarrow> assembled \<Rightarrow> bool" where
  "over_threshold sv asm \<longleftrightarrow> of_int (as_budget_tokens asm) * os_preemptive_ratio sv < of_int (as_total_tokens asm)"

definition consume_note :: "agent_state \<Rightarrow> agent_state" where
  "consume_note st = (if truthy_str (ag_verify_note st) then st\<lparr>ag_verify_note := None\<rparr> else st)"

definition after_recovery ::
  "turn_exc \<Rightarrow> bool \<Rightarrow> bool \<Rightarrow> (turn_exc + bool) \<times> agent_state \<times> 'w \<Rightarrow> pass_result \<times> agent_state \<times> 'w" where
  "after_recovery e emitted fb r =
     (case r of
        (Inl e', st, w) \<Rightarrow> (Failed e', st, w)
      | (Inr True, st, w) \<Rightarrow> (Again True emitted fb, st, w)
      | (Inr False, st, w) \<Rightarrow> (Failed e, st, w))"

definition ask_model ::
  "'w services \<Rightarrow> assembled \<Rightarrow> bool \<Rightarrow> bool \<Rightarrow> bool \<Rightarrow> agent_state \<Rightarrow> 'w \<Rightarrow> pass_result \<times> agent_state \<times> 'w" where
  "ask_model sv asm compacted emitted fb st w =
     (case call_model sv fb (gateway_turn_request sv asm st) w of
        (res, sent, fb1, w1) \<Rightarrow>
          (let st1 = (consume_note st)\<lparr>ag_sent := ag_sent st @ sent\<rparr>; emitted1 = (emitted \<or> sent \<noteq> [])
           in case res of
                Inl e \<Rightarrow>
                  if \<not> compacted \<and> \<not> emitted1 \<and> os_compact sv \<noteq> None \<and> is_provider_overflow e
                  then after_recovery e emitted1 fb1 (recover_overflow sv (Some asm) st1 w1)
                  else (Failed e, st1, w1)
              | Inr r \<Rightarrow>
                  (let calls = (if ag_tool_budget_exhausted st1 then [] else gn_tool_calls r)
                   in if calls \<noteq> [] \<and> max_tool_steps sv \<le> ag_tool_steps st1
                      then (Again compacted emitted1 fb1, st1\<lparr>ag_tool_budget_exhausted := True, ag_tool_calls := []\<rparr>, w1)
                      else (Replied r, st1\<lparr>ag_tool_calls := calls\<rparr>, w1))))"

definition generate_pass ::
  "'w services \<Rightarrow> string \<Rightarrow> bool \<Rightarrow> bool \<Rightarrow> bool \<Rightarrow> agent_state \<Rightarrow> 'w \<Rightarrow> pass_result \<times> agent_state \<times> 'w" where
  "generate_pass sv prompt compacted emitted fb st w =
     (case assemble_context sv st prompt w of
        (Inl ce, w1) \<Rightarrow>
          (case context_failure ce of
             BudgetFailure s \<Rightarrow>
               if compacted \<or> os_compact sv = None then (Failed (BudgetFailure s), st, w1)
               else after_recovery (BudgetFailure s) emitted fb (recover_overflow sv None st w1)
           | e \<Rightarrow> (Failed e, st, w1))
      | (Inr asm, w1) \<Rightarrow>
          if os_compact sv \<noteq> None \<and> \<not> compacted \<and> over_threshold sv asm
          then (case compact_call sv (Some (as_total_tokens asm, as_budget_tokens asm)) False st w1 of
                  (Inl e, w2) \<Rightarrow> (Failed e, st, w2)
                | (Inr (Some ck), w2) \<Rightarrow> (Again True emitted fb, take_checkpoint ck st, w2)
                | (Inr None, w2) \<Rightarrow> ask_model sv asm compacted emitted fb st w2)
          else ask_model sv asm compacted emitted fb st w1)"

section \<open>The loop ends\<close>

definition pass_measure :: "bool \<Rightarrow> agent_state \<Rightarrow> nat" where
  "pass_measure compacted st = of_bool (\<not> compacted) + of_bool (\<not> ag_tool_budget_exhausted st)"

lemma recover_overflow_flags:
  "recover_overflow sv asm st w = (r, st1, w1) \<Longrightarrow> ag_tool_budget_exhausted st1 = ag_tool_budget_exhausted st"
  by (auto simp: recover_overflow_def take_checkpoint_def split: prod.splits sum.splits option.splits)

lemma after_recovery_Again:
  "after_recovery e em fb (recover_overflow sv asm st w) = (Again c em1 fb1, st1, w1)
     \<Longrightarrow> c \<and> ag_tool_budget_exhausted st1 = ag_tool_budget_exhausted st"
  by (auto simp: after_recovery_def split: prod.splits sum.splits bool.splits dest: recover_overflow_flags)

lemma consume_note_simps [simp]:
  "ag_tool_budget_exhausted (consume_note st) = ag_tool_budget_exhausted st" "ag_tool_steps (consume_note st) = ag_tool_steps st"
  by (simp_all add: consume_note_def)

lemma ask_model_decreases:
  assumes "ask_model sv asm compacted em fb st w = (Again c em1 fb1, st1, w1)"
  shows "pass_measure c st1 < pass_measure compacted st"
  using assms
  by (auto simp: ask_model_def pass_measure_def Let_def split: prod.splits sum.splits if_splits dest!: after_recovery_Again)

lemma generate_pass_decreases:
  assumes "generate_pass sv prompt compacted em fb st w = (Again c em1 fb1, st1, w1)"
  shows "pass_measure c st1 < pass_measure compacted st"
  using assms
  by (auto simp: generate_pass_def take_checkpoint_def split: prod.splits sum.splits turn_exc.splits if_splits option.splits
      dest!: after_recovery_Again ask_model_decreases) (simp_all add: pass_measure_def)

function generate_loop ::
  "'w services \<Rightarrow> string \<Rightarrow> bool \<Rightarrow> bool \<Rightarrow> bool \<Rightarrow> agent_state \<Rightarrow> 'w \<Rightarrow> (turn_exc + reply) \<times> agent_state \<times> 'w" where
  "generate_loop sv prompt compacted emitted fb st w =
     (case generate_pass sv prompt compacted emitted fb st w of
        (Failed e, st1, w1) \<Rightarrow> (Inl e, st1, w1)
      | (Replied r, st1, w1) \<Rightarrow> (Inr r, st1, w1)
      | (Again c em fb1, st1, w1) \<Rightarrow> generate_loop sv prompt c em fb1 st1 w1)"
  by pat_completeness auto
termination
  by (relation "measure (\<lambda>(sv, prompt, compacted, emitted, fb, st, w). pass_measure compacted st)")
    (auto dest: generate_pass_decreases [OF sym] generate_pass_decreases)

declare generate_loop.simps [simp del]

section \<open>Nodes\<close>

definition estimate_confidence :: "string \<Rightarrow> rat" where
  "estimate_confidence content =
     (if content = [] then 0
      else if list_ex (\<lambda>p. py_in p (py_lower content))
                [''i'' @ [CHR 39] @ ''m not sure'', ''i don'' @ [CHR 39] @ ''t know'', ''i cannot'', ''i can'' @ [CHR 39] @ ''t'', ''unable to'']
      then 3/10
      else if length content < 20 then 1/2 else 85/100)"

definition generate_response :: "'w services \<Rightarrow> agent_state \<Rightarrow> 'w \<Rightarrow> (turn_exc + agent_state) \<times> 'w" where
  "generate_response sv st w =
     (case generate_loop sv (build_system_prompt sv) False False False (st\<lparr>ag_tool_calls := []\<rparr>) w of
        (Inr r, st1, w1) \<Rightarrow> (Inr (st1\<lparr>ag_response := Some (gn_content r), ag_confidence := estimate_confidence (gn_content r)\<rparr>), w1)
      | (Inl (GatewayFailure m), st1, w1) \<Rightarrow> (Inl (GatewayFailure m), w1)
      | (Inl e, st1, w1) \<Rightarrow> (Inr (st1\<lparr>ag_error := Some (exc_text e), ag_confidence := 0\<rparr>), w1))"

text \<open>\<open>_process_input\<close> builds the context anew: what the caller put there, the conversation id, is gone.\<close>

definition process_input :: "agent_state \<Rightarrow> agent_state" where
  "process_input st = st\<lparr>ag_conversation_id := None, ag_output_raw := None, ag_output_allowed := None, ag_policy_rules := [], ag_handoff := None\<rparr>"

definition retrieve_context :: "'w services \<Rightarrow> agent_state \<Rightarrow> 'w \<Rightarrow> agent_state \<times> 'w" where
  "retrieve_context sv st w =
     (case os_retrieve sv of
        None \<Rightarrow> (st\<lparr>ag_docs := []\<rparr>, w)
      | Some f \<Rightarrow> (case f (ag_redacted_message st) (tn_knowledge_allowlist (os_tenant sv)) w of
                     (Inl _, w1) \<Rightarrow> (st\<lparr>ag_docs := []\<rparr>, w1)
                   | (Inr docs, w1) \<Rightarrow> (st\<lparr>ag_docs := docs\<rparr>, w1)))"

definition authorize_tool :: "'w services \<Rightarrow> raw_call \<Rightarrow> 'w \<Rightarrow> bool \<times> 'w" where
  "authorize_tool sv call w =
     (case os_authorizer sv of
        None \<Rightarrow> (True, w)
      | Some f \<Rightarrow> (case f call w of (Inl _, w1) \<Rightarrow> (False, w1) | (Inr b, w1) \<Rightarrow> (b, w1)))"

text \<open>A part is handed to the persistence hook, whose failures are only logged.\<close>

definition emit_tool_part :: "'w services \<Rightarrow> tool_part \<Rightarrow> 'w \<Rightarrow> 'w" where
  "emit_tool_part sv part w = (case os_tool_callback sv of None \<Rightarrow> w | Some f \<Rightarrow> f part w)"

definition tool_use :: "raw_call \<Rightarrow> tool_part" where
  "tool_use call = ToolUsePart (rc_id call) (rc_name call) (rc_arguments call)"

definition run_one_tool :: "'w services \<Rightarrow> 'w registry_tools \<Rightarrow> raw_call \<Rightarrow> agent_state \<times> 'w \<Rightarrow> agent_state \<times> 'w" where
  "run_one_tool sv reg call stw =
     (case stw of
        (st, w) \<Rightarrow>
          (case authorize_tool sv call (emit_tool_part sv (tool_use call) w) of
             (allowed, w1) \<Rightarrow>
               (let (res, w2) =
                      (if \<not> allowed then ((result_of ''blocked by policy'' True)\<lparr>tr_blocked := True\<rparr>, w1)
                       else case rc_arguments call of
                              JObj a \<Rightarrow> execute (os_arg_validator sv) reg (rc_name call) a w1
                            | _ \<Rightarrow> (result_of ''malformed tool arguments'' True, w1));
                    res1 = res\<lparr>tr_tool_use_id := rc_id call, tr_name := rc_name call\<rparr>
                in (st\<lparr>ag_tool_parts := ag_tool_parts st @ [tool_use call, ToolResultPart res1],
                       ag_tool_results := ag_tool_results st @ [res1], ag_tool_steps := ag_tool_steps st + 1\<rparr>,
                    emit_tool_part sv (ToolResultPart res1) w2))))"

definition execute_tools :: "'w services \<Rightarrow> agent_state \<Rightarrow> 'w \<Rightarrow> agent_state \<times> 'w" where
  "execute_tools sv st w =
     (case os_tools sv of
        None \<Rightarrow> (st\<lparr>ag_tool_budget_exhausted := True, ag_tool_calls := []\<rparr>, w)
      | Some reg \<Rightarrow>
          if ag_tool_calls st = [] \<or> max_tool_steps sv \<le> ag_tool_steps st
          then (st\<lparr>ag_tool_budget_exhausted := True, ag_tool_calls := []\<rparr>, w)
          else (case fold (run_one_tool sv reg) (ag_tool_calls st) (st, w) of (st1, w1) \<Rightarrow> (st1\<lparr>ag_tool_calls := []\<rparr>, w1)))"

definition verify_note :: "string \<Rightarrow> string" where
  "verify_note reason = ''Your previous reply failed verification (reason: '' @ reason @ ''). Re-answer the user'' @ [CHR 39]
     @ ''s question faithfully, based on the provided context. Do not repeat the failed reply.''"

text \<open>The grounding of a response: no reason when it is faithful or nothing was retrieved.\<close>

definition grounding_failure :: "'w services \<Rightarrow> agent_state \<Rightarrow> string option" where
  "grounding_failure sv st =
     (if get_or (ag_response st) [] = [] then Some ''empty_response''
      else if ag_docs st = [] then None
      else let c = faithfulness_check (12/100) 8 (the (ag_response st)) (map rd_content (ag_docs st))
           in if fa_checked c \<and> \<not> fa_grounded c then Some (''low_faithfulness='' @ os_float_text sv (fa_score c)) else None)"

definition output_gate :: "'w services \<Rightarrow> agent_state \<Rightarrow> 'w \<Rightarrow> bool \<times> agent_state \<times> 'w" where
  "output_gate sv st w =
     (case os_validator sv of
        None \<Rightarrow> (True, st, w)
      | Some f \<Rightarrow>
          (case f (the (ag_response st)) w of
             (Inl _, w1) \<Rightarrow> (True, st, w1)
           | (Inr c, w1) \<Rightarrow>
               (oc_allowed c,
                (if truthy_str (oc_redacted_text c) then st\<lparr>ag_output_raw := ag_response st, ag_response := oc_redacted_text c\<rparr> else st)
                  \<lparr>ag_output_allowed := Some (oc_allowed c)\<rparr>, w1)))"

definition validate_response :: "'w services \<Rightarrow> agent_state \<Rightarrow> 'w \<Rightarrow> agent_state \<times> 'w" where
  "validate_response sv st w =
     (let text = get_or (ag_response st) [];
          (reason, st1, w1) =
            (case grounding_failure sv st of
               Some r \<Rightarrow> (Some r, st, w)
             | None \<Rightarrow> (case output_gate sv st w of
                          (ok, st1, w1) \<Rightarrow> (if ok then None else Some ''output_moderation_blocked'', st1, w1)));
          st2 = st1\<lparr>ag_validation := Some (reason = None, length text, py_strip text \<noteq> [])\<rparr>
      in (case reason of
            None \<Rightarrow> st2\<lparr>ag_verify_retries := 0\<rparr>
          | Some r \<Rightarrow>
              (let n = ag_verify_retries st2 + 1
               in if max_verify_retries sv \<le> n
                  then st2\<lparr>ag_verify_retries := n, ag_verify_exhausted := True, ag_handoff_required := True\<rparr>
                  else st2\<lparr>ag_verify_retries := n, ag_verify_note := Some (verify_note r)\<rparr>), w1))"

definition policy_input :: "agent_state \<Rightarrow> policy_context" where
  "policy_input st =
     [(''response'', case ag_response st of None \<Rightarrow> JNull | Some s \<Rightarrow> JStr s), (''confidence'', JNum (ag_confidence st)),
      (''validation'', case ag_validation st of None \<Rightarrow> JObj []
         | Some (v, n, h) \<Rightarrow> JObj [(''valid'', JBool v), (''length'', JInt (int n)), (''has_content'', JBool h)])]"

definition check_policy :: "'w services \<Rightarrow> agent_state \<Rightarrow> agent_state" where
  "check_policy sv st =
     (let (action, rules) = evaluate_with_results (os_policy sv) (policy_input st);
          st1 = st\<lparr>ag_policy_action := action, ag_policy_rules := rules\<rparr>;
          st2 = (if action = PA_REDACT
                 then let n = ag_redact_attempts st1 + 1
                      in st1\<lparr>ag_redact_attempts := n, ag_budget_exceeded := (ag_budget_exceeded st1 \<or> max_redact_iterations sv \<le> n)\<rparr>
                 else st1)
      in if ag_confidence st2 < tn_escalation_threshold (os_tenant sv) then st2\<lparr>ag_handoff_required := True\<rparr> else st2)"

definition action_name :: "policy_action \<Rightarrow> string" where
  "action_name a = (case a of PA_ALLOW \<Rightarrow> ''ALLOW'' | PA_BLOCK \<Rightarrow> ''BLOCK'' | PA_ESCALATE \<Rightarrow> ''ESCALATE'' | PA_REDACT \<Rightarrow> ''REDACT'')"

definition prepare_handoff :: "'w services \<Rightarrow> agent_state \<Rightarrow> 'w \<Rightarrow> agent_state \<times> 'w" where
  "prepare_handoff sv st w =
     (let st1 = st\<lparr>ag_handoff_required := True\<rparr>
      in case os_escalate sv of
           None \<Rightarrow> (st1, w)
         | Some f \<Rightarrow>
             (let reason = (if ag_confidence st < tn_escalation_threshold (os_tenant sv)
                            then ''low_confidence='' @ py_fixed2 (ag_confidence st)
                                   @ '' (threshold='' @ os_float_text sv (tn_escalation_threshold (os_tenant sv)) @ '')''
                            else ''policy_action='' @ action_name (ag_policy_action st))
              in case f st1 reason w of
                   (Inl _, w1) \<Rightarrow> (st1\<lparr>ag_handoff := Some False\<rparr>, w1)
                 | (Inr ok, w1) \<Rightarrow> (st1\<lparr>ag_handoff := Some ok\<rparr>, w1)))"

section \<open>The graph\<close>

datatype node = ProcessInput | RetrieveContext | GenerateResponse | ExecuteTools | ValidateOutput | CheckPolicy | PrepareHandoff | End

definition route_after_generate :: "agent_state \<Rightarrow> node" where
  "route_after_generate st = (if ag_tool_calls st \<noteq> [] then ExecuteTools else ValidateOutput)"

definition validated :: "agent_state \<Rightarrow> bool" where
  "validated st = (case ag_validation st of None \<Rightarrow> True | Some (v, _) \<Rightarrow> v)"

definition route_after_validate :: "agent_state \<Rightarrow> node" where
  "route_after_validate st =
     (if validated st then CheckPolicy else if ag_verify_exhausted st then PrepareHandoff else GenerateResponse)"

definition route_after_policy :: "'w services \<Rightarrow> agent_state \<Rightarrow> node" where
  "route_after_policy sv st =
     (if ag_budget_exceeded st then End
      else case ag_policy_action st of
             PA_BLOCK \<Rightarrow> PrepareHandoff
           | PA_ESCALATE \<Rightarrow> PrepareHandoff
           | PA_REDACT \<Rightarrow> if max_redact_iterations sv \<le> ag_redact_attempts st then End else GenerateResponse
           | PA_ALLOW \<Rightarrow> if ag_handoff_required st then PrepareHandoff else End)"

definition graph_step :: "'w services \<Rightarrow> node \<Rightarrow> agent_state \<Rightarrow> 'w \<Rightarrow> (turn_exc + node \<times> agent_state) \<times> 'w" where
  "graph_step sv nd st w =
     (case nd of
        ProcessInput \<Rightarrow> (Inr (RetrieveContext, process_input st), w)
      | RetrieveContext \<Rightarrow> (case retrieve_context sv st w of (st1, w1) \<Rightarrow> (Inr (GenerateResponse, st1), w1))
      | GenerateResponse \<Rightarrow>
          (case generate_response sv st w of (Inl e, w1) \<Rightarrow> (Inl e, w1) | (Inr st1, w1) \<Rightarrow> (Inr (route_after_generate st1, st1), w1))
      | ExecuteTools \<Rightarrow> (case execute_tools sv st w of (st1, w1) \<Rightarrow> (Inr (GenerateResponse, st1), w1))
      | ValidateOutput \<Rightarrow> (case validate_response sv st w of (st1, w1) \<Rightarrow> (Inr (route_after_validate st1, st1), w1))
      | CheckPolicy \<Rightarrow> (let st1 = check_policy sv st in (Inr (route_after_policy sv st1, st1), w))
      | PrepareHandoff \<Rightarrow> (case prepare_handoff sv st w of (st1, w1) \<Rightarrow> (Inr (End, st1), w1))
      | End \<Rightarrow> (Inr (End, st), w))"

text \<open>\<open>ainvoke\<close> with its \<open>recursion_limit\<close>.\<close>

type_synonym graph_error = "turn_exc run_error"

definition run_graph :: "'w services \<Rightarrow> nat \<Rightarrow> node \<Rightarrow> agent_state \<Rightarrow> 'w \<Rightarrow> (graph_error + agent_state) \<times> 'w" where
  "run_graph sv n nd st w = run_steps (graph_step sv) End n nd st w"

definition initial_state ::
  "string \<Rightarrow> string \<Rightarrow> string option \<Rightarrow> context_turn list \<Rightarrow> string option \<Rightarrow> int option \<Rightarrow> string list \<Rightarrow> agent_state" where
  "initial_state message session conv history summary position layers =
     \<lparr>ag_session_id = session, ag_conversation_id = conv, ag_redacted_message = message, ag_history = history, ag_docs = [],
      ag_response = None, ag_output_raw = None, ag_output_allowed = None, ag_validation = None, ag_policy_action = PA_ALLOW, ag_policy_rules = [],
      ag_confidence = 0, ag_handoff_required = False, ag_handoff = None, ag_redact_attempts = 0, ag_budget_exceeded = False,
      ag_summary = summary, ag_summary_position = position, ag_summary_layers = layers, ag_error = None, ag_tool_calls = [],
      ag_tool_parts = [], ag_tool_results = [], ag_tool_steps = 0, ag_tool_budget_exhausted = False, ag_verify_retries = 0,
      ag_verify_note = None, ag_verify_exhausted = False, ag_sent = []\<rparr>"

definition process_message ::
  "'w services \<Rightarrow> string \<Rightarrow> string \<Rightarrow> string option \<Rightarrow> context_turn list \<Rightarrow> string option \<Rightarrow> int option \<Rightarrow> string list \<Rightarrow> 'w
     \<Rightarrow> (graph_error + agent_state) \<times> 'w" where
  "process_message sv message session conv history summary position layers w =
     run_graph sv (loop_budget sv ''max_graph_steps'' 50) ProcessInput (initial_state message session conv history summary position layers) w"

datatype client_event =
    ClientDelta string
  | ClientError string
  | ClientResult string rat policy_action bool bool

text \<open>What a streaming client receives from \<open>stream_message\<close>: the chunks, then one final event. \<open>sent\<close> are the chunks sent
  by the time an exception left the graph.\<close>

definition stream_message_events :: "string list \<Rightarrow> (graph_error + agent_state) \<Rightarrow> client_event list" where
  "stream_message_events sent res =
     (case res of
        Inl (Raised_in_node e) \<Rightarrow> map ClientDelta sent @ [ClientError (exc_text e)]
      | Inl GraphRecursionError \<Rightarrow> map ClientDelta sent @ [ClientError ''recursion limit'']
      | Inr st \<Rightarrow> map ClientDelta (ag_sent st) @
          [if truthy_str (ag_error st) then ClientError (the (ag_error st))
           else ClientResult (get_or (ag_response st) []) (ag_confidence st) (ag_policy_action st) (ag_handoff_required st) (ag_budget_exceeded st)])"

section \<open>Lemmas\<close>

subsection \<open>What generation leaves alone\<close>

text \<open>Generation may spend the tool budget; it touches none of the counters and verdicts of the other nodes.\<close>

definition frame :: "agent_state \<Rightarrow> agent_state \<Rightarrow> bool" where
  "frame st st1 \<longleftrightarrow> ag_redact_attempts st1 = ag_redact_attempts st \<and> ag_verify_retries st1 = ag_verify_retries st
     \<and> ag_verify_exhausted st1 = ag_verify_exhausted st \<and> ag_budget_exceeded st1 = ag_budget_exceeded st
     \<and> ag_tool_steps st1 = ag_tool_steps st \<and> (ag_tool_budget_exhausted st \<longrightarrow> ag_tool_budget_exhausted st1)"

lemma frame_refl [simp]: "frame st st"
  by (simp add: frame_def)

lemma frame_trans: "frame a b \<Longrightarrow> frame b c \<Longrightarrow> frame a c"
  by (auto simp: frame_def)

lemma recover_frame:
  "recover_overflow sv asm st w = (r, st1, w1) \<Longrightarrow> frame st st1 \<and> ag_tool_calls st1 = ag_tool_calls st"
  by (auto simp: recover_overflow_def take_checkpoint_def frame_def split: prod.splits sum.splits option.splits)

lemma after_recovery_frame:
  assumes "after_recovery e em fb (recover_overflow sv asm st w) = (pr, st1, w1)"
  shows "frame st st1 \<and> ag_tool_calls st1 = ag_tool_calls st \<and> (\<forall>r. pr \<noteq> Replied r)"
  using assms by (auto simp: after_recovery_def split: prod.splits sum.splits bool.splits dest: recover_frame)

text \<open>Where a pass leaves the tool calls: none that were not there, unless the model replied within the budget.\<close>

definition calls_ok :: "'w services \<Rightarrow> pass_result \<Rightarrow> agent_state \<Rightarrow> bool" where
  "calls_ok sv pr st \<longleftrightarrow> (case pr of
     Replied _ \<Rightarrow> ag_tool_calls st = [] \<or> \<not> ag_tool_budget_exhausted st \<and> ag_tool_steps st < max_tool_steps sv
   | _ \<Rightarrow> ag_tool_calls st = [])"

lemma consume_note_frame:
  "frame st (consume_note st)" "ag_tool_calls (consume_note st) = ag_tool_calls st"
  "frame a st \<Longrightarrow> frame a (st\<lparr>ag_sent := x\<rparr>)"
  by (auto simp: consume_note_def frame_def)

lemma ask_model_frame:
  assumes "ask_model sv asm compacted em fb st w = (pr, st1, w1)" "ag_tool_calls st = []"
  shows "frame st st1 \<and> calls_ok sv pr st1"
proof -
  obtain res sent fb1 w2 where c: "call_model sv fb (gateway_turn_request sv asm st) w = (res, sent, fb1, w2)" by (metis prod_cases4)
  let ?st = "(consume_note st)\<lparr>ag_sent := ag_sent st @ sent\<rparr>"
  have f: "frame st ?st" "ag_tool_calls ?st = []" using assms(2) by (simp_all add: consume_note_frame)
  show ?thesis
  proof (cases res)
    case (Inl e)
    with assms(1) c f show ?thesis
      by (auto simp: ask_model_def Let_def calls_ok_def split: if_splits pass_result.splits
          dest!: after_recovery_frame intro: frame_trans)
  next
    case (Inr r)
    with assms(1) c f show ?thesis
      by (auto simp: ask_model_def Let_def calls_ok_def frame_def split: if_splits)
  qed
qed

lemma generate_pass_frame:
  assumes "generate_pass sv prompt compacted em fb st w = (pr, st1, w1)" "ag_tool_calls st = []"
  shows "frame st st1 \<and> calls_ok sv pr st1"
  using assms
  by (auto simp: generate_pass_def take_checkpoint_def calls_ok_def frame_def
      split: prod.splits sum.splits turn_exc.splits if_splits option.splits pass_result.splits
      dest!: after_recovery_frame ask_model_frame [OF _ assms(2)])

lemma generate_loop_frame:
  assumes "generate_loop sv prompt compacted em fb st w = (res, st1, w1)" "ag_tool_calls st = []"
  shows "frame st st1 \<and> (case res of Inl _ \<Rightarrow> ag_tool_calls st1 = [] | Inr r \<Rightarrow> calls_ok sv (Replied r) st1)"
  using assms
proof (induction sv prompt compacted em fb st w arbitrary: res st1 w1 rule: generate_loop.induct)
  case (1 sv prompt compacted em fb st w)
  obtain pr st2 w2 where p: "generate_pass sv prompt compacted em fb st w = (pr, st2, w2)" by (metis prod_cases3)
  note f = generate_pass_frame [OF p 1(3)]
  show ?case
  proof (cases pr)
    case (Again c em1 fb1)
    with 1(2) p have l: "generate_loop sv prompt c em1 fb1 st2 w2 = (res, st1, w1)" by (simp add: generate_loop.simps [of sv prompt compacted])
    have "ag_tool_calls st2 = []" using f Again by (simp add: calls_ok_def)
    from 1(1) [OF p [symmetric] Again refl l this] f show ?thesis by (auto intro: frame_trans)
  qed (use 1(2) p f in \<open>auto simp: generate_loop.simps [of sv prompt compacted] calls_ok_def\<close>)
qed

lemma generate_response_frame:
  assumes "generate_response sv st w = (Inr st1, w1)"
  shows "frame st st1" "ag_tool_calls st1 \<noteq> [] \<Longrightarrow> \<not> ag_tool_budget_exhausted st1 \<and> ag_tool_steps st1 < max_tool_steps sv"
proof -
  obtain res st2 w2 where l: "generate_loop sv (build_system_prompt sv) False False False (st\<lparr>ag_tool_calls := []\<rparr>) w = (res, st2, w2)"
    by (metis prod_cases3)
  have "ag_tool_calls (st\<lparr>ag_tool_calls := []\<rparr>) = []" by simp
  note f = generate_loop_frame [OF l this]
  have *: "frame st st1 \<and> (ag_tool_calls st1 \<noteq> [] \<longrightarrow> \<not> ag_tool_budget_exhausted st1 \<and> ag_tool_steps st1 < max_tool_steps sv)"
  proof (cases res)
    case (Inl e)
    with assms l f show ?thesis by (cases e) (auto simp: generate_response_def frame_def)
  next
    case (Inr r)
    with assms l f show ?thesis by (auto simp: generate_response_def frame_def calls_ok_def)
  qed
  then show "frame st st1" "ag_tool_calls st1 \<noteq> [] \<Longrightarrow> \<not> ag_tool_budget_exhausted st1 \<and> ag_tool_steps st1 < max_tool_steps sv" by auto
qed

subsection \<open>The graph ends\<close>

lemma run_one_tool_frame:
  "run_one_tool sv reg c (st, w) = (st1, w1) \<Longrightarrow> ag_tool_steps st1 = ag_tool_steps st + 1
     \<and> frame st (st1\<lparr>ag_tool_steps := ag_tool_steps st\<rparr>) \<and> ag_tool_budget_exhausted st1 = ag_tool_budget_exhausted st"
  by (auto simp: run_one_tool_def frame_def Let_def split: prod.splits if_splits json.splits)

lemma fold_tools_frame:
  "fold (run_one_tool sv reg) cs (st, w) = (st1, w1) \<Longrightarrow> ag_tool_steps st1 = ag_tool_steps st + length cs
     \<and> frame st (st1\<lparr>ag_tool_steps := ag_tool_steps st\<rparr>) \<and> ag_tool_budget_exhausted st1 = ag_tool_budget_exhausted st"
proof (induction cs arbitrary: st w)
  case (Cons c cs)
  obtain st2 w2 where r: "run_one_tool sv reg c (st, w) = (st2, w2)" by fastforce
  with Cons.prems have "fold (run_one_tool sv reg) cs (st2, w2) = (st1, w1)" by simp
  from Cons.IH [OF this] run_one_tool_frame [OF r] show ?case by (auto simp: frame_def)
qed (auto simp: frame_def)

definition tools_left :: "'w services \<Rightarrow> agent_state \<Rightarrow> nat" where
  "tools_left sv st = (if ag_tool_budget_exhausted st then 0 else max_tool_steps sv - ag_tool_steps st + 1)"

lemma tools_left_mono: "frame st st1 \<Longrightarrow> tools_left sv st1 \<le> tools_left sv st"
  by (auto simp: tools_left_def frame_def)

lemma execute_tools_step:
  assumes "execute_tools sv st w = (st1, w1)" "ag_tool_calls st \<noteq> []" "\<not> ag_tool_budget_exhausted st"
  shows "tools_left sv st1 < tools_left sv st" "ag_redact_attempts st1 = ag_redact_attempts st" "ag_verify_retries st1 = ag_verify_retries st"
    "ag_budget_exceeded st1 = ag_budget_exceeded st" "ag_verify_exhausted st1 = ag_verify_exhausted st"
proof -
  have *: "tools_left sv st1 < tools_left sv st \<and> ag_redact_attempts st1 = ag_redact_attempts st \<and> ag_verify_retries st1 = ag_verify_retries st
      \<and> ag_budget_exceeded st1 = ag_budget_exceeded st \<and> ag_verify_exhausted st1 = ag_verify_exhausted st"
  proof (cases "os_tools sv = None \<or> max_tool_steps sv \<le> ag_tool_steps st")
    case True
    with assms show ?thesis by (auto simp: execute_tools_def tools_left_def split: option.splits)
  next
    case False
    then obtain reg where reg: "os_tools sv = Some reg" and lt: "ag_tool_steps st < max_tool_steps sv" by auto
    obtain st2 w2 where f: "fold (run_one_tool sv reg) (ag_tool_calls st) (st, w) = (st2, w2)" by fastforce
    have "max_tool_steps sv - (ag_tool_steps st + length (ag_tool_calls st)) < max_tool_steps sv - ag_tool_steps st"
      using lt assms(2) by (cases "ag_tool_calls st") auto
    with fold_tools_frame [OF f] assms f reg lt show ?thesis by (auto simp: execute_tools_def tools_left_def frame_def)
  qed
  then show "tools_left sv st1 < tools_left sv st" "ag_redact_attempts st1 = ag_redact_attempts st" "ag_verify_retries st1 = ag_verify_retries st"
    "ag_budget_exceeded st1 = ag_budget_exceeded st" "ag_verify_exhausted st1 = ag_verify_exhausted st" by auto
qed

text \<open>
  The number of steps that can still follow. A redaction round costs three steps and refills the re-asks, a re-ask two, a
  tool round two; the rest is the way out.
\<close>

definition steps_left :: "'w services \<Rightarrow> node \<Rightarrow> agent_state \<Rightarrow> nat" where
  "steps_left sv nd st =
     (let t = tools_left sv st; v = max_verify_retries sv - ag_verify_retries st;
          r = (max_redact_iterations sv - ag_redact_attempts st) * (2 * max_verify_retries sv + 3)
      in case nd of
           ProcessInput \<Rightarrow> 2 * t + 2 * v + r + 6
         | RetrieveContext \<Rightarrow> 2 * t + 2 * v + r + 5
         | GenerateResponse \<Rightarrow> 2 * t + 2 * v + r + 4
         | ExecuteTools \<Rightarrow> 2 * t + 2 * v + r + 3
         | ValidateOutput \<Rightarrow> 2 * t + 2 * v + r + 3
         | CheckPolicy \<Rightarrow> 2 * t + r + 2
         | PrepareHandoff \<Rightarrow> 1
         | End \<Rightarrow> 0)"

text \<open>What holds when a node is entered.\<close>

definition node_inv :: "'w services \<Rightarrow> node \<Rightarrow> agent_state \<Rightarrow> bool" where
  "node_inv sv nd st \<longleftrightarrow> (nd = ExecuteTools \<longrightarrow> ag_tool_calls st \<noteq> [] \<and> \<not> ag_tool_budget_exhausted st)
     \<and> (nd = CheckPolicy \<longrightarrow> validated st \<and> ag_validation st \<noteq> None \<and> truthy_str (ag_response st) \<and> ag_verify_retries st = 0)
     \<and> (nd \<noteq> End \<longrightarrow> nd \<noteq> PrepareHandoff \<longrightarrow> \<not> ag_budget_exceeded st \<and> \<not> ag_verify_exhausted st)"

lemma output_gate_frame:
  "output_gate sv st w = (ok, st1, w1) \<Longrightarrow> st1 = st\<lparr>ag_output_raw := ag_output_raw st1, ag_output_allowed := ag_output_allowed st1, ag_response := ag_response st1\<rparr>
     \<and> (truthy_str (ag_response st) \<longrightarrow> truthy_str (ag_response st1))"
  by (auto simp: output_gate_def split: option.splits prod.splits sum.splits)

lemma validate_response_cases:
  assumes "validate_response sv st w = (st1, w1)" "\<not> ag_verify_exhausted st" "\<not> ag_budget_exceeded st"
  shows "ag_redact_attempts st1 = ag_redact_attempts st \<and> ag_tool_steps st1 = ag_tool_steps st
     \<and> ag_tool_budget_exhausted st1 = ag_tool_budget_exhausted st \<and> \<not> ag_budget_exceeded st1 \<and> ag_validation st1 \<noteq> None
     \<and> (validated st1 \<longrightarrow> truthy_str (ag_response st1) \<and> ag_verify_retries st1 = 0 \<and> \<not> ag_verify_exhausted st1)
     \<and> (\<not> validated st1 \<longrightarrow> ag_verify_retries st1 = ag_verify_retries st + 1
          \<and> ag_verify_exhausted st1 = (max_verify_retries sv \<le> ag_verify_retries st1))"
proof (cases "grounding_failure sv st")
  case (Some r)
  with assms show ?thesis by (auto simp: validate_response_def Let_def validated_def split: if_splits)
next
  case None
  then have t: "truthy_str (ag_response st)" by (auto simp: grounding_failure_def get_or_def truthy_str_def split: option.splits if_splits)
  obtain ok st2 w2 where g: "output_gate sv st w = (ok, st2, w2)" by (metis prod_cases3)
  obtain a b c where st2: "st2 = st\<lparr>ag_output_raw := a, ag_output_allowed := c, ag_response := b\<rparr>" "truthy_str b"
    using output_gate_frame [OF g] t by blast
  show ?thesis using assms None g st2 by (auto simp: validate_response_def Let_def validated_def split: if_splits)
qed

lemma check_policy_frame:
  "ag_tool_steps (check_policy sv st) = ag_tool_steps st" "ag_tool_budget_exhausted (check_policy sv st) = ag_tool_budget_exhausted st"
  "ag_verify_retries (check_policy sv st) = ag_verify_retries st" "ag_verify_exhausted (check_policy sv st) = ag_verify_exhausted st"
  "ag_response (check_policy sv st) = ag_response st" "ag_confidence (check_policy sv st) = ag_confidence st"
  "ag_validation (check_policy sv st) = ag_validation st"
  by (simp_all add: check_policy_def Let_def split: prod.splits)

lemma check_policy_action: "ag_policy_action (check_policy sv st) = policy_evaluate (os_policy sv) (policy_input st)"
  by (simp add: check_policy_def policy_evaluate_def Let_def split: prod.splits)

lemma check_policy_redact:
  "ag_redact_attempts (check_policy sv st) = ag_redact_attempts st + of_bool (ag_policy_action (check_policy sv st) = PA_REDACT)"
  "ag_budget_exceeded (check_policy sv st) = (ag_budget_exceeded st
     \<or> ag_policy_action (check_policy sv st) = PA_REDACT \<and> max_redact_iterations sv \<le> ag_redact_attempts (check_policy sv st))"
  by (auto simp: check_policy_def Let_def split: prod.splits)

lemma check_policy_handoff:
  "ag_handoff_required (check_policy sv st) = (ag_handoff_required st \<or> ag_confidence st < tn_escalation_threshold (os_tenant sv))"
  by (simp add: check_policy_def Let_def split: prod.splits)

lemma policy_round:
  assumes "a + 1 < (m :: nat)"
  shows "(m - (a + 1)) * k + k = (m - a) * k"
proof -
  have "m - a = (m - (a + 1)) + 1" using assms by simp
  then show ?thesis by (simp add: algebra_simps)
qed

definition shrinks :: "'w services \<Rightarrow> node \<Rightarrow> agent_state \<Rightarrow> node \<Rightarrow> agent_state \<Rightarrow> bool" where
  "shrinks sv nd st nd1 st1 \<longleftrightarrow> node_inv sv nd1 st1 \<and> steps_left sv nd1 st1 < steps_left sv nd st"

lemma generate_shrinks:
  assumes "generate_response sv st w = (Inr st1, w1)" "node_inv sv GenerateResponse st"
  shows "shrinks sv GenerateResponse st (route_after_generate st1) st1"
proof -
  note g = generate_response_frame [OF assms(1)]
  have t: "tools_left sv st1 \<le> tools_left sv st" by (rule tools_left_mono [OF g(1)])
  show ?thesis
    using g t assms(2) by (auto simp: shrinks_def route_after_generate_def node_inv_def steps_left_def Let_def frame_def)
qed

lemma execute_shrinks:
  assumes "execute_tools sv st w = (st1, w1)" "node_inv sv ExecuteTools st"
  shows "shrinks sv ExecuteTools st GenerateResponse st1"
proof -
  from assms(2) have "ag_tool_calls st \<noteq> []" "\<not> ag_tool_budget_exhausted st" by (auto simp: node_inv_def)
  from execute_tools_step [OF assms(1) this] assms(2) show ?thesis
    by (auto simp: shrinks_def node_inv_def steps_left_def Let_def)
qed

lemma validate_shrinks:
  assumes "validate_response sv st w = (st1, w1)" "node_inv sv ValidateOutput st"
  shows "shrinks sv ValidateOutput st (route_after_validate st1) st1"
proof -
  from assms(2) have b: "\<not> ag_verify_exhausted st" "\<not> ag_budget_exceeded st" by (auto simp: node_inv_def)
  note v = validate_response_cases [OF assms(1) b]
  then have t: "tools_left sv st1 = tools_left sv st" by (simp add: tools_left_def)
  show ?thesis using v t b
    by (cases "validated st1"; cases "ag_verify_exhausted st1")
      (auto simp: shrinks_def route_after_validate_def node_inv_def steps_left_def Let_def)
qed

lemma policy_shrinks:
  assumes "node_inv sv CheckPolicy st"
  shows "shrinks sv CheckPolicy st (route_after_policy sv (check_policy sv st)) (check_policy sv st)"
proof -
  let ?st = "check_policy sv st"
  have t: "tools_left sv ?st = tools_left sv st" by (simp add: tools_left_def check_policy_frame)
  from assms have b: "\<not> ag_budget_exceeded st" "\<not> ag_verify_exhausted st" "ag_verify_retries st = 0" by (auto simp: node_inv_def)
  show ?thesis
  proof (cases "route_after_policy sv ?st = GenerateResponse")
    case True
    then have a: "ag_policy_action ?st = PA_REDACT" "\<not> ag_budget_exceeded ?st"
      by (auto simp: route_after_policy_def split: if_splits policy_action.splits)
    then have lt: "ag_redact_attempts st + 1 < max_redact_iterations sv" by (simp add: check_policy_redact)
    have "(max_redact_iterations sv - (ag_redact_attempts st + 1)) * (2 * max_verify_retries sv + 3) + (2 * max_verify_retries sv + 3)
        = (max_redact_iterations sv - ag_redact_attempts st) * (2 * max_verify_retries sv + 3)" by (rule policy_round [OF lt])
    then show ?thesis using True a b t
      by (simp add: shrinks_def node_inv_def steps_left_def Let_def check_policy_frame check_policy_redact(1) del: mult_Suc_right)
  next
    case False
    then have "route_after_policy sv ?st \<in> {PrepareHandoff, End}"
      by (auto simp: route_after_policy_def split: if_splits policy_action.splits)
    then show ?thesis by (auto simp: shrinks_def node_inv_def steps_left_def Let_def)
  qed
qed

lemma graph_step_shrinks:
  assumes "graph_step sv nd st w = (Inr (nd1, st1), w1)" "node_inv sv nd st" "nd \<noteq> End"
  shows "shrinks sv nd st nd1 st1"
proof (cases nd)
  case ProcessInput
  with assms show ?thesis
    by (auto simp: graph_step_def shrinks_def node_inv_def steps_left_def tools_left_def process_input_def Let_def)
next
  case RetrieveContext
  with assms show ?thesis
    by (auto simp: graph_step_def shrinks_def node_inv_def steps_left_def tools_left_def retrieve_context_def Let_def
        split: prod.splits option.splits sum.splits)
next
  case GenerateResponse
  with assms show ?thesis by (auto simp: graph_step_def split: prod.splits sum.splits intro: generate_shrinks)
next
  case ExecuteTools
  with assms show ?thesis by (auto simp: graph_step_def split: prod.splits intro: execute_shrinks)
next
  case ValidateOutput
  with assms show ?thesis by (auto simp: graph_step_def split: prod.splits intro: validate_shrinks)
next
  case CheckPolicy
  with assms show ?thesis by (auto simp: graph_step_def Let_def intro: policy_shrinks)
next
  case PrepareHandoff
  with assms show ?thesis by (auto simp: graph_step_def shrinks_def node_inv_def steps_left_def Let_def split: prod.splits)
qed (use assms in simp)

subsection \<open>What is released\<close>

definition released_ok :: "'w services \<Rightarrow> agent_state \<Rightarrow> bool" where
  "released_ok sv st \<longleftrightarrow> validated st \<and> ag_validation st \<noteq> None \<and> truthy_str (ag_response st)
     \<and> tn_escalation_threshold (os_tenant sv) \<le> ag_confidence st
     \<and> policy_evaluate (os_policy sv) (policy_input st) = ag_policy_action st
     \<and> (ag_policy_action st = PA_ALLOW \<or> ag_policy_action st = PA_REDACT \<and> ag_budget_exceeded st)"

lemma policy_input_check: "policy_input (check_policy sv st) = policy_input st"
  by (simp add: policy_input_def check_policy_frame)

lemma graph_step_released:
  assumes "graph_step sv nd st w = (Inr (End, st1), w1)" "node_inv sv nd st" "nd \<noteq> End"
  shows "ag_handoff_required st1 \<or> released_ok sv st1"
proof (cases nd)
  case CheckPolicy
  with assms(1) have s: "st1 = check_policy sv st" "route_after_policy sv st1 = End" by (auto simp: graph_step_def Let_def)
  have b: "validated st" "ag_validation st \<noteq> None" "truthy_str (ag_response st)" "\<not> ag_budget_exceeded st"
    using assms(2) CheckPolicy by (auto simp: node_inv_def)
  from s(2) have r: "ag_budget_exceeded st1 \<or> ag_policy_action st1 = PA_REDACT \<and> max_redact_iterations sv \<le> ag_redact_attempts st1
      \<or> ag_policy_action st1 = PA_ALLOW \<and> \<not> ag_handoff_required st1"
    by (auto simp: route_after_policy_def split: if_splits policy_action.splits)
  have "ag_policy_action st1 = PA_ALLOW \<or> ag_policy_action st1 = PA_REDACT \<and> ag_budget_exceeded st1"
    using r b(4) by (auto simp: s(1) check_policy_redact(2))
  moreover have "policy_evaluate (os_policy sv) (policy_input st1) = ag_policy_action st1"
    by (simp add: s(1) policy_input_check check_policy_action)
  ultimately show ?thesis
    using b by (auto simp: released_ok_def s(1) check_policy_frame check_policy_handoff validated_def not_less)
next
  case PrepareHandoff
  with assms(1) show ?thesis by (auto simp: graph_step_def prepare_handoff_def Let_def split: prod.splits option.splits sum.splits)
qed (use assms in \<open>auto simp: graph_step_def route_after_generate_def route_after_validate_def split: prod.splits sum.splits if_splits\<close>)

interpretation turn: bounded_graph "graph_step sv" End "node_inv sv" "steps_left sv" "\<lambda>st. ag_handoff_required st \<or> released_ok sv st"
  for sv :: "'w services"
proof
  fix nd nd1 and st st1 :: agent_state and w w1 :: 'w
  show "steps_left sv nd st = 0 \<Longrightarrow> nd = End" by (cases nd) (auto simp: steps_left_def Let_def)
  show "graph_step sv nd st w = (Inr (nd1, st1), w1) \<Longrightarrow> node_inv sv nd st \<Longrightarrow> nd \<noteq> End
      \<Longrightarrow> node_inv sv nd1 st1 \<and> steps_left sv nd1 st1 < steps_left sv nd st"
    using graph_step_shrinks unfolding shrinks_def .
  show "graph_step sv nd st w = (Inr (End, st1), w1) \<Longrightarrow> node_inv sv nd st \<Longrightarrow> nd \<noteq> End \<Longrightarrow> ag_handoff_required st1 \<or> released_ok sv st1"
    by (rule graph_step_released)
qed

lemma node_inv_initial: "node_inv sv ProcessInput (initial_state message session conv history summary position layers)"
  by (simp add: node_inv_def initial_state_def)

section \<open>Properties\<close>

definition demo_config :: tenant_config where
  "demo_config = (tenant_config_from_data demo_payload)\<lparr>tn_escalation_threshold := 2/5\<rparr>"

definition demo_rules :: "policy_action \<Rightarrow> policy_set" where
  "demo_rules a = \<lparr>pt_tenant_id = ''t1'', pt_name = ''default'', pt_rules =
     [\<lparr>pl_name = ''all'', pl_type = PT_OUTPUT_VALIDATION, pl_action = a, pl_conditions = [], pl_priority = 0\<rparr>], pt_version = 1\<rparr>"

text \<open>Services whose world counts the calls of the model; \<open>script\<close> is the answer to each call.\<close>

definition demo_services :: "(nat \<Rightarrow> turn_exc + reply) \<Rightarrow> policy_action \<Rightarrow> nat services" where
  "demo_services script a = \<lparr>os_tenant = demo_config, os_policy = demo_rules a, os_loader = sample_loader, os_model_override = None,
     os_prompt_override = Some ''be kind'', os_surface_id = None, os_end_user_id = None, os_generate = (\<lambda>_ n. (script n, n + 1)), os_stream = None,
     os_loads = (\<lambda>_. None), os_compact = None, os_preemptive_ratio = 7/10, os_memory = None, os_retrieve = None, os_tools = None,
     os_arg_validator = (\<lambda>_ _. []), os_tool_callback = None, os_authorizer = None, os_validator = None, os_escalate = None, os_float_text = py_fixed2\<rparr>"

definition demo_reply :: "string \<Rightarrow> turn_exc + reply" where
  "demo_reply s = Inr \<lparr>gn_content = s, gn_tool_calls = []\<rparr>"

definition demo_turn :: "nat services \<Rightarrow> (graph_error + agent_state) \<times> nat" where
  "demo_turn sv = process_message sv ''hello'' ''s1'' (Some ''c1'') [] None None [] 0"

text \<open>C1: A turn always comes to an end before the step limit of the graph, whatever the model, the tools, the validator and
  the policy do, when the limit leaves room for the budgets of the loops. The default budgets need 34 of 50 steps.\<close>

theorem turn_ends_before_step_limit:
  assumes "2 * (max_tool_steps sv + 1) + 2 * max_verify_retries sv + max_redact_iterations sv * (2 * max_verify_retries sv + 3) + 6
             \<le> loop_budget sv ''max_graph_steps'' 50"
  shows "fst (process_message sv message session conv history summary position layers w) \<noteq> Inl GraphRecursionError"
  unfolding process_message_def run_graph_def
  by (rule turn.run_ends [OF _ node_inv_initial])
    (use assms in \<open>simp add: steps_left_def tools_left_def initial_state_def Let_def\<close>)

theorem turn_ends_before_step_limit_witness:
  "fst (demo_turn (demo_services (\<lambda>_. demo_reply []) PA_REDACT)) \<noteq> Inl GraphRecursionError"
  unfolding demo_turn_def
  by (rule turn_ends_before_step_limit)
    (simp add: loop_budget_def demo_services_def demo_config_def tenant_config_from_data_def demo_payload_def default_budgets_def
      dict_merge_def get_or_def)

text \<open>C2: A turn that ends without a handoff releases a response that is not empty, passed verification, reaches the tenant's
  confidence threshold, and for which the policy says allow, or says redact with the redaction budget used up.\<close>

theorem released_response_was_approved:
  assumes "process_message sv message session conv history summary position layers w = (Inr st, w')" and "\<not> ag_handoff_required st"
  shows "validated st \<and> truthy_str (ag_response st) \<and> tn_escalation_threshold (os_tenant sv) \<le> ag_confidence st
     \<and> policy_evaluate (os_policy sv) (policy_input st) = ag_policy_action st
     \<and> (ag_policy_action st = PA_ALLOW \<or> ag_policy_action st = PA_REDACT \<and> ag_budget_exceeded st)"
  using turn.run_good [OF assms(1) [unfolded process_message_def run_graph_def] node_inv_initial] assms(2) by (simp add: released_ok_def)

theorem released_response_was_approved_witness:
  "case fst (demo_turn (demo_services (\<lambda>_. demo_reply ''Your order is on its way.'') PA_ALLOW)) of
     Inr st \<Rightarrow> ag_policy_action st = PA_ALLOW \<and> truthy_str (ag_response st) | Inl _ \<Rightarrow> False"
proof -
  let ?e = "demo_turn (demo_services (\<lambda>_. demo_reply ''Your order is on its way.'') PA_ALLOW)"
  have "case fst ?e of Inr st \<Rightarrow> \<not> ag_handoff_required st \<and> \<not> ag_budget_exceeded st | Inl _ \<Rightarrow> False" by code_simp
  then obtain st w' where e: "?e = (Inr st, w')" and h: "\<not> ag_handoff_required st" "\<not> ag_budget_exceeded st"
    by (cases ?e) (auto split: sum.splits)
  from released_response_was_approved [OF e [unfolded demo_turn_def] h(1)] e h(2) show ?thesis by simp
qed

definition refusal_of :: "raw_call \<Rightarrow> tool_result" where
  "refusal_of c = (result_of ''blocked by policy'' True)\<lparr>tr_blocked := True, tr_tool_use_id := rc_id c, tr_name := rc_name c\<rparr>"

definition refused_call :: "'w services \<Rightarrow> (raw_call \<Rightarrow> 'w \<Rightarrow> (turn_exc + bool) \<times> 'w) \<Rightarrow> raw_call \<Rightarrow> 'w \<Rightarrow> 'w" where
  "refused_call sv gate c v = emit_tool_part sv (ToolResultPart (refusal_of c)) (snd (gate c (emit_tool_part sv (tool_use c) v)))"

text \<open>C12: A call that the authorisation gate refuses when its turn comes, or for which the gate fails, never reaches a tool, whatever the other calls
  of the generation: with the calls before it executed, its only effects are those of the gate and of recording the call and its refusal, it is
  answered with a blocked result, and the calls after it go on from there.\<close>

theorem refused_calls_never_run:
  assumes "os_authorizer sv = Some gate" and "os_tools sv = Some reg" and "ag_tool_steps st < max_tool_steps sv"
    and "ag_tool_calls st = before @ c # after" and "fold (run_one_tool sv reg) before (st, w) = (s, v)"
    and "fst (gate c (emit_tool_part sv (tool_use c) v)) \<noteq> Inr True"
  shows "execute_tools sv st w =
    (case fold (run_one_tool sv reg) after
            (s\<lparr>ag_tool_parts := ag_tool_parts s @ [tool_use c, ToolResultPart (refusal_of c)], ag_tool_results := ag_tool_results s @ [refusal_of c],
               ag_tool_steps := ag_tool_steps s + 1\<rparr>, refused_call sv gate c v) of
       (s1, v1) \<Rightarrow> (s1\<lparr>ag_tool_calls := []\<rparr>, v1))"
proof -
  have auth: "authorize_tool sv c (emit_tool_part sv (tool_use c) v) = (False, snd (gate c (emit_tool_part sv (tool_use c) v)))"
    using assms(1,6) by (cases "gate c (emit_tool_part sv (tool_use c) v)") (auto simp: authorize_tool_def split: sum.split)
  have "run_one_tool sv reg c (s, v) =
      (s\<lparr>ag_tool_parts := ag_tool_parts s @ [tool_use c, ToolResultPart (refusal_of c)], ag_tool_results := ag_tool_results s @ [refusal_of c],
         ag_tool_steps := ag_tool_steps s + 1\<rparr>, refused_call sv gate c v)"
    unfolding run_one_tool_def prod.case auth by (simp add: refusal_of_def result_of_def refused_call_def Let_def)
  then show ?thesis using assms(2-5) by (simp add: execute_tools_def)
qed

definition demo_tool :: "nat tool_spec" where
  "demo_tool = \<lparr>ts_name = ''wipe'', ts_description = [], ts_parameters = JNull, ts_executor = (\<lambda>_ n. (Inr (OutcomeValue ''done''), n + 100))\<rparr>"

definition demo_call :: "string \<Rightarrow> raw_call" where
  "demo_call name = \<lparr>rc_id = ''u1'', rc_name = name, rc_arguments = JObj []\<rparr>"

text \<open>A gate that refuses one of two tools, both of which would leave a mark on the world.\<close>

definition gated_services :: "nat services" where
  "gated_services = (demo_services (\<lambda>_. demo_reply []) PA_ALLOW)\<lparr>os_tools := Some [(''wipe'', demo_tool), (''look'', demo_tool\<lparr>ts_name := ''look''\<rparr>)],
     os_authorizer := Some (\<lambda>c n. (Inr (rc_name c = ''look''), n))\<rparr>"

theorem refused_calls_never_run_witness:
  "let st = (initial_state ''hello'' ''s1'' None [] None None [])\<lparr>ag_tool_calls := [demo_call ''look'', demo_call ''wipe'']\<rparr>
   in snd (execute_tools gated_services st 7) = 107 \<and> map tr_blocked (ag_tool_results (fst (execute_tools gated_services st 7))) = [False, True]"
proof -
  let ?st = "(initial_state ''hello'' ''s1'' None [] None None [])\<lparr>ag_tool_calls := [demo_call ''look'', demo_call ''wipe'']\<rparr>"
  let ?reg = "[(''wipe'', demo_tool), (''look'', demo_tool\<lparr>ts_name := ''look''\<rparr>)]" and ?gate = "\<lambda>c n::nat. (Inr (rc_name c = ''look'') :: turn_exc + bool, n)"
  let ?one = "run_one_tool gated_services ?reg (demo_call ''look'') (?st, 7)"
  have b: "ag_tool_steps ?st < max_tool_steps gated_services"
    by (simp add: gated_services_def loop_budget_def demo_services_def demo_config_def tenant_config_from_data_def demo_payload_def default_budgets_def
        dict_merge_def get_or_def initial_state_def)
  have one: "snd ?one = 107" "map tr_blocked (ag_tool_results (fst ?one)) = [False]"
    by (simp_all add: gated_services_def demo_services_def run_one_tool_def authorize_tool_def emit_tool_part_def demo_call_def execute_def
        validate_arguments_def demo_tool_def initial_state_def result_of_def Let_def)
  have "execute_tools gated_services ?st 7 = (case fold (run_one_tool gated_services ?reg) []
        ((fst ?one)\<lparr>ag_tool_parts := ag_tool_parts (fst ?one) @ [tool_use (demo_call ''wipe''), ToolResultPart (refusal_of (demo_call ''wipe''))],
           ag_tool_results := ag_tool_results (fst ?one) @ [refusal_of (demo_call ''wipe'')], ag_tool_steps := ag_tool_steps (fst ?one) + 1\<rparr>,
         refused_call gated_services ?gate (demo_call ''wipe'') (snd ?one)) of (s1, v1) \<Rightarrow> (s1\<lparr>ag_tool_calls := []\<rparr>, v1))"
    by (rule refused_calls_never_run [where before = "[demo_call ''look'']"]) (use b in \<open>simp_all add: gated_services_def demo_call_def\<close>)
  then show ?thesis using one
    by (simp add: refused_call_def emit_tool_part_def gated_services_def demo_services_def refusal_of_def)
qed

text \<open>The conversation a turn belongs to never reaches the gateway, the usage records or the handoff: a turn with a
  conversation id behaves exactly like one without, because the first node replaces the context the caller passed.\<close>

theorem conversation_id_is_lost:
  "process_message sv message session (Some cid) history summary position layers w
     = process_message sv message session None history summary position layers w"
proof -
  have "process_input (initial_state message session (Some cid) history summary position layers)
      = process_input (initial_state message session None history summary position layers)"
    by (simp add: process_input_def initial_state_def)
  then show ?thesis unfolding process_message_def run_graph_def
    by (cases "loop_budget sv ''max_graph_steps'' 50") (simp_all add: graph_step_def)
qed

text \<open>With a policy that asks for redaction, the turn regenerates once and then releases the model's text as it is:
  no handoff, no redaction, the action still says redact.\<close>

theorem redact_policy_releases_text:
  "case fst (demo_turn (demo_services (\<lambda>_. demo_reply ''The card number is 4111 1111.'') PA_REDACT)) of
     Inr st \<Rightarrow> ag_response st = Some ''The card number is 4111 1111.'' \<and> \<not> ag_handoff_required st \<and> ag_policy_action st = PA_REDACT
   | Inl _ \<Rightarrow> False"
  by code_simp

text \<open>A failure that a re-ask repairs is still reported to a streaming client as an error: the first generation fails,
  the second one answers, the turn ends with an approved response, and the client receives the error of the first.\<close>

theorem repaired_turn_reported_as_error:
  "let sv = demo_services (\<lambda>n. if n = 0 then Inl (OtherFailure ''timeout'') else demo_reply ''Your order is on its way.'') PA_ALLOW;
       r = fst (demo_turn sv)
   in (case r of Inr st \<Rightarrow> ag_response st = Some ''Your order is on its way.'' \<and> \<not> ag_handoff_required st | Inl _ \<Rightarrow> False)
      \<and> stream_message_events [] r = [ClientError ''timeout'']"
  by code_simp

text \<open>A streaming client receives replies that verification rejected: the first reply is streamed and not faithful to the
  retrieved text, the model is asked again, and the client has both replies one after the other, while the final response
  is only the second.\<close>

theorem rejected_reply_was_streamed:
  "let sv = (demo_services (\<lambda>_. demo_reply []) PA_ALLOW)
         \<lparr>os_stream := Some (\<lambda>_ n. ([TDelta (if n = 0 then ''Bananas grow quickly.'' else ''Refunds take 14 days.''), TDone], n + 1)),
          os_retrieve := Some (\<lambda>_ _ n. (Inr [\<lparr>rd_content = ''Refunds take 14 days.'', rd_score = 1\<rparr>], n))\<rparr>
   in case fst (demo_turn sv) of
        Inr st \<Rightarrow> ag_response st = Some ''Refunds take 14 days.'' \<and> concat (ag_sent st) = ''Bananas grow quickly.Refunds take 14 days.''
      | Inl _ \<Rightarrow> False"
  by code_simp

text \<open>The tool budget counts after the fact: with one step left, all calls of one generation are executed.\<close>

theorem tool_budget_overrun:
  "let sv = (demo_services (\<lambda>n. if n mod 100 = 0 then Inr \<lparr>gn_content = [], gn_tool_calls = [demo_call ''wipe'', demo_call ''wipe'', demo_call ''wipe'']\<rparr>
                               else demo_reply ''Your order is on its way.'') PA_ALLOW)
         \<lparr>os_tools := Some [(''wipe'', demo_tool)], os_tenant := demo_config\<lparr>tn_budgets := [(''max_tool_steps'', 1)]\<rparr>\<rparr>
   in max_tool_steps sv = 1 \<and> (case fst (demo_turn sv) of Inr st \<Rightarrow> ag_tool_steps st = 3 | Inl _ \<Rightarrow> False)"
  by code_simp

end
