(* ===== verification/Job_Queue.thy ===== *)
theory Job_Queue
  imports Breakers Retry Redis_Iface Py_Json
begin

text \<open>
  The job queue of the background worker (\<open>infrastructure/queue/manager.py\<close>), the worker's scheduler and its \<open>--once\<close> mode
  (\<open>worker/main.py\<close>) and the sweep of the dead letters (\<open>application/cleanup/service.py\<close>). A queue entry is the job that
  its JSON text stands for; \<open>serialize_job\<close> and \<open>deserialize_job\<close> are the two directions, over the ISO text of an instant as
  a parameter. The Redis lists and sorted sets of the queue are a record of commands with their laws; \<open>BRPOP\<close> with timeout
  zero on an empty list is a call that does not return. Handlers act on the manager and on a state \<open>'w\<close> of the outside world.
\<close>

section \<open>Definitions\<close>

type_synonym payload = "(string \<times> json) list"

record job =
  jb_id :: string
  jb_type :: string
  jb_payload :: payload
  jb_priority :: int
  jb_scheduled_at :: "time option"
  jb_created_at :: time
  jb_retries :: nat
  jb_max_retries :: nat
  jb_error :: "string option"
  jb_trace_id :: string

record queue_config =
  qf_prefix :: string
  qf_dead_letter_prefix :: string
  qf_max_retries :: nat
  qf_retry_min_delay :: rat
  qf_poll_interval :: rat
  qf_circuit_breaker_failures :: nat
  qf_circuit_breaker_recovery :: time
  qf_idempotency_ttl_seconds :: nat

definition qf_default :: queue_config where
  "qf_default = \<lparr>qf_prefix = ''neryva:queue:'', qf_dead_letter_prefix = ''neryva:dead:'', qf_max_retries = 3, qf_retry_min_delay = 1,
     qf_poll_interval = 1, qf_circuit_breaker_failures = 3, qf_circuit_breaker_recovery = 15, qf_idempotency_ttl_seconds = 86400\<rparr>"

text \<open>\<open>_serialize_job\<close> and \<open>_deserialize_job\<close>; \<open>isoformat\<close> and \<open>fromisoformat\<close> are the two fields of the codec.\<close>

record iso_codec =
  iso_format :: "time \<Rightarrow> string"
  iso_parse :: "string \<Rightarrow> time option"

definition serialize_job :: "iso_codec \<Rightarrow> job \<Rightarrow> json" where
  "serialize_job C j = JObj
     [(''id'', JStr (jb_id j)), (''type'', JStr (jb_type j)), (''payload'', JObj (jb_payload j)), (''priority'', JInt (jb_priority j)),
      (''scheduled_at'', case jb_scheduled_at j of None \<Rightarrow> JNull | Some t \<Rightarrow> JStr (iso_format C t)),
      (''created_at'', JStr (iso_format C (jb_created_at j))), (''retries'', JInt (int (jb_retries j))),
      (''max_retries'', JInt (int (jb_max_retries j))),
      (''error'', case jb_error j of None \<Rightarrow> JNull | Some e \<Rightarrow> JStr e), (''trace_id'', JStr (jb_trace_id j))]"

fun j_str :: "json \<Rightarrow> string option" where
  "j_str (JStr s) = Some s"
| "j_str _ = None"

fun j_nat :: "json \<Rightarrow> nat option" where
  "j_nat (JInt n) = (if 0 \<le> n then Some (nat n) else None)"
| "j_nat _ = None"

fun j_int :: "json \<Rightarrow> int option" where
  "j_int (JInt n) = Some n"
| "j_int _ = None"

fun j_obj :: "json \<Rightarrow> payload option" where
  "j_obj (JObj kvs) = Some kvs"
| "j_obj _ = None"

definition deserialize_job :: "iso_codec \<Rightarrow> json \<Rightarrow> job option" where
  "deserialize_job C d =
     (let scheduled = jget_or d ''scheduled_at'' JNull; error = jget_or d ''error'' JNull
      in case (Option.bind (jget d ''id'') j_str, Option.bind (jget d ''type'') j_str,
               j_obj (jget_or d ''payload'' (JObj [])), j_int (jget_or d ''priority'' (JInt 0)),
               Option.bind (Option.bind (jget d ''created_at'') j_str) (iso_parse C),
               j_nat (jget_or d ''retries'' (JInt 0)), j_nat (jget_or d ''max_retries'' (JInt 3)),
               j_str (jget_or d ''trace_id'' (JStr []))) of
           (Some i, Some ty, Some p, Some pr, Some c, Some r, Some m, Some tr) \<Rightarrow>
             (if jtruthy scheduled \<and> Option.bind (j_str scheduled) (iso_parse C) = None then None
              else Some \<lparr>jb_id = i, jb_type = ty, jb_payload = p, jb_priority = pr,
                jb_scheduled_at = (if jtruthy scheduled then Option.bind (j_str scheduled) (iso_parse C) else None),
                jb_created_at = c, jb_retries = r, jb_max_retries = m, jb_error = j_str error, jb_trace_id = tr\<rparr>)
         | _ \<Rightarrow> None)"

text \<open>
  The Redis commands of the queue. The head of a list is its left end. \<open>js_move\<close> is the transaction of one \<open>LPUSH\<close> and one
  \<open>ZREM\<close> per job; \<open>js_due k t\<close> is \<open>ZRANGEBYSCORE k 0 t\<close>; \<open>js_scan\<close> is the loop over \<open>SCAN\<close> for the keys with a prefix.
\<close>

datatype pop_reply = Popped job | TimedOut | Waiting

record 'w job_store =
  js_set_nx :: "string \<Rightarrow> nat \<Rightarrow> (bool, 'w) rcmd"
  js_lpush :: "string \<Rightarrow> job \<Rightarrow> (unit, 'w) rcmd"
  js_brpop :: "string \<Rightarrow> nat \<Rightarrow> (pop_reply, 'w) rcmd"
  js_zadd :: "string \<Rightarrow> job \<Rightarrow> time \<Rightarrow> (unit, 'w) rcmd"
  js_due :: "string \<Rightarrow> time \<Rightarrow> (job list, 'w) rcmd"
  js_move :: "string \<Rightarrow> string \<Rightarrow> job list \<Rightarrow> (unit, 'w) rcmd"
  js_llen :: "string \<Rightarrow> (nat, 'w) rcmd"
  js_scan :: "string \<Rightarrow> (string list, 'w) rcmd"
  js_head :: "string \<Rightarrow> nat \<Rightarrow> (job list, 'w) rcmd"
  js_trim :: "string \<Rightarrow> nat \<Rightarrow> (unit, 'w) rcmd"

text \<open>
  \<open>qm_utc_offset\<close> is how far the local time of the process is ahead of UTC: \<open>timestamp()\<close> reads the naive UTC instants of the
  module as local time.
\<close>

record queue_manager =
  qm_config :: queue_config
  qm_connected :: bool
  qm_memory :: "job list"
  qm_idem_seen :: "string set"
  qm_idem_processed :: "string set"
  qm_dead_letters :: "job list"
  qm_breaker :: circuit_breaker
  qm_utc_offset :: time

definition qm_init :: "queue_config \<Rightarrow> bool \<Rightarrow> time \<Rightarrow> queue_manager" where
  "qm_init cfg up utc_offset = \<lparr>qm_config = cfg, qm_connected = up, qm_memory = [], qm_idem_seen = {}, qm_idem_processed = {},
     qm_dead_letters = [], qm_breaker = cb_init, qm_utc_offset = utc_offset\<rparr>"

type_synonym 'w handler = "payload \<Rightarrow> queue_manager \<times> 'w \<Rightarrow> (string + unit) \<times> queue_manager \<times> 'w"
type_synonym 'w handlers = "string \<Rightarrow> 'w handler option"

definition register_handler :: "string \<Rightarrow> 'w handler \<Rightarrow> 'w handlers \<Rightarrow> 'w handlers" where
  "register_handler job_type h H = H(job_type \<mapsto> h)"

definition unregister_handler :: "string \<Rightarrow> 'w handlers \<Rightarrow> 'w handlers" where
  "unregister_handler job_type H = H(job_type := None)"

definition queue_breaker_config :: "queue_config \<Rightarrow> cb_config" where
  "queue_breaker_config cfg = cb_default_config\<lparr>cbc_failure_threshold := int (qf_circuit_breaker_failures cfg),
     cbc_recovery_timeout := qf_circuit_breaker_recovery cfg\<rparr>"

definition queue_key :: "queue_config \<Rightarrow> int \<Rightarrow> string" where
  "queue_key cfg priority =
     qf_prefix cfg @ (if 0 < priority then ''high'' else if priority < 0 then ''low'' else ''default'')"

definition dead_key :: "queue_config \<Rightarrow> string \<Rightarrow> string" where
  "dead_key cfg job_type = qf_dead_letter_prefix cfg @ job_type"

definition scheduled_key :: "string \<Rightarrow> string" where
  "scheduled_key queue = queue @ '':scheduled''"

definition queue_levels :: "queue_config \<Rightarrow> string list" where
  "queue_levels cfg = [qf_prefix cfg @ ''high'', qf_prefix cfg @ ''default'', qf_prefix cfg @ ''low'']"

definition raising :: "('a, 'w) rcmd \<Rightarrow> 'w \<Rightarrow> (unit + 'a) \<times> 'w" where
  "raising m w = (case m w of (None, w1) \<Rightarrow> (Inl (), w1) | (Some x, w1) \<Rightarrow> (Inr x, w1))"

text \<open>\<open>_claim_idempotency\<close>; the command is not guarded, so its failure is raised (\<open>None\<close>).\<close>

definition claim_idempotency ::
  "'w job_store \<Rightarrow> string \<Rightarrow> queue_manager \<Rightarrow> 'w \<Rightarrow> bool option \<times> queue_manager \<times> 'w" where
  "claim_idempotency S key qm w =
     (if qm_connected qm
      then (case js_set_nx S (qf_prefix (qm_config qm) @ ''idem:'' @ key) (qf_idempotency_ttl_seconds (qm_config qm)) w of
              (r, w1) \<Rightarrow> (r, qm, w1))
      else if key \<in> qm_idem_seen qm then (Some False, qm, w)
      else (Some True, qm\<lparr>qm_idem_seen := insert key (qm_idem_seen qm)\<rparr>, w))"

definition redis_enqueue :: "'w job_store \<Rightarrow> queue_config \<Rightarrow> time \<Rightarrow> time \<Rightarrow> job \<Rightarrow> (unit, 'w) rcmd" where
  "redis_enqueue S cfg utc_offset now j =
     (let queue = queue_key cfg (jb_priority j)
      in case jb_scheduled_at j of
           Some t \<Rightarrow> if now < t then js_zadd S (scheduled_key queue) j (t - utc_offset) else js_lpush S queue j
         | None \<Rightarrow> js_lpush S queue j)"

text \<open>The part of \<open>enqueue\<close> after the key was claimed.\<close>

definition push_job :: "'w job_store \<Rightarrow> time \<Rightarrow> job \<Rightarrow> queue_manager \<Rightarrow> 'w \<Rightarrow> bool \<times> queue_manager \<times> 'w" where
  "push_job S now j qm w =
     (if qm_connected qm
      then (case cb_call (queue_breaker_config (qm_config qm)) now now
                   (raising (redis_enqueue S (qm_config qm) (qm_utc_offset qm) now j)) (qm_breaker qm) w of
              (r, b, w1) \<Rightarrow> (case r of Returned _ \<Rightarrow> True | _ \<Rightarrow> False, qm\<lparr>qm_breaker := b\<rparr>, w1))
      else (True, qm\<lparr>qm_memory := qm_memory qm @ [j]\<rparr>, w))"

definition enqueue ::
  "'w job_store \<Rightarrow> time \<Rightarrow> string option \<Rightarrow> job \<Rightarrow> queue_manager \<Rightarrow> 'w \<Rightarrow> bool option \<times> queue_manager \<times> 'w" where
  "enqueue S now key j qm w =
     (if truthy_str key
      then (case claim_idempotency S (the key) qm w of
              (None, qm1, w1) \<Rightarrow> (None, qm1, w1)
            | (Some False, qm1, w1) \<Rightarrow> (Some True, qm1, w1)
            | (Some True, qm1, w1) \<Rightarrow>
                (case push_job S now (j\<lparr>jb_payload := AList.update ''_idem'' (JStr (the key)) (jb_payload j)\<rparr>) qm1 w1 of
                   (r, qm2, w2) \<Rightarrow> (Some r, qm2, w2)))
      else (case push_job S now j qm w of (r, qm1, w1) \<Rightarrow> (Some r, qm1, w1)))"

fun move_levels :: "'w job_store \<Rightarrow> time \<Rightarrow> string list \<Rightarrow> (unit, 'w) rcmd" where
  "move_levels S now [] = rret ()"
| "move_levels S now (q # qs) =
     rbind (js_due S (scheduled_key q) now) (\<lambda>jobs.
     rbind (if jobs = [] then rret () else js_move S q (scheduled_key q) jobs) (\<lambda>_. move_levels S now qs))"

definition move_scheduled_jobs :: "'w job_store \<Rightarrow> queue_config \<Rightarrow> time \<Rightarrow> (unit, 'w) rcmd" where
  "move_scheduled_jobs S cfg now = move_levels S now (queue_levels cfg)"

text \<open>The queues in order of priority; each \<open>BRPOP\<close> gets \<open>int(timeout)\<close>, and one that waits keeps the rest from being asked.\<close>

fun pop_levels :: "'w job_store \<Rightarrow> nat \<Rightarrow> string list \<Rightarrow> (pop_reply, 'w) rcmd" where
  "pop_levels S seconds [] = rret TimedOut"
| "pop_levels S seconds (q # qs) =
     rbind (js_brpop S q seconds) (\<lambda>r. case r of TimedOut \<Rightarrow> pop_levels S seconds qs | _ \<Rightarrow> rret r)"

definition redis_dequeue :: "'w job_store \<Rightarrow> queue_config \<Rightarrow> time \<Rightarrow> rat \<Rightarrow> (pop_reply, 'w) rcmd" where
  "redis_dequeue S cfg now timeout =
     rbind (move_scheduled_jobs S cfg now) (\<lambda>_. pop_levels S (nat \<lfloor>timeout\<rfloor>) (queue_levels cfg))"

text \<open>\<open>Waiting\<close>: the call has not returned.\<close>

definition dequeue :: "'w job_store \<Rightarrow> time \<Rightarrow> rat \<Rightarrow> queue_manager \<Rightarrow> 'w \<Rightarrow> pop_reply \<times> queue_manager \<times> 'w" where
  "dequeue S now timeout qm w =
     (if qm_connected qm
      then (case cb_call (queue_breaker_config (qm_config qm)) now now
                   (raising (redis_dequeue S (qm_config qm) now timeout)) (qm_breaker qm) w of
              (Returned Waiting, _, w1) \<Rightarrow> (Waiting, qm, w1)
            | (Returned r, b, w1) \<Rightarrow> (r, qm\<lparr>qm_breaker := b\<rparr>, w1)
            | (_, b, w1) \<Rightarrow> (TimedOut, qm\<lparr>qm_breaker := b\<rparr>, w1))
      else case qm_memory qm of
             [] \<Rightarrow> (TimedOut, qm, w)
           | j # js \<Rightarrow> (Popped j, qm\<lparr>qm_memory := js\<rparr>, w))"

definition send_to_dead_letter :: "'w job_store \<Rightarrow> job \<Rightarrow> queue_manager \<Rightarrow> 'w \<Rightarrow> queue_manager \<times> 'w" where
  "send_to_dead_letter S j qm w =
     (if qm_connected qm then (qm, snd (js_lpush S (dead_key (qm_config qm) (jb_type j)) j w))
      else (qm\<lparr>qm_dead_letters := qm_dead_letters qm @ [j]\<rparr>, w))"

definition idem_of :: "job \<Rightarrow> string option" where
  "idem_of j = Option.bind (map_of (jb_payload j) ''_idem'') j_str"

text \<open>\<open>process_job\<close>; \<open>noise\<close> is the jitter of the backoff. A requeue that raises does so out of the handler's \<open>except\<close>, but the
  requeue carries no key and cannot raise.\<close>

definition retry_job :: "time \<Rightarrow> rat \<Rightarrow> string \<Rightarrow> queue_manager \<Rightarrow> job \<Rightarrow> job" where
  "retry_job now noise e qm j =
     (let n = jb_retries j + 1
      in j\<lparr>jb_scheduled_at := (if n < jb_max_retries j
              then Some (now + bo_delay (bo_default\<lparr>bo_min_delay := qf_retry_min_delay (qm_config qm)\<rparr>) noise n)
              else jb_scheduled_at j),
           jb_retries := n, jb_error := Some e\<rparr>)"

definition process_job ::
  "'w job_store \<Rightarrow> 'w handlers \<Rightarrow> time \<Rightarrow> rat \<Rightarrow> job \<Rightarrow> queue_manager \<Rightarrow> 'w \<Rightarrow> bool \<times> queue_manager \<times> 'w" where
  "process_job S H now noise j qm w =
     (let key = idem_of j
      in if truthy_str key \<and> the key \<in> qm_idem_processed qm then (True, qm, w)
         else case H (jb_type j) of
                None \<Rightarrow> (case send_to_dead_letter S j qm w of (qm1, w1) \<Rightarrow> (False, qm1, w1))
              | Some h \<Rightarrow>
                  (case h (jb_payload j) (qm, w) of
                     (Inr _, qm1, w1) \<Rightarrow>
                       (True, if truthy_str key then qm1\<lparr>qm_idem_processed := insert (the key) (qm_idem_processed qm1)\<rparr> else qm1, w1)
                   | (Inl e, qm1, w1) \<Rightarrow>
                       (let j1 = retry_job now noise e qm1 j
                        in if jb_retries j1 < jb_max_retries j1
                           then (case enqueue S now None j1 qm1 w1 of (_, qm2, w2) \<Rightarrow> (False, qm2, w2))
                           else (case send_to_dead_letter S j1 qm1 w1 of (qm2, w2) \<Rightarrow> (False, qm2, w2)))))"

text \<open>One pass of \<open>process_loop\<close>, and \<open>_drain_once\<close>, which ends when \<open>dequeue\<close> finds nothing; \<open>exit_set\<close> reads the exit event.\<close>

definition process_step ::
  "'w job_store \<Rightarrow> 'w handlers \<Rightarrow> time \<Rightarrow> rat \<Rightarrow> queue_manager \<times> 'w \<Rightarrow> queue_manager \<times> 'w" where
  "process_step S H now noise s =
     (case dequeue S now (qf_poll_interval (qm_config (fst s))) (fst s) (snd s) of
        (Popped j, qm1, w1) \<Rightarrow> snd (process_job S H now noise j qm1 w1)
      | (_, qm1, w1) \<Rightarrow> (qm1, w1))"

partial_function (option) drain_once ::
  "'w job_store \<Rightarrow> 'w handlers \<Rightarrow> ('w \<Rightarrow> bool) \<Rightarrow> ('w \<Rightarrow> time) \<Rightarrow> rat \<Rightarrow> queue_manager \<Rightarrow> 'w \<Rightarrow> (queue_manager \<times> 'w) option" where
  "drain_once S H exit_set clock noise qm w =
     (if exit_set w then Some (qm, w)
      else case dequeue S (clock w) (1/10) qm w of
             (Waiting, _, _) \<Rightarrow> None
           | (TimedOut, qm1, w1) \<Rightarrow> Some (qm1, w1)
           | (Popped j, qm1, w1) \<Rightarrow>
               (case process_job S H (clock w1) noise j qm1 w1 of
                  (_, qm2, w2) \<Rightarrow> drain_once S H exit_set clock noise qm2 w2))"

definition get_queue_length :: "'w job_store \<Rightarrow> int option \<Rightarrow> queue_manager \<Rightarrow> (nat, 'w) rcmd" where
  "get_queue_length S priority qm =
     (if qm_connected qm then js_llen S (queue_key (qm_config qm) (num_or priority 0)) else rret (length (qm_memory qm)))"

fun sum_llen :: "'w job_store \<Rightarrow> string list \<Rightarrow> (nat, 'w) rcmd" where
  "sum_llen S [] = rret 0"
| "sum_llen S (k # ks) = rbind (js_llen S k) (\<lambda>n. rbind (sum_llen S ks) (\<lambda>m. rret (n + m)))"

text \<open>\<open>js_scan\<close> takes the part of the pattern before a final star; the pattern of one job type has none and matches that key.\<close>

definition get_dead_letter_count :: "'w job_store \<Rightarrow> string option \<Rightarrow> queue_manager \<Rightarrow> (nat, 'w) rcmd" where
  "get_dead_letter_count S job_type qm =
     (if \<not> qm_connected qm
      then rret (length (filter (\<lambda>j. \<not> truthy_str job_type \<or> jb_type j = the job_type) (qm_dead_letters qm)))
      else if truthy_str job_type then js_llen S (dead_key (qm_config qm) (the job_type))
      else rbind (js_scan S (qf_dead_letter_prefix (qm_config qm))) (sum_llen S))"

text \<open>The two branches of \<open>drain_dead_letter\<close>.\<close>

fun split_letters :: "string \<Rightarrow> nat \<Rightarrow> job list \<Rightarrow> job list \<times> job list" where
  "split_letters ty n [] = ([], [])"
| "split_letters ty n (j # js) =
     (if jb_type j = ty \<and> 0 < n then (case split_letters ty (n - 1) js of (d, r) \<Rightarrow> (j # d, r))
      else (case split_letters ty n js of (d, r) \<Rightarrow> (d, j # r)))"

definition drain_memory :: "string option \<Rightarrow> nat \<Rightarrow> queue_manager \<Rightarrow> job list \<times> queue_manager" where
  "drain_memory job_type limit qm =
     (if truthy_str job_type
      then (case split_letters (the job_type) limit (qm_dead_letters qm) of (d, r) \<Rightarrow> (d, qm\<lparr>qm_dead_letters := r\<rparr>))
      else (take limit (qm_dead_letters qm), qm\<lparr>qm_dead_letters := drop limit (qm_dead_letters qm)\<rparr>))"

fun drain_keys :: "'w job_store \<Rightarrow> nat \<Rightarrow> string list \<Rightarrow> job list \<Rightarrow> (job list, 'w) rcmd" where
  "drain_keys S limit [] drained = rret drained"
| "drain_keys S limit (k # ks) drained =
     rbind (js_head S k limit) (\<lambda>items.
     rbind (if items = [] then rret () else js_trim S k (length items)) (\<lambda>_.
       let d = drained @ items in if limit \<le> length d then rret d else drain_keys S limit ks d))"

definition drain_redis :: "'w job_store \<Rightarrow> string option \<Rightarrow> nat \<Rightarrow> queue_config \<Rightarrow> (job list, 'w) rcmd" where
  "drain_redis S job_type limit cfg =
     rbind (if truthy_str job_type then rret [dead_key cfg (the job_type)] else js_scan S (qf_dead_letter_prefix cfg)) (\<lambda>keys.
     rbind (drain_keys S limit keys []) (\<lambda>drained. rret (take limit drained)))"

definition drain_dead_letter ::
  "'w job_store \<Rightarrow> string option \<Rightarrow> nat \<Rightarrow> queue_manager \<Rightarrow> 'w \<Rightarrow> job list option \<times> queue_manager \<times> 'w" where
  "drain_dead_letter S job_type limit qm w =
     (if qm_connected qm then (case drain_redis S job_type limit (qm_config qm) w of (r, w1) \<Rightarrow> (r, qm, w1))
      else (case drain_memory job_type limit qm of (d, qm1) \<Rightarrow> (Some d, qm1, w)))"

text \<open>\<open>sweep_dead_letter\<close> of the cleanup service: how many jobs were drained and how many of them put back.\<close>

fun requeue_all :: "'w job_store \<Rightarrow> time \<Rightarrow> job list \<Rightarrow> queue_manager \<Rightarrow> 'w \<Rightarrow> nat \<times> queue_manager \<times> 'w" where
  "requeue_all S now [] qm w = (0, qm, w)"
| "requeue_all S now (j # js) qm w =
     (if jb_type j = [] then requeue_all S now js qm w
      else case enqueue S now None (j\<lparr>jb_retries := 0, jb_error := None\<rparr>) qm w of
             (r, qm1, w1) \<Rightarrow> (case requeue_all S now js qm1 w1 of (n, qm2, w2) \<Rightarrow> (if r = Some True then n + 1 else n, qm2, w2)))"

definition sweep_dead_letter ::
  "'w job_store \<Rightarrow> time \<Rightarrow> string option \<Rightarrow> nat \<Rightarrow> bool \<Rightarrow> queue_manager \<Rightarrow> 'w \<Rightarrow> (nat \<times> nat) option \<times> queue_manager \<times> 'w" where
  "sweep_dead_letter S now job_type limit requeue qm w =
     (case drain_dead_letter S job_type limit qm w of
        (None, qm1, w1) \<Rightarrow> (None, qm1, w1)
      | (Some drained, qm1, w1) \<Rightarrow>
          (case (if requeue then requeue_all S now drained qm1 w1 else (0, qm1, w1)) of
             (n, qm2, w2) \<Rightarrow> (Some (length drained, n), qm2, w2)))"

text \<open>The scheduler: an entry's job is enqueued once per window of its interval, by the key of the window.\<close>

record schedule_entry =
  se_name :: string
  se_job_type :: string
  se_interval_seconds :: rat
  se_payload :: payload

datatype schedule_error = NotAnArray | MissingNameOrType | BadInterval string

definition schedule_number :: "json option \<Rightarrow> rat" where
  "schedule_number j = (case j of Some (JInt n) \<Rightarrow> of_int n | Some (JNum x) \<Rightarrow> x | Some (JBool True) \<Rightarrow> 1 | _ \<Rightarrow> 0)"

definition entry_text :: "json \<Rightarrow> string \<Rightarrow> string" where
  "entry_text e k = get_or (Option.bind (jget e k) j_str) []"

fun load_entries :: "json list \<Rightarrow> schedule_error + schedule_entry list" where
  "load_entries [] = Inr []"
| "load_entries (e # es) =
     (if entry_text e ''name'' = [] \<or> entry_text e ''job_type'' = [] then Inl MissingNameOrType
      else if schedule_number (jget e ''interval_seconds'') \<le> 0 then Inl (BadInterval (entry_text e ''name''))
      else case load_entries es of
             Inl x \<Rightarrow> Inl x
           | Inr ss \<Rightarrow> Inr (\<lparr>se_name = entry_text e ''name'', se_job_type = entry_text e ''job_type'',
               se_interval_seconds = schedule_number (jget e ''interval_seconds''),
               se_payload = get_or (j_obj (jget_or e ''payload'' (JObj []))) []\<rparr> # ss))"

definition load_schedule :: "json \<Rightarrow> schedule_error + schedule_entry list" where
  "load_schedule j = (case j of JList es \<Rightarrow> load_entries es | _ \<Rightarrow> Inl NotAnArray)"

definition window_of :: "time \<Rightarrow> schedule_entry \<Rightarrow> int" where
  "window_of now e = \<lfloor>now / se_interval_seconds e\<rfloor>"

definition schedule_key :: "schedule_entry \<Rightarrow> int \<Rightarrow> string" where
  "schedule_key e window = ''schedule:'' @ se_name e @ '':'' @ py_str_int window"

definition scheduled_job :: "(string \<Rightarrow> string) \<Rightarrow> time \<Rightarrow> schedule_entry \<Rightarrow> job" where
  "scheduled_job fresh now e = \<lparr>jb_id = fresh (se_name e), jb_type = se_job_type e, jb_payload = se_payload e, jb_priority = 0,
     jb_scheduled_at = None, jb_created_at = now, jb_retries = 0, jb_max_retries = 3, jb_error = None, jb_trace_id = []\<rparr>"

text \<open>One pass of \<open>scheduler_loop\<close> over the entries. The job's payload is the dictionary of the entry itself, into which
  \<open>enqueue\<close> writes its key; the serialised job is not affected by later writes. An enqueue that raises ends the scheduler.\<close>

fun scheduler_pass ::
  "'w job_store \<Rightarrow> (string \<Rightarrow> string) \<Rightarrow> time \<Rightarrow> schedule_entry list \<Rightarrow> (string \<Rightarrow> int option) \<Rightarrow> queue_manager \<Rightarrow> 'w
     \<Rightarrow> (string \<Rightarrow> int option) option \<times> queue_manager \<times> 'w" where
  "scheduler_pass S fresh now [] lr qm w = (Some lr, qm, w)"
| "scheduler_pass S fresh now (e # es) lr qm w =
     (let window = window_of now e
      in if lr (se_name e) = Some window then scheduler_pass S fresh now es lr qm w
         else case enqueue S now (Some (schedule_key e window)) (scheduled_job fresh now e) qm w of
                (None, qm1, w1) \<Rightarrow> (None, qm1, w1)
              | (Some _, qm1, w1) \<Rightarrow> scheduler_pass S fresh now es (lr(se_name e \<mapsto> window)) qm1 w1)"

section \<open>The laws of the queue's Redis commands\<close>

text \<open>A view of the keys: lists from left to right, sorted sets by ascending score, and the keys that were set.\<close>

record job_view =
  jv_lists :: "string \<Rightarrow> job list"
  jv_sched :: "string \<Rightarrow> (job \<times> time) list"
  jv_keys :: "string set"

definition due_jobs :: "time \<Rightarrow> (job \<times> time) list \<Rightarrow> job list" where
  "due_jobs now z = map fst (filter (\<lambda>(j, x). 0 \<le> x \<and> x \<le> now) z)"

definition pop_reply_of :: "nat \<Rightarrow> job list \<Rightarrow> pop_reply" where
  "pop_reply_of seconds js = (if js \<noteq> [] then Popped (last js) else if seconds = 0 then Waiting else TimedOut)"

definition push_laws :: "'w job_store \<Rightarrow> ('w \<Rightarrow> job_view) \<Rightarrow> bool" where
  "push_laws S view \<longleftrightarrow>
     (\<forall>k t w b w'. js_set_nx S k t w = (Some b, w') \<longrightarrow>
        b = (k \<notin> jv_keys (view w)) \<and> view w' = (view w)\<lparr>jv_keys := insert k (jv_keys (view w))\<rparr>) \<and>
     (\<forall>k j w u w'. js_lpush S k j w = (Some u, w') \<longrightarrow>
        view w' = (view w)\<lparr>jv_lists := (jv_lists (view w))(k := j # jv_lists (view w) k)\<rparr>) \<and>
     (\<forall>k j t w u w'. js_zadd S k j t w = (Some u, w') \<longrightarrow>
        (\<exists>z. view w' = (view w)\<lparr>jv_sched := (jv_sched (view w))(k := z)\<rparr> \<and>
             mset z = add_mset (j, t) (mset (filter (\<lambda>e. fst e \<noteq> j) (jv_sched (view w) k)))))"

definition pop_laws :: "'w job_store \<Rightarrow> ('w \<Rightarrow> job_view) \<Rightarrow> bool" where
  "pop_laws S view \<longleftrightarrow>
     (\<forall>k n w r w'. js_brpop S k n w = (Some r, w') \<longrightarrow>
        r = pop_reply_of n (jv_lists (view w) k) \<and>
        view w' = (view w)\<lparr>jv_lists := (jv_lists (view w))(k := butlast (jv_lists (view w) k))\<rparr>) \<and>
     (\<forall>k t w js w'. js_due S k t w = (Some js, w') \<longrightarrow> js = due_jobs t (jv_sched (view w) k) \<and> view w' = view w) \<and>
     (\<forall>q k js w u w'. js_move S q k js w = (Some u, w') \<longrightarrow>
        view w' = (view w)\<lparr>jv_lists := (jv_lists (view w))(q := rev js @ jv_lists (view w) q),
          jv_sched := (jv_sched (view w))(k := filter (\<lambda>e. fst e \<notin> set js) (jv_sched (view w) k))\<rparr>)"

text \<open>The commands answer.\<close>

definition pops_return :: "'w job_store \<Rightarrow> bool" where
  "pops_return S \<longleftrightarrow> (\<forall>k n w. fst (js_brpop S k n w) \<noteq> None) \<and> (\<forall>k t w. fst (js_due S k t w) \<noteq> None)
     \<and> (\<forall>q k js w. fst (js_move S q k js w) \<noteq> None)"

text \<open>A store that satisfies the laws.\<close>

definition mem_jobs :: "('w \<Rightarrow> job_view) \<Rightarrow> (job_view \<Rightarrow> 'w \<Rightarrow> 'w) \<Rightarrow> (job_view \<Rightarrow> string list) \<Rightarrow> 'w job_store" where
  "mem_jobs get put names =
     \<lparr>js_set_nx = (\<lambda>k t w. (Some (k \<notin> jv_keys (get w)), put ((get w)\<lparr>jv_keys := insert k (jv_keys (get w))\<rparr>) w)),
      js_lpush = (\<lambda>k j w. (Some (), put ((get w)\<lparr>jv_lists := (jv_lists (get w))(k := j # jv_lists (get w) k)\<rparr>) w)),
      js_brpop = (\<lambda>k n w. (Some (pop_reply_of n (jv_lists (get w) k)),
         put ((get w)\<lparr>jv_lists := (jv_lists (get w))(k := butlast (jv_lists (get w) k))\<rparr>) w)),
      js_zadd = (\<lambda>k j t w. (Some (), put ((get w)\<lparr>jv_sched := (jv_sched (get w))
         (k := insort_key snd (j, t) (filter (\<lambda>e. fst e \<noteq> j) (jv_sched (get w) k)))\<rparr>) w)),
      js_due = (\<lambda>k t w. (Some (due_jobs t (jv_sched (get w) k)), w)),
      js_move = (\<lambda>q k js w. (Some (), put ((get w)\<lparr>jv_lists := (jv_lists (get w))(q := rev js @ jv_lists (get w) q),
         jv_sched := (jv_sched (get w))(k := filter (\<lambda>e. fst e \<notin> set js) (jv_sched (get w) k))\<rparr>) w)),
      js_llen = (\<lambda>k w. (Some (length (jv_lists (get w) k)), w)),
      js_scan = (\<lambda>p w. (Some (filter (\<lambda>k. take (length p) k = p \<and> jv_lists (get w) k \<noteq> []) (names (get w))), w)),
      js_head = (\<lambda>k n w. (Some (take n (jv_lists (get w) k)), w)),
      js_trim = (\<lambda>k n w. (Some (), put ((get w)\<lparr>jv_lists := (jv_lists (get w))(k := drop n (jv_lists (get w) k))\<rparr>) w))\<rparr>"

definition empty_view :: job_view where
  "empty_view = \<lparr>jv_lists = (\<lambda>_. []), jv_sched = (\<lambda>_. []), jv_keys = {}\<rparr>"

section \<open>The abstract queue\<close>

text \<open>Three first-in first-out queues, oldest job first, served by priority.\<close>

record pqueue =
  pq_high :: "job list"
  pq_default :: "job list"
  pq_low :: "job list"

definition pq_put :: "job \<Rightarrow> pqueue \<Rightarrow> pqueue" where
  "pq_put j q = (if 0 < jb_priority j then q\<lparr>pq_high := pq_high q @ [j]\<rparr>
     else if jb_priority j < 0 then q\<lparr>pq_low := pq_low q @ [j]\<rparr> else q\<lparr>pq_default := pq_default q @ [j]\<rparr>)"

definition pq_take :: "pqueue \<Rightarrow> (job \<times> pqueue) option" where
  "pq_take q = (case pq_high q of j # js \<Rightarrow> Some (j, q\<lparr>pq_high := js\<rparr>)
     | [] \<Rightarrow> (case pq_default q of j # js \<Rightarrow> Some (j, q\<lparr>pq_default := js\<rparr>)
     | [] \<Rightarrow> (case pq_low q of j # js \<Rightarrow> Some (j, q\<lparr>pq_low := js\<rparr>) | [] \<Rightarrow> None)))"

definition abs_queue :: "queue_config \<Rightarrow> job_view \<Rightarrow> pqueue" where
  "abs_queue cfg v = \<lparr>pq_high = rev (jv_lists v (qf_prefix cfg @ ''high'')), pq_default = rev (jv_lists v (qf_prefix cfg @ ''default'')),
     pq_low = rev (jv_lists v (qf_prefix cfg @ ''low''))\<rparr>"

text \<open>Every job in the queues or waiting for its time.\<close>

definition level_jobs :: "job_view \<Rightarrow> string \<Rightarrow> job multiset" where
  "level_jobs v q = mset (jv_lists v q) + mset (map fst (jv_sched v (scheduled_key q)))"

definition held_jobs :: "queue_config \<Rightarrow> job_view \<Rightarrow> job multiset" where
  "held_jobs cfg v = sum_list (map (level_jobs v) (queue_levels cfg))"

section \<open>Lemmas\<close>

definition release :: "time \<Rightarrow> string \<Rightarrow> job_view \<Rightarrow> job_view" where
  "release now q v = v\<lparr>jv_lists := (jv_lists v)(q := rev (due_jobs now (jv_sched v (scheduled_key q))) @ jv_lists v q),
     jv_sched := (jv_sched v)(scheduled_key q := filter (\<lambda>e. fst e \<notin> set (due_jobs now (jv_sched v (scheduled_key q)))) (jv_sched v (scheduled_key q)))\<rparr>"

fun pop_view :: "nat \<Rightarrow> string list \<Rightarrow> job_view \<Rightarrow> pop_reply \<times> job_view" where
  "pop_view n [] v = (TimedOut, v)"
| "pop_view n (q # qs) v =
     (if jv_lists v q \<noteq> [] then (Popped (last (jv_lists v q)), v\<lparr>jv_lists := (jv_lists v)(q := butlast (jv_lists v q))\<rparr>)
      else if n = 0 then (Waiting, v) else pop_view n qs v)"

lemma queue_levels_distinct [simp]: "distinct (queue_levels cfg)"
  by (simp add: queue_levels_def)

lemma scheduled_key_inj [simp]: "scheduled_key q = scheduled_key q' \<longleftrightarrow> q = q'"
  by (simp add: scheduled_key_def)

lemma queue_key_level [simp]: "queue_key cfg p \<in> set (queue_levels cfg)"
  by (simp add: queue_key_def queue_levels_def)

lemma due_filter:
  assumes "distinct (map fst z)"
  shows "filter (\<lambda>e. fst e \<notin> set (due_jobs now z)) z = filter (\<lambda>(j, x). \<not> (0 \<le> x \<and> x \<le> now)) z"
proof (rule filter_cong [OF refl])
  fix e assume e: "e \<in> set z"
  have "fst e \<in> set (due_jobs now z) \<longleftrightarrow> (\<exists>x. (fst e, x) \<in> set z \<and> 0 \<le> x \<and> x \<le> now)"
    by (auto simp: due_jobs_def image_iff case_prod_beta)
  also have "\<dots> \<longleftrightarrow> 0 \<le> snd e \<and> snd e \<le> now"
    using e eq_key_imp_eq_value [OF assms, of "fst e" "snd e"] by (auto intro!: exI [of _ "snd e"])
  finally show "fst e \<notin> set (due_jobs now z) \<longleftrightarrow> (case e of (j, x) \<Rightarrow> \<not> (0 \<le> x \<and> x \<le> now))"
    by (simp add: case_prod_beta)
qed

lemma view_upd_triv [simp]: "v\<lparr>jv_lists := (jv_lists v)(k := jv_lists v k)\<rparr> = (v :: job_view)"
  by simp

lemma push_lawsD:
  assumes "push_laws S view"
  shows "js_set_nx S k t w = (Some b, w') \<Longrightarrow>
      b = (k \<notin> jv_keys (view w)) \<and> view w' = (view w)\<lparr>jv_keys := insert k (jv_keys (view w))\<rparr>"
    and "js_lpush S k j w = (Some u, w') \<Longrightarrow> view w' = (view w)\<lparr>jv_lists := (jv_lists (view w))(k := j # jv_lists (view w) k)\<rparr>"
    and "js_zadd S k j x w = (Some u, w') \<Longrightarrow> (\<exists>z. view w' = (view w)\<lparr>jv_sched := (jv_sched (view w))(k := z)\<rparr> \<and>
      mset z = add_mset (j, x) (mset (filter (\<lambda>e. fst e \<noteq> j) (jv_sched (view w) k))))"
  using assms unfolding push_laws_def by blast+

lemma pop_lawsD:
  assumes "pop_laws S view"
  shows "js_brpop S k n w = (Some r, w') \<Longrightarrow> r = pop_reply_of n (jv_lists (view w) k)
      \<and> view w' = (view w)\<lparr>jv_lists := (jv_lists (view w))(k := butlast (jv_lists (view w) k))\<rparr>"
    and "js_due S k t w = (Some js, w') \<Longrightarrow> js = due_jobs t (jv_sched (view w) k) \<and> view w' = view w"
    and "js_move S q k js w = (Some u, w') \<Longrightarrow> view w' = (view w)\<lparr>jv_lists := (jv_lists (view w))(q := rev js @ jv_lists (view w) q),
      jv_sched := (jv_sched (view w))(k := filter (\<lambda>e. fst e \<notin> set js) (jv_sched (view w) k))\<rparr>"
  using assms unfolding pop_laws_def by blast+

lemma move_one_view:
  assumes "pop_laws S view" "js_due S (scheduled_key q) now w = (Some js, w1)"
    and "(if js = [] then rret () else js_move S q (scheduled_key q) js) w1 = (Some u, w2)"
  shows "view w2 = release now q (view w)"
proof (cases "js = []")
  case True
  then show ?thesis using pop_lawsD(2) [OF assms(1,2)] assms(3) by (simp add: release_def rret_iff)
next
  case False
  then show ?thesis using pop_lawsD(2) [OF assms(1,2)] pop_lawsD(3) [OF assms(1), of q _ js w1 u w2] assms(3)
    by (simp add: release_def)
qed

lemma move_levels_view:
  "pop_laws S view \<Longrightarrow> move_levels S now qs w = (Some (), w') \<Longrightarrow> view w' = fold (release now) qs (view w)"
proof (induction qs arbitrary: w)
  case (Cons q qs)
  from Cons.prems(2) obtain js w1 w2 where s: "js_due S (scheduled_key q) now w = (Some js, w1)"
    "(if js = [] then rret () else js_move S q (scheduled_key q) js) w1 = (Some (), w2)" "move_levels S now qs w2 = (Some (), w')"
    by (auto simp: rbind_Some_iff)
  show ?case using Cons.IH [OF Cons.prems(1) s(3)] move_one_view [OF Cons.prems(1) s(1,2)] by simp
qed (simp add: rret_iff)

lemma pop_levels_view:
  "pop_laws S view \<Longrightarrow> pop_levels S n qs w = (Some r, w') \<Longrightarrow> pop_view n qs (view w) = (r, view w')"
proof (induction qs arbitrary: w)
  case (Cons q qs)
  from Cons.prems(2) obtain p w1 where s: "js_brpop S q n w = (Some p, w1)"
    "(case p of TimedOut \<Rightarrow> pop_levels S n qs | _ \<Rightarrow> rret p) w1 = (Some r, w')"
    by (auto simp: rbind_Some_iff)
  note p = pop_lawsD(1) [OF Cons.prems(1) s(1)]
  show ?case
  proof (cases "jv_lists (view w) q = []")
    case True
    then have "view w1 = view w" using p by (metis butlast.simps(1) view_upd_triv)
    then show ?thesis using True p s(2) Cons.IH [OF Cons.prems(1), of w1] by (auto simp: pop_reply_of_def rret_iff split: if_splits)
  next
    case False
    then show ?thesis using p s(2) by (auto simp: pop_reply_of_def rret_iff)
  qed
qed (simp add: rret_iff)

text \<open>The members of a sorted set are distinct.\<close>

definition sched_ok :: "job_view \<Rightarrow> bool" where
  "sched_ok v \<longleftrightarrow> (\<forall>k. distinct (map fst (jv_sched v k)))"

lemma mset_due_split:
  "mset (map fst z) = mset (due_jobs now z) + mset (map fst (filter (\<lambda>(j, x). \<not> (0 \<le> x \<and> x \<le> now)) z))"
  by (induction z) (auto simp: due_jobs_def)

lemma level_jobs_release: "sched_ok v \<Longrightarrow> level_jobs (release now q v) q' = level_jobs v q'"
  using mset_due_split [of "jv_sched v (scheduled_key q)" now]
  by (auto simp: level_jobs_def release_def sched_ok_def due_filter)

lemma sched_ok_release: "sched_ok v \<Longrightarrow> sched_ok (release now q v)"
  by (auto simp: sched_ok_def release_def distinct_map_filter)

lemma releases_ok: "sched_ok v \<Longrightarrow> sched_ok (fold (release now) qs v) \<and> level_jobs (fold (release now) qs v) = level_jobs v"
proof (induction qs arbitrary: v)
  case (Cons q qs)
  have "level_jobs (release now q v) = level_jobs v" using level_jobs_release [OF Cons.prems] by blast
  then show ?case using Cons.IH [OF sched_ok_release [OF Cons.prems, of now q]] by simp
qed simp

lemma pop_view_held:
  assumes "pop_view n qs v = (Popped j, v')" "distinct qs"
  shows "sum_list (map (level_jobs v) qs) = add_mset j (sum_list (map (level_jobs v') qs))"
  using assms
proof (induction n qs v rule: pop_view.induct)
  case (2 n q qs v)
  show ?case
  proof (cases "jv_lists v q = []")
    case True
    then have r: "pop_view n qs v = (Popped j, v')" using 2 by (auto split: if_splits)
    have "jv_lists v' q = jv_lists v q \<and> jv_sched v' = jv_sched v"
      using r "2.prems"(2) by (induction n qs v rule: pop_view.induct) (auto split: if_splits)
    then have "level_jobs v' q = level_jobs v q" by (simp add: level_jobs_def)
    then show ?thesis using 2 True r by (auto split: if_splits)
  next
    case False
    then have j: "j = last (jv_lists v q)" "v' = v\<lparr>jv_lists := (jv_lists v)(q := butlast (jv_lists v q))\<rparr>"
      using 2 by auto
    have "mset (jv_lists v q) = add_mset j (mset (butlast (jv_lists v q)))"
      using False j(1) by (metis add_mset_add_single append_butlast_last_id mset_append mset_single_iff_right)
    then have "level_jobs v q = add_mset j (level_jobs v' q)" by (simp add: level_jobs_def j)
    moreover have "map (level_jobs v') qs = map (level_jobs v) qs"
      using "2.prems"(2) by (auto simp: level_jobs_def j)
    ultimately show ?thesis by (metis add_mset_add_single list.simps(9) sum_list.Cons union_commute union_assoc)
  qed
qed simp

lemma pop_view_abs:
  "pop_view n (queue_levels cfg) v = (Popped j, v') \<Longrightarrow> 0 < n \<or> jv_lists v (hd (queue_levels cfg)) \<noteq> []
     \<Longrightarrow> pq_take (abs_queue cfg v) = Some (j, abs_queue cfg v')"
  by (auto simp: queue_levels_def abs_queue_def pq_take_def butlast_rev hd_rev split: if_splits list.splits)

lemma raising_iff: "raising m w = (Inr x, w') \<longleftrightarrow> m w = (Some x, w')"
  by (auto simp: raising_def split: prod.splits option.splits)

lemma cb_call_Returned: "cb_call cfg now later fn b w = (Returned x, b', w') \<Longrightarrow> fn w = (Inr x, w')"
  by (auto simp: cb_call_def split: prod.splits sum.splits)

lemma dequeue_Popped:
  assumes "pop_laws S view" "qm_connected qm" "dequeue S now t qm w = (Popped j, qm', w')"
  shows "pop_view (nat \<lfloor>t\<rfloor>) (queue_levels (qm_config qm)) (fold (release now) (queue_levels (qm_config qm)) (view w)) = (Popped j, view w')"
proof -
  have "redis_dequeue S (qm_config qm) now t w = (Some (Popped j), w')"
    using assms(2,3) unfolding dequeue_def
    by (auto simp: raising_iff dest!: cb_call_Returned split: prod.splits cb_outcome.splits pop_reply.splits)
  then show ?thesis
    using move_levels_view [OF assms(1)] pop_levels_view [OF assms(1)]
    by (fastforce simp: redis_dequeue_def move_scheduled_jobs_def rbind_Some_iff)
qed

lemma push_job_held:
  assumes "push_laws S view" "qm_connected qm" "push_job S now j qm w = (True, qm', w')"
    and "j \<notin> fst ` set (jv_sched (view w) (scheduled_key (queue_key (qm_config qm) (jb_priority j))))"
  shows "level_jobs (view w') q = (if q = queue_key (qm_config qm) (jb_priority j) then add_mset j (level_jobs (view w) q) else level_jobs (view w) q)"
proof -
  let ?k = "queue_key (qm_config qm) (jb_priority j)"
  have e: "redis_enqueue S (qm_config qm) (qm_utc_offset qm) now j w = (Some (), w')"
    using assms(2,3) unfolding push_job_def
    by (auto simp: raising_iff dest!: cb_call_Returned split: prod.splits cb_outcome.splits)
  then consider "js_lpush S ?k j w = (Some (), w')" | x where "js_zadd S (scheduled_key ?k) j x w = (Some (), w')"
    by (auto simp: redis_enqueue_def Let_def split: option.splits if_splits)
  then show ?thesis
  proof cases
    case 1
    then show ?thesis using push_lawsD(2) [OF assms(1)] by (auto simp: level_jobs_def)
  next
    case (2 x)
    then obtain z where z: "view w' = (view w)\<lparr>jv_sched := (jv_sched (view w))(scheduled_key ?k := z)\<rparr>"
      "mset z = add_mset (j, x) (mset (filter (\<lambda>e. fst e \<noteq> j) (jv_sched (view w) (scheduled_key ?k))))"
      using push_lawsD(3) [OF assms(1)] by blast
    have "filter (\<lambda>e. fst e \<noteq> j) (jv_sched (view w) (scheduled_key ?k)) = jv_sched (view w) (scheduled_key ?k)"
      using assms(4) by (intro filter_True) auto
    then have "mset z = add_mset (j, x) (mset (jv_sched (view w) (scheduled_key ?k)))" using z(2) by metis
    then have "mset (map fst z) = add_mset j (mset (map fst (jv_sched (view w) (scheduled_key ?k))))"
      by (metis fst_conv image_mset_add_mset mset_map)
    then show ?thesis using z(1) by (simp add: level_jobs_def)
  qed
qed

section \<open>The contract of a work queue\<close>

text \<open>
  What the callers of the queue rely on: a job that was accepted is held, a pull removes the job that it returns, and
  nothing else is lost or made up. The manager without Redis and the manager over Redis both provide it.
\<close>

locale work_queue =
  fixes put :: "job \<Rightarrow> 's \<Rightarrow> bool \<times> 's" and pull :: "'s \<Rightarrow> job option \<times> 's" and held :: "'s \<Rightarrow> job multiset" and good :: "'s \<Rightarrow> bool"
  assumes put_held: "good s \<Longrightarrow> j \<notin># held s \<Longrightarrow> put j s = (b, s') \<Longrightarrow> b \<and> good s' \<and> held s' = add_mset j (held s)"
    and pull_held: "good s \<Longrightarrow> pull s = (r, s') \<Longrightarrow> good s' \<and> held s = (case r of Some j \<Rightarrow> {#j#} | None \<Rightarrow> {#}) + held s'"
begin

fun put_all :: "job list \<Rightarrow> 's \<Rightarrow> 's" where
  "put_all [] s = s"
| "put_all (j # js) s = put_all js (snd (put j s))"

fun pull_many :: "nat \<Rightarrow> 's \<Rightarrow> job list \<times> 's" where
  "pull_many 0 s = ([], s)"
| "pull_many (Suc n) s = (case pull s of (r, s1) \<Rightarrow> (case pull_many n s1 of (js, s2) \<Rightarrow> (case r of Some j \<Rightarrow> j # js | None \<Rightarrow> js, s2)))"

lemma put_all_held: "good s \<Longrightarrow> distinct js \<Longrightarrow> set js \<inter> set_mset (held s) = {} \<Longrightarrow> good (put_all js s) \<and> held (put_all js s) = mset js + held s"
proof (induction js arbitrary: s)
  case (Cons j js)
  then have "good (snd (put j s)) \<and> held (snd (put j s)) = add_mset j (held s)"
    using put_held [of s j "fst (put j s)" "snd (put j s)"] by auto
  then show ?case using Cons by simp
qed simp

lemma pull_many_held: "good s \<Longrightarrow> pull_many n s = (js, s') \<Longrightarrow> good s' \<and> held s = mset js + held s'"
proof (induction n arbitrary: s js)
  case (Suc n)
  obtain r s1 js' s2 where p: "pull s = (r, s1)" "pull_many n s1 = (js', s2)" by (metis surj_pair)
  with Suc show ?case using pull_held [of s r s1] by (auto split: option.splits)
qed simp

lemma nothing_lost:
  assumes "good s" "distinct js" "set js \<inter> set_mset (held s) = {}" "pull_many n (put_all js s) = (ks, s')"
  shows "mset js + held s = mset ks + held s'"
  using put_all_held [OF assms(1-3)] pull_many_held [OF _ assms(4)] by auto

end

subsection \<open>The manager without Redis\<close>

definition memory_put :: "time \<Rightarrow> job \<Rightarrow> queue_manager \<Rightarrow> bool \<times> queue_manager" where
  "memory_put now j qm = (case enqueue (mem_jobs (\<lambda>_. empty_view) (\<lambda>_ u. u) (\<lambda>_. [])) now None j qm () of (r, qm1, _) \<Rightarrow> (r = Some True, qm1))"

definition reply_job :: "pop_reply \<Rightarrow> job option" where
  "reply_job r = (case r of Popped j \<Rightarrow> Some j | _ \<Rightarrow> None)"

definition memory_pull :: "time \<Rightarrow> rat \<Rightarrow> queue_manager \<Rightarrow> job option \<times> queue_manager" where
  "memory_pull now timeout qm = (case dequeue (mem_jobs (\<lambda>_. empty_view) (\<lambda>_ u. u) (\<lambda>_. [])) now timeout qm () of (r, qm1, _) \<Rightarrow> (reply_job r, qm1))"

interpretation memory_queue: work_queue "memory_put now" "memory_pull now timeout" "\<lambda>qm. mset (qm_memory qm)" "\<lambda>qm. \<not> qm_connected qm" for now timeout
  by unfold_locales
    (auto simp: memory_put_def memory_pull_def enqueue_def push_job_def dequeue_def reply_job_def truthy_str_def split: list.splits prod.splits)

subsection \<open>The manager over Redis\<close>

abbreviation queue_store :: "job_view job_store" where
  "queue_store \<equiv> mem_jobs (\<lambda>v. v) (\<lambda>v _. v) (\<lambda>_. [])"

definition redis_put :: "time \<Rightarrow> job \<Rightarrow> queue_manager \<times> job_view \<Rightarrow> bool \<times> queue_manager \<times> job_view" where
  "redis_put now j s = (case enqueue queue_store now None j (fst s) (snd s) of (r, s1) \<Rightarrow> (r = Some True, s1))"

definition redis_pull :: "time \<Rightarrow> rat \<Rightarrow> queue_manager \<times> job_view \<Rightarrow> job option \<times> queue_manager \<times> job_view" where
  "redis_pull now timeout s = (case dequeue queue_store now timeout (fst s) (snd s) of (r, s1) \<Rightarrow> (reply_job r, s1))"

definition redis_held :: "queue_manager \<times> job_view \<Rightarrow> job multiset" where
  "redis_held s = held_jobs (qm_config (fst s)) (snd s)"

definition redis_good :: "queue_manager \<times> job_view \<Rightarrow> bool" where
  "redis_good s \<longleftrightarrow> qm_connected (fst s) \<and> cb_state (qm_breaker (fst s)) = CLOSED \<and> sched_ok (snd s)"

lemma mem_jobs_laws:
  assumes "\<And>v w. get (put v w) = v"
  shows "push_laws (mem_jobs get put names) get" "pop_laws (mem_jobs get put names) get"
  using assms by (auto simp: push_laws_def pop_laws_def mem_jobs_def mset_insort)

lemma cb_call_closed:
  "cb_state b = CLOSED \<Longrightarrow> fn w = (Inr x, w1) \<Longrightarrow> cb_call cfg now later fn b w = (Returned x, b\<lparr>cb_failure_count := 0\<rparr>, w1)"
  by (simp add: cb_call_def cb_enter_def cb_record_success_def)

lemma rbind_returns: "fst (m w) \<noteq> None \<Longrightarrow> (\<And>x w1. fst (f x w1) \<noteq> None) \<Longrightarrow> fst (rbind m f w) \<noteq> None"
  by (auto simp: rbind_def split: prod.splits option.splits)

lemma redis_dequeue_returns:
  assumes "pops_return S"
  shows "fst (redis_dequeue S cfg now t w) \<noteq> None"
proof -
  have r: "fst (js_brpop S k n w) \<noteq> None" "fst (js_due S k t w) \<noteq> None" "fst (js_move S q k js w) \<noteq> None" for k n w t q js
    using assms unfolding pops_return_def by blast+
  have "fst (move_levels S now qs w) \<noteq> None" for qs w
  proof (induction qs arbitrary: w)
    case (Cons q qs)
    have "fst ((if jobs = [] then rret () else js_move S q k jobs) w1) \<noteq> None" for jobs k w1
      using r(3) [of q k jobs w1] by (cases "jobs = []") (auto simp: rret_def)
    then show ?case unfolding move_levels.simps by (intro rbind_returns r Cons.IH)
  qed (simp add: rret_def)
  moreover have "fst (pop_levels S n qs w) \<noteq> None" for n qs w
  proof (induction qs arbitrary: w)
    case (Cons q qs)
    have "fst ((case p of TimedOut \<Rightarrow> pop_levels S n qs | _ \<Rightarrow> rret p) w1) \<noteq> None" for p w1
      using Cons.IH [of w1] by (cases p) (auto simp: rret_def)
    then show ?case unfolding pop_levels.simps by (intro rbind_returns r)
  qed (simp add: rret_def)
  ultimately show ?thesis unfolding redis_dequeue_def move_scheduled_jobs_def by (intro rbind_returns)
qed

lemma mem_jobs_return: "pops_return (mem_jobs get put names)"
  by (simp add: pops_return_def mem_jobs_def)

lemma dequeue_returns:
  assumes "pops_return S" "qm_connected qm" "cb_state (qm_breaker qm) = CLOSED" "pop_laws S view"
  shows "\<exists>r w'. dequeue S now t qm w = (r, if r = Waiting then qm else qm\<lparr>qm_breaker := (qm_breaker qm)\<lparr>cb_failure_count := 0\<rparr>\<rparr>, w')
     \<and> pop_view (nat \<lfloor>t\<rfloor>) (queue_levels (qm_config qm)) (fold (release now) (queue_levels (qm_config qm)) (view w)) = (r, view w')"
proof -
  obtain r w' where r: "redis_dequeue S (qm_config qm) now t w = (Some r, w')"
    using redis_dequeue_returns [OF assms(1), of "qm_config qm" now t w] by (metis not_None_eq prod.collapse)
  then obtain w1 where "move_levels S now (queue_levels (qm_config qm)) w = (Some (), w1)"
      "pop_levels S (nat \<lfloor>t\<rfloor>) (queue_levels (qm_config qm)) w1 = (Some r, w')"
    by (auto simp: redis_dequeue_def move_scheduled_jobs_def rbind_Some_iff)
  then have "pop_view (nat \<lfloor>t\<rfloor>) (queue_levels (qm_config qm)) (fold (release now) (queue_levels (qm_config qm)) (view w)) = (r, view w')"
    using move_levels_view [OF assms(4)] pop_levels_view [OF assms(4)] by metis
  moreover have "cb_call (queue_breaker_config (qm_config qm)) now now (raising (redis_dequeue S (qm_config qm) now t)) (qm_breaker qm) w
      = (Returned r, (qm_breaker qm)\<lparr>cb_failure_count := 0\<rparr>, w')"
    using assms(3) r by (intro cb_call_closed) (simp_all add: raising_iff)
  ultimately show ?thesis using assms(2) by (cases r) (simp_all add: dequeue_def)
qed

lemma pop_view_none: "pop_view n qs v = (r, v') \<Longrightarrow> r \<in> {TimedOut, Waiting} \<Longrightarrow> v' = v"
  by (induction n qs v rule: pop_view.induct) (auto split: if_splits)

lemma pop_view_sched: "pop_view n qs v = (r, v') \<Longrightarrow> jv_sched v' = jv_sched v"
  by (induction n qs v rule: pop_view.induct) (auto split: if_splits)

lemma redis_pull_contract:
  assumes "redis_good s" "redis_pull now t s = (r, s')"
  shows "redis_good s' \<and> redis_held s = (case r of Some j \<Rightarrow> {#j#} | None \<Rightarrow> {#}) + redis_held s'"
proof -
  obtain qm w where s: "s = (qm, w)" by fastforce
  have g: "qm_connected qm" "cb_state (qm_breaker qm) = CLOSED" "sched_ok w" using assms(1) by (simp_all add: s redis_good_def)
  let ?qs = "queue_levels (qm_config qm)" and ?v = "fold (release now) (queue_levels (qm_config qm)) w"
  obtain p w' where d: "dequeue queue_store now t qm w = (p, if p = Waiting then qm else qm\<lparr>qm_breaker := (qm_breaker qm)\<lparr>cb_failure_count := 0\<rparr>\<rparr>, w')"
    "pop_view (nat \<lfloor>t\<rfloor>) ?qs ?v = (p, w')"
    using dequeue_returns [OF mem_jobs_return g(1,2) mem_jobs_laws(2), of "\<lambda>v. v" "\<lambda>v _. v"] by blast
  have k: "sched_ok ?v" "level_jobs ?v = level_jobs w" using releases_ok [OF g(3)] by simp_all
  have ok: "sched_ok w'" using k(1) pop_view_sched [OF d(2)] by (simp add: sched_ok_def)
  have s': "r = reply_job p" "snd s' = w'" "qm_config (fst s') = qm_config qm" "qm_connected (fst s')" "cb_state (qm_breaker (fst s')) = CLOSED"
    using assms(2) d(1) g by (auto simp: redis_pull_def s split: if_splits)
  have "redis_held s = (case reply_job p of Some j \<Rightarrow> {#j#} | None \<Rightarrow> {#}) + redis_held s'"
  proof (cases p)
    case (Popped j)
    then show ?thesis using pop_view_held [of "nat \<lfloor>t\<rfloor>" ?qs ?v j w'] d(2) k(2) s' by (simp add: redis_held_def held_jobs_def s reply_job_def)
  qed (use pop_view_none [OF d(2)] k(2) s' in \<open>auto simp: redis_held_def held_jobs_def s reply_job_def\<close>)
  then show ?thesis using ok s' by (simp add: redis_good_def)
qed

lemma held_jobs_insert:
  assumes "k \<in> set (queue_levels cfg)" "\<And>q. level_jobs v' q = (if q = k then add_mset j (level_jobs v q) else level_jobs v q)"
  shows "held_jobs cfg v' = add_mset j (held_jobs cfg v)"
  using assms by (auto simp: held_jobs_def queue_levels_def)

lemma not_scheduled:
  assumes "j \<notin># held_jobs cfg v" "k \<in> set (queue_levels cfg)"
  shows "j \<notin> fst ` set (jv_sched v (scheduled_key k))"
  using assms by (auto simp: held_jobs_def queue_levels_def level_jobs_def)

lemma distinct_insort_member:
  assumes "distinct (map fst z)"
  shows "distinct (map fst (insort_key snd (j, x) (filter (\<lambda>e. fst e \<noteq> j) z)))"
proof -
  have "mset (map fst (insort_key snd (j, x) (filter (\<lambda>e. fst e \<noteq> j) z))) = mset (j # map fst (filter (\<lambda>e. fst e \<noteq> j) z))"
    by (simp add: mset_insort)
  moreover have "distinct (j # map fst (filter (\<lambda>e. fst e \<noteq> j) z))" using assms by (auto simp: distinct_map_filter)
  ultimately show ?thesis by (metis mset_eq_imp_distinct_iff)
qed

lemma redis_put_contract:
  assumes "redis_good s" "j \<notin># redis_held s" "redis_put now j s = (b, s')"
  shows "b \<and> redis_good s' \<and> redis_held s' = add_mset j (redis_held s)"
proof -
  obtain qm w where s: "s = (qm, w)" by fastforce
  have g: "qm_connected qm" "cb_state (qm_breaker qm) = CLOSED" "sched_ok w" using assms(1) by (simp_all add: s redis_good_def)
  have "\<exists>w'. redis_enqueue queue_store (qm_config qm) (qm_utc_offset qm) now j w = (Some (), w')"
    by (simp add: redis_enqueue_def mem_jobs_def Let_def split: option.split)
  then obtain w' where e: "redis_enqueue queue_store (qm_config qm) (qm_utc_offset qm) now j w = (Some (), w')" by blast
  have p: "push_job queue_store now j qm w = (True, qm\<lparr>qm_breaker := (qm_breaker qm)\<lparr>cb_failure_count := 0\<rparr>\<rparr>, w')"
    using g e by (simp add: push_job_def cb_call_closed raising_iff)
  then have s': "b" "s' = (qm\<lparr>qm_breaker := (qm_breaker qm)\<lparr>cb_failure_count := 0\<rparr>\<rparr>, w')"
    using assms(3) by (simp_all add: redis_put_def enqueue_def truthy_str_def s)
  have "j \<notin> fst ` set (jv_sched w (scheduled_key (queue_key (qm_config qm) (jb_priority j))))"
    using assms(2) by (intro not_scheduled [OF _ queue_key_level]) (simp add: redis_held_def s)
  from push_job_held [OF mem_jobs_laws(1) g(1) p this]
  have "held_jobs (qm_config qm) w' = add_mset j (held_jobs (qm_config qm) w)"
    by (intro held_jobs_insert [OF queue_key_level, of _ _ "jb_priority j"]) simp
  moreover have "sched_ok w'"
    using e g(3) unfolding sched_ok_def redis_enqueue_def mem_jobs_def
    by (auto simp: Let_def distinct_insort_member split: option.splits if_splits)
  ultimately show ?thesis using s' g by (simp add: redis_held_def redis_good_def s)
qed

interpretation redis_queue: work_queue "redis_put now" "redis_pull now timeout" redis_held redis_good for now timeout
  by unfold_locales (use redis_put_contract redis_pull_contract in blast)+

section \<open>Draining without Redis\<close>

text \<open>Handlers that do not touch the queue themselves.\<close>

definition leaves_queue :: "'w handlers \<Rightarrow> bool" where
  "leaves_queue H \<longleftrightarrow> (\<forall>ty h p qm w. H ty = Some h \<longrightarrow> fst (snd (h p (qm, w))) = qm)"

definition attempts_left :: "job \<Rightarrow> nat" where
  "attempts_left j = (jb_max_retries j - jb_retries j) + 1"

definition work_left :: "queue_manager \<Rightarrow> nat" where
  "work_left qm = sum_list (map attempts_left (qm_memory qm))"

definition given_up :: "'w handlers \<Rightarrow> job \<Rightarrow> bool" where
  "given_up H j \<longleftrightarrow> H (jb_type j) = None \<or> jb_max_retries j \<le> jb_retries j"

lemma process_job_memory:
  assumes "\<not> qm_connected qm" "leaves_queue H" "process_job S H now noise j qm w = (ok, qm', w')"
  shows "\<not> qm_connected qm' \<and>
    (ok \<and> qm_memory qm' = qm_memory qm \<and> qm_dead_letters qm' = qm_dead_letters qm
     \<or> \<not> ok \<and> (\<exists>j'. jb_id j' = jb_id j \<and> jb_type j' = jb_type j \<and> jb_payload j' = jb_payload j \<and>
         (qm_memory qm' = qm_memory qm @ [j'] \<and> qm_dead_letters qm' = qm_dead_letters qm \<and> attempts_left j' < attempts_left j
          \<or> qm_memory qm' = qm_memory qm \<and> qm_dead_letters qm' = qm_dead_letters qm @ [j'] \<and> given_up H j')))"
proof (cases "H (jb_type j)")
  case None
  then show ?thesis using assms(1,3)
    by (auto simp: process_job_def Let_def send_to_dead_letter_def given_up_def split: if_splits)
next
  case (Some h)
  obtain res qm1 w1 where h: "h (jb_payload j) (qm, w) = (res, qm1, w1)" by (metis surj_pair)
  have q: "qm1 = qm" using assms(2) Some h unfolding leaves_queue_def by (metis fst_conv snd_conv)
  show ?thesis
  proof (cases res)
    case (Inl e)
    then show ?thesis using assms(1,3) Some h q
      by (auto simp: process_job_def Let_def send_to_dead_letter_def given_up_def retry_job_def enqueue_def push_job_def
            truthy_str_def attempts_left_def split: if_splits)
  next
    case (Inr u)
    then show ?thesis using assms(1,3) Some h q by (auto simp: process_job_def Let_def split: if_splits)
  qed
qed

text \<open>A run that processes jobs until none is found, with the jobs in order and what \<open>process_job\<close> returned for each.\<close>

inductive drain_run ::
  "'w job_store \<Rightarrow> 'w handlers \<Rightarrow> ('w \<Rightarrow> time) \<Rightarrow> rat \<Rightarrow> queue_manager \<Rightarrow> 'w \<Rightarrow> (job \<times> bool) list \<Rightarrow> queue_manager \<Rightarrow> 'w \<Rightarrow> bool"
  for S H clock noise where
  idle: "dequeue S (clock w) (1/10) qm w = (TimedOut, qm1, w1) \<Longrightarrow> drain_run S H clock noise qm w [] qm1 w1"
| work: "dequeue S (clock w) (1/10) qm w = (Popped j, qm1, w1) \<Longrightarrow> process_job S H (clock w1) noise j qm1 w1 = (ok, qm2, w2)
         \<Longrightarrow> drain_run S H clock noise qm2 w2 trace qm' w' \<Longrightarrow> drain_run S H clock noise qm w ((j, ok) # trace) qm' w'"

text \<open>The ids of the jobs a run finished.\<close>

definition finished :: "(job \<times> bool) list \<Rightarrow> string multiset" where
  "finished trace = mset (map (jb_id \<circ> fst) (filter snd trace))"

lemma drain_once_memory:
  assumes "leaves_queue H" "\<And>w. \<not> exit_set w" "\<not> qm_connected qm"
  shows "\<exists>qm' w' trace ls. drain_once S H exit_set clock noise qm w = Some (qm', w') \<and> drain_run S H clock noise qm w trace qm' w' \<and> qm_memory qm' = []
     \<and> qm_dead_letters qm' = qm_dead_letters qm @ ls \<and> (\<forall>j\<in>set ls. given_up H j)
     \<and> mset (map jb_id (qm_memory qm)) = finished trace + mset (map jb_id ls)"
  using assms(3)
proof (induction "work_left qm" arbitrary: qm w rule: less_induct)
  case less
  show ?case
  proof (cases "qm_memory qm")
    case Nil
    have "dequeue S (clock w) (1/10) qm w = (TimedOut, qm, w)" using Nil less.prems by (simp add: dequeue_def)
    then show ?thesis using Nil drain_run.idle [of S clock w qm qm w H noise] assms(2)
      by (intro exI [of _ qm] exI [of _ w] exI [of _ "[]"]) (auto simp: drain_once.simps finished_def)
  next
    case (Cons j js)
    let ?qm = "qm\<lparr>qm_memory := js\<rparr>"
    obtain ok qm1 w1 where p: "process_job S H (clock w) noise j ?qm w = (ok, qm1, w1)" by (metis surj_pair)
    have deq: "dequeue S (clock w) (1/10) qm w = (Popped j, ?qm, w)" using Cons less.prems by (simp add: dequeue_def)
    have d: "drain_once S H exit_set clock noise qm w = drain_once S H exit_set clock noise qm1 w1"
      using assms(2) p deq by (subst drain_once.simps) simp
    have nc: "\<not> qm_connected ?qm" using less.prems by simp
    note c = process_job_memory [OF nc assms(1) p]
    have "0 < attempts_left j" by (simp add: attempts_left_def)
    with c Cons have less1: "work_left qm1 < work_left qm" by (auto simp: work_left_def)
    from less.hyps [OF less1, of w1] c obtain qm' w' trace ls where r:
      "drain_once S H exit_set clock noise qm1 w1 = Some (qm', w')" "drain_run S H clock noise qm1 w1 trace qm' w'" "qm_memory qm' = []"
      "qm_dead_letters qm' = qm_dead_letters qm1 @ ls" "\<forall>j\<in>set ls. given_up H j" "mset (map jb_id (qm_memory qm1)) = finished trace + mset (map jb_id ls)"
      by blast
    have run: "drain_run S H clock noise qm w ((j, ok) # trace) qm' w'" using drain_run.work [OF deq p r(2)] .
    have "\<exists>ls'. qm_dead_letters qm1 @ ls = qm_dead_letters qm @ ls' \<and> (\<forall>j\<in>set ls'. given_up H j)
      \<and> mset (map jb_id (qm_memory qm)) = finished ((j, ok) # trace) + mset (map jb_id ls')"
    proof (cases "qm_dead_letters qm1 = qm_dead_letters qm")
      case True
      have "mset (map jb_id (qm_memory qm)) = finished ((j, ok) # trace) + mset (map jb_id ls)"
        using c True Cons r(6) by (auto simp: finished_def)
      then show ?thesis using True r(5) by (intro exI [of _ ls]) simp
    next
      case False
      with c obtain j' where "jb_id j' = jb_id j" "given_up H j'" "qm_memory qm1 = js" "qm_dead_letters qm1 = qm_dead_letters qm @ [j']" "\<not> ok"
        by auto
      then show ?thesis using r(5,6) Cons by (intro exI [of _ "j' # ls"]) (auto simp: finished_def)
    qed
    then show ?thesis using d r(1,3,4) run by metis
  qed
qed

section \<open>Properties\<close>

text \<open>A job survives its own text: reading back what was written gives the job again, whatever it carries, as long as ISO
  texts of instants can be read back and are not empty.\<close>

theorem job_text_round_trip:
  assumes "\<forall>t. iso_parse C (iso_format C t) = Some t \<and> iso_format C t \<noteq> []"
  shows "deserialize_job C (serialize_job C j) = Some j"
  using assms by (cases j) (auto simp: serialize_job_def deserialize_job_def Let_def jget_or_def get_or_def split: option.splits)

text \<open>C15: The Redis queue refines three first-in first-out queues served by priority: with a positive timeout the job that \<open>dequeue\<close>
  returns is, once the jobs whose time has come have joined their queues, the oldest job of the highest priority present,
  and what is held afterwards is what was held before without that job.\<close>

theorem queue_serves_by_priority:
  assumes "pop_laws S view" "sched_ok (view w)" "qm_connected qm" "1 \<le> t" "dequeue S now t qm w = (Popped j, qm', w')"
  shows "pq_take (abs_queue (qm_config qm) (fold (release now) (queue_levels (qm_config qm)) (view w))) = Some (j, abs_queue (qm_config qm) (view w'))
    \<and> held_jobs (qm_config qm) (view w) = add_mset j (held_jobs (qm_config qm) (view w'))"
proof -
  note p = dequeue_Popped [OF assms(1,3,5)]
  have "0 < nat \<lfloor>t\<rfloor>" using assms(4) by simp
  then have "pq_take (abs_queue (qm_config qm) (fold (release now) (queue_levels (qm_config qm)) (view w))) = Some (j, abs_queue (qm_config qm) (view w'))"
    using pop_view_abs [OF p] by blast
  moreover have "held_jobs (qm_config qm) (view w) = add_mset j (held_jobs (qm_config qm) (view w'))"
    using pop_view_held [OF p] releases_ok [OF assms(2)] by (simp add: held_jobs_def)
  ultimately show ?thesis ..
qed

text \<open>Nothing is lost and nothing is doubled between \<open>enqueue\<close> and \<open>dequeue\<close> while Redis answers: jobs put in and jobs pulled out
  balance with what is held.\<close>

theorem accepted_jobs_come_back:
  assumes "redis_good s" "distinct js" "set js \<inter> set_mset (redis_held s) = {}"
    and "redis_queue.pull_many now t n (redis_queue.put_all now js s) = (ks, s')"
  shows "mset js + redis_held s = mset ks + redis_held s'"
  using assms by (rule redis_queue.nothing_lost)

text \<open>C17: Without Redis the \<open>--once\<close> mode ends: with handlers that leave the queue alone, whatever they return, it comes to an
  empty queue, and every job that was in it is accounted for exactly once. Either the run finished it (its handler returned, or its key had been
  processed already), or it is among the added dead letters, and then it has no handler or has failed as often as it may.\<close>

theorem once_mode_drains_memory:
  assumes "leaves_queue H" "\<forall>w. \<not> exit_set w" "\<not> qm_connected qm"
  shows "\<exists>qm' w' trace ls. drain_once S H exit_set clock noise qm w = Some (qm', w') \<and> drain_run S H clock noise qm w trace qm' w'
     \<and> qm_memory qm' = [] \<and> qm_dead_letters qm' = qm_dead_letters qm @ ls \<and> list_all (given_up H) ls
     \<and> mset (map jb_id (qm_memory qm)) = finished trace + mset (map jb_id ls)"
proof -
  have "\<And>w. \<not> exit_set w" using assms(2) by blast
  from drain_once_memory [OF assms(1) this assms(3)] show ?thesis by (simp add: list_all_iff)
qed

text \<open>Over Redis the \<open>--once\<close> mode hangs: it asks with a timeout of a tenth of a second, which \<open>int\<close> makes zero, and \<open>BRPOP\<close> takes
  zero for ever. With no job of high priority it never returns, whatever waits in the other queues.\<close>

theorem once_mode_hangs_on_redis:
  assumes "pop_laws S view" "pops_return S" "qm_connected qm" "cb_state (qm_breaker qm) = CLOSED" "\<not> exit_set w"
    and "jv_lists (view w) (qf_prefix (qm_config qm) @ ''high'') = []"
    and "jv_sched (view w) (scheduled_key (qf_prefix (qm_config qm) @ ''high'')) = []"
  shows "drain_once S H exit_set clock noise qm w = None"
proof -
  let ?h = "qf_prefix (qm_config qm) @ ''high''"
  let ?v = "fold (release (clock w)) (queue_levels (qm_config qm)) (view w)"
  have "jv_lists ?v ?h = []"
    using assms(6,7) by (simp add: queue_levels_def release_def due_jobs_def)
  then have "pop_view 0 (queue_levels (qm_config qm)) ?v = (Waiting, ?v)" by (simp add: queue_levels_def)
  moreover have "nat \<lfloor>(1/10 :: rat)\<rfloor> = 0" by simp
  ultimately have "fst (dequeue S (clock w) (1/10) qm w) = Waiting"
    using dequeue_returns [OF assms(2,3,4,1), of "clock w" "1/10" w] by (metis fst_conv)
  then show ?thesis using assms(5) by (subst drain_once.simps) (auto split: prod.splits)
qed

text \<open>A key that is set makes every later \<open>enqueue\<close> with it succeed without pushing anything.\<close>

lemma enqueue_known_key:
  assumes "push_laws S view" "qm_connected qm" "key \<noteq> []" "qf_prefix (qm_config qm) @ ''idem:'' @ key \<in> jv_keys (view w)"
    and "enqueue S now (Some key) j qm w = (Some r, qm', w')"
  shows "r \<and> qm' = qm \<and> view w' = view w"
proof -
  obtain b w1 where "js_set_nx S (qf_prefix (qm_config qm) @ ''idem:'' @ key) (qf_idempotency_ttl_seconds (qm_config qm)) w = (b, w1)"
    by fastforce
  then show ?thesis using assms push_lawsD(1) [OF assms(1)]
    by (cases b) (fastforce simp: enqueue_def claim_idempotency_def truthy_str_def insert_absorb split: prod.splits)+
qed

text \<open>Every \<open>enqueue\<close> with a key that returns leaves the key set, the push included.\<close>

lemma push_job_keys:
  assumes "push_laws S view" "push_job S now j qm w = (True, qm', w')"
  shows "jv_keys (view w') = jv_keys (view w) \<and> qm_connected qm' = qm_connected qm \<and> qm_config qm' = qm_config qm
    \<or> \<not> qm_connected qm"
  using assms(2) push_lawsD(2,3) [OF assms(1)] unfolding push_job_def
  by (fastforce simp: raising_iff redis_enqueue_def Let_def dest!: cb_call_Returned
        split: prod.splits cb_outcome.splits if_splits option.splits)

lemma enqueue_sets_key:
  assumes "push_laws S view" "qm_connected qm" "key \<noteq> []" "enqueue S now (Some key) j qm w = (Some True, qm', w')"
  shows "qf_prefix (qm_config qm) @ ''idem:'' @ key \<in> jv_keys (view w') \<and> jv_keys (view w) \<subseteq> jv_keys (view w')
    \<and> qm_connected qm' \<and> qm_config qm' = qm_config qm"
proof -
  let ?k = "qf_prefix (qm_config qm) @ ''idem:'' @ key"
  obtain b w1 where n: "js_set_nx S ?k (qf_idempotency_ttl_seconds (qm_config qm)) w = (Some b, w1)"
    using assms(2-4) by (auto simp: enqueue_def claim_idempotency_def truthy_str_def split: prod.splits option.splits)
  have v: "view w1 = (view w)\<lparr>jv_keys := insert ?k (jv_keys (view w))\<rparr>" using push_lawsD(1) [OF assms(1) n] by blast
  show ?thesis
  proof (cases b)
    case True
    then obtain j' where "push_job S now j' qm w1 = (True, qm', w')"
      using assms(2-4) n by (auto simp: enqueue_def claim_idempotency_def truthy_str_def split: prod.splits)
    then show ?thesis using push_job_keys [OF assms(1)] v assms(2) by fastforce
  next
    case False
    then show ?thesis using assms(2-4) n v by (auto simp: enqueue_def claim_idempotency_def truthy_str_def)
  qed
qed

lemma schedule_key_not_Nil [simp]: "schedule_key e k \<noteq> []"
  by (simp add: schedule_key_def)

definition window_key :: "queue_manager \<Rightarrow> time \<Rightarrow> schedule_entry \<Rightarrow> string" where
  "window_key qm now e = qf_prefix (qm_config qm) @ ''idem:'' @ schedule_key e (window_of now e)"

lemma scheduler_pass_known:
  assumes "push_laws S view" "scheduler_pass S fresh now es lr qm w = (Some lr', qm', w')" "qm_connected qm"
    and "\<forall>e\<in>set es. window_key qm now e \<in> jv_keys (view w)"
  shows "qm' = qm \<and> view w' = view w"
  using assms(2-4)
proof (induction es arbitrary: lr w)
  case (Cons e es)
  show ?case
  proof (cases "lr (se_name e) = Some (window_of now e)")
    case False
    then obtain r qm1 w1 where e: "enqueue S now (Some (schedule_key e (window_of now e))) (scheduled_job fresh now e) qm w = (Some r, qm1, w1)"
      "scheduler_pass S fresh now es (lr(se_name e \<mapsto> window_of now e)) qm1 w1 = (Some lr', qm', w')"
      using Cons.prems(1) by (auto simp: Let_def split: prod.splits option.splits)
    have q: "qm1 = qm" "view w1 = view w"
      using enqueue_known_key [OF assms(1) Cons.prems(2) _ _ e(1)] Cons.prems(3) by (simp_all add: window_key_def)
    then have "\<forall>e\<in>set es. window_key qm now e \<in> jv_keys (view w1)" using Cons.prems(3) by simp
    from Cons.IH [OF e(2) [unfolded q(1)] Cons.prems(2) this] q(2) show ?thesis by simp
  qed (use Cons in \<open>simp add: Let_def\<close>)
qed simp

text \<open>However many schedulers run, restarted or side by side, an entry is enqueued once per window: when the keys of the windows are
  set, as every accepted \<open>enqueue\<close> leaves them, a pass from any record of last runs changes neither the queues nor the manager.\<close>

theorem schedule_enqueues_once_per_window:
  assumes "push_laws S view" "qm_connected qm"
    and "enqueue S now (Some (schedule_key e (window_of now e))) j qm w = (Some True, qm1, w1)"
    and "window_of later e = window_of now e" "scheduler_pass S fresh later [e] lr qm1 w1 = (Some lr', qm2, w2)"
  shows "qm2 = qm1 \<and> view w2 = view w1"
proof -
  note k = enqueue_sets_key [OF assms(1,2) _ assms(3)]
  then have "\<forall>e'\<in>set [e]. window_key qm1 later e' \<in> jv_keys (view w1)" using assms(4) by (simp add: window_key_def)
  then show ?thesis using scheduler_pass_known [OF assms(1,5)] k by simp
qed

text \<open>Without Redis, draining the dead letters removes exactly the jobs it returns, and no more of them than the limit.\<close>

lemma split_letters_conserve:
  "split_letters ty n js = (d, r) \<Longrightarrow> mset d + mset r = mset js \<and> length d \<le> n \<and> (\<forall>j\<in>set d. jb_type j = ty)"
proof (induction ty n js arbitrary: d r rule: split_letters.induct)
  case (2 ty n j js)
  obtain d1 r1 d2 r2 where "split_letters ty (n - 1) js = (d1, r1)" "split_letters ty n js = (d2, r2)" by fastforce
  note s = this
  show ?case
  proof (cases "jb_type j = ty \<and> 0 < n")
    case True
    then show ?thesis using "2.IH"(1) [OF True s(1)] "2.prems" s by auto
  next
    case False
    then show ?thesis using "2.IH"(2) [OF False s(2)] "2.prems" s by auto
  qed
qed simp

theorem memory_drain_conserves:
  "case drain_memory job_type limit qm of (d, qm') \<Rightarrow>
     mset d + mset (qm_dead_letters qm') = mset (qm_dead_letters qm) \<and> length d \<le> limit \<and> qm_memory qm' = qm_memory qm"
  by (auto simp: drain_memory_def simp flip: mset_append dest: split_letters_conserve split: prod.splits)

subsection \<open>Concrete runs\<close>

definition demo_job :: "string \<Rightarrow> string \<Rightarrow> int \<Rightarrow> job" where
  "demo_job i ty p = \<lparr>jb_id = i, jb_type = ty, jb_payload = [], jb_priority = p, jb_scheduled_at = None, jb_created_at = 0,
     jb_retries = 0, jb_max_retries = 3, jb_error = None, jb_trace_id = []\<rparr>"

definition demo_redis_manager :: "time \<Rightarrow> queue_manager" where
  "demo_redis_manager = qm_init qf_default True"

definition two_dead_types :: job_view where
  "two_dead_types = empty_view\<lparr>jv_lists := (\<lambda>_. [])(''neryva:dead:a'' := [demo_job ''1'' ''a'' 0],
     ''neryva:dead:b'' := [demo_job ''2'' ''b'' 0, demo_job ''3'' ''b'' 0])\<rparr>"

lemmas demo_run = enqueue_def claim_idempotency_def push_job_def redis_enqueue_def demo_redis_manager_def qm_init_def qf_default_def
  demo_job_def queue_key_def scheduled_key_def queue_breaker_config_def cb_call_def cb_enter_def cb_init_def cb_default_config_def
  cb_record_success_def cb_record_failure_def raising_def mem_jobs_def empty_view_def truthy_str_def dequeue_def redis_dequeue_def
  move_scheduled_jobs_def queue_levels_def due_jobs_def pop_reply_of_def rbind_def rret_def drain_redis_def two_dead_types_def Let_def

text \<open>An idempotency key outlives a failed push: the first attempt claims the key, cannot push and reports a failure; the second
  reports success, and nothing was ever queued.\<close>

theorem failed_push_loses_keyed_job:
  "case enqueue (queue_store\<lparr>js_lpush := (\<lambda>k j v. (None, v))\<rparr>) 0 (Some ''order-1'') (demo_job ''a'' ''t'' 0) (demo_redis_manager 0) empty_view of
     (r1, qm1, v1) \<Rightarrow> (case enqueue queue_store 1 (Some ''order-1'') (demo_job ''a'' ''t'' 0) qm1 v1 of
       (r2, _, v2) \<Rightarrow> r1 = Some False \<and> r2 = Some True \<and> jv_lists v2 ''neryva:queue:default'' = [])"
  by (simp add: demo_run)

text \<open>\<open>timestamp()\<close> reads naive UTC as local time: on a host five hours behind UTC a job set for instant 10 is still waiting an hour later.\<close>

theorem scheduled_jobs_late_west_of_utc:
  "case enqueue queue_store 0 None ((demo_job ''a'' ''t'' 0)\<lparr>jb_scheduled_at := Some 10\<rparr>) (demo_redis_manager (-18000)) empty_view of
     (_, qm1, v1) \<Rightarrow> fst (dequeue queue_store 3610 1 qm1 v1) = TimedOut \<and> fst (dequeue queue_store 18010 1 qm1 v1) \<noteq> TimedOut"
  by (simp add: demo_run)

text \<open>Draining dead letters from Redis trims each key by up to the limit and then cuts the collected list: with a limit of two and two job types,
  two jobs leave Redis that are not returned.\<close>

theorem redis_drain_loses_jobs:
  "case drain_redis (mem_jobs (\<lambda>v. v) (\<lambda>v _. v) (\<lambda>_. [''neryva:dead:a'', ''neryva:dead:b''])) None 2 qf_default two_dead_types of
     (r, v) \<Rightarrow> map_option (map jb_id) r = Some [''1'', ''2''] \<and> jv_lists v ''neryva:dead:a'' = [] \<and> jv_lists v ''neryva:dead:b'' = []"
  by (simp add: demo_run)

definition two_levels :: job_view where
  "two_levels = empty_view\<lparr>jv_lists := (\<lambda>_. [])(''neryva:queue:default'' := [demo_job ''1'' ''a'' 0],
     ''neryva:queue:high'' := [demo_job ''3'' ''b'' 1, demo_job ''2'' ''b'' 1])\<rparr>"

theorem queue_serves_by_priority_witness:
  "fst (dequeue queue_store 0 1 (demo_redis_manager 0) two_levels) = Popped (demo_job ''2'' ''b'' 1)
   \<and> (\<exists>q. pq_take (abs_queue qf_default (fold (release 0) (queue_levels qf_default) two_levels)) = Some (demo_job ''2'' ''b'' 1, q))"
proof -
  have d: "fst (dequeue queue_store 0 1 (demo_redis_manager 0) two_levels) = Popped (demo_job ''2'' ''b'' 1)"
    by (simp add: demo_run two_levels_def)
  then obtain qm' w' where e: "dequeue queue_store 0 1 (demo_redis_manager 0) two_levels = (Popped (demo_job ''2'' ''b'' 1), qm', w')"
    by (metis prod.collapse)
  have "pop_laws queue_store (\<lambda>v. v)" by (rule mem_jobs_laws) simp
  from queue_serves_by_priority [OF this _ _ _ e] d show ?thesis
    by (auto simp: two_levels_def empty_view_def sched_ok_def demo_redis_manager_def qm_init_def)
qed

definition demo_handlers :: "unit handlers" where
  "demo_handlers = register_handler ''ok'' (\<lambda>p s. (Inr (), s)) (register_handler ''bad'' (\<lambda>p s. (Inl ''no'', s)) Map.empty)"

definition demo_memory_manager :: queue_manager where
  "demo_memory_manager = (qm_init qf_default False 0)\<lparr>qm_memory := [demo_job ''1'' ''ok'' 0, demo_job ''2'' ''bad'' 0]\<rparr>"

theorem once_mode_drains_memory_witness:
  "\<exists>qm' w' trace ls. drain_once (mem_jobs (\<lambda>_. empty_view) (\<lambda>_ u. u) (\<lambda>_. [])) demo_handlers (\<lambda>_. False) (\<lambda>_. 0) 0 demo_memory_manager ()
       = Some (qm', w') \<and> qm_memory qm' = [] \<and> qm_dead_letters qm' = ls \<and> {#''1'', ''2''#} = finished trace + mset (map jb_id ls)"
proof -
  have l: "leaves_queue demo_handlers" by (auto simp: leaves_queue_def demo_handlers_def register_handler_def split: if_splits)
  have c: "\<not> qm_connected demo_memory_manager" and m: "mset (map jb_id (qm_memory demo_memory_manager)) = {#''1'', ''2''#}"
    and d: "qm_dead_letters demo_memory_manager = []"
    by (simp_all add: demo_memory_manager_def qm_init_def demo_job_def)
  from once_mode_drains_memory [OF l, of "\<lambda>_. False" _ _ _ 0 "()", OF _ c] show ?thesis unfolding m d by fastforce
qed

theorem once_mode_hangs_on_redis_witness:
  "drain_once queue_store Map.empty (\<lambda>_. False) (\<lambda>_. 0) 0 (demo_redis_manager 0)
     (empty_view\<lparr>jv_lists := (\<lambda>_. [])(''neryva:queue:default'' := [demo_job ''1'' ''a'' 0])\<rparr>) = None"
proof -
  have "pop_laws queue_store (\<lambda>v. v)" by (rule mem_jobs_laws) simp
  from once_mode_hangs_on_redis [OF this mem_jobs_return] show ?thesis
    by (simp add: demo_redis_manager_def qm_init_def cb_init_def qf_default_def empty_view_def)
qed

end
