(* ===== verification/Py_Text.thy ===== *)
theory Py_Text
  imports Prelude
begin

text \<open>
  More of Python's text functions: splitting at every occurrence of a character, and reading an integer as \<open>int(text)\<close> does
  (surrounding white space, a sign, decimal digits with single underscores between them).
\<close>

fun py_split :: "char \<Rightarrow> string \<Rightarrow> string list" where
  "py_split c [] = [[]]"
| "py_split c (x # xs) = (if x = c then [] # py_split c xs else (x # hd (py_split c xs)) # tl (py_split c xs))"

definition is_digit :: "char \<Rightarrow> bool" where
  "is_digit c = (let n = (of_char c :: nat) in 48 \<le> n \<and> n \<le> 57)"

definition digit_value :: "char \<Rightarrow> nat" where
  "digit_value c = of_char c - 48"

fun int_digits :: "nat \<Rightarrow> string \<Rightarrow> nat option" where
  "int_digits acc [] = Some acc"
| "int_digits acc (c # cs) =
     (if is_digit c then int_digits (acc * 10 + digit_value c) cs
      else if c = CHR ''_'' \<and> cs \<noteq> [] \<and> is_digit (hd cs) then int_digits acc cs else None)"

definition unsigned_int :: "string \<Rightarrow> nat option" where
  "unsigned_int s = (if s \<noteq> [] \<and> is_digit (hd s) then int_digits 0 s else None)"

definition py_int :: "string \<Rightarrow> int option" where
  "py_int s = (case py_strip s of
     [] \<Rightarrow> None
   | c # cs \<Rightarrow> if c = CHR ''-'' then map_option (\<lambda>n. - int n) (unsigned_int cs)
       else if c = CHR ''+'' then map_option int (unsigned_int cs)
       else map_option int (unsigned_int (c # cs)))"

section \<open>Lemmas\<close>

lemma py_split_not_Nil [simp]: "py_split c s \<noteq> []"
  by (cases s) auto

lemma py_split_no_sep: "c \<notin> set s \<Longrightarrow> py_split c s = [s]"
  by (induction s) auto

lemma py_split_append_sep: "c \<notin> set p \<Longrightarrow> py_split c (p @ c # s) = p # py_split c s"
  by (induction p) auto

lemma py_split_join: "ps \<noteq> [] \<Longrightarrow> (\<And>p. p \<in> set ps \<Longrightarrow> c \<notin> set p) \<Longrightarrow> py_split c (py_join [c] ps) = ps"
proof (induction "[c]" ps rule: py_join.induct)
  case (3 x y ys)
  then show ?case using py_split_append_sep [of c x "py_join [c] (y # ys)"] by simp
qed (simp_all add: py_split_no_sep)

lemma py_join_split: "py_join [c] (py_split c s) = s"
proof (induction s)
  case (Cons x xs)
  obtain p ps where "py_split c xs = p # ps" using py_split_not_Nil [of c xs] by (meson neq_Nil_conv)
  then show ?case using Cons.IH by (cases ps) auto
qed simp

lemma py_split_parts: "p \<in> set (py_split c s) \<Longrightarrow> c \<notin> set p"
proof (induction s arbitrary: p)
  case (Cons x xs)
  obtain q qs where "py_split c xs = q # qs" using py_split_not_Nil [of c xs] by (meson neq_Nil_conv)
  then show ?case using Cons by (auto split: if_splits)
qed simp

lemma digit_char: "d < 10 \<Longrightarrow> is_digit (char_of (48 + d)) \<and> digit_value (char_of (48 + d)) = d"
  by (simp add: is_digit_def digit_value_def)

lemma digit_not_other:
  assumes "is_digit c" shows "c \<noteq> CHR ''-''" "c \<noteq> CHR ''+''" "c \<noteq> CHR '','' " "c \<noteq> CHR ''.''" "c \<noteq> CHR ''=''" "\<not> is_space c"
  using assms by (auto simp: is_digit_def is_space_def Let_def)

lemma py_str_nat_digits: "c \<in> set (py_str_nat n) \<Longrightarrow> is_digit c"
  by (induction n rule: py_str_nat.induct)
     (subst (asm) py_str_nat.simps, auto simp: digit_char split: if_splits)

lemma py_str_nat_not_Nil [simp]: "py_str_nat n \<noteq> []"
  by (subst py_str_nat.simps) simp

lemma int_digits_append:
  "(\<And>c. c \<in> set xs \<Longrightarrow> is_digit c) \<Longrightarrow> int_digits acc (xs @ ys) = Option.bind (int_digits acc xs) (\<lambda>n. int_digits n ys)"
  by (induction xs arbitrary: acc) auto

lemma int_digits_str_nat: "int_digits 0 (py_str_nat n) = Some n"
proof (induction n rule: py_str_nat.induct)
  case (1 n)
  show ?case
  proof (cases "n < 10")
    case True
    then show ?thesis by (subst py_str_nat.simps) (simp add: digit_char)
  next
    case False
    then have "int_digits 0 (py_str_nat n) = Option.bind (int_digits 0 (py_str_nat (n div 10))) (\<lambda>m. int_digits m [char_of (48 + n mod 10)])"
      by (subst py_str_nat.simps) (simp only: if_False int_digits_append py_str_nat_digits)
    then show ?thesis using 1 False digit_char [of "n mod 10"] by simp
  qed
qed

lemma unsigned_int_str_nat [simp]: "unsigned_int (py_str_nat n) = Some n"
  using py_str_nat_digits [of "hd (py_str_nat n)" n] by (simp add: unsigned_int_def int_digits_str_nat)

lemma strip_no_space:
  assumes "s \<noteq> []" "\<And>c. c \<in> set s \<Longrightarrow> \<not> is_space c" shows "py_strip s = s"
proof -
  have "dropWhile is_space t = t" if "t \<noteq> []" "\<And>c. c \<in> set t \<Longrightarrow> \<not> is_space c" for t
    using that by (cases t) auto
  from this [of s] this [of "rev s"] assms show ?thesis by (simp add: py_strip_def)
qed

lemma py_str_int_chars: "c \<in> set (py_str_int n) \<Longrightarrow> is_digit c \<or> c = CHR ''-''"
  by (auto simp: py_str_int_def dest: py_str_nat_digits split: if_splits)

lemma py_str_int_no_sep [simp]:
  "CHR '','' \<notin> set (py_str_int n)" "CHR ''.'' \<notin> set (py_str_int n)" "CHR ''='' \<notin> set (py_str_int n)"
  using py_str_int_chars digit_not_other by fastforce+

lemma py_int_str_int [simp]: "py_int (py_str_int n) = Some n"
proof -
  have "\<not> is_space c" if "c \<in> set (py_str_int n)" for c
    using py_str_int_chars [OF that] digit_not_other(6) by (auto simp: is_space_def)
  moreover have "py_str_int n \<noteq> []" by (simp add: py_str_int_def)
  ultimately have s: "py_strip (py_str_int n) = py_str_int n" by (intro strip_no_space)
  show ?thesis
  proof (cases "n < 0")
    case True
    then show ?thesis by (simp add: py_int_def s) (simp add: py_str_int_def)
  next
    case False
    obtain c cs where c: "py_str_nat (nat n) = c # cs" using py_str_nat_not_Nil by (metis neq_Nil_conv)
    then have "is_digit c" using py_str_nat_digits [of c "nat n"] by simp
    moreover have "py_strip (c # cs) = c # cs" using s False c by (simp add: py_str_int_def)
    ultimately show ?thesis using False c unsigned_int_str_nat [of "nat n"] digit_not_other(1,2) by (auto simp: py_int_def py_str_int_def)
  qed
qed

end
