(* ===== verification/Totp.thy ===== *)
theory Totp
  imports Py_Text "HOL-Library.Word"
begin

text \<open>
  Time-based one-time passwords (\<open>modules/security/totp.py\<close>) on machine words. HMAC-SHA1 is a parameter; its digests are twenty
  bytes long. Base32 decoding and the packing of the counter are those of \<open>base64\<close> and \<open>struct\<close>.
\<close>

unbundle bit_operations_syntax

section \<open>Definitions\<close>

type_synonym byte = "8 word"

definition period_seconds :: int where
  "period_seconds = 30"

definition code_digits :: nat where
  "code_digits = 6"

text \<open>\<open>base64.b32decode\<close>: letters A to Z and digits 2 to 7; only whole groups of eight characters, with 0, 1, 3, 4 or 6 of
  them padding.\<close>

definition b32_value :: "char \<Rightarrow> nat option" where
  "b32_value c = (let n = (of_char c :: nat)
     in if 65 \<le> n \<and> n \<le> 90 then Some (n - 65) else if 50 \<le> n \<and> n \<le> 55 then Some (n - 24) else None)"

definition bits_of :: "nat \<Rightarrow> nat \<Rightarrow> bool list" where
  "bits_of k n = map (\<lambda>i. odd (n div 2 ^ (k - 1 - i))) [0..<k]"

fun nat_of_bits :: "nat \<Rightarrow> bool list \<Rightarrow> nat" where
  "nat_of_bits acc [] = acc"
| "nat_of_bits acc (b # bs) = nat_of_bits (2 * acc + (if b then 1 else 0)) bs"

function bytes_of_bits :: "bool list \<Rightarrow> byte list" where
  "bytes_of_bits bs = (if length bs < 8 then [] else of_nat (nat_of_bits 0 (take 8 bs)) # bytes_of_bits (drop 8 bs))"
  by pat_completeness auto
termination by (relation "measure length") auto

declare bytes_of_bits.simps [simp del]

definition b32decode :: "string \<Rightarrow> byte list option" where
  "b32decode s =
     (let core = rev (dropWhile (\<lambda>c. c = CHR ''='') (rev s)); pad = length s - length core
      in if length s mod 8 \<noteq> 0 \<or> pad \<notin> {0, 1, 3, 4, 6} \<or> list_ex (\<lambda>c. b32_value c = None) core then None
         else Some (bytes_of_bits (concat (map (\<lambda>c. bits_of 5 (the (b32_value c))) core))))"

definition key_from_b32 :: "string \<Rightarrow> byte list option" where
  "key_from_b32 secret =
     (let s = py_upper (py_strip secret)
      in b32decode (s @ replicate (nat ((- int (length s)) mod 8)) (CHR ''='')))"

text \<open>\<open>struct.pack(">Q", counter)\<close>, which refuses a negative counter and one of more than 64 bits.\<close>

definition pack_counter :: "int \<Rightarrow> byte list option" where
  "pack_counter n = (if 0 \<le> n \<and> n < 2 ^ 64 then Some (map (\<lambda>i. of_int (n div 256 ^ (7 - i))) [0..<8]) else None)"

definition zfill :: "nat \<Rightarrow> string \<Rightarrow> string" where
  "zfill n s = replicate (n - length s) (CHR ''0'') @ s"

text \<open>The dynamic truncation of a digest, \<open>struct.unpack(">I", \<dots>)\<close> included.\<close>

definition unpack_u32 :: "byte list \<Rightarrow> 32 word" where
  "unpack_u32 bs = fold (\<lambda>b acc. push_bit 8 acc OR ucast b) bs 0"

definition digest_code :: "byte list \<Rightarrow> nat \<Rightarrow> nat" where
  "digest_code digest digits =
     (let offset = unat (last digest AND 0x0F)
      in unat (unpack_u32 (take 4 (drop offset digest)) AND 0x7FFFFFFF) mod 10 ^ digits)"

definition hotp :: "(byte list \<Rightarrow> byte list \<Rightarrow> byte list) \<Rightarrow> byte list \<Rightarrow> int \<Rightarrow> nat \<Rightarrow> string option" where
  "hotp hmac key counter digits =
     (case pack_counter counter of
        None \<Rightarrow> None
      | Some msg \<Rightarrow> Some (zfill digits (py_str_nat (digest_code (hmac key msg) digits))))"

definition totp_code :: "(byte list \<Rightarrow> byte list \<Rightarrow> byte list) \<Rightarrow> string \<Rightarrow> int \<Rightarrow> rat \<Rightarrow> nat \<Rightarrow> string option" where
  "totp_code hmac secret drift now digits =
     (case key_from_b32 secret of
        None \<Rightarrow> None
      | Some key \<Rightarrow>
          hotp hmac key ((let q = now / of_int period_seconds in if 0 \<le> q then \<lfloor>q\<rfloor> else \<lceil>q\<rceil>) + drift) digits)"

text \<open>\<open>verify_totp\<close>; \<open>None\<close> is an exception (a secret that is not base32, or a counter before the epoch).\<close>

fun try_drifts :: "(int \<Rightarrow> string option) \<Rightarrow> string \<Rightarrow> int list \<Rightarrow> bool option" where
  "try_drifts f code [] = Some False"
| "try_drifts f code (d # ds) = (case f d of None \<Rightarrow> None | Some c \<Rightarrow> if c = code then Some True else try_drifts f code ds)"

definition verify_totp :: "(byte list \<Rightarrow> byte list \<Rightarrow> byte list) \<Rightarrow> string \<Rightarrow> string \<Rightarrow> nat \<Rightarrow> rat \<Rightarrow> bool option" where
  "verify_totp hmac secret code window now =
     (let c = py_strip code
      in if \<not> list_all is_digit c \<or> length c \<noteq> code_digits then Some False
         else try_drifts (\<lambda>d. totp_code hmac secret d now code_digits) c [- int window..int window])"

section \<open>Lemmas\<close>

lemma length_py_str_nat: "n < 10 ^ k \<Longrightarrow> 0 < k \<Longrightarrow> length (py_str_nat n) \<le> k"
proof (induction k arbitrary: n)
  case (Suc k)
  show ?case
  proof (cases "n < 10")
    case False
    then have "0 < k" using Suc.prems(1) by (cases k) auto
    moreover have "n div 10 < 10 ^ k" using Suc.prems(1) by (simp add: less_mult_imp_div_less mult.commute)
    ultimately show ?thesis using Suc.IH [of "n div 10"] False by (subst py_str_nat.simps) simp
  qed (subst py_str_nat.simps, simp)
qed simp

lemma zero_digit: "is_digit (CHR ''0'')"
  by (simp add: is_digit_def)

lemma zfill_digits: "list_all is_digit s \<Longrightarrow> list_all is_digit (zfill n s)"
  by (auto simp: zfill_def list_all_iff zero_digit)

lemma length_zfill: "length s \<le> n \<Longrightarrow> length (zfill n s) = n"
  by (simp add: zfill_def)

lemma hotp_shape:
  assumes "hotp hmac key counter digits = Some code" "0 < digits"
  shows "length code = digits \<and> list_all is_digit code"
proof -
  obtain msg where c: "code = zfill digits (py_str_nat (digest_code (hmac key msg) digits))"
    using assms(1) by (auto simp: hotp_def split: option.splits)
  have "digest_code (hmac key msg) digits < 10 ^ digits" by (simp add: digest_code_def Let_def)
  then have "length (py_str_nat (digest_code (hmac key msg) digits)) \<le> digits" using length_py_str_nat assms(2) by blast
  moreover have "list_all is_digit (py_str_nat n)" for n using py_str_nat_digits by (auto simp: list_all_iff)
  ultimately show ?thesis unfolding c by (simp add: length_zfill zfill_digits)
qed

lemma try_drifts_iff:
  "(\<And>d. d \<in> set ds \<Longrightarrow> f d \<noteq> None) \<Longrightarrow> try_drifts f code ds = Some (\<exists>d\<in>set ds. f d = Some code)"
  by (induction ds) (auto split: option.splits)

lemma digit_strip: "list_all is_digit c \<Longrightarrow> c \<noteq> [] \<Longrightarrow> py_strip c = c"
  by (rule strip_no_space) (auto simp: list_all_iff digit_not_other)

section \<open>Properties\<close>

text \<open>C38: A code is six decimal digits, whatever the digest: the truncation reads four bytes inside a twenty-byte digest at every
  offset it can compute.\<close>

theorem totp_code_shape:
  assumes "totp_code hmac secret drift now code_digits = Some code" "\<forall>k m. length (hmac k m) = 20"
  shows "length code = 6 \<and> list_all is_digit code \<and> unat (last (hmac key msg) AND 0x0F) + 4 \<le> length (hmac key msg)"
proof -
  have "length code = 6 \<and> list_all is_digit code"
    using assms(1) hotp_shape by (fastforce simp: totp_code_def code_digits_def split: option.splits)
  moreover have "unat (last (hmac key msg) AND 0x0F) \<le> 15"
    using word_and_le1 [of "last (hmac key msg)" "0x0F"] by (simp add: word_le_nat_alt)
  moreover have "length (hmac key msg) = 20" using assms(2) by blast
  ultimately show ?thesis by simp
qed

text \<open>Verification accepts exactly the codes of the steps within the window around the current one, written with or without white
  space around them.\<close>

theorem totp_accepts_window:
  assumes "key_from_b32 secret = Some key" "of_int period_seconds * of_nat window \<le> now" "now < 2 ^ 60"
    and "window < 2 ^ 60" "list_all is_digit code" "length code = code_digits"
  shows "verify_totp hmac secret code window now = Some (\<exists>d. \<bar>d\<bar> \<le> int window \<and> totp_code hmac secret d now code_digits = Some code)"
proof -
  let ?q = "\<lfloor>now / of_int period_seconds\<rfloor>"
  have pos: "of_nat window \<le> now / of_int period_seconds" using assms(2) by (simp add: period_seconds_def field_simps)
  then have low: "int window \<le> ?q" by (simp add: le_floor_iff)
  have "now / of_int period_seconds \<le> now" using assms(2) order_trans [OF _ assms(2), of 0] by (simp add: period_seconds_def)
  then have high: "?q < 2 ^ 60" using assms(3) by (simp add: floor_less_iff)
  have q: "(if 0 \<le> now / of_int period_seconds then ?q else \<lceil>now / of_int period_seconds\<rceil>) = ?q"
    using pos order_trans [of 0 "of_nat window :: rat"] by auto
  have "totp_code hmac secret d now code_digits \<noteq> None" if "d \<in> set [- int window..int window]" for d
  proof -
    have "0 \<le> ?q + d" "d < 2 ^ 60" using that low assms(4) by auto
    moreover have "?q + d < 2 ^ 60 + 2 ^ 60" using high \<open>d < 2 ^ 60\<close> by (rule add_strict_mono)
    ultimately have "0 \<le> ?q + d" "?q + d < 2 ^ 64" by simp_all
    then show ?thesis using assms(1) q by (simp add: totp_code_def hotp_def pack_counter_def Let_def)
  qed
  then have "try_drifts (\<lambda>d. totp_code hmac secret d now code_digits) code [- int window..int window]
      = Some (\<exists>d\<in>set [- int window..int window]. totp_code hmac secret d now code_digits = Some code)"
    by (rule try_drifts_iff)
  moreover have "py_strip code = code" using assms(5,6) by (intro digit_strip) (auto simp: code_digits_def)
  ultimately show ?thesis using assms(5,6) by (auto simp: verify_totp_def Let_def abs_le_iff)
qed

text \<open>The truncation example of RFC 4226.\<close>

definition rfc_digest :: "byte list" where
  "rfc_digest = [0x1f, 0x86, 0x98, 0x69, 0x0e, 0x02, 0xca, 0x16, 0x61, 0x85, 0x50, 0xef, 0x7f, 0x19, 0xda, 0x8e, 0x94, 0x5b, 0x55, 0x5a]"

lemma rfc_truncation: "zfill code_digits (py_str_nat (digest_code rfc_digest code_digits)) = ''872921''"
  by (simp add: rfc_digest_def digest_code_def unpack_u32_def code_digits_def zfill_def py_str_nat.simps char_of_def bit_0)

lemma demo_key_decodes: "key_from_b32 ''mzxw6ytb'' = Some [102, 111, 111, 98, 97]"
  by (simp add: key_from_b32_def py_strip_def py_upper_def upper_char_code is_space_code b32decode_def b32_value_def bits_of_def
        upt_rec bytes_of_bits.simps Let_def)

lemma demo_code: "totp_code (\<lambda>_ _. rfc_digest) ''mzxw6ytb'' 0 59 code_digits = Some ''872921''"
  using rfc_truncation by (simp add: totp_code_def demo_key_decodes hotp_def pack_counter_def period_seconds_def)

theorem totp_code_shape_witness:
  "\<exists>code. totp_code (\<lambda>_ _. rfc_digest) ''mzxw6ytb'' 0 59 code_digits = Some code \<and> length code = 6 \<and> list_all is_digit code
     \<and> unat (last rfc_digest AND 0x0F) + 4 \<le> length rfc_digest"
  using totp_code_shape [OF demo_code] demo_code by (simp add: rfc_digest_def)

theorem totp_accepts_window_witness:
  "verify_totp (\<lambda>_ _. rfc_digest) ''mzxw6ytb'' ''872921'' 1 59 = Some True"
proof -
  note k = demo_key_decodes
  from demo_code have "\<exists>d. \<bar>d\<bar> \<le> int 1 \<and> totp_code (\<lambda>_ _. rfc_digest) ''mzxw6ytb'' d 59 code_digits = Some ''872921''" by (intro exI [of _ 0]) simp
  moreover have "list_all is_digit ''872921''" "length ''872921'' = code_digits" by (simp_all add: is_digit_def code_digits_def)
  ultimately show ?thesis using totp_accepts_window [OF k, of 1 59 "''872921''" "\<lambda>_ _. rfc_digest"] by (simp add: period_seconds_def)
qed

end
