(* ===== verification/Auth.thy ===== *)
theory Auth
  imports Totp Rate_Limiter Audit_Trail
begin

text \<open>
  Authentication of administrators: API keys, roles and tenant scope (\<open>api/dependencies/auth.py\<close>), operator sessions minted
  by single sign-on (\<open>api/routes/operator_auth.py\<close>, \<open>modules/sso/oidc.py\<close>), the second factor, and the two repositories
  (\<open>ApiKeyRepository\<close>, \<open>OperatorSessionRepository\<close>). SHA-256, the HMACs, encryption, random tokens, clocks and the identity
  provider are parameters. An HTTP error is its status and detail (the \<open>Retry-After\<close> header of a
  429 is left out). A tenant id in a row is the canonical text of a UUID, so that \<open>UUID(...)\<close> of it is the text itself. Calls of the audit repository are collected as requests. The
  usage counter that a resolved key schedules in the background is not represented.
\<close>

section \<open>Definitions\<close>

subsection \<open>Roles\<close>

definition ROLE_SUPER_ADMIN :: string where "ROLE_SUPER_ADMIN = ''super_admin''"
definition ROLE_TENANT_ADMIN :: string where "ROLE_TENANT_ADMIN = ''tenant_admin''"
definition ROLE_OPERATOR :: string where "ROLE_OPERATOR = ''operator''"
definition ROLE_AUDITOR :: string where "ROLE_AUDITOR = ''auditor''"

definition role_permissions :: "(string \<times> string list) list" where
  "role_permissions =
     [(ROLE_SUPER_ADMIN,
       [''tenants:read'', ''tenants:write'', ''conversations:read'', ''conversations:write'', ''api_keys:manage'', ''audit:read'',
        ''escalations:read'', ''escalations:write'', ''webhooks:read'', ''webhooks:write'', ''knowledge:write'', ''evals:run'',
        ''policies:read'', ''policies:write'', ''models:read'', ''models:write'', ''evals:read'', ''billing:read'',
        ''tools:read'', ''tools:write'', ''prompts:read'', ''prompts:write'']),
      (ROLE_TENANT_ADMIN,
       [''tenants:read'', ''conversations:read'', ''conversations:write'', ''escalations:read'', ''escalations:write'',
        ''webhooks:read'', ''webhooks:write'', ''knowledge:write'', ''evals:run'', ''api_keys:manage'', ''policies:read'',
        ''policies:write'', ''models:read'', ''models:write'', ''evals:read'', ''billing:read'', ''tools:read'', ''tools:write'',
        ''prompts:read'', ''prompts:write'']),
      (ROLE_OPERATOR, [''conversations:read'', ''escalations:read'', ''escalations:write'']),
      (ROLE_AUDITOR, [''tenants:read'', ''audit:read''])]"

record principal =
  pr_key_id :: string
  pr_name :: string
  pr_role :: string
  pr_tenant_id :: "string option"
  pr_scopes :: "string list"

definition has_permission :: "principal \<Rightarrow> string \<Rightarrow> bool" where
  "has_permission p permission \<longleftrightarrow>
     permission \<in> set (get_or (map_of role_permissions (pr_role p)) []) \<or> ''*'' \<in> set (pr_scopes p)"

datatype http_error = Http nat string

abbreviation quoted :: "string \<Rightarrow> string" where
  "quoted s \<equiv> CHR 0x27 # s @ [CHR 0x27]"

definition require_permission :: "string \<Rightarrow> principal \<Rightarrow> http_error + principal" where
  "require_permission permission p =
     (if has_permission p permission then Inr p
      else Inl (Http 403 (''Role '' @ quoted (pr_role p) @ '' lacks permission '' @ quoted permission)))"

definition require_operator :: "principal \<Rightarrow> http_error + principal" where
  "require_operator p =
     (if pr_role p \<in> {ROLE_SUPER_ADMIN, ROLE_TENANT_ADMIN, ROLE_OPERATOR} then Inr p
      else Inl (Http 403 (''Role '' @ quoted (pr_role p) @ '' cannot access operator surfaces'')))"

text \<open>The tenant of a principal is a \<open>UUID\<close>. A route passes the tenant it is asked about either as a \<open>UUID\<close> or as text, and a
  \<open>UUID\<close> never equals a text.\<close>

datatype tenant_arg = UuidArg string | TextArg string

definition assert_tenant_access :: "principal \<Rightarrow> tenant_arg \<Rightarrow> http_error + unit" where
  "assert_tenant_access p t =
     (case pr_tenant_id p of
        None \<Rightarrow> Inr ()
      | Some u \<Rightarrow> if t = UuidArg u then Inr () else Inl (Http 403 ''API key is scoped to a different tenant''))"

subsection \<open>The tables\<close>

record api_key =
  ak_id :: string
  ak_name :: string
  ak_key_hash :: string
  ak_prefix :: string
  ak_role :: string
  ak_tenant_id :: "string option"
  ak_scopes :: "string list"
  ak_expires_at :: "time option"
  ak_revoked :: bool
  ak_last_used_at :: "time option"
  ak_usage_count :: int
  ak_mfa_secret :: "string option"
  ak_mfa_enabled :: bool
  ak_created_at :: time

record operator_session =
  op_id :: string
  op_token_hash :: string
  op_name :: string
  op_role :: string
  op_tenant_id :: "string option"
  op_scopes :: "string list"
  op_idp_sub :: "string option"
  op_auth_method :: string
  op_expires_at :: time
  op_revoked_at :: "time option"
  op_created_at :: time

record auth_db =
  ad_keys :: "api_key list"
  ad_sessions :: "operator_session list"
  ad_audit :: "audit_request list"

definition ak_get_by_hash :: "auth_db \<Rightarrow> string \<Rightarrow> api_key option" where
  "ak_get_by_hash db h = find (\<lambda>k. ak_key_hash k = h) (ad_keys db)"

definition ak_get_by_id :: "auth_db \<Rightarrow> string \<Rightarrow> api_key option" where
  "ak_get_by_id db i = find (\<lambda>k. ak_id k = i) (ad_keys db)"

text \<open>\<open>key_hash\<close> is unique and \<open>id\<close> is the primary key: \<open>None\<close> is the integrity error.\<close>

definition ak_create ::
  "string \<Rightarrow> time \<Rightarrow> string \<Rightarrow> string \<Rightarrow> string \<Rightarrow> string \<Rightarrow> string option \<Rightarrow> string list option \<Rightarrow> time option \<Rightarrow> auth_db \<Rightarrow> auth_db option" where
  "ak_create i now name key_hash prefix role tenant scopes expires db =
     (if list_ex (\<lambda>k. ak_id k = i \<or> ak_key_hash k = key_hash) (ad_keys db) then None
      else Some (db\<lparr>ad_keys := ad_keys db @ [\<lparr>ak_id = i, ak_name = name, ak_key_hash = key_hash, ak_prefix = prefix, ak_role = role,
        ak_tenant_id = tenant, ak_scopes = get_or scopes [], ak_expires_at = expires, ak_revoked = False, ak_last_used_at = None,
        ak_usage_count = 0, ak_mfa_secret = None, ak_mfa_enabled = False, ak_created_at = now\<rparr>]\<rparr>))"

text \<open>\<open>UPDATE api_keys SET \<dots> WHERE \<dots>\<close> and the number of rows it changed.\<close>

definition ak_update :: "(api_key \<Rightarrow> bool) \<Rightarrow> (api_key \<Rightarrow> api_key) \<Rightarrow> auth_db \<Rightarrow> nat \<times> auth_db" where
  "ak_update c f db = (length (filter c (ad_keys db)), db\<lparr>ad_keys := map (\<lambda>k. if c k then f k else k) (ad_keys db)\<rparr>)"

definition update_mfa :: "string \<Rightarrow> string option \<Rightarrow> bool \<Rightarrow> auth_db \<Rightarrow> bool \<times> auth_db" where
  "update_mfa i secret enabled db =
     (case ak_update (\<lambda>k. ak_id k = i) (\<lambda>k. k\<lparr>ak_mfa_secret := secret, ak_mfa_enabled := enabled\<rparr>) db of (n, db1) \<Rightarrow> (0 < n, db1))"

definition list_all_keys :: "auth_db \<Rightarrow> api_key list" where
  "list_all_keys db = py_sorted_desc ak_created_at (ad_keys db)"

definition ak_revoke :: "string \<Rightarrow> auth_db \<Rightarrow> bool \<times> auth_db" where
  "ak_revoke i db = (case ak_update (\<lambda>k. ak_id k = i) (\<lambda>k. k\<lparr>ak_revoked := True\<rparr>) db of (n, db1) \<Rightarrow> (0 < n, db1))"

definition revoke_all_for_tenant :: "string \<Rightarrow> auth_db \<Rightarrow> nat \<times> auth_db" where
  "revoke_all_for_tenant t db = ak_update (\<lambda>k. ak_tenant_id k = Some t \<and> \<not> ak_revoked k) (\<lambda>k. k\<lparr>ak_revoked := True\<rparr>) db"

definition touch_usage :: "string \<Rightarrow> time \<Rightarrow> auth_db \<Rightarrow> auth_db" where
  "touch_usage i now db =
     snd (ak_update (\<lambda>k. ak_id k = i) (\<lambda>k. k\<lparr>ak_last_used_at := Some now, ak_usage_count := ak_usage_count k + 1\<rparr>) db)"

definition apply_last_active_batch :: "(string \<times> int \<times> time) list \<Rightarrow> auth_db \<Rightarrow> nat \<times> auth_db" where
  "apply_last_active_batch entries db =
     (length entries,
      fold (\<lambda>(i, delta, ts) d. snd (ak_update (\<lambda>k. ak_id k = i \<and> \<not> ak_revoked k)
              (\<lambda>k. k\<lparr>ak_usage_count := ak_usage_count k + delta, ak_last_used_at := Some ts\<rparr>) d)) entries db)"

definition count_active :: "auth_db \<Rightarrow> nat" where
  "count_active db = length (filter (\<lambda>k. \<not> ak_revoked k) (ad_keys db))"

definition OPERATOR_TOKEN_PREFIX :: string where
  "OPERATOR_TOKEN_PREFIX = ''nry_ops_''"

definition op_create ::
  "(string \<Rightarrow> string) \<Rightarrow> string \<Rightarrow> string \<Rightarrow> time \<Rightarrow> time \<Rightarrow> string \<Rightarrow> string \<Rightarrow> string option \<Rightarrow> string list option \<Rightarrow> string option \<Rightarrow> string
     \<Rightarrow> auth_db \<Rightarrow> (string \<times> operator_session) option \<times> auth_db" where
  "op_create sha256 i random now ttl name role tenant scopes sub method db =
     (let raw = OPERATOR_TOKEN_PREFIX @ random;
          row = \<lparr>op_id = i, op_token_hash = sha256 raw, op_name = name, op_role = role, op_tenant_id = tenant,
                 op_scopes = (if get_or scopes [] = [] then [''*''] else the scopes), op_idp_sub = sub, op_auth_method = method,
                 op_expires_at = now + ttl, op_revoked_at = None, op_created_at = now\<rparr>
      in if list_ex (\<lambda>s. op_id s = i \<or> op_token_hash s = sha256 raw) (ad_sessions db) then (None, db)
         else (Some (raw, row), db\<lparr>ad_sessions := ad_sessions db @ [row]\<rparr>))"

definition op_get_by_hash :: "auth_db \<Rightarrow> string \<Rightarrow> operator_session option" where
  "op_get_by_hash db h = find (\<lambda>s. op_token_hash s = h) (ad_sessions db)"

definition op_revoke :: "string \<Rightarrow> time \<Rightarrow> auth_db \<Rightarrow> bool \<times> auth_db" where
  "op_revoke i now db =
     (list_ex (\<lambda>s. op_id s = i) (ad_sessions db),
      db\<lparr>ad_sessions := map (\<lambda>s. if op_id s = i then s\<lparr>op_revoked_at := Some now\<rparr> else s) (ad_sessions db)\<rparr>)"

definition op_list_active :: "nat \<Rightarrow> auth_db \<Rightarrow> operator_session list" where
  "op_list_active n db = take n (py_sorted_desc op_created_at (filter (\<lambda>s. op_revoked_at s = None) (ad_sessions db)))"

subsection \<open>Principals\<close>

record auth_env =
  av_auth_enabled :: bool
  av_api_key_header :: string
  av_sha256 :: "string \<Rightarrow> string"
  av_mfa_hmac :: "string \<Rightarrow> string"
  av_hmac_sha1 :: "byte list \<Rightarrow> byte list \<Rightarrow> byte list"
  av_proof_ttl :: time
  av_session_ttl :: time
  av_encrypt :: "string \<Rightarrow> string option"
  av_decrypt :: "string \<Rightarrow> string option"
  av_number_text :: "rat \<Rightarrow> string"

type_synonym headers = "string \<Rightarrow> string option"

definition principal_of_key :: "api_key \<Rightarrow> principal" where
  "principal_of_key k = \<lparr>pr_key_id = ak_id k, pr_name = ak_name k, pr_role = ak_role k,
     pr_tenant_id = (if truthy_str (ak_tenant_id k) then ak_tenant_id k else None), pr_scopes = ak_scopes k\<rparr>"

definition principal_of_session :: "operator_session \<Rightarrow> principal" where
  "principal_of_session s = \<lparr>pr_key_id = op_id s, pr_name = op_name s, pr_role = op_role s,
     pr_tenant_id = (if truthy_str (op_tenant_id s) then op_tenant_id s else None), pr_scopes = op_scopes s\<rparr>"

definition dev_principal :: principal where
  "dev_principal = \<lparr>pr_key_id = ''dev'', pr_name = ''development'', pr_role = ROLE_SUPER_ADMIN, pr_tenant_id = None, pr_scopes = [''*'']\<rparr>"

definition bearer_token :: "headers \<Rightarrow> string option" where
  "bearer_token hs =
     (let auth = get_or (hs ''Authorization'') []
      in if \<not> py_startswith ''Bearer '' auth then None
         else let token = py_strip (drop 7 auth) in if py_startswith OPERATOR_TOKEN_PREFIX token then Some token else None)"

text \<open>The checks on the row of an operator session and on the row of a key.\<close>

definition check_session :: "time \<Rightarrow> operator_session option \<Rightarrow> http_error + principal" where
  "check_session now r =
     (case r of
        None \<Rightarrow> Inl (Http 401 ''Invalid operator session'')
      | Some s \<Rightarrow> if op_revoked_at s \<noteq> None then Inl (Http 401 ''Operator session revoked'')
                  else if op_expires_at s < now then Inl (Http 401 ''Operator session expired'')
                  else Inr (principal_of_session s))"

definition auth_failure :: "api_key option \<Rightarrow> string \<Rightarrow> audit_request" where
  "auth_failure k reason = \<lparr>ar_action = ''auth.failure'', ar_resource_type = ''api_key'', ar_resource_id = map_option ak_id k,
     ar_tenant_id = None, ar_actor_type = ''api_key'', ar_actor_id = map_option ak_id k, ar_details = Some (JObj [(''reason'', JStr reason)])\<rparr>"

definition check_key :: "time \<Rightarrow> api_key option \<Rightarrow> auth_db \<Rightarrow> (http_error + principal) \<times> auth_db" where
  "check_key now r db =
     (let deny = (\<lambda>reason detail. (Inl (Http 401 detail), db\<lparr>ad_audit := ad_audit db @ [auth_failure r reason]\<rparr>))
      in case r of
           None \<Rightarrow> deny ''unknown_key'' ''Invalid API key''
         | Some k \<Rightarrow> if ak_revoked k then deny ''revoked'' ''API key revoked''
                     else if (case ak_expires_at k of Some e \<Rightarrow> e < now | None \<Rightarrow> False) then deny ''expired'' ''API key expired''
                     else (Inr (principal_of_key k), db))"

definition rate_limit_text :: "auth_env \<Rightarrow> rate_limit_error \<Rightarrow> string" where
  "rate_limit_text E e = (case e of RateLimitExceeded key limit reset_at \<Rightarrow>
     ''Rate limit exceeded for '' @ quoted key @ '': '' @ av_number_text E limit @ '' per window, resets at '' @ av_number_text E reset_at)"

definition get_principal ::
  "'w redis \<Rightarrow> auth_env \<Rightarrow> headers \<Rightarrow> time \<Rightarrow> time \<Rightarrow> auth_db \<Rightarrow> rate_limiter \<Rightarrow> 'w
     \<Rightarrow> (http_error + principal) \<times> auth_db \<times> rate_limiter \<times> 'w" where
  "get_principal R E hs now tick db rl w =
     (if \<not> av_auth_enabled E then (Inr dev_principal, db, rl, w)
      else if \<not> truthy_str (hs (av_api_key_header E))
      then (case bearer_token hs of
              None \<Rightarrow> (Inl (Http 401 (''Missing '' @ av_api_key_header E @ '' header'')), db, rl, w)
            | Some token \<Rightarrow>
                (case acquire_or_raise R rl (av_sha256 E token) 1 now tick w of
                   (Inl e, rl1, w1) \<Rightarrow> (Inl (Http 429 (rate_limit_text E e)), db, rl1, w1)
                 | (Inr _, rl1, w1) \<Rightarrow> (check_session now (op_get_by_hash db (av_sha256 E token)), db, rl1, w1)))
      else let h = av_sha256 E (the (hs (av_api_key_header E)))
           in case acquire_or_raise R rl h 1 now tick w of
                (Inl e, rl1, w1) \<Rightarrow> (Inl (Http 429 (rate_limit_text E e)), db, rl1, w1)
              | (Inr _, rl1, w1) \<Rightarrow> (case check_key now (ak_get_by_hash db h) db of (r, db1) \<Rightarrow> (r, db1, rl1, w1)))"

subsection \<open>The second factor\<close>

definition py_trunc :: "rat \<Rightarrow> int" where
  "py_trunc x = (if 0 \<le> x then \<lfloor>x\<rfloor> else \<lceil>x\<rceil>)"

definition sign_mfa_proof :: "auth_env \<Rightarrow> string \<Rightarrow> time \<Rightarrow> string" where
  "sign_mfa_proof E key_id expires =
     (let e = py_str_int (py_trunc expires)
      in py_join ''.'' [key_id, e, av_mfa_hmac E (key_id @ ''|'' @ e)])"

text \<open>\<open>datetime.fromtimestamp\<close> covers the years 1 to 9999.\<close>

definition verify_mfa_proof :: "auth_env \<Rightarrow> time \<Rightarrow> string \<Rightarrow> string \<Rightarrow> bool" where
  "verify_mfa_proof E now proof key_id =
     (case py_split (CHR ''.'') proof of
        [claimed, exp_part, _] \<Rightarrow>
          (if claimed \<noteq> key_id then False
           else case py_int exp_part of
                  None \<Rightarrow> False
                | Some n \<Rightarrow>
                    -62135596800 \<le> n \<and> n \<le> 253402300799
                    \<and> now \<le> of_int n \<and> of_int n \<le> now + av_proof_ttl E
                    \<and> sign_mfa_proof E key_id (of_int n) = proof)
      | _ \<Rightarrow> False)"

definition require_mfa_proof :: "auth_env \<Rightarrow> time \<Rightarrow> headers \<Rightarrow> auth_db \<Rightarrow> principal \<Rightarrow> http_error + principal" where
  "require_mfa_proof E now hs db p =
     (case ak_get_by_id db (pr_key_id p) of
        None \<Rightarrow> Inr p
      | Some k \<Rightarrow>
          if \<not> ak_mfa_enabled k then Inr p
          else let proof = get_or (hs ''X-MFA-Proof'') []
               in if proof = [] \<or> \<not> verify_mfa_proof E now proof (pr_key_id p) then Inl (Http 403 ''mfa_required'') else Inr p)"

definition mfa_audit :: "string \<Rightarrow> string \<Rightarrow> audit_request" where
  "mfa_audit action i = \<lparr>ar_action = action, ar_resource_type = ''api_key'', ar_resource_id = Some i, ar_tenant_id = None,
     ar_actor_type = ''api_key'', ar_actor_id = Some i, ar_details = None\<rparr>"

definition add_audit :: "audit_request \<Rightarrow> auth_db \<Rightarrow> auth_db" where
  "add_audit r db = db\<lparr>ad_audit := ad_audit db @ [r]\<rparr>"

text \<open>\<open>mfa_setup\<close>, with the secret it generated; \<open>mfa_confirm\<close>, \<open>mfa_proof\<close> and \<open>mfa_disable\<close>. An exception of \<open>verify_totp\<close> is
  an internal error.\<close>

definition mfa_setup :: "auth_env \<Rightarrow> string \<Rightarrow> principal \<Rightarrow> auth_db \<Rightarrow> (http_error + string) \<times> auth_db" where
  "mfa_setup E secret p db =
     (case require_operator p of
        Inl e \<Rightarrow> (Inl e, db)
      | Inr _ \<Rightarrow>
          (case ak_get_by_id db (pr_key_id p) of
             None \<Rightarrow> (Inl (Http 400 ''MFA is managed by the identity provider for this session''), db)
           | Some _ \<Rightarrow>
               (case av_encrypt E secret of
                  None \<Rightarrow> (Inl (Http 503 ''Secret encryption unavailable''), db)
                | Some enc \<Rightarrow> (Inr secret, snd (update_mfa (pr_key_id p) (Some enc) False db)))))"

definition check_code :: "auth_env \<Rightarrow> rat \<Rightarrow> string \<Rightarrow> string \<Rightarrow> http_error + unit" where
  "check_code E now stored code =
     (case av_decrypt E stored of
        None \<Rightarrow> Inl (Http 500 ''Stored MFA secret cannot be decrypted'')
      | Some secret \<Rightarrow>
          (case verify_totp (av_hmac_sha1 E) secret code 1 now of
             None \<Rightarrow> Inl (Http 500 ''Internal Server Error'')
           | Some False \<Rightarrow> Inl (Http 403 ''Invalid TOTP code'')
           | Some True \<Rightarrow> Inr ()))"

definition mfa_confirm :: "auth_env \<Rightarrow> rat \<Rightarrow> string \<Rightarrow> principal \<Rightarrow> auth_db \<Rightarrow> (http_error + unit) \<times> auth_db" where
  "mfa_confirm E now code p db =
     (case require_operator p of
        Inl e \<Rightarrow> (Inl e, db)
      | Inr _ \<Rightarrow>
          (case Option.bind (ak_get_by_id db (pr_key_id p)) ak_mfa_secret of
             None \<Rightarrow> (Inl (Http 400 ''No pending MFA enrollment''), db)
           | Some stored \<Rightarrow>
               if stored = [] then (Inl (Http 400 ''No pending MFA enrollment''), db)
               else (case check_code E now stored code of
                       Inl e \<Rightarrow> (Inl e, db)
                     | Inr _ \<Rightarrow> (Inr (), add_audit (mfa_audit ''mfa.enabled'' (pr_key_id p))
                                         (snd (update_mfa (pr_key_id p) (Some stored) True db))))))"

definition mfa_proof :: "auth_env \<Rightarrow> rat \<Rightarrow> string \<Rightarrow> principal \<Rightarrow> auth_db \<Rightarrow> http_error + string" where
  "mfa_proof E now code p db =
     (case require_operator p of
        Inl e \<Rightarrow> Inl e
      | Inr _ \<Rightarrow>
          (case ak_get_by_id db (pr_key_id p) of
             None \<Rightarrow> Inl (Http 400 ''MFA is not enabled for this key'')
           | Some k \<Rightarrow>
               if \<not> truthy_str (ak_mfa_secret k) \<or> \<not> ak_mfa_enabled k then Inl (Http 400 ''MFA is not enabled for this key'')
               else (case check_code E now (the (ak_mfa_secret k)) code of
                       Inl e \<Rightarrow> Inl e
                     | Inr _ \<Rightarrow> Inr (sign_mfa_proof E (pr_key_id p) (now + av_proof_ttl E)))))"

definition mfa_disable :: "auth_env \<Rightarrow> time \<Rightarrow> headers \<Rightarrow> principal \<Rightarrow> auth_db \<Rightarrow> (http_error + unit) \<times> auth_db" where
  "mfa_disable E now hs p db =
     (case require_operator p of
        Inl e \<Rightarrow> (Inl e, db)
      | Inr _ \<Rightarrow>
          (let cleared = snd (update_mfa (pr_key_id p) None False db)
           in case ak_get_by_id db (pr_key_id p) of
                None \<Rightarrow> (Inr (), cleared)
              | Some k \<Rightarrow>
                  if \<not> ak_mfa_enabled k then (Inr (), cleared)
                  else let proof = get_or (hs ''X-MFA-Proof'') []
                       in if proof = [] \<or> \<not> verify_mfa_proof E now proof (pr_key_id p) then (Inl (Http 403 ''mfa_required''), db)
                          else (Inr (), add_audit (mfa_audit ''mfa.disabled'' (pr_key_id p)) cleared)))"

definition mfa_status :: "principal \<Rightarrow> auth_db \<Rightarrow> bool \<times> bool" where
  "mfa_status p db = (case ak_get_by_id db (pr_key_id p) of None \<Rightarrow> (False, True) | Some k \<Rightarrow> (ak_mfa_enabled k, False))"

subsection \<open>Single sign-on\<close>

record oidc_settings =
  oc_enabled :: bool
  oc_discovery_url :: "string option"
  oc_client_id :: "string option"
  oc_client_secret :: "string option"
  oc_role_claim :: string
  oc_role_map :: "(string \<times> string) list"

text \<open>The errors of the client, and any other exception, which no handler of the flow catches.\<close>

datatype oidc_error = OidcError string | Uncaught string

text \<open>The identity provider and the codecs: replies of the discovery and token endpoints (status and JSON), the JSON behind a base64url part
  of a token, the HMAC check of a signature (\<open>None\<close> when it is not base64), and Python's \<open>str\<close>.\<close>

record 'w idp =
  id_discovery :: "'w \<Rightarrow> (nat \<times> json) \<times> 'w"
  id_token_endpoint :: "string \<Rightarrow> 'w \<Rightarrow> (nat \<times> json) \<times> 'w"
  id_decode_part :: "string \<Rightarrow> json option"
  id_hs256 :: "string \<Rightarrow> string \<Rightarrow> string \<Rightarrow> bool option"
  id_str :: "json \<Rightarrow> string"

record id_claims =
  ic_sub :: string
  ic_email :: "string option"
  ic_name :: "string option"
  ic_roles :: "string list"

definition require_configured :: "oidc_settings \<Rightarrow> oidc_error + unit" where
  "require_configured s =
     (if \<not> oc_enabled s \<or> \<not> truthy_str (oc_discovery_url s) then Inl (OidcError ''OIDC SSO is not configured on this deployment'')
      else if \<not> truthy_str (oc_client_id s) then Inl (OidcError ''OIDC_CLIENT_ID is not set'') else Inr ())"

text \<open>\<open>discovery\<close>; the document is cached in the client.\<close>

definition discovery :: "'w idp \<Rightarrow> oidc_settings \<Rightarrow> json option \<Rightarrow> 'w \<Rightarrow> (oidc_error + json) \<times> json option \<times> 'w" where
  "discovery I s cached w =
     (case require_configured s of
        Inl e \<Rightarrow> (Inl e, cached, w)
      | Inr _ \<Rightarrow>
          (case cached of
             Some d \<Rightarrow> (Inr d, cached, w)
           | None \<Rightarrow>
               (case id_discovery I w of
                  ((status, d), w1) \<Rightarrow>
                    if status \<noteq> 200 then (Inl (OidcError ''OIDC discovery failed''), None, w1)
                    else if list_ex (\<lambda>k. jget d k = None) [''issuer'', ''authorization_endpoint'', ''token_endpoint'', ''jwks_uri'']
                    then (Inl (OidcError ''OIDC discovery document missing''), None, w1)
                    else (Inr d, Some d, w1))))"

definition exchange_code :: "'w idp \<Rightarrow> oidc_settings \<Rightarrow> string \<Rightarrow> json option \<Rightarrow> 'w \<Rightarrow> (oidc_error + json) \<times> json option \<times> 'w" where
  "exchange_code I s code cached w =
     (case discovery I s cached w of
        (Inl e, c1, w1) \<Rightarrow> (Inl e, c1, w1)
      | (Inr _, c1, w1) \<Rightarrow>
          if \<not> truthy_str (oc_client_secret s) then (Inl (OidcError ''OIDC_CLIENT_SECRET is not set''), c1, w1)
          else (case id_token_endpoint I code w1 of
                  ((status, body), w2) \<Rightarrow>
                    if status \<noteq> 200 then (Inl (OidcError ''OIDC token endpoint returned an error''), c1, w2)
                    else (case jget body ''id_token'' of
                            None \<Rightarrow> (Inl (OidcError ''OIDC token response missing id_token''), c1, w2)
                          | Some t \<Rightarrow> if jtruthy t then (Inr t, c1, w2)
                                      else (Inl (OidcError ''OIDC token response missing id_token''), c1, w2))))"

definition extract_roles :: "'w idp \<Rightarrow> json \<Rightarrow> string \<Rightarrow> string list" where
  "extract_roles I claims claim_name =
     (case jget_or claims claim_name JNull of
        JStr s \<Rightarrow> filter (\<lambda>r. r \<noteq> []) (map py_strip (py_split (CHR '','') s))
      | JList xs \<Rightarrow> map (id_str I) (filter jtruthy xs)
      | _ \<Rightarrow> [])"

definition role_priority :: "string \<Rightarrow> nat" where
  "role_priority r = get_or (map_of [(''super_admin'', 4), (''tenant_admin'', 3), (''operator'', 2), (''auditor'', 1)] r) 0"

definition map_oidc_role :: "(string \<times> string) list \<Rightarrow> string list \<Rightarrow> string option" where
  "map_oidc_role role_map roles =
     fold (\<lambda>(idp_role, role) best.
             if idp_role \<in> set roles \<and> (best = None \<or> role_priority (the best) < role_priority role) then Some role else best)
       role_map None"

text \<open>\<open>_verify_rs256\<close> awaits \<open>self._jwks()\<close>, but the constructor has set the attribute \<open>_jwks\<close> to \<open>None\<close>, which hides the method: the call
  raises a \<open>TypeError\<close>.\<close>

definition verify_rs256 :: "oidc_error + unit" where
  "verify_rs256 = Inl (Uncaught ''TypeError: NoneType object is not callable'')"

definition verify_hs256 :: "'w idp \<Rightarrow> oidc_settings \<Rightarrow> string \<Rightarrow> string \<Rightarrow> oidc_error + unit" where
  "verify_hs256 I s signature content =
     (if \<not> truthy_str (oc_client_secret s) then Inl (OidcError ''HS256 id_token requires OIDC_CLIENT_SECRET'')
      else case id_hs256 I (the (oc_client_secret s)) content signature of
             None \<Rightarrow> Inl (Uncaught ''binascii.Error'')
           | Some False \<Rightarrow> Inl (OidcError ''id_token signature invalid'')
           | Some True \<Rightarrow> Inr ())"

definition claim_number :: "json option \<Rightarrow> rat option" where
  "claim_number j = (case j of Some (JInt n) \<Rightarrow> Some (of_int n) | Some (JNum x) \<Rightarrow> Some x
     | Some (JBool b) \<Rightarrow> Some (if b then 1 else 0) | _ \<Rightarrow> None)"

definition audience_has :: "string option \<Rightarrow> json option \<Rightarrow> oidc_error + bool" where
  "audience_has client aud =
     (case aud of
        None \<Rightarrow> Inr False
      | Some (JStr a) \<Rightarrow> Inr (Some a = client)
      | Some (JList xs) \<Rightarrow> Inr (client \<noteq> None \<and> JStr (the client) \<in> set xs)
      | Some (JObj kvs) \<Rightarrow> Inr (client \<noteq> None \<and> the client \<in> fst ` set kvs)
      | Some j \<Rightarrow> if jtruthy j then Inl (Uncaught ''TypeError'') else Inr False)"

definition claim_text :: "json \<Rightarrow> string \<Rightarrow> string option" where
  "claim_text j k = (case jget j k of Some (JStr s) \<Rightarrow> Some s | _ \<Rightarrow> None)"

text \<open>The checks after the signature, in their order: the times, then, with the issuer of the discovery document, the rest.\<close>

definition check_times :: "time \<Rightarrow> json \<Rightarrow> oidc_error + unit" where
  "check_times now claims =
     (if (case claim_number (jget claims ''exp'') of None \<Rightarrow> True | Some e \<Rightarrow> e < now) then Inl (OidcError ''id_token expired'')
      else if (case claim_number (jget claims ''iat'') of None \<Rightarrow> True | Some t \<Rightarrow> now + 300 < t) then Inl (OidcError ''id_token issued in the future'')
      else Inr ())"

definition check_claims :: "'w idp \<Rightarrow> oidc_settings \<Rightarrow> json \<Rightarrow> string option \<Rightarrow> json \<Rightarrow> oidc_error + id_claims" where
  "check_claims I s issuer nonce claims =
     (if jget_or claims ''iss'' JNull \<noteq> issuer then Inl (OidcError ''id_token issuer mismatch'')
      else case audience_has (oc_client_id s) (jget claims ''aud'') of
             Inl e \<Rightarrow> Inl e
           | Inr False \<Rightarrow> Inl (OidcError ''id_token audience mismatch'')
           | Inr True \<Rightarrow>
               if nonce \<noteq> None \<and> jget claims ''nonce'' \<noteq> map_option JStr nonce then Inl (OidcError ''id_token nonce mismatch'')
               else if \<not> jtruthy (jget_or claims ''sub'' JNull) then Inl (OidcError ''id_token missing sub'')
               else Inr \<lparr>ic_sub = id_str I (jget_or claims ''sub'' JNull), ic_email = claim_text claims ''email'', ic_name = claim_text claims ''name'',
                      ic_roles = extract_roles I claims (oc_role_claim s)\<rparr>)"

definition check_signature :: "'w idp \<Rightarrow> oidc_settings \<Rightarrow> json \<Rightarrow> string \<Rightarrow> string \<Rightarrow> oidc_error + unit" where
  "check_signature I s header signature content =
     (if jget header ''alg'' = Some (JStr ''RS256'') then verify_rs256
      else if jget header ''alg'' = Some (JStr ''HS256'') then verify_hs256 I s signature content
      else Inl (OidcError ''unsupported id_token alg''))"

definition verify_id_token ::
  "'w idp \<Rightarrow> oidc_settings \<Rightarrow> time \<Rightarrow> string option \<Rightarrow> string \<Rightarrow> json option \<Rightarrow> 'w \<Rightarrow> (oidc_error + id_claims) \<times> json option \<times> 'w" where
  "verify_id_token I s now nonce id_token cached w =
     (case py_split (CHR ''.'') id_token of
        [h, c, sig] \<Rightarrow>
          (case (id_decode_part I h, id_decode_part I c) of
             (Some header, Some claims) \<Rightarrow>
               (case check_signature I s header sig (h @ ''.'' @ c) of
                  Inl e \<Rightarrow> (Inl e, cached, w)
                | Inr _ \<Rightarrow>
                    (case check_times now claims of
                       Inl e \<Rightarrow> (Inl e, cached, w)
                     | Inr _ \<Rightarrow>
                         (case discovery I s cached w of
                            (Inl e, c1, w1) \<Rightarrow> (Inl e, c1, w1)
                          | (Inr d, c1, w1) \<Rightarrow> (check_claims I s (jget_or d ''issuer'' JNull) nonce claims, c1, w1))))
           | _ \<Rightarrow> (Inl (OidcError ''id_token not JSON''), cached, w))
      | _ \<Rightarrow> (Inl (OidcError ''malformed id_token''), cached, w))"

text \<open>The stores of the flow: a state with its nonce, a one-time code with what it stands for, both with an expiry.\<close>

record login =
  lg_sub :: string
  lg_name :: string
  lg_email :: "string option"
  lg_role :: string

record oidc_flow =
  fl_states :: "(string \<times> string \<times> time) list"
  fl_codes :: "(string \<times> login \<times> time) list"
  fl_discovery :: "json option"

definition prune_stores :: "time \<Rightarrow> oidc_flow \<Rightarrow> oidc_flow" where
  "prune_stores now f = f\<lparr>fl_states := filter (\<lambda>(k, v, t). \<not> t < now) (fl_states f), fl_codes := filter (\<lambda>(k, v, t). \<not> t < now) (fl_codes f)\<rparr>"

definition oidc_authorize ::
  "'w idp \<Rightarrow> oidc_settings \<Rightarrow> string \<Rightarrow> string \<Rightarrow> time \<Rightarrow> oidc_flow \<Rightarrow> 'w \<Rightarrow> (http_error + unit) \<times> oidc_flow \<times> 'w" where
  "oidc_authorize I s st nonce now f w =
     (case discovery I s (fl_discovery f) w of
        (Inl _, c1, w1) \<Rightarrow> (Inl (Http 404 ''OIDC unavailable''), f\<lparr>fl_discovery := c1\<rparr>, w1)
      | (Inr _, c1, w1) \<Rightarrow>
          (let f1 = prune_stores now (f\<lparr>fl_discovery := c1\<rparr>)
           in (Inr (), f1\<lparr>fl_states := AList.update st (nonce, now + 600) (fl_states f1)\<rparr>, w1)))"

datatype callback_result = LoginError string | LoginCode string | ServerError

definition oidc_callback ::
  "'w idp \<Rightarrow> oidc_settings \<Rightarrow> string \<Rightarrow> string option \<Rightarrow> string option \<Rightarrow> string option \<Rightarrow> time \<Rightarrow> oidc_flow \<Rightarrow> 'w
     \<Rightarrow> callback_result \<times> oidc_flow \<times> 'w" where
  "oidc_callback I s fresh code st error now f w =
     (if truthy_str error then (LoginError (the error), f, w)
      else let key = str_or st []; f0 = f\<lparr>fl_states := AList.delete key (fl_states f)\<rparr>
           in case map_of (fl_states f) key of
                None \<Rightarrow> (LoginError ''invalid_state'', f0, w)
              | Some (nonce, t) \<Rightarrow>
                  if t < now then (LoginError ''state_expired'', f0, w)
                  else if \<not> truthy_str code then (LoginError ''missing_code'', f0, w)
                  else (case exchange_code I s (the code) (fl_discovery f0) w of
                          (Inl (OidcError _), c1, w1) \<Rightarrow> (LoginError ''exchange_failed'', f0\<lparr>fl_discovery := c1\<rparr>, w1)
                        | (Inl (Uncaught _), c1, w1) \<Rightarrow> (ServerError, f0\<lparr>fl_discovery := c1\<rparr>, w1)
                        | (Inr t, c1, w1) \<Rightarrow>
                            (case t of
                               JStr tok \<Rightarrow>
                                 (case verify_id_token I s now (Some nonce) tok c1 w1 of
                                    (Inl (OidcError _), c2, w2) \<Rightarrow> (LoginError ''exchange_failed'', f0\<lparr>fl_discovery := c2\<rparr>, w2)
                                  | (Inl (Uncaught _), c2, w2) \<Rightarrow> (ServerError, f0\<lparr>fl_discovery := c2\<rparr>, w2)
                                  | (Inr claims, c2, w2) \<Rightarrow>
                                      (let f1 = f0\<lparr>fl_discovery := c2\<rparr>
                                       in case map_oidc_role (oc_role_map s) (ic_roles claims) of
                                            None \<Rightarrow> (LoginError ''role_denied'', f1, w2)
                                          | Some role \<Rightarrow>
                                              (let f2 = prune_stores now f1
                                               in (LoginCode fresh, f2\<lparr>fl_codes := AList.update fresh
                                                    (\<lparr>lg_sub = ic_sub claims, lg_name = str_or (ic_name claims) (str_or (ic_email claims) (ic_sub claims)),
                                                      lg_email = ic_email claims, lg_role = role\<rparr>, now + 60) (fl_codes f2)\<rparr>, w2))))
                             | _ \<Rightarrow> (ServerError, f0\<lparr>fl_discovery := c1\<rparr>, w1))))"

definition oidc_exchange ::
  "auth_env \<Rightarrow> string \<Rightarrow> string \<Rightarrow> string \<Rightarrow> time \<Rightarrow> oidc_flow \<Rightarrow> auth_db
     \<Rightarrow> (http_error + string \<times> operator_session) \<times> oidc_flow \<times> auth_db" where
  "oidc_exchange E i random code now f db =
     (let f1 = f\<lparr>fl_codes := AList.delete code (fl_codes f)\<rparr>; bad = (Inl (Http 401 ''Invalid or expired exchange code''), f1, db)
      in case map_of (fl_codes f) code of
           None \<Rightarrow> bad
         | Some (l, t) \<Rightarrow>
             if t < now then bad
             else (case op_create (av_sha256 E) i random now (av_session_ttl E) (lg_name l) (lg_role l) None None (Some (lg_sub l)) ''oidc'' db of
                     (None, db1) \<Rightarrow> (Inl (Http 500 ''Internal Server Error''), f1, db1)
                   | (Some (raw, row), db1) \<Rightarrow>
                       (Inr (raw, row), f1, add_audit \<lparr>ar_action = ''auth.oidc_login'', ar_resource_type = ''operator_session'',
                          ar_resource_id = Some (op_id row), ar_tenant_id = None, ar_actor_type = ''operator_session'', ar_actor_id = Some (op_id row),
                          ar_details = Some (JObj [(''idp_sub'', JStr (lg_sub l)), (''role'', JStr (lg_role l))])\<rparr> db1)))"

section \<open>Lemmas\<close>

lemma find_map_id:
  assumes "\<And>x. x \<in> set xs \<Longrightarrow> P (f x) = P x"
  shows "find P (map f xs) = map_option f (find P xs)"
  using assms by (induction xs) auto

lemma get_after_update_mfa:
  assumes "ak_get_by_id db i = Some k"
  shows "ak_get_by_id (snd (update_mfa i secret enabled db)) i = Some (k\<lparr>ak_mfa_secret := secret, ak_mfa_enabled := enabled\<rparr>)"
  using assms find_SomeD [OF assms [unfolded ak_get_by_id_def]]
  by (simp add: ak_get_by_id_def update_mfa_def ak_update_def find_map_id)

lemma check_key_Inr: "check_key now r db = (Inr p, db') \<Longrightarrow>
    db' = db \<and> (\<exists>k. r = Some k \<and> \<not> ak_revoked k \<and> (\<forall>e. ak_expires_at k = Some e \<longrightarrow> now \<le> e) \<and> p = principal_of_key k)"
  by (auto simp: check_key_def Let_def split: option.splits if_splits)

lemma check_session_Inr: "check_session now r = Inr p \<Longrightarrow>
    \<exists>s. r = Some s \<and> op_revoked_at s = None \<and> now \<le> op_expires_at s \<and> p = principal_of_session s"
  by (auto simp: check_session_def split: option.splits if_splits)

lemma proof_split:
  assumes "CHR ''.'' \<notin> set key_id" "\<And>m. CHR ''.'' \<notin> set (av_mfa_hmac E m)"
  shows "py_split (CHR ''.'') (sign_mfa_proof E key_id t)
     = [key_id, py_str_int (py_trunc t), av_mfa_hmac E (key_id @ ''|'' @ py_str_int (py_trunc t))]"
  unfolding sign_mfa_proof_def Let_def using assms by (intro py_split_join) auto

lemma py_trunc_of_int [simp]: "py_trunc (of_int n) = n"
  by (simp add: py_trunc_def)

lemma check_signature_Inr: "check_signature I s header sig content = Inr u \<Longrightarrow> id_hs256 I (the (oc_client_secret s)) content sig = Some True"
  by (auto simp: check_signature_def verify_rs256_def verify_hs256_def split: if_splits option.splits bool.splits)

lemma check_times_Inr: "check_times now claims = Inr u \<Longrightarrow> \<exists>e. claim_number (jget claims ''exp'') = Some e \<and> now \<le> e"
  by (auto simp: check_times_def split: if_splits option.splits)

lemma check_claims_Inr:
  "check_claims I s issuer nonce claims = Inr ic \<Longrightarrow>
     audience_has (oc_client_id s) (jget claims ''aud'') = Inr True \<and> (nonce \<noteq> None \<longrightarrow> jget claims ''nonce'' = map_option JStr nonce)
     \<and> ic_roles ic = extract_roles I claims (oc_role_claim s)"
  by (auto simp: check_claims_def split: if_splits sum.splits bool.splits)

lemma verify_id_token_Inr:
  assumes "verify_id_token I s now (Some nonce) tok cached w = (Inr ic, cached', w')"
  shows "\<exists>h c sig claims e. id_decode_part I c = Some claims \<and> id_hs256 I (the (oc_client_secret s)) (h @ ''.'' @ c) sig = Some True
    \<and> claim_number (jget claims ''exp'') = Some e \<and> now \<le> e \<and> jget claims ''nonce'' = Some (JStr nonce)
    \<and> audience_has (oc_client_id s) (jget claims ''aud'') = Inr True \<and> ic_roles ic = extract_roles I claims (oc_role_claim s)"
proof -
  obtain h c sig where p: "py_split (CHR ''.'') tok = [h, c, sig]"
    using assms by (auto simp: verify_id_token_def split: list.splits)
  obtain header claims where d: "id_decode_part I h = Some header" "id_decode_part I c = Some claims"
    using assms p by (auto simp: verify_id_token_def split: option.splits)
  obtain u where s1: "check_signature I s header sig (h @ ''.'' @ c) = Inr u"
    using assms p d by (auto simp: verify_id_token_def split: sum.splits)
  obtain v where s2: "check_times now claims = Inr v"
    using assms p d s1 by (auto simp: verify_id_token_def split: sum.splits)
  obtain issuer where s3: "check_claims I s issuer (Some nonce) claims = Inr ic"
    using assms p d s1 s2 by (auto simp: verify_id_token_def split: sum.splits prod.splits)
  obtain e where "claim_number (jget claims ''exp'') = Some e" "now \<le> e" using check_times_Inr [OF s2] by blast
  then show ?thesis using d(2) check_signature_Inr [OF s1] check_claims_Inr [OF s3]
    by (intro exI [of _ h] exI [of _ c] exI [of _ sig] exI [of _ claims] exI [of _ e]) simp
qed

section \<open>Properties\<close>

text \<open>C16: With authentication on, a request becomes a principal only through a row of the database that is neither revoked nor past its
  expiry: the key whose hash the request carries, or, without a key, the operator session of its bearer token. The principal has the
  row's role and scopes, and no audit row is written.\<close>

theorem principal_has_live_credential:
  assumes "get_principal R E hs now tick db rl w = (Inr p, db', rl', w')" "av_auth_enabled E"
  shows "db' = db \<and>
    ((\<exists>key k. hs (av_api_key_header E) = Some key \<and> ak_get_by_hash db (av_sha256 E key) = Some k \<and> \<not> ak_revoked k
        \<and> (case ak_expires_at k of None \<Rightarrow> True | Some e \<Rightarrow> now \<le> e) \<and> p = principal_of_key k)
     \<or> (\<exists>token s. bearer_token hs = Some token \<and> op_get_by_hash db (av_sha256 E token) = Some s \<and> op_revoked_at s = None
        \<and> now \<le> op_expires_at s \<and> p = principal_of_session s))"
proof (cases "truthy_str (hs (av_api_key_header E))")
  case True
  then obtain key where k: "hs (av_api_key_header E) = Some key" by (auto simp: truthy_str_def split: option.splits)
  then show ?thesis using assms True
    by (auto simp: get_principal_def Let_def dest!: check_key_Inr split: prod.splits sum.splits option.splits)
next
  case False
  then show ?thesis using assms
    by (auto simp: get_principal_def dest!: check_session_Inr split: prod.splits sum.splits option.splits)
qed

text \<open>A key that is unknown, revoked or expired is refused with 401, and exactly then one row goes to the audit trail.\<close>

theorem refused_keys_are_audited:
  assumes "get_principal R E hs now tick db rl w = (res, db', rl', w')" "av_auth_enabled E" "truthy_str (hs (av_api_key_header E))"
  shows "if \<exists>d. res = Inl (Http 401 d) then \<exists>r. db' = add_audit r db \<and> ar_action r = ''auth.failure'' else db' = db"
  using assms
  by (auto simp: get_principal_def Let_def check_key_def add_audit_def auth_failure_def split: prod.splits sum.splits option.splits if_splits)

text \<open>A one-time exchange code mints at most one session: whatever the first exchange returned, the next one with the same code is refused.\<close>

theorem exchange_code_used_once:
  assumes "oidc_exchange E i random code now f db = (res, f', db')"
  shows "oidc_exchange E i' random' code later f' db'' = (Inl (Http 401 ''Invalid or expired exchange code''), f', db'')"
proof -
  have "fl_codes f' = AList.delete code (fl_codes f)"
    using assms by (auto simp: oidc_exchange_def Let_def split: prod.splits option.splits if_splits)
  then show ?thesis by (simp add: oidc_exchange_def Let_def delete_conv' delete_idem)
qed

text \<open>C36: For a key id without a dot, the texts accepted as a proof of the second factor are exactly the tokens signed for this key whose expiry, a
  time a datetime can hold, is neither past nor later than the lifetime of a proof from now; no other text is accepted, not even the proof of
  another key or a signed one of a longer life.\<close>

theorem mfa_proof_accepted_iff_signed:
  assumes "CHR ''.'' \<notin> set key_id" "\<forall>m. CHR ''.'' \<notin> set (av_mfa_hmac E m)"
  shows "verify_mfa_proof E now proof key_id \<longleftrightarrow>
    (\<exists>n. proof = sign_mfa_proof E key_id (of_int n) \<and> now \<le> of_int n \<and> of_int n \<le> now + av_proof_ttl E
       \<and> -62135596800 \<le> n \<and> n \<le> 253402300799)" (is "?V \<longleftrightarrow> ?S")
proof
  assume ?V
  then show ?S by (auto simp: verify_mfa_proof_def split: list.splits option.splits if_splits)
next
  assume ?S
  then obtain n where n: "proof = sign_mfa_proof E key_id (of_int n)" "now \<le> of_int n" "of_int n \<le> now + av_proof_ttl E"
    "-62135596800 \<le> n" "n \<le> 253402300799" by blast
  have "py_split (CHR ''.'') proof = [key_id, py_str_int n, av_mfa_hmac E (key_id @ ''|'' @ py_str_int n)]"
    unfolding n(1) using proof_split [of key_id E "of_int n"] assms by simp
  then show ?V using n by (simp add: verify_mfa_proof_def)
qed

text \<open>C37: A session minted by single sign-on may do everything: it is stored without scopes, which the repository turns into the star, and the
  star satisfies every permission check, whatever role the identity provider's groups were mapped to.\<close>

theorem sso_session_passes_every_check:
  assumes "oidc_exchange E i random code now f db = (Inr (raw, row), f', db')"
    and "get_principal R E hs later tick db' rl w = (Inr p, db'', rl', w')" "av_auth_enabled E"
    and "\<not> truthy_str (hs (av_api_key_header E))" "bearer_token hs = Some raw"
  shows "pr_role p = op_role row \<and> require_permission permission p = Inr p"
proof -
  obtain l t where "map_of (fl_codes f) code = Some (l, t)"
    and c: "op_create (av_sha256 E) i random now (av_session_ttl E) (lg_name l) (lg_role l) None None (Some (lg_sub l)) ''oidc'' db = (Some (raw, row), db\<lparr>ad_sessions := ad_sessions db @ [row]\<rparr>)"
    and d: "ad_sessions db' = ad_sessions db @ [row]"
    using assms(1) by (auto simp: oidc_exchange_def op_create_def Let_def add_audit_def split: prod.splits option.splits if_splits)
  have r: "op_token_hash row = av_sha256 E raw" "op_scopes row = [''*'']" "\<not> list_ex (\<lambda>s. op_token_hash s = av_sha256 E raw) (ad_sessions db)"
    using c by (auto simp: op_create_def Let_def get_or_def list_ex_iff split: if_splits)
  then have "op_get_by_hash db' (av_sha256 E raw) = Some row"
    by (auto simp: op_get_by_hash_def d find_append list_ex_iff dest!: find_SomeD split: option.splits)
  then have "p = principal_of_session row"
    using assms(2-5) by (auto simp: get_principal_def dest!: check_session_Inr split: prod.splits sum.splits)
  then show ?thesis using r(2) by (simp add: principal_of_session_def require_permission_def has_permission_def)
qed

text \<open>Setting up a second factor again switches the active one off, without asking for it: after \<open>mfa_setup\<close> a key that had it enabled passes
  every privileged gate with no proof at all, though \<open>mfa_disable\<close> would have demanded one.\<close>

theorem mfa_setup_switches_factor_off:
  assumes "ak_get_by_id db (pr_key_id p) = Some k" "ak_mfa_enabled k" "require_operator p = Inr p" "av_encrypt E secret = Some enc"
  shows "fst (mfa_setup E secret p db) = Inr secret
    \<and> require_mfa_proof E now (\<lambda>_. None) db p = Inl (Http 403 ''mfa_required'')
    \<and> require_mfa_proof E now (\<lambda>_. None) (snd (mfa_setup E secret p db)) p = Inr p"
  using assms get_after_update_mfa [OF assms(1)]
  by (simp add: mfa_setup_def require_mfa_proof_def get_or_def)

text \<open>A login with an RS256 token always ends in a server error and never yields a code.\<close>

theorem rs256_login_never_works:
  assumes "oidc_callback I s fresh (Some code) st None now f w = (res, f', w')"
    and "exchange_code I s code (fl_discovery f) w = (Inr (JStr tok), c1, w1)"
    and "py_split (CHR ''.'') tok = [h, c, sig]" "id_decode_part I h = Some header" "id_decode_part I c \<noteq> None"
    and "jget header ''alg'' = Some (JStr ''RS256'')" "code \<noteq> []"
    and "map_of (fl_states f) (str_or st []) = Some (nonce, t)" "now \<le> t"
  shows "res = ServerError \<and> fl_codes f' = fl_codes f"
proof -
  have "verify_id_token I s now (Some nonce) tok c1 w1 = (Inl (Uncaught ''TypeError: NoneType object is not callable''), c1, w1)"
    using assms(3-6) by (auto simp: verify_id_token_def check_signature_def verify_rs256_def)
  then show ?thesis using assms(1,2,7-9)
    by (auto simp: oidc_callback_def truthy_str_def Let_def split: if_splits)
qed

text \<open>A code is handed out only for an unexpired state and a token that carries the state's nonce, the client's audience, a valid time span, a
  signature over the client secret, and a role that the map knows.\<close>

theorem login_code_needs_valid_token:
  assumes "oidc_callback I s fresh code st error now f w = (LoginCode fresh, f', w')"
  shows "\<exists>nonce t h c sig claims e.
    map_of (fl_states f) (str_or st []) = Some (nonce, t) \<and> now \<le> t
    \<and> id_decode_part I c = Some claims \<and> id_hs256 I (the (oc_client_secret s)) (h @ ''.'' @ c) sig = Some True
    \<and> claim_number (jget claims ''exp'') = Some e \<and> now \<le> e \<and> jget claims ''nonce'' = Some (JStr nonce)
    \<and> audience_has (oc_client_id s) (jget claims ''aud'') = Inr True
    \<and> map_oidc_role (oc_role_map s) (extract_roles I claims (oc_role_claim s)) \<noteq> None"
proof -
  have ne: "\<not> truthy_str error" using assms by (auto simp: oidc_callback_def)
  obtain nonce t where st: "map_of (fl_states f) (str_or st []) = Some (nonce, t)"
    using assms ne by (auto simp: oidc_callback_def Let_def split: option.splits)
  have t: "now \<le> t" "truthy_str code" using assms ne st by (auto simp: oidc_callback_def Let_def split: if_splits)
  obtain j c1 w1 where x: "exchange_code I s (the code) (fl_discovery f) w = (Inr j, c1, w1)"
    using assms ne st t by (auto simp: oidc_callback_def Let_def split: if_splits prod.splits sum.splits oidc_error.splits)
  obtain tok where j: "j = JStr tok"
    using assms ne st t x by (auto simp: oidc_callback_def Let_def split: if_splits json.splits)
  obtain ic c2 w2 where v: "verify_id_token I s now (Some nonce) tok c1 w1 = (Inr ic, c2, w2)"
    using assms ne st t x j by (auto simp: oidc_callback_def Let_def split: if_splits prod.splits sum.splits oidc_error.splits)
  have "map_oidc_role (oc_role_map s) (ic_roles ic) \<noteq> None"
    using assms ne st t x j v by (auto simp: oidc_callback_def Let_def split: if_splits option.splits)
  then show ?thesis using verify_id_token_Inr [OF v] st t(1) by metis
qed

subsection \<open>Witnesses\<close>

definition demo_auth :: auth_env where
  "demo_auth = \<lparr>av_auth_enabled = True, av_api_key_header = ''X-API-Key'', av_sha256 = (\<lambda>s. s), av_mfa_hmac = (\<lambda>m. ''ab''),
     av_hmac_sha1 = (\<lambda>_ _. rfc_digest), av_proof_ttl = 300, av_session_ttl = 3600, av_encrypt = Some, av_decrypt = Some, av_number_text = (\<lambda>_. ''1'')\<rparr>"

definition demo_limiter :: rate_limiter where
  "demo_limiter = \<lparr>rl_config = rl_default_config, rl_redis = False, rl_buckets = Map.empty, rl_degraded = False\<rparr>"

definition demo_key :: api_key where
  "demo_key = \<lparr>ak_id = ''k1'', ak_name = ''ops'', ak_key_hash = ''secret'', ak_prefix = ''s'', ak_role = ''operator'', ak_tenant_id = None,
     ak_scopes = [], ak_expires_at = Some 100, ak_revoked = False, ak_last_used_at = None, ak_usage_count = 0, ak_mfa_secret = Some ''me'',
     ak_mfa_enabled = True, ak_created_at = 0\<rparr>"

definition demo_auth_db :: auth_db where
  "demo_auth_db = \<lparr>ad_keys = [demo_key], ad_sessions = [], ad_audit = []\<rparr>"

definition demo_principal :: "(http_error + principal) \<times> auth_db \<times> rate_limiter \<times> store" where
  "demo_principal = get_principal sole_redis demo_auth [''X-API-Key'' \<mapsto> ''secret''] 10 10 demo_auth_db demo_limiter []"

lemmas demo_auth_defs = demo_auth_def demo_limiter_def demo_key_def demo_auth_db_def demo_principal_def get_principal_def acquire_or_raise_def
  rl_acquire_def memory_acquire_def bucket_take_def rl_default_config_def check_key_def ak_get_by_hash_def principal_of_key_def
  truthy_str_def get_or_def ak_get_by_id_def require_operator_def ROLE_SUPER_ADMIN_def ROLE_TENANT_ADMIN_def ROLE_OPERATOR_def Let_def

theorem principal_has_live_credential_witness: "fst demo_principal = Inr (principal_of_key demo_key) \<and> \<not> ak_revoked demo_key"
proof -
  have f: "fst demo_principal = Inr (principal_of_key demo_key)" by (simp add: demo_auth_defs)
  then obtain db' rl' w' where "demo_principal = (Inr (principal_of_key demo_key), db', rl', w')" by (metis prod.collapse)
  from principal_has_live_credential [OF this [unfolded demo_principal_def]] f show ?thesis
    by (auto simp: demo_auth_def demo_auth_db_def bearer_token_def get_or_def py_startswith_def ak_get_by_hash_def demo_key_def)
qed

definition demo_flow :: oidc_flow where
  "demo_flow = \<lparr>fl_states = [], fl_codes = [(''code'', \<lparr>lg_sub = ''u'', lg_name = ''Ann'', lg_email = None, lg_role = ''auditor''\<rparr>, 50)], fl_discovery = None\<rparr>"

definition demo_exchange :: "(http_error + string \<times> operator_session) \<times> oidc_flow \<times> auth_db" where
  "demo_exchange = oidc_exchange demo_auth ''s1'' ''abc'' ''code'' 10 demo_flow demo_auth_db"

definition demo_session :: operator_session where
  "demo_session = \<lparr>op_id = ''s1'', op_token_hash = ''nry_ops_abc'', op_name = ''Ann'', op_role = ''auditor'', op_tenant_id = None, op_scopes = [''*''],
     op_idp_sub = Some ''u'', op_auth_method = ''oidc'', op_expires_at = 3610, op_revoked_at = None, op_created_at = 10\<rparr>"

theorem sso_session_passes_every_check_witness:
  "pr_role (principal_of_session demo_session) = ''auditor'' \<and> has_permission (principal_of_session demo_session) ''tenants:write''"
proof -
  have x: "fst demo_exchange = Inr (''nry_ops_abc'', demo_session)" "ad_sessions (snd (snd demo_exchange)) = [demo_session]"
    by (simp_all add: demo_exchange_def oidc_exchange_def demo_flow_def op_create_def demo_auth_def demo_auth_db_def add_audit_def
        OPERATOR_TOKEN_PREFIX_def demo_session_def get_or_def Let_def)
  then obtain f' db' where e: "demo_exchange = (Inr (''nry_ops_abc'', demo_session), f', db')" and s: "ad_sessions db' = [demo_session]"
    by (metis prod.collapse)
  let ?hs = "[''Authorization'' \<mapsto> ''Bearer nry_ops_abc''] :: headers"
  have b: "bearer_token ?hs = Some ''nry_ops_abc''"
    by (simp add: bearer_token_def get_or_def py_startswith_def py_strip_def is_space_code OPERATOR_TOKEN_PREFIX_def)
  have "fst (get_principal sole_redis demo_auth ?hs 20 20 db' demo_limiter []) = Inr (principal_of_session demo_session)"
    using b s by (simp add: demo_auth_defs op_get_by_hash_def check_session_def demo_session_def)
  then obtain db'' rl' w' where "get_principal sole_redis demo_auth ?hs 20 20 db' demo_limiter [] = (Inr (principal_of_session demo_session), db'', rl', w')"
    by (metis prod.collapse)
  from sso_session_passes_every_check [OF e [unfolded demo_exchange_def] this _ _ b, of "''tenants:write''"] show ?thesis
    by (auto simp: demo_auth_def truthy_str_def demo_session_def require_permission_def split: if_splits)
qed

theorem mfa_setup_switches_factor_off_witness:
  "require_mfa_proof demo_auth 10 (\<lambda>_. None) (snd (mfa_setup demo_auth ''new'' (principal_of_key demo_key) demo_auth_db)) (principal_of_key demo_key)
     = Inr (principal_of_key demo_key)"
  using mfa_setup_switches_factor_off [of demo_auth_db "principal_of_key demo_key" demo_key demo_auth "''new''" "''new''" 10]
  by (simp add: demo_auth_defs)

theorem mfa_proof_accepted_iff_signed_witness:
  "verify_mfa_proof demo_auth 10 (sign_mfa_proof demo_auth ''k1'' 200) ''k1''"
  using mfa_proof_accepted_iff_signed [of "''k1''" demo_auth 10 "sign_mfa_proof demo_auth ''k1'' 200"]
  by (auto simp: demo_auth_def intro!: exI [of _ "200::int"])

end
