(* ===== verification/Webhooks.thy ===== *)
theory Webhooks
  imports Job_Queue Auth
begin

text \<open>
  Webhooks: signatures (\<open>modules/webhooks/signer.py\<close>), subscriptions, events and deliveries (\<open>WebhookRepository\<close>), the outbox
  (\<open>outbox.py\<close>), publication and relay (\<open>publisher.py\<close>, \<open>relay.py\<close>), one delivery (\<open>deliverer.py\<close>, \<open>handle_webhook_deliver\<close> of
  \<open>worker/handlers.py\<close>), the routes (\<open>api/routes/webhooks.py\<close>) and the request path's \<open>_publish_webhook_event\<close>
  (\<open>api/routes/conversations.py\<close>). HMAC, \<open>json.dumps\<close> and the HTTP call are parameters. Rows stand in the order of insertion,
  which is the order of their creation times.
\<close>

section \<open>Definitions\<close>

subsection \<open>Signatures\<close>

text \<open>\<open>hmac secret text\<close> is the hexadecimal digest.\<close>

type_synonym hmac_hex = "string \<Rightarrow> string \<Rightarrow> string"

definition sign_payload :: "hmac_hex \<Rightarrow> string \<Rightarrow> string \<Rightarrow> int \<Rightarrow> int \<times> string" where
  "sign_payload hmac secret body ts = (ts, hmac secret (py_str_int ts @ ''.'' @ body))"

definition signature_header :: "hmac_hex \<Rightarrow> string \<Rightarrow> string \<Rightarrow> int \<Rightarrow> string" where
  "signature_header hmac secret body ts = (case sign_payload hmac secret body ts of (t, d) \<Rightarrow> ''t='' @ py_str_int t @ '',v1='' @ d)"

text \<open>\<open>dict(pair.split("=", 1) for \<dots>)\<close>: a part without the sign is an error, a later pair overrides an earlier one.\<close>

fun header_pairs :: "string list \<Rightarrow> (string \<times> string) list option" where
  "header_pairs [] = Some []"
| "header_pairs (p # ps) =
     (if CHR ''='' \<notin> set p then None
      else case header_pairs ps of None \<Rightarrow> None | Some kvs \<Rightarrow> Some (py_split1 (CHR ''='') p # kvs))"

definition dict_of :: "('k \<times> 'v) list \<Rightarrow> 'k \<Rightarrow> 'v option" where
  "dict_of kvs = map_of (rev kvs)"

definition verify_signature :: "hmac_hex \<Rightarrow> string \<Rightarrow> string \<Rightarrow> string \<Rightarrow> int \<Rightarrow> int \<Rightarrow> bool" where
  "verify_signature hmac secret body header tolerance now =
     (case header_pairs (py_split (CHR '','') header) of
        None \<Rightarrow> False
      | Some kvs \<Rightarrow>
          (case (Option.bind (dict_of kvs ''t'') py_int, dict_of kvs ''v1'') of
             (Some ts, Some provided) \<Rightarrow>
               \<not> tolerance < \<bar>now - ts\<bar> \<and> snd (sign_payload hmac secret body ts) = provided
           | _ \<Rightarrow> False))"

subsection \<open>The tables\<close>

record webhook_subscription =
  ws_id :: string
  ws_tenant_id :: string
  ws_url :: string
  ws_secret :: string
  ws_events :: "string list"
  ws_active :: bool

record webhook_event =
  we_id :: string
  we_tenant_id :: string
  we_event_type :: string
  we_payload :: payload
  we_delivered_to :: "string list"

record webhook_delivery =
  wd_event_id :: string
  wd_subscription_id :: string
  wd_tenant_id :: string
  wd_status :: string
  wd_http_status :: "nat option"
  wd_error :: "string option"
  wd_attempts :: nat

datatype outbox_status = Pending | Published_ok | Failed_out

record outbox_row =
  ob_event_id :: string
  ob_tenant_id :: string
  ob_event_type :: string
  ob_payload :: payload
  ob_session_id :: "string option"
  ob_status :: outbox_status
  ob_attempts :: nat
  ob_last_error :: "string option"

record webhook_db =
  wb_subscriptions :: "webhook_subscription list"
  wb_events :: "webhook_event list"
  wb_deliveries :: "webhook_delivery list"
  wb_outbox :: "outbox_row list"

definition create_subscription :: "string \<Rightarrow> string \<Rightarrow> string \<Rightarrow> string \<Rightarrow> string list \<Rightarrow> webhook_db \<Rightarrow> webhook_subscription \<times> webhook_db" where
  "create_subscription i tenant url secret events db =
     (let s = \<lparr>ws_id = i, ws_tenant_id = tenant, ws_url = url, ws_secret = secret, ws_events = events, ws_active = True\<rparr>
      in (s, db\<lparr>wb_subscriptions := wb_subscriptions db @ [s]\<rparr>))"

definition list_subscriptions :: "webhook_db \<Rightarrow> string \<Rightarrow> webhook_subscription list" where
  "list_subscriptions db tenant = filter (\<lambda>s. ws_tenant_id s = tenant) (wb_subscriptions db)"

definition get_subscription :: "webhook_db \<Rightarrow> string \<Rightarrow> string option \<Rightarrow> webhook_subscription option" where
  "get_subscription db i tenant = find (\<lambda>s. ws_id s = i \<and> Some (ws_tenant_id s) = tenant) (wb_subscriptions db)"

definition set_subscription_active :: "string \<Rightarrow> string \<Rightarrow> bool \<Rightarrow> webhook_db \<Rightarrow> webhook_subscription option \<times> webhook_db" where
  "set_subscription_active i tenant act db =
     (let db1 = db\<lparr>wb_subscriptions := map (\<lambda>s. if ws_id s = i \<and> ws_tenant_id s = tenant then s\<lparr>ws_active := act\<rparr> else s) (wb_subscriptions db)\<rparr>
      in (get_subscription db1 i (Some tenant), db1))"

definition delete_subscription :: "string \<Rightarrow> string \<Rightarrow> webhook_db \<Rightarrow> bool \<times> webhook_db" where
  "delete_subscription i tenant db =
     (let c = (\<lambda>s. ws_id s = i \<and> ws_tenant_id s = tenant)
      in (list_ex c (wb_subscriptions db), db\<lparr>wb_subscriptions := filter (\<lambda>s. \<not> c s) (wb_subscriptions db)\<rparr>))"

definition get_event :: "webhook_db \<Rightarrow> string \<Rightarrow> webhook_event option" where
  "get_event db i = find (\<lambda>e. we_id e = i) (wb_events db)"

definition record_event :: "string \<Rightarrow> string \<Rightarrow> string \<Rightarrow> payload \<Rightarrow> webhook_db \<Rightarrow> webhook_db" where
  "record_event i tenant ty p db =
     (if get_event db i \<noteq> None then db
      else db\<lparr>wb_events := wb_events db @ [\<lparr>we_id = i, we_tenant_id = tenant, we_event_type = ty, we_payload = p, we_delivered_to = []\<rparr>]\<rparr>)"

definition list_webhook_events :: "webhook_db \<Rightarrow> string option \<Rightarrow> string option \<Rightarrow> nat \<Rightarrow> webhook_event list" where
  "list_webhook_events db tenant ty n =
     take n (rev (filter (\<lambda>e. (truthy_str tenant \<longrightarrow> Some (we_tenant_id e) = tenant) \<and> (truthy_str ty \<longrightarrow> Some (we_event_type e) = ty)) (wb_events db)))"

definition mark_delivered :: "string \<Rightarrow> string \<Rightarrow> webhook_db \<Rightarrow> webhook_db" where
  "mark_delivered i sub db =
     db\<lparr>wb_events := map (\<lambda>e. if we_id e = i then e\<lparr>we_delivered_to := append_new (we_delivered_to e) sub\<rparr> else e) (wb_events db)\<rparr>"

definition record_delivery ::
  "string \<Rightarrow> string \<Rightarrow> string \<Rightarrow> string \<Rightarrow> nat option \<Rightarrow> string option \<Rightarrow> webhook_db \<Rightarrow> webhook_db" where
  "record_delivery i sub tenant status http err db =
     db\<lparr>wb_deliveries := wb_deliveries db @ [\<lparr>wd_event_id = i, wd_subscription_id = sub, wd_tenant_id = tenant, wd_status = status,
        wd_http_status = http, wd_error = err, wd_attempts = 1\<rparr>]\<rparr>"

definition list_deliveries :: "webhook_db \<Rightarrow> string option \<Rightarrow> nat \<Rightarrow> webhook_delivery list" where
  "list_deliveries db i n = take n (rev (filter (\<lambda>d. truthy_str i \<longrightarrow> Some (wd_event_id d) = i) (wb_deliveries db)))"

definition webhooks_delete_by_tenant :: "string \<Rightarrow> webhook_db \<Rightarrow> nat \<times> webhook_db" where
  "webhooks_delete_by_tenant tenant db =
     (let ids = map we_id (filter (\<lambda>e. we_tenant_id e = tenant) (wb_events db));
          subs = filter (\<lambda>s. ws_tenant_id s = tenant) (wb_subscriptions db);
          dels = filter (\<lambda>d. wd_event_id d \<in> set ids) (wb_deliveries db)
      in (length subs + length ids + length dels,
          db\<lparr>wb_subscriptions := filter (\<lambda>s. ws_tenant_id s \<noteq> tenant) (wb_subscriptions db),
             wb_events := filter (\<lambda>e. we_tenant_id e \<noteq> tenant) (wb_events db),
             wb_deliveries := filter (\<lambda>d. wd_event_id d \<notin> set ids) (wb_deliveries db)\<rparr>))"

subsection \<open>The outbox\<close>

definition ob_record :: "string \<Rightarrow> string \<Rightarrow> string \<Rightarrow> payload \<Rightarrow> string option \<Rightarrow> webhook_db \<Rightarrow> bool \<times> webhook_db" where
  "ob_record i tenant ty p session db =
     (if list_ex (\<lambda>r. ob_event_id r = i) (wb_outbox db) then (False, db)
      else (True, db\<lparr>wb_outbox := wb_outbox db @ [\<lparr>ob_event_id = i, ob_tenant_id = tenant, ob_event_type = ty, ob_payload = p,
        ob_session_id = session, ob_status = Pending, ob_attempts = 0, ob_last_error = None\<rparr>]\<rparr>))"

definition list_pending :: "webhook_db \<Rightarrow> nat \<Rightarrow> outbox_row list" where
  "list_pending db n = take n (filter (\<lambda>r. ob_status r = Pending) (wb_outbox db))"

definition ob_update :: "string \<Rightarrow> (outbox_row \<Rightarrow> outbox_row) \<Rightarrow> webhook_db \<Rightarrow> webhook_db" where
  "ob_update i f db = db\<lparr>wb_outbox := map (\<lambda>r. if ob_event_id r = i then f r else r) (wb_outbox db)\<rparr>"

definition mark_published :: "string \<Rightarrow> webhook_db \<Rightarrow> webhook_db" where
  "mark_published i = ob_update i (\<lambda>r. r\<lparr>ob_status := Published_ok, ob_attempts := ob_attempts r + 1\<rparr>)"

definition mark_failed :: "string \<Rightarrow> string \<Rightarrow> webhook_db \<Rightarrow> webhook_db" where
  "mark_failed i err = ob_update i (\<lambda>r. r\<lparr>ob_status := Failed_out, ob_attempts := ob_attempts r + 1, ob_last_error := Some (take 512 err)\<rparr>)"

definition count_pending :: "webhook_db \<Rightarrow> nat" where
  "count_pending db = length (filter (\<lambda>r. ob_status r = Pending) (wb_outbox db))"

subsection \<open>Publication\<close>

definition matching :: "webhook_db \<Rightarrow> string \<Rightarrow> string \<Rightarrow> webhook_subscription list" where
  "matching db tenant ty = filter (\<lambda>s. ws_active s \<and> ty \<in> set (ws_events s)) (list_subscriptions db tenant)"

definition new_job :: "(string \<Rightarrow> string) \<Rightarrow> time \<Rightarrow> string \<Rightarrow> payload \<Rightarrow> job" where
  "new_job fresh now ty p = \<lparr>jb_id = fresh ty, jb_type = ty, jb_payload = p, jb_priority = 0, jb_scheduled_at = None, jb_created_at = now,
     jb_retries = 0, jb_max_retries = 3, jb_error = None, jb_trace_id = []\<rparr>"

definition delivery_key :: "string \<Rightarrow> webhook_subscription \<Rightarrow> string" where
  "delivery_key i s = ''webhook:'' @ i @ '':'' @ ws_id s"

definition delivery_job :: "(string \<Rightarrow> string) \<Rightarrow> time \<Rightarrow> string \<Rightarrow> string \<Rightarrow> webhook_subscription \<Rightarrow> job" where
  "delivery_job fresh now i tenant s =
     new_job fresh now ''webhook.deliver'' [(''event_id'', JStr i), (''subscription_id'', JStr (ws_id s)), (''tenant_id'', JStr tenant)]"

text \<open>The loop over the subscriptions; \<open>None\<close>: an enqueue raised.\<close>

fun enqueue_deliveries ::
  "'w job_store \<Rightarrow> (string \<Rightarrow> string) \<Rightarrow> time \<Rightarrow> string \<Rightarrow> string \<Rightarrow> webhook_subscription list \<Rightarrow> queue_manager \<Rightarrow> 'w
     \<Rightarrow> unit option \<times> queue_manager \<times> 'w" where
  "enqueue_deliveries S fresh now i tenant [] qm w = (Some (), qm, w)"
| "enqueue_deliveries S fresh now i tenant (s # ss) qm w =
     (case enqueue S now (Some (delivery_key i s)) (delivery_job fresh now i tenant s) qm w of
        (None, qm1, w1) \<Rightarrow> (None, qm1, w1)
      | (Some _, qm1, w1) \<Rightarrow> enqueue_deliveries S fresh now i tenant ss qm1 w1)"

text \<open>\<open>publish\<close>: the result is the event's identifier, or nothing when no subscription matched, or an exception.\<close>

datatype publish_result = PublishedAs string | NoMatch | PublishRaised

definition publish ::
  "'w job_store \<Rightarrow> (string \<Rightarrow> string) \<Rightarrow> time \<Rightarrow> string \<Rightarrow> string \<Rightarrow> payload \<Rightarrow> string option \<Rightarrow> string option \<Rightarrow> queue_manager \<Rightarrow> webhook_db \<Rightarrow> 'w
     \<Rightarrow> publish_result \<times> queue_manager \<times> webhook_db \<times> 'w" where
  "publish S fresh now ty tenant data session event_id qm db w =
     (let ms = matching db tenant ty
      in if ms = [] then (NoMatch, qm, db, w)
         else let i = str_or event_id (fresh ''event'');
                  db1 = record_event i tenant ty (AList.updates (map fst data) (map snd data)
                          [(''session_id'', case session of None \<Rightarrow> JNull | Some s \<Rightarrow> JStr s)]) db
              in case enqueue_deliveries S fresh now i tenant ms qm w of
                   (None, qm1, w1) \<Rightarrow> (PublishRaised, qm1, db1, w1)
                 | (Some _, qm1, w1) \<Rightarrow> (PublishedAs i, qm1, db1, w1))"

text \<open>The loop of \<open>drain\<close>; the text of a failure stands for \<open>str(e)\<close> of the exception that \<open>publish\<close> raised.\<close>

fun drain_rows ::
  "'w job_store \<Rightarrow> (string \<Rightarrow> string) \<Rightarrow> time \<Rightarrow> outbox_row list \<Rightarrow> queue_manager \<Rightarrow> webhook_db \<Rightarrow> 'w \<Rightarrow> nat \<times> queue_manager \<times> webhook_db \<times> 'w" where
  "drain_rows S fresh now [] qm db w = (0, qm, db, w)"
| "drain_rows S fresh now (r # rs) qm db w =
     (case publish S fresh now (ob_event_type r) (ob_tenant_id r) (ob_payload r) (ob_session_id r) (Some (ob_event_id r)) qm db w of
        (PublishRaised, qm1, db1, w1) \<Rightarrow> drain_rows S fresh now rs qm1 (mark_failed (ob_event_id r) ''error'' db1) w1
      | (_, qm1, db1, w1) \<Rightarrow>
          (case drain_rows S fresh now rs qm1 (mark_published (ob_event_id r) db1) w1 of (n, s) \<Rightarrow> (n + 1, s)))"

definition relay_drain ::
  "'w job_store \<Rightarrow> (string \<Rightarrow> string) \<Rightarrow> time \<Rightarrow> nat \<Rightarrow> queue_manager \<Rightarrow> webhook_db \<Rightarrow> 'w \<Rightarrow> nat \<times> queue_manager \<times> webhook_db \<times> 'w" where
  "relay_drain S fresh now limit qm db w = drain_rows S fresh now (list_pending db limit) qm db w"

definition enqueue_outbox_relay :: "'w job_store \<Rightarrow> (string \<Rightarrow> string) \<Rightarrow> time \<Rightarrow> int \<Rightarrow> queue_manager \<Rightarrow> 'w \<Rightarrow> bool option \<times> queue_manager \<times> 'w" where
  "enqueue_outbox_relay S fresh now limit qm w =
     enqueue S now (Some ''outbox.relay'') (new_job fresh now ''outbox.relay'' [(''limit'', JInt limit)]) qm w"

text \<open>The request path: record, schedule a relay, drain at once.\<close>

definition publish_webhook_event ::
  "'w job_store \<Rightarrow> (string \<Rightarrow> string) \<Rightarrow> time \<Rightarrow> string \<Rightarrow> string \<Rightarrow> payload \<Rightarrow> string \<Rightarrow> queue_manager \<Rightarrow> webhook_db \<Rightarrow> 'w
     \<Rightarrow> queue_manager \<times> webhook_db \<times> 'w" where
  "publish_webhook_event S fresh now ty tenant data session qm db w =
     (let db1 = snd (ob_record (fresh ''outbox'') tenant ty data (Some session) db)
      in case enqueue_outbox_relay S fresh now 50 qm w of
           (_, qm1, w1) \<Rightarrow> snd (relay_drain S fresh now 50 qm1 db1 w1))"

definition handle_outbox_relay ::
  "'w job_store \<Rightarrow> (string \<Rightarrow> string) \<Rightarrow> time \<Rightarrow> payload \<Rightarrow> queue_manager \<Rightarrow> webhook_db \<Rightarrow> 'w \<Rightarrow> nat \<times> queue_manager \<times> webhook_db \<times> 'w" where
  "handle_outbox_relay S fresh now p = relay_drain S fresh now (get_or (Option.bind (map_of p ''limit'') j_nat) 50)"

subsection \<open>Delivery\<close>

record 'w wire =
  wi_hmac :: hmac_hex
  wi_dumps :: "json \<Rightarrow> string"
  wi_iso :: "time \<Rightarrow> string"
  wi_post :: "string \<Rightarrow> (string \<times> string) list \<Rightarrow> string \<Rightarrow> 'w \<Rightarrow> (string + nat) \<times> 'w"

record delivery_result =
  dr_success :: bool
  dr_http_status :: "nat option"
  dr_error :: "string option"

definition envelope_body :: "'w wire \<Rightarrow> string \<Rightarrow> string \<Rightarrow> string \<Rightarrow> payload \<Rightarrow> time \<Rightarrow> string" where
  "envelope_body W i ty tenant data now =
     wi_dumps W (JObj [(''event_id'', JStr i), (''event_type'', JStr ty), (''tenant_id'', JStr tenant), (''occurred_at'', JStr (wi_iso W now)),
       (''data'', JObj data)])"

definition deliver :: "'w wire \<Rightarrow> string \<Rightarrow> string \<Rightarrow> string \<Rightarrow> string \<Rightarrow> string \<Rightarrow> payload \<Rightarrow> time \<Rightarrow> 'w \<Rightarrow> delivery_result \<times> 'w" where
  "deliver W url secret i ty tenant data now w =
     (let body = envelope_body W i ty tenant data now;
          headers = [(''Content-Type'', ''application/json''), (''User-Agent'', ''Neryva-Agent-Studio/1.0''), (''X-Neryva-Event-Id'', i),
            (''X-Neryva-Event-Type'', ty), (''X-Neryva-Timestamp'', wi_iso W now),
            (''X-Neryva-Signature'', signature_header (wi_hmac W) secret body \<lfloor>now\<rfloor>)]
      in case wi_post W url headers body w of
           (Inl e, w1) \<Rightarrow> (\<lparr>dr_success = False, dr_http_status = None, dr_error = Some e\<rparr>, w1)
         | (Inr status, w1) \<Rightarrow>
             (if 200 \<le> status \<and> status < 300 then \<lparr>dr_success = True, dr_http_status = Some status, dr_error = None\<rparr>
              else \<lparr>dr_success = False, dr_http_status = Some status,
                dr_error = Some ((if 400 \<le> status \<and> status < 500 then ''subscriber rejected payload (HTTP '' else ''transient failure (HTTP '')
                  @ py_str_nat status @ '')'')\<rparr>, w1))"

definition payload_text :: "payload \<Rightarrow> string \<Rightarrow> string option" where
  "payload_text p k = Option.bind (map_of p k) j_str"

text \<open>\<open>handle_webhook_deliver\<close>, a handler of the job queue over the database and the network.\<close>

definition handle_webhook_deliver :: "'w wire \<Rightarrow> time \<Rightarrow> (webhook_db \<times> 'w) handler" where
  "handle_webhook_deliver W now p s =
     (case s of (qm, db, w) \<Rightarrow>
        (let i = payload_text p ''event_id''; sub = payload_text p ''subscription_id''; tenant = payload_text p ''tenant_id''
         in if \<not> truthy_str i \<or> \<not> truthy_str sub then (Inl ''webhook.deliver requires event_id and subscription_id'', s)
            else case get_event db (the i) of
                   None \<Rightarrow> (Inl ''webhook event not found'', s)
                 | Some e \<Rightarrow>
                     (case get_subscription db (the sub) tenant of
                        None \<Rightarrow> (Inl ''webhook subscription not found'', s)
                      | Some su \<Rightarrow>
                          if \<not> ws_active su then (Inr (), s)
                          else (case deliver W (ws_url su) (ws_secret su) (the i) (we_event_type e) (the tenant) (we_payload e) now w of
                                  (r, w1) \<Rightarrow>
                                    (let db1 = record_delivery (the i) (the sub) (the tenant) (if dr_success r then ''success'' else ''failed'')
                                                 (dr_http_status r) (dr_error r) db
                                     in if dr_success r then (Inr (), qm, mark_delivered (the i) (the sub) db1, w1)
                                        else (Inl (str_or (dr_error r) ''webhook delivery failed''), qm, db1, w1))))))"

subsection \<open>Routes\<close>

definition route_list_events :: "webhook_db \<Rightarrow> principal \<Rightarrow> string option \<Rightarrow> string option \<Rightarrow> nat \<Rightarrow> http_error + webhook_event list" where
  "route_list_events db p tenant ty n =
     (case require_permission ''webhooks:read'' p of
        Inl e \<Rightarrow> Inl e
      | Inr _ \<Rightarrow>
          (case (if truthy_str tenant then assert_tenant_access p (TextArg (the tenant)) else Inr ()) of
             Inl e \<Rightarrow> Inl e
           | Inr _ \<Rightarrow> Inr (list_webhook_events db tenant ty n)))"

definition route_create_subscription ::
  "string \<Rightarrow> principal \<Rightarrow> string \<Rightarrow> string \<Rightarrow> string \<Rightarrow> string list \<Rightarrow> webhook_db \<Rightarrow> (http_error + webhook_subscription) \<times> webhook_db" where
  "route_create_subscription i p tenant url secret events db =
     (case require_permission ''webhooks:write'' p of
        Inl e \<Rightarrow> (Inl e, db)
      | Inr _ \<Rightarrow>
          (case assert_tenant_access p (TextArg tenant) of
             Inl e \<Rightarrow> (Inl e, db)
           | Inr _ \<Rightarrow> (case create_subscription i tenant url secret events db of (s, db1) \<Rightarrow> (Inr s, db1))))"

definition route_delete_subscription :: "principal \<Rightarrow> string \<Rightarrow> string \<Rightarrow> webhook_db \<Rightarrow> (http_error + unit) \<times> webhook_db" where
  "route_delete_subscription p i tenant db =
     (case require_permission ''webhooks:write'' p of
        Inl e \<Rightarrow> (Inl e, db)
      | Inr _ \<Rightarrow>
          (case assert_tenant_access p (TextArg tenant) of
             Inl e \<Rightarrow> (Inl e, db)
           | Inr _ \<Rightarrow> (case delete_subscription i tenant db of (ok, db1) \<Rightarrow> (if ok then Inr () else Inl (Http 404 ''Subscription not found''), db1))))"

definition route_list_subscriptions :: "webhook_db \<Rightarrow> principal \<Rightarrow> string \<Rightarrow> http_error + webhook_subscription list" where
  "route_list_subscriptions db p tenant =
     (case require_permission ''webhooks:read'' p of
        Inl e \<Rightarrow> Inl e
      | Inr _ \<Rightarrow> (case assert_tenant_access p (TextArg tenant) of Inl e \<Rightarrow> Inl e | Inr _ \<Rightarrow> Inr (list_subscriptions db tenant)))"

definition route_list_deliveries :: "webhook_db \<Rightarrow> principal \<Rightarrow> string \<Rightarrow> http_error + webhook_delivery list" where
  "route_list_deliveries db p i =
     (case require_permission ''webhooks:read'' p of
        Inl e \<Rightarrow> Inl e
      | Inr _ \<Rightarrow>
          (case get_event db i of
             None \<Rightarrow> Inl (Http 404 ''Event not found'')
           | Some e \<Rightarrow>
               (case (if we_tenant_id e = [] then Inr () else assert_tenant_access p (TextArg (we_tenant_id e))) of
                  Inl x \<Rightarrow> Inl x
                | Inr _ \<Rightarrow> Inr (list_deliveries db (Some i) 100))))"

definition replay_webhook_event ::
  "'w job_store \<Rightarrow> (string \<Rightarrow> string) \<Rightarrow> time \<Rightarrow> principal \<Rightarrow> string \<Rightarrow> webhook_db \<Rightarrow> queue_manager \<Rightarrow> 'w
     \<Rightarrow> (http_error + nat) \<times> queue_manager \<times> 'w" where
  "replay_webhook_event S fresh now p i db qm w =
     (case require_permission ''webhooks:write'' p of
        Inl e \<Rightarrow> (Inl e, qm, w)
      | Inr _ \<Rightarrow>
          (case get_event db i of
             None \<Rightarrow> (Inl (Http 404 ''Event not found''), qm, w)
           | Some e \<Rightarrow>
               (case (if we_tenant_id e = [] then Inr () else assert_tenant_access p (TextArg (we_tenant_id e))) of
                  Inl x \<Rightarrow> (Inl x, qm, w)
                | Inr _ \<Rightarrow>
                    (let ms = matching db (we_tenant_id e) (we_event_type e)
                     in if ms = [] then (Inl (Http 404 ''No active subscription matches this event''), qm, w)
                        else case enqueue_deliveries S fresh now i (we_tenant_id e) ms qm w of
                               (None, qm1, w1) \<Rightarrow> (Inl (Http 500 ''Internal Server Error''), qm1, w1)
                             | (Some _, qm1, w1) \<Rightarrow> (Inr (length ms), qm1, w1)))))"

section \<open>Lemmas\<close>

subsection \<open>Signatures\<close>

lemma split1_at: "c \<notin> set p \<Longrightarrow> py_split1 c (p @ c # s) = (p, s)"
  by (induction p) (auto simp: py_split1_def)

lemma signature_header_pairs:
  assumes "CHR '','' \<notin> set (hmac secret (py_str_int ts @ ''.'' @ body))"
  shows "header_pairs (py_split (CHR '','') (signature_header hmac secret body ts))
    = Some [(''t'', py_str_int ts), (''v1'', hmac secret (py_str_int ts @ ''.'' @ body))]"
  using py_split_append_sep [of "CHR '',''" "''t='' @ py_str_int ts"] assms
    split1_at [of "CHR ''=''" "''t''" "py_str_int ts"] split1_at [of "CHR ''=''" "''v1''"]
  by (simp add: signature_header_def sign_payload_def py_split_no_sep)

text \<open>C39: A subscriber accepts the header of a delivery exactly while it is recent enough and its body and secret give the same digest: with
  the right secret and body, inside the tolerance; a changed body or another secret passes only on a collision of the digest.\<close>

theorem signature_accepted_iff_recent:
  assumes "CHR '','' \<notin> set (hmac secret (py_str_int ts @ ''.'' @ body))"
  shows "verify_signature hmac secret' body' (signature_header hmac secret body ts) tolerance now
    \<longleftrightarrow> \<bar>now - ts\<bar> \<le> tolerance \<and> hmac secret' (py_str_int ts @ ''.'' @ body') = hmac secret (py_str_int ts @ ''.'' @ body)"
  unfolding verify_signature_def signature_header_pairs [of hmac secret ts body, OF assms]
  by (auto simp: dict_of_def sign_payload_def)

theorem signature_accepted_iff_recent_witness:
  "verify_signature (\<lambda>k m. k @ m) ''key'' ''{}'' (signature_header (\<lambda>k m. k @ m) ''key'' ''{}'' 100) 300 400
   \<and> \<not> verify_signature (\<lambda>k m. k @ m) ''key'' ''{}'' (signature_header (\<lambda>k m. k @ m) ''key'' ''{}'' 100) 300 401"
  using signature_accepted_iff_recent [of "\<lambda>k m. k @ m" "''key''" 100 "''{}''" "''key''" "''{}''" 300] by simp

subsection \<open>One delivery per subscription\<close>

definition keyed :: "(string \<Rightarrow> string) \<Rightarrow> time \<Rightarrow> string \<Rightarrow> string \<Rightarrow> webhook_subscription \<Rightarrow> job" where
  "keyed fresh now i tenant s = (delivery_job fresh now i tenant s)
     \<lparr>jb_payload := AList.update ''_idem'' (JStr (delivery_key i s)) (jb_payload (delivery_job fresh now i tenant s))\<rparr>"

lemma delivery_key_inj [simp]: "delivery_key i s = delivery_key i s' \<longleftrightarrow> ws_id s = ws_id s'"
  by (simp add: delivery_key_def)

lemma memory_enqueue_delivery:
  "\<not> qm_connected qm \<Longrightarrow> enqueue S now (Some (delivery_key i s)) (delivery_job fresh now i tenant s) qm w =
     (Some True, (if delivery_key i s \<in> qm_idem_seen qm then qm
        else qm\<lparr>qm_memory := qm_memory qm @ [keyed fresh now i tenant s], qm_idem_seen := insert (delivery_key i s) (qm_idem_seen qm)\<rparr>), w)"
  by (simp add: enqueue_def claim_idempotency_def push_job_def truthy_str_def delivery_key_def keyed_def)

lemma memory_deliveries:
  assumes "\<not> qm_connected qm" "distinct (map ws_id ss)"
  shows "enqueue_deliveries S fresh now i tenant ss qm w =
    (Some (), qm\<lparr>qm_memory := qm_memory qm @ map (keyed fresh now i tenant) (filter (\<lambda>s. delivery_key i s \<notin> qm_idem_seen qm) ss),
       qm_idem_seen := qm_idem_seen qm \<union> delivery_key i ` set ss\<rparr>, w)"
  using assms
proof (induction ss arbitrary: qm)
  case (Cons s ss)
  have f: "filter (\<lambda>x. delivery_key i x \<noteq> delivery_key i s \<and> delivery_key i x \<notin> K) ss = filter (\<lambda>x. delivery_key i x \<notin> K) ss" for K
    using Cons.prems(2) by (intro filter_cong refl) (force simp: image_iff)
  show ?case
  proof (cases "delivery_key i s \<in> qm_idem_seen qm")
    case True
    then show ?thesis using Cons by (simp add: memory_enqueue_delivery insert_absorb)
  next
    case False
    let ?qm = "qm\<lparr>qm_memory := qm_memory qm @ [keyed fresh now i tenant s], qm_idem_seen := insert (delivery_key i s) (qm_idem_seen qm)\<rparr>"
    from Cons.IH [of ?qm] Cons.prems False show ?thesis
      by (simp add: memory_enqueue_delivery f del: delivery_key_inj)
  qed
qed simp

lemma matching_record_event [simp]: "matching (record_event i tenant' ty' p db) tenant ty = matching db tenant ty"
  by (simp add: matching_def list_subscriptions_def record_event_def)

lemma matching_distinct: "distinct (map ws_id (wb_subscriptions db)) \<Longrightarrow> distinct (map ws_id (matching db tenant ty))"
  by (auto simp: matching_def list_subscriptions_def distinct_map intro: inj_on_subset)

lemma record_event_known [simp]: "record_event i t' y' p' (record_event i t y p db) = record_event i t y p db"
  by (auto simp: record_event_def get_event_def find_None_iff)

text \<open>C18: Over the in-memory queue (no Redis), publishing an event queues one delivery for every active subscription of the tenant that names its
  type and whose delivery of this event the queue does not remember, in their order, and no other job; publishing it again under the same
  identifier, as a relay that crashed half-way does, queues nothing and leaves the event as it was recorded.\<close>

theorem published_once_per_subscription:
  assumes "\<not> qm_connected qm" "distinct (map ws_id (wb_subscriptions db))" "i \<noteq> []"
    and "publish S fresh now ty tenant data session (Some i) qm db w = (r, qm1, db1, w1)"
    and "publish S fresh' later ty tenant data' session' (Some i) qm1 db1 w1 = (r', qm2, db2, w2)"
  shows "qm_memory qm1 = qm_memory qm @ map (keyed fresh now i tenant) (filter (\<lambda>s. delivery_key i s \<notin> qm_idem_seen qm) (matching db tenant ty))
    \<and> r = (if matching db tenant ty = [] then NoMatch else PublishedAs i) \<and> r' = r \<and> qm2 = qm1 \<and> db2 = db1"
proof (cases "matching db tenant ty = []")
  case True
  then show ?thesis using assms(4,5) by (auto simp: publish_def)
next
  case False
  note d = matching_distinct [OF assms(2), of tenant ty]
  let ?seen = "qm_idem_seen qm \<union> delivery_key i ` set (matching db tenant ty)"
  let ?ev = "\<lambda>data session. AList.updates (map fst data) (map snd data) [(''session_id'', case session of None \<Rightarrow> JNull | Some s \<Rightarrow> JStr s)]"
  have q: "qm1 = qm\<lparr>qm_memory := qm_memory qm @ map (keyed fresh now i tenant) (filter (\<lambda>s. delivery_key i s \<notin> qm_idem_seen qm) (matching db tenant ty)),
      qm_idem_seen := ?seen\<rparr>"
    and r: "r = PublishedAs i" and e: "db1 = record_event i tenant ty (?ev data session) db"
    using assms(3,4) False memory_deliveries [OF assms(1) d, of S fresh now i tenant w] by (auto simp: publish_def str_or_def Let_def)
  have c: "\<not> qm_connected qm1" using assms(1) q by simp
  have "filter (\<lambda>s. delivery_key i s \<notin> qm_idem_seen qm1) (matching db tenant ty) = []" by (auto simp: filter_empty_conv q)
  then have "enqueue_deliveries S fresh' later i tenant (matching db tenant ty) qm1 w1 = (Some (), qm1, w1)"
    using memory_deliveries [OF c d, of S fresh' later i tenant w1] q by (simp add: sup_assoc)
  then show ?thesis using assms(3,5) False q r by (auto simp: e publish_def str_or_def Let_def)
qed

text \<open>An operator's replay of a published event queues nothing while the keys of its deliveries are remembered, and still answers with the
  number of matching subscriptions.\<close>

theorem replay_queues_nothing:
  assumes "\<not> qm_connected qm" "distinct (map ws_id (wb_subscriptions db))"
    and "\<And>s. s \<in> set (matching db (we_tenant_id e) (we_event_type e)) \<Longrightarrow> delivery_key i s \<in> qm_idem_seen qm"
    and "get_event db i = Some e" "replay_webhook_event S fresh now p i db qm w = (Inr n, qm', w')"
  shows "qm' = qm \<and> w' = w \<and> n = length (matching db (we_tenant_id e) (we_event_type e)) \<and> 0 < n"
proof -
  let ?ms = "matching db (we_tenant_id e) (we_event_type e)"
  have "filter (\<lambda>s. delivery_key i s \<notin> qm_idem_seen qm) ?ms = []" "qm_idem_seen qm \<union> delivery_key i ` set ?ms = qm_idem_seen qm"
    using assms(3) by (auto simp: filter_empty_conv)
  then have "enqueue_deliveries S fresh now i (we_tenant_id e) ?ms qm w = (Some (), qm, w)"
    using memory_deliveries [OF assms(1) matching_distinct [OF assms(2)], of S fresh now i] by simp
  then show ?thesis using assms(4,5) by (auto simp: replay_webhook_event_def Let_def split: sum.splits if_splits)
qed

subsection \<open>The relay\<close>

lemma ob_update_ids [simp]: "(\<And>r. ob_event_id (f r) = ob_event_id r) \<Longrightarrow> map ob_event_id (wb_outbox (ob_update i f db)) = map ob_event_id (wb_outbox db)"
  by (simp add: ob_update_def)

lemma publish_outbox: "publish S fresh now ty tenant data session ev qm db w = (r, qm1, db1, w1) \<Longrightarrow> wb_outbox db1 = wb_outbox db"
  by (auto simp: publish_def Let_def record_event_def split: if_splits prod.splits option.splits)

text \<open>What a batch makes of a row: one attempt, and a final status.\<close>

definition settled :: "outbox_row \<Rightarrow> outbox_row \<Rightarrow> bool" where
  "settled r r' \<longleftrightarrow> ob_status r' \<noteq> Pending \<and> ob_attempts r' = ob_attempts r + 1 \<and> ob_event_id r' = ob_event_id r
     \<and> ob_tenant_id r' = ob_tenant_id r \<and> ob_event_type r' = ob_event_type r \<and> ob_payload r' = ob_payload r"

lemma update_unique:
  assumes "distinct (map ob_event_id rows)" "r \<in> set rows"
  shows "map (\<lambda>x. if ob_event_id x = ob_event_id r then f x else x) rows = map (\<lambda>x. if x = r then f x else x) rows"
  using assms by (intro map_cong) (auto simp: distinct_map dest: inj_onD)

lemma drain_rows_settles:
  assumes "drain_rows S fresh now rs qm db w = (n, qm', db', w')"
    and "distinct (map ob_event_id (wb_outbox db))" "distinct (map ob_event_id rs)" "\<forall>r\<in>set rs. r \<in> set (wb_outbox db)"
  shows "list_all2 (\<lambda>r r'. if r \<in> set rs then settled r r' else r' = r) (wb_outbox db) (wb_outbox db') \<and> n \<le> length rs"
  using assms
proof (induction rs arbitrary: qm db w n)
  case (Cons r rs)
  obtain res qm1 db1 w1 where p: "publish S fresh now (ob_event_type r) (ob_tenant_id r) (ob_payload r) (ob_session_id r)
      (Some (ob_event_id r)) qm db w = (res, qm1, db1, w1)" by (metis prod_cases4)
  note ob = publish_outbox [OF p]
  obtain f k where f: "\<And>x. settled x (f x)"
    and d: "drain_rows S fresh now rs qm1 (ob_update (ob_event_id r) f db1) w1 = (k, qm', db', w')" and n: "n \<le> k + 1"
  proof (cases res)
    case PublishRaised
    with Cons.prems(1) p show ?thesis
      by (intro that [of "\<lambda>r. r\<lparr>ob_status := Failed_out, ob_attempts := ob_attempts r + 1, ob_last_error := Some (take 512 ''error'')\<rparr>" n])
         (auto simp: settled_def mark_failed_def)
  qed (use Cons.prems(1) p in \<open>auto intro!: that [of "\<lambda>r. r\<lparr>ob_status := Published_ok, ob_attempts := ob_attempts r + 1\<rparr>" "n - 1"]
         simp: settled_def mark_published_def split: prod.splits\<close>)
  let ?db = "ob_update (ob_event_id r) f db1"
  have o: "wb_outbox ?db = map (\<lambda>x. if x = r then f x else x) (wb_outbox db)"
    using update_unique [OF Cons.prems(2), of r f] Cons.prems(4) by (simp add: ob_update_def ob)
  have fi: "ob_event_id (f x) = ob_event_id x" for x using f [of x] by (simp add: settled_def)
  have ids: "distinct (map ob_event_id (wb_outbox ?db))" using Cons.prems(2) fi ob by simp
  have rs: "\<forall>x\<in>set rs. x \<in> set (wb_outbox ?db)" using Cons.prems(3,4) by (auto simp: o image_iff)
  have fr: "f r \<notin> set rs" using Cons.prems(3) fi [of r] by (auto simp: image_iff)
  from Cons.IH [OF d ids _ rs] Cons.prems(3) n have ih: "list_all2 (\<lambda>x r'. if x \<in> set rs then settled x r' else r' = x) (wb_outbox ?db) (wb_outbox db')"
    and k: "n \<le> Suc (length rs)" by auto
  have "r \<notin> set rs" using Cons.prems(3) by auto
  then have "list_all2 (\<lambda>x r'. if x \<in> set (r # rs) then settled x r' else r' = x) (wb_outbox db) (wb_outbox db')"
    using ih fr f by (fastforce simp: o list_all2_map1 elim: list_all2_mono split: if_splits)
  then show ?case using k by simp
qed (simp add: list_all2_refl)

lemma count_pending_drop:
  assumes "list_all2 (\<lambda>r r'. if r \<in> set (take n (filter P rows)) then \<not> P r' else r' = r) rows rows'" "distinct rows"
  shows "filter P rows' = drop n (filter P rows)"
  using assms
proof (induction rows arbitrary: n rows')
  case (Cons r rows)
  obtain r' rs' where r: "rows' = r' # rs'" "if r \<in> set (take n (filter P (r # rows))) then \<not> P r' else r' = r"
    "list_all2 (\<lambda>x x'. if x \<in> set (take n (filter P (r # rows))) then \<not> P x' else x' = x) rows rs'"
    using Cons.prems(1) by (auto simp: list_all2_Cons1)
  have nr: "r \<notin> set rows" using Cons.prems(2) by simp
  show ?case
  proof (cases "P r \<and> 0 < n")
    case True
    then obtain m where m: "n = Suc m" by (cases n) auto
    have "list_all2 (\<lambda>x x'. if x \<in> set (take m (filter P rows)) then \<not> P x' else x' = x) rows rs'"
      by (rule list.rel_mono_strong [OF r(3)]) (use True m nr in \<open>auto split: if_splits\<close>)
    with Cons.IH [of m rs'] Cons.prems(2) True m r show ?thesis by auto
  next
    case False
    then have "take n (filter P (r # rows)) = take n (filter P rows)" by (cases n) auto
    moreover have "r \<notin> set (take n (filter P rows))" using nr by (auto dest: in_set_takeD)
    ultimately show ?thesis using Cons.IH [of n rs'] Cons.prems(2) False r by (cases n) auto
  qed
qed simp

text \<open>C19: A pass of the relay settles the oldest pending rows, as many as the limit: each gets one attempt and a final status, its event and payload
  are kept, and every other row is untouched; so the pending rows go down by the limit, to none at the last pass.\<close>

theorem relay_settles_oldest:
  assumes "distinct (map ob_event_id (wb_outbox db))" "relay_drain S fresh now limit qm db w = (n, qm', db', w')"
  shows "list_all2 (\<lambda>r r'. if r \<in> set (list_pending db limit) then settled r r' else r' = r) (wb_outbox db) (wb_outbox db')
    \<and> count_pending db' = count_pending db - limit \<and> n \<le> limit"
proof -
  let ?p = "\<lambda>r. ob_status r = Pending"
  have sub: "\<forall>r\<in>set (list_pending db limit). r \<in> set (wb_outbox db)" by (auto simp: list_pending_def dest: in_set_takeD)
  have "distinct (map ob_event_id (list_pending db limit))"
    using assms(1) by (auto simp: list_pending_def distinct_map intro!: distinct_take
        elim!: inj_on_subset dest!: in_set_takeD)
  from drain_rows_settles [OF assms(2) [unfolded relay_drain_def] assms(1) this sub]
  have l: "list_all2 (\<lambda>r r'. if r \<in> set (list_pending db limit) then settled r r' else r' = r) (wb_outbox db) (wb_outbox db')"
    and n: "n \<le> length (list_pending db limit)" by auto
  have "list_all2 (\<lambda>r r'. if r \<in> set (take limit (filter ?p (wb_outbox db))) then \<not> ?p r' else r' = r) (wb_outbox db) (wb_outbox db')"
    by (rule list_all2_mono [OF l]) (auto simp: settled_def list_pending_def)
  from count_pending_drop [OF this] assms(1) have "filter ?p (wb_outbox db') = drop limit (filter ?p (wb_outbox db))"
    by (simp add: distinct_map)
  then show ?thesis using l n by (simp add: count_pending_def list_pending_def)
qed

lemma ob_record_distinct:
  "distinct (map ob_event_id (wb_outbox db)) \<Longrightarrow> distinct (map ob_event_id (wb_outbox (snd (ob_record i tenant ty p session db))))"
  by (auto simp: ob_record_def list_ex_iff)

subsection \<open>Concrete runs\<close>

definition demo_sub :: webhook_subscription where
  "demo_sub = \<lparr>ws_id = ''s1'', ws_tenant_id = ''t'', ws_url = ''https://x'', ws_secret = ''k'', ws_events = [''conversation.completed''], ws_active = True\<rparr>"

definition demo_webhooks :: webhook_db where
  "demo_webhooks = \<lparr>wb_subscriptions = [demo_sub], wb_events = [], wb_deliveries = [], wb_outbox = []\<rparr>"

lemmas demo_hooks = demo_sub_def demo_webhooks_def publish_webhook_event_def ob_record_def enqueue_outbox_relay_def relay_drain_def
  list_pending_def publish_def matching_def list_subscriptions_def record_event_def get_event_def mark_published_def mark_failed_def
  ob_update_def delivery_key_def delivery_job_def new_job_def str_or_def

text \<open>A push that fails loses the delivery although the row exists to prevent it: \<open>enqueue\<close> answers false, the publisher ignores it, and the relay marks
  the row as published; the claimed key makes every later attempt a duplicate.\<close>

theorem failed_push_marked_published:
  "case publish_webhook_event (queue_store\<lparr>js_lpush := (\<lambda>k j v. (None, v))\<rparr>) (\<lambda>x. x) 0 ''conversation.completed'' ''t'' [] ''c'' (demo_redis_manager 0)
          demo_webhooks empty_view of
     (_, db', v') \<Rightarrow> map ob_status (wb_outbox db') = [Published_ok] \<and> (\<forall>k. jv_lists v' k = [])"
  by (simp add: demo_run demo_hooks)

text \<open>The relay job has one key for all time, so only the first request ever enqueues it: after the second request the queue still
  holds a single relay job.\<close>

theorem relay_enqueued_once:
  "case enqueue_outbox_relay queue_store (\<lambda>x. x) 0 50 (demo_redis_manager 0) empty_view of
     (r1, qm1, v1) \<Rightarrow> (case enqueue_outbox_relay queue_store (\<lambda>x. x) 9 50 qm1 (v1\<lparr>jv_lists := (\<lambda>_. [])\<rparr>) of
       (r2, _, v2) \<Rightarrow> r1 = Some True \<and> map jb_type (jv_lists v1 ''neryva:queue:default'') = [''outbox.relay'']
          \<and> r2 = Some True \<and> (\<forall>k. jv_lists v2 k = []))"
  by (simp add: demo_run demo_hooks)

text \<open>A rejection by the subscriber (a status between 400 and 499) fails the job like any other error, so the queue retries it.\<close>

theorem rejected_payload_is_retried:
  assumes "ws_active su" "get_event db i = Some e" "get_subscription db sub (Some tenant) = Some su" "i \<noteq> []" "sub \<noteq> []"
    and "p = [(''event_id'', JStr i), (''subscription_id'', JStr sub), (''tenant_id'', JStr tenant)]"
    and "\<And>headers body. fst (wi_post W (ws_url su) headers body w) = Inr 410"
  shows "fst (handle_webhook_deliver W now p (qm, db, w)) = Inl ''subscriber rejected payload (HTTP 410)''"
proof -
  have "fst (deliver W (ws_url su) (ws_secret su) i (we_event_type e) tenant (we_payload e) now w) =
      \<lparr>dr_success = False, dr_http_status = Some 410, dr_error = Some (''subscriber rejected payload (HTTP '' @ py_str_nat 410 @ '')'')\<rparr>"
    by (simp add: deliver_def Let_def split_beta assms(7))
  moreover have "py_str_nat 410 = ''410''" by (simp add: py_str_nat.simps char_of_def bit_0)
  ultimately show ?thesis using assms(1-6)
    by (simp add: handle_webhook_deliver_def payload_text_def truthy_str_def str_or_def split_beta)
qed

text \<open>Without a tenant in the query, the event route answers a key of one tenant with the events of all.\<close>

theorem events_of_every_tenant_listed:
  assumes "has_permission p ''webhooks:read''"
  shows "route_list_events db p None ty n = Inr (list_webhook_events db None ty n)"
    and "e \<in> set (wb_events db) \<Longrightarrow> length (wb_events db) \<le> n \<Longrightarrow> e \<in> set (list_webhook_events db None None n)"
  using assms by (auto simp: route_list_events_def require_permission_def truthy_str_def list_webhook_events_def)

theorem published_once_per_subscription_witness:
  "\<exists>qm1 db1 w1. publish queue_store (\<lambda>x. x) 0 ''conversation.completed'' ''t'' [] None (Some ''e1'') (qm_init qf_default False 0) demo_webhooks empty_view
       = (PublishedAs ''e1'', qm1, db1, w1) \<and> qm_memory qm1 = [keyed (\<lambda>x. x) 0 ''e1'' ''t'' demo_sub]"
proof -
  obtain r qm1 db1 w1 where p: "publish queue_store (\<lambda>x. x) 0 ''conversation.completed'' ''t'' [] None (Some ''e1'')
      (qm_init qf_default False 0) demo_webhooks empty_view = (r, qm1, db1, w1)" by (metis prod_cases4)
  obtain r' qm2 db2 w2 where p': "publish queue_store (\<lambda>x. x) 9 ''conversation.completed'' ''t'' [] None (Some ''e1'') qm1 db1 w1
      = (r', qm2, db2, w2)" by (metis prod_cases4)
  have m: "matching demo_webhooks ''t'' ''conversation.completed'' = [demo_sub]" by (simp add: demo_hooks)
  from published_once_per_subscription [OF _ _ _ p p'] m have "qm_memory qm1 = [keyed (\<lambda>x. x) 0 ''e1'' ''t'' demo_sub] \<and> r = PublishedAs ''e1''"
    by (simp add: qm_init_def demo_webhooks_def)
  with p show ?thesis by auto
qed

theorem relay_settles_oldest_witness:
  "count_pending (snd (ob_record ''o1'' ''t'' ''x'' [] None demo_webhooks)) = 1 \<and>
   count_pending (fst (snd (snd (relay_drain queue_store (\<lambda>x. x) 0 50 (demo_redis_manager 0) (snd (ob_record ''o1'' ''t'' ''x'' [] None demo_webhooks)) empty_view)))) = 0"
proof -
  let ?db = "snd (ob_record ''o1'' ''t'' ''x'' [] None demo_webhooks)"
  have "distinct (map ob_event_id (wb_outbox ?db))" "count_pending ?db = 1"
    by (simp_all add: ob_record_def demo_webhooks_def count_pending_def)
  moreover obtain n qm' db' w' where "relay_drain queue_store (\<lambda>x. x) 0 50 (demo_redis_manager 0) ?db empty_view = (n, qm', db', w')"
    by (metis prod_cases4)
  ultimately show ?thesis using relay_settles_oldest [of ?db queue_store "\<lambda>x. x" 0 50] by simp
qed

end
