(* ===== verification/Ingestion.thy ===== *)
theory Ingestion
  imports Job_Queue
begin

text \<open>
  Ingestion of documents (\<open>application/ingestion/service.py\<close>, \<open>models.py\<close>): format detection, the four chunking strategies, the admission
  checks and the job of a document, and the job handler \<open>handle_ingestion_process\<close> of \<open>worker/handlers.py\<close>. SHA-256 is a parameter.
  Sizes and offsets are Python integers. The loop of the fixed-size strategy is a partial function: it does not end when the overlap
  reaches the chunk size.
\<close>

section \<open>Definitions\<close>

subsection \<open>Python's slices and \<open>str.split\<close> with a separator\<close>

definition py_slice :: "'a list \<Rightarrow> int \<Rightarrow> int \<Rightarrow> 'a list" where
  "py_slice s i j =
     (let n = int (length s); clip = (\<lambda>i. nat (if i < 0 then max 0 (i + n) else min i n))
      in take (clip j - clip i) (drop (clip i) s))"

function split_str :: "string \<Rightarrow> string \<Rightarrow> string list" where
  "split_str sep [] = [[]]"
| "split_str sep (c # cs) =
     (if sep \<noteq> [] \<and> take (length sep) (c # cs) = sep then [] # split_str sep (drop (length sep) (c # cs))
      else (c # hd (split_str sep cs)) # tl (split_str sep cs))"
  by pat_completeness auto
termination by (relation "measure (\<lambda>(sep, s). length s)") auto

text \<open>\<open>None\<close>: the \<open>ValueError\<close> of an empty separator.\<close>

definition py_split_str :: "string \<Rightarrow> string \<Rightarrow> string list option" where
  "py_split_str sep s = (if sep = [] then None else Some (split_str sep s))"

subsection \<open>Models\<close>

datatype document_status = DocPending | DocProcessing | DocIndexed | DocFailed

datatype chunking_strategy = FixedSize | Sentence | Paragraph | Recursive

record chunk =
  ck_id :: string
  ck_content :: string
  ck_start_offset :: int
  ck_end_offset :: int

record ingestion_job =
  ij_id :: string
  ij_tenant_id :: "string option"
  ij_document_id :: string
  ij_source :: string
  ij_content :: string
  ij_metadata :: payload
  ij_status :: document_status
  ij_chunks :: "chunk list"
  ij_error :: "string option"
  ij_created_at :: time
  ij_completed_at :: "time option"

record ingestion_config =
  ig_strategy :: chunking_strategy
  ig_chunk_size :: int
  ig_chunk_overlap :: int
  ig_separators :: "string list"
  ig_max_document_size :: nat
  ig_supported_formats :: "string list"
  ig_max_concurrent_jobs :: nat
  ig_deduplication_enabled :: bool

definition newline :: char where
  "newline = CHR 0x0A"

definition default_separators :: "string list" where
  "default_separators = [[newline, newline], [newline], ''. '', '' '', '''']"

definition ig_default :: ingestion_config where
  "ig_default = \<lparr>ig_strategy = Recursive, ig_chunk_size = 512, ig_chunk_overlap = 50, ig_separators = default_separators,
     ig_max_document_size = 10 * 1024 * 1024, ig_supported_formats = [''txt'', ''md'', ''pdf'', ''docx'', ''html'', ''json'', ''csv''],
     ig_max_concurrent_jobs = 10, ig_deduplication_enabled = True\<rparr>"

datatype ingestion_error =
    UnsupportedFormatError string
  | DocumentTooLargeError nat nat
  | DuplicateDocumentError string
  | IngestionError string

record ingestion_service =
  is_config :: ingestion_config
  is_jobs :: "ingestion_job list"
  is_content_hashes :: "string set"
  is_active_jobs :: nat

subsection \<open>Chunking\<close>

definition chunk_name :: "nat \<Rightarrow> string" where
  "chunk_name k = ''chunk-'' @ py_str_nat k"

partial_function (option) fixed_loop :: "string \<Rightarrow> int \<Rightarrow> int \<Rightarrow> int \<Rightarrow> nat \<Rightarrow> chunk list option" where
  "fixed_loop content csize overlap start k =
     (if start < int (length content)
      then let stop = min (start + csize) (int (length content))
           in Option.bind (fixed_loop content csize overlap (start + (csize - overlap)) (k + 1))
                (\<lambda>cs. Some (\<lparr>ck_id = chunk_name k, ck_content = py_slice content start stop, ck_start_offset = start, ck_end_offset = stop\<rparr> # cs))
      else Some [])"

definition chunk_fixed_size :: "string \<Rightarrow> int \<Rightarrow> int \<Rightarrow> chunk list option" where
  "chunk_fixed_size content csize overlap = fixed_loop content csize overlap 0 0"

text \<open>The loop the other strategies share: pieces are joined with the separator while the length of the parts stays within the size.\<close>

fun pack :: "int \<Rightarrow> string \<Rightarrow> string \<Rightarrow> string list \<Rightarrow> string list" where
  "pack csize sep cur [] = (if cur = [] then [] else [cur])"
| "pack csize sep cur (p # ps) =
     (if int (length cur) + int (length p) \<le> csize then pack csize sep (if cur = [] then p else cur @ sep @ p) ps
      else (if cur = [] then [] else [cur]) @ pack csize sep p ps)"

fun number_chunks :: "(string \<Rightarrow> string) \<Rightarrow> int \<Rightarrow> nat \<Rightarrow> string list \<Rightarrow> chunk list" where
  "number_chunks f off k [] = []"
| "number_chunks f off k (s # ss) =
     \<lparr>ck_id = chunk_name k, ck_content = f s, ck_start_offset = off, ck_end_offset = off + int (length s)\<rparr>
       # number_chunks f (off + int (length s)) (k + 1) ss"

text \<open>\<open>re.split(r"(?<=[.!?])\s+", content)\<close>: cut at the white space after a full stop, an exclamation or a question mark. The first
  argument is the text since the last cut, reversed.\<close>

definition sentence_end :: "char \<Rightarrow> bool" where
  "sentence_end c = (c = CHR ''.'' \<or> c = CHR ''!'' \<or> c = CHR ''?'')"

function split_sentences :: "string \<Rightarrow> string \<Rightarrow> string list" where
  "split_sentences acc [] = [rev acc]"
| "split_sentences acc (c # cs) =
     (if is_space c \<and> acc \<noteq> [] \<and> sentence_end (hd acc) then rev acc # split_sentences [] (dropWhile is_space cs)
      else split_sentences (c # acc) cs)"
  by pat_completeness auto
termination
  by (relation "measure (\<lambda>(acc, s). length s)") (auto simp: less_Suc_eq_le length_dropWhile_le)

definition chunk_by_sentence :: "string \<Rightarrow> int \<Rightarrow> chunk list" where
  "chunk_by_sentence content csize = number_chunks py_strip 0 0 (pack csize '' '' [] (split_sentences [] content))"

definition chunk_by_paragraph :: "string \<Rightarrow> int \<Rightarrow> chunk list" where
  "chunk_by_paragraph content csize =
     number_chunks (\<lambda>s. s) 0 0 (pack csize [newline, newline] []
       (filter (\<lambda>p. p \<noteq> []) (map py_strip (split_str [newline, newline] content))))"

text \<open>One pass over the pieces with one separator, and the passes in order.\<close>

fun split_pass :: "int \<Rightarrow> string \<Rightarrow> string list \<Rightarrow> string list option" where
  "split_pass csize sep [] = Some []"
| "split_pass csize sep (s # ss) =
     (if int (length s) \<le> csize then map_option (\<lambda>r. s # r) (split_pass csize sep ss)
      else case py_split_str sep s of
             None \<Rightarrow> None
           | Some parts \<Rightarrow> map_option (\<lambda>r. pack csize sep [] parts @ r) (split_pass csize sep ss))"

fun split_passes :: "int \<Rightarrow> string list \<Rightarrow> string list \<Rightarrow> string list option" where
  "split_passes csize [] ss = Some ss"
| "split_passes csize (sep # seps) ss = Option.bind (split_pass csize sep ss) (split_passes csize seps)"

text \<open>Chunks with their overlap; \<open>prev\<close> is the text of the chunk before, if any.\<close>

fun overlap_chunks :: "int \<Rightarrow> string option \<Rightarrow> int \<Rightarrow> nat \<Rightarrow> string list \<Rightarrow> chunk list" where
  "overlap_chunks overlap prev start k [] = []"
| "overlap_chunks overlap prev start k (s # ss) =
     (let s1 = (case prev of
                  None \<Rightarrow> s
                | Some p \<Rightarrow> if 0 < overlap then (if overlap < int (length p) then drop (length p - nat overlap) p else p) @ s else s)
      in \<lparr>ck_id = chunk_name k, ck_content = s1, ck_start_offset = start, ck_end_offset = start + int (length s1)\<rparr>
           # overlap_chunks overlap (Some s1) (start + int (length s1) - (if prev = None then 0 else overlap)) (k + 1) ss)"

definition chunk_recursive :: "string \<Rightarrow> int \<Rightarrow> int \<Rightarrow> string list \<Rightarrow> chunk list option" where
  "chunk_recursive content csize overlap seps = map_option (overlap_chunks overlap None 0 0) (split_passes csize seps [content])"

text \<open>The outcome of chunking: chunks, the exception of \<open>split\<close>, or no return at all.\<close>

datatype chunking = Chunks "chunk list" | ChunkError string | ChunkHangs

definition chunk_document :: "ingestion_config \<Rightarrow> string \<Rightarrow> chunking" where
  "chunk_document cfg content =
     (if content = [] then Chunks []
      else case ig_strategy cfg of
             FixedSize \<Rightarrow> (case chunk_fixed_size content (ig_chunk_size cfg) (ig_chunk_overlap cfg) of None \<Rightarrow> ChunkHangs | Some cs \<Rightarrow> Chunks cs)
           | Sentence \<Rightarrow> Chunks (chunk_by_sentence content (ig_chunk_size cfg))
           | Paragraph \<Rightarrow> Chunks (chunk_by_paragraph content (ig_chunk_size cfg))
           | Recursive \<Rightarrow> (case chunk_recursive content (ig_chunk_size cfg) (ig_chunk_overlap cfg) (ig_separators cfg) of
                             None \<Rightarrow> ChunkError ''empty separator'' | Some cs \<Rightarrow> Chunks cs))"

subsection \<open>The service\<close>

definition after_last :: "char \<Rightarrow> string \<Rightarrow> string" where
  "after_last c s = rev (takeWhile (\<lambda>x. x \<noteq> c) (rev s))"

definition detect_format :: "ingestion_config \<Rightarrow> string \<Rightarrow> string \<Rightarrow> string" where
  "detect_format cfg source content =
     (let ext = if CHR ''.'' \<in> set source then py_lower (after_last (CHR ''.'') source) else []
      in if ext \<in> set (ig_supported_formats cfg) then ext
         else if content \<noteq> [] \<and> py_startswith ''{'' (py_strip content) then ''json''
         else if content \<noteq> [] \<and> py_startswith ''<'' (py_strip content) then ''html''
         else if ext = [] then ''txt'' else ext)"

definition content_hash :: "(string \<Rightarrow> string) \<Rightarrow> string \<Rightarrow> string \<Rightarrow> string" where
  "content_hash sha content source = sha (source @ '':'' @ take 5000 content)"

definition generate_document_id :: "(string \<Rightarrow> string) \<Rightarrow> string \<Rightarrow> string \<Rightarrow> string" where
  "generate_document_id sha content source = take 32 (sha (source @ '':'' @ take 1000 content))"

text \<open>\<open>ingest_document\<close>; \<open>None\<close>: chunking does not return.\<close>

definition ingest_document ::
  "(string \<Rightarrow> string) \<Rightarrow> string \<Rightarrow> time \<Rightarrow> string \<Rightarrow> string \<Rightarrow> string option \<Rightarrow> string option \<Rightarrow> payload \<Rightarrow> ingestion_service
     \<Rightarrow> ((ingestion_error + ingestion_job) \<times> ingestion_service) option" where
  "ingest_document sha fresh now content source tenant doc_id meta sv =
     (let cfg = is_config sv; fmt = detect_format cfg source content; h = content_hash sha content source
      in if fmt \<notin> set (ig_supported_formats cfg) then Some (Inl (UnsupportedFormatError fmt), sv)
         else if ig_max_document_size cfg < length content
           then Some (Inl (DocumentTooLargeError (length content) (ig_max_document_size cfg)), sv)
         else if ig_deduplication_enabled cfg \<and> h \<in> is_content_hashes sv then Some (Inl (DuplicateDocumentError (take 16 h)), sv)
         else if ig_max_concurrent_jobs cfg \<le> is_active_jobs sv then Some (Inl (IngestionError ''Max concurrent jobs reached''), sv)
         else let job = \<lparr>ij_id = fresh, ij_tenant_id = tenant, ij_document_id = str_or doc_id (generate_document_id sha content source),
                    ij_source = source, ij_content = content, ij_metadata = meta, ij_status = DocProcessing, ij_chunks = [], ij_error = None,
                    ij_created_at = now, ij_completed_at = None\<rparr>;
                  sv1 = sv\<lparr>is_content_hashes := (if ig_deduplication_enabled cfg then insert h else id) (is_content_hashes sv)\<rparr>
              in case chunk_document cfg content of
                   ChunkHangs \<Rightarrow> None
                 | Chunks cs \<Rightarrow>
                     (let j = job\<lparr>ij_chunks := cs, ij_status := DocIndexed, ij_completed_at := Some now\<rparr>
                      in Some (Inr j, sv1\<lparr>is_jobs := is_jobs sv @ [j]\<rparr>))
                 | ChunkError e \<Rightarrow>
                     Some (Inl (IngestionError e),
                       sv1\<lparr>is_jobs := is_jobs sv @ [job\<lparr>ij_status := DocFailed, ij_error := Some e, ij_completed_at := Some now\<rparr>]\<rparr>))"

definition get_job_status :: "string \<Rightarrow> ingestion_service \<Rightarrow> ingestion_job option" where
  "get_job_status i sv = find (\<lambda>j. ij_id j = i) (is_jobs sv)"

definition list_jobs :: "string option \<Rightarrow> ingestion_service \<Rightarrow> ingestion_job list" where
  "list_jobs tenant sv = py_sorted_desc ij_created_at (filter (\<lambda>j. tenant \<noteq> None \<longrightarrow> ij_tenant_id j = tenant) (is_jobs sv))"

definition job_statistics :: "ingestion_service \<Rightarrow> nat \<times> nat \<times> nat \<times> nat \<times> nat \<times> nat" where
  "job_statistics sv =
     (let c = (\<lambda>st. length (filter (\<lambda>j. ij_status j = st) (is_jobs sv)))
      in (length (is_jobs sv), c DocIndexed, c DocFailed, c DocProcessing, sum_list (map (length \<circ> ij_chunks) (is_jobs sv)), is_active_jobs sv))"

definition create_ingestion_service :: "chunking_strategy \<Rightarrow> int \<Rightarrow> int \<Rightarrow> nat \<Rightarrow> ingestion_service" where
  "create_ingestion_service strategy csize overlap max_size =
     \<lparr>is_config = ig_default\<lparr>ig_strategy := strategy, ig_chunk_size := csize, ig_chunk_overlap := overlap, ig_max_document_size := max_size\<rparr>,
      is_jobs = [], is_content_hashes = {}, is_active_jobs = 0\<rparr>"

subsection \<open>The job handler\<close>

definition chunk_json :: "chunk \<Rightarrow> json" where
  "chunk_json c = JObj [(''id'', JStr (ck_id c)), (''content'', JStr (ck_content c)), (''start_offset'', JInt (ck_start_offset c)),
     (''end_offset'', JInt (ck_end_offset c))]"

definition embed_key :: "string \<Rightarrow> string option \<Rightarrow> string" where
  "embed_key doc_id idem = ''embed:'' @ doc_id @ (if truthy_str idem then '':'' @ the idem else [])"

text \<open>Every job builds its own service. The payload's fields are read as text; \<open>uuid\<close> is the check that \<open>UUID(text)\<close> makes.\<close>

definition handle_ingestion_process ::
  "'w job_store \<Rightarrow> (string \<Rightarrow> bool) \<Rightarrow> (string \<Rightarrow> string) \<Rightarrow> (string \<Rightarrow> string) \<Rightarrow> time \<Rightarrow> payload \<Rightarrow> queue_manager \<Rightarrow> 'w
     \<Rightarrow> ((string + unit) \<times> queue_manager \<times> 'w) option" where
  "handle_ingestion_process S uuid sha fresh now p qm w =
     (let txt = (\<lambda>k. Option.bind (map_of p k) j_str); content = txt ''content''; source = str_or (txt ''source'') []; tenant = txt ''tenant_id''
      in if \<not> truthy_str content then Some (Inl ''ingestion.process requires content'', qm, w)
         else if truthy_str tenant \<and> \<not> uuid (the tenant) then Some (Inl ''badly formed hexadecimal UUID string'', qm, w)
         else case ingest_document sha (fresh ''job'') now (the content) source (if truthy_str tenant then tenant else None) (txt ''document_id'')
                     (get_or (Option.bind (map_of p ''metadata'') j_obj) []) (create_ingestion_service Recursive 512 50 (10 * 1024 * 1024)) of
                None \<Rightarrow> None
              | Some (Inl e, _) \<Rightarrow> Some (Inl ''ingestion failed'', qm, w)
              | Some (Inr j, _) \<Rightarrow>
                  if ij_chunks j = [] then Some (Inr (), qm, w)
                  else let follow = \<lparr>jb_id = fresh ''embed'', jb_type = ''ingestion.embed'',
                             jb_payload = [(''chunks'', JList (map chunk_json (ij_chunks j))),
                               (''tenant_id'', case tenant of None \<Rightarrow> JNull | Some t \<Rightarrow> JStr t), (''document_id'', JStr (ij_document_id j)),
                               (''source'', JStr (ij_source j)), (''embedding_dim'', get_or (map_of p ''embedding_dim'') JNull)],
                             jb_priority = 0, jb_scheduled_at = None, jb_created_at = now, jb_retries = 0, jb_max_retries = 3, jb_error = None,
                             jb_trace_id = []\<rparr>
                       in case enqueue S now (Some (embed_key (ij_document_id j) (txt ''_idem''))) follow qm w of
                            (None, qm1, w1) \<Rightarrow> Some (Inl ''enqueue failed'', qm1, w1)
                          | (Some _, qm1, w1) \<Rightarrow> Some (Inr (), qm1, w1))"

section \<open>Lemmas\<close>

subsection \<open>Splitting\<close>

lemma split_str_not_Nil [simp]: "split_str sep s \<noteq> []"
  by (cases s) auto

lemma join_parts_Cons: "ps \<noteq> [] \<Longrightarrow> py_join sep (p # ps) = p @ sep @ py_join sep ps"
  by (cases ps) auto

lemma py_join_hd: "ps \<noteq> [] \<Longrightarrow> py_join sep ((c # hd ps) # tl ps) = c # py_join sep ps"
  by (cases ps rule: py_join.cases [of "(sep, ps)" for ps, simplified]) (cases "tl ps"; cases ps; auto)+

lemma join_split_str: "py_join sep (split_str sep s) = s"
proof (induction sep s rule: split_str.induct)
  case (2 sep c cs)
  show ?case
  proof (cases "sep \<noteq> [] \<and> take (length sep) (c # cs) = sep")
    case True
    then show ?thesis using 2(1) by (simp add: join_parts_Cons) (metis append_take_drop_id)
  next
    case False
    then show ?thesis using 2(2) by (auto simp: py_join_hd)
  qed
qed simp

lemma split_str_hd_prefix: "\<exists>t. s = hd (split_str sep s) @ t"
proof -
  obtain p ps where "split_str sep s = p # ps" by (meson neq_Nil_conv split_str_not_Nil)
  then show ?thesis using join_split_str [of sep s] by (cases ps) (auto simp: join_parts_Cons)
qed

lemma split_str_parts: "sep \<noteq> [] \<Longrightarrow> p \<in> set (split_str sep s) \<Longrightarrow> \<not> py_in sep p"
proof (induction sep s arbitrary: p rule: split_str.induct)
  case (2 sep c cs)
  show ?case
  proof (cases "take (length sep) (c # cs) = sep")
    case True
    then show ?thesis using 2 by auto
  next
    case False
    obtain t where t: "cs = hd (split_str sep cs) @ t" using split_str_hd_prefix by metis
    have "\<not> py_in sep (c # hd (split_str sep cs))"
    proof
      assume "py_in sep (c # hd (split_str sep cs))"
      moreover have "\<not> py_in sep (hd (split_str sep cs))"
        using "2.IH"(2) False "2.prems"(1) list.set_sel(1) [OF split_str_not_Nil [of sep cs]] by blast
      ultimately have "take (length sep) (c # hd (split_str sep cs)) = sep" by simp
      then have "take (length sep) (c # cs) = sep" by (subst t) (metis append_Cons append_take_drop_id append_eq_conv_conj take_add append.assoc)
      then show False using False by simp
    qed
    moreover have "q \<in> set (tl (split_str sep cs)) \<Longrightarrow> \<not> py_in sep q" for q
      using "2.IH"(2) False "2.prems"(1) by (meson list.set_sel(2) split_str_not_Nil)
    ultimately show ?thesis using "2.prems"(2) False by auto
  qed
qed simp

lemma filter_join: "(\<And>c. P c \<Longrightarrow> c \<notin> set sep) \<Longrightarrow> filter P (py_join sep ps) = filter P (concat ps)"
  by (induction sep ps rule: py_join.induct) (auto simp: filter_empty_conv)

lemma filter_split_str: "(\<And>c. P c \<Longrightarrow> c \<notin> set sep) \<Longrightarrow> filter P (concat (split_str sep s)) = filter P s"
  using filter_join [of P sep "split_str sep s"] join_split_str [of sep s] by simp

subsection \<open>Packing\<close>

text \<open>Packing keeps every character outside the separator, in order.\<close>

lemma filter_pack: "(\<And>c. P c \<Longrightarrow> c \<notin> set sep) \<Longrightarrow> filter P (concat (pack csize sep cur ps)) = filter P (cur @ concat ps)"
  by (induction ps arbitrary: cur) (auto simp: filter_empty_conv)

lemma pack_size: "s \<in> set (pack csize sep cur ps) \<Longrightarrow> int (length s) \<le> csize + int (length sep) \<or> s = cur \<or> s \<in> set ps"
  by (induction ps arbitrary: cur) (fastforce split: if_splits)+

lemma pack_no_Nil: "s \<in> set (pack csize sep cur ps) \<Longrightarrow> s \<noteq> []"
  by (induction ps arbitrary: cur) (auto split: if_splits)

lemma split_pass_returns: "sep \<noteq> [] \<Longrightarrow> \<exists>r. split_pass csize sep ss = Some r"
  by (induction ss) (auto simp: py_split_str_def)

lemma split_pass_keeps:
  "split_pass csize sep ss = Some r \<Longrightarrow> (\<And>c. P c \<Longrightarrow> c \<notin> set sep) \<Longrightarrow> filter P (concat r) = filter P (concat ss)"
  by (induction ss arbitrary: r) (auto simp: py_split_str_def filter_pack filter_split_str split: if_splits option.splits)

lemma split_pass_size:
  "split_pass csize sep ss = Some r \<Longrightarrow> s \<in> set r \<Longrightarrow> int (length s) \<le> csize + int (length sep) \<or> s = [] \<or> \<not> py_in sep s"
  by (induction ss arbitrary: r)
     (auto simp: py_split_str_def dest!: pack_size dest: split_str_parts split: if_splits option.splits)

lemma split_pass_empty_sep: "split_pass csize [] ss = (if \<exists>s\<in>set ss. csize < int (length s) then None else Some ss)"
  by (induction ss) (auto simp: py_split_str_def)

lemma split_passes_append: "split_passes csize (xs @ ys) ss = Option.bind (split_passes csize xs ss) (split_passes csize ys)"
  by (induction xs arbitrary: ss) (auto split: bind_splits)

lemma split_passes_keep:
  "\<lbrakk>split_passes csize seps ss = Some r; \<And>c sep. P c \<Longrightarrow> sep \<in> set seps \<Longrightarrow> c \<notin> set sep\<rbrakk> \<Longrightarrow> filter P (concat r) = filter P (concat ss)"
proof (induction seps arbitrary: ss)
  case (Cons sep seps)
  then obtain q where q: "split_pass csize sep ss = Some q" "split_passes csize seps q = Some r" by (auto split: bind_splits)
  from Cons.IH [OF q(2)] split_pass_keeps [OF q(1), of P] Cons.prems(2) show ?case by simp
qed simp

lemma split_passes_return: "[] \<notin> set seps \<Longrightarrow> \<exists>r. split_passes csize seps ss = Some r"
proof (induction seps arbitrary: ss)
  case (Cons sep seps)
  then obtain r where "split_pass csize sep ss = Some r" using split_pass_returns [of sep csize ss] by auto
  then show ?case using Cons by simp
qed simp

subsection \<open>Overlap\<close>

lemma overlap_chunks_text: "\<exists>hs. length hs = length ss \<and> map ck_content (overlap_chunks overlap prev start k ss) = map2 (@) hs ss
    \<and> (\<forall>h\<in>set hs. length h \<le> nat overlap)"
proof (induction ss arbitrary: prev start k)
  case (Cons s ss)
  let ?h = "case prev of None \<Rightarrow> [] | Some p \<Rightarrow> if 0 < overlap then (if overlap < int (length p) then drop (length p - nat overlap) p else p) else []"
  obtain hs where "length hs = length ss" "\<forall>h\<in>set hs. length h \<le> nat overlap"
    "map ck_content (tl (overlap_chunks overlap prev start k (s # ss))) = map2 (@) hs ss"
    using Cons.IH by (fastforce simp: Let_def)
  moreover have "length ?h \<le> nat overlap" by (auto split: option.split)
  moreover have "ck_content (hd (overlap_chunks overlap prev start k (s # ss))) = ?h @ s" by (auto simp: Let_def split: option.split)
  ultimately show ?case by (intro exI [of _ "?h # hs"]) (auto simp: Let_def split: option.split)
qed simp

subsection \<open>The fixed-size loop\<close>

lemma py_slice_drop: "0 \<le> i \<Longrightarrow> i \<le> int (length s) \<Longrightarrow> py_slice s i (min (i + n) (int (length s))) = take (nat n) (drop (nat i) s)" if "0 \<le> n"
  using that by (auto simp: py_slice_def Let_def min_def nat_add_distrib intro!: take_all)

text \<open>The loop returns from every start when it advances, and its chunks, cut to the step, make up the text.\<close>

definition fixed_ok :: "string \<Rightarrow> int \<Rightarrow> chunk \<Rightarrow> bool" where
  "fixed_ok content csize c \<longleftrightarrow> ck_content c = py_slice content (ck_start_offset c) (ck_end_offset c)
     \<and> ck_content c \<noteq> [] \<and> int (length (ck_content c)) \<le> csize"

lemma fixed_loop_returns:
  assumes "0 \<le> overlap" "overlap < csize" "0 \<le> start"
  shows "\<exists>cs. fixed_loop content csize overlap start k = Some cs \<and> (\<forall>c\<in>set cs. fixed_ok content csize c)
    \<and> concat (map (\<lambda>c. take (nat (csize - overlap)) (ck_content c)) cs) = drop (nat start) content"
  using assms(3)
proof (induction "nat (int (length content) - start)" arbitrary: start k rule: less_induct)
  case less
  show ?case
  proof (cases "start < int (length content)")
    case False
    then show ?thesis by (simp add: fixed_loop.simps [of _ _ _ start])
  next
    case True
    let ?step = "csize - overlap" and ?stop = "min (start + csize) (int (length content))"
    have "nat (int (length content) - (start + ?step)) < nat (int (length content) - start)" using assms True by auto
    from less.hyps [OF this, of "k + 1"] less.prems assms obtain cs where
      cs: "fixed_loop content csize overlap (start + ?step) (k + 1) = Some cs" "\<forall>c\<in>set cs. fixed_ok content csize c"
        "concat (map (\<lambda>c. take (nat ?step) (ck_content c)) cs) = drop (nat (start + ?step)) content" by auto
    have t: "py_slice content start ?stop = take (nat csize) (drop (nat start) content)"
      using py_slice_drop [of csize start content] less.prems assms True by simp
    have n: "nat (start + ?step) = nat start + nat ?step" using less.prems assms by (simp add: nat_add_distrib)
    have "take (nat ?step) (take (nat csize) (drop (nat start) content)) @ drop (nat (start + ?step)) content = drop (nat start) content"
      using assms unfolding n by (simp add: min_def) (metis add.commute append_take_drop_id drop_drop)
    moreover have "take (nat csize) (drop (nat start) content) \<noteq> []" using assms True less.prems by auto
    ultimately show ?thesis using cs t assms
      by (subst fixed_loop.simps) (auto simp: True Let_def fixed_ok_def)
  qed
qed

lemma fixed_loop_hangs: "csize \<le> overlap \<Longrightarrow> start < int (length content) \<Longrightarrow> fixed_loop content csize overlap start k = None"
proof (rule ccontr)
  assume a: "csize \<le> overlap" "start < int (length content)" "fixed_loop content csize overlap start k \<noteq> None"
  then obtain y where "fixed_loop content csize overlap start k = Some y" by auto
  then have "csize \<le> overlap \<longrightarrow> int (length content) \<le> start"
  proof (rule fixed_loop.raw_induct [rotated], goal_cases)
    case (1 f content csize overlap start k y)
    then show ?case by (fastforce simp: Let_def split: if_splits bind_splits)
  qed
  with a show False by simp
qed

section \<open>Properties\<close>

text \<open>Fixed-size chunking returns exactly when the overlap is smaller than the chunk size; then every chunk is the slice its offsets
  name, none is longer than the size, and the chunks less their overlaps are the text.\<close>

theorem fixed_size_covers:
  assumes "0 \<le> overlap" "content \<noteq> []"
  shows "if overlap < csize
    then \<exists>cs. chunk_fixed_size content csize overlap = Some cs \<and> (\<forall>c\<in>set cs. fixed_ok content csize c)
      \<and> concat (map (\<lambda>c. take (nat (csize - overlap)) (ck_content c)) cs) = content
    else chunk_fixed_size content csize overlap = None"
  using fixed_loop_returns [of overlap csize 0 content 0] fixed_loop_hangs [of csize overlap 0 content 0] assms
  by (simp add: chunk_fixed_size_def)

text \<open>C22: Recursive chunking with non-empty separators returns, loses no character outside the separators, and every chunk is at most the
  overlap followed by one piece of the text; a piece is longer than the size by at most its separator unless it cannot be
  split further.\<close>

theorem recursive_chunks_keep_text:
  assumes "[] \<notin> set (seps @ [sep])" "\<And>c s. P c \<Longrightarrow> s \<in> set (seps @ [sep]) \<Longrightarrow> c \<notin> set s"
  shows "\<exists>cs hs pieces. chunk_recursive content csize overlap (seps @ [sep]) = Some cs
    \<and> map ck_content cs = map2 (@) hs pieces \<and> length hs = length pieces \<and> (\<forall>h\<in>set hs. length h \<le> nat overlap)
    \<and> filter P (concat pieces) = filter P content
    \<and> (\<forall>s\<in>set pieces. int (length s) \<le> csize + int (length sep) \<or> s = [] \<or> \<not> py_in sep s)"
proof -
  obtain q where q0: "split_passes csize seps [content] = Some q" using split_passes_return [of seps csize "[content]"] assms(1) by auto
  obtain pieces where q: "split_pass csize sep q = Some pieces" using split_pass_returns [of sep csize q] assms(1) by auto
  with q0 have r: "split_passes csize (seps @ [sep]) [content] = Some pieces" by (simp add: split_passes_append)
  obtain hs where "length hs = length pieces" "\<forall>h\<in>set hs. length h \<le> nat overlap"
    "map ck_content (overlap_chunks overlap None 0 0 pieces) = map2 (@) hs pieces" using overlap_chunks_text by blast
  moreover have "filter P (concat pieces) = filter P content" using split_passes_keep [OF r assms(2)] by simp
  ultimately show ?thesis using split_pass_size [OF q] r by (auto simp: chunk_recursive_def)
qed

text \<open>The last of the default separators is empty, and \<open>split\<close> refuses it: chunking raises exactly when a piece is still too long before that pass.\<close>

theorem recursive_chunking_raises_iff:
  assumes "[] \<notin> set seps"
  shows "chunk_recursive content csize overlap (seps @ [[]]) = None
    \<longleftrightarrow> (\<exists>pieces. split_passes csize seps [content] = Some pieces \<and> (\<exists>s\<in>set pieces. csize < int (length s)))"
  using split_passes_return [OF assms, of csize "[content]"]
  by (auto simp: chunk_recursive_def split_passes_append split_pass_empty_sep split: if_splits)

lemma split_str_none: "sep \<noteq> [] \<Longrightarrow> \<not> py_in sep s \<Longrightarrow> split_str sep s = [s]"
  by (induction s) auto

lemma split_str_char: "c \<notin> set u \<Longrightarrow> split_str [c] (u @ c # v) = u # split_str [c] v"
  by (induction u) auto

lemma py_in_chars: "py_in m s \<Longrightarrow> set m \<subseteq> set s"
  by (auto simp: py_in_iff)

lemma split_pass_whole:
  "sep \<noteq> [] \<Longrightarrow> \<not> py_in sep s \<Longrightarrow> s \<noteq> [] \<Longrightarrow> csize < int (length s) \<Longrightarrow> split_pass csize sep [s] = Some [s]"
  by (simp add: py_split_str_def split_str_none)

text \<open>C40: Two words that fit the size exactly are joined to a piece one character too long, so a document of the two raises with the
  default separators: the separator is not counted.\<close>

theorem exact_fit_raises:
  assumes "u \<noteq> []" "v \<noteq> []" "int (length u + length v) = csize"
    and "set (u @ v) \<inter> {newline, CHR ''.'', CHR '' ''} = {}"
  shows "chunk_recursive (u @ '' '' @ v) csize overlap default_separators = None"
proof -
  let ?t = "u @ '' '' @ v"
  have n: "newline \<noteq> CHR '' ''" by (simp add: newline_def)
  have "\<not> py_in [newline, newline] ?t" "\<not> py_in [newline] ?t" "\<not> py_in ''. '' ?t" using assms(4) n by (auto dest!: py_in_chars)
  then have p: "split_pass csize [newline, newline] [?t] = Some [?t]" "split_pass csize [newline] [?t] = Some [?t]"
      "split_pass csize ''. '' [?t] = Some [?t]"
    using assms(3) by (simp_all add: split_pass_whole del: split_pass.simps)
  have "split_pass csize '' '' [?t] = Some [?t]"
  proof -
    have "split_str '' '' v = [v]" using assms(4) by (intro split_str_none) (auto dest!: py_in_chars)
    then show ?thesis using assms split_str_char [of "CHR '' ''" u v] by (simp add: py_split_str_def)
  qed
  moreover have "split_pass csize [] [?t] = None" using assms(3) by (simp add: py_split_str_def)
  ultimately show ?thesis using p
    by (simp add: chunk_recursive_def default_separators_def del: split_pass.simps append.simps)
qed

text \<open>Chunks of sentences are within the size and one separator, or a single sentence.\<close>

lemma number_chunks_content: "c \<in> set (number_chunks f off k ss) \<Longrightarrow> \<exists>s\<in>set ss. ck_content c = f s"
  by (induction ss arbitrary: off k) fastforce+

theorem sentence_chunks_bounded:
  assumes "c \<in> set (chunk_by_sentence content csize)"
  shows "(\<exists>s. ck_content c = py_strip s \<and> int (length s) \<le> csize + 1) \<or> (\<exists>s\<in>set (split_sentences [] content). ck_content c = py_strip s)"
  using assms unfolding chunk_by_sentence_def
  by (auto dest!: number_chunks_content) (metis (no_types) One_nat_def list.size(3,4) of_nat_1 pack_no_Nil pack_size add_0)

text \<open>An ingestion never keeps its slot, and one whose chunking raises leaves the hash of the document behind: the same document is
  then refused as a duplicate of one that was never indexed.\<close>

theorem failed_document_is_duplicate:
  assumes "ingest_document sha fresh now content source tenant doc_id meta sv = Some (Inl (IngestionError e), sv1)"
    and "chunk_document (is_config sv) content = ChunkError e" "ig_deduplication_enabled (is_config sv)"
    and "is_active_jobs sv < ig_max_concurrent_jobs (is_config sv)"
  shows "is_active_jobs sv1 = is_active_jobs sv \<and> (\<forall>j\<in>set (is_jobs sv1) - set (is_jobs sv). ij_status j = DocFailed)
    \<and> ingest_document sha fresh' later content source tenant' doc_id' meta' sv1
        = Some (Inl (DuplicateDocumentError (take 16 (content_hash sha content source))), sv1)"
  using assms by (auto simp: ingest_document_def Let_def split: if_splits)

lemma ingest_keeps_slots: "ingest_document sha fresh now content source tenant doc_id meta sv = Some (r, sv1) \<Longrightarrow> is_active_jobs sv1 = is_active_jobs sv"
  by (auto simp: ingest_document_def Let_def split: if_splits chunking.splits)

text \<open>The hash covers the first 5000 characters: a document that differs later is refused.\<close>

theorem long_documents_collide:
  assumes "take 5000 content' = take 5000 content" "length content' = length content"
    and "ingest_document sha fresh now content source tenant doc_id meta sv = Some (Inr j, sv1)" "ig_deduplication_enabled (is_config sv)"
    and "detect_format (is_config sv) source content' = detect_format (is_config sv) source content"
  shows "ingest_document sha fresh' later content' source tenant' doc_id' meta' sv1
    = Some (Inl (DuplicateDocumentError (take 16 (content_hash sha content source))), sv1)"
  using assms by (auto simp: ingest_document_def Let_def content_hash_def split: if_splits chunking.splits)

subsection \<open>Witnesses\<close>

theorem fixed_size_covers_witness:
  "(\<exists>cs. chunk_fixed_size ''abcdefg'' 4 1 = Some cs \<and> concat (map (\<lambda>c. take 3 (ck_content c)) cs) = ''abcdefg'')
   \<and> chunk_fixed_size ''abcdefg'' 4 4 = None"
  using fixed_size_covers [of 1 "''abcdefg''" 4] fixed_size_covers [of 4 "''abcdefg''" 4] by auto

theorem recursive_chunks_keep_text_witness:
  "\<exists>cs pieces. chunk_recursive ''ab cd ef'' 5 1 ['' ''] = Some cs \<and> length cs = length pieces \<and> filter (\<lambda>c. c \<noteq> CHR '' '') (concat pieces) = ''abcdef''"
proof -
  obtain cs hs pieces where "chunk_recursive ''ab cd ef'' 5 1 ['' ''] = Some cs" "map ck_content cs = map2 (@) hs pieces"
    "length hs = length pieces" "filter (\<lambda>c. c \<noteq> CHR '' '') (concat pieces) = filter (\<lambda>c. c \<noteq> CHR '' '') ''ab cd ef''"
    using recursive_chunks_keep_text [of "[]" "'' ''" "\<lambda>c. c \<noteq> CHR '' ''" "''ab cd ef''" 5 1] by auto
  then show ?thesis by (intro exI [of _ cs] exI [of _ pieces]) (auto dest!: arg_cong [of "map ck_content cs" _ length])
qed

theorem exact_fit_raises_witness: "chunk_recursive ''abc defgh'' 8 2 default_separators = None"
  using exact_fit_raises [of "''abc''" "''defgh''" 8 2] by (simp add: newline_def)

theorem recursive_chunking_raises_iff_witness: "chunk_recursive ''abcdef'' 5 1 ['' '', []] = None \<and> chunk_recursive ''abc def'' 5 1 ['' '', []] \<noteq> None"
  using recursive_chunking_raises_iff [of "['' '']" "''abcdef''" 5 1] recursive_chunking_raises_iff [of "['' '']" "''abc def''" 5 1]
  by (simp add: py_split_str_def)

end
