(* ===== verification/Lexical_Index.thy ===== *)
theory Lexical_Index
  imports Py_Json
begin

text \<open>
  The lexical index of hybrid retrieval (\<open>BM25Index\<close> of \<open>application/retrieval/hybrid.py\<close>): an inverted index that is kept up to date as documents
  come and go, and its Okapi BM25 search. Dictionaries are association lists in the order of insertion; the logarithm and
  the order in which Python walks through \<open>set(terms)\<close> are parameters. A division by zero and a missing key are \<open>None\<close>.
\<close>

section \<open>Definitions\<close>

fun char_runs :: "(char \<Rightarrow> bool) \<Rightarrow> string \<Rightarrow> string \<Rightarrow> string list" where
  "char_runs P acc [] = (if acc = [] then [] else [rev acc])"
| "char_runs P acc (c # cs) =
     (if P c then char_runs P (c # acc) cs else if acc = [] then char_runs P [] cs else rev acc # char_runs P [] cs)"

definition tokenize :: "string \<Rightarrow> string list" where
  "tokenize s = char_runs (\<lambda>c. c \<in> set ''abcdefghijklmnopqrstuvwxyz0123456789'') [] (py_lower s)"

type_synonym stored_doc = "string \<times> string \<times> (string \<times> json) list"

record bm25 =
  bm_k1 :: rat
  bm_b :: rat
  bm_docs :: "(string \<times> stored_doc) list"
  bm_doc_len :: "(string \<times> nat) list"
  bm_freq :: "(string \<times> (string \<times> nat) list) list"
  bm_avgdl :: rat
  bm_n :: nat

definition bm_init :: "rat \<Rightarrow> rat \<Rightarrow> bm25" where
  "bm_init k1 b = \<lparr>bm_k1 = k1, bm_b = b, bm_docs = [], bm_doc_len = [], bm_freq = [], bm_avgdl = 0, bm_n = 0\<rparr>"

definition postings :: "(string \<times> (string \<times> nat) list) list \<Rightarrow> string \<Rightarrow> (string \<times> nat) list" where
  "postings freq t = get_or (map_of freq t) []"

definition add_token :: "string \<Rightarrow> string \<Rightarrow> (string \<times> (string \<times> nat) list) list \<Rightarrow> (string \<times> (string \<times> nat) list) list" where
  "add_token d t freq = AList.update t (AList.update d (get_or (map_of (postings freq t) d) 0 + 1) (postings freq t)) freq"

definition bm_remove :: "string \<Rightarrow> bm25 \<Rightarrow> bool \<times> bm25" where
  "bm_remove d ix =
     (if map_of (bm_docs ix) d = None then (False, ix)
      else let len = get_or (map_of (bm_doc_len ix) d) 0
           in (True, ix\<lparr>bm_doc_len := AList.delete d (bm_doc_len ix),
                bm_freq := filter (\<lambda>(t, pd). pd \<noteq> []) (map (\<lambda>(t, pd). (t, AList.delete d pd)) (bm_freq ix)),
                bm_docs := AList.delete d (bm_docs ix),
                bm_avgdl := (if 1 < bm_n ix then (bm_avgdl ix * of_nat (bm_n ix) - of_nat len) / of_nat (bm_n ix - 1) else 0),
                bm_n := bm_n ix - 1\<rparr>))"

definition bm_upsert :: "string \<Rightarrow> string \<Rightarrow> string option \<Rightarrow> (string \<times> json) list \<Rightarrow> bm25 \<Rightarrow> bm25" where
  "bm_upsert d doc tenant meta ix =
     (let ix1 = snd (bm_remove d ix); toks = tokenize doc; n = bm_n ix1 + 1
      in ix1\<lparr>bm_docs := AList.update d (doc, str_or tenant [], meta) (bm_docs ix1),
             bm_doc_len := AList.update d (length toks) (bm_doc_len ix1),
             bm_n := n,
             bm_freq := fold (add_token d) toks (bm_freq ix1),
             bm_avgdl := (bm_avgdl ix1 * of_nat (n - 1) + of_nat (length toks)) / of_nat n\<rparr>)"

definition bm_document :: "bm25 \<Rightarrow> string \<Rightarrow> stored_doc option" where
  "bm_document ix d = map_of (bm_docs ix) d"

definition term_weight :: "bm25 \<Rightarrow> rat \<Rightarrow> nat \<Rightarrow> nat \<Rightarrow> rat" where
  "term_weight ix idf len c =
     idf * (of_nat c * (bm_k1 ix + 1)) / (of_nat c + bm_k1 ix * (1 - bm_b ix + bm_b ix * of_nat len / bm_avgdl ix))"

fun score_docs :: "bm25 \<Rightarrow> string option \<Rightarrow> rat \<Rightarrow> (string \<times> nat) list \<Rightarrow> (string \<times> rat) list \<Rightarrow> (string \<times> rat) list option" where
  "score_docs ix tenant idf [] sc = Some sc"
| "score_docs ix tenant idf ((d, c) # pd) sc =
     (if tenant \<noteq> None \<and> map_of (bm_docs ix) d = None then None
      else if tenant \<noteq> None \<and> map_option (\<lambda>(_, tn, _). tn) (map_of (bm_docs ix) d) \<noteq> tenant then score_docs ix tenant idf pd sc
      else let len = get_or (map_of (bm_doc_len ix) d) 0
           in if bm_avgdl ix = 0 \<or> of_nat c + bm_k1 ix * (1 - bm_b ix + bm_b ix * of_nat len / bm_avgdl ix) = 0 then None
              else score_docs ix tenant idf pd (AList.update d (get_or (map_of sc d) 0 + term_weight ix idf len c) sc))"

definition term_idf :: "(rat \<Rightarrow> rat) \<Rightarrow> nat \<Rightarrow> nat \<Rightarrow> rat" where
  "term_idf lg n df = lg (1 + (of_nat n - of_nat df + 1/2) / (of_nat df + 1/2))"

fun score_terms :: "(rat \<Rightarrow> rat) \<Rightarrow> bm25 \<Rightarrow> string option \<Rightarrow> string list \<Rightarrow> (string \<times> rat) list \<Rightarrow> (string \<times> rat) list option" where
  "score_terms lg ix tenant [] sc = Some sc"
| "score_terms lg ix tenant (t # ts) sc =
     (let pd = postings (bm_freq ix) t
      in if pd = [] then score_terms lg ix tenant ts sc
         else Option.bind (score_docs ix tenant (term_idf lg (bm_n ix) (length pd)) pd sc) (score_terms lg ix tenant ts))"

definition bm_search ::
  "(rat \<Rightarrow> rat) \<Rightarrow> (string list \<Rightarrow> string list) \<Rightarrow> bm25 \<Rightarrow> string \<Rightarrow> string option \<Rightarrow> nat \<Rightarrow> (string \<times> rat) list option" where
  "bm_search lg walk ix query tenant top_k =
     (let terms = tokenize query
      in if terms = [] \<or> bm_n ix = 0 then Some []
         else map_option (\<lambda>sc. take top_k (py_sorted_desc snd sc)) (score_terms lg ix tenant (walk terms) []))"

section \<open>The specification\<close>

text \<open>An index is well formed when its tables are what the stored texts say.\<close>

definition doc_tf :: "bm25 \<Rightarrow> string \<Rightarrow> string \<Rightarrow> nat" where
  "doc_tf ix t d = (case map_of (bm_docs ix) d of None \<Rightarrow> 0 | Some (s, _) \<Rightarrow> count_list (tokenize s) t)"

definition doc_size :: "bm25 \<Rightarrow> string \<Rightarrow> nat" where
  "doc_size ix d = (case map_of (bm_docs ix) d of None \<Rightarrow> 0 | Some (s, _) \<Rightarrow> length (tokenize s))"

definition freq_ok :: "(string \<Rightarrow> string \<Rightarrow> nat) \<Rightarrow> (string \<times> (string \<times> nat) list) list \<Rightarrow> bool" where
  "freq_ok tf freq \<longleftrightarrow> distinct (map fst freq) \<and> (\<forall>(t, pd)\<in>set freq. distinct (map fst pd))
     \<and> (\<forall>t d. map_of (postings freq t) d = (if tf t d = 0 then None else Some (tf t d)))"

definition doc_tokens :: "stored_doc \<Rightarrow> nat" where
  "doc_tokens v = length (tokenize (fst v))"

definition bm_ok :: "bm25 \<Rightarrow> bool" where
  "bm_ok ix \<longleftrightarrow> distinct (map fst (bm_docs ix)) \<and> bm_n ix = length (bm_docs ix)
     \<and> (\<forall>d. map_of (bm_doc_len ix) d = (if map_of (bm_docs ix) d = None then None else Some (doc_size ix d)))
     \<and> freq_ok (doc_tf ix) (bm_freq ix)
     \<and> bm_avgdl ix * of_nat (bm_n ix) = of_nat (sum_list (map (doc_tokens \<circ> snd) (bm_docs ix)))"

definition doc_freq :: "bm25 \<Rightarrow> string \<Rightarrow> nat" where
  "doc_freq ix t = length (filter (\<lambda>(d, s, _). t \<in> set (tokenize s)) (bm_docs ix))"

definition index_score :: "(rat \<Rightarrow> rat) \<Rightarrow> bm25 \<Rightarrow> string list \<Rightarrow> string \<Rightarrow> rat" where
  "index_score lg ix ts d =
     sum_list (map (\<lambda>t. term_weight ix (term_idf lg (bm_n ix) (doc_freq ix t)) (doc_size ix d) (doc_tf ix t d))
       (filter (\<lambda>t. doc_tf ix t d \<noteq> 0) ts))"

text \<open>
  Okapi BM25 of a document, given as its list of tokens, in a collection of documents. It is written out from the formula and mentions no table of the
  index: \<open>f\<close> is the frequency of a term in the document, \<open>N\<close> the number of documents, \<open>n\<close> the number of those with the term, and the length of the
  document is set against the mean length.
\<close>

definition mean_length :: "string list list \<Rightarrow> rat" where
  "mean_length C = of_nat (\<Sum>D\<leftarrow>C. length D) / of_nat (length C)"

definition inverse_document_frequency :: "(rat \<Rightarrow> rat) \<Rightarrow> string list list \<Rightarrow> string \<Rightarrow> rat" where
  "inverse_document_frequency lg C t =
     (let N = of_nat (length C); n = of_nat (length (filter (\<lambda>D. t \<in> set D) C)) in lg (1 + (N - n + 1/2) / (n + 1/2)))"

definition okapi :: "(rat \<Rightarrow> rat) \<Rightarrow> rat \<Rightarrow> rat \<Rightarrow> string list list \<Rightarrow> string set \<Rightarrow> string list \<Rightarrow> rat" where
  "okapi lg k1 b C Q D =
     (\<Sum>t\<in>Q. let f = of_nat (count_list D t)
             in inverse_document_frequency lg C t * (f * (k1 + 1) / (f + k1 * (1 - b + b * (of_nat (length D) / mean_length C)))))"

text \<open>The tokens of all stored texts, of whatever tenant, and of one document.\<close>

definition corpus :: "bm25 \<Rightarrow> string list list" where
  "corpus ix = map (\<lambda>(_, s, _). tokenize s) (bm_docs ix)"

definition stored_tokens :: "bm25 \<Rightarrow> string \<Rightarrow> string list" where
  "stored_tokens ix d = (case map_of (bm_docs ix) d of None \<Rightarrow> [] | Some (s, _) \<Rightarrow> tokenize s)"

definition visible :: "bm25 \<Rightarrow> string option \<Rightarrow> string \<Rightarrow> bool" where
  "visible ix tenant d \<longleftrightarrow> (case map_of (bm_docs ix) d of None \<Rightarrow> False | Some (_, tn, _) \<Rightarrow> tenant = None \<or> tenant = Some tn)"

section \<open>Lemmas\<close>

subsection \<open>The frequency table\<close>

lemma postings_update: "postings (AList.update t pd freq) t' = (if t' = t then pd else postings freq t')"
  by (simp add: postings_def update_conv get_or_def)

lemma freq_ok_postings:
  assumes "freq_ok tf freq" shows "distinct (map fst (postings freq t))"
proof (cases "map_of freq t")
  case (Some pd)
  then show ?thesis using assms map_of_SomeD [OF Some] by (auto simp: freq_ok_def postings_def get_or_def)
qed (simp add: postings_def get_or_def)

lemma freq_ok_add_token:
  assumes "freq_ok tf freq" shows "freq_ok (\<lambda>t' d'. tf t' d' + (if t' = t \<and> d' = d then 1 else 0)) (add_token d t freq)"
proof -
  have "distinct (map fst (add_token d t freq))" using assms by (simp add: freq_ok_def add_token_def distinct_update)
  moreover have "distinct (map fst pd)" if "(t', pd) \<in> set (add_token d t freq)" for t' pd
  proof -
    have "(t', pd) \<in> set freq \<or> pd = AList.update d (get_or (map_of (postings freq t) d) 0 + 1) (postings freq t)"
      using that unfolding add_token_def by (metis calculation add_token_def fun_upd_apply map_of_eq_Some_iff map_of_SomeD option.inject update_conv)
    then show ?thesis using assms freq_ok_postings [OF assms, of t] by (auto simp: freq_ok_def distinct_update)
  qed
  moreover have e: "map_of (postings freq t') d' = (if tf t' d' = 0 then None else Some (tf t' d'))" for t' d'
    using assms by (simp add: freq_ok_def)
  have "map_of (postings (add_token d t freq) t') d' =
      (if tf t' d' + (if t' = t \<and> d' = d then 1 else 0) = 0 then None else Some (tf t' d' + (if t' = t \<and> d' = d then 1 else 0)))" for t' d'
    by (simp add: add_token_def postings_update update_conv e get_or_def)
  ultimately show ?thesis unfolding freq_ok_def by blast
qed

lemma freq_ok_add_tokens:
  "freq_ok tf freq \<Longrightarrow> freq_ok (\<lambda>t' d'. tf t' d' + (if d' = d then count_list ts t' else 0)) (fold (add_token d) ts freq)"
proof (induction ts arbitrary: tf freq)
  case (Cons t ts)
  have "(\<lambda>t' d'. tf t' d' + (if t' = t \<and> d' = d then 1 else 0) + (if d' = d then count_list ts t' else 0))
      = (\<lambda>t' d'. tf t' d' + (if d' = d then count_list (t # ts) t' else 0))" by (auto simp: fun_eq_iff)
  with Cons.IH [OF freq_ok_add_token [OF Cons.prems, of t d]] show ?case by simp
qed (simp cong: if_cong)

lemma map_of_filter_ne: "distinct (map fst xs) \<Longrightarrow> map_of (filter (\<lambda>(k, v). P v) xs) k = (case map_of xs k of None \<Rightarrow> None | Some v \<Rightarrow> if P v then Some v else None)"
  by (induction xs) (auto simp: dom_map_of_conv_image_fst map_of_eq_None_iff split: option.splits)

lemma freq_ok_delete:
  assumes "freq_ok tf freq"
  shows "freq_ok (\<lambda>t d'. if d' = d then 0 else tf t d') (filter (\<lambda>(t, pd). pd \<noteq> []) (map (\<lambda>(t, pd). (t, AList.delete d pd)) freq))"
proof -
  let ?f = "map (\<lambda>(t, pd). (t, AList.delete d pd)) freq"
  have dist: "distinct (map fst ?f)" using assms by (simp add: freq_ok_def comp_def split_beta)
  have m: "map_of ?f t = map_option (AList.delete d) (map_of freq t)" for t by (simp add: map_of_map)
  have p: "postings (filter (\<lambda>(t, pd). pd \<noteq> []) ?f) t = AList.delete d (postings freq t)" for t
    unfolding postings_def map_of_filter_ne [OF dist] m by (cases "map_of freq t") (auto simp: get_or_def)
  have "distinct (map fst (filter (\<lambda>(t, pd). pd \<noteq> []) ?f))" using dist by (metis (no_types) distinct_map_filter)
  moreover have "\<forall>(t, pd)\<in>set (filter (\<lambda>(t, pd). pd \<noteq> []) ?f). distinct (map fst pd)"
    using assms by (auto simp: freq_ok_def intro: distinct_delete)
  ultimately show ?thesis using assms by (auto simp: freq_ok_def p delete_conv)
qed

subsection \<open>The index stays well formed\<close>

lemma bm_okD:
  assumes "bm_ok ix"
  shows "distinct (map fst (bm_docs ix))" "bm_n ix = length (bm_docs ix)" "freq_ok (doc_tf ix) (bm_freq ix)"
    "map_of (bm_doc_len ix) d = (if map_of (bm_docs ix) d = None then None else Some (doc_size ix d))"
    "bm_avgdl ix * of_nat (bm_n ix) = of_nat (sum_list (map (doc_tokens \<circ> snd) (bm_docs ix)))"
  using assms by (auto simp: bm_ok_def)

lemma bm_init_ok [inv_rules]: "bm_ok (bm_init k1 b)"
  by (simp add: bm_ok_def bm_init_def freq_ok_def postings_def get_or_def doc_tf_def)

lemma delete_sum:
  assumes "distinct (map fst xs)" "map_of xs d = Some v"
  shows "length xs = Suc (length (AList.delete d xs))"
    and "sum_list (map (f \<circ> snd) xs) = f v + (sum_list (map (f \<circ> snd) (AList.delete d xs)) :: nat)"
  using assms by (induction xs) (auto split: if_splits)

lemma bm_remove_ok [inv_rules]: "bm_ok ix \<Longrightarrow> bm_ok (snd (bm_remove d ix))"
proof (cases "map_of (bm_docs ix) d")
  case (Some v)
  assume ok: "bm_ok ix"
  let ?ix = "snd (bm_remove d ix)"
  note I = bm_okD [OF ok]
  note del = delete_sum [OF I(1) Some]
  have docs: "bm_docs ?ix = AList.delete d (bm_docs ix)" "bm_n ?ix = bm_n ix - 1" using Some by (simp_all add: bm_remove_def Let_def)
  have len: "get_or (map_of (bm_doc_len ix) d) 0 = doc_tokens v" using I(4) [of d] Some by (auto simp: get_or_def doc_size_def doc_tokens_def split: prod.split)
  have tot: "bm_avgdl ix * of_nat (bm_n ix) = of_nat (doc_tokens v + sum_list (map (doc_tokens \<circ> snd) (bm_docs ?ix)))"
    using I(5) del(2) [of doc_tokens] unfolding docs by simp
  have "bm_avgdl ?ix * of_nat (bm_n ?ix) = of_nat (sum_list (map (doc_tokens \<circ> snd) (bm_docs ?ix)))"
  proof (cases "1 < bm_n ix")
    case True
    then have "bm_avgdl ?ix * of_nat (bm_n ?ix) = bm_avgdl ix * of_nat (bm_n ix) - of_nat (doc_tokens v)"
      using Some len by (simp add: bm_remove_def Let_def)
    then show ?thesis using tot by simp
  next
    case False
    then have "AList.delete d (bm_docs ix) = []" using I(2) del(1) by simp
    then show ?thesis using False Some docs by (simp add: bm_remove_def Let_def)
  qed
  moreover have "freq_ok (doc_tf ?ix) (bm_freq ?ix)"
  proof -
    have "doc_tf ?ix = (\<lambda>t d'. if d' = d then 0 else doc_tf ix t d')" by (simp add: fun_eq_iff doc_tf_def docs delete_conv)
    then show ?thesis using freq_ok_delete [OF I(3), of d] Some by (simp add: bm_remove_def Let_def)
  qed
  moreover have "map_of (bm_doc_len ?ix) d' = (if map_of (bm_docs ?ix) d' = None then None else Some (doc_size ?ix d'))" for d'
    using I(4) Some by (simp add: bm_remove_def Let_def delete_conv doc_size_def)
  moreover have "distinct (map fst (bm_docs ?ix))" using I(1) unfolding docs by (rule distinct_delete)
  ultimately show ?thesis using I(2) del(1) docs unfolding bm_ok_def by simp
qed (simp add: bm_remove_def)

lemma bm_remove_gone: "bm_ok ix \<Longrightarrow> map_of (bm_docs (snd (bm_remove d ix))) d = None"
  by (simp add: bm_remove_def Let_def delete_conv)

lemma update_new: "map_of xs d = None \<Longrightarrow> AList.update d v xs = xs @ [(d, v)]"
  by (induction xs) (auto split: if_splits)

lemma bm_upsert_ok [inv_rules]: "bm_ok ix \<Longrightarrow> bm_ok (bm_upsert d s tenant meta ix)"
proof -
  assume "bm_ok ix"
  define ix1 where "ix1 = snd (bm_remove d ix)"
  have ok: "bm_ok ix1" and gone: "map_of (bm_docs ix1) d = None"
    using bm_remove_ok [OF \<open>bm_ok ix\<close>] bm_remove_gone [OF \<open>bm_ok ix\<close>] by (simp_all add: ix1_def)
  note I = bm_okD [OF ok]
  let ?ix = "bm_upsert d s tenant meta ix" and ?t = "tokenize s"
  have docs: "bm_docs ?ix = bm_docs ix1 @ [(d, s, str_or tenant [], meta)]" "bm_n ?ix = bm_n ix1 + 1"
    using update_new [OF gone] by (simp_all add: bm_upsert_def Let_def ix1_def)
  have look: "map_of (bm_docs ?ix) d' = (if d' = d then Some (s, str_or tenant [], meta) else map_of (bm_docs ix1) d')" for d'
    using gone by (simp add: docs map_add_def split: option.split)
  have "doc_tf ?ix = (\<lambda>t' d'. doc_tf ix1 t' d' + (if d' = d then count_list ?t t' else 0))"
    using gone by (simp add: fun_eq_iff doc_tf_def look)
  then have "freq_ok (doc_tf ?ix) (bm_freq ?ix)"
    using freq_ok_add_tokens [OF I(3), of d ?t] by (simp add: bm_upsert_def Let_def ix1_def)
  moreover have "map_of (bm_doc_len ?ix) d' = (if map_of (bm_docs ?ix) d' = None then None else Some (doc_size ?ix d'))" for d'
    using I(4) look by (simp add: bm_upsert_def Let_def ix1_def update_conv doc_size_def)
  moreover have "bm_avgdl ?ix * of_nat (bm_n ?ix) = bm_avgdl ix1 * of_nat (bm_n ix1) + of_nat (length ?t)"
    by (simp add: bm_upsert_def Let_def ix1_def del: of_nat_Suc)
  moreover have "distinct (map fst (bm_docs ?ix))" using I(1) gone by (auto simp: docs map_of_eq_None_iff)
  ultimately show ?thesis using I(2,5) docs unfolding bm_ok_def by (simp add: doc_tokens_def)
qed

subsection \<open>Search\<close>

lemma postings_iff: "bm_ok ix \<Longrightarrow> map_of (postings (bm_freq ix) t) d = Some c \<longleftrightarrow> c = doc_tf ix t d \<and> c \<noteq> 0"
  using bm_okD(3) [of ix] by (auto simp: freq_ok_def)

lemma postings_distinct: "bm_ok ix \<Longrightarrow> distinct (map fst (postings (bm_freq ix) t))"
  using bm_okD(3) freq_ok_postings by blast

lemma postings_set: "bm_ok ix \<Longrightarrow> (d, c) \<in> set (postings (bm_freq ix) t) \<longleftrightarrow> c = doc_tf ix t d \<and> c \<noteq> 0"
  using postings_iff postings_distinct by (metis map_of_eq_Some_iff)

lemma doc_tf_pos: "bm_ok ix \<Longrightarrow> doc_tf ix t d \<noteq> 0 \<longleftrightarrow> (\<exists>s m. (d, s, m) \<in> set (bm_docs ix) \<and> t \<in> set (tokenize s))"
  unfolding doc_tf_def map_of_eq_Some_iff [OF bm_okD(1), symmetric] 
  by (auto simp: count_list_0_iff simp del: neq0_conv split: option.split)

lemma postings_keys: "bm_ok ix \<Longrightarrow> fst ` set (postings (bm_freq ix) t) = {d. doc_tf ix t d \<noteq> 0}"
  by (auto simp: image_iff Bex_def postings_set simp del: neq0_conv)

lemma postings_length: "bm_ok ix \<Longrightarrow> length (postings (bm_freq ix) t) = doc_freq ix t"
proof -
  assume ok: "bm_ok ix"
  let ?l = "map fst (postings (bm_freq ix) t)" and ?r = "map fst (filter (\<lambda>(d, s, _). t \<in> set (tokenize s)) (bm_docs ix))"
  have "set ?l = set ?r" using postings_keys [OF ok, of t] 
    by (auto simp: doc_tf_pos [OF ok] image_iff Bex_def simp del: neq0_conv) blast+
  moreover have "distinct ?l" "distinct ?r" using ok postings_distinct bm_okD(1) distinct_map_filter by blast+
  ultimately have "length ?l = length ?r" using distinct_card by metis
  then show ?thesis by (simp add: doc_freq_def)
qed

lemma avgdl_pos: "bm_ok ix \<Longrightarrow> doc_tf ix t d \<noteq> 0 \<Longrightarrow> 0 < bm_avgdl ix"
proof -
  assume ok: "bm_ok ix" and "doc_tf ix t d \<noteq> 0"
  then obtain s m where d: "(d, s, m) \<in> set (bm_docs ix)" "t \<in> set (tokenize s)" using doc_tf_pos by blast
  then have "0 < doc_tokens (s, m)" by (auto simp: doc_tokens_def)
  moreover have "doc_tokens (s, m) \<in> set (map (doc_tokens \<circ> snd) (bm_docs ix))" using d(1) by force
  ultimately have "0 < sum_list (map (doc_tokens \<circ> snd) (bm_docs ix))" by (metis member_le_sum_list order_less_le_trans zero_le)
  then have "0 < bm_avgdl ix * of_nat (bm_n ix)" using bm_okD(5) [OF ok] by (metis of_nat_0_less_iff)
  then show ?thesis using zero_less_mult_pos2 of_nat_0_le_iff by (metis less_eq_rat_def mult_zero_right order_less_irrefl)
qed

definition bm_params :: "bm25 \<Rightarrow> bool" where
  "bm_params ix \<longleftrightarrow> 0 \<le> bm_k1 ix \<and> 0 \<le> bm_b ix \<and> bm_b ix \<le> 1"

lemma weight_denominator: "bm_params ix \<Longrightarrow> 0 < bm_avgdl ix \<Longrightarrow> 0 < c \<Longrightarrow> 0 < of_nat c + bm_k1 ix * (1 - bm_b ix + bm_b ix * of_nat n / bm_avgdl ix)"
  unfolding bm_params_def by (intro add_pos_nonneg mult_nonneg_nonneg add_nonneg_nonneg divide_nonneg_pos) auto

lemma score_docs_map:
  assumes "bm_ok ix" "bm_params ix" "distinct (map fst pd)" "\<And>d c. (d, c) \<in> set pd \<Longrightarrow> c = doc_tf ix t d \<and> c \<noteq> 0"
  shows "\<exists>sc'. score_docs ix tenant idf pd sc = Some sc' \<and> (distinct (map fst sc) \<longrightarrow> distinct (map fst sc'))
    \<and> (\<forall>d. map_of sc' d = (if d \<in> fst ` set pd \<and> visible ix tenant d
          then Some (get_or (map_of sc d) 0 + term_weight ix idf (doc_size ix d) (doc_tf ix t d)) else map_of sc d))"
  using assms(3,4)
proof (induction pd arbitrary: sc)
  case (Cons e pd)
  obtain d c where e: "e = (d, c)" by (cases e)
  have c: "c = doc_tf ix t d" "c \<noteq> 0" using Cons.prems(2) e by auto
  then have m: "map_of (bm_docs ix) d \<noteq> None" by (auto simp: doc_tf_def split: option.splits)
  have len: "get_or (map_of (bm_doc_len ix) d) 0 = doc_size ix d" using bm_okD(4) [OF assms(1), of d] m by (simp add: get_or_def)
  have pos: "0 < bm_avgdl ix" using avgdl_pos [OF assms(1)] c by blast
  have v: "visible ix tenant d \<longleftrightarrow> tenant = None \<or> map_option (\<lambda>(_, tn, _). tn) (map_of (bm_docs ix) d) = tenant"
    using m by (auto simp: visible_def)
  have nd: "d \<notin> fst ` set pd" "distinct (map fst pd)" using Cons.prems(1) e by auto
  let ?sc = "if visible ix tenant d then AList.update d (get_or (map_of sc d) 0 + term_weight ix idf (doc_size ix d) c) sc else sc"
  have step: "score_docs ix tenant idf (e # pd) sc = score_docs ix tenant idf pd ?sc"
    using v m pos weight_denominator [OF assms(2) pos, of c "doc_size ix d"] c(2) by (auto simp: e len Let_def)
  obtain sc' where "score_docs ix tenant idf pd ?sc = Some sc'" "distinct (map fst ?sc) \<longrightarrow> distinct (map fst sc')"
    "\<forall>x. map_of sc' x = (if x \<in> fst ` set pd \<and> visible ix tenant x
          then Some (get_or (map_of ?sc x) 0 + term_weight ix idf (doc_size ix x) (doc_tf ix t x)) else map_of ?sc x)"
    using Cons.IH [OF nd(2), of ?sc] Cons.prems(2) unfolding list.set insert_iff by blast
  then show ?case using nd(1) c(1) unfolding step by (auto simp: e update_conv distinct_update)
qed simp

definition spec_score :: "(rat \<Rightarrow> rat) \<Rightarrow> bm25 \<Rightarrow> string option \<Rightarrow> string list \<Rightarrow> string \<Rightarrow> rat option" where
  "spec_score lg ix tenant ts d =
     (if visible ix tenant d \<and> (\<exists>t\<in>set ts. doc_tf ix t d \<noteq> 0) then Some (index_score lg ix ts d) else None)"

lemma index_score_append: "index_score lg ix (ts @ us) d = index_score lg ix ts d + index_score lg ix us d"
  by (simp add: index_score_def)

lemma index_score_none: "\<forall>t\<in>set ts. doc_tf ix t d = 0 \<Longrightarrow> index_score lg ix ts d = 0"
  by (simp add: index_score_def filter_empty_conv [THEN iffD2])

lemma score_terms_map:
  assumes "bm_ok ix" "bm_params ix" "distinct (map fst sc)" "map_of sc = spec_score lg ix tenant pre"
  shows "\<exists>sc'. score_terms lg ix tenant ts sc = Some sc' \<and> distinct (map fst sc') \<and> map_of sc' = spec_score lg ix tenant (pre @ ts)"
  using assms(3,4)
proof (induction ts arbitrary: pre sc)
  case (Cons t ts)
  let ?pd = "postings (bm_freq ix) t" and ?idf = "term_idf lg (bm_n ix) (doc_freq ix t)"
  have mem: "d \<in> fst ` set ?pd \<longleftrightarrow> doc_tf ix t d \<noteq> 0" for d using postings_keys [OF assms(1), of t] by blast
  have pd: "\<And>d c. (d, c) \<in> set ?pd \<Longrightarrow> c = doc_tf ix t d \<and> c \<noteq> 0" using postings_set [OF assms(1)] by blast
  obtain sc1 where s: "score_docs ix tenant ?idf ?pd sc = Some sc1" "distinct (map fst sc1)"
    and m: "\<And>d. map_of sc1 d = (if d \<in> fst ` set ?pd \<and> visible ix tenant d
          then Some (get_or (map_of sc d) 0 + term_weight ix ?idf (doc_size ix d) (doc_tf ix t d)) else map_of sc d)"
    using score_docs_map [OF assms(1,2) postings_distinct [OF assms(1)] pd, where tenant = tenant and idf = ?idf and sc = sc] Cons.prems(1) by blast
  have one: "index_score lg ix [t] d = (if doc_tf ix t d = 0 then 0 else term_weight ix ?idf (doc_size ix d) (doc_tf ix t d))" for d
    by (simp add: index_score_def)
  have "map_of sc1 d = spec_score lg ix tenant (pre @ [t]) d" for d
    unfolding m mem Cons.prems(2) spec_score_def using index_score_none [of pre ix d lg] by (auto simp: index_score_append one get_or_def)
  then have "map_of sc1 = spec_score lg ix tenant (pre @ [t])" ..
  from Cons.IH [OF s(2) this] have "\<exists>sc'. score_terms lg ix tenant ts sc1 = Some sc' \<and> distinct (map fst sc')
      \<and> map_of sc' = spec_score lg ix tenant (pre @ t # ts)" by simp
  moreover have "score_terms lg ix tenant (t # ts) sc = score_terms lg ix tenant ts sc1"
    using s(1) postings_length [OF assms(1), of t] by (auto simp: Let_def)
  ultimately show ?case by simp
qed simp

section \<open>Properties\<close>

text \<open>The average length, the lengths and the postings follow every insertion, replacement and removal of a document exactly.\<close>

inductive built :: "bm25 \<Rightarrow> bool" where
  "built (bm_init k1 b)"
| "built ix \<Longrightarrow> built (bm_upsert d s tenant meta ix)"
| "built ix \<Longrightarrow> built (snd (bm_remove d ix))"

lemma built_ok: "built ix \<Longrightarrow> bm_ok ix"
  by (induction rule: built.induct) (auto intro: inv_rules)

lemma search_scores:
  assumes "built ix" "bm_params ix" "set (walk (tokenize query)) = set (tokenize query)"
  shows "\<exists>hits. bm_search lg walk ix query tenant top_k = Some (take top_k (py_sorted_desc snd hits)) \<and> distinct (map fst hits)
    \<and> (\<forall>d x. (d, x) \<in> set hits \<longleftrightarrow>
         visible ix tenant d \<and> (\<exists>t\<in>set (tokenize query). doc_tf ix t d \<noteq> 0) \<and> x = index_score lg ix (walk (tokenize query)) d)"
proof (cases "tokenize query = [] \<or> bm_n ix = 0")
  case True
  then have none: "\<not> (visible ix tenant d \<and> (\<exists>t\<in>set (tokenize query). doc_tf ix t d \<noteq> 0))" for d
    using bm_okD(2) [OF built_ok [OF assms(1)]] by (auto simp: visible_def)
  have "bm_search lg walk ix query tenant top_k = Some (take top_k (py_sorted_desc snd []))"
    using True by (simp add: bm_search_def Let_def py_sorted_desc_def)
  then show ?thesis using none by (intro exI [of _ "[]"]) auto
next
  case False
  have "map_of [] = spec_score lg ix tenant []" by (simp add: fun_eq_iff spec_score_def)
  from score_terms_map [OF built_ok [OF assms(1)] assms(2) _ this, of "walk (tokenize query)"]
  obtain hits where h: "score_terms lg ix tenant (walk (tokenize query)) [] = Some hits" "distinct (map fst hits)"
    "map_of hits = spec_score lg ix tenant (walk (tokenize query))" by auto
  have "(d, x) \<in> set hits \<longleftrightarrow> spec_score lg ix tenant (walk (tokenize query)) d = Some x" for d x
    using h(2,3) by (metis map_of_eq_Some_iff)
  moreover have "bm_search lg walk ix query tenant top_k = Some (take top_k (py_sorted_desc snd hits))"
    using False h(1) by (simp add: bm_search_def Let_def)
  ultimately show ?thesis using h(2) assms(3) by (intro exI [of _ hits]) (auto simp: spec_score_def)
qed

lemma stored_tokens_stats: "doc_tf ix t d = count_list (stored_tokens ix d) t" "doc_size ix d = length (stored_tokens ix d)"
  by (auto simp: doc_tf_def doc_size_def stored_tokens_def split: option.split)

lemma corpus_stats: "doc_freq ix t = length (filter (\<lambda>D. t \<in> set D) (corpus ix))" "sum_list (map (doc_tokens \<circ> snd) (bm_docs ix)) = (\<Sum>D\<leftarrow>corpus ix. length D)"
  by (simp_all add: doc_freq_def corpus_def filter_map comp_def split_def doc_tokens_def)

text \<open>The incremental mean is the mean, and so the score from the tables is the one from the texts.\<close>

lemma avgdl_mean: "bm_ok ix \<Longrightarrow> bm_docs ix \<noteq> [] \<Longrightarrow> bm_avgdl ix = mean_length (corpus ix)"
proof -
  assume ok: "bm_ok ix" and ne: "bm_docs ix \<noteq> []"
  have n: "bm_n ix = length (corpus ix)" "length (corpus ix) \<noteq> 0" using bm_okD(2) [OF ok] ne by (simp_all add: corpus_def)
  have "bm_avgdl ix * of_nat (length (corpus ix)) = of_nat (\<Sum>D\<leftarrow>corpus ix. length D)"
    using bm_okD(5) [OF ok] corpus_stats(2) [of ix] n(1) by simp
  then show ?thesis using n(2) by (simp add: mean_length_def field_simps)
qed

lemma index_score_okapi:
  assumes "bm_ok ix" "map_of (bm_docs ix) d \<noteq> None" "distinct ts"
  shows "index_score lg ix ts d = okapi lg (bm_k1 ix) (bm_b ix) (corpus ix) (set ts) (stored_tokens ix d)"
proof -
  have ne: "bm_docs ix \<noteq> []" using assms(2) by auto
  have n: "bm_n ix = length (corpus ix)" using bm_okD(2) [OF assms(1)] by (simp add: corpus_def)
  let ?g = "\<lambda>t. let f = of_nat (count_list (stored_tokens ix d) t)
             in inverse_document_frequency lg (corpus ix) t * (f * (bm_k1 ix + 1) / (f + bm_k1 ix * (1 - bm_b ix + bm_b ix * (of_nat (length (stored_tokens ix d)) / mean_length (corpus ix)))))"
  have w: "term_weight ix (term_idf lg (bm_n ix) (doc_freq ix t)) (doc_size ix d) (doc_tf ix t d) = ?g t" for t
    by (simp add: term_weight_def term_idf_def inverse_document_frequency_def Let_def avgdl_mean [OF assms(1) ne] n corpus_stats(1) stored_tokens_stats)
  have "?g t = 0" if "doc_tf ix t d = 0" for t using that by (simp add: stored_tokens_stats(1))
  then have "index_score lg ix ts d = sum_list (map ?g ts)"
    unfolding index_score_def w by (intro sum_list_map_filter) auto
  also have "\<dots> = (\<Sum>t\<in>set ts. ?g t)" using sum_list_distinct_conv_sum_set [OF assms(3)] by blast
  finally show ?thesis by (simp add: okapi_def)
qed

text \<open>C21: Search over an index built by any sequence of insertions, replacements and removals never divides by zero, and equals Okapi BM25 computed
  from the stored texts: the hits are exactly the documents of the tenant that share a term with the query, each with the BM25 score of its text in
  the collection of all stored texts (the statistics are those of all tenants), best first. \<open>walk\<close> is the order in which Python enumerates the
  set of the query's terms.\<close>

theorem search_is_okapi:
  assumes "built ix" "bm_params ix" "distinct (walk (tokenize query))" "set (walk (tokenize query)) = set (tokenize query)"
  shows "\<exists>hits. bm_search lg walk ix query tenant top_k = Some (take top_k (py_sorted_desc snd hits)) \<and> distinct (map fst hits)
    \<and> (\<forall>d x. (d, x) \<in> set hits \<longleftrightarrow>
         visible ix tenant d \<and> set (stored_tokens ix d) \<inter> set (tokenize query) \<noteq> {}
         \<and> x = okapi lg (bm_k1 ix) (bm_b ix) (corpus ix) (set (tokenize query)) (stored_tokens ix d))"
proof -
  have "visible ix tenant d \<Longrightarrow> index_score lg ix (walk (tokenize query)) d
      = okapi lg (bm_k1 ix) (bm_b ix) (corpus ix) (set (tokenize query)) (stored_tokens ix d)" for d
    using index_score_okapi [OF built_ok [OF assms(1)], of d _ lg] assms(3,4) by (auto simp: visible_def split: option.splits)
  moreover have "(\<exists>t\<in>set (tokenize query). doc_tf ix t d \<noteq> 0) \<longleftrightarrow> set (stored_tokens ix d) \<inter> set (tokenize query) \<noteq> {}" for d
    by (auto simp: stored_tokens_stats count_list_0_iff simp del: neq0_conv)
  ultimately show ?thesis using search_scores [where walk = walk and query = query and lg = lg and tenant = tenant and top_k = top_k, OF assms(1,2) assms(4)] by metis
qed

text \<open>A removed document is found no more, and removing it again reports so.\<close>

theorem removed_document_not_found:
  assumes "built ix" "bm_params ix" "set (walk (tokenize query)) = set (tokenize query)"
    and "bm_search lg walk (snd (bm_remove d ix)) query tenant top_k = Some hits"
  shows "d \<notin> fst ` set hits \<and> fst (bm_remove d (snd (bm_remove d ix))) = False"
proof -
  let ?ix = "snd (bm_remove d ix)"
  have p: "bm_params ?ix" using assms(2) by (auto simp: bm_params_def bm_remove_def Let_def)
  have gone: "map_of (bm_docs ?ix) d = None" using bm_remove_gone [OF built_ok [OF assms(1)]] .
  obtain all where "hits = take top_k (py_sorted_desc snd all)" "\<And>x y. (x, y) \<in> set all \<Longrightarrow> visible ?ix tenant x"
    using search_scores [of ?ix walk query lg tenant top_k, OF built.intros(3) [OF assms(1)] p assms(3)] assms(4) by auto
  then have "visible ?ix tenant d" if "d \<in> fst ` set hits" using that by (force dest: in_set_takeD)
  moreover have "\<not> visible ?ix tenant d" using gone by (simp add: visible_def)
  ultimately show ?thesis using gone by (auto simp: bm_remove_def [of d ?ix])
qed

definition demo_index :: bm25 where
  "demo_index = bm_upsert ''b'' ''red car'' (Some ''t'') [] (bm_upsert ''a'' ''Blue car, car'' (Some ''t'') [] (bm_upsert ''x'' ''car'' (Some ''u'') [] (bm_init (3/2) (3/4))))"

theorem search_is_okapi_witness:
  "\<exists>hits. bm_search (\<lambda>x. x) remdups demo_index ''car'' (Some ''t'') 10 = Some (take 10 (py_sorted_desc snd hits))
     \<and> (''a'', okapi (\<lambda>x. x) (3/2) (3/4) [[''car''], [''blue'', ''car'', ''car''], [''red'', ''car'']] {''car''} [''blue'', ''car'', ''car'']) \<in> set hits
     \<and> ''x'' \<notin> fst ` set hits"
proof -
  have b: "built demo_index" unfolding demo_index_def by (intro built.intros)
  have p: "bm_params demo_index" by (simp add: demo_index_def bm_params_def bm_upsert_def bm_remove_def bm_init_def Let_def)
  have docs: "bm_docs demo_index = [(''x'', ''car'', ''u'', []), (''a'', ''Blue car, car'', ''t'', []), (''b'', ''red car'', ''t'', [])]"
    "bm_k1 demo_index = 3/2" "bm_b demo_index = 3/4"
    by (simp_all add: demo_index_def bm_upsert_def bm_remove_def bm_init_def Let_def str_or_def)
  have t: "tokenize ''car'' = [''car'']" "tokenize ''Blue car, car'' = [''blue'', ''car'', ''car'']" "tokenize ''red car'' = [''red'', ''car'']"
    by (simp_all add: tokenize_def py_lower_def lower_char_code)
  have c: "corpus demo_index = [[''car''], [''blue'', ''car'', ''car''], [''red'', ''car'']]" "stored_tokens demo_index ''a'' = [''blue'', ''car'', ''car'']"
    "visible demo_index (Some ''t'') ''a''" "\<not> visible demo_index (Some ''t'') ''x''"
    by (simp_all add: corpus_def stored_tokens_def visible_def docs t)
  obtain hits where h: "bm_search (\<lambda>x. x) remdups demo_index ''car'' (Some ''t'') 10 = Some (take 10 (py_sorted_desc snd hits))"
    and m: "\<And>d x. (d, x) \<in> set hits \<longleftrightarrow> visible demo_index (Some ''t'') d \<and> set (stored_tokens demo_index d) \<inter> set (tokenize ''car'') \<noteq> {}
         \<and> x = okapi (\<lambda>x. x) (bm_k1 demo_index) (bm_b demo_index) (corpus demo_index) (set (tokenize ''car'')) (stored_tokens demo_index d)"
    using search_is_okapi [OF b p, of remdups "''car''" "\<lambda>x. x" "Some ''t''" 10] by auto
  have "(''a'', okapi (\<lambda>x. x) (3/2) (3/4) [[''car''], [''blue'', ''car'', ''car''], [''red'', ''car'']] {''car''} [''blue'', ''car'', ''car'']) \<in> set hits"
    unfolding m using c by (simp add: docs t)
  moreover have "''x'' \<notin> fst ` set hits" using m c(4) by force
  ultimately show ?thesis using h by blast
qed

end
