(* ===== verification/Retrieval.thy ===== *)
theory Retrieval
  imports Lexical_Index Py_Text
begin

text \<open>
  Retrieval: the vector store in memory (\<open>InMemoryVectorStore\<close> of \<open>adapters/vectorstore/provider.py\<close>), the search of \<open>modules/rag/service.py\<close>,
  rank fusion (\<open>application/retrieval/hybrid.py\<close>), rerankers (\<open>rerankers.py\<close>), the retrieval service with its cache (\<open>service.py\<close>) and the
  ranking metrics (\<open>metrics.py\<close>). Embeddings, the square root, the cross-encoder and the text of JSON numbers and containers are parameters.
  The metadata that a result carries for observability is left out.
\<close>

section \<open>Definitions\<close>

subsection \<open>Documents and the vector store in memory\<close>

record vector_document =
  vd_id :: string
  vd_content :: string
  vd_embedding :: "rat list"
  vd_metadata :: "(string \<times> json) list"

record search_result =
  sr_document :: vector_document
  sr_score :: rat

record search_config =
  sf_top_k :: nat
  sf_score_threshold :: rat
  sf_filter_metadata :: "(string \<times> json) list"

text \<open>\<open>str(x)\<close> of a JSON value, and of \<open>dict.get\<close>.\<close>

fun json_text :: "(json \<Rightarrow> string) \<Rightarrow> json \<Rightarrow> string" where
  "json_text other JNull = ''None''"
| "json_text other (JBool b) = (if b then ''True'' else ''False'')"
| "json_text other (JInt n) = py_str_int n"
| "json_text other (JStr s) = s"
| "json_text other j = other j"

definition get_text :: "(json \<Rightarrow> string) \<Rightarrow> (string \<times> json) list \<Rightarrow> string \<Rightarrow> string" where
  "get_text other m k = json_text other (get_or (map_of m k) JNull)"

definition cosine_similarity :: "(rat \<Rightarrow> rat) \<Rightarrow> rat list \<Rightarrow> rat list \<Rightarrow> rat" where
  "cosine_similarity sq a b =
     (if a = [] \<or> b = [] \<or> length a \<noteq> length b then 0
      else let dot = sum_list (map2 (*) a b); na = sum_list (map (\<lambda>x. x * x) a); nb = sum_list (map (\<lambda>x. x * x) b)
           in if na = 0 \<or> nb = 0 then 0 else dot / (sq na * sq nb))"

definition matches_filter :: "(json \<Rightarrow> string) \<Rightarrow> (string \<times> json) list \<Rightarrow> (string \<times> json) list \<Rightarrow> bool" where
  "matches_filter other m flt = list_all (\<lambda>(k, v). get_text other m k = json_text other v) flt"

type_synonym memory_store = "(string \<times> vector_document) list"

definition store_add :: "vector_document list \<Rightarrow> memory_store \<Rightarrow> string list \<times> memory_store" where
  "store_add docs st = (map vd_id docs, fold (\<lambda>d. AList.update (vd_id d) d) docs st)"

definition store_search :: "(json \<Rightarrow> string) \<Rightarrow> (rat \<Rightarrow> rat) \<Rightarrow> memory_store \<Rightarrow> rat list \<Rightarrow> search_config \<Rightarrow> search_result list" where
  "store_search other sq st q cfg =
     (let docs = filter (\<lambda>d. matches_filter other (vd_metadata d) (sf_filter_metadata cfg)) (map snd st);
          scored = filter (\<lambda>r. sf_score_threshold cfg \<le> sr_score r)
            (map (\<lambda>d. \<lparr>sr_document = d, sr_score = cosine_similarity sq q (vd_embedding d)\<rparr>) docs)
      in take (sf_top_k cfg) (py_sorted_desc sr_score scored))"

definition store_delete :: "string list \<Rightarrow> memory_store \<Rightarrow> memory_store" where
  "store_delete ids st = fold AList.delete ids st"

definition stored_before :: "rat option \<Rightarrow> vector_document \<Rightarrow> bool" where
  "stored_before before d = (case before of None \<Rightarrow> True
     | Some b \<Rightarrow> (case map_of (vd_metadata d) ''stored_at'' of Some (JInt n) \<Rightarrow> of_int n < b | Some (JNum x) \<Rightarrow> x < b
          | Some (JBool v) \<Rightarrow> (if v then 1 else 0) < b | _ \<Rightarrow> False))"

definition store_delete_matching :: "(json \<Rightarrow> string) \<Rightarrow> (string \<times> json) list \<Rightarrow> rat option \<Rightarrow> memory_store \<Rightarrow> nat \<times> memory_store" where
  "store_delete_matching other flt before st =
     (let gone = map fst (filter (\<lambda>(i, d). matches_filter other (vd_metadata d) flt \<and> stored_before before d) st)
      in (length gone, store_delete gone st))"

definition store_get :: "string \<Rightarrow> memory_store \<Rightarrow> vector_document option" where
  "store_get i st = map_of st i"

subsection \<open>The RAG service\<close>

text \<open>\<open>look\<close> is the store's search at the embedding of a text; \<open>None\<close>: the embedding or the store raised, which no caller below catches.\<close>

type_synonym finder = "string \<Rightarrow> search_config \<Rightarrow> search_result list option"

definition rag_search ::
  "(json \<Rightarrow> string) \<Rightarrow> finder \<Rightarrow> string option \<Rightarrow> string \<Rightarrow> string option \<Rightarrow> (string \<times> json) list \<Rightarrow> string list \<Rightarrow> nat \<Rightarrow> rat
     \<Rightarrow> search_result list option" where
  "rag_search other look rag_tenant query tenant filters allowed top_k threshold =
     (let base = (case rag_tenant of Some t \<Rightarrow> [(''tenant_id'', JStr t)]
                  | None \<Rightarrow> (case tenant of Some t \<Rightarrow> [(''tenant_id'', JStr t)] | None \<Rightarrow> []));
          flt = AList.updates (map fst filters) (map snd filters) base
      in map_option (\<lambda>rs. if allowed = [] then rs
             else filter (\<lambda>r. json_text other (get_or (map_of (vd_metadata (sr_document r)) ''source'') (JStr [])) \<in> set allowed) rs)
           (look query \<lparr>sf_top_k = top_k, sf_score_threshold = threshold, sf_filter_metadata = flt\<rparr>))"

subsection \<open>Rank fusion\<close>

definition bump :: "string \<Rightarrow> rat \<Rightarrow> (string \<times> rat) list \<Rightarrow> (string \<times> rat) list" where
  "bump i x fused = AList.update i (get_or (map_of fused i) 0 + x) fused"

fun fuse_vector :: "nat \<Rightarrow> nat \<Rightarrow> search_result list \<Rightarrow> (string \<times> rat) list \<times> (string \<times> search_result) list \<Rightarrow> (string \<times> rat) list \<times> (string \<times> search_result) list" where
  "fuse_vector k rank [] s = s"
| "fuse_vector k rank (r # rs) (fused, pay) =
     fuse_vector k (rank + 1) rs (bump (vd_id (sr_document r)) (1 / of_nat (k + rank)) fused, AList.update (vd_id (sr_document r)) r pay)"

definition lexical_result :: "string \<Rightarrow> stored_doc \<Rightarrow> search_result" where
  "lexical_result i sd = (case sd of (content, tenant, meta) \<Rightarrow>
     \<lparr>sr_document = \<lparr>vd_id = i, vd_content = content, vd_embedding = [], vd_metadata = AList.update ''tenant_id'' (JStr tenant) meta\<rparr>, sr_score = 0\<rparr>)"

fun fuse_lexical ::
  "bm25 option \<Rightarrow> nat \<Rightarrow> nat \<Rightarrow> (string \<times> rat) list \<Rightarrow> (string \<times> rat) list \<times> (string \<times> search_result) list \<Rightarrow> (string \<times> rat) list \<times> (string \<times> search_result) list" where
  "fuse_lexical ix k rank [] s = s"
| "fuse_lexical ix k rank ((i, _) # hs) (fused, pay) =
     fuse_lexical ix k (rank + 1) hs
       (bump i (1 / of_nat (k + rank)) fused,
        (if map_of pay i = None then (case Option.bind ix (\<lambda>x. bm_document x i) of None \<Rightarrow> pay | Some sd \<Rightarrow> AList.update i (lexical_result i sd) pay)
         else pay))"

definition reciprocal_rank_fusion :: "bm25 option \<Rightarrow> nat \<Rightarrow> search_result list \<Rightarrow> (string \<times> rat) list \<Rightarrow> search_result list" where
  "reciprocal_rank_fusion ix k vs hs =
     (case fuse_lexical ix k 1 hs (fuse_vector k 1 vs ([], [])) of
        (fused, pay) \<Rightarrow> List.map_filter (\<lambda>(i, x). map_option (\<lambda>r. \<lparr>sr_document = sr_document r, sr_score = x\<rparr>) (map_of pay i))
          (py_sorted_desc snd fused))"

definition index_chunks :: "string \<Rightarrow> string \<Rightarrow> string \<Rightarrow> (string option \<times> string) list \<Rightarrow> bm25 \<Rightarrow> bm25" where
  "index_chunks tenant document source chunks ix =
     fold (\<lambda>(ci, content). bm_upsert (document @ '':'' @ get_or ci []) content (Some tenant)
       [(''tenant_id'', JStr tenant), (''document_id'', JStr document), (''source'', JStr source)]) chunks ix"

subsection \<open>Rerankers\<close>

type_synonym reranker = "string \<Rightarrow> string list \<Rightarrow> rat list option"

text \<open>\<open>set(text.lower().split())\<close>, as a list of distinct words.\<close>

definition lower_words :: "string \<Rightarrow> string list" where
  "lower_words s = remdups (char_runs (\<lambda>c. \<not> is_space c) [] (py_lower s))"

definition keyword_score :: "string \<Rightarrow> string \<Rightarrow> rat" where
  "keyword_score query content =
     of_nat (length (filter (\<lambda>w. w \<in> set (lower_words content)) (lower_words query))) / of_nat (length (lower_words query))"

definition score_fusion_batch :: reranker where
  "score_fusion_batch query texts =
     Some (if lower_words query = [] then map (\<lambda>_. 1) texts else map (keyword_score query) texts)"

definition cross_encoder_batch :: "(string \<Rightarrow> string \<Rightarrow> rat) option \<Rightarrow> reranker" where
  "cross_encoder_batch model query texts =
     Some (if texts = [] then [] else case model of None \<Rightarrow> map (\<lambda>_. 0) texts | Some predict \<Rightarrow> map (predict query) texts)"

definition apply_rerank :: "reranker option \<Rightarrow> string \<Rightarrow> search_result list \<Rightarrow> search_result list" where
  "apply_rerank rk query rs =
     (case rk of None \<Rightarrow> rs
      | Some score \<Rightarrow>
          if rs = [] then rs
          else case score query (map (vd_content \<circ> sr_document) rs) of
                 None \<Rightarrow> rs
               | Some xs \<Rightarrow> if length xs \<noteq> length rs then rs else map fst (py_sorted_desc snd (zip rs xs)))"

definition fusion_score :: "string \<Rightarrow> rat \<Rightarrow> rat \<Rightarrow> search_result \<Rightarrow> rat" where
  "fusion_score query vw lw r = sr_score r * vw + keyword_score query (vd_content (sr_document r)) * lw"

definition score_fusion_rerank :: "string \<Rightarrow> rat \<Rightarrow> rat \<Rightarrow> search_result list \<Rightarrow> search_result list" where
  "score_fusion_rerank query vw lw rs =
     py_sorted_desc (if lower_words query = [] then sr_score else fusion_score query vw lw) rs"

definition simple_rerank :: "search_result list \<Rightarrow> string \<Rightarrow> search_result list" where
  "simple_rerank rs query = (if lower_words query = [] then rs else py_sorted_desc (fusion_score query (7/10) (3/10)) rs)"

subsection \<open>The service\<close>

record retrieval_config =
  rg_top_k :: nat
  rg_score_threshold :: rat
  rg_apply_spotlighting :: bool
  rg_filter_by_tenant :: bool
  rg_max_context_length :: nat

definition rg_default :: retrieval_config where
  "rg_default = \<lparr>rg_top_k = 5, rg_score_threshold = 3/10, rg_apply_spotlighting = True, rg_filter_by_tenant = True, rg_max_context_length = 4096\<rparr>"

record retrieval_result =
  rr_query :: string
  rr_results :: "search_result list"
  rr_context :: string
  rr_total_results :: nat
  rr_filtered_count :: nat

record retrieval_service =
  rv_config :: retrieval_config
  rv_cache_ttl :: time
  rv_hybrid_lexical_k :: nat
  rv_cache :: "(string \<times> retrieval_result \<times> time) list"
  rv_index :: "bm25 option"
  rv_reranker :: "reranker option"

text \<open>What the service calls: the text of JSON values, the store, the tenant of the RAG service, and the search in the lexical index.\<close>

record retrieval_env =
  re_other :: "json \<Rightarrow> string"
  re_find :: finder
  re_rag_tenant :: "string option"
  re_log :: "rat \<Rightarrow> rat"
  re_walk :: "string list \<Rightarrow> string list"

definition source_name :: "(json \<Rightarrow> string) \<Rightarrow> search_result \<Rightarrow> string" where
  "source_name other r = json_text other (get_or (map_of (vd_metadata (sr_document r)) ''source'') (JStr ''Unknown''))"

definition line_feed :: string where
  "line_feed = [CHR 0x0A]"

definition build_context :: "(json \<Rightarrow> string) \<Rightarrow> search_result list \<Rightarrow> string" where
  "build_context other rs = py_join (line_feed @ line_feed)
     (map (\<lambda>(i, r). ''[Source '' @ py_str_nat i @ '': '' @ source_name other r @ ''] (Score: '' @ py_fixed2 (sr_score r) @ '')'' @ line_feed
        @ vd_content (sr_document r)) (zip [1..<length rs + 1] rs))"

definition build_spotlight_context :: "(json \<Rightarrow> string) \<Rightarrow> search_result list \<Rightarrow> string" where
  "build_spotlight_context other rs = py_join (line_feed @ line_feed)
     (map (\<lambda>(i, r). ''<<BEGIN_SOURCE_'' @ py_str_nat i @ ''>>'' @ line_feed @ ''[Source '' @ py_str_nat i @ '': '' @ source_name other r
        @ '', Relevance: '' @ py_fixed2 (sr_score r) @ '']'' @ line_feed @ vd_content (sr_document r) @ line_feed
        @ ''<<END_SOURCE_'' @ py_str_nat i @ ''>>'') (zip [1..<length rs + 1] rs))"

definition cache_key :: "string option \<Rightarrow> string \<Rightarrow> string" where
  "cache_key tenant query = get_or tenant ''None'' @ '':'' @ py_strip query"

definition of_tenant :: "string \<Rightarrow> search_result \<Rightarrow> bool" where
  "of_tenant t r \<longleftrightarrow> map_of (vd_metadata (sr_document r)) ''tenant_id'' = Some (JStr t)"

text \<open>\<open>None\<close>: the search of the store raised; nothing is cached then.\<close>

definition retrieve ::
  "retrieval_env \<Rightarrow> time \<Rightarrow> time \<Rightarrow> string \<Rightarrow> string option \<Rightarrow> (string \<times> json) list \<Rightarrow> retrieval_config option \<Rightarrow> bool \<Rightarrow> string list \<Rightarrow> retrieval_service
     \<Rightarrow> (retrieval_result \<times> retrieval_service) option" where
  "retrieve E now later query tenant filters custom skip_cache allowed sv =
     (if py_strip query = []
      then Some (\<lparr>rr_query = query, rr_results = [], rr_context = [], rr_total_results = 0, rr_filtered_count = 0\<rparr>, sv)
      else let key = cache_key tenant query;
               hit = (if skip_cache then None else Option.bind (map_of (rv_cache sv) key) (\<lambda>(r, stored). if now - stored < rv_cache_ttl sv then Some r else None))
           in case hit of
                Some r \<Rightarrow> Some (r, sv)
              | None \<Rightarrow>
                  (let cfg = get_or custom (rv_config sv)
                   in map_option (\<lambda>rs.
                        (let kept = (case tenant of Some t \<Rightarrow> if rg_filter_by_tenant cfg then filter (of_tenant t) rs else rs | None \<Rightarrow> rs);
                             full = (if rg_apply_spotlighting cfg \<and> kept \<noteq> [] then build_spotlight_context (re_other E) kept else build_context (re_other E) kept);
                             cut = (if rg_max_context_length cfg \<noteq> 0 \<and> rg_max_context_length cfg < length full
                                    then take (rg_max_context_length cfg) full @ line_feed @ ''... [truncated]'' else full);
                             r = \<lparr>rr_query = query, rr_results = kept, rr_context = cut, rr_total_results = length rs, rr_filtered_count = length kept\<rparr>
                         in (r, sv\<lparr>rv_cache := AList.update key (r, later) (rv_cache sv)\<rparr>)))
                        (rag_search (re_other E) (re_find E) (re_rag_tenant E) query tenant filters allowed (rg_top_k cfg) (rg_score_threshold cfg))))"

definition retrieve_with_reranking ::
  "retrieval_env \<Rightarrow> time \<Rightarrow> time \<Rightarrow> string \<Rightarrow> string option \<Rightarrow> nat \<Rightarrow> retrieval_service \<Rightarrow> (retrieval_result \<times> retrieval_service) option" where
  "retrieve_with_reranking E now later query tenant top_k sv =
     map_option (\<lambda>(r, sv1).
          (let reranked = (if rv_reranker sv = None then simple_rerank (rr_results r) query else apply_rerank (rv_reranker sv) query (rr_results r));
               final = take top_k reranked
           in (\<lparr>rr_query = query, rr_results = final, rr_context = build_spotlight_context (re_other E) final,
                rr_total_results = rr_total_results r, rr_filtered_count = length final\<rparr>, sv1)))
       (retrieve E now later query tenant [] (Some (rg_default\<lparr>rg_top_k := top_k * 3, rg_score_threshold := 2/10\<rparr>)) False [] sv)"

text \<open>The configuration with which hybrid retrieval asks the store.\<close>

definition hybrid_config :: "nat \<Rightarrow> retrieval_service \<Rightarrow> retrieval_config" where
  "hybrid_config top_k sv = rg_default\<lparr>rg_top_k := max (top_k * 3) (rv_hybrid_lexical_k sv), rg_score_threshold := 2/10\<rparr>"

text \<open>\<open>None\<close>: the search of the store or of the lexical index raised.\<close>

definition retrieve_hybrid ::
  "retrieval_env \<Rightarrow> time \<Rightarrow> time \<Rightarrow> string \<Rightarrow> string option \<Rightarrow> nat \<Rightarrow> string list \<Rightarrow> retrieval_service \<Rightarrow> (retrieval_result \<times> retrieval_service) option" where
  "retrieve_hybrid E now later query tenant top_k allowed sv =
     (case retrieve E now later query tenant [] (Some (hybrid_config top_k sv)) False allowed sv of
        None \<Rightarrow> None
      | Some (v, sv1) \<Rightarrow>
          map_option (\<lambda>final. (\<lparr>rr_query = query, rr_results = final, rr_context = build_spotlight_context (re_other E) final,
              rr_total_results = length final, rr_filtered_count = length final\<rparr>, sv1))
            (case rv_index sv of
               None \<Rightarrow> Some (take top_k (rr_results v))
             | Some ix \<Rightarrow>
                 map_option (\<lambda>hits. take top_k (apply_rerank (rv_reranker sv) query (reciprocal_rank_fusion (Some ix) 60 (rr_results v) hits)))
                   (bm_search (re_log E) (re_walk E) ix query tenant (rv_hybrid_lexical_k sv))))"

fun collect_new :: "search_result list \<Rightarrow> search_result list \<Rightarrow> search_result list" where
  "collect_new acc [] = acc"
| "collect_new acc (r # rs) =
     collect_new (if vd_id (sr_document r) \<in> set (map (vd_id \<circ> sr_document) acc) then acc else acc @ [r]) rs"

fun run_queries ::
  "retrieval_env \<Rightarrow> time \<Rightarrow> time \<Rightarrow> string option \<Rightarrow> string list \<Rightarrow> search_result list \<Rightarrow> retrieval_service \<Rightarrow> (search_result list \<times> retrieval_service) option" where
  "run_queries E now later tenant [] acc sv = Some (acc, sv)"
| "run_queries E now later tenant (q # qs) acc sv =
     (case retrieve E now later q tenant [] None True [] sv of
        None \<Rightarrow> None
      | Some (r, sv1) \<Rightarrow> run_queries E now later tenant qs (collect_new acc (rr_results r)) sv1)"

definition multi_query_retrieval ::
  "retrieval_env \<Rightarrow> time \<Rightarrow> time \<Rightarrow> string \<Rightarrow> string option \<Rightarrow> string list \<Rightarrow> nat \<Rightarrow> retrieval_service \<Rightarrow> (retrieval_result \<times> retrieval_service) option" where
  "multi_query_retrieval E now later query tenant variations top_k sv =
     map_option (\<lambda>(all, sv1).
          (let final = take top_k (py_sorted_desc sr_score all)
           in (\<lparr>rr_query = query, rr_results = final, rr_context = build_spotlight_context (re_other E) final,
                rr_total_results = length all, rr_filtered_count = length final\<rparr>, sv1)))
       (run_queries E now later tenant (query # variations) [] sv)"

definition invalidate_cache :: "string option \<Rightarrow> retrieval_service \<Rightarrow> nat \<times> retrieval_service" where
  "invalidate_cache tenant sv =
     (let keep = (case tenant of None \<Rightarrow> [] | Some t \<Rightarrow> filter (\<lambda>(k, _). \<not> py_startswith (t @ '':'') k) (rv_cache sv))
      in (length (rv_cache sv) - length keep, sv\<lparr>rv_cache := keep\<rparr>))"

subsection \<open>Metrics\<close>

definition top_ids :: "nat option \<Rightarrow> string list \<Rightarrow> string list" where
  "top_ids k ids = (case k of None \<Rightarrow> ids | Some n \<Rightarrow> take n ids)"

definition recall_at_k :: "string list \<Rightarrow> string set \<Rightarrow> nat option \<Rightarrow> rat" where
  "recall_at_k ids rel k = (if rel = {} then 0 else of_nat (length (filter (\<lambda>i. i \<in> rel) (top_ids k ids))) / of_nat (card rel))"

definition precision_at_k :: "string list \<Rightarrow> string set \<Rightarrow> nat option \<Rightarrow> rat" where
  "precision_at_k ids rel k =
     (if top_ids k ids = [] then 0 else of_nat (length (filter (\<lambda>i. i \<in> rel) (top_ids k ids))) / of_nat (length (top_ids k ids)))"

definition dcg :: "string set \<Rightarrow> string list \<Rightarrow> rat" where
  "dcg rel ids = sum_list (map (\<lambda>(n, i). if i \<in> rel then 1 / of_nat (n + 1) else 0) (zip [0..<length ids] ids))"

definition ndcg_at_k :: "string list \<Rightarrow> string set \<Rightarrow> nat option \<Rightarrow> rat" where
  "ndcg_at_k ids rel k =
     (let got = top_ids k ids; ideal = dcg rel (take (length got) (sorted_list_of_set rel))
      in if got = [] then 0 else if 0 < ideal then dcg rel got / ideal else 0)"

fun first_hit :: "nat \<Rightarrow> string set \<Rightarrow> string list \<Rightarrow> rat" where
  "first_hit rank rel [] = 0"
| "first_hit rank rel (i # ids) = (if i \<in> rel then 1 / of_nat rank else first_hit (rank + 1) rel ids)"

definition mean_reciprocal_rank :: "string list list \<Rightarrow> string set \<Rightarrow> rat" where
  "mean_reciprocal_rank runs rel = (if runs = [] then 0 else sum_list (map (first_hit 1 rel) runs) / of_nat (length runs))"

section \<open>Lemmas\<close>

subsection \<open>The store in memory\<close>

text \<open>The contract of a vector store's search: only documents that pass the filter, at least as similar as asked, best first, no more than asked.\<close>

locale vector_search =
  fixes other :: "json \<Rightarrow> string" and look :: finder
  assumes filtered: "look q cfg = Some rs \<Longrightarrow> r \<in> set rs \<Longrightarrow> matches_filter other (vd_metadata (sr_document r)) (sf_filter_metadata cfg)"
    and above: "look q cfg = Some rs \<Longrightarrow> r \<in> set rs \<Longrightarrow> sf_score_threshold cfg \<le> sr_score r"
    and ranked: "look q cfg = Some rs \<Longrightarrow> sorted_wrt (\<lambda>x y. sr_score y \<le> sr_score x) rs"
    and bounded: "look q cfg = Some rs \<Longrightarrow> length rs \<le> sf_top_k cfg"
begin

lemma rag_search_above:
  "rag_search other look rt q tenant flt allowed top_k th = Some rs \<Longrightarrow> r \<in> set rs \<Longrightarrow> th \<le> sr_score r"
  by (auto simp: rag_search_def Let_def split: if_splits dest: above)

lemma rag_search_bounded: "rag_search other look rt q tenant flt allowed top_k th = Some rs \<Longrightarrow> length rs \<le> top_k"
  by (auto simp: rag_search_def Let_def dest!: bounded intro: order_trans [OF length_filter_le] split: if_splits)

lemma rag_search_tenant:
  assumes "rag_search other look None q (Some t) [] allowed top_k th = Some rs" "r \<in> set rs"
  shows "get_text other (vd_metadata (sr_document r)) ''tenant_id'' = t"
proof -
  obtain all where "look q \<lparr>sf_top_k = top_k, sf_score_threshold = th, sf_filter_metadata = [(''tenant_id'', JStr t)]\<rparr> = Some all" "r \<in> set all"
    using assms by (auto simp: rag_search_def Let_def split: if_splits)
  then show ?thesis using filtered by (fastforce simp: matches_filter_def)
qed

end

lemma sorted_wrt_take: "sorted_wrt P xs \<Longrightarrow> sorted_wrt P (take n xs)"
  by (metis append_take_drop_id sorted_wrt_append)

interpretation memory_store: vector_search other "\<lambda>q cfg. map_option (\<lambda>e. store_search other sq st e cfg) (emb q)" for other sq st emb
  by unfold_locales
     (auto simp: store_search_def Let_def dest!: in_set_takeD intro: sorted_wrt_take sorted_py_sorted_desc)

subsection \<open>Rank fusion\<close>

fun rank_sum :: "nat \<Rightarrow> nat \<Rightarrow> string list \<Rightarrow> string \<Rightarrow> rat" where
  "rank_sum k rank [] i = 0"
| "rank_sum k rank (j # js) i = (if j = i then 1 / of_nat (k + rank) else 0) + rank_sum k (rank + 1) js i"

lemma map_of_bump [simp]: "map_of (bump i x f) = (map_of f)(i \<mapsto> get_or (map_of f i) 0 + x)"
  by (simp add: bump_def update_conv')

lemma distinct_bump [simp]: "distinct (map fst f) \<Longrightarrow> distinct (map fst (bump i x f))"
  by (simp add: bump_def distinct_update)

lemma get_or_simps [simp]: "get_or (Some v) d = v" "get_or None d = d" "get_or ((m(i \<mapsto> v)) j) d = (if j = i then v else get_or (m j) d)"
  by (simp_all add: get_or_def)

abbreviation res_id :: "search_result \<Rightarrow> string" where
  "res_id r \<equiv> vd_id (sr_document r)"

lemma fuse_vector_scores:
  "get_or (map_of (fst (fuse_vector k rank vs (f, p))) i) 0 = get_or (map_of f i) 0 + rank_sum k rank (map res_id vs) i"
  by (induction vs arbitrary: rank f p) auto

lemma fuse_lexical_scores:
  "get_or (map_of (fst (fuse_lexical ix k rank hs (f, p))) i) 0 = get_or (map_of f i) 0 + rank_sum k rank (map fst hs) i"
  by (induction hs arbitrary: rank f p) auto

lemma fuse_vector_distinct: "distinct (map fst f) \<Longrightarrow> distinct (map fst (fst (fuse_vector k rank vs (f, p))))"
  by (induction vs arbitrary: rank f p) auto

lemma fuse_lexical_distinct: "distinct (map fst f) \<Longrightarrow> distinct (map fst (fst (fuse_lexical ix k rank hs (f, p))))"
  by (induction hs arbitrary: rank f p) auto

lemma fuse_vector_dom: "dom (map_of (fst (fuse_vector k rank vs (f, p)))) = dom (map_of f) \<union> res_id ` set vs"
  by (induction vs arbitrary: rank f p) auto

lemma fuse_lexical_dom: "dom (map_of (fst (fuse_lexical ix k rank hs (f, p)))) = dom (map_of f) \<union> fst ` set hs"
proof (induction hs arbitrary: rank f p)
  case (Cons h hs)
  show ?case by (cases h) (simp add: Cons.IH del: fun_upd_apply)
qed simp

lemma fuse_vector_payload: "map_of (snd (fuse_vector k rank vs (f, p))) i = Some r \<Longrightarrow> map_of p i = Some r \<or> r \<in> set vs \<and> res_id r = i"
  by (induction vs arbitrary: rank f p) (fastforce simp: update_conv' split: if_splits)+

lemma fuse_vector_payload_dom: "dom (map_of (snd (fuse_vector k rank vs (f, p)))) = dom (map_of p) \<union> res_id ` set vs"
  by (induction vs arbitrary: rank f p) (auto simp: update_conv')

lemma fuse_lexical_payload:
  "map_of (snd (fuse_lexical ix k rank hs (f, p))) i = Some r \<Longrightarrow>
     map_of p i = Some r \<or> i \<in> fst ` set hs \<and> (\<exists>x sd. ix = Some x \<and> bm_document x i = Some sd \<and> r = lexical_result i sd)"
proof (induction hs arbitrary: rank f p)
  case (Cons h hs)
  obtain j y where h: "h = (j, y)" by (cases h)
  let ?p = "if map_of p j = None then (case Option.bind ix (\<lambda>x. bm_document x j) of None \<Rightarrow> p | Some sd \<Rightarrow> AList.update j (lexical_result j sd) p) else p"
  have "map_of ?p i = Some r \<or> i \<in> fst ` set hs \<and> (\<exists>x sd. ix = Some x \<and> bm_document x i = Some sd \<and> r = lexical_result i sd)"
    using Cons.IH [of "rank + 1" "bump j (1 / of_nat (k + rank)) f" ?p] Cons.prems by (simp add: h)
  moreover have "map_of ?p i = Some r \<Longrightarrow> map_of p i = Some r \<or> i = j \<and> (\<exists>x sd. ix = Some x \<and> bm_document x i = Some sd \<and> r = lexical_result i sd)"
    by (auto simp: update_conv' bind_eq_Some_conv split: if_splits option.splits)
  ultimately show ?case by (auto simp: h)
qed simp

lemma fuse_lexical_payload_mono: "map_of p i = Some r \<Longrightarrow> map_of (snd (fuse_lexical ix k rank hs (f, p))) i = Some r"
proof (induction hs arbitrary: rank f p)
  case (Cons h hs)
  obtain j y where "h = (j, y)" by (cases h)
  moreover have "map_of (AList.update j x p) i = Some r" if "map_of p j = None" for x using Cons.prems that by (auto simp: update_conv')
  ultimately show ?case using Cons.IH Cons.prems by (auto split: option.splits)
qed simp

lemma lexical_result_simps [simp]: "res_id (lexical_result i sd) = i" "of_tenant t (lexical_result i (c, t, m))"
  by (auto simp: lexical_result_def of_tenant_def update_conv' split: prod.split)

lemma map_filter_iff: "y \<in> set (List.map_filter g xs) \<longleftrightarrow> (\<exists>x\<in>set xs. g x = Some y)"
  by (auto simp: List.map_filter_def image_iff)

lemma fusion_members:
  assumes "fuse_lexical ix k 1 hs (fuse_vector k 1 vs ([], [])) = (f, p)"
  shows "r \<in> set (reciprocal_rank_fusion ix k vs hs) \<longleftrightarrow>
    (\<exists>i x q. map_of f i = Some x \<and> map_of p i = Some q \<and> r = \<lparr>sr_document = sr_document q, sr_score = x\<rparr>)"
proof -
  obtain fv pv where v: "fuse_vector k 1 vs ([], []) = (fv, pv)" by fastforce
  have "distinct (map fst f)" using assms fuse_vector_distinct [of "[]" k 1 vs "[]"] fuse_lexical_distinct [of fv ix k 1 hs pv] v by simp
  then have "(i, x) \<in> set f \<longleftrightarrow> map_of f i = Some x" for i x by simp
  then show ?thesis using assms by (force simp: reciprocal_rank_fusion_def map_filter_iff)
qed

lemma fusion_payload:
  assumes "fuse_lexical ix k 1 hs (fuse_vector k 1 vs ([], [])) = (f, p)" "map_of p i = Some q"
  shows "res_id q = i \<and> (q \<in> set vs \<or> i \<in> fst ` set hs \<and> (\<exists>x sd. ix = Some x \<and> bm_document x i = Some sd \<and> q = lexical_result i sd))"
proof -
  obtain fv pv where v: "fuse_vector k 1 vs ([], []) = (fv, pv)" by fastforce
  then have "map_of pv i = Some q \<or> i \<in> fst ` set hs \<and> (\<exists>x sd. ix = Some x \<and> bm_document x i = Some sd \<and> q = lexical_result i sd)"
    using fuse_lexical_payload [of ix k 1 hs fv pv i q] assms by simp
  moreover have "map_of pv i = Some q \<Longrightarrow> q \<in> set vs \<and> res_id q = i" using fuse_vector_payload [of k 1 vs "[]" "[]" i q] v by simp
  ultimately show ?thesis by auto
qed

lemma fusion_scores:
  assumes "fuse_lexical ix k 1 hs (fuse_vector k 1 vs ([], [])) = (f, p)" "map_of f i = Some x"
  shows "x = rank_sum k 1 (map res_id vs) i + rank_sum k 1 (map fst hs) i"
proof -
  obtain fv pv where v: "fuse_vector k 1 vs ([], []) = (fv, pv)" by fastforce
  show ?thesis using fuse_lexical_scores [of ix k 1 hs fv pv i] fuse_vector_scores [of k 1 vs "[]" "[]" i] assms v by simp
qed

lemma fusion_keeps_vectors:
  assumes "fuse_lexical ix k 1 hs (fuse_vector k 1 vs ([], [])) = (f, p)" "v \<in> set vs"
  shows "\<exists>x q. map_of f (res_id v) = Some x \<and> map_of p (res_id v) = Some q"
proof -
  obtain fv pv where v: "fuse_vector k 1 vs ([], []) = (fv, pv)" by fastforce
  have "res_id v \<in> dom (map_of fv)" "res_id v \<in> dom (map_of pv)"
    using fuse_vector_dom [of k 1 vs "[]" "[]"] fuse_vector_payload_dom [of k 1 vs "[]" "[]"] v assms(2) by auto
  moreover from this obtain q where "map_of pv (res_id v) = Some q" by auto
  from fuse_lexical_payload_mono [OF this, of ix k 1 hs fv] have "map_of p (res_id v) = Some q" using v assms(1) by simp
  ultimately show ?thesis using fuse_lexical_dom [of ix k 1 hs fv pv] v assms(1) by fastforce
qed

subsection \<open>Tenants and the cache\<close>

text \<open>The text of a UUID: no colon, and not \<open>None\<close>.\<close>

definition uuid_text :: "string \<Rightarrow> bool" where
  "uuid_text t \<longleftrightarrow> CHR '':'' \<notin> set t \<and> t \<noteq> ''None''"

definition cache_ok :: "retrieval_service \<Rightarrow> bool" where
  "cache_ok sv \<longleftrightarrow> (\<forall>t q r stored. uuid_text t \<longrightarrow> map_of (rv_cache sv) (cache_key (Some t) q) = Some (r, stored) \<longrightarrow> (\<forall>x\<in>set (rr_results r). of_tenant t x))"

lemma cache_key_inj:
  assumes "uuid_text t" "tenant = None \<or> uuid_text (the tenant)" "cache_key tenant q = cache_key (Some t) q'"
  shows "tenant = Some t"
proof -
  have c: "CHR '':'' \<notin> set (get_or tenant ''None'')" using assms(2) by (cases tenant) (auto simp: uuid_text_def)
  have "py_split1 (CHR '':'') (cache_key tenant q) = (get_or tenant ''None'', py_strip q)"
    using py_split1_append [OF c] by (simp add: cache_key_def)
  moreover have "py_split1 (CHR '':'') (cache_key (Some t) q') = (t, py_strip q')"
    using py_split1_append [of "CHR '':''" t] assms(1) by (simp add: cache_key_def uuid_text_def)
  ultimately have "get_or tenant ''None'' = t" using assms(3) by simp
  then show ?thesis using assms(1) by (cases tenant) (auto simp: uuid_text_def)
qed

lemma retrieve_in_tenant:
  assumes "cache_ok sv" "tenant = None \<or> uuid_text (the tenant)" "rg_filter_by_tenant (get_or custom (rv_config sv))"
    and "retrieve E now later query tenant filters custom skip allowed sv = Some (r, sv1)"
  shows "cache_ok sv1 \<and> (\<forall>t. tenant = Some t \<longrightarrow> (\<forall>x\<in>set (rr_results r). of_tenant t x))
    \<and> rv_index sv1 = rv_index sv \<and> rv_reranker sv1 = rv_reranker sv \<and> rv_config sv1 = rv_config sv"
proof (cases "py_strip query = []")
  case False
  let ?key = "cache_key tenant query"
  let ?hit = "if skip then None else Option.bind (map_of (rv_cache sv) ?key) (\<lambda>(r, stored). if now - stored < rv_cache_ttl sv then Some r else None)"
  show ?thesis
  proof (cases ?hit)
    case (Some r')
    then have "r = r'" "sv1 = sv" using assms(4) False by (simp_all add: retrieve_def)
    moreover obtain stored where "map_of (rv_cache sv) ?key = Some (r', stored)" using Some by (auto simp: bind_eq_Some_conv split: if_splits)
    ultimately show ?thesis using assms(1,2) unfolding cache_ok_def by (auto simp del: bind_eq_Some_conv) fastforce
  next
    case None
    then have sv1: "sv1 = sv\<lparr>rv_cache := AList.update ?key (r, later) (rv_cache sv)\<rparr>"
      and t: "\<And>t. tenant = Some t \<Longrightarrow> \<forall>x\<in>set (rr_results r). of_tenant t x"
      using assms(3,4) False by (auto simp: retrieve_def Let_def)
    have "cache_ok sv1" unfolding cache_ok_def sv1
    proof (intro allI impI)
      fix t q r' stored
      assume u: "uuid_text t" and m: "map_of (rv_cache (sv\<lparr>rv_cache := AList.update ?key (r, later) (rv_cache sv)\<rparr>)) (cache_key (Some t) q) = Some (r', stored)"
      show "\<forall>x\<in>set (rr_results r'). of_tenant t x"
      proof (cases "cache_key (Some t) q = ?key")
        case True
        then show ?thesis using cache_key_inj [OF u assms(2), of query q] m t by (auto simp: update_conv')
      next
        case False
        then show ?thesis using m assms(1) u unfolding cache_ok_def by (auto simp: update_conv')
      qed
    qed
    then show ?thesis using t sv1 by simp
  qed
qed (use assms in \<open>auto simp: retrieve_def\<close>)

section \<open>Properties\<close>

lemma map_filter_sorted:
  assumes "sorted_wrt Q xs" "\<And>x y u v. Q x y \<Longrightarrow> g x = Some u \<Longrightarrow> g y = Some v \<Longrightarrow> P u v"
  shows "sorted_wrt P (List.map_filter g xs)"
  using assms(1)
proof (induction xs)
  case (Cons x xs)
  show ?case
  proof (cases "g x")
    case (Some u)
    have "P u v" if m: "v \<in> set (List.map_filter g xs)" for v
    proof -
      obtain y where "y \<in> set xs" "g y = Some v" using m by (auto simp: map_filter_iff)
      then show ?thesis using Cons.prems assms(2) [OF _ Some] by fastforce
    qed
    then show ?thesis using Cons Some by (simp add: map_filter_simps)
  qed (use Cons in \<open>simp add: map_filter_simps\<close>)
qed (simp add: map_filter_simps)

text \<open>Rank fusion: every result carries the sum of its reciprocal ranks in the two lists, no document appears twice, every vector hit
  is kept, and the list is ordered by the fused score.\<close>

theorem fusion_sums_reciprocal_ranks:
  "(\<forall>r\<in>set (reciprocal_rank_fusion ix k vs hs). sr_score r = rank_sum k 1 (map res_id vs) (res_id r) + rank_sum k 1 (map fst hs) (res_id r))
   \<and> res_id ` set vs \<subseteq> res_id ` set (reciprocal_rank_fusion ix k vs hs)
   \<and> sorted_wrt (\<lambda>x y. sr_score y \<le> sr_score x \<and> res_id x \<noteq> res_id y) (reciprocal_rank_fusion ix k vs hs)"
proof -
  obtain fv pv where v: "fuse_vector k 1 vs ([], []) = (fv, pv)" by fastforce
  obtain f p where e: "fuse_lexical ix k 1 hs (fuse_vector k 1 vs ([], [])) = (f, p)" by fastforce
  have mem: "map_of f i = Some x \<Longrightarrow> map_of p i = Some q \<Longrightarrow> \<lparr>sr_document = sr_document q, sr_score = x\<rparr> \<in> set (reciprocal_rank_fusion ix k vs hs)" for i x q
    using fusion_members [OF e] by blast
  have "sr_score r = rank_sum k 1 (map res_id vs) (res_id r) + rank_sum k 1 (map fst hs) (res_id r)" if m: "r \<in> set (reciprocal_rank_fusion ix k vs hs)" for r
  proof -
    obtain i x q where r: "map_of f i = Some x" "map_of p i = Some q" "r = \<lparr>sr_document = sr_document q, sr_score = x\<rparr>"
      using m fusion_members [OF e] by blast
    have "res_id q = i" using fusion_payload [OF e r(2)] by blast
    then show ?thesis using fusion_scores [OF e r(1)] r(3) by simp
  qed
  moreover have "res_id v \<in> res_id ` set (reciprocal_rank_fusion ix k vs hs)" if v: "v \<in> set vs" for v
  proof -
    obtain x q where "map_of f (res_id v) = Some x" "map_of p (res_id v) = Some q" using fusion_keeps_vectors [OF e v] by auto
    from mem [OF this] fusion_payload [OF e this(2)] show ?thesis by (metis (no_types, lifting) image_eqI search_result.select_convs(1))
  qed
  moreover have "sorted_wrt (\<lambda>x y. sr_score y \<le> sr_score x \<and> res_id x \<noteq> res_id y) (reciprocal_rank_fusion ix k vs hs)"
  proof -
    have d: "distinct (map fst f)" using e v fuse_vector_distinct [of "[]" k 1 vs "[]"] fuse_lexical_distinct [of fv ix k 1 hs pv] by simp
    have "distinct (map fst (py_sorted_desc snd f))"
      using d by (simp add: distinct_map)
    then have "sorted_wrt (\<lambda>a b. snd b \<le> snd a \<and> fst a \<noteq> fst b) (py_sorted_desc snd f)"
      using sorted_py_sorted_desc [of snd f] by (auto simp: sorted_wrt_iff_nth_less distinct_conv_nth)
    then show ?thesis unfolding reciprocal_rank_fusion_def e prod.case
      by (rule map_filter_sorted) (use fusion_payload [OF e] in \<open>fastforce simp: split_beta\<close>)
  qed
  ultimately show ?thesis by (intro conjI ballI subsetI) auto
qed

lemma apply_rerank_mset: "mset (apply_rerank rk query rs) = mset rs"
proof -
  have "mset (map fst (py_sorted_desc snd (zip rs xs))) = mset rs" if "length xs = length rs" for xs :: "rat list"
  proof -
    have "mset (py_sorted_desc snd (zip rs xs)) = mset (zip rs xs)" by (simp add: py_sorted_desc_def)
    then show ?thesis using that by (metis map_fst_zip mset_map)
  qed
  then show ?thesis by (auto simp: apply_rerank_def split: option.split)
qed

lemma set_apply_rerank [simp]: "set (apply_rerank rk query rs) = set rs"
  using apply_rerank_mset mset_eq_setD by blast

text \<open>
  The services a process can reach: made with an empty cache, then used by any of the operations, with any store, clock and query, for tenants
  whose identifiers are UUIDs, as long as the configuration that a plain retrieval uses filters by tenant (the default).
\<close>

inductive serves :: "retrieval_service \<Rightarrow> bool" where
  made: "rv_cache sv = [] \<Longrightarrow> serves sv"
| asked: "serves sv \<Longrightarrow> tenant = None \<or> uuid_text (the tenant) \<Longrightarrow> rg_filter_by_tenant (get_or custom (rv_config sv))
          \<Longrightarrow> retrieve E now later query tenant filters custom skip allowed sv = Some (r, sv1) \<Longrightarrow> serves sv1"
| reranked: "serves sv \<Longrightarrow> tenant = None \<or> uuid_text (the tenant) \<Longrightarrow> retrieve_with_reranking E now later query tenant n sv = Some (r, sv1) \<Longrightarrow> serves sv1"
| fused: "serves sv \<Longrightarrow> tenant = None \<or> uuid_text (the tenant) \<Longrightarrow> retrieve_hybrid E now later query tenant n allowed sv = Some (r, sv1) \<Longrightarrow> serves sv1"
| varied: "serves sv \<Longrightarrow> tenant = None \<or> uuid_text (the tenant) \<Longrightarrow> rg_filter_by_tenant (rv_config sv)
           \<Longrightarrow> multi_query_retrieval E now later query tenant vs n sv = Some (r, sv1) \<Longrightarrow> serves sv1"
| cleared: "serves sv \<Longrightarrow> invalidate_cache tenant sv = (n, sv1) \<Longrightarrow> serves sv1"

lemma run_queries_cache:
  assumes "cache_ok sv" "tenant = None \<or> uuid_text (the tenant)" "rg_filter_by_tenant (rv_config sv)"
    and "run_queries E now later tenant qs acc sv = Some (all, sv1)"
  shows "cache_ok sv1"
  using assms(1,3,4)
proof (induction qs arbitrary: acc sv)
  case (Cons q qs)
  obtain r sv2 where r: "retrieve E now later q tenant [] None True [] sv = Some (r, sv2)" and t: "run_queries E now later tenant qs (collect_new acc (rr_results r)) sv2 = Some (all, sv1)"
    using Cons.prems(3) by (auto split: option.splits)
  note s = retrieve_in_tenant [OF Cons.prems(1) assms(2) _ r]
  have "cache_ok sv2" "rg_filter_by_tenant (rv_config sv2)" using s Cons.prems(2) by (simp_all add: get_or_def)
  then show ?case using Cons.IH t by blast
qed simp

lemma cache_ok_fewer:
  assumes "cache_ok sv" "map_of c \<subseteq>\<^sub>m map_of (rv_cache sv)"
  shows "cache_ok (sv\<lparr>rv_cache := c\<rparr>)"
proof -
  have "map_of (rv_cache sv) k = Some v" if "map_of c k = Some v" for k v using assms(2) that by (metis domI map_le_def)
  then show ?thesis using assms(1) unfolding cache_ok_def by (metis (no_types, lifting) retrieval_service.select_convs(4) retrieval_service.surjective retrieval_service.update_convs(4))
qed

lemma invalidate_keeps_ok:
  assumes "cache_ok sv" "invalidate_cache tenant sv = (n, sv1)"
  shows "cache_ok sv1"
proof -
  have "map_of (filter (\<lambda>(k, _). P k) xs) k = (if P k then map_of xs k else None)" for P k and xs :: "(string \<times> retrieval_result \<times> time) list"
    by (induction xs) auto
  then have m: "map_of (filter (\<lambda>(k, _). P k) xs) \<subseteq>\<^sub>m map_of xs" for P and xs :: "(string \<times> retrieval_result \<times> time) list"
    by (auto simp: map_le_def split: if_splits)
  have "\<exists>c. sv1 = sv\<lparr>rv_cache := c\<rparr> \<and> map_of c \<subseteq>\<^sub>m map_of (rv_cache sv)"
    using assms(2) m by (cases tenant) (auto simp: invalidate_cache_def Let_def)
  then show ?thesis using cache_ok_fewer [OF assms(1)] by blast
qed

lemma serves_cache_ok: "serves sv \<Longrightarrow> cache_ok sv"
proof (induction rule: serves.induct)
  case (asked sv tenant custom E now later query filters skip allowed r sv1)
  then show ?case using retrieve_in_tenant by blast
next
  case (reranked sv tenant E now later query n r sv1)
  then obtain v where "retrieve E now later query tenant [] (Some (rg_default\<lparr>rg_top_k := n * 3, rg_score_threshold := 2/10\<rparr>)) False [] sv = Some (v, sv1)"
    by (auto simp: retrieve_with_reranking_def Let_def)
  from retrieve_in_tenant [OF reranked.IH reranked.hyps(2) _ this] show ?case by (simp add: rg_default_def)
next
  case (fused sv tenant E now later query n allowed r sv1)
  then obtain v where "retrieve E now later query tenant [] (Some (hybrid_config n sv)) False allowed sv = Some (v, sv1)"
    by (auto simp: retrieve_hybrid_def split: option.splits)
  from retrieve_in_tenant [OF fused.IH fused.hyps(2) _ this] show ?case by (simp add: hybrid_config_def rg_default_def)
next
  case (varied sv tenant E now later query vs n r sv1)
  from varied.hyps(4) obtain all where "run_queries E now later tenant (query # vs) [] sv = Some (all, sv1)"
    by (cases "run_queries E now later tenant (query # vs) [] sv") (auto simp: multi_query_retrieval_def Let_def simp del: run_queries.simps)
  from run_queries_cache [OF varied.IH varied.hyps(2,3) this] show ?case .
next
  case (cleared sv tenant n sv1)
  then show ?case using invalidate_keeps_ok by blast
qed (simp add: cache_ok_def)

lemma retrieve_returns:
  assumes "\<And>cfg. re_find E query cfg \<noteq> None"
  shows "\<exists>r sv1. retrieve E now later query tenant filters custom skip allowed sv = Some (r, sv1)"
proof -
  have "\<exists>rs. rag_search (re_other E) (re_find E) (re_rag_tenant E) query tenant filters allowed k th = Some rs" for k th
    using assms by (simp add: rag_search_def Let_def)
  then show ?thesis unfolding retrieve_def Let_def by (auto split: option.split)
qed

text \<open>C20: Through any history of the retrieval service in which plain retrieval filters by tenant, every document that hybrid retrieval returns
  for a tenant belongs to that tenant, whether it came from the vector store, the lexical index or the cache, and whatever the reranker does; at most
  the asked number is returned. Hybrid retrieval raises only if the search of the vector store (or the embedding) raises: over an index
  built by its own operations the lexical search never does.\<close>

theorem hybrid_results_stay_in_tenant:
  assumes "serves sv" "uuid_text t" "\<And>q. set (re_walk E q) = set q"
    and "\<And>ix. rv_index sv = Some ix \<Longrightarrow> built ix \<and> bm_params ix"
  shows "(case retrieve_hybrid E now later query (Some t) top_k allowed sv of
            None \<Rightarrow> \<exists>cfg. re_find E query cfg = None
          | Some (r, sv1) \<Rightarrow> length (rr_results r) \<le> top_k \<and> (\<forall>x\<in>set (rr_results r). of_tenant t x))"
proof (cases "retrieve E now later query (Some t) [] (Some (hybrid_config top_k sv)) False allowed sv")
  case None
  then have "\<exists>cfg. re_find E query cfg = None" using retrieve_returns [of E query] by (metis option.distinct(1))
  then show ?thesis using None by (simp add: retrieve_hybrid_def)
next
  case (Some vs)
  obtain v sv1 where v: "retrieve E now later query (Some t) [] (Some (hybrid_config top_k sv)) False allowed sv = Some (v, sv1)" using Some by (cases vs) auto
  have i: "\<forall>x\<in>set (rr_results v). of_tenant t x"
    using retrieve_in_tenant [OF serves_cache_ok [OF assms(1)] _ _ v] assms(2) by (simp add: hybrid_config_def rg_default_def)
  show ?thesis
  proof (cases "rv_index sv")
    case None
    then show ?thesis using v i by (auto simp: retrieve_hybrid_def dest: in_set_takeD)
  next
    case (Some ix)
    have b: "built ix" "bm_params ix" using assms(4) Some by auto
    obtain all where s: "bm_search (re_log E) (re_walk E) ix query (Some t) (rv_hybrid_lexical_k sv) = Some (take (rv_hybrid_lexical_k sv) (py_sorted_desc snd all))"
      and vis: "\<And>d x. (d, x) \<in> set all \<Longrightarrow> visible ix (Some t) d"
      using search_scores [of ix "re_walk E" query "re_log E" "Some t" "rv_hybrid_lexical_k sv", OF b assms(3)] by blast
    let ?hits = "take (rv_hybrid_lexical_k sv) (py_sorted_desc snd all)"
    have hit: "visible ix (Some t) d" if "d \<in> fst ` set ?hits" for d using that vis by (force dest: in_set_takeD)
    obtain f p where e: "fuse_lexical (Some ix) 60 1 ?hits (fuse_vector 60 1 (rr_results v) ([], [])) = (f, p)" by fastforce
    have "of_tenant t x" if m: "x \<in> set (reciprocal_rank_fusion (Some ix) 60 (rr_results v) ?hits)" for x
    proof -
      obtain j y q where "map_of p j = Some q" and x: "x = \<lparr>sr_document = sr_document q, sr_score = y\<rparr>" using m fusion_members [OF e] by blast
      from fusion_payload [OF e this(1)] consider "q \<in> set (rr_results v)"
        | sd where "visible ix (Some t) j" "map_of (bm_docs ix) j = Some sd" "q = lexical_result j sd"
        using hit unfolding bm_document_def by (metis option.inject)
      then have "of_tenant t q" using i by cases (auto simp: visible_def)
      then show ?thesis using x by (simp add: of_tenant_def)
    qed
    then show ?thesis using v s Some by (auto simp: retrieve_hybrid_def dest: in_set_takeD)
  qed
qed

text \<open>A cached answer is returned whatever sources, filters and limits the caller asks for: the key has only the tenant and the query.\<close>

theorem cached_answer_ignores_allowlist:
  assumes "retrieve E now later query tenant filters custom True allowed sv = Some (r, sv1)" "py_strip query \<noteq> []" "later' - later < rv_cache_ttl sv"
  shows "retrieve E' later' later'' query tenant filters' custom' False allowed' sv1 = Some (r, sv1)"
  using assms by (auto simp: retrieve_def Let_def update_conv')

text \<open>Hits of the lexical index pass no allowlist: when the vector store finds nothing, the answer is the same for every allowlist.\<close>

theorem lexical_hits_ignore_allowlist:
  assumes "\<And>q cfg. re_find E q cfg = Some []"
  shows "retrieve_hybrid E now later query tenant top_k allowed sv = retrieve_hybrid E now later query tenant top_k allowed' sv"
proof -
  have "rag_search other (re_find E) rt q tenant flt al k th = Some []" for other rt q tenant flt al k th using assms by (simp add: rag_search_def Let_def)
  then have "retrieve E now later query tenant [] c False allowed sv = retrieve E now later query tenant [] c False allowed' sv" for c
    by (simp only: retrieve_def)
  then show ?thesis by (simp only: retrieve_hybrid_def)
qed

subsection \<open>Metrics\<close>

lemma precision_bounds: "0 \<le> precision_at_k ids rel k \<and> precision_at_k ids rel k \<le> 1"
  by (simp add: precision_at_k_def divide_le_eq_1)

lemma hits_le_card: "finite rel \<Longrightarrow> distinct ids \<Longrightarrow> length (filter (\<lambda>i. i \<in> rel) (top_ids k ids)) \<le> card rel"
proof -
  assume "finite rel" "distinct ids"
  then have d: "distinct (filter (\<lambda>i. i \<in> rel) (top_ids k ids))" by (auto simp: top_ids_def split: option.split)
  have "card (set (filter (\<lambda>i. i \<in> rel) (top_ids k ids))) \<le> card rel" using \<open>finite rel\<close> by (intro card_mono) auto
  then show ?thesis using distinct_card [OF d] by (simp only:)
qed

text \<open>Recall is a fraction as long as no identifier is retrieved twice; repeated identifiers count more than once.\<close>

theorem recall_bounds: "finite rel \<Longrightarrow> distinct ids \<Longrightarrow> 0 \<le> recall_at_k ids rel k \<and> recall_at_k ids rel k \<le> 1"
  using hits_le_card [of rel ids k] by (simp add: recall_at_k_def divide_le_eq_1 card_gt_0_iff)

theorem recall_counts_repeats: "recall_at_k [''a'', ''a''] {''a''} None = 2"
  by (simp add: recall_at_k_def top_ids_def)

lemma first_hit_bounds: "0 < rank \<Longrightarrow> 0 \<le> first_hit rank rel ids \<and> first_hit rank rel ids \<le> 1"
  by (induction ids arbitrary: rank) (auto simp: divide_le_eq_1)

lemma mrr_bounds: "0 \<le> mean_reciprocal_rank runs rel \<and> mean_reciprocal_rank runs rel \<le> 1"
proof -
  have "sum_list (map (first_hit 1 rel) runs) \<le> of_nat (length runs)" and "0 \<le> sum_list (map (first_hit 1 rel) runs)"
    using first_hit_bounds [of 1 rel] by (induction runs) (auto simp: add_mono)
  then show ?thesis by (simp add: mean_reciprocal_rank_def divide_le_eq_1)
qed

definition gains :: "nat \<Rightarrow> nat \<Rightarrow> rat" where
  "gains m h = (\<Sum>j<h. 1 / of_nat (m + j + 1))"

fun dcg_from :: "nat \<Rightarrow> string set \<Rightarrow> string list \<Rightarrow> rat" where
  "dcg_from m rel [] = 0"
| "dcg_from m rel (i # ids) = (if i \<in> rel then 1 / of_nat (m + 1) else 0) + dcg_from (m + 1) rel ids"

lemma dcg_from_zip: "sum_list (map (\<lambda>(n, i). if i \<in> rel then 1 / of_nat (n + 1) else 0) (zip [m..<m + length ids] ids)) = dcg_from m rel ids"
proof (induction ids arbitrary: m)
  case (Cons i ids)
  then show ?case using Cons.IH [of "Suc m"] by (simp add: upt_rec)
qed simp

lemma dcg_eq: "dcg rel ids = dcg_from 0 rel ids"
  using dcg_from_zip [of rel 0 ids] by (simp add: dcg_def)

lemma gains_Suc: "gains m (Suc h) = 1 / of_nat (m + 1) + gains (m + 1) h"
  by (simp add: gains_def sum.lessThan_Suc_shift del: sum.lessThan_Suc)

lemma gains_shift: "gains (m + 1) h \<le> gains m h"
  unfolding gains_def by (intro sum_mono) (simp add: frac_le)

lemma gains_mono: "h \<le> h' \<Longrightarrow> gains m h \<le> gains m h'"
  unfolding gains_def by (intro sum_mono2) auto

lemma dcg_from_le: "dcg_from m rel ids \<le> gains m (length (filter (\<lambda>i. i \<in> rel) ids))"
proof (induction ids arbitrary: m)
  case (Cons i ids)
  show ?case
  proof (cases "i \<in> rel")
    case True
    then show ?thesis using Cons.IH [of "m + 1"] by (simp add: gains_Suc)
  next
    case False
    then show ?thesis using order_trans [OF Cons.IH [of "m + 1"] gains_shift] by simp
  qed
qed (simp add: gains_def)

lemma dcg_from_all: "set ids \<subseteq> rel \<Longrightarrow> dcg_from m rel ids = gains m (length ids)"
  by (induction ids arbitrary: m) (auto simp: gains_Suc, simp add: gains_def)

text \<open>The normalised gain is at most one for distinct identifiers: the ideal ranking places as many relevant documents first as fit.\<close>

theorem ndcg_bounded:
  assumes "finite rel" "distinct ids"
  shows "ndcg_at_k ids rel k \<le> 1"
proof -
  let ?got = "top_ids k ids" and ?ideal = "take (length (top_ids k ids)) (sorted_list_of_set rel)"
  have "length (filter (\<lambda>i. i \<in> rel) ?got) \<le> length ?ideal" using hits_le_card [OF assms, of k] by simp
  then have "dcg rel ?got \<le> gains 0 (length ?ideal)" using order_trans [OF dcg_from_le gains_mono] by (simp add: dcg_eq)
  also have "\<dots> = dcg rel ?ideal" using assms(1) by (subst dcg_eq, subst dcg_from_all) (auto dest: in_set_takeD)
  finally show ?thesis by (simp add: ndcg_at_k_def Let_def divide_le_eq_1)
qed

subsection \<open>Witnesses\<close>

definition demo_service :: retrieval_service where
  "demo_service = \<lparr>rv_config = rg_default, rv_cache_ttl = 300, rv_hybrid_lexical_k = 15, rv_cache = [], rv_index = Some demo_index, rv_reranker = None\<rparr>"

definition demo_env :: retrieval_env where
  "demo_env = \<lparr>re_other = (\<lambda>_. []), re_find = (\<lambda>_ _. Some []), re_rag_tenant = None, re_log = (\<lambda>x. x), re_walk = remdups\<rparr>"

theorem hybrid_results_stay_in_tenant_witness:
  "\<exists>r sv1. retrieve_hybrid demo_env 0 1 ''car'' (Some ''t'') 3 [] demo_service = Some (r, sv1) \<and> (\<forall>x\<in>set (rr_results r). of_tenant ''t'' x)"
proof -
  have "built demo_index" unfolding demo_index_def by (intro built.intros)
  moreover have "bm_params demo_index" by (simp add: demo_index_def bm_params_def bm_upsert_def bm_remove_def bm_init_def Let_def)
  moreover have "serves demo_service" by (rule serves.made) (simp add: demo_service_def)
  ultimately show ?thesis
    using hybrid_results_stay_in_tenant [where sv = demo_service and t = "''t''" and E = demo_env and now = 0 and later = 1 and query = "''car''" and top_k = 3 and allowed = "[]"]
    by (auto simp: demo_service_def demo_env_def uuid_text_def split: option.splits)
qed

end
