(* ===== verification/Memory_Facts.thy ===== *)
theory Memory_Facts
  imports Compaction Lexical_Index
begin

text \<open>
  The durable memory of end users: the table of facts (\<open>infrastructure/db/memory.py\<close>), extraction of facts from the closed turns of a thread
  and their retrieval (\<open>application/memory/service.py\<close>), and the job handler \<open>handle_memory_extract\<close> (\<open>worker/handlers.py\<close>). The model call, \<open>json.loads\<close> and
  the PII service are parameters; \<open>'w\<close> is the state of the model provider. Rows stand in the order of insertion, the order of
  their creation times.
\<close>

section \<open>Definitions\<close>

subsection \<open>The table\<close>

record memory_row =
  mr_id :: string
  mr_tenant :: string
  mr_end_user :: "string option"
  mr_thread :: string
  mr_source_seq :: int
  mr_content :: string
  mr_version :: nat
  mr_expires_at :: "time option"
  mr_erased :: bool

type_synonym memory_db = "memory_row list"

definition memory_add :: "string \<Rightarrow> string \<Rightarrow> string option \<Rightarrow> string \<Rightarrow> int \<Rightarrow> string \<Rightarrow> time option \<Rightarrow> memory_db \<Rightarrow> memory_db" where
  "memory_add i tenant user thread seq content expires db =
     db @ [\<lparr>mr_id = i, mr_tenant = tenant, mr_end_user = user, mr_thread = thread, mr_source_seq = seq, mr_content = content, mr_version = 1,
       mr_expires_at = expires, mr_erased = False\<rparr>]"

definition live :: "time \<Rightarrow> memory_row \<Rightarrow> bool" where
  "live now r \<longleftrightarrow> \<not> mr_erased r \<and> (case mr_expires_at r of None \<Rightarrow> True | Some e \<Rightarrow> now < e)"

definition memory_retrieve :: "memory_db \<Rightarrow> time \<Rightarrow> string \<Rightarrow> string option \<Rightarrow> nat \<Rightarrow> memory_row list" where
  "memory_retrieve db now tenant user n =
     take n (rev (filter (\<lambda>r. mr_tenant r = tenant \<and> mr_end_user r = user \<and> live now r) db))"

definition max_source_seq :: "memory_db \<Rightarrow> string \<Rightarrow> string \<Rightarrow> int" where
  "max_source_seq db tenant thread = max_or_zero (map mr_source_seq (filter (\<lambda>r. mr_tenant r = tenant \<and> mr_thread r = thread) db))"

definition erase_where :: "(memory_row \<Rightarrow> bool) \<Rightarrow> memory_db \<Rightarrow> nat \<times> memory_db" where
  "erase_where P db =
     (length (filter (\<lambda>r. P r \<and> \<not> mr_erased r) db), map (\<lambda>r. if P r \<and> \<not> mr_erased r then r\<lparr>mr_erased := True\<rparr> else r) db)"

definition erase_by_user :: "string \<Rightarrow> string \<Rightarrow> memory_db \<Rightarrow> nat \<times> memory_db" where
  "erase_by_user tenant user = erase_where (\<lambda>r. mr_tenant r = tenant \<and> mr_end_user r = Some user)"

definition erase_by_thread :: "string \<Rightarrow> string \<Rightarrow> memory_db \<Rightarrow> nat \<times> memory_db" where
  "erase_by_thread tenant thread = erase_where (\<lambda>r. mr_tenant r = tenant \<and> mr_thread r = thread)"

definition erase_by_id :: "string \<Rightarrow> string \<Rightarrow> memory_db \<Rightarrow> bool \<times> memory_db" where
  "erase_by_id tenant i db = (case erase_where (\<lambda>r. mr_tenant r = tenant \<and> mr_id r = i) db of (n, db1) \<Rightarrow> (0 < n, db1))"

definition prune_expired :: "string \<Rightarrow> time \<Rightarrow> memory_db \<Rightarrow> nat \<times> memory_db" where
  "prune_expired tenant now = erase_where (\<lambda>r. mr_tenant r = tenant \<and> (case mr_expires_at r of None \<Rightarrow> False | Some e \<Rightarrow> e \<le> now))"

text \<open>The extracted number of a thread is looked up by the thread alone.\<close>

definition extracted_seq :: "memory_db \<Rightarrow> string \<Rightarrow> int" where
  "extracted_seq db thread = max_or_zero (map mr_source_seq (filter (\<lambda>r. mr_thread r = thread) db))"

definition list_threads_pending_extraction :: "thread_db \<Rightarrow> memory_db \<Rightarrow> nat \<Rightarrow> (thread_row \<times> int) list" where
  "list_threads_pending_extraction tdb db n =
     take n (py_sorted_desc snd
       (filter (\<lambda>(t, latest). th_status t = ''active'' \<and> \<not> th_archived t \<and> extracted_seq db (th_id t) < latest)
         (map (\<lambda>t. (t, max_message_seq tdb (th_id t)))
           (filter (\<lambda>t. \<exists>m \<in> set (db_messages tdb). ms_thread m = th_id t) (db_threads tdb)))))"

subsection \<open>Extraction\<close>

record memory_config =
  mc_enabled :: bool
  mc_max_facts :: int
  mc_expiry_days :: int

definition mc_default :: memory_config where
  "mc_default = \<lparr>mc_enabled = False, mc_max_facts = 20, mc_expiry_days = 30\<rparr>"

text \<open>\<open>memory\<close> is the tenant's section of that name.\<close>

definition json_int :: "json \<Rightarrow> int option" where
  "json_int j = (case j of JInt n \<Rightarrow> Some n | JNum x \<Rightarrow> Some (if 0 \<le> x then \<lfloor>x\<rfloor> else \<lceil>x\<rceil>) | JBool b \<Rightarrow> Some (if b then 1 else 0) | _ \<Rightarrow> None)"

definition memory_config_of :: "(string \<times> bool) list \<Rightarrow> (string \<times> json) list \<Rightarrow> memory_config option" where
  "memory_config_of features memory =
     (case (json_int (get_or (map_of memory ''max_facts'') (JInt 20)), json_int (get_or (map_of memory ''expiry_days'') (JInt 30))) of
        (Some m, Some e) \<Rightarrow> Some \<lparr>mc_enabled = get_or (map_of features ''memory'') False, mc_max_facts = m, mc_expiry_days = e\<rparr>
      | _ \<Rightarrow> None)"

datatype extraction_error = NothingToExtract | ExtractorFailed string | InvalidJson | NotAList

definition backtick :: char where
  "backtick = CHR 96"

definition strip_backticks :: "string \<Rightarrow> string" where
  "strip_backticks s = rev (dropWhile (\<lambda>c. c = backtick) (rev (dropWhile (\<lambda>c. c = backtick) s)))"

definition unfence :: "string \<Rightarrow> string" where
  "unfence s =
     (let c = py_strip s
      in if py_startswith (replicate 3 backtick) c
         then let b = strip_backticks c in if py_startswith ''json'' (py_lower b) then py_strip (drop 4 b) else b
         else c)"

definition fact_text :: "json \<Rightarrow> string option" where
  "fact_text j = (case j of JStr s \<Rightarrow> if py_strip s = [] then None else Some (py_strip s) | _ \<Rightarrow> None)"

definition parse_facts :: "(string \<Rightarrow> json option) \<Rightarrow> string \<Rightarrow> extraction_error + string list" where
  "parse_facts loads reply =
     (case loads (unfence reply) of
        None \<Rightarrow> Inl InvalidJson
      | Some (JList xs) \<Rightarrow> Inr (take 20 (List.map_filter fact_text xs))
      | Some _ \<Rightarrow> Inl NotAList)"

type_synonym turn_text = "string \<times> string"

definition extract_facts :: "(string \<Rightarrow> json option) \<Rightarrow> (string \<Rightarrow> 'w \<Rightarrow> (string + string) \<times> 'w) \<Rightarrow> turn_text list \<Rightarrow> 'w \<Rightarrow> (extraction_error + string list) \<times> 'w" where
  "extract_facts loads chat turns w =
     (let conversation = py_join [CHR 0x0A] (map (\<lambda>(role, s). role @ '': '' @ s) (filter (\<lambda>(_, s). s \<noteq> []) turns))
      in if py_strip conversation = [] then (Inl NothingToExtract, w)
         else case chat conversation w of
                (Inl e, w1) \<Rightarrow> (Inl (ExtractorFailed e), w1)
              | (Inr reply, w1) \<Rightarrow> (parse_facts loads reply, w1))"

text \<open>The loop over the pages; \<open>None\<close> stands for not returning, or for a page that is empty and yet has more.\<close>

partial_function (option) collect_since :: "(int option \<Rightarrow> nat \<Rightarrow> 'm list \<times> bool) \<Rightarrow> ('m \<Rightarrow> int) \<Rightarrow> int \<Rightarrow> 'm list \<Rightarrow> 'm list option" where
  "collect_since page seq after acc =
     (if \<not> snd (page (Some after) 200) then Some (acc @ fst (page (Some after) 200))
      else if fst (page (Some after) 200) = [] then None
      else collect_since page seq (seq (last (fst (page (Some after) 200)))) (acc @ fst (page (Some after) 200)))"

datatype extract_outcome =
    ThreadNotFound
  | NoNewTurns
  | NoClosedTurns
  | Extracted nat int int
  | NoFacts int int
  | ExtractRaised extraction_error
  | ExtractHangs

fun store_facts ::
  "(string \<Rightarrow> string) \<Rightarrow> (string \<Rightarrow> string) option \<Rightarrow> string \<Rightarrow> string option \<Rightarrow> string \<Rightarrow> int \<Rightarrow> time option \<Rightarrow> string list \<Rightarrow> memory_db \<Rightarrow> nat \<times> memory_db" where
  "store_facts fresh pii tenant user thread seq expires [] db = (0, db)"
| "store_facts fresh pii tenant user thread seq expires (f # fs) db =
     (let f1 = (case pii of None \<Rightarrow> f | Some redact \<Rightarrow> py_strip (redact f))
      in if f1 = [] then store_facts fresh pii tenant user thread seq expires fs db
         else case store_facts fresh pii tenant user thread seq expires fs (memory_add (fresh f1) tenant user thread seq f1 expires db) of
                (n, db1) \<Rightarrow> (n + 1, db1))"

definition day :: time where
  "day = 86400"

definition extract_thread_memory ::
  "(turn_text list \<Rightarrow> 'w \<Rightarrow> (extraction_error + string list) \<times> 'w) \<Rightarrow> (string \<Rightarrow> string) option \<Rightarrow> memory_config \<Rightarrow> (string \<Rightarrow> string) \<Rightarrow> time \<Rightarrow> thread_db
     \<Rightarrow> string \<Rightarrow> string \<Rightarrow> memory_db \<Rightarrow> 'w \<Rightarrow> extract_outcome \<times> memory_db \<times> 'w" where
  "extract_thread_memory gen pii cfg fresh now tdb tenant tid db w =
     (case get_thread tdb tenant tid of
        None \<Rightarrow> (ThreadNotFound, db, w)
      | Some thread \<Rightarrow>
          (let mark = max_source_seq db tenant tid
           in case collect_since (list_messages tdb tenant tid) ms_seq mark [] of
                None \<Rightarrow> (ExtractHangs, db, w)
              | Some all \<Rightarrow>
                  if all = [] then (NoNewTurns, db, w)
                  else let turns = butlast all; closed = map (\<lambda>m. (ms_role m, ms_redacted m)) (filter (\<lambda>m. ms_redacted m \<noteq> []) turns)
                       in if closed = [] then (NoClosedTurns, db, w)
                          else case gen closed w of
                                 (Inl e, w1) \<Rightarrow> (ExtractRaised e, db, w1)
                               | (Inr facts, w1) \<Rightarrow>
                                   (let seq = ms_seq (last turns);
                                        expires = (if 0 < mc_expiry_days cfg then Some (now + of_int (mc_expiry_days cfg) * day) else None)
                                    in case store_facts fresh pii tenant (th_end_user thread) tid seq expires facts db of
                                         (n, db1) \<Rightarrow> (if n = 0 then NoFacts seq mark else Extracted n seq mark, db1, w1))))"

subsection \<open>Retrieval\<close>

definition regex_word :: "char \<Rightarrow> bool" where
  "regex_word c = (c \<in> set ''abcdefghijklmnopqrstuvwxyzABCDEFGHIJKLMNOPQRSTUVWXYZ0123456789_'')"

definition query_tokens :: "string option \<Rightarrow> string list" where
  "query_tokens query = (if truthy_str query then filter (\<lambda>t. 3 \<le> length t) (char_runs regex_word [] (py_lower (the query))) else [])"

definition score_facts :: "memory_row list \<Rightarrow> string option \<Rightarrow> nat \<Rightarrow> memory_row list" where
  "score_facts rows query n =
     (let ts = query_tokens query;
          scored = map (\<lambda>r. (length (filter (\<lambda>t. py_in t (py_lower (mr_content r))) (remdups ts)), r)) rows
      in map snd (take n (py_sorted_desc fst (filter (\<lambda>(x, _). ts = [] \<or> 0 < x) scored))))"

definition retrieve_facts :: "memory_db \<Rightarrow> time \<Rightarrow> string \<Rightarrow> string option \<Rightarrow> string option \<Rightarrow> nat \<Rightarrow> string list" where
  "retrieve_facts db now tenant user query n = map mr_content (score_facts (memory_retrieve db now tenant user (max (n * 3) 30)) query n)"

subsection \<open>The job handler\<close>

text \<open>One target: the tenant's configuration (\<open>None\<close>: no such tenant), the provider key and the extractor built from them. The configuration is not passed
  on, so extraction runs with the default one.\<close>

record 'w memory_tenant =
  mt_config :: memory_config
  mt_key :: "string option"
  mt_generator :: "turn_text list \<Rightarrow> 'w \<Rightarrow> (extraction_error + string list) \<times> 'w"

fun extract_targets ::
  "(string \<Rightarrow> 'w memory_tenant option) \<Rightarrow> (string \<Rightarrow> string) option \<Rightarrow> (string \<Rightarrow> string) \<Rightarrow> time \<Rightarrow> thread_db \<Rightarrow> (string \<times> string) list \<Rightarrow> memory_db \<Rightarrow> 'w
     \<Rightarrow> (extraction_error + unit) \<times> memory_db \<times> 'w" where
  "extract_targets tenants pii fresh now tdb [] db w = (Inr (), db, w)"
| "extract_targets tenants pii fresh now tdb ((tenant, tid) # ts) db w =
     (case tenants tenant of
        None \<Rightarrow> extract_targets tenants pii fresh now tdb ts db w
      | Some mt \<Rightarrow>
          if \<not> mc_enabled (mt_config mt) \<or> \<not> truthy_str (mt_key mt) then extract_targets tenants pii fresh now tdb ts db w
          else case extract_thread_memory (mt_generator mt) pii mc_default fresh now tdb tenant tid db w of
                 (ExtractRaised e, db1, w1) \<Rightarrow> (Inl e, db1, w1)
               | (_, db1, w1) \<Rightarrow> extract_targets tenants pii fresh now tdb ts db1 w1)"

definition handle_memory_extract ::
  "(string \<Rightarrow> 'w memory_tenant option) \<Rightarrow> (string \<Rightarrow> string) option \<Rightarrow> (string \<Rightarrow> string) \<Rightarrow> time \<Rightarrow> thread_db \<Rightarrow> string option \<Rightarrow> string option \<Rightarrow> memory_db \<Rightarrow> 'w
     \<Rightarrow> (extraction_error + unit) \<times> memory_db \<times> 'w" where
  "handle_memory_extract tenants pii fresh now tdb tenant tid db w =
     extract_targets tenants pii fresh now tdb
       (if truthy_str tenant \<and> truthy_str tid then [(the tenant, the tid)]
        else map (\<lambda>(t, _). (th_tenant t, th_id t)) (list_threads_pending_extraction tdb db 50)) db w"

section \<open>Lemmas\<close>

context paged_log
begin

text \<open>The page loop returns the rest of the log.\<close>

lemma collect_from:
  assumes "ok s" "i \<le> length (log s)" "filter (\<lambda>m. k < seq m) (log s) = drop i (log s)"
  shows "collect_since (page s) seq k acc = Some (acc @ drop i (log s))"
  using assms(2,3)
proof (induction "length (log s) - i" arbitrary: i k acc rule: less_induct)
  case less
  have pg: "page s (Some k) 200 = (take 200 (drop i (log s)), 200 < length (log s) - i)" using page_after [OF assms(1), of k 200] less.prems(2) by simp
  show ?case
  proof (cases "200 < length (log s) - i")
    case False
    then show ?thesis by (subst collect_since.simps) (simp add: pg)
  next
    case True
    have "collect_since (page s) seq k acc = collect_since (page s) seq (seq (log s ! (i + 199))) (acc @ take 200 (drop i (log s)))"
      using True last_taken [of 200 s i] by (subst collect_since.simps) (auto simp: pg add.commute)
    also have "\<dots> = Some ((acc @ take 200 (drop i (log s))) @ drop (i + 200) (log s))"
      using True after_position [OF assms(1), of "i + 199"] by (intro less.hyps) (simp_all add: eval_nat_numeral)
    finally show ?thesis by (simp add: add.commute [of i]) (metis append_take_drop_id drop_drop)
  qed
qed

end

lemma collect_thread:
  assumes "db_inv tdb"
  shows "collect_since (list_messages tdb tn tid) ms_seq k [] = Some (filter (\<lambda>m. k < ms_seq m) (thread_messages tdb tn tid))"
proof -
  obtain i where i: "i \<le> length (thread_messages tdb tn tid)" "filter (\<lambda>m. k < ms_seq m) (thread_messages tdb tn tid) = drop i (thread_messages tdb tn tid)"
    using filter_above_drop [OF thread_messages_ascending [OF assms]] by blast
  from thread_pages.collect_from [OF assms i, of "[]"] i(2) show ?thesis by simp
qed

lemma max_or_zero_Max: "max_or_zero xs = (if xs = [] then 0 else Max (set xs))"
  by (cases xs) (auto simp: max_or_zero_def simp flip: Max.set_eq_fold)

lemma store_facts_spec:
  "store_facts fresh pii tenant user tid seq expires fs db = (n, db1) \<Longrightarrow>
     \<exists>new. db1 = db @ new \<and> length new = n
       \<and> (\<forall>r\<in>set new. mr_tenant r = tenant \<and> mr_thread r = tid \<and> mr_end_user r = user \<and> mr_source_seq r = seq \<and> mr_expires_at r = expires
            \<and> \<not> mr_erased r \<and> mr_content r \<noteq> [] \<and> (\<exists>f\<in>set fs. mr_content r = (case pii of None \<Rightarrow> f | Some redact \<Rightarrow> py_strip (redact f))))"
proof (induction fs arbitrary: db n)
  case (Cons f fs)
  let ?f = "case pii of None \<Rightarrow> f | Some redact \<Rightarrow> py_strip (redact f)"
  show ?case
  proof (cases "?f = []")
    case True
    then show ?thesis using Cons by (fastforce simp: Let_def)
  next
    case False
    let ?r = "\<lparr>mr_id = fresh ?f, mr_tenant = tenant, mr_end_user = user, mr_thread = tid, mr_source_seq = seq, mr_content = ?f, mr_version = 1,
       mr_expires_at = expires, mr_erased = False\<rparr>"
    obtain k where k: "store_facts fresh pii tenant user tid seq expires fs (db @ [?r]) = (k, db1)" "n = k + 1"
      using Cons.prems False by (auto simp: Let_def memory_add_def split: prod.splits)
    from Cons.IH [OF k(1)] obtain new where new: "db1 = (db @ [?r]) @ new" "length new = k"
      "\<forall>r\<in>set new. mr_tenant r = tenant \<and> mr_thread r = tid \<and> mr_end_user r = user \<and> mr_source_seq r = seq \<and> mr_expires_at r = expires
            \<and> \<not> mr_erased r \<and> mr_content r \<noteq> [] \<and> (\<exists>f\<in>set fs. mr_content r = (case pii of None \<Rightarrow> f | Some redact \<Rightarrow> py_strip (redact f)))" by blast
    then show ?thesis using k(2) False by (intro exI [of _ "?r # new"]) auto
  qed
qed simp

text \<open>What an extraction that reached the model has seen and done.\<close>

lemma extract_run:
  assumes "db_inv tdb" "extract_thread_memory gen pii cfg fresh now tdb tenant tid db w = (r, db1, w1)"
    and "(\<exists>n. r = Extracted n seq mark) \<or> r = NoFacts seq mark"
  shows "\<exists>thread turns newest facts n. get_thread tdb tenant tid = Some thread \<and>
    filter (\<lambda>m. mark < ms_seq m) (thread_messages tdb tenant tid) = turns @ [newest] \<and> turns \<noteq> [] \<and> seq = ms_seq (last turns) \<and>
    mark = max_source_seq db tenant tid \<and>
    gen (map (\<lambda>m. (ms_role m, ms_redacted m)) (filter (\<lambda>m. ms_redacted m \<noteq> []) turns)) w = (Inr facts, w1) \<and>
    store_facts fresh pii tenant (th_end_user thread) tid seq
       (if 0 < mc_expiry_days cfg then Some (now + of_int (mc_expiry_days cfg) * day) else None) facts db = (n, db1) \<and>
    r = (if n = 0 then NoFacts seq mark else Extracted n seq mark)"
proof -
  let ?all = "filter (\<lambda>m. max_source_seq db tenant tid < ms_seq m) (thread_messages tdb tenant tid)"
  obtain thread where t: "get_thread tdb tenant tid = Some thread" using assms(2,3) by (cases "get_thread tdb tenant tid") (auto simp: extract_thread_memory_def)
  have ne: "?all \<noteq> []" using assms(2,3) t by (auto simp: extract_thread_memory_def collect_thread [OF assms(1)] Let_def)
  define closed where "closed = map (\<lambda>m. (ms_role m, ms_redacted m)) (filter (\<lambda>m. ms_redacted m \<noteq> []) (butlast ?all))"
  have c: "closed \<noteq> []" using assms(2,3) t ne by (auto simp: extract_thread_memory_def collect_thread [OF assms(1)] Let_def closed_def)
  obtain facts w2 where g: "gen closed w = (Inr facts, w2)"
    using assms(2,3) t ne c by (cases "gen closed w") (auto simp: extract_thread_memory_def collect_thread [OF assms(1)] Let_def closed_def split: sum.splits)
  obtain n where n: "store_facts fresh pii tenant (th_end_user thread) tid (ms_seq (last (butlast ?all)))
       (if 0 < mc_expiry_days cfg then Some (now + of_int (mc_expiry_days cfg) * day) else None) facts db = (n, db1)" "w2 = w1"
     "r = (if n = 0 then NoFacts (ms_seq (last (butlast ?all))) (max_source_seq db tenant tid) else Extracted n (ms_seq (last (butlast ?all))) (max_source_seq db tenant tid))"
    using assms(2) t ne c g by (auto simp: extract_thread_memory_def collect_thread [OF assms(1)] Let_def closed_def split: prod.splits)
  have "butlast ?all \<noteq> []" using c by (auto simp: closed_def)
  moreover have "?all = butlast ?all @ [last ?all]" using ne by simp
  ultimately show ?thesis using t g n assms(3)
    by (intro exI [of _ thread] exI [of _ "butlast ?all"] exI [of _ "last ?all"] exI [of _ facts] exI [of _ n]) (auto simp: closed_def split: if_splits)
qed

lemma map_replicate_eqI: "(\<And>x. x \<in> set xs \<Longrightarrow> f x = y) \<Longrightarrow> map f xs = replicate (length xs) y"
  by (induction xs) auto

lemma max_source_seq_append:
  assumes "\<forall>r\<in>set new. mr_tenant r = tenant \<and> mr_thread r = tid \<and> mr_source_seq r = seq" "new \<noteq> []" "max_source_seq db tenant tid < seq"
  shows "max_source_seq (db @ new) tenant tid = seq"
proof -
  let ?old = "map mr_source_seq (filter (\<lambda>r. mr_tenant r = tenant \<and> mr_thread r = tid) db)"
  have "filter (\<lambda>r. mr_tenant r = tenant \<and> mr_thread r = tid) new = new" using assms(1) by (intro filter_True) auto
  moreover have "map mr_source_seq new = replicate (length new) seq" using assms(1) by (intro map_replicate_eqI) auto
  ultimately have "max_source_seq (db @ new) tenant tid = Max (insert seq (set ?old))"
    using assms(2) by (simp add: max_source_seq_def max_or_zero_Max Un_commute)
  moreover have "x < seq" if "x \<in> set ?old" for x using max_or_zero_ge [OF that] assms(3) by (simp add: max_source_seq_def)
  ultimately show ?thesis by (simp add: Max_insert2 less_imp_le)
qed

section \<open>Properties\<close>

lemma extraction_effect:
  assumes "db_inv tdb" "extract_thread_memory gen (Some redact) cfg fresh now tdb tenant tid db w = (Extracted n seq mark, db1, w1)"
  shows "\<exists>new thread. db1 = db @ new \<and> length new = n \<and> 0 < n \<and> get_thread tdb tenant tid = Some thread \<and> mark < seq \<and> max_source_seq db1 tenant tid = seq
    \<and> (\<forall>r\<in>set new. mr_tenant r = tenant \<and> mr_end_user r = th_end_user thread \<and> mr_source_seq r = seq \<and> (\<exists>f. mr_content r = py_strip (redact f)))"
proof -
  obtain thread turns newest facts k where t: "get_thread tdb tenant tid = Some thread"
    and all: "filter (\<lambda>m. mark < ms_seq m) (thread_messages tdb tenant tid) = turns @ [newest]" "turns \<noteq> []" "seq = ms_seq (last turns)"
    and mark: "mark = max_source_seq db tenant tid"
    and st: "store_facts fresh (Some redact) tenant (th_end_user thread) tid seq
       (if 0 < mc_expiry_days cfg then Some (now + of_int (mc_expiry_days cfg) * day) else None) facts db = (k, db1)"
    and k: "Extracted n seq mark = (if k = 0 then NoFacts seq mark else Extracted k seq mark)"
    using extract_run [OF assms, of seq mark] by blast
  have "last turns \<in> set (filter (\<lambda>m. mark < ms_seq m) (thread_messages tdb tenant tid))" using all(1,2) by simp
  then have lt: "mark < seq" using all(3) by simp
  obtain new where new: "db1 = db @ new" "length new = k"
    "\<forall>r\<in>set new. mr_tenant r = tenant \<and> mr_thread r = tid \<and> mr_end_user r = th_end_user thread \<and> mr_source_seq r = seq \<and> (\<exists>f. mr_content r = py_strip (redact f))"
    using store_facts_spec [OF st] by auto blast
  have n: "n = k" "0 < k" using k by (auto split: if_splits)
  then have "new \<noteq> []" using new(2) by auto
  with max_source_seq_append [of new tenant tid seq db] new lt mark have "max_source_seq db1 tenant tid = seq" by auto
  then show ?thesis using new t lt n by (intro exI [of _ new] exI [of _ thread]) auto
qed

text \<open>What is stored from a thread is text the PII service returned, for the end user and tenant of the thread, numbered with the newest
  closed turn; nothing else in the table changes.\<close>

theorem extraction_stores_redacted_facts:
  assumes "db_inv tdb" "extract_thread_memory gen (Some redact) cfg fresh now tdb tenant tid db w = (Extracted n seq mark, db1, w1)"
  shows "\<exists>new thread. db1 = db @ new \<and> length new = n \<and> 0 < n \<and> get_thread tdb tenant tid = Some thread \<and> mark < seq \<and> max_source_seq db1 tenant tid = seq
    \<and> (\<forall>r\<in>set new. mr_tenant r = tenant \<and> mr_end_user r = th_end_user thread \<and> mr_source_seq r = seq \<and> (\<exists>f. mr_content r = py_strip (redact f)))"
  using extraction_effect [OF assms] .

lemma sorted_filter_snoc:
  fixes f :: "'a \<Rightarrow> int"
  assumes "sorted_wrt (<) (map f xs)" "filter (\<lambda>m. k < f m) xs = ys @ [z]" "ys \<noteq> []"
  shows "filter (\<lambda>m. f (last ys) < f m) xs = [z]"
proof -
  have s: "sorted_wrt (<) (map f (ys @ [z]))" using assms(1) by (metis assms(2) sorted_wrt_filter sorted_wrt_map)
  have "last ys \<in> set (filter (\<lambda>m. k < f m) xs)" using assms(2,3) by simp
  then have "filter (\<lambda>m. f (last ys) < f m) xs = filter (\<lambda>m. f (last ys) < f m) (filter (\<lambda>m. k < f m) xs)"
    by (auto simp: filter_filter intro!: filter_cong)
  also have "\<dots> = filter (\<lambda>m. f (last ys) < f m) ys @ [z]" using s assms(3) unfolding assms(2) by (auto simp: sorted_wrt_append)
  also have "filter (\<lambda>m. f (last ys) < f m) ys = []"
  proof -
    have "f x \<le> f (last ys)" if "x \<in> set ys" for x
      using s that assms(3) by (induction ys rule: rev_induct) (auto simp: sorted_wrt_append)
    then show ?thesis by (auto simp: filter_empty_conv not_less)
  qed
  finally show ?thesis by simp
qed

text \<open>After an extraction that stored facts, the next one on the same thread sees only the newest message, calls no model and changes nothing.\<close>

theorem extraction_runs_once:
  assumes "db_inv tdb" "extract_thread_memory gen (Some redact) cfg fresh now tdb tenant tid db w = (Extracted n seq mark, db1, w1)"
  shows "extract_thread_memory gen' pii' cfg' fresh' later tdb tenant tid db1 w' = (NoClosedTurns, db1, w')"
proof -
  obtain turns newest where all: "filter (\<lambda>m. mark < ms_seq m) (thread_messages tdb tenant tid) = turns @ [newest]" "turns \<noteq> []" "seq = ms_seq (last turns)"
    using extract_run [OF assms, of seq mark] by blast
  have m: "max_source_seq db1 tenant tid = seq" and t: "\<exists>thread. get_thread tdb tenant tid = Some thread"
    using extraction_effect [OF assms] by blast+
  have "filter (\<lambda>m. seq < ms_seq m) (thread_messages tdb tenant tid) = [newest]"
    using sorted_filter_snoc [OF thread_messages_ascending [OF assms(1)] all(1,2)] all(3) by simp
  then show ?thesis using t m by (auto simp: extract_thread_memory_def collect_thread [OF assms(1)] Let_def)
qed

text \<open>An extraction whose model finds no facts stores nothing, so it leaves no trace and is repeated, with its model call, at every run.\<close>

theorem empty_extraction_is_repeated:
  assumes "db_inv tdb" "extract_thread_memory gen pii cfg fresh now tdb tenant tid db w = (NoFacts seq mark, db1, w1)"
    and "\<And>ts w. \<exists>w'. gen ts w = (Inr [], w')"
  shows "db1 = db \<and> (\<exists>w'. extract_thread_memory gen pii cfg fresh later tdb tenant tid db1 w1 = (NoFacts seq mark, db1, w'))"
proof -
  obtain thread turns newest facts n where r: "get_thread tdb tenant tid = Some thread"
    "filter (\<lambda>m. mark < ms_seq m) (thread_messages tdb tenant tid) = turns @ [newest]" "seq = ms_seq (last turns)" "mark = max_source_seq db tenant tid"
    "gen (map (\<lambda>m. (ms_role m, ms_redacted m)) (filter (\<lambda>m. ms_redacted m \<noteq> []) turns)) w = (Inr facts, w1)"
    "store_facts fresh pii tenant (th_end_user thread) tid seq
       (if 0 < mc_expiry_days cfg then Some (now + of_int (mc_expiry_days cfg) * day) else None) facts db = (n, db1)"
    using extract_run [OF assms(1,2), of seq mark] by blast
  have "facts = []" using assms(3) r(5) by (metis prod.inject sum.inject(2))
  then have d: "db1 = db" using r(6) by simp
  obtain w' where "gen (map (\<lambda>m. (ms_role m, ms_redacted m)) (filter (\<lambda>m. ms_redacted m \<noteq> []) turns)) w1 = (Inr [], w')" using assms(3) by blast
  moreover have "filter (\<lambda>m. ms_redacted m \<noteq> []) turns \<noteq> []"
    using assms(2) r(1,2,4) by (auto simp: extract_thread_memory_def collect_thread [OF assms(1)] Let_def)
  ultimately have "extract_thread_memory gen pii cfg fresh later tdb tenant tid db w1 = (NoFacts seq mark, db, w')"
    using r(1-4) by (simp add: extract_thread_memory_def collect_thread [OF assms(1)] Let_def)
  then show ?thesis using d by blast
qed

text \<open>The sweep keeps choosing threads that are fully extracted: the newest message is never covered by a fact, so the thread still counts as pending.\<close>

theorem extracted_thread_stays_pending:
  assumes "db_inv tdb" "extract_thread_memory gen (Some redact) cfg fresh now tdb tenant tid db w = (Extracted n seq mark, db1, w1)"
    and "t \<in> set (db_threads tdb)" "th_id t = tid" "th_status t = ''active''" "\<not> th_archived t" "length (db_threads tdb) \<le> limit"
    and "\<forall>r\<in>set db. mr_thread r = tid \<longrightarrow> mr_tenant r = tenant"
  shows "t \<in> fst ` set (list_threads_pending_extraction tdb db1 limit)"
proof -
  obtain turns newest where all: "filter (\<lambda>m. mark < ms_seq m) (thread_messages tdb tenant tid) = turns @ [newest]" "turns \<noteq> []" "seq = ms_seq (last turns)"
    using extract_run [OF assms(1,2), of seq mark] by blast
  obtain new where new: "db1 = db @ new" "\<forall>r\<in>set new. mr_tenant r = tenant" "max_source_seq db1 tenant tid = seq"
    using extraction_effect [OF assms(1,2)] by blast
  have "filter (\<lambda>r. mr_thread r = tid) db1 = filter (\<lambda>r. mr_tenant r = tenant \<and> mr_thread r = tid) db1"
    using assms(8) new(1,2) by (intro filter_cong) auto
  then have e: "extracted_seq db1 tid = seq" using new(3) by (simp add: extracted_seq_def max_source_seq_def)
  have "filter (\<lambda>m. seq < ms_seq m) (thread_messages tdb tenant tid) = [newest]"
    using sorted_filter_snoc [OF thread_messages_ascending [OF assms(1)] all(1,2)] all(3) by simp
  then have "newest \<in> set (filter (\<lambda>m. seq < ms_seq m) (thread_messages tdb tenant tid))" by simp
  then have m: "newest \<in> set (db_messages tdb)" "ms_thread newest = tid" "seq < ms_seq newest" by (auto simp: thread_messages_def)
  then have "ms_seq newest \<le> max_message_seq tdb tid" unfolding max_message_seq_def by (intro max_or_zero_ge) auto
  then have lt: "extracted_seq db1 tid < max_message_seq tdb tid" using e m(3) by simp
  let ?l = "filter (\<lambda>(t, latest). th_status t = ''active'' \<and> \<not> th_archived t \<and> extracted_seq db1 (th_id t) < latest)
         (map (\<lambda>t. (t, max_message_seq tdb (th_id t))) (filter (\<lambda>t. \<exists>m \<in> set (db_messages tdb). ms_thread m = th_id t) (db_threads tdb)))"
  have "length ?l \<le> length (db_threads tdb)" by (metis (no_types, lifting) length_filter_le length_map order_trans)
  then have "take limit (py_sorted_desc snd ?l) = py_sorted_desc snd ?l"
    using assms(7) by (intro take_all) (metis (no_types, lifting) length_py_sorted_desc order_trans)
  moreover have "(t, max_message_seq tdb tid) \<in> set ?l" using assms(3-6) m(1,2) lt by auto
  ultimately show ?thesis by (force simp: list_threads_pending_extraction_def)
qed

text \<open>Retrieval returns at most the asked number of facts, each of the tenant and of exactly this end user, neither erased nor expired; with
  a query of usable words, each contains one of them.\<close>

theorem retrieved_facts_are_live:
  "length (retrieve_facts db now tenant user query n) \<le> n
   \<and> (\<forall>c\<in>set (retrieve_facts db now tenant user query n). \<exists>r\<in>set db. mr_content r = c \<and> mr_tenant r = tenant \<and> mr_end_user r = user \<and> live now r
        \<and> (query_tokens query \<noteq> [] \<longrightarrow> (\<exists>t\<in>set (query_tokens query). py_in t (py_lower c))))"
proof -
  let ?rows = "memory_retrieve db now tenant user (max (n * 3) 30)"
  have "\<exists>r\<in>set db. mr_content r = c \<and> mr_tenant r = tenant \<and> mr_end_user r = user \<and> live now r
        \<and> (query_tokens query \<noteq> [] \<longrightarrow> (\<exists>t\<in>set (query_tokens query). py_in t (py_lower c)))" if c: "c \<in> set (retrieve_facts db now tenant user query n)" for c
  proof -
    obtain x r where r: "mr_content r = c" "r \<in> set ?rows" "query_tokens query = [] \<or> 0 < x"
      "x = length (filter (\<lambda>t. py_in t (py_lower (mr_content r))) (remdups (query_tokens query)))"
      using c by (auto simp: retrieve_facts_def score_facts_def Let_def dest!: in_set_takeD)
    have "r \<in> set db" "mr_tenant r = tenant" "mr_end_user r = user" "live now r"
      using r(2) by (auto simp: memory_retrieve_def dest!: in_set_takeD)
    moreover have "query_tokens query \<noteq> [] \<longrightarrow> (\<exists>t\<in>set (query_tokens query). py_in t (py_lower c))"
      using r(1,3,4) by (auto simp: filter_empty_conv)
    ultimately show ?thesis using r(1) by blast
  qed
  then show ?thesis by (simp add: retrieve_facts_def score_facts_def Let_def)
qed

text \<open>After an end user's erasure nothing of theirs is retrieved, whatever the query, and all other facts are as before.\<close>

theorem erased_user_has_no_facts:
  "retrieve_facts (snd (erase_by_user tenant user db)) now tenant (Some user) query n = []
   \<and> filter (\<lambda>r. mr_tenant r \<noteq> tenant \<or> mr_end_user r \<noteq> Some user) (snd (erase_by_user tenant user db))
       = filter (\<lambda>r. mr_tenant r \<noteq> tenant \<or> mr_end_user r \<noteq> Some user) db"
proof -
  have "\<not> (mr_tenant r = tenant \<and> mr_end_user r = Some user \<and> live now r)" if m: "r \<in> set (snd (erase_by_user tenant user db))" for r
  proof -
    obtain x where r: "r = (if (mr_tenant x = tenant \<and> mr_end_user x = Some user) \<and> \<not> mr_erased x then x\<lparr>mr_erased := True\<rparr> else x)"
      using m unfolding erase_by_user_def erase_where_def snd_conv set_map image_iff by blast
    show ?thesis by (cases "(mr_tenant x = tenant \<and> mr_end_user x = Some user) \<and> \<not> mr_erased x") (auto simp: r live_def)
  qed
  then have "memory_retrieve (snd (erase_by_user tenant user db)) now tenant (Some user) k = []" for k
    by (simp add: memory_retrieve_def filter_empty_conv)
  then have "retrieve_facts (snd (erase_by_user tenant user db)) now tenant (Some user) query n = []"
    by (simp add: retrieve_facts_def score_facts_def Let_def py_sorted_desc_def)
  moreover have "filter (\<lambda>r. mr_tenant r \<noteq> tenant \<or> mr_end_user r \<noteq> Some user) (snd (erase_by_user tenant user db))
      = filter (\<lambda>r. mr_tenant r \<noteq> tenant \<or> mr_end_user r \<noteq> Some user) db"
    by (induction db) (auto simp: erase_by_user_def erase_where_def)
  ultimately show ?thesis by blast
qed

subsection \<open>Witnesses\<close>

definition demo_facts :: "extract_outcome \<times> memory_db \<times> unit" where
  "demo_facts = extract_thread_memory (\<lambda>ts w. (Inr [''likes tea''], w)) (Some (\<lambda>s. s)) mc_default (\<lambda>s. s) 0 (cp_db sample_thread) ''acme'' ''t1'' [] ()"

definition demo_fact :: memory_row where
  "demo_fact = \<lparr>mr_id = ''likes tea'', mr_tenant = ''acme'', mr_end_user = th_end_user (the (get_thread (cp_db sample_thread) ''acme'' ''t1'')), mr_thread = ''t1'',
     mr_source_seq = 1, mr_content = ''likes tea'', mr_version = 1, mr_expires_at = Some 2592000, mr_erased = False\<rparr>"

lemma demo_facts_run: "demo_facts = (Extracted 1 1 0, [demo_fact], ())"
proof -
  have t: "get_thread (cp_db sample_thread) ''acme'' ''t1'' = Some (the (get_thread (cp_db sample_thread) ''acme'' ''t1''))" by code_simp
  have m: "map ms_seq (filter (\<lambda>m. 0 < ms_seq m) (thread_messages (cp_db sample_thread) ''acme'' ''t1'')) = [1, 2]" by code_simp
  have r: "list_all (\<lambda>m. ms_redacted m \<noteq> []) (filter (\<lambda>m. 0 < ms_seq m) (thread_messages (cp_db sample_thread) ''acme'' ''t1''))" by code_simp
  obtain a b where ab: "filter (\<lambda>m. 0 < ms_seq m) (thread_messages (cp_db sample_thread) ''acme'' ''t1'') = [a, b]" "ms_seq a = 1" "ms_redacted a \<noteq> []"
    using m r by (auto simp: map_eq_Cons_conv)
  have s: "py_strip ''likes tea'' = ''likes tea''" by code_simp
  show ?thesis
    unfolding demo_facts_def extract_thread_memory_def collect_thread [OF sample_thread_inv]
    by (subst t) (simp add: max_source_seq_def max_or_zero_def ab Let_def mc_default_def day_def memory_add_def s demo_fact_def)
qed

theorem extraction_runs_once_witness:
  "extract_thread_memory (\<lambda>ts w. (Inl NotAList, w + 1)) None mc_default (\<lambda>s. s) 9 (cp_db sample_thread) ''acme'' ''t1'' [demo_fact] (0::nat) = (NoClosedTurns, [demo_fact], 0)"
  by (rule extraction_runs_once [OF sample_thread_inv demo_facts_run [unfolded demo_facts_def]])

theorem retrieved_facts_are_live_witness:
  "\<forall>c\<in>set (retrieve_facts [demo_fact] 10 ''acme'' (mr_end_user demo_fact) (Some ''Tea?'') 5). \<exists>r\<in>set [demo_fact]. mr_content r = c \<and> live 10 r"
  using retrieved_facts_are_live [of "[demo_fact]" 10 "''acme''" "mr_end_user demo_fact" "Some ''Tea?''" 5] by blast

end
