(* ===== verification/Py_Values.thy ===== *)
theory Py_Values
  imports Py_Json
begin

text \<open>
  Decoded JSON values as Python objects: the name of the type, attribute errors of \<open>get\<close>, \<open>or\<close>, \<open>str\<close> and iteration.
\<close>

fun json_type_name :: "json \<Rightarrow> string" where
  "json_type_name JNull = ''NoneType''"
| "json_type_name (JBool _) = ''bool''"
| "json_type_name (JInt _) = ''int''"
| "json_type_name (JNum _) = ''float''"
| "json_type_name (JStr _) = ''str''"
| "json_type_name (JList _) = ''list''"
| "json_type_name (JObj _) = ''dict''"

text \<open>\<open>j.get(k)\<close> of a decoded value: \<open>AttributeError\<close> unless it is an object.\<close>

definition py_get :: "json \<Rightarrow> string \<Rightarrow> string + json" where
  "py_get j k = (case j of JObj kvs \<Rightarrow> Inr (get_or (map_of kvs k) JNull)
     | _ \<Rightarrow> Inl ([CHR 39] @ json_type_name j @ [CHR 39] @ '' object has no attribute '' @ [CHR 39] @ ''get'' @ [CHR 39]))"

definition py_or :: "json \<Rightarrow> json \<Rightarrow> json" where
  "py_or a b = (if jtruthy a then a else b)"

text \<open>\<open>str(j)\<close>; the text of a number with a fraction, a list and an object is the argument.\<close>

fun py_str :: "(json \<Rightarrow> string) \<Rightarrow> json \<Rightarrow> string" where
  "py_str rp JNull = ''None''"
| "py_str rp (JBool b) = (if b then ''True'' else ''False'')"
| "py_str rp (JInt n) = py_str_int n"
| "py_str rp (JStr s) = s"
| "py_str rp j = rp j"

text \<open>The values that \<open>for x in j\<close> runs through, or the \<open>TypeError\<close>.\<close>

fun py_iter :: "json \<Rightarrow> string + json list" where
  "py_iter (JList xs) = Inr xs"
| "py_iter (JStr s) = Inr (map (\<lambda>c. JStr [c]) s)"
| "py_iter (JObj kvs) = Inr (map (JStr \<circ> fst) kvs)"
| "py_iter j = Inl ([CHR 39] @ json_type_name j @ [CHR 39] @ '' object is not iterable'')"

lemma py_get_obj [simp]: "py_get (JObj kvs) k = Inr (get_or (map_of kvs k) JNull)"
  by (simp add: py_get_def)

lemma py_get_two:
  "(\<exists>a b. py_get j k = Inr a \<and> py_get j k2 = Inr b) \<or> (\<exists>e. py_get j k = Inl e \<and> py_get j k2 = Inl e)"
  by (cases j) (simp_all add: py_get_def)

end
