(* ===== verification/Ticketing.thy ===== *)
theory Ticketing
  imports Py_Values
begin

text \<open>
  The helpdesk adapters (\<open>adapters/ticketing\<close>): the configuration and its registry, and the three adapters that turn the
  normalised ticket of an escalation into the request of Zendesk, Jira or ServiceNow and the vendor's answer into a
  \<open>TicketResult\<close>. The HTTP client is a parameter: it answers a POST with the text of an exception or with a status, a body text
  and the JSON of the body (or the text of the decoding error). The locale \<open>helpdesk\<close> is the contract that \<open>base.py\<close> states.
\<close>

section \<open>HTTP and encodings\<close>

record http_reply =
  hp_status :: nat
  hp_text :: string
  hp_json :: "string + json"

type_synonym header_list = "(string \<times> string) list"
type_synonym 'w http_client = "string \<Rightarrow> header_list \<Rightarrow> json \<Rightarrow> 'w \<Rightarrow> (string + http_reply) \<times> 'w"

definition rstrip_slash :: "string \<Rightarrow> string" where
  "rstrip_slash s = rev (dropWhile (\<lambda>c. c = CHR ''/'') (rev s))"

text \<open>\<open>base64.b64encode\<close>.\<close>

definition b64_char :: "nat \<Rightarrow> char" where
  "b64_char n = (if n < 26 then char_of (65 + n) else if n < 52 then char_of (71 + n) else if n < 62 then char_of (n - 4)
     else if n = 62 then CHR ''+'' else CHR ''/'')"

fun b64encode :: "string \<Rightarrow> string" where
  "b64encode (a # b # c # r) =
     (let n = of_char a * 65536 + of_char b * 256 + of_char c
      in map b64_char [n div 262144, n div 4096 mod 64, n div 64 mod 64, n mod 64] @ b64encode r)"
| "b64encode [a, b] =
     (let n = of_char a * 65536 + of_char b * 256
      in map b64_char [n div 262144, n div 4096 mod 64, n div 64 mod 64] @ ''='')"
| "b64encode [a] = (let n = of_char a * 65536 in map b64_char [n div 262144, n div 4096 mod 64] @ ''=='')"
| "b64encode [] = []"

section \<open>Results and the registry\<close>

record ticket_result =
  tk_ok :: bool
  tk_ticket_id :: "string option"
  tk_url :: json
  tk_error :: "string option"

type_synonym ticket_payload = "(string \<times> json) list"

record ticketing_config =
  tf_adapter :: string
  tf_zendesk_url :: "string option"
  tf_zendesk_email :: "string option"
  tf_zendesk_api_token :: "string option"
  tf_jira_url :: "string option"
  tf_jira_api_token :: "string option"
  tf_jira_project_key :: "string option"
  tf_servicenow_url :: "string option"
  tf_servicenow_username :: "string option"
  tf_servicenow_password :: "string option"

definition tf_default :: ticketing_config where
  "tf_default = \<lparr>tf_adapter = ''generic'', tf_zendesk_url = None, tf_zendesk_email = None, tf_zendesk_api_token = None, tf_jira_url = None,
     tf_jira_api_token = None, tf_jira_project_key = None, tf_servicenow_url = None, tf_servicenow_username = None,
     tf_servicenow_password = None\<rparr>"

text \<open>\<open>from_settings\<close>: the adapter's name is normalised, the rest is taken as it is.\<close>

definition tf_from_settings :: "string option \<Rightarrow> ticketing_config \<Rightarrow> ticketing_config" where
  "tf_from_settings adapter env = env\<lparr>tf_adapter := py_lower (py_strip (str_or adapter ''generic''))\<rparr>"

definition is_configured :: "ticketing_config \<Rightarrow> bool" where
  "is_configured c =
     (if tf_adapter c = ''zendesk'' then truthy_str (tf_zendesk_url c) \<and> truthy_str (tf_zendesk_email c) \<and> truthy_str (tf_zendesk_api_token c)
      else if tf_adapter c = ''jira'' then truthy_str (tf_jira_url c) \<and> truthy_str (tf_jira_api_token c) \<and> truthy_str (tf_jira_project_key c)
      else if tf_adapter c = ''servicenow''
      then truthy_str (tf_servicenow_url c) \<and> truthy_str (tf_servicenow_username c) \<and> truthy_str (tf_servicenow_password c)
      else tf_adapter c = ''generic'')"

datatype ticket_adapter =
    ZendeskAdapter string string string
  | JiraAdapter string string string
  | ServiceNowAdapter string string string

definition get_ticketing_adapter :: "ticketing_config \<Rightarrow> ticket_adapter option" where
  "get_ticketing_adapter c =
     (if tf_adapter c = ''zendesk''
      then if \<not> is_configured c then None
           else Some (ZendeskAdapter (rstrip_slash (the (tf_zendesk_url c))) (the (tf_zendesk_email c)) (the (tf_zendesk_api_token c)))
      else if tf_adapter c = ''jira''
      then if \<not> is_configured c then None
           else Some (JiraAdapter (rstrip_slash (the (tf_jira_url c))) (the (tf_jira_api_token c)) (the (tf_jira_project_key c)))
      else if tf_adapter c = ''servicenow''
      then if \<not> is_configured c then None
           else Some (ServiceNowAdapter (rstrip_slash (the (tf_servicenow_url c))) (the (tf_servicenow_username c)) (the (tf_servicenow_password c)))
      else None)"

section \<open>The adapters\<close>

definition ticket_failed :: "string \<Rightarrow> ticket_result" where
  "ticket_failed e = \<lparr>tk_ok = False, tk_ticket_id = None, tk_url = JNull, tk_error = Some e\<rparr>"

text \<open>The guarded half of \<open>create_ticket\<close>, the same in the three adapters: post, refuse a status from 400, decode, read the ticket.\<close>

definition post_ticket ::
  "'w http_client \<Rightarrow> string \<Rightarrow> string \<Rightarrow> header_list \<Rightarrow> json \<Rightarrow> (json \<Rightarrow> string + ticket_result) \<Rightarrow> 'w \<Rightarrow> ticket_result \<times> 'w" where
  "post_ticket H name url headers body read w =
     (case H url headers body w of
        (Inl e, w1) \<Rightarrow> (ticket_failed e, w1)
      | (Inr r, w1) \<Rightarrow>
          (if 400 \<le> hp_status r
           then (ticket_failed (name @ '' HTTP '' @ py_str_nat (hp_status r) @ '': '' @ take 300 (hp_text r)), w1)
           else (case hp_json r of
                   Inl e \<Rightarrow> (ticket_failed e, w1)
                 | Inr data \<Rightarrow> (case read data of Inl e \<Rightarrow> (ticket_failed e, w1) | Inr t \<Rightarrow> (t, w1)))))"

definition priority_key :: "(json \<Rightarrow> string) \<Rightarrow> ticket_payload \<Rightarrow> string" where
  "priority_key rp p = py_lower (py_str rp (get_or (map_of p ''priority'') (JStr ''low'')))"

definition subject_of :: "ticket_payload \<Rightarrow> json" where
  "subject_of p = get_or (map_of p ''subject'') (JStr ''Neryva escalation'')"

definition description_of :: "ticket_payload \<Rightarrow> json" where
  "description_of p = get_or (map_of p ''description'') (JStr [])"

definition tags_of :: "ticket_payload \<Rightarrow> string + json list" where
  "tags_of p = py_iter (get_or (map_of p ''tags'') (JList []))"

definition jira_priorities :: "(string \<times> string) list" where
  "jira_priorities = [(''high'', ''Highest''), (''medium'', ''High''), (''low'', ''Medium'')]"

definition jira_headers :: "string \<Rightarrow> header_list" where
  "jira_headers token = [(''Authorization'', ''Bearer '' @ token), (''Content-Type'', ''application/json''), (''Accept'', ''application/json'')]"

definition jira_read :: "(json \<Rightarrow> string) \<Rightarrow> string \<Rightarrow> json \<Rightarrow> string + ticket_result" where
  "jira_read rp base data =
     (case (py_get data ''key'', py_get data ''id'') of
        (Inr k, Inr i) \<Rightarrow>
          (let key = py_or k i
           in Inr \<lparr>tk_ok = True, tk_ticket_id = Some (py_str rp key),
                   tk_url = (if jtruthy key then JStr (base @ ''/browse/'' @ py_str rp key) else JNull), tk_error = None\<rparr>)
      | (Inl e, _) \<Rightarrow> Inl e
      | (_, Inl e) \<Rightarrow> Inl e)"

definition jira_create_ticket ::
  "(json \<Rightarrow> string) \<Rightarrow> 'w http_client \<Rightarrow> string \<Rightarrow> string \<Rightarrow> string \<Rightarrow> ticket_payload \<Rightarrow> 'w \<Rightarrow> (string + ticket_result) \<times> 'w" where
  "jira_create_ticket rp H base token project p w =
     (case tags_of p of
        Inl e \<Rightarrow> (Inl e, w)
      | Inr tags \<Rightarrow>
          (let body = JObj [(''fields'', JObj
                 [(''project'', JObj [(''key'', JStr project)]), (''summary'', subject_of p), (''description'', description_of p),
                  (''priority'', JObj [(''name'', JStr (get_or (map_of jira_priorities (priority_key rp p)) ''Medium''))]),
                  (''labels'', JList (take 20 tags))])]
           in case post_ticket H ''jira'' (base @ ''/rest/api/2/issue'') (jira_headers token) body (jira_read rp base) w of
                (t, w1) \<Rightarrow> (Inr t, w1)))"

definition servicenow_priorities :: "(string \<times> string) list" where
  "servicenow_priorities = [(''high'', ''1''), (''medium'', ''2''), (''low'', ''3'')]"

definition servicenow_headers :: "string \<Rightarrow> string \<Rightarrow> header_list" where
  "servicenow_headers user pw =
     [(''Authorization'', ''Basic '' @ b64encode (user @ '':'' @ pw)), (''Content-Type'', ''application/json''), (''Accept'', ''application/json'')]"

definition servicenow_read :: "(json \<Rightarrow> string) \<Rightarrow> string \<Rightarrow> json \<Rightarrow> string + ticket_result" where
  "servicenow_read rp base data =
     (case py_get data ''result'' of
        Inl e \<Rightarrow> Inl e
      | Inr raw \<Rightarrow>
          (let result = py_or raw (JObj [])
           in case (py_get result ''sys_id'', py_get result ''number'') of
                (Inr s, Inr n) \<Rightarrow>
                  (let sys_id = py_or s n
                   in Inr \<lparr>tk_ok = True, tk_ticket_id = (if jtruthy sys_id then Some (py_str rp sys_id) else None),
                           tk_url = (if jtruthy s then JStr (base @ ''/incident.do?sys_id='' @ py_str rp s) else s), tk_error = None\<rparr>)
              | (Inl e, _) \<Rightarrow> Inl e
              | (_, Inl e) \<Rightarrow> Inl e))"

definition servicenow_create_ticket ::
  "(json \<Rightarrow> string) \<Rightarrow> 'w http_client \<Rightarrow> string \<Rightarrow> string \<Rightarrow> string \<Rightarrow> ticket_payload \<Rightarrow> 'w \<Rightarrow> (string + ticket_result) \<times> 'w" where
  "servicenow_create_ticket rp H base user pw p w =
     (let body = JObj [(''short_description'', subject_of p), (''description'', description_of p),
                       (''priority'', JStr (get_or (map_of servicenow_priorities (priority_key rp p)) ''3'')), (''category'', JStr ''Incident'')]
      in case post_ticket H ''servicenow'' (base @ ''/api/now/table/incident'') (servicenow_headers user pw) body (servicenow_read rp base) w of
           (t, w1) \<Rightarrow> (Inr t, w1))"

definition zendesk_priorities :: "(string \<times> string) list" where
  "zendesk_priorities = [(''high'', ''urgent''), (''medium'', ''high''), (''low'', ''normal'')]"

definition zendesk_headers :: "string \<Rightarrow> string \<Rightarrow> header_list" where
  "zendesk_headers email token =
     [(''Authorization'', ''Basic '' @ b64encode (email @ ''/token:'' @ token)), (''Content-Type'', ''application/json'')]"

definition zendesk_read :: "(json \<Rightarrow> string) \<Rightarrow> json \<Rightarrow> string + ticket_result" where
  "zendesk_read rp data =
     (case py_get data ''ticket'' of
        Inl e \<Rightarrow> Inl e
      | Inr raw \<Rightarrow>
          (let ticket = py_or raw (JObj [])
           in case (py_get ticket ''id'', py_get ticket ''url'') of
                (Inr i, Inr u) \<Rightarrow>
                  Inr \<lparr>tk_ok = True, tk_ticket_id = Some (py_str rp (py_or i (JStr []))), tk_url = u, tk_error = None\<rparr>
              | (Inl e, _) \<Rightarrow> Inl e
              | (_, Inl e) \<Rightarrow> Inl e))"

definition zendesk_create_ticket ::
  "(json \<Rightarrow> string) \<Rightarrow> 'w http_client \<Rightarrow> string \<Rightarrow> string \<Rightarrow> string \<Rightarrow> ticket_payload \<Rightarrow> 'w \<Rightarrow> (string + ticket_result) \<times> 'w" where
  "zendesk_create_ticket rp H base email token p w =
     (case tags_of p of
        Inl e \<Rightarrow> (Inl e, w)
      | Inr tags \<Rightarrow>
          (let body = JObj [(''ticket'', JObj
                 [(''subject'', subject_of p), (''comment'', JObj [(''body'', description_of p), (''public'', JBool True)]),
                  (''priority'', JStr (get_or (map_of zendesk_priorities (priority_key rp p)) ''normal'')),
                  (''tags'', JList (tags @ [JStr ''neryva'']))])]
           in case post_ticket H ''zendesk'' (base @ ''/api/v2/tickets.json'') (zendesk_headers email token) body (zendesk_read rp) w of
                (t, w1) \<Rightarrow> (Inr t, w1)))"

fun create_ticket :: "(json \<Rightarrow> string) \<Rightarrow> 'w http_client \<Rightarrow> ticket_adapter \<Rightarrow> ticket_payload \<Rightarrow> 'w \<Rightarrow> (string + ticket_result) \<times> 'w" where
  "create_ticket rp H (ZendeskAdapter base email token) p w = zendesk_create_ticket rp H base email token p w"
| "create_ticket rp H (JiraAdapter base token project) p w = jira_create_ticket rp H base token project p w"
| "create_ticket rp H (ServiceNowAdapter base user pw) p w = servicenow_create_ticket rp H base user pw p w"

section \<open>The contract of an adapter\<close>

text \<open>
  What \<open>base.py\<close> promises the escalation service: for a payload with a list of tags the call returns a result, and a result that is
  not a ticket says why.
\<close>

locale helpdesk =
  fixes create :: "ticket_payload \<Rightarrow> 'w \<Rightarrow> (string + ticket_result) \<times> 'w"
  assumes returns: "tags_of p = Inr tags \<Longrightarrow> \<exists>t w1. create p w = (Inr t, w1)"
    and explained: "create p w = (Inr t, w1) \<Longrightarrow> tk_ok t \<longleftrightarrow> tk_error t = None"
begin

lemma outcome:
  assumes "tags_of p = Inr tags"
  obtains t w1 where "create p w = (Inr t, w1)" "tk_ok t" "tk_error t = None"
  | t w1 e where "create p w = (Inr t, w1)" "\<not> tk_ok t" "tk_error t = Some e"
  using returns [OF assms, of w] explained [of p w] by (metis not_None_eq)

end

lemma jira_read_ok: "jira_read rp base d = Inr t \<Longrightarrow> tk_ok t \<and> tk_error t = None"
  using py_get_two [of d "''key''" "''id''"] by (auto simp: jira_read_def Let_def)

lemma servicenow_read_ok: "servicenow_read rp base d = Inr t \<Longrightarrow> tk_ok t \<and> tk_error t = None"
  by (auto simp: servicenow_read_def Let_def split: sum.splits prod.splits)

lemma zendesk_read_ok: "zendesk_read rp d = Inr t \<Longrightarrow> tk_ok t \<and> tk_error t = None"
  by (auto simp: zendesk_read_def Let_def split: sum.splits prod.splits)

lemma post_ticket_explained:
  assumes "\<And>d t. read d = Inr t \<Longrightarrow> tk_ok t \<and> tk_error t = None" and "post_ticket H name url hs body read w = (t, w1)"
  shows "tk_ok t \<longleftrightarrow> tk_error t = None"
  using assms by (auto simp: post_ticket_def ticket_failed_def split: sum.splits prod.splits if_splits)

lemma tickets_explained:
  "post_ticket H name url hs body (zendesk_read rp) w = (t, w1) \<Longrightarrow> tk_ok t \<longleftrightarrow> tk_error t = None"
  "post_ticket H name url hs body (jira_read rp base) w = (t, w1) \<Longrightarrow> tk_ok t \<longleftrightarrow> tk_error t = None"
  "post_ticket H name url hs body (servicenow_read rp base) w = (t, w1) \<Longrightarrow> tk_ok t \<longleftrightarrow> tk_error t = None"
  by (erule post_ticket_explained [rotated], erule zendesk_read_ok jira_read_ok servicenow_read_ok)+

interpretation adapters: helpdesk "create_ticket rp H a" for rp H a
proof unfold_locales
  show "\<exists>t w1. create_ticket rp H a p w = (Inr t, w1)" if "tags_of p = Inr tags" for p tags w
    using that by (cases a)
      (simp_all add: zendesk_create_ticket_def jira_create_ticket_def servicenow_create_ticket_def Let_def split: prod.split)
  show "tk_ok t \<longleftrightarrow> tk_error t = None" if "create_ticket rp H a p w = (Inr t, w1)" for p w t w1
    using that by (cases a)
      (auto simp: zendesk_create_ticket_def jira_create_ticket_def servicenow_create_ticket_def Let_def
         split: prod.splits sum.splits dest: tickets_explained)
qed

section \<open>Properties\<close>

text \<open>An adapter reports a ticket exactly when the vendor's answer was below 400 and could be read; whatever goes wrong in the call,
  an exception of the client included, comes back as a result with a reason.\<close>

lemma adapter_never_raises:
  assumes "tags_of p = Inr tags"
  shows "\<exists>t w1. create_ticket rp H a p w = (Inr t, w1) \<and> (tk_ok t \<or> (\<exists>e. tk_error t = Some e))"
  using assms by (rule adapters.outcome [of p tags rp H a w]) auto

text \<open>A Jira answer without key and id is reported as a ticket whose number is the text None.\<close>

lemma jira_reports_ticket_None:
  assumes "H (base @ ''/rest/api/2/issue'') (jira_headers token) = (\<lambda>_ w. (Inr \<lparr>hp_status = 200, hp_text = [], hp_json = Inr (JObj [])\<rparr>, w))"
    and "tags_of p = Inr tags"
  shows "create_ticket rp H (JiraAdapter base token project) p w
    = (Inr \<lparr>tk_ok = True, tk_ticket_id = Some ''None'', tk_url = JNull, tk_error = None\<rparr>, w)"
  using assms by (simp add: jira_create_ticket_def post_ticket_def jira_read_def py_or_def get_or_def)

lemma jira_reports_ticket_None_witness:
  "create_ticket (\<lambda>_. []) (\<lambda>_ _ _ w. (Inr \<lparr>hp_status = 200, hp_text = [], hp_json = Inr (JObj [])\<rparr>, w :: unit)) (JiraAdapter ''u'' ''t'' ''P'') [] ()
    = (Inr \<lparr>tk_ok = True, tk_ticket_id = Some ''None'', tk_url = JNull, tk_error = None\<rparr>, ())"
  by (rule jira_reports_ticket_None [where tags = "[]"]) (simp_all add: tags_of_def get_or_def)

text \<open>The registry builds an adapter exactly for a configured helpdesk that is not the generic webhook.\<close>

lemma registry_builds_configured:
  "get_ticketing_adapter c \<noteq> None \<longleftrightarrow> is_configured c \<and> tf_adapter c \<noteq> ''generic''"
  by (auto simp: get_ticketing_adapter_def is_configured_def)

end
