(* ===== verification/Handoff.thy ===== *)
theory Handoff
  imports Ticketing Retry
begin

text \<open>
  The session-scoped handoff service (\<open>application/handoff\<close>): a cache of open handoffs by conversation, a counter that limits how many
  are open, delivery to a ticketing webhook with retries, status updates and expiry. A request gets the attributes \<open>status\<close>,
  \<open>assigned_to\<close> and \<open>resolution\<close> only when an update sets them: \<^const>\<open>None\<close> is an attribute that does not exist. The HTTP client tells
  connection failures, which are retried, from other exceptions. \<open>created_at\<close> is a naive UTC instant that \<open>timestamp()\<close> reads as local
  time; \<open>he_utc_offset\<close> is how far local time is ahead of UTC.
\<close>

section \<open>Definitions\<close>

record handoff_request =
  hq_tenant :: string
  hq_conversation :: string
  hq_user_message :: string
  hq_model_response :: "string option"
  hq_confidence :: rat
  hq_reason :: string
  hq_context :: "(string \<times> json) list"
  hq_attempted_resolution :: "string option"
  hq_recommended_next_step :: "string option"
  hq_created_at :: time
  hq_id :: string
  hq_status :: "string option"
  hq_assigned_to :: "string option"
  hq_resolution :: "string option"

record handoff_args =
  ha_tenant :: string
  ha_conversation :: string
  ha_user_message :: string
  ha_model_response :: "string option"
  ha_confidence :: rat
  ha_reason :: string
  ha_context :: "(string \<times> json) list option"
  ha_attempted_resolution :: "string option"
  ha_recommended_next_step :: "string option"

record handoff_response =
  hn_success :: bool
  hn_ticket_id :: json
  hn_assigned_to :: json
  hn_message :: string
  hn_metadata :: "(string \<times> json) list"

record handoff_config =
  hc_ticketing_webhook_url :: "string option"
  hc_escalation_email :: "string option"
  hc_max_retries :: nat
  hc_retry_min_delay :: rat
  hc_handoff_expiry_minutes :: int
  hc_max_concurrent_handoffs :: int
  hc_status_webhook_url :: "string option"

definition hc_default :: handoff_config where
  "hc_default = \<lparr>hc_ticketing_webhook_url = None, hc_escalation_email = None, hc_max_retries = 3, hc_retry_min_delay = 1,
     hc_handoff_expiry_minutes = 60, hc_max_concurrent_handoffs = 100, hc_status_webhook_url = None\<rparr>"

record handoff_service =
  ho_config :: handoff_config
  ho_cache :: "(string \<times> handoff_request) list"
  ho_active :: int

definition ho_init :: "handoff_config \<Rightarrow> handoff_service" where
  "ho_init c = \<lparr>ho_config = c, ho_cache = [], ho_active = 0\<rparr>"

text \<open>\<open>_do_close\<close> empties the cache and leaves the counter.\<close>

definition ho_close :: "handoff_service \<Rightarrow> handoff_service" where
  "ho_close hs = hs\<lparr>ho_cache := []\<rparr>"

definition create_handoff_service :: "string option \<Rightarrow> string option \<Rightarrow> handoff_service" where
  "create_handoff_service webhook email = ho_init (hc_default\<lparr>hc_ticketing_webhook_url := webhook, hc_escalation_email := email\<rparr>)"

datatype post_exc = ConnectionFailure string | OtherException string

record 'w handoff_env =
  he_post :: "string \<Rightarrow> json \<Rightarrow> 'w \<Rightarrow> (post_exc + http_reply) \<times> 'w"
  he_isoformat :: "time \<Rightarrow> string"
  he_str :: "json \<Rightarrow> string"
  he_noise :: "nat \<Rightarrow> rat"
  he_utc_offset :: time

fun exc_class_of :: "post_exc \<Rightarrow> exc_class" where
  "exc_class_of (ConnectionFailure _) = RetryableExc"
| "exc_class_of (OtherException _) = OtherExc"

fun post_exc_text :: "post_exc \<Rightarrow> string" where
  "post_exc_text (ConnectionFailure s) = s"
| "post_exc_text (OtherException s) = s"

fun retry_error_text :: "post_exc retry_error \<Rightarrow> string" where
  "retry_error_text (RetryExhausted n e) =
     ''Retry exhausted after '' @ py_str_nat n @ '' attempts: '' @ (case e of None \<Rightarrow> ''None'' | Some x \<Rightarrow> post_exc_text x)"
| "retry_error_text (Reraised e) = post_exc_text e"

definition ho_retry :: "handoff_config \<Rightarrow> post_exc retry_config" where
  "ho_retry c = \<lparr>rt_max_attempts = hc_max_retries c, rt_backoff = bo_default\<lparr>bo_min_delay := hc_retry_min_delay c\<rparr>, rt_class = exc_class_of\<rparr>"

text \<open>\<open>str\<close> of a \<open>HandoffError\<close>.\<close>

definition handoff_error :: "string \<Rightarrow> string \<Rightarrow> string" where
  "handoff_error message cid = ''Handoff error ['' @ cid @ '']: '' @ message"

definition opt_jstr :: "string option \<Rightarrow> json" where
  "opt_jstr s = (case s of None \<Rightarrow> JNull | Some x \<Rightarrow> JStr x)"

definition created_payload :: "'w handoff_env \<Rightarrow> handoff_request \<Rightarrow> json" where
  "created_payload E r = JObj
     [(''event'', JStr ''handoff.created''), (''tenant_id'', JStr (hq_tenant r)), (''conversation_id'', JStr (hq_conversation r)),
      (''user_message'', JStr (hq_user_message r)), (''model_response'', opt_jstr (hq_model_response r)), (''confidence'', JNum (hq_confidence r)),
      (''reason'', JStr (hq_reason r)), (''context'', JObj (hq_context r)), (''attempted_resolution'', opt_jstr (hq_attempted_resolution r)),
      (''recommended_next_step'', opt_jstr (hq_recommended_next_step r)), (''created_at'', JStr (he_isoformat E (hq_created_at r))),
      (''handoff_id'', JStr (hq_id r))]"

definition post_handoff :: "'w handoff_env \<Rightarrow> string \<Rightarrow> handoff_request \<Rightarrow> 'w \<Rightarrow> (post_exc + handoff_response) \<times> 'w" where
  "post_handoff E url r w =
     (case he_post E url (created_payload E r) w of
        (Inl e, w1) \<Rightarrow> (Inl e, w1)
      | (Inr p, w1) \<Rightarrow>
          (if hp_status p = 200 \<or> hp_status p = 201
           then (case hp_json p of
                   Inl e \<Rightarrow> (Inl (OtherException e), w1)
                 | Inr d \<Rightarrow>
                     (case py_get d ''ticket_id'' of
                        Inl e \<Rightarrow> (Inl (OtherException e), w1)
                      | Inr _ \<Rightarrow>
                          (let tid = jget_or d ''ticket_id'' (JStr (take 16 (hq_id r)))
                           in (Inr \<lparr>hn_success = True, hn_ticket_id = tid, hn_assigned_to = jget_or d ''assigned_to'' (JStr ''support-queue''),
                                    hn_message = ''Ticket created: '' @ py_str (he_str E) tid,
                                    hn_metadata = [(''status_code'', JInt (int (hp_status p)))]\<rparr>, w1))))
           else (Inl (OtherException (handoff_error (''Ticketing API returned '' @ py_str_nat (hp_status p) @ '': '' @ hp_text p)
                        (hq_conversation r))), w1)))"

definition send_to_ticketing ::
  "'w handoff_env \<Rightarrow> handoff_config \<Rightarrow> handoff_request \<Rightarrow> 'w \<Rightarrow> (string + handoff_response) \<times> 'w" where
  "send_to_ticketing E c r w =
     (if \<not> truthy_str (hc_ticketing_webhook_url c)
      then (Inr \<lparr>hn_success = False, hn_ticket_id = JNull, hn_assigned_to = JNull, hn_message = ''Ticketing webhook not configured'',
                 hn_metadata = []\<rparr>, w)
      else case retry_async (ho_retry c) (he_noise E) (post_handoff E (the (hc_ticketing_webhook_url c)) r) w of
             (Inl e, _, w1) \<Rightarrow> (Inl (handoff_error (retry_error_text e) (hq_conversation r)), w1)
           | (Inr x, _, w1) \<Rightarrow> (Inr x, w1))"

definition recorded_response :: "string \<Rightarrow> handoff_response" where
  "recorded_response e = \<lparr>hn_success = True, hn_ticket_id = JNull, hn_assigned_to = JNull,
     hn_message = ''Handoff recorded. Ticketing system unavailable.'', hn_metadata = [(''fallback'', JBool True), (''error'', JStr e)]\<rparr>"

definition request_of :: "handoff_args \<Rightarrow> time \<Rightarrow> string \<Rightarrow> handoff_request" where
  "request_of a now uid =
     \<lparr>hq_tenant = ha_tenant a, hq_conversation = ha_conversation a, hq_user_message = ha_user_message a,
      hq_model_response = ha_model_response a, hq_confidence = ha_confidence a, hq_reason = ha_reason a,
      hq_context = get_or (ha_context a) [], hq_attempted_resolution = ha_attempted_resolution a,
      hq_recommended_next_step = ha_recommended_next_step a, hq_created_at = now, hq_id = uid, hq_status = None, hq_assigned_to = None,
      hq_resolution = None\<rparr>"

definition create_handoff ::
  "'w handoff_env \<Rightarrow> time \<Rightarrow> string \<Rightarrow> handoff_args \<Rightarrow> handoff_service \<Rightarrow> 'w \<Rightarrow> (string + handoff_response) \<times> handoff_service \<times> 'w" where
  "create_handoff E now uid a hs w =
     (if hc_max_concurrent_handoffs (ho_config hs) \<le> ho_active hs
      then (Inl (handoff_error ''Max concurrent handoffs reached'' (ha_conversation a)), hs, w)
      else (let r = request_of a now uid;
                hs1 = hs\<lparr>ho_cache := AList.update (ha_conversation a) r (ho_cache hs), ho_active := ho_active hs + 1\<rparr>
            in case send_to_ticketing E (ho_config hs) r w of
                 (Inl e, w1) \<Rightarrow> (Inr (recorded_response e), hs1, w1)
               | (Inr t, w1) \<Rightarrow> (Inr (if hn_success t then t else recorded_response []), hs1, w1)))"

definition status_payload :: "handoff_request \<Rightarrow> string \<Rightarrow> json" where
  "status_payload r assigned = JObj
     [(''event'', JStr ''handoff.status_changed''), (''handoff_id'', JStr (hq_id r)), (''conversation_id'', JStr (hq_conversation r)),
      (''status'', opt_jstr (hq_status r)), (''assigned_to'', JStr assigned), (''resolution'', opt_jstr (hq_resolution r)),
      (''tenant_id'', JStr (hq_tenant r))]"

text \<open>\<open>_notify_status_change\<close>: without the attribute \<open>assigned_to\<close> the payload cannot be built and nothing is posted. Its caller logs
  every exception.\<close>

definition notify_status_change :: "'w handoff_env \<Rightarrow> string \<Rightarrow> handoff_request \<Rightarrow> 'w \<Rightarrow> 'w" where
  "notify_status_change E url r w =
     (case hq_assigned_to r of None \<Rightarrow> w | Some who \<Rightarrow> snd (he_post E url (status_payload r who) w))"

definition with_status :: "string \<Rightarrow> string option \<Rightarrow> string option \<Rightarrow> handoff_request \<Rightarrow> handoff_request" where
  "with_status status assigned resolution r =
     (let r1 = r\<lparr>hq_status := Some status\<rparr>;
          r2 = (if truthy_str assigned then r1\<lparr>hq_assigned_to := assigned\<rparr> else r1)
      in if truthy_str resolution then r2\<lparr>hq_resolution := resolution\<rparr> else r2)"

definition update_handoff_status ::
  "'w handoff_env \<Rightarrow> string \<Rightarrow> string \<Rightarrow> string option \<Rightarrow> string option \<Rightarrow> handoff_service \<Rightarrow> 'w \<Rightarrow> bool \<times> handoff_service \<times> 'w" where
  "update_handoff_status E cid status assigned resolution hs w =
     (case map_of (ho_cache hs) cid of
        None \<Rightarrow> (False, hs, w)
      | Some r \<Rightarrow>
          (let r1 = with_status status assigned resolution r;
               hs1 = hs\<lparr>ho_cache := AList.update cid r1 (ho_cache hs)\<rparr>
           in (True, hs1, if truthy_str (hc_status_webhook_url (ho_config hs))
                          then notify_status_change E (the (hc_status_webhook_url (ho_config hs))) r1 w else w)))"

definition clear_handoff :: "string \<Rightarrow> handoff_service \<Rightarrow> handoff_service" where
  "clear_handoff cid hs = hs\<lparr>ho_cache := AList.delete cid (ho_cache hs), ho_active := max 0 (ho_active hs - 1)\<rparr>"

definition is_stale :: "'w handoff_env \<Rightarrow> handoff_config \<Rightarrow> time \<Rightarrow> handoff_request \<Rightarrow> bool" where
  "is_stale E c now r \<longleftrightarrow> of_int (hc_handoff_expiry_minutes c * 60) < now - (hq_created_at r - he_utc_offset E)"

definition expire_stale_handoffs :: "'w handoff_env \<Rightarrow> time \<Rightarrow> handoff_service \<Rightarrow> handoff_service" where
  "expire_stale_handoffs E now hs =
     fold clear_handoff (map fst (filter (\<lambda>(_, r). is_stale E (ho_config hs) now r) (ho_cache hs))) hs"

definition get_handoff_status :: "'w handoff_env \<Rightarrow> time \<Rightarrow> string \<Rightarrow> handoff_service \<Rightarrow> handoff_request option \<times> handoff_service" where
  "get_handoff_status E now cid hs =
     (let hs1 = expire_stale_handoffs E now hs in (map_of (ho_cache hs1) cid, hs1))"

definition get_active_handoff_count :: "handoff_service \<Rightarrow> nat" where
  "get_active_handoff_count hs = length (ho_cache hs)"

section \<open>Lemmas\<close>

text \<open>The counter agrees with the cache and the cache is within the limit.\<close>

definition ho_inv :: "handoff_service \<Rightarrow> bool" where
  "ho_inv hs \<longleftrightarrow> distinct (map fst (ho_cache hs)) \<and> ho_active hs = int (get_active_handoff_count hs)
     \<and> ho_active hs \<le> max 0 (hc_max_concurrent_handoffs (ho_config hs))"

lemma ho_inv_init: "ho_inv (ho_init c)"
  by (simp add: ho_inv_def ho_init_def get_active_handoff_count_def)

lemma update_length:
  "length (AList.update k v al) = (if k \<in> fst ` set al then length al else Suc (length al))"
  by (induction al) (auto simp: image_iff)

lemma delete_filter: "AList.delete k al = filter (\<lambda>p. fst p \<noteq> k) al"
  by (auto simp: AList.delete_eq intro!: filter_cong)

lemma filter_absent: "k \<notin> fst ` set al \<Longrightarrow> filter (\<lambda>p. fst p \<noteq> k) al = al"
  by (induction al) auto

lemma cached_key: "map_of al k = Some v \<Longrightarrow> k \<in> fst ` set al"
  by (force dest: map_of_SomeD)

lemma delete_length: "distinct (map fst al) \<Longrightarrow> k \<in> fst ` set al \<Longrightarrow> Suc (length (AList.delete k al)) = length al"
proof (induction al)
  case (Cons p al)
  then show ?case by (cases "fst p = k") (auto simp: delete_filter filter_absent)
qed simp

lemma create_handoff_service_state:
  "create_handoff E now uid a hs w = (r, hs1, w1) \<Longrightarrow>
     hs1 = (if hc_max_concurrent_handoffs (ho_config hs) \<le> ho_active hs then hs
            else hs\<lparr>ho_cache := AList.update (ha_conversation a) (request_of a now uid) (ho_cache hs), ho_active := ho_active hs + 1\<rparr>)"
  by (auto simp: create_handoff_def Let_def split: if_splits prod.splits sum.splits)

lemma ho_inv_create:
  assumes "ho_inv hs" and "ha_conversation a \<notin> fst ` set (ho_cache hs)" and "create_handoff E now uid a hs w = (r, hs1, w1)"
  shows "ho_inv hs1"
  using assms(1,2) create_handoff_service_state [OF assms(3)]
  by (auto simp: ho_inv_def get_active_handoff_count_def update_length distinct_update)

lemma ho_inv_update:
  assumes "ho_inv hs" and "update_handoff_status E cid st as rs hs w = (b, hs1, w1)"
  shows "ho_inv hs1"
proof (cases "map_of (ho_cache hs) cid")
  case (Some q)
  with assms(2) have "hs1 = hs\<lparr>ho_cache := AList.update cid (with_status st as rs q) (ho_cache hs)\<rparr>"
    by (simp add: update_handoff_status_def Let_def)
  with assms(1) cached_key [OF Some] show ?thesis
    by (simp add: ho_inv_def get_active_handoff_count_def update_length distinct_update)
qed (use assms in \<open>simp add: update_handoff_status_def\<close>)

lemma ho_inv_clear:
  assumes "ho_inv hs" and "cid \<in> fst ` set (ho_cache hs)"
  shows "ho_inv (clear_handoff cid hs)"
  using assms delete_length [of "ho_cache hs" cid]
  by (auto simp: ho_inv_def get_active_handoff_count_def clear_handoff_def distinct_delete)

lemma clear_config [simp]: "ho_config (clear_handoff cid hs) = ho_config hs"
  by (simp add: clear_handoff_def)

lemma keys_delete: "fst ` set (AList.delete k al) = fst ` set al - {k}"
  by (auto simp: delete_filter)

lemma ho_inv_fold_clear:
  "ho_inv hs \<Longrightarrow> distinct cs \<Longrightarrow> set cs \<subseteq> fst ` set (ho_cache hs) \<Longrightarrow> ho_inv (fold clear_handoff cs hs)"
proof (induction cs arbitrary: hs)
  case (Cons c cs)
  moreover have "set cs \<subseteq> fst ` set (ho_cache (clear_handoff c hs))"
    using Cons.prems by (auto simp: clear_handoff_def keys_delete)
  ultimately show ?case using ho_inv_clear [of hs c] by simp
qed simp

lemma distinct_keys_filter: "distinct (map fst al) \<Longrightarrow> distinct (map fst (filter P al))"
  by (induction al) auto

lemma ho_inv_expire: "ho_inv hs \<Longrightarrow> ho_inv (expire_stale_handoffs E now hs)"
  unfolding expire_stale_handoffs_def by (rule ho_inv_fold_clear) (auto simp: ho_inv_def distinct_keys_filter)

lemma fold_clear_cache: "ho_cache (fold clear_handoff cs hs) = filter (\<lambda>p. fst p \<notin> set cs) (ho_cache hs)"
proof (induction cs arbitrary: hs)
  case (Cons c cs)
  have "ho_cache (clear_handoff c hs) = filter (\<lambda>p. fst p \<noteq> c) (ho_cache hs)"
    by (simp add: clear_handoff_def delete_filter)
  then show ?case using Cons.IH by (auto intro!: filter_cong)
qed simp

lemma expire_cache:
  assumes "distinct (map fst (ho_cache hs))"
  shows "ho_cache (expire_stale_handoffs E now hs) = filter (\<lambda>(_, r). \<not> is_stale E (ho_config hs) now r) (ho_cache hs)"
  using eq_key_imp_eq_value [OF assms]
  by (auto simp: expire_stale_handoffs_def fold_clear_cache case_prod_beta intro!: filter_cong) metis

section \<open>Properties\<close>

text \<open>The runs of a service whose clients open a handoff only for a conversation without one and clear only open handoffs.\<close>

inductive handoff_run :: "'w handoff_env \<Rightarrow> handoff_config \<Rightarrow> handoff_service \<Rightarrow> bool" for E c where
  run_init: "handoff_run E c (ho_init c)"
| run_create: "handoff_run E c hs \<Longrightarrow> ha_conversation a \<notin> fst ` set (ho_cache hs)
    \<Longrightarrow> create_handoff E now uid a hs w = (r, hs1, w1) \<Longrightarrow> handoff_run E c hs1"
| run_update: "handoff_run E c hs \<Longrightarrow> update_handoff_status E cid st as rs hs w = (b, hs1, w1) \<Longrightarrow> handoff_run E c hs1"
| run_status: "handoff_run E c hs \<Longrightarrow> get_handoff_status E now cid hs = (r, hs1) \<Longrightarrow> handoff_run E c hs1"
| run_clear: "handoff_run E c hs \<Longrightarrow> cid \<in> fst ` set (ho_cache hs) \<Longrightarrow> handoff_run E c (clear_handoff cid hs)"

lemma handoff_run_inv: "handoff_run E c hs \<Longrightarrow> ho_inv hs"
  by (induction rule: handoff_run.induct)
    (auto intro: ho_inv_init ho_inv_create ho_inv_update ho_inv_clear simp: get_handoff_status_def Let_def ho_inv_expire)

text \<open>For such clients the counter is the number of open handoffs.\<close>

lemma disciplined_counter_exact: "handoff_run E c hs \<Longrightarrow> ho_active hs = int (get_active_handoff_count hs)"
  using handoff_run_inv by (auto simp: ho_inv_def)

definition demo_handoff_env :: "nat handoff_env" where
  "demo_handoff_env = \<lparr>he_post = (\<lambda>_ _ n. (Inl (ConnectionFailure ''down''), n + 1)), he_isoformat = (\<lambda>_. []), he_str = (\<lambda>_. []),
     he_noise = (\<lambda>_. 0), he_utc_offset = 0\<rparr>"

lemma disciplined_counter_exact_witness:
  "ho_active (ho_init hc_default) = int (get_active_handoff_count (ho_init hc_default))"
  by (rule disciplined_counter_exact [where E = demo_handoff_env and c = hc_default]) (rule run_init)

text \<open>Below the limit every handoff is answered with success and cached, whatever the ticketing system does.\<close>

lemma handoff_always_succeeds:
  assumes "ho_active hs < hc_max_concurrent_handoffs (ho_config hs)"
  shows "\<exists>t hs1 w1. create_handoff E now uid a hs w = (Inr t, hs1, w1) \<and> hn_success t
     \<and> map_of (ho_cache hs1) (ha_conversation a) = Some (request_of a now uid)"
  using assms by (auto simp: create_handoff_def Let_def recorded_response_def update_conv' split: prod.splits sum.splits)

text \<open>A conversation that is handed over again and again uses up the limit of the whole service: the cache holds one handoff, and once
  the calls reach the limit every further handoff is refused.\<close>

fun create_all :: "'w handoff_env \<Rightarrow> (time \<times> string \<times> handoff_args) list \<Rightarrow> handoff_service \<times> 'w \<Rightarrow> handoff_service \<times> 'w" where
  "create_all E [] s = s"
| "create_all E ((now, uid, a) # cs) s = (case s of (hs, w) \<Rightarrow> create_all E cs (snd (create_handoff E now uid a hs w)))"

lemma create_all_same:
  assumes "\<forall>(now, uid, a) \<in> set cs. ha_conversation a = cid"
    and "fst ` set (ho_cache hs) \<subseteq> {cid}" and "ho_active hs + int (length cs) \<le> hc_max_concurrent_handoffs (ho_config hs)"
    and "create_all E cs (hs, w) = (hs1, w1)"
  shows "ho_active hs1 = ho_active hs + int (length cs) \<and> ho_config hs1 = ho_config hs \<and> fst ` set (ho_cache hs1) \<subseteq> {cid}"
  using assms
proof (induction cs arbitrary: hs w)
  case (Cons c cs)
  obtain now uid a where c: "c = (now, uid, a)" by (cases c)
  obtain r hs2 w2 where e: "create_handoff E now uid a hs w = (r, hs2, w2)" by (metis prod_cases3)
  have s: "hs2 = hs\<lparr>ho_cache := AList.update (ha_conversation a) (request_of a now uid) (ho_cache hs), ho_active := ho_active hs + 1\<rparr>"
    using create_handoff_service_state [OF e] Cons.prems(3) by auto
  have "ho_active hs1 = ho_active hs2 + int (length cs) \<and> ho_config hs1 = ho_config hs2 \<and> fst ` set (ho_cache hs1) \<subseteq> {cid}"
    using Cons.prems c e by (intro Cons.IH [of hs2 w2]) (auto simp: s dom_update)
  then show ?case by (simp add: s)
qed simp

lemma repeated_handoffs_exhaust_limit:
  assumes "\<forall>(now, uid, a) \<in> set cs. ha_conversation a = cid" and "int (length cs) = hc_max_concurrent_handoffs c"
    and "create_all E cs (ho_init c, w) = (hs, w1)"
  shows "fst ` set (ho_cache hs) \<subseteq> {cid}"
    and "create_handoff E now uid b hs w2 = (Inl (handoff_error ''Max concurrent handoffs reached'' (ha_conversation b)), hs, w2)"
  using create_all_same [OF assms(1) _ _ assms(3)] assms(2) by (auto simp: ho_init_def create_handoff_def)

text \<open>Clearing a conversation that has no handoff frees a place that is in use.\<close>

lemma stray_clear_lifts_limit:
  assumes "ho_inv hs" and "cid \<notin> fst ` set (ho_cache hs)" and "0 < ho_active hs"
  shows "get_active_handoff_count (clear_handoff cid hs) = get_active_handoff_count hs \<and> ho_active (clear_handoff cid hs) = ho_active hs - 1"
  using assms by (auto simp: clear_handoff_def get_active_handoff_count_def delete_filter filter_absent)

text \<open>A status read drops exactly the handoffs whose age, with the local clock's offset added, exceeds the limit.\<close>

lemma status_read_expires:
  assumes "distinct (map fst (ho_cache hs))"
  shows "ho_cache (snd (get_handoff_status E now cid hs)) = filter (\<lambda>(_, r). \<not> is_stale E (ho_config hs) now r) (ho_cache hs)"
  using expire_cache [OF assms] by (simp add: get_handoff_status_def Let_def)

text \<open>On a host more than the limit ahead of UTC a handoff is gone at the first read after it was made.\<close>

lemma handoffs_vanish_east_of_utc:
  assumes "of_int (hc_handoff_expiry_minutes (ho_config hs) * 60) < he_utc_offset E" and "distinct (map fst (ho_cache hs))"
    and "ho_active hs < hc_max_concurrent_handoffs (ho_config hs)" and "create_handoff E now uid a hs w = (r, hs1, w1)"
  shows "fst (get_handoff_status E now (ha_conversation a) hs1) = None"
proof -
  let ?r = "request_of a now uid"
  have s: "hs1 = hs\<lparr>ho_cache := AList.update (ha_conversation a) ?r (ho_cache hs), ho_active := ho_active hs + 1\<rparr>"
    using create_handoff_service_state [OF assms(4)] assms(3) by simp
  have d: "distinct (map fst (ho_cache hs1))" using assms(2) by (simp add: s distinct_update)
  have "map_of (ho_cache hs1) (ha_conversation a) = Some ?r" by (simp add: s update_conv')
  moreover have "is_stale E (ho_config hs) now ?r" using assms(1) by (simp add: is_stale_def request_of_def)
  ultimately have "x = ?r" if "(ha_conversation a, x) \<in> set (ho_cache hs1)" for x
    using map_of_is_SomeI [OF d that] by simp
  moreover have "ho_config hs1 = ho_config hs" by (simp add: s)
  ultimately show ?thesis
    using expire_cache [OF d, of E now] \<open>is_stale E (ho_config hs) now ?r\<close>
    by (auto simp: get_handoff_status_def Let_def map_of_eq_None_iff)
qed

text \<open>A status change of a handoff nobody is assigned to reaches no webhook.\<close>

lemma unassigned_status_never_notified:
  assumes "map_of (ho_cache hs) cid = Some r" and "hq_assigned_to r = None" and "\<not> truthy_str assigned"
    and "update_handoff_status E cid status assigned resolution hs w = (b, hs1, w1)"
  shows "b \<and> w1 = w \<and> (\<exists>r1. map_of (ho_cache hs1) cid = Some r1 \<and> hq_status r1 = Some status)"
  using assms by (auto simp: update_handoff_status_def with_status_def notify_status_change_def Let_def update_conv')

text \<open>An answer of the ticketing system other than 200 and 201 is final: the retries apply to connection failures only.\<close>

lemma refused_ticket_not_retried:
  assumes "he_post E url (created_payload E r) w = (Inr p, w1)" and "hp_status p \<noteq> 200" "hp_status p \<noteq> 201"
    and "hc_ticketing_webhook_url c = Some url" "url \<noteq> []" and "0 < hc_max_retries c"
  shows "\<exists>e. send_to_ticketing E c r w = (Inl e, w1)"
  using assms by (cases "hc_max_retries c")
    (auto simp: send_to_ticketing_def truthy_str_def retry_async_def ho_retry_def post_handoff_def)

end
