(* ===== verification/Escalation.thy ===== *)
theory Escalation
  imports Ticketing Orchestration Webhooks Auth
begin

text \<open>
  Escalation to a person: the service the agent loop calls (\<open>modules/escalation\<close>), its table (\<open>EscalationRepository\<close>), the operators'
  routes on escalations and the hold of a conversation (\<open>api/routes/conversations.py\<close>, \<open>ConversationRepository\<close>), and the counters
  of \<open>modules/escalation/metrics.py\<close>. The service writes the row, queues a notification and opens a ticket, each step on its own; the
  theorems say what of it survives a failure of the others. The HTTP client is the one of \<open>Ticketing\<close>, the queue the one of
  \<open>Job_Queue\<close>; both act on a world \<open>'w\<close>.
\<close>

section \<open>The handoff and its ticket\<close>

record esc_handoff =
  eh_id :: string
  eh_tenant_id :: string
  eh_session_id :: string
  eh_user_message :: string
  eh_model_response :: "string option"
  eh_confidence :: rat
  eh_reason :: string
  eh_policy_action :: "policy_action option"
  eh_history :: "(string \<times> string) list list"
  eh_attempted_resolutions :: "string list"
  eh_recommended_next_step :: "string option"
  eh_created_at :: time
  eh_status :: string
  eh_assigned_to :: "string option"

record esc_response =
  eo_success :: bool
  eo_ticket_id :: json
  eo_assignment_url :: json
  eo_message :: string
  eo_estimated_wait :: "nat option"

fun py_capitalize :: "string \<Rightarrow> string" where
  "py_capitalize [] = []"
| "py_capitalize (c # cs) = upper_char c # py_lower cs"

definition dict_get :: "(string \<times> string) list \<Rightarrow> string \<Rightarrow> string \<Rightarrow> string" where
  "dict_get d k v = get_or (map_of d k) v"

definition build_description :: "esc_handoff \<Rightarrow> string" where
  "build_description h = py_join nl
     ([''**Escalation Reason:** '' @ eh_reason h, ''**Confidence Score:** '' @ py_fixed2 (eh_confidence h),
       ''**User Message:** '' @ eh_user_message h, [], ''**Conversation History:**'']
      @ map (\<lambda>m. ''- '' @ py_capitalize (dict_get m ''role'' ''unknown'') @ '': '' @ dict_get m ''content'' []) (py_last 5 (eh_history h))
      @ (if truthy_str (eh_model_response h)
         then [[], ''**Model'' @ [CHR 39] @ ''s Proposed Response:**'', the (eh_model_response h)] else [])
      @ (if eh_attempted_resolutions h = [] then []
         else [[], ''**Attempted Resolutions:**''] @ map (\<lambda>r. ''- '' @ r) (eh_attempted_resolutions h))
      @ (if truthy_str (eh_recommended_next_step h)
         then [[], ''**Recommended Next Step:**'', the (eh_recommended_next_step h)] else []))"

definition calculate_priority :: "esc_handoff \<Rightarrow> string" where
  "calculate_priority h = (if eh_confidence h < 3/10 then ''high'' else if eh_confidence h < 1/2 then ''medium'' else ''low'')"

definition to_ticket_payload :: "esc_handoff \<Rightarrow> ticket_payload" where
  "to_ticket_payload h =
     [(''subject'', JStr (''Neryva Escalation - Confidence: '' @ py_fixed2 (eh_confidence h))),
      (''description'', JStr (build_description h)), (''priority'', JStr (calculate_priority h)),
      (''tags'', JList [JStr ''neryva'', JStr ''escalation'', JStr (eh_tenant_id h)]),
      (''metadata'', JObj [(''session_id'', JStr (eh_session_id h)), (''handoff_id'', JStr (eh_id h)), (''confidence'', JNum (eh_confidence h)),
         (''reason'', JStr (eh_reason h))])]"

section \<open>The table\<close>

record escalation_row =
  er_id :: string
  er_tenant_id :: string
  er_conversation_id :: "string option"
  er_session_id :: "string option"
  er_category :: string
  er_severity :: string
  er_status :: string
  er_reason :: string
  er_summary :: string
  er_details :: "(string \<times> json) list"
  er_channel :: string
  er_external_ref :: "string option"
  er_resolved_at :: "time option"
  er_created_at :: time

text \<open>\<open>add\<close> fails on a key that is taken; an update returns the new row, or \<^const>\<open>None\<close> when there is none.\<close>

definition esc_add :: "escalation_row \<Rightarrow> escalation_row list \<Rightarrow> escalation_row list option" where
  "esc_add r rows = (if er_id r \<in> er_id ` set rows then None else Some (rows @ [r]))"

definition esc_list :: "(escalation_row \<Rightarrow> bool) \<Rightarrow> string option \<Rightarrow> nat \<Rightarrow> escalation_row list \<Rightarrow> escalation_row list" where
  "esc_list P status limit rows =
     take limit (py_sorted_desc er_created_at (filter (\<lambda>r. P r \<and> (truthy_str status \<longrightarrow> Some (er_status r) = status)) rows))"

definition esc_list_by_tenant :: "string \<Rightarrow> string option \<Rightarrow> nat \<Rightarrow> escalation_row list \<Rightarrow> escalation_row list" where
  "esc_list_by_tenant tenant = esc_list (\<lambda>r. er_tenant_id r = tenant)"

definition esc_list_all :: "string option \<Rightarrow> nat \<Rightarrow> escalation_row list \<Rightarrow> escalation_row list" where
  "esc_list_all = esc_list (\<lambda>_. True)"

definition esc_get_by_id :: "string \<Rightarrow> escalation_row list \<Rightarrow> escalation_row option" where
  "esc_get_by_id i rows = find (\<lambda>r. er_id r = i) rows"

definition esc_list_by_conversation :: "string \<Rightarrow> nat \<Rightarrow> escalation_row list \<Rightarrow> escalation_row list" where
  "esc_list_by_conversation cid limit rows = take limit (py_sorted_desc er_created_at (filter (\<lambda>r. er_conversation_id r = Some cid) rows))"

definition esc_update_status ::
  "string \<Rightarrow> string \<Rightarrow> (escalation_row \<Rightarrow> escalation_row) \<Rightarrow> escalation_row list \<Rightarrow> escalation_row option \<times> escalation_row list" where
  "esc_update_status i status extra rows =
     (case esc_get_by_id i rows of
        None \<Rightarrow> (None, rows)
      | Some r \<Rightarrow> (let r1 = extra (r\<lparr>er_status := status\<rparr>) in (Some r1, map (\<lambda>x. if er_id x = i then r1 else x) rows)))"

definition esc_delete_by_tenant :: "string \<Rightarrow> escalation_row list \<Rightarrow> nat \<times> escalation_row list" where
  "esc_delete_by_tenant tenant rows =
     (length (filter (\<lambda>r. er_tenant_id r = tenant) rows), filter (\<lambda>r. er_tenant_id r \<noteq> tenant) rows)"

section \<open>The service\<close>

record esc_service =
  es_tenant :: tenant_config
  es_webhook_url :: "string option"
  es_helpdesk :: string
  es_has_repository :: bool
  es_notification_channel :: "string option"
  es_notification_target :: "string option"
  es_ticketing_config :: "ticketing_config option"

definition create_escalation_service ::
  "tenant_config \<Rightarrow> string option \<Rightarrow> string option \<Rightarrow> bool \<Rightarrow> string option \<Rightarrow> string option \<Rightarrow> ticketing_config option \<Rightarrow> esc_service" where
  "create_escalation_service tenant url desk has_repo channel target cfg =
     \<lparr>es_tenant = tenant, es_webhook_url = url, es_helpdesk = str_or desk ''generic'', es_has_repository = has_repo,
      es_notification_channel = channel, es_notification_target = target, es_ticketing_config = cfg\<rparr>"

record 'w esc_env =
  ee_post :: "'w http_client"
  ee_str :: "json \<Rightarrow> string"
  ee_store :: "'w job_store"
  ee_fresh :: "string \<Rightarrow> string"
  ee_channel :: string
  ee_target :: "string option"
  ee_adapter :: "string option"
  ee_ticketing :: ticketing_config

record 'w esc_state =
  et_rows :: "escalation_row list"
  et_queue :: "queue_manager option"
  et_world :: 'w

definition adapter_config :: "'w esc_env \<Rightarrow> esc_service \<Rightarrow> ticketing_config" where
  "adapter_config E es =
     (case es_ticketing_config es of
        Some c \<Rightarrow> c
      | None \<Rightarrow> (let c = tf_from_settings (ee_adapter E) (ee_ticketing E)
                 in if es_helpdesk es \<noteq> [] \<and> es_helpdesk es \<noteq> ''generic'' then c\<lparr>tf_adapter := es_helpdesk es\<rparr> else c))"

definition default_notification_target :: "'w esc_env \<Rightarrow> esc_service \<Rightarrow> string option \<times> esc_service" where
  "default_notification_target E es =
     (let es1 = (if es_notification_channel es = None then es\<lparr>es_notification_channel := Some (ee_channel E)\<rparr> else es);
          es2 = (if es_notification_target es1 = None then es1\<lparr>es_notification_target := ee_target E\<rparr> else es1)
      in (es_notification_target es2, es2))"

definition opt_text :: "string option \<Rightarrow> json" where
  "opt_text s = (case s of None \<Rightarrow> JNull | Some x \<Rightarrow> JStr x)"

definition notification_job :: "'w esc_env \<Rightarrow> time \<Rightarrow> esc_service \<Rightarrow> esc_handoff \<Rightarrow> job" where
  "notification_job E now es h = new_job (ee_fresh E) now ''notification.send''
     [(''channel'', opt_text (es_notification_channel es)), (''to'', opt_text (es_notification_target es)),
      (''tenant_id'', JStr (tn_id (es_tenant es))), (''session_id'', JStr (eh_session_id h)),
      (''subject'', JStr (''Neryva escalation '' @ take 8 (eh_id h))),
      (''body'', JStr (''Escalation '' @ eh_id h @ '' for tenant '' @ tn_slug (es_tenant es) @ '': confidence='' @ py_fixed2 (eh_confidence h)
         @ '' reason='' @ eh_reason h)),
      (''metadata'', JObj [(''handoff_id'', JStr (eh_id h)), (''category'', JStr ''escalation'')])]"

definition enqueue_operator_notification :: "'w esc_env \<Rightarrow> time \<Rightarrow> esc_handoff \<Rightarrow> esc_service \<Rightarrow> 'w esc_state \<Rightarrow> esc_service \<times> 'w esc_state" where
  "enqueue_operator_notification E now h es st =
     (case default_notification_target E es of
        (target, es1) \<Rightarrow>
          if \<not> truthy_str target then (es1, st)
          else (case et_queue st of
                  None \<Rightarrow> (es1, st)
                | Some qm \<Rightarrow>
                    (case enqueue (ee_store E) now (Some (''escalation:'' @ eh_id h)) (notification_job E now es1 h) qm (et_world st) of
                       (_, qm1, w1) \<Rightarrow> (es1, st\<lparr>et_queue := Some qm1, et_world := w1\<rparr>))))"

definition es_should_escalate :: "esc_service \<Rightarrow> rat \<Rightarrow> policy_action \<Rightarrow> bool \<Rightarrow> bool" where
  "es_should_escalate es confidence action explicit =
     (if explicit then True else if action = PA_ESCALATE then True else if confidence < tn_escalation_threshold (es_tenant es) then True else False)"

definition handoff_phrases :: "string list" where
  "handoff_phrases = [''speak to a human'', ''talk to a person'', ''human agent'', ''real person'', ''customer service'', ''support agent'',
     ''escalate this'', ''supervisor'', ''manager'']"

definition detect_explicit_handoff_request :: "string \<Rightarrow> bool" where
  "detect_explicit_handoff_request message \<longleftrightarrow> (\<exists>p \<in> set handoff_phrases. py_in p (py_lower message))"

definition generate_recommendation :: "rat \<Rightarrow> string \<Rightarrow> string" where
  "generate_recommendation confidence reason =
     (if confidence < 3/10 then ''Low confidence response - please review conversation context and provide accurate assistance.''
      else if py_in ''policy'' (py_lower reason) then ''Policy violation detected - review against tenant guidelines before responding.''
      else if py_in ''blocked'' (py_lower reason)
      then ''Content blocked by guardrails - verify if block was appropriate and respond accordingly.''
      else ''Standard escalation - continue conversation from where bot left off.'')"

definition row_of :: "esc_service \<Rightarrow> string option \<Rightarrow> esc_handoff \<Rightarrow> escalation_row" where
  "row_of es cid h =
     \<lparr>er_id = eh_id h, er_tenant_id = tn_id (es_tenant es), er_conversation_id = cid, er_session_id = Some (eh_session_id h),
      er_category = ''general'', er_severity = (if eh_confidence h < 3/10 then ''high'' else ''medium''), er_status = eh_status h,
      er_reason = eh_reason h, er_summary = take 500 (eh_user_message h),
      er_details = [(''user_message'', JStr (eh_user_message h)), (''model_response'', opt_text (eh_model_response h)),
        (''confidence'', JNum (eh_confidence h)),
        (''policy_action'', case eh_policy_action h of None \<Rightarrow> JNull | Some a \<Rightarrow> JStr (action_name a)),
        (''recommended_next_step'', opt_text (eh_recommended_next_step h)),
        (''attempted_resolutions'', JList (map JStr (eh_attempted_resolutions h)))],
      er_channel = es_helpdesk es, er_external_ref = None, er_resolved_at = None, er_created_at = eh_created_at h\<rparr>"

text \<open>\<open>_persist_handoff\<close> is best effort: a failed insert is logged.\<close>

definition persist_handoff :: "esc_service \<Rightarrow> string option \<Rightarrow> esc_handoff \<Rightarrow> 'w esc_state \<Rightarrow> 'w esc_state" where
  "persist_handoff es cid h st =
     (if \<not> es_has_repository es then st
      else case esc_add (row_of es cid h) (et_rows st) of None \<Rightarrow> st | Some rows \<Rightarrow> st\<lparr>et_rows := rows\<rparr>)"

text \<open>\<open>_record_external_ref\<close>; a value that is not text does not fit the column, the failed write is logged.\<close>

definition record_external_ref :: "esc_service \<Rightarrow> esc_handoff \<Rightarrow> json \<Rightarrow> 'w esc_state \<Rightarrow> 'w esc_state" where
  "record_external_ref es h ticket st =
     (if \<not> es_has_repository es then st
      else case ticket of
             JStr t \<Rightarrow> st\<lparr>et_rows := snd (esc_update_status (eh_id h) ''pending'' (\<lambda>r. r\<lparr>er_external_ref := Some t\<rparr>) (et_rows st))\<rparr>
           | _ \<Rightarrow> st)"

definition recorded_locally :: esc_response where
  "recorded_locally = \<lparr>eo_success = True, eo_ticket_id = JNull, eo_assignment_url = JNull,
     eo_message = ''Handoff recorded locally. No external ticketing system configured.'', eo_estimated_wait = None\<rparr>"

definition ticket_created :: "json \<Rightarrow> json \<Rightarrow> string \<Rightarrow> esc_response" where
  "ticket_created ticket url shown = \<lparr>eo_success = True, eo_ticket_id = ticket, eo_assignment_url = url,
     eo_message = ''Ticket created: '' @ shown, eo_estimated_wait = Some 15\<rparr>"

text \<open>The legacy webhook: a status other than 200 and 201 raises with the text of the answer.\<close>

definition post_generic :: "'w esc_env \<Rightarrow> string \<Rightarrow> esc_handoff \<Rightarrow> 'w \<Rightarrow> (string + esc_response) \<times> 'w" where
  "post_generic E url h w =
     (case ee_post E url [(''Content-Type'', ''application/json'')] (JObj (to_ticket_payload h)) w of
        (Inl e, w1) \<Rightarrow> (Inl e, w1)
      | (Inr p, w1) \<Rightarrow>
          (if hp_status p = 200 \<or> hp_status p = 201
           then (case hp_json p of
                   Inl e \<Rightarrow> (Inl e, w1)
                 | Inr d \<Rightarrow> (case py_get d ''ticket_id'' of
                               Inl e \<Rightarrow> (Inl e, w1)
                             | Inr _ \<Rightarrow> (let tid = jget_or d ''ticket_id'' (JStr (eh_id h))
                                        in (Inr (ticket_created tid JNull (py_str (ee_str E) tid)), w1))))
           else (Inl (''Ticketing API error: '' @ hp_text p), w1)))"

definition send_to_ticketing_system :: "'w esc_env \<Rightarrow> esc_service \<Rightarrow> esc_handoff \<Rightarrow> 'w \<Rightarrow> (string + esc_response) \<times> 'w" where
  "send_to_ticketing_system E es h w =
     (let config = adapter_config E es
      in if tf_adapter config \<noteq> ''generic''
         then (case get_ticketing_adapter config of
                 None \<Rightarrow> (Inr recorded_locally, w)
               | Some a \<Rightarrow>
                   (case create_ticket (ee_str E) (ee_post E) a (to_ticket_payload h) w of
                      (Inl e, w1) \<Rightarrow> (Inl e, w1)
                    | (Inr t, w1) \<Rightarrow>
                        (if tk_ok t
                         then (Inr (ticket_created (JStr (str_or (tk_ticket_id t) (eh_id h))) (tk_url t) (get_or (tk_ticket_id t) ''None'')), w1)
                         else (Inl (''Ticketing API error ('' @ tf_adapter config @ ''): '' @ get_or (tk_error t) ''None''), w1))))
         else if \<not> truthy_str (es_webhook_url es) then (Inr recorded_locally, w)
         else post_generic E (the (es_webhook_url es)) h w)"

record esc_args =
  ea_session_id :: string
  ea_user_message :: string
  ea_confidence :: rat
  ea_reason :: string
  ea_policy_action :: policy_action
  ea_history :: "(string \<times> string) list list"
  ea_model_response :: "string option"
  ea_attempted_resolutions :: "string list option"
  ea_conversation_id :: "string option"

definition handoff_of :: "esc_service \<Rightarrow> time \<Rightarrow> string \<Rightarrow> esc_args \<Rightarrow> esc_handoff" where
  "handoff_of es now uid a =
     \<lparr>eh_id = uid, eh_tenant_id = tn_id (es_tenant es), eh_session_id = ea_session_id a, eh_user_message = ea_user_message a,
      eh_model_response = ea_model_response a, eh_confidence = ea_confidence a, eh_reason = ea_reason a,
      eh_policy_action = Some (ea_policy_action a), eh_history = ea_history a, eh_attempted_resolutions = get_or (ea_attempted_resolutions a) [],
      eh_recommended_next_step = Some (generate_recommendation (ea_confidence a) (ea_reason a)), eh_created_at = now,
      eh_status = ''pending'', eh_assigned_to = None\<rparr>"

definition esc_create_handoff ::
  "'w esc_env \<Rightarrow> time \<Rightarrow> string \<Rightarrow> esc_args \<Rightarrow> esc_service \<Rightarrow> 'w esc_state \<Rightarrow> esc_response \<times> esc_service \<times> 'w esc_state" where
  "esc_create_handoff E now uid a es st =
     (let h = handoff_of es now uid a;
          st1 = persist_handoff es (ea_conversation_id a) h st;
          (es1, st2) = enqueue_operator_notification E now h es st1
      in case send_to_ticketing_system E es1 h (et_world st2) of
           (Inr r, w1) \<Rightarrow>
             (r, es1, if jtruthy (eo_ticket_id r) \<and> eo_ticket_id r \<noteq> JStr (eh_id h)
                      then record_external_ref es1 h (eo_ticket_id r) (st2\<lparr>et_world := w1\<rparr>) else st2\<lparr>et_world := w1\<rparr>)
         | (Inl e, w1) \<Rightarrow>
             (\<lparr>eo_success = False, eo_ticket_id = JNull, eo_assignment_url = JNull,
               eo_message = ''Handoff recorded but ticketing system unavailable: '' @ e, eo_estimated_wait = None\<rparr>, es1, st2\<lparr>et_world := w1\<rparr>))"

definition format_handoff_message :: "esc_handoff \<Rightarrow> string" where
  "format_handoff_message h = ''I'' @ [CHR 39] @ ''m connecting you with a human specialist who can better assist you. Please hold on for a moment. ''
     @ ''(Reference ID: '' @ eh_id h @ '')''"

section \<open>The routes of the operators\<close>

text \<open>The tenant rule and the guards of the three routes; \<open>actor\<close> has passed \<open>require_permission\<close>.\<close>

definition list_escalations :: "principal \<Rightarrow> string option \<Rightarrow> escalation_row list \<Rightarrow> escalation_row list" where
  "list_escalations actor status rows =
     (case pr_tenant_id actor of Some t \<Rightarrow> esc_list_by_tenant t status 100 rows | None \<Rightarrow> esc_list_all status 100 rows)"

definition get_escalation_or_404 :: "principal \<Rightarrow> string \<Rightarrow> escalation_row list \<Rightarrow> http_error + escalation_row" where
  "get_escalation_or_404 actor i rows =
     (case esc_get_by_id i rows of
        None \<Rightarrow> Inl (Http 404 ''Escalation not found'')
      | Some r \<Rightarrow> if pr_tenant_id actor \<noteq> None \<and> pr_tenant_id actor \<noteq> Some (er_tenant_id r) then Inl (Http 403 ''Not your tenant'') else Inr r)"

definition with_note :: "string \<Rightarrow> string option \<Rightarrow> (string \<times> json) list \<Rightarrow> (string \<times> json) list" where
  "with_note key note details = (if truthy_str note then AList.update key (JStr (the note)) details else details)"

definition assign_escalation ::
  "principal \<Rightarrow> string \<Rightarrow> string option \<Rightarrow> escalation_row list \<Rightarrow> (http_error + escalation_row) \<times> escalation_row list" where
  "assign_escalation actor i note rows =
     (case get_escalation_or_404 actor i rows of
        Inl e \<Rightarrow> (Inl e, rows)
      | Inr r \<Rightarrow>
          if er_status r \<notin> {''pending'', ''in_review''}
          then (Inl (Http 409 (''Cannot assign escalation in status '' @ [CHR 39] @ er_status r @ [CHR 39])), rows)
          else (case esc_update_status i ''in_review'' (\<lambda>x. x\<lparr>er_details := with_note ''assign_note'' note (er_details r)\<rparr>) rows of
                  (Some r1, rows1) \<Rightarrow> (Inr r1, rows1)
                | (None, rows1) \<Rightarrow> (Inl (Http 500 []), rows1)))"

definition resolve_escalation ::
  "time \<Rightarrow> principal \<Rightarrow> string \<Rightarrow> string option \<Rightarrow> escalation_row list \<Rightarrow> (http_error + escalation_row) \<times> escalation_row list" where
  "resolve_escalation now actor i note rows =
     (case get_escalation_or_404 actor i rows of
        Inl e \<Rightarrow> (Inl e, rows)
      | Inr r \<Rightarrow>
          if er_status r = ''resolved'' then (Inl (Http 409 ''Escalation is already resolved''), rows)
          else (case esc_update_status i ''resolved''
                       (\<lambda>x. x\<lparr>er_details := with_note ''resolution_note'' note (er_details r), er_resolved_at := Some now\<rparr>) rows of
                  (Some r1, rows1) \<Rightarrow> (Inr r1, rows1)
                | (None, rows1) \<Rightarrow> (Inl (Http 500 []), rows1)))"

section \<open>Conversations and their hold\<close>

record conversation_row =
  cv_id :: string
  cv_tenant :: string
  cv_session :: string
  cv_status :: string
  cv_escalated :: bool
  cv_created_at :: time

definition cv_get_by_session :: "string \<Rightarrow> string \<Rightarrow> conversation_row list \<Rightarrow> conversation_row option" where
  "cv_get_by_session tenant session rows = find (\<lambda>c. cv_tenant c = tenant \<and> cv_session c = session) rows"

text \<open>\<open>get_or_create\<close> with a fresh id; the flag says whether the row is new.\<close>

definition cv_get_or_create :: "time \<Rightarrow> string \<Rightarrow> string \<Rightarrow> string \<Rightarrow> conversation_row list \<Rightarrow> conversation_row \<times> bool \<times> conversation_row list" where
  "cv_get_or_create now uid tenant session rows =
     (case cv_get_by_session tenant session rows of
        Some c \<Rightarrow> (c, False, rows)
      | None \<Rightarrow> (let c = \<lparr>cv_id = uid, cv_tenant = tenant, cv_session = session, cv_status = ''active'', cv_escalated = False, cv_created_at = now\<rparr>
                 in (c, True, rows @ [c])))"

definition cv_list_by_tenant :: "string \<Rightarrow> nat \<Rightarrow> conversation_row list \<Rightarrow> conversation_row list" where
  "cv_list_by_tenant tenant limit rows = take limit (py_sorted_desc cv_created_at (filter (\<lambda>c. cv_tenant c = tenant) rows))"

definition cv_mark_escalated :: "string \<Rightarrow> conversation_row list \<Rightarrow> conversation_row list" where
  "cv_mark_escalated cid rows = map (\<lambda>c. if cv_id c = cid then c\<lparr>cv_escalated := True\<rparr> else c) rows"

definition cv_set_status :: "string \<Rightarrow> string \<Rightarrow> conversation_row list \<Rightarrow> bool \<times> conversation_row list" where
  "cv_set_status cid status rows = (\<exists>c \<in> set rows. cv_id c = cid, map (\<lambda>c. if cv_id c = cid then c\<lparr>cv_status := status\<rparr> else c) rows)"

definition set_hold :: "string \<Rightarrow> principal \<Rightarrow> string \<Rightarrow> conversation_row list \<Rightarrow> (http_error + string) \<times> conversation_row list" where
  "set_hold status actor cid rows =
     (case require_permission ''conversations:write'' actor of
        Inl e \<Rightarrow> (Inl e, rows)
      | Inr _ \<Rightarrow> (case cv_set_status cid status rows of
                    (True, rows1) \<Rightarrow> (Inr status, rows1)
                  | (False, rows1) \<Rightarrow> (Inl (Http 404 ''Conversation not found''), rows1)))"

definition pause_conversation :: "principal \<Rightarrow> string \<Rightarrow> conversation_row list \<Rightarrow> (http_error + string) \<times> conversation_row list" where
  "pause_conversation = set_hold ''paused''"

definition resume_conversation :: "principal \<Rightarrow> string \<Rightarrow> conversation_row list \<Rightarrow> (http_error + string) \<times> conversation_row list" where
  "resume_conversation = set_hold ''active''"

text \<open>The gate at the start of a turn.\<close>

definition open_conversation ::
  "time \<Rightarrow> string \<Rightarrow> string \<Rightarrow> string \<Rightarrow> conversation_row list \<Rightarrow> (http_error + conversation_row) \<times> conversation_row list" where
  "open_conversation now uid tenant session rows =
     (case cv_get_or_create now uid tenant session rows of
        (c, _, rows1) \<Rightarrow>
          (if cv_status c = ''paused''
           then Inl (Http 423 ''Conversation is paused (human-in-the-loop hold); resume it before sending new messages.'') else Inr c, rows1))"

section \<open>Counters\<close>

record esc_metrics =
  em_total :: nat
  em_by_reason :: "(string \<times> nat) list"
  em_average_confidence :: rat
  em_average_resolution_minutes :: rat
  em_created :: nat
  em_resolved :: nat
  em_confidences :: "rat list"

definition em_init :: esc_metrics where
  "em_init = \<lparr>em_total = 0, em_by_reason = [], em_average_confidence = 0, em_average_resolution_minutes = 0, em_created = 0, em_resolved = 0,
     em_confidences = []\<rparr>"

definition reason_key :: "string \<Rightarrow> string" where
  "reason_key reason = (if CHR ''-'' \<in> set reason then py_strip (fst (py_split1 (CHR ''-'') reason)) else reason)"

definition record_escalation :: "string \<Rightarrow> rat \<Rightarrow> esc_metrics \<Rightarrow> esc_metrics" where
  "record_escalation reason confidence m =
     (let k = reason_key reason; cs = em_confidences m @ [confidence]
      in m\<lparr>em_total := em_total m + 1, em_by_reason := AList.update k (get_or (map_of (em_by_reason m) k) 0 + 1) (em_by_reason m),
           em_confidences := cs, em_average_confidence := sum_list cs / of_nat (length cs)\<rparr>)"

definition record_ticket_created :: "esc_metrics \<Rightarrow> esc_metrics" where
  "record_ticket_created m = m\<lparr>em_created := em_created m + 1\<rparr>"

definition record_ticket_resolved :: "rat \<Rightarrow> esc_metrics \<Rightarrow> esc_metrics" where
  "record_ticket_resolved minutes m =
     (let n = em_resolved m + 1
      in m\<lparr>em_resolved := n,
           em_average_resolution_minutes := (em_average_resolution_minutes m * (of_nat n - 1) + minutes) / of_nat n\<rparr>)"

definition resolution_rate :: "esc_metrics \<Rightarrow> rat" where
  "resolution_rate m = (if 0 < em_created m then of_nat (em_resolved m) / of_nat (em_created m) else 0)"

section \<open>The service behind the agent loop\<close>

text \<open>The arguments that \<open>_prepare_handoff_impl\<close> passes on, and the service as the agent loop's parameter.\<close>

definition turn_args :: "agent_state \<Rightarrow> string \<Rightarrow> esc_args" where
  "turn_args st reason =
     \<lparr>ea_session_id = ag_session_id st, ea_user_message = ag_redacted_message st, ea_confidence = ag_confidence st, ea_reason = reason,
      ea_policy_action = ag_policy_action st,
      ea_history = map (\<lambda>t. [(''role'', ct_role t), (''content'', ct_content t)]) (filter (\<lambda>t. ct_content t \<noteq> []) (ag_history st)),
      ea_model_response = ag_response st,
      ea_attempted_resolutions = (if truthy_str (ag_response st) then Some [the (ag_response st)] else None),
      ea_conversation_id = ag_conversation_id st\<rparr>"

definition escalate_turn ::
  "'w esc_env \<Rightarrow> time \<Rightarrow> string \<Rightarrow> esc_service \<Rightarrow> agent_state \<Rightarrow> string \<Rightarrow> 'w esc_state \<Rightarrow> (turn_exc + bool) \<times> 'w esc_state" where
  "escalate_turn E now uid es st reason w =
     (case esc_create_handoff E now uid (turn_args st reason) es w of (r, _, w1) \<Rightarrow> (Inr (eo_success r), w1))"

section \<open>Lemmas\<close>

text \<open>The ticket number that a response leaves on the row of the handoff \<open>uid\<close>.\<close>

definition ref_of :: "string \<Rightarrow> esc_response \<Rightarrow> string option" where
  "ref_of uid r = (case eo_ticket_id r of JStr t \<Rightarrow> if t \<noteq> [] \<and> t \<noteq> uid then Some t else None | _ \<Rightarrow> None)"

lemma notification_keeps:
  assumes "enqueue_operator_notification E now h es st = (es1, st1)"
  shows "et_rows st1 = et_rows st \<and> es_has_repository es1 = es_has_repository es \<and> es_tenant es1 = es_tenant es
     \<and> es_helpdesk es1 = es_helpdesk es \<and> es_webhook_url es1 = es_webhook_url es"
  using assms by (auto simp: enqueue_operator_notification_def default_notification_target_def Let_def
      split: prod.splits option.splits if_splits)

lemma handoff_of_id [simp]: "eh_id (handoff_of es now uid a) = uid" "er_id (row_of es cid h) = eh_id h"
    "eh_status (handoff_of es now uid a) = ''pending''" "er_status (row_of es cid h) = eh_status h"
    "er_external_ref (row_of es cid h) = None"
  by (simp_all add: handoff_of_def row_of_def)

lemma find_fresh: "i \<notin> f ` set xs \<Longrightarrow> find (\<lambda>x. f x = i) (xs @ [y]) = (if f y = i then Some y else None)"
  by (induction xs) auto

lemma replace_absent: "i \<notin> er_id ` set xs \<Longrightarrow> map (\<lambda>x. if er_id x = i then r1 else x) xs = xs"
  by (induction xs) auto

lemma update_new_row:
  assumes "er_id r \<notin> er_id ` set rows"
  shows "esc_update_status (er_id r) status extra (rows @ [r])
    = (Some (extra (r\<lparr>er_status := status\<rparr>)), rows @ [extra (r\<lparr>er_status := status\<rparr>)])"
  using find_fresh [OF assms, of r] replace_absent [OF assms] by (simp add: esc_update_status_def esc_get_by_id_def Let_def)

lemma create_handoff_rows:
  assumes "es_has_repository es" and "uid \<notin> er_id ` set (et_rows st)"
    and "esc_create_handoff E now uid a es st = (r, es1, st1)"
  shows "et_rows st1 = et_rows st @ [(row_of es (ea_conversation_id a) (handoff_of es now uid a))\<lparr>er_external_ref := ref_of uid r\<rparr>]"
proof -
  let ?h = "handoff_of es now uid a" and ?row = "row_of es (ea_conversation_id a) (handoff_of es now uid a)"
  have p: "persist_handoff es (ea_conversation_id a) ?h st = st\<lparr>et_rows := et_rows st @ [?row]\<rparr>"
    using assms(1,2) by (simp add: persist_handoff_def esc_add_def)
  obtain es2 st2 where n: "enqueue_operator_notification E now ?h es (persist_handoff es (ea_conversation_id a) ?h st) = (es2, st2)"
    by (cases "enqueue_operator_notification E now ?h es (persist_handoff es (ea_conversation_id a) ?h st)")
  note k = notification_keeps [OF n]
  have upd: "esc_update_status uid ''pending'' (\<lambda>r. r\<lparr>er_external_ref := Some t\<rparr>) (et_rows st @ [?row])
      = (Some (?row\<lparr>er_external_ref := Some t\<rparr>), et_rows st @ [?row\<lparr>er_external_ref := Some t\<rparr>])" for t
    using update_new_row [of ?row "et_rows st" "''pending''"] assms(2) by (simp add: row_of_def handoff_of_def)
  have none: "?row\<lparr>er_external_ref := None\<rparr> = ?row" by (simp add: row_of_def)
  show ?thesis
  proof (cases "send_to_ticketing_system E es2 ?h (et_world st2)")
    case (Pair res w1)
    with assms(3) n k p upd none assms(1) show ?thesis
      by (cases res) (auto simp: esc_create_handoff_def Let_def record_external_ref_def ref_of_def split: json.splits)
  qed
qed

lemma update_status_rows:
  assumes "esc_get_by_id i rows = Some r"
  shows "esc_update_status i status extra rows
    = (Some (extra (r\<lparr>er_status := status\<rparr>)), map (\<lambda>x. if er_id x = i then extra (r\<lparr>er_status := status\<rparr>) else x) rows)"
  using assms by (simp add: esc_update_status_def Let_def)

text \<open>A step of an operator: either route, by anyone.\<close>

inductive op_step :: "escalation_row list \<Rightarrow> escalation_row list \<Rightarrow> bool" where
  assigned: "assign_escalation actor i memo rows = (res, rows1) \<Longrightarrow> op_step rows rows1"
| settled: "resolve_escalation now actor i memo rows = (res, rows1) \<Longrightarrow> op_step rows rows1"

fun status_rank :: "string \<Rightarrow> nat" where
  "status_rank s = (if s = ''resolved'' then 2 else if s = ''in_review'' then 1 else 0)"

declare status_rank.simps [simp del]

lemma get_or_404_Inr:
  "get_escalation_or_404 actor i rows = Inr r \<Longrightarrow>
     esc_get_by_id i rows = Some r \<and> er_id r = i \<and> r \<in> set rows \<and> (pr_tenant_id actor = None \<or> pr_tenant_id actor = Some (er_tenant_id r))"
  by (auto simp: get_escalation_or_404_def esc_get_by_id_def dest: find_SomeD split: option.splits if_splits)

text \<open>What a route does to the table: it replaces at most one row, of the actor's tenant, keeping what identifies it.\<close>

definition route_effect :: "(escalation_row \<Rightarrow> bool) \<Rightarrow> escalation_row list \<Rightarrow> escalation_row list \<Rightarrow> bool" where
  "route_effect P rows rows1 \<longleftrightarrow> rows1 = rows \<or> (\<exists>r r1. r \<in> set rows \<and> esc_get_by_id (er_id r) rows = Some r \<and> P r \<and> er_id r1 = er_id r
     \<and> er_tenant_id r1 = er_tenant_id r \<and> er_external_ref r1 = er_external_ref r \<and> er_status r \<noteq> ''resolved''
     \<and> status_rank (er_status r) \<le> status_rank (er_status r1)
     \<and> rows1 = map (\<lambda>x. if er_id x = er_id r then r1 else x) rows)"

lemma effect_mono: "route_effect P rows rows1 \<Longrightarrow> route_effect (\<lambda>_. True) rows rows1"
  unfolding route_effect_def by blast

lemma assign_effect:
  assumes "assign_escalation actor i memo rows = (res, rows1)"
  shows "route_effect (\<lambda>r. pr_tenant_id actor = None \<or> pr_tenant_id actor = Some (er_tenant_id r)) rows rows1"
proof (cases "get_escalation_or_404 actor i rows")
  case (Inr r)
  note g = get_or_404_Inr [OF Inr]
  show ?thesis
  proof (cases "er_status r \<in> {''pending'', ''in_review''}")
    case True
    let ?r1 = "r\<lparr>er_status := ''in_review'', er_details := with_note ''assign_note'' memo (er_details r)\<rparr>"
    have "rows1 = map (\<lambda>x. if er_id x = er_id r then ?r1 else x) rows"
      using assms Inr True g by (auto simp: assign_escalation_def update_status_rows)
    then show ?thesis
      using g True unfolding route_effect_def by (intro disjI2 exI [of _ r] exI [of _ ?r1]) (auto simp: status_rank.simps)
  qed (use assms Inr in \<open>auto simp: assign_escalation_def route_effect_def\<close>)
qed (use assms in \<open>simp add: assign_escalation_def route_effect_def\<close>)

lemma resolve_effect:
  assumes "resolve_escalation now actor i memo rows = (res, rows1)"
  shows "route_effect (\<lambda>r. pr_tenant_id actor = None \<or> pr_tenant_id actor = Some (er_tenant_id r)) rows rows1"
proof (cases "get_escalation_or_404 actor i rows")
  case (Inr r)
  note g = get_or_404_Inr [OF Inr]
  show ?thesis
  proof (cases "er_status r = ''resolved''")
    case False
    let ?r1 = "r\<lparr>er_status := ''resolved'', er_details := with_note ''resolution_note'' memo (er_details r), er_resolved_at := Some now\<rparr>"
    have "rows1 = map (\<lambda>x. if er_id x = er_id r then ?r1 else x) rows"
      using assms Inr False g by (auto simp: resolve_escalation_def update_status_rows)
    then show ?thesis
      using g False unfolding route_effect_def by (intro disjI2 exI [of _ r] exI [of _ ?r1]) (auto simp: status_rank.simps)
  qed (use assms Inr in \<open>auto simp: resolve_escalation_def route_effect_def\<close>)
qed (use assms in \<open>simp add: resolve_escalation_def route_effect_def\<close>)

lemma effect_other_rows:
  assumes "route_effect P rows rows1" and "distinct (map er_id rows)" and "\<And>r. P r \<Longrightarrow> \<not> Q r" and "\<And>x y. er_tenant_id x = er_tenant_id y \<Longrightarrow> Q x = Q y"
  shows "filter Q rows1 = filter Q rows"
proof -
  have "filter Q (map (\<lambda>x. if er_id x = er_id r then r1 else x) rows) = filter Q rows"
    if "r \<in> set rows" "\<not> Q r" "\<not> Q r1" for r r1
    using that assms(2)
  proof (induction rows)
    case (Cons x xs)
    show ?case
    proof (cases "r = x")
      case True
      then have "map (\<lambda>x. if er_id x = er_id r then r1 else x) xs = xs" using Cons.prems(4) by (intro replace_absent) auto
      then show ?thesis using True Cons.prems by simp
    next
      case False
      then show ?thesis using Cons by auto
    qed
  qed simp
  with assms show ?thesis unfolding route_effect_def by blast
qed

lemma op_step_ids: "op_step rows rows1 \<Longrightarrow> map er_id rows1 = map er_id rows"
  by (erule op_step.cases) (auto dest!: assign_effect resolve_effect simp: route_effect_def)

lemma op_step_rank:
  assumes "op_step rows rows1" and "distinct (map er_id rows)" and "r \<in> set rows"
  shows "\<exists>r1 \<in> set rows1. er_id r1 = er_id r \<and> er_tenant_id r1 = er_tenant_id r \<and> status_rank (er_status r) \<le> status_rank (er_status r1)
     \<and> (er_status r = ''resolved'' \<longrightarrow> r1 = r)"
proof -
  have "route_effect (\<lambda>_. True) rows rows1"
    using assms(1) by (cases rule: op_step.cases) (auto dest: assign_effect resolve_effect intro: effect_mono)
  then consider "rows1 = rows"
    | q q1 where "q \<in> set rows" "er_id q1 = er_id q" "er_tenant_id q1 = er_tenant_id q" "er_status q \<noteq> ''resolved''"
        "status_rank (er_status q) \<le> status_rank (er_status q1)" "rows1 = map (\<lambda>x. if er_id x = er_id q then q1 else x) rows"
    unfolding route_effect_def by blast
  then show ?thesis
  proof cases
    case 2
    show ?thesis
    proof (cases "er_id r = er_id q")
      case True
      then have "r = q" using assms(2,3) 2(1) by (metis distinct_map inj_on_def)
      then show ?thesis using 2 by (intro bexI [of _ q1]) auto
    next
      case False
      then show ?thesis using 2 assms(3) by (intro bexI [of _ r]) auto
    qed
  qed (use assms(3) in auto)
qed

lemma op_steps_rank:
  assumes "op_step\<^sup>*\<^sup>* rows rows1" and "distinct (map er_id rows)" and "r \<in> set rows"
  shows "map er_id rows1 = map er_id rows \<and> (\<exists>r1 \<in> set rows1. er_id r1 = er_id r \<and> er_tenant_id r1 = er_tenant_id r
     \<and> status_rank (er_status r) \<le> status_rank (er_status r1) \<and> (er_status r = ''resolved'' \<longrightarrow> r1 = r))"
  using assms(1)
proof (induction rule: rtranclp_induct)
  case (step y z)
  then obtain q where q: "q \<in> set y" "er_id q = er_id r" "er_tenant_id q = er_tenant_id r"
      "status_rank (er_status r) \<le> status_rank (er_status q)" "er_status r = ''resolved'' \<longrightarrow> q = r" and ids: "map er_id y = map er_id rows"
    by blast
  have "distinct (map er_id y)" using assms(2) ids by simp
  from op_step_rank [OF step.hyps(2) this q(1)] q show ?case
    using op_step_ids [OF step.hyps(2)] ids by fastforce
qed (use assms(3) in auto)

section \<open>Properties\<close>

text \<open>A handoff of a service with a table leaves exactly one row, pending and of the service's tenant, whatever the queue and the ticketing
  system do; the row names the ticket when the system gave a number of its own.\<close>

theorem escalation_recorded_once:
  assumes "es_has_repository es" and "uid \<notin> er_id ` set (et_rows st)" and "esc_create_handoff E now uid a es st = (r, es1, st1)"
  shows "\<exists>row. et_rows st1 = et_rows st @ [row] \<and> er_id row = uid \<and> er_tenant_id row = tn_id (es_tenant es) \<and> er_status row = ''pending''
     \<and> er_reason row = ea_reason a \<and> er_summary row = take 500 (ea_user_message a) \<and> er_external_ref row = ref_of uid r"
  using create_handoff_rows [OF assms] by (simp add: row_of_def handoff_of_def)

text \<open>In the agent loop: a turn that is handed over records its redacted message, with the reason that the loop states, for the tenant. The
  conversation the turn belongs to is not on the row when the loop lost it.\<close>

theorem turn_handoff_recorded:
  assumes "es_has_repository es" and "uid \<notin> er_id ` set (et_rows w)" and "os_escalate sv = Some (escalate_turn E now uid es)"
    and "prepare_handoff sv st w = (st1, w1)"
  shows "ag_handoff_required st1 \<and> (\<exists>row. et_rows w1 = et_rows w @ [row] \<and> er_tenant_id row = tn_id (es_tenant es) \<and> er_status row = ''pending''
     \<and> er_summary row = take 500 (ag_redacted_message st) \<and> er_conversation_id row = ag_conversation_id st
     \<and> er_severity row = (if ag_confidence st < 3/10 then ''high'' else ''medium''))"
proof -
  obtain reason r es1 w2 where e: "esc_create_handoff E now uid (turn_args (st\<lparr>ag_handoff_required := True\<rparr>) reason) es w = (r, es1, w2)"
      and s: "w1 = w2" "ag_handoff_required st1"
    using assms(3,4) by (auto simp: prepare_handoff_def escalate_turn_def Let_def split: prod.splits)
  show ?thesis using create_handoff_rows [OF assms(1,2) e] s by (simp add: row_of_def handoff_of_def turn_args_def)
qed

text \<open>An operator who is bound to a tenant changes no escalation of another one.\<close>

theorem operators_stay_in_tenant:
  assumes "distinct (map er_id rows)" and "pr_tenant_id actor = Some t"
    and "assign_escalation actor i memo rows = (res, rows1) \<or> resolve_escalation now actor i memo rows = (res, rows1)"
  shows "filter (\<lambda>r. er_tenant_id r \<noteq> t) rows1 = filter (\<lambda>r. er_tenant_id r \<noteq> t) rows"
proof -
  have "route_effect (\<lambda>r. t = er_tenant_id r) rows rows1"
    using assms(3) assign_effect [of actor i memo rows res rows1] resolve_effect [of now actor i memo rows res rows1] by (auto simp: assms(2))
  then show ?thesis by (rule effect_other_rows) (use assms(1) in auto)
qed

text \<open>However many operators act in whatever order, an escalation only moves forward from pending over review to resolved, and a
  resolved one stays as it is.\<close>

theorem operators_only_advance:
  assumes "op_step\<^sup>*\<^sup>* rows rows1" and "distinct (map er_id rows)" and "r \<in> set rows"
  shows "\<exists>r1 \<in> set rows1. er_id r1 = er_id r \<and> status_rank (er_status r) \<le> status_rank (er_status r1) \<and> (er_status r = ''resolved'' \<longrightarrow> r1 = r)"
  using op_steps_rank [OF assms] by blast

text \<open>The ticketing answer does not respect this: an escalation that was resolved while the ticket was being opened is pending again,
  with the time of its resolution still set.\<close>

lemma late_ticket_reopens_resolved:
  assumes "es_has_repository es" and "esc_get_by_id (eh_id h) (et_rows st) = Some r" and "er_status r = ''resolved''"
  shows "\<exists>r1 \<in> set (et_rows (record_external_ref es h (JStr t) st)). er_id r1 = eh_id h \<and> er_status r1 = ''pending'' \<and> er_resolved_at r1 = er_resolved_at r"
proof -
  have "er_id r = eh_id h" "r \<in> set (et_rows st)" using assms(2) by (auto simp: esc_get_by_id_def dest: find_SomeD)
  then show ?thesis
    using assms(1)
    by (intro bexI [of _ "r\<lparr>er_status := ''pending'', er_external_ref := Some t\<rparr>"])
      (auto simp: record_external_ref_def update_status_rows [OF assms(2)] image_iff)
qed

text \<open>A held conversation takes no turn until it is released.\<close>

lemma hold_after:
  assumes "distinct (map cv_id rows)" and "cv_get_by_session tenant session rows = Some c"
    and "set_hold status actor (cv_id c) rows = (Inr s, rows1)"
  shows "cv_get_by_session tenant session rows1 = Some (c\<lparr>cv_status := status\<rparr>)"
proof -
  have r1: "rows1 = map (\<lambda>x. if cv_id x = cv_id c then x\<lparr>cv_status := status\<rparr> else x) rows"
    using assms(3) by (auto simp: set_hold_def cv_set_status_def split: sum.splits prod.splits bool.splits)
  show ?thesis
    using assms(1,2) unfolding r1 cv_get_by_session_def
  proof (induction rows)
    case (Cons x xs)
    show ?case
    proof (cases "x = c")
      case True
      then show ?thesis using Cons.prems(2) find_SomeD [OF Cons.prems(2)] by simp
    next
      case False
      then have f: "find (\<lambda>c. cv_tenant c = tenant \<and> cv_session c = session) xs = Some c" and n: "\<not> (cv_tenant x = tenant \<and> cv_session x = session)"
        using Cons.prems(2) by (auto split: if_splits)
      have "cv_id x \<noteq> cv_id c" using Cons.prems(1) find_SomeD [OF f] by (auto simp: image_iff)
      then show ?thesis using Cons.IH Cons.prems(1) f n by auto
    qed
  qed simp
qed

theorem held_conversation_takes_no_turn:
  assumes "distinct (map cv_id rows)" and "cv_get_by_session tenant session rows = Some c"
  shows "pause_conversation actor (cv_id c) rows = (Inr s, rows1) \<Longrightarrow>
      \<exists>detail. open_conversation now uid tenant session rows1 = (Inl (Http 423 detail), rows1)"
    and "resume_conversation actor (cv_id c) rows = (Inr s, rows1) \<Longrightarrow>
      open_conversation now uid tenant session rows1 = (Inr (c\<lparr>cv_status := ''active''\<rparr>), rows1)"
  using hold_after [OF assms, of _ actor s rows1]
  by (simp_all add: pause_conversation_def resume_conversation_def open_conversation_def cv_get_or_create_def)

text \<open>The hold has no tenant rule: whoever may write conversations holds any conversation of any tenant.\<close>

lemma hold_crosses_tenants:
  assumes "has_permission actor ''conversations:write''" and "c \<in> set rows"
  shows "\<exists>rows1. pause_conversation actor (cv_id c) rows = (Inr ''paused'', rows1) \<and> c\<lparr>cv_status := ''paused''\<rparr> \<in> set rows1"
proof -
  have "\<exists>x \<in> set rows. cv_id x = cv_id c" using assms(2) by blast
  then show ?thesis using assms
    by (auto simp: pause_conversation_def set_hold_def require_permission_def cv_set_status_def image_iff split: bool.split)
qed

text \<open>The running average of the resolution times is their mean.\<close>

lemma resolution_average_exact:
  assumes "xs \<noteq> []"
  shows "em_average_resolution_minutes (fold record_ticket_resolved xs em_init) = sum_list xs / of_nat (length xs)"
proof -
  have step: "em_resolved (record_ticket_resolved x m) = Suc (em_resolved m)"
      "em_average_resolution_minutes (record_ticket_resolved x m) * of_nat (Suc (em_resolved m))
        = em_average_resolution_minutes m * of_nat (em_resolved m) + x" for x m
    by (simp_all add: record_ticket_resolved_def Let_def)
  have n: "em_resolved (fold record_ticket_resolved ys em_init) = length ys" for ys
    by (induction ys rule: rev_induct) (simp add: em_init_def, simp add: step(1))
  have "em_average_resolution_minutes (fold record_ticket_resolved ys em_init) * of_nat (length ys) = sum_list ys" for ys
  proof (induction ys rule: rev_induct)
    case (snoc y ys)
    then show ?case using step(2) [of y "fold record_ticket_resolved ys em_init"] by (simp add: n)
  qed (simp add: em_init_def)
  then show ?thesis using assms by (metis length_0_conv nonzero_mult_div_cancel_right of_nat_eq_0_iff)
qed

section \<open>Witnesses\<close>

definition demo_esc_env :: "job_view esc_env" where
  "demo_esc_env = \<lparr>ee_post = (\<lambda>_ _ _ w. (Inr \<lparr>hp_status = 201, hp_text = [], hp_json = Inr (JObj [(''key'', JStr ''SUP-7'')])\<rparr>, w)), ee_str = (\<lambda>_. []),
     ee_store = mem_jobs id (\<lambda>v _. v) (\<lambda>_. []), ee_fresh = id, ee_channel = ''webhook'', ee_target = None, ee_adapter = None, ee_ticketing = tf_default\<rparr>"

definition demo_esc :: esc_service where
  "demo_esc = create_escalation_service demo_config None None True None None
     (Some (tf_default\<lparr>tf_adapter := ''jira'', tf_jira_url := Some ''https://j/'', tf_jira_api_token := Some ''k'', tf_jira_project_key := Some ''SUP''\<rparr>))"

definition demo_esc_args :: esc_args where
  "demo_esc_args = \<lparr>ea_session_id = ''s1'', ea_user_message = ''please help'', ea_confidence = 1/5, ea_reason = ''low'', ea_policy_action = PA_ALLOW,
     ea_history = [], ea_model_response = None, ea_attempted_resolutions = None, ea_conversation_id = None\<rparr>"

definition demo_esc_state :: "job_view esc_state" where
  "demo_esc_state = \<lparr>et_rows = [], et_queue = None, et_world = \<lparr>jv_lists = (\<lambda>_. []), jv_sched = (\<lambda>_. []), jv_keys = {}\<rparr>\<rparr>"

lemmas demo_esc_defs = demo_esc_env_def demo_esc_def demo_esc_args_def demo_esc_state_def create_escalation_service_def esc_create_handoff_def
  persist_handoff_def esc_add_def enqueue_operator_notification_def default_notification_target_def send_to_ticketing_system_def adapter_config_def
  get_ticketing_adapter_def is_configured_def jira_create_ticket_def post_ticket_def jira_read_def truthy_str_def get_or_def py_or_def tags_of_def
  to_ticket_payload_def ticket_created_def str_or_def tf_default_def Let_def

lemma demo_escalation_ref: "ref_of ''e1'' (fst (esc_create_handoff demo_esc_env 0 ''e1'' demo_esc_args demo_esc demo_esc_state)) = Some ''SUP-7''"
  by (simp add: demo_esc_defs ref_of_def)

theorem escalation_recorded_once_witness:
  "\<exists>row. et_rows (snd (snd (esc_create_handoff demo_esc_env 0 ''e1'' demo_esc_args demo_esc demo_esc_state))) = [row] \<and> er_status row = ''pending''
     \<and> er_summary row = ''please help'' \<and> er_external_ref row = Some ''SUP-7''"
proof -
  obtain r es1 st1 where e: "esc_create_handoff demo_esc_env 0 ''e1'' demo_esc_args demo_esc demo_esc_state = (r, es1, st1)" by (metis prod_cases3)
  then show ?thesis
    using escalation_recorded_once [OF _ _ e] demo_escalation_ref
    by (auto simp: demo_esc_def create_escalation_service_def demo_esc_state_def demo_esc_args_def)
qed

definition demo_op :: principal where
  "demo_op = \<lparr>pr_key_id = ''k'', pr_name = ''n'', pr_role = ''operator'', pr_tenant_id = Some ''t1'', pr_scopes = [''*'']\<rparr>"

definition demo_row :: "string \<Rightarrow> string \<Rightarrow> escalation_row" where
  "demo_row i tenant = (row_of demo_esc None (handoff_of demo_esc 0 i demo_esc_args))\<lparr>er_tenant_id := tenant\<rparr>"

theorem operators_stay_in_tenant_witness:
  "filter (\<lambda>r. er_tenant_id r \<noteq> ''t1'') (snd (assign_escalation demo_op ''a'' None [demo_row ''a'' ''t1'', demo_row ''b'' ''t2'']))
     = [demo_row ''b'' ''t2'']"
proof -
  obtain res rows1 where e: "assign_escalation demo_op ''a'' None [demo_row ''a'' ''t1'', demo_row ''b'' ''t2''] = (res, rows1)" by (metis prod.exhaust)
  have "filter (\<lambda>r. er_tenant_id r \<noteq> ''t1'') rows1 = filter (\<lambda>r. er_tenant_id r \<noteq> ''t1'') [demo_row ''a'' ''t1'', demo_row ''b'' ''t2'']"
    by (rule operators_stay_in_tenant [OF _ _ disjI1 [OF e]]) (simp_all add: demo_op_def demo_row_def)
  then show ?thesis using e by (simp add: demo_row_def)
qed

theorem operators_only_advance_witness:
  "\<exists>r1 \<in> set (snd (assign_escalation demo_op ''a'' None [demo_row ''a'' ''t1''])). er_id r1 = ''a''"
proof -
  obtain res rows1 where e: "assign_escalation demo_op ''a'' None [demo_row ''a'' ''t1''] = (res, rows1)" by (metis prod.exhaust)
  have "op_step\<^sup>*\<^sup>* [demo_row ''a'' ''t1''] rows1" using assigned [OF e] by blast
  from operators_only_advance [OF this, of "demo_row ''a'' ''t1''"] e show ?thesis by (auto simp: demo_row_def)
qed

definition demo_conversation :: conversation_row where
  "demo_conversation = \<lparr>cv_id = ''c1'', cv_tenant = ''t1'', cv_session = ''s1'', cv_status = ''active'', cv_escalated = False, cv_created_at = 0\<rparr>"

theorem held_conversation_takes_no_turn_witness:
  "\<exists>detail. fst (open_conversation 0 ''c2'' ''t1'' ''s1'' (snd (pause_conversation demo_op ''c1'' [demo_conversation]))) = Inl (Http 423 detail)"
proof -
  obtain rows1 where e: "pause_conversation demo_op ''c1'' [demo_conversation] = (Inr ''paused'', rows1)"
    by (auto simp: pause_conversation_def set_hold_def require_permission_def has_permission_def demo_op_def cv_set_status_def demo_conversation_def)
  have "\<exists>detail. open_conversation 0 ''c2'' ''t1'' ''s1'' rows1 = (Inl (Http 423 detail), rows1)"
    by (rule held_conversation_takes_no_turn(1) [where c = demo_conversation and rows = "[demo_conversation]" and actor = demo_op and s = "''paused''"])
      (use e in \<open>simp_all add: demo_conversation_def cv_get_by_session_def\<close>)
  then show ?thesis using e by auto
qed

definition demo_esc_services :: "job_view esc_state services" where
  "demo_esc_services = \<lparr>os_tenant = demo_config, os_policy = demo_rules PA_ALLOW, os_loader = sample_loader, os_model_override = None,
     os_prompt_override = None, os_surface_id = None, os_end_user_id = None, os_generate = (\<lambda>_ w. (demo_reply [], w)), os_stream = None,
     os_loads = (\<lambda>_. None), os_compact = None, os_preemptive_ratio = 7/10, os_memory = None, os_retrieve = None, os_tools = None,
     os_arg_validator = (\<lambda>_ _. []), os_tool_callback = None, os_authorizer = None, os_validator = None,
     os_escalate = Some (escalate_turn demo_esc_env 0 ''e1'' demo_esc), os_float_text = py_fixed2\<rparr>"

theorem turn_handoff_recorded_witness:
  "\<exists>row. et_rows (snd (prepare_handoff demo_esc_services
     (initial_state ''hi'' ''s1'' (Some ''c1'') [] None None []) demo_esc_state)) = [row] \<and> er_summary row = ''hi''"
proof -
  let ?st = "initial_state ''hi'' ''s1'' (Some ''c1'') [] None None []"
  obtain st1 w1 where e: "prepare_handoff demo_esc_services ?st demo_esc_state = (st1, w1)" by (metis prod.exhaust)
  show ?thesis
    using turn_handoff_recorded [OF _ _ _ e, of demo_esc "''e1''" demo_esc_env 0] e
    by (auto simp: demo_esc_services_def demo_esc_def create_escalation_service_def demo_esc_state_def initial_state_def)
qed

end
