(* ===== verification/Loop_Effects.thy ===== *)
theory Loop_Effects
  imports Orchestration
begin

text \<open>
  What a turn of the agent loop does to the world outside it: only what its services do. A property of the world that every service
  keeps is kept by the whole turn, whichever nodes it runs through and however it ends; the routes that own the services use
  it for the stores the services write to.
\<close>

section \<open>Runs\<close>

lemma run_steps_invariant:
  assumes "\<And>nd st w r w1. step nd st w = (r, w1) \<Longrightarrow> Q st \<Longrightarrow> P w \<Longrightarrow> P w1 \<and> (case r of Inr (nd1, st1) \<Rightarrow> Q st1 | Inl _ \<Rightarrow> True)"
    and "run_steps step fin n nd st w = (r, w1)" "Q st" "P w"
  shows "P w1 \<and> (case r of Inr st1 \<Rightarrow> Q st1 | Inl _ \<Rightarrow> True)"
  using assms(2-4)
proof (induction n arbitrary: nd st w)
  case (Suc n)
  obtain s w2 where s: "step nd st w = (s, w2)" by fastforce
  from assms(1) [OF s Suc.prems(2,3)] Suc.IH Suc.prems s show ?case by (auto split: if_splits sum.splits prod.splits)
qed (auto split: if_splits)

section \<open>Services that keep a property\<close>

definition on_some :: "('f \<Rightarrow> bool) \<Rightarrow> 'f option \<Rightarrow> bool" where
  "on_some Q x = (case x of None \<Rightarrow> True | Some f \<Rightarrow> Q f)"

lemma on_some_simps [simp]: "on_some Q None" "on_some Q (Some f) = Q f"
  by (simp_all add: on_some_def)

definition services_keep :: "('w \<Rightarrow> bool) \<Rightarrow> 'w services \<Rightarrow> bool" where
  "services_keep P sv \<longleftrightarrow>
     (\<forall>q w. P w \<longrightarrow> P (snd (os_generate sv q w))) \<and>
     on_some (\<lambda>f. \<forall>q w. P w \<longrightarrow> P (snd (f q w))) (os_stream sv) \<and>
     on_some (\<lambda>f. \<forall>i w. P w \<longrightarrow> P (snd (f i w))) (os_compact sv) \<and>
     on_some (\<lambda>f. \<forall>q w. P w \<longrightarrow> P (snd (f q w))) (os_memory sv) \<and>
     on_some (\<lambda>f. \<forall>q a w. P w \<longrightarrow> P (snd (f q a w))) (os_retrieve sv) \<and>
     on_some (\<lambda>reg. \<forall>n t a w. map_of reg n = Some t \<longrightarrow> P w \<longrightarrow> P (snd (ts_executor t a w))) (os_tools sv) \<and>
     on_some (\<lambda>f. \<forall>p w. P w \<longrightarrow> P (f p w)) (os_tool_callback sv) \<and>
     on_some (\<lambda>f. \<forall>c w. P w \<longrightarrow> P (snd (f c w))) (os_authorizer sv) \<and>
     on_some (\<lambda>f. \<forall>s w. P w \<longrightarrow> P (snd (f s w))) (os_validator sv) \<and>
     on_some (\<lambda>f. \<forall>st s w. P w \<longrightarrow> P (snd (f st s w))) (os_escalate sv)"

lemma keepsD:
  assumes "services_keep P sv" "P w"
  shows keeps_generate: "P (snd (os_generate sv q w))"
    and keeps_stream: "os_stream sv = Some f1 \<Longrightarrow> P (snd (f1 q w))"
    and keeps_compact: "os_compact sv = Some f2 \<Longrightarrow> P (snd (f2 i w))"
    and keeps_memory: "os_memory sv = Some f3 \<Longrightarrow> P (snd (f3 s w))"
    and keeps_retrieve: "os_retrieve sv = Some f4 \<Longrightarrow> P (snd (f4 s ss w))"
    and keeps_tool: "os_tools sv = Some reg \<Longrightarrow> map_of reg n = Some t \<Longrightarrow> P (snd (ts_executor t a w))"
    and keeps_callback: "os_tool_callback sv = Some f5 \<Longrightarrow> P (f5 p w)"
    and keeps_authorizer: "os_authorizer sv = Some f6 \<Longrightarrow> P (snd (f6 c w))"
    and keeps_validator: "os_validator sv = Some f7 \<Longrightarrow> P (snd (f7 s w))"
    and keeps_escalate: "os_escalate sv = Some f8 \<Longrightarrow> P (snd (f8 st s w))"
  using assms by (simp_all add: services_keep_def)

lemma emit_tool_part_keeps: "services_keep P sv \<Longrightarrow> P w \<Longrightarrow> P (emit_tool_part sv part w)"
  by (auto simp: emit_tool_part_def split: option.splits dest: keeps_callback)

lemma memory_facts_keeps:
  assumes "services_keep P sv" "P w" "memory_facts sv st w = (fs, w1)"
  shows "P w1"
proof (cases "os_memory sv")
  case (Some f)
  obtain r2 w2 where f: "f (ag_redacted_message st) w = (r2, w2)" by fastforce
  from keeps_memory [OF assms(1,2) Some, of "ag_redacted_message st"] f have "P w2" by simp
  with Some f assms show ?thesis by (auto simp: memory_facts_def split: if_splits sum.splits)
qed (use assms in \<open>simp add: memory_facts_def\<close>)

lemma assemble_context_keeps: "services_keep P sv \<Longrightarrow> P w \<Longrightarrow> assemble_context sv st prompt w = (r, w1) \<Longrightarrow> P w1"
  by (auto simp: assemble_context_def split: prod.splits dest: memory_facts_keeps)

lemma compact_call_keeps:
  assumes "services_keep P sv" "P w" "compact_call sv sizes ov st w = (r, w1)"
  shows "P w1"
proof (cases "os_compact sv")
  case (Some f)
  obtain r2 w2 where f: "f \<lparr>ci_tokens = sizes, ci_has_summary = (ag_summary st \<noteq> None), ci_overflow = ov\<rparr> w = (r2, w2)" by fastforce
  from keeps_compact [OF assms(1,2) Some, of "\<lparr>ci_tokens = sizes, ci_has_summary = (ag_summary st \<noteq> None), ci_overflow = ov\<rparr>"] f have "P w2" by simp
  with Some f assms show ?thesis by (auto simp: compact_call_def split: if_splits)
qed (use assms in \<open>simp add: compact_call_def\<close>)

lemma recover_overflow_keeps: "services_keep P sv \<Longrightarrow> P w \<Longrightarrow> recover_overflow sv asm st w = (r, st1, w1) \<Longrightarrow> P w1"
  by (auto simp: recover_overflow_def split: prod.splits sum.splits option.splits dest: compact_call_keeps)

lemma after_recovery_keeps: "services_keep P sv \<Longrightarrow> P w \<Longrightarrow> after_recovery e em fb (recover_overflow sv asm st w) = (r, st1, w1) \<Longrightarrow> P w1"
  by (auto simp: after_recovery_def split: prod.splits sum.splits bool.splits dest: recover_overflow_keeps)

lemma call_model_keeps:
  assumes "services_keep P sv" "P w" "call_model sv fb q w = (r, sent, fb1, w1)"
  shows "P w1"
proof (cases "os_stream sv")
  case None
  with assms keeps_generate [OF assms(1,2), of q] show ?thesis by (auto simp: call_model_def split: prod.splits)
next
  case (Some f)
  obtain es w2 where f: "f q w = (es, w2)" by fastforce
  with keeps_stream [OF assms(1,2) Some, of q] have "P w2" by simp
  moreover have "snd (snd (generate_streaming sv f q w)) = w2"
    using f by (simp add: generate_streaming_def split: prod.splits option.splits)
  then obtain r2 sent2 where "generate_streaming sv f q w = (r2, sent2, w2)" by (metis prod.collapse)
  ultimately show ?thesis using assms(3) Some keeps_generate [OF assms(1), of w2 q]
    by (auto simp: call_model_def split: prod.splits if_splits)
qed

lemma ask_model_keeps: "services_keep P sv \<Longrightarrow> P w \<Longrightarrow> ask_model sv asm c em fb st w = (r, st1, w1) \<Longrightarrow> P w1"
  by (auto simp: ask_model_def Let_def split: prod.splits sum.splits if_splits dest: call_model_keeps intro: after_recovery_keeps)

lemma generate_pass_keeps:
  assumes "services_keep P sv" "P w" "generate_pass sv prompt c em fb st w = (r, st1, w1)"
  shows "P w1"
proof -
  obtain a w2 where a: "assemble_context sv st prompt w = (a, w2)" by fastforce
  from assemble_context_keeps [OF assms(1,2) a] have w2: "P w2" .
  show ?thesis
  proof (cases a)
    case (Inl ce)
    with assms(3) a w2 show ?thesis
      by (auto simp: generate_pass_def split: turn_exc.splits if_splits intro: after_recovery_keeps [OF assms(1)])
  next
    case (Inr asm)
    obtain k w3 where k: "compact_call sv (Some (as_total_tokens asm, as_budget_tokens asm)) False st w2 = (k, w3)" by fastforce
    from compact_call_keeps [OF assms(1) w2 k] have "P w3" .
    with assms(3) a Inr w2 k show ?thesis
      by (auto simp: generate_pass_def split: if_splits sum.splits option.splits intro: ask_model_keeps [OF assms(1)])
  qed
qed

lemma generate_loop_keeps:
  assumes "services_keep P sv" "P w" "generate_loop sv prompt c em fb st w = (r, st1, w1)"
  shows "P w1"
  using assms
proof (induction sv prompt c em fb st w arbitrary: r rule: generate_loop.induct)
  case (1 sv prompt c em fb st w)
  obtain p st2 w2 where p: "generate_pass sv prompt c em fb st w = (p, st2, w2)" by (metis prod_cases3)
  from generate_pass_keeps [OF 1(2,3) p] have "P w2" .
  with 1 p show ?case by (cases p) (auto simp: generate_loop.simps [of sv prompt c em fb st w])
qed

lemma generate_response_keeps: "services_keep P sv \<Longrightarrow> P w \<Longrightarrow> generate_response sv st w = (r, w1) \<Longrightarrow> P w1"
  by (auto simp: generate_response_def split: prod.splits sum.splits turn_exc.splits dest: generate_loop_keeps)

lemma retrieve_context_keeps:
  assumes "services_keep P sv" "P w" "retrieve_context sv st w = (st1, w1)"
  shows "P w1"
proof (cases "os_retrieve sv")
  case (Some f)
  obtain r2 w2 where f: "f (ag_redacted_message st) (tn_knowledge_allowlist (os_tenant sv)) w = (r2, w2)" by fastforce
  from keeps_retrieve [OF assms(1,2) Some, of "ag_redacted_message st" "tn_knowledge_allowlist (os_tenant sv)"] f have "P w2" by simp
  with Some f assms show ?thesis by (auto simp: retrieve_context_def split: sum.splits)
qed (use assms in \<open>simp add: retrieve_context_def\<close>)

lemma authorize_tool_keeps:
  assumes "services_keep P sv" "P w" "authorize_tool sv c w = (b, w1)"
  shows "P w1"
proof (cases "os_authorizer sv")
  case (Some f)
  obtain r2 w2 where f: "f c w = (r2, w2)" by fastforce
  from keeps_authorizer [OF assms(1,2) Some, of c] f have "P w2" by simp
  with Some f assms show ?thesis by (auto simp: authorize_tool_def split: sum.splits)
qed (use assms in \<open>simp add: authorize_tool_def\<close>)

lemma execute_keeps:
  assumes "services_keep P sv" "P w" "os_tools sv = Some reg" "execute (os_arg_validator sv) reg name a w = (r, w1)"
  shows "P w1"
proof (cases "map_of reg name")
  case (Some t)
  obtain r2 w2 where f: "ts_executor t a w = (r2, w2)" by fastforce
  from keeps_tool [OF assms(1,2,3) Some, of a] f have "P w2" by simp
  with Some f assms show ?thesis by (auto simp: execute_def Let_def split: if_splits sum.splits tool_outcome.splits)
qed (use assms in \<open>simp add: execute_def\<close>)

lemma run_one_tool_keeps:
  assumes "services_keep P sv" "P w" "os_tools sv = Some reg" "run_one_tool sv reg c (st, w) = (st1, w1)"
  shows "P w1"
proof -
  obtain b w2 where a: "authorize_tool sv c (emit_tool_part sv (tool_use c) w) = (b, w2)" by fastforce
  from authorize_tool_keeps [OF assms(1) emit_tool_part_keeps [OF assms(1,2)] a] have "P w2" .
  with assms a show ?thesis
    by (auto simp: run_one_tool_def Let_def split: prod.splits if_splits json.splits
        intro: emit_tool_part_keeps execute_keeps)
qed

lemma run_tools_keeps:
  "services_keep P sv \<Longrightarrow> P w \<Longrightarrow> os_tools sv = Some reg \<Longrightarrow> fold (run_one_tool sv reg) cs (st, w) = (st1, w1) \<Longrightarrow> P w1"
proof (induction cs arbitrary: st w)
  case (Cons c cs)
  obtain st2 w2 where r: "run_one_tool sv reg c (st, w) = (st2, w2)" by fastforce
  from run_one_tool_keeps [OF Cons.prems(1-3) r] have "P w2" .
  with Cons.IH [OF Cons.prems(1) _ Cons.prems(3)] Cons.prems(4) r show ?case by simp
qed simp

lemma execute_tools_keeps: "services_keep P sv \<Longrightarrow> P w \<Longrightarrow> execute_tools sv st w = (st1, w1) \<Longrightarrow> P w1"
  by (auto simp: execute_tools_def split: option.splits if_splits prod.splits dest: run_tools_keeps)

lemma output_gate_keeps:
  assumes "services_keep P sv" "P w" "output_gate sv st w = (ok, st1, w1)"
  shows "P w1"
proof (cases "os_validator sv")
  case (Some f)
  obtain r2 w2 where f: "f (the (ag_response st)) w = (r2, w2)" by fastforce
  from keeps_validator [OF assms(1,2) Some, of "the (ag_response st)"] f have "P w2" by simp
  with Some f assms show ?thesis by (auto simp: output_gate_def split: sum.splits if_splits)
qed (use assms in \<open>simp add: output_gate_def\<close>)

lemma validate_response_keeps: "services_keep P sv \<Longrightarrow> P w \<Longrightarrow> validate_response sv st w = (st1, w1) \<Longrightarrow> P w1"
  by (auto simp: validate_response_def Let_def split: option.splits prod.splits if_splits dest: output_gate_keeps)

lemma prepare_handoff_keeps:
  assumes "services_keep P sv" "P w" "prepare_handoff sv st w = (st1, w1)"
  shows "P w1"
proof (cases "os_escalate sv")
  case (Some f)
  have "P (snd (f a s w))" for a s using keeps_escalate [OF assms(1,2) Some] .
  with Some assms(3) show ?thesis by (auto simp: prepare_handoff_def Let_def split: prod.splits sum.splits) (metis snd_conv)+
qed (use assms in \<open>simp add: prepare_handoff_def Let_def\<close>)

lemma graph_step_keeps: "services_keep P sv \<Longrightarrow> P w \<Longrightarrow> graph_step sv nd st w = (r, w1) \<Longrightarrow> P w1"
  by (cases nd)
    (auto simp: graph_step_def Let_def split: prod.splits sum.splits
      dest: retrieve_context_keeps generate_response_keeps execute_tools_keeps validate_response_keeps prepare_handoff_keeps)

lemma process_message_keeps:
  assumes "services_keep P sv" "P w" "process_message sv message session conv history summary position layers w = (r, w1)"
  shows "P w1"
proof -
  from assms(3) have "run_steps (graph_step sv) End (loop_budget sv ''max_graph_steps'' 50) ProcessInput
      (initial_state message session conv history summary position layers) w = (r, w1)" by (simp add: process_message_def run_graph_def)
  from run_steps_invariant [where Q = "\<lambda>_. True" and P = P, OF _ this] assms(2) graph_step_keeps [OF assms(1)]
  show ?thesis by (simp split: sum.splits)
qed

section \<open>The output check of the final state\<close>

text \<open>With a validator that never refuses, no state of a turn records a refused output.\<close>

definition unrefused :: "agent_state \<Rightarrow> bool" where
  "unrefused st \<longleftrightarrow> ag_output_allowed st \<noteq> Some False"

abbreviation same_check :: "agent_state \<Rightarrow> agent_state \<Rightarrow> bool" where
  "same_check st st1 \<equiv> ag_output_allowed st1 = ag_output_allowed st"

lemma consume_note_check [simp]: "same_check st (consume_note st)"
  by (simp add: consume_note_def)

lemma recover_overflow_check: "recover_overflow sv asm st w = (r, st1, w1) \<Longrightarrow> same_check st st1"
  by (auto simp: recover_overflow_def take_checkpoint_def split: prod.splits sum.splits option.splits)

lemma after_recovery_check: "after_recovery e em fb (recover_overflow sv asm st w) = (r, st1, w1) \<Longrightarrow> same_check st st1"
  by (auto simp: after_recovery_def split: prod.splits sum.splits bool.splits dest: recover_overflow_check)

lemma ask_model_check: "ask_model sv asm c em fb st w = (r, st1, w1) \<Longrightarrow> same_check st st1"
  by (auto simp: ask_model_def Let_def split: prod.splits sum.splits if_splits dest!: after_recovery_check)

lemma generate_pass_check: "generate_pass sv prompt c em fb st w = (r, st1, w1) \<Longrightarrow> same_check st st1"
  by (auto simp: generate_pass_def take_checkpoint_def split: prod.splits sum.splits turn_exc.splits if_splits option.splits
      dest!: after_recovery_check ask_model_check)

lemma generate_loop_check: "generate_loop sv prompt c em fb st w = (r, st1, w1) \<Longrightarrow> same_check st st1"
proof (induction sv prompt c em fb st w arbitrary: r rule: generate_loop.induct)
  case (1 sv prompt c em fb st w)
  obtain p st2 w2 where p: "generate_pass sv prompt c em fb st w = (p, st2, w2)" by (metis prod_cases3)
  from generate_pass_check [OF p] 1 p show ?case by (cases p) (auto simp: generate_loop.simps [of sv prompt c em fb st w])
qed

lemma run_tools_check: "fold (run_one_tool sv reg) cs (st, w) = (st1, w1) \<Longrightarrow> same_check st st1"
proof (induction cs arbitrary: st w)
  case (Cons c cs)
  obtain st2 w2 where r: "run_one_tool sv reg c (st, w) = (st2, w2)" by fastforce
  then have "same_check st st2" by (auto simp: run_one_tool_def Let_def split: prod.splits)
  with Cons.IH [of st2 w2] Cons.prems r show ?case by simp
qed simp

definition never_refuses :: "'w services \<Rightarrow> bool" where
  "never_refuses sv \<longleftrightarrow> on_some (\<lambda>f. \<forall>s w. case fst (f s w) of Inr c \<Rightarrow> oc_allowed c | Inl _ \<Rightarrow> True) (os_validator sv)"

lemma output_gate_unrefused:
  assumes "never_refuses sv" "unrefused st" "output_gate sv st w = (ok, st1, w1)"
  shows "ok \<and> unrefused st1"
proof (cases "os_validator sv")
  case (Some f)
  obtain c w2 where f: "f (the (ag_response st)) w = (c, w2)" by fastforce
  have "case fst (f (the (ag_response st)) w) of Inr c \<Rightarrow> oc_allowed c | Inl _ \<Rightarrow> True"
    using assms(1) Some by (simp add: never_refuses_def)
  with assms(2,3) Some f show ?thesis by (auto simp: output_gate_def unrefused_def split: sum.splits if_splits)
qed (use assms in \<open>simp add: output_gate_def\<close>)

lemma validate_response_unrefused:
  "never_refuses sv \<Longrightarrow> unrefused st \<Longrightarrow> validate_response sv st w = (st1, w1) \<Longrightarrow> unrefused st1"
  by (auto simp: validate_response_def Let_def unrefused_def split: option.splits prod.splits if_splits
      dest!: output_gate_unrefused [unfolded unrefused_def, rotated 2])

lemma graph_step_unrefused:
  assumes "never_refuses sv" "unrefused st" "graph_step sv nd st w = (Inr (nd1, st1), w1)"
  shows "unrefused st1"
proof (cases nd)
  case GenerateResponse
  with assms show ?thesis
    by (auto simp: graph_step_def generate_response_def unrefused_def split: prod.splits sum.splits turn_exc.splits dest!: generate_loop_check)
next
  case ExecuteTools
  with assms show ?thesis
    by (auto simp: graph_step_def execute_tools_def unrefused_def split: prod.splits option.splits if_splits dest!: run_tools_check)
next
  case ValidateOutput
  with assms show ?thesis by (auto simp: graph_step_def split: prod.splits intro: validate_response_unrefused)
next
  case CheckPolicy
  with assms show ?thesis by (auto simp: graph_step_def check_policy_def unrefused_def Let_def split: prod.splits if_splits)
next
  case PrepareHandoff
  with assms show ?thesis
    by (auto simp: graph_step_def prepare_handoff_def unrefused_def Let_def split: prod.splits option.splits sum.splits)
qed (use assms in \<open>auto simp: graph_step_def process_input_def retrieve_context_def unrefused_def split: prod.splits option.splits sum.splits\<close>)

lemma process_message_unrefused:
  assumes "never_refuses sv" "process_message sv message session conv history summary position layers w = (Inr st, w1)"
  shows "unrefused st"
proof -
  from assms(2) have "run_steps (graph_step sv) End (loop_budget sv ''max_graph_steps'' 50) ProcessInput
      (initial_state message session conv history summary position layers) w = (Inr st, w1)" by (simp add: process_message_def run_graph_def)
  moreover have "graph_step sv nd st w = (r, w1) \<Longrightarrow> unrefused st \<Longrightarrow> True \<Longrightarrow> True \<and> (case r of Inr (nd1, st1) \<Rightarrow> unrefused st1 | Inl _ \<Rightarrow> True)"
    for nd st w r w1 using graph_step_unrefused [OF assms(1)] by (auto split: sum.splits)
  moreover have "unrefused (initial_state message session conv history summary position layers)" by (simp add: initial_state_def unrefused_def)
  ultimately show ?thesis
    using run_steps_invariant [where Q = unrefused and P = "\<lambda>_. True" and step = "graph_step sv"] by fastforce
qed

end
