(* ===== verification/Cache_Manager.thy ===== *)
theory Cache_Manager
  imports Breakers Redis_Iface
begin

text \<open>
  The shared cache (\<open>infrastructure/cache/manager.py\<close>) and the idempotency guard on top of it
  (\<open>infrastructure/patterns/idempotency.py\<close>). Every Redis command runs inside the circuit breaker; when it is refused or raises, the
  entry in the process's own dictionary is used. The client's commands are a parameter with their laws over a view of the keys: a value
  and its remaining time to live, \<^const>\<open>None\<close> for a key that never expires. SHA-256 is a parameter. Health checks, the
  computing wrapper and the scan that deletes by prefix are left out.
\<close>

section \<open>Definitions\<close>

subsection \<open>The client\<close>

record 'w cache_client =
  cl_get :: "string \<Rightarrow> (json option, 'w) rcmd"
  cl_setex :: "string \<Rightarrow> int \<Rightarrow> json \<Rightarrow> (unit, 'w) rcmd"
  cl_delete :: "string \<Rightarrow> (int, 'w) rcmd"
  cl_exists :: "string \<Rightarrow> (int, 'w) rcmd"
  cl_incrby :: "string \<Rightarrow> int \<Rightarrow> (int, 'w) rcmd"
  cl_setnx :: "string \<Rightarrow> string \<Rightarrow> (bool, 'w) rcmd"
  cl_expire :: "string \<Rightarrow> int \<Rightarrow> (unit, 'w) rcmd"

type_synonym cached_keys = "string \<Rightarrow> (json \<times> int option) option"

text \<open>What the command reference says of a command that returns.\<close>

definition client_laws :: "'w cache_client \<Rightarrow> ('w \<Rightarrow> cached_keys) \<Rightarrow> bool" where
  "client_laws C view \<longleftrightarrow>
     (\<forall>k w v w'. cl_get C k w = (Some v, w') \<longrightarrow> view w' = view w \<and> v = map_option fst (view w k)) \<and>
     (\<forall>k t v w u w'. cl_setex C k t v w = (Some u, w') \<longrightarrow> view w' = (view w)(k \<mapsto> (v, Some t))) \<and>
     (\<forall>k n w m w'. cl_incrby C k n w = (Some m, w') \<longrightarrow>
        (case view w k of None \<Rightarrow> m = n \<and> view w' = (view w)(k \<mapsto> (JInt m, None))
         | Some (JInt i, ttl) \<Rightarrow> m = i + n \<and> view w' = (view w)(k \<mapsto> (JInt m, ttl))
         | Some _ \<Rightarrow> False))"

subsection \<open>The manager\<close>

record cache_entry =
  ce_value :: json
  ce_ttl :: int
  ce_stored_at :: time

record cache_manager =
  cx_connected :: bool
  cx_prefix :: string
  cx_default_ttl :: int
  cx_breaker_config :: cb_config
  cx_breaker :: circuit_breaker
  cx_local :: "(string \<times> cache_entry) list"

definition cx_init :: "bool \<Rightarrow> cache_manager" where
  "cx_init up =
     \<lparr>cx_connected = up, cx_prefix = ''neryva:'', cx_default_ttl = 3600,
      cx_breaker_config = cb_default_config\<lparr>cbc_name := ''cache'', cbc_failure_threshold := 3, cbc_recovery_timeout := 15\<rparr>,
      cx_breaker = cb_init, cx_local = []\<rparr>"

definition cx_key :: "cache_manager \<Rightarrow> string \<Rightarrow> string" where
  "cx_key cm k = cx_prefix cm @ k"

text \<open>A command inside the breaker: \<^const>\<open>Some\<close> when it returned. The two clock readings are the breaker's.\<close>

definition cx_call :: "time \<Rightarrow> ('a, 'w) rcmd \<Rightarrow> cache_manager \<Rightarrow> 'w \<Rightarrow> 'a option \<times> cache_manager \<times> 'w" where
  "cx_call now cmd cm w =
     (if cx_connected cm
      then case cb_call (cx_breaker_config cm) now now
                  (\<lambda>w. case cmd w of (None, w1) \<Rightarrow> (Inl (), w1) | (Some x, w1) \<Rightarrow> (Inr x, w1)) (cx_breaker cm) w of
             (Returned x, b, w1) \<Rightarrow> (Some x, cm\<lparr>cx_breaker := b\<rparr>, w1)
           | (_, b, w1) \<Rightarrow> (None, cm\<lparr>cx_breaker := b\<rparr>, w1)
      else (None, cm, w))"

text \<open>\<open>_redis_get\<close>: a key that is not there raises \<open>CacheMiss\<close>.\<close>

definition redis_get :: "'w cache_client \<Rightarrow> string \<Rightarrow> (json, 'w) rcmd" where
  "redis_get C k w = (case cl_get C k w of (Some (Some v), w1) \<Rightarrow> (Some v, w1) | (_, w1) \<Rightarrow> (None, w1))"

definition local_get :: "cache_manager \<Rightarrow> string \<Rightarrow> json \<Rightarrow> json" where
  "local_get cm k d = (case map_of (cx_local cm) k of None \<Rightarrow> d | Some e \<Rightarrow> ce_value e)"

definition cache_get :: "'w cache_client \<Rightarrow> time \<Rightarrow> string \<Rightarrow> json \<Rightarrow> cache_manager \<Rightarrow> 'w \<Rightarrow> json \<times> cache_manager \<times> 'w" where
  "cache_get C now k d cm w =
     (case cx_call now (redis_get C (cx_key cm k)) cm w of
        (Some v, cm1, w1) \<Rightarrow> (if v = JNull then d else v, cm1, w1)
      | (None, cm1, w1) \<Rightarrow> (local_get cm1 k d, cm1, w1))"

definition cache_set ::
  "'w cache_client \<Rightarrow> time \<Rightarrow> string \<Rightarrow> json \<Rightarrow> int option \<Rightarrow> cache_manager \<Rightarrow> 'w \<Rightarrow> bool \<times> cache_manager \<times> 'w" where
  "cache_set C now k v ttl cm w =
     (let t = get_or ttl (cx_default_ttl cm)
      in case cx_call now (cl_setex C (cx_key cm k) t v) cm w of
           (Some _, cm1, w1) \<Rightarrow> (True, cm1, w1)
         | (None, cm1, w1) \<Rightarrow>
             (True, cm1\<lparr>cx_local := AList.update k \<lparr>ce_value = v, ce_ttl = t, ce_stored_at = now\<rparr> (cx_local cm1)\<rparr>, w1))"

definition cache_delete :: "'w cache_client \<Rightarrow> time \<Rightarrow> string \<Rightarrow> cache_manager \<Rightarrow> 'w \<Rightarrow> bool \<times> cache_manager \<times> 'w" where
  "cache_delete C now k cm w =
     (case cx_call now (cl_delete C (cx_key cm k)) cm w of
        (Some _, cm1, w1) \<Rightarrow> (True, cm1, w1)
      | (None, cm1, w1) \<Rightarrow> (map_of (cx_local cm1) k \<noteq> None, cm1\<lparr>cx_local := AList.delete k (cx_local cm1)\<rparr>, w1))"

definition cache_exists :: "'w cache_client \<Rightarrow> time \<Rightarrow> string \<Rightarrow> cache_manager \<Rightarrow> 'w \<Rightarrow> bool \<times> cache_manager \<times> 'w" where
  "cache_exists C now k cm w =
     (case cx_call now (cl_exists C (cx_key cm k)) cm w of
        (Some n, cm1, w1) \<Rightarrow> (n \<noteq> 0, cm1, w1)
      | (None, cm1, w1) \<Rightarrow> (map_of (cx_local cm1) k \<noteq> None, cm1, w1))"

definition cache_increment :: "'w cache_client \<Rightarrow> time \<Rightarrow> string \<Rightarrow> int \<Rightarrow> cache_manager \<Rightarrow> 'w \<Rightarrow> int option \<times> cache_manager \<times> 'w" where
  "cache_increment C now k amount cm w = cx_call now (cl_incrby C (cx_key cm k) amount) cm w"

text \<open>
  \<open>acquire_lock\<close> does not use the breaker. The pause between two attempts awaits \<open>time.sleep\<close>, which returns None: the
  first attempt that fails raises a TypeError.
\<close>

datatype lock_outcome = LockError | AwaitNone | LockTaken bool

definition acquire_lock :: "'w cache_client \<Rightarrow> string \<Rightarrow> int \<Rightarrow> nat \<Rightarrow> cache_manager \<Rightarrow> 'w \<Rightarrow> lock_outcome \<times> 'w" where
  "acquire_lock C k ttl max_retries cm w =
     (if \<not> cx_connected cm then (LockTaken True, w)
      else if max_retries = 0 then (LockTaken False, w)
      else let key = cx_key cm k @ '':lock''
           in case cl_setnx C key ''1'' w of
                (None, w1) \<Rightarrow> (LockError, w1)
              | (Some True, w1) \<Rightarrow> (case cl_expire C key ttl w1 of (None, w2) \<Rightarrow> (LockError, w2) | (Some _, w2) \<Rightarrow> (LockTaken True, w2))
              | (Some False, w1) \<Rightarrow> (AwaitNone, w1))"

definition release_lock :: "'w cache_client \<Rightarrow> string \<Rightarrow> cache_manager \<Rightarrow> 'w \<Rightarrow> bool \<times> 'w" where
  "release_lock C k cm w =
     (if cx_connected cm then case cl_delete C (cx_key cm k @ '':lock'') w of (r, w1) \<Rightarrow> (r \<noteq> None, w1) else (True, w))"

subsection \<open>The idempotency guard\<close>

definition idempotency_ttl :: int where
  "idempotency_ttl = 86400"

definition idem_key :: "(string \<Rightarrow> string) \<Rightarrow> string \<Rightarrow> string \<Rightarrow> string" where
  "idem_key sha key scope = (if scope \<noteq> [] then ''idem:'' @ scope @ '':'' @ sha key else ''idem:'' @ sha key)"

text \<open>The stored document as status code and body.\<close>

definition stored_response :: "json \<Rightarrow> (json \<times> json) option" where
  "stored_response v = (case v of JObj kvs \<Rightarrow> map_option (\<lambda>s. (s, get_or (map_of kvs ''body'') JNull)) (map_of kvs ''status_code'') | _ \<Rightarrow> None)"

definition get_response ::
  "(string \<Rightarrow> string) \<Rightarrow> 'w cache_client \<Rightarrow> time \<Rightarrow> string \<Rightarrow> string \<Rightarrow> cache_manager \<Rightarrow> 'w \<Rightarrow> (json \<times> json) option \<times> cache_manager \<times> 'w" where
  "get_response sha C now key scope cm w =
     (case cache_get C now (idem_key sha key scope) JNull cm w of
        (v, cm1, w1) \<Rightarrow>
          if v = JNull then (None, cm1, w1)
          else case stored_response v of
                 Some r \<Rightarrow> (Some r, cm1, w1)
               | None \<Rightarrow> (None, snd (cache_delete C now (idem_key sha key scope) cm1 w1)))"

definition store_response ::
  "(string \<Rightarrow> string) \<Rightarrow> 'w cache_client \<Rightarrow> time \<Rightarrow> string \<Rightarrow> int \<Rightarrow> json \<Rightarrow> string \<Rightarrow> cache_manager \<Rightarrow> 'w \<Rightarrow> cache_manager \<times> 'w" where
  "store_response sha C now key status body scope cm w =
     snd (cache_set C now (idem_key sha key scope) (JObj [(''status_code'', JInt status), (''body'', body)]) (Some idempotency_ttl) cm w)"

section \<open>Lemmas\<close>

definition breaker_closed :: "cache_manager \<Rightarrow> bool" where
  "breaker_closed cm \<longleftrightarrow> cb_state (cx_breaker cm) = CLOSED"

lemma cx_call_local [simp]: "\<not> cx_connected cm \<Longrightarrow> cx_call now cmd cm w = (None, cm, w)"
  by (simp add: cx_call_def)

lemma cx_call_returns:
  assumes "cx_connected cm" "breaker_closed cm" "cmd w = (Some x, w1)"
  shows "cx_call now cmd cm w = (Some x, cm\<lparr>cx_breaker := (cx_breaker cm)\<lparr>cb_failure_count := 0\<rparr>\<rparr>, w1)"
  using assms by (simp add: cx_call_def cb_call_def cb_enter_def breaker_closed_def cb_record_success_def Let_def)

lemma cx_call_raises:
  assumes "cx_connected cm" "breaker_closed cm" "cmd w = (None, w1)"
  shows "cx_call now cmd cm w = (None, cm\<lparr>cx_breaker := cb_record_failure (cx_breaker_config cm) now (cx_breaker cm)\<rparr>, w1)"
  using assms by (simp add: cx_call_def cb_call_def cb_enter_def breaker_closed_def Let_def)

lemma cx_call_refused:
  assumes "cb_state (cx_breaker cm) = OPEN" "now - cb_last_failure_time (cx_breaker cm) < cbc_recovery_timeout (cx_breaker_config cm)"
  shows "cx_call now cmd cm w = (None, cm, w)"
  using assms by (simp add: cx_call_def cb_call_def cb_enter_def Let_def)

lemma client_get: "client_laws C view \<Longrightarrow> cl_get C k w = (Some v, w') \<Longrightarrow> view w' = view w \<and> v = map_option fst (view w k)"
  unfolding client_laws_def by blast

lemma client_setex: "client_laws C view \<Longrightarrow> cl_setex C k t v w = (Some u, w') \<Longrightarrow> view w' = (view w)(k \<mapsto> (v, Some t))"
  unfolding client_laws_def by blast

lemma client_incrby:
  assumes "client_laws C view" "cl_incrby C k n w = (Some m, w')"
  shows "case view w k of None \<Rightarrow> m = n \<and> view w' = (view w)(k \<mapsto> (JInt m, None))
         | Some (JInt i, ttl) \<Rightarrow> m = i + n \<and> view w' = (view w)(k \<mapsto> (JInt m, ttl))
         | Some _ \<Rightarrow> False"
  using assms unfolding client_laws_def by blast

text \<open>What a lookup of a stored key gives, in the process's own dictionary and in Redis.\<close>

lemma local_roundtrip: "v \<noteq> JNull \<Longrightarrow> \<not> cx_connected cm \<Longrightarrow>
   cache_set C now k v ttl cm w = (b, cm1, w1) \<Longrightarrow> fst (cache_get C later k d cm1 w1) = v \<and> \<not> cx_connected cm1"
  by (auto simp: cache_set_def cache_get_def local_get_def Let_def update_conv')

lemma redis_roundtrip:
  assumes "client_laws C view" "cx_connected cm" "breaker_closed cm" "v \<noteq> JNull"
    and "\<And>k t v u. fst (cl_setex C k t v u) \<noteq> None" "\<And>k u. fst (cl_get C k u) \<noteq> None"
    and s: "cache_set C now k v ttl cm w = (b, cm1, w1)"
  shows "fst (cache_get C later k d cm1 w1) = v \<and> view w1 (cx_key cm k) = Some (v, Some (get_or ttl (cx_default_ttl cm)))"
proof -
  obtain w2 where e: "cl_setex C (cx_key cm k) (get_or ttl (cx_default_ttl cm)) v w = (Some (), w2)"
    using assms(5) [of "cx_key cm k" "get_or ttl (cx_default_ttl cm)" v w] by (metis eq_fst_iff old.unit.exhaust option.exhaust)
  from cx_call_returns [OF assms(2,3), of "cl_setex C (cx_key cm k) (get_or ttl (cx_default_ttl cm)) v", OF e] s
  have 1: "cm1 = cm\<lparr>cx_breaker := (cx_breaker cm)\<lparr>cb_failure_count := 0\<rparr>\<rparr>" "w1 = w2" by (auto simp: cache_set_def Let_def)
  from client_setex [OF assms(1) e] 1 have v: "view w1 (cx_key cm k) = Some (v, Some (get_or ttl (cx_default_ttl cm)))" by simp
  obtain r w3 where g: "cl_get C (cx_key cm k) w1 = (Some r, w3)" using assms(6) [of "cx_key cm k" w1] by (metis eq_fst_iff option.exhaust)
  from client_get [OF assms(1) g] v have "redis_get C (cx_key cm k) w1 = (Some v, w3)" by (simp add: redis_get_def g)
  moreover have "cx_connected cm1" "breaker_closed cm1" "cx_key cm1 k = cx_key cm k"
    using 1 assms(2,3) by (simp_all add: breaker_closed_def cx_key_def)
  ultimately have "fst (cache_get C later k d cm1 w1) = v"
    using cx_call_returns [of cm1 "redis_get C (cx_key cm k)" w1 v w3 later] assms(4) by (simp add: cache_get_def)
  with v show ?thesis by simp
qed

section \<open>Properties\<close>

text \<open>A response stored under a key and scope is replayed for them, whether the process runs on its own dictionary or Redis answers and the
  breaker is closed.\<close>

theorem stored_response_replayed:
  assumes "client_laws C view"
    and "\<not> cx_connected cm \<or> breaker_closed cm \<and> (\<forall>k t v u. fst (cl_setex C k t v u) \<noteq> None) \<and> (\<forall>k u. fst (cl_get C k u) \<noteq> None)"
    and s: "store_response sha C now key status body scope cm w = (cm1, w1)"
  shows "fst (get_response sha C later key scope cm1 w1) = Some (JInt status, body)"
proof -
  let ?v = "JObj [(''status_code'', JInt status), (''body'', body)]"
  obtain b where e: "cache_set C now (idem_key sha key scope) ?v (Some idempotency_ttl) cm w = (b, cm1, w1)"
    using s by (metis store_response_def prod.collapse)
  have "fst (cache_get C later (idem_key sha key scope) JNull cm1 w1) = ?v"
  proof (cases "cx_connected cm")
    case True
    with assms(1,2) redis_roundtrip [OF assms(1) True _ _ _ _ e] show ?thesis by auto
  next
    case False
    with local_roundtrip [OF _ False e] show ?thesis by simp
  qed
  then show ?thesis by (auto simp: get_response_def stored_response_def get_or_def split: prod.splits)
qed

text \<open>Keys of different scopes never collide, and within a scope only keys with the same digest do: digests have 64 characters and
  scopes are not empty.\<close>

theorem idempotency_scopes_disjoint:
  assumes "\<And>s. length (sha s) = 64" and "scope1 \<noteq> []" and "scope2 \<noteq> []" and "idem_key sha k1 scope1 = idem_key sha k2 scope2"
  shows "scope1 = scope2 \<and> sha k1 = sha k2"
proof -
  from assms(2-4) have "(scope1 @ '':'') @ sha k1 = (scope2 @ '':'') @ sha k2" by (simp add: idem_key_def)
  moreover have "length (sha k1) = length (sha k2)" using assms(1) by simp
  ultimately show ?thesis by (metis append_eq_append_conv append1_eq_conv)
qed

text \<open>A lookup of a key that is not there counts as a failure of Redis: a run of misses as long as the breaker's
  threshold opens it although every command answered, and the next write goes to the process's own dictionary.\<close>

fun miss_run :: "'w cache_client \<Rightarrow> (time \<times> string) list \<Rightarrow> cache_manager \<Rightarrow> 'w \<Rightarrow> cache_manager \<times> 'w" where
  "miss_run C [] cm w = (cm, w)"
| "miss_run C ((t, k) # ks) cm w = (case cache_get C t k JNull cm w of (_, cm1, w1) \<Rightarrow> miss_run C ks cm1 w1)"

lemma one_miss:
  assumes "cx_connected cm" "breaker_closed cm" "fst (redis_get C (cx_key cm k) w) = None" "map_of (cx_local cm) k = None"
  shows "cache_get C now k d cm w
     = (d, cm\<lparr>cx_breaker := cb_record_failure (cx_breaker_config cm) now (cx_breaker cm)\<rparr>, snd (redis_get C (cx_key cm k) w))"
proof -
  have "redis_get C (cx_key cm k) w = (None, snd (redis_get C (cx_key cm k) w))" using assms(3) by (simp add: prod_eq_iff)
  from cx_call_raises [OF assms(1,2), of "redis_get C (cx_key cm k)", OF this, of now] assms(4) show ?thesis by (simp add: cache_get_def local_get_def)
qed

lemma misses_open_breaker:
  assumes "client_laws C view" "\<And>k u. fst (cl_get C k u) \<noteq> None"
    and "cx_connected cm" "breaker_closed cm" "ks \<noteq> []" "cx_local cm = []"
    and "\<forall>(t, k) \<in> set ks. view w (cx_key cm k) = None"
    and "cb_failure_count (cx_breaker cm) + int (length ks) = cbc_failure_threshold (cx_breaker_config cm)"
  shows "case miss_run C ks cm w of (cm', w') \<Rightarrow> cb_state (cx_breaker cm') = OPEN \<and> cb_last_failure_time (cx_breaker cm') = fst (last ks)
     \<and> cx_breaker_config cm' = cx_breaker_config cm \<and> cx_local cm' = [] \<and> cx_connected cm' \<and> view w' = view w"
  using assms(3-8)
proof (induction ks arbitrary: cm w)
  case (Cons tk ks)
  obtain t k where tk: "tk = (t, k)" by fastforce
  let ?b = "cb_record_failure (cx_breaker_config cm) t (cx_breaker cm)"
  obtain r w1 where g: "cl_get C (cx_key cm k) w = (Some r, w1)" using assms(2) [of "cx_key cm k" w] by (metis eq_fst_iff option.exhaust)
  with client_get [OF assms(1) g] Cons.prems(5) tk have m: "redis_get C (cx_key cm k) w = (None, w1)" and v: "view w1 = view w"
    by (auto simp: redis_get_def)
  have e: "cache_get C t k JNull cm w = (JNull, cm\<lparr>cx_breaker := ?b\<rparr>, w1)"
    using one_miss [OF Cons.prems(1,2), of C k w t JNull] m Cons.prems(4) by simp
  show ?case
  proof (cases "ks = []")
    case True
    with Cons.prems e tk v show ?thesis by (auto simp: cb_record_failure_def breaker_closed_def Let_def)
  next
    case False
    then have "\<not> cbc_failure_threshold (cx_breaker_config cm) \<le> cb_failure_count (cx_breaker cm) + 1"
      using Cons.prems(6) by (cases ks) simp_all
    with Cons.prems have b: "cb_state ?b = CLOSED" "cb_failure_count ?b = cb_failure_count (cx_breaker cm) + 1"
      by (auto simp: cb_record_failure_def breaker_closed_def Let_def)
    have "case miss_run C ks (cm\<lparr>cx_breaker := ?b\<rparr>) w1 of (cm', w') \<Rightarrow> cb_state (cx_breaker cm') = OPEN
       \<and> cb_last_failure_time (cx_breaker cm') = fst (last ks) \<and> cx_breaker_config cm' = cx_breaker_config (cm\<lparr>cx_breaker := ?b\<rparr>)
       \<and> cx_local cm' = [] \<and> cx_connected cm' \<and> view w' = view w1"
      using Cons.prems False b v by (intro Cons.IH) (auto simp: breaker_closed_def cx_key_def)
    with e tk False v show ?thesis by simp
  qed
qed simp

theorem misses_divert_writes:
  assumes "client_laws C view" and "\<And>k u. fst (cl_get C k u) \<noteq> None"
    and "cx_connected cm" and "breaker_closed cm" and "ks \<noteq> []" and "cx_local cm = []"
    and "\<forall>(t, k) \<in> set ks. view w (cx_key cm k) = None"
    and "cb_failure_count (cx_breaker cm) + int (length ks) = cbc_failure_threshold (cx_breaker_config cm)"
    and "now - fst (last ks) < cbc_recovery_timeout (cx_breaker_config cm)"
  shows "case miss_run C ks cm w of (cm', w') \<Rightarrow>
     (case cache_set C now k v ttl cm' w' of (_, cm'', w'') \<Rightarrow> view w'' = view w \<and> map_of (cx_local cm'') k \<noteq> None)"
proof -
  obtain cm' w' where r: "miss_run C ks cm w = (cm', w')" by fastforce
  with misses_open_breaker [OF assms(1-8)] have m: "cb_state (cx_breaker cm') = OPEN" "cb_last_failure_time (cx_breaker cm') = fst (last ks)"
    "cx_breaker_config cm' = cx_breaker_config cm" "view w' = view w" by auto
  then have "cx_call now (cl_setex C (cx_key cm' k) (get_or ttl (cx_default_ttl cm')) v) cm' w' = (None, cm', w')"
    using assms(9) by (intro cx_call_refused) simp_all
  with r m(4) show ?thesis by (simp add: cache_set_def Let_def update_conv')
qed

text \<open>An entry of the process's own dictionary never expires and outlives newer values: whenever Redis has no value for the key, the old entry is returned, and its
  time to live is never looked at.\<close>

theorem local_entry_never_expires:
  assumes "map_of (cx_local cm) k = Some e" and "fst (redis_get C (cx_key cm k) w) = None"
  shows "fst (cache_get C later k d cm w) = ce_value e"
proof -
  have "case cx_call later (redis_get C (cx_key cm k)) cm w of (r, cm1, w1) \<Rightarrow> r = None \<and> cx_local cm1 = cx_local cm"
    using assms(2) by (auto simp: cx_call_def cb_call_def cb_enter_def Let_def split: prod.splits sum.splits option.splits if_splits)
  with assms(1) show ?thesis by (auto simp: cache_get_def local_get_def split: prod.splits)
qed

text \<open>A lock that another process holds makes the caller fail with a TypeError instead of waiting.\<close>

theorem contended_lock_raises:
  assumes "cx_connected cm" and "0 < n" and "fst (cl_setnx C (cx_key cm k @ '':lock'') ''1'' w) = Some False"
  shows "fst (acquire_lock C k ttl n cm w) = AwaitNone"
  using assms by (auto simp: acquire_lock_def Let_def split: prod.splits option.splits bool.splits)

section \<open>Witnesses\<close>

text \<open>A client over an association list.\<close>

type_synonym kv = "(string \<times> json \<times> int option) list"

definition mem_client :: "kv cache_client" where
  "mem_client =
     \<lparr>cl_get = (\<lambda>k s. (Some (map_option fst (map_of s k)), s)),
      cl_setex = (\<lambda>k t v s. (Some (), (k, v, Some t) # s)),
      cl_delete = (\<lambda>k s. (Some (if map_of s k = None then 0 else 1), filter (\<lambda>e. fst e \<noteq> k) s)),
      cl_exists = (\<lambda>k s. (Some (if map_of s k = None then 0 else 1), s)),
      cl_incrby = (\<lambda>k n s. case map_of s k of None \<Rightarrow> (Some n, (k, JInt n, None) # s)
         | Some (JInt i, ttl) \<Rightarrow> (Some (i + n), (k, JInt (i + n), ttl) # s) | Some _ \<Rightarrow> (None, s)),
      cl_setnx = (\<lambda>k v s. if map_of s k = None then (Some True, (k, JStr v, None) # s) else (Some False, s)),
      cl_expire = (\<lambda>k t s. (Some (), case map_of s k of None \<Rightarrow> s | Some (v, _) \<Rightarrow> (k, v, Some t) # s))\<rparr>"

lemma mem_client_laws: "client_laws mem_client map_of"
  by (auto simp: client_laws_def mem_client_def split: option.splits json.splits prod.splits)

theorem stored_response_replayed_witness:
  "case store_response (\<lambda>s. s) mem_client 0 ''k'' 200 (JStr ''hi'') ''conv:acme'' (cx_init True) [] of (cm, w) \<Rightarrow>
     fst (get_response (\<lambda>s. s) mem_client 1 ''k'' ''conv:acme'' cm w) = Some (JInt 200, JStr ''hi'')"
proof -
  obtain cm w where e: "store_response (\<lambda>s. s) mem_client 0 ''k'' 200 (JStr ''hi'') ''conv:acme'' (cx_init True) [] = (cm, w)" by fastforce
  have "fst (get_response (\<lambda>s. s) mem_client 1 ''k'' ''conv:acme'' cm w) = Some (JInt 200, JStr ''hi'')"
    by (rule stored_response_replayed [OF mem_client_laws _ e]) (simp add: breaker_closed_def cx_init_def cb_init_def mem_client_def)
  with e show ?thesis by simp
qed

theorem idempotency_scopes_disjoint_witness:
  "idem_key (\<lambda>s. replicate 64 CHR ''a'') ''k'' ''conv:a'' \<noteq> idem_key (\<lambda>s. replicate 64 CHR ''a'') ''k'' ''conv:b''"
  using idempotency_scopes_disjoint [of "\<lambda>s. replicate 64 CHR ''a''" "''conv:a''" "''conv:b''" "''k''" "''k''"] by auto

theorem misses_divert_writes_witness:
  "case miss_run mem_client [(0, ''a''), (1, ''b''), (2, ''c'')] (cx_init True) [] of (cm', w') \<Rightarrow>
     (case cache_set mem_client 3 ''d'' (JInt 1) None cm' w' of (_, cm'', w'') \<Rightarrow> map_of w'' = Map.empty \<and> map_of (cx_local cm'') ''d'' \<noteq> None)"
  using misses_divert_writes [OF mem_client_laws, of "cx_init True" "[(0, ''a''), (1, ''b''), (2, ''c'')]" "[]" 3 "''d''" "JInt 1" None]
  by (simp add: mem_client_def cx_init_def breaker_closed_def cb_init_def cb_default_config_def)

theorem local_entry_never_expires_witness:
  "let cm = (cx_init True)\<lparr>cx_local := [(''k'', \<lparr>ce_value = JInt 1, ce_ttl = 60, ce_stored_at = 0\<rparr>)]\<rparr>
   in fst (cache_get mem_client 1000000 ''k'' JNull cm []) = JInt 1"
  using local_entry_never_expires [of "(cx_init True)\<lparr>cx_local := [(''k'', \<lparr>ce_value = JInt 1, ce_ttl = 60, ce_stored_at = 0\<rparr>)]\<rparr>" "''k''"
      "\<lparr>ce_value = JInt 1, ce_ttl = 60, ce_stored_at = 0\<rparr>" mem_client "[]" 1000000 JNull]
  by (simp add: redis_get_def mem_client_def Let_def)

theorem contended_lock_raises_witness:
  "fst (acquire_lock mem_client ''job'' 30 10 (cx_init True) [(''neryva:job:lock'', JStr ''1'', None)]) = AwaitNone"
  by (rule contended_lock_raises) (simp_all add: cx_init_def mem_client_def cx_key_def)

end
