(* ===== verification/Model_Access.thy ===== *)
theory Model_Access
  imports Cache_Manager Auth Governance
begin

text \<open>
  What a tenant's turn is generated with: the tenant's model catalog (\<open>modules/model_catalog/service.py\<close>,
  \<open>ModelCatalogRepository\<close>, the routes of \<open>api/routes/model_catalog.py\<close> and \<open>_resolve_catalog_model\<close> of the conversation route), and the versioned prompts
  with their split of the sessions (\<open>application/prompts/service.py\<close>, \<open>PromptRepository\<close>, \<open>api/routes/prompts.py\<close>). Prices are rationals;
  the database sorts texts by character; SHA-256 of a seed as a number is a parameter.
\<close>

section \<open>Definitions\<close>

subsection \<open>The catalog table\<close>

record catalog_row =
  mc_id :: string
  mc_tenant :: string
  mc_provider :: string
  mc_model :: string
  mc_enabled :: bool
  mc_ceiling :: rat
  mc_order :: int

text \<open>A second row for the same pair violates a unique constraint (\<^const>\<open>None\<close>).\<close>

definition mc_create :: "string \<Rightarrow> string \<Rightarrow> string \<Rightarrow> string \<Rightarrow> rat \<Rightarrow> int \<Rightarrow> catalog_row list \<Rightarrow> catalog_row list option" where
  "mc_create uid tenant provider model price order rows =
     (if \<exists>r \<in> set rows. mc_tenant r = tenant \<and> mc_provider r = provider \<and> mc_model r = model then None
      else Some (rows @ [\<lparr>mc_id = uid, mc_tenant = tenant, mc_provider = provider, mc_model = model, mc_enabled = True, mc_ceiling = price,
                          mc_order = order\<rparr>]))"

definition mc_list_by_tenant :: "string \<Rightarrow> catalog_row list \<Rightarrow> catalog_row list" where
  "mc_list_by_tenant tenant rows = py_sorted (\<lambda>r. (mc_order r, mc_model r)) (filter (\<lambda>r. mc_tenant r = tenant) rows)"

definition mc_set_enabled :: "string \<Rightarrow> string \<Rightarrow> bool \<Rightarrow> catalog_row list \<Rightarrow> catalog_row option \<times> catalog_row list" where
  "mc_set_enabled eid tenant on rows =
     (let rows1 = map (\<lambda>r. if mc_id r = eid \<and> mc_tenant r = tenant then r\<lparr>mc_enabled := on\<rparr> else r) rows
      in (find (\<lambda>r. mc_id r = eid \<and> mc_tenant r = tenant) rows1, rows1))"

definition mc_delete :: "string \<Rightarrow> string \<Rightarrow> catalog_row list \<Rightarrow> bool \<times> catalog_row list" where
  "mc_delete eid tenant rows =
     (let gone = (\<lambda>r. mc_id r = eid \<and> mc_tenant r = tenant) in (list_ex gone rows, filter (\<lambda>r. \<not> gone r) rows))"

subsection \<open>Allowlist and ceiling\<close>

datatype model_error = ModelNotAllowed string string string | CostCeilingExceeded string string rat rat

definition resolve_model :: "catalog_row list \<Rightarrow> string \<Rightarrow> string \<Rightarrow> string \<Rightarrow> model_error + string \<times> string" where
  "resolve_model rows tenant provider model =
     (let entries = mc_list_by_tenant tenant rows; enabled = filter mc_enabled entries
      in if entries = [] then Inr (provider, model)
         else if list_ex (\<lambda>e. mc_provider e = provider \<and> mc_model e = model) enabled then Inr (provider, model)
         else case py_sorted mc_order enabled of
                [] \<Rightarrow> Inl (ModelNotAllowed provider model tenant)
              | e # _ \<Rightarrow> Inr (mc_provider e, mc_model e))"

definition estimate_tokens :: "string list \<Rightarrow> int" where
  "estimate_tokens texts = max 1 (int (sum_list (map length texts)) div 4)"

definition cost_key :: "string \<Rightarrow> string \<Rightarrow> string \<Rightarrow> string" where
  "cost_key tenant provider model = ''modelcost:'' @ tenant @ '':'' @ provider @ '':'' @ model"

text \<open>\<open>await cache.get(key, 0) or 0\<close> as a number.\<close>

definition as_number :: "json \<Rightarrow> rat" where
  "as_number v = (case v of JInt n \<Rightarrow> of_int n | JNum x \<Rightarrow> x | _ \<Rightarrow> 0)"

definition check_cost_ceiling ::
  "'w cache_client \<Rightarrow> time \<Rightarrow> catalog_row list \<Rightarrow> string \<Rightarrow> string \<Rightarrow> string \<Rightarrow> int \<Rightarrow> cache_manager \<Rightarrow> 'w
     \<Rightarrow> (model_error + unit) \<times> cache_manager \<times> 'w" where
  "check_cost_ceiling C now rows tenant provider model tokens cm w =
     (case find (\<lambda>e. mc_enabled e \<and> mc_provider e = provider \<and> mc_model e = model) (mc_list_by_tenant tenant rows) of
        None \<Rightarrow> (Inr (), cm, w)
      | Some e \<Rightarrow>
          if mc_ceiling e \<le> 0 then (Inr (), cm, w)
          else let key = cost_key tenant provider model; increment = of_int tokens / 1000 * mc_ceiling e
               in case cache_increment C now key \<lfloor>increment * 1000\<rfloor> cm w of
                    (Some _, cm1, w1) \<Rightarrow>
                      (case cache_get C now key (JInt 0) cm1 w1 of
                         (v, cm2, w2) \<Rightarrow>
                           (let used = as_number v / 1000
                            in if mc_ceiling e < used then (Inl (CostCeilingExceeded provider model (mc_ceiling e) used), cm2, w2)
                               else (Inr (), snd (cache_set C now key (if v = JNull then JInt 0 else v) (Some 86400) cm2 w2))))
                  | (None, cm1, w1) \<Rightarrow>
                      (case cache_get C now key (JInt 0) cm1 w1 of
                         (v, cm2, w2) \<Rightarrow>
                           (let used = (as_number v + increment * 1000) / 1000
                            in if mc_ceiling e < used then (Inl (CostCeilingExceeded provider model (mc_ceiling e) used), cm2, w2)
                               else (Inr (), snd (cache_set C now key (JNum (as_number v + increment * 1000)) (Some 86400) cm2 w2)))))"

text \<open>\<open>_resolve_catalog_model\<close>; \<open>fmt\<close> is \<open>f"{x:.4f}"\<close>.\<close>

definition model_error_text :: "(rat \<Rightarrow> string) \<Rightarrow> model_error \<Rightarrow> string" where
  "model_error_text fmt e = (case e of
       ModelNotAllowed p m t \<Rightarrow> ''model '' @ [CHR 39] @ p @ ''/'' @ m @ [CHR 39] @ '' is not in tenant '' @ [CHR 39] @ t @ [CHR 39] @ '' catalog''
     | CostCeilingExceeded p m c u \<Rightarrow> ''cost ceiling exceeded for '' @ [CHR 39] @ p @ ''/'' @ m @ [CHR 39] @ '': used '' @ fmt u @ '' of '' @ fmt c
         @ '' (USD, rolling window)'')"

definition resolve_catalog_model ::
  "(rat \<Rightarrow> string) \<Rightarrow> 'w cache_client \<Rightarrow> time \<Rightarrow> catalog_row list \<Rightarrow> tenant_config \<Rightarrow> string \<Rightarrow> cache_manager \<Rightarrow> 'w
     \<Rightarrow> (http_error + string \<times> string option) \<times> cache_manager \<times> 'w" where
  "resolve_catalog_model fmt C now rows tc message cm w =
     (case resolve_model rows (tn_id tc) (tn_default_provider tc) (tn_default_model tc) of
        Inl e \<Rightarrow> (Inl (Http 403 (model_error_text fmt e)), cm, w)
      | Inr (provider, model) \<Rightarrow>
          (case check_cost_ceiling C now rows (tn_id tc) provider model (estimate_tokens [message]) cm w of
             (Inl e, cm1, w1) \<Rightarrow> (Inl (Http 429 (model_error_text fmt e)), cm1, w1)
           | (Inr _, cm1, w1) \<Rightarrow> (Inr (provider, if model \<noteq> tn_default_model tc then Some model else None), cm1, w1)))"

text \<open>The routes; the guards in the order of the code.\<close>

definition add_model_catalog_entry ::
  "principal \<Rightarrow> string \<Rightarrow> string \<Rightarrow> string \<Rightarrow> string \<Rightarrow> string \<Rightarrow> rat \<Rightarrow> int \<Rightarrow> catalog_row list \<Rightarrow> (http_error + unit) \<times> catalog_row list" where
  "add_model_catalog_entry actor uid tenant body_tenant provider model price order rows =
     (case require_permission ''tenants:write'' actor of
        Inl e \<Rightarrow> (Inl e, rows)
      | Inr _ \<Rightarrow>
          (case assert_tenant_access actor (TextArg tenant) of
             Inl e \<Rightarrow> (Inl e, rows)
           | Inr _ \<Rightarrow>
               if body_tenant \<noteq> tenant then (Inl (Http 422 ''tenant_id in body must match the path''), rows)
               else case mc_create uid tenant provider model price order rows of
                      None \<Rightarrow> (Inl (Http 500 ''Internal Server Error''), rows)
                    | Some rows1 \<Rightarrow> (Inr (), rows1)))"

definition delete_model_catalog_entry ::
  "principal \<Rightarrow> string \<Rightarrow> string \<Rightarrow> catalog_row list \<Rightarrow> (http_error + unit) \<times> catalog_row list" where
  "delete_model_catalog_entry actor tenant eid rows =
     (case require_permission ''tenants:write'' actor of
        Inl e \<Rightarrow> (Inl e, rows)
      | Inr _ \<Rightarrow>
          (case assert_tenant_access actor (TextArg tenant) of
             Inl e \<Rightarrow> (Inl e, rows)
           | Inr _ \<Rightarrow> (case mc_delete eid tenant rows of
                          (True, rows1) \<Rightarrow> (Inr (), rows1)
                        | (False, rows1) \<Rightarrow> (Inl (Http 404 ''Catalog entry not found''), rows1))))"

subsection \<open>Prompts\<close>

record prompt_row =
  pv_tenant :: string
  pv_name :: string
  pv_version :: int
  pv_content :: string
  pv_enabled :: bool
  pv_share :: int

definition prompt_versions :: "string \<Rightarrow> string \<Rightarrow> prompt_row list \<Rightarrow> prompt_row list" where
  "prompt_versions tenant name rows = filter (\<lambda>r. pv_tenant r = tenant \<and> pv_name r = name) rows"

definition pv_list_by_tenant :: "string \<Rightarrow> prompt_row list \<Rightarrow> prompt_row list" where
  "pv_list_by_tenant tenant rows = py_sorted (\<lambda>r. (pv_name r, pv_version r)) (filter (\<lambda>r. pv_tenant r = tenant) rows)"

definition pv_list_versions :: "string \<Rightarrow> string \<Rightarrow> prompt_row list \<Rightarrow> prompt_row list" where
  "pv_list_versions tenant name rows = py_sorted_desc pv_version (prompt_versions tenant name rows)"

definition enabled_variants :: "string \<Rightarrow> string \<Rightarrow> prompt_row list \<Rightarrow> prompt_row list" where
  "enabled_variants tenant name rows = filter pv_enabled (prompt_versions tenant name rows)"

definition pv_get :: "string \<Rightarrow> string \<Rightarrow> int \<Rightarrow> prompt_row list \<Rightarrow> prompt_row option" where
  "pv_get tenant name v rows = find (\<lambda>r. pv_version r = v) (prompt_versions tenant name rows)"

definition next_version :: "string \<Rightarrow> string \<Rightarrow> prompt_row list \<Rightarrow> int" where
  "next_version tenant name rows = (case map pv_version (prompt_versions tenant name rows) of [] \<Rightarrow> 0 | v # vs \<Rightarrow> fold max vs v) + 1"

text \<open>The number is read in one transaction and written in another, \<open>between\<close> is the table by then; a number that has been taken violates the unique constraint.\<close>

definition pv_create :: "string \<Rightarrow> string \<Rightarrow> string \<Rightarrow> prompt_row list \<Rightarrow> prompt_row list \<Rightarrow> (prompt_row \<times> prompt_row list) option" where
  "pv_create tenant name content rows between =
     (let v = next_version tenant name rows;
          r = \<lparr>pv_tenant = tenant, pv_name = name, pv_version = v, pv_content = content, pv_enabled = False, pv_share = 0\<rparr>
      in if pv_get tenant name v between \<noteq> None then None else Some (r, between @ [r]))"

datatype prompt_error = BadPercentage

definition set_active :: "string \<Rightarrow> string \<Rightarrow> int \<Rightarrow> bool \<Rightarrow> int \<Rightarrow> prompt_row list \<Rightarrow> prompt_error + prompt_row option \<times> prompt_row list" where
  "set_active tenant name v on share rows =
     (if on \<and> \<not> (0 \<le> share \<and> share \<le> 100) then Inl BadPercentage
      else let rows1 = map (\<lambda>r. if pv_tenant r = tenant \<and> pv_name r = name \<and> pv_version r = v
                              then r\<lparr>pv_enabled := on, pv_share := (if on then share else 0)\<rparr> else r) rows
           in Inr (pv_get tenant name v rows1, rows1))"

definition delete_version :: "string \<Rightarrow> string \<Rightarrow> int \<Rightarrow> prompt_row list \<Rightarrow> bool \<times> prompt_row list" where
  "delete_version tenant name v rows =
     (let gone = (\<lambda>r. pv_tenant r = tenant \<and> pv_name r = name \<and> pv_version r = v) in (list_ex gone rows, filter (\<lambda>r. \<not> gone r) rows))"

fun pick_variant :: "int \<Rightarrow> int \<Rightarrow> prompt_row list \<Rightarrow> prompt_row option" where
  "pick_variant bucket cumulative [] = None"
| "pick_variant bucket cumulative (r # rs) =
     (if pv_share r \<le> 0 then pick_variant bucket cumulative rs
      else if bucket < cumulative + pv_share r then Some r
      else pick_variant bucket (cumulative + pv_share r) rs)"

definition resolve_prompt_variant :: "(string \<Rightarrow> nat) \<Rightarrow> prompt_row list \<Rightarrow> string \<Rightarrow> prompt_row option" where
  "resolve_prompt_variant sha rows seed = pick_variant (int (sha seed) mod 100) 0 (py_sorted pv_version rows)"

text \<open>\<open>_build_prompt_resolver\<close>: the override of the system prompt and its label.\<close>

definition build_prompt_resolver :: "(string \<Rightarrow> nat) \<Rightarrow> prompt_row list \<Rightarrow> string \<Rightarrow> string \<Rightarrow> (string \<times> string) option" where
  "build_prompt_resolver sha rows tenant session =
     map_option (\<lambda>r. (pv_content r, pv_name r @ '':v'' @ py_str_int (pv_version r)))
       (resolve_prompt_variant sha (enabled_variants tenant ''system'' rows) (tenant @ '':'' @ session))"

section \<open>Lemmas\<close>

lemma mc_list_members: "e \<in> set (mc_list_by_tenant tenant rows) \<longleftrightarrow> e \<in> set rows \<and> mc_tenant e = tenant"
  by (auto simp: mc_list_by_tenant_def)

lemma sorted_head_least:
  assumes "py_sorted f xs = e # es"
  shows "e \<in> set xs \<and> (\<forall>x \<in> set xs. f e \<le> f x)"
proof -
  have "sorted (map f (e # es))" "set (e # es) = set xs"
    using assms by (metis py_sorted_def sorted_sort_key, metis set_py_sorted)
  then show ?thesis by auto
qed

text \<open>The buckets that pick a row, in bands.\<close>

definition shares :: "prompt_row list \<Rightarrow> int" where
  "shares rs = sum_list (map (\<lambda>r. max 0 (pv_share r)) rs)"

lemma shares_nonneg: "0 \<le> shares rs"
  by (induction rs) (simp_all add: shares_def)

lemma pick_band:
  assumes "distinct rs" "c \<le> b"
  shows "pick_variant b c rs = Some r \<longleftrightarrow>
     (\<exists>before after. rs = before @ r # after \<and> c + shares before \<le> b \<and> b < c + shares before + pv_share r)"
  using assms
proof (induction rs arbitrary: c)
  case (Cons x rs)
  have split: "(\<exists>before after. x # rs = before @ r # after \<and> P before) \<longleftrightarrow>
      (x = r \<and> P []) \<or> (\<exists>before after. rs = before @ r # after \<and> P (x # before))" for P :: "prompt_row list \<Rightarrow> bool"
    by (auto simp: Cons_eq_append_conv)
  let ?n = "if pv_share x \<le> 0 then c else c + pv_share x"
  have n: "?n = c + max 0 (pv_share x)" by simp
  show ?case
  proof (cases "?n \<le> b")
    case True
    then have "pick_variant b c (x # rs) = pick_variant b ?n rs" by auto
    moreover have "\<not> (x = r \<and> b < c + pv_share r)" using True Cons.prems by (auto split: if_splits)
    ultimately show ?thesis using Cons.IH [of ?n] Cons.prems True n unfolding split
      by (simp add: shares_def add.assoc) blast
  next
    case False
    then have x: "0 < pv_share x" "b < c + pv_share x" using Cons.prems by (auto split: if_splits)
    then have "pick_variant b c (x # rs) = Some x" by simp
    moreover have "\<not> c + shares (x # before) \<le> b" for before
      using x shares_nonneg [of before] by (simp add: shares_def)
    ultimately show ?thesis using x Cons.prems unfolding split by (auto simp: shares_def)
  qed
qed simp

lemma count_band: "0 \<le> lo \<Longrightarrow> 0 \<le> s \<Longrightarrow> lo + s \<le> 100 \<Longrightarrow> card {b :: int. 0 \<le> b \<and> b < 100 \<and> lo \<le> b \<and> b < lo + s} = nat s"
proof -
  assume "0 \<le> lo" "0 \<le> s" "lo + s \<le> 100"
  then have "{b :: int. 0 \<le> b \<and> b < 100 \<and> lo \<le> b \<and> b < lo + s} = {lo ..< lo + s}" by auto
  then show ?thesis by simp
qed

lemma takeWhile_split: "x \<notin> set a \<Longrightarrow> takeWhile (\<lambda>y. y \<noteq> x) (a @ x # b) = a"
  by (induction a) auto

lemma distinct_split: "distinct xs \<Longrightarrow> xs = a @ x # b \<Longrightarrow> xs = a' @ x # b' \<Longrightarrow> a = a'"
proof -
  assume d: "distinct xs" and x: "xs = a @ x # b" and x': "xs = a' @ x # b'"
  from d x have "takeWhile (\<lambda>y. y \<noteq> x) xs = a" by (simp add: takeWhile_split)
  moreover from d x' have "takeWhile (\<lambda>y. y \<noteq> x) xs = a'" by (simp add: takeWhile_split)
  ultimately show "a = a'" by simp
qed

lemma cost_key_prefix [simp]: "cx_key cm k = cx_prefix cm @ k"
  by (simp add: cx_key_def)

section \<open>Properties\<close>

text \<open>The model a turn runs on is one the tenant's catalog allows: with entries in the catalog it is an enabled entry of the tenant, the
  requested one when that is enabled and otherwise one of the least fallback order; only a tenant without any enabled
  entry is refused, and an empty catalog allows everything.\<close>

theorem resolved_model_is_allowed:
  "case resolve_model rows tenant provider model of
     Inr (p, m) \<Rightarrow>
       (\<nexists>e. e \<in> set rows \<and> mc_tenant e = tenant) \<and> (p, m) = (provider, model)
       \<or> (\<exists>e \<in> set rows. mc_tenant e = tenant \<and> mc_enabled e \<and> mc_provider e = p \<and> mc_model e = m
            \<and> ((p, m) = (provider, model) \<or> (\<forall>e' \<in> set rows. mc_tenant e' = tenant \<and> mc_enabled e' \<longrightarrow> mc_order e \<le> mc_order e')))
   | Inl e \<Rightarrow> e = ModelNotAllowed provider model tenant \<and> (\<exists>e \<in> set rows. mc_tenant e = tenant)
       \<and> (\<forall>e \<in> set rows. mc_tenant e = tenant \<longrightarrow> \<not> mc_enabled e)"
proof -
  let ?l = "mc_list_by_tenant tenant rows"
  consider (none) "?l = []" | (asked) "?l \<noteq> []" "list_ex (\<lambda>e. mc_provider e = provider \<and> mc_model e = model) (filter mc_enabled ?l)"
    | (other) "?l \<noteq> []" "\<not> list_ex (\<lambda>e. mc_provider e = provider \<and> mc_model e = model) (filter mc_enabled ?l)" by blast
  then show ?thesis
  proof cases
    case none
    then have "\<nexists>e. e \<in> set rows \<and> mc_tenant e = tenant" using mc_list_members [of _ tenant rows] by auto
    with none show ?thesis by (simp add: resolve_model_def Let_def)
  next
    case asked
    then show ?thesis by (auto simp: resolve_model_def Let_def list_ex_iff mc_list_members)
  next
    case other
    show ?thesis
    proof (cases "py_sorted mc_order (filter mc_enabled ?l)")
      case Nil
      then have "set (filter mc_enabled ?l) = {}" by (metis set_py_sorted set_empty)
      moreover from other(1) obtain e where "e \<in> set ?l" by (cases ?l) auto
      ultimately show ?thesis using other Nil mc_list_members [of _ tenant rows] by (auto simp: resolve_model_def Let_def)
    next
      case (Cons e es)
      from sorted_head_least [OF Cons] other Cons show ?thesis
        by (auto simp: resolve_model_def Let_def mc_list_members)
    qed
  qed
qed

text \<open>The configured ceiling has no influence on which requests it refuses: the cost is estimated with the ceiling itself as the
  price, so that, in a process without Redis, a request is refused exactly when the tokens counted so far and its own exceed one thousand, whatever the ceiling.\<close>

theorem ceiling_is_a_thousand_tokens:
  assumes "\<not> cx_connected cm" and "find (\<lambda>e. mc_enabled e \<and> mc_provider e = p \<and> mc_model e = m) (mc_list_by_tenant tenant rows) = Some e"
    and "0 < mc_ceiling e" and "as_number (local_get cm (cost_key tenant p m) (JInt 0)) = of_int counted * mc_ceiling e"
  shows "case check_cost_ceiling C now rows tenant p m tokens cm w of
     (Inl _, cm', _) \<Rightarrow> 1000 < counted + tokens \<and> cm' = cm
   | (Inr _, cm', _) \<Rightarrow> counted + tokens \<le> 1000
       \<and> as_number (local_get cm' (cost_key tenant p m) (JInt 0)) = of_int (counted + tokens) * mc_ceiling e"
proof -
  have "mc_ceiling e < (of_int counted * mc_ceiling e + of_int tokens / 1000 * mc_ceiling e * 1000) / 1000 \<longleftrightarrow>
      mc_ceiling e * 1000 < mc_ceiling e * of_int (counted + tokens)" by (simp add: field_simps)
  also have "\<dots> \<longleftrightarrow> 1000 < counted + tokens" using assms(3) by (simp add: mult_less_cancel_left_pos) linarith
  finally show ?thesis
    using assms by (auto simp: check_cost_ceiling_def cache_increment_def cache_get_def cache_set_def Let_def local_get_def as_number_def
        update_conv' field_simps split: option.splits json.splits)
qed

text \<open>With Redis the first request that exceeds a ceiling is refused for good: its increment created a counter without a time to live, the refusal comes before
  the one is set, and every later request finds the counter above the ceiling.\<close>

theorem refusal_is_permanent:
  assumes "client_laws C view" and "cx_connected cm" and "breaker_closed cm"
    and "\<And>k n u. view u k = None \<Longrightarrow> fst (cl_incrby C k n u) \<noteq> None" and "\<And>k u. fst (cl_get C k u) \<noteq> None"
    and "find (\<lambda>e. mc_enabled e \<and> mc_provider e = p \<and> mc_model e = m) (mc_list_by_tenant tenant rows) = Some e" and "0 < mc_ceiling e"
    and "view w (cx_key cm (cost_key tenant p m)) = None"
    and "mc_ceiling e * 1000 < of_int \<lfloor>of_int tokens * mc_ceiling e\<rfloor>"
  shows "case check_cost_ceiling C now rows tenant p m tokens cm w of
     (r, cm', w') \<Rightarrow> (\<exists>err. r = Inl err) \<and> view w' (cx_key cm (cost_key tenant p m)) = Some (JInt \<lfloor>of_int tokens * mc_ceiling e\<rfloor>, None)"
proof -
  let ?k = "cx_key cm (cost_key tenant p m)" and ?n = "\<lfloor>of_int tokens * mc_ceiling e\<rfloor>"
  obtain i w1 where i: "cl_incrby C ?k ?n w = (Some i, w1)" using assms(4) [OF assms(8), of ?n] by (metis eq_fst_iff option.exhaust)
  with client_incrby [OF assms(1) i] assms(8) have v1: "view w1 = (view w)(?k \<mapsto> (JInt ?n, None))" by simp
  let ?cm = "cm\<lparr>cx_breaker := (cx_breaker cm)\<lparr>cb_failure_count := 0\<rparr>\<rparr>"
  have inc: "cache_increment C now (cost_key tenant p m) ?n cm w = (Some i, ?cm, w1)"
    using cx_call_returns [OF assms(2,3), of "cl_incrby C ?k ?n", OF i] by (simp add: cache_increment_def)
  obtain r w2 where g: "cl_get C ?k w1 = (Some r, w2)" using assms(5) [of ?k w1] by (metis eq_fst_iff option.exhaust)
  with client_get [OF assms(1) g] v1 have "redis_get C ?k w1 = (Some (JInt ?n), w2)" and v2: "view w2 = view w1" by (auto simp: redis_get_def)
  with cx_call_returns [of ?cm "redis_get C ?k" w1 "JInt ?n" w2 now] assms(2,3)
  obtain cm2 where get: "cache_get C now (cost_key tenant p m) (JInt 0) ?cm w1 = (JInt ?n, cm2, w2)"
    by (simp add: cache_get_def breaker_closed_def)
  have "(of_int tokens / 1000 * mc_ceiling e) * 1000 = of_int tokens * mc_ceiling e" by simp
  then show ?thesis using assms(6,7,9) inc get v1 v2
    by (simp add: check_cost_ceiling_def Let_def as_number_def field_simps)
qed

text \<open>Each enabled variant of a prompt gets exactly its share of the hundred buckets as long as the shares add up to at most a hundred; a session's bucket never
  changes, so it keeps its variant.\<close>

theorem variants_split_sessions:
  assumes "distinct rows" and "shares rows \<le> 100" and "r \<in> set rows" and "0 \<le> pv_share r"
  shows "card {b. 0 \<le> b \<and> b < 100 \<and> pick_variant b 0 (py_sorted pv_version rows) = Some r} = nat (pv_share r)"
proof -
  let ?rs = "py_sorted pv_version rows"
  have d: "distinct ?rs" using assms(1) by (simp add: py_sorted_def)
  have t: "shares ?rs = shares rows" unfolding shares_def by (simp flip: sum_mset_sum_list)
  from assms(3) obtain a b where s: "?rs = a @ r # b" by (metis set_py_sorted split_list)
  have "(\<exists>before after. ?rs = before @ r # after \<and> 0 + shares before \<le> i \<and> i < 0 + shares before + pv_share r)
      \<longleftrightarrow> shares a \<le> i \<and> i < shares a + pv_share r" for i
    using s by (auto dest: distinct_split [OF d s])
  then have "{i. 0 \<le> i \<and> i < 100 \<and> pick_variant i 0 ?rs = Some r} = {i. 0 \<le> i \<and> i < 100 \<and> shares a \<le> i \<and> i < shares a + pv_share r}"
    using pick_band [OF d] by auto
  moreover have "shares a + pv_share r \<le> 100"
    using t s assms(2,4) shares_nonneg [of b] by (simp add: shares_def)
  ultimately show ?thesis using count_band [of "shares a" "pv_share r"] shares_nonneg [of a] assms(4) by simp
qed

text \<open>The number of a deleted newest version is given out again, so that one label \<open>name:vN\<close> can stand for two texts.\<close>

theorem version_number_reused:
  assumes "pv_create tenant name c1 rows rows = Some (r1, rows1)" and "delete_version tenant name (pv_version r1) rows1 = (b, rows2)"
  shows "\<exists>r2 rows3. pv_create tenant name c2 rows2 rows2 = Some (r2, rows3) \<and> pv_version r2 = pv_version r1"
proof -
  from assms(1) have r1: "rows1 = rows @ [r1]" "pv_version r1 = next_version tenant name rows" "pv_tenant r1 = tenant" "pv_name r1 = name"
    and fresh: "pv_get tenant name (next_version tenant name rows) rows = None"
    by (auto simp: pv_create_def Let_def split: if_splits)
  then have "rows2 = filter (\<lambda>r. \<not> (pv_tenant r = tenant \<and> pv_name r = name \<and> pv_version r = pv_version r1)) rows"
    using assms(2) by (auto simp: delete_version_def Let_def)
  also have "\<dots> = rows" using fresh r1(2)
    by (intro filter_True) (auto simp: pv_get_def prompt_versions_def find_None_iff)
  finally show ?thesis using fresh r1(2) by (simp add: pv_create_def Let_def)
qed

section \<open>Witnesses\<close>

definition demo_entry :: catalog_row where
  "demo_entry = \<lparr>mc_id = ''e1'', mc_tenant = ''t'', mc_provider = ''openai'', mc_model = ''gpt'', mc_enabled = True, mc_ceiling = 5, mc_order = 0\<rparr>"

lemma demo_entry_found:
  "find (\<lambda>e. mc_enabled e \<and> mc_provider e = ''openai'' \<and> mc_model e = ''gpt'') (mc_list_by_tenant ''t'' [demo_entry]) = Some demo_entry"
  by (simp add: mc_list_by_tenant_def py_sorted_def demo_entry_def)

theorem resolved_model_is_allowed_witness:
  "resolve_model [demo_entry] ''t'' ''anthropic'' ''claude'' = Inr (''openai'', ''gpt'')"
  using resolved_model_is_allowed [where rows = "[demo_entry]" and tenant = "''t''" and provider = "''anthropic''" and model = "''claude''"]
  by (auto simp: demo_entry_def split: sum.splits prod.splits)

theorem ceiling_is_a_thousand_tokens_witness:
  "case check_cost_ceiling mem_client 0 [demo_entry] ''t'' ''openai'' ''gpt'' 1001 (cx_init False) [] of (Inl _, _) \<Rightarrow> True | _ \<Rightarrow> False"
  using ceiling_is_a_thousand_tokens [OF _ demo_entry_found, where cm = "cx_init False" and counted = 0 and C = mem_client and now = 0 and tokens = 1001 and w = "[]"]
  by (auto simp: cx_init_def local_get_def as_number_def demo_entry_def split: prod.splits sum.splits)

theorem refusal_is_permanent_witness:
  "case check_cost_ceiling mem_client 0 [demo_entry] ''t'' ''openai'' ''gpt'' 1001 (cx_init True) [] of
     (r, _, w') \<Rightarrow> (\<exists>err. r = Inl err) \<and> map_of w' (cx_key (cx_init True) (cost_key ''t'' ''openai'' ''gpt'')) = Some (JInt 5005, None)"
  using refusal_is_permanent [OF mem_client_laws, where cm = "cx_init True" and p = "''openai''" and m = "''gpt''" and tenant = "''t''"
      and rows = "[demo_entry]" and e = demo_entry and w = "[]" and tokens = 1001 and now = 0] demo_entry_found
  by (simp add: cx_init_def breaker_closed_def cb_init_def mem_client_def demo_entry_def)

definition demo_prompt :: "int \<Rightarrow> int \<Rightarrow> prompt_row" where
  "demo_prompt v s = \<lparr>pv_tenant = ''t'', pv_name = ''system'', pv_version = v, pv_content = ''hi'', pv_enabled = True, pv_share = s\<rparr>"

theorem variants_split_sessions_witness:
  "card {b. 0 \<le> b \<and> b < 100 \<and> pick_variant b 0 (py_sorted pv_version [demo_prompt 1 30, demo_prompt 2 70]) = Some (demo_prompt 2 70)} = 70"
  using variants_split_sessions [of "[demo_prompt 1 30, demo_prompt 2 70]" "demo_prompt 2 70"] by (simp add: demo_prompt_def shares_def)

theorem version_number_reused_witness:
  "\<exists>r2 rows3. pv_create ''t'' ''system'' ''b'' [] [] = Some (r2, rows3) \<and> pv_version r2 = 1"
proof -
  have c: "pv_create ''t'' ''system'' ''a'' [] []
      = Some (\<lparr>pv_tenant = ''t'', pv_name = ''system'', pv_version = 1, pv_content = ''a'', pv_enabled = False, pv_share = 0\<rparr>,
          [\<lparr>pv_tenant = ''t'', pv_name = ''system'', pv_version = 1, pv_content = ''a'', pv_enabled = False, pv_share = 0\<rparr>])"
    by (simp add: pv_create_def next_version_def prompt_versions_def pv_get_def Let_def)
  have d: "delete_version ''t'' ''system'' (pv_version \<lparr>pv_tenant = ''t'', pv_name = ''system'', pv_version = 1, pv_content = ''a'', pv_enabled = False, pv_share = 0\<rparr>)
      [\<lparr>pv_tenant = ''t'', pv_name = ''system'', pv_version = 1, pv_content = ''a'', pv_enabled = False, pv_share = 0\<rparr>] = (True, [])"
    by (simp add: delete_version_def Let_def)
  from version_number_reused [OF c d, of "''b''"] show ?thesis by simp
qed

end
