(* ===== verification/Turn_Route.thy ===== *)
theory Turn_Route
  imports Escalation Loop_Effects Guardrails Session_Context Session_Limits Config_Versions Model_Access Thread_Mutation
begin

text \<open>
  The whole request of a turn, \<open>POST /conversations\<close> (\<open>api/routes/conversations.py\<close>): \<open>process_conversation\<close> with the hooks it hands to
  the agent loop (persisting tool parts, the tool gate, output validation, compaction, escalation), composed of the components' own
  operations on one state. \<open>uuid4()\<close> draws the next text of \<open>tv_uuid\<close>. How a wait for the thread's lease or for admission ends depends on
  other requests and is an argument; the leases and permits this request holds are part of the state. The gateway, retrieval,
  memory and the tools act on the rest of the world as given by \<open>tv_base\<close>; spans, logs and citations are left out.
\<close>

section \<open>State\<close>

text \<open>
  A row that \<open>ConversationRepository.add_message\<close> writes. It lies in the same table as the rows of the thread log,
  without tenant, thread, number and end user. The constructor takes the metadata under the name \<open>metadata\<close>, which is not the
  mapped attribute: the column keeps its default, the empty object.
\<close>

record conv_message =
  vm_conversation :: string
  vm_role :: string
  vm_content :: string
  vm_redacted :: "string option"
  vm_metadata :: jobj

record 'w turn_world =
  tw_uid :: nat
  tw_cache :: cache_manager
  tw_limiter :: rate_limiter
  tw_policies :: "policy_set list"
  tw_convs :: "conversation_row list"
  tw_projection :: "conv_message list"
  tw_threads :: thread_db
  tw_breaker :: compaction_breaker
  tw_tails :: tail_cache
  tw_guards :: registry
  tw_denials :: "tool_authorization list"
  tw_decisions :: "(string \<times> policy_action \<times> bool) list"
  tw_escalations :: "escalation_row list"
  tw_queue :: queue_manager
  tw_hooks :: webhook_db
  tw_rollouts :: rollouts
  tw_leases :: "(string \<times> string) list"
  tw_permits :: "string list"
  tw_rest :: 'w

record 'w turn_env =
  tv_now :: time
  tv_uuid :: "nat \<Rightarrow> string"
  tv_sha :: "string \<Rightarrow> string"
  tv_hash16 :: "string \<Rightarrow> nat"
  tv_fmt4 :: "rat \<Rightarrow> string"
  tv_client :: "'w cache_client"
  tv_redis :: "'w redis"
  tv_jobs :: "'w job_store"
  tv_desk :: "'w esc_env"
  tv_tenant :: "string \<Rightarrow> tenant_payload option"
  tv_versions :: "config_version list"
  tv_merge :: "tenant_payload \<Rightarrow> json \<Rightarrow> tenant_payload"
  tv_surfaces :: "surface list"
  tv_tool_rows :: "registered_tool list"
  tv_catalog :: "catalog_row list"
  tv_prompts :: "prompt_row list"
  tv_presidio :: bool
  tv_pii :: "(string \<Rightarrow> string) option"
  tv_guard_env :: engine_env
  tv_guard_flags :: feature_flags
  tv_guard_starts :: "guardrail_layer \<Rightarrow> bool"
  tv_guard_clock :: "guardrail_layer \<Rightarrow> time \<times> time"
  tv_ai :: ai_engine
  tv_pii_engine :: "'w pii_engine"
  tv_noise :: "nat \<Rightarrow> rat"
  tv_base :: "gateway_cfg \<Rightarrow> 'w services"
  tv_schema_ok :: "tenant_payload \<Rightarrow> bool"
  tv_source_hash :: "tenant_payload \<Rightarrow> string"
  tv_quota_usd :: "usd \<times> usd"
  tv_violation :: "safety_violation \<Rightarrow> json"
  tv_compaction :: compaction_config
  tv_summarizer :: "string \<Rightarrow> string \<Rightarrow> 'w generator"
  tv_estimator :: estimator
  tv_row_json :: "message_row \<Rightarrow> json"
  tv_ticket_url :: "string option"
  tv_failure :: "string \<Rightarrow> gateway_error"
  tv_granted :: bool
  tv_refused :: "time option"
  tv_latency :: rat

record conversation_request =
  cq_tenant_slug :: string
  cq_message :: string
  cq_session_id :: "string option"
  cq_idempotency_key :: "string option"

record conversation_principal =
  cp_tenant_id :: "string option"
  cp_end_user_id :: "string option"
  cp_is_session :: bool
  cp_surface_id :: "string option"

record conversation_response =
  rs_response :: string
  rs_confidence :: rat
  rs_handoff_required :: bool
  rs_session_id :: string
  rs_thread_id :: string

datatype turn_reply = Replayed json json | Answered conversation_response

type_synonym ('a, 'w) route = "'w turn_world \<Rightarrow> (http_error + 'a) \<times> 'w turn_world"

definition rt_return :: "'a \<Rightarrow> ('a, 'w) route" where
  "rt_return x w = (Inr x, w)"

definition rt_raise :: "http_error \<Rightarrow> ('a, 'w) route" where
  "rt_raise e w = (Inl e, w)"

definition rt_bind :: "('a, 'w) route \<Rightarrow> ('a \<Rightarrow> ('b, 'w) route) \<Rightarrow> ('b, 'w) route" where
  "rt_bind m f w = (case m w of (Inl e, w1) \<Rightarrow> (Inl e, w1) | (Inr x, w1) \<Rightarrow> f x w1)"

definition rt_do :: "('w turn_world \<Rightarrow> 'w turn_world) \<Rightarrow> (unit, 'w) route" where
  "rt_do f w = (Inr (), f w)"

text \<open>An exception that no handler of the route names becomes a 500.\<close>

definition internal_error :: "string \<Rightarrow> http_error" where
  "internal_error s = Http 500 s"

definition draw :: "'w turn_env \<Rightarrow> 'w turn_world \<Rightarrow> string \<times> 'w turn_world" where
  "draw E w = (tv_uuid E (tw_uid w), w\<lparr>tw_uid := tw_uid w + 1\<rparr>)"

definition on_rest :: "('w \<Rightarrow> 'a \<times> 'w) \<Rightarrow> 'w turn_world \<Rightarrow> 'a \<times> 'w turn_world" where
  "on_rest f w = (case f (tw_rest w) of (x, r) \<Rightarrow> (x, w\<lparr>tw_rest := r\<rparr>))"

section \<open>Helpers of the route\<close>

definition load_effective_tenant_config :: "'w turn_env \<Rightarrow> tenant_payload \<Rightarrow> string option \<Rightarrow> tenant_config" where
  "load_effective_tenant_config E row key =
     (let config = tenant_config_from_data row
      in case get_effective (tv_hash16 E) (tv_versions E) (tn_id config) key of
           Some v \<Rightarrow> tenant_config_from_data (tv_merge E row (cv_config v))
         | None \<Rightarrow> config)"

definition assert_conversation_tenant :: "conversation_principal \<Rightarrow> tenant_config \<Rightarrow> (unit, 'w) route" where
  "assert_conversation_tenant p tc =
     (if truthy_str (cp_tenant_id p) \<and> cp_tenant_id p \<noteq> Some (tn_id tc)
      then rt_raise (Http 403 ''principal is scoped to a different tenant'') else rt_return ())"

definition resolve_request_surface :: "'w turn_env \<Rightarrow> tenant_config \<Rightarrow> conversation_principal \<Rightarrow> (surface option, 'w) route" where
  "resolve_request_surface E tc p =
     (if \<not> cp_is_session p then rt_return None
      else case resolve_surface (tv_surfaces E) (tn_id tc) (cp_surface_id p) of
             None \<Rightarrow> rt_raise (Http 403 ''No active surface configured for this request'')
           | Some s \<Rightarrow> rt_return (Some s))"

definition publish_event :: "'w turn_env \<Rightarrow> string \<Rightarrow> string \<Rightarrow> payload \<Rightarrow> string \<Rightarrow> 'w turn_world \<Rightarrow> 'w turn_world" where
  "publish_event E ty tenant data session w =
     (case draw E w of
        (uid, w0) \<Rightarrow>
          (case publish_webhook_event (tv_jobs E) (\<lambda>s. uid @ ''/'' @ s) (tv_now E) ty tenant data session (tw_queue w0) (tw_hooks w0) (tw_rest w0) of
             (qm, hooks, r) \<Rightarrow> w0\<lparr>tw_queue := qm, tw_hooks := hooks, tw_rest := r\<rparr>))"

definition add_message :: "string \<Rightarrow> string \<Rightarrow> string \<Rightarrow> string option \<Rightarrow> 'w turn_world \<Rightarrow> 'w turn_world" where
  "add_message cid role content redacted w =
     w\<lparr>tw_projection := tw_projection w @ [\<lparr>vm_conversation = cid, vm_role = role, vm_content = content, vm_redacted = redacted, vm_metadata = []\<rparr>]\<rparr>"

text \<open>An append of the route; the error of the store leaves the route.\<close>

definition store_message :: "'w turn_env \<Rightarrow> string \<Rightarrow> string \<Rightarrow> append_args \<Rightarrow> (message_row, 'w) route" where
  "store_message E tenant tid a w =
     (case draw E w of
        (mid, w0) \<Rightarrow>
          (case append_message tenant tid a mid (tv_now E) (tw_threads w0) of
             (Inl _, _) \<Rightarrow> (Inl (internal_error ''thread store''), w0)
           | (Inr (m, _), db) \<Rightarrow> (Inr m, w0\<lparr>tw_threads := db\<rparr>)))"

definition message_args :: "string \<Rightarrow> string \<Rightarrow> string \<Rightarrow> string \<Rightarrow> append_args" where
  "message_args role content redacted cid =
     \<lparr>ap_role = role, ap_content = content, ap_redacted = Some redacted, ap_conversation = cid, ap_request_id = None, ap_parent = None,
      ap_surface = None, ap_end_user = None, ap_metadata = [], ap_extra_parts = []\<rparr>"

definition refresh_hot_tail :: "'w turn_env \<Rightarrow> string \<Rightarrow> string \<Rightarrow> json option \<Rightarrow> 'w turn_world \<Rightarrow> 'w turn_world" where
  "refresh_hot_tail E tenant tid summary w =
     (let rows = map (\<lambda>m. tv_row_json E (m\<lparr>ms_content := ms_redacted m\<rparr>)) (read_tail (tw_threads w) tenant tid None 10)
      in case cache_tail (tv_redis E) tenant tid rows summary (tw_tails w, tw_rest w) of
           (_, tc, r) \<Rightarrow> w\<lparr>tw_tails := tc, tw_rest := r\<rparr>)"

definition enqueue_job :: "'w turn_env \<Rightarrow> string \<Rightarrow> payload \<Rightarrow> string \<Rightarrow> 'w turn_world \<Rightarrow> 'w turn_world" where
  "enqueue_job E ty data key w =
     (case draw E w of
        (uid, w0) \<Rightarrow>
          (case enqueue (tv_jobs E) (tv_now E) (Some key) (new_job (\<lambda>s. uid @ ''/'' @ s) (tv_now E) ty data) (tw_queue w0) (tw_rest w0) of
             (_, qm, r) \<Rightarrow> w0\<lparr>tw_queue := qm, tw_rest := r\<rparr>))"

definition thread_job_data :: "string \<Rightarrow> string \<Rightarrow> payload" where
  "thread_job_data tenant tid = [(''tenant_id'', JStr tenant), (''thread_id'', JStr tid)]"

definition feature_on :: "tenant_config \<Rightarrow> string \<Rightarrow> bool" where
  "feature_on tc f = get_or (map_of (tn_features tc) f) False"

definition enqueue_tool_clear :: "'w turn_env \<Rightarrow> tenant_config \<Rightarrow> string \<Rightarrow> 'w turn_world \<Rightarrow> 'w turn_world" where
  "enqueue_tool_clear E tc tid w =
     (if feature_on tc ''clear_tool_results''
      then enqueue_job E ''tool_result.clear'' (thread_job_data (tn_id tc) tid) (''tool-clear:'' @ tid) w else w)"

definition enqueue_memory_extract :: "'w turn_env \<Rightarrow> tenant_config \<Rightarrow> string \<Rightarrow> 'w turn_world \<Rightarrow> 'w turn_world" where
  "enqueue_memory_extract E tc tid w =
     (if feature_on tc ''memory''
      then enqueue_job E ''memory.extract'' (thread_job_data (tn_id tc) tid) (''memory-extract:'' @ tid) w else w)"

definition gateway_http_status :: "gateway_error \<Rightarrow> nat" where
  "gateway_http_status e = (case e of
       GatewayQuotaExceeded _ _ _ \<Rightarrow> 402 | GatewayConfigurationError _ \<Rightarrow> 503 | GatewayChainExhausted _ _ _ _ _ \<Rightarrow> 502 | _ \<Rightarrow> 500)"

definition gateway_detail :: "gateway_error \<Rightarrow> string \<Rightarrow> string" where
  "gateway_detail e s = (case e of GatewayQuotaExceeded level limit projected \<Rightarrow> budget_rejection_message level (Some limit) (Some projected) | _ \<Rightarrow> s)"

definition record_canary_outcome :: "'w turn_env \<Rightarrow> string \<Rightarrow> string \<Rightarrow> bool \<Rightarrow> bool \<Rightarrow> 'w turn_world \<Rightarrow> 'w turn_world" where
  "record_canary_outcome E tenant key err blocked w =
     w\<lparr>tw_rollouts := record_outcome (tv_hash16 E) tenant (Some key) err blocked (tv_latency E) (tw_rollouts w)\<rparr>"

definition response_json :: "conversation_response \<Rightarrow> json" where
  "response_json r = JObj [(''response'', JStr (rs_response r)), (''confidence'', JNum (rs_confidence r)),
     (''handoff_required'', JBool (rs_handoff_required r)), (''session_id'', JStr (rs_session_id r)), (''thread_id'', JStr (rs_thread_id r))]"

definition idem_scope :: "conversation_request \<Rightarrow> string" where
  "idem_scope q = ''conv:'' @ cq_tenant_slug q"

definition store_idempotent_response :: "'w turn_env \<Rightarrow> conversation_request \<Rightarrow> conversation_response \<Rightarrow> 'w turn_world \<Rightarrow> 'w turn_world" where
  "store_idempotent_response E q r w =
     (if truthy_str (cq_idempotency_key q)
      then case store_response (tv_sha E) (tv_client E) (tv_now E) (the (cq_idempotency_key q)) 200 (response_json r) (idem_scope q)
                  (tw_cache w) (tw_rest w) of
             (cm, rest) \<Rightarrow> w\<lparr>tw_cache := cm, tw_rest := rest\<rparr>
      else w)"

text \<open>The empty set that \<open>_load_or_create_policy_set\<close> publishes on first use.\<close>

definition load_or_create_policy_set :: "tenant_config \<Rightarrow> 'w turn_world \<Rightarrow> policy_set \<times> 'w turn_world" where
  "load_or_create_policy_set tc w =
     (case py_sorted_desc pt_version (filter (\<lambda>s. pt_tenant_id s = tn_id tc) (tw_policies w)) of
        s # _ \<Rightarrow> (s, w)
      | [] \<Rightarrow> (let s = \<lparr>pt_tenant_id = tn_id tc, pt_name = ''default'', pt_rules = [], pt_version = 1\<rparr>
               in (s, w\<lparr>tw_policies := tw_policies w @ [s]\<rparr>)))"

text \<open>The summary of the hot tier, as \<open>_load_thread_summary\<close> reads it.\<close>

definition j_text :: "json \<Rightarrow> string option" where
  "j_text j = (case j of JStr s \<Rightarrow> Some s | _ \<Rightarrow> None)"

definition cached_block :: "json \<Rightarrow> cached_summary" where
  "cached_block doc =
     (let b = jget_or doc ''summary'' JNull
      in \<lparr>cs_content = j_text (jget_or b ''content'' JNull), cs_position = (case jget_or b ''position'' JNull of JInt n \<Rightarrow> Some n | _ \<Rightarrow> None),
          cs_layers = (case jget_or b ''layers'' JNull of JList ls \<Rightarrow> map (\<lambda>l. get_or (j_text (jget_or l ''content'' JNull)) []) ls | _ \<Rightarrow> [])\<rparr>)"

section \<open>Hooks for the agent loop\<close>

text \<open>Where a turn writes: its tenant, thread, conversation, user message and request.\<close>

record turn_place =
  pl_tenant :: tenant_config
  pl_thread :: string
  pl_conversation :: string
  pl_user_message :: string
  pl_request :: string
  pl_session :: string
  pl_surface :: "surface option"
  pl_end_user :: "string option"

definition part_type_of :: "tool_part \<Rightarrow> string" where
  "part_type_of p = (case p of ToolUsePart _ _ _ \<Rightarrow> ''tool_use'' | ToolResultPart _ \<Rightarrow> ''tool_result'')"

definition part_content :: "tool_part \<Rightarrow> jobj" where
  "part_content p = (case p of
       ToolUsePart i n a \<Rightarrow> [(''tool_use_id'', JStr i), (''name'', JStr n), (''arguments'', a)]
     | ToolResultPart r \<Rightarrow> [(''content'', JStr (tr_content r)), (''is_error'', JBool (tr_is_error r))]
         @ (if tr_blocked r then [(''blocked'', JBool True)] else []) @ [(''tool_use_id'', JStr (tr_tool_use_id r)), (''name'', JStr (tr_name r))])"

definition redacted_part :: "'w turn_env \<Rightarrow> tool_part \<Rightarrow> jobj" where
  "redacted_part E p = (case (tv_presidio E, tv_pii E, map_of (part_content p) ''content'') of
       (True, Some pii, Some (JStr s)) \<Rightarrow> if s = [] then part_content p else AList.update ''content'' (JStr (pii s)) (part_content p)
     | _ \<Rightarrow> part_content p)"

definition part_args :: "'w turn_env \<Rightarrow> turn_place \<Rightarrow> string \<Rightarrow> tool_part \<Rightarrow> append_args" where
  "part_args E pl uid p =
     (message_args ''assistant'' [] [] (pl_conversation pl))
       \<lparr>ap_parent := Some (pl_user_message pl), ap_request_id := Some (pl_request pl @ '':tool:'' @ take 8 uid),
        ap_extra_parts := [\<lparr>xp_type = part_type_of p, xp_content = Some (part_content p), xp_redacted = Some (redacted_part E p)\<rparr>]\<rparr>"

text \<open>A failure of the callback is swallowed by the loop.\<close>

definition persist_tool_part :: "'w turn_env \<Rightarrow> turn_place \<Rightarrow> tool_part \<Rightarrow> 'w turn_world \<Rightarrow> 'w turn_world" where
  "persist_tool_part E pl p w =
     (case draw E w of (uid, w0) \<Rightarrow> snd (store_message E (tn_id (pl_tenant pl)) (pl_thread pl) (part_args E pl uid p) w0))"

definition tool_authorizer :: "'w turn_env \<Rightarrow> turn_place \<Rightarrow> raw_call \<Rightarrow> 'w turn_world \<Rightarrow> (turn_exc + bool) \<times> 'w turn_world" where
  "tool_authorizer E pl call w =
     (case authorize_audited (build_authorizer (pl_tenant pl) (tv_tool_rows E) (pl_surface pl)) (Some (rc_name call)) True (tw_denials w) of
        (d, trail) \<Rightarrow> (Inr (ta_allowed d), w\<lparr>tw_denials := trail\<rparr>))"

definition output_validator :: "'w turn_env \<Rightarrow> turn_place \<Rightarrow> string \<Rightarrow> 'w turn_world \<Rightarrow> (turn_exc + output_check) \<times> 'w turn_world" where
  "output_validator E pl text w =
     (if \<not> tv_presidio E then (Inr \<lparr>oc_allowed = True, oc_redacted_text = None\<rparr>, w)
      else case map_of (tw_guards w) (tn_id (pl_tenant pl)) of
             None \<Rightarrow> (Inl (OtherFailure ''guardrails''), w)
           | Some g \<Rightarrow>
               (case evaluate_output (tv_sha E) (tv_ai E) (tv_pii_engine E) (tv_noise E) text None (Some (pl_tenant pl)) (Some (pl_conversation pl))
                       (Some (pl_session pl)) g (tw_rest w) of
                  (Inl _, g1, r) \<Rightarrow> (Inl (OtherFailure ''guardrails''), w\<lparr>tw_guards := AList.update (tn_id (pl_tenant pl)) g1 (tw_guards w), tw_rest := r\<rparr>)
                | (Inr res, g1, r) \<Rightarrow>
                    (Inr \<lparr>oc_allowed = gr_allowed res, oc_redacted_text = gr_redacted_text res\<rparr>,
                     w\<lparr>tw_guards := AList.update (tn_id (pl_tenant pl)) g1 (tw_guards w), tw_rest := r\<rparr>)))"

definition summary_json :: "string \<Rightarrow> int \<Rightarrow> summary_layer list \<Rightarrow> json" where
  "summary_json s pos layers = JObj [(''content'', JStr s), (''position'', JInt pos),
     (''layers'', JList (map (\<lambda>l. JObj [(''position'', JInt (ly_position l)), (''content'', JStr (ly_content l)), (''payload'', JObj (ly_payload l))]) layers))]"

definition compact_now :: "'w turn_env \<Rightarrow> turn_place \<Rightarrow> string \<Rightarrow> string \<Rightarrow> 'w turn_world \<Rightarrow> checkpoint option \<times> 'w turn_world" where
  "compact_now E pl provider model w =
     (case compact (tv_compaction E) kb_default_config (tv_estimator E) (tv_summarizer E provider model) (tn_id (pl_tenant pl)) (pl_thread pl) None
             (tv_now E) (tv_now E) \<lparr>cp_db = tw_threads w, cp_breaker = tw_breaker w, cp_world = tw_rest w\<rparr> of
        (res, cp) \<Rightarrow>
          (let w1 = w\<lparr>tw_threads := cp_db cp, tw_breaker := cp_breaker cp, tw_rest := cp_world cp\<rparr>
           in case res of
                Inr (Compacted s pos n deg layers) \<Rightarrow>
                  (Some \<lparr>ck_summary = s, ck_position = pos, ck_layers = map ly_content layers\<rparr>,
                   refresh_hot_tail E (tn_id (pl_tenant pl)) (pl_thread pl) (Some (summary_json s pos layers)) w1)
              | _ \<Rightarrow> (None, w1)))"

definition compaction_callback :: "'w turn_env \<Rightarrow> turn_place \<Rightarrow> string \<Rightarrow> string \<Rightarrow> compact_info \<Rightarrow> 'w turn_world \<Rightarrow> (turn_exc + checkpoint option) \<times> 'w turn_world" where
  "compaction_callback E pl provider model info w =
     (if ci_overflow info then (case compact_now E pl provider model w of (r, w1) \<Rightarrow> (Inr r, w1))
      else case Compaction.evaluate (tv_compaction E) (fst (get_or (ci_tokens info) (0, 0))) (snd (get_or (ci_tokens info) (0, 0))) of
             None \<Rightarrow> (Inr None, w)
           | Some Preemptive \<Rightarrow>
               (Inr None, enqueue_job E ''summary.refresh'' (thread_job_data (tn_id (pl_tenant pl)) (pl_thread pl)) (''summary-refresh:'' @ pl_thread pl) w)
           | Some Reactive \<Rightarrow> (case compact_now E pl provider model w of (r, w1) \<Rightarrow> (Inr r, w1)))"

definition escalate_hook :: "'w turn_env \<Rightarrow> turn_place \<Rightarrow> agent_state \<Rightarrow> string \<Rightarrow> 'w turn_world \<Rightarrow> (turn_exc + bool) \<times> 'w turn_world" where
  "escalate_hook E pl st reason w =
     (case draw E w of
        (uid, w0) \<Rightarrow>
          (case escalate_turn (tv_desk E) (tv_now E) uid (create_escalation_service (pl_tenant pl) (tv_ticket_url E) None True None None None) st reason
                  \<lparr>et_rows = tw_escalations w0, et_queue = Some (tw_queue w0), et_world = tw_rest w0\<rparr> of
             (r, s) \<Rightarrow> (r, w0\<lparr>tw_escalations := et_rows s, tw_queue := get_or (et_queue s) (tw_queue w0), tw_rest := et_world s\<rparr>)))"

definition lift_tool :: "'w tool_spec \<Rightarrow> 'w turn_world tool_spec" where
  "lift_tool t = \<lparr>ts_name = ts_name t, ts_description = ts_description t, ts_parameters = ts_parameters t, ts_executor = (\<lambda>a. on_rest (ts_executor t a))\<rparr>"

text \<open>\<open>_as_dict\<close> of the configuration, and the budgets that the compiled surface hands to the gateway.\<close>

definition config_payload :: "tenant_config \<Rightarrow> tenant_payload" where
  "config_payload c =
     \<lparr>tp_id = tn_id c, tp_name = tn_name c, tp_slug = tn_slug c, tp_allowed_topics = Some (tn_allowed_topics c),
      tp_blocked_topics = Some (tn_blocked_topics c), tp_escalation_threshold = Some (tn_escalation_threshold c),
      tp_knowledge_allowlist = Some (tn_knowledge_allowlist c), tp_default_provider = Some (tn_default_provider c),
      tp_default_model = Some (tn_default_model c), tp_features = Some (tn_features c), tp_guardrail_config = Some (tn_guardrail_config c),
      tp_guardrail_thresholds = Some (tn_guardrail_thresholds c), tp_budgets = Some (tn_budgets c), tp_tool_clearing = Some (tn_tool_clearing c),
      tp_memory = Some (tn_memory c), tp_stream_moderation_window_chars = tn_stream_moderation_window_chars c\<rparr>"

definition build_governance_wiring :: "'w turn_env \<Rightarrow> tenant_config \<Rightarrow> surface option \<Rightarrow> (gateway_cfg, 'w) route" where
  "build_governance_wiring E tc sf =
     (case compile_surface_config (tv_schema_ok E) (tv_source_hash E) (fst (tv_quota_usd E)) (snd (tv_quota_usd E)) (config_payload tc) sf 1 of
        Inl _ \<Rightarrow> rt_raise (internal_error ''tenant configuration'')
      | Inr c \<Rightarrow> rt_return (build_gateway_budget_cfg (cs_budgets c)))"

definition turn_services :: "'w turn_env \<Rightarrow> turn_place \<Rightarrow> policy_set \<Rightarrow> gateway_cfg \<Rightarrow> string \<Rightarrow> string option \<Rightarrow> 'w turn_world services" where
  "turn_services E pl policy cfg provider override =
     (let b = tv_base E cfg; tc = pl_tenant pl
      in \<lparr>os_tenant = tc, os_policy = policy, os_loader = os_loader b, os_model_override = override,
          os_prompt_override = map_option fst (build_prompt_resolver (tv_hash16 E) (tv_prompts E) (tn_id tc) (pl_session pl)),
          os_surface_id = map_option sf_id (pl_surface pl), os_end_user_id = pl_end_user pl,
          os_generate = (\<lambda>q. on_rest (os_generate b q)), os_stream = None, os_loads = os_loads b,
          os_compact = Some (compaction_callback E pl provider (str_or override (tn_default_model tc))),
          os_preemptive_ratio = os_preemptive_ratio b,
          os_memory = map_option (\<lambda>f q. on_rest (f q)) (os_memory b),
          os_retrieve = map_option (\<lambda>f q a. on_rest (f q a)) (os_retrieve b),
          os_tools = map_option (map (\<lambda>(n, t). (n, lift_tool t))) (os_tools b), os_arg_validator = os_arg_validator b,
          os_tool_callback = Some (persist_tool_part E pl), os_authorizer = Some (tool_authorizer E pl),
          os_validator = Some (output_validator E pl), os_escalate = Some (escalate_hook E pl), os_float_text = os_float_text b\<rparr>)"

section \<open>The route\<close>

definition idempotent_replay :: "'w turn_env \<Rightarrow> conversation_request \<Rightarrow> 'w turn_world \<Rightarrow> (json \<times> json) option \<times> 'w turn_world" where
  "idempotent_replay E q w =
     (if truthy_str (cq_idempotency_key q)
      then case get_response (tv_sha E) (tv_client E) (tv_now E) (the (cq_idempotency_key q)) (idem_scope q) (tw_cache w) (tw_rest w) of
             (r, cm, rest) \<Rightarrow> (r, w\<lparr>tw_cache := cm, tw_rest := rest\<rparr>)
      else (None, w))"

definition acquire_rate :: "'w turn_env \<Rightarrow> tenant_config \<Rightarrow> (unit, 'w) route" where
  "acquire_rate E tc w =
     (case acquire_multi_or_raise (tv_redis E) (tw_limiter w)
             [''tenant:'' @ tn_id tc, ''model:'' @ tn_default_provider tc @ '':'' @ tn_default_model tc] 1 (tv_now E) (tv_now E) (tw_rest w) of
        (Inl _, rl, r) \<Rightarrow> (Inl (internal_error ''RateLimitExceeded''), w\<lparr>tw_limiter := rl, tw_rest := r\<rparr>)
      | (Inr _, rl, r) \<Rightarrow> (Inr (), w\<lparr>tw_limiter := rl, tw_rest := r\<rparr>))"

definition load_tenant :: "'w turn_env \<Rightarrow> conversation_request \<Rightarrow> conversation_principal \<Rightarrow> string \<Rightarrow> (tenant_config, 'w) route" where
  "load_tenant E q p session =
     (case tv_tenant E (cq_tenant_slug q) of
        None \<Rightarrow> rt_raise (Http 404 (''Tenant not found: '' @ cq_tenant_slug q))
      | Some row \<Rightarrow>
          (let tc = load_effective_tenant_config E row (Some (str_or (cp_end_user_id p) session))
           in rt_bind (assert_conversation_tenant p tc) (\<lambda>_. rt_bind (acquire_rate E tc) (\<lambda>_. rt_return tc))))"

definition get_or_create_conversation :: "'w turn_env \<Rightarrow> tenant_config \<Rightarrow> string \<Rightarrow> (conversation_row, 'w) route" where
  "get_or_create_conversation E tc session w =
     (case draw E w of
        (uid, w0) \<Rightarrow>
          (case cv_get_or_create (tv_now E) uid (tn_id tc) session (tw_convs w0) of
             (c, created, rows) \<Rightarrow>
               (let w1 = w0\<lparr>tw_convs := rows\<rparr>;
                    w2 = (if created
                          then publish_event E ''conversation.created'' (tn_id tc) [(''session_id'', JStr session), (''conversation_id'', JStr (conversation_row.cv_id c))] session
                                 (w1\<lparr>tw_threads := (tw_threads w1)\<lparr>db_conversations := db_conversations (tw_threads w1) @ [conversation_row.cv_id c]\<rparr>\<rparr>)
                          else w1)
                in if conversation_row.cv_status c = ''paused''
                   then (Inl (Http 423 ''Conversation is paused (human-in-the-loop hold); resume it before sending new messages.''), w2)
                   else (Inr c, w2))))"

definition bind_thread :: "'w turn_env \<Rightarrow> tenant_config \<Rightarrow> string \<Rightarrow> conversation_principal \<Rightarrow> surface option \<Rightarrow> (thread_row, 'w) route" where
  "bind_thread E tc cid p sf w =
     (case draw E w of
        (tid, w0) \<Rightarrow>
          (case get_or_create_for_conversation (tn_id tc) cid
                  (if truthy_str (map_option sf_id sf) then map_option sf_id sf else cp_surface_id p) (cp_end_user_id p) tid (tv_now E) (tw_threads w0) of
             (Inr (Some t), db) \<Rightarrow> (Inr t, w0\<lparr>tw_threads := db\<rparr>)
           | (_, db) \<Rightarrow> (Inl (internal_error ''thread store''), w0)))"

definition redact_message :: "'w turn_env \<Rightarrow> string \<Rightarrow> (string, 'w) route" where
  "redact_message E message =
     (if \<not> tv_presidio E then rt_return message
      else case tv_pii E of None \<Rightarrow> rt_raise (Http 503 ''PII service unavailable'') | Some f \<Rightarrow> rt_return (f message))"

text \<open>The user's turn, in the thread and in the projection.\<close>

definition record_user_turn ::
  "'w turn_env \<Rightarrow> conversation_request \<Rightarrow> conversation_principal \<Rightarrow> tenant_config \<Rightarrow> string \<Rightarrow> string \<Rightarrow> string \<Rightarrow> string \<Rightarrow> (message_row, 'w) route" where
  "record_user_turn E q p tc cid tid request_id redacted =
     rt_bind (store_message E (tn_id tc) tid
                ((message_args ''user'' (cq_message q) redacted cid)\<lparr>ap_request_id := Some request_id, ap_end_user := cp_end_user_id p\<rparr>))
       (\<lambda>m. rt_bind (rt_do (add_message cid ''user'' (cq_message q) (Some redacted))) (\<lambda>_. rt_return m))"

definition input_validation ::
  "'w turn_env \<Rightarrow> tenant_config \<Rightarrow> string \<Rightarrow> string \<Rightarrow> string \<Rightarrow> (bool \<times> bool \<times> safety_violation list, 'w) route" where
  "input_validation E tc cid session redacted w =
     (case get_guardrails_service (tv_guard_flags E) (tv_guard_starts E) tc None (tw_guards w) of
        (Inl _, reg) \<Rightarrow> (Inl (internal_error ''guardrails''), w\<lparr>tw_guards := reg\<rparr>)
      | (Inr g, reg) \<Rightarrow>
          (case validate_input (tv_sha E) (tv_guard_env E) (tv_guard_clock E) (tv_now E) redacted tc (Some cid) (Some session) (g\<lparr>go_callback := True\<rparr>) of
             (Inl _, g1) \<Rightarrow> (Inl (internal_error ''guardrails''), w\<lparr>tw_guards := AList.update (tn_id tc) g1 reg\<rparr>)
           | (Inr r, g1) \<Rightarrow> (Inr r, w\<lparr>tw_guards := AList.update (tn_id tc) g1 reg\<rparr>)))"

text \<open>Blocked or not, and the violations.\<close>

definition check_input :: "'w turn_env \<Rightarrow> tenant_config \<Rightarrow> string \<Rightarrow> string \<Rightarrow> string \<Rightarrow> (bool \<times> safety_violation list, 'w) route" where
  "check_input E tc cid session redacted =
     rt_bind (input_validation E tc cid session redacted) (\<lambda>(valid, blocked, vs). rt_return (\<not> valid \<and> blocked, vs))"

definition refusal_text :: string where
  "refusal_text = ''I cannot help with that request.''"

definition answer_blocked ::
  "'w turn_env \<Rightarrow> conversation_request \<Rightarrow> turn_place \<Rightarrow> string \<Rightarrow> safety_violation list \<Rightarrow> (turn_reply, 'w) route" where
  "answer_blocked E q pl request_key vs =
     (let tc = pl_tenant pl; found = JList (map (tv_violation E) vs); r = \<lparr>rs_response = refusal_text, rs_confidence = 1, rs_handoff_required = False, rs_session_id = pl_session pl, rs_thread_id = pl_thread pl\<rparr>
      in rt_bind (rt_do (add_message (pl_conversation pl) ''assistant'' refusal_text None)) (\<lambda>_.
         rt_bind (store_message E (tn_id tc) (pl_thread pl)
                    ((message_args ''assistant'' refusal_text refusal_text (pl_conversation pl))
                       \<lparr>ap_parent := Some (pl_user_message pl), ap_metadata := [(''blocked'', JBool True), (''violations'', found)]\<rparr>)) (\<lambda>_.
         rt_bind (rt_do (\<lambda>w. record_canary_outcome E (tn_id tc) request_key False True
                   (publish_event E ''guardrail.blocked'' (tn_id tc) [(''session_id'', JStr (pl_session pl)), (''violations'', found)] (pl_session pl)
                     (store_idempotent_response E q r (refresh_hot_tail E (tn_id tc) (pl_thread pl) None w))))) (\<lambda>_.
         rt_return (Answered r)))))"

text \<open>\<open>_resolve_catalog_model\<close> and the model pin of the surface.\<close>

definition choose_model :: "'w turn_env \<Rightarrow> tenant_config \<Rightarrow> surface option \<Rightarrow> string \<Rightarrow> (string \<times> string option, 'w) route" where
  "choose_model E tc sf message w =
     (case resolve_catalog_model (tv_fmt4 E) (tv_client E) (tv_now E) (tv_catalog E) tc message (tw_cache w) (tw_rest w) of
        (Inl e, cm, r) \<Rightarrow> (Inl e, w\<lparr>tw_cache := cm, tw_rest := r\<rparr>)
      | (Inr (provider, override), cm, r) \<Rightarrow>
          (Inr (case Option.bind sf sf_model_pin of
                  None \<Rightarrow> (provider, override)
                | Some pin \<Rightarrow>
                    if pin = [] then (provider, override)
                    else if CHR '':'' \<in> set pin
                         then (py_strip (fst (py_split1 (CHR '':'') pin)), Some (py_strip (snd (py_split1 (CHR '':'') pin))))
                         else (provider, Some (py_strip pin))), w\<lparr>tw_cache := cm, tw_rest := r\<rparr>))"

definition load_summary :: "'w turn_env \<Rightarrow> string \<Rightarrow> string \<Rightarrow> 'w turn_world \<Rightarrow> (string option \<times> int option \<times> string list option) \<times> 'w turn_world" where
  "load_summary E tenant tid w =
     (case get_tail (tv_redis E) tenant tid (tw_tails w, tw_rest w) of
        (doc, tc, r) \<Rightarrow> (load_thread_summary (map_option cached_block doc) (tw_threads w) tenant tid, w\<lparr>tw_tails := tc, tw_rest := r\<rparr>))"

text \<open>Waiting for the lease of the thread and then for admission; a refused admission gives the lease back.\<close>

definition enter_turn :: "'w turn_env \<Rightarrow> string \<Rightarrow> string \<Rightarrow> (unit, 'w) route" where
  "enter_turn E tenant tid w =
     (if \<not> tv_granted E then (Inl (Http 429 ''Another message is being processed for this thread. Try again shortly.''), w)
      else let w1 = w\<lparr>tw_leases := tw_leases w @ [(tenant, tid)]\<rparr>
           in case tv_refused E of
                Some _ \<Rightarrow> (Inl (Http 429 ''Concurrent generation limit exceeded. Try again shortly.''), w1\<lparr>tw_leases := remove1 (tenant, tid) (tw_leases w1)\<rparr>)
              | None \<Rightarrow> (Inr (), w1\<lparr>tw_permits := tw_permits w1 @ [tenant]\<rparr>))"

definition leave_turn :: "string \<Rightarrow> string \<Rightarrow> 'w turn_world \<Rightarrow> 'w turn_world" where
  "leave_turn tenant tid w = w\<lparr>tw_permits := remove1 tenant (tw_permits w), tw_leases := remove1 (tenant, tid) (tw_leases w)\<rparr>"

definition withheld_text :: string where
  "withheld_text = ''[content withheld by compliance]''"

text \<open>What is stored and returned of the final state of the loop: the raw text, the released text, and the flag.\<close>

definition released_texts :: "agent_state \<Rightarrow> string \<times> string" where
  "released_texts st =
     (if ag_output_allowed st = Some False \<and> ag_handoff_required st then (withheld_text, withheld_text)
      else (str_or (ag_output_raw st) (get_or (ag_response st) []), get_or (ag_response st) []))"

definition finish_turn :: "'w turn_env \<Rightarrow> conversation_request \<Rightarrow> turn_place \<Rightarrow> string \<Rightarrow> agent_state \<Rightarrow> (turn_reply, 'w) route" where
  "finish_turn E q pl request_key st =
     (case released_texts st of
        (raw, text) \<Rightarrow>
          (let tc = pl_tenant pl; cid = pl_conversation pl; handoff = ag_handoff_required st;
               r = \<lparr>rs_response = text, rs_confidence = ag_confidence st, rs_handoff_required = handoff, rs_session_id = pl_session pl,
                    rs_thread_id = pl_thread pl\<rparr>
           in rt_bind (rt_do (add_message cid ''assistant'' raw (Some text))) (\<lambda>_.
              rt_bind (store_message E (tn_id tc) (pl_thread pl)
                         ((message_args ''assistant'' raw text cid)
                            \<lparr>ap_parent := Some (pl_user_message pl),
                             ap_metadata := [(''confidence'', JNum (ag_confidence st)), (''handoff_required'', JBool handoff)]\<rparr>)) (\<lambda>_.
              rt_bind (rt_do (\<lambda>w.
                let w1 = enqueue_memory_extract E tc (pl_thread pl) (enqueue_tool_clear E tc (pl_thread pl) (refresh_hot_tail E (tn_id tc) (pl_thread pl) None w));
                    w2 = (if handoff
                          then publish_event E ''escalation.raised'' (tn_id tc) [(''session_id'', JStr (pl_session pl)), (''conversation_id'', JStr cid)]
                                 (pl_session pl) (w1\<lparr>tw_convs := cv_mark_escalated cid (tw_convs w1)\<rparr>)
                          else w1)
                in record_canary_outcome E (tn_id tc) request_key False False
                     (publish_event E ''conversation.completed'' (tn_id tc)
                        [(''session_id'', JStr (pl_session pl)), (''handoff_required'', JBool handoff), (''confidence'', JNum (ag_confidence st))]
                        (pl_session pl) (store_idempotent_response E q r w2)))) (\<lambda>_.
              rt_return (Answered r))))))"

definition fail_turn :: "'w turn_env \<Rightarrow> turn_place \<Rightarrow> string \<Rightarrow> http_error \<Rightarrow> string \<Rightarrow> ('a, 'w) route" where
  "fail_turn E pl request_key e detail w =
     (Inl e, record_canary_outcome E (tn_id (pl_tenant pl)) request_key True False
        (publish_event E ''eval.failed'' (tn_id (pl_tenant pl))
           [(''session_id'', JStr (pl_session pl)), (''conversation_id'', JStr (pl_conversation pl)), (''error'', JStr detail)] (pl_session pl) w))"

text \<open>An error of the store inside the guarded block is an exception like any other: it is answered with a 500 after the failure has been published.\<close>

definition guard_block :: "'w turn_env \<Rightarrow> turn_place \<Rightarrow> string \<Rightarrow> ('a, 'w) route \<Rightarrow> ('a, 'w) route" where
  "guard_block E pl request_key m w =
     (case m w of (Inl (Http n s), w1) \<Rightarrow> fail_turn E pl request_key (Http 500 s) s w1 | (Inr x, w1) \<Rightarrow> (Inr x, w1))"

definition emit_decision_evidence :: "turn_place \<Rightarrow> agent_state \<Rightarrow> 'w turn_world \<Rightarrow> 'w turn_world" where
  "emit_decision_evidence pl st w =
     w\<lparr>tw_decisions := tw_decisions w @ [(tn_id (pl_tenant pl), ag_policy_action st, ag_policy_action st \<noteq> PA_BLOCK)]\<rparr>"

definition run_turn ::
  "'w turn_env \<Rightarrow> conversation_request \<Rightarrow> turn_place \<Rightarrow> string \<Rightarrow> 'w turn_world services \<Rightarrow> string \<Rightarrow> context_turn list
     \<Rightarrow> string option \<times> int option \<times> string list option \<Rightarrow> (turn_reply, 'w) route" where
  "run_turn E q pl request_key sv redacted history summary w =
     (case summary of
        (content, position, layers) \<Rightarrow>
          (case process_message sv redacted (pl_session pl) (Some (pl_conversation pl)) history content position (get_or layers []) w of
             (Inl (Raised_in_node (GatewayFailure m)), w1) \<Rightarrow>
               fail_turn E pl request_key (Http (gateway_http_status (tv_failure E m)) (gateway_detail (tv_failure E m) m)) m w1
           | (Inl (Raised_in_node e), w1) \<Rightarrow> fail_turn E pl request_key (Http 500 (exc_text e)) (exc_text e) w1
           | (Inl GraphRecursionError, w1) \<Rightarrow> fail_turn E pl request_key (Http 500 ''recursion limit'') ''recursion limit'' w1
           | (Inr st, w1) \<Rightarrow>
               (let w2 = emit_decision_evidence pl st w1
                in if truthy_str (ag_error st) then (Inl (Http 500 (the (ag_error st))), w2)
                   else guard_block E pl request_key (finish_turn E q pl request_key st) w2)))"

definition generate_turn ::
  "'w turn_env \<Rightarrow> conversation_request \<Rightarrow> turn_place \<Rightarrow> string \<Rightarrow> policy_set \<Rightarrow> string \<Rightarrow> (turn_reply, 'w) route" where
  "generate_turn E q pl request_key policy redacted =
     (let tenant = tn_id (pl_tenant pl); tid = pl_thread pl
      in rt_bind (choose_model E (pl_tenant pl) (pl_surface pl) (cq_message q)) (\<lambda>(provider, override).
         rt_bind (\<lambda>w. (Inr (load_history_turns (tw_threads w) tenant tid True 200), w)) (\<lambda>history.
         rt_bind (\<lambda>w. case load_summary E tenant tid w of (summary, w1) \<Rightarrow> (Inr summary, w1)) (\<lambda>summary.
         rt_bind (build_governance_wiring E (pl_tenant pl) (pl_surface pl)) (\<lambda>cfg.
         rt_bind (enter_turn E tenant tid) (\<lambda>_.
         (\<lambda>w. case run_turn E q pl request_key (turn_services E pl policy cfg provider override) redacted history summary w of
                (r, w1) \<Rightarrow> (r, leave_turn tenant tid w1))))))))"

text \<open>The request once it is known not to be a replay.\<close>

definition serve_turn :: "'w turn_env \<Rightarrow> conversation_request \<Rightarrow> conversation_principal \<Rightarrow> string \<Rightarrow> string \<Rightarrow> (turn_reply, 'w) route" where
  "serve_turn E q p session request_key =
     rt_bind (load_tenant E q p session) (\<lambda>tc.
     rt_bind (\<lambda>w. case load_or_create_policy_set tc w of (s, w') \<Rightarrow> (Inr s, w')) (\<lambda>policy.
     rt_bind (get_or_create_conversation E tc session) (\<lambda>conv.
     rt_bind (resolve_request_surface E tc p) (\<lambda>sf.
     rt_bind (bind_thread E tc (conversation_row.cv_id conv) p sf) (\<lambda>thread.
     rt_bind (\<lambda>w. case draw E w of (u, w') \<Rightarrow> (Inr (str_or (cq_idempotency_key q) (''req-'' @ u)), w')) (\<lambda>request_id.
     rt_bind (redact_message E (cq_message q)) (\<lambda>redacted.
     rt_bind (record_user_turn E q p tc (conversation_row.cv_id conv) (th_id thread) request_id redacted) (\<lambda>user.
     rt_bind (check_input E tc (conversation_row.cv_id conv) session redacted) (\<lambda>(blocked, vs).
     let pl = \<lparr>pl_tenant = tc, pl_thread = th_id thread, pl_conversation = conversation_row.cv_id conv, pl_user_message = ms_id user, pl_request = request_id,
               pl_session = session, pl_surface = sf, pl_end_user = cp_end_user_id p\<rparr>
     in if blocked then answer_blocked E q pl request_key vs
        else generate_turn E q pl request_key policy redacted)))))))))"

definition process_conversation :: "'w turn_env \<Rightarrow> conversation_request \<Rightarrow> conversation_principal \<Rightarrow> (turn_reply, 'w) route" where
  "process_conversation E q p w =
     (case idempotent_replay E q w of
        (Some (status, body), w1) \<Rightarrow> (Inr (Replayed status body), w1)
      | (None, w1) \<Rightarrow>
          (case draw E w1 of
             (uid, w2) \<Rightarrow>
               (let session = str_or (cq_session_id q) uid
                in serve_turn E q p session (str_or (cp_end_user_id p) session) w2)))"

section \<open>Lemmas\<close>

subsection \<open>What the helpers leave alone\<close>

text \<open>The parts of the state the properties speak about.\<close>

definition core :: "'w turn_world \<Rightarrow> (string \<times> string) list \<times> string list \<times> thread_db \<times> conv_message list" where
  "core w = (tw_leases w, tw_permits w, tw_threads w, tw_projection w)"

named_theorems core_simps \<open>helpers that keep the core of the state\<close>

lemma draw_simps [simp]:
  "fst (draw E w) = tv_uuid E (tw_uid w)" "snd (draw E w) = w\<lparr>tw_uid := tw_uid w + 1\<rparr>" "core (w\<lparr>tw_uid := n\<rparr>) = core w"
  by (simp_all add: draw_def core_def)

lemma publish_event_core [core_simps]: "core (publish_event E ty tenant data session w) = core w"
  by (simp add: publish_event_def draw_def core_def split: prod.splits)

lemma enqueue_job_core [core_simps]: "core (enqueue_job E ty data key w) = core w"
  by (simp add: enqueue_job_def draw_def core_def split: prod.splits)

lemma enqueue_tool_clear_core [core_simps]: "core (enqueue_tool_clear E tc tid w) = core w"
  by (simp add: enqueue_tool_clear_def core_simps)

lemma enqueue_memory_extract_core [core_simps]: "core (enqueue_memory_extract E tc tid w) = core w"
  by (simp add: enqueue_memory_extract_def core_simps)

lemma refresh_hot_tail_core [core_simps]: "core (refresh_hot_tail E tenant tid summary w) = core w"
  by (simp add: refresh_hot_tail_def core_def Let_def split: prod.splits)

lemma store_idempotent_core [core_simps]: "core (store_idempotent_response E q r w) = core w"
  by (simp add: store_idempotent_response_def core_def split: prod.splits)

lemma record_canary_core [core_simps]: "core (record_canary_outcome E tenant key err blocked w) = core w"
  by (simp add: record_canary_outcome_def core_def)

lemma mark_escalated_core [core_simps]: "core (w\<lparr>tw_convs := cs\<rparr>) = core w"
  by (simp add: core_def)

lemma emit_decision_core [core_simps]: "core (emit_decision_evidence pl st w) = core w"
  by (simp add: emit_decision_evidence_def core_def)

lemma idempotent_replay_core [core_simps]: "core (snd (idempotent_replay E q w)) = core w"
  by (simp add: idempotent_replay_def core_def split: prod.splits)

lemma policy_set_core [core_simps]: "core (snd (load_or_create_policy_set tc w)) = core w"
  by (simp add: load_or_create_policy_set_def core_def Let_def split: list.splits)

lemma acquire_rate_core [core_simps]: "core (snd (acquire_rate E tc w)) = core w"
  by (simp add: acquire_rate_def core_def split: prod.splits sum.splits)

lemma input_validation_core [core_simps]: "core (snd (input_validation E tc cid session redacted w)) = core w"
  by (simp add: input_validation_def core_def split: prod.splits sum.splits)

lemma check_input_core [core_simps]: "core (snd (check_input E tc cid session redacted w)) = core w"
  using input_validation_core [of E tc cid session redacted w] by (auto simp: check_input_def rt_bind_def rt_return_def split: prod.splits sum.splits)

lemma choose_model_core [core_simps]: "core (snd (choose_model E tc sf message w)) = core w"
  by (simp add: choose_model_def core_def split: prod.splits sum.splits)

lemma load_summary_core [core_simps]: "core (snd (load_summary E tenant tid w)) = core w"
  by (simp add: load_summary_def core_def split: prod.splits)

lemma on_rest_core [core_simps]: "core (snd (on_rest f w)) = core w"
  by (simp add: on_rest_def core_def split: prod.splits)

lemma tool_authorizer_core [core_simps]: "core (snd (tool_authorizer E pl c w)) = core w"
  by (simp add: tool_authorizer_def core_def split: prod.splits)

lemma output_validator_core [core_simps]: "core (snd (output_validator E pl s w)) = core w"
  by (simp add: output_validator_def core_def split: prod.splits sum.splits option.splits)

lemma escalate_hook_core [core_simps]: "core (snd (escalate_hook E pl st s w)) = core w"
  by (simp add: escalate_hook_def draw_def core_def split: prod.splits)

lemma lift_tool_core [core_simps]: "core (snd (ts_executor (lift_tool t) a w)) = core w"
  by (simp add: lift_tool_def core_simps)

subsection \<open>Composition\<close>

definition route_keeps :: "('w turn_world \<Rightarrow> bool) \<Rightarrow> ('a, 'w) route \<Rightarrow> bool" where
  "route_keeps P m \<longleftrightarrow> (\<forall>w. P w \<longrightarrow> P (snd (m w)))"

named_theorems keep_rules \<open>routes that keep a property\<close>

lemma rk_return [keep_rules]: "route_keeps P (rt_return x)"
  by (simp add: route_keeps_def rt_return_def)

lemma rk_raise [keep_rules]: "route_keeps P (rt_raise e)"
  by (simp add: route_keeps_def rt_raise_def)

lemma rk_bind [keep_rules]: "route_keeps P m \<Longrightarrow> (\<And>x. route_keeps P (f x)) \<Longrightarrow> route_keeps P (rt_bind m f)"
  by (auto simp: route_keeps_def rt_bind_def split: prod.splits sum.splits)

lemma rk_read: "route_keeps P (\<lambda>w. (Inr (h w), w))"
  by (simp add: route_keeps_def)

lemma rk_do: "(\<And>w. P w \<Longrightarrow> P (f w)) \<Longrightarrow> route_keeps P (rt_do f)"
  by (simp add: route_keeps_def rt_do_def)

text \<open>A property that depends on the core alone.\<close>

definition on_core :: "('w turn_world \<Rightarrow> bool) \<Rightarrow> bool" where
  "on_core P \<longleftrightarrow> (\<forall>w w'. core w = core w' \<longrightarrow> P w = P w')"

lemma on_coreD: "on_core P \<Longrightarrow> core w = core w' \<Longrightarrow> P w = P w'"
  unfolding on_core_def by blast

lemma rk_core: "on_core P \<Longrightarrow> (\<And>w. core (snd (m w)) = core w) \<Longrightarrow> route_keeps P m"
  unfolding route_keeps_def on_core_def by blast

lemma assert_tenant_keeps [keep_rules]: "route_keeps P (assert_conversation_tenant p tc)"
  by (simp add: assert_conversation_tenant_def keep_rules)

lemma resolve_surface_keeps [keep_rules]: "route_keeps P (resolve_request_surface E tc p)"
  by (auto simp: resolve_request_surface_def keep_rules split: option.splits)

lemma redact_keeps [keep_rules]: "route_keeps P (redact_message E m)"
  by (auto simp: redact_message_def keep_rules split: option.splits)

lemma wiring_keeps [keep_rules]: "route_keeps P (build_governance_wiring E tc sf)"
  by (auto simp: build_governance_wiring_def keep_rules split: sum.splits)

lemma acquire_rate_keeps: "on_core P \<Longrightarrow> route_keeps P (acquire_rate E tc)"
  by (rule rk_core) (simp_all add: core_simps)

lemma load_tenant_keeps: "on_core P \<Longrightarrow> route_keeps P (load_tenant E q p session)"
  by (auto simp: load_tenant_def Let_def split: option.splits intro!: keep_rules acquire_rate_keeps)

text \<open>The steps that change the core: what they need of a property.\<close>

locale turn_property =
  fixes P :: "'w turn_world \<Rightarrow> bool"
    and E :: "'w turn_env"
  assumes core_only: "on_core P"
    and conversation: "P w \<Longrightarrow> P (w\<lparr>tw_threads := (tw_threads w)\<lparr>db_conversations := db_conversations (tw_threads w) @ [c]\<rparr>\<rparr>)"
    and bind: "P w \<Longrightarrow> P (snd (bind_thread E tc cid p sf w))"
    and store: "P w \<Longrightarrow> P (snd (store_message E tenant tid a w))"
    and project: "P w \<Longrightarrow> P (add_message cid role content redacted w)"
    and compaction: "P w \<Longrightarrow> P (snd (compact_now E pl provider model w))"
begin

lemma coreD: "core w = core w' \<Longrightarrow> P w \<Longrightarrow> P w'"
  using on_coreD [OF core_only] by blast

lemma store_keeps: "route_keeps P (store_message E tenant tid a)"
  by (simp add: route_keeps_def store)

lemma project_keeps: "route_keeps P (rt_do (add_message cid role content redacted))"
  by (simp add: rk_do project)

lemma user_turn_keeps: "route_keeps P (record_user_turn E q p tc cid tid req redacted)"
  unfolding record_user_turn_def by (intro keep_rules store_keeps project_keeps)

lemma conversation_keeps: "route_keeps P (get_or_create_conversation E tc session)"
  unfolding route_keeps_def
proof (intro allI impI)
  fix w assume w: "P w"
  obtain c created rows where g: "cv_get_or_create (tv_now E) (tv_uuid E (tw_uid w)) (tn_id tc) session (tw_convs w) = (c, created, rows)"
    by (metis prod_cases3)
  let ?w1 = "w\<lparr>tw_uid := tw_uid w + 1, tw_convs := rows\<rparr>"
  have w1: "P ?w1" by (rule coreD [OF _ w]) (simp add: core_def)
  have "P (publish_event E ty t d s (?w1\<lparr>tw_threads := (tw_threads ?w1)\<lparr>db_conversations := db_conversations (tw_threads ?w1) @ [i]\<rparr>\<rparr>))" for ty t d s i
    by (rule coreD [OF _ conversation [OF w1]]) (simp add: core_simps)
  then show "P (snd (get_or_create_conversation E tc session w))"
    using w1 g by (simp add: get_or_create_conversation_def draw_def Let_def)
qed

lemma blocked_keeps: "route_keeps P (answer_blocked E q pl key vs)"
  unfolding answer_blocked_def Let_def
  by (intro keep_rules store_keeps project_keeps rk_do) (auto simp: core_simps intro: coreD [rotated])

lemma finish_keeps: "route_keeps P (finish_turn E q pl key st)"
  unfolding finish_turn_def Let_def
  by (auto simp: core_simps split: prod.splits intro!: keep_rules store_keeps project_keeps rk_do intro: coreD [rotated])

lemma fail_keeps: "P w \<Longrightarrow> P (snd (fail_turn E pl key e detail w))"
  by (rule coreD [rotated]) (simp_all add: fail_turn_def core_simps)

lemma guard_keeps: "route_keeps P m \<Longrightarrow> P w \<Longrightarrow> P (snd (guard_block E pl key m w))"
proof -
  assume "route_keeps P m" "P w"
  then have "P (snd (m w))" by (simp add: route_keeps_def)
  then show ?thesis by (auto simp: guard_block_def split: prod.splits sum.splits http_error.splits intro: fail_keeps)
qed

lemma callback_keeps: "P w \<Longrightarrow> P (persist_tool_part E pl p w)"
proof -
  assume "P w"
  then have "P (w\<lparr>tw_uid := tw_uid w + 1\<rparr>)" by (rule coreD [rotated]) simp
  then show ?thesis by (simp add: persist_tool_part_def draw_def store)
qed

lemma compaction_keeps: "P w \<Longrightarrow> P (snd (compaction_callback E pl provider model info w))"
  using compaction [of w pl provider model]
  by (auto simp: compaction_callback_def core_simps split: prod.splits option.splits compaction_action.splits intro: coreD [rotated])

lemma lifted_tools: "map_of (map (\<lambda>(n, t). (n, lift_tool t)) reg) n = Some t \<Longrightarrow> \<exists>t0. t = lift_tool t0"
  by (induction reg) (auto split: if_splits)

lemma services_keeps: "services_keep P (turn_services E pl policy cfg provider override)"
  unfolding services_keep_def turn_services_def Let_def
  by (auto simp: core_simps on_some_def callback_keeps compaction_keeps split: option.splits dest!: lifted_tools
      intro: coreD [rotated])

lemma run_keeps: "P w \<Longrightarrow> P (snd (run_turn E q pl key (turn_services E pl policy cfg provider override) redacted history summary w))"
proof -
  assume w: "P w"
  obtain content position layers where s: "summary = (content, position, layers)" by (metis prod_cases3)
  obtain r w1 where m: "process_message (turn_services E pl policy cfg provider override) redacted (pl_session pl) (Some (pl_conversation pl))
      history content position (get_or layers []) w = (r, w1)" by fastforce
  from process_message_keeps [OF services_keeps w m] have w1: "P w1" .
  then have "P (emit_decision_evidence pl st w1)" for st by (rule coreD [rotated]) (simp add: core_simps)
  then have g: "P (snd (guard_block E pl key (finish_turn E q pl key st) (emit_decision_evidence pl st w1)))" "P (emit_decision_evidence pl st w1)" for st
    by (simp_all add: guard_keeps finish_keeps)
  show ?thesis using g w1 m s
    by (auto simp: run_turn_def Let_def split: sum.splits run_error.splits turn_exc.splits intro: fail_keeps)
qed

text \<open>The request around the generation.\<close>

lemma serve_keeps_if:
  assumes "\<And>pl policy redacted. route_keeps P (generate_turn E q pl key policy redacted)"
  shows "route_keeps P (serve_turn E q p session key)"
proof -
  have "route_keeps P (\<lambda>w. case load_or_create_policy_set tc w of (s, w') \<Rightarrow> (Inr s, w'))" for tc
    using policy_set_core [of tc] by (intro rk_core [OF core_only]) (simp add: case_prod_beta)
  moreover have "route_keeps P (\<lambda>w. case draw E w of (u, w') \<Rightarrow> (Inr (g u), w'))" for g :: "string \<Rightarrow> string"
    by (rule rk_core [OF core_only]) (simp add: draw_def core_def)
  moreover have "route_keeps P (check_input E tc cid session redacted)" for tc cid session redacted
    by (rule rk_core [OF core_only]) (simp add: core_simps)
  moreover have "route_keeps P (bind_thread E tc cid p sf)" for tc cid sf by (simp add: route_keeps_def bind)
  ultimately show ?thesis using assms unfolding serve_turn_def Let_def
    by (auto simp: blocked_keeps split: prod.splits
        intro!: keep_rules load_tenant_keeps [OF core_only] conversation_keeps user_turn_keeps)
qed

lemma process_keeps_if:
  assumes "\<And>pl key policy redacted. route_keeps P (generate_turn E q pl key policy redacted)"
  shows "route_keeps P (process_conversation E q p)"
  unfolding route_keeps_def
proof (intro allI impI)
  fix w assume w: "P w"
  obtain r w1 where i: "idempotent_replay E q w = (r, w1)" by fastforce
  then have "core w1 = core w" using idempotent_replay_core [of E q w] by simp
  then have "P w1" "P (w1\<lparr>tw_uid := tw_uid w1 + 1\<rparr>)" using coreD [OF _ w] by simp_all
  with i serve_keeps_if [OF assms] show "P (snd (process_conversation E q p w))"
    by (auto simp: process_conversation_def draw_def Let_def route_keeps_def split: option.splits)
qed

end

text \<open>Properties that do not depend on what the request holds.\<close>

locale turn_invariant = turn_property +
  assumes holds: "P w \<Longrightarrow> P (w\<lparr>tw_leases := ls, tw_permits := ps\<rparr>)"
begin

lemma leases_free: "P w \<Longrightarrow> P (w\<lparr>tw_leases := ls\<rparr>)"
  using holds [where w = w and ls = ls and ps = "tw_permits w"] by simp

lemma enter_keeps: "route_keeps P (enter_turn E tenant tid)"
  by (auto simp: route_keeps_def enter_turn_def Let_def holds leases_free split: option.splits)

lemma leave_keeps: "P w \<Longrightarrow> P (leave_turn tenant tid w)"
proof -
  assume "P w"
  moreover have "leave_turn tenant tid w = w\<lparr>tw_leases := remove1 (tenant, tid) (tw_leases w), tw_permits := remove1 tenant (tw_permits w)\<rparr>"
    by (simp add: leave_turn_def)
  ultimately show ?thesis by (simp add: holds)
qed

lemma generate_keeps: "route_keeps P (generate_turn E q pl key policy redacted)"
proof -
  have "route_keeps P (choose_model E tc sf m)" for tc sf m by (rule rk_core [OF core_only]) (simp add: core_simps)
  moreover have "route_keeps P (\<lambda>w. case load_summary E tenant tid w of (summary, w1) \<Rightarrow> (Inr summary, w1))" for tenant tid
    using load_summary_core [of E tenant tid] by (intro rk_core [OF core_only]) (simp add: case_prod_beta)
  moreover have "route_keeps P (\<lambda>w. case run_turn E q pl key (turn_services E pl policy cfg provider override) redacted history summary w of
      (r, w1) \<Rightarrow> (r, leave_turn tenant tid w1))" for cfg provider override history summary tenant tid
    using run_keeps leave_keeps by (simp add: route_keeps_def case_prod_beta)
  ultimately show ?thesis unfolding generate_turn_def Let_def
    by (auto split: prod.splits intro!: keep_rules enter_keeps rk_read)
qed

lemma process_keeps: "P w \<Longrightarrow> P (snd (process_conversation E q p w))"
  using process_keeps_if [OF generate_keeps] by (simp add: route_keeps_def)

end

subsection \<open>Leases and permits\<close>

abbreviation holds_exactly :: "(string \<times> string) multiset \<Rightarrow> string multiset \<Rightarrow> 'w turn_world \<Rightarrow> bool" where
  "holds_exactly L M w \<equiv> mset (tw_leases w) = L \<and> mset (tw_permits w) = M"

lemma compact_now_holds [simp]:
  "tw_leases (snd (compact_now E pl provider model w)) = tw_leases w" "tw_permits (snd (compact_now E pl provider model w)) = tw_permits w"
proof -
  have "core (refresh_hot_tail E a b c u) = core u" for a b c u by (simp add: core_simps)
  then have "tw_leases (refresh_hot_tail E a b c u) = tw_leases u" "tw_permits (refresh_hot_tail E a b c u) = tw_permits u" for a b c u
    by (simp_all add: core_def)
  then show "tw_leases (snd (compact_now E pl provider model w)) = tw_leases w" "tw_permits (snd (compact_now E pl provider model w)) = tw_permits w"
    by (simp_all add: compact_now_def Let_def split: prod.splits sum.splits compact_result.splits)
qed

interpretation held: turn_property "holds_exactly L M" E for L M E
proof
  show "on_core (holds_exactly L M)" by (auto simp: on_core_def core_def)
qed (auto simp: bind_thread_def store_message_def add_message_def draw_def split: prod.splits sum.splits option.splits)

lemma generate_gives_back: "route_keeps (holds_exactly L M) (generate_turn E q pl key policy redacted)"
proof -
  let ?tenant = "tn_id (pl_tenant pl)" and ?tid = "pl_thread pl"
  have run: "holds_exactly L M (snd (rt_bind (enter_turn E ?tenant ?tid) (\<lambda>_ w. case run_turn E q pl key (turn_services E pl policy cfg provider override) redacted
       history summary w of (r, w1) \<Rightarrow> (r, leave_turn ?tenant ?tid w1)) w))" if w: "holds_exactly L M w" for cfg provider override history summary w
  proof (cases "tv_granted E \<and> tv_refused E = None")
    case True
    let ?w1 = "w\<lparr>tw_leases := tw_leases w @ [(?tenant, ?tid)], tw_permits := tw_permits w @ [?tenant]\<rparr>"
    have "holds_exactly (L + {#(?tenant, ?tid)#}) (M + {#?tenant#}) ?w1" using w by simp
    from held.run_keeps [OF this, of E q pl key policy cfg provider override redacted history summary] True
    show ?thesis by (simp add: rt_bind_def enter_turn_def leave_turn_def case_prod_beta)
  qed (use w in \<open>auto simp: rt_bind_def enter_turn_def Let_def split: option.splits\<close>)
  have "route_keeps (holds_exactly L M) (choose_model E tc sf m)" for tc sf m by (rule rk_core [OF held.core_only]) (simp add: core_simps)
  moreover have "route_keeps (holds_exactly L M) (\<lambda>w. case load_summary E t i w of (summary, w1) \<Rightarrow> (Inr summary, w1))" for t i
    using load_summary_core [of E t i] by (intro rk_core [OF held.core_only]) (simp add: case_prod_beta)
  moreover have "route_keeps (holds_exactly L M) (rt_bind (enter_turn E ?tenant ?tid) (\<lambda>_ w. case run_turn E q pl key (turn_services E pl policy cfg provider override) redacted
       history summary w of (r, w1) \<Rightarrow> (r, leave_turn ?tenant ?tid w1)))" for cfg provider override history summary
    using run by (simp add: route_keeps_def)
  ultimately show ?thesis unfolding generate_turn_def Let_def
    by (auto split: prod.splits intro!: rk_read wiring_keeps rk_bind [of _ "choose_model E (pl_tenant pl) (pl_surface pl) (cq_message q)"]
        rk_bind [of _ "build_governance_wiring E (pl_tenant pl) (pl_surface pl)"]
        rk_bind [of _ "\<lambda>w. case load_summary E ?tenant ?tid w of (summary, w1) \<Rightarrow> (Inr summary, w1)"]
        rk_bind [of _ "\<lambda>w. (Inr (load_history_turns (tw_threads w) ?tenant ?tid True 200), w)"])
qed

subsection \<open>The log\<close>

abbreviation log_extends :: "message_row list \<Rightarrow> conv_message list \<Rightarrow> 'w turn_world \<Rightarrow> bool" where
  "log_extends ms vs w \<equiv> prefix ms (db_messages (tw_threads w)) \<and> prefix vs (tw_projection w)"

lemma set_summary_messages: "set_summary tn tid b pos bnd req dg db = (r, db') \<Longrightarrow> db_messages db' = db_messages db"
  by (auto simp: set_summary_def Let_def split: option.splits if_splits)

lemma compact_messages: "compact cfg kb e g tn tid req t0 t1 st = (r, st') \<Longrightarrow> db_messages (cp_db st') = db_messages (cp_db st)"
  by (auto simp: compact_def truncate_fallback_def swap_checkpoint_def Let_def
      split: if_splits prod.splits sum.splits bool.splits dest: set_summary_messages)

lemma compact_now_log [simp]:
  "db_messages (tw_threads (snd (compact_now E pl provider model w))) = db_messages (tw_threads w)"
  "tw_projection (snd (compact_now E pl provider model w)) = tw_projection w"
proof -
  have "core (refresh_hot_tail E a b c u) = core u" for a b c u by (simp add: core_simps)
  then have r: "tw_threads (refresh_hot_tail E a b c u) = tw_threads u" "tw_projection (refresh_hot_tail E a b c u) = tw_projection u" for a b c u
    by (simp_all add: core_def)
  show "db_messages (tw_threads (snd (compact_now E pl provider model w))) = db_messages (tw_threads w)"
    by (auto simp: compact_now_def Let_def r split: prod.splits sum.splits compact_result.splits dest: compact_messages)
  show "tw_projection (snd (compact_now E pl provider model w)) = tw_projection w"
    by (simp add: compact_now_def Let_def r split: prod.splits sum.splits compact_result.splits)
qed

lemma bound_messages: "get_or_create_for_conversation tn c sf eu tid now db = (r, db') \<Longrightarrow> db_messages db' = db_messages db"
  by (auto simp: get_or_create_for_conversation_def create_thread_def Let_def split: list.splits)

interpretation logged: turn_invariant "log_extends ms vs" E for ms vs E
proof
  show "on_core (log_extends ms vs)" by (auto simp: on_core_def core_def)
  fix w :: "'a turn_world" and tc cid p sf tenant tid a assume w: "log_extends ms vs w"
  show "log_extends ms vs (snd (bind_thread E tc cid p sf w))"
    using w by (auto simp: bind_thread_def draw_def split: prod.splits sum.splits option.splits dest: bound_messages)
  show "log_extends ms vs (snd (store_message E tenant tid a w))"
    using w by (auto simp: store_message_def draw_def split: prod.splits sum.splits dest: append_prefix_of intro: prefix_order.trans)
qed (auto simp: add_message_def)

subsection \<open>What depends on the model\<close>

text \<open>The steps outside the generation do not look at the gateway, retrieval, memory and tools of the environment.\<close>

lemma base_free_helpers [simp]:
  "draw (E\<lparr>tv_base := b\<rparr>) = draw E"
  "resolve_request_surface (E\<lparr>tv_base := b\<rparr>) = resolve_request_surface E"
  "redact_message (E\<lparr>tv_base := b\<rparr>) = redact_message E"
  "idempotent_replay (E\<lparr>tv_base := b\<rparr>) = idempotent_replay E"
  "refresh_hot_tail (E\<lparr>tv_base := b\<rparr>) = refresh_hot_tail E"
  "record_canary_outcome (E\<lparr>tv_base := b\<rparr>) = record_canary_outcome E"
  "store_idempotent_response (E\<lparr>tv_base := b\<rparr>) = store_idempotent_response E"
  "load_effective_tenant_config (E\<lparr>tv_base := b\<rparr>) = load_effective_tenant_config E"
  "acquire_rate (E\<lparr>tv_base := b\<rparr>) = acquire_rate E"
  by (simp_all add: fun_eq_iff draw_def resolve_request_surface_def redact_message_def idempotent_replay_def refresh_hot_tail_def
      record_canary_outcome_def store_idempotent_response_def load_effective_tenant_config_def acquire_rate_def Let_def split: option.splits)

lemma base_free_writes [simp]:
  "publish_event (E\<lparr>tv_base := b\<rparr>) = publish_event E"
  "store_message (E\<lparr>tv_base := b\<rparr>) = store_message E"
  "bind_thread (E\<lparr>tv_base := b\<rparr>) = bind_thread E"
  "input_validation (E\<lparr>tv_base := b\<rparr>) = input_validation E"
  "load_tenant (E\<lparr>tv_base := b\<rparr>) = load_tenant E"
  by (auto simp: fun_eq_iff publish_event_def store_message_def bind_thread_def input_validation_def load_tenant_def split: prod.splits sum.splits option.splits)

lemma base_free_steps [simp]:
  "check_input (E\<lparr>tv_base := b\<rparr>) = check_input E"
  "get_or_create_conversation (E\<lparr>tv_base := b\<rparr>) = get_or_create_conversation E"
  "record_user_turn (E\<lparr>tv_base := b\<rparr>) = record_user_turn E"
  "answer_blocked (E\<lparr>tv_base := b\<rparr>) = answer_blocked E"
  by (auto simp: fun_eq_iff check_input_def get_or_create_conversation_def record_user_turn_def answer_blocked_def Let_def split: prod.splits)

lemma bind_differs:
  assumes "rt_bind m f w \<noteq> rt_bind m g w"
  obtains x w1 where "m w = (Inr x, w1)" "f x w1 \<noteq> g x w1"
  using assms by (auto simp: rt_bind_def split: prod.splits sum.splits)

lemma load_tenant_done:
  assumes "load_tenant E q p session w = (Inr tc, w1)"
  obtains row where "tv_tenant E (cq_tenant_slug q) = Some row" "tc = load_effective_tenant_config E row (Some (str_or (cp_end_user_id p) session))"
  using assms by (auto simp: load_tenant_def rt_bind_def rt_raise_def rt_return_def Let_def split: option.splits prod.splits sum.splits)

lemma redact_done: "redact_message E m w = (Inr redacted, w1) \<Longrightarrow> redact_message E m w2 = (Inr redacted, w2)"
  by (auto simp: redact_message_def rt_return_def rt_raise_def split: if_splits option.splits)

subsection \<open>What an answer leaves in the cache\<close>

definition answer_stored :: "'w turn_env \<Rightarrow> conversation_request \<Rightarrow> turn_reply \<Rightarrow> 'w turn_world \<Rightarrow> bool" where
  "answer_stored E q reply w = (case reply of Answered r \<Rightarrow> (\<exists>w0. tw_cache w = tw_cache (store_idempotent_response E q r w0)) | Replayed _ _ \<Rightarrow> True)"

lemma stored_later [simp]:
  "answer_stored E q reply (record_canary_outcome E' t k e b w) = answer_stored E q reply w"
  "answer_stored E q reply (publish_event E' ty t d s w) = answer_stored E q reply w"
  "answer_stored E q reply (leave_turn t tid w) = answer_stored E q reply w"
  by (simp_all add: answer_stored_def record_canary_outcome_def publish_event_def draw_def leave_turn_def split: prod.splits turn_reply.splits)

lemma stored_now [simp]: "answer_stored E q (Answered r) (store_idempotent_response E q r w)"
  by (auto simp: answer_stored_def)

abbreviation stores_answer :: "'w turn_env \<Rightarrow> conversation_request \<Rightarrow> (turn_reply, 'w) route \<Rightarrow> bool" where
  "stores_answer E q m \<equiv> \<forall>w reply w1. m w = (Inr reply, w1) \<longrightarrow> answer_stored E q reply w1"

lemma sa_bind: "(\<And>x. stores_answer E q (f x)) \<Longrightarrow> stores_answer E q (rt_bind m f)"
  by (auto simp: rt_bind_def split: prod.splits sum.splits)

lemma blocked_stores: "stores_answer E q (answer_blocked E q pl key vs)"
  by (auto simp: answer_blocked_def rt_bind_def rt_do_def rt_return_def Let_def split: prod.splits sum.splits)

lemma finish_stores: "stores_answer E q (finish_turn E q pl key st)"
  by (auto simp: finish_turn_def rt_bind_def rt_do_def rt_return_def Let_def split: prod.splits sum.splits)

lemma run_stores: "stores_answer E q (run_turn E q pl key sv redacted history summary)"
  using finish_stores [of E q pl key]
  by (auto simp: run_turn_def guard_block_def fail_turn_def Let_def split: prod.splits sum.splits http_error.splits if_splits run_error.splits turn_exc.splits)

lemma generate_stores: "stores_answer E q (generate_turn E q pl key policy redacted)"
proof -
  have "stores_answer E q (\<lambda>w. case run_turn E q pl key sv redacted history summary w of (r, w1) \<Rightarrow> (r, leave_turn tenant tid w1))"
    for sv history summary tenant tid using run_stores [of E q pl key sv redacted history summary] by (auto split: prod.splits)
  then show ?thesis unfolding generate_turn_def Let_def by (auto intro!: sa_bind split: prod.splits)
qed

lemma serve_stores: "stores_answer E q (serve_turn E q p session key)"
  unfolding serve_turn_def Let_def
  by (intro sa_bind) (auto split: prod.splits if_splits dest: blocked_stores [rule_format] generate_stores [rule_format])

lemma process_stores: "stores_answer E q (process_conversation E q p)"
  using serve_stores [of E q p] by (auto simp: process_conversation_def answer_stored_def [of _ _ "Replayed _ _"] Let_def split: prod.splits option.splits)

lemma cache_set_connected: "cx_connected (fst (snd (cache_set C now k v ttl cm w))) = cx_connected cm"
proof -
  have "cx_connected (fst (snd (cx_call now cmd cm w))) = cx_connected cm" for cmd :: "(unit, 'a) rcmd"
    by (auto simp: cx_call_def split: prod.splits cb_outcome.splits)
  then show ?thesis by (auto simp: cache_set_def Let_def split: prod.splits option.splits) (metis fst_conv snd_conv)+
qed

lemma stored_replays:
  assumes "answer_stored E q (Answered r) w1" "truthy_str (cq_idempotency_key q)" "\<not> cx_connected (tw_cache w1)"
    and "cq_tenant_slug q2 = cq_tenant_slug q" "cq_idempotency_key q2 = cq_idempotency_key q" "tv_sha E2 = tv_sha E"
  shows "fst (idempotent_replay E2 q2 w1) = Some (JInt 200, response_json r)"
proof -
  let ?k = "idem_key (tv_sha E) (the (cq_idempotency_key q)) (idem_scope q)"
  let ?v = "JObj [(''status_code'', JInt 200), (''body'', response_json r)]"
  obtain w0 where "tw_cache w1 = tw_cache (store_idempotent_response E q r w0)" using assms(1) by (auto simp: answer_stored_def)
  then obtain b rest where e: "cache_set (tv_client E) (tv_now E) ?k ?v (Some idempotency_ttl) (tw_cache w0) (tw_rest w0) = (b, tw_cache w1, rest)"
    using assms(2) by (auto simp: store_idempotent_response_def store_response_def split: prod.splits) (metis prod.collapse snd_conv)
  have "cx_connected (tw_cache w1) = cx_connected (tw_cache w0)" using e cache_set_connected by (metis fst_conv snd_conv)
  then have off: "\<not> cx_connected (tw_cache w0)" using assms(3) by simp
  have "tw_cache w1 = (tw_cache w0)\<lparr>cx_local := AList.update ?k \<lparr>ce_value = ?v, ce_ttl = get_or (Some idempotency_ttl) (cx_default_ttl (tw_cache w0)),
      ce_stored_at = tv_now E\<rparr> (cx_local (tw_cache w0))\<rparr>"
    using e off by (simp add: cache_set_def Let_def)
  with off have "cache_get (tv_client E2) (tv_now E2) ?k JNull (tw_cache w1) (tw_rest w1) = (?v, tw_cache w1, tw_rest w1)"
    by (simp add: cache_get_def local_get_def update_conv')
  moreover have "idem_scope q2 = idem_scope q" using assms(4) by (simp add: idem_scope_def)
  ultimately show ?thesis using assms(2,5,6)
    by (auto simp: idempotent_replay_def get_response_def stored_response_def get_or_def split: prod.splits)
qed

subsection \<open>The output check\<close>

lemma validator_allows: "never_refuses (turn_services E pl policy cfg provider override)"
  by (auto simp: never_refuses_def turn_services_def output_validator_def evaluate_output_def truthy_str_def Let_def
      split: option.splits prod.splits sum.splits if_splits)

section \<open>Properties\<close>

text \<open>Whatever happens to a request - a replay, a refusal, a paused conversation, a blocked input, a failure of the model, an
  exception, an answer - it leaves the leases of threads and the generation permits as it found them.\<close>

theorem turn_gives_back_its_holds:
  "mset (tw_leases (snd (process_conversation E q p w))) = mset (tw_leases w) \<and> mset (tw_permits (snd (process_conversation E q p w))) = mset (tw_permits w)"
  using held.process_keeps_if [OF generate_gives_back, of "mset (tw_leases w)" "mset (tw_permits w)" E q p] unfolding route_keeps_def by blast

text \<open>A request only appends: every row of the thread log and of the projection that was there is still there, in its place and unchanged,
  on every path, also when the turn compacts the thread.\<close>

theorem turn_only_appends:
  "prefix (db_messages (tw_threads w)) (db_messages (tw_threads (snd (process_conversation E q p w)))) \<and>
   prefix (tw_projection w) (tw_projection (snd (process_conversation E q p w)))"
  by (rule logged.process_keeps) simp

text \<open>The gateway, retrieval, memory and the tools matter only for a request whose redacted message the guardrails of its tenant have let
  pass: otherwise the reply and every effect are the same whatever they would have done.\<close>

theorem model_runs_behind_guardrails:
  "process_conversation (E\<lparr>tv_base := b\<rparr>) q p w = process_conversation E q p w \<or>
   (\<exists>row session cid redacted w1 vs. tv_tenant E (cq_tenant_slug q) = Some row \<and> fst (redact_message E (cq_message q) w1) = Inr redacted \<and>
      fst (check_input E (load_effective_tenant_config E row (Some (str_or (cp_end_user_id p) session))) cid session redacted w1) = Inr (False, vs))"
  (is "?same \<or> ?passed")
proof (cases ?same)
  case False
  then obtain w2 session key where "serve_turn (E\<lparr>tv_base := b\<rparr>) q p session key w2 \<noteq> serve_turn E q p session key w2"
    by (auto simp: process_conversation_def Let_def split: prod.splits option.splits)
  then have "\<exists>tc w3 cid redacted w4 w5 w6 w7 vs. load_tenant E q p session w2 = (Inr tc, w3) \<and>
      redact_message E (cq_message q) w4 = (Inr redacted, w5) \<and> check_input E tc cid session redacted w6 = (Inr (False, vs), w7)"
    unfolding serve_turn_def Let_def by (fastforce elim!: bind_differs split: prod.splits if_splits)
  then obtain tc w3 cid redacted w4 w5 w6 w7 vs where t: "load_tenant E q p session w2 = (Inr tc, w3)"
    and r: "redact_message E (cq_message q) w4 = (Inr redacted, w5)" and c: "check_input E tc cid session redacted w6 = (Inr (False, vs), w7)" by blast
  from redact_done [OF r, of w6] have "fst (redact_message E (cq_message q) w6) = Inr redacted" by simp
  with c show ?thesis by (intro disjI2) (rule load_tenant_done [OF t], metis fst_conv)
qed simp

text \<open>
  A request with the key and the slug of an answered one gets that answer back, whoever asks and whatever it asks: the stored
  response is looked up before the tenant of the principal is compared, and its scope is the slug of the request alone. The process runs on its own
  dictionary here.
\<close>

theorem answer_replayed_for_anyone:
  assumes "process_conversation E q p w = (Inr (Answered r), w1)" and "truthy_str (cq_idempotency_key q)" and "\<not> cx_connected (tw_cache w1)"
    and "cq_tenant_slug q2 = cq_tenant_slug q" and "cq_idempotency_key q2 = cq_idempotency_key q" and "tv_sha E2 = tv_sha E"
  shows "fst (process_conversation E2 q2 p2 w1) = Inr (Replayed (JInt 200) (response_json r))"
proof -
  have "answer_stored E q (Answered r) w1" using process_stores assms(1) by blast
  from stored_replays [OF this assms(2-6)] show ?thesis by (auto simp: process_conversation_def split: prod.splits)
qed

text \<open>
  No answer of the loop is withheld: the output validator names no schema, so its check never refuses, and the notice for a refused output is
  never released.
\<close>

theorem no_answer_is_withheld:
  assumes "process_message (turn_services E pl policy cfg provider override) message session conv history summary position layers w = (Inr st, w1)"
  shows "released_texts st = (str_or (ag_output_raw st) (get_or (ag_response st) []), get_or (ag_response st) [])"
  using process_message_unrefused [OF validator_allows assms] by (simp add: released_texts_def unrefused_def)

text \<open>A response that the policy blocks is stored and returned like any other: the action only goes to the evidence.\<close>

theorem policy_action_is_ignored:
  "finish_turn E q pl key (st\<lparr>ag_policy_action := a\<rparr>) = finish_turn E q pl key st"
  by (simp add: finish_turn_def released_texts_def)

end
