(* ===== verification/Stream_Route.thy ===== *)
theory Stream_Route
  imports Turn_Route Moderation Stream_Buffer
begin

text \<open>
  The streamed turn, \<open>POST /conversations/stream\<close> (\<open>api/routes/conversations.py\<close>): \<open>stream_conversation\<close> with its event generator,
  composed of the operations of the turn route, the agent loop's stream, the moderation window and the stream buffer. The reply is the
  list of the frames a client that stays connected receives. The turn itself runs in a task of its own to which the generator only
  listens - a generator that stops early cancels the listener, whose \<open>finally\<close> awaits the turn - so the model runs
  the turn and then hands its events out. Heartbeats carry nothing and are left out; each moderation window is checked
  in the state before the turn, and the evidence of these checks is left out.
\<close>

section \<open>Definitions\<close>

record 'w stream_env =
  st_turn :: "'w turn_env"
  st_lists :: "'w list_store"
  st_up :: bool
  st_default_window :: int
  st_sent :: "string list"

record sse_frame =
  fr_event :: string
  fr_data :: json
  fr_id :: "nat option"

definition sse :: "string \<Rightarrow> json \<Rightarrow> nat option \<Rightarrow> sse_frame" where
  "sse event data i = \<lparr>fr_event = event, fr_data = data, fr_id = i\<rparr>"

type_synonym 'w stream_state = "'w turn_world \<times> stream_buffer"

definition on_world :: "('w turn_world \<Rightarrow> 'w turn_world) \<Rightarrow> 'w stream_state \<Rightarrow> 'w stream_state" where
  "on_world f s = (f (fst s), snd s)"

definition buffer_append :: "'w stream_env \<Rightarrow> scope \<Rightarrow> string \<Rightarrow> json \<Rightarrow> 'w stream_state \<Rightarrow> nat \<times> 'w stream_state" where
  "buffer_append S sc ty data s =
     (case sb_append (st_lists S) (st_up S) (tv_now (st_turn S)) sc ty data (snd s, tw_rest (fst s)) of
        (i, sb, r) \<Rightarrow> (i, (fst s)\<lparr>tw_rest := r\<rparr>, sb))"

definition mark_terminal :: "'w stream_env \<Rightarrow> scope \<Rightarrow> string \<Rightarrow> json \<Rightarrow> 'w stream_state \<Rightarrow> 'w stream_state" where
  "mark_terminal S sc ty data s = snd (buffer_append S sc ty data s)"

subsection \<open>Replay\<close>

definition last_event_id :: "string option \<Rightarrow> int" where
  "last_event_id raw = (case raw of None \<Rightarrow> 0 | Some s \<Rightarrow> if s = [] then 0 else get_or (py_int s) 0)"

text \<open>A number from the client asks for a replay; an idempotency key gets one when the stream it names has a terminal event.\<close>

definition wants_replay :: "'w stream_env \<Rightarrow> conversation_request \<Rightarrow> scope \<Rightarrow> int \<Rightarrow> 'w stream_state \<Rightarrow> bool \<times> 'w stream_state" where
  "wants_replay S q sc after s =
     (if 0 < after then (True, s)
      else if truthy_str (cq_idempotency_key q)
           then case get_terminal (st_lists S) (st_up S) (tv_now (st_turn S)) sc (snd s, tw_rest (fst s)) of
                  (t, sb, r) \<Rightarrow> (t \<noteq> None, (fst s)\<lparr>tw_rest := r\<rparr>, sb)
           else (False, s))"

definition replay_frame :: "chunk \<Rightarrow> sse_frame list" where
  "replay_frame c =
     (if ck_type c = ''delta'' then [sse ''delta'' (JObj [(''content'', jget_or (ck_data c) ''content'' JNull)]) (Some (ck_id c))]
      else if ck_type c = ''result'' \<or> ck_type c = ''error'' then [sse (ck_type c) (ck_data c) (Some (ck_id c))] else [])"

definition replay_stream :: "'w stream_env \<Rightarrow> scope \<Rightarrow> int \<Rightarrow> 'w stream_state \<Rightarrow> sse_frame list \<times> 'w stream_state" where
  "replay_stream S sc after s =
     (case sb_replay (st_lists S) (st_up S) (tv_now (st_turn S)) sc (nat after) (snd s, tw_rest (fst s)) of
        (cs, sb, r) \<Rightarrow> (concat (map replay_frame cs), (fst s)\<lparr>tw_rest := r\<rparr>, sb))"

subsection \<open>Delivery of the turn's events\<close>

datatype stream_end = Truncated "string list" | Failed string | Finished string rat bool | Ended

definition delta_data :: "string \<Rightarrow> json" where
  "delta_data s = JObj [(''content'', JStr s)]"

text \<open>The loop over the queue: how it ended, the frames, the window, the number of the last delta that was sent.\<close>

fun pump ::
  "'w stream_env \<Rightarrow> scope \<Rightarrow> client_event list \<Rightarrow> moderation_window \<Rightarrow> nat option \<Rightarrow> 'w stream_state
     \<Rightarrow> stream_end \<times> sse_frame list \<times> moderation_window \<times> nat option \<times> 'w stream_state" where
  "pump S sc [] mw released s = (Ended, [], mw, released, s)"
| "pump S sc (ClientDelta piece # es) mw released s =
     (case push piece mw of
        (None, mw1) \<Rightarrow> pump S sc es mw1 released s
      | (Some r, mw1) \<Rightarrow>
          if wr_truncated r then (Truncated (wr_violations r), [], mw1, released, s)
          else case buffer_append S sc ''delta'' (delta_data (wr_text r)) s of
                 (seq, s1) \<Rightarrow>
                   (case pump S sc es mw1 (Some seq) s1 of
                      (e, fs, rest) \<Rightarrow> (e, sse ''delta'' (delta_data (wr_text r)) (Some seq) # fs, rest)))"
| "pump S sc (ClientError e # es) mw released s =
     (Failed e, [sse ''error'' (JObj [(''error'', JStr e)]) None], mw, released, mark_terminal S sc ''error'' (JObj [(''error'', JStr e)]) s)"
| "pump S sc (ClientResult response confidence act handoff exceeded # es) mw released s = (Finished response confidence handoff, [], mw, released, s)"

definition withdraw ::
  "'w stream_env \<Rightarrow> turn_place \<Rightarrow> string \<Rightarrow> scope \<Rightarrow> string \<Rightarrow> string list \<Rightarrow> nat option \<Rightarrow> 'w stream_state \<Rightarrow> sse_frame list \<times> 'w stream_state" where
  "withdraw S pl key sc reason vs released s =
     (let E = st_turn S; tenant = tn_id (pl_tenant pl); found = JList (map JStr vs);
          s1 = mark_terminal S sc ''error'' (JObj [(''error'', JStr ''output_moderation_redaction''), (''reason'', JStr reason), (''violations'', found)]) s
      in ([sse ''redaction'' (JObj [(''violations'', found)]) None,
           sse ''retraction'' (JObj [(''violations'', found), (''retract_from_event_id'', case released of None \<Rightarrow> JNull | Some i \<Rightarrow> JInt (int i))]) None],
          on_world (\<lambda>w. record_canary_outcome E tenant key False True
             (publish_event E ''guardrail.blocked'' tenant [(''reason'', JStr reason), (''violations'', found)] (pl_session pl) w)) s1))"

text \<open>Persisting a finished answer.\<close>

definition record_streamed :: "'w turn_env \<Rightarrow> turn_place \<Rightarrow> string \<Rightarrow> string \<Rightarrow> rat \<Rightarrow> bool \<Rightarrow> (unit, 'w) route" where
  "record_streamed E pl raw text confidence handoff =
     (let tc = pl_tenant pl; cid = pl_conversation pl
      in rt_bind (rt_do (add_message cid ''assistant'' raw (Some text))) (\<lambda>_.
         rt_bind (store_message E (tn_id tc) (pl_thread pl)
                    ((message_args ''assistant'' raw text cid)
                       \<lparr>ap_parent := Some (pl_user_message pl),
                        ap_metadata := [(''confidence'', JNum confidence), (''handoff_required'', JBool handoff), (''streamed'', JBool True)]\<rparr>)) (\<lambda>_.
         rt_do (\<lambda>w.
           let w1 = enqueue_memory_extract E tc (pl_thread pl) (enqueue_tool_clear E tc (pl_thread pl) (refresh_hot_tail E (tn_id tc) (pl_thread pl) None w));
               w2 = (if handoff
                     then publish_event E ''escalation.raised'' (tn_id tc) [(''session_id'', JStr (pl_session pl)), (''conversation_id'', JStr cid)]
                            (pl_session pl) (w1\<lparr>tw_convs := cv_mark_escalated cid (tw_convs w1)\<rparr>)
                     else w1)
           in publish_event E ''conversation.completed'' (tn_id tc)
                [(''session_id'', JStr (pl_session pl)), (''streamed'', JBool True), (''handoff_required'', JBool handoff), (''confidence'', JNum confidence)]
                (pl_session pl) w2))))"

definition result_data :: "turn_place \<Rightarrow> string \<Rightarrow> rat \<Rightarrow> bool \<Rightarrow> json" where
  "result_data pl text confidence handoff =
     JObj [(''response'', JStr text), (''confidence'', JNum confidence), (''handoff_required'', JBool handoff), (''thread_id'', JStr (pl_thread pl))]"

definition fail_stream :: "'w stream_env \<Rightarrow> turn_place \<Rightarrow> string \<Rightarrow> scope \<Rightarrow> string \<Rightarrow> 'w stream_state \<Rightarrow> sse_frame list \<times> 'w stream_state" where
  "fail_stream S pl key sc detail s =
     ([sse ''error'' (JObj [(''error'', JStr detail)]) None],
      on_world (record_canary_outcome (st_turn S) (tn_id (pl_tenant pl)) key True False) (mark_terminal S sc ''error'' (JObj [(''error'', JStr detail)]) s))"

definition complete_stream ::
  "'w stream_env \<Rightarrow> turn_place \<Rightarrow> string \<Rightarrow> scope \<Rightarrow> string \<Rightarrow> rat \<Rightarrow> bool \<Rightarrow> 'w stream_state \<Rightarrow> sse_frame list \<times> 'w stream_state" where
  "complete_stream S pl key sc response confidence handoff s =
     (let E = st_turn S
      in case (if response = [] then (Inr \<lparr>oc_allowed = True, oc_redacted_text = None\<rparr>, fst s) else output_validator E pl response (fst s)) of
           (Inl e, w1) \<Rightarrow> fail_stream S pl key sc (exc_text e) (w1, snd s)
         | (Inr check, w1) \<Rightarrow>
             (let text = str_or (oc_redacted_text check) response
              in case record_streamed E pl response text confidence handoff w1 of
                   (Inl (Http n d), w2) \<Rightarrow> fail_stream S pl key sc d (w2, snd s)
                 | (Inr _, w2) \<Rightarrow>
                     (let data = result_data pl text confidence handoff
                      in ([sse ''result'' data None],
                          on_world (record_canary_outcome E (tn_id (pl_tenant pl)) key False False) (mark_terminal S sc ''result'' data (w2, snd s))))))"

definition flush_stream ::
  "'w stream_env \<Rightarrow> turn_place \<Rightarrow> string \<Rightarrow> scope \<Rightarrow> moderation_window \<Rightarrow> nat option \<Rightarrow> string \<Rightarrow> rat \<Rightarrow> bool \<Rightarrow> 'w stream_state
     \<Rightarrow> sse_frame list \<times> 'w stream_state" where
  "flush_stream S pl key sc mw released response confidence handoff s =
     (case fst (finish mw) of
        None \<Rightarrow> complete_stream S pl key sc response confidence handoff s
      | Some r \<Rightarrow>
          if wr_truncated r then withdraw S pl key sc ''content_moderation_tail'' (wr_violations r) released s
          else if wr_text r = [] then complete_stream S pl key sc response confidence handoff s
          else case buffer_append S sc ''delta'' (delta_data (wr_text r)) s of
                 (seq, s1) \<Rightarrow>
                   (case complete_stream S pl key sc response confidence handoff s1 of
                      (fs, s2) \<Rightarrow> (sse ''delta'' (delta_data (wr_text r)) (Some seq) # fs, s2)))"

definition deliver_events ::
  "'w stream_env \<Rightarrow> turn_place \<Rightarrow> string \<Rightarrow> scope \<Rightarrow> moderation_window \<Rightarrow> client_event list \<Rightarrow> 'w stream_state \<Rightarrow> sse_frame list \<times> 'w stream_state" where
  "deliver_events S pl key sc mw es s =
     (case pump S sc es mw None s of
        (e, fs, mw1, released, s1) \<Rightarrow>
          (case e of
             Finished response confidence handoff \<Rightarrow>
               (case flush_stream S pl key sc mw1 released response confidence handoff s1 of (gs, s2) \<Rightarrow> (fs @ gs, s2))
           | Truncated vs \<Rightarrow> (case withdraw S pl key sc ''content_moderation'' vs released s1 of (gs, s2) \<Rightarrow> (fs @ gs, s2))
           | _ \<Rightarrow> (fs, s1)))"

subsection \<open>The generator\<close>

text \<open>The answers of the guardrails to the windows of the answer.\<close>

definition window_validator :: "'w turn_env \<Rightarrow> turn_place \<Rightarrow> 'w turn_world \<Rightarrow> validator" where
  "window_validator E pl w n text =
     (case fst (output_validator E pl text w) of
        Inl _ \<Rightarrow> None
      | Inr c \<Rightarrow> Some \<lparr>vd_allowed = oc_allowed c, vd_redacted_text = oc_redacted_text c, vd_violations = []\<rparr>)"

definition new_window :: "'w stream_env \<Rightarrow> turn_place \<Rightarrow> 'w turn_world \<Rightarrow> window_error + moderation_window" where
  "new_window S pl w =
     (if tv_presidio (st_turn S)
      then mw_create (Some (window_validator (st_turn S) pl w)) (num_or (tn_stream_moderation_window_chars (pl_tenant pl)) (st_default_window S)) ''[content withheld]''
      else mw_create None 400 ''[content withheld]'')"

definition stream_services :: "'w turn_env \<Rightarrow> turn_place \<Rightarrow> policy_set \<Rightarrow> gateway_cfg \<Rightarrow> string \<Rightarrow> string option \<Rightarrow> 'w turn_world services" where
  "stream_services E pl policy cfg provider override =
     (turn_services E pl policy cfg provider override)
       \<lparr>os_stream := map_option (\<lambda>f q. on_rest (f q)) (os_stream (tv_base E cfg)), os_validator := None\<rparr>"

definition blocked_stream :: "'w stream_env \<Rightarrow> turn_place \<Rightarrow> string \<Rightarrow> safety_violation list \<Rightarrow> 'w stream_state \<Rightarrow> (http_error + sse_frame list) \<times> 'w stream_state" where
  "blocked_stream S pl key vs s =
     (let E = st_turn S; tc = pl_tenant pl; found = JList (map (tv_violation E) vs)
      in case rt_bind (rt_do (add_message (pl_conversation pl) ''assistant'' refusal_text None)) (\<lambda>_.
              store_message E (tn_id tc) (pl_thread pl)
                ((message_args ''assistant'' refusal_text refusal_text (pl_conversation pl))
                   \<lparr>ap_parent := Some (pl_user_message pl), ap_metadata := [(''blocked'', JBool True), (''violations'', found)]\<rparr>)) (fst s) of
           (Inl e, w1) \<Rightarrow> (Inl e, w1, snd s)
         | (Inr _, w1) \<Rightarrow>
             (Inr [sse ''result'' (result_data pl refusal_text 1 False) None],
              record_canary_outcome E (tn_id tc) key False True (refresh_hot_tail E (tn_id tc) (pl_thread pl) None w1), snd s))"

definition opening_frames :: "'w turn_env \<Rightarrow> turn_place \<Rightarrow> bool \<times> bool \<times> safety_violation list \<Rightarrow> string option \<times> int option \<times> string list option \<Rightarrow> sse_frame list" where
  "opening_frames E pl check summary =
     (case (check, summary) of
        ((valid, blocked, vs), (_, position, layers)) \<Rightarrow>
          [sse ''session'' (JObj [(''session_id'', JStr (pl_session pl)), (''thread_id'', JStr (pl_thread pl))]) None,
           sse ''guardrails'' (JObj [(''valid'', JBool valid), (''blocked'', JBool blocked), (''violations'', JList (map (tv_violation E) vs))]) None]
          @ (case position of None \<Rightarrow> []
             | Some n \<Rightarrow> [sse ''compaction'' (JObj [(''position'', JInt n), (''layer_count'', JInt (int (length (get_or layers []))))]) None]))"

definition error_frame :: "string \<Rightarrow> sse_frame" where
  "error_frame e = sse ''error'' (JObj [(''error'', JStr e)]) None"

text \<open>Behind the lease and the admission: the turn and the delivery of its events.\<close>

definition generate_stream ::
  "'w stream_env \<Rightarrow> turn_place \<Rightarrow> string \<Rightarrow> scope \<Rightarrow> 'w turn_world services \<Rightarrow> string \<Rightarrow> context_turn list
     \<Rightarrow> string option \<times> int option \<times> string list option \<Rightarrow> moderation_window \<Rightarrow> 'w stream_state \<Rightarrow> sse_frame list \<times> 'w stream_state" where
  "generate_stream S pl key sc sv redacted history summary mw s =
     (let tenant = tn_id (pl_tenant pl); tid = pl_thread pl
      in case enter_turn (st_turn S) tenant tid (fst s) of
           (Inl _, w1) \<Rightarrow>
             ([error_frame (if \<not> tv_granted (st_turn S) then ''Another message is being processed for this thread. Retry in 15s.''
                 else ''Concurrent generation limit exceeded. Retry in '' @ py_str_int \<lfloor>get_or (tv_refused (st_turn S)) 0\<rfloor> @ ''s.'')], w1, snd s)
         | (Inr _, w1) \<Rightarrow>
             (case summary of
                (content, position, layers) \<Rightarrow>
                  (case process_message sv redacted (pl_session pl) (Some (pl_conversation pl)) history content position (get_or layers []) w1 of
                     (res, w2) \<Rightarrow>
                       (let w3 = (case res of Inr st \<Rightarrow> emit_decision_evidence pl st w2 | Inl _ \<Rightarrow> w2)
                        in case deliver_events S pl key sc mw (stream_message_events (st_sent S) res) (w3, snd s) of
                             (fs, s4) \<Rightarrow> (fs, on_world (leave_turn tenant tid) s4)))))"

subsection \<open>The route\<close>

definition open_turn ::
  "'w turn_env \<Rightarrow> conversation_request \<Rightarrow> conversation_principal \<Rightarrow> string
     \<Rightarrow> (tenant_config \<times> policy_set \<times> string \<times> surface option \<times> string \<times> string, 'w) route" where
  "open_turn E q p session =
     rt_bind (load_tenant E q p session) (\<lambda>tc.
     rt_bind (\<lambda>w. case load_or_create_policy_set tc w of (s, w') \<Rightarrow> (Inr s, w')) (\<lambda>policy.
     rt_bind (get_or_create_conversation E tc session) (\<lambda>conv.
     rt_bind (resolve_request_surface E tc p) (\<lambda>sf.
     rt_bind (bind_thread E tc (conversation_row.cv_id conv) p sf) (\<lambda>thread.
     rt_bind (\<lambda>w. case draw E w of (u, w') \<Rightarrow> (Inr (str_or (cq_idempotency_key q) (''req-'' @ u)), w')) (\<lambda>request_id.
     rt_return (tc, policy, conversation_row.cv_id conv, sf, th_id thread, request_id)))))))"

record stream_plan =
  sp_place :: turn_place
  sp_redacted :: string
  sp_check :: "bool \<times> bool \<times> safety_violation list"
  sp_history :: "context_turn list"
  sp_summary :: "string option \<times> int option \<times> string list option"
  sp_provider :: string
  sp_override :: "string option"
  sp_cfg :: gateway_cfg

definition prepare_stream ::
  "'w turn_env \<Rightarrow> conversation_request \<Rightarrow> conversation_principal \<Rightarrow> string \<Rightarrow> tenant_config \<Rightarrow> string \<Rightarrow> surface option \<Rightarrow> string \<Rightarrow> string
     \<Rightarrow> (stream_plan, 'w) route" where
  "prepare_stream E q p session tc cid sf tid request_id =
     rt_bind (redact_message E (cq_message q)) (\<lambda>redacted.
     rt_bind (record_user_turn E q p tc cid tid request_id redacted) (\<lambda>user.
     rt_bind (input_validation E tc cid session redacted) (\<lambda>check.
     rt_bind (\<lambda>w. (Inr (load_history_turns (tw_threads w) (tn_id tc) tid True 200), w)) (\<lambda>history.
     rt_bind (\<lambda>w. case load_summary E (tn_id tc) tid w of (summary, w1) \<Rightarrow> (Inr summary, w1)) (\<lambda>summary.
     rt_bind (choose_model E tc sf (cq_message q)) (\<lambda>(provider, override).
     rt_bind (build_governance_wiring E tc sf) (\<lambda>cfg.
     rt_return \<lparr>sp_place = \<lparr>pl_tenant = tc, pl_thread = tid, pl_conversation = cid, pl_user_message = ms_id user, pl_request = request_id,
                             pl_session = session, pl_surface = sf, pl_end_user = cp_end_user_id p\<rparr>,
                sp_redacted = redacted, sp_check = check, sp_history = history, sp_summary = summary,
                sp_provider = provider, sp_override = override, sp_cfg = cfg\<rparr>)))))))"

definition run_plan :: "'w stream_env \<Rightarrow> string \<Rightarrow> scope \<Rightarrow> policy_set \<Rightarrow> stream_plan \<Rightarrow> 'w stream_state \<Rightarrow> (http_error + sse_frame list) \<times> 'w stream_state" where
  "run_plan S key sc policy pn s =
     (let E = st_turn S; pl = sp_place pn; first = opening_frames E pl (sp_check pn) (sp_summary pn)
      in case new_window S pl (fst s) of
           Inl _ \<Rightarrow> (Inl (internal_error ''window_size must be > 0''), s)
         | Inr mw \<Rightarrow>
             (case sp_check pn of
                (valid, blocked, vs) \<Rightarrow>
                  if \<not> valid \<and> blocked
                  then (case blocked_stream S pl key vs s of (Inl e, s1) \<Rightarrow> (Inl e, s1) | (Inr fs, s1) \<Rightarrow> (Inr (first @ fs), s1))
                  else (case generate_stream S pl key sc (stream_services E pl policy (sp_cfg pn) (sp_provider pn) (sp_override pn)) (sp_redacted pn)
                               (sp_history pn) (sp_summary pn) mw s of
                          (fs, s1) \<Rightarrow> (Inr (first @ fs), s1))))"

definition stream_conversation ::
  "'w stream_env \<Rightarrow> conversation_request \<Rightarrow> string option \<Rightarrow> conversation_principal \<Rightarrow> 'w stream_state \<Rightarrow> (http_error + sse_frame list) \<times> 'w stream_state" where
  "stream_conversation S q raw_last p s =
     (let E = st_turn S
      in case draw E (fst s) of
           (uid, w0) \<Rightarrow>
             (let session = str_or (cq_session_id q) uid; key = str_or (cp_end_user_id p) session
              in case open_turn E q p session w0 of
                   (Inl e, w1) \<Rightarrow> (Inl e, w1, snd s)
                 | (Inr (tc, policy, cid, sf, tid, request_id), w1) \<Rightarrow>
                     (let sc = (tn_id tc, tid, request_id); after = last_event_id raw_last
                      in case wants_replay S q sc after (w1, snd s) of
                           (True, s2) \<Rightarrow> (case replay_stream S sc after s2 of (fs, s3) \<Rightarrow> (Inr fs, s3))
                         | (False, s2) \<Rightarrow>
                             (case prepare_stream E q p session tc cid sf tid request_id (fst s2) of
                                (Inl e, w3) \<Rightarrow> (Inl e, w3, snd s2)
                              | (Inr pn, w3) \<Rightarrow> run_plan S key sc policy pn (w3, snd s2)))))"

section \<open>Lemmas\<close>

subsection \<open>What the stream leaves alone\<close>

lemma buffer_append_core [core_simps]: "core (fst (snd (buffer_append S sc ty d s))) = core (fst s)"
  by (simp add: buffer_append_def core_def split: prod.splits)

lemma mark_terminal_core [core_simps]: "core (fst (mark_terminal S sc ty d s)) = core (fst s)"
  by (simp add: mark_terminal_def core_simps)

lemma wants_replay_core [core_simps]: "core (fst (snd (wants_replay S q sc after s))) = core (fst s)"
  by (simp add: wants_replay_def core_def split: prod.splits)

lemma replay_stream_core [core_simps]: "core (fst (snd (replay_stream S sc after s))) = core (fst s)"
  by (simp add: replay_stream_def core_def split: prod.splits)

lemma pump_core: "core (fst (snd (snd (snd (snd (pump S sc es mw released s)))))) = core (fst s)"
proof (induction es arbitrary: mw released s)
  case (Cons x es)
  then show ?case by (cases x) (simp_all add: case_prod_beta core_simps split: option.splits)
qed simp

lemma withdraw_core [core_simps]: "core (fst (snd (withdraw S pl key sc reason vs released s))) = core (fst s)"
  by (simp add: withdraw_def on_world_def core_simps Let_def)

lemma fail_stream_core [core_simps]: "core (fst (snd (fail_stream S pl key sc detail s))) = core (fst s)"
  by (simp add: fail_stream_def on_world_def core_simps)

context turn_property
begin

lemma record_streamed_keeps: "route_keeps P (record_streamed E pl raw text confidence handoff)"
  unfolding record_streamed_def Let_def
  by (intro keep_rules store_keeps project_keeps rk_do) (auto simp: core_simps intro: coreD [rotated])

lemma complete_keeps:
  assumes "st_turn S = E" "P (fst s)"
  shows "P (fst (snd (complete_stream S pl key sc response confidence handoff s)))"
proof -
  have v: "P (snd (output_validator E pl response (fst s)))" by (rule coreD [OF _ assms(2)]) (simp add: core_simps)
  then have "P (snd (record_streamed E pl response t confidence handoff (snd (output_validator E pl response (fst s)))))"
      "P (snd (record_streamed E pl response t confidence handoff (fst s)))" for t
    using record_streamed_keeps assms(2) by (simp_all add: route_keeps_def)
  moreover have "P (fst (snd (fail_stream S pl key sc d u)))" "P (record_canary_outcome E tenant key b1 b2 (fst (mark_terminal S sc ty data u)))"
    if "P (fst u)" for d u tenant b1 b2 ty data by (rule coreD [OF _ that], simp add: core_simps)+
  ultimately show ?thesis using v assms
    by (cases "response = []") (simp_all add: complete_stream_def on_world_def case_prod_beta Let_def split: sum.splits http_error.splits)
qed

lemma flush_keeps:
  assumes "st_turn S = E" "P (fst s)"
  shows "P (fst (snd (flush_stream S pl key sc mw released response confidence handoff s)))"
proof -
  have "P (fst (snd (buffer_append S sc ''delta'' d s)))" "P (fst (snd (withdraw S pl key sc reason vs released s)))" for d reason vs
    by (rule coreD [OF _ assms(2)], simp add: core_simps)+
  with assms show ?thesis
    by (simp add: flush_stream_def complete_keeps case_prod_beta split: option.splits)
qed

lemma deliver_keeps:
  assumes "st_turn S = E" "P (fst s)"
  shows "P (fst (snd (deliver_events S pl key sc mw es s)))"
proof -
  obtain e fs mw1 r1 s1 where p: "pump S sc es mw None s = (e, fs, mw1, r1, s1)" by (metis prod_cases5)
  have "P (fst s1)" by (rule coreD [OF _ assms(2)]) (use pump_core [of S sc es mw None s] p in simp)
  moreover from this have "P (fst (snd (withdraw S pl key sc reason vs r1 s1)))" for reason vs
    by (rule coreD [rotated]) (simp add: core_simps)
  ultimately show ?thesis using p flush_keeps [OF assms(1), of s1] by (simp add: deliver_events_def case_prod_beta split: stream_end.splits)
qed

lemma rest_keeps: "P u \<Longrightarrow> P (snd (on_rest f u))"
  by (rule coreD [rotated]) (simp_all add: core_simps)

lemma stream_turn_keeps:
  assumes "P w" "process_message (stream_services E pl policy cfg provider override) m session conv history summary position layers w = (r, w1)"
  shows "P w1"
proof -
  have st: "on_some (\<lambda>f. \<forall>q w. P w \<longrightarrow> P (snd (f q w))) (map_option (\<lambda>f q. on_rest (f q)) x)" for x :: "(gateway_request \<Rightarrow> 'w \<Rightarrow> turn_event list \<times> 'w) option"
    by (cases x) (simp_all add: rest_keeps)
  have "services_keep P (stream_services E pl policy cfg provider override)"
    using services_keeps [of pl policy cfg provider override] st by (simp add: services_keep_def stream_services_def)
  from process_message_keeps [OF this assms] show ?thesis .
qed

lemma turn_and_delivery_keep:
  assumes "st_turn S = E" "P w"
    and "process_message (stream_services E pl policy cfg provider override) m session conv history summary position layers w = (res, w2)"
  shows "P (fst (snd (deliver_events S pl key sc mw es (case res of Inr st \<Rightarrow> emit_decision_evidence pl st w2 | Inl _ \<Rightarrow> w2, sb))))"
proof -
  have "P w2" by (rule stream_turn_keeps [OF assms(2,3)])
  moreover from this have "P (emit_decision_evidence pl st w2)" for st by (rule coreD [rotated]) (simp add: core_simps)
  ultimately show ?thesis by (intro deliver_keeps [OF assms(1)]) (auto split: sum.splits)
qed

lemma open_keeps: "route_keeps P (open_turn E q p session)"
proof -
  have "route_keeps P (\<lambda>w. case load_or_create_policy_set tc w of (s, w') \<Rightarrow> (Inr s, w'))" for tc
    using policy_set_core [of tc] by (intro rk_core [OF core_only]) (simp add: case_prod_beta)
  moreover have "route_keeps P (\<lambda>w. case draw E w of (u, w') \<Rightarrow> (Inr (g u), w'))" for g :: "string \<Rightarrow> string"
    by (rule rk_core [OF core_only]) (simp add: draw_def core_def)
  moreover have "route_keeps P (bind_thread E tc cid p sf)" for tc cid sf by (simp add: route_keeps_def bind)
  ultimately show ?thesis unfolding open_turn_def
    by (intro keep_rules load_tenant_keeps [OF core_only] conversation_keeps) auto
qed

lemma prepare_keeps: "route_keeps P (prepare_stream E q p session tc cid sf tid request_id)"
proof -
  have "route_keeps P (\<lambda>w. case load_summary E tenant i w of (summary, w1) \<Rightarrow> (Inr summary, w1))" for tenant i
    using load_summary_core [of E tenant i] by (intro rk_core [OF core_only]) (simp add: case_prod_beta)
  moreover have "route_keeps P (input_validation E tc cid session redacted)" for redacted
    by (rule rk_core [OF core_only]) (simp add: core_simps)
  moreover have "route_keeps P (choose_model E tc sf m)" for m by (rule rk_core [OF core_only]) (simp add: core_simps)
  ultimately show ?thesis unfolding prepare_stream_def
    by (auto split: prod.splits intro!: keep_rules user_turn_keeps rk_read)
qed

lemma blocked_stream_keeps: "st_turn S = E \<Longrightarrow> P (fst s) \<Longrightarrow> P (fst (snd (blocked_stream S pl key vs s)))"
proof -
  assume e: "st_turn S = E" and s: "P (fst s)"
  have "route_keeps P (rt_bind (rt_do (add_message c r t x)) (\<lambda>_. store_message E tenant tid a))" for c r t x tenant tid a
    by (intro keep_rules store_keeps project_keeps)
  then have "P (snd (rt_bind (rt_do (add_message c r t x)) (\<lambda>_. store_message E tenant tid a) (fst s)))" for c r t x tenant tid a
    using s by (simp add: route_keeps_def)
  moreover have "P (record_canary_outcome E t1 key b1 b2 (refresh_hot_tail E t2 i y u))" if "P u" for t1 b1 b2 t2 i y u
    by (rule coreD [OF _ that]) (simp add: core_simps)
  ultimately show ?thesis using e by (simp add: blocked_stream_def case_prod_beta Let_def split: sum.splits)
qed

lemma stream_keeps_if:
  assumes "st_turn S = E"
    and g: "\<And>pl key sc policy cfg provider override redacted history summary mw s. P (fst s)
        \<Longrightarrow> P (fst (snd (generate_stream S pl key sc (stream_services E pl policy cfg provider override) redacted history summary mw s)))"
    and s: "P (fst s)"
  shows "P (fst (snd (stream_conversation S q raw p s)))"
proof -
  have plan: "P (fst (snd (run_plan S key sc policy pn u)))" if "P (fst u)" for key sc policy pn u
    using that g [of u] blocked_stream_keeps [OF assms(1), of u] assms(1)
    by (simp add: run_plan_def case_prod_beta Let_def split: sum.splits)
  have 0: "P (snd (draw E (fst s)))" by (rule coreD [OF _ s]) simp
  have 1: "P (snd (open_turn E q p session (snd (draw E (fst s)))))" for session using open_keeps 0 by (simp add: route_keeps_def)
  have 2: "P (fst (snd (wants_replay S q sc after u)))" "P (fst (snd (replay_stream S sc after u)))" if "P (fst u)" for sc after u
    by (rule coreD [OF _ that], simp add: core_simps)+
  have 3: "P (snd (prepare_stream E q p session tc cid sf tid rid u))" if "P u" for session tc cid sf tid rid u
    using prepare_keeps that by (simp add: route_keeps_def)
  show ?thesis using 0 1 2 3 plan assms(1)
    by (simp add: stream_conversation_def case_prod_beta Let_def split: sum.splits bool.splits)
qed

end

subsection \<open>Leases, permits and the log\<close>

lemma generate_stream_gives_back:
  assumes "holds_exactly L M (fst s)"
  shows "holds_exactly L M (fst (snd (generate_stream S pl key sc (stream_services (st_turn S) pl policy cfg provider override) redacted history summary mw s)))"
proof (cases "tv_granted (st_turn S) \<and> tv_refused (st_turn S) = None")
  case True
  let ?t = "tn_id (pl_tenant pl)"
  let ?w1 = "(fst s)\<lparr>tw_leases := tw_leases (fst s) @ [(?t, pl_thread pl)], tw_permits := tw_permits (fst s) @ [?t]\<rparr>"
  have h: "holds_exactly (L + {#(?t, pl_thread pl)#}) (M + {#?t#}) ?w1" using assms by simp
  obtain content position layers where sm: "summary = (content, position, layers)" by (metis prod_cases3)
  obtain res w2 where m: "process_message (stream_services (st_turn S) pl policy cfg provider override) redacted (pl_session pl) (Some (pl_conversation pl)) history
      content position (get_or layers []) ?w1 = (res, w2)" by fastforce
  from held.turn_and_delivery_keep [OF refl h m, of key sc mw "stream_message_events (st_sent S) res" "snd s"] True sm m
  show ?thesis by (cases res) (simp_all add: generate_stream_def enter_turn_def leave_turn_def on_world_def case_prod_beta Let_def)
qed (use assms in \<open>auto simp: generate_stream_def enter_turn_def case_prod_beta Let_def split: option.splits\<close>)

lemma generate_stream_appends:
  assumes "log_extends ms vs (fst s)"
  shows "log_extends ms vs (fst (snd (generate_stream S pl key sc (stream_services (st_turn S) pl policy cfg provider override) redacted history summary mw s)))"
proof -
  obtain content position layers where sm: "summary = (content, position, layers)" by (metis prod_cases3)
  obtain r w1 where e: "enter_turn (st_turn S) (tn_id (pl_tenant pl)) (pl_thread pl) (fst s) = (r, w1)" by fastforce
  have w1: "log_extends ms vs w1" using logged.enter_keeps [of ms vs "st_turn S" "tn_id (pl_tenant pl)" "pl_thread pl"] assms e
    unfolding route_keeps_def by (metis snd_conv)
  obtain res w2 where m: "process_message (stream_services (st_turn S) pl policy cfg provider override) redacted (pl_session pl) (Some (pl_conversation pl)) history
      content position (get_or layers []) w1 = (res, w2)" by fastforce
  from logged.turn_and_delivery_keep [OF refl w1 m, of key sc mw "stream_message_events (st_sent S) res" "snd s"]
  have "log_extends ms vs (leave_turn t i (fst (snd (deliver_events S pl key sc mw (stream_message_events (st_sent S) res)
      (case res of Inr st \<Rightarrow> emit_decision_evidence pl st w2 | Inl _ \<Rightarrow> w2, snd s)))))" for t i
    by (rule logged.leave_keeps)
  then show ?thesis using sm e m w1
    by (cases r; cases res) (simp_all add: generate_stream_def on_world_def case_prod_beta Let_def)
qed

subsection \<open>What the buffer holds of a delivery\<close>

text \<open>In process memory the buffer changes by itself: what was appended between two states.\<close>

definition wrote :: "time \<Rightarrow> scope \<Rightarrow> stream_buffer \<Rightarrow> chunk list \<Rightarrow> stream_buffer \<Rightarrow> 'w itself \<Rightarrow> bool" where
  "wrote now sc sb cs sb1 T \<longleftrightarrow> \<not> sb_available sb1 \<and>
     (\<forall>(L :: 'w list_store) u. append_all L sc (map (\<lambda>c. (now, ck_type c, ck_data c)) cs) (sb, u) = (map ck_id cs, sb1, u))"

lemma wrote_nothing: "\<not> sb_available sb \<Longrightarrow> wrote now sc sb [] sb T"
  by (simp add: wrote_def)

lemma append_all_append:
  "append_all L sc (es @ fs) s = (case append_all L sc es s of (is, s1) \<Rightarrow> (case append_all L sc fs s1 of (js, s2) \<Rightarrow> (is @ js, s2)))"
  by (induction L sc es s rule: append_all.induct) (auto split: prod.splits)

lemma wrote_trans: "wrote now sc sb cs sb1 T \<Longrightarrow> wrote now sc sb1 ds sb2 T \<Longrightarrow> wrote now sc sb (cs @ ds) sb2 T"
  by (simp add: wrote_def append_all_append)

lemma memory_append:
  assumes "\<not> sb_available sb"
  shows "\<exists>sb1. \<not> sb_available sb1 \<and> (\<forall>L (u :: 'w). sb_append L up now sc ty d (sb, u) = (sb_seq sb + 1, sb1, u))"
  using assms by (auto simp: sb_append_def memory_cap_def mem_get_def Let_def split: prod.splits option.splits if_splits)

lemma buffer_append_memory:
  fixes s :: "'w stream_state"
  assumes "\<not> sb_available (snd s)" "st_up S"
  obtains i sb1 where "buffer_append S sc ty d s = (i, fst s, sb1)"
    and "wrote (tv_now (st_turn S)) sc (snd s) [\<lparr>ck_id = i, ck_type = ty, ck_data = d\<rparr>] sb1 TYPE('w)"
proof -
  obtain sb1 where m: "\<not> sb_available sb1" "\<forall>(L :: 'w list_store) u. sb_append L True (tv_now (st_turn S)) sc ty d (snd s, u) = (sb_seq (snd s) + 1, sb1, u)"
    using memory_append [OF assms(1), of True "tv_now (st_turn S)" sc ty d] by blast
  then have "buffer_append S sc ty d s = (sb_seq (snd s) + 1, fst s, sb1)" using assms(2) by (simp add: buffer_append_def)
  moreover have "wrote (tv_now (st_turn S)) sc (snd s) [\<lparr>ck_id = sb_seq (snd s) + 1, ck_type = ty, ck_data = d\<rparr>] sb1 TYPE('w)"
    using m by (simp add: wrote_def)
  ultimately show ?thesis by (rule that)
qed

text \<open>The frames of the deltas, and the terminal event.\<close>

definition delta_chunks :: "chunk list \<Rightarrow> bool" where
  "delta_chunks cs = list_all (\<lambda>c. ck_type c = ''delta'' \<and> (\<exists>t. ck_data c = delta_data t)) cs"

definition frames_of :: "chunk list \<Rightarrow> sse_frame list" where
  "frames_of cs = map (\<lambda>c. sse ''delta'' (ck_data c) (Some (ck_id c))) cs"

definition ends_with :: "chunk list \<Rightarrow> sse_frame list \<Rightarrow> bool" where
  "ends_with ts fs \<longleftrightarrow> list_all (\<lambda>f. fr_id f = None) fs \<and>
     (case ts of [] \<Rightarrow> fs = []
      | [c] \<Rightarrow> fs \<noteq> [] \<and> (ck_type c = ''error'' \<and> fr_event (last fs) = ''retraction'' \<or>
                 ck_type c \<in> {''result'', ''error''} \<and> fr_event (last fs) = ck_type c \<and> fr_data (last fs) = ck_data c)
      | _ \<Rightarrow> False)"

definition delivered :: "'w stream_env \<Rightarrow> scope \<Rightarrow> stream_buffer \<Rightarrow> sse_frame list \<Rightarrow> stream_buffer \<Rightarrow> bool" where
  "delivered S sc sb fs sb1 \<longleftrightarrow> (\<exists>ds ts gs. wrote (tv_now (st_turn S)) sc sb (ds @ ts) sb1 TYPE('w) \<and> delta_chunks ds \<and> fs = frames_of ds @ gs \<and> ends_with ts gs)"

lemma delivered_delta:
  assumes "wrote (tv_now (st_turn S)) sc sb [c] sb1 TYPE('w)" "ck_type c = ''delta''" "ck_data c = delta_data t" "delivered (S :: 'w stream_env) sc sb1 fs sb2"
  shows "delivered S sc sb (sse ''delta'' (ck_data c) (Some (ck_id c)) # fs) sb2"
proof -
  obtain ds ts gs where d: "wrote (tv_now (st_turn S)) sc sb1 (ds @ ts) sb2 TYPE('w)" "delta_chunks ds" "fs = frames_of ds @ gs" "ends_with ts gs"
    using assms(4) by (auto simp: delivered_def)
  have "wrote (tv_now (st_turn S)) sc sb ((c # ds) @ ts) sb2 TYPE('w)" using wrote_trans [OF assms(1) d(1)] by simp
  moreover have "delta_chunks (c # ds)" using d(2) assms(2,3) by (auto simp: delta_chunks_def)
  ultimately show ?thesis using d(3,4) unfolding delivered_def
    by (intro exI [of _ "c # ds"] exI [of _ ts] exI [of _ gs]) (simp add: frames_of_def)
qed

lemma delivered_end:
  assumes "wrote (tv_now (st_turn S)) sc sb [c] sb1 TYPE('w)" "ends_with [c] fs"
  shows "delivered (S :: 'w stream_env) sc sb fs sb1"
  using assms unfolding delivered_def by (intro exI [of _ "[]"] exI [of _ "[c]"] exI [of _ fs]) (simp add: delta_chunks_def frames_of_def)

lemma mark_terminal_memory:
  fixes s :: "'w stream_state"
  assumes "\<not> sb_available (snd s)" "st_up S"
  obtains i where "wrote (tv_now (st_turn S)) sc (snd s) [\<lparr>ck_id = i, ck_type = ty, ck_data = d\<rparr>] (snd (mark_terminal S sc ty d s)) TYPE('w)"
  using buffer_append_memory [OF assms, of sc ty d] by (metis mark_terminal_def snd_conv)

lemma terminal_delivers:
  assumes "\<not> sb_available (snd s)" "st_up S" "ends_with [\<lparr>ck_id = 0, ck_type = ty, ck_data = d\<rparr>] fs"
  shows "delivered S sc (snd s) fs (snd (mark_terminal S sc ty d s))"
proof -
  obtain i where "wrote (tv_now (st_turn S)) sc (snd s) [\<lparr>ck_id = i, ck_type = ty, ck_data = d\<rparr>] (snd (mark_terminal S sc ty d s)) TYPE('a)"
    using mark_terminal_memory [OF assms(1,2)] by blast
  then show ?thesis by (rule delivered_end) (use assms(3) in \<open>simp add: ends_with_def\<close>)
qed

lemma fail_delivers:
  "\<not> sb_available (snd s) \<Longrightarrow> st_up S \<Longrightarrow> delivered S sc (snd s) (fst (fail_stream S pl key sc detail s)) (snd (snd (fail_stream S pl key sc detail s)))"
  by (simp add: fail_stream_def on_world_def) (rule terminal_delivers, simp_all add: ends_with_def sse_def)

lemma withdraw_delivers:
  "\<not> sb_available (snd s) \<Longrightarrow> st_up S
     \<Longrightarrow> delivered S sc (snd s) (fst (withdraw S pl key sc reason vs released s)) (snd (snd (withdraw S pl key sc reason vs released s)))"
  by (simp add: withdraw_def on_world_def Let_def) (rule terminal_delivers, simp_all add: ends_with_def sse_def)

lemma complete_delivers:
  assumes "\<not> sb_available (snd s)" "st_up S"
  shows "delivered S sc (snd s) (fst (complete_stream S pl key sc response confidence handoff s)) (snd (snd (complete_stream S pl key sc response confidence handoff s)))"
proof -
  have "delivered S sc (snd s) [sse ''result'' d None] (snd (mark_terminal S sc ''result'' d (w, snd s)))" for d w
    using terminal_delivers [of "(w, snd s)" S "''result''" d] assms by (simp add: ends_with_def sse_def)
  moreover have "delivered S sc (snd s) (fst (fail_stream S pl key sc d (w, snd s))) (snd (snd (fail_stream S pl key sc d (w, snd s))))" for d w
    using fail_delivers [of "(w, snd s)" S] assms by simp
  ultimately show ?thesis
    by (cases "response = []") (simp_all add: complete_stream_def on_world_def case_prod_beta Let_def split: sum.splits http_error.splits)
qed

lemma flush_delivers:
  fixes s :: "'w stream_state"
  assumes "\<not> sb_available (snd s)" "st_up S"
  shows "delivered S sc (snd s) (fst (flush_stream S pl key sc mw released response confidence handoff s))
     (snd (snd (flush_stream S pl key sc mw released response confidence handoff s)))"
proof -
  have "delivered S sc (snd s) (sse ''delta'' (delta_data t) (Some i) # fst (complete_stream S pl key sc response confidence handoff s1))
      (snd (snd (complete_stream S pl key sc response confidence handoff s1)))" if b: "buffer_append S sc ''delta'' (delta_data t) s = (i, s1)" for t i s1
  proof -
    obtain sb1 where w: "s1 = (fst s, sb1)" "wrote (tv_now (st_turn S)) sc (snd s) [\<lparr>ck_id = i, ck_type = ''delta'', ck_data = delta_data t\<rparr>] sb1 TYPE('w)"
      using buffer_append_memory [OF assms, of sc "''delta''" "delta_data t"] b by (metis Pair_inject)
    then have "\<not> sb_available (snd s1)" by (simp add: wrote_def)
    from delivered_delta [OF w(2) _ _ complete_delivers [OF this assms(2), unfolded w(1) snd_conv]] w(1) show ?thesis by simp
  qed
  then show ?thesis using complete_delivers [OF assms] withdraw_delivers [OF assms]
    by (auto simp: flush_stream_def split: option.splits prod.splits) (metis fst_conv snd_conv)+
qed

text \<open>The loop: its frames are deltas, and the error when it ended with one.\<close>

lemma pump_delivers:
  fixes s :: "'w stream_state"
  assumes "\<not> sb_available (snd s)" "st_up S" "pump S sc es mw released s = (e, fs, mw1, r1, s1)"
  shows "\<not> sb_available (snd s1) \<and> (case e of Failed _ \<Rightarrow> delivered S sc (snd s) fs (snd s1)
     | _ \<Rightarrow> \<exists>ds. wrote (tv_now (st_turn S)) sc (snd s) ds (snd s1) TYPE('w) \<and> delta_chunks ds \<and> fs = frames_of ds)"
  using assms(1,3)
proof (induction es arbitrary: mw released s fs)
  case Nil
  then show ?case by (auto simp: wrote_nothing delta_chunks_def frames_of_def)
next
  case (Cons x es)
  show ?case
  proof (cases x)
    case (ClientDelta piece)
    show ?thesis
    proof (cases "case fst (push piece mw) of Some r \<Rightarrow> \<not> wr_truncated r | None \<Rightarrow> False")
      case True
      then obtain r mw2 where p: "push piece mw = (Some r, mw2)" "\<not> wr_truncated r" by (cases "push piece mw") (auto split: option.splits)
      obtain i sb1 where b: "buffer_append S sc ''delta'' (delta_data (wr_text r)) s = (i, fst s, sb1)"
        and w: "wrote (tv_now (st_turn S)) sc (snd s) [\<lparr>ck_id = i, ck_type = ''delta'', ck_data = delta_data (wr_text r)\<rparr>] sb1 TYPE('w)"
        using buffer_append_memory [OF Cons.prems(1) assms(2)] by metis
      have n: "\<not> sb_available (snd (fst s, sb1))" using w by (simp add: wrote_def)
      obtain gs where g: "pump S sc es mw2 (Some i) (fst s, sb1) = (e, gs, mw1, r1, s1)" and fs: "fs = sse ''delta'' (delta_data (wr_text r)) (Some i) # gs"
        using Cons.prems(2) ClientDelta p b by (auto split: prod.splits)
      have "\<exists>ds. wrote (tv_now (st_turn S)) sc (snd s) ds (snd s1) TYPE('w) \<and> delta_chunks ds \<and> fs = frames_of ds"
        if "wrote (tv_now (st_turn S)) sc sb1 ds (snd s1) TYPE('w)" "delta_chunks ds" "gs = frames_of ds" for ds
        using wrote_trans [OF w that(1)] that(2,3) fs
        by (intro exI [of _ "\<lparr>ck_id = i, ck_type = ''delta'', ck_data = delta_data (wr_text r)\<rparr> # ds"]) (auto simp: delta_chunks_def frames_of_def)
      moreover have "delivered S sc (snd s) fs (snd s1)" if "delivered S sc sb1 gs (snd s1)"
        using delivered_delta [OF w _ _ that] fs by simp
      ultimately show ?thesis using Cons.IH [OF n g] by (auto split: stream_end.splits)
    next
      case False
      obtain out mw2 where p: "push piece mw = (out, mw2)" by fastforce
      show ?thesis
      proof (cases out)
        case None
        with p Cons.prems(2) ClientDelta have "pump S sc es mw2 released s = (e, fs, mw1, r1, s1)" by simp
        from Cons.IH [OF Cons.prems(1) this] show ?thesis .
      next
        case (Some r)
        with False p have "wr_truncated r" by simp
        with Some p Cons.prems(2) ClientDelta have "e = Truncated (wr_violations r)" "fs = []" "s1 = s" by simp_all
        then show ?thesis using Cons.prems(1) by (simp add: wrote_nothing exI [of _ "[]"] delta_chunks_def frames_of_def)
      qed
    qed
  next
    case (ClientError d)
    have n: "\<not> sb_available (snd (mark_terminal S sc ''error'' (JObj [(''error'', JStr d)]) s))"
      by (rule mark_terminal_memory [OF Cons.prems(1) assms(2), of sc "''error''" "JObj [(''error'', JStr d)]"]) (simp add: wrote_def)
    have "delivered S sc (snd s) [sse ''error'' (JObj [(''error'', JStr d)]) None] (snd (mark_terminal S sc ''error'' (JObj [(''error'', JStr d)]) s))"
      by (rule terminal_delivers [OF Cons.prems(1) assms(2)]) (simp add: ends_with_def sse_def)
    with n show ?thesis using Cons.prems ClientError by auto
  next
    case (ClientResult a b c d f)
    then show ?thesis using Cons.prems by (auto simp: wrote_nothing delta_chunks_def frames_of_def)
  qed
qed

lemma delivered_after:
  assumes "wrote (tv_now (st_turn S)) sc sb ds sb1 TYPE('w)" "delta_chunks ds" "delivered (S :: 'w stream_env) sc sb1 gs sb2"
  shows "delivered S sc sb (frames_of ds @ gs) sb2"
proof -
  obtain ds2 ts hs where d: "wrote (tv_now (st_turn S)) sc sb1 (ds2 @ ts) sb2 TYPE('w)" "delta_chunks ds2" "gs = frames_of ds2 @ hs" "ends_with ts hs"
    using assms(3) by (auto simp: delivered_def)
  then show ?thesis using wrote_trans [OF assms(1) d(1)] assms(2) unfolding delivered_def
    by (intro exI [of _ "ds @ ds2"] exI [of _ ts] exI [of _ hs]) (auto simp: delta_chunks_def frames_of_def)
qed

lemma deliver_delivers:
  fixes s :: "'w stream_state"
  assumes "\<not> sb_available (snd s)" "st_up S"
  shows "delivered S sc (snd s) (fst (deliver_events S pl key sc mw es s)) (snd (snd (deliver_events S pl key sc mw es s)))"
proof -
  obtain e fs mw1 r1 s1 where p: "pump S sc es mw None s = (e, fs, mw1, r1, s1)" by (metis prod_cases5)
  note d = pump_delivers [OF assms p]
  have after: "delivered S sc (snd s) (fs @ gs) sb2"
    if "\<exists>ds. wrote (tv_now (st_turn S)) sc (snd s) ds (snd s1) TYPE('w) \<and> delta_chunks ds \<and> fs = frames_of ds" "delivered S sc (snd s1) gs sb2" for gs sb2
    using that delivered_after by blast
  have "delivered S sc (snd s1) [] (snd s1)" using d unfolding delivered_def
    by (intro exI [of _ "[]"]) (simp add: wrote_nothing delta_chunks_def frames_of_def ends_with_def)
  with d show ?thesis using p after [of "[]" "snd s1"] after flush_delivers [of s1 S] withdraw_delivers [of s1 S] assms(2)
    by (cases e) (simp_all add: deliver_events_def case_prod_beta)
qed

text \<open>What is read back from process memory.\<close>

definition no_lists :: "'w list_store" where
  "no_lists = \<lparr>ls_rpush = (\<lambda>_ _ w. (None, w)), ls_expire = (\<lambda>_ _ w. (None, w)), ls_llen = (\<lambda>_ w. (None, w)), ls_head = (\<lambda>_ _ w. (None, w)),
     ls_trim = (\<lambda>_ _ w. (None, w)), ls_all = (\<lambda>_ w. (None, w)), ls_delete = (\<lambda>_ w. (None, w))\<rparr>"

lemma no_lists_laws: "list_laws no_lists view"
  by (simp add: list_laws_def no_lists_def)

lemma memory_replay:
  fixes L :: "'w list_store"
  assumes "wrote t0 sc sb cs sb1 TYPE('w)" "\<not> sb_available sb" "sb_overflow sb" "0 \<le> sb_ttl_seconds sb"
    and "cold_chunks sc sb = []" "sb_memory sb (sb_key sb sc) = None" "t0 \<le> now" "now \<le> t0 + sb_ttl_seconds sb"
  shows "fst (sb_replay L True now sc k (sb1, r)) = filter (\<lambda>c. k < ck_id c) cs"
proof -
  let ?es = "map (\<lambda>c. (t0, ck_type c, ck_data c)) cs" and ?v = "\<lambda>(_ :: 'w) (_ :: string). [] :: chunk list"
  have a: "append_all no_lists sc ?es (sb, r) = (map ck_id cs, sb1, r)" and n: "\<not> sb_available sb1" using assms(1) by (auto simp: wrote_def)
  have fresh: "fresh_stream ?v sc (sb, r)" using assms(5,6) by (simp add: fresh_stream_def)
  have tm: "e \<in> set ?es \<Longrightarrow> t0 \<le> fst e \<and> fst e \<le> t0 + sb_ttl_seconds sb" for e using assms(4) by auto
  have av: "sb_available sb1 = sb_available sb" using n assms(2) by simp
  have h: "stream_holds ?v now sc (sb1, r) (chunks_for (map ck_id cs) ?es)" "sb_overflow sb1"
    using append_all_holds [OF no_lists_laws assms(3,4) fresh_holds [OF fresh] tm a av assms(7,8)] by simp_all
  have "chunks_for (map ck_id cs) ?es = cs" by (induction cs) (simp_all add: chunks_for_def)
  moreover have "sb_replay L True now sc k (sb1, r) = sb_replay no_lists True now sc k (sb1, r)" using n by (simp add: sb_replay_def Let_def)
  moreover obtain out sb2 w2 where o: "sb_replay no_lists True now sc k (sb1, r) = (out, sb2, w2)" by (metis prod_cases3)
  moreover have "sb_available sb2 = sb_available sb1" using n o by (auto simp: sb_replay_def Let_def mem_read_chunks mem_get_fields)
  ultimately show ?thesis using replay_holds [OF no_lists_laws h(2,1) o] n by simp
qed

lemma wrote_ids:
  assumes "wrote t0 sc sb cs sb1 TYPE('w)" "\<not> sb_available sb" "sb_overflow sb" "0 \<le> sb_ttl_seconds sb"
    and "cold_chunks sc sb = []" "sb_memory sb (sb_key sb sc) = None"
  shows "\<forall>c \<in> set cs. 0 < ck_id c"
proof -
  let ?es = "map (\<lambda>c. (t0, ck_type c, ck_data c)) cs" and ?v = "\<lambda>(_ :: 'w) (_ :: string). [] :: chunk list"
  have a: "append_all no_lists sc ?es (sb, r) = (map ck_id cs, sb1, r)" and av: "sb_available sb1 = sb_available sb" for r :: 'w
    using assms(1,2) by (auto simp: wrote_def)
  have fresh: "fresh_stream ?v sc (sb, r)" for r using assms(5,6) by (simp add: fresh_stream_def)
  have tm: "e \<in> set ?es \<Longrightarrow> t0 \<le> fst e \<and> fst e \<le> t0 + sb_ttl_seconds sb" for e using assms(4) by auto
  have "chunks_for (map ck_id cs) ?es = cs" by (induction cs) (simp_all add: chunks_for_def)
  with append_all_holds [OF no_lists_laws assms(3,4) fresh_holds [OF fresh] tm a av, of t0] assms(4) show ?thesis by (simp add: stream_holds_def)
qed

section \<open>Properties\<close>

text \<open>However a streamed turn ends, the leases of threads and the generation permits are as it found them once its frames are out, and the rows
  of the thread log and of the projection that were there are still there, unchanged and in place.\<close>

theorem stream_gives_back_and_appends:
  "mset (tw_leases (fst (snd (stream_conversation S q raw p s)))) = mset (tw_leases (fst s)) \<and>
   mset (tw_permits (fst (snd (stream_conversation S q raw p s)))) = mset (tw_permits (fst s)) \<and>
   prefix (db_messages (tw_threads (fst s))) (db_messages (tw_threads (fst (snd (stream_conversation S q raw p s))))) \<and>
   prefix (tw_projection (fst s)) (tw_projection (fst (snd (stream_conversation S q raw p s))))"
proof -
  have "holds_exactly (mset (tw_leases (fst s))) (mset (tw_permits (fst s))) (fst (snd (stream_conversation S q raw p s)))"
    by (rule held.stream_keeps_if [OF refl], erule generate_stream_gives_back) simp
  moreover have "log_extends (db_messages (tw_threads (fst s))) (tw_projection (fst s)) (fst (snd (stream_conversation S q raw p s)))"
    by (rule logged.stream_keeps_if [OF refl], erule generate_stream_appends) simp
  ultimately show ?thesis by simp
qed

text \<open>
  A client that reconnects to a stream kept in process memory, with the number of the last event it has seen, is sent exactly the deltas
  it was sent before with higher numbers, with the same numbers and texts, and then at most one terminal event: the result or error that
  ended the stream, or the error that stands for a retraction.
\<close>

theorem reconnect_resumes_stream:
  fixes S :: "'w stream_env"
  assumes "\<not> sb_available sb" and "sb_overflow sb" and "st_up S" and "0 \<le> sb_ttl_seconds sb"
    and "cold_chunks sc sb = []" and "sb_memory sb (sb_key sb sc) = None"
    and "deliver_events S pl key sc mw es (w, sb) = (fs, w1, sb1)"
    and "tv_now (st_turn S) \<le> now" and "now \<le> tv_now (st_turn S) + sb_ttl_seconds sb"
  shows "\<exists>terminal. concat (map replay_frame (fst (sb_replay (st_lists S) True now sc k (sb1, r)))) =
      filter (\<lambda>f. case fr_id f of Some i \<Rightarrow> k < i | None \<Rightarrow> False) fs @ terminal
      \<and> length terminal \<le> 1
      \<and> list_all (\<lambda>f. fr_event f = ''error'' \<and> fr_event (last fs) = ''retraction'' \<or>
           fr_event f \<in> {''result'', ''error''} \<and> fr_event (last fs) = fr_event f \<and> fr_data (last fs) = fr_data f) terminal"
proof -
  let ?now = "tv_now (st_turn S)"
  obtain ds ts gs where d: "wrote ?now sc sb (ds @ ts) sb1 TYPE('w)" "delta_chunks ds" "fs = frames_of ds @ gs" "ends_with ts gs"
    using deliver_delivers [of "(w, sb)" S sc pl key mw es] assms(1,3,7) by (auto simp: delivered_def)
  note replayed = memory_replay [OF d(1) assms(1,2,4,5,6,8,9), of "st_lists S" k r]
  have deltas: "concat (map replay_frame (filter (\<lambda>c. k < ck_id c) ds)) = filter (\<lambda>f. case fr_id f of Some i \<Rightarrow> k < i | None \<Rightarrow> False) (frames_of ds)"
    using d(2) by (induction ds) (auto simp: replay_frame_def frames_of_def delta_chunks_def delta_data_def sse_def jget_or_def jget_def get_or_def)
  have rest: "filter (\<lambda>f. case fr_id f of Some i \<Rightarrow> k < i | None \<Rightarrow> False) gs = []"
    using d(4) by (auto simp: ends_with_def list_all_iff filter_empty_conv)
  have last: "gs \<noteq> [] \<Longrightarrow> last fs = last gs" using d(3) by simp
  show ?thesis
    using d(4) replayed deltas rest last unfolding d(3)
    by (intro exI [of _ "concat (map replay_frame (filter (\<lambda>c. k < ck_id c) ts))"]) (auto simp: ends_with_def replay_frame_def sse_def split: list.splits)
qed

text \<open>
  The idempotency key of a stream that has ended replays it, also when it ended with an error: a client that retries after a failure
  is sent the same failure, and the model is not asked again.
\<close>

theorem ended_stream_is_replayed:
  fixes S S2 :: "'w stream_env"
  assumes "\<not> sb_available sb" and "sb_overflow sb" and "st_up S" and "0 \<le> sb_ttl_seconds sb"
    and "cold_chunks sc sb = []" and "sb_memory sb (sb_key sb sc) = None"
    and "deliver_events S pl key sc mw es (w, sb) = (fs, w1, sb1)" and "fs \<noteq> []" and "fr_id (last fs) = None"
    and "tv_now (st_turn S) \<le> tv_now (st_turn S2)" and "tv_now (st_turn S2) \<le> tv_now (st_turn S) + sb_ttl_seconds sb" and "st_up S2"
    and "truthy_str (cq_idempotency_key q)"
  shows "fst (wants_replay S2 q sc 0 (w2, sb1))"
proof -
  let ?now = "tv_now (st_turn S)"
  obtain ds ts gs where d: "wrote ?now sc sb (ds @ ts) sb1 TYPE('w)" "delta_chunks ds" "fs = frames_of ds @ gs" "ends_with ts gs"
    using deliver_delivers [of "(w, sb)" S sc pl key mw es] assms(1,3,7) by (auto simp: delivered_def)
  have "gs \<noteq> []" using d(3) assms(8,9) by (auto simp: frames_of_def sse_def last_map)
  then obtain c where c: "ts = [c]" "ck_type c \<in> {''result'', ''error''}" using d(4) by (auto simp: ends_with_def split: list.splits)
  have "fst (sb_replay (st_lists S2) True (tv_now (st_turn S2)) sc 0 (sb1, tw_rest w2)) = ds @ ts"
    using memory_replay [OF d(1) assms(1,2,4,5,6,10,11), of "st_lists S2" 0 "tw_rest w2"] wrote_ids [OF d(1) assms(1,2,4,5,6)] by (auto simp: filter_id_conv)
  with c show ?thesis using assms(12,13) by (auto simp: wants_replay_def get_terminal_def Let_def case_prod_beta)
qed

subsection \<open>Witnesses\<close>

definition demo_stream :: "unit stream_env" where
  "demo_stream = \<lparr>st_turn = undefined\<lparr>tv_now := 0\<rparr>, st_lists = no_lists, st_up = True, st_default_window = 400, st_sent = []\<rparr>"

definition open_window :: moderation_window where
  "open_window = \<lparr>mw_validator = None, mw_window_size = 400, mw_fallback_text = [], mw_pending = [], mw_truncated = False, mw_calls = 0\<rparr>"

definition demo_turn :: "client_event list" where
  "demo_turn = [ClientDelta ''Hel'', ClientDelta ''lo'', ClientError ''timeout'']"

lemma demo_delivery:
  "fst (deliver_events demo_stream pl key demo_scope open_window demo_turn (w, demo_buffer False)) =
     [sse ''delta'' (delta_data ''Hel'') (Some 1), sse ''delta'' (delta_data ''lo'') (Some 2), sse ''error'' (JObj [(''error'', JStr ''timeout'')]) None]"
  by (simp add: deliver_events_def demo_stream_def open_window_def demo_turn_def demo_buffer_def push_def raw_release_def buffer_append_def sb_append_def
      memory_cap_def mem_append_def mem_get_def spill_overflow_def mark_terminal_def Let_def numeral_2_eq_2)

theorem reconnect_resumes_stream_witness:
  "\<exists>terminal. concat (map replay_frame (fst (sb_replay no_lists True 5 demo_scope 1 (snd (snd (deliver_events demo_stream undefined [] demo_scope open_window demo_turn
      (undefined, demo_buffer False))), ())))) = [sse ''delta'' (delta_data ''lo'') (Some 2)] @ terminal \<and> length terminal \<le> 1"
proof -
  obtain fs w1 sb1 where d: "deliver_events demo_stream undefined [] demo_scope open_window demo_turn (undefined, demo_buffer False) = (fs, w1, sb1)"
    by (metis prod_cases3)
  from reconnect_resumes_stream [where k = 1 and now = 5 and r = "()", OF _ _ _ _ _ _ d] demo_delivery [of undefined "[]" undefined] d
  show ?thesis by (auto simp: demo_stream_def demo_buffer_def demo_scope_def cold_chunks_def sse_def)
qed

theorem ended_stream_is_replayed_witness:
  "fst (wants_replay demo_stream \<lparr>cq_tenant_slug = ''acme'', cq_message = ''hi'', cq_session_id = None, cq_idempotency_key = Some ''k1''\<rparr> demo_scope 0
     (undefined, snd (snd (deliver_events demo_stream undefined [] demo_scope open_window demo_turn (undefined, demo_buffer False)))))"
proof -
  obtain fs w1 sb1 where d: "deliver_events demo_stream undefined [] demo_scope open_window demo_turn (undefined, demo_buffer False) = (fs, w1, sb1)"
    by (metis prod_cases3)
  from ended_stream_is_replayed [where ?S2.0 = demo_stream and ?w2.0 = undefined
      and q = "\<lparr>cq_tenant_slug = ''acme'', cq_message = ''hi'', cq_session_id = None, cq_idempotency_key = Some ''k1''\<rparr>", OF _ _ _ _ _ _ d]
    demo_delivery [of undefined "[]" undefined] d
  show ?thesis by (auto simp: demo_stream_def demo_buffer_def demo_scope_def cold_chunks_def sse_def truthy_str_def)
qed

end
