(* ===== verification/Replica_Router.thy ===== *)
theory Replica_Router
  imports Prelude "HOL-Library.AList" "HOL-Library.Multiset"
begin

text \<open>
  Read routing (\<open>infrastructure/db/replicas.py\<close>): which database serves a read. An engine is named by its URL; the engines of the router
  are distinct. Whether a replica answers a ping, and whether a read on it fails at the level of the connection, are arguments.
\<close>

section \<open>Definitions\<close>

definition MAX_TRACKED_WRITE_KEYS :: nat where
  "MAX_TRACKED_WRITE_KEYS = 10000"

text \<open>\<open>_last_write\<close> is a dictionary, in the order in which its keys were first inserted.\<close>

record replica_router =
  rr_urls :: "string list"
  rr_window :: time
  rr_replicas :: "string list"
  rr_unavailable :: "string list"
  rr_index :: nat
  rr_last_write :: "(string \<times> time) list"

definition rr_new :: "string list \<Rightarrow> time \<Rightarrow> replica_router" where
  "rr_new urls window =
     \<lparr>rr_urls = filter (\<lambda>u. u \<noteq> []) urls, rr_window = window, rr_replicas = [], rr_unavailable = [], rr_index = 0, rr_last_write = []\<rparr>"

definition configured :: "replica_router \<Rightarrow> bool" where
  "configured r \<longleftrightarrow> rr_urls r \<noteq> []"

definition rr_initialize :: "(string \<Rightarrow> bool) \<Rightarrow> replica_router \<Rightarrow> replica_router" where
  "rr_initialize ping r =
     r\<lparr>rr_replicas := rr_replicas r @ rr_urls r, rr_unavailable := fold (\<lambda>u us. if ping u then us else List.insert u us) (rr_urls r) (rr_unavailable r)\<rparr>"

definition rr_close :: "replica_router \<Rightarrow> replica_router" where
  "rr_close r = r\<lparr>rr_replicas := [], rr_unavailable := []\<rparr>"

text \<open>The health check, which is also what brings a replica back: whether any is healthy.\<close>

definition rr_health_check :: "(string \<Rightarrow> bool) \<Rightarrow> replica_router \<Rightarrow> bool \<times> replica_router" where
  "rr_health_check ping r =
     (if \<not> configured r then (True, r)
      else (list_ex ping (rr_replicas r),
            r\<lparr>rr_unavailable := fold (\<lambda>u us. if ping u then removeAll u us else List.insert u us) (rr_replicas r) (rr_unavailable r)\<rparr>))"

definition mark_write :: "time \<Rightarrow> string list \<Rightarrow> replica_router \<Rightarrow> replica_router" where
  "mark_write now keys r =
     (if \<not> configured r then r
      else let d = fold (\<lambda>k d. AList.update k now d) (filter (\<lambda>k. k \<noteq> []) keys) (rr_last_write r)
           in r\<lparr>rr_last_write := (if MAX_TRACKED_WRITE_KEYS < length d then drop (length d - MAX_TRACKED_WRITE_KEYS) d else d)\<rparr>)"

definition within_window :: "time \<Rightarrow> string list \<Rightarrow> replica_router \<Rightarrow> bool" where
  "within_window now keys r \<longleftrightarrow>
     list_ex (\<lambda>k. k \<noteq> [] \<and> (case map_of (rr_last_write r) k of None \<Rightarrow> False | Some t \<Rightarrow> now - t < rr_window r)) keys"

definition replica_eligible :: "time \<Rightarrow> string list \<Rightarrow> replica_router \<Rightarrow> bool" where
  "replica_eligible now keys r \<longleftrightarrow>
     configured r \<and> rr_replicas r \<noteq> [] \<and> length (rr_unavailable r) < length (rr_replicas r) \<and> \<not> within_window now keys r"

definition candidates :: "replica_router \<Rightarrow> string list" where
  "candidates r = filter (\<lambda>u. u \<notin> set (rr_unavailable r)) (rr_replicas r)"

text \<open>\<open>_next_replica\<close>; \<^const>\<open>None\<close> is the \<open>RuntimeError\<close>.\<close>

definition next_replica :: "replica_router \<Rightarrow> (string \<times> replica_router) option" where
  "next_replica r =
     (if candidates r = [] then None
      else Some (candidates r ! (rr_index r mod length (candidates r)), r\<lparr>rr_index := rr_index r + 1\<rparr>))"

datatype read_session = OnPrimary | OnReplica string | ReadFailed string | NoReplica

text \<open>\<open>get_read_session\<close> around one read; \<open>fails u\<close>: the read raises a \<open>DBAPIError\<close> on that replica.\<close>

definition get_read_session :: "(string \<Rightarrow> bool) \<Rightarrow> time \<Rightarrow> string list \<Rightarrow> replica_router \<Rightarrow> read_session \<times> replica_router" where
  "get_read_session fails now keys r =
     (if \<not> replica_eligible now keys r then (OnPrimary, r)
      else case next_replica r of
             None \<Rightarrow> (NoReplica, r)
           | Some (u, r1) \<Rightarrow> if fails u then (ReadFailed u, r1\<lparr>rr_unavailable := List.insert u (rr_unavailable r1)\<rparr>) else (OnReplica u, r1))"

fun read_all :: "(string \<Rightarrow> bool) \<Rightarrow> (time \<times> string list) list \<Rightarrow> replica_router \<Rightarrow> read_session list \<times> replica_router" where
  "read_all fails [] r = ([], r)"
| "read_all fails ((now, keys) # qs) r =
     (case get_read_session fails now keys r of (s, r1) \<Rightarrow> (case read_all fails qs r1 of (ss, r2) \<Rightarrow> (s # ss, r2)))"

section \<open>Lemmas\<close>

definition router_inv :: "replica_router \<Rightarrow> bool" where
  "router_inv r \<longleftrightarrow> distinct (rr_replicas r) \<and> distinct (rr_unavailable r) \<and> set (rr_unavailable r) \<subseteq> set (rr_replicas r) \<and>
     distinct (map fst (rr_last_write r))"

lemma fold_insert_unavailable:
  "distinct us \<Longrightarrow> distinct (fold (\<lambda>u us. if ping u then us else List.insert u us) xs us) \<and>
     set (fold (\<lambda>u us. if ping u then us else List.insert u us) xs us) = set us \<union> {u \<in> set xs. \<not> ping u}"
  by (induction xs arbitrary: us) auto

lemma fold_health:
  "distinct us \<Longrightarrow> distinct (fold (\<lambda>u us. if ping u then removeAll u us else List.insert u us) xs us) \<and>
     set (fold (\<lambda>u us. if ping u then removeAll u us else List.insert u us) xs us) = (set us - {u \<in> set xs. ping u}) \<union> {u \<in> set xs. \<not> ping u}"
  by (induction xs arbitrary: us) (auto simp: distinct_removeAll)

lemma fold_update_distinct: "distinct (map fst d) \<Longrightarrow> distinct (map fst (fold (\<lambda>k d. AList.update k now d) ks d))"
  by (induction ks arbitrary: d) (auto simp: distinct_update)

lemma fold_update_lookup: "map_of (fold (\<lambda>k d. AList.update k now d) ks d) k = (if k \<in> set ks then Some now else map_of d k)"
  by (induction ks arbitrary: d) (auto simp: update_conv')

lemma inv_initialize: "distinct (rr_urls r) \<Longrightarrow> rr_replicas r = [] \<Longrightarrow> rr_unavailable r = [] \<Longrightarrow> router_inv r \<Longrightarrow> router_inv (rr_initialize ping r)"
  using fold_insert_unavailable [of "[]" ping "rr_urls r"] by (auto simp: router_inv_def rr_initialize_def)

lemma inv_health: "router_inv r \<Longrightarrow> router_inv (snd (rr_health_check ping r))"
  using fold_health [of "rr_unavailable r" ping "rr_replicas r"] by (auto simp: router_inv_def rr_health_check_def)

lemma inv_mark_write: "router_inv r \<Longrightarrow> router_inv (mark_write now keys r)"
  by (auto simp: router_inv_def mark_write_def Let_def fold_update_distinct simp flip: drop_map intro: distinct_drop)

lemma chosen_is_candidate: "next_replica r = Some (u, r1) \<Longrightarrow> u \<in> set (candidates r) \<and> r1 = r\<lparr>rr_index := rr_index r + 1\<rparr>"
  by (auto simp: next_replica_def split: if_splits)

lemma inv_read: "router_inv r \<Longrightarrow> router_inv (snd (get_read_session fails now keys r))"
  by (auto simp: router_inv_def get_read_session_def candidates_def split: option.splits dest!: chosen_is_candidate)

lemma eligible_has_candidate:
  assumes "router_inv r" "replica_eligible now keys r"
  shows "candidates r \<noteq> []"
proof
  assume "candidates r = []"
  then have "set (rr_replicas r) \<subseteq> set (rr_unavailable r)" by (auto simp: candidates_def filter_empty_conv)
  then have "length (rr_replicas r) \<le> length (rr_unavailable r)"
    using assms(1) by (metis card_mono distinct_card finite_set router_inv_def)
  with assms(2) show False by (simp add: replica_eligible_def)
qed

lemma candidates_index [simp]: "candidates (r\<lparr>rr_index := n\<rparr>) = candidates r" "replica_eligible now keys (r\<lparr>rr_index := n\<rparr>) = replica_eligible now keys r"
  by (simp_all add: candidates_def replica_eligible_def configured_def within_window_def list_ex_iff cong: option.case_cong)

lemma read_all_cycles:
  assumes "\<forall>(now, keys) \<in> set qs. replica_eligible now keys r" "\<forall>u \<in> set (candidates r). \<not> fails u" "candidates r \<noteq> []"
  shows "fst (read_all fails qs r) = map (\<lambda>i. OnReplica (candidates r ! ((rr_index r + i) mod length (candidates r)))) [0..<length qs]"
  using assms
proof (induction qs arbitrary: r)
  case (Cons x qs)
  obtain now keys where x: "x = (now, keys)" by fastforce
  let ?r1 = "r\<lparr>rr_index := rr_index r + 1\<rparr>" and ?u = "candidates r ! (rr_index r mod length (candidates r))"
  have "\<not> fails ?u" using Cons.prems(2,3) by simp
  then have g: "get_read_session fails now keys r = (OnReplica ?u, ?r1)"
    using Cons.prems x by (simp add: get_read_session_def next_replica_def)
  have "fst (read_all fails qs ?r1) = map (\<lambda>i. OnReplica (candidates r ! ((rr_index r + Suc i) mod length (candidates r)))) [0..<length qs]"
    using Cons.IH [of ?r1] Cons.prems by simp
  moreover have "[0..<length (x # qs)] = 0 # map Suc [0..<length qs]" by (simp add: upt_conv_Cons map_Suc_upt del: upt_Suc)
  ultimately show ?case using g x by (simp add: case_prod_beta comp_def del: upt_Suc)
qed simp

section \<open>Properties\<close>

text \<open>A read that names a key written less than the window ago goes to the primary, as long as the table of writes is not over its bound.\<close>

theorem fresh_writes_read_from_primary:
  assumes "configured r" and "k \<in> set written" and "k \<in> set keys" and "k \<noteq> []" and "now - t < rr_window r"
    and "length (fold (\<lambda>k d. AList.update k t d) (filter (\<lambda>k. k \<noteq> []) written) (rr_last_write r)) \<le> MAX_TRACKED_WRITE_KEYS"
  shows "fst (get_read_session fails now keys (mark_write t written r)) = OnPrimary"
proof -
  let ?r = "mark_write t written r"
  have "map_of (rr_last_write ?r) k = Some t" "rr_window ?r = rr_window r" using assms(1,2,4,6) by (simp_all add: mark_write_def fold_update_lookup Let_def)
  then have "within_window now keys ?r" using assms(3,4,5) by (auto simp: within_window_def list_ex_iff)
  then show ?thesis by (simp add: get_read_session_def replica_eligible_def)
qed

text \<open>When the table is full, the entry that is dropped is the one inserted first, not the one written longest ago: a key that is written
  again keeps its old place, so a write of the oldest key together with a new one forgets the write it has just recorded.\<close>

theorem eviction_forgets_fresh_write:
  assumes "configured r" and "rr_last_write r = (k, t0) # rest" and "length rest + 1 = MAX_TRACKED_WRITE_KEYS"
    and "k \<noteq> []" and "k2 \<noteq> []" and "k2 \<noteq> k" and "k \<notin> fst ` set rest" and "k2 \<notin> fst ` set rest"
  shows "\<not> within_window t [k] (mark_write t [k, k2] r)"
proof -
  have "AList.update k2 t rest = rest @ [(k2, t)]" using assms(8) by (induction rest) auto
  then have d: "fold (\<lambda>k d. AList.update k t d) (filter (\<lambda>k. k \<noteq> []) [k, k2]) (rr_last_write r) = (k, t) # rest @ [(k2, t)]"
    using assms(2,4,5,6) by simp
  then have "rr_last_write (mark_write t [k, k2] r) = rest @ [(k2, t)]" using assms(1,3) by (simp add: mark_write_def)
  then show ?thesis using assms(6,7) by (auto simp: within_window_def map_of_eq_None_iff [THEN iffD2] split: option.splits)
qed

text \<open>Replicas take turns: as many reads as there are healthy replicas, none of which fails, use each of them once.\<close>

theorem replicas_take_turns:
  assumes "\<forall>(now, keys) \<in> set qs. replica_eligible now keys r" and "\<forall>u \<in> set (candidates r). \<not> fails u"
    and "candidates r \<noteq> []" and "length qs = length (candidates r)"
  shows "mset (fst (read_all fails qs r)) = mset (map OnReplica (candidates r))"
proof -
  have "rotate (rr_index r) (candidates r) = map (\<lambda>i. candidates r ! ((rr_index r + i) mod length (candidates r))) [0..<length qs]"
    using assms(4) by (intro nth_equalityI) (auto simp: nth_rotate)
  then have "fst (read_all fails qs r) = map OnReplica (rotate (rr_index r) (candidates r))"
    using read_all_cycles [OF assms(1-3)] by (simp add: comp_def)
  moreover have "mset (rotate n xs) = mset xs" for n and xs :: "string list"
    by (simp add: rotate_drop_take) (metis append_take_drop_id mset_append union_commute)
  ultimately show ?thesis by simp
qed

text \<open>A read never meets a replica that is marked unavailable, and never finds none to use; a read that fails marks its replica, so the next one
  goes elsewhere.\<close>

theorem reads_use_available_replicas:
  assumes "router_inv r"
  shows "case get_read_session fails now keys r of
      (OnPrimary, r1) \<Rightarrow> r1 = r
    | (OnReplica u, r1) \<Rightarrow> u \<in> set (rr_replicas r) \<and> u \<notin> set (rr_unavailable r)
    | (ReadFailed u, r1) \<Rightarrow> u \<in> set (rr_replicas r) \<and> u \<notin> set (rr_unavailable r) \<and> u \<notin> set (candidates r1)
    | (NoReplica, r1) \<Rightarrow> False"
  using eligible_has_candidate [OF assms, of now keys]
  by (auto simp: get_read_session_def split: option.splits dest!: chosen_is_candidate) (auto simp: candidates_def next_replica_def)

end
