(* ===== verification/Last_Active.thy ===== *)
theory Last_Active
  imports Auth Redis_Iface
begin

text \<open>
  Batched usage counters of API keys (\<open>infrastructure/patterns/last_active.py\<close>): requests count into a Redis hash, or into a dictionary
  of the process once Redis has failed, and a flush adds what is pending to the rows of the keys. The two Redis calls, the transactional pipeline of
  \<open>touch\<close> and the script of \<open>flush\<close>, are parameters with the laws of the command reference. The count that the script returns is a
  text; the model has its number.
\<close>

section \<open>Definitions\<close>

record 'w activity_store =
  as_bump :: "string \<Rightarrow> time \<Rightarrow> (unit, 'w) rcmd"
  as_drain :: "((string \<times> int) list \<times> (string \<times> time) list, 'w) rcmd"
  as_len :: "(nat, 'w) rcmd"

text \<open>Pending counts of a world. A call that returns has its effect; one that raises has none.\<close>

definition activity_laws :: "'w activity_store \<Rightarrow> ('w \<Rightarrow> string \<Rightarrow> int) \<Rightarrow> bool" where
  "activity_laws R pending \<longleftrightarrow>
     (\<forall>k t w. case as_bump R k t w of (Some _, w') \<Rightarrow> pending w' = (pending w)(k := pending w k + 1) | (None, w') \<Rightarrow> pending w' = pending w) \<and>
     (\<forall>w. case as_drain R w of
            (Some (cs, _), w') \<Rightarrow> distinct (map fst cs) \<and> (\<forall>k. get_or (map_of cs k) 0 = pending w k) \<and> pending w' = (\<lambda>_. 0)
          | (None, w') \<Rightarrow> pending w' = pending w) \<and>
     (\<forall>w. pending (snd (as_len R w)) = pending w)"

record batcher =
  lb_available :: bool
  lb_counts :: "(string \<times> int) list"
  lb_ts :: "(string \<times> time) list"
  lb_has_db :: bool

definition lb_initialize :: "bool \<Rightarrow> batcher \<Rightarrow> batcher" where
  "lb_initialize ping b = b\<lparr>lb_available := ping\<rparr>"

definition degraded :: "batcher \<Rightarrow> bool" where
  "degraded b \<longleftrightarrow> \<not> lb_available b"

definition touch_memory :: "string \<Rightarrow> time \<Rightarrow> batcher \<Rightarrow> batcher" where
  "touch_memory k ts b =
     b\<lparr>lb_counts := AList.update k (get_or (map_of (lb_counts b) k) 0 + 1) (lb_counts b), lb_ts := AList.update k ts (lb_ts b)\<rparr>"

definition touch :: "'w activity_store \<Rightarrow> string \<Rightarrow> time \<Rightarrow> batcher \<times> 'w \<Rightarrow> batcher \<times> 'w" where
  "touch R k ts s =
     (case s of (b, w) \<Rightarrow>
        if lb_available b
        then case as_bump R k ts w of
               (Some _, w1) \<Rightarrow> (b, w1)
             | (None, w1) \<Rightarrow> (touch_memory k ts (b\<lparr>lb_available := False\<rparr>), w1)
        else (touch_memory k ts b, w))"

definition pending_count :: "'w activity_store \<Rightarrow> batcher \<times> 'w \<Rightarrow> nat \<times> 'w" where
  "pending_count R s =
     (case s of (b, w) \<Rightarrow>
        if lb_available b then (case as_len R w of (Some n, w1) \<Rightarrow> (n, w1) | (None, w1) \<Rightarrow> (length (lb_counts b), w1))
        else (length (lb_counts b), w))"

datatype flush_error = MergeTypeError | WriteFailed

text \<open>The part of \<open>flush\<close> that empties the buffers: a count from Redis is a text, and adding a number from the dictionary to it raises.\<close>

definition drain :: "'w activity_store \<Rightarrow> batcher \<times> 'w \<Rightarrow> (flush_error + (string \<times> int) list \<times> (string \<times> time) list) \<times> batcher \<times> 'w" where
  "drain R s =
     (case s of (b, w) \<Rightarrow>
        (let (cs, ts, b1, w1) =
               (if lb_available b
                then case as_drain R w of
                       (Some (cs, ts), w1) \<Rightarrow> (cs, ts, b, w1)
                     | (None, w1) \<Rightarrow> ([], [], b\<lparr>lb_available := False\<rparr>, w1)
                else ([], [], b, w))
         in if lb_counts b1 = [] then (Inr (cs, ts), b1, w1)
            else if list_ex (\<lambda>(k, _). map_of cs k \<noteq> None) (lb_counts b1) then (Inl MergeTypeError, b1, w1)
            else (Inr (cs @ lb_counts b1, fold (\<lambda>(k, t). AList.update k t) (lb_ts b1) ts), b1\<lparr>lb_counts := [], lb_ts := []\<rparr>, w1)))"

text \<open>\<open>up\<close>: the transaction of the primary commits.\<close>

definition flush :: "'w activity_store \<Rightarrow> time \<Rightarrow> bool \<Rightarrow> (batcher \<times> 'w) \<times> auth_db \<Rightarrow> (flush_error + nat) \<times> (batcher \<times> 'w) \<times> auth_db" where
  "flush R now up s =
     (case s of (st, db) \<Rightarrow>
        (case drain R st of
           (Inl e, st1) \<Rightarrow> (Inl e, st1, db)
         | (Inr (cs, ts), st1) \<Rightarrow>
             if cs = [] then (Inr 0, st1, db)
             else if \<not> lb_has_db (fst st1) then (Inr 0, st1, db)
             else if \<not> up then (Inl WriteFailed, st1, db)
             else case apply_last_active_batch (map (\<lambda>(k, n). (k, n, get_or (map_of ts k) now)) cs) db of (n, db1) \<Rightarrow> (Inr n, st1, db1)))"

datatype activity = Touched string time | Flushed time bool

fun activity_step :: "'w activity_store \<Rightarrow> activity \<Rightarrow> (batcher \<times> 'w) \<times> auth_db \<Rightarrow> (batcher \<times> 'w) \<times> auth_db" where
  "activity_step R (Touched k t) s = (touch R k t (fst s), snd s)"
| "activity_step R (Flushed now up) s = snd (flush R now up s)"

definition run_activity :: "'w activity_store \<Rightarrow> activity list \<Rightarrow> (batcher \<times> 'w) \<times> auth_db \<Rightarrow> (batcher \<times> 'w) \<times> auth_db" where
  "run_activity R = fold (activity_step R)"

section \<open>Lemmas\<close>

definition memory_count :: "batcher \<Rightarrow> string \<Rightarrow> int" where
  "memory_count b k = get_or (map_of (lb_counts b) k) 0"

text \<open>The usage of a key over the rows that still take updates.\<close>

definition usage :: "auth_db \<Rightarrow> string \<Rightarrow> int" where
  "usage db k = sum_list (map ak_usage_count (filter (\<lambda>a. ak_id a = k \<and> \<not> ak_revoked a) (ad_keys db)))"

definition live_key :: "auth_db \<Rightarrow> string \<Rightarrow> bool" where
  "live_key db k \<longleftrightarrow> length (filter (\<lambda>a. ak_id a = k \<and> \<not> ak_revoked a) (ad_keys db)) = 1"

definition batcher_inv :: "batcher \<Rightarrow> bool" where
  "batcher_inv b \<longleftrightarrow> distinct (map fst (lb_counts b)) \<and> (lb_available b \<longrightarrow> lb_counts b = [])"

lemma lawsD:
  assumes "activity_laws R pending"
  shows "as_bump R k t w = (Some u, w') \<Longrightarrow> pending w' = (pending w)(k := pending w k + 1)"
    and "as_bump R k t w = (None, w') \<Longrightarrow> pending w' = pending w"
    and "as_drain R w = (Some (cs, ts), w') \<Longrightarrow> distinct (map fst cs) \<and> (\<forall>k. get_or (map_of cs k) 0 = pending w k) \<and> pending w' = (\<lambda>_. 0)"
    and "as_drain R w = (None, w') \<Longrightarrow> pending w' = pending w"
proof -
  show "as_bump R k t w = (Some u, w') \<Longrightarrow> pending w' = (pending w)(k := pending w k + 1)"
    using assms unfolding activity_laws_def by (metis (mono_tags, lifting) case_prod_conv option.simps(5))
  show "as_bump R k t w = (None, w') \<Longrightarrow> pending w' = pending w"
    using assms unfolding activity_laws_def by (metis (mono_tags, lifting) case_prod_conv option.simps(4))
  show "as_drain R w = (Some (cs, ts), w') \<Longrightarrow> distinct (map fst cs) \<and> (\<forall>k. get_or (map_of cs k) 0 = pending w k) \<and> pending w' = (\<lambda>_. 0)"
    using assms [unfolded activity_laws_def, THEN conjunct2, THEN conjunct1, THEN spec, of w] by simp
  show "as_drain R w = (None, w') \<Longrightarrow> pending w' = pending w"
    using assms [unfolded activity_laws_def, THEN conjunct2, THEN conjunct1, THEN spec, of w] by simp
qed

lemma touch_memory_count [simp]: "memory_count (touch_memory k t b) j = memory_count b j + (if j = k then 1 else 0)"
  by (simp add: memory_count_def touch_memory_def update_conv' get_or_def)

lemma touch_step:
  assumes "activity_laws R pending" "batcher_inv b" "touch R k t (b, w) = (b1, w1)"
  shows "batcher_inv b1 \<and> lb_has_db b1 = lb_has_db b \<and> pending w1 j + memory_count b1 j = pending w j + memory_count b j + (if j = k then 1 else 0)"
proof -
  have m: "batcher_inv (touch_memory k t (b\<lparr>lb_available := False\<rparr>))" "\<not> lb_available b \<Longrightarrow> batcher_inv (touch_memory k t b)"
    "memory_count (b\<lparr>lb_available := False\<rparr>) j = memory_count b j" "lb_has_db (touch_memory k t (b\<lparr>lb_available := False\<rparr>)) = lb_has_db b"
    "lb_has_db (touch_memory k t b) = lb_has_db b"
    using assms(2) by (auto simp: batcher_inv_def touch_memory_def distinct_update memory_count_def)
  obtain r w2 where b: "as_bump R k t w = (r, w2)" by fastforce
  then show ?thesis using assms m lawsD(1,2) [OF assms(1), of k t w]
    by (cases r) (auto simp: touch_def split: if_splits)
qed

text \<open>What a batch adds to the usage of a key.\<close>

lemma update_usage:
  assumes "live_key db k"
  shows "usage (snd (ak_update (\<lambda>a. ak_id a = i \<and> \<not> ak_revoked a) (\<lambda>a. a\<lparr>ak_usage_count := ak_usage_count a + n, ak_last_used_at := Some t\<rparr>) db)) k
      = usage db k + (if i = k then n else 0)
    \<and> live_key (snd (ak_update (\<lambda>a. ak_id a = i \<and> \<not> ak_revoked a) (\<lambda>a. a\<lparr>ak_usage_count := ak_usage_count a + n, ak_last_used_at := Some t\<rparr>) db)) k"
proof -
  let ?f = "\<lambda>a. if ak_id a = i \<and> \<not> ak_revoked a then a\<lparr>ak_usage_count := ak_usage_count a + n, ak_last_used_at := Some t\<rparr> else a"
  let ?p = "\<lambda>a. ak_id a = k \<and> \<not> ak_revoked a"
  have f: "filter ?p (map ?f xs) = map ?f (filter ?p xs)" for xs by (induction xs) auto
  obtain a where a: "filter ?p (ad_keys db) = [a]" using assms by (auto simp: live_key_def length_Suc_conv)
  then have "ak_id a = k" "\<not> ak_revoked a" by (metis (mono_tags, lifting) filter_set list.set_intros(1) mem_Collect_eq set_filter)+
  have k: "ad_keys (snd (ak_update (\<lambda>a. ak_id a = i \<and> \<not> ak_revoked a) (\<lambda>a. a\<lparr>ak_usage_count := ak_usage_count a + n, ak_last_used_at := Some t\<rparr>) db)) = map ?f (ad_keys db)"
    by (simp add: ak_update_def)
  have "usage db k = ak_usage_count a" unfolding usage_def a by simp
  with \<open>ak_id a = k\<close> \<open>\<not> ak_revoked a\<close> show ?thesis unfolding usage_def live_key_def k f a by auto
qed

lemma batch_usage:
  assumes "live_key db k" "distinct (map fst es)"
  shows "usage (snd (apply_last_active_batch es db)) k = usage db k + get_or (map_option fst (map_of es k)) 0 \<and> live_key (snd (apply_last_active_batch es db)) k"
  using assms
proof (induction es arbitrary: db)
  case Nil
  then show ?case by (simp add: apply_last_active_batch_def get_or_def)
next
  case (Cons e es)
  obtain i n t where e: "e = (i, n, t)" by (metis prod_cases3)
  let ?db = "snd (ak_update (\<lambda>a. ak_id a = i \<and> \<not> ak_revoked a) (\<lambda>a. a\<lparr>ak_usage_count := ak_usage_count a + n, ak_last_used_at := Some t\<rparr>) db)"
  note u = update_usage [OF Cons.prems(1), where i = i and n = n and t = t]
  have "snd (apply_last_active_batch (e # es) db) = snd (apply_last_active_batch es ?db)" by (simp add: apply_last_active_batch_def e)
  moreover have "i = k \<Longrightarrow> map_of es k = None" using Cons.prems(2) e by (simp add: map_of_eq_None_iff)
  ultimately show ?case using u Cons.IH [of ?db] Cons.prems(2) e by (auto simp: get_or_def)
qed

lemma drain_step:
  assumes "activity_laws R pending" "batcher_inv b" "drain R (b, w) = (r, b1, w1)"
  obtains cs ts where "r = Inr (cs, ts)" "distinct (map fst cs)" "batcher_inv b1" "lb_has_db b1 = lb_has_db b"
    "\<And>k. get_or (map_of cs k) 0 + pending w1 k + memory_count b1 k = pending w k + memory_count b k"
proof (cases "lb_available b")
  case True
  then have empty: "lb_counts b = []" using assms(2) by (simp add: batcher_inv_def)
  obtain x w2 where d: "as_drain R w = (x, w2)" by fastforce
  show ?thesis
  proof (cases x)
    case None
    with True empty d assms(3) have "r = Inr ([], [])" "b1 = b\<lparr>lb_available := False\<rparr>" "w1 = w2" by (auto simp: drain_def)
    with lawsD(4) [OF assms(1), of w w2] d None empty show ?thesis
      by (intro that [of "[]" "[]"]) (auto simp: batcher_inv_def memory_count_def get_or_def)
  next
    case (Some y)
    obtain cs ts where y: "y = (cs, ts)" by fastforce
    with Some True empty d assms(3) have "r = Inr (cs, ts)" "b1 = b" "w1 = w2" by (auto simp: drain_def)
    with lawsD(3) [OF assms(1), of w cs ts w2] d Some y empty assms(2) show ?thesis
      by (intro that [of cs ts]) (auto simp: memory_count_def get_or_def)
  qed
next
  case False
  then show ?thesis
  proof (cases "lb_counts b = []")
    case True
    with False assms have "r = Inr ([], [])" "b1 = b" "w1 = w" by (auto simp: drain_def)
    with True assms(2) show ?thesis by (intro that [of "[]" "[]"]) (auto simp: memory_count_def get_or_def)
  next
    case full: False
    with False assms(3) have "r = Inr (lb_counts b, fold (\<lambda>(k, t). AList.update k t) (lb_ts b) [])" "b1 = b\<lparr>lb_counts := [], lb_ts := []\<rparr>" "w1 = w"
      by (auto simp: drain_def list_ex_iff)
    with assms(2) show ?thesis by (intro that [of "lb_counts b"]) (auto simp: memory_count_def get_or_def batcher_inv_def)
  qed
qed

text \<open>A flush that commits moves what is pending to the rows.\<close>

lemma flush_step:
  assumes "activity_laws R pending" "batcher_inv b" "lb_has_db b" "live_key db k" "flush R now True ((b, w), db) = (r, (b1, w1), db1)"
  shows "batcher_inv b1 \<and> lb_has_db b1 \<and> live_key db1 k \<and> usage db1 k + pending w1 k + memory_count b1 k = usage db k + pending w k + memory_count b k
    \<and> (\<exists>n. r = Inr n)"
proof -
  obtain x b2 w2 where d: "drain R (b, w) = (x, b2, w2)" by (metis prod_cases3)
  from drain_step [OF assms(1,2) d] obtain cs ts where c: "x = Inr (cs, ts)" "distinct (map fst cs)" "batcher_inv b2" "lb_has_db b2 = lb_has_db b"
    "get_or (map_of cs k) 0 + pending w2 k + memory_count b2 k = pending w k + memory_count b k" by metis
  let ?es = "map (\<lambda>(j, n). (j, n, get_or (map_of ts j) now)) cs"
  have "map fst ?es = map fst cs" by (simp add: case_prod_beta comp_def)
  then have es: "distinct (map fst ?es)" using c(2) by metis
  have lookup: "map_option fst (map_of ?es k) = map_of cs k" by (induction cs) auto
  have u: "usage (snd (apply_last_active_batch ?es db)) k = usage db k + get_or (map_of cs k) 0" "live_key (snd (apply_last_active_batch ?es db)) k"
    using batch_usage [OF assms(4) es] lookup by simp_all
  show ?thesis
  proof (cases "cs = []")
    case True
    with assms(3-5) c d show ?thesis by (auto simp: flush_def get_or_def)
  next
    case False
    with assms(3-5) c d u show ?thesis by (auto simp: flush_def split: prod.splits)
  qed
qed

definition touches :: "activity list \<Rightarrow> string \<Rightarrow> int" where
  "touches as k = int (length (filter (\<lambda>a. case a of Touched j _ \<Rightarrow> j = k | Flushed _ _ \<Rightarrow> False) as))"

definition commits :: "activity list \<Rightarrow> bool" where
  "commits as = list_all (\<lambda>a. case a of Touched _ _ \<Rightarrow> True | Flushed _ up \<Rightarrow> up) as"

section \<open>Properties\<close>

text \<open>No request is lost or counted twice while the primary commits: through any sequence of requests and flushes, with Redis failing wherever it
  does, the usage of a live key, what is pending for it in Redis and what is pending in the process add up to the requests made.\<close>

theorem activity_is_conserved:
  assumes "activity_laws R pending" and "batcher_inv b" and "lb_has_db b" and "live_key db k" and "commits as"
    and "run_activity R as ((b, w), db) = ((b1, w1), db1)"
  shows "usage db1 k + pending w1 k + memory_count b1 k = usage db k + pending w k + memory_count b k + touches as k"
proof -
  have "usage db1 k + pending w1 k + memory_count b1 k = usage db k + pending w k + memory_count b k + touches as k \<and> batcher_inv b1"
    using assms(2-6)
  proof (induction as arbitrary: b w db)
    case (Cons a as)
    obtain b2 w2 db2 where s: "activity_step R a ((b, w), db) = ((b2, w2), db2)" by (metis prod_cases3 surj_pair)
    have rest: "run_activity R as ((b2, w2), db2) = ((b1, w1), db1)" "commits as" using Cons.prems(4,5) s by (simp_all add: run_activity_def commits_def)
    show ?case
    proof (cases a)
      case (Touched j t)
      with s have t: "touch R j t (b, w) = (b2, w2)" "db2 = db" by simp_all
      from touch_step [OF assms(1) Cons.prems(1) t(1), of k] Cons.IH [of b2 db2 w2] Cons.prems(2,3) rest t(2) Touched show ?thesis
        by (auto simp: touches_def)
    next
      case (Flushed now up)
      with Cons.prems(4) have up: "up" by (simp add: commits_def)
      obtain r where f: "flush R now True ((b, w), db) = (r, (b2, w2), db2)" using s Flushed up by (cases "flush R now True ((b, w), db)") auto
      from flush_step [OF assms(1) Cons.prems(1,2,3) f] Cons.IH [of b2 db2 w2] rest Flushed show ?thesis by (auto simp: touches_def)
    qed
  qed (simp add: run_activity_def touches_def)
  then show ?thesis ..
qed

text \<open>Once Redis has failed, what it holds is stranded: no later request and no later flush of this process reads or writes it again, and the
  keys' time to live then removes it.\<close>

theorem outage_strands_pending_counts:
  assumes "\<not> lb_available b" and "run_activity R as ((b, w), db) = ((b1, w1), db1)"
  shows "w1 = w \<and> \<not> lb_available b1"
  using assms
proof (induction as arbitrary: b db)
  case (Cons a as)
  obtain b2 w2 db2 where s: "activity_step R a ((b, w), db) = ((b2, w2), db2)" by (metis prod_cases3 surj_pair)
  then have "w2 = w" "\<not> lb_available b2" using Cons.prems(1)
    by (cases a; auto simp: touch_def touch_memory_def flush_def drain_def Let_def split: if_splits sum.splits prod.splits)+
  with Cons s show ?case by (auto simp: run_activity_def)
qed (simp add: run_activity_def)

text \<open>A flush empties the buffers before it writes: when the transaction fails, or no database is bound, everything that was pending is
  gone and no row has changed.\<close>

theorem failed_flush_loses_batch:
  assumes "activity_laws R pending" and "batcher_inv b" and "lb_available b" and "as_drain R w \<noteq> (None, snd (as_drain R w))"
    and "\<not> up \<or> \<not> lb_has_db b" and "flush R now up ((b, w), db) = (r, (b1, w1), db1)"
  shows "db1 = db \<and> pending w1 k = 0 \<and> memory_count b1 k = 0"
proof -
  obtain cs ts w2 where d: "as_drain R w = (Some (cs, ts), w2)" using assms(4) by (cases "as_drain R w"; cases "fst (as_drain R w)") auto
  have "lb_counts b = []" using assms(2,3) by (simp add: batcher_inv_def)
  with d assms(3,5,6) have "db1 = db" "b1 = b" "w1 = w2" by (auto simp: flush_def drain_def split: if_splits)
  with lawsD(3) [OF assms(1) d] \<open>lb_counts b = []\<close> show ?thesis by (simp add: memory_count_def get_or_def)
qed

subsection \<open>Witnesses\<close>

definition sole_activity :: "(string \<times> int) list activity_store" where
  "sole_activity = \<lparr>as_bump = (\<lambda>k _ w. (Some (), AList.update k (get_or (map_of w k) 0 + 1) w)),
     as_drain = (\<lambda>w. (Some (AList.clearjunk w, []), [])), as_len = (\<lambda>w. (Some (length (AList.clearjunk w)), w))\<rparr>"

lemma sole_activity_laws: "activity_laws sole_activity (\<lambda>w k. get_or (map_of w k) 0)"
  by (auto simp: activity_laws_def sole_activity_def update_conv' distinct_clearjunk map_of_clearjunk get_or_def fun_eq_iff)

definition counted_key :: api_key where
  "counted_key = \<lparr>ak_id = ''k1'', ak_name = [], ak_key_hash = [], ak_prefix = [], ak_role = [], ak_tenant_id = None, ak_scopes = [], ak_expires_at = None,
     ak_revoked = False, ak_last_used_at = None, ak_usage_count = 7, ak_mfa_secret = None, ak_mfa_enabled = False, ak_created_at = 0\<rparr>"

definition idle_batcher :: batcher where
  "idle_batcher = \<lparr>lb_available = True, lb_counts = [], lb_ts = [], lb_has_db = True\<rparr>"

theorem activity_is_conserved_witness:
  "case run_activity sole_activity [Touched ''k1'' 1, Touched ''k1'' 2, Flushed 3 True, Touched ''k1'' 4]
      ((idle_batcher, []), \<lparr>ad_keys = [counted_key], ad_sessions = [], ad_audit = []\<rparr>) of
     ((b1, w1), db1) \<Rightarrow> usage db1 ''k1'' + get_or (map_of w1 ''k1'') 0 + memory_count b1 ''k1'' = 10"
proof -
  let ?as = "[Touched ''k1'' 1, Touched ''k1'' 2, Flushed 3 True, Touched ''k1'' 4]"
  let ?db = "\<lparr>ad_keys = [counted_key], ad_sessions = [], ad_audit = []\<rparr>"
  obtain b1 w1 db1 where r: "run_activity sole_activity ?as ((idle_batcher, []), ?db) = ((b1, w1), db1)" by (metis prod_cases3 surj_pair)
  have "batcher_inv idle_batcher" "lb_has_db idle_batcher" "live_key ?db ''k1''" "commits ?as"
    by (simp_all add: batcher_inv_def idle_batcher_def live_key_def counted_key_def commits_def)
  from activity_is_conserved [OF sole_activity_laws this r] r show ?thesis
    by (simp add: usage_def counted_key_def memory_count_def idle_batcher_def touches_def get_or_def)
qed

end
