(* ===== verification/Spend.thy ===== *)
theory Spend
  imports Ledger
begin

text \<open>
  The durable side of the cost ledger: the tables of spend events and of quota windows (\<open>SpendEventRepository\<close>,
  \<open>QuotaStateRepository\<close>) and the worker's job that writes them (\<open>handle_cost_ledger_write\<close>). Each write is a transaction of its own;
  \<open>up i\<close> tells whether the \<open>i\<close>-th transaction of a job commits. The start of the month and the calendar day of an instant are
  parameters. The unique constraint of the quota table does not apply to rows with a NULL, and the
  rows of every level have one: two transactions that both find no row insert two.
\<close>

section \<open>Definitions\<close>

record spend_event =
  se_id :: string
  se_tenant_id :: string
  se_surface_id :: "string option"
  se_end_user_id :: "string option"
  se_conversation_id :: "string option"
  se_session_id :: "string option"
  se_provider :: string
  se_model :: string
  se_usage :: usage
  se_usd :: usd
  se_request_id :: string
  se_created_at :: time

record quota_row =
  qr_scope_type :: string
  qr_tenant_id :: string
  qr_surface_id :: "string option"
  qr_end_user_id :: "string option"
  qr_window :: time
  qr_reserved_usd :: usd
  qr_spent_usd :: usd

type_synonym quota_key = "string \<times> string \<times> string option \<times> string option \<times> time"

definition quota_key_of :: "quota_row \<Rightarrow> quota_key" where
  "quota_key_of r = (qr_scope_type r, qr_tenant_id r, qr_surface_id r, qr_end_user_id r, qr_window r)"

record spend_db =
  sd_events :: "spend_event list"
  sd_quota :: "quota_row list"

definition event_of :: "string \<Rightarrow> time \<Rightarrow> usage_record \<Rightarrow> spend_event" where
  "event_of uid now r =
     \<lparr>se_id = uid, se_tenant_id = ur_tenant_id r, se_surface_id = ur_surface_id r, se_end_user_id = ur_end_user_id r,
      se_conversation_id = ur_conversation_id r, se_session_id = ur_session_id r, se_provider = ur_provider r, se_model = ur_model r,
      se_usage = ur_usage r, se_usd = ur_usd r, se_request_id = ur_request_id r, se_created_at = now\<rparr>"

definition spend_add :: "string \<Rightarrow> time \<Rightarrow> usage_record \<Rightarrow> spend_db \<Rightarrow> spend_db" where
  "spend_add uid now r db = db\<lparr>sd_events := sd_events db @ [event_of uid now r]\<rparr>"

definition spend_list_filtered :: "string option \<Rightarrow> nat \<Rightarrow> string option \<Rightarrow> spend_db \<Rightarrow> spend_event list" where
  "spend_list_filtered tenant limit conversation db =
     take limit (py_sorted_desc se_created_at (filter (\<lambda>e. (truthy_str tenant \<longrightarrow> Some (se_tenant_id e) = tenant)
       \<and> (truthy_str conversation \<longrightarrow> se_conversation_id e = conversation)) (sd_events db)))"

definition spend_get_by_id :: "string \<Rightarrow> string option \<Rightarrow> spend_db \<Rightarrow> spend_event option" where
  "spend_get_by_id i tenant db = find (\<lambda>e. se_id e = i \<and> (truthy_str tenant \<longrightarrow> Some (se_tenant_id e) = tenant)) (sd_events db)"

definition spend_purge_before :: "string \<Rightarrow> time \<Rightarrow> spend_db \<Rightarrow> nat \<times> spend_db" where
  "spend_purge_before tenant before db =
     (let gone = (\<lambda>e. se_tenant_id e = tenant \<and> se_created_at e < before)
      in (length (filter gone (sd_events db)), db\<lparr>sd_events := filter (\<lambda>e. \<not> gone e) (sd_events db)\<rparr>))"

subsection \<open>Aggregation\<close>

record spend_totals =
  sg_calls :: nat
  sg_usd :: usd
  sg_input_tokens :: int
  sg_output_tokens :: int
  sg_cached_tokens :: int

definition totals_of :: "spend_event list \<Rightarrow> spend_totals" where
  "totals_of es =
     \<lparr>sg_calls = length es, sg_usd = (\<Sum>e\<leftarrow>es. se_usd e), sg_input_tokens = (\<Sum>e\<leftarrow>es. us_input_tokens (se_usage e)),
      sg_output_tokens = (\<Sum>e\<leftarrow>es. us_output_tokens (se_usage e)), sg_cached_tokens = (\<Sum>e\<leftarrow>es. us_cached_tokens (se_usage e))\<rparr>"

datatype spend_error = UnsupportedGroupBy string | MultipleResultsFound | TransactionFailed

text \<open>The grouping keys; a NULL surface is a group of its own.\<close>

definition key_expr :: "(time \<Rightarrow> string) \<Rightarrow> string \<Rightarrow> (spend_event \<Rightarrow> string option) option" where
  "key_expr day g =
     (if g = ''tenant'' then Some (\<lambda>e. Some (se_tenant_id e))
      else if g = ''model'' then Some (\<lambda>e. Some (se_model e))
      else if g = ''surface'' then Some se_surface_id
      else if g = ''day'' then Some (\<lambda>e. Some (day (se_created_at e))) else None)"

definition in_range :: "string option \<Rightarrow> time option \<Rightarrow> time option \<Rightarrow> spend_event \<Rightarrow> bool" where
  "in_range tenant since until e \<longleftrightarrow> (truthy_str tenant \<longrightarrow> Some (se_tenant_id e) = tenant)
     \<and> (case since of None \<Rightarrow> True | Some t \<Rightarrow> t \<le> se_created_at e) \<and> (case until of None \<Rightarrow> True | Some t \<Rightarrow> se_created_at e < t)"

definition spend_aggregate ::
  "(time \<Rightarrow> string) \<Rightarrow> string option \<Rightarrow> time option \<Rightarrow> time option \<Rightarrow> string option \<Rightarrow> nat \<Rightarrow> spend_db
     \<Rightarrow> spend_error + (string option \<times> spend_totals) list" where
  "spend_aggregate day tenant since until group_by limit db =
     (let es = filter (in_range tenant since until) (sd_events db)
      in case group_by of
           None \<Rightarrow> Inr [(None, totals_of es)]
         | Some g \<Rightarrow>
             (case key_expr day g of
                None \<Rightarrow> Inl (UnsupportedGroupBy g)
              | Some k \<Rightarrow> Inr (take limit (py_sorted_desc (\<lambda>(_, t). sg_calls t)
                           (map (\<lambda>x. (x, totals_of (filter (\<lambda>e. k e = x) es))) (remdups (map k es)))))))"

subsection \<open>Quota windows\<close>

text \<open>\<open>scalar_one_or_none\<close> of the window: raises when the key has several rows.\<close>

definition find_window :: "quota_key \<Rightarrow> quota_row list \<Rightarrow> spend_error + quota_row option" where
  "find_window k rows = (case filter (\<lambda>r. quota_key_of r = k) rows of [] \<Rightarrow> Inr None | [r] \<Rightarrow> Inr (Some r) | _ \<Rightarrow> Inl MultipleResultsFound)"

definition new_window :: "quota_key \<Rightarrow> usd \<Rightarrow> quota_row" where
  "new_window k usd = (case k of (scope, tenant, surface, user, w) \<Rightarrow>
     \<lparr>qr_scope_type = scope, qr_tenant_id = tenant, qr_surface_id = surface, qr_end_user_id = user, qr_window = w, qr_reserved_usd = 0,
      qr_spent_usd = usd\<rparr>)"

text \<open>The write of \<open>record_spend\<close>, given what its select found.\<close>

definition write_window :: "quota_key \<Rightarrow> usd \<Rightarrow> quota_row option \<Rightarrow> spend_db \<Rightarrow> spend_db" where
  "write_window k usd found db =
     (case found of
        None \<Rightarrow> db\<lparr>sd_quota := sd_quota db @ [new_window k usd]\<rparr>
      | Some _ \<Rightarrow> db\<lparr>sd_quota := map (\<lambda>r. if quota_key_of r = k then r\<lparr>qr_spent_usd := qr_spent_usd r + usd\<rparr> else r) (sd_quota db)\<rparr>)"

definition record_spend :: "quota_key \<Rightarrow> usd \<Rightarrow> spend_db \<Rightarrow> (spend_error + unit) \<times> spend_db" where
  "record_spend k usd db =
     (case find_window k (sd_quota db) of Inl e \<Rightarrow> (Inl e, db) | Inr found \<Rightarrow> (Inr (), write_window k usd found db))"

definition get_window :: "quota_key \<Rightarrow> spend_db \<Rightarrow> spend_error + quota_row option" where
  "get_window k db = find_window k (sd_quota db)"

definition list_windows :: "string option \<Rightarrow> string option \<Rightarrow> nat \<Rightarrow> spend_db \<Rightarrow> quota_row list" where
  "list_windows tenant scope limit db =
     take limit (py_sorted_desc qr_window (filter (\<lambda>r. (truthy_str tenant \<longrightarrow> Some (qr_tenant_id r) = tenant)
       \<and> (truthy_str scope \<longrightarrow> Some (qr_scope_type r) = scope)) (sd_quota db)))"

subsection \<open>The job\<close>

definition ledger_keys :: "time \<Rightarrow> usage_record \<Rightarrow> quota_key list" where
  "ledger_keys window r =
     [(''platform'', [], None, None, window), (''tenant'', ur_tenant_id r, None, None, window)]
     @ (if truthy_str (ur_surface_id r) then [(''surface'', ur_tenant_id r, ur_surface_id r, None, window)] else [])
     @ (if truthy_str (ur_end_user_id r) then [(''end_user'', ur_tenant_id r, None, ur_end_user_id r, window)] else [])"

fun record_levels :: "(nat \<Rightarrow> bool) \<Rightarrow> nat \<Rightarrow> usd \<Rightarrow> quota_key list \<Rightarrow> spend_db \<Rightarrow> (spend_error + unit) \<times> spend_db" where
  "record_levels up i usd [] db = (Inr (), db)"
| "record_levels up i usd (k # ks) db =
     (if \<not> up i then (Inl TransactionFailed, db)
      else case record_spend k usd db of
             (Inl e, db1) \<Rightarrow> (Inl e, db1)
           | (Inr _, db1) \<Rightarrow> record_levels up (Suc i) usd ks db1)"

definition handle_cost_ledger_write ::
  "(time \<Rightarrow> time) \<Rightarrow> (nat \<Rightarrow> bool) \<Rightarrow> string \<Rightarrow> time \<Rightarrow> usage_record \<Rightarrow> spend_db \<Rightarrow> (spend_error + unit) \<times> spend_db" where
  "handle_cost_ledger_write month up uid now r db =
     (if \<not> up 0 then (Inl TransactionFailed, db)
      else record_levels up 1 (ur_usd r) (ledger_keys (month now) r) (spend_add uid now r db))"

section \<open>Lemmas\<close>

definition quota_ok :: "spend_db \<Rightarrow> bool" where
  "quota_ok db \<longleftrightarrow> distinct (map quota_key_of (sd_quota db))"

definition spent :: "spend_db \<Rightarrow> quota_key \<Rightarrow> usd" where
  "spent db k = (\<Sum>r\<leftarrow>filter (\<lambda>r. quota_key_of r = k) (sd_quota db). qr_spent_usd r)"

lemma quota_key_new [simp]: "quota_key_of (new_window k usd) = k" "qr_spent_usd (new_window k usd) = usd"
  by (cases k; simp add: new_window_def quota_key_of_def)+

lemma quota_key_spent [simp]: "quota_key_of (r\<lparr>qr_spent_usd := x\<rparr>) = quota_key_of r"
  by (simp add: quota_key_of_def)

lemma distinct_filter_key: "distinct (map f xs) \<Longrightarrow> (\<exists>x. filter (\<lambda>x. f x = k) xs = [x]) \<or> filter (\<lambda>x. f x = k) xs = []"
proof (induction xs)
  case (Cons x xs)
  then show ?case by (cases "f x = k") (auto simp: filter_empty_conv image_iff)
qed simp

lemma find_window_cases:
  assumes "quota_ok db"
  obtains "find_window k (sd_quota db) = Inr None" "k \<notin> quota_key_of ` set (sd_quota db)"
  | r where "find_window k (sd_quota db) = Inr (Some r)" "filter (\<lambda>r. quota_key_of r = k) (sd_quota db) = [r]"
proof -
  from assms have "distinct (map quota_key_of (sd_quota db))" by (simp add: quota_ok_def)
  from distinct_filter_key [OF this, of k] show thesis
  proof (elim disjE exE)
    fix r assume "filter (\<lambda>r. quota_key_of r = k) (sd_quota db) = [r]"
    then show thesis using that(2) by (simp add: find_window_def)
  next
    assume "filter (\<lambda>r. quota_key_of r = k) (sd_quota db) = []"
    then show thesis using that(1) by (force simp: find_window_def filter_empty_conv)
  qed
qed

lemma map_keys_update:
  "map quota_key_of (map (\<lambda>r. if quota_key_of r = k then r\<lparr>qr_spent_usd := qr_spent_usd r + usd\<rparr> else r) rows) = map quota_key_of rows"
  by (induction rows) auto

lemma filter_update_other:
  "k' \<noteq> k \<Longrightarrow> filter (\<lambda>r. quota_key_of r = k') (map (\<lambda>r. if quota_key_of r = k then r\<lparr>qr_spent_usd := qr_spent_usd r + usd\<rparr> else r) rows)
     = filter (\<lambda>r. quota_key_of r = k') rows"
  by (induction rows) auto

lemma filter_update_same:
  "filter (\<lambda>r. quota_key_of r = k) (map (\<lambda>r. if quota_key_of r = k then r\<lparr>qr_spent_usd := qr_spent_usd r + usd\<rparr> else r) rows)
     = map (\<lambda>r. r\<lparr>qr_spent_usd := qr_spent_usd r + usd\<rparr>) (filter (\<lambda>r. quota_key_of r = k) rows)"
  by (induction rows) auto

text \<open>One upsert on a table with unique keys: it succeeds, keeps the keys unique and adds the amount to its key only.\<close>

lemma record_spend_adds:
  assumes "quota_ok db"
  shows "\<exists>db1. record_spend k usd db = (Inr (), db1) \<and> quota_ok db1 \<and> sd_events db1 = sd_events db
     \<and> spent db1 = (spent db)(k := spent db k + usd)"
  using assms
proof (cases rule: find_window_cases [where k = k])
  case 1
  then have "filter (\<lambda>r. quota_key_of r = k) (sd_quota db) = []" by (auto simp: filter_empty_conv)
  with 1 assms show ?thesis by (auto simp: record_spend_def write_window_def quota_ok_def spent_def fun_eq_iff)
next
  case (2 r)
  with assms show ?thesis
    by (auto simp: record_spend_def write_window_def quota_ok_def spent_def fun_eq_iff map_keys_update filter_update_same filter_update_other
        simp del: map_map)
qed

lemma record_levels_add:
  assumes "quota_ok db" and "\<And>j. up j"
  shows "\<exists>db1. record_levels up i usd ks db = (Inr (), db1) \<and> quota_ok db1 \<and> sd_events db1 = sd_events db
     \<and> spent db1 = (\<lambda>k. spent db k + usd * of_nat (count_list ks k))"
  using assms(1)
proof (induction ks arbitrary: i db)
  case (Cons k ks)
  obtain db1 where e: "record_spend k usd db = (Inr (), db1)" and d: "quota_ok db1" "sd_events db1 = sd_events db"
      "spent db1 = (spent db)(k := spent db k + usd)"
    using record_spend_adds [OF Cons.prems] by blast
  from Cons.IH [OF d(1)] obtain db2 where "record_levels up (Suc i) usd ks db1 = (Inr (), db2)" "quota_ok db2" "sd_events db2 = sd_events db1"
      "spent db2 = (\<lambda>k'. spent db1 k' + usd * of_nat (count_list ks k'))" by blast
  moreover have "(\<lambda>k'. spent db1 k' + usd * of_nat (count_list ks k')) = (\<lambda>k'. spent db k' + usd * of_nat (count_list (k # ks) k'))"
    unfolding d(3) by (rule ext) (simp add: algebra_simps)
  ultimately show ?case using e d(2) assms(2) [of i] by simp
qed simp

text \<open>What the events of a table say of a window.\<close>

definition counts_for :: "(time \<Rightarrow> time) \<Rightarrow> quota_key \<Rightarrow> spend_event \<Rightarrow> bool" where
  "counts_for month k e = (case k of (scope, tenant, surface, user, w) \<Rightarrow> month (se_created_at e) = w \<and>
     (scope = ''platform'' \<and> tenant = [] \<and> surface = None \<and> user = None
      \<or> scope = ''tenant'' \<and> se_tenant_id e = tenant \<and> surface = None \<and> user = None
      \<or> scope = ''surface'' \<and> se_tenant_id e = tenant \<and> truthy_str surface \<and> se_surface_id e = surface \<and> user = None
      \<or> scope = ''end_user'' \<and> se_tenant_id e = tenant \<and> surface = None \<and> truthy_str user \<and> se_end_user_id e = user))"

definition event_spend :: "(time \<Rightarrow> time) \<Rightarrow> spend_db \<Rightarrow> quota_key \<Rightarrow> usd" where
  "event_spend month db k = (\<Sum>e\<leftarrow>filter (counts_for month k) (sd_events db). se_usd e)"

lemma count_list_distinct: "distinct xs \<Longrightarrow> count_list xs k = (if k \<in> set xs then 1 else 0)"
  by (induction xs) auto

lemma ledger_keys_distinct: "distinct (ledger_keys w r)"
  by (simp add: ledger_keys_def)

lemma ledger_keys_member: "k \<in> set (ledger_keys (month now) r) \<longleftrightarrow> counts_for month k (event_of uid now r)"
  by (cases k; cases "truthy_str (ur_surface_id r)"; cases "truthy_str (ur_end_user_id r)")
    (auto simp: ledger_keys_def counts_for_def event_of_def)

lemma ledger_keys_count: "count_list (ledger_keys (month now) r) k = (if counts_for month k (event_of uid now r) then 1 else 0)"
  by (simp add: count_list_distinct [OF ledger_keys_distinct] ledger_keys_member [of k month now r uid])

lemma sum_list_mset:
  fixes f :: "'a \<Rightarrow> 'b::comm_monoid_add"
  assumes "mset xs = mset ys"
  shows "(\<Sum>x\<leftarrow>xs. f x) = (\<Sum>x\<leftarrow>ys. f x)"
  using assms by (metis mset_map sum_mset_sum_list)

text \<open>A run of the job in which every transaction commits.\<close>

fun run_ledger :: "(time \<Rightarrow> time) \<Rightarrow> (string \<times> time \<times> usage_record) list \<Rightarrow> spend_db \<Rightarrow> spend_db" where
  "run_ledger month [] db = db"
| "run_ledger month ((uid, now, r) # js) db = run_ledger month js (snd (handle_cost_ledger_write month (\<lambda>_. True) uid now r db))"

definition ledger_exact :: "(time \<Rightarrow> time) \<Rightarrow> spend_db \<Rightarrow> bool" where
  "ledger_exact month db \<longleftrightarrow> quota_ok db \<and> spent db = event_spend month db"

lemma ledger_write_exact:
  assumes "ledger_exact month db"
  shows "\<exists>db1. handle_cost_ledger_write month (\<lambda>_. True) uid now r db = (Inr (), db1) \<and> ledger_exact month db1
     \<and> sd_events db1 = sd_events db @ [event_of uid now r]"
proof -
  have "quota_ok (spend_add uid now r db)" using assms by (simp add: ledger_exact_def quota_ok_def spend_add_def)
  from record_levels_add [OF this, of "\<lambda>_. True" 1 "ur_usd r" "ledger_keys (month now) r"] obtain db1 where
    s: "record_levels (\<lambda>_. True) 1 (ur_usd r) (ledger_keys (month now) r) (spend_add uid now r db) = (Inr (), db1)" "quota_ok db1"
      "sd_events db1 = sd_events db @ [event_of uid now r]"
      "spent db1 = (\<lambda>k. spent (spend_add uid now r db) k + ur_usd r * of_nat (count_list (ledger_keys (month now) r) k))"
    by (auto simp: spend_add_def)
  have u: "se_usd (event_of uid now r) = ur_usd r" by (simp add: event_of_def)
  have "spent (spend_add uid now r db) = spent db" by (simp add: spend_add_def spent_def fun_eq_iff)
  then have "spent db1 k = event_spend month db k + ur_usd r * of_nat (count_list (ledger_keys (month now) r) k)" for k
    using assms by (simp add: s(4) ledger_exact_def)
  then have "spent db1 = event_spend month db1"
    by (intro ext) (simp add: ledger_keys_count [of month now r _ uid] event_spend_def s(3) u)
  with s show ?thesis by (simp add: handle_cost_ledger_write_def ledger_exact_def)
qed

lemma run_ledger_exact: "ledger_exact month db \<Longrightarrow> ledger_exact month (run_ledger month js db)"
proof (induction js arbitrary: db)
  case (Cons j js)
  obtain uid now r where j: "j = (uid, now, r)" by (cases j)
  from ledger_write_exact [OF Cons.prems, of uid now r] Cons.IH show ?case by (auto simp: j)
qed simp

lemma totals_partition:
  fixes g :: "'a \<Rightarrow> 'b::comm_monoid_add"
  shows "(\<Sum>x\<leftarrow>remdups (map k es). \<Sum>e\<leftarrow>filter (\<lambda>e. k e = x) es. g e) = (\<Sum>e\<leftarrow>es. g e)"
proof -
  have "(\<Sum>x\<leftarrow>xs. \<Sum>e\<leftarrow>filter (\<lambda>e. k e = x) es. g e) = (\<Sum>e\<leftarrow>filter (\<lambda>e. k e \<in> set xs) es. g e)" if "distinct xs" for xs
    using that
  proof (induction xs)
    case (Cons x xs)
    have "(\<Sum>e\<leftarrow>filter (\<lambda>e. k e = x \<or> k e \<in> set xs) es. g e) = (\<Sum>e\<leftarrow>filter (\<lambda>e. k e = x) es. g e) + (\<Sum>e\<leftarrow>filter (\<lambda>e. k e \<in> set xs) es. g e)"
      using Cons.prems by (induction es) (auto simp: algebra_simps)
    with Cons show ?case by simp
  qed simp
  then show ?thesis by (simp add: filter_True)
qed

section \<open>Properties\<close>

text \<open>The quota windows can be rebuilt from the spend events: after any number of jobs that complete, the amount of every window of
  every level is the sum of the events of that month that count for it, and no window has two rows.\<close>

theorem windows_equal_spend_events:
  "spent (run_ledger month js \<lparr>sd_events = [], sd_quota = []\<rparr>) k = event_spend month (run_ledger month js \<lparr>sd_events = [], sd_quota = []\<rparr>) k"
proof -
  have "ledger_exact month \<lparr>sd_events = [], sd_quota = []\<rparr>" by (simp add: ledger_exact_def quota_ok_def spent_def event_spend_def fun_eq_iff)
  then show ?thesis using run_ledger_exact by (auto simp: ledger_exact_def)
qed

text \<open>A job that fails at a later transaction has already written its event; the retry writes it again, so that the request is billed
  twice in the events.\<close>

lemma record_levels_events: "record_levels up i usd ks db = (res, db1) \<Longrightarrow> sd_events db1 = sd_events db"
  by (induction up i usd ks db rule: record_levels.induct)
    (auto simp: record_spend_def write_window_def split: if_splits sum.splits prod.splits option.splits)

theorem retried_job_bills_twice:
  assumes "up 0" and "handle_cost_ledger_write month up uid now r db = (Inl e, db1)"
    and "handle_cost_ledger_write month (\<lambda>_. True) uid2 now2 r db1 = (res, db2)"
  shows "sd_events db2 = sd_events db @ [event_of uid now r, event_of uid2 now2 r]"
  using assms by (auto simp: handle_cost_ledger_write_def spend_add_def dest!: record_levels_events)

text \<open>Two jobs that meet at the first spend of a window both insert it, and from then on every job on that window fails.\<close>

theorem concurrent_first_spend_blocks_window:
  assumes "find_window k (sd_quota db) = Inr None"
  shows "record_spend k usd3 (write_window k usd2 None (write_window k usd1 None db))
    = (Inl MultipleResultsFound, write_window k usd2 None (write_window k usd1 None db))"
proof -
  have "filter (\<lambda>r. quota_key_of r = k) (sd_quota db) = []"
    using assms by (auto simp: find_window_def split: list.splits)
  then show ?thesis by (simp add: record_spend_def find_window_def write_window_def)
qed

text \<open>A grouped report that is not cut by its limit adds up to the ungrouped one.\<close>

theorem grouped_report_adds_up:
  assumes "spend_aggregate day tenant since until (Some g) limit db = Inr rows"
    and "spend_aggregate day tenant since until None limit db = Inr [(None, t)]" and "length rows < limit"
  shows "(\<Sum>p\<leftarrow>rows. sg_usd (snd p)) = sg_usd t" and "(\<Sum>p\<leftarrow>rows. sg_calls (snd p)) = sg_calls t"
proof -
  let ?es = "filter (in_range tenant since until) (sd_events db)"
  obtain k where k: "rows = take limit (py_sorted_desc (\<lambda>(_, t). sg_calls t) (map (\<lambda>x. (x, totals_of (filter (\<lambda>e. k e = x) ?es))) (remdups (map k ?es))))"
    using assms(1) by (auto simp: spend_aggregate_def Let_def split: option.splits)
  let ?g = "map (\<lambda>x. (x, totals_of (filter (\<lambda>e. k e = x) ?es))) (remdups (map k ?es))"
  have "mset rows = mset ?g"
    using assms(3) k by (auto simp: py_sorted_desc_def)
  then have m: "(\<Sum>p\<leftarrow>rows. sg_usd (snd p)) = (\<Sum>p\<leftarrow>?g. sg_usd (snd p))" "(\<Sum>p\<leftarrow>rows. sg_calls (snd p)) = (\<Sum>p\<leftarrow>?g. sg_calls (snd p))"
    by (rule sum_list_mset)+
  have t: "t = totals_of ?es" using assms(2) by (simp add: spend_aggregate_def)
  show "(\<Sum>p\<leftarrow>rows. sg_usd (snd p)) = sg_usd t"
    using totals_partition [where k = k and es = ?es and g = se_usd] m(1) by (simp add: t totals_of_def comp_def)
  have "(\<Sum>e\<leftarrow>xs. 1) = length xs" for xs :: "spend_event list" by (induction xs) auto
  then show "(\<Sum>p\<leftarrow>rows. sg_calls (snd p)) = sg_calls t"
    using totals_partition [where k = k and es = ?es and g = "\<lambda>_. 1 :: nat"] m(2) by (simp add: t totals_of_def comp_def)
qed

section \<open>Witnesses\<close>

definition demo_usage :: usage_record where
  "demo_usage = \<lparr>ur_tenant_id = ''t1'', ur_provider = ''p'', ur_model = ''m'', ur_usage = no_usage, ur_usd = 2, ur_surface_id = None,
     ur_end_user_id = None, ur_conversation_id = None, ur_session_id = None, ur_request_id = ''r1''\<rparr>"

definition empty_spend :: spend_db where
  "empty_spend = \<lparr>sd_events = [], sd_quota = []\<rparr>"

lemmas demo_spend_defs = handle_cost_ledger_write_def ledger_keys_def demo_usage_def truthy_str_def record_spend_def find_window_def
  write_window_def spend_add_def event_of_def empty_spend_def

theorem retried_job_bills_twice_witness:
  "sd_events (snd (handle_cost_ledger_write (\<lambda>_. 0) (\<lambda>_. True) ''b'' 6 demo_usage
      (snd (handle_cost_ledger_write (\<lambda>_. 0) (\<lambda>i. i < 2) ''a'' 5 demo_usage empty_spend))))
     = [event_of ''a'' 5 demo_usage, event_of ''b'' 6 demo_usage]"
proof -
  obtain db1 where e1: "handle_cost_ledger_write (\<lambda>_. 0) (\<lambda>i. i < 2) ''a'' 5 demo_usage empty_spend = (Inl TransactionFailed, db1)"
    by (simp add: demo_spend_defs)
  obtain res db2 where e2: "handle_cost_ledger_write (\<lambda>_. 0) (\<lambda>_. True) ''b'' 6 demo_usage db1 = (res, db2)" by (metis prod.exhaust)
  have "sd_events db2 = sd_events empty_spend @ [event_of ''a'' 5 demo_usage, event_of ''b'' 6 demo_usage]"
    by (rule retried_job_bills_twice [OF _ e1 e2]) simp
  then show ?thesis using e1 e2 by (simp add: empty_spend_def)
qed

theorem concurrent_first_spend_blocks_window_witness:
  "fst (record_spend (''tenant'', ''t1'', None, None, 0) 3 (write_window (''tenant'', ''t1'', None, None, 0) 2 None
     (write_window (''tenant'', ''t1'', None, None, 0) 1 None empty_spend))) = Inl MultipleResultsFound"
  using concurrent_first_spend_blocks_window [of "(''tenant'', ''t1'', None, None, 0)" empty_spend 3 2 1]
  by (simp add: find_window_def empty_spend_def)

theorem grouped_report_adds_up_witness:
  "case spend_aggregate (\<lambda>_. []) None None None (Some ''tenant'') 50 (spend_add ''a'' 5 demo_usage empty_spend) of
     Inr rows \<Rightarrow> (\<Sum>p\<leftarrow>rows. sg_usd (snd p)) = 2 | Inl _ \<Rightarrow> False"
proof -
  let ?db = "spend_add ''a'' 5 demo_usage empty_spend"
  let ?t = "totals_of (sd_events ?db)"
  obtain rows where r: "spend_aggregate (\<lambda>_. []) None None None (Some ''tenant'') 50 ?db = Inr rows" "length rows = 1"
    by (simp add: spend_aggregate_def key_expr_def demo_spend_defs in_range_def py_sorted_desc_def)
  have t: "spend_aggregate (\<lambda>_. []) None None None None 50 ?db = Inr [(None, ?t)]"
    by (simp add: spend_aggregate_def demo_spend_defs in_range_def)
  from grouped_report_adds_up(1) [OF r(1) t] r show ?thesis by (simp add: totals_of_def demo_spend_defs)
qed

end
