(* ===== verification/Archive.thy ===== *)
theory Archive
  imports Governance Thread_Mutation Session_Tokens Spend
begin

text \<open>
  Cold storage and retention: \<open>ThreadArchiveService\<close> (\<open>application/archive/service.py\<close>), the upload and download it uses of
  \<open>StorageManager\<close> (\<open>infrastructure/storage/manager.py\<close>), the guardrail evidence table (\<open>EvidenceRepository\<close>), and the retention sweep
  with the two single-thread jobs (\<open>worker/retention.py\<close>). An object's body is the dump that its JSON text stands for, SHA-256 a
  parameter; an upload succeeds or raises, as an argument says. In its fallback the storage writes files and keeps no metadata.
\<close>

section \<open>Object storage\<close>

record stored_object =
  so_body :: thread_dump
  so_checksum :: "string option"

record storage =
  sg_remote :: bool
  sg_objects :: "string \<Rightarrow> stored_object option"

text \<open>The metadata are the object's checksum as far as the archive reads them; the local fallback drops them.\<close>

definition upload_file :: "bool \<Rightarrow> string \<Rightarrow> thread_dump \<Rightarrow> string \<Rightarrow> storage \<Rightarrow> storage option" where
  "upload_file ok key body checksum sg =
     (if ok then Some (sg\<lparr>sg_objects := (sg_objects sg)(key \<mapsto> \<lparr>so_body = body, so_checksum = (if sg_remote sg then Some checksum else None)\<rparr>)\<rparr>)
      else None)"

definition download_file :: "string \<Rightarrow> storage \<Rightarrow> stored_object option" where
  "download_file key sg = sg_objects sg key"

section \<open>Archive and restore\<close>

datatype archive_error =
    ArchiveThreadNotFound string
  | ArchiveRegion region_error
  | UploadFailed
  | FileNotFound string
  | ArchiveChecksumMismatch
  | ArchivePayloadMismatch

record archive_result =
  ax_thread :: string
  ax_archived :: bool
  ax_noop :: bool
  ax_key :: "string option"
  ax_messages :: nat

definition archive_key :: "string \<Rightarrow> string \<Rightarrow> string option \<Rightarrow> archive_error + string" where
  "archive_key tenant tid region =
     (case archive_prefix tenant region of Inl e \<Rightarrow> Inl (ArchiveRegion e) | Inr p \<Rightarrow> Inr (p @ ''threads/'' @ tid @ ''.json''))"

type_synonym archive_state = "storage \<times> thread_db"

definition archive_thread ::
  "(thread_dump \<Rightarrow> string) \<Rightarrow> bool \<Rightarrow> string \<Rightarrow> string \<Rightarrow> string option \<Rightarrow> string option \<Rightarrow> archive_state
     \<Rightarrow> (archive_error + archive_result) \<times> archive_state" where
  "archive_thread sha ok tenant tid region req s =
     (case s of
        (sg, db) \<Rightarrow>
          (case get_thread db tenant tid of
             None \<Rightarrow> (Inl (ArchiveThreadNotFound tid), s)
           | Some t \<Rightarrow>
               (case archive_key tenant tid region of
                  Inl e \<Rightarrow> (Inl e, s)
                | Inr key \<Rightarrow>
                    if th_archived t
                    then (Inr \<lparr>ax_thread = tid, ax_archived = True, ax_noop = True, ax_key = Some key, ax_messages = 0\<rparr>, s)
                    else (case dump_thread db tenant tid of
                            None \<Rightarrow> (Inl (ArchiveThreadNotFound tid), s)
                          | Some d \<Rightarrow>
                              (case upload_file ok key d (sha d) sg of
                                 None \<Rightarrow> (Inl UploadFailed, s)
                               | Some sg1 \<Rightarrow>
                                   (Inr \<lparr>ax_thread = tid, ax_archived = True, ax_noop = False, ax_key = Some key,
                                         ax_messages = length (dp_messages d)\<rparr>,
                                    sg1, snd (set_archived tenant tid True req db)))))))"

definition archive_tenant_window ::
  "(thread_dump \<Rightarrow> string) \<Rightarrow> (string \<Rightarrow> bool) \<Rightarrow> string \<Rightarrow> time \<Rightarrow> nat \<Rightarrow> string option \<Rightarrow> string option \<Rightarrow> archive_state
     \<Rightarrow> (string list \<times> string list) \<times> archive_state" where
  "archive_tenant_window sha ok tenant cutoff limit region req s =
     fold (\<lambda>t ((done, failed), s1). case archive_thread sha (ok (th_id t)) tenant (th_id t) region req s1 of
             (Inr _, s2) \<Rightarrow> ((done @ [th_id t], failed), s2)
           | (Inl _, s2) \<Rightarrow> ((done, failed @ [th_id t]), s2))
       (list_threads_archivable (snd s) tenant cutoff limit) (([], []), s)"

definition restore_thread ::
  "(thread_dump \<Rightarrow> string) \<Rightarrow> string \<Rightarrow> string \<Rightarrow> string option \<Rightarrow> string option \<Rightarrow> archive_state
     \<Rightarrow> (archive_error + archive_result) \<times> archive_state" where
  "restore_thread sha tenant tid region req s =
     (case s of
        (sg, db) \<Rightarrow>
          (case get_thread db tenant tid of
             None \<Rightarrow> (Inl (ArchiveThreadNotFound tid), s)
           | Some t \<Rightarrow>
               if \<not> th_archived t
               then (Inr \<lparr>ax_thread = tid, ax_archived = False, ax_noop = True, ax_key = None, ax_messages = 0\<rparr>, s)
               else (case archive_key tenant tid region of
                       Inl e \<Rightarrow> (Inl e, s)
                     | Inr key \<Rightarrow>
                         (case download_file key sg of
                            None \<Rightarrow> (Inl (FileNotFound key), s)
                          | Some ob \<Rightarrow>
                              if truthy_str (so_checksum ob) \<and> Some (sha (so_body ob)) \<noteq> so_checksum ob then (Inl ArchiveChecksumMismatch, s)
                              else if th_id (dp_thread (so_body ob)) \<noteq> tid then (Inl ArchivePayloadMismatch, s)
                              else (Inr \<lparr>ax_thread = tid, ax_archived = False, ax_noop = False, ax_key = Some key,
                                         ax_messages = length (dp_messages (so_body ob))\<rparr>,
                                    sg, snd (set_archived tenant tid False req db))))))"

text \<open>The two jobs: both identifiers are required.\<close>

definition handle_thread_archive ::
  "(thread_dump \<Rightarrow> string) \<Rightarrow> bool \<Rightarrow> string option \<Rightarrow> string option \<Rightarrow> string option \<Rightarrow> string option \<Rightarrow> archive_state
     \<Rightarrow> (archive_error option + archive_result) \<times> archive_state" where
  "handle_thread_archive sha ok tenant tid region req s =
     (if \<not> truthy_str tenant \<or> \<not> truthy_str tid then (Inl None, s)
      else case archive_thread sha ok (the tenant) (the tid) region req s of (Inl e, s1) \<Rightarrow> (Inl (Some e), s1) | (Inr r, s1) \<Rightarrow> (Inr r, s1))"

definition handle_thread_restore ::
  "(thread_dump \<Rightarrow> string) \<Rightarrow> string option \<Rightarrow> string option \<Rightarrow> string option \<Rightarrow> string option \<Rightarrow> archive_state
     \<Rightarrow> (archive_error option + archive_result) \<times> archive_state" where
  "handle_thread_restore sha tenant tid region req s =
     (if \<not> truthy_str tenant \<or> \<not> truthy_str tid then (Inl None, s)
      else case restore_thread sha (the tenant) (the tid) region req s of (Inl e, s1) \<Rightarrow> (Inl (Some e), s1) | (Inr r, s1) \<Rightarrow> (Inr r, s1))"

section \<open>Retention\<close>

record evidence_row =
  gv_tenant_id :: string
  gv_conversation_id :: "string option"
  gv_session_id :: "string option"
  gv_direction :: string
  gv_decision :: string
  gv_allowed :: bool
  gv_input_hash :: string
  gv_created_at :: time

definition evidence_add :: "evidence_row \<Rightarrow> evidence_row list \<Rightarrow> evidence_row list" where
  "evidence_add r rows = rows @ [r]"

definition evidence_list_by_tenant :: "string \<Rightarrow> nat \<Rightarrow> evidence_row list \<Rightarrow> evidence_row list" where
  "evidence_list_by_tenant tenant limit rows = take limit (py_sorted_desc gv_created_at (filter (\<lambda>r. gv_tenant_id r = tenant) rows))"

definition evidence_delete_by_tenant :: "string \<Rightarrow> evidence_row list \<Rightarrow> nat \<times> evidence_row list" where
  "evidence_delete_by_tenant tenant rows = (length (filter (\<lambda>r. gv_tenant_id r = tenant) rows), filter (\<lambda>r. gv_tenant_id r \<noteq> tenant) rows)"

definition evidence_purge_before :: "string \<Rightarrow> time \<Rightarrow> evidence_row list \<Rightarrow> nat \<times> evidence_row list" where
  "evidence_purge_before tenant before rows =
     (let gone = (\<lambda>r. gv_tenant_id r = tenant \<and> gv_created_at r < before)
      in (length (filter gone rows), filter (\<lambda>r. \<not> gone r) rows))"

record retention_policy =
  rp_thread_days :: int
  rp_trace_days :: int
  rp_spend_days :: int
  rp_evidence_days :: int
  rp_audit_days :: int

definition default_retention :: retention_policy where
  "default_retention = \<lparr>rp_thread_days = 90, rp_trace_days = 90, rp_spend_days = 365, rp_evidence_days = 730, rp_audit_days = 730\<rparr>"

definition days_before :: "time \<Rightarrow> int \<Rightarrow> time" where
  "days_before now days = now - of_int (days * 86400)"

text \<open>The row of a tenant as the sweep reads it: its own window and its region.\<close>

record tenant_retention =
  tr_retention_days :: "int option"
  tr_region :: "string option"

record retention_state =
  rs_archive :: archive_state
  rs_tokens :: token_db
  rs_spend :: spend_db
  rs_evidence :: "evidence_row list"

definition thread_window :: "tenant_retention option \<Rightarrow> int" where
  "thread_window row = (case row of None \<Rightarrow> rp_thread_days default_retention
     | Some r \<Rightarrow> num_or (tr_retention_days r) (rp_thread_days default_retention))"

definition archive_phase ::
  "(thread_dump \<Rightarrow> string) \<Rightarrow> (string \<Rightarrow> bool) \<Rightarrow> time \<Rightarrow> string \<Rightarrow> tenant_retention option \<Rightarrow> archive_state \<Rightarrow> archive_state" where
  "archive_phase sha ok now tenant row s =
     (case row of
        None \<Rightarrow> snd (archive_tenant_window sha ok tenant (days_before now (thread_window row)) 100 None (Some (''retention:'' @ tenant)) s)
      | Some r \<Rightarrow>
          (case resolve_region (tr_region r) of
             Inl _ \<Rightarrow> s
           | Inr region \<Rightarrow>
               snd (archive_tenant_window sha ok tenant (days_before now (thread_window row)) 100 (Some region) (Some (''retention:'' @ tenant)) s)))"

definition sweep_tenant ::
  "(thread_dump \<Rightarrow> string) \<Rightarrow> (string \<Rightarrow> bool) \<Rightarrow> time \<Rightarrow> (string \<Rightarrow> tenant_retention option) \<Rightarrow> bool \<Rightarrow> string \<Rightarrow> retention_state \<Rightarrow> retention_state" where
  "sweep_tenant sha ok now tenants dry_run target rs =
     (if dry_run then rs
      else rs\<lparr>rs_archive := archive_phase sha ok now target (tenants target) (rs_archive rs),
              rs_tokens := snd (prune_expired target (days_before now (rp_audit_days default_retention)) (rs_tokens rs)),
              rs_spend := snd (spend_purge_before target (days_before now (rp_spend_days default_retention)) (rs_spend rs)),
              rs_evidence := snd (evidence_purge_before target (days_before now (rp_evidence_days default_retention)) (rs_evidence rs))\<rparr>)"

definition handle_retention_run ::
  "(thread_dump \<Rightarrow> string) \<Rightarrow> (string \<Rightarrow> bool) \<Rightarrow> time \<Rightarrow> (string \<Rightarrow> tenant_retention option) \<Rightarrow> string list \<Rightarrow> string option \<Rightarrow> bool
     \<Rightarrow> retention_state \<Rightarrow> retention_state" where
  "handle_retention_run sha ok now tenants all_ids tenant dry_run rs =
     fold (sweep_tenant sha ok now tenants dry_run) (if truthy_str tenant then [the tenant] else all_ids) rs"

section \<open>Lemmas\<close>

lemma set_archived_parts:
  assumes "get_thread db tenant tid = Some t"
  shows "db_messages (snd (set_archived tenant tid a req db)) = db_messages db"
    and "db_parts (snd (set_archived tenant tid a req db)) = db_parts db"
    and "db_threads (snd (set_archived tenant tid a req db))
      = map (\<lambda>t. if th_tenant t = tenant \<and> th_id t = tid then t\<lparr>th_archived := a\<rparr> else t) (db_threads db)"
  using assms by (simp_all add: set_archived_def Let_def add_event_def update_thread_def)

lemma find_map_same: "(\<And>x. P (f x) = P x) \<Longrightarrow> find P (map f xs) = map_option f (find P xs)"
  by (induction xs) auto

lemma get_thread_set_archived:
  assumes "get_thread db tenant tid = Some t"
  shows "get_thread (snd (set_archived tenant tid a req db)) tenant tid = Some (t\<lparr>th_archived := a\<rparr>)"
  using assms get_threadD [OF assms] unfolding get_thread_def set_archived_parts(3) [OF assms]
  by (subst find_map_same) auto

text \<open>An archive run that did something: where the copy is and what became of the store.\<close>

lemma archive_thread_Inr:
  assumes "archive_thread sha ok tenant tid region req (sg, db) = (Inr r, sg1, db1)" and "\<not> ax_noop r"
  obtains t d key where "get_thread db tenant tid = Some t" "\<not> th_archived t" "dump_thread db tenant tid = Some d"
    "archive_key tenant tid region = Inr key" "upload_file ok key d (sha d) sg = Some sg1" "db1 = snd (set_archived tenant tid True req db)"
    "ax_messages r = length (dp_messages d)"
  using assms by (auto simp: archive_thread_def split: option.splits sum.splits if_splits)

lemma archive_thread_Inl: "archive_thread sha ok tenant tid region req s = (Inl e, s1) \<Longrightarrow> s1 = s"
  by (auto simp: archive_thread_def split: option.splits sum.splits if_splits prod.splits)

lemma archive_thread_noop: "archive_thread sha ok tenant tid region req s = (Inr r, s1) \<Longrightarrow> ax_noop r \<Longrightarrow> s1 = s"
  by (auto simp: archive_thread_def split: option.splits sum.splits if_splits prod.splits)

text \<open>What a call of \<open>archive_thread\<close> may do to the threads: mark the one of the tenant.\<close>

lemma archive_thread_threads:
  assumes "archive_thread sha ok tenant tid region req s = (res, s1)"
  shows "db_messages (snd s1) = db_messages (snd s) \<and> db_parts (snd s1) = db_parts (snd s) \<and>
     (db_threads (snd s1) = db_threads (snd s) \<or> ok \<and>
      db_threads (snd s1) = map (\<lambda>t. if th_tenant t = tenant \<and> th_id t = tid then t\<lparr>th_archived := True\<rparr> else t) (db_threads (snd s)))"
proof (cases res)
  case (Inl e)
  then show ?thesis using archive_thread_Inl assms by (metis (no_types))
next
  case (Inr r)
  obtain sg db sg1 db1 where s: "s = (sg, db)" "s1 = (sg1, db1)" by (cases s, cases s1)
  show ?thesis
  proof (cases "ax_noop r")
    case True
    then show ?thesis using archive_thread_noop assms Inr by (metis (no_types))
  next
    case False
    from assms Inr s have "archive_thread sha ok tenant tid region req (sg, db) = (Inr r, sg1, db1)" by simp
    from archive_thread_Inr [OF this False] obtain t d key where t: "get_thread db tenant tid = Some t"
        "upload_file ok key d (sha d) sg = Some sg1" "db1 = snd (set_archived tenant tid True req db)" .
    have ok using t(2) by (simp add: upload_file_def split: if_splits)
    then show ?thesis by (simp add: s t(3) set_archived_parts [OF t(1)])
  qed
qed

text \<open>The rows that a sweep may mark.\<close>

definition mark_if :: "(thread_row \<Rightarrow> bool) \<Rightarrow> thread_row \<Rightarrow> thread_row" where
  "mark_if P t = (if P t then t\<lparr>th_archived := True\<rparr> else t)"

definition blind :: "(thread_row \<Rightarrow> bool) \<Rightarrow> bool" where
  "blind P \<longleftrightarrow> (\<forall>t. P (t\<lparr>th_archived := True\<rparr>) = P t)"

lemma mark_if_mark_if: "blind P \<Longrightarrow> blind Q \<Longrightarrow> mark_if P (mark_if Q t) = mark_if (\<lambda>t. P t \<or> Q t) t"
  by (auto simp: mark_if_def blind_def)

lemma sweep_threads:
  assumes "fold (\<lambda>t ((done, failed), s1). case archive_thread sha (ok (th_id t)) tenant (th_id t) region req s1 of
             (Inr _, s2) \<Rightarrow> ((done @ [th_id t], failed), s2) | (Inl _, s2) \<Rightarrow> ((done, failed @ [th_id t]), s2)) ts (acc, s) = (acc1, s1)"
  shows "db_messages (snd s1) = db_messages (snd s) \<and> db_parts (snd s1) = db_parts (snd s) \<and>
     (\<exists>ids \<subseteq> th_id ` set ts. db_threads (snd s1) = map (mark_if (\<lambda>t. th_tenant t = tenant \<and> th_id t \<in> ids)) (db_threads (snd s)))"
  using assms
proof (induction ts arbitrary: acc s)
  case Nil
  have "map (mark_if (\<lambda>t. th_tenant t = tenant \<and> th_id t \<in> {})) xs = xs" for xs by (induction xs) (auto simp: mark_if_def)
  then show ?case using Nil by force
next
  case (Cons t ts)
  obtain res s2 where e: "archive_thread sha (ok (th_id t)) tenant (th_id t) region req s = (res, s2)" by (metis prod.exhaust)
  note a = archive_thread_threads [OF e]
  obtain acc2 where f: "fold (\<lambda>t ((done, failed), s1). case archive_thread sha (ok (th_id t)) tenant (th_id t) region req s1 of
             (Inr _, s2) \<Rightarrow> ((done @ [th_id t], failed), s2) | (Inl _, s2) \<Rightarrow> ((done, failed @ [th_id t]), s2)) ts (acc2, s2) = (acc1, s1)"
    using Cons.prems e by (cases acc; cases res) auto
  from Cons.IH [OF f] obtain ids where i: "ids \<subseteq> th_id ` set ts" "db_messages (snd s1) = db_messages (snd s2)" "db_parts (snd s1) = db_parts (snd s2)"
      "db_threads (snd s1) = map (mark_if (\<lambda>t. th_tenant t = tenant \<and> th_id t \<in> ids)) (db_threads (snd s2))" by blast
  from a consider "db_threads (snd s2) = db_threads (snd s)"
    | "db_threads (snd s2) = map (mark_if (\<lambda>x. th_tenant x = tenant \<and> th_id x = th_id t)) (db_threads (snd s))"
    by (auto simp: mark_if_def [abs_def])
  then show ?case
  proof cases
    case 1
    then show ?thesis using a i by (intro conjI exI [of _ ids]) auto
  next
    case 2
    have "map (mark_if (\<lambda>t. th_tenant t = tenant \<and> th_id t \<in> ids)) (map (mark_if (\<lambda>x. th_tenant x = tenant \<and> th_id x = th_id t)) xs)
        = map (mark_if (\<lambda>x. th_tenant x = tenant \<and> th_id x \<in> insert (th_id t) ids)) xs" for xs
      by (auto simp: mark_if_mark_if blind_def intro!: map_cong arg_cong [where f = "\<lambda>P. mark_if P _"])
    then show ?thesis using a i 2 by (intro conjI exI [of _ "insert (th_id t) ids"]) auto
  qed
qed

section \<open>Properties\<close>

text \<open>Archive and restore in the same region are a round trip: the thread is open again, messages and parts are untouched, and the
  restored copy has as many messages as the thread.\<close>

theorem archive_restore_round_trip:
  assumes "archive_thread sha ok tenant tid region req (sg, db) = (Inr r, sg1, db1)" and "\<not> ax_noop r"
  shows "\<exists>r2 db2. restore_thread sha tenant tid region req2 (sg1, db1) = (Inr r2, sg1, db2) \<and> ax_messages r2 = length (thread_messages db tenant tid)
     \<and> get_thread db2 tenant tid = get_thread db tenant tid \<and> db_messages db2 = db_messages db \<and> db_parts db2 = db_parts db"
proof -
  from archive_thread_Inr [OF assms] obtain t d key where a: "get_thread db tenant tid = Some t" "\<not> th_archived t" "dump_thread db tenant tid = Some d"
      "archive_key tenant tid region = Inr key" "upload_file ok key d (sha d) sg = Some sg1" "db1 = snd (set_archived tenant tid True req db)" .
  let ?t1 = "t\<lparr>th_archived := True\<rparr>"
  have g1: "get_thread db1 tenant tid = Some ?t1" unfolding a(6) by (rule get_thread_set_archived [OF a(1)])
  obtain c where o1: "download_file key sg1 = Some \<lparr>so_body = d, so_checksum = c\<rparr>" "c = None \<or> c = Some (sha d)"
    using a(5) by (auto simp: upload_file_def download_file_def split: if_splits)
  have d: "th_id (dp_thread d) = tid" "length (dp_messages d) = length (thread_messages db tenant tid)"
    using a(1,3) get_threadD [OF a(1)] by (auto simp: dump_thread_def)
  let ?db2 = "snd (set_archived tenant tid False req2 db1)"
  have r: "restore_thread sha tenant tid region req2 (sg1, db1)
      = (Inr \<lparr>ax_thread = tid, ax_archived = False, ax_noop = False, ax_key = Some key, ax_messages = length (dp_messages d)\<rparr>, sg1, ?db2)"
    using g1 a(4) o1 d(1) by (auto simp: restore_thread_def truthy_str_def)
  have "t\<lparr>th_archived := False\<rparr> = t" using a(2) by (cases t) simp
  then have "get_thread ?db2 tenant tid = Some t" using get_thread_set_archived [OF g1, of False req2] by simp
  moreover have "db_messages ?db2 = db_messages db" "db_parts ?db2 = db_parts db"
    using set_archived_parts [OF g1] set_archived_parts [OF a(1)] by (simp_all add: a(6))
  ultimately show ?thesis using r d(2) a(1) by auto
qed

text \<open>A failed call, of an upload or any other kind, leaves the store and the storage as they were; a second archive of the same thread
  uploads nothing.\<close>

theorem failed_archive_changes_nothing:
  "archive_thread sha ok tenant tid region req s = (Inl e, s1) \<Longrightarrow> s1 = s"
  "archive_thread sha ok tenant tid region req s = (Inr r, s1) \<Longrightarrow> archive_thread sha ok2 tenant tid region req2 s1 = (res, s2) \<Longrightarrow> s2 = s1"
  "\<not> ok \<Longrightarrow> archive_thread sha ok tenant tid region req s = (res, s1) \<Longrightarrow> s1 = s"
proof -
  show "s1 = s" if "archive_thread sha ok tenant tid region req s = (Inl e, s1)" using that by (rule archive_thread_Inl)
  show "s2 = s1" if h: "archive_thread sha ok tenant tid region req s = (Inr r, s1)" "archive_thread sha ok2 tenant tid region req2 s1 = (res, s2)"
  proof -
    obtain sg db sg1 db1 where s: "s = (sg, db)" "s1 = (sg1, db1)" by (cases s, cases s1)
    have "\<exists>t. get_thread db1 tenant tid = Some t \<and> th_archived t"
    proof (cases "ax_noop r")
      case True
      then show ?thesis using h(1) by (auto simp: s archive_thread_def split: option.splits sum.splits if_splits)
    next
      case False
      from archive_thread_Inr [OF h(1) [unfolded s] False] show ?thesis using get_thread_set_archived by fastforce
    qed
    then show ?thesis using h(2) by (auto simp: s archive_thread_def split: option.splits sum.splits)
  qed
  show "s1 = s" if "\<not> ok" "archive_thread sha ok tenant tid region req s = (res, s1)"
    using that by (auto simp: archive_thread_def upload_file_def split: option.splits sum.splits if_splits prod.splits)
qed

text \<open>A damaged copy in the remote store is refused and the thread stays archived.\<close>

theorem damaged_copy_refused:
  assumes "get_thread db tenant tid = Some t" and "th_archived t" and "archive_key tenant tid region = Inr key"
    and "download_file key sg = Some \<lparr>so_body = d, so_checksum = Some c\<rparr>" and "c \<noteq> []" and "sha d \<noteq> c"
  shows "restore_thread sha tenant tid region req (sg, db) = (Inl ArchiveChecksumMismatch, sg, db)"
  using assms by (simp add: restore_thread_def truthy_str_def)

text \<open>The local fallback keeps no checksum: whatever the file holds for the thread is accepted.\<close>

lemma local_copy_not_verified:
  assumes "get_thread db tenant tid = Some t" and "th_archived t" and "archive_key tenant tid region = Inr key"
    and "download_file key sg = Some \<lparr>so_body = d, so_checksum = None\<rparr>" and "th_id (dp_thread d) = tid"
  shows "\<exists>r db1. restore_thread sha tenant tid region req (sg, db) = (Inr r, sg, db1) \<and> \<not> ax_archived r"
  using assms by (simp add: restore_thread_def truthy_str_def)

text \<open>A copy is found only in its own region: the sweep archives in the tenant's region, and a restore that names another one, or none
  where the tenant's is not the default, finds nothing.\<close>

lemma restore_needs_the_region:
  assumes "get_thread db tenant tid = Some t" and "th_archived t" and "archive_key tenant tid other = Inr key" and "sg_objects sg key = None"
  shows "restore_thread sha tenant tid other req (sg, db) = (Inl (FileNotFound key), sg, db)"
  using assms by (simp add: restore_thread_def download_file_def)

text \<open>The sweep of a tenant never touches messages, parts or threads of other tenants, and marks only threads older than the window.\<close>

theorem sweep_marks_only_old_threads:
  assumes "archive_tenant_window sha ok tenant cutoff limit region req (sg, db) = (acc, sg1, db1)"
  shows "db_messages db1 = db_messages db" and "db_parts db1 = db_parts db" and "map th_id (db_threads db1) = map th_id (db_threads db)"
    and "i < length (db_threads db) \<Longrightarrow> db_threads db1 ! i \<noteq> db_threads db ! i \<Longrightarrow>
      th_tenant (db_threads db ! i) = tenant \<and> (\<exists>t \<in> set (db_threads db). th_id t = th_id (db_threads db ! i) \<and> th_created_at t < cutoff)"
proof -
  from sweep_threads [OF assms [unfolded archive_tenant_window_def]] obtain ids where
    i: "ids \<subseteq> th_id ` set (list_threads_archivable db tenant cutoff limit)" "db_messages db1 = db_messages db" "db_parts db1 = db_parts db"
      "db_threads db1 = map (mark_if (\<lambda>t. th_tenant t = tenant \<and> th_id t \<in> ids)) (db_threads db)" by auto
  show "db_messages db1 = db_messages db" "db_parts db1 = db_parts db" by fact+
  show "map th_id (db_threads db1) = map th_id (db_threads db)" unfolding i(4) by (simp add: mark_if_def comp_def if_distrib cong: if_cong)
  assume n: "i < length (db_threads db)" "db_threads db1 ! i \<noteq> db_threads db ! i"
  then have "th_tenant (db_threads db ! i) = tenant" "th_id (db_threads db ! i) \<in> ids" unfolding i(4) by (auto simp: mark_if_def split: if_splits)
  moreover have "set (list_threads_archivable db tenant cutoff limit) \<subseteq> {t \<in> set (db_threads db). th_created_at t < cutoff}"
    by (auto simp: list_threads_archivable_def dest!: in_set_takeD)
  ultimately show "th_tenant (db_threads db ! i) = tenant \<and> (\<exists>t \<in> set (db_threads db). th_id t = th_id (db_threads db ! i) \<and> th_created_at t < cutoff)"
    using i(1) by (auto simp: image_iff subset_iff) metis
qed

text \<open>A retention run removes exactly the spend events of its tenants that are older than a year and their evidence older than two; a dry
  run changes nothing.\<close>

lemma sweep_spend:
  "sd_events (rs_spend (fold (sweep_tenant sha ok now tenants False) ts rs))
    = filter (\<lambda>e. \<not> (se_tenant_id e \<in> set ts \<and> se_created_at e < days_before now 365)) (sd_events (rs_spend rs))"
  by (induction ts arbitrary: rs)
    (auto simp: sweep_tenant_def spend_purge_before_def Let_def default_retention_def intro!: filter_cong)

lemma sweep_evidence:
  "rs_evidence (fold (sweep_tenant sha ok now tenants False) ts rs)
    = filter (\<lambda>e. \<not> (gv_tenant_id e \<in> set ts \<and> gv_created_at e < days_before now 730)) (rs_evidence rs)"
  by (induction ts arbitrary: rs)
    (auto simp: sweep_tenant_def evidence_purge_before_def Let_def default_retention_def intro!: filter_cong)

theorem retention_removes_only_expired:
  "sd_events (rs_spend (handle_retention_run sha ok now tenants ts None False rs))
    = filter (\<lambda>e. \<not> (se_tenant_id e \<in> set ts \<and> se_created_at e < days_before now 365)) (sd_events (rs_spend rs))"
  "rs_evidence (handle_retention_run sha ok now tenants ts None False rs)
    = filter (\<lambda>e. \<not> (gv_tenant_id e \<in> set ts \<and> gv_created_at e < days_before now 730)) (rs_evidence rs)"
  "handle_retention_run sha ok now tenants ts None True rs = rs"
proof -
  have "fold (sweep_tenant sha ok now tenants True) ts rs = rs" by (induction ts) (auto simp: sweep_tenant_def)
  then show "handle_retention_run sha ok now tenants ts None True rs = rs" by (simp add: handle_retention_run_def truthy_str_def)
qed (simp_all add: handle_retention_run_def truthy_str_def sweep_spend sweep_evidence)

text \<open>Erasing an end user does not reach the cold tier: the copy of an archived thread still holds the user's messages, and after the
  erasure no row says that it exists.\<close>

theorem erased_user_stays_in_archive:
  assumes "archive_thread sha ok tenant tid region req (sg, db) = (Inr r, sg1, db1)" and "\<not> ax_noop r"
    and "m \<in> set (thread_messages db tenant tid)" and "ms_end_user m = Some u"
    and "erase_end_user_data users tenant u db1 = (Inr n, db2)"
  shows "m \<notin> set (db_messages db2) \<and> (\<exists>key ob. sg_objects sg1 key = Some ob \<and> m \<in> set (dp_messages (so_body ob)))"
proof -
  from archive_thread_Inr [OF assms(1,2)] obtain d key where a: "dump_thread db tenant tid = Some d" "upload_file ok key d (sha d) sg = Some sg1" .
  have "m \<in> set (dp_messages d)" using a(1) assms(3) by (auto simp: dump_thread_def)
  moreover have "\<exists>ob. sg_objects sg1 key = Some ob \<and> so_body ob = d" using a(2) by (auto simp: upload_file_def split: if_splits)
  moreover have "ms_tenant m = tenant" using assms(3) by (simp add: thread_messages_def)
  then have "m \<notin> set (db_messages db2)"
    using assms(4,5) by (auto simp: erase_end_user_data_def delete_by_end_user_def delete_messages_by_end_user_def Let_def split: if_splits)
  ultimately show ?thesis by blast
qed

section \<open>Witnesses\<close>

definition empty_storage :: storage where
  "empty_storage = \<lparr>sg_remote = True, sg_objects = Map.empty\<rparr>"

definition demo_archive :: "(archive_error + archive_result) \<times> archive_state" where
  "demo_archive = archive_thread (\<lambda>_. ''h'') True ''acme'' ''t1'' None None (empty_storage, sample_db1)"

lemma demo_archived: "\<exists>r sg db. demo_archive = (Inr r, sg, db) \<and> \<not> ax_noop r"
proof -
  have "case fst demo_archive of Inr r \<Rightarrow> \<not> ax_noop r | Inl _ \<Rightarrow> False" by code_simp
  then obtain r where "fst demo_archive = Inr r" "\<not> ax_noop r" by (auto split: sum.splits)
  then show ?thesis by (metis prod.collapse)
qed

theorem archive_restore_round_trip_witness:
  "case fst (restore_thread (\<lambda>_. ''h'') ''acme'' ''t1'' None None (snd demo_archive)) of Inr r \<Rightarrow> ax_messages r = length (thread_messages sample_db1 ''acme'' ''t1'')
     | Inl _ \<Rightarrow> False"
proof -
  obtain r sg db where e: "demo_archive = (Inr r, sg, db)" "\<not> ax_noop r" using demo_archived by blast
  from archive_restore_round_trip [OF e(1) [unfolded demo_archive_def] e(2), of None] obtain r2 db2 where
    "restore_thread (\<lambda>_. ''h'') ''acme'' ''t1'' None None (sg, db) = (Inr r2, sg, db2)"
    "ax_messages r2 = length (thread_messages sample_db1 ''acme'' ''t1'')" by blast
  then show ?thesis by (simp add: e(1))
qed

theorem failed_archive_changes_nothing_witness:
  "snd (archive_thread (\<lambda>_. ''h'') False ''acme'' ''t1'' None None (empty_storage, sample_db1)) = (empty_storage, sample_db1)"
  by (rule failed_archive_changes_nothing(3) [of False _ _ _ _ _ _ "fst (archive_thread (\<lambda>_. ''h'') False ''acme'' ''t1'' None None (empty_storage, sample_db1))"])
    simp_all

theorem sweep_marks_only_old_threads_witness:
  "db_messages (snd (snd (archive_tenant_window (\<lambda>_. ''h'') (\<lambda>_. True) ''acme'' 5 10 None None (empty_storage, sample_db1)))) = db_messages sample_db1"
  using sweep_marks_only_old_threads(1) [of "\<lambda>_. ''h''" "\<lambda>_. True" "''acme''" 5 10 None None empty_storage sample_db1] by (metis prod.collapse)

theorem damaged_copy_refused_witness:
  "fst (restore_thread (\<lambda>_. ''other'') ''acme'' ''t1'' None None (snd demo_archive)) = Inl ArchiveChecksumMismatch"
proof -
  obtain r sg db where e: "demo_archive = (Inr r, sg, db)" "\<not> ax_noop r" using demo_archived by blast
  from archive_thread_Inr [OF e(1) [unfolded demo_archive_def] e(2)] obtain t d key where
    a: "get_thread sample_db1 ''acme'' ''t1'' = Some t" "archive_key ''acme'' ''t1'' None = Inr key"
      "upload_file True key d ''h'' empty_storage = Some sg" "db = snd (set_archived ''acme'' ''t1'' True None sample_db1)" .
  have g: "get_thread db ''acme'' ''t1'' = Some (t\<lparr>th_archived := True\<rparr>)" unfolding a(4) by (rule get_thread_set_archived [OF a(1)])
  have "restore_thread (\<lambda>_. ''other'') ''acme'' ''t1'' None None (sg, db) = (Inl ArchiveChecksumMismatch, sg, db)"
    by (rule damaged_copy_refused [OF g _ a(2), where d = d and c = "''h''"])
      (use a(3) in \<open>auto simp: upload_file_def download_file_def empty_storage_def\<close>)
  then show ?thesis by (simp add: e(1))
qed

theorem erased_user_stays_in_archive_witness:
  "\<exists>key ob m. sg_objects (fst (snd demo_archive)) key = Some ob \<and> m \<in> set (dp_messages (so_body ob)) \<and> ms_end_user m = Some ''u1''"
proof -
  obtain r sg db where e: "demo_archive = (Inr r, sg, db)" "\<not> ax_noop r" using demo_archived by blast
  have "\<exists>m \<in> set (thread_messages sample_db1 ''acme'' ''t1''). ms_end_user m = Some ''u1''" by code_simp
  then obtain m where m: "m \<in> set (thread_messages sample_db1 ''acme'' ''t1'')" "ms_end_user m = Some ''u1''" by blast
  obtain n db2 where "erase_end_user_data [''u1''] ''acme'' ''u1'' db = (Inr n, db2)"
    by (cases "delete_by_end_user ''acme'' ''u1'' db"; cases "delete_messages_by_end_user ''acme'' ''u1'' (snd (delete_by_end_user ''acme'' ''u1'' db))")
      (simp add: erase_end_user_data_def)
  from erased_user_stays_in_archive [OF e(1) [unfolded demo_archive_def] e(2) m this] m(2) show ?thesis unfolding e(1) by auto
qed

end
