(* ===== verification/Tenant_Lifecycle.thy ===== *)
theory Tenant_Lifecycle
  imports Turn_Route Archive Memory_Facts Session_Tokens Audit_Trail
begin

text \<open>
  Export, erasure and offboarding of tenants and end users (\<open>application/tenant_lifecycle/service.py\<close>), with the deletions of the repositories
  they call, the two jobs of the worker, the compliance helpers (\<open>governance/compliance.py\<close>), evidence packets
  (\<open>governance/evidence.py\<close>) and the clearing of tool results (\<open>application/clearing/service.py\<close>). The tables of all of them are one state; the rows of
  the conversation projection and of the thread log lie in the same table of messages.
\<close>

section \<open>Compliance\<close>

definition DEFAULT_DISCLOSURE_TEXT :: string where
  "DEFAULT_DISCLOSURE_TEXT = ''You are chatting with an AI assistant. Responses are generated by artificial intelligence.''"

text \<open>The two optional texts of a surface that override the notice.\<close>

definition bot_disclosure :: "(string option \<times> string option) option \<Rightarrow> string" where
  "bot_disclosure sf = (case sf of None \<Rightarrow> DEFAULT_DISCLOSURE_TEXT | Some (a, b) \<Rightarrow> str_or a (str_or b DEFAULT_DISCLOSURE_TEXT))"

definition disclosure_payload :: "(string option \<times> string option) option \<Rightarrow> string \<Rightarrow> jobj" where
  "disclosure_payload sf surface_type =
     [(''ai_disclosure'', JStr (bot_disclosure sf)), (''interaction_type'', JStr surface_type), (''governance_version'', JStr ''v1''), (''export_marked'', JBool True)]"

definition mark_export :: "jobj \<Rightarrow> jobj" where
  "mark_export e = AList.update ''disclosure'' (JStr DEFAULT_DISCLOSURE_TEXT) (AList.update ''export_marked_ai_generated'' (JBool True) e)"

text \<open>\<open>int\<close> of a float: toward zero.\<close>

definition int_of_float :: "rat \<Rightarrow> int" where
  "int_of_float x = (if 0 \<le> x then \<lfloor>x\<rfloor> else \<lceil>x\<rceil>)"

text \<open>The \<open>expiry_days\<close> of the tenant's memory settings.\<close>

definition retention_days_for :: "rat option \<Rightarrow> int" where
  "retention_days_for expiry = (case expiry of Some n \<Rightarrow> if 0 < n then int_of_float n else 30 | None \<Rightarrow> 30)"

record risk_assessment =
  ra_tenant_id :: string
  ra_artifact_url :: string
  ra_assessed_by :: string
  ra_scope :: string
  ra_assessed_at :: time

record compliance_service =
  cs_verified_on :: int
  cs_risk_assessments :: "(string \<times> risk_assessment list) list"

definition record_risk_assessment :: "risk_assessment \<Rightarrow> compliance_service \<Rightarrow> compliance_service" where
  "record_risk_assessment r s =
     s\<lparr>cs_risk_assessments := AList.update (ra_tenant_id r) (get_or (map_of (cs_risk_assessments s) (ra_tenant_id r)) [] @ [r]) (cs_risk_assessments s)\<rparr>"

record incident =
  ic_tenant_id :: string
  ic_severity :: string
  ic_description :: string
  ic_reported_at :: time

definition report_incident :: "(incident \<Rightarrow> 'w \<Rightarrow> 'w) option \<Rightarrow> incident \<Rightarrow> 'w \<Rightarrow> incident \<times> 'w" where
  "report_incident hook r w = (r, case hook of None \<Rightarrow> w | Some h \<Rightarrow> h r w)"

text \<open>The parts of \<open>checklist\<close> that vary: its day, whether it is current and whether the tenant has a risk assessment; dates are days.\<close>

definition checklist :: "int option \<Rightarrow> string option \<Rightarrow> risk_assessment list \<Rightarrow> compliance_service \<Rightarrow> int \<times> bool \<times> bool" where
  "checklist as_of tenant records s =
     (let day = get_or as_of (cs_verified_on s); known = (if truthy_str tenant then get_or (map_of (cs_risk_assessments s) (the tenant)) [] else [])
      in (day, cs_verified_on s \<le> day, known \<noteq> [] \<or> records \<noteq> []))"

section \<open>Evidence packets\<close>

record violation_entry =
  vl_rule_id :: "string option"
  vl_name :: string
  vl_action :: string
  vl_policy_type :: "string option"
  vl_conditions :: jobj
  vl_priority :: int

text \<open>A violation as a caller gives it: any of its keys may be missing.\<close>

record raw_violation =
  rv_rule_id :: "string option"
  rv_name :: "string option"
  rv_action :: "string option"
  rv_policy_type :: "string option"
  rv_conditions :: "jobj option"
  rv_priority :: "int option"

definition violation_from :: "raw_violation \<Rightarrow> violation_entry" where
  "violation_from v = \<lparr>vl_rule_id = rv_rule_id v, vl_name = str_or (rv_name v) ''policy'', vl_action = str_or (rv_action v) ''block'',
     vl_policy_type = rv_policy_type v, vl_conditions = get_or (rv_conditions v) [], vl_priority = get_or (rv_priority v) 0\<rparr>"

record evidence_packet =
  ep_tenant_id :: string
  ep_conversation_id :: "string option"
  ep_session_id :: string
  ep_direction :: string
  ep_decision :: string
  ep_allowed :: bool
  ep_input_hash :: string
  ep_violations :: "violation_entry list"
  ep_layers_evaluated :: "string list"
  ep_processing_time_ms :: rat
  ep_metadata :: jobj

definition VALID_DECISIONS :: "string list" where
  "VALID_DECISIONS = [''ALLOW'', ''BLOCK'', ''ESCALATE'', ''REDACT'']"

definition action_name :: "policy_action \<Rightarrow> string" where
  "action_name a = (case a of PA_ALLOW \<Rightarrow> ''ALLOW'' | PA_BLOCK \<Rightarrow> ''BLOCK'' | PA_REDACT \<Rightarrow> ''REDACT'' | PA_ESCALATE \<Rightarrow> ''ESCALATE'')"

definition build_packet ::
  "(string \<Rightarrow> string) \<Rightarrow> string \<Rightarrow> string \<Rightarrow> policy_action + string \<Rightarrow> string \<Rightarrow> string option \<Rightarrow> raw_violation list \<Rightarrow> string list \<Rightarrow> rat \<Rightarrow> jobj \<Rightarrow> bool option
     \<Rightarrow> evidence_packet" where
  "build_packet sha tenant session decision input_hash conv vs layers ms metadata allowed =
     (let name = (case decision of Inl a \<Rightarrow> action_name a | Inr s \<Rightarrow> py_upper s);
          normalized = (if name \<in> set VALID_DECISIONS then name else ''ESCALATE'')
      in \<lparr>ep_tenant_id = tenant, ep_conversation_id = conv, ep_session_id = session, ep_direction = ''policy'', ep_decision = normalized,
          ep_allowed = get_or allowed (normalized = ''ALLOW''), ep_input_hash = (if input_hash = [] then sha session else input_hash),
          ep_violations = map violation_from vs, ep_layers_evaluated = layers, ep_processing_time_ms = ms, ep_metadata = metadata\<rparr>)"

definition build_tool_gate_packet :: "(string \<Rightarrow> string) \<Rightarrow> string \<Rightarrow> string \<Rightarrow> string \<Rightarrow> string option \<Rightarrow> string option \<Rightarrow> string option \<Rightarrow> evidence_packet" where
  "build_tool_gate_packet sha tenant session tool reason conv surface =
     build_packet sha tenant session (Inr ''BLOCK'') (sha tool) conv
       [\<lparr>rv_rule_id = None, rv_name = Some ''tool-gate-denied'', rv_action = Some ''block'', rv_policy_type = Some ''tool_authorization'',
         rv_conditions = Some [(''tool'', JStr tool), (''reason'', JStr (str_or reason [])), (''surface_id'', JStr (str_or surface []))], rv_priority = Some 1\<rparr>]
       [''tool_authorization''] 0 [(''decision_class'', JStr ''tool_gate''), (''tool'', JStr tool)] None"

definition build_quota_packet ::
  "(string \<Rightarrow> string) \<Rightarrow> (rat \<Rightarrow> string) \<Rightarrow> string \<Rightarrow> string \<Rightarrow> string option \<Rightarrow> string \<Rightarrow> rat \<Rightarrow> rat \<Rightarrow> evidence_packet" where
  "build_quota_packet sha float_text tenant session conv level limit projected =
     build_packet sha tenant session (Inr ''BLOCK'') (sha (level @ '':'' @ float_text limit @ '':'' @ float_text projected)) conv
       [\<lparr>rv_rule_id = None, rv_name = Some ''quota-exceeded'', rv_action = Some ''block'', rv_policy_type = Some ''budget'',
         rv_conditions = Some [(''level'', JStr level), (''limit_usd'', JNum limit), (''projected_usd'', JNum projected)], rv_priority = Some 1\<rparr>]
       [''budget_hierarchy''] 0 [(''decision_class'', JStr ''quota''), (''level'', JStr level)] None"

section \<open>Clearing of tool results\<close>

record tool_clearing_config =
  tl_enabled :: bool
  tl_keep_recent_turns :: int

definition tool_clearing_config_of :: "tenant_config \<Rightarrow> tool_clearing_config" where
  "tool_clearing_config_of tc = \<lparr>tl_enabled = feature_on tc ''clear_tool_results'',
     tl_keep_recent_turns = int_of_float (get_or (map_of (tn_tool_clearing tc) ''keep_recent_turns'') 2)\<rparr>"

text \<open>\<open>tenant\<close> is the effective configuration, absent when the tenant has no row.\<close>

definition clear_stale_tool_results ::
  "tenant_config option \<Rightarrow> string \<Rightarrow> string \<Rightarrow> string option \<Rightarrow> thread_db \<Rightarrow> (store_error + nat \<times> string) \<times> thread_db" where
  "clear_stale_tool_results config tenant tid req db =
     (case config of
        None \<Rightarrow> (Inr (0, ''tenant_not_found''), db)
      | Some tc \<Rightarrow>
          if \<not> tl_enabled (tool_clearing_config_of tc) then (Inr (0, ''disabled''), db)
          else if get_thread db tenant tid = None then (Inr (0, ''thread_not_found''), db)
          else case clear_tool_results tenant tid (tl_keep_recent_turns (tool_clearing_config_of tc)) tool_result_placeholder req db of
                 (Inl e, db1) \<Rightarrow> (Inl e, db1)
               | (Inr (cleared, _), db1) \<Rightarrow> (Inr (cleared, if 0 < cleared then ''cleared'' else ''nothing_to_clear''), db1))"

section \<open>Tables\<close>

record tenant_entry =
  te_id :: string
  te_region :: "string option"
  te_retention_days :: "int option"
  te_expiry_days :: "rat option"

record lifecycle_db =
  lc_tenants :: "tenant_entry list"
  lc_convs :: "conversation_row list"
  lc_projection :: "conv_message list"
  lc_threads :: thread_db
  lc_evidence :: "evidence_row list"
  lc_escalations :: "escalation_row list"
  lc_webhooks :: webhook_db
  lc_tokens :: token_db
  lc_memories :: memory_db
  lc_auth :: auth_db
  lc_audit :: "audit_event list"
  lc_exports :: "(string \<times> jobj) list"

record lifecycle_env =
  le_codec :: audit_codec
  le_event_id :: string
  le_now :: time
  le_thread_json :: "thread_row \<Rightarrow> json"
  le_message_json :: "message_row \<Rightarrow> json"
  le_memory_json :: "memory_row \<Rightarrow> json"

datatype lifecycle_error = TenantNotFound string | EndUserNotFound string | BadRegion region_error | MissingIds | ExportUploadFailed

definition get_tenant :: "string \<Rightarrow> lifecycle_db \<Rightarrow> tenant_entry option" where
  "get_tenant tenant db = find (\<lambda>t. te_id t = tenant) (lc_tenants db)"

definition retention_policy_days :: "tenant_entry option \<Rightarrow> int" where
  "retention_policy_days t = (case t of None \<Rightarrow> 30 | Some r \<Rightarrow> num_or (te_retention_days r) (retention_days_for (te_expiry_days r)))"

definition system_audit :: "lifecycle_env \<Rightarrow> string \<Rightarrow> string \<Rightarrow> string \<Rightarrow> string \<Rightarrow> jobj \<Rightarrow> lifecycle_db \<Rightarrow> lifecycle_db" where
  "system_audit E action rtype rid tenant details db =
     db\<lparr>lc_audit := audit_add (le_codec E) (le_event_id E) (le_now E)
          \<lparr>ar_action = action, ar_resource_type = rtype, ar_resource_id = Some rid, ar_tenant_id = Some tenant, ar_actor_type = ''system'',
           ar_actor_id = None, ar_details = Some (JObj details)\<rparr> (lc_audit db)\<rparr>"

text \<open>\<open>ConversationRepository.delete_by_tenant\<close>; the parts of a message go with it, threads are not referenced.\<close>

definition conv_delete_by_tenant :: "string \<Rightarrow> lifecycle_db \<Rightarrow> nat \<times> lifecycle_db" where
  "conv_delete_by_tenant tenant db =
     (let ids = map conversation_row.cv_id (filter (\<lambda>c. cv_tenant c = tenant) (lc_convs db)); th = lc_threads db;
          gone = filter (\<lambda>m. ms_conversation m \<in> set ids) (db_messages th)
      in (length gone + length (filter (\<lambda>v. vm_conversation v \<in> set ids) (lc_projection db)) + length ids,
          db\<lparr>lc_convs := filter (\<lambda>c. cv_tenant c \<noteq> tenant) (lc_convs db),
             lc_projection := filter (\<lambda>v. vm_conversation v \<notin> set ids) (lc_projection db),
             lc_threads := th\<lparr>db_conversations := filter (\<lambda>c. c \<notin> set ids) (db_conversations th),
                              db_messages := filter (\<lambda>m. ms_conversation m \<notin> set ids) (db_messages th),
                              db_parts := filter (\<lambda>p. pt_message p \<notin> set (map ms_id gone)) (db_parts th)\<rparr>\<rparr>))"

definition webhook_delete_by_tenant :: "string \<Rightarrow> webhook_db \<Rightarrow> nat \<times> webhook_db" where
  "webhook_delete_by_tenant tenant db =
     (let subs = filter (\<lambda>s. ws_tenant_id s = tenant) (wb_subscriptions db); ids = map we_id (filter (\<lambda>e. we_tenant_id e = tenant) (wb_events db));
          deliveries = filter (\<lambda>d. wd_event_id d \<in> set ids) (wb_deliveries db)
      in (length subs + length ids + length deliveries,
          db\<lparr>wb_subscriptions := filter (\<lambda>s. ws_tenant_id s \<noteq> tenant) (wb_subscriptions db),
             wb_events := filter (\<lambda>e. we_tenant_id e \<noteq> tenant) (wb_events db),
             wb_deliveries := filter (\<lambda>d. wd_event_id d \<notin> set ids) (wb_deliveries db)\<rparr>))"

definition list_messages_by_end_user :: "string \<Rightarrow> string \<Rightarrow> nat \<Rightarrow> thread_db \<Rightarrow> message_row list" where
  "list_messages_by_end_user tenant user limit db =
     take limit (py_sorted ms_created_at (filter (\<lambda>m. ms_tenant m = tenant \<and> ms_end_user m = Some user) (db_messages db)))"

section \<open>The service\<close>

definition erase_tenant_data :: "lifecycle_env \<Rightarrow> string \<Rightarrow> lifecycle_db \<Rightarrow> (nat \<times> nat \<times> nat \<times> nat) \<times> lifecycle_db" where
  "erase_tenant_data E tenant db =
     (let row = get_tenant tenant db;
          (n1, db1) = conv_delete_by_tenant tenant db;
          (n2, ev) = evidence_delete_by_tenant tenant (lc_evidence db1);
          (n3, es) = esc_delete_by_tenant tenant (lc_escalations db1);
          (n4, wb) = webhook_delete_by_tenant tenant (lc_webhooks db1)
      in ((n1, n2, n3, n4),
          system_audit E ''tenant.data_erased'' ''tenant'' tenant tenant
            [(''deleted'', JObj [(''conversations_and_messages'', JInt (int n1)), (''guardrail_evidence'', JInt (int n2)), (''escalations'', JInt (int n3)),
                (''webhooks'', JInt (int n4))]),
             (''retained'', JList [JStr ''audit_events'', JStr ''tenant'']), (''retention_days'', JInt (retention_policy_days row)),
             (''reason'', JStr ''GDPR erasure request''), (''at'', JStr (ac_utc_iso (le_codec E) (le_now E)))]
            (db1\<lparr>lc_evidence := ev, lc_escalations := es, lc_webhooks := wb\<rparr>)))"

definition offboard_tenant :: "lifecycle_env \<Rightarrow> string \<Rightarrow> lifecycle_db \<Rightarrow> (lifecycle_error + bool) \<times> lifecycle_db" where
  "offboard_tenant E tenant db =
     (case get_tenant tenant db of
        None \<Rightarrow> (Inr False, db)
      | Some row \<Rightarrow>
          (case archive_prefix tenant (te_region row) of
             Inl e \<Rightarrow> (Inl (BadRegion e), db)
           | Inr archive \<Rightarrow>
               (let cx = resolve_tenant_context tenant None None;
                    (n1, db1) = conv_delete_by_tenant tenant db;
                    (n2, es) = esc_delete_by_tenant tenant (lc_escalations db1);
                    (n3, wb) = webhook_delete_by_tenant tenant (lc_webhooks db1);
                    db2 = db1\<lparr>lc_escalations := es, lc_webhooks := wb, lc_auth := snd (revoke_all_for_tenant tenant (lc_auth db1)),
                              lc_tenants := filter (\<lambda>t. te_id t \<noteq> tenant) (lc_tenants db1)\<rparr>
                in (Inr (list_ex (\<lambda>t. te_id t = tenant) (lc_tenants db1)),
                    system_audit E ''tenant.offboarded'' ''tenant'' tenant tenant
                      [(''deleted'', JObj [(''conversations_and_messages'', JInt (int n1)), (''escalations'', JInt (int n2)), (''webhooks'', JInt (int n3))]),
                       (''retained'', JList [JStr ''audit_events'', JStr ''guardrail_evidence'']), (''retention_days'', JInt (retention_policy_days (Some row))), (''dropped_namespaces'', JList [JStr (vector_namespace cx None)]),
                       (''dropped_prefixes'', JList [JStr (storage_prefix cx), JStr archive])] db2))))"

definition or_null :: "string option \<Rightarrow> json" where
  "or_null x = (case x of None \<Rightarrow> JNull | Some t \<Rightarrow> JStr t)"

definition export_end_user_data :: "lifecycle_env \<Rightarrow> string \<Rightarrow> string \<Rightarrow> lifecycle_db \<Rightarrow> (lifecycle_error + jobj) \<times> lifecycle_db" where
  "export_end_user_data E tenant user db =
     (case eu_get_by_id (lc_tokens db) tenant user of
        None \<Rightarrow> (Inl (EndUserNotFound user), db)
      | Some u \<Rightarrow>
          (Inr (mark_export [(''schema_version'', JStr ''1.0''), (''exported_at'', JStr (ac_utc_iso (le_codec E) (le_now E))),
              (''end_user'', JObj [(''id'', JStr (eu_id u)), (''display_name'', or_null (eu_display_name u)), (''external_id'', or_null (eu_external_id u)),
                 (''status'', JStr (eu_status u))]),
              (''threads'', JList (map (le_thread_json E) (list_threads (lc_threads db) tenant (Some user) 10000 None))),
              (''messages'', JList (map (le_message_json E) (list_messages_by_end_user tenant user 10000 (lc_threads db)))),
              (''memories'', JList (map (le_memory_json E) (memory_retrieve (lc_memories db) (le_now E) tenant (Some user) 10000)))]),
           system_audit E ''end_user.data_exported'' ''end_user'' user tenant [(''reason'', JStr ''DSR export request'')] db))"

definition erase_user :: "lifecycle_env \<Rightarrow> string \<Rightarrow> string \<Rightarrow> lifecycle_db \<Rightarrow> (lifecycle_error + nat \<times> nat \<times> nat \<times> nat) \<times> lifecycle_db" where
  "erase_user E tenant user db =
     (if eu_get_by_id (lc_tokens db) tenant user = None then (Inl (EndUserNotFound user), db)
      else let (n1, th1) = delete_by_end_user tenant user (lc_threads db);
               (n2, th2) = delete_messages_by_end_user tenant user th1;
               (n3, ms) = erase_by_user tenant user (lc_memories db);
               (n4, tk) = revoke_all_for_end_user tenant user (le_now E) (lc_tokens db)
           in (Inr (n1, n2, n3, n4),
               system_audit E ''end_user.data_erased'' ''end_user'' user tenant
                 [(''deleted'', JObj [(''threads'', JInt (int n1)), (''messages'', JInt (int n2)), (''memories'', JInt (int n3)), (''session_tokens'', JInt (int n4))]),
                  (''retained'', JList [JStr ''audit_events'', JStr ''end_user_identity'']), (''reason'', JStr ''DSR erasure request''),
                  (''at'', JStr (ac_utc_iso (le_codec E) (le_now E)))]
                 (db\<lparr>lc_threads := th2, lc_memories := ms, lc_tokens := snd (eu_set_status tenant user ''erased'' tk)\<rparr>)))"

text \<open>The jobs of the worker; \<open>ok\<close>: the upload succeeds.\<close>

definition handle_gdpr_erase :: "lifecycle_env \<Rightarrow> string option \<Rightarrow> string option \<Rightarrow> lifecycle_db \<Rightarrow> (lifecycle_error + nat \<times> nat \<times> nat \<times> nat) \<times> lifecycle_db" where
  "handle_gdpr_erase E tenant user db =
     (if \<not> truthy_str tenant \<or> \<not> truthy_str user then (Inl MissingIds, db) else erase_user E (the tenant) (the user) db)"

definition handle_gdpr_export ::
  "lifecycle_env \<Rightarrow> bool \<Rightarrow> string option \<Rightarrow> string option \<Rightarrow> string \<Rightarrow> lifecycle_db \<Rightarrow> (lifecycle_error + unit) \<times> lifecycle_db" where
  "handle_gdpr_export E ok tenant user request_id db =
     (if \<not> truthy_str tenant \<or> \<not> truthy_str user then (Inl MissingIds, db)
      else case export_end_user_data E (the tenant) (the user) db of
             (Inl e, db1) \<Rightarrow> (Inl e, db1)
           | (Inr bundle, db1) \<Rightarrow>
               if \<not> ok then (Inl ExportUploadFailed, db1)
               else (Inr (), db1\<lparr>lc_exports := AList.update (''tenant:'' @ the tenant @ ''/exports/'' @ request_id @ ''.json'') bundle (lc_exports db1)\<rparr>))"

section \<open>Lemmas\<close>

lemma system_audit_rows:
  "lc_audit (system_audit E action rtype rid tenant details db)
     = audit_add (le_codec E) (le_event_id E) (le_now E)
         \<lparr>ar_action = action, ar_resource_type = rtype, ar_resource_id = Some rid, ar_tenant_id = Some tenant, ar_actor_type = ''system'', ar_actor_id = None,
          ar_details = Some (JObj details)\<rparr> (lc_audit db)"
  by (simp add: system_audit_def)

lemma system_audit_keeps [simp]:
  "lc_tenants (system_audit E a rt ri t d db) = lc_tenants db" "lc_convs (system_audit E a rt ri t d db) = lc_convs db"
  "lc_projection (system_audit E a rt ri t d db) = lc_projection db" "lc_threads (system_audit E a rt ri t d db) = lc_threads db"
  "lc_evidence (system_audit E a rt ri t d db) = lc_evidence db" "lc_escalations (system_audit E a rt ri t d db) = lc_escalations db"
  "lc_webhooks (system_audit E a rt ri t d db) = lc_webhooks db" "lc_tokens (system_audit E a rt ri t d db) = lc_tokens db"
  "lc_memories (system_audit E a rt ri t d db) = lc_memories db" "lc_auth (system_audit E a rt ri t d db) = lc_auth db"
  "lc_exports (system_audit E a rt ri t d db) = lc_exports db"
  by (simp_all add: system_audit_def)

lemma conv_delete_audit [simp]: "lc_audit (snd (conv_delete_by_tenant t db)) = lc_audit db"
  by (simp add: conv_delete_by_tenant_def Let_def)

text \<open>The conversations of a tenant, by id.\<close>

definition tenant_conversations :: "string \<Rightarrow> lifecycle_db \<Rightarrow> string set" where
  "tenant_conversations tenant db = conversation_row.cv_id ` {c \<in> set (lc_convs db). cv_tenant c = tenant}"

lemma tenant_conversation_ids:
  "set (map conversation_row.cv_id (filter (\<lambda>c. cv_tenant c = tenant) (lc_convs db))) = tenant_conversations tenant db"
  by (auto simp: tenant_conversations_def)

lemma conv_delete_rows:
  "lc_convs (snd (conv_delete_by_tenant t db)) = filter (\<lambda>c. cv_tenant c \<noteq> t) (lc_convs db)"
  "lc_projection (snd (conv_delete_by_tenant t db)) = filter (\<lambda>v. vm_conversation v \<notin> tenant_conversations t db) (lc_projection db)"
  "db_messages (lc_threads (snd (conv_delete_by_tenant t db))) = filter (\<lambda>m. ms_conversation m \<notin> tenant_conversations t db) (db_messages (lc_threads db))"
  "db_threads (lc_threads (snd (conv_delete_by_tenant t db))) = db_threads (lc_threads db)"
  "db_events (lc_threads (snd (conv_delete_by_tenant t db))) = db_events (lc_threads db)"
  unfolding tenant_conversation_ids [symmetric] by (simp_all add: conv_delete_by_tenant_def Let_def)

lemma conv_delete_keeps [simp]:
  "lc_tenants (snd (conv_delete_by_tenant t db)) = lc_tenants db" "lc_evidence (snd (conv_delete_by_tenant t db)) = lc_evidence db"
  "lc_escalations (snd (conv_delete_by_tenant t db)) = lc_escalations db" "lc_webhooks (snd (conv_delete_by_tenant t db)) = lc_webhooks db"
  "lc_tokens (snd (conv_delete_by_tenant t db)) = lc_tokens db" "lc_memories (snd (conv_delete_by_tenant t db)) = lc_memories db"
  "lc_auth (snd (conv_delete_by_tenant t db)) = lc_auth db"
  by (simp_all add: conv_delete_by_tenant_def Let_def)

lemma webhook_delete_rows:
  "wb_subscriptions (snd (webhook_delete_by_tenant t db)) = filter (\<lambda>s. ws_tenant_id s \<noteq> t) (wb_subscriptions db)"
  "wb_events (snd (webhook_delete_by_tenant t db)) = filter (\<lambda>e. we_tenant_id e \<noteq> t) (wb_events db)"
  "wb_deliveries (snd (webhook_delete_by_tenant t db)) = filter (\<lambda>d. \<forall>e\<in>set (wb_events db). we_tenant_id e = t \<longrightarrow> wd_event_id d \<noteq> we_id e) (wb_deliveries db)"
  "wb_outbox (snd (webhook_delete_by_tenant t db)) = wb_outbox db"
  by (auto simp: webhook_delete_by_tenant_def Let_def intro!: filter_cong)

text \<open>The state an erasure leaves, up to the audit event.\<close>

lemma erase_tenant_data_state:
  "\<exists>d. snd (erase_tenant_data E t db) = system_audit E ''tenant.data_erased'' ''tenant'' t t d
         ((snd (conv_delete_by_tenant t db))\<lparr>lc_evidence := filter (\<lambda>r. gv_tenant_id r \<noteq> t) (lc_evidence db),
            lc_escalations := filter (\<lambda>r. er_tenant_id r \<noteq> t) (lc_escalations db), lc_webhooks := snd (webhook_delete_by_tenant t (lc_webhooks db))\<rparr>)"
  unfolding erase_tenant_data_def Let_def case_prod_beta evidence_delete_by_tenant_def esc_delete_by_tenant_def by auto

lemma erase_user_state:
  assumes "eu_get_by_id (lc_tokens db) t u \<noteq> None"
  shows "\<exists>d. snd (erase_user E t u db) = system_audit E ''end_user.data_erased'' ''end_user'' u t d
           (db\<lparr>lc_threads := snd (delete_messages_by_end_user t u (snd (delete_by_end_user t u (lc_threads db)))),
               lc_memories := snd (erase_by_user t u (lc_memories db)),
               lc_tokens := snd (eu_set_status t u ''erased'' (snd (revoke_all_for_end_user t u (le_now E) (lc_tokens db))))\<rparr>)"
  by (simp only: erase_user_def Let_def case_prod_beta assms if_False snd_conv, rule exI, rule refl)

lemma erase_user_missing: "eu_get_by_id (lc_tokens db) t u = None \<Longrightarrow> erase_user E t u db = (Inl (EndUserNotFound u), db)"
  by (simp add: erase_user_def)

lemma delete_by_end_user_rows:
  "db_threads (snd (delete_by_end_user t u th)) = filter (\<lambda>x. \<not> (th_tenant x = t \<and> th_end_user x = Some u)) (db_threads th)"
  "db_messages (snd (delete_by_end_user t u th)) = db_messages th"
  by (auto simp: delete_by_end_user_def Let_def intro!: filter_cong)

lemma delete_messages_rows:
  "db_messages (snd (delete_messages_by_end_user t u th)) = filter (\<lambda>m. \<not> (ms_tenant m = t \<and> ms_end_user m = Some u)) (db_messages th)"
  "db_threads (snd (delete_messages_by_end_user t u th)) = db_threads th"
  by (simp_all add: delete_messages_by_end_user_def Let_def)

text \<open>After an update of the rows that satisfy a condition, a row has what the update gives or did not satisfy it.\<close>

lemma updated_rows:
  assumes "r \<in> set (map (\<lambda>x. if P x then f x else x) xs)" "\<And>x. Q (f x)"
  shows "Q r \<or> \<not> P r"
  using assms by auto

lemma revoked_tokens:
  assumes "r \<in> set (td_tokens (snd (revoke_all_for_end_user t u now db)))"
  shows "st_revoked_at r \<noteq> None \<or> \<not> (st_tenant_id r = t \<and> st_end_user_id r = u)"
  using updated_rows [where P = "\<lambda>r. (st_tenant_id r = t \<and> st_end_user_id r = u) \<and> st_revoked_at r = None" and f = "\<lambda>r. r\<lparr>st_revoked_at := Some now\<rparr>"
      and Q = "\<lambda>r. st_revoked_at r \<noteq> None" and r = r and xs = "td_tokens db"] assms
  unfolding revoke_all_for_end_user_def st_mark_def Let_def by simp blast

lemma erased_memories:
  assumes "r \<in> set (snd (erase_by_user t u db))"
  shows "mr_erased r \<or> \<not> (mr_tenant r = t \<and> mr_end_user r = Some u)"
  using updated_rows [where P = "\<lambda>r. (mr_tenant r = t \<and> mr_end_user r = Some u) \<and> \<not> mr_erased r" and f = "\<lambda>r. r\<lparr>mr_erased := True\<rparr>"
      and Q = mr_erased and r = r and xs = db] assms
  unfolding erase_by_user_def erase_where_def by simp blast

lemma offboard_state:
  assumes "offboard_tenant E t db = (Inr b, db')" "get_tenant t db \<noteq> None"
  shows "\<exists>d. db' = system_audit E ''tenant.offboarded'' ''tenant'' t t d
     ((snd (conv_delete_by_tenant t db))\<lparr>lc_escalations := filter (\<lambda>r. er_tenant_id r \<noteq> t) (lc_escalations db),
        lc_webhooks := snd (webhook_delete_by_tenant t (lc_webhooks db)), lc_auth := snd (revoke_all_for_tenant t (lc_auth db)),
        lc_tenants := filter (\<lambda>x. te_id x \<noteq> t) (lc_tenants db)\<rparr>)"
  using assms unfolding offboard_tenant_def Let_def case_prod_beta esc_delete_by_tenant_def by (auto split: option.splits sum.splits)

lemma revoked_keys: "k \<in> set (ad_keys (snd (revoke_all_for_tenant t db))) \<Longrightarrow> ak_tenant_id k = Some t \<Longrightarrow> ak_revoked k"
  by (auto simp: revoke_all_for_tenant_def ak_update_def split: if_splits)

text \<open>An operation's trail is the old one, or the old one and one event of the system.\<close>

definition trail_grows :: "lifecycle_env \<Rightarrow> lifecycle_db \<Rightarrow> lifecycle_db \<Rightarrow> bool" where
  "trail_grows E db db' \<longleftrightarrow> lc_audit db' = lc_audit db \<or> (\<exists>q. lc_audit db' = audit_add (le_codec E) (le_event_id E) (le_now E) q (lc_audit db))"

lemma trail_grows_audit [simp]: "lc_audit db1 = lc_audit db \<Longrightarrow> trail_grows E db (system_audit E a rt ri t d db1)"
  by (auto simp: trail_grows_def system_audit_rows)

lemma trail_grows_ops:
  "trail_grows E db (snd (erase_tenant_data E t db))" "trail_grows E db (snd (offboard_tenant E t db))"
  "trail_grows E db (snd (export_end_user_data E t u db))" "trail_grows E db (snd (erase_user E t u db))"
  "trail_grows E db (snd (handle_gdpr_erase E ot ou db))" "trail_grows E db (snd (handle_gdpr_export E ok ot ou rid db))"
proof -
  show "trail_grows E db (snd (erase_tenant_data E t db))"
    using erase_tenant_data_state [of E t db] by auto
  have refl: "trail_grows E db db" by (simp add: trail_grows_def)
  show "trail_grows E db (snd (offboard_tenant E t db))"
    by (auto simp: offboard_tenant_def Let_def case_prod_beta refl split: option.split sum.split)
  have x: "trail_grows E db (snd (export_end_user_data E t u db))" for t u
    by (auto simp: export_end_user_data_def refl split: option.split)
  have e: "trail_grows E db (snd (erase_user E t u db))" for t u
    using erase_user_state [of db t u E] erase_user_missing [of db t u E] refl by (cases "eu_get_by_id (lc_tokens db) t u") auto
  show "trail_grows E db (snd (export_end_user_data E t u db))" "trail_grows E db (snd (erase_user E t u db))" by (rule x, rule e)
  show "trail_grows E db (snd (handle_gdpr_erase E ot ou db))" using e refl by (simp add: handle_gdpr_erase_def)
  show "trail_grows E db (snd (handle_gdpr_export E ok ot ou rid db))"
    using x [of "the ot" "the ou"] refl by (auto simp: handle_gdpr_export_def trail_grows_def split: prod.split sum.split)
qed

section \<open>Properties\<close>

text \<open>Erasing a tenant removes exactly its conversations with the messages in them, its evidence, its escalations and its webhook rows with the
  deliveries of its events; every row of another tenant stays.\<close>

theorem tenant_erasure_is_exact:
  "let db' = snd (erase_tenant_data E t db) in
     lc_convs db' = filter (\<lambda>c. cv_tenant c \<noteq> t) (lc_convs db)
   \<and> lc_projection db' = filter (\<lambda>v. vm_conversation v \<notin> tenant_conversations t db) (lc_projection db)
   \<and> db_messages (lc_threads db') = filter (\<lambda>m. ms_conversation m \<notin> tenant_conversations t db) (db_messages (lc_threads db))
   \<and> lc_evidence db' = filter (\<lambda>r. gv_tenant_id r \<noteq> t) (lc_evidence db)
   \<and> lc_escalations db' = filter (\<lambda>r. er_tenant_id r \<noteq> t) (lc_escalations db)
   \<and> wb_subscriptions (lc_webhooks db') = filter (\<lambda>s. ws_tenant_id s \<noteq> t) (wb_subscriptions (lc_webhooks db))
   \<and> wb_events (lc_webhooks db') = filter (\<lambda>e. we_tenant_id e \<noteq> t) (wb_events (lc_webhooks db))"
proof -
  obtain d where "snd (erase_tenant_data E t db) = system_audit E ''tenant.data_erased'' ''tenant'' t t d
         ((snd (conv_delete_by_tenant t db))\<lparr>lc_evidence := filter (\<lambda>r. gv_tenant_id r \<noteq> t) (lc_evidence db),
            lc_escalations := filter (\<lambda>r. er_tenant_id r \<noteq> t) (lc_escalations db), lc_webhooks := snd (webhook_delete_by_tenant t (lc_webhooks db))\<rparr>)"
    using erase_tenant_data_state by blast
  then show ?thesis by (simp add: Let_def conv_delete_rows webhook_delete_rows)
qed

text \<open>It removes nothing else of the tenant: its threads with their summaries, its events, its end users and their tokens, its extracted memories,
  its keys and the webhook messages still to be sent all stay.\<close>

theorem tenant_erasure_leaves_threads_and_memories:
  "let db' = snd (erase_tenant_data E t db) in
     db_threads (lc_threads db') = db_threads (lc_threads db) \<and> db_events (lc_threads db') = db_events (lc_threads db)
   \<and> lc_tokens db' = lc_tokens db \<and> lc_memories db' = lc_memories db \<and> lc_auth db' = lc_auth db
   \<and> wb_outbox (lc_webhooks db') = wb_outbox (lc_webhooks db)"
proof -
  obtain d where "snd (erase_tenant_data E t db) = system_audit E ''tenant.data_erased'' ''tenant'' t t d
         ((snd (conv_delete_by_tenant t db))\<lparr>lc_evidence := filter (\<lambda>r. gv_tenant_id r \<noteq> t) (lc_evidence db),
            lc_escalations := filter (\<lambda>r. er_tenant_id r \<noteq> t) (lc_escalations db), lc_webhooks := snd (webhook_delete_by_tenant t (lc_webhooks db))\<rparr>)"
    using erase_tenant_data_state by blast
  then show ?thesis by (simp add: Let_def conv_delete_rows webhook_delete_rows)
qed

text \<open>After the erasure of an end user no thread and no message bears their id, every memory of theirs is marked erased and every session token of
  theirs is revoked.\<close>

theorem erased_user_is_gone:
  assumes "erase_user E t u db = (Inr n, db')"
  shows "(\<forall>x\<in>set (db_threads (lc_threads db')). \<not> (th_tenant x = t \<and> th_end_user x = Some u))
       \<and> (\<forall>m\<in>set (db_messages (lc_threads db')). \<not> (ms_tenant m = t \<and> ms_end_user m = Some u))
       \<and> (\<forall>r\<in>set (lc_memories db'). mr_tenant r = t \<and> mr_end_user r = Some u \<longrightarrow> mr_erased r)
       \<and> (\<forall>r\<in>set (td_tokens (lc_tokens db')). st_tenant_id r = t \<and> st_end_user_id r = u \<longrightarrow> st_revoked_at r \<noteq> None)"
proof -
  have "eu_get_by_id (lc_tokens db) t u \<noteq> None" using assms erase_user_missing [of db t u E] by auto
  from erase_user_state [OF this, of E] assms obtain d where s: "db' = system_audit E ''end_user.data_erased'' ''end_user'' u t d
           (db\<lparr>lc_threads := snd (delete_messages_by_end_user t u (snd (delete_by_end_user t u (lc_threads db)))),
               lc_memories := snd (erase_by_user t u (lc_memories db)),
               lc_tokens := snd (eu_set_status t u ''erased'' (snd (revoke_all_for_end_user t u (le_now E) (lc_tokens db))))\<rparr>)"
    by auto
  have tk: "td_tokens (snd (eu_set_status t u x k)) = td_tokens k" for x k by (simp add: eu_set_status_def Let_def)
  show ?thesis
    by (simp add: s delete_messages_rows delete_by_end_user_rows tk) (use revoked_tokens erased_memories in blast)
qed

text \<open>The rows of the conversation projection and the messages without the user's id, the assistant's answers among them, are untouched by it.\<close>

theorem erasure_leaves_projection_and_answers:
  "let db' = snd (erase_user E t u db) in
     lc_projection db' = lc_projection db \<and> lc_convs db' = lc_convs db
   \<and> filter (\<lambda>m. ms_end_user m \<noteq> Some u) (db_messages (lc_threads db')) = filter (\<lambda>m. ms_end_user m \<noteq> Some u) (db_messages (lc_threads db))"
proof (cases "eu_get_by_id (lc_tokens db) t u = None")
  case False
  have f: "filter (\<lambda>m. (ms_tenant m = t \<longrightarrow> ms_end_user m \<noteq> Some u) \<and> ms_end_user m \<noteq> Some u) ms = filter (\<lambda>m. ms_end_user m \<noteq> Some u) ms" for ms
    by (rule filter_cong) auto
  from erase_user_state [OF False, of E] show ?thesis by (auto simp: Let_def delete_messages_rows delete_by_end_user_rows f)
qed (simp add: erase_user_missing)

text \<open>Offboarding a known tenant drops its row and revokes every API key of it, while its evidence, threads, memories and session tokens stay.\<close>

theorem offboarding_revokes_keys:
  assumes "offboard_tenant E t db = (Inr b, db')" "get_tenant t db \<noteq> None"
  shows "get_tenant t db' = None \<and> (\<forall>k\<in>set (ad_keys (lc_auth db')). ak_tenant_id k = Some t \<longrightarrow> ak_revoked k)
       \<and> lc_evidence db' = lc_evidence db \<and> db_threads (lc_threads db') = db_threads (lc_threads db)
       \<and> lc_memories db' = lc_memories db \<and> lc_tokens db' = lc_tokens db"
proof -
  obtain d where s: "db' = system_audit E ''tenant.offboarded'' ''tenant'' t t d
     ((snd (conv_delete_by_tenant t db))\<lparr>lc_escalations := filter (\<lambda>r. er_tenant_id r \<noteq> t) (lc_escalations db),
        lc_webhooks := snd (webhook_delete_by_tenant t (lc_webhooks db)), lc_auth := snd (revoke_all_for_tenant t (lc_auth db)),
        lc_tenants := filter (\<lambda>x. te_id x \<noteq> t) (lc_tenants db)\<rparr>)"
    using offboard_state [OF assms] by blast
  show ?thesis by (auto simp: s get_tenant_def find_None_iff conv_delete_rows intro: revoked_keys)
qed

text \<open>Every lifecycle operation keeps the audit trail verifiable and appends to it only, provided its event comes after the ones there.\<close>

theorem lifecycle_keeps_trail_verifiable:
  assumes "fst (verify_chain (le_codec E) (lc_audit db) None)" "\<And>r. r \<in> set (lc_audit db) \<Longrightarrow> audit_order r < (le_now E, le_event_id E)"
    and "db' \<in> {snd (erase_tenant_data E t db), snd (offboard_tenant E t db), snd (handle_gdpr_erase E ot ou db), snd (handle_gdpr_export E ok ot ou rid db)}"
  shows "fst (verify_chain (le_codec E) (lc_audit db') None) \<and> (\<exists>new. lc_audit db' = lc_audit db @ new)"
proof -
  have "trail_grows E db db'" using assms(3) trail_grows_ops by auto
  then show ?thesis using assms(1) add_verifies [OF assms(1,2)] by (auto simp: trail_grows_def audit_add_def)
qed

text \<open>The decision of a packet is one of the four of the schema whatever the caller passes, an unknown word counts as an escalation, and unless the
  caller says otherwise it allows exactly when the decision is ALLOW.\<close>

theorem packet_decision_is_valid:
  "ep_decision (build_packet sha t s d h c vs ls ms md al) \<in> {''ALLOW'', ''BLOCK'', ''ESCALATE'', ''REDACT''}
   \<and> ep_allowed (build_packet sha t s d h c vs ls ms md None) = (ep_decision (build_packet sha t s d h c vs ls ms md al) = ''ALLOW'')"
  by (auto simp: build_packet_def Let_def VALID_DECISIONS_def get_or_def)

subsection \<open>Witnesses\<close>

definition demo_env :: lifecycle_env where
  "demo_env = \<lparr>le_codec = demo_codec, le_event_id = ''e1'', le_now = 5, le_thread_json = (\<lambda>_. JNull), le_message_json = (\<lambda>_. JNull), le_memory_json = (\<lambda>_. JNull)\<rparr>"

definition demo_lifecycle :: lifecycle_db where
  "demo_lifecycle = \<lparr>lc_tenants = [\<lparr>te_id = ''acme'', te_region = None, te_retention_days = None, te_expiry_days = None\<rparr>], lc_convs = [], lc_projection = [],
     lc_threads = sample_db1, lc_evidence = [], lc_escalations = [], lc_webhooks = \<lparr>wb_subscriptions = [], wb_events = [], wb_deliveries = [], wb_outbox = []\<rparr>,
     lc_tokens = \<lparr>td_end_users = [\<lparr>eu_id = ''u1'', eu_tenant_id = ''acme'', eu_external_id = None, eu_anonymous_identity = None, eu_display_name = None, eu_status = ''active''\<rparr>], td_tokens = []\<rparr>,
     lc_memories = [], lc_auth = \<lparr>ad_keys = [], ad_sessions = [], ad_audit = []\<rparr>, lc_audit = [], lc_exports = []\<rparr>"

lemma demo_known: "eu_get_by_id (lc_tokens demo_lifecycle) ''acme'' ''u1'' \<noteq> None"
  by (simp add: demo_lifecycle_def eu_get_by_id_def)

theorem erased_user_is_gone_witness:
  "\<exists>n db'. erase_user demo_env ''acme'' ''u1'' demo_lifecycle = (Inr n, db')
     \<and> (\<forall>m\<in>set (db_messages (lc_threads db')). \<not> (ms_tenant m = ''acme'' \<and> ms_end_user m = Some ''u1''))"
proof -
  obtain n db' where e: "erase_user demo_env ''acme'' ''u1'' demo_lifecycle = (Inr n, db')"
    using demo_known by (auto simp: erase_user_def Let_def case_prod_beta)
  show ?thesis using erased_user_is_gone [OF e] e by blast
qed

theorem offboarding_revokes_keys_witness:
  "get_tenant ''acme'' demo_lifecycle \<noteq> None \<and> get_tenant ''acme'' (snd (offboard_tenant demo_env ''acme'' demo_lifecycle)) = None"
proof -
  have k: "get_tenant ''acme'' demo_lifecycle \<noteq> None" by (simp add: get_tenant_def demo_lifecycle_def)
  have r: "\<exists>a. archive_prefix ''acme'' None = Inr a" by (simp add: archive_prefix_def resolve_region_def)
  have "\<exists>b db'. offboard_tenant demo_env ''acme'' demo_lifecycle = (Inr b, db')"
    using r by (auto simp: offboard_tenant_def get_tenant_def demo_lifecycle_def Let_def case_prod_beta)
  then obtain b db' where "offboard_tenant demo_env ''acme'' demo_lifecycle = (Inr b, db')" by blast
  then show ?thesis using offboarding_revokes_keys [OF _ k] k by fastforce
qed

theorem lifecycle_keeps_trail_verifiable_witness:
  "fst (verify_chain demo_codec (lc_audit (snd (erase_tenant_data demo_env ''acme'' demo_lifecycle))) None)"
proof -
  have "fst (verify_chain (le_codec demo_env) (lc_audit demo_lifecycle) None)" by (simp add: demo_lifecycle_def verify_chain_def py_sorted_def)
  from lifecycle_keeps_trail_verifiable [OF this, where db' = "snd (erase_tenant_data demo_env ''acme'' demo_lifecycle)" and t = "''acme''"]
  show ?thesis by (simp add: demo_env_def demo_lifecycle_def)
qed

end
