(* ===== verification/Spec2Isabelle.thy ===== *)
theory Spec2Isabelle
  imports Breakers Rate_Limiter Gateway_Stream Admission Thread_Mutation Session_Context
    Coordinator Session_Tokens Session_Limits Stream_Buffer Moderation Audit_Trail Config_Versions Guardrails Orchestration Webhooks
    Ingestion Retrieval Memory_Facts Handoff Escalation Quality_Monitor Stream_Route Replica_Router Last_Active Tenant_Lifecycle
begin

text \<open>
  \<^bold>\<open>The program.\<close> The repository is a multi-tenant platform for customer-support agents (\<open>src/backend/app\<close>). A
  request for a turn carries a session token, passes the limits of its end user and takes the coordinator's lock on its
  thread. The turn loads the durable thread and its summary, runs the input guardrails and then the agent loop: a
  graph whose nodes generate text, run the tools the tenant's configuration permits, verify the answer against retrieved text, check the
  tenant's policies, and hand over to a person. Text comes from a model provider through a gateway that routes, reserves
  budget, caches, fails over and accounts for spend; a streamed answer passes a moderation window and is kept in a
  replay buffer. What the platform knows comes from ingested documents, retrieved by vectors and words, and from facts extracted
  from earlier threads. A worker takes jobs from a queue: it compacts long threads into summary layers, extracts facts, samples
  quality, writes spend, archives and erases, and delivers events to webhooks. Administrators sign in with keys, single
  sign-on and a second factor, change a tenant's behaviour through versioned configurations and policies, and every change leaves a row
  in a hash-chained trail.

  \<^bold>\<open>The theories\<close>, in the order in which they build on each other. Shared ground:

  \<^item> \<open>Prelude\<close>: JSON values, the string, sorting and truthiness functions of Python that the sources use, and
    their lemmas. \<open>Py_Json\<close>, \<open>Py_Values\<close>, \<open>Py_Text\<close>: reading JSON documents, decoded values as Python objects, splitting and
    reading numbers. \<open>Py_Regex\<close>: the part of Python's \<open>re\<close> that the guardrails use.
  \<^item> \<open>Redis_Iface\<close>: the Redis commands the program calls and their laws (hashes, counters, strings, sorted
    sets) as predicates on a client, shown to hold of a reference implementation in memory.
  \<^item> \<open>Bounded_Runs\<close>: the loop of a graph runner under a step limit, and the locale \<open>bounded_graph\<close> of graphs that end
    before it.

  The gateway:

  \<^item> \<open>Catalog\<close> (\<open>gateway/catalog.py\<close>): model facts, prices and windows; upsert, lookup, listing; the locale \<open>model_facts\<close>.
  \<^item> \<open>Gw_Types\<close> (\<open>gateway/types.py\<close>): requests, results, stream events and errors of the gateway.
  \<^item> \<open>Router\<close> (\<open>gateway/router.py\<close>): candidates, scores, latency tracking, the routing decision.
  \<^item> \<open>Fallback\<close> (\<open>gateway/fallback.py\<close>): failure classification and the targets of a fallback chain.
  \<^item> \<open>Breakers\<close> (\<open>infrastructure/patterns/circuit_breaker.py\<close>, \<open>gateway/cooldown.py\<close>,
    \<open>application/compaction/breaker.py\<close>): three failure gates and, as the locale \<open>failure_gate\<close>, the contract
    they share, interpreted on each.
  \<^item> \<open>Retry\<close> (\<open>infrastructure/patterns/retry.py\<close>): backoff and the retry loop.
  \<^item> \<open>Quota\<close> (\<open>gateway/quota.py\<close>): the two Lua scripts, reserve with rollback over the budget levels, reconcile
    and release; concurrent reservations as a step relation on one level.
  \<^item> \<open>Rate_Limiter\<close> (\<open>infrastructure/patterns/rate_limiter.py\<close>): the in-process and the Redis token bucket, both
    interpretations of the locale \<open>token_bucket\<close>.
  \<^item> \<open>Cooldown\<close> (\<open>gateway/cooldown.py\<close>): failure counting per deployment.
  \<^item> \<open>Cache\<close> (\<open>gateway/cache.py\<close>): exact and semantic response cache, invalidation.
  \<^item> \<open>Ledger\<close> (\<open>gateway/ledger.py\<close>): the write path of a spend event. \<open>Spend\<close> (\<open>SpendEventRepository\<close>, \<open>QuotaStateRepository\<close>,
    \<open>handle_cost_ledger_write\<close>): the tables behind it, their reports and the job that writes them.
  \<^item> \<open>Gateway\<close>, \<open>Gateway_Stream\<close> (\<open>gateway/service.py\<close>): \<open>generate\<close> and \<open>_stream_impl\<close> from the decision to the
    settlement of budgets, with the adapter table and the fallback loops.
  \<^item> \<open>Admission\<close> (\<open>gateway/admission.py\<close>): the concurrency gate of one process as a step relation over interleaved tasks.
  \<^item> \<open>Model_Access\<close> (\<open>modules/model_catalog\<close>, prompt versions): which model and prompt a tenant's turn gets. \<open>Cache_Manager\<close>
    (\<open>infrastructure/cache/manager.py\<close>, \<open>patterns/idempotency.py\<close>): the shared cache, its locks and the idempotency guard.

  Threads and sessions:

  \<^item> \<open>Context\<close> (\<open>context/estimator.py\<close>, \<open>context/assembler.py\<close>): token estimates and the budgeted prompt.
  \<^item> \<open>Thread_Store\<close> (\<open>infrastructure/db/threads.py\<close>, tables of \<open>infrastructure/db/models.py\<close>): every query and
    transaction on threads, messages, parts and events.
  \<^item> \<open>Thread_Mutation\<close> (\<open>session/service.py\<close>, erasure in \<open>application/tenant_lifecycle/service.py\<close>): regenerate,
    edit, fork and erase as sequences of transactions.
  \<^item> \<open>Compaction\<close> (\<open>application/compaction/service.py\<close>, \<open>refresh.py\<close>): trigger, summary schema, chunk-and-merge,
    snapshot, split, checkpoint swap, degraded fallback, background refresh. Its page walks are proved once in the
    locale \<open>paged_log\<close>, which the thread store interprets.
  \<^item> \<open>Session_Context\<close> (two loaders of \<open>api/routes/conversations.py\<close>): how a turn reads the thread back.
  \<^item> \<open>Coordinator\<close> (\<open>session/coordinator.py\<close>): one generation per thread, with a local lock and a leased Redis lock, as
    a step relation over tasks of several processes.
  \<^item> \<open>Session_Tokens\<close> (\<open>session/tokens.py\<close> and its two repositories): minting, resolving, revoking.
  \<^item> \<open>Session_Limits\<close> (\<open>session/limits.py\<close>, \<open>session/hot_tier.py\<close>): the limits of an end user and the cached thread tail.
  \<^item> \<open>Stream_Buffer\<close> (\<open>infrastructure/stream/buffer.py\<close>): chunks of a streamed turn in Redis, in memory and in the overflow
    table, and their replay. \<open>Moderation\<close> (\<open>application/validation/streaming.py\<close>): the moderation window.

  Governance, safety and the agent loop:

  \<^item> \<open>Governance\<close> (\<open>modules/tenant_config\<close>, \<open>governance\<close>): the tenant's configuration, budgets, the tool gate, names of
    tenants in shared stores, regions.
  \<^item> \<open>Config_Versions\<close> (\<open>governance/promotion.py\<close>, the versions repository, canaries, routes): drafts, approval, promotion,
    canary, rollback. \<open>Audit_Trail\<close> (\<open>AuditRepository\<close>): the hash chain.
  \<^item> \<open>Policy\<close> (\<open>domain/policy\<close>, the policy repository and service): rules, evaluation, drafts and revisions.
  \<^item> \<open>Guard_Engines\<close>, \<open>Guardrails\<close> (\<open>modules/guardrails\<close>, \<open>domain/safety\<close>): the engines with their pattern tables, and the pipeline
    that runs each behind a breaker and a rate limit.
  \<^item> \<open>Grounding\<close> (\<open>modules/grounding\<close>): faithfulness by word overlap. \<open>Tools\<close> (\<open>application/tools/registry.py\<close>): the registry.
  \<^item> \<open>Orchestration\<close> (\<open>application/orchestration/service.py\<close>): the nodes, the conditional edges and the run of the graph;
    it interprets \<open>bounded_graph\<close> and uses the policies, the grounding check, the tool gate and the registry. \<open>Loop_Effects\<close>: what
    a turn does to the world outside the loop is what its services do.
  \<^item> \<open>Turn_Route\<close>, \<open>Stream_Route\<close> (\<open>api/routes/conversations.py\<close>): the two requests of a turn from the principal to the
    response, with the hooks they hand to the loop. The locales \<open>turn_property\<close> and \<open>turn_invariant\<close> carry a property of the world
    through every step of the route; they are interpreted on the locks and permits held and on the thread log.

  People and administrators:

  \<^item> \<open>Ticketing\<close> (\<open>adapters/ticketing\<close>): the helpdesk adapters, all interpretations of the locale \<open>helpdesk\<close>. \<open>Handoff\<close>
    (\<open>application/handoff\<close>), \<open>Escalation\<close> (\<open>modules/escalation\<close>): handing a conversation to a person and working on it.
  \<^item> \<open>Totp\<close> (\<open>modules/security/totp.py\<close>): one-time codes on machine words. \<open>Auth\<close> (\<open>api/dependencies/auth.py\<close>,
    \<open>api/routes/operator_auth.py\<close>, \<open>modules/sso/oidc.py\<close>): keys, operator sessions, single sign-on, the second factor.
  \<^item> \<open>Tenant_Lifecycle\<close> (\<open>application/tenant_lifecycle/service.py\<close>): export, erasure, offboarding.

  Knowledge and background work:

  \<^item> \<open>Ingestion\<close> (\<open>application/ingestion\<close>): chunking and the admission of documents. \<open>Lexical_Index\<close>, \<open>Retrieval\<close>
    (\<open>application/retrieval\<close>, \<open>modules/rag\<close>): the BM25 index, vector search (locale \<open>vector_search\<close>), fusion, reranking, caching.
  \<^item> \<open>Memory_Facts\<close> (\<open>application/memory\<close>, \<open>infrastructure/db/memory.py\<close>): facts about end users.
  \<^item> \<open>Job_Queue\<close> (\<open>infrastructure/queue/manager.py\<close>, \<open>worker/main.py\<close>): the queue in Redis and in memory, both interpretations of the
    locale \<open>work_queue\<close>, the scheduler and the once mode. \<open>Webhooks\<close> (\<open>modules/webhooks\<close>): signatures, outbox, deliveries.
  \<^item> \<open>Quality_Monitor\<close> (\<open>worker/quality_monitor.py\<close>, \<open>worker/eval_extractor.py\<close>), \<open>Archive\<close> (\<open>application/archive\<close>,
    \<open>worker/retention.py\<close>): sampling of answers, cold storage and retention.
  \<^item> \<open>Replica_Router\<close> (\<open>infrastructure/db/replicas.py\<close>), \<open>Last_Active\<close> (\<open>infrastructure/patterns/last_active.py\<close>): which
    database serves a read, and batched usage counters.

  \<^bold>\<open>Correspondence.\<close> A class is a record of its fields and one definition per method with the method's name; a
  method that changes state takes the state last and returns it updated; a raised exception is a value \<^const>\<open>Inl\<close> of
  an error datatype that lists the exceptions of the module. A module's dictionary is a map or an association list.
  Services outside the repository are parameters: the provider call, the key resolver, Redis (a record of commands
  over an abstract state \<open>'w\<close>, with the laws of \<open>Redis_Iface\<close> as hypotheses where a theorem needs them), \<open>uuid4\<close>,
  clocks, \<open>sha256\<close>, Fernet, text embedding, Presidio, NeMo, tool executors and \<open>json.loads\<close>.

  \<^bold>\<open>What the theorems show.\<close> For the agent loop: a turn ends before the recursion limit of the graph, a released answer was approved,
  a tool call the gate refuses never runs whatever the other calls of the batch do. For the gateway: the budgets after \<open>generate\<close> or a
  stream follow the outcome, with no reservation left behind except on a configuration error, where exactly the reservation is shown to
  stay; an exhausted chain has really attempted every target of the last failure's class; a cached
  answer calls no provider; a stream ends exactly once and its text is the result's. For budgets and limits: a
  reservation stays within every level or is rolled back, concurrent requests never overspend a level beyond their overruns, both buckets
  have a rate bound, the tasks one process admits stay within the configured concurrency. For the caches: an accepted entry is returned
  by every lookup Redis answers, tenants do not see each other's entries, invalidation is complete. For the thread store: numbers ascend under every
  interleaving of transactions, a retried append writes once, forks copy a prefix, mutations only append. For compaction: it extends the
  summary or changes nothing, and within the read and snapshot limits the next turn reads, beyond the summary, the turns of the kept tail.
  For the prompt: it stays within budget, in block order, and fails closed on unredacted text. For sessions: leased locks exclude each other while
  their leases last, and the lock of a crashed holder goes to a turn that still waits for it; a
  token resolves to what was minted until it expires or is revoked; a replay returns every chunk above the client's
  number. For safety: without fail-open an input is allowed only when every enabled layer passed it and certain injections never are; a
  moderated stream sends what the validator's answers to its windows allow, unvalidated where the validator raised; two flaws are
  exact (an open layer stays open; output is never redacted). For the turn routes: locks and permits are given back on
  every path, the thread log only grows, the model runs behind the guardrails, a reconnect resumes the stream.

  For administration: changing one hashed field of a chained row is found (moving a bar between two fields is not), versions are
  append-only and served as promoted, policies decide by the first decisive rule and published sets do not change; a principal has a live
  credential, a proof of the second factor is a signed one within its lifetime, an exchange code works once; erasure removes exactly
  what is listed, and what it leaves is listed too. For knowledge: recursive chunking loses no text outside its separators, the incremental index scores
  as Okapi BM25 over the stored texts, hybrid retrieval stays within the tenant, extraction stores only redacted facts, and after
  one that stored some the next does nothing. For the worker: jobs come by priority and in order, the once mode in memory ends with every job finished or in the dead letters, each
  scheduled window enqueues once, a delivery is queued once per subscription in memory, a signature is accepted exactly while recent. For
  the books: windows equal the sum of the spend events, usage counts are conserved while the primary commits, an archived thread restores as it was,
  retention removes only what is expired. Where the code does not do what it means to, a theorem states what it does instead (for example
  \<open>once_mode_hangs_on_redis\<close>, \<open>failed_push_loses_keyed_job\<close>, \<open>exact_fit_raises\<close>, \<open>sso_session_passes_every_check\<close>).

  \<^bold>\<open>Idealisations.\<close> Floating-point amounts and times are rational numbers; integers are unbounded, as in Python; strings are
  ASCII; text produced by \<open>json.dumps\<close> and stored is the JSON value itself. Awaits inside one operation are not
  interleaved with other operations except where interleaving is the point (\<open>Quota\<close>, \<open>Admission\<close>, \<open>Thread_Store\<close>, \<open>Coordinator\<close>,
  which have step relations); calls that the code gathers concurrently (tool calls of one step, parallel guardrail layers) are evaluated in
  the order of the list. Whether a call exceeds its time limit is an argument. Where a query leaves the order of equal rows open, the
  model keeps the order of insertion. Loops are structural or have a termination measure: the untried deployments in the
  fallback loops, the merge depth, the snapshot bound; the loops without a bound of their own are partial functions: \<open>_count_since\<close>
  and the page walk of the extraction are proved to return, fixed-size chunking when the overlap is smaller than the size, the once mode
  of the worker over the queue in memory (over Redis with no job of high priority it is proved not to). The only fuel is the recursion limit that the program itself gives its graph, and \<open>Orchestration\<close> proves that
  a turn ends before it.

  \<^bold>\<open>Not modelled.\<close> Metrics, logs, traces and health checks; HTTP routes beyond those named; the adapters of model
  providers, of MCP tools and of Presidio (parameters); embedding models and the SQL of the vector table; evaluation and red-team
  harnesses; onboarding and the export of a whole tenant; settings and schema migrations; browser code. Cancellation in the middle of a
  stream is not represented.
\<close>

end
